(* ===== verification/RuntimePrelude.thy ===== *)
theory RuntimePrelude
  imports Complex_Main "HOL-Library.AList"
begin

text \<open>
  Shared ground of the development.

  \<^item> Python dictionaries: association lists in insertion order. Assigning to an existing key keeps
    its position, assigning to a new key appends, deleting removes the entry. \<open>AList.update\<close> and
    \<open>AList.delete\<close> of the library do exactly that, so the operations are abbreviations of them.
    A dictionary value of the model has distinct keys (\<open>dict_wf\<close>).
  \<^item> The outcome of a call that takes a non-reentrant \<open>threading.Lock\<close>: it returns, raises, or
    waits for ever on a lock its own thread already holds.
  \<^item> Python's decimal rendering and reading of integers.
  \<^item> Interfaces: a keyed store and a system with an inductive invariant.
\<close>

section \<open>Collections of rewrite rules\<close>

named_theorems dict_simps
named_theorems inv_rules

section \<open>Python dictionaries\<close>

type_synonym ('k, 'v) dict = "('k \<times> 'v) list"

abbreviation dget :: "('k, 'v) dict \<Rightarrow> 'k \<Rightarrow> 'v option" where
  "dget m k \<equiv> map_of m k"

abbreviation dput :: "'k \<Rightarrow> 'v \<Rightarrow> ('k, 'v) dict \<Rightarrow> ('k, 'v) dict" where
  "dput k v m \<equiv> AList.update k v m"

abbreviation ddel :: "'k \<Rightarrow> ('k, 'v) dict \<Rightarrow> ('k, 'v) dict" where
  "ddel k m \<equiv> AList.delete k m"

abbreviation dkeys :: "('k, 'v) dict \<Rightarrow> 'k list" where
  "dkeys m \<equiv> map fst m"

abbreviation dvals :: "('k, 'v) dict \<Rightarrow> 'v list" where
  "dvals m \<equiv> map snd m"

definition dict_wf :: "('k, 'v) dict \<Rightarrow> bool" where
  "dict_wf m \<longleftrightarrow> distinct (map fst m)"

text \<open>\<open>m.get(k, d)\<close>.\<close>

definition dget_or :: "('k, 'v) dict \<Rightarrow> 'k \<Rightarrow> 'v \<Rightarrow> 'v" where
  "dget_or m k d = (case dget m k of None \<Rightarrow> d | Some v \<Rightarrow> v)"

lemma dict_wf_Nil [simp, intro]: "dict_wf []"
  by (simp add: dict_wf_def)

lemma dict_wf_dput [simp, intro]: "dict_wf m \<Longrightarrow> dict_wf (dput k v m)"
  by (simp add: dict_wf_def distinct_update)

lemma dict_wf_ddel [simp, intro]: "dict_wf m \<Longrightarrow> dict_wf (ddel k m)"
  by (simp add: dict_wf_def distinct_delete)

lemma dget_dput [simp, dict_simps]: "dget (dput k v m) k' = (if k' = k then Some v else dget m k')"
  by (simp add: update_conv')

lemma dget_ddel [simp, dict_simps]: "dget (ddel k m) k' = (if k' = k then None else dget m k')"
  by (simp add: delete_conv')

lemma dget_or_dput [simp]: "dget_or (dput k v m) k' d = (if k' = k then v else dget_or m k' d)"
  by (simp add: dget_or_def)

lemma dget_or_Nil [simp]: "dget_or [] k d = d"
  by (simp add: dget_or_def)

lemma set_dkeys: "set (dkeys m) = {k. dget m k \<noteq> None}"
  using dom_map_of_conv_image_fst [of m] by (auto simp: dom_def)

lemma dget_Some_iff: "dict_wf m \<Longrightarrow> dget m k = Some v \<longleftrightarrow> (k, v) \<in> set m"
  by (simp add: dict_wf_def)

lemma dget_None_iff: "dget m k = None \<longleftrightarrow> k \<notin> set (dkeys m)"
  by (simp add: map_of_eq_None_iff)

lemma length_dput: "length (dput k v m) = (if dget m k = None then Suc (length m) else length m)"
  by (induction m) auto

lemma dput_new: "dget m k = None \<Longrightarrow> dput k v m = m @ [(k, v)]"
  by (induction m) (auto split: if_splits)

lemma ddel_absent: "dget m k = None \<Longrightarrow> ddel k m = m"
  by (induction m) (auto split: if_splits)

lemma length_ddel: "dict_wf m \<Longrightarrow> dget m k = Some v \<Longrightarrow> Suc (length (ddel k m)) = length m"
proof (induction m)
  case Nil
  then show ?case by simp
next
  case (Cons p m)
  then show ?case
    by (cases p) (auto simp: dict_wf_def ddel_absent dget_None_iff split: if_splits)
qed

subsection \<open>Sums over the values of a dictionary\<close>

definition dsum :: "('v \<Rightarrow> 'a::ab_group_add) \<Rightarrow> ('k, 'v) dict \<Rightarrow> 'a" where
  "dsum f m = sum_list (map (\<lambda>p. f (snd p)) m)"

lemma dsum_Nil [simp]: "dsum f [] = 0"
  by (simp add: dsum_def)

lemma dsum_Cons [simp]: "dsum f (p # m) = f (snd p) + dsum f m"
  by (simp add: dsum_def)

lemma dsum_dput_new: "dget m k = None \<Longrightarrow> dsum f (dput k v m) = dsum f m + f v"
  by (simp add: dput_new dsum_def)

lemma dsum_dput_old: "dget m k = Some w \<Longrightarrow> dsum f (dput k v m) = dsum f m - f w + f v"
  by (induction m) (auto simp: algebra_simps)

lemma dsum_ddel: "dict_wf m \<Longrightarrow> dget m k = Some w \<Longrightarrow> dsum f (ddel k m) = dsum f m - f w"
proof (induction m)
  case Nil
  then show ?case by simp
next
  case (Cons p m)
  then show ?case
  proof (cases "fst p = k")
    case True
    with Cons.prems have "dget m k = None"
      by (auto simp: dict_wf_def dget_None_iff)
    with True Cons.prems show ?thesis
      by (cases p) (auto simp: ddel_absent algebra_simps)
  next
    case False
    with Cons show ?thesis
      by (cases p) (auto simp: dict_wf_def algebra_simps)
  qed
qed

lemma dsum_nonneg:
  fixes f :: "'v \<Rightarrow> 'a::ordered_ab_group_add"
  shows "(\<And>k v. (k, v) \<in> set m \<Longrightarrow> 0 \<le> f v) \<Longrightarrow> 0 \<le> dsum f m"
  unfolding dsum_def by (rule sum_list_nonneg) auto

section \<open>Calls that take a lock\<close>

text \<open>
  \<open>threading.Lock\<close> is not reentrant: a thread that asks for a lock it already holds waits for
  ever. A method that may be called with the lock held takes a flag saying so, and its outcome
  says whether it returns.
\<close>

datatype py_error = AttributeError string | KeyError string | ValueError string
  | IndexError | TypeError string | RuntimeError string

text \<open>Steps that may raise, in sequence.\<close>

definition sum_bind :: "'e + 'a \<Rightarrow> ('a \<Rightarrow> 'e + 'b) \<Rightarrow> 'e + 'b" where
  "sum_bind x f = (case x of Inl e \<Rightarrow> Inl e | Inr a \<Rightarrow> f a)"

lemma sum_bind_simps [simp]:
  "sum_bind (Inl e) f = Inl e" "sum_bind (Inr a) f = f a"
  by (simp_all add: sum_bind_def)

lemma sum_bind_Inr_iff: "sum_bind x f = Inr y \<longleftrightarrow> (\<exists>a. x = Inr a \<and> f a = Inr y)"
  by (cases x) simp_all

datatype 'a run = Returns 'a | Raises py_error | SelfDeadlock

definition with_lock :: "bool \<Rightarrow> 'a run \<Rightarrow> 'a run" where
  "with_lock held body = (if held then SelfDeadlock else body)"

fun run_bind :: "'a run \<Rightarrow> ('a \<Rightarrow> 'b run) \<Rightarrow> 'b run" where
  "run_bind (Returns x) f = f x"
| "run_bind (Raises e) f = Raises e"
| "run_bind SelfDeadlock f = SelfDeadlock"

lemma with_lock_free [simp]: "with_lock False body = body"
  by (simp add: with_lock_def)

lemma with_lock_held [simp]: "with_lock True body = SelfDeadlock"
  by (simp add: with_lock_def)

section \<open>Dynamically typed values\<close>

text \<open>
  The values the code puts into the dictionaries it builds for logs and API answers. \<open>JTime t\<close>
  stands for the ISO rendering of the time \<open>t\<close>; the rendering itself is not modelled.
\<close>

datatype jval = JNone | JBool bool | JInt int | JReal real | JStr string | JStrs "string list"
  | JTime real | JDict "(string \<times> jval) list" | JList "jval list"

definition truthy_str :: "string option \<Rightarrow> bool" where
  "truthy_str s \<longleftrightarrow> s \<noteq> None \<and> s \<noteq> Some []"

definition jopt :: "('a \<Rightarrow> jval) \<Rightarrow> 'a option \<Rightarrow> jval" where
  "jopt f x = (case x of None \<Rightarrow> JNone | Some v \<Rightarrow> f v)"

text \<open>\<open>d.update(e)\<close>: the entries of \<open>e\<close>, in order, written into \<open>d\<close>.\<close>

definition dict_update :: "('k, 'v) dict \<Rightarrow> ('k, 'v) dict \<Rightarrow> ('k, 'v) dict" where
  "dict_update d e = foldl (\<lambda>m (k, v). dput k v m) d e"

text \<open>\<open>if c: d[k] = v\<close>.\<close>

definition dput_if :: "bool \<Rightarrow> 'k \<Rightarrow> 'v \<Rightarrow> ('k, 'v) dict \<Rightarrow> ('k, 'v) dict" where
  "dput_if c k v d = (if c then dput k v d else d)"

lemma dget_dput_if [simp]: "dget (dput_if c k v d) k' = (if c \<and> k' = k then Some v else dget d k')"
  by (simp add: dput_if_def)

lemma dict_update_Nil [simp]: "dict_update d [] = d"
  by (simp add: dict_update_def)

lemma dict_update_Cons [simp]: "dict_update d ((k, v) # e) = dict_update (dput k v d) e"
  by (simp add: dict_update_def)

lemma dget_dict_update_notin: "k \<notin> set (dkeys e) \<Longrightarrow> dget (dict_update d e) k = dget d k"
proof (induction e arbitrary: d)
  case Nil
  then show ?case by simp
next
  case (Cons p e)
  then show ?case by (cases p) simp
qed

text \<open>\<open>sep.join(parts)\<close>.\<close>

fun py_join :: "string \<Rightarrow> string list \<Rightarrow> string" where
  "py_join sep [] = []"
| "py_join sep [x] = x"
| "py_join sep (x # y # ys) = x @ sep @ py_join sep (y # ys)"

text \<open>\<open>s.split(c)\<close> for a one-character separator.\<close>

fun py_split :: "char \<Rightarrow> string \<Rightarrow> string list" where
  "py_split c [] = [[]]"
| "py_split c (x # xs) =
     (if x = c then [] # py_split c xs
      else (case py_split c xs of [] \<Rightarrow> [[x]] | w # ws \<Rightarrow> (x # w) # ws))"

text \<open>\<open>s.split(c, 1)\<close>: the part before the first separator and, when there is one, the rest.\<close>

fun py_split1 :: "char \<Rightarrow> string \<Rightarrow> string \<times> string option" where
  "py_split1 c [] = ([], None)"
| "py_split1 c (x # xs) =
     (if x = c then ([], Some xs) else (let (a, b) = py_split1 c xs in (x # a, b)))"

lemma py_split_nonempty [simp]: "py_split c s \<noteq> []"
  by (cases s) (auto split: list.splits)

lemma py_split_no_sep: "w \<in> set (py_split c s) \<Longrightarrow> c \<notin> set w"
proof (induction s arbitrary: w)
  case Nil
  then show ?case by simp
next
  case (Cons x s)
  then show ?case by (auto split: if_splits list.splits)
qed

lemma py_join_split: "py_join [c] (py_split c s) = s"
proof (induction s)
  case Nil
  then show ?case by simp
next
  case (Cons x s)
  obtain w ws where w: "py_split c s = w # ws" by (cases "py_split c s") auto
  with Cons show ?case by (cases ws) auto
qed

lemma py_split_absent: "c \<notin> set s \<Longrightarrow> py_split c s = [s]"
  by (induction s) auto

lemma py_split_append: "c \<notin> set w \<Longrightarrow> py_split c (w @ c # s) = w # py_split c s"
  by (induction w) auto

lemma py_split_join:
  "ws \<noteq> [] \<Longrightarrow> \<forall>w\<in>set ws. c \<notin> set w \<Longrightarrow> py_split c (py_join [c] ws) = ws"
  by (induction "[c]" ws rule: py_join.induct) (auto simp: py_split_absent py_split_append)

lemma py_split1_absent: "c \<notin> set s \<Longrightarrow> py_split1 c s = (s, None)"
  by (induction s) auto

lemma py_split1_append: "c \<notin> set w \<Longrightarrow> py_split1 c (w @ c # s) = (w, Some s)"
  by (induction w) auto

lemma py_split1_cases:
  "case py_split1 c s of (a, None) \<Rightarrow> s = a \<and> c \<notin> set s | (a, Some b) \<Rightarrow> s = a @ c # b \<and> c \<notin> set a"
  by (induction s) (auto split: prod.splits option.splits)

section \<open>Decimal integers\<close>

definition digit_char :: "nat \<Rightarrow> char" where
  "digit_char d = char_of (48 + d)"

definition is_digit :: "char \<Rightarrow> bool" where
  "is_digit c \<longleftrightarrow> 48 \<le> (of_char c :: nat) \<and> (of_char c :: nat) \<le> 57"

definition digit_val :: "char \<Rightarrow> nat" where
  "digit_val c = of_char c - 48"

fun show_nat :: "nat \<Rightarrow> string" where
  "show_nat n = (if n < 10 then [digit_char n] else show_nat (n div 10) @ [digit_char (n mod 10)])"

declare show_nat.simps [simp del]

definition show_int :: "int \<Rightarrow> string" where
  "show_int i = (if i < 0 then ''-'' @ show_nat (nat (- i)) else show_nat (nat i))"

definition read_nat :: "string \<Rightarrow> nat" where
  "read_nat s = foldl (\<lambda>n c. 10 * n + digit_val c) 0 s"

lemma digit_val_digit_char [simp]: "d < 10 \<Longrightarrow> digit_val (digit_char d) = d"
  by (simp add: digit_val_def digit_char_def)

lemma is_digit_digit_char [simp]: "d < 10 \<Longrightarrow> is_digit (digit_char d)"
  by (simp add: is_digit_def digit_char_def)

lemma digit_char_digit_val [simp]: "is_digit c \<Longrightarrow> digit_char (digit_val c) = c"
  by (simp add: is_digit_def digit_char_def digit_val_def)

lemma digit_val_less [simp]: "is_digit c \<Longrightarrow> digit_val c < 10"
  unfolding is_digit_def digit_val_def by linarith

lemma show_nat_nonempty [simp]: "show_nat n \<noteq> []"
  by (subst show_nat.simps) simp

lemma show_nat_digits: "c \<in> set (show_nat n) \<Longrightarrow> is_digit c"
proof (induction n rule: show_nat.induct)
  case (1 n)
  show ?case
  proof (cases "n < 10")
    case True
    with "1.prems" show ?thesis by (subst (asm) show_nat.simps) simp
  next
    case False
    with "1.prems" have "c \<in> set (show_nat (n div 10)) \<or> c = digit_char (n mod 10)"
      by (subst (asm) show_nat.simps) auto
    with "1.IH" [OF False] show ?thesis by auto
  qed
qed

lemma read_nat_append: "read_nat (s @ [c]) = 10 * read_nat s + digit_val c"
  by (simp add: read_nat_def)

lemma read_show_nat [simp]: "read_nat (show_nat n) = n"
proof (induction n rule: show_nat.induct)
  case (1 n)
  show ?case
  proof (cases "n < 10")
    case True
    then show ?thesis by (subst show_nat.simps) (simp add: read_nat_def)
  next
    case False
    with "1.IH" have "read_nat (show_nat (n div 10)) = n div 10" by simp
    with False show ?thesis
      by (subst show_nat.simps) (simp add: read_nat_append)
  qed
qed

text \<open>\<open>round(x, d)\<close>: to \<open>d\<close> decimals, ties to the even neighbour.\<close>

definition py_round :: "nat \<Rightarrow> real \<Rightarrow> real" where
  "py_round d x =
     (let y = x * 10 ^ d; f = \<lfloor>y\<rfloor>; r = y - of_int f
      in of_int (if r < 1 / 2 then f else if 1 / 2 < r then f + 1
                 else if even f then f else f + 1) / 10 ^ d)"

section \<open>Interfaces\<close>

text \<open>
  A store keyed by \<open>'k\<close>: what every component that keeps entries by key relies on. \<open>fits k v\<close>
  says that \<open>v\<close> is an entry that may be stored under \<open>k\<close>.
\<close>

locale keyed_store =
  fixes lookup :: "'m \<Rightarrow> 'k \<Rightarrow> 'v option"
    and store :: "'k \<Rightarrow> 'v \<Rightarrow> 'm \<Rightarrow> 'm"
    and discard :: "'k \<Rightarrow> 'm \<Rightarrow> 'm"
    and wf :: "'m \<Rightarrow> bool"
    and fits :: "'k \<Rightarrow> 'v \<Rightarrow> bool"
  assumes lookup_store: "wf m \<Longrightarrow> fits k v \<Longrightarrow>
      lookup (store k v m) k' = (if k' = k then Some v else lookup m k')"
    and lookup_discard: "wf m \<Longrightarrow> lookup (discard k m) k' = (if k' = k then None else lookup m k')"
    and wf_store: "wf m \<Longrightarrow> fits k v \<Longrightarrow> wf (store k v m)"
    and wf_discard: "wf m \<Longrightarrow> wf (discard k m)"
begin

lemma store_twice:
  "wf m \<Longrightarrow> fits k v \<Longrightarrow> fits k u \<Longrightarrow>
     lookup (store k v (store k u m)) k' = lookup (store k v m) k'"
  by (simp add: lookup_store wf_store)

lemma store_commute:
  "wf m \<Longrightarrow> fits k v \<Longrightarrow> fits j u \<Longrightarrow> k \<noteq> j \<Longrightarrow>
     lookup (store k v (store j u m)) i = lookup (store j u (store k v m)) i"
  by (simp add: lookup_store wf_store)

lemma discard_store:
  "wf m \<Longrightarrow> fits k v \<Longrightarrow> lookup (discard k (store k v m)) k' = lookup (discard k m) k'"
  by (simp add: lookup_store lookup_discard wf_store)

lemma discard_twice: "wf m \<Longrightarrow> lookup (discard k (discard k m)) k' = lookup (discard k m) k'"
  by (simp add: lookup_discard wf_discard)

end

interpretation pydict: keyed_store dget dput ddel dict_wf "\<lambda>_ _. True"
  by unfold_locales auto

text \<open>
  A transition system with an inductive invariant: states reachable from an initial state keep
  whatever the initial states have and every step preserves.
\<close>

inductive reach :: "('s \<Rightarrow> bool) \<Rightarrow> ('s \<Rightarrow> 's \<Rightarrow> bool) \<Rightarrow> 's \<Rightarrow> bool" for ini step where
  reach_init: "ini s \<Longrightarrow> reach ini step s"
| reach_step: "reach ini step s \<Longrightarrow> step s t \<Longrightarrow> reach ini step t"

locale invariant_system =
  fixes ini :: "'s \<Rightarrow> bool"
    and step :: "'s \<Rightarrow> 's \<Rightarrow> bool"
    and invar :: "'s \<Rightarrow> bool"
  assumes init_invar: "ini s \<Longrightarrow> invar s"
    and step_invar: "step s t \<Longrightarrow> invar s \<Longrightarrow> invar t"
begin

lemma reach_invar: "reach ini step s \<Longrightarrow> invar s"
  by (induction rule: reach.induct) (auto intro: init_invar step_invar)

end

end
