(* ===== verification/RuntimeErrors.thy ===== *)
theory RuntimeErrors
  imports RuntimePrelude
begin

text \<open>
  The error taxonomy of \<open>ai/runtime/errors.py\<close>: the enumeration of error codes with its string
  values, category and retry classification, the error context, the error classes (one record with
  the class as a field) and the two dictionary renderings. The timestamp of an error and the text
  of its cause are arguments, because they come from the clock and from foreign exceptions.
\<close>

section \<open>Error codes\<close>

text \<open>
  Sixty-odd constructors: the optional plugins of the datatype package are left out, since what they
  prove grows with the square of the number of constructors.
\<close>

datatype (plugins only: code) ErrorCode =
    DISC_ROOT_NOT_FOUND
  | DISC_ROOT_NOT_DIRECTORY
  | DISC_PERMISSION_DENIED
  | DISC_INVALID_MODEL_ID
  | DISC_INVALID_VERSION
  | DISC_NO_VERSIONS
  | DISC_FORBIDDEN_SYMLINK
  | VAL_CONTRACT_NOT_FOUND
  | VAL_INVALID_YAML
  | VAL_MISSING_REQUIRED_FIELD
  | VAL_INVALID_FIELD_TYPE
  | VAL_FIELD_OUT_OF_RANGE
  | VAL_MODEL_ID_MISMATCH
  | VAL_VERSION_MISMATCH
  | VAL_REQUIRED_FILE_MISSING
  | VAL_INVALID_ENTRY_POINT
  | VAL_UNSUPPORTED_SCHEMA_VERSION
  | VAL_HARDWARE_INCOMPATIBLE
  | VAL_INVALID_INPUT_TYPE
  | VAL_INVALID_OUTPUT_SCHEMA
  | VAL_FORBIDDEN_CONTENT
  | LOAD_IMPORT_FAILED
  | LOAD_INFER_NOT_FOUND
  | LOAD_PREPROCESS_NOT_FOUND
  | LOAD_POSTPROCESS_NOT_FOUND
  | LOAD_SYNTAX_ERROR
  | LOAD_WEIGHTS_FAILED
  | LOAD_OUT_OF_MEMORY
  | LOAD_TIMEOUT
  | LOAD_WARMUP_FAILED
  | LOAD_MISSING_DEPENDENCY
  | LOAD_GENERIC_ERROR
  | CONTRACT_PARSE_ERROR
  | CONTRACT_SCHEMA_ERROR
  | CONTRACT_CONDITIONAL_ERROR
  | EXEC_PREPROCESS_FAILED
  | EXEC_PREPROCESS_TIMEOUT
  | EXEC_INFERENCE_FAILED
  | EXEC_INFERENCE_TIMEOUT
  | EXEC_POSTPROCESS_FAILED
  | EXEC_POSTPROCESS_TIMEOUT
  | EXEC_OUT_OF_MEMORY
  | EXEC_INVALID_INPUT
  | EXEC_INVALID_OUTPUT
  | EXEC_CANCELLED
  | EXEC_MODEL_NOT_READY
  | EXEC_GENERIC_ERROR
  | PIPE_MODEL_NOT_FOUND
  | PIPE_VERSION_NOT_FOUND
  | PIPE_MODEL_NOT_READY
  | PIPE_MODEL_UNHEALTHY
  | PIPE_VERSION_NOT_READY
  | PIPE_VERSION_UNHEALTHY
  | PIPE_NO_ELIGIBLE_VERSION
  | PIPE_VERSION_RESOLUTION_FAILED
  | PIPE_INVALID_FRAME_REF
  | PIPE_INPUT_TYPE_MISMATCH
  | PIPE_BATCH_SIZE_INVALID
  | PIPE_TEMPORAL_LENGTH_INVALID
  | PIPE_NO_SANDBOX
  | PIPE_REQUEST_INVALID
  | PIPE_CONCURRENCY_REJECTED
  | PIPE_CONCURRENCY_GLOBAL_LIMIT
  | PIPE_CONCURRENCY_MODEL_LIMIT
  | PIPE_CONCURRENCY_VERSION_LIMIT
  | PIPE_CONCURRENCY_BACKPRESSURE
  | PIPE_GENERIC_ERROR

primrec error_value :: "ErrorCode \<Rightarrow> string" where
  "error_value DISC_ROOT_NOT_FOUND = ''DISC_ROOT_NOT_FOUND''"
| "error_value DISC_ROOT_NOT_DIRECTORY = ''DISC_ROOT_NOT_DIRECTORY''"
| "error_value DISC_PERMISSION_DENIED = ''DISC_PERMISSION_DENIED''"
| "error_value DISC_INVALID_MODEL_ID = ''DISC_INVALID_MODEL_ID''"
| "error_value DISC_INVALID_VERSION = ''DISC_INVALID_VERSION''"
| "error_value DISC_NO_VERSIONS = ''DISC_NO_VERSIONS''"
| "error_value DISC_FORBIDDEN_SYMLINK = ''DISC_FORBIDDEN_SYMLINK''"
| "error_value VAL_CONTRACT_NOT_FOUND = ''VAL_CONTRACT_NOT_FOUND''"
| "error_value VAL_INVALID_YAML = ''VAL_INVALID_YAML''"
| "error_value VAL_MISSING_REQUIRED_FIELD = ''VAL_MISSING_REQUIRED_FIELD''"
| "error_value VAL_INVALID_FIELD_TYPE = ''VAL_INVALID_FIELD_TYPE''"
| "error_value VAL_FIELD_OUT_OF_RANGE = ''VAL_FIELD_OUT_OF_RANGE''"
| "error_value VAL_MODEL_ID_MISMATCH = ''VAL_MODEL_ID_MISMATCH''"
| "error_value VAL_VERSION_MISMATCH = ''VAL_VERSION_MISMATCH''"
| "error_value VAL_REQUIRED_FILE_MISSING = ''VAL_REQUIRED_FILE_MISSING''"
| "error_value VAL_INVALID_ENTRY_POINT = ''VAL_INVALID_ENTRY_POINT''"
| "error_value VAL_UNSUPPORTED_SCHEMA_VERSION = ''VAL_UNSUPPORTED_SCHEMA_VERSION''"
| "error_value VAL_HARDWARE_INCOMPATIBLE = ''VAL_HARDWARE_INCOMPATIBLE''"
| "error_value VAL_INVALID_INPUT_TYPE = ''VAL_INVALID_INPUT_TYPE''"
| "error_value VAL_INVALID_OUTPUT_SCHEMA = ''VAL_INVALID_OUTPUT_SCHEMA''"
| "error_value VAL_FORBIDDEN_CONTENT = ''VAL_FORBIDDEN_CONTENT''"
| "error_value LOAD_IMPORT_FAILED = ''LOAD_IMPORT_FAILED''"
| "error_value LOAD_INFER_NOT_FOUND = ''LOAD_INFER_NOT_FOUND''"
| "error_value LOAD_PREPROCESS_NOT_FOUND = ''LOAD_PREPROCESS_NOT_FOUND''"
| "error_value LOAD_POSTPROCESS_NOT_FOUND = ''LOAD_POSTPROCESS_NOT_FOUND''"
| "error_value LOAD_SYNTAX_ERROR = ''LOAD_SYNTAX_ERROR''"
| "error_value LOAD_WEIGHTS_FAILED = ''LOAD_WEIGHTS_FAILED''"
| "error_value LOAD_OUT_OF_MEMORY = ''LOAD_OUT_OF_MEMORY''"
| "error_value LOAD_TIMEOUT = ''LOAD_TIMEOUT''"
| "error_value LOAD_WARMUP_FAILED = ''LOAD_WARMUP_FAILED''"
| "error_value LOAD_MISSING_DEPENDENCY = ''LOAD_MISSING_DEPENDENCY''"
| "error_value LOAD_GENERIC_ERROR = ''LOAD_GENERIC_ERROR''"
| "error_value CONTRACT_PARSE_ERROR = ''CONTRACT_PARSE_ERROR''"
| "error_value CONTRACT_SCHEMA_ERROR = ''CONTRACT_SCHEMA_ERROR''"
| "error_value CONTRACT_CONDITIONAL_ERROR = ''CONTRACT_CONDITIONAL_ERROR''"
| "error_value EXEC_PREPROCESS_FAILED = ''EXEC_PREPROCESS_FAILED''"
| "error_value EXEC_PREPROCESS_TIMEOUT = ''EXEC_PREPROCESS_TIMEOUT''"
| "error_value EXEC_INFERENCE_FAILED = ''EXEC_INFERENCE_FAILED''"
| "error_value EXEC_INFERENCE_TIMEOUT = ''EXEC_INFERENCE_TIMEOUT''"
| "error_value EXEC_POSTPROCESS_FAILED = ''EXEC_POSTPROCESS_FAILED''"
| "error_value EXEC_POSTPROCESS_TIMEOUT = ''EXEC_POSTPROCESS_TIMEOUT''"
| "error_value EXEC_OUT_OF_MEMORY = ''EXEC_OUT_OF_MEMORY''"
| "error_value EXEC_INVALID_INPUT = ''EXEC_INVALID_INPUT''"
| "error_value EXEC_INVALID_OUTPUT = ''EXEC_INVALID_OUTPUT''"
| "error_value EXEC_CANCELLED = ''EXEC_CANCELLED''"
| "error_value EXEC_MODEL_NOT_READY = ''EXEC_MODEL_NOT_READY''"
| "error_value EXEC_GENERIC_ERROR = ''EXEC_GENERIC_ERROR''"
| "error_value PIPE_MODEL_NOT_FOUND = ''PIPE_MODEL_NOT_FOUND''"
| "error_value PIPE_VERSION_NOT_FOUND = ''PIPE_VERSION_NOT_FOUND''"
| "error_value PIPE_MODEL_NOT_READY = ''PIPE_MODEL_NOT_READY''"
| "error_value PIPE_MODEL_UNHEALTHY = ''PIPE_MODEL_UNHEALTHY''"
| "error_value PIPE_VERSION_NOT_READY = ''PIPE_VERSION_NOT_READY''"
| "error_value PIPE_VERSION_UNHEALTHY = ''PIPE_VERSION_UNHEALTHY''"
| "error_value PIPE_NO_ELIGIBLE_VERSION = ''PIPE_NO_ELIGIBLE_VERSION''"
| "error_value PIPE_VERSION_RESOLUTION_FAILED = ''PIPE_VERSION_RESOLUTION_FAILED''"
| "error_value PIPE_INVALID_FRAME_REF = ''PIPE_INVALID_FRAME_REF''"
| "error_value PIPE_INPUT_TYPE_MISMATCH = ''PIPE_INPUT_TYPE_MISMATCH''"
| "error_value PIPE_BATCH_SIZE_INVALID = ''PIPE_BATCH_SIZE_INVALID''"
| "error_value PIPE_TEMPORAL_LENGTH_INVALID = ''PIPE_TEMPORAL_LENGTH_INVALID''"
| "error_value PIPE_NO_SANDBOX = ''PIPE_NO_SANDBOX''"
| "error_value PIPE_REQUEST_INVALID = ''PIPE_REQUEST_INVALID''"
| "error_value PIPE_CONCURRENCY_REJECTED = ''PIPE_CONCURRENCY_REJECTED''"
| "error_value PIPE_CONCURRENCY_GLOBAL_LIMIT = ''PIPE_CONCURRENCY_GLOBAL_LIMIT''"
| "error_value PIPE_CONCURRENCY_MODEL_LIMIT = ''PIPE_CONCURRENCY_MODEL_LIMIT''"
| "error_value PIPE_CONCURRENCY_VERSION_LIMIT = ''PIPE_CONCURRENCY_VERSION_LIMIT''"
| "error_value PIPE_CONCURRENCY_BACKPRESSURE = ''PIPE_CONCURRENCY_BACKPRESSURE''"
| "error_value PIPE_GENERIC_ERROR = ''PIPE_GENERIC_ERROR''"

definition is_retryable :: "ErrorCode \<Rightarrow> bool" where
  "is_retryable c \<longleftrightarrow> c \<in> {
     DISC_PERMISSION_DENIED,
     LOAD_OUT_OF_MEMORY,
     LOAD_TIMEOUT,
     LOAD_WARMUP_FAILED,
     EXEC_PREPROCESS_TIMEOUT,
     EXEC_INFERENCE_TIMEOUT,
     EXEC_POSTPROCESS_TIMEOUT,
     EXEC_OUT_OF_MEMORY,
     PIPE_CONCURRENCY_REJECTED,
     PIPE_CONCURRENCY_GLOBAL_LIMIT,
     PIPE_CONCURRENCY_MODEL_LIMIT,
     PIPE_CONCURRENCY_VERSION_LIMIT,
     PIPE_CONCURRENCY_BACKPRESSURE}"

definition error_category :: "ErrorCode \<Rightarrow> string" where
  "error_category c = hd (py_split CHR ''_'' (error_value c))"

section \<open>Contexts and errors\<close>

record ErrorContext =
  ctx_model_id :: "string option"
  ctx_version :: "string option"
  ctx_path :: "string option"
  ctx_field_name :: "string option"
  ctx_expected :: "string option"
  ctx_actual :: "string option"
  ctx_details :: "(string, jval) dict"

definition jstr :: "string option \<Rightarrow> jval" where
  "jstr s = jopt JStr s"

text \<open>\<open>ErrorContext.to_dict\<close>. A \<open>Path\<close> object is always truthy.\<close>

definition context_to_dict :: "ErrorContext \<Rightarrow> (string, jval) dict" where
  "context_to_dict c =
     (let r0 = [];
          r1 = dput_if (truthy_str (ctx_model_id c)) ''model_id'' (jstr (ctx_model_id c)) r0;
          r2 = dput_if (truthy_str (ctx_version c)) ''version'' (jstr (ctx_version c)) r1;
          r3 = dput_if (ctx_path c \<noteq> None) ''path'' (jstr (ctx_path c)) r2;
          r4 = dput_if (truthy_str (ctx_field_name c)) ''field'' (jstr (ctx_field_name c)) r3;
          r5 = dput_if (truthy_str (ctx_expected c)) ''expected'' (jstr (ctx_expected c)) r4;
          r6 = dput_if (truthy_str (ctx_actual c)) ''actual'' (jstr (ctx_actual c)) r5
      in if ctx_details c \<noteq> [] then dict_update r6 (ctx_details c) else r6)"

datatype ErrorClass = DiscoveryError | ValidationError | LoadError | ContractError
  | ExecutionError | PipelineError

record ModelError =
  err_class :: ErrorClass
  err_code :: ErrorCode
  err_message :: string
  err_context :: ErrorContext
  err_cause :: "string option"
  err_recoverable :: bool
  err_timestamp :: real
  err_stage :: "string option"
  err_duration_ms :: "int option"
  err_request_id :: "string option"

text \<open>
  The \<open>recoverable\<close> argument each constructor hands to \<open>ModelError.__init__\<close>.
\<close>

definition class_recoverable :: "ErrorClass \<Rightarrow> ErrorCode \<Rightarrow> bool" where
  "class_recoverable k c =
     (case k of DiscoveryError \<Rightarrow> is_retryable c | ValidationError \<Rightarrow> False
      | LoadError \<Rightarrow> is_retryable c | ContractError \<Rightarrow> False
      | ExecutionError \<Rightarrow> is_retryable c | PipelineError \<Rightarrow> False)"

definition make_error :: "ErrorClass \<Rightarrow> real \<Rightarrow> ErrorCode \<Rightarrow> string \<Rightarrow> ErrorContext \<Rightarrow> string option \<Rightarrow> ModelError" where
  "make_error k now code message context cause =
     \<lparr>err_class = k, err_code = code, err_message = message, err_context = context,
      err_cause = cause, err_recoverable = class_recoverable k code, err_timestamp = now,
      err_stage = None, err_duration_ms = None, err_request_id = None\<rparr>"

definition make_context :: "string option \<Rightarrow> string option \<Rightarrow> (string, jval) dict \<Rightarrow> ErrorContext" where
  "make_context model_id version details =
     \<lparr>ctx_model_id = model_id, ctx_version = version, ctx_path = None, ctx_field_name = None,
      ctx_expected = None, ctx_actual = None, ctx_details = details\<rparr>"

definition execution_error ::
  "real \<Rightarrow> ErrorCode \<Rightarrow> string \<Rightarrow> string option \<Rightarrow> string option \<Rightarrow> string option \<Rightarrow> int option \<Rightarrow>
   string option \<Rightarrow> (string, jval) dict \<Rightarrow> ModelError" where
  "execution_error now code message model_id version stage duration_ms cause details =
     (make_error ExecutionError now code message (make_context model_id version details) cause)
       \<lparr>err_stage := stage, err_duration_ms := duration_ms\<rparr>"

definition pipeline_error ::
  "real \<Rightarrow> ErrorCode \<Rightarrow> string \<Rightarrow> string option \<Rightarrow> string option \<Rightarrow> string option \<Rightarrow>
   (string, jval) dict \<Rightarrow> ModelError" where
  "pipeline_error now code message model_id version request_id details =
     (make_error PipelineError now code message (make_context model_id version details) None)
       \<lparr>err_request_id := request_id\<rparr>"

text \<open>The builders for errors that concern a file.\<close>

definition file_context ::
  "string option \<Rightarrow> string option \<Rightarrow> string option \<Rightarrow> (string, jval) dict \<Rightarrow> ErrorContext" where
  "file_context model_id version path details = (make_context model_id version details)\<lparr>ctx_path := path\<rparr>"

definition discovery_error ::
  "real \<Rightarrow> ErrorCode \<Rightarrow> string \<Rightarrow> string option \<Rightarrow> string option \<Rightarrow> string option \<Rightarrow> string option \<Rightarrow>
   (string, jval) dict \<Rightarrow> ModelError" where
  "discovery_error now code message model_id version path cause details =
     make_error DiscoveryError now code message (file_context model_id version path details) cause"

definition validation_error ::
  "real \<Rightarrow> ErrorCode \<Rightarrow> string \<Rightarrow> string option \<Rightarrow> string option \<Rightarrow> string option \<Rightarrow> string option \<Rightarrow>
   string option \<Rightarrow> string option \<Rightarrow> (string, jval) dict \<Rightarrow> ModelError" where
  "validation_error now code message model_id version path field_name expected actual details =
     make_error ValidationError now code message
       ((file_context model_id version path details)
          \<lparr>ctx_field_name := field_name, ctx_expected := expected, ctx_actual := actual\<rparr>) None"

definition load_error ::
  "real \<Rightarrow> ErrorCode \<Rightarrow> string \<Rightarrow> string option \<Rightarrow> string option \<Rightarrow> string option \<Rightarrow> string option \<Rightarrow>
   (string, jval) dict \<Rightarrow> ModelError" where
  "load_error now code message model_id version path cause details =
     make_error LoadError now code message (file_context model_id version path details) cause"

definition contract_error ::
  "real \<Rightarrow> ErrorCode \<Rightarrow> string \<Rightarrow> string option \<Rightarrow> string option \<Rightarrow> string option \<Rightarrow> string option \<Rightarrow>
   string option \<Rightarrow> (string, jval) dict \<Rightarrow> ModelError" where
  "contract_error now code message model_id version path field_name cause details =
     make_error ContractError now code message
       ((file_context model_id version path details)\<lparr>ctx_field_name := field_name\<rparr>) cause"

definition error_str :: "ModelError \<Rightarrow> string" where
  "error_str e =
     (let c = err_context e;
          p0 = [''['' @ error_value (err_code e) @ ''] '' @ err_message e];
          p1 = (if truthy_str (ctx_model_id c) then p0 @ [''model='' @ the (ctx_model_id c)] else p0);
          p2 = (if truthy_str (ctx_version c) then p1 @ [''version='' @ the (ctx_version c)] else p1);
          p3 = (case ctx_path c of None \<Rightarrow> p2 | Some p \<Rightarrow> p2 @ [''path='' @ p])
      in py_join '' | '' p3)"

definition base_to_dict :: "ModelError \<Rightarrow> (string, jval) dict" where
  "base_to_dict e =
     [(''error_code'', JStr (error_value (err_code e))),
      (''error_category'', JStr (error_category (err_code e))),
      (''message'', JStr (err_message e)),
      (''recoverable'', JBool (err_recoverable e)),
      (''timestamp'', JTime (err_timestamp e)),
      (''context'', JDict (context_to_dict (err_context e))),
      (''cause'', jstr (err_cause e))]"

definition base_to_log_dict :: "ModelError \<Rightarrow> (string, jval) dict" where
  "base_to_log_dict e =
     (let r = [(''error_code'', JStr (error_value (err_code e))),
               (''error_message'', JStr (err_message e)),
               (''recoverable'', JBool (err_recoverable e))];
          r1 = dict_update r (context_to_dict (err_context e))
      in dput_if (err_cause e \<noteq> None) ''cause'' (jstr (err_cause e)) r1)"

text \<open>The overriding methods of \<open>ExecutionError\<close> and \<open>PipelineError\<close>.\<close>

definition class_fields :: "ModelError \<Rightarrow> (string, jval) dict \<Rightarrow> (string, jval) dict" where
  "class_fields e r =
     (case err_class e of
        ExecutionError \<Rightarrow>
          dput_if (err_duration_ms e \<noteq> None) ''duration_ms'' (jopt JInt (err_duration_ms e))
            (dput_if (truthy_str (err_stage e)) ''stage'' (jstr (err_stage e)) r)
      | PipelineError \<Rightarrow> dput_if (truthy_str (err_request_id e)) ''request_id'' (jstr (err_request_id e)) r
      | _ \<Rightarrow> r)"

definition error_to_dict :: "ModelError \<Rightarrow> (string, jval) dict" where
  "error_to_dict e = class_fields e (base_to_dict e)"

definition error_to_log_dict :: "ModelError \<Rightarrow> (string, jval) dict" where
  "error_to_log_dict e = class_fields e (base_to_log_dict e)"

section \<open>Lemmas\<close>

lemma pipeline_error_fields [simp]:
  "err_code (pipeline_error now c m i v r d) = c"
  "err_message (pipeline_error now c m i v r d) = m"
  "err_request_id (pipeline_error now c m i v r d) = r"
  "ctx_details (err_context (pipeline_error now c m i v r d)) = d"
  "ctx_model_id (err_context (pipeline_error now c m i v r d)) = i"
  "ctx_version (err_context (pipeline_error now c m i v r d)) = v"
  "err_recoverable (pipeline_error now c m i v r d) = False"
  "err_class (pipeline_error now c m i v r d) = PipelineError"
  by (simp_all add: pipeline_error_def make_error_def make_context_def class_recoverable_def)

lemma builder_codes [simp]:
  "err_code (discovery_error now c m i v p u d) = c"
  "err_code (validation_error now c m i v p f e a d) = c"
  "err_code (load_error now c m i v p u d) = c"
  "err_code (contract_error now c m i v p f u d) = c"
  "err_message (discovery_error now c m i v p u d) = m"
  "err_message (validation_error now c m i v p f e a d) = m"
  "err_message (load_error now c m i v p u d) = m"
  "err_message (contract_error now c m i v p f u d) = m"
  "ctx_field_name (err_context (validation_error now c m i v p f e a d)) = f"
  by (simp_all add: discovery_error_def validation_error_def load_error_def contract_error_def
      make_error_def)

lemma execution_error_fields [simp]:
  "err_code (execution_error now c m i v s t u d) = c"
  "err_message (execution_error now c m i v s t u d) = m"
  "err_stage (execution_error now c m i v s t u d) = s"
  "err_duration_ms (execution_error now c m i v s t u d) = t"
  "err_cause (execution_error now c m i v s t u d) = u"
  "err_recoverable (execution_error now c m i v s t u d) = is_retryable c"
  "err_class (execution_error now c m i v s t u d) = ExecutionError"
  by (simp_all add: execution_error_def make_error_def make_context_def class_recoverable_def)

text \<open>
  A detail whose key is one of the names of the flattened log record replaces that entry: nothing
  keeps a \<open>details\<close> keyword such as \<open>error_code\<close> apart from the error's own code.
\<close>

lemma log_dict_code:
  assumes "''error_code'' \<notin> set (dkeys (ctx_details (err_context e)))"
  shows "dget (error_to_log_dict e) ''error_code'' = Some (JStr (error_value (err_code e)))"
proof -
  have k: "dget (context_to_dict (err_context e)) ''error_code'' = None"
    using assms by (simp add: context_to_dict_def Let_def dget_dict_update_notin)
  then have "''error_code'' \<notin> set (dkeys (context_to_dict (err_context e)))"
    by (simp add: dget_None_iff)
  then have "dget (base_to_log_dict e) ''error_code'' = Some (JStr (error_value (err_code e)))"
    by (simp add: base_to_log_dict_def Let_def dget_dict_update_notin)
  then show ?thesis
    by (simp add: error_to_log_dict_def class_fields_def split: ErrorClass.splits)
qed

end
