(* ===== verification/Concurrency.thy ===== *)
theory Concurrency
  imports RuntimeErrors
begin

text \<open>
  \<open>ai/runtime/concurrency.py\<close>: slots, the per-model counters, the concurrency manager, the
  admission controller and the fair scheduler. Every public method of the manager runs under one
  lock from its first to its last access of the state, so its effect is one atomic step and the
  model is a function on the manager. Clock readings, the random hexadecimal digits of a slot id
  and the request are arguments: \<open>utc i\<close> is the \<open>i\<close>-th reading of \<open>datetime.utcnow\<close> in the call,
  \<open>mt\<close> a reading of \<open>time.monotonic\<close>. Ratios are exact reals where the code has floats; the two
  agree for counts below \<open>2 ^ 50\<close>, since rounding is monotone and the thresholds are themselves
  the rounded quotients.
\<close>

section \<open>Enumerations, slots and per-model state\<close>

datatype BackpressureLevel = BP_NONE | BP_SOFT | BP_HARD

datatype RejectionReason = GLOBAL_LIMIT | MODEL_LIMIT | VERSION_LIMIT | BACKPRESSURE | QUEUE_FULL
  | MODEL_NOT_REGISTERED | SHUTDOWN

fun bp_value :: "BackpressureLevel \<Rightarrow> string" where
  "bp_value BP_NONE = ''none''"
| "bp_value BP_SOFT = ''soft''"
| "bp_value BP_HARD = ''hard''"

fun reason_value :: "RejectionReason \<Rightarrow> string" where
  "reason_value GLOBAL_LIMIT = ''global_limit''"
| "reason_value MODEL_LIMIT = ''model_limit''"
| "reason_value VERSION_LIMIT = ''version_limit''"
| "reason_value BACKPRESSURE = ''backpressure''"
| "reason_value QUEUE_FULL = ''queue_full''"
| "reason_value MODEL_NOT_REGISTERED = ''model_not_registered''"
| "reason_value SHUTDOWN = ''shutdown''"

text \<open>
  \<open>sl_manager\<close> says whether the slot refers to a manager (\<open>_manager is not None\<close>).
\<close>

record ConcurrencySlot =
  sl_acquired :: bool
  sl_model_id :: string
  sl_version :: string
  sl_request_id :: string
  sl_slot_id :: "string option"
  sl_acquired_at :: "real option"
  sl_rejection_reason :: "RejectionReason option"
  sl_rejection_error :: "ModelError option"
  sl_manager :: bool
  sl_released :: bool

definition acquired_slot :: "real \<Rightarrow> string \<Rightarrow> string \<Rightarrow> string \<Rightarrow> string \<Rightarrow> ConcurrencySlot" where
  "acquired_slot utc model_id version request_id slot_id =
     \<lparr>sl_acquired = True, sl_model_id = model_id, sl_version = version, sl_request_id = request_id,
      sl_slot_id = Some slot_id, sl_acquired_at = Some utc, sl_rejection_reason = None,
      sl_rejection_error = None, sl_manager = True, sl_released = False\<rparr>"

definition rejected_slot ::
  "string \<Rightarrow> string \<Rightarrow> string \<Rightarrow> RejectionReason \<Rightarrow> ModelError \<Rightarrow> ConcurrencySlot" where
  "rejected_slot model_id version request_id reason error =
     \<lparr>sl_acquired = False, sl_model_id = model_id, sl_version = version, sl_request_id = request_id,
      sl_slot_id = None, sl_acquired_at = None, sl_rejection_reason = Some reason,
      sl_rejection_error = Some error, sl_manager = False, sl_released = False\<rparr>"

record ModelConcurrencyState =
  mc_model_id :: string
  mc_max_concurrent :: int
  mc_version_limits :: "(string, int) dict"
  mc_active_count :: int
  mc_active_by_version :: "(string, int) dict"
  mc_active_slots :: "(string, real) dict"
  mc_total_acquired :: int
  mc_total_rejected :: int
  mc_total_released :: int

definition new_state :: "string \<Rightarrow> int \<Rightarrow> ModelConcurrencyState" where
  "new_state model_id limit =
     \<lparr>mc_model_id = model_id, mc_max_concurrent = limit, mc_version_limits = [],
      mc_active_count = 0, mc_active_by_version = [], mc_active_slots = [],
      mc_total_acquired = 0, mc_total_rejected = 0, mc_total_released = 0\<rparr>"

definition get_version_limit :: "ModelConcurrencyState \<Rightarrow> string \<Rightarrow> int" where
  "get_version_limit st version = dget_or (mc_version_limits st) version (mc_max_concurrent st)"

definition can_acquire :: "ModelConcurrencyState \<Rightarrow> string \<Rightarrow> bool \<times> RejectionReason option" where
  "can_acquire st version =
     (if mc_max_concurrent st \<le> mc_active_count st then (False, Some MODEL_LIMIT)
      else let version_limit = get_version_limit st version;
               version_active = dget_or (mc_active_by_version st) version 0
           in if version_limit \<le> version_active then (False, Some VERSION_LIMIT)
              else (True, None))"

definition state_acquire :: "real \<Rightarrow> string \<Rightarrow> string \<Rightarrow> ModelConcurrencyState \<Rightarrow> ModelConcurrencyState" where
  "state_acquire utc version slot_id st =
     st\<lparr>mc_active_count := mc_active_count st + 1,
        mc_active_by_version :=
          dput version (dget_or (mc_active_by_version st) version 0 + 1) (mc_active_by_version st),
        mc_active_slots := dput slot_id utc (mc_active_slots st),
        mc_total_acquired := mc_total_acquired st + 1\<rparr>"

text \<open>
  The slot id handed to \<open>release\<close> may be \<open>None\<close>, which is never a key of \<open>active_slots\<close>.
\<close>

definition state_release ::
  "string \<Rightarrow> string option \<Rightarrow> ModelConcurrencyState \<Rightarrow> bool \<times> ModelConcurrencyState" where
  "state_release version slot_id st =
     (case slot_id of
        None \<Rightarrow> (False, st)
      | Some sid \<Rightarrow>
          (case dget (mc_active_slots st) sid of
             None \<Rightarrow> (False, st)
           | Some _ \<Rightarrow>
               (True,
                st\<lparr>mc_active_slots := ddel sid (mc_active_slots st),
                   mc_active_count := max 0 (mc_active_count st - 1),
                   mc_active_by_version :=
                     (case dget (mc_active_by_version st) version of
                        None \<Rightarrow> mc_active_by_version st
                      | Some n \<Rightarrow> dput version (max 0 (n - 1)) (mc_active_by_version st)),
                   mc_total_released := mc_total_released st + 1\<rparr>)))"

definition record_rejection :: "ModelConcurrencyState \<Rightarrow> ModelConcurrencyState" where
  "record_rejection st = st\<lparr>mc_total_rejected := mc_total_rejected st + 1\<rparr>"

definition utilization :: "ModelConcurrencyState \<Rightarrow> real" where
  "utilization st =
     (if mc_max_concurrent st = 0 then 1
      else of_int (mc_active_count st) / of_int (mc_max_concurrent st))"

section \<open>The manager\<close>

record ConcurrencyManager =
  cm_global_limit :: int
  cm_default_model_limit :: int
  cm_models :: "(string, ModelConcurrencyState) dict"
  cm_global_active :: int
  cm_shutdown :: bool
  cm_last_served :: "(string, real) dict"
  cm_total_acquired :: int
  cm_total_rejected :: int
  cm_total_released :: int

definition SOFT_THRESHOLD :: real where
  "SOFT_THRESHOLD = 7 / 10"

definition HARD_THRESHOLD :: real where
  "HARD_THRESHOLD = 9 / 10"

definition new_manager :: "int \<Rightarrow> int \<Rightarrow> ConcurrencyManager" where
  "new_manager global_limit default_model_limit =
     \<lparr>cm_global_limit = global_limit, cm_default_model_limit = default_model_limit, cm_models = [],
      cm_global_active = 0, cm_shutdown = False, cm_last_served = [], cm_total_acquired = 0,
      cm_total_rejected = 0, cm_total_released = 0\<rparr>"

definition put_state :: "string \<Rightarrow> ModelConcurrencyState \<Rightarrow> ConcurrencyManager \<Rightarrow> ConcurrencyManager" where
  "put_state model_id st m = m\<lparr>cm_models := dput model_id st (cm_models m)\<rparr>"

text \<open>The \<open>version\<close> argument of \<open>register_model\<close> is not used by the code.\<close>

definition register_model ::
  "string \<Rightarrow> string \<Rightarrow> int option \<Rightarrow> ConcurrencyManager \<Rightarrow> ConcurrencyManager" where
  "register_model model_id version max_concurrent m =
     (let limit = (case max_concurrent of Some n \<Rightarrow> n | None \<Rightarrow> cm_default_model_limit m);
          m1 = (case dget (cm_models m) model_id of
                  None \<Rightarrow> put_state model_id (new_state model_id limit) m
                | Some st \<Rightarrow>
                    (if max_concurrent \<noteq> None
                     then put_state model_id (st\<lparr>mc_max_concurrent := limit\<rparr>) m
                     else m))
      in if dget (cm_last_served m1) model_id = None
         then m1\<lparr>cm_last_served := dput model_id 0 (cm_last_served m1)\<rparr>
         else m1)"

definition register_version_limit ::
  "string \<Rightarrow> string \<Rightarrow> int \<Rightarrow> ConcurrencyManager \<Rightarrow> ConcurrencyManager" where
  "register_version_limit model_id version max_concurrent m =
     (let st = (case dget (cm_models m) model_id of
                  None \<Rightarrow> new_state model_id (cm_default_model_limit m)
                | Some st \<Rightarrow> st)
      in put_state model_id
           (st\<lparr>mc_version_limits := dput version max_concurrent (mc_version_limits st)\<rparr>) m)"

definition unregister_model :: "string \<Rightarrow> ConcurrencyManager \<Rightarrow> ConcurrencyManager" where
  "unregister_model model_id m =
     (case dget (cm_models m) model_id of
        None \<Rightarrow> m
      | Some st \<Rightarrow>
          m\<lparr>cm_global_active := max 0 (cm_global_active m - mc_active_count st),
            cm_models := ddel model_id (cm_models m),
            cm_last_served := ddel model_id (cm_last_served m)\<rparr>)"

definition is_hard_backpressure :: "ConcurrencyManager \<Rightarrow> bool" where
  "is_hard_backpressure m \<longleftrightarrow>
     (if cm_global_limit m = 0 then True
      else HARD_THRESHOLD \<le> of_int (cm_global_active m) / of_int (cm_global_limit m))"

definition get_backpressure_level :: "ConcurrencyManager \<Rightarrow> BackpressureLevel" where
  "get_backpressure_level m =
     (if cm_global_limit m = 0 then BP_HARD
      else let u = of_int (cm_global_active m) / of_int (cm_global_limit m)
           in if HARD_THRESHOLD \<le> u then BP_HARD
              else if SOFT_THRESHOLD \<le> u then BP_SOFT else BP_NONE)"

definition rejection_error ::
  "real \<Rightarrow> string \<Rightarrow> string \<Rightarrow> string \<Rightarrow> RejectionReason \<Rightarrow> string \<Rightarrow> (string, jval) dict \<Rightarrow> ModelError" where
  "rejection_error utc model_id version request_id reason message details =
     pipeline_error utc PIPE_CONCURRENCY_REJECTED message (Some model_id) (Some version)
       (Some request_id) ((''rejection_reason'', JStr (reason_value reason)) # details)"

definition reject ::
  "real \<Rightarrow> string \<Rightarrow> string \<Rightarrow> string \<Rightarrow> RejectionReason \<Rightarrow> string \<Rightarrow> (string, jval) dict \<Rightarrow>
   ModelConcurrencyState \<Rightarrow> ConcurrencyManager \<Rightarrow> ConcurrencySlot \<times> ConcurrencyManager" where
  "reject utc model_id version request_id reason message details st m =
     (rejected_slot model_id version request_id reason
        (rejection_error utc model_id version request_id reason message details),
      (put_state model_id (record_rejection st) m)\<lparr>cm_total_rejected := cm_total_rejected m + 1\<rparr>)"

text \<open>A model that is not tracked yet is registered with the default limit.\<close>

definition auto_register :: "string \<Rightarrow> ConcurrencyManager \<Rightarrow> ConcurrencyManager" where
  "auto_register model_id m =
     (case dget (cm_models m) model_id of
        None \<Rightarrow>
          (put_state model_id (new_state model_id (cm_default_model_limit m)) m)
            \<lparr>cm_last_served := dput model_id 0 (cm_last_served m)\<rparr>
      | Some _ \<Rightarrow> m)"

definition grant ::
  "(nat \<Rightarrow> real) \<Rightarrow> real \<Rightarrow> string \<Rightarrow> string \<Rightarrow> string \<Rightarrow> string \<Rightarrow> ModelConcurrencyState \<Rightarrow>
   ConcurrencyManager \<Rightarrow> ConcurrencySlot \<times> ConcurrencyManager" where
  "grant utc mt hex model_id version request_id st m =
     (let slot_id = ''slot-'' @ take 12 hex
      in (acquired_slot (utc 1) model_id version request_id slot_id,
          (put_state model_id (state_acquire (utc 0) version slot_id st) m)
            \<lparr>cm_global_active := cm_global_active m + 1,
             cm_total_acquired := cm_total_acquired m + 1,
             cm_last_served := dput model_id mt (cm_last_served m)\<rparr>))"

definition try_acquire ::
  "(nat \<Rightarrow> real) \<Rightarrow> real \<Rightarrow> string \<Rightarrow> string \<Rightarrow> string \<Rightarrow> string \<Rightarrow> ConcurrencyManager \<Rightarrow>
   ConcurrencySlot \<times> ConcurrencyManager" where
  "try_acquire utc mt hex model_id version request_id m =
     (if cm_shutdown m
      then (rejected_slot model_id version request_id SHUTDOWN
              (rejection_error (utc 0) model_id version request_id SHUTDOWN
                 ''Runtime is shutting down'' []), m)
      else
        let m1 = auto_register model_id m;
            st = the (dget (cm_models m1) model_id);
            usage = [(''global_active'', JInt (cm_global_active m1)),
                     (''global_limit'', JInt (cm_global_limit m1))]
        in if is_hard_backpressure m1
           then reject (utc 0) model_id version request_id BACKPRESSURE
                  ''Hard backpressure active, rejecting request'' usage st m1
           else if cm_global_limit m1 \<le> cm_global_active m1
           then reject (utc 0) model_id version request_id GLOBAL_LIMIT
                  (''Global concurrency limit reached ('' @ show_int (cm_global_limit m1) @ '')'')
                  usage st m1
           else case can_acquire st version of
                  (False, Some MODEL_LIMIT) \<Rightarrow>
                    reject (utc 0) model_id version request_id MODEL_LIMIT
                      (''Model concurrency limit reached ('' @ show_int (mc_max_concurrent st) @ '')'')
                      [(''model_active'', JInt (mc_active_count st)),
                       (''model_limit'', JInt (mc_max_concurrent st))] st m1
                | (False, _) \<Rightarrow>
                    reject (utc 0) model_id version request_id VERSION_LIMIT
                      (''Version concurrency limit reached ('' @
                         show_int (get_version_limit st version) @ '')'')
                      [(''version_active'', JInt (dget_or (mc_active_by_version st) version 0)),
                       (''version_limit'', JInt (get_version_limit st version))] st m1
                | (True, _) \<Rightarrow> grant utc mt hex model_id version request_id st m1)"

definition release_slot ::
  "string \<Rightarrow> string \<Rightarrow> string option \<Rightarrow> ConcurrencyManager \<Rightarrow> ConcurrencyManager" where
  "release_slot model_id version slot_id m =
     (case dget (cm_models m) model_id of
        None \<Rightarrow> m\<lparr>cm_global_active := max 0 (cm_global_active m - 1),
                   cm_total_released := cm_total_released m + 1\<rparr>
      | Some st \<Rightarrow>
          (case state_release version slot_id st of
             (True, st') \<Rightarrow>
               (put_state model_id st' m)
                 \<lparr>cm_global_active := max 0 (cm_global_active m - 1),
                  cm_total_released := cm_total_released m + 1\<rparr>
           | (False, _) \<Rightarrow> m))"

text \<open>\<open>ConcurrencySlot.release\<close>: the slot object and its manager after the call.\<close>

definition slot_release ::
  "ConcurrencySlot \<Rightarrow> ConcurrencyManager \<Rightarrow> ConcurrencySlot \<times> ConcurrencyManager" where
  "slot_release s m =
     (if sl_released s \<or> \<not> sl_acquired s \<or> \<not> sl_manager s then (s, m)
      else (s\<lparr>sl_released := True\<rparr>,
            release_slot (sl_model_id s) (sl_version s) (sl_slot_id s) m))"

record ModelStats =
  ms_model_id :: string
  ms_max_concurrent :: int
  ms_active_count :: int
  ms_active_by_version :: "(string, int) dict"
  ms_utilization :: real
  ms_total_acquired :: int
  ms_total_rejected :: int
  ms_total_released :: int

definition get_model_stats :: "ConcurrencyManager \<Rightarrow> string \<Rightarrow> ModelStats option" where
  "get_model_stats m model_id =
     (case dget (cm_models m) model_id of
        None \<Rightarrow> None
      | Some st \<Rightarrow>
          Some \<lparr>ms_model_id = model_id, ms_max_concurrent = mc_max_concurrent st,
                ms_active_count = mc_active_count st,
                ms_active_by_version = mc_active_by_version st,
                ms_utilization = utilization st, ms_total_acquired = mc_total_acquired st,
                ms_total_rejected = mc_total_rejected st,
                ms_total_released = mc_total_released st\<rparr>)"

record GlobalStats =
  gs_global_limit :: int
  gs_global_active :: int
  gs_available_slots :: int
  gs_utilization :: real
  gs_backpressure :: string
  gs_registered_models :: nat
  gs_total_acquired :: int
  gs_total_rejected :: int
  gs_total_released :: int

definition get_global_stats :: "ConcurrencyManager \<Rightarrow> GlobalStats" where
  "get_global_stats m =
     \<lparr>gs_global_limit = cm_global_limit m, gs_global_active = cm_global_active m,
      gs_available_slots = max 0 (cm_global_limit m - cm_global_active m),
      gs_utilization = (if 0 < cm_global_limit m
                        then of_int (cm_global_active m) / of_int (cm_global_limit m) else 1),
      gs_backpressure = bp_value (get_backpressure_level m),
      gs_registered_models = length (cm_models m), gs_total_acquired = cm_total_acquired m,
      gs_total_rejected = cm_total_rejected m, gs_total_released = cm_total_released m\<rparr>"

definition manager_shutdown :: "ConcurrencyManager \<Rightarrow> ConcurrencyManager" where
  "manager_shutdown m = m\<lparr>cm_shutdown := True\<rparr>"

section \<open>Admission control and scheduling\<close>

text \<open>
  \<open>AdmissionController.slot_context\<close>: the body of the \<open>with\<close> block is a parameter that may use
  the slot and the manager and returns or raises; the slot is released either way.
\<close>

definition slot_context ::
  "(nat \<Rightarrow> real) \<Rightarrow> real \<Rightarrow> string \<Rightarrow> string \<Rightarrow> string \<Rightarrow> string \<Rightarrow>
   (ConcurrencySlot \<Rightarrow> ConcurrencyManager \<Rightarrow> (py_error + 'a) \<times> ConcurrencySlot \<times> ConcurrencyManager) \<Rightarrow>
   ConcurrencyManager \<Rightarrow> (py_error + 'a) \<times> ConcurrencyManager" where
  "slot_context utc mt hex model_id version request_id body m =
     (let (s, m1) = try_acquire utc mt hex model_id version request_id m;
          (r, s', m2) = body s m1
      in (r, snd (slot_release s' m2)))"

text \<open>The \<open>version\<close> argument of the two hints is not used by the code.\<close>

definition can_accept :: "ConcurrencyManager \<Rightarrow> string \<Rightarrow> string \<Rightarrow> bool" where
  "can_accept m model_id version =
     (case get_model_stats m model_id of
        None \<Rightarrow> 0 < gs_available_slots (get_global_stats m)
      | Some s \<Rightarrow>
          (if ms_max_concurrent s \<le> ms_active_count s then False
           else 0 < gs_available_slots (get_global_stats m)))"

definition get_rejection_wait_hint_ms :: "ConcurrencyManager \<Rightarrow> string \<Rightarrow> string \<Rightarrow> int option" where
  "get_rejection_wait_hint_ms m model_id version =
     (case get_model_stats m model_id of
        None \<Rightarrow> None
      | Some s \<Rightarrow>
          (if 1 \<le> ms_utilization s then Some 100
           else if 8 / 10 \<le> ms_utilization s then Some 50 else None))"

definition STARVATION_THRESHOLD_S :: real where
  "STARVATION_THRESHOLD_S = 1"

text \<open>The loop of \<open>suggest_next_model\<close>, with \<open>best_model\<close> and \<open>best_wait\<close> as its state.\<close>

fun suggest_loop ::
  "ConcurrencyManager \<Rightarrow> real \<Rightarrow> string list \<Rightarrow> string option \<Rightarrow> real \<Rightarrow> string option" where
  "suggest_loop m now [] best_model best_wait = best_model"
| "suggest_loop m now (model_id # rest) best_model best_wait =
     (case get_model_stats m model_id of
        None \<Rightarrow> suggest_loop m now rest best_model best_wait
      | Some s \<Rightarrow>
          (if ms_max_concurrent s \<le> ms_active_count s
           then suggest_loop m now rest best_model best_wait
           else let wait_time = now - dget_or (cm_last_served m) model_id 0
                in if best_wait < wait_time
                   then suggest_loop m now rest (Some model_id) wait_time
                   else suggest_loop m now rest best_model best_wait))"

definition suggest_next_model :: "ConcurrencyManager \<Rightarrow> real \<Rightarrow> string list \<Rightarrow> string option" where
  "suggest_next_model m now candidates =
     (if candidates = [] then None else suggest_loop m now candidates None (- 1))"

definition is_starved :: "ConcurrencyManager \<Rightarrow> real \<Rightarrow> string \<Rightarrow> bool" where
  "is_starved m now model_id =
     (case dget (cm_last_served m) model_id of
        None \<Rightarrow> True
      | Some t \<Rightarrow> STARVATION_THRESHOLD_S < now - t)"

text \<open>
  \<open>get_model_stats\<close> as a call: it takes the manager's lock, which is not reentrant.
  \<open>get_fairness_report\<close> calls it while it holds that lock.
\<close>

definition get_model_stats_call :: "bool \<Rightarrow> ConcurrencyManager \<Rightarrow> string \<Rightarrow> ModelStats option run" where
  "get_model_stats_call held m model_id = with_lock held (Returns (get_model_stats m model_id))"

record FairnessEntry =
  fe_last_served_ago_s :: real
  fe_is_starved :: bool
  fe_utilization :: "real option"

record FairnessReport =
  fr_timestamp :: real
  fr_models :: "(string, FairnessEntry) dict"
  fr_starved_models :: "string list"

fun fairness_loop ::
  "ConcurrencyManager \<Rightarrow> real \<Rightarrow> (string \<times> real) list \<Rightarrow> FairnessReport \<Rightarrow> FairnessReport run" where
  "fairness_loop m now [] r = Returns r"
| "fairness_loop m now ((model_id, last_served) # rest) r =
     (let wait_time = now - last_served
      in run_bind (get_model_stats_call True m model_id)
           (\<lambda>stats.
              let r1 = r\<lparr>fr_models := dput model_id
                          \<lparr>fe_last_served_ago_s = py_round 3 wait_time,
                           fe_is_starved = STARVATION_THRESHOLD_S < wait_time,
                           fe_utilization = map_option ms_utilization stats\<rparr> (fr_models r)\<rparr>;
                  r2 = (if STARVATION_THRESHOLD_S < wait_time
                        then r1\<lparr>fr_starved_models := fr_starved_models r1 @ [model_id]\<rparr> else r1)
              in fairness_loop m now rest r2))"

definition get_fairness_report :: "ConcurrencyManager \<Rightarrow> real \<Rightarrow> real \<Rightarrow> FairnessReport run" where
  "get_fairness_report m utc now =
     with_lock False
       (fairness_loop m now (cm_last_served m)
          \<lparr>fr_timestamp = utc, fr_models = [], fr_starved_models = []\<rparr>)"

text \<open>
  \<open>create_concurrency_stack\<close>: the controller and the scheduler hold nothing but the manager.
\<close>

definition create_concurrency_stack :: "int \<Rightarrow> int \<Rightarrow> ConcurrencyManager" where
  "create_concurrency_stack global_limit default_model_limit =
     new_manager global_limit default_model_limit"

end
