(* ===== verification/ConcurrencyProofs.thy ===== *)
theory ConcurrencyProofs
  imports Concurrency
begin

text \<open>
  Properties of \<open>ai/runtime/concurrency.py\<close>. The manager is put together with the slots its clients
  hold (\<open>csys\<close>); the steps of the combined system are the calls of the code, and the accounting
  invariant says that every counter of the manager counts held slots.
\<close>

section \<open>Backpressure in integers\<close>

lemma hard_backpressure_iff:
  "0 < cm_global_limit m \<Longrightarrow>
     is_hard_backpressure m \<longleftrightarrow> 9 * cm_global_limit m \<le> 10 * cm_global_active m"
proof -
  assume l: "0 < cm_global_limit m"
  then have "is_hard_backpressure m \<longleftrightarrow>
      (9 / 10) * real_of_int (cm_global_limit m) \<le> real_of_int (cm_global_active m)"
    by (simp add: is_hard_backpressure_def HARD_THRESHOLD_def pos_le_divide_eq mult.commute)
  also have "\<dots> \<longleftrightarrow> real_of_int (9 * cm_global_limit m) \<le> real_of_int (10 * cm_global_active m)"
    by (simp add: mult.commute)
  finally show ?thesis by (simp only: of_int_le_iff)
qed

lemma no_hard_backpressure_below_limit:
  "\<not> is_hard_backpressure m \<Longrightarrow> 0 < cm_global_limit m \<Longrightarrow>
     cm_global_active m < cm_global_limit m"
  by (simp add: hard_backpressure_iff)

section \<open>How a request ends\<close>

lemma auto_register_simps [simp]:
  "cm_global_limit (auto_register i m) = cm_global_limit m"
  "cm_global_active (auto_register i m) = cm_global_active m"
  "cm_default_model_limit (auto_register i m) = cm_default_model_limit m"
  "cm_shutdown (auto_register i m) = cm_shutdown m"
  "is_hard_backpressure (auto_register i m) = is_hard_backpressure m"
  by (auto simp: auto_register_def put_state_def is_hard_backpressure_def split: option.splits)

lemma auto_register_get:
  "dget (cm_models (auto_register i m)) j =
     (if j = i \<and> dget (cm_models m) i = None then Some (new_state i (cm_default_model_limit m))
      else dget (cm_models m) j)"
  by (auto simp: auto_register_def put_state_def split: option.splits)

text \<open>The state of the model a request finds, after the registration on demand.\<close>

definition found_state :: "ConcurrencyManager \<Rightarrow> string \<Rightarrow> ModelConcurrencyState" where
  "found_state m i = the (dget (cm_models (auto_register i m)) i)"

lemma found_state_get: "dget (cm_models (auto_register i m)) i = Some (found_state m i)"
  by (auto simp: found_state_def auto_register_get)

text \<open>The reason for which a request is turned away, if it is.\<close>

definition verdict :: "ConcurrencyManager \<Rightarrow> string \<Rightarrow> string \<Rightarrow> RejectionReason option" where
  "verdict m i v =
     (if cm_shutdown m then Some SHUTDOWN
      else if is_hard_backpressure m then Some BACKPRESSURE
      else if cm_global_limit m \<le> cm_global_active m then Some GLOBAL_LIMIT
      else snd (can_acquire (found_state m i) v))"

lemma can_acquire_cases:
  "can_acquire st v = (True, None) \<or> can_acquire st v = (False, Some MODEL_LIMIT) \<or>
   can_acquire st v = (False, Some VERSION_LIMIT)"
  by (simp add: can_acquire_def Let_def)

lemma can_acquire_True:
  "can_acquire st v = (True, None) \<Longrightarrow>
     mc_active_count st < mc_max_concurrent st \<and>
     dget_or (mc_active_by_version st) v 0 < get_version_limit st v"
  by (simp add: can_acquire_def Let_def split: if_splits)

lemma try_acquire_granted:
  assumes "verdict m i v = None"
  shows "try_acquire utc mt hex i v r m =
           grant utc mt hex i v r (found_state m i) (auto_register i m)"
    and "\<not> cm_shutdown m" and "\<not> is_hard_backpressure m"
    and "cm_global_active m < cm_global_limit m"
    and "can_acquire (found_state m i) v = (True, None)"
proof -
  show c: "can_acquire (found_state m i) v = (True, None)"
    using assms can_acquire_cases [of "found_state m i" v]
    by (auto simp: verdict_def split: if_splits)
  show s: "\<not> cm_shutdown m" and h: "\<not> is_hard_backpressure m"
    and g: "cm_global_active m < cm_global_limit m"
    using assms by (auto simp: verdict_def split: if_splits)
  show "try_acquire utc mt hex i v r m =
           grant utc mt hex i v r (found_state m i) (auto_register i m)"
    using c s h g by (simp add: try_acquire_def Let_def found_state_def [symmetric])
qed

lemma try_acquire_rejected:
  assumes "verdict m i v = Some reason"
  shows "\<exists>msg d. try_acquire utc mt hex i v r m =
     (if cm_shutdown m
      then (rejected_slot i v r reason (rejection_error (utc 0) i v r reason msg d), m)
      else reject (utc 0) i v r reason msg d (found_state m i) (auto_register i m))"
proof -
  consider "cm_shutdown m" "reason = SHUTDOWN"
    | "\<not> cm_shutdown m" "is_hard_backpressure m" "reason = BACKPRESSURE"
    | "\<not> cm_shutdown m" "\<not> is_hard_backpressure m" "cm_global_limit m \<le> cm_global_active m"
        "reason = GLOBAL_LIMIT"
    | "\<not> cm_shutdown m" "\<not> is_hard_backpressure m" "\<not> cm_global_limit m \<le> cm_global_active m"
        "can_acquire (found_state m i) v = (False, Some MODEL_LIMIT)" "reason = MODEL_LIMIT"
    | "\<not> cm_shutdown m" "\<not> is_hard_backpressure m" "\<not> cm_global_limit m \<le> cm_global_active m"
        "can_acquire (found_state m i) v = (False, Some VERSION_LIMIT)" "reason = VERSION_LIMIT"
    using assms can_acquire_cases [of "found_state m i" v]
    by (auto simp: verdict_def split: if_splits)
  then show ?thesis
    by cases (simp_all add: try_acquire_def Let_def found_state_def [symmetric], blast+)
qed

lemma grant_simps [simp]:
  "sl_acquired (fst (grant utc mt hex i v r st m))"
  "sl_rejection_reason (fst (grant utc mt hex i v r st m)) = None"
  "sl_model_id (fst (grant utc mt hex i v r st m)) = i"
  "sl_version (fst (grant utc mt hex i v r st m)) = v"
  "sl_slot_id (fst (grant utc mt hex i v r st m)) = Some (''slot-'' @ take 12 hex)"
  "sl_manager (fst (grant utc mt hex i v r st m))"
  "\<not> sl_released (fst (grant utc mt hex i v r st m))"
  "cm_models (snd (grant utc mt hex i v r st m)) =
     dput i (state_acquire (utc 0) v (''slot-'' @ take 12 hex) st) (cm_models m)"
  "cm_global_active (snd (grant utc mt hex i v r st m)) = cm_global_active m + 1"
  "cm_global_limit (snd (grant utc mt hex i v r st m)) = cm_global_limit m"
  by (simp_all add: grant_def Let_def acquired_slot_def put_state_def)

lemma reject_simps [simp]:
  "\<not> sl_acquired (fst (reject utc i v r reason msg d st m))"
  "sl_rejection_reason (fst (reject utc i v r reason msg d st m)) = Some reason"
  "cm_models (snd (reject utc i v r reason msg d st m)) = dput i (record_rejection st) (cm_models m)"
  "cm_global_active (snd (reject utc i v r reason msg d st m)) = cm_global_active m"
  "cm_global_limit (snd (reject utc i v r reason msg d st m)) = cm_global_limit m"
  by (simp_all add: reject_def rejected_slot_def put_state_def)

lemma rejected_slot_simps [simp]:
  "\<not> sl_acquired (rejected_slot i v r reason e)"
  "sl_rejection_reason (rejected_slot i v r reason e) = Some reason"
  "sl_rejection_error (rejected_slot i v r reason e) = Some e"
  by (simp_all add: rejected_slot_def)

lemma try_acquire_verdict:
  "sl_rejection_reason (fst (try_acquire utc mt hex i v r m)) = verdict m i v"
  "sl_acquired (fst (try_acquire utc mt hex i v r m)) \<longleftrightarrow> verdict m i v = None"
proof -
  have "sl_rejection_reason (fst (try_acquire utc mt hex i v r m)) = verdict m i v \<and>
    (sl_acquired (fst (try_acquire utc mt hex i v r m)) \<longleftrightarrow> verdict m i v = None)"
  proof (cases "verdict m i v")
    case None
    then show ?thesis by (simp add: try_acquire_granted(1))
  next
    case (Some reason)
    then show ?thesis
      using try_acquire_rejected [OF Some, of utc mt hex r] by (auto split: if_splits)
  qed
  then show "sl_rejection_reason (fst (try_acquire utc mt hex i v r m)) = verdict m i v"
    and "sl_acquired (fst (try_acquire utc mt hex i v r m)) \<longleftrightarrow> verdict m i v = None"
    by blast+
qed

section \<open>Manager and held slots\<close>

record csys =
  cs_mgr :: ConcurrencyManager
  cs_held :: "ConcurrencySlot list"

definition csys_init :: "csys \<Rightarrow> bool" where
  "csys_init s \<longleftrightarrow> (\<exists>g d. cs_mgr s = create_concurrency_stack g d) \<and> cs_held s = []"

text \<open>
  One step is one call. A granted slot id is different from those in use (the digits come from
  \<open>uuid4\<close>). A model is unregistered only while none of its slots is held; what happens otherwise is treated
  further down.
\<close>

inductive cstep :: "csys \<Rightarrow> csys \<Rightarrow> bool" where
  c_register: "cstep s (s\<lparr>cs_mgr := register_model i v l (cs_mgr s)\<rparr>)"
| c_limit: "cstep s (s\<lparr>cs_mgr := register_version_limit i v n (cs_mgr s)\<rparr>)"
| c_acquire: "try_acquire utc mt hex i v r (cs_mgr s) = (sl, m) \<Longrightarrow> sl_acquired sl \<Longrightarrow>
    sl_slot_id sl \<notin> sl_slot_id ` set (cs_held s) \<Longrightarrow>
    cstep s \<lparr>cs_mgr = m, cs_held = sl # cs_held s\<rparr>"
| c_reject: "try_acquire utc mt hex i v r (cs_mgr s) = (sl, m) \<Longrightarrow> \<not> sl_acquired sl \<Longrightarrow>
    cstep s (s\<lparr>cs_mgr := m\<rparr>)"
| c_release: "sl \<in> set (cs_held s) \<Longrightarrow> slot_release sl (cs_mgr s) = (sl', m) \<Longrightarrow>
    cstep s \<lparr>cs_mgr = m, cs_held = remove1 sl (cs_held s)\<rparr>"
| c_shutdown: "cstep s (s\<lparr>cs_mgr := manager_shutdown (cs_mgr s)\<rparr>)"
| c_unregister: "\<forall>sl\<in>set (cs_held s). sl_model_id sl \<noteq> i \<Longrightarrow>
    cstep s (s\<lparr>cs_mgr := unregister_model i (cs_mgr s)\<rparr>)"

definition held_model :: "string \<Rightarrow> ConcurrencySlot list \<Rightarrow> int" where
  "held_model i H = int (length (filter (\<lambda>s. sl_model_id s = i) H))"

definition held_version :: "string \<Rightarrow> string \<Rightarrow> ConcurrencySlot list \<Rightarrow> int" where
  "held_version i v H = int (length (filter (\<lambda>s. sl_model_id s = i \<and> sl_version s = v) H))"

definition slot_ok :: "ConcurrencySlot \<Rightarrow> bool" where
  "slot_ok s \<longleftrightarrow> sl_acquired s \<and> sl_manager s \<and> \<not> sl_released s \<and> sl_slot_id s \<noteq> None"

definition state_inv :: "ConcurrencySlot list \<Rightarrow> string \<Rightarrow> ModelConcurrencyState \<Rightarrow> bool" where
  "state_inv H i st \<longleftrightarrow>
     mc_active_count st = held_model i H \<and>
     dict_wf (mc_active_slots st) \<and>
     (\<forall>sid. dget (mc_active_slots st) sid \<noteq> None \<longleftrightarrow>
        (\<exists>s\<in>set H. sl_model_id s = i \<and> sl_slot_id s = Some sid)) \<and>
     (\<forall>v. dget_or (mc_active_by_version st) v 0 = held_version i v H)"

definition csys_inv :: "csys \<Rightarrow> bool" where
  "csys_inv s \<longleftrightarrow>
     dict_wf (cm_models (cs_mgr s)) \<and>
     (\<forall>sl\<in>set (cs_held s). slot_ok sl \<and> dget (cm_models (cs_mgr s)) (sl_model_id sl) \<noteq> None) \<and>
     distinct (map sl_slot_id (cs_held s)) \<and>
     (\<forall>i st. dget (cm_models (cs_mgr s)) i = Some st \<longrightarrow> state_inv (cs_held s) i st) \<and>
     cm_global_active (cs_mgr s) = int (length (cs_held s)) \<and>
     dsum mc_active_count (cm_models (cs_mgr s)) = int (length (cs_held s)) \<and>
     10 * int (length (cs_held s)) \<le> max 0 (9 * cm_global_limit (cs_mgr s) + 9)"

subsection \<open>Counting held slots\<close>

lemma held_model_simps [simp]:
  "held_model i [] = 0"
  "held_model i (s # H) = (if sl_model_id s = i then 1 else 0) + held_model i H"
  "held_version i v [] = 0"
  "held_version i v (s # H) =
     (if sl_model_id s = i \<and> sl_version s = v then 1 else 0) + held_version i v H"
  by (simp_all add: held_model_def held_version_def)

lemma held_nonneg [simp]: "0 \<le> held_model i H" "0 \<le> held_version i v H"
  by (simp_all add: held_model_def held_version_def)

lemma held_remove1:
  "s \<in> set H \<Longrightarrow> held_model i (remove1 s H) = held_model i H - (if sl_model_id s = i then 1 else 0)"
  "s \<in> set H \<Longrightarrow> held_version i v (remove1 s H) =
     held_version i v H - (if sl_model_id s = i \<and> sl_version s = v then 1 else 0)"
  by (induction H) auto

lemma held_pos:
  "s \<in> set H \<Longrightarrow> 1 \<le> held_model (sl_model_id s) H"
  "s \<in> set H \<Longrightarrow> 1 \<le> held_version (sl_model_id s) (sl_version s) H"
  by (induction H) (auto simp: add_increasing)

lemma held_model_0: "(\<And>s. s \<in> set H \<Longrightarrow> sl_model_id s \<noteq> i) \<Longrightarrow> held_model i H = 0"
  by (simp add: held_model_def filter_empty_conv)

lemma held_version_0: "(\<And>s. s \<in> set H \<Longrightarrow> sl_model_id s \<noteq> i) \<Longrightarrow> held_version i v H = 0"
  by (simp add: held_version_def filter_empty_conv)

lemma int_length_remove1: "s \<in> set H \<Longrightarrow> int (length (remove1 s H)) = int (length H) - 1"
  by (induction H) auto

lemma distinct_map_remove1: "distinct (map f xs) \<Longrightarrow> distinct (map f (remove1 x xs))"
proof (induction xs)
  case Nil
  then show ?case by simp
next
  case (Cons a xs)
  have "f ` set (remove1 x xs) \<subseteq> f ` set xs"
    by (rule image_mono) (rule set_remove1_subset)
  with Cons show ?case by auto
qed

subsection \<open>Steps that leave the accounting alone\<close>

lemma csys_inv_cong:
  assumes "csys_inv s"
    and "cm_models m = cm_models (cs_mgr s)" "cm_global_active m = cm_global_active (cs_mgr s)"
    and "cm_global_limit m = cm_global_limit (cs_mgr s)"
  shows "csys_inv (s\<lparr>cs_mgr := m\<rparr>)"
  using assms by (simp add: csys_inv_def)

lemma csys_inv_untracked:
  assumes "csys_inv s" "dget (cm_models (cs_mgr s)) i = None" "sl \<in> set (cs_held s)"
  shows "sl_model_id sl \<noteq> i"
  using assms by (auto simp: csys_inv_def)

lemma state_inv_new:
  assumes "csys_inv s" "dget (cm_models (cs_mgr s)) i = None"
    and "mc_active_count st = 0" "mc_active_slots st = []" "mc_active_by_version st = []"
  shows "state_inv (cs_held s) i st"
  using assms csys_inv_untracked [OF assms(1,2)]
  by (auto simp: state_inv_def held_model_0 held_version_0)

lemma csys_inv_put_state:
  assumes inv: "csys_inv s" and st: "state_inv (cs_held s) i st"
    and m: "cm_models m = dput i st (cm_models (cs_mgr s))"
      "cm_global_active m = cm_global_active (cs_mgr s)"
      "cm_global_limit m = cm_global_limit (cs_mgr s)"
  shows "csys_inv (s\<lparr>cs_mgr := m\<rparr>)"
proof -
  have "dsum mc_active_count (dput i st (cm_models (cs_mgr s))) =
        dsum mc_active_count (cm_models (cs_mgr s))"
  proof (cases "dget (cm_models (cs_mgr s)) i")
    case None
    with inv have "held_model i (cs_held s) = 0"
      by (intro held_model_0) (auto dest: csys_inv_untracked)
    with st None show ?thesis by (simp add: dsum_dput_new state_inv_def)
  next
    case (Some w)
    with inv st show ?thesis by (simp add: dsum_dput_old csys_inv_def state_inv_def)
  qed
  with inv st m show ?thesis by (auto simp: csys_inv_def)
qed

lemma csys_inv_get: "csys_inv s \<Longrightarrow> dget (cm_models (cs_mgr s)) i = Some st \<Longrightarrow>
    state_inv (cs_held s) i st"
  by (simp add: csys_inv_def)

lemma csys_inv_auto_register:
  "csys_inv s \<Longrightarrow> csys_inv (s\<lparr>cs_mgr := auto_register i (cs_mgr s)\<rparr>)"
proof (cases "dget (cm_models (cs_mgr s)) i")
  case None
  assume inv: "csys_inv s"
  have "state_inv (cs_held s) i (new_state i (cm_default_model_limit (cs_mgr s)))"
    by (rule state_inv_new [OF inv None]) (simp_all add: new_state_def)
  then show ?thesis
    by (rule csys_inv_put_state [OF inv]) (simp_all add: auto_register_def put_state_def None)
next
  case (Some st)
  assume "csys_inv s"
  with Some show ?thesis by (simp add: auto_register_def)
qed

lemma state_inv_found: "csys_inv s \<Longrightarrow> state_inv (cs_held s) i (found_state (cs_mgr s) i)"
  using csys_inv_get [OF csys_inv_auto_register [of s i], of i] by (simp add: found_state_get)

lemma csys_inv_register_model:
  assumes inv: "csys_inv s"
  shows "csys_inv (s\<lparr>cs_mgr := register_model i v l (cs_mgr s)\<rparr>)"
proof (cases "dget (cm_models (cs_mgr s)) i")
  case None
  let ?lim = "case l of Some n \<Rightarrow> n | None \<Rightarrow> cm_default_model_limit (cs_mgr s)"
  have "state_inv (cs_held s) i (new_state i ?lim)"
    by (rule state_inv_new [OF inv None]) (simp_all add: new_state_def)
  then show ?thesis
    by (rule csys_inv_put_state [OF inv])
      (simp_all add: register_model_def Let_def None put_state_def)
next
  case (Some st)
  show ?thesis
  proof (cases l)
    case None
    with Some show ?thesis
      by (intro csys_inv_cong [OF inv]) (simp_all add: register_model_def Let_def)
  next
    case (Some n)
    have "state_inv (cs_held s) i (st\<lparr>mc_max_concurrent := n\<rparr>)"
      using csys_inv_get [OF inv \<open>dget (cm_models (cs_mgr s)) i = Some st\<close>]
      by (simp add: state_inv_def)
    then show ?thesis
      by (rule csys_inv_put_state [OF inv])
        (simp_all add: register_model_def Let_def Some \<open>dget (cm_models (cs_mgr s)) i = Some st\<close>
          put_state_def)
  qed
qed

lemma csys_inv_register_version_limit:
  assumes inv: "csys_inv s"
  shows "csys_inv (s\<lparr>cs_mgr := register_version_limit i v n (cs_mgr s)\<rparr>)"
proof -
  let ?st = "case dget (cm_models (cs_mgr s)) i of
      None \<Rightarrow> new_state i (cm_default_model_limit (cs_mgr s)) | Some st \<Rightarrow> st"
  have "state_inv (cs_held s) i ?st"
    using csys_inv_get [OF inv, of i] state_inv_new [OF inv, of i]
    by (auto simp: new_state_def split: option.splits)
  then have "state_inv (cs_held s) i
      (?st\<lparr>mc_version_limits := dput v n (mc_version_limits ?st)\<rparr>)"
    by (simp add: state_inv_def)
  then show ?thesis
    by (rule csys_inv_put_state [OF inv])
      (simp_all add: register_version_limit_def Let_def put_state_def)
qed

subsection \<open>Granting, rejecting, releasing\<close>

lemma csys_inv_reject:
  assumes inv: "csys_inv s"
    and t: "try_acquire utc mt hex i v r (cs_mgr s) = (sl, m)" and a: "\<not> sl_acquired sl"
  shows "csys_inv (s\<lparr>cs_mgr := m\<rparr>)"
proof -
  have "verdict (cs_mgr s) i v \<noteq> None"
    using a t try_acquire_verdict(2) [of utc mt hex i v r "cs_mgr s"] by simp
  then obtain reason where "verdict (cs_mgr s) i v = Some reason" by auto
  from try_acquire_rejected [OF this, of utc mt hex r] t
  obtain msg d where m: "m = (if cm_shutdown (cs_mgr s) then cs_mgr s
      else snd (reject (utc 0) i v r reason msg d (found_state (cs_mgr s) i)
        (auto_register i (cs_mgr s))))"
    by (metis snd_conv)
  have "state_inv (cs_held s) i (record_rejection (found_state (cs_mgr s) i))"
    using state_inv_found [OF inv, of i] by (simp add: state_inv_def record_rejection_def)
  then have "csys_inv ((s\<lparr>cs_mgr := auto_register i (cs_mgr s)\<rparr>)
      \<lparr>cs_mgr := snd (reject (utc 0) i v r reason msg d (found_state (cs_mgr s) i)
        (auto_register i (cs_mgr s)))\<rparr>)"
    by (intro csys_inv_put_state [OF csys_inv_auto_register [OF inv]]) simp_all
  with m inv show ?thesis by simp
qed

lemma state_inv_acquire:
  assumes "state_inv H i st" and "sl_model_id sl = i" "sl_version sl = v" "sl_slot_id sl = Some sid"
  shows "state_inv (sl # H) i (state_acquire utc v sid st)"
  using assms by (auto simp: state_inv_def state_acquire_def)

lemma state_inv_other:
  "state_inv H j st \<Longrightarrow> sl_model_id sl \<noteq> j \<Longrightarrow> state_inv (sl # H) j st"
  by (auto simp: state_inv_def)

lemma csys_inv_acquire:
  assumes inv: "csys_inv s"
    and t: "try_acquire utc mt hex i v r (cs_mgr s) = (sl, m)" and a: "sl_acquired sl"
    and fresh: "sl_slot_id sl \<notin> sl_slot_id ` set (cs_held s)"
  shows "csys_inv \<lparr>cs_mgr = m, cs_held = sl # cs_held s\<rparr>"
proof -
  define m1 where "m1 = auto_register i (cs_mgr s)"
  define st where "st = found_state (cs_mgr s) i"
  have "verdict (cs_mgr s) i v = None"
    using a t try_acquire_verdict(2) [of utc mt hex i v r "cs_mgr s"] by simp
  note g = try_acquire_granted [OF this]
  from g(1) [of utc mt hex r] t have sl: "sl = fst (grant utc mt hex i v r st m1)" and m: "m = snd (grant utc mt hex i v r st m1)"
    unfolding st_def m1_def by (metis fst_conv, metis snd_conv)
  have inv1: "csys_inv (s\<lparr>cs_mgr := m1\<rparr>)"
    unfolding m1_def by (rule csys_inv_auto_register [OF inv])
  have st1: "dget (cm_models m1) i = Some st"
    by (simp add: m1_def st_def found_state_get)
  have i: "sl_model_id sl = i" "sl_version sl = v" "sl_slot_id sl = Some (''slot-'' @ take 12 hex)"
    by (simp_all add: sl)
  let ?st = "state_acquire (utc 0) v (''slot-'' @ take 12 hex) st"
  have st2: "state_inv (sl # cs_held s) i ?st"
    using state_inv_acquire [OF _ i] state_inv_found [OF inv, of i] by (simp add: st_def)
  have old: "\<And>j w. j \<noteq> i \<Longrightarrow> dget (cm_models m1) j = Some w \<Longrightarrow> state_inv (sl # cs_held s) j w"
    using inv1 i(1) by (auto simp: csys_inv_def intro: state_inv_other)
  have "dsum mc_active_count (cm_models m) = dsum mc_active_count (cm_models m1) + 1"
    using st1 by (simp add: m dsum_dput_old state_acquire_def)
  moreover have "10 * (int (length (cs_held s)) + 1) \<le> max 0 (9 * cm_global_limit (cs_mgr s) + 9)"
  proof (cases "0 < cm_global_limit (cs_mgr s)")
    case True
    with g(3) inv have "10 * int (length (cs_held s)) < 9 * cm_global_limit (cs_mgr s)"
      by (simp add: hard_backpressure_iff csys_inv_def)
    then show ?thesis by simp
  next
    case False
    with g(4) inv show ?thesis by (simp add: csys_inv_def)
  qed
  ultimately show ?thesis
    using inv1 st2 old fresh i
    by (auto simp: csys_inv_def m slot_ok_def sl m1_def)
qed

lemma held_same_id:
  assumes "distinct (map sl_slot_id H)" "s \<in> set H" "t \<in> set H" "sl_slot_id s = sl_slot_id t"
  shows "s = t"
  using assms by (auto simp: distinct_map dest: inj_onD)

lemma state_inv_release_other:
  "state_inv H j st \<Longrightarrow> sl \<in> set H \<Longrightarrow> distinct H \<Longrightarrow> sl_model_id sl \<noteq> j \<Longrightarrow>
     state_inv (remove1 sl H) j st"
  by (auto simp: state_inv_def held_remove1)

lemma state_inv_release:
  assumes st: "state_inv H i st" and sl: "sl \<in> set H" "sl_model_id sl = i" "sl_slot_id sl = Some sid"
    and d: "distinct (map sl_slot_id H)"
  obtains st' where "state_release (sl_version sl) (sl_slot_id sl) st = (True, st')"
    and "state_inv (remove1 sl H) i st'" and "mc_active_count st' = mc_active_count st - 1"
proof -
  let ?v = "sl_version sl"
  obtain t where t: "dget (mc_active_slots st) sid = Some t"
    using st sl unfolding state_inv_def by (metis not_Some_eq)
  have c: "1 \<le> mc_active_count st" and hv: "1 \<le> held_version i ?v H"
    using st held_pos [OF sl(1)] sl(2) by (simp_all add: state_inv_def)
  have "dget_or (mc_active_by_version st) ?v 0 = held_version i ?v H"
    using st by (simp add: state_inv_def)
  with hv obtain n where n: "dget (mc_active_by_version st) ?v = Some n" "n = held_version i ?v H"
    by (auto simp: dget_or_def split: option.splits)
  define st' where "st' = st\<lparr>mc_active_slots := ddel sid (mc_active_slots st),
      mc_active_count := mc_active_count st - 1,
      mc_active_by_version := dput ?v (n - 1) (mc_active_by_version st),
      mc_total_released := mc_total_released st + 1\<rparr>"
  have r: "state_release ?v (sl_slot_id sl) st = (True, st')"
    using c hv by (simp add: state_release_def sl(3) t n st'_def)
  have dH: "distinct H" using d by (simp add: distinct_map)
  have slots: "(\<exists>s\<in>set (remove1 sl H). sl_model_id s = i \<and> sl_slot_id s = Some x) \<longleftrightarrow>
      x \<noteq> sid \<and> (\<exists>s\<in>set H. sl_model_id s = i \<and> sl_slot_id s = Some x)" for x
  proof
    assume "\<exists>s\<in>set (remove1 sl H). sl_model_id s = i \<and> sl_slot_id s = Some x"
    then obtain s where s: "s \<in> set H" "s \<noteq> sl" "sl_model_id s = i" "sl_slot_id s = Some x"
      using dH by auto
    with held_same_id [OF d sl(1) s(1)] sl(3)
    show "x \<noteq> sid \<and> (\<exists>s\<in>set H. sl_model_id s = i \<and> sl_slot_id s = Some x)" by auto
  next
    assume "x \<noteq> sid \<and> (\<exists>s\<in>set H. sl_model_id s = i \<and> sl_slot_id s = Some x)"
    then obtain s where s: "s \<in> set H" "sl_model_id s = i" "sl_slot_id s = Some x" "x \<noteq> sid"
      by blast
    with sl(3) have "s \<noteq> sl" by auto
    with s dH show "\<exists>s\<in>set (remove1 sl H). sl_model_id s = i \<and> sl_slot_id s = Some x" by auto
  qed
  have "state_inv (remove1 sl H) i st'"
    unfolding state_inv_def
  proof (intro conjI allI)
    show "mc_active_count st' = held_model i (remove1 sl H)"
      using st sl by (simp add: st'_def state_inv_def held_remove1)
    show "dict_wf (mc_active_slots st')"
      using st by (simp add: st'_def state_inv_def)
    fix x
    show "(dget (mc_active_slots st') x \<noteq> None) =
        (\<exists>s\<in>set (remove1 sl H). sl_model_id s = i \<and> sl_slot_id s = Some x)"
      unfolding slots using st by (simp add: st'_def state_inv_def)
    show "dget_or (mc_active_by_version st') x 0 = held_version i x (remove1 sl H)"
      using st sl n by (simp add: st'_def state_inv_def held_remove1)
  qed
  then show thesis
    using that r by (simp add: st'_def)
qed

lemma csys_inv_release:
  assumes inv: "csys_inv s" and sl: "sl \<in> set (cs_held s)"
    and r: "slot_release sl (cs_mgr s) = (sl', m)"
  shows "csys_inv \<lparr>cs_mgr = m, cs_held = remove1 sl (cs_held s)\<rparr>"
proof -
  let ?i = "sl_model_id sl" and ?H = "cs_held s"
  from inv sl have ok: "slot_ok sl" and d: "distinct (map sl_slot_id ?H)"
    by (auto simp: csys_inv_def)
  then have dH: "distinct ?H" by (simp add: distinct_map)
  from ok obtain sid where sid: "sl_slot_id sl = Some sid" by (auto simp: slot_ok_def)
  from inv sl obtain st where st: "dget (cm_models (cs_mgr s)) ?i = Some st"
    by (auto simp: csys_inv_def)
  obtain st' where st': "state_release (sl_version sl) (sl_slot_id sl) st = (True, st')"
    "state_inv (remove1 sl ?H) ?i st'" "mc_active_count st' = mc_active_count st - 1"
    using state_inv_release [OF csys_inv_get [OF inv st] sl refl sid d] .
  have ga: "cm_global_active (cs_mgr s) = int (length ?H)" and "1 \<le> length ?H"
    using inv sl by (auto simp: csys_inv_def Suc_le_eq length_pos_if_in_set)
  then have m: "cm_models m = dput ?i st' (cm_models (cs_mgr s))"
    "cm_global_active m = int (length ?H) - 1" "cm_global_limit m = cm_global_limit (cs_mgr s)"
    using r ok st st'(1) by (auto simp: slot_release_def slot_ok_def release_slot_def put_state_def)
  have old: "\<And>j w. j \<noteq> ?i \<Longrightarrow> dget (cm_models (cs_mgr s)) j = Some w \<Longrightarrow>
      state_inv (remove1 sl ?H) j w"
    using inv sl dH by (auto simp: csys_inv_def intro: state_inv_release_other)
  have "dsum mc_active_count (cm_models m) = int (length ?H) - 1"
    using inv st st'(3) by (simp add: m dsum_dput_old csys_inv_def)
  then show ?thesis
    using inv old st'(2) dH d
    by (auto simp: csys_inv_def m int_length_remove1 [OF sl] dest: notin_set_remove1
        intro: distinct_map_remove1)
qed

subsection \<open>The system\<close>

lemma csys_inv_init: "csys_init s \<Longrightarrow> csys_inv s"
  by (auto simp: csys_init_def csys_inv_def create_concurrency_stack_def new_manager_def)

lemma csys_inv_unregister:
  assumes inv: "csys_inv s" and free: "\<forall>sl\<in>set (cs_held s). sl_model_id sl \<noteq> i"
  shows "csys_inv (s\<lparr>cs_mgr := unregister_model i (cs_mgr s)\<rparr>)"
proof (cases "dget (cm_models (cs_mgr s)) i")
  case None
  then show ?thesis using inv by (simp add: unregister_model_def)
next
  case (Some st)
  have "held_model i (cs_held s) = 0" using free by (auto simp: held_model_def filter_empty_conv)
  then have "mc_active_count st = 0" using inv Some by (auto simp: csys_inv_def state_inv_def)
  moreover have "dict_wf (cm_models (cs_mgr s))" using inv by (simp add: csys_inv_def)
  ultimately show ?thesis using inv free
    by (auto simp: csys_inv_def unregister_model_def Some dsum_ddel [OF _ Some])
qed

lemma csys_inv_step: "cstep s t \<Longrightarrow> csys_inv s \<Longrightarrow> csys_inv t"
proof (induction rule: cstep.induct)
  case (c_register s i v l)
  then show ?case by (rule csys_inv_register_model)
next
  case (c_limit s i v n)
  then show ?case by (rule csys_inv_register_version_limit)
next
  case (c_acquire utc mt hex i v r s sl m)
  then show ?case by (blast intro: csys_inv_acquire)
next
  case (c_reject utc mt hex i v r s sl m)
  then show ?case by (blast intro: csys_inv_reject)
next
  case (c_release sl s sl' m)
  then show ?case by (blast intro: csys_inv_release)
next
  case (c_shutdown s)
  then show ?case by (intro csys_inv_cong) (simp_all add: manager_shutdown_def)
next
  case (c_unregister s i)
  then show ?case by (rule csys_inv_unregister [rotated])
qed

interpretation slots: invariant_system csys_init cstep csys_inv
  by unfold_locales (rule csys_inv_init, assumption, rule csys_inv_step)

text \<open>
  C1. In every state reached by registering, unregistering models without held slots, acquiring, releasing and
  shutting down, the manager's counters are exact: the global counter is the number of slots held by clients and the sum of the
  models' counters, and a model's counter for a version is the number of slots held for it.
\<close>

theorem slot_accounting:
  assumes "reach csys_init cstep s"
  shows "cm_global_active (cs_mgr s) = int (length (cs_held s)) \<and>
    dsum mc_active_count (cm_models (cs_mgr s)) = int (length (cs_held s)) \<and>
    (\<forall>i st v. dget (cm_models (cs_mgr s)) i = Some st \<longrightarrow>
       mc_active_count st = held_model i (cs_held s) \<and>
       dget_or (mc_active_by_version st) v 0 = held_version i v (cs_held s))"
  using slots.reach_invar [OF assms] by (auto simp: csys_inv_def state_inv_def)

text \<open>
  C18. In every state reached by registering, acquiring, releasing, shutting down and unregistering models
  none of whose slots is held, the number of slots held at once does not exceed nine tenths of the global
  limit, rounded up (and is zero for a limit of zero or less), so it does not exceed the global limit. When a
  model is unregistered while its slots are held the bound fails (\<open>unregister_breaks_global_limit\<close>).
\<close>

theorem held_slots_bounded:
  assumes "reach csys_init cstep s"
  shows "10 * int (length (cs_held s)) \<le> max 0 (9 * cm_global_limit (cs_mgr s) + 9) \<and>
    int (length (cs_held s)) \<le> max 0 (cm_global_limit (cs_mgr s))"
proof -
  have "10 * int (length (cs_held s)) \<le> max 0 (9 * cm_global_limit (cs_mgr s) + 9)"
    using slots.reach_invar [OF assms] by (simp add: csys_inv_def)
  then show ?thesis by linarith
qed

text \<open>A run with one slot held, to apply the invariant at.\<close>

definition demo_mgr :: ConcurrencyManager where
  "demo_mgr = create_concurrency_stack 10 2"

definition demo_acquire :: "ConcurrencySlot \<times> ConcurrencyManager" where
  "demo_acquire = try_acquire (\<lambda>_. 0) 5 ''0123456789abcdef'' ''fall'' ''1.0.0'' ''req'' demo_mgr"

definition demo_sys :: csys where
  "demo_sys = \<lparr>cs_mgr = snd demo_acquire, cs_held = [fst demo_acquire]\<rparr>"

lemmas demo_defs = demo_sys_def demo_acquire_def demo_mgr_def create_concurrency_stack_def
  new_manager_def

lemmas acquire_defs = try_acquire_def Let_def auto_register_def put_state_def is_hard_backpressure_def
  HARD_THRESHOLD_def can_acquire_def get_version_limit_def new_state_def grant_def acquired_slot_def
  state_acquire_def

lemma demo_reach: "reach csys_init cstep demo_sys"
proof (rule reach_step [OF reach_init])
  show "csys_init \<lparr>cs_mgr = demo_mgr, cs_held = []\<rparr>"
    by (auto simp: csys_init_def demo_mgr_def)
  have "try_acquire (\<lambda>_. 0) 5 ''0123456789abcdef'' ''fall'' ''1.0.0'' ''req''
      (cs_mgr \<lparr>cs_mgr = demo_mgr, cs_held = []\<rparr>) = (fst demo_acquire, snd demo_acquire)"
    by (simp add: demo_acquire_def)
  moreover have "sl_acquired (fst demo_acquire)"
    by (simp add: demo_defs acquire_defs)
  ultimately have "cstep \<lparr>cs_mgr = demo_mgr, cs_held = []\<rparr>
      \<lparr>cs_mgr = snd demo_acquire,
       cs_held = fst demo_acquire # cs_held \<lparr>cs_mgr = demo_mgr, cs_held = []\<rparr>\<rparr>"
    by (rule c_acquire) simp
  then show "cstep \<lparr>cs_mgr = demo_mgr, cs_held = []\<rparr> demo_sys"
    by (simp add: demo_sys_def)
qed

lemma demo_held: "length (cs_held demo_sys) = 1" "sl_model_id (hd (cs_held demo_sys)) = ''fall''"
  by (simp_all add: demo_defs acquire_defs)

lemma demo_active: "cm_global_active (cs_mgr demo_sys) = 1"
  by (simp add: demo_defs acquire_defs)

theorem slot_accounting_witness:
  "cm_global_active (cs_mgr demo_sys) = 1 \<and> dsum mc_active_count (cm_models (cs_mgr demo_sys)) = 1"
  using slot_accounting [OF demo_reach] by (simp add: demo_held)

theorem held_slots_bounded_witness: "10 * int (length (cs_held demo_sys)) \<le> 99"
  using held_slots_bounded [OF demo_reach] by (simp add: demo_defs acquire_defs)

section \<open>Classification of rejections\<close>

text \<open>
  A request is granted exactly when the runtime is not shutting down, there is no hard
  backpressure, the global limit is not reached, and the model and the version have a free slot;
  otherwise the answer carries the first reason that applies, in that order, an error with the code
  \<open>PIPE_CONCURRENCY_REJECTED\<close>, and the global counter is left alone.
\<close>

theorem try_acquire_classified:
  "let (sl, m') = try_acquire utc mt hex i v r m; st = found_state m i;
       full = (mc_max_concurrent st \<le> mc_active_count st);
       vfull = (get_version_limit st v \<le> dget_or (mc_active_by_version st) v 0)
   in sl_rejection_reason sl =
        (if cm_shutdown m then Some SHUTDOWN
         else if is_hard_backpressure m then Some BACKPRESSURE
         else if cm_global_limit m \<le> cm_global_active m then Some GLOBAL_LIMIT
         else if full then Some MODEL_LIMIT
         else if vfull then Some VERSION_LIMIT else None) \<and>
      (sl_acquired sl \<longleftrightarrow> sl_rejection_reason sl = None) \<and>
      cm_global_active m' = cm_global_active m + (if sl_acquired sl then 1 else 0) \<and>
      (sl_acquired sl \<or> map_option err_code (sl_rejection_error sl) = Some PIPE_CONCURRENCY_REJECTED)"
proof -
  obtain sl m' where t: "try_acquire utc mt hex i v r m = (sl, m')" by fastforce
  have 1: "sl_rejection_reason sl = verdict m i v" "sl_acquired sl \<longleftrightarrow> verdict m i v = None"
    using try_acquire_verdict [of utc mt hex i v r m] by (simp_all add: t)
  have 2: "cm_global_active m' = cm_global_active m + (if sl_acquired sl then 1 else 0) \<and>
      (sl_acquired sl \<or> map_option err_code (sl_rejection_error sl) = Some PIPE_CONCURRENCY_REJECTED)"
  proof (cases "verdict m i v")
    case None
    from try_acquire_granted(1) [OF None, of utc mt hex r] t
    have "sl = fst (grant utc mt hex i v r (found_state m i) (auto_register i m))"
      "m' = snd (grant utc mt hex i v r (found_state m i) (auto_register i m))"
      by (metis fst_conv, metis snd_conv)
    then show ?thesis by simp
  next
    case (Some reason)
    from try_acquire_rejected [OF Some, of utc mt hex r] t obtain msg d where
      "(sl, m') = (if cm_shutdown m
        then (rejected_slot i v r reason (rejection_error (utc 0) i v r reason msg d), m)
        else reject (utc 0) i v r reason msg d (found_state m i) (auto_register i m))"
      by metis
    then show ?thesis
      by (auto simp: reject_def put_state_def rejected_slot_def rejection_error_def split: if_splits)
  qed
  from 1 2 show ?thesis
    by (simp add: t Let_def verdict_def can_acquire_def)
qed

text \<open>
  With a positive global limit the answer is never \<open>GLOBAL_LIMIT\<close>: hard backpressure starts
  at nine tenths of the limit and is tested first, so that branch of the code is dead.
\<close>

theorem global_limit_never_reported:
  assumes "0 < cm_global_limit m"
  shows "sl_rejection_reason (fst (try_acquire utc mt hex i v r m)) \<noteq> Some GLOBAL_LIMIT"
proof -
  have "verdict m i v \<noteq> Some GLOBAL_LIMIT"
    using no_hard_backpressure_below_limit [OF _ assms] can_acquire_cases [of "found_state m i" v]
    by (auto simp: verdict_def)
  then show ?thesis by (simp add: try_acquire_verdict)
qed

theorem global_limit_never_reported_witness:
  "sl_rejection_reason (fst (try_acquire (\<lambda>_. 0) 0 ''x'' ''m'' ''v'' ''r''
     (demo_mgr\<lparr>cm_global_active := 10\<rparr>))) \<noteq> Some GLOBAL_LIMIT"
  by (rule global_limit_never_reported) (simp add: demo_defs)

section \<open>Releasing\<close>

text \<open>
  Releasing is idempotent: once \<open>release\<close> of a slot has run, running it again changes neither
  the slot nor the manager, whatever happened to the manager in between.
\<close>

theorem slot_release_idempotent:
  "slot_release (fst (slot_release s m)) m' = (fst (slot_release s m), m')"
  by (auto simp: slot_release_def)

lemma acquire_release_balanced:
  assumes inv: "csys_inv s"
    and fresh: "Some (''slot-'' @ take 12 hex) \<notin> sl_slot_id ` set (cs_held s)"
    and t: "try_acquire utc mt hex i v r (cs_mgr s) = (sl, m1)"
  shows "csys_inv \<lparr>cs_mgr = snd (slot_release sl m1), cs_held = cs_held s\<rparr>"
proof (cases "sl_acquired sl")
  case True
  have "verdict (cs_mgr s) i v = None"
    using True t try_acquire_verdict(2) [of utc mt hex i v r "cs_mgr s"] by simp
  from try_acquire_granted(1) [OF this, of utc mt hex r] t
  have "sl_slot_id sl = Some (''slot-'' @ take 12 hex)" by (metis fst_conv grant_simps(5))
  with fresh have "csys_inv \<lparr>cs_mgr = m1, cs_held = sl # cs_held s\<rparr>"
    by (intro csys_inv_acquire [OF inv t True]) simp
  from csys_inv_release [OF this, of sl "fst (slot_release sl m1)" "snd (slot_release sl m1)"]
  show ?thesis by (simp add: prod_eq_iff)
next
  case False
  with csys_inv_reject [OF inv t False] show ?thesis
    by (cases s) (simp add: slot_release_def)
qed

text \<open>
  A \<open>with\<close> block that leaves its slot alone gives back what it took: after it, the counters
  count exactly the slots held before it.
\<close>

theorem slot_context_balanced:
  assumes inv: "csys_inv s"
    and fresh: "Some (''slot-'' @ take 12 hex) \<notin> sl_slot_id ` set (cs_held s)"
    and ctx: "slot_context utc mt hex i v r (\<lambda>sl m. (body sl, sl, m)) (cs_mgr s) = (res, m')"
  shows "csys_inv \<lparr>cs_mgr = m', cs_held = cs_held s\<rparr> \<and>
    cm_global_active m' = cm_global_active (cs_mgr s)"
proof -
  obtain sl m1 where t: "try_acquire utc mt hex i v r (cs_mgr s) = (sl, m1)" by fastforce
  with ctx have "m' = snd (slot_release sl m1)" by (simp add: slot_context_def)
  with acquire_release_balanced [OF inv fresh t] inv show ?thesis by (simp add: csys_inv_def)
qed

theorem slot_context_balanced_witness:
  "cm_global_active (snd (slot_context (\<lambda>_. 0) 6 ''fedcba9876543210'' ''fall'' ''1.0.0'' ''req2''
     (\<lambda>sl m. (Inr (0 :: int), sl, m)) (cs_mgr demo_sys))) = 1"
proof -
  have "Some (''slot-'' @ take 12 ''fedcba9876543210'') \<notin> sl_slot_id ` set (cs_held demo_sys)"
    by (simp add: demo_defs acquire_defs)
  from slot_context_balanced [where body = "\<lambda>_. Inr (0 :: int)",
      OF slots.reach_invar [OF demo_reach] this prod.collapse [symmetric]]
  show ?thesis using demo_active by simp
qed

section \<open>Unregistering a model that still has slots\<close>

text \<open>
  The steps of the system with \<open>unregister_model\<close> added.
\<close>

inductive ustep :: "csys \<Rightarrow> csys \<Rightarrow> bool" where
  u_call: "cstep s t \<Longrightarrow> ustep s t"
| u_unregister: "ustep s (s\<lparr>cs_mgr := unregister_model i (cs_mgr s)\<rparr>)"

text \<open>
  \<open>unregister_model\<close> subtracts the model's active slots from the global counter, and each of
  those slots is subtracted a second time when its client releases it: after one such release the
  counter is below the number of slots still held, by as many as the model had (or it is stuck at
  zero).
\<close>

theorem unregister_then_release_undercounts:
  assumes inv: "csys_inv s" and sl: "sl \<in> set (cs_held s)"
  shows "let k = held_model (sl_model_id sl) (cs_held s);
             m1 = unregister_model (sl_model_id sl) (cs_mgr s);
             m2 = snd (slot_release sl m1);
             still_held = int (length (remove1 sl (cs_held s)))
         in cm_global_active m1 = int (length (cs_held s)) - k \<and>
            cm_global_active m2 = max 0 (still_held - k) \<and> 1 \<le> k"
proof -
  let ?i = "sl_model_id sl" and ?H = "cs_held s"
  from inv sl obtain st where st: "dget (cm_models (cs_mgr s)) ?i = Some st"
    by (auto simp: csys_inv_def)
  from inv sl have ok: "slot_ok sl" by (simp add: csys_inv_def)
  have c: "mc_active_count st = held_model ?i ?H"
    using csys_inv_get [OF inv st] by (simp add: state_inv_def)
  have g: "cm_global_active (cs_mgr s) = int (length ?H)"
    using inv by (simp add: csys_inv_def)
  have k: "1 \<le> held_model ?i ?H" "held_model ?i ?H \<le> int (length ?H)"
    using held_pos(1) [OF sl] by (simp_all add: held_model_def)
  define m1 where "m1 = unregister_model ?i (cs_mgr s)"
  have m1: "cm_global_active m1 = int (length ?H) - held_model ?i ?H"
    "dget (cm_models m1) ?i = None"
    using k by (simp_all add: m1_def unregister_model_def st c g)
  have "cm_global_active (snd (slot_release sl m1)) =
      max 0 (int (length ?H) - held_model ?i ?H - 1)"
    using ok m1 by (simp add: slot_release_def slot_ok_def release_slot_def)
  with m1 k show ?thesis
    unfolding m1_def by (simp add: Let_def int_length_remove1 [OF sl])
qed

theorem unregister_then_release_undercounts_witness:
  "cm_global_active (unregister_model ''fall'' (cs_mgr demo_sys)) = 0 \<and>
   cm_global_active (snd (slot_release (hd (cs_held demo_sys))
      (unregister_model ''fall'' (cs_mgr demo_sys)))) = 0"
proof -
  have h: "hd (cs_held demo_sys) \<in> set (cs_held demo_sys)"
    by (simp add: demo_sys_def)
  have l: "length (remove1 (hd (cs_held demo_sys)) (cs_held demo_sys)) = 0"
    by (simp add: demo_sys_def)
  have k: "held_model ''fall'' (cs_held demo_sys) = 1"
    by (simp add: demo_defs acquire_defs)
  show ?thesis
    using unregister_then_release_undercounts [OF slots.reach_invar [OF demo_reach] h]
    by (simp add: Let_def demo_held l k)
qed

text \<open>A run of four calls with a global limit of one: take, unregister, take again.\<close>

definition over0 :: csys where
  "over0 = \<lparr>cs_mgr = create_concurrency_stack 1 1, cs_held = []\<rparr>"

definition over_take :: "string \<Rightarrow> string \<Rightarrow> csys \<Rightarrow> csys" where
  "over_take hex i s =
     (let (sl, m) = try_acquire (\<lambda>_. 0) 0 hex i ''1.0.0'' ''req'' (cs_mgr s)
      in \<lparr>cs_mgr = m, cs_held = sl # cs_held s\<rparr>)"

definition over1 :: csys where
  "over1 = over_take ''aaaaaaaaaaaa'' ''a'' over0"

definition over2 :: csys where
  "over2 = over1\<lparr>cs_mgr := unregister_model ''a'' (cs_mgr over1)\<rparr>"

definition over3 :: csys where
  "over3 = over_take ''bbbbbbbbbbbb'' ''b'' over2"

lemmas over_defs = over3_def over2_def over1_def over0_def over_take_def create_concurrency_stack_def
  new_manager_def unregister_model_def

lemma over_take_step:
  assumes "sl_acquired (hd (cs_held (over_take hex i s)))"
    and "sl_slot_id (hd (cs_held (over_take hex i s))) \<notin> sl_slot_id ` set (cs_held s)"
  shows "ustep s (over_take hex i s)"
proof -
  obtain sl m where t: "try_acquire (\<lambda>_. 0) 0 hex i ''1.0.0'' ''req'' (cs_mgr s) = (sl, m)"
    by fastforce
  with assms show ?thesis
    using c_acquire [OF t] by (auto simp: over_take_def intro: u_call)
qed

text \<open>
  With \<open>unregister_model\<close> among the calls the global limit is no longer a bound: there is a
  run with a limit of one in which two slots are held at once.
\<close>

theorem unregister_breaks_global_limit:
  "\<exists>s. reach csys_init ustep s \<and> cm_global_limit (cs_mgr s) = 1 \<and> length (cs_held s) = 2"
proof -
  have "reach csys_init ustep over0"
    by (rule reach_init) (auto simp: csys_init_def over0_def)
  then have "reach csys_init ustep over1"
    unfolding over1_def
    by (rule reach_step) (rule over_take_step, simp_all add: over_defs acquire_defs)
  then have "reach csys_init ustep over2"
    unfolding over2_def by (rule reach_step) (rule u_unregister)
  then have "reach csys_init ustep over3"
    unfolding over3_def
    by (rule reach_step) (rule over_take_step, simp_all add: over_defs acquire_defs)
  moreover have "cm_global_limit (cs_mgr over3) = 1" "length (cs_held over3) = 2"
    by (simp_all add: over_defs acquire_defs)
  ultimately show ?thesis by blast
qed

section \<open>Scheduling hints and reports\<close>

text \<open>
  The fairness report returns only while no model has been seen: with an entry in the
  last-served table it asks for the model's statistics under the manager's own lock, and the
  calling thread waits for itself for ever.
\<close>

theorem fairness_report_self_deadlock:
  "get_fairness_report m utc now =
     (if cm_last_served m = []
      then Returns \<lparr>fr_timestamp = utc, fr_models = [], fr_starved_models = []\<rparr>
      else SelfDeadlock)"
proof (cases "cm_last_served m")
  case Nil
  then show ?thesis by (simp add: get_fairness_report_def)
next
  case (Cons p rest)
  then show ?thesis
    by (cases p) (simp add: get_fairness_report_def get_model_stats_call_def Let_def)
qed

text \<open>The models of a list that may be suggested, and how long each has waited.\<close>

definition has_room :: "ConcurrencyManager \<Rightarrow> string \<Rightarrow> bool" where
  "has_room m i \<longleftrightarrow> (case get_model_stats m i of None \<Rightarrow> False
     | Some s \<Rightarrow> ms_active_count s < ms_max_concurrent s)"

definition waited :: "ConcurrencyManager \<Rightarrow> real \<Rightarrow> string \<Rightarrow> real" where
  "waited m now i = now - dget_or (cm_last_served m) i 0"

lemma suggest_loop_Cons:
  "suggest_loop m now (i # rest) b w =
     (if has_room m i \<and> w < waited m now i then suggest_loop m now rest (Some i) (waited m now i)
      else suggest_loop m now rest b w)"
  by (auto simp: has_room_def waited_def Let_def split: option.splits)

lemma suggest_loop_spec:
  fixes m :: ConcurrencyManager
  shows "case suggest_loop m now cs b w of
     None \<Rightarrow> b = None \<and> (\<forall>c\<in>set cs. has_room m c \<longrightarrow> waited m now c \<le> w)
   | Some r \<Rightarrow> (\<exists>u\<ge>w. (r \<in> set cs \<and> has_room m r \<and> u = waited m now r \<or> b = Some r \<and> u = w) \<and>
       (\<forall>c\<in>set cs. has_room m c \<longrightarrow> waited m now c \<le> u))"
proof (induction cs arbitrary: b w)
  case Nil
  then show ?case by (simp split: option.splits)
next
  case (Cons c cs)
  show ?case
  proof (cases "has_room m c \<and> w < waited m now c")
    case True
    let ?u = "waited m now c"
    have eq: "suggest_loop m now (c # cs) b w = suggest_loop m now cs (Some c) ?u"
      using True by (simp del: suggest_loop.simps add: suggest_loop_Cons)
    obtain r where r: "suggest_loop m now cs (Some c) ?u = Some r"
      using Cons.IH [of "Some c" ?u] by (auto split: option.splits)
    then obtain u where "?u \<le> u"
      "r \<in> set cs \<and> has_room m r \<and> u = waited m now r \<or> c = r \<and> u = ?u"
      "\<forall>d\<in>set cs. has_room m d \<longrightarrow> waited m now d \<le> u"
      using Cons.IH [of "Some c" ?u] by auto
    with True show ?thesis
      unfolding eq r by (auto intro!: exI [of _ u])
  next
    case False
    have eq: "suggest_loop m now (c # cs) b w = suggest_loop m now cs b w"
      using False by (subst suggest_loop_Cons) (rule if_not_P)
    show ?thesis
    proof (cases "suggest_loop m now cs b w")
      case None
      with Cons.IH [of b w] False show ?thesis unfolding eq by auto
    next
      case (Some r)
      with Cons.IH [of b w] obtain u where "w \<le> u"
        "r \<in> set cs \<and> has_room m r \<and> u = waited m now r \<or> b = Some r \<and> u = w"
        "\<forall>d\<in>set cs. has_room m d \<longrightarrow> waited m now d \<le> u"
        by auto
      with False show ?thesis
        unfolding eq Some by (auto intro!: exI [of _ u])
    qed
  qed
qed

text \<open>
  The scheduler suggests a candidate that is registered, below its limit, and has waited at
  least as long as every other such candidate; it suggests nothing only when there is none
  (provided no model was served in the future).
\<close>

theorem suggest_next_model_longest_waiting:
  assumes "\<forall>c\<in>set cs. dget_or (cm_last_served m) c 0 \<le> now"
  shows "case suggest_next_model m now cs of
      None \<Rightarrow> (\<forall>c\<in>set cs. \<not> has_room m c)
    | Some r \<Rightarrow> r \<in> set cs \<and> has_room m r \<and>
        (\<forall>c\<in>set cs. has_room m c \<longrightarrow> waited m now c \<le> waited m now r)"
proof -
  have w: "0 \<le> waited m now c" if "c \<in> set cs" for c
    using assms that by (simp add: waited_def)
  show ?thesis
    using suggest_loop_spec [where m = m and now = now and cs = cs and b = None and w = "- 1"] w
    by (force simp: suggest_next_model_def split: option.splits)
qed

theorem suggest_next_model_longest_waiting_witness:
  "suggest_next_model (cs_mgr demo_sys) 7 [''fall''] = Some ''fall'' \<and>
   has_room (cs_mgr demo_sys) ''fall''"
proof -
  have s: "suggest_next_model (cs_mgr demo_sys) 7 [''fall''] = Some ''fall''"
    by (simp add: suggest_next_model_def get_model_stats_def dget_or_def demo_defs acquire_defs)
  have "\<forall>c\<in>set [''fall'']. dget_or (cm_last_served (cs_mgr demo_sys)) c 0 \<le> 7"
    by (simp add: dget_or_def demo_defs acquire_defs)
  from suggest_next_model_longest_waiting [OF this] show ?thesis
    by (simp add: s)
qed

text \<open>
  A request that would be granted is never discouraged by \<open>can_accept\<close>; the hint is
  optimistic: it can say yes while hard backpressure turns every request away.
\<close>

theorem granted_implies_can_accept:
  assumes "sl_acquired (fst (try_acquire utc mt hex i v r m))"
  shows "can_accept m i v"
proof -
  have n: "verdict m i v = None"
    using assms by (simp add: try_acquire_verdict)
  note g = try_acquire_granted(4,5) [OF n]
  then show ?thesis
    using can_acquire_True [OF g(2)]
    by (auto simp: can_accept_def get_model_stats_def get_global_stats_def found_state_def
        auto_register_get split: option.splits)
qed

theorem granted_implies_can_accept_witness:
  "can_accept demo_mgr ''fall'' ''1.0.0'' \<and>
   can_accept (demo_mgr\<lparr>cm_global_active := 9\<rparr>) ''fall'' ''1.0.0'' \<and>
   \<not> sl_acquired (fst (try_acquire (\<lambda>_. 0) 0 ''x'' ''fall'' ''1.0.0'' ''r''
        (demo_mgr\<lparr>cm_global_active := 9\<rparr>)))"
proof -
  have a: "sl_acquired (fst (try_acquire (\<lambda>_. 0) 5 ''0123456789abcdef'' ''fall'' ''1.0.0'' ''req'' demo_mgr))"
    by (simp add: demo_defs acquire_defs)
  have "verdict (demo_mgr\<lparr>cm_global_active := 9\<rparr>) ''fall'' ''1.0.0'' = Some BACKPRESSURE"
    by (simp add: verdict_def demo_defs acquire_defs)
  then show ?thesis
    using granted_implies_can_accept [OF a]
    by (simp add: try_acquire_verdict can_accept_def get_model_stats_def get_global_stats_def demo_defs)
qed


end
