(* ===== verification/RuntimeModels.thy ===== *)
theory RuntimeModels
  imports RuntimePrelude "HOL-Library.Product_Lexorder" "HOL-Library.List_Lexorder"
    "HOL-Library.Char_ord"
begin

text \<open>
  The data model of the runtime, \<open>ai/runtime/models.py\<close>: identifier patterns, life-cycle and health
  enumerations, the contract specifications, and the descriptors of a model version and of a model.
  Strings are sequences of code points below 256, for which the pattern \<open>\d\<close> matches exactly the ten
  ASCII digits. A path is the list of its parts.
\<close>

section \<open>Identifier patterns\<close>

text \<open>
  \<open>$\<close> at the end of a Python pattern also matches just before a newline that ends the string, so
  one trailing newline is ignored by every \<open>match\<close> below.
\<close>

definition chomp :: "string \<Rightarrow> string" where
  "chomp s = (if s \<noteq> [] \<and> last s = CHR 0x0A then butlast s else s)"

definition is_lower :: "char \<Rightarrow> bool" where
  "is_lower c \<longleftrightarrow> 97 \<le> (of_char c :: nat) \<and> (of_char c :: nat) \<le> 122"

definition is_upper :: "char \<Rightarrow> bool" where
  "is_upper c \<longleftrightarrow> 65 \<le> (of_char c :: nat) \<and> (of_char c :: nat) \<le> 90"

definition is_alnum :: "char \<Rightarrow> bool" where
  "is_alnum c \<longleftrightarrow> is_digit c \<or> is_lower c \<or> is_upper c"

definition is_valid_model_id :: "string \<Rightarrow> bool" where
  "is_valid_model_id model_id =
     (case chomp model_id of
        [] \<Rightarrow> False
      | c # cs \<Rightarrow> is_lower c \<and> 2 \<le> length cs \<and> length cs \<le> 63 \<and>
          list_all (\<lambda>d. is_lower d \<or> is_digit d \<or> d = CHR ''_'') cs)"

text \<open>\<open>0|[1-9]\d*\<close>\<close>

definition numeric_ident :: "string \<Rightarrow> bool" where
  "numeric_ident w \<longleftrightarrow> w \<noteq> [] \<and> list_all is_digit w \<and> (hd w = CHR ''0'' \<longrightarrow> w = ''0'')"

text \<open>\<open>(0|[1-9]\d*)\.(0|[1-9]\d*)\.(0|[1-9]\d*)\<close>\<close>

definition valid_core :: "string \<Rightarrow> bool" where
  "valid_core s = (case py_split CHR ''.'' s of
     [a, b, c] \<Rightarrow> numeric_ident a \<and> numeric_ident b \<and> numeric_ident c | _ \<Rightarrow> False)"

definition is_valid_version :: "string \<Rightarrow> bool" where
  "is_valid_version version =
     (case py_split1 CHR ''-'' (chomp version) of
        (core, None) \<Rightarrow> valid_core core
      | (core, Some pre) \<Rightarrow> valid_core core \<and>
          list_all (\<lambda>w. w \<noteq> [] \<and> list_all is_alnum w) (py_split CHR ''.'' pre))"

section \<open>Enumerations\<close>

datatype LoadState = DISCOVERED | VALIDATING | LOADING | READY | INVALID | FAILED | ERROR
  | UNLOADING | UNLOADED | DISABLED

fun state_value :: "LoadState \<Rightarrow> string" where
  "state_value DISCOVERED = ''discovered''"
| "state_value VALIDATING = ''validating''"
| "state_value LOADING = ''loading''"
| "state_value READY = ''ready''"
| "state_value INVALID = ''invalid''"
| "state_value FAILED = ''failed''"
| "state_value ERROR = ''error''"
| "state_value UNLOADING = ''unloading''"
| "state_value UNLOADED = ''unloaded''"
| "state_value DISABLED = ''disabled''"

definition is_terminal :: "LoadState \<Rightarrow> bool" where
  "is_terminal s \<longleftrightarrow> s \<in> {INVALID}"

definition is_available :: "LoadState \<Rightarrow> bool" where
  "is_available s \<longleftrightarrow> s = READY"

definition is_loading_complete :: "LoadState \<Rightarrow> bool" where
  "is_loading_complete s \<longleftrightarrow> s \<in> {READY, INVALID, FAILED, ERROR, DISABLED}"

datatype HealthStatus = HEALTHY | DEGRADED | UNHEALTHY | UNKNOWN

fun health_value :: "HealthStatus \<Rightarrow> string" where
  "health_value HEALTHY = ''healthy''"
| "health_value DEGRADED = ''degraded''"
| "health_value UNHEALTHY = ''unhealthy''"
| "health_value UNKNOWN = ''unknown''"

datatype InputType = FRAME | BATCH | TEMPORAL

fun input_type_value :: "InputType \<Rightarrow> string" where
  "input_type_value FRAME = ''frame''"
| "input_type_value BATCH = ''batch''"
| "input_type_value TEMPORAL = ''temporal''"

datatype InputFormat = JPEG | PNG | RAW_RGB | RAW_BGR | RAW_GRAYSCALE

section \<open>Contract specifications\<close>

record HardwareCompatibility =
  hw_supports_cpu :: bool
  hw_supports_gpu :: bool
  hw_supports_jetson :: bool
  hw_min_gpu_memory_mb :: "int option"
  hw_min_cpu_cores :: "int option"
  hw_min_ram_mb :: "int option"

text \<open>\<open>if a and b\<close> on optional integers: both given and both non-zero.\<close>

definition is_compatible_with ::
  "HardwareCompatibility \<Rightarrow> bool \<Rightarrow> bool \<Rightarrow> int option \<Rightarrow> bool" where
  "is_compatible_with hw has_gpu is_jetson gpu_memory_mb =
     (if is_jetson \<and> \<not> hw_supports_jetson hw then False
      else if has_gpu \<and> \<not> hw_supports_gpu hw \<and> \<not> hw_supports_cpu hw then False
      else if \<not> has_gpu \<and> \<not> is_jetson \<and> \<not> hw_supports_cpu hw then False
      else (case (hw_min_gpu_memory_mb hw, gpu_memory_mb) of
              (Some need, Some have) \<Rightarrow>
                (if need \<noteq> 0 \<and> have \<noteq> 0 \<and> have < need then False else True)
            | _ \<Rightarrow> True))"

record PerformanceHints =
  ph_inference_time_hint_ms :: int
  ph_recommended_fps :: int
  ph_max_fps :: "int option"
  ph_recommended_batch_size :: int
  ph_warmup_iterations :: int

record ResourceLimits =
  rl_max_memory_mb :: "int option"
  rl_inference_timeout_ms :: int
  rl_preprocessing_timeout_ms :: int
  rl_postprocessing_timeout_ms :: int
  rl_max_concurrent_inferences :: int

record InputSpecification =
  is_type :: InputType
  is_format :: InputFormat
  is_min_width :: int
  is_min_height :: int
  is_max_width :: "int option"
  is_max_height :: "int option"
  is_channels :: int
  is_batch_min_size :: "int option"
  is_batch_max_size :: "int option"
  is_batch_recommended_size :: "int option"
  is_temporal_min_frames :: "int option"
  is_temporal_max_frames :: "int option"
  is_temporal_recommended_frames :: "int option"
  is_temporal_fps_requirement :: "real option"

record OutputField =
  of_name :: string
  of_type :: string
  of_required :: bool
  of_description :: string
  of_enum :: "string list option"
  of_min_value :: "real option"
  of_max_value :: "real option"

record OutputSpecification =
  os_schema_version :: string
  os_event_type_enum :: "string list"
  os_provides_bounding_boxes :: bool
  os_provides_metadata :: bool
  os_metadata_allowed_keys :: "string list"

record ModelCapabilities =
  mc_supports_batching :: bool
  mc_supports_async :: bool
  mc_provides_tracking :: bool
  mc_confidence_calibrated :: bool
  mc_provides_bounding_boxes :: bool
  mc_provides_keypoints :: bool

record EntryPoints =
  ep_inference :: string
  ep_preprocess :: "string option"
  ep_postprocess :: "string option"
  ep_loader :: "string option"

definition default_output :: OutputSpecification where
  "default_output = \<lparr>os_schema_version = ''1.0'', os_event_type_enum = [''detected'', ''not_detected''],
     os_provides_bounding_boxes = False, os_provides_metadata = False, os_metadata_allowed_keys = []\<rparr>"

definition default_capabilities :: ModelCapabilities where
  "default_capabilities = \<lparr>mc_supports_batching = False, mc_supports_async = False,
     mc_provides_tracking = False, mc_confidence_calibrated = False,
     mc_provides_bounding_boxes = False, mc_provides_keypoints = False\<rparr>"

definition default_entry_points :: EntryPoints where
  "default_entry_points = \<lparr>ep_inference = ''inference.py'', ep_preprocess = None,
     ep_postprocess = None, ep_loader = None\<rparr>"

definition default_hardware :: HardwareCompatibility where
  "default_hardware = \<lparr>hw_supports_cpu = True, hw_supports_gpu = False, hw_supports_jetson = False,
     hw_min_gpu_memory_mb = None, hw_min_cpu_cores = None, hw_min_ram_mb = None\<rparr>"

definition default_performance :: PerformanceHints where
  "default_performance = \<lparr>ph_inference_time_hint_ms = 100, ph_recommended_fps = 10,
     ph_max_fps = None, ph_recommended_batch_size = 1, ph_warmup_iterations = 1\<rparr>"

definition default_limits :: ResourceLimits where
  "default_limits = \<lparr>rl_max_memory_mb = None, rl_inference_timeout_ms = 5000,
     rl_preprocessing_timeout_ms = 1000, rl_postprocessing_timeout_ms = 1000,
     rl_max_concurrent_inferences = 1\<rparr>"

definition default_input :: InputSpecification where
  "default_input = \<lparr>is_type = FRAME, is_format = JPEG, is_min_width = 320, is_min_height = 240,
     is_max_width = None, is_max_height = None, is_channels = 3, is_batch_min_size = None,
     is_batch_max_size = None, is_batch_recommended_size = None, is_temporal_min_frames = None,
     is_temporal_max_frames = None, is_temporal_recommended_frames = None,
     is_temporal_fps_requirement = None\<rparr>"

section \<open>Descriptors\<close>

type_synonym path = "string list"

definition path_parent :: "path \<Rightarrow> path" where
  "path_parent p = (if p = [''/''] then p else butlast p)"

definition path_str :: "path \<Rightarrow> string" where
  "path_str p = (case p of [] \<Rightarrow> ''.'' | d # ds \<Rightarrow>
     if d = ''/'' then ''/'' @ py_join ''/'' ds else py_join ''/'' p)"

text \<open>
  \<open>path / s\<close>: the parts of \<open>s\<close>, without empty and \<open>.\<close> parts, are appended; an absolute \<open>s\<close>
  replaces the path.
\<close>

definition path_div :: "path \<Rightarrow> string \<Rightarrow> path" where
  "path_div p s =
     (let parts = filter (\<lambda>w. w \<noteq> [] \<and> w \<noteq> ''.'') (py_split CHR ''/'' s)
      in if s \<noteq> [] \<and> hd s = CHR ''/'' then ''/'' # parts else p @ parts)"

record ModelVersionDescriptor =
  vd_model_id :: string
  vd_version :: string
  vd_display_name :: string
  vd_description :: string
  vd_author :: string
  vd_contract_schema_version :: string
  vd_directory_path :: path
  vd_input_spec :: InputSpecification
  vd_output_spec :: OutputSpecification
  vd_hardware :: HardwareCompatibility
  vd_performance :: PerformanceHints
  vd_limits :: ResourceLimits
  vd_capabilities :: ModelCapabilities
  vd_entry_points :: EntryPoints
  vd_state :: LoadState
  vd_health :: HealthStatus
  vd_last_state_change :: real
  vd_last_error :: "string option"
  vd_last_error_code :: "string option"
  vd_load_time_ms :: "int option"
  vd_inference_count :: int
  vd_error_count :: int

text \<open>A descriptor with the defaults of the class.\<close>

definition new_descriptor :: "real \<Rightarrow> string \<Rightarrow> string \<Rightarrow> string \<Rightarrow> ModelVersionDescriptor" where
  "new_descriptor now model_id version display_name =
     \<lparr>vd_model_id = model_id, vd_version = version, vd_display_name = display_name,
      vd_description = [], vd_author = ''unknown'', vd_contract_schema_version = ''1.0.0'',
      vd_directory_path = [], vd_input_spec = default_input, vd_output_spec = default_output,
      vd_hardware = default_hardware, vd_performance = default_performance,
      vd_limits = default_limits, vd_capabilities = default_capabilities,
      vd_entry_points = default_entry_points, vd_state = DISCOVERED,
      vd_health = UNKNOWN, vd_last_state_change = now, vd_last_error = None,
      vd_last_error_code = None, vd_load_time_ms = None, vd_inference_count = 0,
      vd_error_count = 0\<rparr>"

definition make_qualified_id :: "string \<Rightarrow> string \<Rightarrow> string" where
  "make_qualified_id model_id version = model_id @ '':'' @ version"

definition qualified_id :: "ModelVersionDescriptor \<Rightarrow> string" where
  "qualified_id d = make_qualified_id (vd_model_id d) (vd_version d)"

definition weights_path :: "ModelVersionDescriptor \<Rightarrow> path" where
  "weights_path d = path_div (vd_directory_path d) ''weights''"

definition inference_path :: "ModelVersionDescriptor \<Rightarrow> path" where
  "inference_path d = path_div (vd_directory_path d) (ep_inference (vd_entry_points d))"

definition transition_to ::
  "real \<Rightarrow> LoadState \<Rightarrow> string option \<Rightarrow> string option \<Rightarrow> ModelVersionDescriptor \<Rightarrow> ModelVersionDescriptor" where
  "transition_to now new_state error error_code d =
     (let d1 = d\<lparr>vd_state := new_state, vd_last_state_change := now\<rparr>
      in if truthy_str error then d1\<lparr>vd_last_error := error, vd_last_error_code := error_code\<rparr>
         else d1)"

definition descriptor_to_dict :: "ModelVersionDescriptor \<Rightarrow> (string, jval) dict" where
  "descriptor_to_dict d =
     [(''model_id'', JStr (vd_model_id d)), (''version'', JStr (vd_version d)),
      (''display_name'', JStr (vd_display_name d)), (''description'', JStr (vd_description d)),
      (''author'', JStr (vd_author d)), (''state'', JStr (state_value (vd_state d))),
      (''health'', JStr (health_value (vd_health d))),
      (''directory_path'', JStr (path_str (vd_directory_path d))),
      (''last_state_change'', JTime (vd_last_state_change d)),
      (''last_error'', jopt JStr (vd_last_error d)),
      (''last_error_code'', jopt JStr (vd_last_error_code d)),
      (''input_type'', JStr (input_type_value (is_type (vd_input_spec d)))),
      (''hardware'', JDict [(''supports_cpu'', JBool (hw_supports_cpu (vd_hardware d))),
         (''supports_gpu'', JBool (hw_supports_gpu (vd_hardware d))),
         (''supports_jetson'', JBool (hw_supports_jetson (vd_hardware d)))]),
      (''performance'', JDict
         [(''inference_time_hint_ms'', JInt (ph_inference_time_hint_ms (vd_performance d))),
          (''recommended_fps'', JInt (ph_recommended_fps (vd_performance d)))]),
      (''metrics'', JDict [(''load_time_ms'', jopt JInt (vd_load_time_ms d)),
         (''inference_count'', JInt (vd_inference_count d)),
         (''error_count'', JInt (vd_error_count d))])]"

record ModelDescriptor =
  md_model_id :: string
  md_directory_path :: path
  md_versions :: "(string, ModelVersionDescriptor) dict"
  md_discovered_at :: real

definition version_count :: "ModelDescriptor \<Rightarrow> nat" where
  "version_count md = length (md_versions md)"

definition ready_versions :: "ModelDescriptor \<Rightarrow> string list" where
  "ready_versions md = map fst (filter (\<lambda>(v, d). vd_state d = READY) (md_versions md))"

definition md_get_version :: "ModelDescriptor \<Rightarrow> string \<Rightarrow> ModelVersionDescriptor option" where
  "md_get_version md version = dget (md_versions md) version"

definition add_version :: "ModelVersionDescriptor \<Rightarrow> ModelDescriptor \<Rightarrow> ModelDescriptor" where
  "add_version d md = md\<lparr>md_versions := dput (vd_version d) d (md_versions md)\<rparr>"

definition remove_version ::
  "string \<Rightarrow> ModelDescriptor \<Rightarrow> ModelVersionDescriptor option \<times> ModelDescriptor" where
  "remove_version version md =
     (dget (md_versions md) version, md\<lparr>md_versions := ddel version (md_versions md)\<rparr>)"

subsection \<open>The sort key of a version\<close>

text \<open>
  \<open>int(s)\<close> on a string: surrounding white space, one sign, decimal digits with single underscores
  between them; \<open>None\<close> is the \<open>ValueError\<close>.
\<close>

definition is_space :: "char \<Rightarrow> bool" where
  "is_space c \<longleftrightarrow> (of_char c :: nat) \<in> {9, 10, 11, 12, 13, 28, 29, 30, 31, 32, 133, 160}"

definition py_strip :: "string \<Rightarrow> string" where
  "py_strip s = rev (dropWhile is_space (rev (dropWhile is_space s)))"

definition py_int :: "string \<Rightarrow> int option" where
  "py_int s =
     (let t = py_strip s;
          neg = (t \<noteq> [] \<and> hd t = CHR ''-'');
          u = (if t \<noteq> [] \<and> (hd t = CHR ''-'' \<or> hd t = CHR ''+'') then tl t else t);
          groups = py_split CHR ''_'' u
      in if list_all (\<lambda>w. w \<noteq> [] \<and> list_all is_digit w) groups
         then Some ((if neg then - 1 else 1) * int (read_nat (concat groups)))
         else None)"

definition int_part :: "string list \<Rightarrow> nat \<Rightarrow> int option" where
  "int_part parts i = (if i < length parts then py_int (parts ! i) else Some 0)"

definition semver_sort_key :: "string \<Rightarrow> (int \<times> int \<times> int \<times> string) option" where
  "semver_sort_key version =
     (let (main, prerelease) =
            (case py_split1 CHR ''-'' version of
               (main, Some pre) \<Rightarrow> (main, pre)
             | (main, None) \<Rightarrow> (main, ''~''));
          parts = py_split CHR ''.'' main
      in case (int_part parts 0, int_part parts 1, int_part parts 2) of
           (Some major, Some minor, Some patch) \<Rightarrow> Some (major, minor, patch, prerelease)
         | _ \<Rightarrow> None)"

text \<open>
  \<open>max(keys, key=_semver_key)\<close>: the first of the keys whose sort key no later one exceeds; a key
  that cannot be parsed raises.
\<close>

fun max_by_key :: "string \<Rightarrow> (int \<times> int \<times> int \<times> string) \<Rightarrow> string list \<Rightarrow> py_error + string" where
  "max_by_key best bk [] = Inr best"
| "max_by_key best bk (v # vs) =
     (case semver_sort_key v of
        None \<Rightarrow> Inl (ValueError v)
      | Some k \<Rightarrow> (if bk < k then max_by_key v k vs else max_by_key best bk vs))"

definition latest_version :: "ModelDescriptor \<Rightarrow> py_error + string option" where
  "latest_version md =
     (case dkeys (md_versions md) of
        [] \<Rightarrow> Inr None
      | v # vs \<Rightarrow>
          (case semver_sort_key v of
             None \<Rightarrow> Inl (ValueError v)
           | Some k \<Rightarrow> map_sum id Some (max_by_key v k vs)))"

definition model_to_dict :: "ModelDescriptor \<Rightarrow> py_error + (string, jval) dict" where
  "model_to_dict md =
     (case latest_version md of
        Inl e \<Rightarrow> Inl e
      | Inr latest \<Rightarrow> Inr
          [(''model_id'', JStr (md_model_id md)),
           (''directory_path'', JStr (path_str (md_directory_path md))),
           (''version_count'', JInt (int (version_count md))),
           (''versions'', JStrs (dkeys (md_versions md))),
           (''ready_versions'', JStrs (ready_versions md)),
           (''latest_version'', jopt JStr latest),
           (''discovered_at'', JTime (md_discovered_at md))])"

section \<open>Lemmas\<close>

lemma transition_to_simps [simp]:
  "vd_state (transition_to now s e c d) = s"
  "vd_version (transition_to now s e c d) = vd_version d"
  "vd_model_id (transition_to now s e c d) = vd_model_id d"
  "vd_health (transition_to now s e c d) = vd_health d"
  by (simp_all add: transition_to_def Let_def)

lemma transition_to_keeps_error:
  "\<not> truthy_str e \<Longrightarrow> vd_last_error (transition_to now s e c d) = vd_last_error d"
  by (simp add: transition_to_def)

lemma versions_add_version [simp]:
  "md_versions (add_version d md) = dput (vd_version d) d (md_versions md)"
  "md_model_id (add_version d md) = md_model_id md"
  by (simp_all add: add_version_def)

lemma ready_versions_iff:
  "dict_wf (md_versions md) \<Longrightarrow>
     v \<in> set (ready_versions md) \<longleftrightarrow>
       (\<exists>d. md_get_version md v = Some d \<and> vd_state d = READY)"
  by (auto simp: ready_versions_def md_get_version_def dget_Some_iff image_iff)

lemma qualified_id_split:
  "CHR '':'' \<notin> set i \<Longrightarrow> py_split1 CHR '':'' (make_qualified_id i v) = (i, Some v)"
  by (simp add: make_qualified_id_def py_split1_append)

lemma qualified_id_inj:
  "CHR '':'' \<notin> set i \<Longrightarrow> CHR '':'' \<notin> set j \<Longrightarrow>
     make_qualified_id i v = make_qualified_id j w \<longleftrightarrow> i = j \<and> v = w"
  by (metis Pair_inject option.inject qualified_id_split)

lemma valid_model_id_no_colon: "is_valid_model_id i \<Longrightarrow> CHR '':'' \<notin> set i"
proof -
  assume v: "is_valid_model_id i"
  then obtain c cs where c: "chomp i = c # cs" "is_lower c"
    "list_all (\<lambda>d. is_lower d \<or> is_digit d \<or> d = CHR ''_'') cs"
    by (auto simp: is_valid_model_id_def split: list.splits)
  have "CHR '':'' \<notin> set (chomp i)"
    using c by (auto simp: list_all_iff is_lower_def is_digit_def)
  moreover have "set i \<subseteq> insert (CHR 0x0A) (set (chomp i))"
    by (cases i rule: rev_cases) (auto simp: chomp_def)
  ultimately show ?thesis by auto
qed

end
