(* ===== verification/CircuitBreaker.thy ===== *)
theory CircuitBreaker
  imports RuntimeModels
begin

text \<open>
  Failure isolation, \<open>ai/runtime/recovery.py\<close>: the failure policy, the per-version breaker state, its
  persistence and the class \<open>CircuitBreaker\<close>. The breaker's lock is a non-reentrant
  \<open>threading.Lock\<close>; a call that would take it while its own thread holds it is the outcome
  \<open>SelfDeadlock\<close>. Successive readings of \<open>time.monotonic()\<close> inside one call are \<open>mt 0\<close>, \<open>mt 1\<close>, ...
  Calls of the disable callback are returned as a list, for the owner of the breaker to carry out.
\<close>

section \<open>Enumerations and policy\<close>

datatype CircuitState = CLOSED | OPEN | HALF_OPEN

fun circuit_value :: "CircuitState \<Rightarrow> string" where
  "circuit_value CLOSED = ''closed''"
| "circuit_value OPEN = ''open''"
| "circuit_value HALF_OPEN = ''half_open''"

datatype FailureType = EXECUTION_ERROR | TIMEOUT | HEALTH_DEGRADATION | UNHEALTHY_TRANSITION

fun failure_value :: "FailureType \<Rightarrow> string" where
  "failure_value EXECUTION_ERROR = ''execution_error''"
| "failure_value TIMEOUT = ''timeout''"
| "failure_value HEALTH_DEGRADATION = ''health_degradation''"
| "failure_value UNHEALTHY_TRANSITION = ''unhealthy_transition''"

datatype DisablementReason = REPEATED_FAILURES | SUSTAINED_UNHEALTHY | COOLDOWN_EXHAUSTED
  | MANUAL_DISABLE | RESOURCE_EXHAUSTION

fun disable_value :: "DisablementReason \<Rightarrow> string" where
  "disable_value REPEATED_FAILURES = ''repeated_failures''"
| "disable_value SUSTAINED_UNHEALTHY = ''sustained_unhealthy''"
| "disable_value COOLDOWN_EXHAUSTED = ''cooldown_exhausted''"
| "disable_value MANUAL_DISABLE = ''manual_disable''"
| "disable_value RESOURCE_EXHAUSTION = ''resource_exhaustion''"

text \<open>\<open>CircuitState(s)\<close> and \<open>DisablementReason(s)\<close>; \<open>None\<close> is the \<open>ValueError\<close>.\<close>

definition circuit_of :: "string \<Rightarrow> CircuitState option" where
  "circuit_of s = find (\<lambda>c. circuit_value c = s) [CLOSED, OPEN, HALF_OPEN]"

definition disable_of :: "string \<Rightarrow> DisablementReason option" where
  "disable_of s = find (\<lambda>c. disable_value c = s)
     [REPEATED_FAILURES, SUSTAINED_UNHEALTHY, COOLDOWN_EXHAUSTED, MANUAL_DISABLE, RESOURCE_EXHAUSTION]"

record FailurePolicy =
  fp_failure_threshold :: int
  fp_unhealthy_threshold :: int
  fp_timeout_threshold :: int
  fp_failure_window_seconds :: int
  fp_cooldown_seconds :: int
  fp_min_recovery_interval_seconds :: int
  fp_max_recovery_attempts :: int
  fp_half_open_success_threshold :: int
  fp_half_open_timeout_seconds :: int

definition default_policy :: FailurePolicy where
  "default_policy = \<lparr>fp_failure_threshold = 10, fp_unhealthy_threshold = 3, fp_timeout_threshold = 5,
     fp_failure_window_seconds = 60, fp_cooldown_seconds = 300, fp_min_recovery_interval_seconds = 60,
     fp_max_recovery_attempts = 3, fp_half_open_success_threshold = 3,
     fp_half_open_timeout_seconds = 30\<rparr>"

definition strict_policy :: FailurePolicy where
  "strict_policy = default_policy\<lparr>fp_failure_threshold := 5, fp_unhealthy_threshold := 2,
     fp_timeout_threshold := 3, fp_failure_window_seconds := 30, fp_cooldown_seconds := 600,
     fp_max_recovery_attempts := 2\<rparr>"

definition permissive_policy :: FailurePolicy where
  "permissive_policy = default_policy\<lparr>fp_failure_threshold := 20, fp_unhealthy_threshold := 5,
     fp_timeout_threshold := 10, fp_failure_window_seconds := 120, fp_cooldown_seconds := 120,
     fp_max_recovery_attempts := 5\<rparr>"

section \<open>The state of one breaker\<close>

record FailureRecord =
  fr_type :: FailureType
  fr_timestamp :: real
  fr_error_code :: "string option"
  fr_message :: "string option"

record CircuitBreakerState =
  cs_model_id :: string
  cs_version :: string
  cs_state :: CircuitState
  cs_failures :: "FailureRecord list"
  cs_unhealthy_transitions :: int
  cs_consecutive_timeouts :: int
  cs_recovery_attempts :: int
  cs_last_recovery_attempt :: "real option"
  cs_disabled_at :: "real option"
  cs_disabled_reason :: "DisablementReason option"
  cs_half_open_started :: "real option"
  cs_half_open_successes :: int

definition new_cb_state :: "string \<Rightarrow> string \<Rightarrow> CircuitBreakerState" where
  "new_cb_state model_id version =
     \<lparr>cs_model_id = model_id, cs_version = version, cs_state = CLOSED, cs_failures = [],
      cs_unhealthy_transitions = 0, cs_consecutive_timeouts = 0, cs_recovery_attempts = 0,
      cs_last_recovery_attempt = None, cs_disabled_at = None, cs_disabled_reason = None,
      cs_half_open_started = None, cs_half_open_successes = 0\<rparr>"

definition prune_old_failures :: "real \<Rightarrow> int \<Rightarrow> CircuitBreakerState \<Rightarrow> CircuitBreakerState" where
  "prune_old_failures now window_seconds st =
     st\<lparr>cs_failures := filter (\<lambda>f. fr_timestamp f > now - of_int window_seconds) (cs_failures st)\<rparr>"

definition cs_record_failure ::
  "real \<Rightarrow> FailureRecord \<Rightarrow> int \<Rightarrow> CircuitBreakerState \<Rightarrow> CircuitBreakerState" where
  "cs_record_failure now rec window_seconds st =
     (let s1 = prune_old_failures now window_seconds (st\<lparr>cs_failures := cs_failures st @ [rec]\<rparr>);
          s2 = (if fr_type rec = TIMEOUT
                then s1\<lparr>cs_consecutive_timeouts := cs_consecutive_timeouts s1 + 1\<rparr>
                else s1\<lparr>cs_consecutive_timeouts := 0\<rparr>)
      in if fr_type rec = UNHEALTHY_TRANSITION
         then s2\<lparr>cs_unhealthy_transitions := cs_unhealthy_transitions s2 + 1\<rparr> else s2)"

definition cs_record_success :: "CircuitBreakerState \<Rightarrow> CircuitBreakerState" where
  "cs_record_success st =
     (let s1 = st\<lparr>cs_consecutive_timeouts := 0\<rparr>
      in if cs_state s1 = HALF_OPEN
         then s1\<lparr>cs_half_open_successes := cs_half_open_successes s1 + 1\<rparr> else s1)"

definition reset_for_recovery :: "(nat \<Rightarrow> real) \<Rightarrow> CircuitBreakerState \<Rightarrow> CircuitBreakerState" where
  "reset_for_recovery mt st =
     st\<lparr>cs_state := HALF_OPEN, cs_half_open_started := Some (mt 0), cs_half_open_successes := 0,
        cs_recovery_attempts := cs_recovery_attempts st + 1,
        cs_last_recovery_attempt := Some (mt 1)\<rparr>"

definition close_circuit :: "CircuitBreakerState \<Rightarrow> CircuitBreakerState" where
  "close_circuit st =
     st\<lparr>cs_state := CLOSED, cs_failures := [], cs_unhealthy_transitions := 0,
        cs_consecutive_timeouts := 0, cs_half_open_started := None, cs_half_open_successes := 0,
        cs_disabled_at := None, cs_disabled_reason := None\<rparr>"

definition open_circuit :: "real \<Rightarrow> DisablementReason \<Rightarrow> CircuitBreakerState \<Rightarrow> CircuitBreakerState" where
  "open_circuit now reason st =
     st\<lparr>cs_state := OPEN, cs_disabled_at := Some now, cs_disabled_reason := Some reason\<rparr>"

definition failure_count :: "CircuitBreakerState \<Rightarrow> int" where
  "failure_count st = int (length (cs_failures st))"

definition check_disable_criteria ::
  "FailurePolicy \<Rightarrow> CircuitBreakerState \<Rightarrow> bool \<times> DisablementReason option" where
  "check_disable_criteria p st =
     (if failure_count st \<ge> fp_failure_threshold p then (True, Some REPEATED_FAILURES)
      else if cs_unhealthy_transitions st \<ge> fp_unhealthy_threshold p
      then (True, Some SUSTAINED_UNHEALTHY)
      else if cs_consecutive_timeouts st \<ge> fp_timeout_threshold p
      then (True, Some REPEATED_FAILURES)
      else if cs_recovery_attempts st \<ge> fp_max_recovery_attempts p
      then (True, Some COOLDOWN_EXHAUSTED)
      else (False, None))"

section \<open>Persistence\<close>

text \<open>
  The state file is what \<open>json.load\<close> reads back: per identifier a dictionary. Restoring is modelled
  for the field types that \<open>save_state\<close> writes; an entry without its mandatory fields or with an
  unknown enumeration value is skipped, as the \<open>except\<close> clause does.
\<close>

type_synonym state_file = "(string, (string, jval) dict) dict option"

definition serialize_state :: "real \<Rightarrow> CircuitBreakerState \<Rightarrow> (string, jval) dict" where
  "serialize_state wall st =
     [(''model_id'', JStr (cs_model_id st)), (''version'', JStr (cs_version st)),
      (''state'', JStr (circuit_value (cs_state st))),
      (''unhealthy_transitions'', JInt (cs_unhealthy_transitions st)),
      (''consecutive_timeouts'', JInt (cs_consecutive_timeouts st)),
      (''recovery_attempts'', JInt (cs_recovery_attempts st)),
      (''disabled_at'', jopt JReal (cs_disabled_at st)),
      (''disabled_reason'', jopt (JStr \<circ> disable_value) (cs_disabled_reason st)),
      (''saved_at'', JTime wall)]"

text \<open>\<open>ok\<close> is whether the file system accepts the write; a failure leaves the old file.\<close>

definition save_state :: "bool \<Rightarrow> real \<Rightarrow> (string, CircuitBreakerState) dict \<Rightarrow> state_file \<Rightarrow> bool \<times> state_file" where
  "save_state ok wall states file =
     (if ok then (True, Some (map (\<lambda>(qid, st). (qid, serialize_state wall st)) states))
      else (False, file))"

definition load_state :: "state_file \<Rightarrow> (string, (string, jval) dict) dict" where
  "load_state file = (case file of None \<Rightarrow> [] | Some data \<Rightarrow> data)"

definition clear_state :: "bool \<Rightarrow> state_file \<Rightarrow> bool \<times> state_file" where
  "clear_state ok file = (if file = None then (True, None) else if ok then (True, None) else (False, file))"

fun jint :: "jval option \<Rightarrow> int" where
  "jint (Some (JInt n)) = n"
| "jint _ = 0"

fun jreal_opt :: "jval option \<Rightarrow> real option" where
  "jreal_opt (Some (JReal x)) = Some x"
| "jreal_opt _ = None"

definition restore_state :: "(string, jval) dict \<Rightarrow> CircuitBreakerState option" where
  "restore_state saved =
     (case (dget saved ''model_id'', dget saved ''version'', dget saved ''state'') of
        (Some (JStr model_id), Some (JStr version), Some (JStr s)) \<Rightarrow>
          (case circuit_of s of
             None \<Rightarrow> None
           | Some c \<Rightarrow>
               (let st = (new_cb_state model_id version)
                     \<lparr>cs_state := c,
                      cs_unhealthy_transitions := jint (dget saved ''unhealthy_transitions''),
                      cs_consecutive_timeouts := jint (dget saved ''consecutive_timeouts''),
                      cs_recovery_attempts := jint (dget saved ''recovery_attempts''),
                      cs_disabled_at := jreal_opt (dget saved ''disabled_at'')\<rparr>
                in case dget saved ''disabled_reason'' of
                     Some (JStr d) \<Rightarrow>
                       (if d = [] then Some st
                        else (case disable_of d of None \<Rightarrow> None
                              | Some reason \<Rightarrow> Some (st\<lparr>cs_disabled_reason := Some reason\<rparr>)))
                   | _ \<Rightarrow> Some st))
      | _ \<Rightarrow> None)"

section \<open>The circuit breaker\<close>

record CircuitBreaker =
  cb_policy :: FailurePolicy
  cb_states :: "(string, CircuitBreakerState) dict"
  cb_callback :: bool
  cb_persistence :: bool
  cb_file :: state_file

definition load_persisted_state :: "CircuitBreaker \<Rightarrow> CircuitBreaker" where
  "load_persisted_state cb =
     (if \<not> cb_persistence cb then cb
      else cb\<lparr>cb_states :=
        foldl (\<lambda>states (qid, saved).
                 case restore_state saved of None \<Rightarrow> states | Some st \<Rightarrow> dput qid st states)
          (cb_states cb) (load_state (cb_file cb))\<rparr>)"

definition new_breaker :: "FailurePolicy \<Rightarrow> bool \<Rightarrow> bool \<Rightarrow> state_file \<Rightarrow> CircuitBreaker" where
  "new_breaker policy callback persistence file =
     load_persisted_state
       \<lparr>cb_policy = policy, cb_states = [], cb_callback = callback, cb_persistence = persistence,
        cb_file = file\<rparr>"

definition set_disable_callback :: "bool \<Rightarrow> CircuitBreaker \<Rightarrow> CircuitBreaker" where
  "set_disable_callback c cb = cb\<lparr>cb_callback := c\<rparr>"

text \<open>
  \<open>held\<close> says whether the calling thread already holds the breaker's lock.
\<close>

definition persist_state :: "bool \<Rightarrow> bool \<Rightarrow> real \<Rightarrow> CircuitBreaker \<Rightarrow> CircuitBreaker run" where
  "persist_state held ok wall cb =
     (if \<not> cb_persistence cb then Returns cb
      else with_lock held
        (Returns (cb\<lparr>cb_file := snd (save_state ok wall (cb_states cb) (cb_file cb))\<rparr>)))"

definition get_or_create_state :: "string \<Rightarrow> string \<Rightarrow> CircuitBreaker \<Rightarrow> CircuitBreakerState \<times> CircuitBreaker" where
  "get_or_create_state model_id version cb =
     (let qid = make_qualified_id model_id version
      in case dget (cb_states cb) qid of
           Some st \<Rightarrow> (st, cb)
         | None \<Rightarrow> (let st = new_cb_state model_id version
                    in (st, cb\<lparr>cb_states := dput qid st (cb_states cb)\<rparr>)))"

definition cb_get_state :: "CircuitBreaker \<Rightarrow> string \<Rightarrow> string \<Rightarrow> CircuitBreakerState option" where
  "cb_get_state cb model_id version = dget (cb_states cb) (make_qualified_id model_id version)"

definition put_state_of :: "string \<Rightarrow> string \<Rightarrow> CircuitBreakerState \<Rightarrow> CircuitBreaker \<Rightarrow> CircuitBreaker" where
  "put_state_of model_id version st cb =
     cb\<lparr>cb_states := dput (make_qualified_id model_id version) st (cb_states cb)\<rparr>"

type_synonym disable_call = "string \<times> string \<times> DisablementReason"

text \<open>
  The result is the returned flag, the calls of the disable callback, and the breaker.
\<close>

definition record_failure ::
  "(nat \<Rightarrow> real) \<Rightarrow> bool \<Rightarrow> real \<Rightarrow> string \<Rightarrow> string \<Rightarrow> FailureType \<Rightarrow> string option \<Rightarrow> string option \<Rightarrow>
   CircuitBreaker \<Rightarrow> (bool \<times> disable_call list \<times> CircuitBreaker) run" where
  "record_failure mt ok wall model_id version failure_type error_code message cb =
     (let (st, cb1) = get_or_create_state model_id version cb
      in if cs_state st = OPEN then Returns (False, [], cb1)
         else
           (let rec = \<lparr>fr_type = failure_type, fr_timestamp = mt 0, fr_error_code = error_code,
                       fr_message = message\<rparr>;
                s1 = cs_record_failure (mt 1) rec (fp_failure_window_seconds (cb_policy cb)) st;
                (should_disable, reason) = check_disable_criteria (cb_policy cb) s1
            in if should_disable
               then run_bind
                 (persist_state True ok wall
                    (put_state_of model_id version (open_circuit (mt 2) (the reason) s1) cb1))
                 (\<lambda>cb2. Returns (True,
                    (if cb_callback cb2 then [(model_id, version, the reason)] else []), cb2))
               else Returns (False, [], put_state_of model_id version s1 cb1)))"

definition record_unhealthy_transition ::
  "(nat \<Rightarrow> real) \<Rightarrow> bool \<Rightarrow> real \<Rightarrow> string \<Rightarrow> string \<Rightarrow> CircuitBreaker \<Rightarrow>
   (bool \<times> disable_call list \<times> CircuitBreaker) run" where
  "record_unhealthy_transition mt ok wall model_id version cb =
     record_failure mt ok wall model_id version UNHEALTHY_TRANSITION None
       (Some ''Model transitioned to UNHEALTHY'') cb"

definition record_success ::
  "bool \<Rightarrow> real \<Rightarrow> string \<Rightarrow> string \<Rightarrow> CircuitBreaker \<Rightarrow> (bool \<times> CircuitBreaker) run" where
  "record_success ok wall model_id version cb =
     (let (st, cb1) = get_or_create_state model_id version cb;
          s1 = cs_record_success st
      in if cs_state s1 = HALF_OPEN \<and>
            cs_half_open_successes s1 \<ge> fp_half_open_success_threshold (cb_policy cb)
         then run_bind (persist_state True ok wall (put_state_of model_id version (close_circuit s1) cb1))
                (\<lambda>cb2. Returns (True, cb2))
         else Returns (False, put_state_of model_id version s1 cb1))"

definition should_disable :: "CircuitBreaker \<Rightarrow> string \<Rightarrow> string \<Rightarrow> bool" where
  "should_disable cb model_id version =
     (case cb_get_state cb model_id version of None \<Rightarrow> False | Some st \<Rightarrow> cs_state st = OPEN)"

definition is_circuit_open :: "CircuitBreaker \<Rightarrow> string \<Rightarrow> string \<Rightarrow> bool" where
  "is_circuit_open cb model_id version = should_disable cb model_id version"

definition is_circuit_half_open :: "CircuitBreaker \<Rightarrow> string \<Rightarrow> string \<Rightarrow> bool" where
  "is_circuit_half_open cb model_id version =
     (case cb_get_state cb model_id version of None \<Rightarrow> False | Some st \<Rightarrow> cs_state st = HALF_OPEN)"

definition elapsed_less :: "real \<Rightarrow> real option \<Rightarrow> int \<Rightarrow> bool" where
  "elapsed_less now since seconds =
     (case since of None \<Rightarrow> False | Some t \<Rightarrow> now - t < of_int seconds)"

definition can_attempt_recovery :: "(nat \<Rightarrow> real) \<Rightarrow> CircuitBreaker \<Rightarrow> string \<Rightarrow> string \<Rightarrow> bool" where
  "can_attempt_recovery mt cb model_id version =
     (case cb_get_state cb model_id version of
        None \<Rightarrow> False
      | Some st \<Rightarrow>
          (if cs_state st \<noteq> OPEN then False
           else if cs_recovery_attempts st \<ge> fp_max_recovery_attempts (cb_policy cb) then False
           else if elapsed_less (mt 0) (cs_last_recovery_attempt st)
                     (fp_min_recovery_interval_seconds (cb_policy cb)) then False
           else if elapsed_less (mt 1) (cs_disabled_at st) (fp_cooldown_seconds (cb_policy cb))
           then False
           else True))"

definition prepare_recovery ::
  "(nat \<Rightarrow> real) \<Rightarrow> string \<Rightarrow> string \<Rightarrow> CircuitBreaker \<Rightarrow> bool \<times> CircuitBreaker" where
  "prepare_recovery mt model_id version cb =
     (case cb_get_state cb model_id version of
        None \<Rightarrow> (False, cb)
      | Some st \<Rightarrow>
          (if cs_state st \<noteq> OPEN then (False, cb)
           else (True, put_state_of model_id version (reset_for_recovery mt st) cb)))"

definition abort_recovery :: "string \<Rightarrow> string \<Rightarrow> CircuitBreaker \<Rightarrow> CircuitBreaker" where
  "abort_recovery model_id version cb =
     (case cb_get_state cb model_id version of
        None \<Rightarrow> cb
      | Some st \<Rightarrow>
          (if cs_state st = HALF_OPEN
           then put_state_of model_id version
             (st\<lparr>cs_state := OPEN, cs_half_open_started := None, cs_half_open_successes := 0\<rparr>) cb
           else cb))"

definition force_close :: "bool \<Rightarrow> real \<Rightarrow> string \<Rightarrow> string \<Rightarrow> CircuitBreaker \<Rightarrow> (bool \<times> CircuitBreaker) run" where
  "force_close ok wall model_id version cb =
     (case cb_get_state cb model_id version of
        None \<Rightarrow> Returns (False, cb)
      | Some st \<Rightarrow>
          run_bind (persist_state False ok wall
              (put_state_of model_id version ((close_circuit st)\<lparr>cs_recovery_attempts := 0\<rparr>) cb))
            (\<lambda>cb1. Returns (True, cb1)))"

definition remove_state :: "bool \<Rightarrow> real \<Rightarrow> string \<Rightarrow> string \<Rightarrow> CircuitBreaker \<Rightarrow> (bool \<times> CircuitBreaker) run" where
  "remove_state ok wall model_id version cb =
     (let qid = make_qualified_id model_id version
      in if dget (cb_states cb) qid \<noteq> None
         then run_bind (persist_state False ok wall (cb\<lparr>cb_states := ddel qid (cb_states cb)\<rparr>))
                (\<lambda>cb1. Returns (True, cb1))
         else Returns (False, cb))"

definition get_all_states :: "CircuitBreaker \<Rightarrow> (string, CircuitState) dict" where
  "get_all_states cb = map (\<lambda>(qid, st). (qid, cs_state st)) (cb_states cb)"

definition get_open_circuits :: "CircuitBreaker \<Rightarrow> disable_call list" where
  "get_open_circuits cb =
     map (\<lambda>st. (cs_model_id st, cs_version st,
                 case cs_disabled_reason st of None \<Rightarrow> REPEATED_FAILURES | Some d \<Rightarrow> d))
       (filter (\<lambda>st. cs_state st = OPEN) (dvals (cb_states cb)))"

section \<open>Lemmas\<close>

lemma put_state_simps [simp]:
  "cb_states (put_state_of i v st cb) = dput (make_qualified_id i v) st (cb_states cb)"
  "cb_policy (put_state_of i v st cb) = cb_policy cb"
  "cb_persistence (put_state_of i v st cb) = cb_persistence cb"
  "cb_callback (put_state_of i v st cb) = cb_callback cb"
  "cb_file (put_state_of i v st cb) = cb_file cb"
  by (simp_all add: put_state_of_def)

definition current :: "CircuitBreaker \<Rightarrow> string \<Rightarrow> string \<Rightarrow> CircuitBreakerState" where
  "current cb i v = (case cb_get_state cb i v of None \<Rightarrow> new_cb_state i v | Some st \<Rightarrow> st)"

lemma get_or_create_current:
  "get_or_create_state i v cb =
     (current cb i v, cb\<lparr>cb_states :=
        if cb_get_state cb i v = None then dput (make_qualified_id i v) (new_cb_state i v) (cb_states cb)
        else cb_states cb\<rparr>)"
  by (simp add: get_or_create_state_def current_def cb_get_state_def Let_def split: option.split)

lemma dput_dput: "dput k a (dput k b m) = dput k a m"
  by (induction m) auto

text \<open>The three outcomes of \<open>record_failure\<close>.\<close>

definition after_failure ::
  "(nat \<Rightarrow> real) \<Rightarrow> FailureType \<Rightarrow> string option \<Rightarrow> string option \<Rightarrow> FailurePolicy \<Rightarrow>
   CircuitBreakerState \<Rightarrow> CircuitBreakerState" where
  "after_failure mt ft ec msg p st =
     cs_record_failure (mt 1)
       \<lparr>fr_type = ft, fr_timestamp = mt 0, fr_error_code = ec, fr_message = msg\<rparr>
       (fp_failure_window_seconds p) st"

lemma check_disable_some:
  "fst (check_disable_criteria p st) \<Longrightarrow> \<exists>reason. check_disable_criteria p st = (True, Some reason)"
  by (auto simp: check_disable_criteria_def split: if_splits)

lemma check_disable_none:
  "\<not> fst (check_disable_criteria p st) \<longleftrightarrow>
     failure_count st < fp_failure_threshold p \<and>
     cs_unhealthy_transitions st < fp_unhealthy_threshold p \<and>
     cs_consecutive_timeouts st < fp_timeout_threshold p \<and>
     cs_recovery_attempts st < fp_max_recovery_attempts p"
  by (auto simp: check_disable_criteria_def not_le)

lemma record_failure_open:
  "cs_state (current cb i v) = OPEN \<Longrightarrow>
     record_failure mt ok wall i v ft ec msg cb = Returns (False, [], cb)"
  by (auto simp: record_failure_def get_or_create_current current_def new_cb_state_def
      split: option.splits)

lemma record_failure_quiet:
  assumes "cs_state (current cb i v) \<noteq> OPEN"
    and "\<not> fst (check_disable_criteria (cb_policy cb) (after_failure mt ft ec msg (cb_policy cb) (current cb i v)))"
  shows "record_failure mt ok wall i v ft ec msg cb =
    Returns (False, [], put_state_of i v (after_failure mt ft ec msg (cb_policy cb) (current cb i v)) cb)"
  using assms
  by (auto simp: record_failure_def get_or_create_current after_failure_def Let_def put_state_of_def
      dput_dput split_beta)

lemma record_failure_trip:
  assumes "cs_state (current cb i v) \<noteq> OPEN"
    and "check_disable_criteria (cb_policy cb) (after_failure mt ft ec msg (cb_policy cb) (current cb i v))
      = (True, Some reason)"
  shows "record_failure mt ok wall i v ft ec msg cb =
    (if cb_persistence cb then SelfDeadlock
     else Returns (True, (if cb_callback cb then [(i, v, reason)] else []),
       put_state_of i v
         (open_circuit (mt 2) reason (after_failure mt ft ec msg (cb_policy cb) (current cb i v))) cb))"
  using assms
  by (auto simp: record_failure_def get_or_create_current after_failure_def Let_def put_state_of_def
      dput_dput persist_state_def)

lemma record_success_quiet:
  assumes "\<not> (cs_state (current cb i v) = HALF_OPEN \<and>
      fp_half_open_success_threshold (cb_policy cb) \<le> cs_half_open_successes (current cb i v) + 1)"
  shows "record_success ok wall i v cb =
    Returns (False, put_state_of i v (cs_record_success (current cb i v)) cb)"
  using assms
  by (auto simp: record_success_def get_or_create_current cs_record_success_def Let_def
      put_state_of_def dput_dput)

lemma record_success_close:
  assumes "cs_state (current cb i v) = HALF_OPEN"
    and "fp_half_open_success_threshold (cb_policy cb) \<le> cs_half_open_successes (current cb i v) + 1"
  shows "record_success ok wall i v cb =
    (if cb_persistence cb then SelfDeadlock
     else Returns (True, put_state_of i v (close_circuit (cs_record_success (current cb i v))) cb))"
  using assms
  by (auto simp: record_success_def get_or_create_current cs_record_success_def Let_def
      put_state_of_def dput_dput persist_state_def)

section \<open>Calls on a breaker\<close>

text \<open>Every call that changes the breaker, when it returns.\<close>

inductive bstep :: "CircuitBreaker \<Rightarrow> CircuitBreaker \<Rightarrow> bool" where
  b_failure: "record_failure mt ok wall i v ft ec msg cb = Returns (b, calls, cb') \<Longrightarrow> bstep cb cb'"
| b_success: "record_success ok wall i v cb = Returns (b, cb') \<Longrightarrow> bstep cb cb'"
| b_prepare: "bstep cb (snd (prepare_recovery mt i v cb))"
| b_abort: "bstep cb (abort_recovery i v cb)"
| b_force: "force_close ok wall i v cb = Returns (b, cb') \<Longrightarrow> bstep cb cb'"
| b_remove: "remove_state ok wall i v cb = Returns (b, cb') \<Longrightarrow> bstep cb cb'"
| b_callback: "bstep cb (set_disable_callback c cb)"

definition policy_ok :: "FailurePolicy \<Rightarrow> bool" where
  "policy_ok p \<longleftrightarrow> 0 < fp_failure_threshold p \<and> 0 < fp_unhealthy_threshold p \<and>
     0 < fp_timeout_threshold p \<and> 0 < fp_half_open_success_threshold p"

text \<open>
  What a breaker state satisfies in each of its three states.
\<close>

definition cs_ok :: "FailurePolicy \<Rightarrow> CircuitBreakerState \<Rightarrow> bool" where
  "cs_ok p st \<longleftrightarrow>
     0 \<le> cs_recovery_attempts st \<and>
     (case cs_state st of
        CLOSED \<Rightarrow> cs_disabled_at st = None \<and> cs_disabled_reason st = None \<and>
          cs_half_open_started st = None \<and> cs_half_open_successes st = 0 \<and>
          failure_count st < fp_failure_threshold p \<and>
          cs_unhealthy_transitions st < fp_unhealthy_threshold p \<and>
          cs_consecutive_timeouts st < fp_timeout_threshold p
      | OPEN \<Rightarrow> cs_disabled_at st \<noteq> None \<and> cs_disabled_reason st \<noteq> None
      | HALF_OPEN \<Rightarrow> cs_disabled_at st \<noteq> None \<and> cs_disabled_reason st \<noteq> None \<and>
          cs_half_open_started st \<noteq> None \<and> cs_last_recovery_attempt st \<noteq> None \<and>
          0 < cs_recovery_attempts st \<and>
          0 \<le> cs_half_open_successes st \<and>
          cs_half_open_successes st < fp_half_open_success_threshold p)"

definition breaker_ok :: "FailurePolicy \<Rightarrow> bool \<Rightarrow> CircuitBreaker \<Rightarrow> bool" where
  "breaker_ok p per cb \<longleftrightarrow> cb_policy cb = p \<and> cb_persistence cb = per \<and> dict_wf (cb_states cb) \<and>
     (\<forall>k st. dget (cb_states cb) k = Some st \<longrightarrow>
        k = make_qualified_id (cs_model_id st) (cs_version st) \<and> cs_ok p st \<and>
        (per \<longrightarrow> cs_state st = CLOSED))"

lemma cs_ok_new: "policy_ok p \<Longrightarrow> cs_ok p (new_cb_state i v)"
  by (simp add: policy_ok_def cs_ok_def new_cb_state_def failure_count_def)

lemma after_failure_simps [simp]:
  "cs_state (after_failure mt ft ec msg p st) = cs_state st"
  "cs_model_id (after_failure mt ft ec msg p st) = cs_model_id st"
  "cs_version (after_failure mt ft ec msg p st) = cs_version st"
  "cs_recovery_attempts (after_failure mt ft ec msg p st) = cs_recovery_attempts st"
  "cs_disabled_at (after_failure mt ft ec msg p st) = cs_disabled_at st"
  "cs_disabled_reason (after_failure mt ft ec msg p st) = cs_disabled_reason st"
  "cs_half_open_started (after_failure mt ft ec msg p st) = cs_half_open_started st"
  "cs_half_open_successes (after_failure mt ft ec msg p st) = cs_half_open_successes st"
  "cs_last_recovery_attempt (after_failure mt ft ec msg p st) = cs_last_recovery_attempt st"
  by (simp_all add: after_failure_def cs_record_failure_def prune_old_failures_def Let_def)

lemma cs_ok_after_failure:
  assumes "cs_ok p st" and "cs_state st \<noteq> OPEN"
    and "\<not> fst (check_disable_criteria p (after_failure mt ft ec msg p st))"
  shows "cs_ok p (after_failure mt ft ec msg p st)"
  using assms unfolding check_disable_none
  by (auto simp: cs_ok_def split: CircuitState.splits)

lemma cs_ok_open: "0 \<le> cs_recovery_attempts st \<Longrightarrow> cs_ok p (open_circuit now reason st)"
  by (simp add: cs_ok_def open_circuit_def)

lemma cs_ok_close: "policy_ok p \<Longrightarrow> 0 \<le> cs_recovery_attempts st \<Longrightarrow> cs_ok p (close_circuit st)"
  by (simp add: cs_ok_def close_circuit_def policy_ok_def failure_count_def)

lemma cs_ok_success:
  assumes "policy_ok p" and "cs_ok p st"
    and "\<not> (cs_state st = HALF_OPEN \<and> fp_half_open_success_threshold p \<le> cs_half_open_successes st + 1)"
  shows "cs_ok p (cs_record_success st)"
  using assms
  by (auto simp: cs_ok_def cs_record_success_def Let_def failure_count_def policy_ok_def
      split: CircuitState.splits)

lemma breaker_ok_current:
  assumes "policy_ok p" and "breaker_ok p per cb"
  shows "cs_ok p (current cb i v)"
    and "make_qualified_id (cs_model_id (current cb i v)) (cs_version (current cb i v)) =
      make_qualified_id i v"
    and "per \<Longrightarrow> cs_state (current cb i v) = CLOSED"
  using assms cs_ok_new [OF assms(1)]
  by (auto simp: current_def breaker_ok_def cb_get_state_def split: option.split)
    (auto simp: new_cb_state_def)

lemma breaker_ok_put:
  assumes "breaker_ok p per cb" and "cs_ok p st"
    and "make_qualified_id (cs_model_id st) (cs_version st) = make_qualified_id i v"
    and "per \<Longrightarrow> cs_state st = CLOSED"
  shows "breaker_ok p per (put_state_of i v st cb)"
  using assms by (auto simp: breaker_ok_def)

lemma current_get: "cb_get_state cb i v = Some st \<Longrightarrow> current cb i v = st"
  by (simp add: current_def)

lemma circuit_simps [simp]:
  "cs_state (open_circuit now reason st) = OPEN" "cs_state (close_circuit st) = CLOSED"
  "cs_model_id (open_circuit now reason st) = cs_model_id st"
  "cs_model_id (close_circuit st) = cs_model_id st"
  "cs_version (open_circuit now reason st) = cs_version st"
  "cs_version (close_circuit st) = cs_version st"
  "cs_recovery_attempts (open_circuit now reason st) = cs_recovery_attempts st"
  "cs_recovery_attempts (close_circuit st) = cs_recovery_attempts st"
  by (simp_all add: open_circuit_def close_circuit_def)

lemma record_success_simps [simp]:
  "cs_state (cs_record_success st) = cs_state st"
  "cs_model_id (cs_record_success st) = cs_model_id st"
  "cs_version (cs_record_success st) = cs_version st"
  "cs_recovery_attempts (cs_record_success st) = cs_recovery_attempts st"
  by (simp_all add: cs_record_success_def Let_def)

lemma breaker_ok_failure:
  assumes p: "policy_ok p" and ok: "breaker_ok p per cb"
    and r: "record_failure mt okw wall i v ft ec msg cb = Returns (b, calls, cb')"
  shows "breaker_ok p per cb'"
proof -
  have pol: "cb_policy cb = p" "cb_persistence cb = per" using ok by (simp_all add: breaker_ok_def)
  note C = breaker_ok_current [OF p ok, of i v]
  let ?a = "after_failure mt ft ec msg p (current cb i v)"
  show ?thesis
  proof (cases "cs_state (current cb i v) = OPEN")
    case True
    with r ok show ?thesis by (simp add: record_failure_open)
  next
    case open_no: False
    show ?thesis
    proof (cases "fst (check_disable_criteria p ?a)")
      case False
      then have "cb' = put_state_of i v ?a cb"
        using r record_failure_quiet [OF open_no, of mt ft ec msg] by (simp add: pol)
      then show ?thesis
        using C cs_ok_after_failure [OF C(1) open_no False] by (simp add: breaker_ok_put [OF ok])
    next
      case True
      then obtain reason where reason: "check_disable_criteria p ?a = (True, Some reason)"
        using check_disable_some by blast
      then have np: "\<not> per" and cb': "cb' = put_state_of i v (open_circuit (mt 2) reason ?a) cb"
        using r record_failure_trip [OF open_no, of mt ft ec msg reason]
        by (auto simp: pol split: if_splits)
      have "cs_ok p (open_circuit (mt 2) reason ?a)"
        using C(1) by (intro cs_ok_open) (simp add: cs_ok_def)
      with np C(2) show ?thesis
        unfolding cb' by (intro breaker_ok_put [OF ok]) simp_all
    qed
  qed
qed

lemma breaker_ok_success:
  assumes p: "policy_ok p" and ok: "breaker_ok p per cb"
    and r: "record_success okw wall i v cb = Returns (b, cb')"
  shows "breaker_ok p per cb'"
proof -
  have pol: "cb_policy cb = p" "cb_persistence cb = per" using ok by (simp_all add: breaker_ok_def)
  note C = breaker_ok_current [OF p ok, of i v]
  let ?c = "current cb i v"
  show ?thesis
  proof (cases "cs_state ?c = HALF_OPEN \<and> fp_half_open_success_threshold p \<le> cs_half_open_successes ?c + 1")
    case False
    then have "cb' = put_state_of i v (cs_record_success ?c) cb"
      using r record_success_quiet [of cb i v okw wall] by (simp add: pol)
    then show ?thesis
      using C cs_ok_success [OF p C(1) False]
      by (simp add: breaker_ok_put [OF ok])
  next
    case True
    then have np: "\<not> per" and cb': "cb' = put_state_of i v (close_circuit (cs_record_success ?c)) cb"
      using r record_success_close [of cb i v okw wall] by (auto simp: pol split: if_splits)
    have "cs_ok p (close_circuit (cs_record_success ?c))"
      using C(1) by (intro cs_ok_close [OF p]) (simp add: cs_ok_def)
    with np C(2) show ?thesis
      unfolding cb' by (intro breaker_ok_put [OF ok]) simp_all
  qed
qed

lemma persist_free: "persist_state False okw wall cb =
    Returns (if cb_persistence cb
      then cb\<lparr>cb_file := snd (save_state okw wall (cb_states cb) (cb_file cb))\<rparr> else cb)"
  by (simp add: persist_state_def)

lemma breaker_ok_states:
  "breaker_ok p per cb \<Longrightarrow> cb_policy cb' = cb_policy cb \<Longrightarrow> cb_persistence cb' = cb_persistence cb \<Longrightarrow>
     dict_wf (cb_states cb') \<Longrightarrow>
     (\<And>k st. dget (cb_states cb') k = Some st \<Longrightarrow> dget (cb_states cb) k = Some st) \<Longrightarrow>
     breaker_ok p per cb'"
  by (auto simp: breaker_ok_def)

lemma breaker_ok_step:
  assumes p: "policy_ok p" and "bstep cb cb'" and ok: "breaker_ok p per cb"
  shows "breaker_ok p per cb'"
  using assms(2)
proof cases
  case b_failure
  then show ?thesis using breaker_ok_failure [OF p ok] by blast
next
  case b_success
  then show ?thesis using breaker_ok_success [OF p ok] by blast
next
  case (b_prepare mt i v)
  show ?thesis
  proof (cases "should_disable cb i v")
    case True
    then obtain st where st: "cb_get_state cb i v = Some st" "cs_state st = OPEN"
      by (auto simp: should_disable_def split: option.splits)
    with breaker_ok_current [OF p ok, of i v]
    have f: "\<not> per" "cs_ok p st"
      "make_qualified_id (cs_model_id st) (cs_version st) = make_qualified_id i v"
      by (auto simp: current_get)
    have e: "snd (prepare_recovery mt i v cb) = put_state_of i v (reset_for_recovery mt st) cb"
      using st by (simp add: prepare_recovery_def)
    show ?thesis
      unfolding b_prepare e by (rule breaker_ok_put [OF ok])
        (use f st p in \<open>auto simp: reset_for_recovery_def cs_ok_def policy_ok_def\<close>)
  next
    case False
    then show ?thesis
      unfolding b_prepare using ok
      by (auto simp: prepare_recovery_def should_disable_def split: option.split)
  qed
next
  case (b_abort i v)
  show ?thesis
  proof (cases "is_circuit_half_open cb i v")
    case True
    then obtain st where st: "cb_get_state cb i v = Some st" "cs_state st = HALF_OPEN"
      by (auto simp: is_circuit_half_open_def split: option.splits)
    with breaker_ok_current [OF p ok, of i v]
    have f: "\<not> per" "cs_ok p st"
      "make_qualified_id (cs_model_id st) (cs_version st) = make_qualified_id i v"
      by (auto simp: current_get)
    have e: "abort_recovery i v cb = put_state_of i v
        (st\<lparr>cs_state := OPEN, cs_half_open_started := None, cs_half_open_successes := 0\<rparr>) cb"
      using st by (simp add: abort_recovery_def)
    show ?thesis
      unfolding b_abort e by (rule breaker_ok_put [OF ok])
        (use f st in \<open>auto simp: cs_ok_def\<close>)
  next
    case False
    then show ?thesis
      unfolding b_abort using ok
      by (auto simp: abort_recovery_def is_circuit_half_open_def split: option.split)
  qed
next
  case (b_force okw wall i v b)
  show ?thesis
  proof (cases "cb_get_state cb i v")
    case None
    with b_force ok show ?thesis by (simp add: force_close_def)
  next
    case (Some st)
    let ?n = "put_state_of i v ((close_circuit st)\<lparr>cs_recovery_attempts := 0\<rparr>) cb"
    from Some breaker_ok_current [OF p ok, of i v]
    have "cs_ok p st" "make_qualified_id (cs_model_id st) (cs_version st) = make_qualified_id i v"
      by (auto simp: current_get)
    moreover have "cs_ok p ((close_circuit st)\<lparr>cs_recovery_attempts := 0\<rparr>)"
      using p by (simp add: cs_ok_def close_circuit_def policy_ok_def failure_count_def)
    ultimately have n: "breaker_ok p per ?n"
      by (intro breaker_ok_put [OF ok]) simp_all
    then have "dict_wf (cb_states ?n)" by (simp only: breaker_ok_def)
    with n show ?thesis
      using b_force Some
      by (auto simp: force_close_def persist_free split: if_splits elim!: breaker_ok_states)
  qed
next
  case (b_remove okw wall i v b)
  then show ?thesis
    by (auto simp: remove_state_def persist_free Let_def split: if_splits
        intro!: breaker_ok_states [OF ok]) (use ok in \<open>auto simp: breaker_ok_def\<close>)
next
  case (b_callback c)
  with ok show ?thesis by (simp add: set_disable_callback_def breaker_ok_def)
qed

lemma breaker_ok_new: "breaker_ok p per (new_breaker p c per None)"
  by (simp add: breaker_ok_def new_breaker_def load_persisted_state_def load_state_def)

text \<open>
  The breaker as a transition system, started without a state file, for a policy with positive
  thresholds. The second instance is a breaker with persistence, the default of the constructor.
\<close>

definition breaker_start :: "FailurePolicy \<Rightarrow> bool \<Rightarrow> CircuitBreaker \<Rightarrow> bool" where
  "breaker_start p per cb \<longleftrightarrow> policy_ok p \<and> (\<exists>c. cb = new_breaker p c per None)"

interpretation breaker: invariant_system "breaker_start p per" bstep
  "\<lambda>cb. policy_ok p \<and> breaker_ok p per cb" for p per
  by unfold_locales (auto simp: breaker_start_def breaker_ok_new dest: breaker_ok_step)

section \<open>Properties\<close>

text \<open>
  C5. In every state a breaker reaches, an open circuit knows when and why it was opened; a closed
  one has no disablement data, no half-open data, and every counter below its threshold; a half-open
  one has counted a recovery attempt and fewer successes than needed to close.
\<close>

theorem breaker_states_consistent:
  assumes "reach (breaker_start p per) bstep cb" and "cb_get_state cb i v = Some st"
  shows "(cs_state st = OPEN \<longrightarrow> cs_disabled_at st \<noteq> None \<and> cs_disabled_reason st \<noteq> None) \<and>
    (cs_state st = CLOSED \<longrightarrow> cs_disabled_at st = None \<and> cs_disabled_reason st = None \<and>
       cs_half_open_successes st = 0 \<and> failure_count st < fp_failure_threshold p \<and>
       cs_unhealthy_transitions st < fp_unhealthy_threshold p \<and>
       cs_consecutive_timeouts st < fp_timeout_threshold p) \<and>
    (cs_state st = HALF_OPEN \<longrightarrow> 0 < cs_recovery_attempts st \<and> cs_half_open_started st \<noteq> None \<and>
       0 \<le> cs_half_open_successes st \<and>
       cs_half_open_successes st < fp_half_open_success_threshold p)"
proof -
  have "breaker_ok p per cb" using breaker.reach_invar [OF assms(1)] by blast
  with assms(2) have "cs_ok p st" by (auto simp: breaker_ok_def cb_get_state_def)
  then show ?thesis by (auto simp: cs_ok_def split: CircuitState.splits)
qed

definition tiny_policy :: FailurePolicy where
  "tiny_policy = default_policy\<lparr>fp_unhealthy_threshold := 1\<rparr>"

definition tripped :: CircuitBreaker where
  "tripped = put_state_of ''fall'' ''1''
     (open_circuit 5 SUSTAINED_UNHEALTHY
        (after_failure (\<lambda>_. 5) UNHEALTHY_TRANSITION None None tiny_policy (new_cb_state ''fall'' ''1'')))
     (new_breaker tiny_policy False False None)"

lemma trip_unhealthy:
  "record_failure (\<lambda>_. 5) True 0 ''fall'' ''1'' UNHEALTHY_TRANSITION None None
     (new_breaker tiny_policy False False None) = Returns (True, [], tripped)"
proof -
  let ?cb = "new_breaker tiny_policy False False None"
  have cb: "current ?cb ''fall'' ''1'' = new_cb_state ''fall'' ''1''" "cb_policy ?cb = tiny_policy"
    "cb_persistence ?cb = False" "cb_callback ?cb = False"
    by (simp_all add: new_breaker_def load_persisted_state_def current_def cb_get_state_def)
  have "check_disable_criteria tiny_policy
      (after_failure (\<lambda>_. 5) UNHEALTHY_TRANSITION None None tiny_policy (new_cb_state ''fall'' ''1''))
      = (True, Some SUSTAINED_UNHEALTHY)"
    by (simp add: check_disable_criteria_def tiny_policy_def default_policy_def after_failure_def
        cs_record_failure_def prune_old_failures_def new_cb_state_def failure_count_def)
  then show ?thesis
    using record_failure_trip [of ?cb "''fall''" "''1''" "\<lambda>_. 5" UNHEALTHY_TRANSITION None None
        SUSTAINED_UNHEALTHY True 0]
    by (simp add: cb tripped_def new_cb_state_def)
qed

lemma tripped_reach: "reach (breaker_start tiny_policy False) bstep tripped"
proof (rule reach_step [OF reach_init])
  show "breaker_start tiny_policy False (new_breaker tiny_policy False False None)"
    by (auto simp: breaker_start_def policy_ok_def tiny_policy_def default_policy_def)
  show "bstep (new_breaker tiny_policy False False None) tripped"
    by (rule b_failure [OF trip_unhealthy])
qed

lemma tripped_get:
  "cb_get_state tripped ''fall'' ''1'' = Some (open_circuit 5 SUSTAINED_UNHEALTHY
     (after_failure (\<lambda>_. 5) UNHEALTHY_TRANSITION None None tiny_policy (new_cb_state ''fall'' ''1'')))"
  by (simp add: tripped_def cb_get_state_def)

theorem breaker_states_consistent_witness:
  "\<exists>st. cb_get_state tripped ''fall'' ''1'' = Some st \<and> cs_state st = OPEN \<and> cs_disabled_at st \<noteq> None"
  using breaker_states_consistent [OF tripped_reach tripped_get] tripped_get
  by (simp add: open_circuit_def)

text \<open>
  \<open>record_failure\<close> and \<open>record_success\<close> call \<open>_persist_state\<close> inside the block that holds the
  non-reentrant lock. With persistence enabled, as it is by default, the failure that should trip
  the circuit therefore never returns: the caller waits for its own lock.
\<close>

theorem tripping_self_deadlocks:
  assumes "cb_persistence cb" and "cs_state (current cb i v) \<noteq> OPEN"
    and "fst (check_disable_criteria (cb_policy cb)
      (after_failure mt ft ec msg (cb_policy cb) (current cb i v)))"
  shows "record_failure mt ok wall i v ft ec msg cb = SelfDeadlock"
proof -
  obtain reason where "check_disable_criteria (cb_policy cb)
      (after_failure mt ft ec msg (cb_policy cb) (current cb i v)) = (True, Some reason)"
    using check_disable_some [OF assms(3)] by blast
  from record_failure_trip [OF assms(2) this] assms(1) show ?thesis by simp
qed

theorem tripping_self_deadlocks_witness:
  "record_failure (\<lambda>_. 5) True 0 ''fall'' ''1'' UNHEALTHY_TRANSITION None None
     (new_breaker tiny_policy True True None) = SelfDeadlock"
  by (rule tripping_self_deadlocks)
    (simp_all add: new_breaker_def load_persisted_state_def load_state_def current_def
      cb_get_state_def check_disable_criteria_def tiny_policy_def default_policy_def after_failure_def
      cs_record_failure_def prune_old_failures_def new_cb_state_def failure_count_def)

text \<open>
  As a consequence, a breaker with persistence that starts without a state file never opens a
  circuit: in every state it reaches, all circuits are closed and none counts as open.
\<close>

theorem persistent_breaker_never_opens:
  assumes "reach (breaker_start p True) bstep cb"
  shows "get_open_circuits cb = [] \<and> \<not> should_disable cb i v"
proof -
  have ok: "breaker_ok p True cb" using breaker.reach_invar [OF assms] by blast
  have c: "\<And>k st. dget (cb_states cb) k = Some st \<Longrightarrow> cs_state st = CLOSED"
    using ok by (simp add: breaker_ok_def)
  then have "\<not> should_disable cb i v"
    by (auto simp: should_disable_def cb_get_state_def split: option.split dest: c)
  moreover have "cs_state st = CLOSED" if "st \<in> set (dvals (cb_states cb))" for st
    using that ok c by (auto simp: breaker_ok_def dget_Some_iff [symmetric])
  ultimately show ?thesis by (auto simp: get_open_circuits_def filter_empty_conv)
qed

theorem persistent_breaker_never_opens_witness:
  "get_open_circuits (new_breaker strict_policy True True None) = []"
proof -
  have "breaker_start strict_policy True (new_breaker strict_policy True True None)"
    by (auto simp: breaker_start_def policy_ok_def strict_policy_def default_policy_def)
  from persistent_breaker_never_opens [OF reach_init, OF this] show ?thesis by blast
qed

fun fail_run :: "string \<Rightarrow> string \<Rightarrow> real list \<Rightarrow> CircuitBreaker \<Rightarrow> CircuitBreaker run" where
  "fail_run i v [] cb = Returns cb"
| "fail_run i v (t # ts) cb =
     run_bind (record_failure (\<lambda>_. t) True 0 i v EXECUTION_ERROR None None cb)
       (\<lambda>(b, calls, cb'). fail_run i v ts cb')"

lemma fail_run_snoc:
  "fail_run i v (ts @ [t]) cb = run_bind (fail_run i v ts cb) (fail_run i v [t])"
proof (induction ts arbitrary: cb)
  case Nil
  then show ?case by simp
next
  case (Cons u ts)
  then show ?case
    by (cases "record_failure (\<lambda>_. u) True 0 i v EXECUTION_ERROR None None cb") auto
qed

definition exec_failure :: "real \<Rightarrow> FailureRecord" where
  "exec_failure t = \<lparr>fr_type = EXECUTION_ERROR, fr_timestamp = t, fr_error_code = None, fr_message = None\<rparr>"

lemma current_put [simp]: "current (put_state_of i v st cb) i v = st"
  by (simp add: current_def cb_get_state_def)

lemma after_exec_failures:
  assumes "\<forall>s\<in>set ts. t - s < of_int (fp_failure_window_seconds p)"
    and "0 < fp_failure_window_seconds p"
  shows "after_failure (\<lambda>_. t) EXECUTION_ERROR None None p
      ((new_cb_state i v)\<lparr>cs_failures := map exec_failure ts\<rparr>) =
    (new_cb_state i v)\<lparr>cs_failures := map exec_failure (ts @ [t])\<rparr>"
proof -
  have "filter (\<lambda>f. t - of_int (fp_failure_window_seconds p) < fr_timestamp f)
      (map exec_failure (ts @ [t])) = map exec_failure (ts @ [t])"
    using assms by (auto simp: filter_id_conv exec_failure_def algebra_simps)
  then show ?thesis
    by (simp add: after_failure_def cs_record_failure_def prune_old_failures_def
        exec_failure_def new_cb_state_def Let_def)
qed

lemma fail_run_quiet:
  assumes "policy_ok (cb_policy cb)" "0 < fp_max_recovery_attempts (cb_policy cb)"
    and "0 < fp_failure_window_seconds (cb_policy cb)"
    and "cb_get_state cb i v = None"
    and "\<forall>s\<in>set ts. \<forall>t\<in>set ts. t - s < of_int (fp_failure_window_seconds (cb_policy cb))"
    and "int (length ts) < fp_failure_threshold (cb_policy cb)"
  shows "\<exists>cb'. fail_run i v ts cb = Returns cb' \<and> cb_policy cb' = cb_policy cb \<and>
    cb_persistence cb' = cb_persistence cb \<and> cb_callback cb' = cb_callback cb \<and>
    current cb' i v = (new_cb_state i v)\<lparr>cs_failures := map exec_failure ts\<rparr>"
  using assms
proof (induction ts rule: rev_induct)
  case Nil
  then show ?case by (simp add: current_def new_cb_state_def)
next
  case (snoc t ts)
  then obtain c where c: "fail_run i v ts cb = Returns c" "cb_policy c = cb_policy cb"
    "cb_persistence c = cb_persistence cb" "cb_callback c = cb_callback cb"
    "current c i v = (new_cb_state i v)\<lparr>cs_failures := map exec_failure ts\<rparr>"
    by auto
  let ?a = "(new_cb_state i v)\<lparr>cs_failures := map exec_failure (ts @ [t])\<rparr>"
  have a: "after_failure (\<lambda>_. t) EXECUTION_ERROR None None (cb_policy c) (current c i v) = ?a"
    unfolding c(2,5) using snoc.prems by (intro after_exec_failures) auto
  have "\<not> fst (check_disable_criteria (cb_policy cb) ?a)"
    unfolding check_disable_none using snoc.prems
    by (simp add: failure_count_def new_cb_state_def policy_ok_def)
  then have "record_failure (\<lambda>_. t) True 0 i v EXECUTION_ERROR None None c =
      Returns (False, [], put_state_of i v ?a c)"
    using record_failure_quiet [of c i v "\<lambda>_. t" EXECUTION_ERROR None None True 0] a c
    by (simp add: new_cb_state_def)
  then show ?case unfolding fail_run_snoc c(1) using c by simp
qed

text \<open>
  For a version without history, execution errors inside one failure window trip the circuit
  exactly at the configured threshold: with fewer of them the circuit is closed, with that many it
  is open and reports repeated failures.
\<close>

theorem trips_exactly_at_threshold:
  assumes "policy_ok (cb_policy cb)" "0 < fp_max_recovery_attempts (cb_policy cb)"
    and "0 < fp_failure_window_seconds (cb_policy cb)"
    and "\<not> cb_persistence cb" and "cb_get_state cb i v = None"
    and "\<forall>s\<in>set ts. \<forall>t\<in>set ts. t - s < of_int (fp_failure_window_seconds (cb_policy cb))"
    and "int (length ts) \<le> fp_failure_threshold (cb_policy cb)"
  shows "\<exists>cb'. fail_run i v ts cb = Returns cb' \<and>
    (should_disable cb' i v \<longleftrightarrow> int (length ts) = fp_failure_threshold (cb_policy cb)) \<and>
    (should_disable cb' i v \<longrightarrow> cs_disabled_reason (current cb' i v) = Some REPEATED_FAILURES)"
proof (cases "int (length ts) = fp_failure_threshold (cb_policy cb)")
  case False
  then obtain c where c: "fail_run i v ts cb = Returns c"
    "current c i v = (new_cb_state i v)\<lparr>cs_failures := map exec_failure ts\<rparr>"
    using fail_run_quiet [OF assms(1-3,5,6)] assms(7) by auto
  have "\<not> should_disable c i v"
  proof
    assume "should_disable c i v"
    then have "cs_state (current c i v) = OPEN"
      by (auto simp: should_disable_def current_def split: option.splits)
    then show False by (simp add: c(2) new_cb_state_def)
  qed
  with c(1) False show ?thesis by simp
next
  case True
  with assms(1) obtain us t where ts: "ts = us @ [t]"
    by (cases ts rule: rev_cases) (auto simp: policy_ok_def)
  with True have l: "int (length us) < fp_failure_threshold (cb_policy cb)" by simp
  have w: "\<forall>s\<in>set us. \<forall>t\<in>set us. t - s < of_int (fp_failure_window_seconds (cb_policy cb))"
    using assms(6) by (simp add: ts)
  obtain c where c: "fail_run i v us cb = Returns c" "cb_policy c = cb_policy cb"
    "cb_persistence c = cb_persistence cb"
    "current c i v = (new_cb_state i v)\<lparr>cs_failures := map exec_failure us\<rparr>"
    using fail_run_quiet [OF assms(1-3,5) w l] by auto
  let ?a = "(new_cb_state i v)\<lparr>cs_failures := map exec_failure (us @ [t])\<rparr>"
  have a: "after_failure (\<lambda>_. t) EXECUTION_ERROR None None (cb_policy c) (current c i v) = ?a"
    unfolding c(2,4) using assms(3,6) by (intro after_exec_failures) (auto simp: ts)
  have "check_disable_criteria (cb_policy cb) ?a = (True, Some REPEATED_FAILURES)"
    using True by (simp add: check_disable_criteria_def failure_count_def ts)
  moreover have "cs_state (current c i v) \<noteq> OPEN" by (simp add: c(4) new_cb_state_def)
  ultimately have "fail_run i v ts cb =
      Returns (put_state_of i v (open_circuit t REPEATED_FAILURES ?a) c)"
    using record_failure_trip [of c i v "\<lambda>_. t" EXECUTION_ERROR None None REPEATED_FAILURES True 0]
      a c assms(4)
    by (simp add: ts fail_run_snoc)
  moreover have "should_disable (put_state_of i v (open_circuit t REPEATED_FAILURES ?a) c) i v"
    by (simp add: should_disable_def cb_get_state_def)
  ultimately show ?thesis using True by (simp add: open_circuit_def)
qed

theorem trips_exactly_at_threshold_witness:
  "\<exists>cb'. fail_run ''fall'' ''1'' [1, 2, 3, 4, 5] (new_breaker strict_policy False False None) = Returns cb' \<and>
     should_disable cb' ''fall'' ''1''"
proof -
  have "\<exists>cb'. fail_run ''fall'' ''1'' [1, 2, 3, 4, 5] (new_breaker strict_policy False False None) = Returns cb' \<and>
    (should_disable cb' ''fall'' ''1'' \<longleftrightarrow> int (length [1::real, 2, 3, 4, 5]) = fp_failure_threshold strict_policy) \<and>
    (should_disable cb' ''fall'' ''1'' \<longrightarrow>
       cs_disabled_reason (current cb' ''fall'' ''1'') = Some REPEATED_FAILURES)"
    using trips_exactly_at_threshold [of "new_breaker strict_policy False False None" "''fall''" "''1''"
        "[1, 2, 3, 4, 5]"]
    by (simp add: new_breaker_def load_persisted_state_def policy_ok_def strict_policy_def
        default_policy_def cb_get_state_def)
  then show ?thesis by (auto simp: strict_policy_def)
qed

text \<open>
  \<open>recovery_attempts\<close> survives a successful recovery, so once the limit is used up the version
  is one failure from the end: any single failure, of any type, opens the circuit of a closed or
  half-open breaker again, and no recovery attempt is allowed after it at any later time.
\<close>

theorem exhausted_trips_at_first_failure:
  assumes "\<not> cb_persistence cb" and "cs_state (current cb i v) \<noteq> OPEN"
    and "fp_max_recovery_attempts (cb_policy cb) \<le> cs_recovery_attempts (current cb i v)"
  shows "\<exists>calls cb'. record_failure mt ok wall i v ft ec msg cb = Returns (True, calls, cb') \<and>
    should_disable cb' i v \<and> (\<forall>later. \<not> can_attempt_recovery later cb' i v)"
proof -
  let ?a = "after_failure mt ft ec msg (cb_policy cb) (current cb i v)"
  have "fst (check_disable_criteria (cb_policy cb) ?a)"
    using assms(3) check_disable_none [of "cb_policy cb" ?a] by auto
  then obtain reason where reason: "check_disable_criteria (cb_policy cb) ?a = (True, Some reason)"
    using check_disable_some by blast
  define cb' where "cb' = put_state_of i v (open_circuit (mt 2) reason ?a) cb"
  have g: "cb_get_state cb' i v = Some (open_circuit (mt 2) reason ?a)"
    by (simp add: cb'_def cb_get_state_def)
  have "\<exists>calls. record_failure mt ok wall i v ft ec msg cb = Returns (True, calls, cb')"
    using record_failure_trip [OF assms(2) reason] assms(1) by (simp add: cb'_def)
  moreover have "should_disable cb' i v" by (simp add: should_disable_def g)
  moreover have "\<not> can_attempt_recovery later cb' i v" for later
    using assms(3) by (simp add: can_attempt_recovery_def g) (simp add: cb'_def)
  ultimately show ?thesis by blast
qed

theorem exhausted_trips_at_first_failure_witness:
  "\<exists>calls cb'. record_failure (\<lambda>_. 9) True 0 ''fall'' ''1'' HEALTH_DEGRADATION None None
     (put_state_of ''fall'' ''1'' ((new_cb_state ''fall'' ''1'')\<lparr>cs_recovery_attempts := 3\<rparr>)
       (new_breaker default_policy False False None)) = Returns (True, calls, cb')"
proof -
  let ?cb = "put_state_of ''fall'' ''1'' ((new_cb_state ''fall'' ''1'')\<lparr>cs_recovery_attempts := 3\<rparr>)
       (new_breaker default_policy False False None)"
  have "\<not> cb_persistence ?cb" "cs_state (current ?cb ''fall'' ''1'') \<noteq> OPEN"
    "fp_max_recovery_attempts (cb_policy ?cb) \<le> cs_recovery_attempts (current ?cb ''fall'' ''1'')"
    by (simp_all add: new_breaker_def load_persisted_state_def default_policy_def new_cb_state_def)
  from exhausted_trips_at_first_failure [OF this] show ?thesis by metis
qed

lemma circuit_of_value [simp]: "circuit_of (circuit_value c) = Some c"
  by (cases c) (simp_all add: circuit_of_def)

lemma disable_of_value [simp]: "disable_of (disable_value c) = Some c"
  by (cases c) (simp_all add: disable_of_def)

lemma disable_value_nonempty [simp]: "disable_value c \<noteq> []"
  by (cases c) simp_all

text \<open>What a saved state keeps.\<close>

definition persisted_part :: "CircuitBreakerState \<Rightarrow> CircuitBreakerState" where
  "persisted_part st =
     (new_cb_state (cs_model_id st) (cs_version st))
       \<lparr>cs_state := cs_state st, cs_unhealthy_transitions := cs_unhealthy_transitions st,
        cs_consecutive_timeouts := cs_consecutive_timeouts st,
        cs_recovery_attempts := cs_recovery_attempts st, cs_disabled_at := cs_disabled_at st,
        cs_disabled_reason := cs_disabled_reason st\<rparr>"

lemma restore_serialize: "restore_state (serialize_state wall st) = Some (persisted_part st)"
  by (cases "cs_disabled_at st"; cases "cs_disabled_reason st")
    (simp_all add: restore_state_def serialize_state_def persisted_part_def jopt_def new_cb_state_def)

lemma restore_fold:
  "dict_wf (acc @ ms) \<Longrightarrow>
     foldl (\<lambda>states (qid, saved).
        case restore_state saved of None \<Rightarrow> states | Some st \<Rightarrow> dput qid st states) acc
       (map (\<lambda>(qid, st). (qid, serialize_state wall st)) ms) =
     acc @ map (\<lambda>(qid, st). (qid, persisted_part st)) ms"
proof (induction ms arbitrary: acc)
  case Nil
  then show ?case by simp
next
  case (Cons p ms)
  obtain q st where p: "p = (q, st)" by fastforce
  have "dget acc q = None" using Cons.prems by (simp add: dict_wf_def dget_None_iff p)
  then have e: "dput q (persisted_part st) acc = acc @ [(q, persisted_part st)]" by (rule dput_new)
  have "dict_wf ((acc @ [(q, persisted_part st)]) @ ms)"
    using Cons.prems by (simp add: dict_wf_def p)
  from Cons.IH [OF this] show ?case by (simp add: p restore_serialize e)
qed

text \<open>
  A saved breaker is restored with the same versions in the same order, and for each the same
  circuit, counters, disablement time and reason; the failure window, the last recovery attempt and
  the half-open progress start from nothing.
\<close>

theorem persistence_roundtrip:
  assumes "dict_wf states"
  shows "cb_states (new_breaker p c True (snd (save_state True wall states file))) =
    map (\<lambda>(qid, st). (qid, persisted_part st)) states"
  using restore_fold [of "[]" states wall] assms
  by (simp add: new_breaker_def load_persisted_state_def save_state_def load_state_def)

theorem persistence_roundtrip_witness:
  "cb_states (new_breaker tiny_policy False True (snd (save_state True 3 (cb_states tripped) None))) =
    map (\<lambda>(qid, st). (qid, persisted_part st)) (cb_states tripped)"
  by (rule persistence_roundtrip)
    (simp add: tripped_def new_breaker_def load_persisted_state_def dict_wf_def)

text \<open>
  A restored circuit keeps the monotonic time at which the earlier process opened it. In the new
  process, whose clock starts again, an interval is measured against that foreign value, so a
  recovery is refused until the new clock passes the old opening time by the cooldown.
\<close>

theorem restored_cooldown_uses_old_clock:
  assumes "dict_wf states" and "dget states (make_qualified_id i v) = Some st"
    and "cs_disabled_at st = Some t" and "mt 1 < t + of_int (fp_cooldown_seconds p)"
  shows "\<not> can_attempt_recovery mt (new_breaker p c True (snd (save_state True wall states file))) i v"
proof -
  let ?cb = "new_breaker p c True (snd (save_state True wall states file))"
  have s: "cb_states ?cb = map (\<lambda>(qid, st). (qid, persisted_part st)) states"
    using restore_fold [of "[]" states wall] assms(1)
    by (simp add: new_breaker_def load_persisted_state_def save_state_def load_state_def)
  have "cb_policy ?cb = p" by (simp add: new_breaker_def load_persisted_state_def)
  moreover have "cb_get_state ?cb i v = Some (persisted_part st)"
    using assms(2) by (simp add: cb_get_state_def s map_of_map)
  moreover have "cs_disabled_at (persisted_part st) = Some t"
    using assms(3) by (simp add: persisted_part_def)
  ultimately show ?thesis
    using assms(4) by (simp add: can_attempt_recovery_def elapsed_less_def)
qed

theorem restored_cooldown_uses_old_clock_witness:
  "\<not> can_attempt_recovery (\<lambda>_. 1000)
     (new_breaker default_policy False True (snd (save_state True 0
        [(''fall:1'', open_circuit 5000 REPEATED_FAILURES (new_cb_state ''fall'' ''1''))] None)))
     ''fall'' ''1''"
  by (rule restored_cooldown_uses_old_clock [where t = 5000 and
        st = "open_circuit 5000 REPEATED_FAILURES (new_cb_state ''fall'' ''1'')"])
    (simp_all add: dict_wf_def make_qualified_id_def open_circuit_def default_policy_def)

datatype report = Failed FailureType | Succeeded

fun apply_reports :: "string \<Rightarrow> string \<Rightarrow> (real \<times> report) list \<Rightarrow> CircuitBreaker \<Rightarrow> CircuitBreaker run" where
  "apply_reports i v [] cb = Returns cb"
| "apply_reports i v ((t, Failed ft) # rs) cb =
     run_bind (record_failure (\<lambda>_. t) True 0 i v ft None None cb)
       (\<lambda>(b, calls, cb'). apply_reports i v rs cb')"
| "apply_reports i v ((t, Succeeded) # rs) cb =
     run_bind (record_success True 0 i v cb) (\<lambda>(b, cb'). apply_reports i v rs cb')"

lemma open_survives_reports:
  assumes "cb_get_state cb i v = Some st" and "cs_state st = OPEN"
  shows "\<exists>cb' st'. apply_reports i v rs cb = Returns cb' \<and> cb_get_state cb' i v = Some st' \<and>
    cb_policy cb' = cb_policy cb \<and> cs_state st' = OPEN \<and> cs_disabled_at st' = cs_disabled_at st \<and>
    cs_recovery_attempts st' = cs_recovery_attempts st"
  using assms
proof (induction i v rs cb arbitrary: st rule: apply_reports.induct)
  case (1 i v cb)
  then show ?case by simp
next
  case (2 i v t ft rs cb)
  have "record_failure (\<lambda>_. t) True 0 i v ft None None cb = Returns (False, [], cb)"
    using 2(2,3) by (intro record_failure_open) (simp add: current_def)
  with 2 show ?case by simp
next
  case (3 i v t rs cb)
  let ?c = "put_state_of i v (cs_record_success st) cb"
  have r: "record_success True 0 i v cb = Returns (False, ?c)"
    using 3(2,3) record_success_quiet [of cb i v True 0] by (simp add: current_def)
  have "cb_get_state ?c i v = Some (cs_record_success st)" by (simp add: cb_get_state_def)
  from 3(1) [OF this] 3(3) show ?case
    by (simp add: r cs_record_success_def)
qed

text \<open>
  Once a failure has opened a circuit, no recovery is allowed before the cooldown has passed,
  whatever failures and successes are reported in between: reports do not change an open circuit's
  state or its opening time.
\<close>

theorem no_recovery_during_cooldown:
  assumes "record_failure mt ok wall i v ft ec msg cb = Returns (True, calls, cb')"
    and "now 1 < mt 2 + of_int (fp_cooldown_seconds (cb_policy cb))"
  shows "\<exists>cb''. apply_reports i v rs cb' = Returns cb'' \<and> \<not> can_attempt_recovery now cb'' i v"
proof -
  let ?a = "after_failure mt ft ec msg (cb_policy cb) (current cb i v)"
  have no: "cs_state (current cb i v) \<noteq> OPEN"
    using assms(1) record_failure_open by fastforce
  have "fst (check_disable_criteria (cb_policy cb) ?a)"
    using assms(1) record_failure_quiet [OF no] by fastforce
  then obtain reason where "check_disable_criteria (cb_policy cb) ?a = (True, Some reason)"
    using check_disable_some by blast
  from record_failure_trip [OF no this] assms(1)
  have c: "cb' = put_state_of i v (open_circuit (mt 2) reason ?a) cb"
    by (auto split: if_splits)
  then have "cb_get_state cb' i v = Some (open_circuit (mt 2) reason ?a)"
    by (simp add: cb_get_state_def)
  from open_survives_reports [OF this, of rs] obtain d st
    where "apply_reports i v rs cb' = Returns d" "cb_get_state d i v = Some st"
    "cb_policy d = cb_policy cb" "cs_disabled_at st = Some (mt 2)"
    by (auto simp: c open_circuit_def)
  then show ?thesis
    using assms(2) by (auto simp: can_attempt_recovery_def elapsed_less_def)
qed

theorem no_recovery_during_cooldown_witness:
  "\<exists>cb''. apply_reports ''fall'' ''1'' [(7, Failed TIMEOUT), (8, Succeeded)] tripped = Returns cb'' \<and>
     \<not> can_attempt_recovery (\<lambda>_. 100) cb'' ''fall'' ''1''"
  by (rule no_recovery_during_cooldown [OF trip_unhealthy])
    (simp add: new_breaker_def load_persisted_state_def tiny_policy_def default_policy_def)

end
