(* ===== verification/SemVer.thy ===== *)
theory SemVer
  imports RuntimeModels "HOL-Library.Multiset"
begin

text \<open>
  Semantic versions of \<open>ai/runtime/versioning.py\<close>: the class \<open>SemVer\<close> with its comparison
  operators, \<open>parse_semver\<close>, \<open>compare_versions\<close> and the helpers on lists of version strings.
  The interface \<open>keyed_order\<close> states what a comparison by \<open>__lt__\<close> must satisfy for the stable
  descending sorts of the module to find a maximum; it is interpreted on the model's comparison.
\<close>

section \<open>Versions and their comparison\<close>

record SemVer =
  sv_major :: nat
  sv_minor :: nat
  sv_patch :: nat
  sv_prerelease :: "string list"
  sv_build :: string
  sv_original :: string

definition is_prerelease :: "SemVer \<Rightarrow> bool" where
  "is_prerelease v \<longleftrightarrow> 0 < length (sv_prerelease v)"

definition is_stable :: "SemVer \<Rightarrow> bool" where
  "is_stable v \<longleftrightarrow> \<not> is_prerelease v"

definition semver_str :: "SemVer \<Rightarrow> string" where
  "semver_str v =
     (let r0 = show_nat (sv_major v) @ ''.'' @ show_nat (sv_minor v) @ ''.'' @ show_nat (sv_patch v);
          r1 = (if sv_prerelease v \<noteq> [] then r0 @ ''-'' @ py_join ''.'' (sv_prerelease v) else r0)
      in if sv_build v \<noteq> [] then r1 @ ''+'' @ sv_build v else r1)"

definition semver_eq :: "SemVer \<Rightarrow> SemVer \<Rightarrow> bool" where
  "semver_eq a b \<longleftrightarrow> sv_major a = sv_major b \<and> sv_minor a = sv_minor b \<and>
     sv_patch a = sv_patch b \<and> sv_prerelease a = sv_prerelease b"

text \<open>
  \<open>str.isdigit\<close> and \<open>int\<close> on an identifier. The identifiers of a parsed version are made of
  letters, digits and hyphens, so the few other code points below 256 for which \<open>isdigit\<close> holds do
  not occur.
\<close>

definition isdigit :: "string \<Rightarrow> bool" where
  "isdigit s \<longleftrightarrow> s \<noteq> [] \<and> list_all is_digit s"

fun compare_ids :: "string list \<Rightarrow> string list \<Rightarrow> int" where
  "compare_ids (a # as) (b # bs) =
     (if isdigit a \<and> isdigit b
      then (if read_nat a \<noteq> read_nat b then (if read_nat a < read_nat b then - 1 else 1)
            else compare_ids as bs)
      else if isdigit a then - 1
      else if isdigit b then 1
      else if a \<noteq> b then (if a < b then - 1 else 1)
      else compare_ids as bs)"
| "compare_ids as bs =
     (if length as \<noteq> length bs then (if length as < length bs then - 1 else 1) else 0)"

definition compare_prerelease :: "SemVer \<Rightarrow> SemVer \<Rightarrow> int" where
  "compare_prerelease a b = compare_ids (sv_prerelease a) (sv_prerelease b)"

definition semver_lt :: "SemVer \<Rightarrow> SemVer \<Rightarrow> bool" where
  "semver_lt a b \<longleftrightarrow>
     (let self_tuple = (sv_major a, sv_minor a, sv_patch a);
          other_tuple = (sv_major b, sv_minor b, sv_patch b)
      in if self_tuple \<noteq> other_tuple then self_tuple < other_tuple
         else if is_prerelease a \<and> \<not> is_prerelease b then True
         else if \<not> is_prerelease a \<and> is_prerelease b then False
         else if \<not> is_prerelease a \<and> \<not> is_prerelease b then False
         else compare_prerelease a b < 0)"

definition semver_le :: "SemVer \<Rightarrow> SemVer \<Rightarrow> bool" where
  "semver_le a b \<longleftrightarrow> semver_eq a b \<or> semver_lt a b"

definition semver_gt :: "SemVer \<Rightarrow> SemVer \<Rightarrow> bool" where
  "semver_gt a b \<longleftrightarrow> \<not> (semver_eq a b \<or> semver_lt a b)"

definition semver_ge :: "SemVer \<Rightarrow> SemVer \<Rightarrow> bool" where
  "semver_ge a b \<longleftrightarrow> \<not> semver_lt a b"

section \<open>Parsing\<close>

text \<open>
  \<open>0|[1-9]\d*|\d*[a-zA-Z-][0-9a-zA-Z-]*\<close>: a canonical number, or a word over letters, digits and
  hyphens with at least one character that is not a digit.
\<close>

definition is_ident_char :: "char \<Rightarrow> bool" where
  "is_ident_char c \<longleftrightarrow> is_alnum c \<or> c = CHR ''-''"

definition prerelease_ident :: "string \<Rightarrow> bool" where
  "prerelease_ident w \<longleftrightarrow>
     numeric_ident w \<or> list_all is_ident_char w \<and> list_ex (\<lambda>c. \<not> is_digit c) w"

definition build_ident :: "string \<Rightarrow> bool" where
  "build_ident w \<longleftrightarrow> w \<noteq> [] \<and> list_all is_ident_char w"

text \<open>
  The first \<open>+\<close> can only start the build part and, before it, the first \<open>-\<close> only the pre-release
  part, because neither character occurs earlier in a matching string.
\<close>

definition parse_semver :: "string \<Rightarrow> SemVer option" where
  "parse_semver version =
     (let (main, build) = py_split1 CHR ''+'' (chomp version);
          (core, pre) = py_split1 CHR ''-'' main;
          pres = (case pre of None \<Rightarrow> [] | Some p \<Rightarrow> py_split CHR ''.'' p)
      in case py_split CHR ''.'' core of
           [major, minor, patch] \<Rightarrow>
             (if numeric_ident major \<and> numeric_ident minor \<and> numeric_ident patch \<and>
                 list_all prerelease_ident pres \<and>
                 (case build of None \<Rightarrow> True
                  | Some b \<Rightarrow> list_all build_ident (py_split CHR ''.'' b))
              then Some \<lparr>sv_major = read_nat major, sv_minor = read_nat minor,
                         sv_patch = read_nat patch, sv_prerelease = pres,
                         sv_build = (case build of None \<Rightarrow> [] | Some b \<Rightarrow> b),
                         sv_original = version\<rparr>
              else None)
         | _ \<Rightarrow> None)"

definition compare_versions :: "string \<Rightarrow> string \<Rightarrow> py_error + int" where
  "compare_versions v1 v2 =
     (case parse_semver v1 of
        None \<Rightarrow> Inl (ValueError (''Invalid version: '' @ v1))
      | Some s1 \<Rightarrow>
          (case parse_semver v2 of
             None \<Rightarrow> Inl (ValueError (''Invalid version: '' @ v2))
           | Some s2 \<Rightarrow> Inr (if semver_lt s1 s2 then - 1 else if semver_eq s1 s2 then 0 else 1)))"

section \<open>Sorting\<close>

text \<open>
  \<open>xs.sort(key=..., reverse=True)\<close>: descending, equal elements in their original order. The sort
  only asks \<open>lt\<close>.
\<close>

fun insert_desc :: "('a \<Rightarrow> 'a \<Rightarrow> bool) \<Rightarrow> 'a \<Rightarrow> 'a list \<Rightarrow> 'a list" where
  "insert_desc lt x [] = [x]"
| "insert_desc lt x (y # ys) = (if lt x y then y # insert_desc lt x ys else x # y # ys)"

definition sort_desc :: "('a \<Rightarrow> 'a \<Rightarrow> bool) \<Rightarrow> 'a list \<Rightarrow> 'a list" where
  "sort_desc lt xs = foldr (insert_desc lt) xs []"

definition pair_lt :: "SemVer \<times> 'a \<Rightarrow> SemVer \<times> 'a \<Rightarrow> bool" where
  "pair_lt a b \<longleftrightarrow> semver_lt (fst a) (fst b)"

definition parsed_list :: "string list \<Rightarrow> (SemVer \<times> string) list" where
  "parsed_list versions =
     concat (map (\<lambda>v. case parse_semver v of None \<Rightarrow> [] | Some s \<Rightarrow> [(s, v)]) versions)"

definition highest_version :: "string list \<Rightarrow> string option" where
  "highest_version versions =
     (let parsed = parsed_list versions
      in if parsed = [] then None else Some (snd (hd (sort_desc pair_lt parsed))))"

definition highest_stable_version :: "string list \<Rightarrow> string option" where
  "highest_stable_version versions =
     (let parsed = concat (map (\<lambda>v. case parse_semver v of
            None \<Rightarrow> [] | Some s \<Rightarrow> if is_stable s then [(s, v)] else []) versions)
      in if parsed = [] then None else Some (snd (hd (sort_desc pair_lt parsed))))"

definition below_min :: "SemVer \<Rightarrow> string option \<Rightarrow> bool" where
  "below_min s min_version \<longleftrightarrow> truthy_str min_version \<and>
     (case parse_semver (the min_version) of None \<Rightarrow> False | Some m \<Rightarrow> semver_lt s m)"

definition above_max :: "SemVer \<Rightarrow> string option \<Rightarrow> bool" where
  "above_max s max_version \<longleftrightarrow> truthy_str max_version \<and>
     (case parse_semver (the max_version) of None \<Rightarrow> False | Some m \<Rightarrow> semver_gt s m)"

definition is_version_compatible :: "string \<Rightarrow> string option \<Rightarrow> string option \<Rightarrow> bool" where
  "is_version_compatible version min_version max_version =
     (case parse_semver version of
        None \<Rightarrow> False
      | Some s \<Rightarrow>
          (if below_min s min_version then False
           else if above_max s max_version then False
           else True))"

section \<open>Well-formed versions and the order on them\<close>

definition semver_wf :: "SemVer \<Rightarrow> bool" where
  "semver_wf v \<longleftrightarrow> list_all prerelease_ident (sv_prerelease v) \<and>
     (sv_build v = [] \<or> list_all build_ident (py_split CHR ''.'' (sv_build v)))"

lemma parse_semver_wf: "parse_semver s = Some v \<Longrightarrow> semver_wf v"
  by (auto simp: parse_semver_def semver_wf_def Let_def split: prod.splits list.splits
      option.splits if_splits)

text \<open>
  A key with values in linear orders: numbers before words inside a pre-release, a pre-release
  before its release, a shorter pre-release before a longer one that it starts.
\<close>

definition ident_key :: "string \<Rightarrow> bool \<times> nat \<times> string" where
  "ident_key w = (if isdigit w then (False, read_nat w, []) else (True, 0, w))"

definition semver_key :: "SemVer \<Rightarrow> (nat \<times> nat \<times> nat) \<times> bool \<times> (bool \<times> nat \<times> string) list" where
  "semver_key v = ((sv_major v, sv_minor v, sv_patch v), is_stable v,
     map ident_key (sv_prerelease v))"

lemma compare_ids_key_conj:
  "(compare_ids as bs < 0) = (map ident_key as < map ident_key bs) \<and>
   (compare_ids as bs = 0) = (map ident_key as = map ident_key bs)"
proof (induction as arbitrary: bs)
  case Nil
  then show ?case by (cases bs) auto
next
  case (Cons a as)
  show ?case
  proof (cases bs)
    case Nil
    then show ?thesis by simp
  next
    case (Cons b bs')
    with Cons.IH [of bs'] show ?thesis by (auto simp: ident_key_def)
  qed
qed

lemmas compare_ids_key = compare_ids_key_conj [THEN conjunct1] compare_ids_key_conj [THEN conjunct2]

subsection \<open>Canonical numbers\<close>

lemma show_nat_0: "show_nat 0 = ''0''"
  by code_simp

lemma read_nat_0: "read_nat ''0'' = 0"
  using read_show_nat [of 0] by (simp add: show_nat_0)

lemma numeric_show_nat: "numeric_ident (show_nat n)"
proof (induction n rule: show_nat.induct)
  case (1 n)
  show ?case
  proof (cases "n < 10")
    case True
    then show ?thesis
      by (subst show_nat.simps) (simp add: numeric_ident_def digit_char_def is_digit_def)
  next
    case False
    with "1.IH" have n: "numeric_ident (show_nat (n div 10))" by simp
    have "show_nat (n div 10) \<noteq> ''0''"
    proof
      assume "show_nat (n div 10) = ''0''"
      then have "read_nat (show_nat (n div 10)) = read_nat ''0''" by simp
      then have "n div 10 = 0" by (simp add: read_show_nat read_nat_0)
      with False show False by simp
    qed
    with n have "hd (show_nat (n div 10)) \<noteq> CHR ''0''" by (auto simp: numeric_ident_def)
    with n False show ?thesis
      by (subst show_nat.simps) (auto simp: numeric_ident_def)
  qed
qed

lemma show_read_nat: "numeric_ident w \<Longrightarrow> show_nat (read_nat w) = w"
proof (induction w rule: rev_induct)
  case Nil
  then show ?case by (simp add: numeric_ident_def)
next
  case (snoc c u)
  then have c: "is_digit c" by (simp add: numeric_ident_def)
  show ?case
  proof (cases "u = []")
    case True
    with c show ?thesis
      by (subst show_nat.simps) (simp add: read_nat_def)
  next
    case False
    with snoc.prems have u: "numeric_ident u" and z: "hd u \<noteq> CHR ''0''"
      by (auto simp: numeric_ident_def)
    from snoc.IH [OF u] have e: "show_nat (read_nat u) = u" .
    have "read_nat u \<noteq> 0"
    proof
      assume "read_nat u = 0"
      with e have "u = show_nat 0" by simp
      then have "u = ''0''" by (simp add: show_nat_0)
      with z show False by simp
    qed
    with c e show ?thesis
      by (subst show_nat.simps) (simp add: read_nat_append)
  qed
qed

lemma isdigit_prerelease: "prerelease_ident w \<Longrightarrow> isdigit w \<longleftrightarrow> numeric_ident w"
  by (auto simp: prerelease_ident_def isdigit_def numeric_ident_def list_all_iff list_ex_iff)

lemma ident_key_inj:
  "prerelease_ident a \<Longrightarrow> prerelease_ident b \<Longrightarrow> ident_key a = ident_key b \<longleftrightarrow> a = b"
  by (auto simp: ident_key_def isdigit_prerelease split: if_splits) (metis show_read_nat)

lemma map_ident_key_inj:
  "list_all prerelease_ident as \<Longrightarrow> list_all prerelease_ident bs \<Longrightarrow>
     map ident_key as = map ident_key bs \<longleftrightarrow> as = bs"
proof (induction as arbitrary: bs)
  case Nil
  then show ?case by auto
next
  case (Cons a as)
  then show ?case by (cases bs) (auto simp: ident_key_inj)
qed

lemma semver_eq_key: "semver_wf a \<Longrightarrow> semver_wf b \<Longrightarrow> semver_eq a b \<longleftrightarrow> semver_key a = semver_key b"
  by (auto simp: semver_eq_def semver_key_def semver_wf_def map_ident_key_inj is_stable_def
      is_prerelease_def)

lemma semver_lt_key: "semver_lt a b \<longleftrightarrow> semver_key a < semver_key b"
  by (auto simp: semver_lt_def semver_key_def Let_def is_stable_def compare_prerelease_def
      compare_ids_key is_prerelease_def less_prod_def' split: if_splits)

section \<open>The interface of the sorts\<close>

locale keyed_order =
  fixes lt :: "'a \<Rightarrow> 'a \<Rightarrow> bool" and key :: "'a \<Rightarrow> 'k::linorder"
  assumes lt_key: "lt x y \<longleftrightarrow> key x < key y"
begin

lemma mset_insert_desc: "mset (insert_desc lt x ys) = add_mset x (mset ys)"
  by (induction ys) auto

lemma mset_sort_desc: "mset (sort_desc lt xs) = mset xs"
  unfolding sort_desc_def by (induction xs) (simp_all add: mset_insert_desc)

lemma set_sort_desc: "set (sort_desc lt xs) = set xs"
  using mset_sort_desc [of xs] by (metis set_mset_mset)

lemma sorted_insert_desc:
  "sorted_wrt (\<lambda>a b. key b \<le> key a) ys \<Longrightarrow>
     sorted_wrt (\<lambda>a b. key b \<le> key a) (insert_desc lt x ys)"
proof (induction ys)
  case Nil
  then show ?case by simp
next
  case (Cons y ys)
  have "set (insert_desc lt x ys) = insert x (set ys)"
    by (metis mset_insert_desc set_mset_add_mset_insert set_mset_mset)
  moreover have "key x \<le> key y" if "lt x y" using that by (simp add: lt_key)
  moreover have "key y \<le> key x" if "\<not> lt x y" using that by (simp add: lt_key)
  ultimately show ?case using Cons by (auto intro: order_trans)
qed

lemma sorted_sort_desc: "sorted_wrt (\<lambda>a b. key b \<le> key a) (sort_desc lt xs)"
  unfolding sort_desc_def by (induction xs) (simp_all add: sorted_insert_desc)

lemma stable_insert_desc:
  "filter (\<lambda>a. key a = k) (insert_desc lt x ys) = filter (\<lambda>a. key a = k) (x # ys)"
  by (induction ys) (auto simp: lt_key)

lemma stable_sort_desc: "filter (\<lambda>a. key a = k) (sort_desc lt xs) = filter (\<lambda>a. key a = k) xs"
  unfolding sort_desc_def by (induction xs) (simp_all add: stable_insert_desc)

lemma hd_sort_desc:
  assumes "xs \<noteq> []"
  shows "hd (sort_desc lt xs) \<in> set xs \<and> (\<forall>x\<in>set xs. \<not> lt (hd (sort_desc lt xs)) x)"
proof -
  have ne: "sort_desc lt xs \<noteq> []"
    using assms mset_sort_desc [of xs] by auto
  have "\<not> lt (hd (sort_desc lt xs)) x" if "x \<in> set xs" for x
  proof -
    from that have "x \<in> set (sort_desc lt xs)" by (simp add: set_sort_desc)
    with ne sorted_sort_desc [of xs] show ?thesis
      by (cases "sort_desc lt xs") (auto simp: lt_key not_less)
  qed
  with ne show ?thesis using set_sort_desc [of xs] hd_in_set [OF ne] by blast
qed

end

locale keyed_total_order = keyed_order +
  fixes eq :: "'a \<Rightarrow> 'a \<Rightarrow> bool" and ok :: "'a \<Rightarrow> bool"
  assumes eq_key: "ok x \<Longrightarrow> ok y \<Longrightarrow> eq x y \<longleftrightarrow> key x = key y"
begin

lemma trichotomy:
  assumes "ok x" "ok y"
  shows "lt x y \<and> \<not> eq x y \<and> \<not> lt y x \<or> \<not> lt x y \<and> eq x y \<and> \<not> lt y x \<or>
    \<not> lt x y \<and> \<not> eq x y \<and> lt y x"
  using assms by (cases "key x" "key y" rule: linorder_cases) (auto simp: lt_key eq_key)

lemma transitive: "lt x y \<Longrightarrow> lt y z \<Longrightarrow> lt x z"
  unfolding lt_key by (rule less_trans)

end

interpretation semver: keyed_total_order semver_lt semver_key semver_eq semver_wf
  by unfold_locales (simp_all add: semver_lt_key semver_eq_key)

interpretation semver_pair: keyed_order pair_lt "\<lambda>p. semver_key (fst p)"
  by unfold_locales (simp add: pair_lt_def semver_lt_key)

section \<open>Printing and parsing\<close>

lemma numeric_ident_chars: "numeric_ident w \<Longrightarrow> c \<in> set w \<Longrightarrow> is_digit c"
  by (auto simp: numeric_ident_def list_all_iff)

lemma prerelease_ident_chars: "prerelease_ident w \<Longrightarrow> c \<in> set w \<Longrightarrow> is_ident_char c"
  by (auto simp: prerelease_ident_def numeric_ident_def list_all_iff is_ident_char_def is_alnum_def)

lemma build_ident_chars: "build_ident w \<Longrightarrow> c \<in> set w \<Longrightarrow> is_ident_char c"
  by (auto simp: build_ident_def list_all_iff)

lemma prerelease_ident_nonempty: "prerelease_ident w \<Longrightarrow> w \<noteq> []"
  by (auto simp: prerelease_ident_def numeric_ident_def)

lemma set_py_join: "set (py_join sep ws) \<subseteq> set sep \<union> (\<Union>w\<in>set ws. set w)"
  by (induction sep ws rule: py_join.induct) auto

lemma ident_char_misc:
  "\<not> is_ident_char CHR ''.''" "\<not> is_ident_char CHR ''+''" "\<not> is_ident_char CHR 0x0A"
  by (simp_all add: is_ident_char_def is_alnum_def is_digit_def is_lower_def is_upper_def)

lemma digit_misc:
  "\<not> is_digit CHR ''.''" "\<not> is_digit CHR ''+''" "\<not> is_digit CHR ''-''" "\<not> is_digit CHR 0x0A"
  by (simp_all add: is_digit_def)

definition core_text :: "nat \<Rightarrow> nat \<Rightarrow> nat \<Rightarrow> string" where
  "core_text major minor patch =
     show_nat major @ ''.'' @ show_nat minor @ ''.'' @ show_nat patch"

lemma core_text_chars: "c \<in> set (core_text i j k) \<Longrightarrow> is_digit c \<or> c = CHR ''.''"
  by (auto simp: core_text_def dest: show_nat_digits)

lemma show_nat_no: "\<not> is_digit c \<Longrightarrow> c \<notin> set (show_nat n)"
  using show_nat_digits by blast

lemma split_core_text: "py_split CHR ''.'' (core_text i j k) = [show_nat i, show_nat j, show_nat k]"
  by (simp add: core_text_def py_split_append py_split_absent show_nat_no digit_misc)

lemma idents_text_chars:
  assumes "list_all ok ws" and "\<And>w c. ok w \<Longrightarrow> c \<in> set w \<Longrightarrow> is_ident_char c"
    and "c \<in> set (py_join ''.'' ws)"
  shows "is_ident_char c \<or> c = CHR ''.''"
  using assms set_py_join [of "''.''" ws] by (fastforce simp: list_all_iff)

lemma split_idents_text:
  assumes "list_all ok ws" and "\<And>w c. ok w \<Longrightarrow> c \<in> set w \<Longrightarrow> is_ident_char c" and "ws \<noteq> []"
  shows "py_split CHR ''.'' (py_join ''.'' ws) = ws"
proof (rule py_split_join [OF assms(3)])
  show "\<forall>w\<in>set ws. CHR ''.'' \<notin> set w"
    using assms(1,2) ident_char_misc(1) by (auto simp: list_all_iff)
qed

lemma prerelease_text:
  assumes "list_all prerelease_ident ws"
  shows "c \<in> set (py_join ''.'' ws) \<Longrightarrow> is_ident_char c \<or> c = CHR ''.''"
    and "ws \<noteq> [] \<Longrightarrow> py_split CHR ''.'' (py_join ''.'' ws) = ws"
  using idents_text_chars [OF assms, of c] split_idents_text [OF assms]
  by (blast intro: prerelease_ident_chars)+

lemma build_text_chars:
  assumes "list_all build_ident (py_split CHR ''.'' b)" and "c \<in> set b"
  shows "is_ident_char c \<or> c = CHR ''.''"
  using idents_text_chars [OF assms(1) build_ident_chars] assms(2) py_join_split [of "CHR ''.''" b]
  by simp

lemma semver_str_text:
  "semver_str v = core_text (sv_major v) (sv_minor v) (sv_patch v) @
     (if sv_prerelease v = [] then [] else ''-'' @ py_join ''.'' (sv_prerelease v)) @
     (if sv_build v = [] then [] else ''+'' @ sv_build v)"
  by (simp add: semver_str_def core_text_def Let_def)

lemma semver_str_chars:
  assumes "semver_wf v" and "c \<in> set (semver_str v)"
  shows "is_ident_char c \<or> c \<in> {CHR ''.'', CHR ''-'', CHR ''+''}"
proof -
  have d: "is_digit c \<Longrightarrow> is_ident_char c" by (simp add: is_ident_char_def is_alnum_def)
  have p: "c \<in> set (py_join ''.'' (sv_prerelease v)) \<Longrightarrow> is_ident_char c \<or> c = CHR ''.''"
    using assms(1) prerelease_text(1) by (auto simp: semver_wf_def)
  have b: "c \<in> set (sv_build v) \<Longrightarrow> is_ident_char c \<or> c = CHR ''.''"
    using assms(1) build_text_chars by (auto simp: semver_wf_def)
  show ?thesis
    using assms(2) d p b core_text_chars [of c] by (auto simp: semver_str_text split: if_splits)
qed

lemma chomp_semver_str: "semver_wf v \<Longrightarrow> chomp (semver_str v) = semver_str v"
proof -
  assume wf: "semver_wf v"
  have "CHR 0x0A \<notin> set (semver_str v)"
    using semver_str_chars [OF wf] ident_char_misc(3) by force
  then show ?thesis unfolding chomp_def using last_in_set by force
qed

lemma parse_print:
  assumes wf: "semver_wf v"
  shows "parse_semver (semver_str v) = Some (v\<lparr>sv_original := semver_str v\<rparr>)"
proof -
  define core where "core = core_text (sv_major v) (sv_minor v) (sv_patch v)"
  define pre where "pre = (if sv_prerelease v = [] then None else Some (py_join ''.'' (sv_prerelease v)))"
  define bld where "bld = (if sv_build v = [] then None else Some (sv_build v))"
  define main where "main = core @ (case pre of None \<Rightarrow> [] | Some p \<Rightarrow> CHR ''-'' # p)"
  have str: "semver_str v = main @ (case bld of None \<Rightarrow> [] | Some b \<Rightarrow> CHR ''+'' # b)"
    by (simp add: semver_str_text main_def core_def pre_def bld_def)
  have "CHR ''-'' \<notin> set core"
    unfolding core_def using core_text_chars digit_misc(3) by force
  then have s2: "py_split1 CHR ''-'' main = (core, pre)"
    by (simp add: main_def py_split1_append py_split1_absent split: option.split)
  have idents: "list_all prerelease_ident (sv_prerelease v)"
    using wf by (simp add: semver_wf_def)
  have "CHR ''+'' \<notin> set core"
    unfolding core_def using core_text_chars digit_misc(2) by force
  moreover have "CHR ''+'' \<notin> set (py_join ''.'' (sv_prerelease v))"
    using prerelease_text(1) [OF idents] ident_char_misc(2) by force
  ultimately have "CHR ''+'' \<notin> set main"
    by (auto simp: main_def pre_def)
  then have s1: "py_split1 CHR ''+'' (semver_str v) = (main, bld)"
    by (simp add: str py_split1_append py_split1_absent split: option.split)
  have pres: "(case pre of None \<Rightarrow> [] | Some p \<Rightarrow> py_split CHR ''.'' p) = sv_prerelease v"
    using prerelease_text(2) [OF idents] by (simp add: pre_def)
  have b: "(case bld of None \<Rightarrow> [] | Some b \<Rightarrow> b) = sv_build v"
    "case bld of None \<Rightarrow> True | Some b \<Rightarrow> list_all build_ident (py_split CHR ''.'' b)"
    using wf by (auto simp: bld_def semver_wf_def)
  show ?thesis
    unfolding parse_semver_def chomp_semver_str [OF wf] s1 Let_def prod.case s2 pres core_def
      split_core_text b(1)
    using b(2) idents by (simp add: numeric_show_nat)
qed

lemma print_parse:
  assumes p: "parse_semver s = Some v"
  shows "semver_str v = chomp s"
proof -
  obtain main bld where s1: "py_split1 CHR ''+'' (chomp s) = (main, bld)" by fastforce
  obtain core pre where s2: "py_split1 CHR ''-'' main = (core, pre)" by fastforce
  define pres where "pres = (case pre of None \<Rightarrow> [] | Some q \<Rightarrow> py_split CHR ''.'' q)"
  have "(case py_split CHR ''.'' core of
        [i, j, k] \<Rightarrow> (if numeric_ident i \<and> numeric_ident j \<and> numeric_ident k \<and>
          list_all prerelease_ident pres \<and>
          (case bld of None \<Rightarrow> True | Some b \<Rightarrow> list_all build_ident (py_split CHR ''.'' b))
          then Some \<lparr>sv_major = read_nat i, sv_minor = read_nat j, sv_patch = read_nat k,
            sv_prerelease = pres, sv_build = (case bld of None \<Rightarrow> [] | Some b \<Rightarrow> b),
            sv_original = s\<rparr> else None) | _ \<Rightarrow> None) = Some v"
    using p unfolding parse_semver_def s1 Let_def prod.case s2 pres_def .
  then obtain i j k where c: "py_split CHR ''.'' core = [i, j, k]"
    and n: "numeric_ident i" "numeric_ident j" "numeric_ident k"
    and b: "case bld of None \<Rightarrow> True | Some b \<Rightarrow> list_all build_ident (py_split CHR ''.'' b)"
    and v: "v = \<lparr>sv_major = read_nat i, sv_minor = read_nat j, sv_patch = read_nat k,
      sv_prerelease = pres, sv_build = (case bld of None \<Rightarrow> [] | Some b \<Rightarrow> b), sv_original = s\<rparr>"
    by (auto split: list.splits if_splits)
  have core: "core = core_text (read_nat i) (read_nat j) (read_nat k)"
    using py_join_split [of "CHR ''.''" core] n by (simp add: c core_text_def show_read_nat)
  have bne: "bld = Some b \<Longrightarrow> b \<noteq> []" for b using b by (auto simp: build_ident_def)
  have main: "main = core @ (if pres = [] then [] else ''-'' @ py_join ''.'' pres)"
    using py_split1_cases [of main "CHR ''-''"]
    by (auto simp: s2 pres_def py_join_split split: option.splits)
  have "chomp s = main @ (case bld of None \<Rightarrow> [] | Some b \<Rightarrow> ''+'' @ b)"
    using py_split1_cases [of "chomp s" "CHR ''+''"] by (auto simp: s1 split: option.splits)
  then show ?thesis
    using bne by (auto simp: semver_str_text v main core split: option.splits)
qed

section \<open>Properties\<close>

lemma compare_versions_key:
  "compare_versions s t = Inr x \<longleftrightarrow>
     (\<exists>a b. parse_semver s = Some a \<and> parse_semver t = Some b \<and>
        x = (if semver_key a < semver_key b then - 1 else if semver_key a = semver_key b then 0 else 1))"
  by (auto simp: compare_versions_def semver_lt_key semver_eq_key parse_semver_wf
      split: option.splits if_splits)

text \<open>
  \<open>compare_versions\<close> is a total preorder on the version strings that parse: exchanging the
  arguments negates the result, and the results along a chain compose (equal only when both links
  are equal).
\<close>

theorem compare_versions_order:
  assumes "compare_versions s t = Inr x" and "compare_versions t u = Inr y"
  shows "compare_versions t s = Inr (- x) \<and> x \<in> {- 1, 0, 1} \<and>
    (\<exists>z. compare_versions s u = Inr z \<and>
       (x \<le> 0 \<and> y \<le> 0 \<longrightarrow> z \<le> 0 \<and> (z = 0 \<longleftrightarrow> x = 0 \<and> y = 0)))"
proof -
  from assms obtain a b c where p: "parse_semver s = Some a" "parse_semver t = Some b"
    "parse_semver u = Some c"
    and x: "x = (if semver_key a < semver_key b then - 1 else if semver_key a = semver_key b then 0 else 1)"
    and y: "y = (if semver_key b < semver_key c then - 1 else if semver_key b = semver_key c then 0 else 1)"
    by (auto simp: compare_versions_key)
  show ?thesis
    unfolding compare_versions_key
    using p x y by (cases "semver_key a" "semver_key b" rule: linorder_cases;
        cases "semver_key b" "semver_key c" rule: linorder_cases) auto
qed

lemma demo_compare:
  "compare_versions ''1.0.0-rc.2'' ''1.0.0-rc.10'' = Inr (- 1)"
  "compare_versions ''1.0.0-rc.10'' ''1.0.0'' = Inr (- 1)"
  by code_simp+

theorem compare_versions_order_witness:
  "compare_versions ''1.0.0-rc.10'' ''1.0.0-rc.2'' = Inr 1"
  using compare_versions_order [OF demo_compare] by simp

text \<open>
  Printing inverts parsing: the text of a parsed version is the input without the one trailing
  newline that the pattern tolerates, and that text parses to the same version again.
\<close>

theorem parse_semver_roundtrip:
  assumes "parse_semver s = Some v"
  shows "semver_str v = chomp s \<and>
    parse_semver (semver_str v) = Some (v\<lparr>sv_original := semver_str v\<rparr>)"
  using print_parse [OF assms] parse_print [OF parse_semver_wf [OF assms]] by simp

theorem parse_semver_roundtrip_witness:
  "semver_str (the (parse_semver ''1.20.3-rc.1+b.7'')) = ''1.20.3-rc.1+b.7''"
proof -
  have "parse_semver ''1.20.3-rc.1+b.7'' \<noteq> None" by code_simp
  then obtain v where v: "parse_semver ''1.20.3-rc.1+b.7'' = Some v" by auto
  have "chomp ''1.20.3-rc.1+b.7'' = ''1.20.3-rc.1+b.7''" by code_simp
  with parse_semver_roundtrip [OF v] v show ?thesis by simp
qed

text \<open>
  A version string followed by one newline is accepted as the same version, because the pattern
  ends in \<open>$\<close>.
\<close>

theorem parse_semver_trailing_newline:
  assumes "chomp s = s"
  shows "parse_semver (s @ [CHR 0x0A]) =
    map_option (\<lambda>v. v\<lparr>sv_original := s @ [CHR 0x0A]\<rparr>) (parse_semver s)"
proof -
  have "chomp (s @ [CHR 0x0A]) = s" by (simp add: chomp_def)
  with assms show ?thesis
    by (auto simp: parse_semver_def Let_def split: prod.splits list.splits option.splits)
qed

theorem parse_semver_trailing_newline_witness:
  "parse_semver (''1.0.0'' @ [CHR 0x0A]) \<noteq> None"
proof -
  have "chomp ''1.0.0'' = ''1.0.0''" by code_simp
  moreover have "parse_semver ''1.0.0'' \<noteq> None" by code_simp
  ultimately show ?thesis using parse_semver_trailing_newline [of "''1.0.0''"] by simp
qed

lemma set_parsed_list: "(a, v) \<in> set (parsed_list vs) \<longleftrightarrow> v \<in> set vs \<and> parse_semver v = Some a"
  by (auto simp: parsed_list_def split: option.splits)

text \<open>
  \<open>highest_version\<close> returns nothing exactly when no string of the list parses; otherwise it
  returns a string of the list that parses and that no other string of the list exceeds.
\<close>

theorem highest_version_max:
  "case highest_version vs of
     None \<Rightarrow> \<forall>v\<in>set vs. parse_semver v = None
   | Some h \<Rightarrow> h \<in> set vs \<and> parse_semver h \<noteq> None \<and>
       (\<forall>v\<in>set vs. parse_semver v \<noteq> None \<longrightarrow> compare_versions h v \<in> {Inr 0, Inr 1})"
proof (cases "parsed_list vs = []")
  case True
  then have "\<forall>v\<in>set vs. parse_semver v = None"
    using set_parsed_list by (metis empty_iff list.set(1) not_None_eq)
  with True show ?thesis by (simp add: highest_version_def)
next
  case False
  obtain a h where h: "hd (sort_desc pair_lt (parsed_list vs)) = (a, h)" by fastforce
  from semver_pair.hd_sort_desc [OF False]
  have m: "(a, h) \<in> set (parsed_list vs)"
    and best: "\<forall>x\<in>set (parsed_list vs). \<not> pair_lt (a, h) x" by (simp_all add: h)
  have "compare_versions h v \<in> {Inr 0, Inr 1}" if "v \<in> set vs" "parse_semver v = Some b" for v b
  proof -
    have "(b, v) \<in> set (parsed_list vs)" using that by (simp add: set_parsed_list)
    with best have "\<not> semver_lt a b" by (auto simp: pair_lt_def)
    with m that show ?thesis by (simp add: set_parsed_list compare_versions_def)
  qed
  moreover have "highest_version vs = Some h"
    using False h by (simp add: highest_version_def)
  ultimately show ?thesis using m by (auto simp: set_parsed_list)
qed

theorem highest_version_max_witness:
  "compare_versions ''1.10.0'' ''1.9.2'' \<in> {Inr 0, Inr 1}"
proof -
  have "highest_version [''1.9.2'', ''1.10.0'', ''latest''] = Some ''1.10.0''" by code_simp
  moreover have "parse_semver ''1.9.2'' \<noteq> None" by code_simp
  ultimately show ?thesis
    using highest_version_max [of "[''1.9.2'', ''1.10.0'', ''latest'']"] by simp
qed

definition rc_model :: ModelDescriptor where
  "rc_model = \<lparr>md_model_id = ''fall'', md_directory_path = [''/''],
     md_versions = [(''1.0.0-rc.2'', new_descriptor 0 ''fall'' ''1.0.0-rc.2'' []),
                    (''1.0.0-rc.10'', new_descriptor 0 ''fall'' ''1.0.0-rc.10'' [])],
     md_discovered_at = 0\<rparr>"

text \<open>
  The two notions of newest version in the runtime disagree on pre-releases: the registry's
  \<open>latest_version\<close> compares the pre-release text as a string, so \<open>rc.2\<close> beats \<open>rc.10\<close>, while the
  resolver's order takes the identifiers as numbers.
\<close>

theorem latest_version_disagrees:
  "latest_version rc_model = Inr (Some ''1.0.0-rc.2'') \<and>
   highest_version (dkeys (md_versions rc_model)) = Some ''1.0.0-rc.10''"
proof
  have k: "dkeys (md_versions rc_model) = [''1.0.0-rc.2'', ''1.0.0-rc.10'']"
    by (simp add: rc_model_def)
  have "semver_sort_key ''1.0.0-rc.2'' = Some (1, 0, 0, ''rc.2'')"
    "semver_sort_key ''1.0.0-rc.10'' = Some (1, 0, 0, ''rc.10'')"
    by code_simp+
  moreover have "\<not> ((1::int), (0::int), (0::int), ''rc.2'') < (1, 0, 0, ''rc.10'')" by code_simp
  ultimately show "latest_version rc_model = Inr (Some ''1.0.0-rc.2'')"
    by (simp add: latest_version_def k)
  show "highest_version (dkeys (md_versions rc_model)) = Some ''1.0.0-rc.10''"
    unfolding k by code_simp
qed

end
