(* ===== verification/Registry.thy ===== *)
theory Registry
  imports RuntimeModels
begin

text \<open>
  \<open>ai/runtime/registry.py\<close>: the in-memory registry of models and versions. Each method holds the
  read-write lock around its access to \<open>_models\<close>, so it is one atomic step, and emits at most one
  event after the lock is released. A descriptor handed out by the registry is the registry's own
  object; where the code mutates it, the model writes it back with \<open>put_version\<close>. What listeners
  do with an event is outside the model; the record keeps which listener was sent which event
  (an exception in one listener is swallowed and does not keep the others from being called).
\<close>

section \<open>Events\<close>

datatype RegistryEventType = MODEL_DISCOVERED | MODEL_REMOVED | VERSION_DISCOVERED
  | VERSION_REMOVED | STATE_CHANGED | HEALTH_CHANGED

fun event_type_value :: "RegistryEventType \<Rightarrow> string" where
  "event_type_value MODEL_DISCOVERED = ''model_discovered''"
| "event_type_value MODEL_REMOVED = ''model_removed''"
| "event_type_value VERSION_DISCOVERED = ''version_discovered''"
| "event_type_value VERSION_REMOVED = ''version_removed''"
| "event_type_value STATE_CHANGED = ''state_changed''"
| "event_type_value HEALTH_CHANGED = ''health_changed''"

record RegistryEvent =
  ev_type :: RegistryEventType
  ev_model_id :: string
  ev_version :: "string option"
  ev_old_state :: "LoadState option"
  ev_new_state :: "LoadState option"
  ev_old_health :: "HealthStatus option"
  ev_new_health :: "HealthStatus option"
  ev_timestamp :: real

definition mk_event :: "real \<Rightarrow> RegistryEventType \<Rightarrow> string \<Rightarrow> string option \<Rightarrow> RegistryEvent" where
  "mk_event now t model_id version =
     \<lparr>ev_type = t, ev_model_id = model_id, ev_version = version, ev_old_state = None,
      ev_new_state = None, ev_old_health = None, ev_new_health = None, ev_timestamp = now\<rparr>"

definition event_to_dict :: "RegistryEvent \<Rightarrow> (string, jval) dict" where
  "event_to_dict e =
     (let r0 = [(''event_type'', JStr (event_type_value (ev_type e))),
                (''model_id'', JStr (ev_model_id e)),
                (''timestamp'', JTime (ev_timestamp e))];
          r1 = dput_if (truthy_str (ev_version e)) ''version'' (jopt JStr (ev_version e)) r0;
          r2 = dput_if (ev_old_state e \<noteq> None) ''old_state'' (jopt (JStr \<circ> state_value) (ev_old_state e)) r1;
          r3 = dput_if (ev_new_state e \<noteq> None) ''new_state'' (jopt (JStr \<circ> state_value) (ev_new_state e)) r2;
          r4 = dput_if (ev_old_health e \<noteq> None) ''old_health'' (jopt (JStr \<circ> health_value) (ev_old_health e)) r3
      in dput_if (ev_new_health e \<noteq> None) ''new_health'' (jopt (JStr \<circ> health_value) (ev_new_health e)) r4)"

section \<open>The registry\<close>

record ModelRegistry =
  rg_models :: "(string, ModelDescriptor) dict"
  rg_listeners :: "nat list"
  rg_sent :: "(nat \<times> RegistryEvent) list"

definition new_registry :: ModelRegistry where
  "new_registry = \<lparr>rg_models = [], rg_listeners = [], rg_sent = []\<rparr>"

definition emit :: "RegistryEvent \<Rightarrow> ModelRegistry \<Rightarrow> ModelRegistry" where
  "emit e r = r\<lparr>rg_sent := rg_sent r @ map (\<lambda>l. (l, e)) (rg_listeners r)\<rparr>"

definition add_listener :: "nat \<Rightarrow> ModelRegistry \<Rightarrow> ModelRegistry" where
  "add_listener l r = r\<lparr>rg_listeners := rg_listeners r @ [l]\<rparr>"

definition remove_listener :: "nat \<Rightarrow> ModelRegistry \<Rightarrow> bool \<times> ModelRegistry" where
  "remove_listener l r =
     (if l \<in> set (rg_listeners r)
      then (True, r\<lparr>rg_listeners := remove1 l (rg_listeners r)\<rparr>) else (False, r))"

subsection \<open>Queries\<close>

definition get_model :: "ModelRegistry \<Rightarrow> string \<Rightarrow> ModelDescriptor option" where
  "get_model r model_id = dget (rg_models r) model_id"

definition get_version :: "ModelRegistry \<Rightarrow> string \<Rightarrow> string \<Rightarrow> ModelVersionDescriptor option" where
  "get_version r model_id version =
     (case dget (rg_models r) model_id of
        None \<Rightarrow> None | Some md \<Rightarrow> md_get_version md version)"

definition get_all_models :: "ModelRegistry \<Rightarrow> ModelDescriptor list" where
  "get_all_models r = dvals (rg_models r)"

definition get_all_versions :: "ModelRegistry \<Rightarrow> ModelVersionDescriptor list" where
  "get_all_versions r = concat (map (\<lambda>md. dvals (md_versions md)) (dvals (rg_models r)))"

definition get_versions_by_state :: "ModelRegistry \<Rightarrow> LoadState \<Rightarrow> ModelVersionDescriptor list" where
  "get_versions_by_state r state =
     concat (map (\<lambda>md. filter (\<lambda>d. vd_state d = state) (dvals (md_versions md))) (dvals (rg_models r)))"

definition get_ready_versions :: "ModelRegistry \<Rightarrow> ModelVersionDescriptor list" where
  "get_ready_versions r =
     concat (map (\<lambda>md. filter (\<lambda>d. vd_state d = READY) (dvals (md_versions md))) (dvals (rg_models r)))"

definition model_exists :: "ModelRegistry \<Rightarrow> string \<Rightarrow> bool" where
  "model_exists r model_id \<longleftrightarrow> dget (rg_models r) model_id \<noteq> None"

definition version_exists :: "ModelRegistry \<Rightarrow> string \<Rightarrow> string \<Rightarrow> bool" where
  "version_exists r model_id version \<longleftrightarrow>
     (case dget (rg_models r) model_id of
        None \<Rightarrow> False | Some md \<Rightarrow> dget (md_versions md) version \<noteq> None)"

definition rg_model_count :: "ModelRegistry \<Rightarrow> nat" where
  "rg_model_count r = length (rg_models r)"

definition rg_version_count :: "ModelRegistry \<Rightarrow> nat" where
  "rg_version_count r = sum_list (map version_count (dvals (rg_models r)))"

definition ready_count :: "ModelRegistry \<Rightarrow> nat" where
  "ready_count r = sum_list (map (\<lambda>md. length (ready_versions md)) (dvals (rg_models r)))"

definition get_status_summary :: "ModelRegistry \<Rightarrow> (string, int) dict" where
  "get_status_summary r =
     foldl (\<lambda>counts d. dput (state_value (vd_state d))
                         (dget_or counts (state_value (vd_state d)) 0 + 1) counts)
       [] (get_all_versions r)"

definition registry_to_dict :: "ModelRegistry \<Rightarrow> py_error + (string, jval) dict" where
  "registry_to_dict r =
     (let models = foldl (\<lambda>acc (i, md).
            case acc of Inl e \<Rightarrow> Inl e
            | Inr ms \<Rightarrow> (case model_to_dict md of Inl e \<Rightarrow> Inl e | Inr d \<Rightarrow> Inr (ms @ [(i, JDict d)])))
          (Inr []) (rg_models r)
      in case models of Inl e \<Rightarrow> Inl e
         | Inr ms \<Rightarrow> Inr [(''model_count'', JInt (int (rg_model_count r))),
                          (''version_count'', JInt (int (rg_version_count r))),
                          (''ready_count'', JInt (int (ready_count r))),
                          (''models'', JDict ms)])"

subsection \<open>Updates\<close>

definition put_model :: "string \<Rightarrow> ModelDescriptor \<Rightarrow> ModelRegistry \<Rightarrow> ModelRegistry" where
  "put_model model_id md r = r\<lparr>rg_models := dput model_id md (rg_models r)\<rparr>"

text \<open>
  Writing back a descriptor object of the registry after a mutation (nothing happens to the
  registry when the object is not, or no longer, in it).
\<close>

definition put_version ::
  "string \<Rightarrow> string \<Rightarrow> ModelVersionDescriptor \<Rightarrow> ModelRegistry \<Rightarrow> ModelRegistry" where
  "put_version model_id version d r =
     (case dget (rg_models r) model_id of
        None \<Rightarrow> r
      | Some md \<Rightarrow> put_model model_id (md\<lparr>md_versions := dput version d (md_versions md)\<rparr>) r)"

definition reg_register_model :: "real \<Rightarrow> ModelDescriptor \<Rightarrow> ModelRegistry \<Rightarrow> ModelRegistry" where
  "reg_register_model now md r =
     (if dget (rg_models r) (md_model_id md) \<noteq> None then r
      else emit (mk_event now MODEL_DISCOVERED (md_model_id md) None)
             (put_model (md_model_id md) md r))"

definition register_version ::
  "(nat \<Rightarrow> real) \<Rightarrow> ModelVersionDescriptor \<Rightarrow> ModelRegistry \<Rightarrow> ModelRegistry" where
  "register_version utc d r =
     (let model_id = vd_model_id d;
          r1 = (if dget (rg_models r) model_id = None
                then put_model model_id
                       \<lparr>md_model_id = model_id,
                        md_directory_path = path_parent (vd_directory_path d),
                        md_versions = [], md_discovered_at = utc 0\<rparr> r
                else r);
          md = the (dget (rg_models r1) model_id);
          r2 = put_model model_id (add_version d md) r1
      in emit ((mk_event (utc 1) VERSION_DISCOVERED model_id (Some (vd_version d)))
                 \<lparr>ev_new_state := Some (vd_state d)\<rparr>) r2)"

definition reg_unregister_model ::
  "real \<Rightarrow> string \<Rightarrow> ModelRegistry \<Rightarrow> ModelDescriptor option \<times> ModelRegistry" where
  "reg_unregister_model now model_id r =
     (case dget (rg_models r) model_id of
        None \<Rightarrow> (None, r)
      | Some md \<Rightarrow>
          (Some md, emit (mk_event now MODEL_REMOVED model_id None)
                      (r\<lparr>rg_models := ddel model_id (rg_models r)\<rparr>)))"

definition unregister_version ::
  "real \<Rightarrow> string \<Rightarrow> string \<Rightarrow> ModelRegistry \<Rightarrow> ModelVersionDescriptor option \<times> ModelRegistry" where
  "unregister_version now model_id version r =
     (case dget (rg_models r) model_id of
        None \<Rightarrow> (None, r)
      | Some md \<Rightarrow>
          (case remove_version version md of
             (None, md') \<Rightarrow> (None, put_model model_id md' r)
           | (Some d, md') \<Rightarrow>
               (let r1 = put_model model_id md' r;
                    r2 = (if version_count md' = 0
                          then r1\<lparr>rg_models := ddel model_id (rg_models r1)\<rparr> else r1)
                in (Some d, emit (mk_event now VERSION_REMOVED model_id (Some version)) r2))))"

definition update_state ::
  "(nat \<Rightarrow> real) \<Rightarrow> string \<Rightarrow> string \<Rightarrow> LoadState \<Rightarrow> string option \<Rightarrow> string option \<Rightarrow>
   ModelRegistry \<Rightarrow> bool \<times> ModelRegistry" where
  "update_state utc model_id version new_state error error_code r =
     (case get_version r model_id version of
        None \<Rightarrow> (False, r)
      | Some d \<Rightarrow>
          (True,
           emit ((mk_event (utc 1) STATE_CHANGED model_id (Some version))
                   \<lparr>ev_old_state := Some (vd_state d), ev_new_state := Some new_state\<rparr>)
             (put_version model_id version (transition_to (utc 0) new_state error error_code d) r)))"

definition update_health ::
  "real \<Rightarrow> string \<Rightarrow> string \<Rightarrow> HealthStatus \<Rightarrow> ModelRegistry \<Rightarrow> bool \<times> ModelRegistry" where
  "update_health now model_id version new_health r =
     (case get_version r model_id version of
        None \<Rightarrow> (False, r)
      | Some d \<Rightarrow>
          (True,
           emit ((mk_event now HEALTH_CHANGED model_id (Some version))
                   \<lparr>ev_old_health := Some (vd_health d), ev_new_health := Some new_health\<rparr>)
             (put_version model_id version (d\<lparr>vd_health := new_health\<rparr>) r)))"

definition record_inference :: "string \<Rightarrow> string \<Rightarrow> ModelRegistry \<Rightarrow> ModelRegistry" where
  "record_inference model_id version r =
     (case get_version r model_id version of
        None \<Rightarrow> r
      | Some d \<Rightarrow> put_version model_id version
          (d\<lparr>vd_inference_count := vd_inference_count d + 1\<rparr>) r)"

definition record_error :: "string \<Rightarrow> string \<Rightarrow> ModelRegistry \<Rightarrow> ModelRegistry" where
  "record_error model_id version r =
     (case get_version r model_id version of
        None \<Rightarrow> r
      | Some d \<Rightarrow> put_version model_id version (d\<lparr>vd_error_count := vd_error_count d + 1\<rparr>) r)"

section \<open>Well-formed registries\<close>

text \<open>
  Keys agree with the identities of what they map to: a model is stored under its id and a version
  under its version string, inside the model it belongs to.
\<close>

definition registry_wf :: "ModelRegistry \<Rightarrow> bool" where
  "registry_wf r \<longleftrightarrow> dict_wf (rg_models r) \<and>
     (\<forall>i md. dget (rg_models r) i = Some md \<longrightarrow> md_model_id md = i \<and> dict_wf (md_versions md) \<and>
        (\<forall>v d. dget (md_versions md) v = Some d \<longrightarrow> vd_model_id d = i \<and> vd_version d = v))"

lemma registry_wf_new: "registry_wf new_registry"
  by (simp add: registry_wf_def new_registry_def)

lemma emit_simps [simp]:
  "rg_models (emit e r) = rg_models r"
  "get_version (emit e r) = get_version r"
  "registry_wf (emit e r) = registry_wf r"
  by (auto simp: emit_def get_version_def registry_wf_def fun_eq_iff split: option.splits)

lemma get_version_put_version:
  "get_version (put_version i v d r) j w =
     (if j = i \<and> w = v \<and> get_model r i \<noteq> None then Some d else get_version r j w)"
  by (auto simp: put_version_def get_version_def get_model_def put_model_def md_get_version_def
      split: option.splits)

lemma get_version_model: "get_version r i v = Some d \<Longrightarrow> get_model r i \<noteq> None"
  by (auto simp: get_version_def get_model_def split: option.splits)

lemma registry_wf_put_version:
  "registry_wf r \<Longrightarrow> vd_model_id d = i \<Longrightarrow> vd_version d = v \<Longrightarrow> registry_wf (put_version i v d r)"
  by (auto simp: registry_wf_def put_version_def put_model_def split: option.splits if_splits)

lemma registry_wf_get:
  "registry_wf r \<Longrightarrow> get_version r i v = Some d \<Longrightarrow> vd_model_id d = i \<and> vd_version d = v"
  by (auto simp: registry_wf_def get_version_def md_get_version_def split: option.splits)

lemma get_version_update_state:
  "get_version (snd (update_state utc i v s e c r)) j w =
     (if j = i \<and> w = v then map_option (transition_to (utc 0) s e c) (get_version r i v)
      else get_version r j w)"
  by (auto simp: update_state_def get_version_put_version dest: get_version_model
      split: option.splits)

lemma update_state_success:
  "fst (update_state utc i v s e c r) \<longleftrightarrow> get_version r i v \<noteq> None"
  by (auto simp: update_state_def split: option.splits)

lemma registry_wf_update_state:
  "registry_wf r \<Longrightarrow> registry_wf (snd (update_state utc i v s e c r))"
  by (auto simp: update_state_def intro!: registry_wf_put_version dest: registry_wf_get
      split: option.splits)

lemma registry_wf_update_health:
  "registry_wf r \<Longrightarrow> registry_wf (snd (update_health now i v h r))"
  by (auto simp: update_health_def intro!: registry_wf_put_version dest: registry_wf_get
      split: option.splits)

lemma get_version_register_version:
  "get_version (register_version utc d r) j w =
     (if j = vd_model_id d \<and> w = vd_version d then Some d else get_version r j w)"
  by (auto simp: register_version_def Let_def put_model_def get_version_def md_get_version_def
      split: option.splits)

lemma registry_wf_register_version:
  "registry_wf r \<Longrightarrow> registry_wf (register_version utc d r)"
  by (auto simp: register_version_def Let_def put_model_def registry_wf_def split: if_splits)
    (simp add: dict_wf_def)

lemma get_version_unregister_version:
  "get_version (snd (unregister_version now i v r)) j w =
     (if j = i \<and> w = v then None else get_version r j w)"
proof (cases "dget (rg_models r) i")
  case None
  then show ?thesis by (auto simp: unregister_version_def get_version_def)
next
  case (Some md)
  have e: "length m = 0 \<Longrightarrow> dget m k = None" for m :: "(string, ModelVersionDescriptor) dict" and k
    by simp
  show ?thesis
  proof (cases "dget (md_versions md) v")
    case None
    with Some show ?thesis
      by (auto simp: unregister_version_def remove_version_def put_model_def get_version_def
          md_get_version_def ddel_absent)
  next
    case (Some d)
    have "ddel v (md_versions md) = [] \<Longrightarrow> w \<noteq> v \<Longrightarrow> dget (md_versions md) w = None"
      using dget_ddel [of v "md_versions md" w] by simp
    with Some \<open>dget (rg_models r) i = Some md\<close> show ?thesis
      by (auto simp: unregister_version_def remove_version_def put_model_def get_version_def
          md_get_version_def Let_def version_count_def)
  qed
qed

lemma registry_wf_unregister_version:
  "registry_wf r \<Longrightarrow> registry_wf (snd (unregister_version now i v r))"
  by (auto simp: unregister_version_def remove_version_def put_model_def registry_wf_def Let_def
      split: option.splits if_splits)

text \<open>
  The registry is a keyed store of version descriptors under (model id, version): storing is
  \<open>register_version\<close> of a descriptor with that identity, discarding is \<open>unregister_version\<close>.
\<close>

definition lookup_key :: "ModelRegistry \<Rightarrow> string \<times> string \<Rightarrow> ModelVersionDescriptor option" where
  "lookup_key r k = get_version r (fst k) (snd k)"

definition store_key :: "string \<times> string \<Rightarrow> ModelVersionDescriptor \<Rightarrow> ModelRegistry \<Rightarrow> ModelRegistry" where
  "store_key k d r = register_version (\<lambda>_. 0) d r"

definition discard_key :: "string \<times> string \<Rightarrow> ModelRegistry \<Rightarrow> ModelRegistry" where
  "discard_key k r = snd (unregister_version 0 (fst k) (snd k) r)"

definition fits_key :: "string \<times> string \<Rightarrow> ModelVersionDescriptor \<Rightarrow> bool" where
  "fits_key k d \<longleftrightarrow> vd_model_id d = fst k \<and> vd_version d = snd k"

interpretation versions: keyed_store lookup_key store_key discard_key registry_wf fits_key
  by unfold_locales
    (auto simp: lookup_key_def store_key_def discard_key_def fits_key_def
      get_version_register_version get_version_unregister_version registry_wf_register_version
      registry_wf_unregister_version)

section \<open>Calls on a registry\<close>

text \<open>A model handed to \<open>register_model\<close> has its versions under their own identities.\<close>

definition model_wf :: "ModelDescriptor \<Rightarrow> bool" where
  "model_wf md \<longleftrightarrow> dict_wf (md_versions md) \<and>
     (\<forall>v d. dget (md_versions md) v = Some d \<longrightarrow> vd_model_id d = md_model_id md \<and> vd_version d = v)"

inductive rstep :: "ModelRegistry \<Rightarrow> ModelRegistry \<Rightarrow> bool" where
  r_model: "model_wf md \<Longrightarrow> rstep r (reg_register_model now md r)"
| r_version: "rstep r (register_version utc d r)"
| r_drop_model: "rstep r (snd (reg_unregister_model now i r))"
| r_drop_version: "rstep r (snd (unregister_version now i v r))"
| r_state: "rstep r (snd (update_state utc i v s e c r))"
| r_health: "rstep r (snd (update_health now i v h r))"
| r_inference: "rstep r (record_inference i v r)"
| r_error: "rstep r (record_error i v r)"
| r_listen: "rstep r (add_listener l r)"
| r_unlisten: "rstep r (snd (remove_listener l r))"

lemma registry_wf_step: "rstep r t \<Longrightarrow> registry_wf r \<Longrightarrow> registry_wf t"
proof (induction rule: rstep.induct)
  case (r_model md r now)
  then show ?case
    by (auto simp: reg_register_model_def put_model_def registry_wf_def model_wf_def)
next
  case (r_drop_model r now i)
  then show ?case
    by (auto simp: reg_unregister_model_def registry_wf_def split: option.splits)
next
  case (r_inference r i v)
  then show ?case
    by (auto simp: record_inference_def intro!: registry_wf_put_version dest: registry_wf_get
        split: option.splits)
next
  case (r_error r i v)
  then show ?case
    by (auto simp: record_error_def intro!: registry_wf_put_version dest: registry_wf_get
        split: option.splits)
next
  case (r_listen r l)
  then show ?case by (simp add: add_listener_def registry_wf_def)
next
  case (r_unlisten r l)
  then show ?case by (simp add: remove_listener_def registry_wf_def)
qed (simp_all add: registry_wf_register_version registry_wf_unregister_version
    registry_wf_update_state registry_wf_update_health)

interpretation registry: invariant_system "\<lambda>r. r = new_registry" rstep registry_wf
  by unfold_locales (simp_all add: registry_wf_new registry_wf_step)

section \<open>Properties\<close>

text \<open>
  In every registry built by the calls of the class, a version found under (model id, version)
  carries exactly that identity, and no dictionary of the registry has a key twice.
\<close>

theorem registered_identity:
  assumes "reach (\<lambda>r. r = new_registry) rstep r" and "get_version r i v = Some d"
  shows "vd_model_id d = i \<and> vd_version d = v \<and>
    distinct (map fst (rg_models r)) \<and> distinct (map fst (md_versions (the (get_model r i))))"
proof -
  have wf: "registry_wf r" using registry.reach_invar [OF assms(1)] .
  from assms(2) obtain md where "get_model r i = Some md"
    using get_version_model by blast
  with wf registry_wf_get [OF wf assms(2)] show ?thesis
    by (simp add: registry_wf_def dict_wf_def get_model_def)
qed

definition demo_registry :: ModelRegistry where
  "demo_registry =
     register_version (\<lambda>_. 1) (new_descriptor 0 ''fall'' ''1.0.0'' ''Fall'')
       (add_listener 7 new_registry)"

lemma demo_registry_reach: "reach (\<lambda>r. r = new_registry) rstep demo_registry"
  unfolding demo_registry_def
  by (rule reach_step [OF reach_step [OF reach_init]]) (simp, rule r_listen, rule r_version)

lemma demo_registry_get:
  "get_version demo_registry ''fall'' ''1.0.0'' = Some (new_descriptor 0 ''fall'' ''1.0.0'' ''Fall'')"
  by (simp add: demo_registry_def get_version_register_version) (simp add: new_descriptor_def)

theorem registered_identity_witness:
  "vd_model_id (new_descriptor 0 ''fall'' ''1.0.0'' ''Fall'') = ''fall'' \<and>
   distinct (map fst (rg_models demo_registry))"
  using registered_identity [OF demo_registry_reach demo_registry_get] by blast

text \<open>
  \<open>update_state\<close> reports whether the version exists; when it does, exactly that version's state
  changes, every listener is sent one event with the old and the new state, and an earlier error
  text survives a transition that is given none. When it does not, nothing changes.
\<close>

theorem update_state_effect:
  "case update_state utc i v s e c r of (ok, r') \<Rightarrow>
     (ok \<longleftrightarrow> get_version r i v \<noteq> None) \<and>
     (\<forall>j w. get_version r' j w =
        (if ok \<and> j = i \<and> w = v then Some (transition_to (utc 0) s e c (the (get_version r i v)))
         else get_version r j w)) \<and>
     (\<not> ok \<longrightarrow> r' = r) \<and>
     (ok \<longrightarrow> map fst (drop (length (rg_sent r)) (rg_sent r')) = rg_listeners r \<and>
        (\<forall>ev\<in>snd ` set (drop (length (rg_sent r)) (rg_sent r')).
           ev_type ev = STATE_CHANGED \<and> ev_old_state ev = map_option vd_state (get_version r i v) \<and>
           ev_new_state ev = Some s)) \<and>
     (ok \<and> \<not> truthy_str e \<longrightarrow>
        map_option vd_last_error (get_version r' i v) = map_option vd_last_error (get_version r i v))"
proof (cases "get_version r i v")
  case None
  then show ?thesis by (simp add: update_state_def)
next
  case (Some d)
  define p where "p = put_version i v (transition_to (utc 0) s e c d) r"
  have p: "rg_listeners p = rg_listeners r" "rg_sent p = rg_sent r"
    by (auto simp: p_def put_version_def put_model_def split: option.splits)
  have g: "\<And>j w. get_version p j w =
      (if j = i \<and> w = v then Some (transition_to (utc 0) s e c d) else get_version r j w)"
    using get_version_model [OF Some] by (simp add: p_def get_version_put_version)
  define ev where "ev = (mk_event (utc 1) STATE_CHANGED i (Some v))
    \<lparr>ev_old_state := Some (vd_state d), ev_new_state := Some s\<rparr>"
  have ev: "ev_type ev = STATE_CHANGED" "ev_old_state ev = Some (vd_state d)"
    "ev_new_state ev = Some s"
    by (simp_all add: ev_def mk_event_def)
  define r' where "r' = emit ev p"
  have u: "update_state utc i v s e c r = (True, r')"
    by (simp add: update_state_def Some p_def r'_def ev_def)
  have sent: "rg_sent r' = rg_sent r @ map (\<lambda>l. (l, ev)) (rg_listeners r)"
    by (simp add: r'_def emit_def p)
  have get: "\<And>j w. get_version r' j w =
      (if j = i \<and> w = v then Some (transition_to (utc 0) s e c d) else get_version r j w)"
    by (simp add: r'_def g)
  show ?thesis
    by (auto simp: u sent get Some ev o_def transition_to_keeps_error)
qed

theorem update_state_effect_witness:
  "fst (update_state (\<lambda>_. 2) ''fall'' ''1.0.0'' READY None None demo_registry)"
  using update_state_effect [where utc = "\<lambda>_. 2" and i = "''fall''" and v = "''1.0.0''"
      and s = READY and e = None and c = None and r = demo_registry]
  by (simp add: demo_registry_get split: prod.splits)

text \<open>
  Registering a version and unregistering it again leaves every lookup as unregistering alone
  would: the registry keeps no trace of the descriptor.
\<close>

theorem unregister_undoes_register:
  assumes "registry_wf r" and "vd_model_id d = i" "vd_version d = v"
  shows "get_version (snd (unregister_version 0 i v (register_version (\<lambda>_. 0) d r))) j w =
    get_version (snd (unregister_version 0 i v r)) j w"
  using versions.discard_store [of r "(i, v)" d "(j, w)"] assms
  by (simp add: lookup_key_def store_key_def discard_key_def fits_key_def)

theorem unregister_undoes_register_witness:
  "get_version (snd (unregister_version 0 ''fall'' ''1.0.0'' (register_version (\<lambda>_. 0)
     (new_descriptor 0 ''fall'' ''1.0.0'' ''Fall'') new_registry))) ''fall'' ''1.0.0'' = None"
  using unregister_undoes_register [OF registry_wf_new,
      of "new_descriptor 0 ''fall'' ''1.0.0'' ''Fall''" "''fall''" "''1.0.0''" "''fall''" "''1.0.0''"]
  by (simp add: get_version_unregister_version)

lemma state_value_inj [simp]: "state_value a = state_value b \<longleftrightarrow> a = b"
  by (cases a; cases b) simp_all

lemma summary_fold:
  "dget_or (foldl (\<lambda>counts d. dput (state_value (vd_state d))
       (dget_or counts (state_value (vd_state d)) 0 + 1) counts) c ds) (state_value s) 0 =
   dget_or c (state_value s) 0 + int (length (filter (\<lambda>d. vd_state d = s) ds))"
  by (induction ds arbitrary: c) auto

lemma by_state_eq_filter:
  "get_versions_by_state r s = filter (\<lambda>d. vd_state d = s) (get_all_versions r)"
  by (simp add: get_versions_by_state_def get_all_versions_def filter_concat comp_def)

text \<open>
  The three ways to count versions agree: the status summary holds, for every state, the number
  of versions \<open>get_versions_by_state\<close> lists, and \<open>ready_count\<close> is the number of those that are
  ready.
\<close>

theorem status_summary_counts:
  "dget_or (get_status_summary r) (state_value s) 0 = int (length (get_versions_by_state r s)) \<and>
   ready_count r = length (get_versions_by_state r READY)"
proof
  show "dget_or (get_status_summary r) (state_value s) 0 = int (length (get_versions_by_state r s))"
    by (simp add: get_status_summary_def summary_fold by_state_eq_filter)
  have f: "length (ready_versions md) = length (filter (\<lambda>d. vd_state d = READY) (dvals (md_versions md)))"
    for md
    by (simp add: ready_versions_def filter_map o_def case_prod_unfold)
  show "ready_count r = length (get_versions_by_state r READY)"
    by (simp add: ready_count_def get_versions_by_state_def length_concat f o_def)
qed

end
