(* ===== verification/Versioning.thy ===== *)
theory Versioning
  imports SemVer Registry RuntimeErrors
begin

text \<open>
  Version resolution and life cycle, \<open>ai/runtime/versioning.py\<close>: \<open>EligibilityConfig\<close>,
  \<open>VersionResolver\<close> and \<open>VersionLifecycleManager\<close> over the registry model. Resolution is read-only,
  a function of the registry; the life-cycle calls return the updated registry. A \<open>frozenset\<close> is the
  list of its elements in iteration order, and the iteration order of the sets of strings built for
  error details is the parameter \<open>order\<close>.
\<close>

section \<open>Eligibility\<close>

record EligibilityConfig =
  el_required_state :: LoadState
  el_acceptable_health :: "HealthStatus list"
  el_include_prerelease :: bool
  el_min_version :: "string option"
  el_max_version :: "string option"

definition is_eligible :: "EligibilityConfig \<Rightarrow> ModelVersionDescriptor \<Rightarrow> bool" where
  "is_eligible el d =
     (if vd_state d \<noteq> el_required_state el then False
      else if vd_health d \<notin> set (el_acceptable_health el) then False
      else (case parse_semver (vd_version d) of
              None \<Rightarrow> True
            | Some semver \<Rightarrow>
                (if is_prerelease semver \<and> \<not> el_include_prerelease el then False
                 else if below_min semver (el_min_version el) then False
                 else if above_max semver (el_max_version el) then False
                 else True)))"

definition DEFAULT_ELIGIBILITY :: EligibilityConfig where
  "DEFAULT_ELIGIBILITY = \<lparr>el_required_state = READY, el_acceptable_health = [HEALTHY, DEGRADED],
     el_include_prerelease = False, el_min_version = None, el_max_version = None\<rparr>"

definition STRICT_ELIGIBILITY :: EligibilityConfig where
  "STRICT_ELIGIBILITY = DEFAULT_ELIGIBILITY\<lparr>el_acceptable_health := [HEALTHY]\<rparr>"

definition PERMISSIVE_ELIGIBILITY :: EligibilityConfig where
  "PERMISSIVE_ELIGIBILITY = DEFAULT_ELIGIBILITY\<lparr>el_include_prerelease := True\<rparr>"

section \<open>Resolution results\<close>

datatype ResolutionStrategy = EXPLICIT | HIGHEST_STABLE | HIGHEST_ANY

fun strategy_value :: "ResolutionStrategy \<Rightarrow> string" where
  "strategy_value EXPLICIT = ''explicit''"
| "strategy_value HIGHEST_STABLE = ''highest_stable''"
| "strategy_value HIGHEST_ANY = ''highest_any''"

record ResolutionResult =
  rr_success :: bool
  rr_descriptor :: "ModelVersionDescriptor option"
  rr_error :: "ModelError option"
  rr_strategy :: "ResolutionStrategy option"
  rr_model_id :: string
  rr_requested_version :: "string option"
  rr_resolved_version :: "string option"
  rr_candidates_considered :: nat
  rr_candidates_eligible :: nat

definition resolved ::
  "ModelVersionDescriptor \<Rightarrow> ResolutionStrategy \<Rightarrow> string option \<Rightarrow> nat \<Rightarrow> nat \<Rightarrow> ResolutionResult" where
  "resolved d strategy requested_version considered eligible =
     \<lparr>rr_success = True, rr_descriptor = Some d, rr_error = None, rr_strategy = Some strategy,
      rr_model_id = vd_model_id d, rr_requested_version = requested_version,
      rr_resolved_version = Some (vd_version d), rr_candidates_considered = considered,
      rr_candidates_eligible = eligible\<rparr>"

definition failed :: "ModelError \<Rightarrow> string \<Rightarrow> string option \<Rightarrow> nat \<Rightarrow> ResolutionResult" where
  "failed error model_id requested_version considered =
     \<lparr>rr_success = False, rr_descriptor = None, rr_error = Some error, rr_strategy = None,
      rr_model_id = model_id, rr_requested_version = requested_version, rr_resolved_version = None,
      rr_candidates_considered = considered, rr_candidates_eligible = 0\<rparr>"

definition resolution_to_dict :: "ResolutionResult \<Rightarrow> (string, jval) dict" where
  "resolution_to_dict rr =
     (let result =
        [(''success'', JBool (rr_success rr)), (''model_id'', JStr (rr_model_id rr)),
         (''requested_version'', jopt JStr (rr_requested_version rr)),
         (''resolved_version'', jopt JStr (rr_resolved_version rr)),
         (''strategy'', jopt (JStr \<circ> strategy_value) (rr_strategy rr)),
         (''candidates_considered'', JInt (int (rr_candidates_considered rr))),
         (''candidates_eligible'', JInt (int (rr_candidates_eligible rr)))]
      in dput_if (rr_error rr \<noteq> None) ''error_code''
           (jopt (JStr \<circ> error_value \<circ> err_code) (rr_error rr)) result)"

section \<open>The resolver\<close>

definition resolve_explicit ::
  "real \<Rightarrow> ModelDescriptor \<Rightarrow> string \<Rightarrow> EligibilityConfig \<Rightarrow> string option \<Rightarrow> ResolutionResult" where
  "resolve_explicit now md version el request_id =
     (let model_id = md_model_id md;
          name = model_id @ '':'' @ version
      in case md_get_version md version of
           None \<Rightarrow>
             failed (pipeline_error now PIPE_VERSION_NOT_FOUND (''Version not found: '' @ name)
                 (Some model_id) (Some version) request_id
                 [(''available_versions'', JStrs (dkeys (md_versions md)))])
               model_id (Some version) (length (md_versions md))
         | Some d \<Rightarrow>
             (if vd_state d \<noteq> el_required_state el then
                failed (pipeline_error now PIPE_VERSION_NOT_READY
                    (''Version '' @ name @ '' is not ready (state: '' @ state_value (vd_state d) @ '')'')
                    (Some model_id) (Some version) request_id
                    [(''current_state'', JStr (state_value (vd_state d))),
                     (''required_state'', JStr (state_value (el_required_state el)))])
                  model_id (Some version) 1
              else if vd_health d \<notin> set (el_acceptable_health el) then
                failed (pipeline_error now PIPE_VERSION_UNHEALTHY
                    (''Version '' @ name @ '' is unhealthy (health: '' @ health_value (vd_health d) @ '')'')
                    (Some model_id) (Some version) request_id
                    [(''current_health'', JStr (health_value (vd_health d))),
                     (''acceptable_health'', JStrs (map health_value (el_acceptable_health el)))])
                  model_id (Some version) 1
              else resolved d EXPLICIT (Some version) 1 1))"

definition eligible_pairs ::
  "EligibilityConfig \<Rightarrow> ModelDescriptor \<Rightarrow> (SemVer \<times> ModelVersionDescriptor) list" where
  "eligible_pairs el md =
     concat (map (\<lambda>(version_str, d).
       case parse_semver version_str of
         None \<Rightarrow> []
       | Some semver \<Rightarrow> if is_eligible el d then [(semver, d)] else []) (md_versions md))"

text \<open>\<open>str\<close> of a set of strings without quotes in them.\<close>

definition set_str :: "string list \<Rightarrow> string" where
  "set_str xs = ''{'' @ py_join '', '' (map (\<lambda>x. [CHR 39] @ x @ [CHR 39]) xs) @ ''}''"

definition resolve_automatic ::
  "(string list \<Rightarrow> string list) \<Rightarrow> real \<Rightarrow> ModelDescriptor \<Rightarrow> EligibilityConfig \<Rightarrow> string option \<Rightarrow>
   ResolutionResult" where
  "resolve_automatic order now md el request_id =
     (let model_id = md_model_id md; versions = md_versions md
      in if versions = [] then
           failed (pipeline_error now PIPE_NO_ELIGIBLE_VERSION
               (''No versions available for model: '' @ model_id) (Some model_id) None request_id [])
             model_id None 0
         else
           (let eligible = eligible_pairs el md
            in if eligible = [] then
                 (let states = order (remdups (map (state_value \<circ> vd_state) (dvals versions)));
                      healths = order (remdups (map (health_value \<circ> vd_health) (dvals versions)))
                  in failed (pipeline_error now PIPE_NO_ELIGIBLE_VERSION
                        (''No eligible versions for model: '' @ model_id @ ''. Available states: '' @
                         set_str states @ '', healths: '' @ set_str healths)
                        (Some model_id) None request_id
                        [(''available_versions'', JStrs (dkeys versions)),
                         (''available_states'', JStrs states),
                         (''available_healths'', JStrs healths),
                         (''required_state'', JStr (state_value (el_required_state el))),
                         (''acceptable_health'', JStrs (map health_value (el_acceptable_health el))),
                         (''include_prerelease'', JBool (el_include_prerelease el))])
                      model_id None (length versions))
               else
                 (let best = snd (hd (sort_desc pair_lt eligible));
                      strategy = (if el_include_prerelease el then HIGHEST_ANY else HIGHEST_STABLE)
                  in resolved best strategy None (length versions) (length eligible))))"

definition resolve ::
  "(string list \<Rightarrow> string list) \<Rightarrow> real \<Rightarrow> ModelRegistry \<Rightarrow> EligibilityConfig \<Rightarrow> string \<Rightarrow>
   string option \<Rightarrow> EligibilityConfig option \<Rightarrow> string option \<Rightarrow> ResolutionResult" where
  "resolve order now r default_eligibility model_id version eligibility request_id =
     (let el = (case eligibility of None \<Rightarrow> default_eligibility | Some e \<Rightarrow> e)
      in case get_model r model_id of
           None \<Rightarrow>
             failed (pipeline_error now PIPE_MODEL_NOT_FOUND (''Model not found: '' @ model_id)
                 (Some model_id) None request_id []) model_id version 0
         | Some md \<Rightarrow>
             (if truthy_str version then resolve_explicit now md (the version) el request_id
              else resolve_automatic order now md el request_id))"

definition get_eligible_versions ::
  "ModelRegistry \<Rightarrow> EligibilityConfig \<Rightarrow> string \<Rightarrow> EligibilityConfig option \<Rightarrow>
   ModelVersionDescriptor list" where
  "get_eligible_versions r default_eligibility model_id eligibility =
     (let el = (case eligibility of None \<Rightarrow> default_eligibility | Some e \<Rightarrow> e)
      in case get_model r model_id of
           None \<Rightarrow> []
         | Some md \<Rightarrow> map snd (sort_desc pair_lt (eligible_pairs el md)))"

definition get_version_status ::
  "ModelRegistry \<Rightarrow> string \<Rightarrow> string \<Rightarrow> (string, jval) dict option" where
  "get_version_status r model_id version =
     (case get_model r model_id of
        None \<Rightarrow> None
      | Some md \<Rightarrow>
          (case md_get_version md version of
             None \<Rightarrow> None
           | Some d \<Rightarrow> Some
               [(''model_id'', JStr model_id), (''version'', JStr version),
                (''state'', JStr (state_value (vd_state d))),
                (''health'', JStr (health_value (vd_health d))),
                (''is_prerelease'', jopt (JBool \<circ> is_prerelease) (parse_semver version)),
                (''is_eligible_default'', JBool (is_eligible DEFAULT_ELIGIBILITY d)),
                (''is_eligible_strict'', JBool (is_eligible STRICT_ELIGIBILITY d)),
                (''last_state_change'', JTime (vd_last_state_change d)),
                (''inference_count'', JInt (vd_inference_count d)),
                (''error_count'', JInt (vd_error_count d))]))"

section \<open>Life cycle\<close>

definition mark_ready ::
  "(nat \<Rightarrow> real) \<Rightarrow> string \<Rightarrow> string \<Rightarrow> int option \<Rightarrow> ModelRegistry \<Rightarrow> bool \<times> ModelRegistry" where
  "mark_ready utc model_id version load_time_ms r =
     (case get_version r model_id version of
        None \<Rightarrow> (False, r)
      | Some d \<Rightarrow>
          (if vd_state d \<noteq> LOADING then (False, r)
           else (let (success, r1) = update_state utc model_id version READY None None r
                 in if success \<and> load_time_ms \<noteq> None
                    then (success, put_version model_id version
                       ((the (get_version r1 model_id version))\<lparr>vd_load_time_ms := load_time_ms\<rparr>) r1)
                    else (success, r1))))"

definition mark_failed ::
  "(nat \<Rightarrow> real) \<Rightarrow> string \<Rightarrow> string \<Rightarrow> string \<Rightarrow> string option \<Rightarrow> ModelRegistry \<Rightarrow> bool \<times> ModelRegistry" where
  "mark_failed utc model_id version error error_code r =
     update_state utc model_id version FAILED (Some error) error_code r"

definition mark_unloading ::
  "(nat \<Rightarrow> real) \<Rightarrow> string \<Rightarrow> string \<Rightarrow> ModelRegistry \<Rightarrow> bool \<times> ModelRegistry" where
  "mark_unloading utc model_id version r =
     (case get_version r model_id version of
        None \<Rightarrow> (False, r)
      | Some d \<Rightarrow>
          (if vd_state d \<notin> {READY, ERROR, FAILED} then (False, r)
           else update_state utc model_id version UNLOADING None None r))"

definition mark_unloaded ::
  "(nat \<Rightarrow> real) \<Rightarrow> string \<Rightarrow> string \<Rightarrow> ModelRegistry \<Rightarrow> bool \<times> ModelRegistry" where
  "mark_unloaded utc model_id version r = update_state utc model_id version UNLOADED None None r"

definition mark_disabled ::
  "(nat \<Rightarrow> real) \<Rightarrow> string \<Rightarrow> string \<Rightarrow> string \<Rightarrow> ModelRegistry \<Rightarrow> bool \<times> ModelRegistry" where
  "mark_disabled utc model_id version reason r =
     update_state utc model_id version DISABLED (Some (''Disabled: '' @ reason)) None r"

definition mark_error ::
  "(nat \<Rightarrow> real) \<Rightarrow> string \<Rightarrow> string \<Rightarrow> string \<Rightarrow> string option \<Rightarrow> ModelRegistry \<Rightarrow> bool \<times> ModelRegistry" where
  "mark_error utc model_id version error error_code r =
     update_state utc model_id version ERROR (Some error) error_code r"

definition can_reload :: "ModelRegistry \<Rightarrow> string \<Rightarrow> string \<Rightarrow> bool" where
  "can_reload r model_id version =
     (case get_version r model_id version of
        None \<Rightarrow> False | Some d \<Rightarrow> vd_state d \<in> {FAILED, ERROR, UNLOADED})"

definition prepare_reload ::
  "(nat \<Rightarrow> real) \<Rightarrow> string \<Rightarrow> string \<Rightarrow> ModelRegistry \<Rightarrow> bool \<times> ModelRegistry" where
  "prepare_reload utc model_id version r =
     (if \<not> can_reload r model_id version then (False, r)
      else update_state utc model_id version DISCOVERED None None r)"

section \<open>Lemmas\<close>

lemma get_version_get_model:
  "get_version r i v = (case get_model r i of None \<Rightarrow> None | Some md \<Rightarrow> md_get_version md v)"
  by (simp add: get_version_def get_model_def)

lemma resolved_simps [simp]:
  "rr_success (resolved d s q n m)" "rr_descriptor (resolved d s q n m) = Some d"
  "rr_error (resolved d s q n m) = None" "rr_strategy (resolved d s q n m) = Some s"
  "rr_resolved_version (resolved d s q n m) = Some (vd_version d)"
  by (simp_all add: resolved_def)

lemma failed_simps [simp]:
  "\<not> rr_success (failed e i q n)" "rr_descriptor (failed e i q n) = None"
  "rr_error (failed e i q n) = Some e" "rr_resolved_version (failed e i q n) = None"
  by (simp_all add: failed_def)

lemma set_eligible_pairs:
  assumes "registry_wf r" and "get_model r i = Some md"
  shows "(a, d) \<in> set (eligible_pairs el md) \<longleftrightarrow>
    (\<exists>v. get_version r i v = Some d \<and> parse_semver v = Some a \<and> is_eligible el d)"
proof -
  have "dict_wf (md_versions md)" using assms by (auto simp: registry_wf_def get_model_def)
  then have "get_version r i v = Some d \<longleftrightarrow> (v, d) \<in> set (md_versions md)" for v
    using assms(2) by (simp add: get_version_get_model md_get_version_def dget_Some_iff)
  then show ?thesis by (force simp: eligible_pairs_def split: option.splits)
qed

definition selectable :: "EligibilityConfig \<Rightarrow> ModelRegistry \<Rightarrow> string \<Rightarrow> string \<Rightarrow> bool" where
  "selectable el r i v =
     (case get_version r i v of
        None \<Rightarrow> False | Some d \<Rightarrow> is_eligible el d \<and> parse_semver v \<noteq> None)"

lemma selectable_iff:
  "selectable el r i v \<longleftrightarrow>
     (\<exists>d. get_version r i v = Some d \<and> is_eligible el d \<and> parse_semver v \<noteq> None)"
  by (simp add: selectable_def split: option.split)

lemma eligible_pairs_empty:
  assumes "registry_wf r" and "get_model r i = Some md"
  shows "eligible_pairs el md = [] \<longleftrightarrow> (\<forall>v. \<not> selectable el r i v)"
proof -
  have "eligible_pairs el md = [] \<longleftrightarrow> (\<forall>a d. (a, d) \<notin> set (eligible_pairs el md))"
    by (cases "eligible_pairs el md") auto
  then show ?thesis
    by (auto simp: set_eligible_pairs [OF assms] selectable_iff) (metis not_None_eq)
qed

lemma resolve_automatic_cases:
  assumes wf: "registry_wf r" and md: "get_model r i = Some md"
  shows "case rr_descriptor (resolve_automatic order now md el q) of
      None \<Rightarrow> (\<forall>v. \<not> selectable el r i v) \<and>
        map_option err_code (rr_error (resolve_automatic order now md el q)) =
          Some PIPE_NO_ELIGIBLE_VERSION
    | Some d \<Rightarrow> get_version r i (vd_version d) = Some d \<and> selectable el r i (vd_version d) \<and>
        rr_resolved_version (resolve_automatic order now md el q) = Some (vd_version d) \<and>
        (\<forall>v a b. selectable el r i v \<and> parse_semver v = Some a \<and>
           parse_semver (vd_version d) = Some b \<longrightarrow> \<not> semver_lt b a)"
proof (cases "eligible_pairs el md = []")
  case True
  with eligible_pairs_empty [OF assms, of el] show ?thesis
    by (simp add: resolve_automatic_def Let_def)
next
  case False
  obtain a d where h: "hd (sort_desc pair_lt (eligible_pairs el md)) = (a, d)" by fastforce
  from semver_pair.hd_sort_desc [OF False]
  have m: "(a, d) \<in> set (eligible_pairs el md)"
    and best: "\<And>x. x \<in> set (eligible_pairs el md) \<Longrightarrow> \<not> pair_lt (a, d) x" by (simp_all add: h)
  from m obtain v where v: "get_version r i v = Some d" "parse_semver v = Some a" "is_eligible el d"
    unfolding set_eligible_pairs [OF assms] by blast
  then have vv: "vd_version d = v" using registry_wf_get [OF wf] by blast
  have ne: "md_versions md \<noteq> []" using False by (auto simp: eligible_pairs_def)
  have "\<not> semver_lt a b" if "selectable el r i w" "parse_semver w = Some b" for w b
    using best that set_eligible_pairs [OF assms, of b _ el]
    unfolding selectable_iff pair_lt_def by fastforce
  moreover have "resolve_automatic order now md el q = resolved d
      (if el_include_prerelease el then HIGHEST_ANY else HIGHEST_STABLE) None
      (length (md_versions md)) (length (eligible_pairs el md))"
    using ne False by (simp add: resolve_automatic_def Let_def h)
  ultimately show ?thesis
    using v by (auto simp: vv selectable_iff)
qed

lemma valid_version_str:
  assumes "is_valid_version v" and "chomp v = v" and "parse_semver v = Some a"
  shows "sv_build a = [] \<and> semver_str a = v"
proof -
  have "CHR ''+'' \<notin> set v"
  proof -
    obtain core pre where s: "py_split1 CHR ''-'' v = (core, pre)" by fastforce
    have al: "is_alnum c \<Longrightarrow> c \<noteq> CHR ''+''" for c
      by (auto simp: is_alnum_def is_digit_def is_lower_def is_upper_def)
    have "valid_core core"
      using assms(1,2) s by (simp add: is_valid_version_def split: option.splits)
    then obtain i j k where ijk: "py_split CHR ''.'' core = [i, j, k]"
      "numeric_ident i" "numeric_ident j" "numeric_ident k"
      by (auto simp: valid_core_def split: list.splits)
    then have c: "CHR ''+'' \<notin> set core"
      using py_join_split [of "CHR ''.''" core] numeric_ident_chars digit_misc(2) by fastforce
    have p: "CHR ''+'' \<notin> set p" if "pre = Some p" for p
    proof -
      have "list_all (\<lambda>w. w \<noteq> [] \<and> list_all is_alnum w) (py_split CHR ''.'' p)"
        using assms(1,2) s that by (simp add: is_valid_version_def)
      then have "\<forall>w\<in>set (py_split CHR ''.'' p). CHR ''+'' \<notin> set w"
        using al by (auto simp: list_all_iff)
      then show ?thesis
        using set_py_join [of "''.''" "py_split CHR ''.'' p"] by (auto simp: py_join_split)
    qed
    show ?thesis
      using py_split1_cases [of v "CHR ''-''"] c p by (auto simp: s split: option.splits)
  qed
  then have "sv_build a = []"
    using assms(3) by (auto simp: parse_semver_def assms(2) py_split1_absent Let_def
        split: prod.splits list.splits if_splits)
  then show ?thesis using print_parse [OF assms(3)] assms(2) by simp
qed

lemma valid_versions_distinct:
  assumes "is_valid_version v" "chomp v = v" "parse_semver v = Some a"
    and "is_valid_version w" "chomp w = w" "parse_semver w = Some b" and "semver_eq a b"
  shows "v = w"
proof -
  have "semver_str a = semver_str b"
    using assms(7) valid_version_str [OF assms(1-3)] valid_version_str [OF assms(4-6)]
    unfolding semver_str_text by (auto simp: semver_eq_def)
  then show ?thesis
    using valid_version_str [OF assms(1-3)] valid_version_str [OF assms(4-6)] by simp
qed

section \<open>Properties\<close>

definition effective :: "EligibilityConfig \<Rightarrow> EligibilityConfig option \<Rightarrow> EligibilityConfig" where
  "effective default_eligibility eligibility =
     (case eligibility of None \<Rightarrow> default_eligibility | Some e \<Rightarrow> e)"

lemma resolve_unfold:
  "resolve order now r dflt i version eligibility q =
     (case get_model r i of
        None \<Rightarrow> failed (pipeline_error now PIPE_MODEL_NOT_FOUND (''Model not found: '' @ i)
                  (Some i) None q []) i version 0
      | Some md \<Rightarrow> (if truthy_str version then resolve_explicit now md (the version) (effective dflt eligibility) q
                  else resolve_automatic order now md (effective dflt eligibility) q))"
  by (simp add: resolve_def effective_def Let_def split: option.split)

text \<open>
  C4. When no version is asked for and resolution succeeds, the resolved version is registered,
  eligible, and no registered eligible version is higher in the order of semantic versions.
\<close>

theorem resolve_highest_eligible:
  assumes "registry_wf r" and "\<not> truthy_str version"
    and "rr_success (resolve order now r dflt i version eligibility q)"
  shows "\<exists>d. rr_descriptor (resolve order now r dflt i version eligibility q) = Some d \<and>
    get_version r i (vd_version d) = Some d \<and> is_eligible (effective dflt eligibility) d \<and>
    (\<forall>v e. get_version r i v = Some e \<and> is_eligible (effective dflt eligibility) e \<and>
       parse_semver v \<noteq> None \<longrightarrow> compare_versions (vd_version d) v \<in> {Inr 0, Inr 1})"
proof -
  let ?el = "effective dflt eligibility"
  from assms(3) obtain md where md: "get_model r i = Some md"
    by (auto simp: resolve_unfold split: option.splits)
  then have e: "resolve order now r dflt i version eligibility q = resolve_automatic order now md ?el q"
    using assms(2) by (simp add: resolve_unfold)
  obtain d where d: "rr_descriptor (resolve_automatic order now md ?el q) = Some d"
    using assms(3) unfolding e
    by (auto simp: resolve_automatic_def Let_def split: if_splits)
  from resolve_automatic_cases [OF assms(1) md, of ?el order now q] d
  have g: "get_version r i (vd_version d) = Some d" and s: "selectable ?el r i (vd_version d)"
    and best: "\<And>v a b. selectable ?el r i v \<Longrightarrow> parse_semver v = Some a \<Longrightarrow>
      parse_semver (vd_version d) = Some b \<Longrightarrow> \<not> semver_lt b a"
    by simp_all
  from s obtain b where b: "parse_semver (vd_version d) = Some b" and el: "is_eligible ?el d"
    using g by (auto simp: selectable_iff)
  have "compare_versions (vd_version d) v \<in> {Inr 0, Inr 1}"
    if "get_version r i v = Some x" "is_eligible ?el x" "parse_semver v = Some a" for v x a
    using best [of v a b] that b by (simp add: selectable_iff compare_versions_def)
  with d g el show ?thesis unfolding e by blast
qed

definition two_versions :: "string list \<Rightarrow> ModelRegistry" where
  "two_versions vs =
     foldl (\<lambda>r v. register_version (\<lambda>_. 0)
              ((new_descriptor 0 ''fall'' v [])\<lparr>vd_state := READY, vd_health := HEALTHY\<rparr>) r)
       new_registry vs"

lemma two_versions_wf: "registry_wf (two_versions vs)"
proof -
  have "registry_wf r \<Longrightarrow> registry_wf (foldl (\<lambda>r v. register_version (\<lambda>_. 0)
      ((new_descriptor 0 ''fall'' v [])\<lparr>vd_state := READY, vd_health := HEALTHY\<rparr>) r) r vs)" for r
    by (induction vs arbitrary: r) (simp_all add: registry_wf_register_version)
  then show ?thesis by (simp add: two_versions_def registry_wf_new)
qed

theorem resolve_highest_eligible_witness:
  "\<exists>d. rr_descriptor (resolve id 0 (two_versions [''1.9.0'', ''1.10.0'']) DEFAULT_ELIGIBILITY ''fall''
     None None None) = Some d \<and> compare_versions (vd_version d) ''1.10.0'' \<in> {Inr 0, Inr 1}"
proof -
  have s: "rr_success (resolve id 0 (two_versions [''1.9.0'', ''1.10.0'']) DEFAULT_ELIGIBILITY ''fall''
     None None None)" by code_simp
  have "\<exists>e. get_version (two_versions [''1.9.0'', ''1.10.0'']) ''fall'' ''1.10.0'' = Some e \<and>
      is_eligible (effective DEFAULT_ELIGIBILITY None) e"
    by (simp add: two_versions_def get_version_register_version new_descriptor_def) code_simp
  moreover have "parse_semver ''1.10.0'' \<noteq> None" by code_simp
  ultimately show ?thesis
    using resolve_highest_eligible [OF two_versions_wf _ s] by (fastforce simp: truthy_str_def)
qed

definition expected_code :: "EligibilityConfig \<Rightarrow> ModelRegistry \<Rightarrow> string \<Rightarrow> string option \<Rightarrow> ErrorCode option" where
  "expected_code el r i version =
     (if get_model r i = None then Some PIPE_MODEL_NOT_FOUND
      else if truthy_str version then
        (case get_version r i (the version) of
           None \<Rightarrow> Some PIPE_VERSION_NOT_FOUND
         | Some d \<Rightarrow> if vd_state d \<noteq> el_required_state el then Some PIPE_VERSION_NOT_READY
                    else if vd_health d \<notin> set (el_acceptable_health el) then Some PIPE_VERSION_UNHEALTHY
                    else None)
      else if \<exists>v\<in>set (dkeys (md_versions (the (get_model r i)))). selectable el r i v then None
      else Some PIPE_NO_ELIGIBLE_VERSION)"

lemma selectable_dom:
  "get_model r i = Some md \<Longrightarrow> selectable el r i v \<Longrightarrow> v \<in> set (dkeys (md_versions md))"
  by (auto simp: selectable_iff get_version_get_model md_get_version_def dest: map_of_SomeD
      intro: rev_image_eqI)

lemma resolve_code:
  assumes "registry_wf r"
  shows "map_option err_code (rr_error (resolve order now r dflt i version eligibility q)) =
      expected_code (effective dflt eligibility) r i version \<and>
    (rr_success (resolve order now r dflt i version eligibility q) \<longleftrightarrow>
      expected_code (effective dflt eligibility) r i version = None)"
proof (cases "get_model r i")
  case None
  then show ?thesis by (simp add: resolve_unfold expected_code_def)
next
  case (Some md)
  let ?el = "effective dflt eligibility"
  show ?thesis
  proof (cases "truthy_str version")
    case True
    with Some show ?thesis
      by (simp add: resolve_unfold expected_code_def resolve_explicit_def Let_def
          get_version_get_model split: option.split)
  next
    case False
    have "(\<exists>v\<in>set (dkeys (md_versions md)). selectable ?el r i v) \<longleftrightarrow> (\<exists>v. selectable ?el r i v)"
      using selectable_dom [OF Some] by blast
    moreover have "eligible_pairs ?el md \<noteq> [] \<Longrightarrow> md_versions md \<noteq> []"
      by (auto simp: eligible_pairs_def)
    ultimately show ?thesis
      using Some False eligible_pairs_empty [OF assms Some, of ?el]
      by (auto simp: resolve_unfold expected_code_def resolve_automatic_def Let_def)
  qed
qed

text \<open>
  Every outcome of \<open>resolve\<close> is determined by the registry: an unknown model, an unknown
  version, a version in the wrong state, an unhealthy version and the absence of an eligible version
  each give their own code, and nothing else fails. An explicit version is checked for its state and
  its health only: pre-release and range constraints do not apply to it.
\<close>

theorem resolve_classified:
  assumes "registry_wf r"
  shows "map_option err_code (rr_error (resolve order now r dflt i version eligibility q)) =
      expected_code (effective dflt eligibility) r i version \<and>
    (rr_success (resolve order now r dflt i version eligibility q) \<longleftrightarrow>
      expected_code (effective dflt eligibility) r i version = None)"
  by (rule resolve_code [OF assms])

theorem resolve_classified_witness:
  "rr_success (resolve id 0 (two_versions [''2.0.0-rc.1'']) DEFAULT_ELIGIBILITY ''fall''
     (Some ''2.0.0-rc.1'') None None) \<and>
   \<not> rr_success (resolve id 0 (two_versions [''2.0.0-rc.1'']) DEFAULT_ELIGIBILITY ''fall''
     None None None)"
proof -
  have "expected_code (effective DEFAULT_ELIGIBILITY None) (two_versions [''2.0.0-rc.1'']) ''fall''
      (Some ''2.0.0-rc.1'') = None"
    by code_simp
  moreover have "expected_code (effective DEFAULT_ELIGIBILITY None) (two_versions [''2.0.0-rc.1''])
      ''fall'' None \<noteq> None"
    by code_simp
  ultimately show ?thesis
    by (simp add: resolve_classified [OF two_versions_wf])
qed

text \<open>
  The order in which versions were registered does not influence automatic resolution, when every
  registered version string passes the pattern of \<open>is_valid_version\<close> (which admits no build part)
  and ends in no newline: two registries with the same lookups resolve to the same descriptor.
\<close>

theorem resolve_order_independent:
  assumes wf: "registry_wf r" "registry_wf t"
    and same: "\<And>v. get_version r i v = get_version t i v"
    and valid: "\<And>v. get_version r i v \<noteq> None \<Longrightarrow> is_valid_version v \<and> chomp v = v"
    and auto: "\<not> truthy_str version"
    and models: "get_model r i \<noteq> None" "get_model t i \<noteq> None"
  shows "rr_descriptor (resolve ord now r dflt i version eligibility q) =
    rr_descriptor (resolve ord now t dflt i version eligibility q)"
proof -
  let ?el = "effective dflt eligibility"
  have sel: "selectable ?el r i = selectable ?el t i"
    by (simp add: fun_eq_iff selectable_def same)
  obtain m n where m: "get_model r i = Some m" and n: "get_model t i = Some n"
    using models by auto
  let ?d = "rr_descriptor (resolve_automatic ord now m ?el q)"
  let ?e = "rr_descriptor (resolve_automatic ord now n ?el q)"
  note R = resolve_automatic_cases [OF wf(1) m, of ?el ord now q]
  note T = resolve_automatic_cases [OF wf(2) n, of ?el ord now q]
  have "?d = ?e"
  proof (cases "?d")
    case None
    with R have "\<forall>v. \<not> selectable ?el t i v" by (simp add: sel)
    with T None show ?thesis by (cases ?e) auto
  next
    case (Some d)
    with R have d: "selectable ?el r i (vd_version d)" "get_version r i (vd_version d) = Some d"
      by simp_all
    with T obtain e where e: "?e = Some e" by (cases ?e) (auto simp: sel)
    with T have e': "selectable ?el t i (vd_version e)" "get_version t i (vd_version e) = Some e"
      by simp_all
    from d e' obtain a b where ab: "parse_semver (vd_version d) = Some a"
      "parse_semver (vd_version e) = Some b"
      by (auto simp: selectable_iff)
    have "\<not> semver_lt a b" using R Some e'(1) ab by (simp add: sel)
    moreover have "\<not> semver_lt b a" using T e d(1) ab by (simp add: sel)
    ultimately have "semver_eq a b"
      using semver.trichotomy [of a b] ab parse_semver_wf by blast
    then have "vd_version d = vd_version e"
      using valid_versions_distinct [OF _ _ ab(1) _ _ ab(2)] valid [of "vd_version d"]
        valid [of "vd_version e"] d(2) e'(2) same by simp
    then have "Some d = Some e" using d(2) e'(2) same [of "vd_version d"] by metis
    then show ?thesis unfolding Some e .
  qed
  then show ?thesis using auto by (simp add: resolve_unfold m n)
qed

lemma get_version_new: "get_version new_registry i v = None"
  by (simp add: new_registry_def get_version_def)

lemma two_versions_swap:
  "get_version (two_versions [''1.9.0'', ''1.10.0'']) ''fall'' v =
   get_version (two_versions [''1.10.0'', ''1.9.0'']) ''fall'' v"
  by (simp add: two_versions_def get_version_register_version new_descriptor_def)

theorem resolve_order_independent_witness:
  "rr_descriptor (resolve id 0 (two_versions [''1.9.0'', ''1.10.0'']) DEFAULT_ELIGIBILITY ''fall''
     None None None) =
   rr_descriptor (resolve id 0 (two_versions [''1.10.0'', ''1.9.0'']) DEFAULT_ELIGIBILITY ''fall''
     None None None)"
proof (rule resolve_order_independent [OF two_versions_wf two_versions_wf two_versions_swap])
  fix v
  assume "get_version (two_versions [''1.9.0'', ''1.10.0'']) ''fall'' v \<noteq> None"
  then have "v = ''1.9.0'' \<or> v = ''1.10.0''"
    by (auto simp: two_versions_def get_version_register_version new_descriptor_def get_version_new
        split: if_splits)
  moreover have "is_valid_version ''1.9.0''" "is_valid_version ''1.10.0''" by code_simp+
  ultimately show "is_valid_version v \<and> chomp v = v" by (auto simp: chomp_def)
next
  show "get_model (two_versions [''1.9.0'', ''1.10.0'']) ''fall'' \<noteq> None"
    "get_model (two_versions [''1.10.0'', ''1.9.0'']) ''fall'' \<noteq> None"
    by code_simp+
qed (simp add: truthy_str_def)

text \<open>
  With build metadata in the version strings the promise \<open>Resolution does NOT depend on load
  order\<close> fails: two versions that differ only in their build part compare equal, and the one that
  was registered first is chosen.
\<close>

theorem build_metadata_load_order:
  "rr_resolved_version (resolve id 0 (two_versions [''1.0.0+a'', ''1.0.0+b'']) DEFAULT_ELIGIBILITY
     ''fall'' None None None) = Some ''1.0.0+a'' \<and>
   rr_resolved_version (resolve id 0 (two_versions [''1.0.0+b'', ''1.0.0+a'']) DEFAULT_ELIGIBILITY
     ''fall'' None None None) = Some ''1.0.0+b''"
  by (intro conjI; code_simp)

lemma eligible_versions_unfold:
  "get_model r i = Some md \<Longrightarrow> get_eligible_versions r dflt i eligibility =
     map snd (sort_desc pair_lt (eligible_pairs (effective dflt eligibility) md))"
  by (simp add: get_eligible_versions_def effective_def Let_def split: option.split)

lemma eligible_pairs_parse:
  assumes "registry_wf r" and "get_model r i = Some md" and "(a, d) \<in> set (eligible_pairs el md)"
  shows "parse_semver (vd_version d) = Some a"
  using assms registry_wf_get [OF assms(1)] set_eligible_pairs [OF assms(1,2)] by fastforce

lemma distinct_eligible_pairs:
  "distinct (map fst m) \<Longrightarrow> (\<And>v d. (v, d) \<in> set m \<Longrightarrow> vd_version d = v) \<Longrightarrow>
     distinct (map snd (concat (map (\<lambda>(v, d). case parse_semver v of None \<Rightarrow> []
       | Some s \<Rightarrow> if is_eligible el d then [(s, d)] else []) m)))"
proof (induction m)
  case Nil
  then show ?case by simp
next
  case (Cons p m)
  obtain v d where p: "p = (v, d)" by fastforce
  have "vd_version e \<noteq> v" if "(w, e) \<in> set m" for w e
    using that Cons.prems unfolding p by (force intro: rev_image_eqI)
  then have "d \<notin> snd ` set (concat (map (\<lambda>(v, d). case parse_semver v of None \<Rightarrow> []
       | Some s \<Rightarrow> if is_eligible el d then [(s, d)] else []) m))"
    using Cons.prems(2) [of v d] by (auto simp: p split: option.splits if_splits) blast+
  with Cons show ?case by (auto simp: p split: option.split)
qed

lemma eligible_versions_set:
  assumes wf: "registry_wf r" and md: "get_model r i = Some md"
  shows "distinct (get_eligible_versions r dflt i eligibility)"
    and "d \<in> set (get_eligible_versions r dflt i eligibility) \<longleftrightarrow>
      get_version r i (vd_version d) = Some d \<and>
      selectable (effective dflt eligibility) r i (vd_version d)"
proof -
  let ?el = "effective dflt eligibility"
  let ?ps = "eligible_pairs ?el md"
  let ?es = "get_eligible_versions r dflt i eligibility"
  have es: "?es = map snd (sort_desc pair_lt ?ps)"
    by (rule eligible_versions_unfold [OF md])
  have "mset ?es = mset (map snd ?ps)"
    unfolding es mset_map semver_pair.mset_sort_desc ..
  moreover have "distinct (map snd ?ps)"
    using wf md dget_Some_iff unfolding eligible_pairs_def
    by (intro distinct_eligible_pairs) (auto simp: registry_wf_def dict_wf_def get_model_def)
  ultimately show "distinct ?es" by (metis mset_eq_imp_distinct_iff)
  have in_es: "d \<in> set ?es \<longleftrightarrow> (\<exists>a. (a, d) \<in> set ?ps)"
    unfolding es by (force simp: semver_pair.set_sort_desc)
  show "d \<in> set ?es \<longleftrightarrow> get_version r i (vd_version d) = Some d \<and> selectable ?el r i (vd_version d)"
  proof
    assume "d \<in> set ?es"
    then obtain a v where v: "get_version r i v = Some d" "parse_semver v = Some a" "is_eligible ?el d"
      unfolding in_es set_eligible_pairs [OF wf md] by metis
    moreover from v have "vd_version d = v" using registry_wf_get [OF wf] by metis
    ultimately show "get_version r i (vd_version d) = Some d \<and> selectable ?el r i (vd_version d)"
      by (simp add: selectable_iff)
  next
    assume "get_version r i (vd_version d) = Some d \<and> selectable ?el r i (vd_version d)"
    then show "d \<in> set ?es"
      unfolding in_es set_eligible_pairs [OF wf md] selectable_iff by force
  qed
qed

lemma eligible_versions_sorted:
  assumes wf: "registry_wf r" and md: "get_model r i = Some md"
  shows "sorted_wrt (\<lambda>d e. compare_versions (vd_version d) (vd_version e) \<in> {Inr 0, Inr 1})
    (get_eligible_versions r dflt i eligibility)"
proof -
  let ?ps = "eligible_pairs (effective dflt eligibility) md"
  have "sorted_wrt (\<lambda>x y. compare_versions (vd_version (snd x)) (vd_version (snd y)) \<in> {Inr 0, Inr 1})
      (sort_desc pair_lt ?ps)"
  proof (rule sorted_wrt_mono_rel [OF _ semver_pair.sorted_sort_desc])
    fix x y
    assume xy: "x \<in> set (sort_desc pair_lt ?ps)" "y \<in> set (sort_desc pair_lt ?ps)"
      "semver_key (fst y) \<le> semver_key (fst x)"
    then have "parse_semver (vd_version (snd x)) = Some (fst x)"
      "parse_semver (vd_version (snd y)) = Some (fst y)"
      using eligible_pairs_parse [OF wf md] by (simp_all add: semver_pair.set_sort_desc)
    with xy(3) show "compare_versions (vd_version (snd x)) (vd_version (snd y)) \<in> {Inr 0, Inr 1}"
      by (simp add: compare_versions_def semver_lt_key)
  qed
  then show ?thesis by (simp add: eligible_versions_unfold [OF md] sorted_wrt_map)
qed

lemma resolve_takes_first:
  assumes md: "get_model r i = Some md" and "\<not> truthy_str version"
  shows "rr_descriptor (resolve order now r dflt i version eligibility q) =
    (case get_eligible_versions r dflt i eligibility of [] \<Rightarrow> None | d # ds \<Rightarrow> Some d)"
proof -
  let ?ps = "eligible_pairs (effective dflt eligibility) md"
  have ne: "sort_desc pair_lt ?ps = [] \<longleftrightarrow> ?ps = []"
    using semver_pair.set_sort_desc [of ?ps] by (metis set_empty)
  show ?thesis
  proof (cases "sort_desc pair_lt ?ps")
    case Nil
    with assms ne show ?thesis
      by (simp add: resolve_unfold resolve_automatic_def Let_def eligible_versions_unfold [OF md])
  next
    case (Cons x xs)
    with ne have "?ps \<noteq> []" "md_versions md \<noteq> []" by (auto simp: eligible_pairs_def)
    with assms Cons show ?thesis
      by (simp add: resolve_unfold resolve_automatic_def Let_def eligible_versions_unfold [OF md])
  qed
qed

text \<open>
  \<open>get_eligible_versions\<close> lists every registered eligible version whose string parses, exactly
  once, in an order in which no version is followed by a higher one, and automatic resolution takes
  its first element.
\<close>

theorem eligible_versions_listed:
  assumes wf: "registry_wf r"
  shows "distinct (get_eligible_versions r dflt i eligibility) \<and>
    (\<forall>d. d \<in> set (get_eligible_versions r dflt i eligibility) \<longleftrightarrow>
       get_version r i (vd_version d) = Some d \<and>
       selectable (effective dflt eligibility) r i (vd_version d)) \<and>
    sorted_wrt (\<lambda>d e. compare_versions (vd_version d) (vd_version e) \<in> {Inr 0, Inr 1})
      (get_eligible_versions r dflt i eligibility) \<and>
    (\<not> truthy_str version \<longrightarrow> rr_descriptor (resolve order now r dflt i version eligibility q) =
       (case get_eligible_versions r dflt i eligibility of [] \<Rightarrow> None | d # ds \<Rightarrow> Some d))"
proof (cases "get_model r i")
  case None
  then show ?thesis
    by (simp add: get_eligible_versions_def selectable_iff get_version_get_model resolve_unfold Let_def)
next
  case (Some md)
  then show ?thesis
    using eligible_versions_set [OF wf Some] eligible_versions_sorted [OF wf Some]
      resolve_takes_first [OF Some] by blast
qed

theorem eligible_versions_listed_witness:
  "distinct (get_eligible_versions (two_versions [''1.9.0'', ''1.10.0'']) DEFAULT_ELIGIBILITY ''fall'' None)"
  using eligible_versions_listed [OF two_versions_wf] by blast

section \<open>The table of life-cycle transitions\<close>

text \<open>
  What the life-cycle calls need from the registry: a state per key, and an update that succeeds
  exactly on known keys and touches no other key. \<open>'x\<close> is what else an update records.
\<close>

locale state_table =
  fixes state :: "'r \<Rightarrow> 'k \<Rightarrow> LoadState option"
    and set_state :: "'x \<Rightarrow> 'k \<Rightarrow> LoadState \<Rightarrow> 'r \<Rightarrow> bool \<times> 'r"
  assumes set_ok: "fst (set_state x k s r) \<longleftrightarrow> state r k \<noteq> None"
    and state_set: "state (snd (set_state x k s r)) j =
      (if j = k then map_option (\<lambda>_. s) (state r k) else state r j)"
    and set_unknown: "state r k = None \<Longrightarrow> snd (set_state x k s r) = r"
begin

lemma set_state_spec:
  "fst (set_state x k s r) = (state r k \<noteq> None) \<and>
   state (snd (set_state x k s r)) j = (if state r k \<noteq> None \<and> j = k then Some s else state r j) \<and>
   (state r k = None \<longrightarrow> snd (set_state x k s r) = r)"
  by (auto simp: set_ok state_set set_unknown)

lemma set_state_keeps:
  assumes "state r j \<notin> Some ` S" and "s \<notin> S"
  shows "state (snd (set_state x k s r)) j \<notin> Some ` S"
  using assms by (auto simp: state_set split: if_splits)

end

definition state_of :: "ModelRegistry \<Rightarrow> string \<times> string \<Rightarrow> LoadState option" where
  "state_of r k = map_option vd_state (get_version r (fst k) (snd k))"

definition set_state_of ::
  "(nat \<Rightarrow> real) \<times> string option \<times> string option \<Rightarrow> string \<times> string \<Rightarrow> LoadState \<Rightarrow>
   ModelRegistry \<Rightarrow> bool \<times> ModelRegistry" where
  "set_state_of x k s r =
     update_state (fst x) (fst k) (snd k) s (fst (snd x)) (snd (snd x)) r"

interpretation states: state_table state_of set_state_of
proof
  fix x k s r and j :: "string \<times> string"
  show "fst (set_state_of x k s r) \<longleftrightarrow> state_of r k \<noteq> None"
    by (simp add: set_state_of_def state_of_def update_state_success)
  show "state_of (snd (set_state_of x k s r)) j =
      (if j = k then map_option (\<lambda>_. s) (state_of r k) else state_of r j)"
    by (auto simp: set_state_of_def state_of_def get_version_update_state prod_eq_iff
        option.map_comp comp_def)
  show "state_of r k = None \<Longrightarrow> snd (set_state_of x k s r) = r"
    by (simp add: set_state_of_def state_of_def update_state_def)
qed

lemma update_state_of: "update_state utc i v s e c r = set_state_of (utc, e, c) (i, v) s r"
  by (simp add: set_state_of_def)

datatype lifecycle_call = MarkReady "int option" | MarkFailed string "string option"
  | MarkUnloading | MarkUnloaded | MarkDisabled string | MarkError string "string option"
  | PrepareReload

fun lifecycle ::
  "lifecycle_call \<Rightarrow> (nat \<Rightarrow> real) \<Rightarrow> string \<Rightarrow> string \<Rightarrow> ModelRegistry \<Rightarrow> bool \<times> ModelRegistry" where
  "lifecycle (MarkReady t) utc i v r = mark_ready utc i v t r"
| "lifecycle (MarkFailed e c) utc i v r = mark_failed utc i v e c r"
| "lifecycle MarkUnloading utc i v r = mark_unloading utc i v r"
| "lifecycle MarkUnloaded utc i v r = mark_unloaded utc i v r"
| "lifecycle (MarkDisabled reason) utc i v r = mark_disabled utc i v reason r"
| "lifecycle (MarkError e c) utc i v r = mark_error utc i v e c r"
| "lifecycle PrepareReload utc i v r = prepare_reload utc i v r"

fun allowed_from :: "lifecycle_call \<Rightarrow> LoadState set" where
  "allowed_from (MarkReady t) = {LOADING}"
| "allowed_from MarkUnloading = {READY, ERROR, FAILED}"
| "allowed_from PrepareReload = {FAILED, ERROR, UNLOADED}"
| "allowed_from c = UNIV"

fun target :: "lifecycle_call \<Rightarrow> LoadState" where
  "target (MarkReady t) = READY"
| "target (MarkFailed e c) = FAILED"
| "target MarkUnloading = UNLOADING"
| "target MarkUnloaded = UNLOADED"
| "target (MarkDisabled reason) = DISABLED"
| "target (MarkError e c) = ERROR"
| "target PrepareReload = DISCOVERED"

lemma state_of_put_same:
  assumes "get_version r i v = Some d" and "vd_state d' = vd_state d"
  shows "state_of (put_version i v d' r) = state_of r"
  using assms get_version_model [OF assms(1)]
  by (auto simp: state_of_def get_version_put_version fun_eq_iff)

lemma mark_ready_states:
  "fst (mark_ready utc i v t r) = (state_of r (i, v) = Some LOADING) \<and>
   state_of (snd (mark_ready utc i v t r)) =
     (if state_of r (i, v) = Some LOADING then (state_of r)((i, v) \<mapsto> READY) else state_of r) \<and>
   (state_of r (i, v) \<noteq> Some LOADING \<longrightarrow> snd (mark_ready utc i v t r) = r)"
proof (cases "state_of r (i, v) = Some LOADING")
  case True
  then obtain d where d: "get_version r i v = Some d" "vd_state d = LOADING"
    by (auto simp: state_of_def)
  obtain r1 where u: "update_state utc i v READY None None r = (True, r1)"
    using d by (simp add: update_state_def)
  obtain d1 where d1: "get_version r1 i v = Some d1"
    using get_version_update_state [of utc i v READY None None r i v] u d by auto
  have "state_of r1 = (state_of r)((i, v) \<mapsto> READY)"
    using states.set_state_spec [of "(utc, None, None)" "(i, v)" READY r] u True
    by (auto simp: fun_eq_iff set_state_of_def)
  moreover have "state_of (put_version i v (d1\<lparr>vd_load_time_ms := t\<rparr>) r1) = state_of r1"
    by (rule state_of_put_same [OF d1]) simp
  ultimately show ?thesis using True d u d1 by (simp add: mark_ready_def)
next
  case False
  then show ?thesis by (auto simp: mark_ready_def state_of_def split: option.split)
qed

lemma can_reload_state: "can_reload r i v \<longleftrightarrow> state_of r (i, v) \<in> Some ` {FAILED, ERROR, UNLOADED}"
  by (auto simp: can_reload_def state_of_def split: option.splits)

lemma lifecycle_states:
  "case lifecycle c utc i v r of (ok, r') \<Rightarrow>
     ok = (state_of r (i, v) \<in> Some ` allowed_from c) \<and>
     state_of r' = (if ok then (state_of r)((i, v) \<mapsto> target c) else state_of r) \<and>
     (\<not> ok \<longrightarrow> r' = r)"
proof -
  note S = states.set_state_spec [of _ "(i, v)" _ r]
  have U: "fst (update_state utc i v s e x r) = (state_of r (i, v) \<noteq> None) \<and>
      state_of (snd (update_state utc i v s e x r)) =
        (if state_of r (i, v) \<noteq> None then (state_of r)((i, v) \<mapsto> s) else state_of r) \<and>
      (state_of r (i, v) = None \<longrightarrow> snd (update_state utc i v s e x r) = r)" for s e x
    unfolding update_state_of using S by (auto simp: fun_eq_iff)
  show ?thesis
  proof (cases c)
    case (MarkReady t)
    with mark_ready_states [of utc i v t r] show ?thesis by (simp add: split_beta)
  next
    case MarkUnloading
    with U [of UNLOADING None None] show ?thesis
      by (auto simp: mark_unloading_def split_beta state_of_def split: option.splits)
  next
    case PrepareReload
    with U [of DISCOVERED None None] show ?thesis
      by (auto simp: prepare_reload_def can_reload_state split_beta)
  qed (use U in \<open>auto simp: mark_failed_def mark_unloaded_def mark_disabled_def mark_error_def
      split_beta\<close>)
qed

text \<open>
  The life-cycle manager follows a transition table: a call succeeds exactly when the version is
  registered and its state is one the table allows for that call; then it puts exactly that version
  into the call's target state, and otherwise it leaves the registry as it was.
\<close>

theorem lifecycle_table:
  "case lifecycle c utc i v r of (ok, r') \<Rightarrow>
     ok = (state_of r (i, v) \<in> Some ` allowed_from c) \<and>
     state_of r' = (if ok then (state_of r)((i, v) \<mapsto> target c) else state_of r) \<and>
     (\<not> ok \<longrightarrow> r' = r)"
  by (rule lifecycle_states)

theorem lifecycle_table_witness:
  "\<not> fst (lifecycle (MarkReady None) (\<lambda>_. 1) ''fall'' ''1.0.0'' demo_registry)"
  using lifecycle_table [where c = "MarkReady None" and utc = "\<lambda>_. 1" and i = "''fall''"
      and v = "''1.0.0''" and r = demo_registry]
  by (simp add: split_beta state_of_def demo_registry_get new_descriptor_def)

definition run_calls ::
  "(lifecycle_call \<times> string \<times> string) list \<Rightarrow> (nat \<Rightarrow> real) \<Rightarrow> ModelRegistry \<Rightarrow> ModelRegistry" where
  "run_calls cs utc r = foldl (\<lambda>r (c, i, v). snd (lifecycle c utc i v r)) r cs"

lemma run_calls_simps [simp]:
  "run_calls [] utc r = r"
  "run_calls ((c, i, v) # cs) utc r = run_calls cs utc (snd (lifecycle c utc i v r))"
  by (simp_all add: run_calls_def)

text \<open>
  The life-cycle manager alone never makes a version available: whatever calls it makes, a
  version that is neither loading nor ready stays so, and a version that is ready at the end was
  ready or loading at the start.
\<close>

theorem lifecycle_needs_loading:
  assumes "state_of r k \<notin> Some ` {LOADING, READY}"
  shows "state_of (run_calls cs utc r) k \<notin> Some ` {LOADING, READY}"
  using assms
proof (induction cs arbitrary: r)
  case Nil
  then show ?case by simp
next
  case (Cons p cs)
  obtain c i v where p: "p = (c, i, v)" by (cases p) auto
  have "state_of (snd (lifecycle c utc i v r)) k \<notin> Some ` {LOADING, READY}"
    using lifecycle_states [where c = c and utc = utc and i = i and v = v and r = r] Cons.prems
    by (cases c) (auto simp: split_beta split: if_splits)
  then show ?case unfolding p run_calls_simps by (rule Cons.IH)
qed

theorem lifecycle_needs_loading_witness:
  "state_of (run_calls [(MarkReady None, ''fall'', ''1.0.0''), (MarkUnloaded, ''fall'', ''1.0.0''),
     (MarkReady None, ''fall'', ''1.0.0'')] (\<lambda>_. 1) demo_registry) (''fall'', ''1.0.0'') \<noteq> Some READY"
proof -
  have "state_of demo_registry (''fall'', ''1.0.0'') \<notin> Some ` {LOADING, READY}"
    by (auto simp: state_of_def demo_registry_get new_descriptor_def)
  from lifecycle_needs_loading [OF this] show ?thesis by blast
qed

text \<open>
  \<open>INVALID\<close> is documented as a terminal state that cannot transition, but no operation of the
  registry or the life-cycle manager tests \<open>is_terminal\<close>: \<open>mark_unloaded\<close> and then
  \<open>prepare_reload\<close> take an invalid version back to \<open>DISCOVERED\<close>.
\<close>

theorem invalid_not_terminal:
  assumes "state_of r (i, v) = Some s" and "is_terminal s"
  shows "state_of (run_calls [(MarkUnloaded, i, v), (PrepareReload, i, v)] utc r) (i, v)
    = Some DISCOVERED"
proof -
  define r1 where "r1 = snd (lifecycle MarkUnloaded utc i v r)"
  have "state_of r1 (i, v) = Some UNLOADED"
    using lifecycle_states [where c = MarkUnloaded and utc = utc and i = i and v = v and r = r] assms(1)
    by (simp add: r1_def split_beta)
  then have "state_of (snd (lifecycle PrepareReload utc i v r1)) (i, v) = Some DISCOVERED"
    using lifecycle_states [where c = PrepareReload and utc = utc and i = i and v = v and r = r1] by (auto simp: split_beta)
  then show ?thesis by (simp add: r1_def)
qed

theorem invalid_not_terminal_witness:
  "state_of (run_calls [(MarkUnloaded, ''fall'', ''1.0.0''), (PrepareReload, ''fall'', ''1.0.0'')]
     (\<lambda>_. 1) (snd (set_state_of (\<lambda>_. 0, None, None) (''fall'', ''1.0.0'') INVALID demo_registry)))
     (''fall'', ''1.0.0'') = Some DISCOVERED"
proof (rule invalid_not_terminal)
  show "state_of (snd (set_state_of (\<lambda>_. 0, None, None) (''fall'', ''1.0.0'') INVALID demo_registry))
      (''fall'', ''1.0.0'') = Some INVALID"
    by (simp add: states.state_set) (simp add: state_of_def demo_registry_get)
qed (simp add: is_terminal_def)

end
