(* ===== verification/Recovery.thy ===== *)
theory Recovery
  imports CircuitBreaker Versioning
begin

text \<open>
  The recovery manager of \<open>ai/runtime/recovery.py\<close> and the stack that \<open>create_recovery_stack\<close> wires
  together: the registry, the breaker, the audit log and the user callbacks. Each manager call holds
  the manager's own lock, so it is one atomic step; the callbacks run after it and are kept as a
  list of what was notified. Successive readings of the wall clock are \<open>utc 0\<close>, \<open>utc 1\<close>, ... and of
  the monotonic clock \<open>mt 0\<close>, \<open>mt 1\<close>, ...
\<close>

section \<open>State\<close>

record RecoveryResult =
  rc_success :: bool
  rc_model_id :: string
  rc_version :: string
  rc_message :: string
  rc_previous_state :: "LoadState option"
  rc_new_state :: "LoadState option"
  rc_recovery_attempts :: int

definition recovery_result ::
  "bool \<Rightarrow> string \<Rightarrow> string \<Rightarrow> string \<Rightarrow> LoadState option \<Rightarrow> LoadState option \<Rightarrow> int \<Rightarrow> RecoveryResult" where
  "recovery_result success model_id version message previous new attempts =
     \<lparr>rc_success = success, rc_model_id = model_id, rc_version = version, rc_message = message,
      rc_previous_state = previous, rc_new_state = new, rc_recovery_attempts = attempts\<rparr>"

datatype notification = Disabled string string string | Enabled string string

record RecoveryManager =
  rm_registry :: ModelRegistry
  rm_breaker :: CircuitBreaker
  rm_operations :: "(string, jval) dict list"
  rm_on_disable :: bool
  rm_on_enable :: bool
  rm_notified :: "notification list"

definition MAX_OPERATIONS :: nat where
  "MAX_OPERATIONS = 1000"

definition record_operation ::
  "real \<Rightarrow> string \<Rightarrow> string \<Rightarrow> string \<Rightarrow> (string, jval) dict \<Rightarrow> RecoveryManager \<Rightarrow> RecoveryManager" where
  "record_operation now operation model_id version kwargs rm =
     (let rec = dict_update [(''operation'', JStr operation), (''model_id'', JStr model_id),
                  (''version'', JStr version), (''timestamp'', JTime now)] kwargs;
          ops = rm_operations rm @ [rec]
      in rm\<lparr>rm_operations :=
           if length ops > MAX_OPERATIONS then drop (length ops - MAX_OPERATIONS) ops else ops\<rparr>)"

section \<open>Disabling and enabling\<close>

definition cb_attempts :: "CircuitBreaker \<Rightarrow> string \<Rightarrow> string \<Rightarrow> int" where
  "cb_attempts cb model_id version =
     (case cb_get_state cb model_id version of None \<Rightarrow> 0 | Some st \<Rightarrow> cs_recovery_attempts st)"

definition disable_model ::
  "(nat \<Rightarrow> real) \<Rightarrow> string \<Rightarrow> string \<Rightarrow> string \<Rightarrow> bool \<Rightarrow> RecoveryManager \<Rightarrow> RecoveryResult \<times> RecoveryManager" where
  "disable_model utc model_id version reason is_manual rm =
     (case get_version (rm_registry rm) model_id version of
        None \<Rightarrow> (recovery_result False model_id version
                   (''Model version not found: '' @ model_id @ '':'' @ version) None None 0, rm)
      | Some d \<Rightarrow>
          (let previous = vd_state d
           in if previous = DISABLED
              then (recovery_result True model_id version ''Model already disabled'' (Some previous)
                      (Some DISABLED) 0, rm)
              else
                (let disable_reason = (if is_manual then ''Manual: '' else []) @ reason;
                     (success, reg) = mark_disabled utc model_id version disable_reason (rm_registry rm);
                     rm1 = rm\<lparr>rm_registry := reg\<rparr>
                 in if \<not> success
                    then (recovery_result False model_id version
                            ''Failed to transition model to DISABLED state'' (Some previous) None 0, rm1)
                    else
                      (let rm2 = record_operation (utc 2) ''disable'' model_id version
                             [(''reason'', JStr reason), (''is_manual'', JBool is_manual),
                              (''previous_state'', JStr (state_value previous))] rm1;
                           rm3 = (if rm_on_disable rm2
                                  then rm2\<lparr>rm_notified := rm_notified rm2 @ [Disabled model_id version reason]\<rparr>
                                  else rm2)
                       in (recovery_result True model_id version (''Model disabled: '' @ reason)
                             (Some previous) (Some DISABLED)
                             (cb_attempts (rm_breaker rm3) model_id version), rm3)))))"

text \<open>The part of \<open>enable_model\<close> after the circuit breaker has agreed.\<close>

definition enable_transition ::
  "(nat \<Rightarrow> real) \<Rightarrow> string \<Rightarrow> string \<Rightarrow> bool \<Rightarrow> LoadState \<Rightarrow> RecoveryManager \<Rightarrow> RecoveryResult \<times> RecoveryManager" where
  "enable_transition utc model_id version force previous rm =
     (let (success, reg) = update_state utc model_id version DISCOVERED None None (rm_registry rm);
          rm1 = rm\<lparr>rm_registry := reg\<rparr>
      in if \<not> success
         then (recovery_result False model_id version
                 ''Failed to transition model to DISCOVERED state'' (Some previous) None 0,
               rm1\<lparr>rm_breaker := abort_recovery model_id version (rm_breaker rm1)\<rparr>)
         else
           (let attempts = cb_attempts (rm_breaker rm1) model_id version;
                rm2 = record_operation (utc 2) ''enable'' model_id version
                        [(''force'', JBool force), (''previous_state'', JStr (state_value previous)),
                         (''recovery_attempts'', JInt attempts)] rm1;
                rm3 = (if rm_on_enable rm2
                       then rm2\<lparr>rm_notified := rm_notified rm2 @ [Enabled model_id version]\<rparr> else rm2)
            in (recovery_result True model_id version
                  (''Model re-enabled (recovery attempt #'' @ show_int attempts @ '')'')
                  (Some previous) (Some DISCOVERED) attempts, rm3)))"

definition enable_model ::
  "(nat \<Rightarrow> real) \<Rightarrow> (nat \<Rightarrow> real) \<Rightarrow> bool \<Rightarrow> string \<Rightarrow> string \<Rightarrow> bool \<Rightarrow> RecoveryManager \<Rightarrow>
   (RecoveryResult \<times> RecoveryManager) run" where
  "enable_model utc mt ok model_id version force rm =
     (case get_version (rm_registry rm) model_id version of
        None \<Rightarrow> Returns (recovery_result False model_id version
                   (''Model version not found: '' @ model_id @ '':'' @ version) None None 0, rm)
      | Some d \<Rightarrow>
          (let previous = vd_state d; cb = rm_breaker rm
           in if previous \<noteq> DISABLED
              then Returns (recovery_result False model_id version
                     (''Model is not disabled (state: '' @ state_value previous @ '')'')
                     (Some previous) None 0, rm)
              else if \<not> force \<and> \<not> can_attempt_recovery mt cb model_id version
              then
                (let attempts = cb_attempts cb model_id version;
                     max_attempts = fp_max_recovery_attempts (cb_policy cb)
                 in if attempts \<ge> max_attempts
                    then Returns (recovery_result False model_id version
                           (''Max recovery attempts ('' @ show_int max_attempts @
                            '') exceeded. Use force=True to override.'') (Some previous) None attempts, rm)
                    else Returns (recovery_result False model_id version
                           ''Recovery cooldown not elapsed. Use force=True to override.''
                           (Some previous) None attempts, rm))
              else if force
              then run_bind (force_close ok (utc 3) model_id version cb)
                (\<lambda>(closed, cb1). Returns
                   (enable_transition utc model_id version force previous (rm\<lparr>rm_breaker := cb1\<rparr>)))
              else
                (let (prepared, cb1) = prepare_recovery (\<lambda>n. mt (n + 2)) model_id version cb
                 in if \<not> prepared
                    then Returns (recovery_result False model_id version
                           ''Failed to prepare circuit breaker for recovery'' (Some previous) None 0, rm)
                    else Returns (enable_transition utc model_id version force previous
                           (rm\<lparr>rm_breaker := cb1\<rparr>)))))"

text \<open>
  \<open>get_disabled_models\<close> asks the registry for \<open>get_model_ids\<close>, a method that
  \<open>ModelRegistry\<close> does not have.
\<close>

definition get_disabled_models :: "RecoveryManager \<Rightarrow> (string \<times> string \<times> string) list run" where
  "get_disabled_models rm = Raises (AttributeError ''get_model_ids'')"

definition can_recover :: "(nat \<Rightarrow> real) \<Rightarrow> string \<Rightarrow> string \<Rightarrow> RecoveryManager \<Rightarrow> bool \<times> string" where
  "can_recover mt model_id version rm =
     (case get_version (rm_registry rm) model_id version of
        None \<Rightarrow> (False, ''Model not found'')
      | Some d \<Rightarrow>
          (if vd_state d \<noteq> DISABLED
           then (False, ''Model is not disabled (state: '' @ state_value (vd_state d) @ '')'')
           else if can_attempt_recovery mt (rm_breaker rm) model_id version
           then (True, ''Recovery allowed'')
           else (case cb_get_state (rm_breaker rm) model_id version of
                   None \<Rightarrow> (True, ''No circuit breaker state, recovery allowed'')
                 | Some st \<Rightarrow>
                     (let max_attempts = fp_max_recovery_attempts (cb_policy (rm_breaker rm))
                      in if cs_recovery_attempts st \<ge> max_attempts
                         then (False, ''Max recovery attempts ('' @ show_int max_attempts @ '') exceeded'')
                         else (False, ''Recovery cooldown not elapsed'')))))"

definition notify_load_success ::
  "bool \<Rightarrow> real \<Rightarrow> string \<Rightarrow> string \<Rightarrow> RecoveryManager \<Rightarrow> RecoveryManager run" where
  "notify_load_success ok wall model_id version rm =
     run_bind (record_success ok wall model_id version (rm_breaker rm))
       (\<lambda>(closed, cb). Returns (rm\<lparr>rm_breaker := cb\<rparr>))"

definition notify_load_failure ::
  "(nat \<Rightarrow> real) \<Rightarrow> string \<Rightarrow> string \<Rightarrow> string \<Rightarrow> RecoveryManager \<Rightarrow> RecoveryManager" where
  "notify_load_failure utc model_id version error rm =
     snd (disable_model utc model_id version (''Recovery load failed: '' @ error) False
            (rm\<lparr>rm_breaker := abort_recovery model_id version (rm_breaker rm)\<rparr>))"

text \<open>\<open>xs[-k:]\<close> for any integer \<open>k\<close>.\<close>

definition slice_last :: "int \<Rightarrow> 'a list \<Rightarrow> 'a list" where
  "slice_last k xs =
     (if 0 < k then drop (length xs - nat k) xs else drop (nat (- k)) xs)"

definition has_field :: "string \<Rightarrow> string option \<Rightarrow> (string, jval) dict \<Rightarrow> bool" where
  "has_field k x rec = (case x of None \<Rightarrow> True | Some s \<Rightarrow> dget rec k = Some (JStr s))"

definition get_operation_history ::
  "string option \<Rightarrow> string option \<Rightarrow> int \<Rightarrow> RecoveryManager \<Rightarrow> (string, jval) dict list" where
  "get_operation_history model_id version limit rm =
     (let r1 = filter (has_field ''model_id'' model_id) (rm_operations rm);
          r2 = filter (has_field ''version'' version) r1
      in rev (slice_last limit r2))"

section \<open>The wired stack\<close>

definition to_upper :: "char \<Rightarrow> char" where
  "to_upper c = (if is_lower c then char_of (of_char c - 32 :: nat) else c)"

definition to_lower :: "char \<Rightarrow> char" where
  "to_lower c = (if is_upper c then char_of (of_char c + 32 :: nat) else c)"

fun py_title :: "bool \<Rightarrow> string \<Rightarrow> string" where
  "py_title cased [] = []"
| "py_title cased (c # cs) =
     (if is_lower c \<or> is_upper c
      then (if cased then to_lower c else to_upper c) # py_title True cs
      else c # py_title False cs)"

text \<open>\<open>reason.value.replace("_", " ").title()\<close>\<close>

definition reason_title :: "DisablementReason \<Rightarrow> string" where
  "reason_title r = py_title False (map (\<lambda>c. if c = CHR ''_'' then CHR '' '' else c) (disable_value r))"

definition create_recovery_stack ::
  "ModelRegistry \<Rightarrow> FailurePolicy option \<Rightarrow> bool \<Rightarrow> bool \<Rightarrow> state_file \<Rightarrow> RecoveryManager" where
  "create_recovery_stack registry policy on_disable on_enable file =
     (let p = (case policy of None \<Rightarrow> default_policy | Some p \<Rightarrow> p);
          cb = new_breaker p False True file
      in \<lparr>rm_registry = registry, rm_breaker = set_disable_callback True cb, rm_operations = [],
          rm_on_disable = on_disable, rm_on_enable = on_enable, rm_notified = []\<rparr>)"

definition on_should_disable ::
  "(nat \<Rightarrow> real) \<Rightarrow> disable_call \<Rightarrow> RecoveryManager \<Rightarrow> RecoveryManager" where
  "on_should_disable utc call rm =
     (case call of (model_id, version, reason) \<Rightarrow>
        snd (disable_model utc model_id version (reason_title reason) False rm))"

text \<open>A failure reported to the breaker of the stack, with the callback it triggers.\<close>

definition stack_record_failure ::
  "(nat \<Rightarrow> real) \<Rightarrow> (nat \<Rightarrow> real) \<Rightarrow> bool \<Rightarrow> string \<Rightarrow> string \<Rightarrow> FailureType \<Rightarrow> string option \<Rightarrow>
   string option \<Rightarrow> RecoveryManager \<Rightarrow> (bool \<times> RecoveryManager) run" where
  "stack_record_failure utc mt ok model_id version failure_type error_code message rm =
     run_bind (record_failure mt ok (utc 4) model_id version failure_type error_code message (rm_breaker rm))
       (\<lambda>(b, calls, cb). Returns (b, fold (on_should_disable utc) calls (rm\<lparr>rm_breaker := cb\<rparr>)))"

section \<open>Lemmas\<close>

lemma record_operation_simps [simp]:
  "rm_registry (record_operation now op i v kw rm) = rm_registry rm"
  "rm_breaker (record_operation now op i v kw rm) = rm_breaker rm"
  "rm_on_enable (record_operation now op i v kw rm) = rm_on_enable rm"
  "rm_on_disable (record_operation now op i v kw rm) = rm_on_disable rm"
  "rm_notified (record_operation now op i v kw rm) = rm_notified rm"
  by (simp_all add: record_operation_def Let_def)

lemma length_record_operation:
  "length (rm_operations (record_operation now op i v kw rm)) \<le> max MAX_OPERATIONS (length (rm_operations rm))"
  by (simp add: record_operation_def Let_def MAX_OPERATIONS_def)

lemma mark_disabled_state:
  "mark_disabled utc i v reason r =
     set_state_of (utc, Some (''Disabled: '' @ reason), None) (i, v) DISABLED r"
  by (simp add: mark_disabled_def update_state_of)

lemma disable_model_effect:
  "rm_breaker (snd (disable_model utc i v reason manual rm)) = rm_breaker rm \<and>
   rc_success (fst (disable_model utc i v reason manual rm)) = (state_of (rm_registry rm) (i, v) \<noteq> None) \<and>
   state_of (rm_registry (snd (disable_model utc i v reason manual rm))) =
     (if state_of (rm_registry rm) (i, v) = None then state_of (rm_registry rm)
      else (state_of (rm_registry rm))((i, v) \<mapsto> DISABLED))"
proof (cases "get_version (rm_registry rm) i v")
  case None
  then show ?thesis by (simp add: disable_model_def state_of_def recovery_result_def)
next
  case (Some d)
  obtain b reg where m: "mark_disabled utc i v ((if manual then ''Manual: '' else []) @ reason)
      (rm_registry rm) = (b, reg)" by fastforce
  then have "b" "state_of reg = (state_of (rm_registry rm))((i, v) \<mapsto> DISABLED)"
    using states.set_state_spec [of "(utc, Some (''Disabled: '' @
        ((if manual then ''Manual: '' else []) @ reason)), None)" "(i, v)" DISABLED "rm_registry rm"] Some
    by (auto simp: mark_disabled_state state_of_def fun_eq_iff)
  then show ?thesis
    using Some m
    by (auto simp: disable_model_def Let_def recovery_result_def state_of_def fun_eq_iff)
qed

lemmas disable_model_simps =
  disable_model_effect [THEN conjunct1]
  disable_model_effect [THEN conjunct2, THEN conjunct1]
  disable_model_effect [THEN conjunct2, THEN conjunct2]

lemma enable_transition_effect:
  assumes "get_version (rm_registry rm) i v = Some d"
  shows "rc_success (fst (enable_transition utc i v f prev rm))"
    and "rm_breaker (snd (enable_transition utc i v f prev rm)) = rm_breaker rm"
    and "get_version (rm_registry (snd (enable_transition utc i v f prev rm))) i v =
      Some (transition_to (utc 0) DISCOVERED None None d)"
    and "(j, w) \<noteq> (i, v) \<Longrightarrow>
      get_version (rm_registry (snd (enable_transition utc i v f prev rm))) j w =
      get_version (rm_registry rm) j w"
proof -
  obtain b reg where u: "update_state utc i v DISCOVERED None None (rm_registry rm) = (b, reg)"
    by fastforce
  have b: "b" using u assms update_state_success [of utc i v DISCOVERED None None "rm_registry rm"] by simp
  have g: "get_version reg j w = (if j = i \<and> w = v
      then Some (transition_to (utc 0) DISCOVERED None None d) else get_version (rm_registry rm) j w)" for j w
    using get_version_update_state [of utc i v DISCOVERED None None "rm_registry rm" j w] u assms by simp
  show "rc_success (fst (enable_transition utc i v f prev rm))"
    "rm_breaker (snd (enable_transition utc i v f prev rm)) = rm_breaker rm"
    "get_version (rm_registry (snd (enable_transition utc i v f prev rm))) i v =
      Some (transition_to (utc 0) DISCOVERED None None d)"
    "(j, w) \<noteq> (i, v) \<Longrightarrow> get_version (rm_registry (snd (enable_transition utc i v f prev rm))) j w =
      get_version (rm_registry rm) j w"
    using b g by (auto simp: enable_transition_def u Let_def recovery_result_def)
qed

lemma can_attempt_open:
  assumes "can_attempt_recovery mt cb i v"
  obtains st where "cb_get_state cb i v = Some st" "cs_state st = OPEN"
    "cs_recovery_attempts st < fp_max_recovery_attempts (cb_policy cb)"
    "\<And>t. cs_disabled_at st = Some t \<Longrightarrow> of_int (fp_cooldown_seconds (cb_policy cb)) \<le> mt 1 - t"
  using assms
  by (auto simp: can_attempt_recovery_def elapsed_less_def not_le not_less split: option.splits if_splits)

lemma can_attempt_prepare:
  assumes "can_attempt_recovery mt cb i v"
  shows "\<exists>st. cb_get_state cb i v = Some st \<and>
    prepare_recovery u i v cb = (True, put_state_of i v (reset_for_recovery u st) cb)"
proof -
  obtain st where "cb_get_state cb i v = Some st" "cs_state st = OPEN"
    using can_attempt_open [OF assms] by metis
  then show ?thesis by (simp add: prepare_recovery_def)
qed

section \<open>Properties\<close>

lemma enable_refused:
  assumes "\<not> (state_of (rm_registry rm) (i, v) = Some DISABLED \<and> can_attempt_recovery mt (rm_breaker rm) i v)"
  shows "\<exists>res. enable_model utc mt ok i v False rm = Returns (res, rm) \<and> \<not> rc_success res"
  using assms
  by (auto simp: enable_model_def recovery_result_def state_of_def Let_def split: option.split)

lemma enable_granted:
  assumes dis: "state_of (rm_registry rm) (i, v) = Some DISABLED"
    and can: "can_attempt_recovery mt (rm_breaker rm) i v"
  obtains st d where "cb_get_state (rm_breaker rm) i v = Some st"
    "get_version (rm_registry rm) i v = Some d"
    "enable_model utc mt ok i v False rm = Returns (enable_transition utc i v False DISABLED
       (rm\<lparr>rm_breaker := put_state_of i v (reset_for_recovery (\<lambda>n. mt (n + 2)) st) (rm_breaker rm)\<rparr>))"
proof -
  obtain d where d: "get_version (rm_registry rm) i v = Some d" "vd_state d = DISABLED"
    using dis by (auto simp: state_of_def)
  from can_attempt_prepare [OF can, of "\<lambda>n. mt (n + 2)"] d can that show ?thesis
    by (auto simp: enable_model_def)
qed

lemma enable_transition_states:
  assumes "get_version (rm_registry rm) i v = Some d"
  shows "state_of (rm_registry (snd (enable_transition utc i v f prev rm))) =
    (state_of (rm_registry rm))((i, v) \<mapsto> DISCOVERED)"
proof
  fix k :: "string \<times> string"
  obtain j w where k: "k = (j, w)" by fastforce
  show "state_of (rm_registry (snd (enable_transition utc i v f prev rm))) k =
      ((state_of (rm_registry rm))((i, v) \<mapsto> DISCOVERED)) k"
    using enable_transition_effect(3) [OF assms, where utc = utc and f = f and prev = prev]
      enable_transition_effect(4) [OF assms, where utc = utc and f = f and prev = prev
        and j = j and w = w]
    by (auto simp: k state_of_def)
qed

text \<open>
  C17. A version can be re-enabled without force exactly when it is registered and disabled and its
  breaker allows an attempt; that succeeds at once, sends exactly this version back to \<open>DISCOVERED\<close>
  and its breaker to half-open with one more attempt counted. A refused call changes nothing.
\<close>

theorem enable_without_force:
  "\<exists>res rm'. enable_model utc mt ok i v False rm = Returns (res, rm') \<and>
    (rc_success res \<longleftrightarrow> state_of (rm_registry rm) (i, v) = Some DISABLED \<and>
       can_attempt_recovery mt (rm_breaker rm) i v) \<and>
    (rc_success res \<longrightarrow>
       state_of (rm_registry rm') = (state_of (rm_registry rm))((i, v) \<mapsto> DISCOVERED) \<and>
       is_circuit_half_open (rm_breaker rm') i v \<and>
       cb_attempts (rm_breaker rm') i v = cb_attempts (rm_breaker rm) i v + 1) \<and>
    (\<not> rc_success res \<longrightarrow> rm' = rm)"
proof (cases "state_of (rm_registry rm) (i, v) = Some DISABLED \<and> can_attempt_recovery mt (rm_breaker rm) i v")
  case False
  from enable_refused [OF this] show ?thesis using False by blast
next
  case True
  then have dc: "state_of (rm_registry rm) (i, v) = Some DISABLED"
    "can_attempt_recovery mt (rm_breaker rm) i v" by simp_all
  obtain st d where st: "cb_get_state (rm_breaker rm) i v = Some st"
    and d: "get_version (rm_registry rm) i v = Some d"
    and e: "enable_model utc mt ok i v False rm = Returns (enable_transition utc i v False DISABLED
       (rm\<lparr>rm_breaker := put_state_of i v (reset_for_recovery (\<lambda>n. mt (n + 2)) st) (rm_breaker rm)\<rparr>))"
    using enable_granted [OF dc, of utc ok] .
  let ?rm = "rm\<lparr>rm_breaker := put_state_of i v (reset_for_recovery (\<lambda>n. mt (n + 2)) st) (rm_breaker rm)\<rparr>"
  have g: "get_version (rm_registry ?rm) i v = Some d" using d by simp
  have "is_circuit_half_open (rm_breaker ?rm) i v"
    "cb_attempts (rm_breaker ?rm) i v = cb_attempts (rm_breaker rm) i v + 1"
    using st by (simp_all add: is_circuit_half_open_def cb_attempts_def cb_get_state_def
        reset_for_recovery_def)
  then show ?thesis
    unfolding e using enable_transition_effect(1,2) [OF g] enable_transition_states [OF g] dc
    by (simp add: prod_eq_iff)
qed

definition disabled_stack :: RecoveryManager where
  "disabled_stack =
     \<lparr>rm_registry = snd (set_state_of (\<lambda>_. 0, Some ''Disabled: x'', None) (''fall'', ''1.0.0'') DISABLED demo_registry),
      rm_breaker = put_state_of ''fall'' ''1.0.0''
        (open_circuit 5 REPEATED_FAILURES (new_cb_state ''fall'' ''1.0.0''))
        (new_breaker default_policy False False None),
      rm_operations = [], rm_on_disable = True, rm_on_enable = True, rm_notified = []\<rparr>"

lemma disabled_stack_state: "state_of (rm_registry disabled_stack) (''fall'', ''1.0.0'') = Some DISABLED"
  by (simp add: disabled_stack_def states.state_set) (simp add: state_of_def demo_registry_get)

lemma disabled_stack_breaker:
  "cb_get_state (rm_breaker disabled_stack) ''fall'' ''1.0.0'' =
     Some (open_circuit 5 REPEATED_FAILURES (new_cb_state ''fall'' ''1.0.0''))"
  "cb_policy (rm_breaker disabled_stack) = default_policy"
  by (simp_all add: disabled_stack_def cb_get_state_def new_breaker_def load_persisted_state_def)

theorem enable_without_force_witness:
  "\<exists>res rm'. enable_model (\<lambda>_. 9) (\<lambda>_. 400) True ''fall'' ''1.0.0'' False disabled_stack = Returns (res, rm') \<and>
     rc_success res \<and> is_circuit_half_open (rm_breaker rm') ''fall'' ''1.0.0''"
proof -
  have "can_attempt_recovery (\<lambda>_. 400) (rm_breaker disabled_stack) ''fall'' ''1.0.0''"
    by (simp add: can_attempt_recovery_def disabled_stack_breaker elapsed_less_def open_circuit_def
        new_cb_state_def default_policy_def)
  with enable_without_force [of "\<lambda>_. 9" "\<lambda>_. 400" True "''fall''" "''1.0.0''" disabled_stack]
  show ?thesis using disabled_stack_state by auto
qed

text \<open>
  \<open>can_recover\<close> agrees with what \<open>enable_model\<close> would do as long as the breaker has a state for
  the version.
\<close>

lemma enable_success:
  "\<exists>res rm'. enable_model utc mt ok i v False rm = Returns (res, rm') \<and>
    (rc_success res \<longleftrightarrow> state_of (rm_registry rm) (i, v) = Some DISABLED \<and>
       can_attempt_recovery mt (rm_breaker rm) i v)"
proof (cases "state_of (rm_registry rm) (i, v) = Some DISABLED \<and> can_attempt_recovery mt (rm_breaker rm) i v")
  case False
  from enable_refused [OF this] show ?thesis using False by blast
next
  case True
  then have dc: "state_of (rm_registry rm) (i, v) = Some DISABLED"
    "can_attempt_recovery mt (rm_breaker rm) i v" by simp_all
  obtain st d where d: "get_version (rm_registry rm) i v = Some d"
    and e: "enable_model utc mt ok i v False rm = Returns (enable_transition utc i v False DISABLED
       (rm\<lparr>rm_breaker := put_state_of i v (reset_for_recovery (\<lambda>n. mt (n + 2)) st) (rm_breaker rm)\<rparr>))"
    using enable_granted [OF dc, of utc ok] by metis
  have "get_version (rm_registry (rm\<lparr>rm_breaker := put_state_of i v
      (reset_for_recovery (\<lambda>n. mt (n + 2)) st) (rm_breaker rm)\<rparr>)) i v = Some d" using d by simp
  from enable_transition_effect(1) [OF this] show ?thesis
    unfolding e using dc by (metis prod.collapse)
qed

theorem can_recover_predicts_enable:
  assumes "cb_get_state (rm_breaker rm) i v \<noteq> None"
  shows "\<exists>res rm'. enable_model utc mt ok i v False rm = Returns (res, rm') \<and>
    fst (can_recover mt i v rm) = rc_success res"
proof -
  obtain res rm' where r: "enable_model utc mt ok i v False rm = Returns (res, rm')"
    "rc_success res \<longleftrightarrow> state_of (rm_registry rm) (i, v) = Some DISABLED \<and>
       can_attempt_recovery mt (rm_breaker rm) i v"
    using enable_success by blast
  have "fst (can_recover mt i v rm) \<longleftrightarrow> state_of (rm_registry rm) (i, v) = Some DISABLED \<and>
       can_attempt_recovery mt (rm_breaker rm) i v"
    using assms by (auto simp: can_recover_def state_of_def Let_def split: option.split)
  with r show ?thesis by blast
qed

theorem can_recover_predicts_enable_witness:
  "\<exists>res rm'. enable_model (\<lambda>_. 9) (\<lambda>_. 100) True ''fall'' ''1.0.0'' False disabled_stack = Returns (res, rm') \<and>
     fst (can_recover (\<lambda>_. 100) ''fall'' ''1.0.0'' disabled_stack) = rc_success res"
  by (rule can_recover_predicts_enable) (simp add: disabled_stack_breaker)

text \<open>
  For a disabled version that the breaker has never seen - one disabled by hand, say -
  \<open>can_recover\<close> answers that recovery is allowed while \<open>enable_model\<close> refuses with a message about
  a cooldown that does not exist.
\<close>

theorem can_recover_without_state:
  assumes "state_of (rm_registry rm) (i, v) = Some DISABLED"
    and "cb_get_state (rm_breaker rm) i v = None"
    and "0 < fp_max_recovery_attempts (cb_policy (rm_breaker rm))"
  shows "can_recover mt i v rm = (True, ''No circuit breaker state, recovery allowed'') \<and>
    (\<exists>res. enable_model utc mt ok i v False rm = Returns (res, rm) \<and> \<not> rc_success res \<and>
       rc_message res = ''Recovery cooldown not elapsed. Use force=True to override.'')"
  using assms
  by (auto simp: can_recover_def enable_model_def state_of_def can_attempt_recovery_def Let_def
      cb_attempts_def recovery_result_def)

theorem can_recover_without_state_witness:
  "fst (can_recover (\<lambda>_. 0) ''fall'' ''1.0.0''
     (disabled_stack\<lparr>rm_breaker := new_breaker default_policy False False None\<rparr>))"
proof -
  let ?rm = "disabled_stack\<lparr>rm_breaker := new_breaker default_policy False False None\<rparr>"
  have "state_of (rm_registry ?rm) (''fall'', ''1.0.0'') = Some DISABLED"
    "cb_get_state (rm_breaker ?rm) ''fall'' ''1.0.0'' = None"
    "0 < fp_max_recovery_attempts (cb_policy (rm_breaker ?rm))"
    by (simp_all add: disabled_stack_state cb_get_state_def new_breaker_def load_persisted_state_def
        default_policy_def)
  from can_recover_without_state [OF this] show ?thesis by simp
qed

text \<open>
  Re-enabling does not clear the error of the descriptor, although the call passes
  \<open>error=None\<close> with the comment that it does: the error text and code that were recorded when the
  version was disabled are still there.
\<close>

theorem enable_keeps_error:
  assumes "enable_model utc mt ok i v force rm = Returns (res, rm')" and "rc_success res"
    and "get_version (rm_registry rm) i v = Some d"
  shows "\<exists>d'. get_version (rm_registry rm') i v = Some d' \<and> vd_state d' = DISCOVERED \<and>
    vd_last_error d' = vd_last_error d \<and> vd_last_error_code d' = vd_last_error_code d"
proof -
  obtain cb where e: "enable_transition utc i v force (vd_state d) (rm\<lparr>rm_breaker := cb\<rparr>) = (res, rm')"
  proof (cases force)
    case True
    with assms that show ?thesis
      by (cases "force_close ok (utc 3) i v (rm_breaker rm)")
        (auto simp: enable_model_def recovery_result_def Let_def split: if_splits)
  next
    case False
    with assms that show ?thesis
      by (auto simp: enable_model_def recovery_result_def Let_def split: if_splits prod.splits)
  qed
  have "get_version (rm_registry rm') i v = Some (transition_to (utc 0) DISCOVERED None None d)"
    using enable_transition_effect(3) [where rm = "rm\<lparr>rm_breaker := cb\<rparr>" and utc = utc
        and f = force and prev = "vd_state d" and i = i and v = v] assms(3) by (simp add: e)
  then show ?thesis by (simp add: transition_to_def truthy_str_def)
qed

definition enabled_stack :: "RecoveryResult \<times> RecoveryManager" where
  "enabled_stack = enable_transition (\<lambda>_. 9) ''fall'' ''1.0.0'' False DISABLED
     (disabled_stack\<lparr>rm_breaker := put_state_of ''fall'' ''1.0.0'' (reset_for_recovery (\<lambda>_. 400)
        (open_circuit 5 REPEATED_FAILURES (new_cb_state ''fall'' ''1.0.0''))) (rm_breaker disabled_stack)\<rparr>)"

lemma disabled_stack_get:
  "\<exists>d. get_version (rm_registry disabled_stack) ''fall'' ''1.0.0'' = Some d \<and> vd_state d = DISABLED \<and>
     vd_last_error d = Some ''Disabled: x''"
  by (simp add: disabled_stack_def set_state_of_def get_version_update_state demo_registry_get
      transition_to_def truthy_str_def)

lemma enabled_stack_run:
  "enable_model (\<lambda>_. 9) (\<lambda>_. 400) True ''fall'' ''1.0.0'' False disabled_stack = Returns enabled_stack"
proof -
  have "can_attempt_recovery (\<lambda>_. 400) (rm_breaker disabled_stack) ''fall'' ''1.0.0''"
    by (simp add: can_attempt_recovery_def disabled_stack_breaker elapsed_less_def open_circuit_def
        new_cb_state_def default_policy_def)
  moreover have "prepare_recovery (\<lambda>n. 400) ''fall'' ''1.0.0'' (rm_breaker disabled_stack) =
      (True, put_state_of ''fall'' ''1.0.0'' (reset_for_recovery (\<lambda>_. 400)
        (open_circuit 5 REPEATED_FAILURES (new_cb_state ''fall'' ''1.0.0''))) (rm_breaker disabled_stack))"
    by (simp add: prepare_recovery_def disabled_stack_breaker)
  ultimately show ?thesis
    using disabled_stack_get by (auto simp: enable_model_def enabled_stack_def)
qed

lemma enabled_stack_success: "rc_success (fst enabled_stack)"
  unfolding enabled_stack_def using disabled_stack_get
  by (auto intro: enable_transition_effect(1))

theorem enable_keeps_error_witness:
  "\<exists>d'. get_version (rm_registry (snd enabled_stack)) ''fall'' ''1.0.0'' = Some d' \<and>
     vd_last_error d' = Some ''Disabled: x''"
proof -
  obtain d where d: "get_version (rm_registry disabled_stack) ''fall'' ''1.0.0'' = Some d"
    "vd_last_error d = Some ''Disabled: x''" using disabled_stack_get by blast
  have "enable_model (\<lambda>_. 9) (\<lambda>_. 400) True ''fall'' ''1.0.0'' False disabled_stack =
      Returns (fst enabled_stack, snd enabled_stack)" using enabled_stack_run by simp
  from enable_keeps_error [OF this enabled_stack_success d(1)] d(2) show ?thesis by auto
qed

lemma record_failure_true:
  assumes "record_failure mt ok wall i v ft ec msg cb = Returns (True, calls, cb')"
  obtains reason where
    "cb' = put_state_of i v (open_circuit (mt 2) reason
       (after_failure mt ft ec msg (cb_policy cb) (current cb i v))) cb"
    "calls = (if cb_callback cb then [(i, v, reason)] else [])" "\<not> cb_persistence cb"
proof -
  let ?a = "after_failure mt ft ec msg (cb_policy cb) (current cb i v)"
  have no: "cs_state (current cb i v) \<noteq> OPEN" using assms record_failure_open by fastforce
  have "fst (check_disable_criteria (cb_policy cb) ?a)"
    using assms record_failure_quiet [OF no] by fastforce
  then obtain reason where "check_disable_criteria (cb_policy cb) ?a = (True, Some reason)"
    using check_disable_some by blast
  from record_failure_trip [OF no this] assms that show ?thesis by (auto split: if_splits)
qed

text \<open>
  In a stack whose disable callback is set and whose breaker does not persist, a failure that
  opens the circuit also takes the version out of service: when \<open>record_failure\<close> answers true, the
  circuit is open and the version, if registered, is \<open>DISABLED\<close>; other versions keep their state.
\<close>

theorem trip_disables_version:
  assumes "cb_callback (rm_breaker rm)"
    and "stack_record_failure utc mt ok i v ft ec msg rm = Returns (True, rm')"
  shows "should_disable (rm_breaker rm') i v \<and>
    state_of (rm_registry rm') = (if state_of (rm_registry rm) (i, v) = None then state_of (rm_registry rm)
      else (state_of (rm_registry rm))((i, v) \<mapsto> DISABLED))"
proof -
  from assms(2) obtain calls cb where
    r: "record_failure mt ok (utc 4) i v ft ec msg (rm_breaker rm) = Returns (True, calls, cb)"
    and rm': "rm' = fold (on_should_disable utc) calls (rm\<lparr>rm_breaker := cb\<rparr>)"
    by (cases "record_failure mt ok (utc 4) i v ft ec msg (rm_breaker rm)")
      (auto simp: stack_record_failure_def)
  from record_failure_true [OF r] obtain reason where
    cb: "cb = put_state_of i v (open_circuit (mt 2) reason (after_failure mt ft ec msg
      (cb_policy (rm_breaker rm)) (current (rm_breaker rm) i v))) (rm_breaker rm)"
    and c: "calls = [(i, v, reason)]" using assms(1) by (metis (full_types))
  have e: "rm' = snd (disable_model utc i v (reason_title reason) False (rm\<lparr>rm_breaker := cb\<rparr>))"
    by (simp add: rm' c on_should_disable_def)
  have "rm_breaker rm' = cb" by (simp add: e disable_model_simps)
  moreover have "should_disable cb i v" by (simp add: cb should_disable_def cb_get_state_def)
  ultimately show ?thesis by (simp add: e disable_model_simps)
qed

definition live_stack :: RecoveryManager where
  "live_stack =
     \<lparr>rm_registry = demo_registry,
      rm_breaker = new_breaker (default_policy\<lparr>fp_unhealthy_threshold := 1\<rparr>) True False None,
      rm_operations = [], rm_on_disable = False, rm_on_enable = False, rm_notified = []\<rparr>"

theorem trip_disables_version_witness:
  "\<exists>rm'. stack_record_failure (\<lambda>_. 0) (\<lambda>_. 7) True ''fall'' ''1.0.0'' UNHEALTHY_TRANSITION None None
     live_stack = Returns (True, rm') \<and> state_of (rm_registry rm') (''fall'', ''1.0.0'') = Some DISABLED"
proof -
  have cb: "cb_callback (rm_breaker live_stack)"
    by (simp add: live_stack_def new_breaker_def load_persisted_state_def)
  have "\<exists>rm'. stack_record_failure (\<lambda>_. 0) (\<lambda>_. 7) True ''fall'' ''1.0.0'' UNHEALTHY_TRANSITION None
      None live_stack = Returns (True, rm')"
    by (simp add: stack_record_failure_def live_stack_def record_failure_def get_or_create_state_def
        new_breaker_def load_persisted_state_def default_policy_def new_cb_state_def Let_def
        cs_record_failure_def prune_old_failures_def check_disable_criteria_def failure_count_def
        persist_state_def put_state_of_def)
  then obtain rm' where r: "stack_record_failure (\<lambda>_. 0) (\<lambda>_. 7) True ''fall'' ''1.0.0''
      UNHEALTHY_TRANSITION None None live_stack = Returns (True, rm')" by blast
  have "state_of (rm_registry live_stack) (''fall'', ''1.0.0'') = Some DISCOVERED"
    by (simp add: live_stack_def state_of_def demo_registry_get) (simp add: new_descriptor_def)
  with trip_disables_version [OF cb r] r show ?thesis by simp
qed

text \<open>
  The stack that \<open>create_recovery_stack\<close> builds uses a breaker with persistence, so its automatic
  disablement cannot happen: the tenth execution error inside a minute blocks the reporting thread on
  the breaker's own lock, for ever.
\<close>

theorem wired_stack_deadlocks:
  assumes "length ts = 10" and "\<forall>s\<in>set ts. \<forall>t\<in>set ts. t - s < 60"
  shows "fail_run i v ts (rm_breaker (create_recovery_stack r None od oe None)) = SelfDeadlock"
proof -
  let ?cb = "rm_breaker (create_recovery_stack r None od oe None)"
  have cb: "cb_policy ?cb = default_policy" "cb_persistence ?cb" "cb_get_state ?cb i v = None"
    by (simp_all add: create_recovery_stack_def set_disable_callback_def new_breaker_def
        load_persisted_state_def load_state_def cb_get_state_def)
  obtain us t where ts: "ts = us @ [t]" using assms(1) by (cases ts rule: rev_cases) auto
  have "\<exists>c. fail_run i v us ?cb = Returns c \<and> cb_policy c = cb_policy ?cb \<and>
      cb_persistence c = cb_persistence ?cb \<and> cb_callback c = cb_callback ?cb \<and>
      current c i v = (new_cb_state i v)\<lparr>cs_failures := map exec_failure us\<rparr>"
    using assms cb by (intro fail_run_quiet) (auto simp: ts policy_ok_def default_policy_def)
  then obtain c where c: "fail_run i v us ?cb = Returns c" "cb_policy c = default_policy"
    "cb_persistence c" "current c i v = (new_cb_state i v)\<lparr>cs_failures := map exec_failure us\<rparr>"
    using cb by auto
  have a: "after_failure (\<lambda>_. t) EXECUTION_ERROR None None (cb_policy c) (current c i v) =
      (new_cb_state i v)\<lparr>cs_failures := map exec_failure (us @ [t])\<rparr>"
    unfolding c(2,4) using assms(2) by (intro after_exec_failures) (auto simp: ts default_policy_def)
  have "check_disable_criteria (cb_policy c) (after_failure (\<lambda>_. t) EXECUTION_ERROR None None
      (cb_policy c) (current c i v)) = (True, Some REPEATED_FAILURES)"
    unfolding a using assms(1)
    by (simp add: check_disable_criteria_def failure_count_def c(2) default_policy_def ts)
  from record_failure_trip [OF _ this] c(3,4) show ?thesis
    by (simp add: ts fail_run_snoc c(1) new_cb_state_def)
qed

theorem wired_stack_deadlocks_witness:
  "fail_run ''fall'' ''1'' [1, 2, 3, 4, 5, 6, 7, 8, 9, 10]
     (rm_breaker (create_recovery_stack new_registry None True True None)) = SelfDeadlock"
  by (rule wired_stack_deadlocks) simp_all

section \<open>Calls on a recovery manager\<close>

inductive mstep :: "RecoveryManager \<Rightarrow> RecoveryManager \<Rightarrow> bool" where
  m_disable: "mstep rm (snd (disable_model utc i v reason manual rm))"
| m_enable: "enable_model utc mt ok i v force rm = Returns (res, rm') \<Longrightarrow> mstep rm rm'"
| m_failure: "stack_record_failure utc mt ok i v ft ec msg rm = Returns (b, rm') \<Longrightarrow> mstep rm rm'"
| m_success: "notify_load_success ok wall i v rm = Returns rm' \<Longrightarrow> mstep rm rm'"
| m_load_failure: "mstep rm (notify_load_failure utc i v err rm)"

definition attempts_ok :: "FailurePolicy \<Rightarrow> CircuitBreaker \<Rightarrow> bool" where
  "attempts_ok p cb \<longleftrightarrow> cb_policy cb = p \<and>
     (\<forall>k st. dget (cb_states cb) k = Some st \<longrightarrow> cs_recovery_attempts st \<le> fp_max_recovery_attempts p)"

definition manager_ok :: "FailurePolicy \<Rightarrow> RecoveryManager \<Rightarrow> bool" where
  "manager_ok p rm \<longleftrightarrow> 0 \<le> fp_max_recovery_attempts p \<and> attempts_ok p (rm_breaker rm) \<and>
     length (rm_operations rm) \<le> MAX_OPERATIONS"

lemma attempts_ok_current:
  "0 \<le> fp_max_recovery_attempts p \<Longrightarrow> attempts_ok p cb \<Longrightarrow>
     cs_recovery_attempts (current cb i v) \<le> fp_max_recovery_attempts p"
  by (auto simp: attempts_ok_def current_def cb_get_state_def new_cb_state_def split: option.split)

lemma attempts_ok_put:
  "attempts_ok p cb \<Longrightarrow> cs_recovery_attempts st \<le> fp_max_recovery_attempts p \<Longrightarrow>
     attempts_ok p (put_state_of i v st cb)"
  by (simp add: attempts_ok_def)

lemma attempts_ok_failure:
  assumes "0 \<le> fp_max_recovery_attempts p" and ok: "attempts_ok p cb"
    and r: "record_failure mt okw wall i v ft ec msg cb = Returns (b, calls, cb')"
  shows "attempts_ok p cb'"
proof -
  let ?a = "after_failure mt ft ec msg (cb_policy cb) (current cb i v)"
  note C = attempts_ok_current [OF assms(1) ok, of i v]
  show ?thesis
  proof (cases "cs_state (current cb i v) = OPEN")
    case True
    with r ok show ?thesis by (simp add: record_failure_open)
  next
    case open_no: False
    show ?thesis
    proof (cases "fst (check_disable_criteria (cb_policy cb) ?a)")
      case False
      with r record_failure_quiet [OF open_no False] C show ?thesis
        by (auto intro: attempts_ok_put [OF ok])
    next
      case True
      then obtain reason where "check_disable_criteria (cb_policy cb) ?a = (True, Some reason)"
        using check_disable_some by blast
      from record_failure_trip [OF open_no this] r C show ?thesis
        by (auto intro: attempts_ok_put [OF ok] split: if_splits)
    qed
  qed
qed

lemma attempts_ok_success:
  assumes "0 \<le> fp_max_recovery_attempts p" and ok: "attempts_ok p cb"
    and r: "record_success okw wall i v cb = Returns (b, cb')"
  shows "attempts_ok p cb'"
proof -
  let ?c = "current cb i v"
  note C = attempts_ok_current [OF assms(1) ok, of i v]
  show ?thesis
  proof (cases "cs_state ?c = HALF_OPEN \<and>
      fp_half_open_success_threshold (cb_policy cb) \<le> cs_half_open_successes ?c + 1")
    case False
    from r record_success_quiet [OF False] C show ?thesis by (auto intro: attempts_ok_put [OF ok])
  next
    case True
    then have "cs_state ?c = HALF_OPEN"
      "fp_half_open_success_threshold (cb_policy cb) \<le> cs_half_open_successes ?c + 1" by simp_all
    from record_success_close [OF this] r C show ?thesis
      by (auto intro: attempts_ok_put [OF ok] split: if_splits)
  qed
qed

lemma attempts_ok_abort: "attempts_ok p cb \<Longrightarrow> attempts_ok p (abort_recovery i v cb)"
  by (auto simp: abort_recovery_def attempts_ok_def cb_get_state_def split: option.split)

lemma attempts_ok_force:
  assumes "0 \<le> fp_max_recovery_attempts p" "attempts_ok p cb"
    and "force_close okw wall i v cb = Returns (b, cb')"
  shows "attempts_ok p cb'"
  using assms by (auto simp: force_close_def persist_free attempts_ok_def split: option.splits if_splits)

lemma attempts_ok_prepare:
  assumes "attempts_ok p cb" and "can_attempt_recovery mt cb i v"
  shows "attempts_ok p (snd (prepare_recovery u i v cb))"
proof -
  obtain st where st: "cb_get_state cb i v = Some st" "cs_state st = OPEN"
    "cs_recovery_attempts st < fp_max_recovery_attempts (cb_policy cb)"
    using can_attempt_open [OF assms(2)] by metis
  with assms(1) show ?thesis
    by (auto simp: prepare_recovery_def attempts_ok_def reset_for_recovery_def)
qed

lemma length_disable:
  "length (rm_operations (snd (disable_model utc i v reason manual rm)))
     \<le> max MAX_OPERATIONS (length (rm_operations rm))"
proof -
  have "length (rm_operations (record_operation now op i v kw (rm\<lparr>rm_registry := g\<rparr>)))
      \<le> max MAX_OPERATIONS (length (rm_operations rm))" for now op kw g
    using length_record_operation [of now op i v kw "rm\<lparr>rm_registry := g\<rparr>"] by simp
  then show ?thesis by (auto simp: disable_model_def Let_def split: option.split prod.split)
qed

lemma manager_ok_disable: "manager_ok p rm \<Longrightarrow> manager_ok p (snd (disable_model utc i v reason manual rm))"
  using length_disable [of utc i v reason manual rm]
  by (simp add: manager_ok_def disable_model_simps)

lemma manager_ok_breaker:
  "manager_ok p rm \<Longrightarrow> attempts_ok p cb \<Longrightarrow> manager_ok p (rm\<lparr>rm_breaker := cb\<rparr>)"
  by (simp add: manager_ok_def)

lemma manager_ok_transition:
  assumes "manager_ok p rm"
  shows "manager_ok p (snd (enable_transition utc i v f prev rm))"
proof -
  have "length (rm_operations (record_operation now op i v kw (rm\<lparr>rm_registry := g\<rparr>)))
      \<le> max MAX_OPERATIONS (length (rm_operations rm))" for now op kw g
    using length_record_operation [of now op i v kw "rm\<lparr>rm_registry := g\<rparr>"] by simp
  with assms show ?thesis
    by (auto simp: enable_transition_def manager_ok_def Let_def attempts_ok_abort split: prod.split)
qed

lemma manager_ok_enable:
  assumes ok: "manager_ok p rm" and r: "enable_model utc mt okw i v force rm = Returns (res, rm')"
  shows "manager_ok p rm'"
proof (cases "get_version (rm_registry rm) i v")
  case None
  with r ok show ?thesis by (simp add: enable_model_def)
next
  case (Some d)
  have a: "0 \<le> fp_max_recovery_attempts p" "attempts_ok p (rm_breaker rm)"
    using ok by (simp_all add: manager_ok_def)
  show ?thesis
  proof (cases "vd_state d = DISABLED \<and> (force \<or> can_attempt_recovery mt (rm_breaker rm) i v)")
    case False
    with r Some have "rm' = rm"
      by (auto simp: enable_model_def Let_def split: if_splits)
    with ok show ?thesis by simp
  next
    case go: True
    show ?thesis
    proof (cases force)
      case True
      with r Some go obtain b cb where
        f: "force_close okw (utc 3) i v (rm_breaker rm) = Returns (b, cb)"
        and rm': "rm' = snd (enable_transition utc i v force (vd_state d) (rm\<lparr>rm_breaker := cb\<rparr>))"
        by (cases "force_close okw (utc 3) i v (rm_breaker rm)") (auto simp: enable_model_def)
      from attempts_ok_force [OF a f] ok show ?thesis
        unfolding rm' by (intro manager_ok_transition manager_ok_breaker)
    next
      case False
      with go have can: "can_attempt_recovery mt (rm_breaker rm) i v" by simp
      from can_attempt_prepare [OF can] obtain cb where
        f: "prepare_recovery (\<lambda>n. mt (n + 2)) i v (rm_breaker rm) = (True, cb)" by blast
      have rm': "rm' = snd (enable_transition utc i v force (vd_state d) (rm\<lparr>rm_breaker := cb\<rparr>))"
        using r Some go False f by (auto simp: enable_model_def)
      from attempts_ok_prepare [OF a(2) can, of "\<lambda>n. mt (n + 2)"] f ok show ?thesis
        unfolding rm' by (intro manager_ok_transition manager_ok_breaker) simp_all
    qed
  qed
qed

lemma manager_ok_calls: "manager_ok p rm \<Longrightarrow> manager_ok p (fold (on_should_disable utc) calls rm)"
  by (induction calls arbitrary: rm)
    (auto simp: on_should_disable_def manager_ok_disable split: prod.split)

lemma manager_ok_step: "mstep rm rm' \<Longrightarrow> manager_ok p rm \<Longrightarrow> manager_ok p rm'"
proof (induction rule: mstep.induct)
  case (m_disable rm utc i v reason manual)
  then show ?case by (rule manager_ok_disable)
next
  case (m_enable utc mt ok i v force rm res rm')
  then show ?case using manager_ok_enable by blast
next
  case (m_failure utc mt ok i v ft ec msg rm b rm')
  then obtain calls cb where
    r: "record_failure mt ok (utc 4) i v ft ec msg (rm_breaker rm) = Returns (b, calls, cb)"
    and rm': "rm' = fold (on_should_disable utc) calls (rm\<lparr>rm_breaker := cb\<rparr>)"
    by (cases "record_failure mt ok (utc 4) i v ft ec msg (rm_breaker rm)")
      (auto simp: stack_record_failure_def)
  have "attempts_ok p cb"
    using m_failure.prems attempts_ok_failure [OF _ _ r] by (simp add: manager_ok_def)
  with m_failure.prems show ?case
    unfolding rm' by (intro manager_ok_calls manager_ok_breaker)
next
  case (m_success ok wall i v rm rm')
  then obtain b cb where r: "record_success ok wall i v (rm_breaker rm) = Returns (b, cb)"
    and rm': "rm' = rm\<lparr>rm_breaker := cb\<rparr>"
    by (cases "record_success ok wall i v (rm_breaker rm)") (auto simp: notify_load_success_def)
  from m_success.prems attempts_ok_success [OF _ _ r] show ?case
    unfolding rm' by (simp add: manager_ok_def)
next
  case (m_load_failure rm utc i v err)
  then have "attempts_ok p (abort_recovery i v (rm_breaker rm))"
    by (simp add: manager_ok_def attempts_ok_abort)
  with m_load_failure show ?case
    unfolding notify_load_failure_def by (intro manager_ok_disable manager_ok_breaker)
qed

definition manager_start :: "FailurePolicy \<Rightarrow> RecoveryManager \<Rightarrow> bool" where
  "manager_start p rm \<longleftrightarrow> 0 \<le> fp_max_recovery_attempts p \<and> rm_operations rm = [] \<and>
     (\<exists>c per. rm_breaker rm = new_breaker p c per None)"

lemma new_breaker_empty:
  "cb_states (new_breaker p c per None) = []" "cb_policy (new_breaker p c per None) = p"
  by (simp_all add: new_breaker_def load_persisted_state_def load_state_def)

lemma manager_ok_start: "manager_start p rm \<Longrightarrow> manager_ok p rm"
  by (auto simp: manager_start_def manager_ok_def attempts_ok_def new_breaker_empty)

interpretation manager: invariant_system "manager_start p" mstep "manager_ok p" for p
  by unfold_locales (simp_all add: manager_ok_start manager_ok_step)

text \<open>
  Through the recovery manager no version is ever given more recovery attempts than the policy
  allows, and the audit log never holds more than a thousand records.
\<close>

theorem attempts_and_history_bounded:
  assumes "reach (manager_start p) mstep rm"
  shows "(\<forall>i v. cb_attempts (rm_breaker rm) i v \<le> fp_max_recovery_attempts p) \<and>
    length (rm_operations rm) \<le> 1000"
proof -
  have "manager_ok p rm" using manager.reach_invar [OF assms] .
  then show ?thesis
    by (auto simp: manager_ok_def attempts_ok_def cb_attempts_def cb_get_state_def MAX_OPERATIONS_def
        split: option.split)
qed

definition fresh_manager :: RecoveryManager where
  "fresh_manager = \<lparr>rm_registry = demo_registry, rm_breaker = new_breaker default_policy True False None,
     rm_operations = [], rm_on_disable = False, rm_on_enable = False, rm_notified = []\<rparr>"

theorem attempts_and_history_bounded_witness:
  "length (rm_operations (snd (disable_model (\<lambda>_. 0) ''fall'' ''1.0.0'' ''test'' True fresh_manager))) \<le> 1000"
proof -
  have "manager_start default_policy fresh_manager"
    by (auto simp: manager_start_def fresh_manager_def default_policy_def)
  then have "reach (manager_start default_policy) mstep
      (snd (disable_model (\<lambda>_. 0) ''fall'' ''1.0.0'' ''test'' True fresh_manager))"
    by (rule reach_step [OF reach_init]) (rule m_disable)
  from attempts_and_history_bounded [OF this] show ?thesis by blast
qed

lemma rev_drop_last: "rev (drop (length xs - n) xs) = take n (rev xs)"
  by (cases "n \<le> length xs") (simp_all add: rev_drop)

text \<open>
  \<open>get_operation_history\<close> with a positive limit returns the most recent matching records, newest
  first, and at most that many.
\<close>

theorem history_newest_first:
  assumes "0 < limit"
  shows "get_operation_history mid ver limit rm =
    take (nat limit) (rev (filter (\<lambda>op. has_field ''model_id'' mid op \<and> has_field ''version'' ver op)
      (rm_operations rm)))"
  using assms
  by (simp add: get_operation_history_def slice_last_def rev_drop_last Let_def conj_commute)

theorem history_newest_first_witness:
  "length (get_operation_history None None 1 (fresh_manager\<lparr>rm_operations := [[], []]\<rparr>)) = 1"
proof -
  have "get_operation_history None None 1 (fresh_manager\<lparr>rm_operations := [[], []]\<rparr>) =
      take (nat 1) (rev (filter (\<lambda>op. has_field ''model_id'' None op \<and> has_field ''version'' None op)
        (rm_operations (fresh_manager\<lparr>rm_operations := [[], []]\<rparr>))))"
    by (rule history_newest_first) simp
  then show ?thesis by (simp add: has_field_def)
qed

text \<open>
  A limit of zero is no limit: \<open>records[-0:]\<close> is the whole list, so the call that asks for no
  records gets all of them.
\<close>

theorem history_limit_zero:
  "get_operation_history None None 0 rm = rev (rm_operations rm)"
  by (simp add: get_operation_history_def slice_last_def has_field_def)

fun load_successes :: "nat \<Rightarrow> string \<Rightarrow> string \<Rightarrow> RecoveryManager \<Rightarrow> RecoveryManager run" where
  "load_successes 0 i v rm = Returns rm"
| "load_successes (Suc n) i v rm =
     run_bind (load_successes n i v rm) (notify_load_success True 0 i v)"

lemma load_successes_half_open:
  assumes "\<not> cb_persistence (rm_breaker rm)"
    and "cb_get_state (rm_breaker rm) i v = Some st" "cs_state st = HALF_OPEN"
    and "cs_half_open_successes st = 0"
    and "int n < fp_half_open_success_threshold (cb_policy (rm_breaker rm))"
  shows "\<exists>rm' st'. load_successes n i v rm = Returns rm' \<and>
    cb_get_state (rm_breaker rm') i v = Some st' \<and> cs_state st' = HALF_OPEN \<and>
    cs_half_open_successes st' = int n \<and> cs_recovery_attempts st' = cs_recovery_attempts st \<and>
    cb_policy (rm_breaker rm') = cb_policy (rm_breaker rm) \<and> \<not> cb_persistence (rm_breaker rm')"
  using assms
proof (induction n)
  case 0
  then show ?case by simp
next
  case (Suc n)
  then obtain r s where r: "load_successes n i v rm = Returns r" "cb_get_state (rm_breaker r) i v = Some s"
    "cs_state s = HALF_OPEN" "cs_half_open_successes s = int n"
    "cs_recovery_attempts s = cs_recovery_attempts st"
    "cb_policy (rm_breaker r) = cb_policy (rm_breaker rm)" "\<not> cb_persistence (rm_breaker r)"
    by auto
  have "record_success True 0 i v (rm_breaker r) =
      Returns (False, put_state_of i v (cs_record_success s) (rm_breaker r))"
    using record_success_quiet [of "rm_breaker r" i v True 0] r Suc.prems(5)
    by (simp add: current_get)
  with r show ?case
    by (simp add: notify_load_success_def cb_get_state_def cs_record_success_def)
qed

lemma enable_breaker:
  assumes "enable_model utc mt ok i v False rm = Returns (res, rm1)" and "rc_success res"
  obtains st where "cb_get_state (rm_breaker rm) i v = Some st"
    "rm_breaker rm1 = put_state_of i v (reset_for_recovery (\<lambda>n. mt (n + 2)) st) (rm_breaker rm)"
proof -
  have dc: "state_of (rm_registry rm) (i, v) = Some DISABLED"
    "can_attempt_recovery mt (rm_breaker rm) i v"
    using assms enable_refused [of rm i v mt utc ok] by fastforce+
  obtain st d where st: "cb_get_state (rm_breaker rm) i v = Some st"
    and d: "get_version (rm_registry rm) i v = Some d"
    and e: "enable_model utc mt ok i v False rm = Returns (enable_transition utc i v False DISABLED
       (rm\<lparr>rm_breaker := put_state_of i v (reset_for_recovery (\<lambda>n. mt (n + 2)) st) (rm_breaker rm)\<rparr>))"
    using enable_granted [OF dc, of utc ok] .
  let ?rm = "rm\<lparr>rm_breaker := put_state_of i v (reset_for_recovery (\<lambda>n. mt (n + 2)) st) (rm_breaker rm)\<rparr>"
  have g: "get_version (rm_registry ?rm) i v = Some d" using d by simp
  have "enable_transition utc i v False DISABLED ?rm = (res, rm1)" using e assms(1) by simp
  with enable_transition_effect(2) [OF g, of utc False DISABLED]
  have "rm_breaker rm1 = rm_breaker ?rm" by simp
  then have "rm_breaker rm1 = put_state_of i v (reset_for_recovery (\<lambda>n. mt (n + 2)) st) (rm_breaker rm)"
    by simp
  with st show ?thesis by (rule that)
qed

text \<open>
  A recovery can succeed: when a version has been re-enabled without force and its loads then
  succeed as often as the policy asks, its circuit is closed again with its failure history cleared,
  and the attempt stays counted. With fewer successes the circuit is still half-open.
\<close>

theorem recovery_completes:
  assumes "\<not> cb_persistence (rm_breaker rm)"
    and "thr = fp_half_open_success_threshold (cb_policy (rm_breaker rm))" and "0 < thr"
    and "enable_model utc mt ok i v False rm = Returns (res, rm1)" and "rc_success res"
  shows "(\<exists>rm2 st. load_successes (nat thr) i v rm1 = Returns rm2 \<and>
      cb_get_state (rm_breaker rm2) i v = Some st \<and> cs_state st = CLOSED \<and> cs_failures st = [] \<and>
      cs_recovery_attempts st = cb_attempts (rm_breaker rm) i v + 1) \<and>
    (\<forall>n. int n < thr \<longrightarrow> (\<exists>rm2. load_successes n i v rm1 = Returns rm2 \<and>
      is_circuit_half_open (rm_breaker rm2) i v))"
proof -
  obtain s0 where s0: "cb_get_state (rm_breaker rm) i v = Some s0"
    and b: "rm_breaker rm1 = put_state_of i v (reset_for_recovery (\<lambda>n. mt (n + 2)) s0) (rm_breaker rm)"
    using enable_breaker [OF assms(4,5)] .
  let ?st = "reset_for_recovery (\<lambda>n. mt (n + 2)) s0"
  have st: "cb_get_state (rm_breaker rm1) i v = Some ?st" "cs_state ?st = HALF_OPEN"
    "cs_half_open_successes ?st = 0" "\<not> cb_persistence (rm_breaker rm1)"
    "cb_policy (rm_breaker rm1) = cb_policy (rm_breaker rm)"
    using assms(1) by (simp_all add: b cb_get_state_def reset_for_recovery_def)
  note H = load_successes_half_open [OF st(4,1,2,3), unfolded st(5), folded assms(2)]
  define m where "m = nat thr - 1"
  have m: "int m < thr" "nat thr = Suc m" using assms(3) by (simp_all add: m_def)
  obtain r s where r: "load_successes m i v rm1 = Returns r" "cb_get_state (rm_breaker r) i v = Some s"
    "cs_state s = HALF_OPEN" "cs_half_open_successes s = int m"
    "cs_recovery_attempts s = cs_recovery_attempts ?st"
    "cb_policy (rm_breaker r) = cb_policy (rm_breaker rm)" "\<not> cb_persistence (rm_breaker r)"
    using H [OF m(1)] by auto
  have cur: "current (rm_breaker r) i v = s" using r(2) by (rule current_get)
  have "record_success True 0 i v (rm_breaker r) =
      Returns (True, put_state_of i v (close_circuit (cs_record_success s)) (rm_breaker r))"
    using record_success_close [of "rm_breaker r" i v True 0] r(3,4,6,7) m assms(2)
    by (simp add: cur)
  then have "load_successes (nat thr) i v rm1 = Returns
      (r\<lparr>rm_breaker := put_state_of i v (close_circuit (cs_record_success s)) (rm_breaker r)\<rparr>)"
    by (simp add: m(2) r(1) notify_load_success_def)
  moreover have "cs_failures (close_circuit (cs_record_success s)) = []"
    by (simp add: close_circuit_def)
  moreover have "cs_recovery_attempts (close_circuit (cs_record_success s)) =
      cb_attempts (rm_breaker rm) i v + 1"
    by (simp add: r(5) cb_attempts_def s0 reset_for_recovery_def)
  moreover have "\<exists>rm2. load_successes n i v rm1 = Returns rm2 \<and>
      is_circuit_half_open (rm_breaker rm2) i v" if "int n < thr" for n
    using H [OF that] by (auto simp: is_circuit_half_open_def)
  ultimately show ?thesis by (simp add: cb_get_state_def)
qed

theorem recovery_completes_witness:
  "\<exists>rm2 st. load_successes 3 ''fall'' ''1.0.0'' (snd enabled_stack) = Returns rm2 \<and>
     cb_get_state (rm_breaker rm2) ''fall'' ''1.0.0'' = Some st \<and> cs_state st = CLOSED"
proof -
  have e: "enable_model (\<lambda>_. 9) (\<lambda>_. 400) True ''fall'' ''1.0.0'' False disabled_stack =
      Returns (fst enabled_stack, snd enabled_stack)" using enabled_stack_run by simp
  have "\<not> cb_persistence (rm_breaker disabled_stack)"
    by (simp add: disabled_stack_def new_breaker_def load_persisted_state_def)
  moreover have "3 = fp_half_open_success_threshold (cb_policy (rm_breaker disabled_stack))"
    by (simp add: disabled_stack_breaker default_policy_def)
  ultimately show ?thesis
    using recovery_completes [OF _ _ _ e enabled_stack_success, of 3] by auto
qed

end
