(* ===== verification/RWLock.thy ===== *)
theory RWLock
  imports RuntimePrelude
begin

text \<open>
  The read-write lock of \<open>ai/runtime/registry.py\<close> (\<open>_RWLock\<close>). Every method runs under the inner
  mutex, which \<open>wait\<close> gives up, so the atomic steps are: a thread arrives and either takes the lock
  or starts to wait; a waiting thread that was notified checks its loop condition again; a holder
  releases. The state has the three fields of the class and, for each of the two condition
  variables, how many threads wait on it and how many were notified and have not run since.
\<close>

section \<open>The lock\<close>

record rwlock =
  rw_readers :: nat
  rw_writers_waiting :: nat
  rw_writer_active :: bool
  rw_blocked_readers :: nat
  rw_notified_readers :: nat
  rw_blocked_writers :: nat
  rw_notified_writers :: nat

definition new_rwlock :: rwlock where
  "new_rwlock = \<lparr>rw_readers = 0, rw_writers_waiting = 0, rw_writer_active = False,
     rw_blocked_readers = 0, rw_notified_readers = 0, rw_blocked_writers = 0,
     rw_notified_writers = 0\<rparr>"

text \<open>\<open>Condition.notify\<close> and \<open>Condition.notify_all\<close>.\<close>

definition notify_writer :: "rwlock \<Rightarrow> rwlock" where
  "notify_writer l =
     (if 0 < rw_blocked_writers l
      then l\<lparr>rw_blocked_writers := rw_blocked_writers l - 1,
             rw_notified_writers := rw_notified_writers l + 1\<rparr>
      else l)"

definition notify_all_readers :: "rwlock \<Rightarrow> rwlock" where
  "notify_all_readers l =
     l\<lparr>rw_notified_readers := rw_notified_readers l + rw_blocked_readers l,
       rw_blocked_readers := 0\<rparr>"

text \<open>The test of the \<open>while\<close> loop in \<open>_acquire_read\<close> and what follows it.\<close>

definition try_read :: "rwlock \<Rightarrow> rwlock" where
  "try_read l =
     (if rw_writer_active l \<or> 0 < rw_writers_waiting l
      then l\<lparr>rw_blocked_readers := rw_blocked_readers l + 1\<rparr>
      else l\<lparr>rw_readers := rw_readers l + 1\<rparr>)"

definition release_read :: "rwlock \<Rightarrow> rwlock" where
  "release_read l =
     (let l1 = l\<lparr>rw_readers := rw_readers l - 1\<rparr>
      in if rw_readers l1 = 0 then notify_writer l1 else l1)"

text \<open>
  The test of the \<open>while\<close> loop in \<open>_acquire_write\<close>, and what follows it, the \<open>finally\<close> included.
\<close>

definition try_write :: "rwlock \<Rightarrow> rwlock" where
  "try_write l =
     (if 0 < rw_readers l \<or> rw_writer_active l
      then l\<lparr>rw_blocked_writers := rw_blocked_writers l + 1\<rparr>
      else l\<lparr>rw_writer_active := True, rw_writers_waiting := rw_writers_waiting l - 1\<rparr>)"

definition arrive_write :: "rwlock \<Rightarrow> rwlock" where
  "arrive_write l = try_write (l\<lparr>rw_writers_waiting := rw_writers_waiting l + 1\<rparr>)"

definition release_write :: "rwlock \<Rightarrow> rwlock" where
  "release_write l =
     (let l1 = l\<lparr>rw_writer_active := False\<rparr>
      in if 0 < rw_writers_waiting l1 then notify_writer l1 else notify_all_readers l1)"

section \<open>Steps\<close>

text \<open>Steps of threads that are already there: releasing, and running again after a notification.\<close>

inductive serve :: "rwlock \<Rightarrow> rwlock \<Rightarrow> bool" where
  s_release_read: "0 < rw_readers l \<Longrightarrow> serve l (release_read l)"
| s_release_write: "rw_writer_active l \<Longrightarrow> serve l (release_write l)"
| s_wake_read: "0 < rw_notified_readers l \<Longrightarrow>
    serve l (try_read (l\<lparr>rw_notified_readers := rw_notified_readers l - 1\<rparr>))"
| s_wake_write: "0 < rw_notified_writers l \<Longrightarrow>
    serve l (try_write (l\<lparr>rw_notified_writers := rw_notified_writers l - 1\<rparr>))"

inductive lstep :: "rwlock \<Rightarrow> rwlock \<Rightarrow> bool" where
  l_serve: "serve l l' \<Longrightarrow> lstep l l'"
| l_arrive_read: "lstep l (try_read l)"
| l_arrive_write: "lstep l (arrive_write l)"

lemmas rw_ops = new_rwlock_def notify_writer_def notify_all_readers_def try_read_def release_read_def
  try_write_def arrive_write_def release_write_def

section \<open>The invariant\<close>

text \<open>
  A waiting writer is counted; an active writer is alone; and no thread waits without a reason that
  will end: a blocked reader waits for a writer, a blocked writer for a holder or for a writer that
  has been notified.
\<close>

definition rw_inv :: "rwlock \<Rightarrow> bool" where
  "rw_inv l \<longleftrightarrow>
     rw_writers_waiting l = rw_blocked_writers l + rw_notified_writers l \<and>
     (rw_writer_active l \<longrightarrow> rw_readers l = 0) \<and>
     (0 < rw_blocked_readers l \<longrightarrow> rw_writer_active l \<or> 0 < rw_writers_waiting l) \<and>
     (0 < rw_blocked_writers l \<longrightarrow>
        0 < rw_readers l \<or> rw_writer_active l \<or> 0 < rw_notified_writers l)"

lemma rw_inv_new: "rw_inv new_rwlock"
  by (simp add: rw_inv_def new_rwlock_def)

lemma rw_inv_serve: "serve l l' \<Longrightarrow> rw_inv l \<Longrightarrow> rw_inv l'"
  by (induction rule: serve.induct) (auto simp: rw_inv_def rw_ops Let_def)

lemma rw_inv_step: "lstep l l' \<Longrightarrow> rw_inv l \<Longrightarrow> rw_inv l'"
proof (induction rule: lstep.induct)
  case (l_serve l l')
  then show ?case by (rule rw_inv_serve)
qed (auto simp: rw_inv_def rw_ops)

interpretation rw: invariant_system "\<lambda>l. l = new_rwlock" lstep rw_inv
  by unfold_locales (simp_all add: rw_inv_new rw_inv_step)

text \<open>
  Mutual exclusion: in no reachable state do a reader and a writer, or two writers, hold the
  lock; a writer only starts when there is neither, and then it is the one that is active.
\<close>

theorem rwlock_mutual_exclusion:
  assumes "reach (\<lambda>l. l = new_rwlock) lstep l" and "rw_writer_active l"
  shows "rw_readers l = 0 \<and>
    rw_readers (try_read l) = 0 \<and>
    try_write l = l\<lparr>rw_blocked_writers := rw_blocked_writers l + 1\<rparr>"
  using rw.reach_invar [OF assms(1)] assms(2) by (simp add: rw_inv_def try_read_def try_write_def)

lemma one_writer: "reach (\<lambda>l. l = new_rwlock) lstep (arrive_write new_rwlock)"
  by (rule reach_step, rule reach_init, rule refl, rule l_arrive_write)

theorem rwlock_mutual_exclusion_witness:
  "rw_writer_active (arrive_write new_rwlock) \<and> rw_readers (arrive_write new_rwlock) = 0"
  using rwlock_mutual_exclusion [OF one_writer] by (simp add: rw_ops)

text \<open>
  Writer preference: a reader that arrives while a writer waits does not get the lock, whatever
  the readers that hold it do.
\<close>

theorem rwlock_writer_preference:
  assumes "0 < rw_writers_waiting l"
  shows "rw_readers (try_read l) = rw_readers l \<and>
    rw_blocked_readers (try_read l) = rw_blocked_readers l + 1"
  using assms by (simp add: try_read_def)

theorem rwlock_writer_preference_witness:
  "rw_readers (try_read (arrive_write (try_read new_rwlock))) = 1"
  using rwlock_writer_preference [of "arrive_write (try_read new_rwlock)"] by (simp add: rw_ops)

section \<open>Everyone is served\<close>

text \<open>The threads that are waiting for the lock or holding it.\<close>

definition rw_pending :: "rwlock \<Rightarrow> nat" where
  "rw_pending l = rw_readers l + (if rw_writer_active l then 1 else 0) + rw_blocked_readers l +
     rw_notified_readers l + rw_blocked_writers l + rw_notified_writers l"

definition rw_notified :: "rwlock \<Rightarrow> nat" where
  "rw_notified l = rw_notified_readers l + rw_notified_writers l"

lemma serve_decreases:
  "serve l l' \<Longrightarrow> rw_pending l' < rw_pending l \<or>
     rw_pending l' = rw_pending l \<and> rw_notified l' < rw_notified l"
  by (induction rule: serve.induct) (auto simp: rw_ops rw_pending_def rw_notified_def Let_def)

lemma serve_progress:
  assumes inv: "rw_inv l" and p: "0 < rw_pending l"
  shows "\<exists>l'. serve l l'"
proof -
  have "0 < rw_readers l \<or> rw_writer_active l \<or> 0 < rw_notified_readers l \<or>
      0 < rw_notified_writers l"
    using inv p by (auto simp: rw_inv_def rw_pending_def split: if_splits)
  then show ?thesis by (auto intro: serve.intros)
qed

lemma serve_wf: "wf {(l', l). serve l l'}"
proof (rule wf_subset)
  show "wf (measures [rw_pending, rw_notified])" by simp
  show "{(l', l). serve l l'} \<subseteq> measures [rw_pending, rw_notified]"
    using serve_decreases by auto
qed

text \<open>
  C28. No lost wake-up, no deadlock: from a reachable state, if no further thread arrives, every
  sequence of steps ends, and it can only end when no thread holds the lock or waits for it.
\<close>

theorem rwlock_everyone_served:
  assumes "reach (\<lambda>l. l = new_rwlock) lstep l"
  shows "wf {(l', l). serve l l'} \<and>
    (\<forall>l'. serve\<^sup>*\<^sup>* l l' \<and> (\<nexists>l''. serve l' l'') \<longrightarrow> rw_pending l' = 0) \<and>
    (\<exists>l'. serve\<^sup>*\<^sup>* l l' \<and> rw_pending l' = 0)"
proof -
  have inv: "rw_inv l" by (rule rw.reach_invar [OF assms])
  have star: "rw_inv l'" if "serve\<^sup>*\<^sup>* l l'" for l'
    using that by (induction rule: rtranclp_induct) (auto simp: inv intro: rw_inv_serve)
  have stuck: "rw_pending l' = 0" if "serve\<^sup>*\<^sup>* l l'" "\<nexists>l''. serve l' l''" for l'
    using serve_progress [OF star [OF that(1)]] that(2) by blast
  have "\<exists>m. serve\<^sup>*\<^sup>* k m \<and> (\<nexists>m'. serve m m')" for k
  proof (induction k rule: wf_induct_rule [OF serve_wf])
    case (1 k)
    show ?case
    proof (cases "\<exists>k'. serve k k'")
      case True
      then obtain k' where k': "serve k k'" by blast
      with 1 obtain m where "serve\<^sup>*\<^sup>* k' m" "\<nexists>m'. serve m m'" by blast
      with k' show ?thesis by (blast intro: converse_rtranclp_into_rtranclp)
    next
      case False
      then show ?thesis by blast
    qed
  qed
  then obtain m where "serve\<^sup>*\<^sup>* l m" "\<nexists>m'. serve m m'" by blast
  with stuck serve_wf show ?thesis by blast
qed

theorem rwlock_everyone_served_witness:
  "\<exists>l'. serve\<^sup>*\<^sup>* (arrive_write new_rwlock) l' \<and> rw_pending l' = 0"
  using rwlock_everyone_served [OF one_writer] by blast

end
