(* ===== verification/Sandbox.thy ===== *)
theory Sandbox
  imports RuntimeErrors RuntimeModels
begin

text \<open>
  Isolated execution, \<open>ai/runtime/sandbox.py\<close>: the timeout executor, execution metrics and health,
  \<open>ExecutionSandbox\<close> and \<open>SandboxManager\<close>. The code of a model is a parameter: each of its
  functions maps an input to what submitting it to the executor comes to (\<open>task\<close>). The thread pool
  behind the executor is not modelled beyond that outcome. Successive readings of the monotonic
  clock in one call are \<open>mt 0\<close>, \<open>mt 1\<close>, ..., of the wall clock \<open>utc 0\<close>, \<open>utc 1\<close>; \<open>tb\<close> is the text
  of \<open>traceback.format_exc()\<close>.
\<close>

section \<open>Stages and outcomes\<close>

datatype ExecutionStage = PREPROCESS | INFERENCE | POSTPROCESS

fun stage_value :: "ExecutionStage \<Rightarrow> string" where
  "stage_value PREPROCESS = ''preprocess''"
| "stage_value INFERENCE = ''inference''"
| "stage_value POSTPROCESS = ''postprocess''"

text \<open>\<open>stage.value.capitalize()\<close>\<close>

fun stage_title :: "ExecutionStage \<Rightarrow> string" where
  "stage_title PREPROCESS = ''Preprocess''"
| "stage_title INFERENCE = ''Inference''"
| "stage_title POSTPROCESS = ''Postprocess''"

datatype ExecutionOutcome = SUCCESS | TIMEOUT | EXCEPTION | CANCELLED | INVALID_INPUT | INVALID_OUTPUT

fun outcome_value :: "ExecutionOutcome \<Rightarrow> string" where
  "outcome_value SUCCESS = ''success''"
| "outcome_value TIMEOUT = ''timeout''"
| "outcome_value EXCEPTION = ''exception''"
| "outcome_value CANCELLED = ''cancelled''"
| "outcome_value INVALID_INPUT = ''invalid_input''"
| "outcome_value INVALID_OUTPUT = ''invalid_output''"

record 'v StageResult =
  sr_stage :: ExecutionStage
  sr_outcome :: ExecutionOutcome
  sr_duration_ms :: int
  sr_output :: "'v option"
  sr_error :: "ModelError option"

definition stage_success :: "'v StageResult \<Rightarrow> bool" where
  "stage_success sr \<longleftrightarrow> sr_outcome sr = SUCCESS"

record 'v ExecutionResult =
  er_success :: bool
  er_output :: "'v option"
  er_error :: "ModelError option"
  er_preprocess_ms :: int
  er_inference_ms :: int
  er_postprocess_ms :: int
  er_total_ms :: int
  er_model_id :: string
  er_version :: string
  er_request_id :: string
  er_timestamp :: real
  er_stage_results :: "'v StageResult list"

definition success_result ::
  "real \<Rightarrow> 'v \<Rightarrow> string \<Rightarrow> string \<Rightarrow> string \<Rightarrow> int \<Rightarrow> int \<Rightarrow> int \<Rightarrow> 'v StageResult list \<Rightarrow> 'v ExecutionResult" where
  "success_result now output model_id version request_id pre_ms inf_ms post_ms srs =
     \<lparr>er_success = True, er_output = Some output, er_error = None, er_preprocess_ms = pre_ms,
      er_inference_ms = inf_ms, er_postprocess_ms = post_ms, er_total_ms = pre_ms + inf_ms + post_ms,
      er_model_id = model_id, er_version = version, er_request_id = request_id,
      er_timestamp = now, er_stage_results = srs\<rparr>"

definition failure_result ::
  "real \<Rightarrow> ModelError \<Rightarrow> string \<Rightarrow> string \<Rightarrow> string \<Rightarrow> int \<Rightarrow> int \<Rightarrow> int \<Rightarrow> 'v StageResult list \<Rightarrow> 'v ExecutionResult" where
  "failure_result now error model_id version request_id pre_ms inf_ms post_ms srs =
     \<lparr>er_success = False, er_output = None, er_error = Some error, er_preprocess_ms = pre_ms,
      er_inference_ms = inf_ms, er_postprocess_ms = post_ms, er_total_ms = pre_ms + inf_ms + post_ms,
      er_model_id = model_id, er_version = version, er_request_id = request_id,
      er_timestamp = now, er_stage_results = srs\<rparr>"

text \<open>\<open>render\<close> turns the model's output into a value of the answer.\<close>

definition result_to_dict :: "('v \<Rightarrow> jval) \<Rightarrow> 'v ExecutionResult \<Rightarrow> (string, jval) dict" where
  "result_to_dict render er =
     (let result =
        [(''success'', JBool (er_success er)), (''model_id'', JStr (er_model_id er)),
         (''version'', JStr (er_version er)), (''request_id'', JStr (er_request_id er)),
         (''timestamp'', JTime (er_timestamp er)),
         (''timing'', JDict [(''preprocess_ms'', JInt (er_preprocess_ms er)),
            (''inference_ms'', JInt (er_inference_ms er)),
            (''postprocess_ms'', JInt (er_postprocess_ms er)),
            (''total_ms'', JInt (er_total_ms er))])]
      in if er_success er then dput ''output'' (jopt render (er_output er)) result
         else dput ''error'' (jopt (JDict \<circ> error_to_dict) (er_error er)) result)"

section \<open>Metrics and health\<close>

record ExecutionMetrics =
  em_total :: int
  em_successful :: int
  em_failed :: int
  em_timeouts :: int
  em_exceptions :: int
  em_total_time_ms :: int
  em_min_time_ms :: "int option"
  em_max_time_ms :: "int option"
  em_consecutive_failures :: int
  em_consecutive_successes :: int

definition new_metrics :: ExecutionMetrics where
  "new_metrics = \<lparr>em_total = 0, em_successful = 0, em_failed = 0, em_timeouts = 0,
     em_exceptions = 0, em_total_time_ms = 0, em_min_time_ms = None, em_max_time_ms = None,
     em_consecutive_failures = 0, em_consecutive_successes = 0\<rparr>"

definition metrics_success :: "int \<Rightarrow> ExecutionMetrics \<Rightarrow> ExecutionMetrics" where
  "metrics_success duration_ms m =
     m\<lparr>em_total := em_total m + 1, em_successful := em_successful m + 1,
       em_total_time_ms := em_total_time_ms m + duration_ms,
       em_consecutive_successes := em_consecutive_successes m + 1, em_consecutive_failures := 0,
       em_min_time_ms := (case em_min_time_ms m of None \<Rightarrow> Some duration_ms
          | Some x \<Rightarrow> if duration_ms < x then Some duration_ms else Some x),
       em_max_time_ms := (case em_max_time_ms m of None \<Rightarrow> Some duration_ms
          | Some x \<Rightarrow> if duration_ms > x then Some duration_ms else Some x)\<rparr>"

definition metrics_failure :: "bool \<Rightarrow> ExecutionMetrics \<Rightarrow> ExecutionMetrics" where
  "metrics_failure is_timeout m =
     (let m1 = m\<lparr>em_total := em_total m + 1, em_failed := em_failed m + 1,
           em_consecutive_failures := em_consecutive_failures m + 1, em_consecutive_successes := 0\<rparr>
      in if is_timeout then m1\<lparr>em_timeouts := em_timeouts m1 + 1\<rparr>
         else m1\<lparr>em_exceptions := em_exceptions m1 + 1\<rparr>)"

definition success_rate :: "ExecutionMetrics \<Rightarrow> real" where
  "success_rate m =
     (if em_total m = 0 then 100 else of_int (em_successful m) / of_int (em_total m) * 100)"

definition average_execution_time_ms :: "ExecutionMetrics \<Rightarrow> real option" where
  "average_execution_time_ms m =
     (if em_successful m = 0 then None
      else Some (of_int (em_total_time_ms m) / of_int (em_successful m)))"

record HealthManager =
  hm_degraded :: int
  hm_unhealthy :: int
  hm_recovery :: int

definition default_health_manager :: HealthManager where
  "default_health_manager = \<lparr>hm_degraded = 3, hm_unhealthy = 5, hm_recovery = 5\<rparr>"

definition determine_health :: "HealthManager \<Rightarrow> HealthStatus \<Rightarrow> ExecutionMetrics \<Rightarrow> HealthStatus" where
  "determine_health hm current m =
     (let failures = em_consecutive_failures m; successes = em_consecutive_successes m
      in if failures \<ge> hm_unhealthy hm then UNHEALTHY
         else if failures \<ge> hm_degraded hm then DEGRADED
         else if current = UNHEALTHY \<and> successes \<ge> hm_recovery hm then HEALTHY
         else if current = UNHEALTHY \<and> successes \<ge> hm_recovery hm div 2 then DEGRADED
         else if current = DEGRADED \<and> successes \<ge> hm_recovery hm then HEALTHY
         else current)"

section \<open>The timeout executor\<close>

datatype ExecutorMode = THREAD | PROCESS

fun mode_value :: "ExecutorMode \<Rightarrow> string" where
  "mode_value THREAD = ''thread''"
| "mode_value PROCESS = ''process''"

text \<open>
  Exceptions by the classes the code distinguishes, with their text; and what submitting a function
  comes to: an answer, an exception, no answer within the time allowed, or a failing \<open>submit\<close>.
\<close>

datatype py_exc = ExcTimeout string | ExcMemory string | ExcOther string

fun exc_text :: "py_exc \<Rightarrow> string" where
  "exc_text (ExcTimeout s) = s"
| "exc_text (ExcMemory s) = s"
| "exc_text (ExcOther s) = s"

datatype 'v task = Answers 'v | Throws py_exc | NoAnswer | SubmitThrows py_exc

record TimeoutExecutor =
  te_mode :: ExecutorMode
  te_max_workers :: int
  te_shutdown :: bool
  te_pending :: "(nat, real) dict"
  te_counter :: nat

definition new_executor :: "int \<Rightarrow> ExecutorMode \<Rightarrow> TimeoutExecutor" where
  "new_executor max_workers mode =
     \<lparr>te_mode = mode, te_max_workers = max_workers, te_shutdown = False, te_pending = [],
      te_counter = 0\<rparr>"

definition pending_count :: "TimeoutExecutor \<Rightarrow> nat" where
  "pending_count te = length (te_pending te)"

text \<open>\<open>int(x)\<close> truncates towards zero.\<close>

definition py_trunc :: "real \<Rightarrow> int" where
  "py_trunc x = (if 0 \<le> x then \<lfloor>x\<rfloor> else \<lceil>x\<rceil>)"

text \<open>
  A \<open>TimeoutError\<close> that the function itself raises is caught like one of \<open>future.result\<close>: since
  Python 3.11 they are the same class.
\<close>

definition execute_with_timeout ::
  "real \<Rightarrow> real \<Rightarrow> 'v task \<Rightarrow> int \<Rightarrow> TimeoutExecutor \<Rightarrow>
   py_error + ('v option \<times> py_exc option \<times> int) \<times> TimeoutExecutor" where
  "execute_with_timeout start_time end_time task timeout_ms te =
     (if te_shutdown te then Inl (RuntimeError ''Executor has been shut down'')
      else
        (let future_id = te_counter te + 1;
             te1 = te\<lparr>te_counter := future_id\<rparr>;
             te2 = (case task of SubmitThrows e \<Rightarrow> te1
                    | _ \<Rightarrow> te1\<lparr>te_pending := dput future_id start_time (te_pending te1)\<rparr>);
             duration_ms = py_trunc ((end_time - start_time) * 1000);
             answer = (case task of
                 Answers v \<Rightarrow> (Some v, None, duration_ms)
               | NoAnswer \<Rightarrow> (None, Some (ExcTimeout (''Execution exceeded '' @ show_int timeout_ms @ ''ms'')),
                   duration_ms)
               | Throws e \<Rightarrow> (None, Some (case e of
                     ExcTimeout s \<Rightarrow> ExcTimeout (''Execution exceeded '' @ show_int timeout_ms @ ''ms'')
                   | _ \<Rightarrow> e), duration_ms)
               | SubmitThrows e \<Rightarrow> (None, Some e, duration_ms))
         in Inr (answer, te2\<lparr>te_pending := ddel future_id (te_pending te2)\<rparr>)))"

text \<open>\<open>future_info\<close> is what the future objects answer about themselves.\<close>

definition te_zombie_tasks ::
  "(nat \<Rightarrow> (string, jval) dict) \<Rightarrow> real \<Rightarrow> real \<Rightarrow> TimeoutExecutor \<Rightarrow> (string, jval) dict list" where
  "te_zombie_tasks future_info now threshold_seconds te =
     map (\<lambda>(i, t). [(''future_id'', JInt (int i)), (''elapsed_seconds'', JReal (now - t))] @ future_info i)
       (filter (\<lambda>(i, t). now - t > threshold_seconds) (te_pending te))"

definition te_get_stats :: "TimeoutExecutor \<Rightarrow> (string, jval) dict" where
  "te_get_stats te =
     [(''mode'', JStr (mode_value (te_mode te))), (''max_workers'', JInt (te_max_workers te)),
      (''pending_count'', JInt (int (length (te_pending te)))),
      (''total_submitted'', JInt (int (te_counter te))), (''shutdown'', JBool (te_shutdown te))]"

definition te_shutdown_call :: "TimeoutExecutor \<Rightarrow> TimeoutExecutor" where
  "te_shutdown_call te = te\<lparr>te_shutdown := True\<rparr>"

section \<open>The execution sandbox\<close>

text \<open>
  The functions of a loaded model. \<open>infer\<close> is given the model instance and the configuration when
  there are any (\<open>functools.partial\<close>); instances are truthy objects.
\<close>

record ('v, 'm, 'c) LoadedModel =
  lm_model_id :: string
  lm_version :: string
  lm_infer :: "'m option \<Rightarrow> 'c option \<Rightarrow> 'v \<Rightarrow> 'v task"
  lm_preprocess :: "('v \<Rightarrow> 'v task) option"
  lm_postprocess :: "('v \<Rightarrow> 'v task) option"
  lm_model_instance :: "'m option"
  lm_load_time_ms :: int
  lm_device :: string

record ('v, 'm, 'c) ExecutionSandbox =
  sb_loaded_model :: "('v, 'm, 'c) LoadedModel"
  sb_model_id :: string
  sb_version :: string
  sb_preprocess_timeout_ms :: int
  sb_inference_timeout_ms :: int
  sb_postprocess_timeout_ms :: int
  sb_executor :: "TimeoutExecutor option"
  sb_health_manager :: HealthManager
  sb_metrics :: ExecutionMetrics
  sb_current_health :: HealthStatus
  sb_callback :: bool

text \<open>
  \<open>shared\<close> says that an executor was handed in; otherwise the sandbox owns one of two workers.
\<close>

definition new_sandbox ::
  "('v, 'm, 'c) LoadedModel \<Rightarrow> ModelVersionDescriptor \<Rightarrow> bool \<Rightarrow> HealthManager option \<Rightarrow> bool \<Rightarrow>
   ('v, 'm, 'c) ExecutionSandbox" where
  "new_sandbox lm d shared health_manager callback =
     \<lparr>sb_loaded_model = lm, sb_model_id = lm_model_id lm, sb_version = lm_version lm,
      sb_preprocess_timeout_ms = rl_preprocessing_timeout_ms (vd_limits d),
      sb_inference_timeout_ms = rl_inference_timeout_ms (vd_limits d),
      sb_postprocess_timeout_ms = rl_postprocessing_timeout_ms (vd_limits d),
      sb_executor = (if shared then None else Some (new_executor 2 THREAD)),
      sb_health_manager = (case health_manager of None \<Rightarrow> default_health_manager | Some h \<Rightarrow> h),
      sb_metrics = new_metrics, sb_current_health = HEALTHY, sb_callback = callback\<rparr>"

fun timeout_code :: "ExecutionStage \<Rightarrow> ErrorCode" where
  "timeout_code PREPROCESS = EXEC_PREPROCESS_TIMEOUT"
| "timeout_code INFERENCE = EXEC_INFERENCE_TIMEOUT"
| "timeout_code POSTPROCESS = EXEC_POSTPROCESS_TIMEOUT"

fun failed_code :: "ExecutionStage \<Rightarrow> ErrorCode" where
  "failed_code PREPROCESS = EXEC_PREPROCESS_FAILED"
| "failed_code INFERENCE = EXEC_INFERENCE_FAILED"
| "failed_code POSTPROCESS = EXEC_POSTPROCESS_FAILED"

definition create_timeout_error ::
  "real \<Rightarrow> ('v, 'm, 'c) ExecutionSandbox \<Rightarrow> ExecutionStage \<Rightarrow> int \<Rightarrow> int \<Rightarrow> ModelError" where
  "create_timeout_error now sb stage timeout_ms duration_ms =
     execution_error now (timeout_code stage)
       (stage_title stage @ '' timed out after '' @ show_int timeout_ms @ ''ms'')
       (Some (sb_model_id sb)) (Some (sb_version sb)) (Some (stage_value stage)) (Some duration_ms) None
       [(''timeout_limit_ms'', JInt timeout_ms)]"

definition create_stage_error ::
  "real \<Rightarrow> string \<Rightarrow> ('v, 'm, 'c) ExecutionSandbox \<Rightarrow> ExecutionStage \<Rightarrow> py_exc \<Rightarrow> int \<Rightarrow> ModelError" where
  "create_stage_error now tb sb stage exc duration_ms =
     execution_error now (failed_code stage) (stage_title stage @ '' failed: '' @ exc_text exc)
       (Some (sb_model_id sb)) (Some (sb_version sb)) (Some (stage_value stage)) (Some duration_ms)
       (Some (exc_text exc)) [(''traceback'', JStr tb)]"

definition classify_stage ::
  "real \<Rightarrow> string \<Rightarrow> ('v, 'm, 'c) ExecutionSandbox \<Rightarrow> ExecutionStage \<Rightarrow> int \<Rightarrow>
   'v option \<times> py_exc option \<times> int \<Rightarrow> 'v StageResult" where
  "classify_stage now tb sb stage timeout_ms answer =
     (case answer of (result, exc, duration_ms) \<Rightarrow>
        (case exc of
           None \<Rightarrow> \<lparr>sr_stage = stage, sr_outcome = SUCCESS, sr_duration_ms = duration_ms,
                     sr_output = result, sr_error = None\<rparr>
         | Some (ExcTimeout s) \<Rightarrow>
             \<lparr>sr_stage = stage, sr_outcome = TIMEOUT, sr_duration_ms = duration_ms, sr_output = None,
              sr_error = Some (create_timeout_error now sb stage timeout_ms duration_ms)\<rparr>
         | Some (ExcMemory s) \<Rightarrow>
             \<lparr>sr_stage = stage, sr_outcome = EXCEPTION, sr_duration_ms = duration_ms, sr_output = None,
              sr_error = Some (execution_error now EXEC_OUT_OF_MEMORY
                 (''Out of memory during '' @ stage_value stage) (Some (sb_model_id sb))
                 (Some (sb_version sb)) (Some (stage_value stage)) (Some duration_ms) (Some s) [])\<rparr>
         | Some (ExcOther s) \<Rightarrow>
             \<lparr>sr_stage = stage, sr_outcome = EXCEPTION, sr_duration_ms = duration_ms, sr_output = None,
              sr_error = Some (create_stage_error now tb sb stage (ExcOther s) duration_ms)\<rparr>))"

definition execute_stage ::
  "real \<Rightarrow> string \<Rightarrow> real \<Rightarrow> real \<Rightarrow> ('v, 'm, 'c) ExecutionSandbox \<Rightarrow> ExecutionStage \<Rightarrow> 'v task \<Rightarrow> int \<Rightarrow>
   TimeoutExecutor \<Rightarrow> py_error + 'v StageResult \<times> TimeoutExecutor" where
  "execute_stage now tb start_time end_time sb stage task timeout_ms te =
     (case execute_with_timeout start_time end_time task timeout_ms te of
        Inl e \<Rightarrow> Inl e
      | Inr (answer, te') \<Rightarrow> Inr (classify_stage now tb sb stage timeout_ms answer, te'))"

text \<open>The class of a Python value, as far as \<open>_validate_output\<close> looks at it.\<close>

datatype py_kind = KNone | KDict | KOther string

definition validate_output ::
  "real \<Rightarrow> ('v \<Rightarrow> py_kind) \<Rightarrow> ('v, 'm, 'c) ExecutionSandbox \<Rightarrow> 'v \<Rightarrow> ModelError option" where
  "validate_output now kind sb output =
     (case kind output of
        KNone \<Rightarrow> Some (execution_error now EXEC_INVALID_OUTPUT ''Inference returned None''
            (Some (sb_model_id sb)) (Some (sb_version sb)) (Some ''inference'') None None [])
      | KOther t \<Rightarrow> Some (execution_error now EXEC_INVALID_OUTPUT
            (''Inference must return dict, got '' @ t)
            (Some (sb_model_id sb)) (Some (sb_version sb)) (Some ''inference'') None None [])
      | KDict \<Rightarrow> None)"

type_synonym health_call = "string \<times> string \<times> HealthStatus \<times> HealthStatus"

definition update_health_of ::
  "ExecutionMetrics \<Rightarrow> ('v, 'm, 'c) ExecutionSandbox \<Rightarrow> health_call list \<times> ('v, 'm, 'c) ExecutionSandbox" where
  "update_health_of metrics sb =
     (let old_health = sb_current_health sb;
          new_health = determine_health (sb_health_manager sb) old_health metrics
      in (if old_health \<noteq> new_health \<and> sb_callback sb
          then [(sb_model_id sb, sb_version sb, old_health, new_health)] else [],
          sb\<lparr>sb_metrics := metrics, sb_current_health := new_health\<rparr>))"

definition sb_record_success ::
  "int \<Rightarrow> ('v, 'm, 'c) ExecutionSandbox \<Rightarrow> health_call list \<times> ('v, 'm, 'c) ExecutionSandbox" where
  "sb_record_success duration_ms sb = update_health_of (metrics_success duration_ms (sb_metrics sb)) sb"

definition sb_record_failure ::
  "bool \<Rightarrow> ('v, 'm, 'c) ExecutionSandbox \<Rightarrow> health_call list \<times> ('v, 'm, 'c) ExecutionSandbox" where
  "sb_record_failure is_timeout sb = update_health_of (metrics_failure is_timeout (sb_metrics sb)) sb"

definition is_timeout_code :: "ErrorCode \<Rightarrow> bool" where
  "is_timeout_code c \<longleftrightarrow> c \<in> {EXEC_PREPROCESS_TIMEOUT, EXEC_INFERENCE_TIMEOUT, EXEC_POSTPROCESS_TIMEOUT}"

text \<open>
  The outcome of one \<open>execute\<close>: the result, the calls of the health callback, the sandbox and the
  executor it used.
\<close>

type_synonym ('v, 'm, 'c) executed =
  "'v ExecutionResult \<times> health_call list \<times> ('v, 'm, 'c) ExecutionSandbox \<times> TimeoutExecutor"

definition handle_failure ::
  "real \<Rightarrow> ModelError \<Rightarrow> string \<Rightarrow> int \<Rightarrow> int \<Rightarrow> int \<Rightarrow> 'v StageResult list \<Rightarrow> ('v, 'm, 'c) ExecutionSandbox \<Rightarrow>
   TimeoutExecutor \<Rightarrow> ('v, 'm, 'c) executed" where
  "handle_failure now error request_id pre_ms inf_ms post_ms srs sb te =
     (let (calls, sb') = sb_record_failure (is_timeout_code (err_code error)) sb
      in (failure_result now error (sb_model_id sb) (sb_version sb) request_id pre_ms inf_ms post_ms srs,
          calls, sb', te))"

text \<open>The \<open>except Exception\<close> of \<open>execute\<close>.\<close>

definition unexpected_error ::
  "(nat \<Rightarrow> real) \<Rightarrow> string \<Rightarrow> string \<Rightarrow> int \<Rightarrow> int \<Rightarrow> int \<Rightarrow> 'v StageResult list \<Rightarrow> ('v, 'm, 'c) ExecutionSandbox \<Rightarrow>
   TimeoutExecutor \<Rightarrow> py_error \<Rightarrow> ('v, 'm, 'c) executed" where
  "unexpected_error utc tb request_id pre_ms inf_ms post_ms srs sb te e =
     (let text = (case e of RuntimeError s \<Rightarrow> s | _ \<Rightarrow> [])
      in handle_failure (utc 1)
           (execution_error (utc 0) EXEC_GENERIC_ERROR (''Unexpected sandbox error: '' @ text)
              (Some (sb_model_id sb)) (Some (sb_version sb)) None None (Some text)
              [(''traceback'', JStr tb)])
           request_id pre_ms inf_ms post_ms srs sb te)"

subsection \<open>The pipeline of one execution\<close>

text \<open>
  What a call of \<open>execute\<close> observes of its surroundings: the clocks (\<open>mt (2 * k + 1)\<close> and
  \<open>mt (2 * k + 2)\<close> around stage \<open>k\<close>), the traceback text, the class of a value, and the identifier
  generated when none is given.
\<close>

record 'v exec_env =
  xe_utc :: "nat \<Rightarrow> real"
  xe_mt :: "nat \<Rightarrow> real"
  xe_tb :: string
  xe_kind :: "'v \<Rightarrow> py_kind"
  xe_new_id :: string

definition run_stage ::
  "'v exec_env \<Rightarrow> nat \<Rightarrow> ('v, 'm, 'c) ExecutionSandbox \<Rightarrow> ExecutionStage \<Rightarrow> 'v task \<Rightarrow> int \<Rightarrow>
   TimeoutExecutor \<Rightarrow> py_error + 'v StageResult \<times> TimeoutExecutor" where
  "run_stage env k sb stage task timeout_ms te =
     execute_stage (xe_utc env 0) (xe_tb env) (xe_mt env (2 * k + 1)) (xe_mt env (2 * k + 2)) sb stage
       task timeout_ms te"

text \<open>Success: the metrics are updated and the result is built.\<close>

definition finish_execution ::
  "'v exec_env \<Rightarrow> string \<Rightarrow> 'v \<Rightarrow> int \<Rightarrow> int \<Rightarrow> int \<Rightarrow> 'v StageResult list \<Rightarrow> ('v, 'm, 'c) ExecutionSandbox \<Rightarrow>
   TimeoutExecutor \<Rightarrow> ('v, 'm, 'c) executed" where
  "finish_execution env rid output pre_ms inf_ms post_ms srs sb te =
     (let (calls, sb') = sb_record_success (pre_ms + inf_ms + post_ms) sb
      in (success_result (xe_utc env 1) output (sb_model_id sb) (sb_version sb) rid pre_ms inf_ms post_ms srs,
          calls, sb', te))"

text \<open>Stage 3, with the output of the inference.\<close>

definition execute_postprocess ::
  "'v exec_env \<Rightarrow> string \<Rightarrow> 'v \<Rightarrow> int \<Rightarrow> int \<Rightarrow> 'v StageResult list \<Rightarrow> ('v, 'm, 'c) ExecutionSandbox \<Rightarrow>
   TimeoutExecutor \<Rightarrow> ('v, 'm, 'c) executed" where
  "execute_postprocess env rid raw pre_ms inf_ms srs sb te =
     (case lm_postprocess (sb_loaded_model sb) of
        None \<Rightarrow> finish_execution env rid raw pre_ms inf_ms 0 srs sb te
      | Some f \<Rightarrow>
          (case run_stage env 2 sb POSTPROCESS (f raw) (sb_postprocess_timeout_ms sb) te of
             Inl e \<Rightarrow> unexpected_error (xe_utc env) (xe_tb env) rid pre_ms inf_ms 0 srs sb te e
           | Inr (sr, te') \<Rightarrow>
               (if \<not> stage_success sr
                then handle_failure (xe_utc env 1) (the (sr_error sr)) rid pre_ms inf_ms
                       (sr_duration_ms sr) (srs @ [sr]) sb te'
                else finish_execution env rid (the (sr_output sr)) pre_ms inf_ms (sr_duration_ms sr)
                       (srs @ [sr]) sb te')))"

text \<open>Stage 2 and the validation of its output, with the preprocessed input.\<close>

definition execute_inference ::
  "'v exec_env \<Rightarrow> string \<Rightarrow> 'm option \<Rightarrow> 'c option \<Rightarrow> 'v \<Rightarrow> int \<Rightarrow> 'v StageResult list \<Rightarrow>
   ('v, 'm, 'c) ExecutionSandbox \<Rightarrow> TimeoutExecutor \<Rightarrow> ('v, 'm, 'c) executed" where
  "execute_inference env rid model_instance config processed pre_ms srs sb te =
     (let lm = sb_loaded_model sb;
          model = (case model_instance of None \<Rightarrow> lm_model_instance lm | Some m \<Rightarrow> Some m)
      in case run_stage env 1 sb INFERENCE (lm_infer lm model config processed)
                (sb_inference_timeout_ms sb) te of
           Inl e \<Rightarrow> unexpected_error (xe_utc env) (xe_tb env) rid pre_ms 0 0 srs sb te e
         | Inr (sr, te') \<Rightarrow>
             (if \<not> stage_success sr
              then handle_failure (xe_utc env 1) (the (sr_error sr)) rid pre_ms (sr_duration_ms sr) 0
                     (srs @ [sr]) sb te'
              else
                (case validate_output (xe_utc env 0) (xe_kind env) sb (the (sr_output sr)) of
                   Some error \<Rightarrow> handle_failure (xe_utc env 1) error rid pre_ms (sr_duration_ms sr) 0
                                   (srs @ [sr]) sb te'
                 | None \<Rightarrow> execute_postprocess env rid (the (sr_output sr)) pre_ms (sr_duration_ms sr)
                             (srs @ [sr]) sb te')))"

definition execute ::
  "'v exec_env \<Rightarrow> 'v \<Rightarrow> string option \<Rightarrow> 'm option \<Rightarrow> 'c option \<Rightarrow> ('v, 'm, 'c) ExecutionSandbox \<Rightarrow>
   TimeoutExecutor \<Rightarrow> ('v, 'm, 'c) executed" where
  "execute env frame request_id model_instance config sb te =
     (let rid = (if truthy_str request_id then the request_id else xe_new_id env)
      in case lm_preprocess (sb_loaded_model sb) of
           None \<Rightarrow> execute_inference env rid model_instance config frame 0 [] sb te
         | Some f \<Rightarrow>
             (case run_stage env 0 sb PREPROCESS (f frame) (sb_preprocess_timeout_ms sb) te of
                Inl e \<Rightarrow> unexpected_error (xe_utc env) (xe_tb env) rid 0 0 0 [] sb te e
              | Inr (sr, te') \<Rightarrow>
                  (if \<not> stage_success sr
                   then handle_failure (xe_utc env 1) (the (sr_error sr)) rid (sr_duration_ms sr) 0 0
                          [sr] sb te'
                   else execute_inference env rid model_instance config (the (sr_output sr))
                          (sr_duration_ms sr) [sr] sb te')))"

definition reset_metrics :: "('v, 'm, 'c) ExecutionSandbox \<Rightarrow> ('v, 'm, 'c) ExecutionSandbox" where
  "reset_metrics sb = sb\<lparr>sb_metrics := new_metrics, sb_current_health := HEALTHY\<rparr>"

text \<open>\<open>shutdown\<close> closes the executor only when the sandbox owns it.\<close>

definition sb_shutdown :: "('v, 'm, 'c) ExecutionSandbox \<Rightarrow> ('v, 'm, 'c) ExecutionSandbox" where
  "sb_shutdown sb = sb\<lparr>sb_executor := map_option te_shutdown_call (sb_executor sb)\<rparr>"

section \<open>The sandbox manager\<close>

record ('v, 'm, 'c) SandboxManager =
  sm_sandboxes :: "(string, ('v, 'm, 'c) ExecutionSandbox) dict"
  sm_shared_executor :: "TimeoutExecutor option"
  sm_health_manager :: "HealthManager option"
  sm_callback :: bool

definition new_sandbox_manager ::
  "TimeoutExecutor option \<Rightarrow> HealthManager option \<Rightarrow> bool \<Rightarrow> ExecutorMode \<Rightarrow> int \<Rightarrow> ('v, 'm, 'c) SandboxManager" where
  "new_sandbox_manager shared health_manager callback mode max_workers =
     \<lparr>sm_sandboxes = [],
      sm_shared_executor = (if shared = None \<and> mode = PROCESS
        then Some (new_executor max_workers mode) else shared),
      sm_health_manager = health_manager, sm_callback = callback\<rparr>"

definition set_health_change_callback :: "bool \<Rightarrow> ('v, 'm, 'c) SandboxManager \<Rightarrow> ('v, 'm, 'c) SandboxManager" where
  "set_health_change_callback c sm = sm\<lparr>sm_callback := c\<rparr>"

text \<open>A replaced sandbox is shut down; nothing refers to it any more.\<close>

definition create_sandbox ::
  "('v, 'm, 'c) LoadedModel \<Rightarrow> ModelVersionDescriptor \<Rightarrow> ('v, 'm, 'c) SandboxManager \<Rightarrow>
   ('v, 'm, 'c) ExecutionSandbox \<times> ('v, 'm, 'c) SandboxManager" where
  "create_sandbox lm d sm =
     (let sb = new_sandbox lm d (sm_shared_executor sm \<noteq> None) (sm_health_manager sm) (sm_callback sm)
      in (sb, sm\<lparr>sm_sandboxes :=
            dput (make_qualified_id (lm_model_id lm) (lm_version lm)) sb (sm_sandboxes sm)\<rparr>))"

definition get_sandbox ::
  "('v, 'm, 'c) SandboxManager \<Rightarrow> string \<Rightarrow> string \<Rightarrow> ('v, 'm, 'c) ExecutionSandbox option" where
  "get_sandbox sm model_id version = dget (sm_sandboxes sm) (make_qualified_id model_id version)"

definition remove_sandbox ::
  "string \<Rightarrow> string \<Rightarrow> ('v, 'm, 'c) SandboxManager \<Rightarrow> bool \<times> ('v, 'm, 'c) SandboxManager" where
  "remove_sandbox model_id version sm =
     (let qid = make_qualified_id model_id version
      in (dget (sm_sandboxes sm) qid \<noteq> None, sm\<lparr>sm_sandboxes := ddel qid (sm_sandboxes sm)\<rparr>))"

definition sm_executor_of ::
  "('v, 'm, 'c) SandboxManager \<Rightarrow> ('v, 'm, 'c) ExecutionSandbox \<Rightarrow> TimeoutExecutor" where
  "sm_executor_of sm sb = (case sb_executor sb of None \<Rightarrow> the (sm_shared_executor sm) | Some te \<Rightarrow> te)"

text \<open>An execution through a sandbox that the manager holds, and the manager after it.\<close>

definition execute_stored ::
  "'v exec_env \<Rightarrow> string \<Rightarrow> string \<Rightarrow> 'v \<Rightarrow> string option \<Rightarrow> 'c option \<Rightarrow> ('v, 'm, 'c) ExecutionSandbox \<Rightarrow>
   ('v, 'm, 'c) SandboxManager \<Rightarrow> 'v ExecutionResult \<times> health_call list \<times> ('v, 'm, 'c) SandboxManager" where
  "execute_stored env model_id version frame request_id config sb sm =
     (let (er, calls, sb1, te1) = execute env frame request_id None config sb (sm_executor_of sm sb);
          sb2 = (if sb_executor sb = None then sb1 else sb1\<lparr>sb_executor := Some te1\<rparr>);
          sm1 = sm\<lparr>sm_sandboxes := dput (make_qualified_id model_id version) sb2 (sm_sandboxes sm)\<rparr>
      in (er, calls, if sb_executor sb = None then sm1\<lparr>sm_shared_executor := Some te1\<rparr> else sm1))"

definition manager_execute ::
  "'v exec_env \<Rightarrow> string \<Rightarrow> string \<Rightarrow> 'v \<Rightarrow> string option \<Rightarrow> 'c option \<Rightarrow> ('v, 'm, 'c) SandboxManager \<Rightarrow>
   'v ExecutionResult \<times> health_call list \<times> ('v, 'm, 'c) SandboxManager" where
  "manager_execute env model_id version frame request_id config sm =
     (case get_sandbox sm model_id version of
        None \<Rightarrow>
          (failure_result (xe_utc env 1)
             (execution_error (xe_utc env 0) EXEC_MODEL_NOT_READY
                (''No sandbox found for '' @ make_qualified_id model_id version)
                (Some model_id) (Some version) None None None [])
             model_id version (if truthy_str request_id then the request_id else []) 0 0 0 [], [], sm)
      | Some sb \<Rightarrow> execute_stored env model_id version frame request_id config sb sm)"

definition get_all_health :: "('v, 'm, 'c) SandboxManager \<Rightarrow> (string, HealthStatus) dict" where
  "get_all_health sm = map (\<lambda>(qid, sb). (qid, sb_current_health sb)) (sm_sandboxes sm)"

definition get_all_metrics :: "('v, 'm, 'c) SandboxManager \<Rightarrow> (string, ExecutionMetrics) dict" where
  "get_all_metrics sm = map (\<lambda>(qid, sb). (qid, sb_metrics sb)) (sm_sandboxes sm)"

definition get_all_executor_stats :: "('v, 'm, 'c) SandboxManager \<Rightarrow> (string, (string, jval) dict) dict" where
  "get_all_executor_stats sm =
     map (\<lambda>(qid, sb). (qid, te_get_stats (sm_executor_of sm sb))) (sm_sandboxes sm)"

definition get_all_zombie_tasks ::
  "(nat \<Rightarrow> (string, jval) dict) \<Rightarrow> real \<Rightarrow> real \<Rightarrow> ('v, 'm, 'c) SandboxManager \<Rightarrow>
   (string, (string, jval) dict list) dict" where
  "get_all_zombie_tasks info now threshold sm =
     filter (\<lambda>(qid, zs). zs \<noteq> [])
       (map (\<lambda>(qid, sb). (qid, te_zombie_tasks info now threshold (sm_executor_of sm sb))) (sm_sandboxes sm))"

definition get_total_pending_tasks :: "('v, 'm, 'c) SandboxManager \<Rightarrow> nat" where
  "get_total_pending_tasks sm =
     sum_list (map (\<lambda>(qid, sb). pending_count (sm_executor_of sm sb)) (sm_sandboxes sm))"

definition sandbox_count :: "('v, 'm, 'c) SandboxManager \<Rightarrow> nat" where
  "sandbox_count sm = length (sm_sandboxes sm)"

definition shutdown_all :: "('v, 'm, 'c) SandboxManager \<Rightarrow> ('v, 'm, 'c) SandboxManager" where
  "shutdown_all sm =
     sm\<lparr>sm_sandboxes := [], sm_shared_executor := map_option te_shutdown_call (sm_shared_executor sm)\<rparr>"

section \<open>What an execution is meant to do\<close>

text \<open>
  The specification ignores clocks, metrics and the executor: it chains the stages, each giving a
  value or the code of its failure.
\<close>

definition exc_code :: "ExecutionStage \<Rightarrow> py_exc \<Rightarrow> ErrorCode" where
  "exc_code stage e =
     (case e of ExcTimeout s \<Rightarrow> timeout_code stage | ExcMemory s \<Rightarrow> EXEC_OUT_OF_MEMORY
      | ExcOther s \<Rightarrow> failed_code stage)"

definition stage_spec :: "ExecutionStage \<Rightarrow> 'v task \<Rightarrow> ErrorCode + 'v" where
  "stage_spec stage task =
     (case task of Answers v \<Rightarrow> Inr v | Throws e \<Rightarrow> Inl (exc_code stage e)
      | SubmitThrows e \<Rightarrow> Inl (exc_code stage e) | NoAnswer \<Rightarrow> Inl (timeout_code stage))"

definition post_spec :: "('v, 'm, 'c) LoadedModel \<Rightarrow> 'v \<Rightarrow> ErrorCode + 'v" where
  "post_spec lm raw =
     (case lm_postprocess lm of None \<Rightarrow> Inr raw | Some f \<Rightarrow> stage_spec POSTPROCESS (f raw))"

definition infer_spec ::
  "('v \<Rightarrow> py_kind) \<Rightarrow> ('v, 'm, 'c) LoadedModel \<Rightarrow> 'm option \<Rightarrow> 'c option \<Rightarrow> 'v \<Rightarrow> ErrorCode + 'v" where
  "infer_spec kind lm inst config x =
     sum_bind (stage_spec INFERENCE
         (lm_infer lm (case inst of None \<Rightarrow> lm_model_instance lm | Some m \<Rightarrow> Some m) config x))
       (\<lambda>y. if kind y = KDict then post_spec lm y else Inl EXEC_INVALID_OUTPUT)"

definition execute_spec ::
  "('v \<Rightarrow> py_kind) \<Rightarrow> ('v, 'm, 'c) LoadedModel \<Rightarrow> 'm option \<Rightarrow> 'c option \<Rightarrow> 'v \<Rightarrow> ErrorCode + 'v" where
  "execute_spec kind lm inst config frame =
     sum_bind (case lm_preprocess lm of None \<Rightarrow> Inr frame | Some f \<Rightarrow> stage_spec PREPROCESS (f frame))
       (infer_spec kind lm inst config)"

text \<open>The executor between calls: live, and no identifier in use that is still to be given out.\<close>

definition executor_ok :: "TimeoutExecutor \<Rightarrow> bool" where
  "executor_ok te \<longleftrightarrow> \<not> te_shutdown te \<and> (\<forall>i. dget (te_pending te) i \<noteq> None \<longrightarrow> i \<le> te_counter te)"

lemma ddel_dput_new: "dget m k = None \<Longrightarrow> ddel k (dput k v m) = m"
  by (simp add: dput_new AList.delete_eq) (induction m, auto)

lemma execute_with_timeout_ok:
  assumes "executor_ok te"
  shows "\<exists>answer te'. execute_with_timeout t0 t1 task tmo te = Inr (answer, te') \<and> executor_ok te' \<and>
    te_pending te' = te_pending te \<and> te_counter te' = te_counter te + 1"
proof -
  have n: "dget (te_pending te) (Suc (te_counter te)) = None"
    using assms unfolding executor_ok_def by (metis not_less_eq_eq order_refl option.exhaust_sel)
  then show ?thesis
    using assms by (cases task)
      (auto simp: execute_with_timeout_def executor_ok_def ddel_dput_new ddel_absent Let_def)
qed

lemma classify_cases:
  assumes "executor_ok te"
  shows "\<exists>sr te'. run_stage env k sb stage task tmo te = Inr (sr, te') \<and> executor_ok te' \<and>
    te_pending te' = te_pending te \<and> sr_stage sr = stage \<and>
    (case stage_spec stage task of
       Inl c \<Rightarrow> \<not> stage_success sr \<and> map_option err_code (sr_error sr) = Some c
     | Inr v \<Rightarrow> stage_success sr \<and> sr_output sr = Some v)"
proof -
  let ?r = "execute_with_timeout (xe_mt env (2 * k + 1)) (xe_mt env (2 * k + 2)) task tmo te"
  obtain a te' where r: "?r = Inr (a, te')" "executor_ok te'" "te_pending te' = te_pending te"
    using execute_with_timeout_ok [OF assms] by metis
  have live: "\<not> te_shutdown te" using assms by (simp add: executor_ok_def)
  let ?sr = "classify_stage (xe_utc env 0) (xe_tb env) sb stage tmo a"
  have "sr_stage ?sr = stage \<and> (case stage_spec stage task of
       Inl c \<Rightarrow> \<not> stage_success ?sr \<and> map_option err_code (sr_error ?sr) = Some c
     | Inr v \<Rightarrow> stage_success ?sr \<and> sr_output ?sr = Some v)"
    using r(1) live
    by (cases task) (auto simp: execute_with_timeout_def Let_def classify_stage_def stage_spec_def
        exc_code_def stage_success_def create_timeout_error_def create_stage_error_def
        split: py_exc.split)
  then show ?thesis
    using r by (simp add: run_stage_def execute_stage_def)
qed

text \<open>An execution that recorded one outcome, as the specification says.\<close>

definition meets ::
  "('v, 'm, 'c) ExecutionSandbox \<Rightarrow> TimeoutExecutor \<Rightarrow> ErrorCode + 'v \<Rightarrow> ('v, 'm, 'c) executed \<Rightarrow> bool" where
  "meets sb te spec out =
     (case out of (er, calls, sb', te') \<Rightarrow>
        (case spec of
           Inl c \<Rightarrow> \<not> er_success er \<and> map_option err_code (er_error er) = Some c \<and> er_output er = None \<and>
             sb_metrics sb' = metrics_failure (is_timeout_code c) (sb_metrics sb)
         | Inr v \<Rightarrow> er_success er \<and> er_output er = Some v \<and> er_error er = None \<and>
             sb_metrics sb' = metrics_success (er_total_ms er) (sb_metrics sb)) \<and>
        er_total_ms er = er_preprocess_ms er + er_inference_ms er + er_postprocess_ms er \<and>
        sb_current_health sb' =
          determine_health (sb_health_manager sb) (sb_current_health sb) (sb_metrics sb') \<and>
        te_pending te' = te_pending te)"

lemma meets_failure:
  "te_pending te' = te_pending te \<Longrightarrow>
     meets sb te (Inl (err_code e)) (handle_failure now e rid a b c srs sb te')"
  by (simp add: meets_def handle_failure_def sb_record_failure_def update_health_of_def
      failure_result_def Let_def)

lemma meets_finish:
  "te_pending te' = te_pending te \<Longrightarrow> meets sb te (Inr v) (finish_execution env rid v a b c srs sb te')"
  by (simp add: meets_def finish_execution_def sb_record_success_def update_health_of_def
      success_result_def Let_def)

lemma execute_postprocess_meets:
  assumes "executor_ok te1" and "te_pending te1 = te_pending te"
  shows "meets sb te (post_spec (sb_loaded_model sb) raw) (execute_postprocess env rid raw a b srs sb te1)"
proof (cases "lm_postprocess (sb_loaded_model sb)")
  case None
  with assms show ?thesis by (simp add: post_spec_def execute_postprocess_def meets_finish)
next
  case (Some f)
  obtain sr te2 where "run_stage env 2 sb POSTPROCESS (f raw) (sb_postprocess_timeout_ms sb) te1 = Inr (sr, te2)"
    "te_pending te2 = te_pending te1"
    "case stage_spec POSTPROCESS (f raw) of
       Inl c \<Rightarrow> \<not> stage_success sr \<and> map_option err_code (sr_error sr) = Some c
     | Inr v \<Rightarrow> stage_success sr \<and> sr_output sr = Some v"
    using classify_cases [OF assms(1)] by metis
  with Some assms show ?thesis
    by (auto simp: post_spec_def execute_postprocess_def meets_finish
        intro!: meets_failure split: sum.splits)
qed

lemma execute_inference_meets:
  assumes "executor_ok te1" and "te_pending te1 = te_pending te"
  shows "meets sb te (infer_spec (xe_kind env) (sb_loaded_model sb) inst config x)
    (execute_inference env rid inst config x a srs sb te1)"
proof -
  let ?task = "lm_infer (sb_loaded_model sb)
    (case inst of None \<Rightarrow> lm_model_instance (sb_loaded_model sb) | Some m \<Rightarrow> Some m) config x"
  obtain sr te2 where r: "run_stage env 1 sb INFERENCE ?task (sb_inference_timeout_ms sb) te1 = Inr (sr, te2)"
    "executor_ok te2" "te_pending te2 = te_pending te"
    "case stage_spec INFERENCE ?task of
       Inl c \<Rightarrow> \<not> stage_success sr \<and> map_option err_code (sr_error sr) = Some c
     | Inr v \<Rightarrow> stage_success sr \<and> sr_output sr = Some v"
    using classify_cases [OF assms(1)] assms(2) by metis
  show ?thesis
  proof (cases "stage_spec INFERENCE ?task")
    case (Inl c)
    with r show ?thesis
      by (auto simp: infer_spec_def sum_bind_def execute_inference_def Let_def intro!: meets_failure)
  next
    case (Inr v)
    show ?thesis
    proof (cases "xe_kind env v")
      case KDict
      with r Inr execute_postprocess_meets [OF r(2,3)] show ?thesis
        by (simp add: infer_spec_def sum_bind_def execute_inference_def Let_def validate_output_def)
    next
      case KNone
      with r Inr show ?thesis
        by (auto simp: infer_spec_def sum_bind_def execute_inference_def Let_def validate_output_def
            intro!: meets_failure [where e = "execution_error _ EXEC_INVALID_OUTPUT _ _ _ _ _ _ _", simplified])
    next
      case (KOther t)
      with r Inr show ?thesis
        by (auto simp: infer_spec_def sum_bind_def execute_inference_def Let_def validate_output_def
            intro!: meets_failure [where e = "execution_error _ EXEC_INVALID_OUTPUT _ _ _ _ _ _ _", simplified])
    qed
  qed
qed

lemma execute_meets:
  assumes "executor_ok te"
  shows "meets sb te (execute_spec (xe_kind env) (sb_loaded_model sb) inst config frame)
    (execute env frame request_id inst config sb te)"
proof (cases "lm_preprocess (sb_loaded_model sb)")
  case None
  then show ?thesis
    by (simp add: execute_spec_def sum_bind_def execute_def Let_def
        execute_inference_meets [OF assms refl])
next
  case (Some f)
  obtain sr te1 where r: "run_stage env 0 sb PREPROCESS (f frame) (sb_preprocess_timeout_ms sb) te = Inr (sr, te1)"
    "executor_ok te1" "te_pending te1 = te_pending te"
    "case stage_spec PREPROCESS (f frame) of
       Inl c \<Rightarrow> \<not> stage_success sr \<and> map_option err_code (sr_error sr) = Some c
     | Inr v \<Rightarrow> stage_success sr \<and> sr_output sr = Some v"
    using classify_cases [OF assms] by metis
  show ?thesis
  proof (cases "stage_spec PREPROCESS (f frame)")
    case (Inl c)
    with Some r show ?thesis
      by (auto simp: execute_spec_def sum_bind_def execute_def Let_def intro!: meets_failure)
  next
    case (Inr v)
    with Some r show ?thesis
      by (simp add: execute_spec_def sum_bind_def execute_def Let_def
          execute_inference_meets [OF r(2,3)])
  qed
qed

section \<open>Properties\<close>

text \<open>
  C19. \<open>execute\<close> implements the chain of stages: with a live executor it always returns a result; the
  result carries the final value when every stage answers and the inference returned a dictionary,
  and otherwise the code of the first failing stage; exactly one outcome is recorded in the metrics,
  a timeout counted as such; the total time is the sum of the stage times.
\<close>

theorem execute_implements_spec:
  assumes "executor_ok te"
  shows "case execute env frame request_id inst config sb te of (er, calls, sb', te') \<Rightarrow>
    (case execute_spec (xe_kind env) (sb_loaded_model sb) inst config frame of
       Inl c \<Rightarrow> \<not> er_success er \<and> map_option err_code (er_error er) = Some c \<and> er_output er = None \<and>
         sb_metrics sb' = metrics_failure (is_timeout_code c) (sb_metrics sb)
     | Inr v \<Rightarrow> er_success er \<and> er_output er = Some v \<and> er_error er = None \<and>
         sb_metrics sb' = metrics_success (er_total_ms er) (sb_metrics sb)) \<and>
    er_total_ms er = er_preprocess_ms er + er_inference_ms er + er_postprocess_ms er"
  using execute_meets [OF assms, of sb env inst config frame request_id]
  by (simp add: meets_def split_beta)

definition demo_model :: "(jval, unit, unit) LoadedModel" where
  "demo_model = \<lparr>lm_model_id = ''fall'', lm_version = ''1.0.0'',
     lm_infer = (\<lambda>_ _ x. case x of JNone \<Rightarrow> NoAnswer | _ \<Rightarrow> Answers (JDict [(''frame'', x)])),
     lm_preprocess = None, lm_postprocess = None, lm_model_instance = None, lm_load_time_ms = 0,
     lm_device = ''cpu''\<rparr>"

definition demo_env :: "jval exec_env" where
  "demo_env = \<lparr>xe_utc = (\<lambda>_. 0), xe_mt = real, xe_tb = [],
     xe_kind = (\<lambda>v. case v of JNone \<Rightarrow> KNone | JDict _ \<Rightarrow> KDict | _ \<Rightarrow> KOther ''int''),
     xe_new_id = ''exec-1''\<rparr>"

definition demo_sandbox :: "(jval, unit, unit) ExecutionSandbox" where
  "demo_sandbox = new_sandbox demo_model (new_descriptor 0 ''fall'' ''1.0.0'' []) False None True"

lemma new_executor_ok: "executor_ok (new_executor n mode)"
  by (simp add: executor_ok_def new_executor_def)

theorem execute_implements_spec_witness:
  "er_success (fst (execute demo_env (JInt 7) None None None demo_sandbox (new_executor 2 THREAD))) \<and>
   map_option err_code (er_error (fst (execute demo_env JNone None None None demo_sandbox
     (new_executor 2 THREAD)))) = Some EXEC_INFERENCE_TIMEOUT"
proof -
  have s: "execute_spec (xe_kind demo_env) (sb_loaded_model demo_sandbox) None None (JInt 7) =
      Inr (JDict [(''frame'', JInt 7)])"
    "execute_spec (xe_kind demo_env) (sb_loaded_model demo_sandbox) None None JNone =
      Inl EXEC_INFERENCE_TIMEOUT"
    by (simp_all add: execute_spec_def infer_spec_def post_spec_def sum_bind_def stage_spec_def
        demo_sandbox_def new_sandbox_def demo_model_def demo_env_def)
  show ?thesis
    using execute_implements_spec [OF new_executor_ok, where env = demo_env and frame = "JInt 7"
        and request_id = None and inst = None and config = None and sb = demo_sandbox]
      execute_implements_spec [OF new_executor_ok, where env = demo_env and frame = JNone
        and request_id = None and inst = None and config = None and sb = demo_sandbox]
    by (auto simp: s split_beta)
qed

subsection \<open>Runs of outcomes\<close>

text \<open>What an execution leaves in the sandbox: a success with its time, or a failure and whether it was a
  timeout.\<close>

datatype outcome = Took int | Broke bool

definition record_outcome :: "outcome \<Rightarrow> ('v, 'm, 'c) ExecutionSandbox \<Rightarrow> ('v, 'm, 'c) ExecutionSandbox" where
  "record_outcome oc sb =
     (case oc of Took ms \<Rightarrow> snd (sb_record_success ms sb) | Broke t \<Rightarrow> snd (sb_record_failure t sb))"

definition metrics_ok :: "ExecutionMetrics \<Rightarrow> bool" where
  "metrics_ok m \<longleftrightarrow> em_total m = em_successful m + em_failed m \<and>
     em_failed m = em_timeouts m + em_exceptions m \<and>
     0 \<le> em_successful m \<and> 0 \<le> em_timeouts m \<and> 0 \<le> em_exceptions m \<and>
     0 \<le> em_consecutive_failures m \<and> em_consecutive_failures m \<le> em_failed m \<and>
     0 \<le> em_consecutive_successes m \<and> em_consecutive_successes m \<le> em_successful m \<and>
     (em_consecutive_failures m = 0 \<or> em_consecutive_successes m = 0) \<and>
     (em_successful m = 0 \<longleftrightarrow> em_min_time_ms m = None) \<and>
     (em_successful m = 0 \<longleftrightarrow> em_max_time_ms m = None) \<and>
     (em_successful m = 0 \<longrightarrow> em_total_time_ms m = 0) \<and>
     (\<forall>lo hi. em_min_time_ms m = Some lo \<and> em_max_time_ms m = Some hi \<longrightarrow>
        lo \<le> hi \<and> em_successful m * lo \<le> em_total_time_ms m \<and>
        em_total_time_ms m \<le> em_successful m * hi)"

lemma metrics_ok_new: "metrics_ok new_metrics"
  by (simp add: metrics_ok_def new_metrics_def)

lemma metrics_ok_failure: "metrics_ok m \<Longrightarrow> metrics_ok (metrics_failure t m)"
  by (auto simp: metrics_ok_def metrics_failure_def Let_def)

lemma scale_mono: "(n::int) * a \<le> t \<Longrightarrow> 0 \<le> n \<Longrightarrow> b \<le> a \<Longrightarrow> n * b \<le> t"
  using mult_left_mono order_trans by blast

lemma scale_mono': "t \<le> (n::int) * a \<Longrightarrow> 0 \<le> n \<Longrightarrow> a \<le> b \<Longrightarrow> t \<le> n * b"
  using mult_left_mono order_trans by blast

lemma metrics_ok_success: "metrics_ok m \<Longrightarrow> metrics_ok (metrics_success d m)"
proof -
  assume ok: "metrics_ok m"
  show ?thesis
  proof (cases "em_successful m = 0")
    case True
    with ok show ?thesis by (auto simp: metrics_ok_def metrics_success_def)
  next
    case False
    with ok obtain lo hi where b: "em_min_time_ms m = Some lo" "em_max_time_ms m = Some hi"
      by (auto simp: metrics_ok_def)
    with ok have f: "lo \<le> hi" "em_successful m * lo \<le> em_total_time_ms m"
      "em_total_time_ms m \<le> em_successful m * hi" "0 \<le> em_successful m"
      by (simp_all add: metrics_ok_def)
    have "em_successful m * min d lo \<le> em_total_time_ms m" "em_total_time_ms m \<le> em_successful m * max d hi"
      using scale_mono [OF f(2,4), of "min d lo"] scale_mono' [OF f(3,4), of "max d hi"] by simp_all
    then have s: "(em_successful m + 1) * min d lo \<le> em_total_time_ms m + d"
      "em_total_time_ms m + d \<le> (em_successful m + 1) * max d hi"
      by (simp_all add: distrib_right)
    have "em_min_time_ms (metrics_success d m) = Some (min d lo)"
      "em_max_time_ms (metrics_success d m) = Some (max d hi)"
      using b by (auto simp: metrics_success_def)
    moreover have "em_successful (metrics_success d m) = em_successful m + 1"
      "em_total_time_ms (metrics_success d m) = em_total_time_ms m + d"
      by (simp_all add: metrics_success_def)
    moreover have "em_total (metrics_success d m) = em_total m + 1"
      "em_failed (metrics_success d m) = em_failed m" "em_timeouts (metrics_success d m) = em_timeouts m"
      "em_exceptions (metrics_success d m) = em_exceptions m"
      "em_consecutive_failures (metrics_success d m) = 0"
      "em_consecutive_successes (metrics_success d m) = em_consecutive_successes m + 1"
      by (simp_all add: metrics_success_def)
    ultimately show ?thesis
      using ok s f(1) unfolding metrics_ok_def by auto
  qed
qed

lemma metrics_record_outcome:
  "sb_metrics (record_outcome oc sb) =
     (case oc of Took ms \<Rightarrow> metrics_success ms (sb_metrics sb) | Broke t \<Rightarrow> metrics_failure t (sb_metrics sb))"
  "sb_current_health (record_outcome oc sb) =
     determine_health (sb_health_manager sb) (sb_current_health sb) (sb_metrics (record_outcome oc sb))"
  "sb_health_manager (record_outcome oc sb) = sb_health_manager sb"
  by (simp_all add: record_outcome_def sb_record_success_def sb_record_failure_def update_health_of_def
      Let_def split: outcome.split)

lemma metrics_ok_run:
  "metrics_ok (sb_metrics sb) \<Longrightarrow> metrics_ok (sb_metrics (fold record_outcome ocs sb))"
  by (induction ocs arbitrary: sb)
    (simp_all add: metrics_record_outcome metrics_ok_success metrics_ok_failure split: outcome.split)

lemma average_between:
  "metrics_ok m \<Longrightarrow> case average_execution_time_ms m of None \<Rightarrow> em_min_time_ms m = None
     | Some avg \<Rightarrow> (\<exists>lo hi. em_min_time_ms m = Some lo \<and> em_max_time_ms m = Some hi \<and>
         of_int lo \<le> avg \<and> avg \<le> of_int hi)"
proof -
  assume ok: "metrics_ok m"
  show ?thesis
  proof (cases "em_successful m = 0")
    case True
    with ok show ?thesis by (simp add: average_execution_time_ms_def metrics_ok_def)
  next
    case False
    with ok obtain lo hi where b: "em_min_time_ms m = Some lo" "em_max_time_ms m = Some hi"
      by (auto simp: metrics_ok_def)
    with ok False have f: "em_successful m * lo \<le> em_total_time_ms m"
      "em_total_time_ms m \<le> em_successful m * hi" and n: "0 < em_successful m"
      by (auto simp: metrics_ok_def)
    from f have "of_int (em_successful m) * of_int lo \<le> (of_int (em_total_time_ms m) :: real)"
      "(of_int (em_total_time_ms m) :: real) \<le> of_int (em_successful m) * of_int hi"
      by (metis of_int_le_iff of_int_mult)+
    with n have "of_int lo \<le> (of_int (em_total_time_ms m) :: real) / of_int (em_successful m)"
      "(of_int (em_total_time_ms m) :: real) / of_int (em_successful m) \<le> of_int hi"
      by (simp_all add: pos_le_divide_eq pos_divide_le_eq mult.commute)
    with False b show ?thesis by (simp add: average_execution_time_ms_def)
  qed
qed

text \<open>
  The metrics of a sandbox always add up: executions are successes plus failures, failures are
  timeouts plus exceptions, at most one of the two streaks is running, and the average duration lies
  between the recorded minimum and maximum.
\<close>

theorem metrics_consistent:
  "let m = sb_metrics (fold record_outcome ocs (new_sandbox lm d sh hm c)) in
    em_total m = em_successful m + em_failed m \<and> em_failed m = em_timeouts m + em_exceptions m \<and>
    (em_consecutive_failures m = 0 \<or> em_consecutive_successes m = 0) \<and>
    (case average_execution_time_ms m of None \<Rightarrow> em_min_time_ms m = None
     | Some avg \<Rightarrow> (\<exists>lo hi. em_min_time_ms m = Some lo \<and> em_max_time_ms m = Some hi \<and>
         of_int lo \<le> avg \<and> avg \<le> of_int hi))"
proof -
  define m where "m = sb_metrics (fold record_outcome ocs (new_sandbox lm d sh hm c))"
  have "metrics_ok m"
    unfolding m_def by (rule metrics_ok_run) (simp add: new_sandbox_def metrics_ok_new)
  with average_between [OF this] show ?thesis
    unfolding m_def [symmetric] Let_def by (simp add: metrics_ok_def)
qed

definition failures_run :: "bool list \<Rightarrow> ('v, 'm, 'c) ExecutionSandbox \<Rightarrow> ('v, 'm, 'c) ExecutionSandbox" where
  "failures_run ts sb = fold record_outcome (map Broke ts) sb"

definition successes_run :: "int list \<Rightarrow> ('v, 'm, 'c) ExecutionSandbox \<Rightarrow> ('v, 'm, 'c) ExecutionSandbox" where
  "successes_run ms sb = fold record_outcome (map Took ms) sb"

lemma failures_streak:
  "em_consecutive_failures (sb_metrics (failures_run ts sb)) =
     em_consecutive_failures (sb_metrics sb) + int (length ts) \<and>
   sb_health_manager (failures_run ts sb) = sb_health_manager sb"
  by (induction ts arbitrary: sb)
    (simp_all add: failures_run_def metrics_record_outcome metrics_failure_def Let_def)

lemma failures_run_snoc: "failures_run (ts @ [t]) sb = record_outcome (Broke t) (failures_run ts sb)"
  by (simp add: failures_run_def)

lemma failures_health:
  assumes "em_consecutive_failures (sb_metrics sb) = 0"
    and "0 < hm_degraded (sb_health_manager sb)"
    and "hm_degraded (sb_health_manager sb) \<le> hm_unhealthy (sb_health_manager sb)"
    and "0 < hm_recovery (sb_health_manager sb) div 2" and "ts \<noteq> []"
  shows "sb_current_health (failures_run ts sb) =
    (if int (length ts) \<ge> hm_unhealthy (sb_health_manager sb) then UNHEALTHY
     else if int (length ts) \<ge> hm_degraded (sb_health_manager sb) then DEGRADED
     else sb_current_health sb)"
  using assms(5)
proof (induction ts rule: rev_induct)
  case Nil
  then show ?case by simp
next
  case (snoc t ts)
  have s: "em_consecutive_failures (sb_metrics (failures_run (ts @ [t]) sb)) = int (length ts) + 1"
    using failures_streak [of "ts @ [t]" sb] assms(1) by simp
  have z: "em_consecutive_successes (sb_metrics (failures_run (ts @ [t]) sb)) = 0"
    by (simp add: failures_run_snoc metrics_record_outcome metrics_failure_def Let_def)
  have h: "sb_current_health (failures_run (ts @ [t]) sb) =
      determine_health (sb_health_manager sb) (sb_current_health (failures_run ts sb))
        (sb_metrics (failures_run (ts @ [t]) sb))"
    using failures_streak [of ts sb] by (simp add: failures_run_snoc metrics_record_outcome)
  have "int (length ts) + 1 < hm_degraded (sb_health_manager sb) \<Longrightarrow>
      sb_current_health (failures_run ts sb) = sb_current_health sb"
    using snoc.IH assms(3) by (cases "ts = []") (simp_all add: failures_run_def)
  moreover have "0 < hm_recovery (sb_health_manager sb)" using assms(4) by simp
  ultimately show ?case
    unfolding h using s z assms by (auto simp: determine_health_def Let_def)
qed

text \<open>
  Health follows the streak of failures: a sandbox that is healthy and has just succeeded (or is new)
  is still healthy below the first threshold of failures, degraded from it on and unhealthy from the
  second on.
\<close>

theorem health_follows_failures:
  assumes "em_consecutive_failures (sb_metrics sb) = 0" and "sb_current_health sb = HEALTHY"
    and "0 < hm_degraded (sb_health_manager sb)"
    and "hm_degraded (sb_health_manager sb) \<le> hm_unhealthy (sb_health_manager sb)"
    and "0 < hm_recovery (sb_health_manager sb) div 2"
  shows "sb_current_health (failures_run ts sb) =
    (if int (length ts) \<ge> hm_unhealthy (sb_health_manager sb) then UNHEALTHY
     else if int (length ts) \<ge> hm_degraded (sb_health_manager sb) then DEGRADED
     else HEALTHY)"
proof (cases "ts = []")
  case True
  with assms show ?thesis by (simp add: failures_run_def)
next
  case False
  from failures_health [OF assms(1,3-5) False] assms(2) show ?thesis by simp
qed

lemma demo_sandbox_simps:
  "em_consecutive_failures (sb_metrics demo_sandbox) = 0" "sb_current_health demo_sandbox = HEALTHY"
  "sb_health_manager demo_sandbox = default_health_manager"
  by (simp_all add: demo_sandbox_def new_sandbox_def new_metrics_def)

theorem health_follows_failures_witness:
  "sb_current_health (failures_run [True, False, True] demo_sandbox) = DEGRADED"
  using health_follows_failures [OF demo_sandbox_simps(1,2), of "[True, False, True]"]
  by (simp add: demo_sandbox_simps default_health_manager_def)

text \<open>
  Failing can improve an unhealthy sandbox: one success ends the streak, and when the next failures
  reach the first threshold again the health becomes \<open>DEGRADED\<close>, although nothing but failures
  happened since.
\<close>

theorem failures_lift_unhealthy:
  assumes "sb_current_health sb = UNHEALTHY" and "em_consecutive_successes (sb_metrics sb) = 0"
    and "0 < hm_degraded (sb_health_manager sb)"
    and "hm_degraded (sb_health_manager sb) < hm_unhealthy (sb_health_manager sb)"
    and "1 < hm_recovery (sb_health_manager sb) div 2"
    and "int (length ts) = hm_degraded (sb_health_manager sb)"
  shows "sb_current_health (successes_run [ms] sb) = UNHEALTHY \<and>
    sb_current_health (failures_run ts (successes_run [ms] sb)) = DEGRADED"
proof -
  let ?s = "successes_run [ms] sb"
  have s: "em_consecutive_failures (sb_metrics ?s) = 0" "sb_health_manager ?s = sb_health_manager sb"
    "em_consecutive_successes (sb_metrics ?s) = 1"
    using assms(2) by (simp_all add: successes_run_def metrics_record_outcome metrics_success_def)
  have "1 < hm_recovery (sb_health_manager sb)" using assms(5) by simp
  then have u: "sb_current_health ?s = UNHEALTHY"
    using assms s by (simp add: successes_run_def metrics_record_outcome determine_health_def Let_def)
  have ne: "ts \<noteq> []" using assms(3,6) by auto
  show ?thesis
    using u failures_health [of ?s ts] s assms ne by simp
qed

theorem failures_lift_unhealthy_witness:
  "sb_current_health (failures_run [True, True, True] (successes_run [8]
     (failures_run [True, True, True, True, True] demo_sandbox))) = DEGRADED"
proof -
  let ?u = "failures_run [True, True, True, True, True] demo_sandbox"
  have h: "sb_health_manager ?u = default_health_manager"
    using failures_streak [of "[True, True, True, True, True]" demo_sandbox]
    by (simp add: demo_sandbox_simps)
  have "sb_current_health ?u = UNHEALTHY"
    using failures_health [of demo_sandbox "[True, True, True, True, True]"]
    by (simp add: demo_sandbox_simps default_health_manager_def)
  moreover have "em_consecutive_successes (sb_metrics ?u) = 0"
    by (simp add: failures_run_def metrics_record_outcome metrics_failure_def Let_def)
  ultimately show ?thesis
    using failures_lift_unhealthy [of ?u "[True, True, True]" 8]
    by (simp add: h default_health_manager_def)
qed

definition run_tasks :: "(real \<times> real \<times> 'v task \<times> int) list \<Rightarrow> TimeoutExecutor \<Rightarrow> TimeoutExecutor" where
  "run_tasks ts te =
     fold (\<lambda>(t0, t1, task, tmo) te. case execute_with_timeout t0 t1 task tmo te of
       Inl e \<Rightarrow> te | Inr (answer, te') \<Rightarrow> te') ts te"

lemma run_tasks_pending:
  "executor_ok te \<Longrightarrow> te_pending (run_tasks ts te) = te_pending te \<and> executor_ok (run_tasks ts te)"
proof (induction ts arbitrary: te)
  case Nil
  then show ?case by (simp add: run_tasks_def)
next
  case (Cons t ts)
  obtain t0 t1 task tmo where t: "t = (t0, t1, task, tmo)" by (cases t) auto
  obtain a te' where r: "execute_with_timeout t0 t1 task tmo te = Inr (a, te')" "executor_ok te'"
    "te_pending te' = te_pending te"
    using execute_with_timeout_ok [OF Cons.prems] by metis
  with Cons.IH [OF r(2)] show ?case by (simp add: run_tasks_def t)
qed

text \<open>
  A task that timed out is forgotten: \<open>execute_with_timeout\<close> removes it from the pending table in its
  \<open>finally\<close> clause although the thread may still run it. After any sequence of calls, timed-out ones
  included, no task is pending and \<open>get_zombie_tasks\<close> reports nothing.
\<close>

theorem timed_out_tasks_forgotten:
  "te_zombie_tasks info now threshold (run_tasks ts (new_executor n mode)) = [] \<and>
   pending_count (run_tasks ts (new_executor n mode)) = 0"
  using run_tasks_pending [OF new_executor_ok, of ts n mode]
  by (simp add: te_zombie_tasks_def pending_count_def new_executor_def)

end
