(* ===== verification/Coordinator.thy ===== *)
theory Coordinator
  imports Versioning Sandbox
begin

text \<open>
  \<open>ai/runtime/coordinator.py\<close>: the coordinator that keeps the registry and the sandbox manager in
  step. Every operation holds the coordination lock; whether a timed acquisition succeeded is the
  parameter \<open>acquired\<close>. The set of active models is the list of its elements in iteration order.
  Successive readings of the wall clock are \<open>utc 0\<close>, \<open>utc 1\<close>, ...
\<close>

section \<open>Results\<close>

datatype CoordinationResultCode = SUCCESS | MODEL_NOT_FOUND | VERSION_NOT_FOUND
  | INVALID_STATE_TRANSITION | SANDBOX_CREATION_FAILED | SANDBOX_NOT_FOUND | ALREADY_ACTIVE
  | ALREADY_INACTIVE | LOCK_TIMEOUT

fun code_value :: "CoordinationResultCode \<Rightarrow> string" where
  "code_value SUCCESS = ''success''"
| "code_value MODEL_NOT_FOUND = ''model_not_found''"
| "code_value VERSION_NOT_FOUND = ''version_not_found''"
| "code_value INVALID_STATE_TRANSITION = ''invalid_state_transition''"
| "code_value SANDBOX_CREATION_FAILED = ''sandbox_creation_failed''"
| "code_value SANDBOX_NOT_FOUND = ''sandbox_not_found''"
| "code_value ALREADY_ACTIVE = ''already_active''"
| "code_value ALREADY_INACTIVE = ''already_inactive''"
| "code_value LOCK_TIMEOUT = ''lock_timeout''"

record ('v, 'm, 'c) CoordinationResult =
  cr_success :: bool
  cr_code :: CoordinationResultCode
  cr_message :: string
  cr_sandbox :: "('v, 'm, 'c) ExecutionSandbox option"
  cr_timestamp :: real

definition result_ok ::
  "real \<Rightarrow> string \<Rightarrow> ('v, 'm, 'c) ExecutionSandbox option \<Rightarrow> ('v, 'm, 'c) CoordinationResult" where
  "result_ok now message sandbox =
     \<lparr>cr_success = True, cr_code = SUCCESS, cr_message = message, cr_sandbox = sandbox,
      cr_timestamp = now\<rparr>"

definition result_fail ::
  "real \<Rightarrow> CoordinationResultCode \<Rightarrow> string \<Rightarrow> ('v, 'm, 'c) CoordinationResult" where
  "result_fail now code message =
     \<lparr>cr_success = False, cr_code = code, cr_message = message, cr_sandbox = None,
      cr_timestamp = now\<rparr>"

definition coordination_to_dict :: "('v, 'm, 'c) CoordinationResult \<Rightarrow> (string, jval) dict" where
  "coordination_to_dict cr =
     [(''success'', JBool (cr_success cr)), (''code'', JStr (code_value (cr_code cr))),
      (''message'', JStr (cr_message cr)), (''timestamp'', JTime (cr_timestamp cr))]"

section \<open>The coordinator\<close>

datatype activation = Activated string string | Deactivated string string

record ('v, 'm, 'c) ModelCoordinator =
  co_registry :: ModelRegistry
  co_sandboxes :: "('v, 'm, 'c) SandboxManager"
  co_active :: "string list"
  co_on_activation :: bool
  co_on_deactivation :: bool
  co_calls :: "activation list"

definition new_coordinator ::
  "ModelRegistry \<Rightarrow> ('v, 'm, 'c) SandboxManager \<Rightarrow> bool \<Rightarrow> bool \<Rightarrow> ('v, 'm, 'c) ModelCoordinator" where
  "new_coordinator registry sandbox_manager on_activation on_deactivation =
     \<lparr>co_registry = registry, co_sandboxes = sandbox_manager, co_active = [],
      co_on_activation = on_activation, co_on_deactivation = on_deactivation, co_calls = []\<rparr>"

text \<open>\<open>timeout_text\<close> renders the time-out of the lock.\<close>

definition lock_failure :: "real \<Rightarrow> string \<Rightarrow> ('v, 'm, 'c) CoordinationResult" where
  "lock_failure now timeout_text =
     result_fail now LOCK_TIMEOUT (''Timed out waiting for coordination lock ('' @ timeout_text @ ''s)'')"

text \<open>
  \<open>create_sandbox\<close> and \<open>update_state\<close> do not raise in the model, so the \<open>except\<close> clauses of
  \<open>activate_model\<close> have no branch.
\<close>

definition activate_model ::
  "(nat \<Rightarrow> real) \<Rightarrow> bool \<Rightarrow> string \<Rightarrow> string \<Rightarrow> string \<Rightarrow> ('v, 'm, 'c) LoadedModel \<Rightarrow> ModelVersionDescriptor \<Rightarrow>
   ('v, 'm, 'c) ModelCoordinator \<Rightarrow> ('v, 'm, 'c) CoordinationResult \<times> ('v, 'm, 'c) ModelCoordinator" where
  "activate_model utc acquired timeout_text model_id version loaded_model descriptor co =
     (let qid = make_qualified_id model_id version
      in if \<not> acquired then (lock_failure (utc 0) timeout_text, co)
         else if qid \<in> set (co_active co) \<and> get_sandbox (co_sandboxes co) model_id version \<noteq> None
         then (result_fail (utc 0) ALREADY_ACTIVE (''Model '' @ qid @ '' is already active''), co)
         else if get_version (co_registry co) model_id version = None
         then (result_fail (utc 0) VERSION_NOT_FOUND
                 (''Version '' @ version @ '' not found for model '' @ model_id), co)
         else
           (let (sandbox, sm1) = create_sandbox loaded_model descriptor (co_sandboxes co);
                (success, reg) = update_state utc model_id version READY None None (co_registry co);
                co1 = co\<lparr>co_sandboxes := sm1, co_registry := reg\<rparr>
            in if \<not> success
               then (result_fail (utc 2) INVALID_STATE_TRANSITION ''Failed to update model state to READY'',
                     co1\<lparr>co_sandboxes := snd (remove_sandbox model_id version sm1)\<rparr>)
               else
                 (result_ok (utc 2) (''Model '' @ qid @ '' activated'') (Some sandbox),
                  co1\<lparr>co_active := List.insert qid (co_active co),
                      co_calls := (if co_on_activation co
                        then co_calls co @ [Activated model_id version] else co_calls co)\<rparr>)))"

definition deactivate_model ::
  "(nat \<Rightarrow> real) \<Rightarrow> bool \<Rightarrow> string \<Rightarrow> string \<Rightarrow> string \<Rightarrow> LoadState \<Rightarrow> string option \<Rightarrow> string option \<Rightarrow>
   ('v, 'm, 'c) ModelCoordinator \<Rightarrow> ('v, 'm, 'c) CoordinationResult \<times> ('v, 'm, 'c) ModelCoordinator" where
  "deactivate_model utc acquired timeout_text model_id version new_state error error_code co =
     (let qid = make_qualified_id model_id version
      in if \<not> acquired then (lock_failure (utc 0) timeout_text, co)
         else if qid \<notin> set (co_active co) \<and> get_sandbox (co_sandboxes co) model_id version = None
         then (result_fail (utc 0) ALREADY_INACTIVE (''Model '' @ qid @ '' is already inactive''), co)
         else
           (let (removed, sm1) = remove_sandbox model_id version (co_sandboxes co);
                (updated, reg) = update_state utc model_id version new_state error error_code (co_registry co)
            in (result_ok (utc 2) (''Model '' @ qid @ '' deactivated'') None,
                co\<lparr>co_sandboxes := sm1, co_registry := reg,
                   co_active := removeAll qid (co_active co),
                   co_calls := (if co_on_deactivation co
                     then co_calls co @ [Deactivated model_id version] else co_calls co)\<rparr>)))"

definition get_ready_sandbox ::
  "string \<Rightarrow> string \<Rightarrow> ('v, 'm, 'c) ModelCoordinator \<Rightarrow>
   ('v, 'm, 'c) ExecutionSandbox option \<times> ('v, 'm, 'c) ModelCoordinator" where
  "get_ready_sandbox model_id version co =
     (let qid = make_qualified_id model_id version
      in if qid \<notin> set (co_active co) then (None, co)
         else (case get_version (co_registry co) model_id version of
                 None \<Rightarrow> (None, co)
               | Some d \<Rightarrow>
                   (if vd_state d \<noteq> READY then (None, co)
                    else (case get_sandbox (co_sandboxes co) model_id version of
                            None \<Rightarrow> (None, co\<lparr>co_active := removeAll qid (co_active co)\<rparr>)
                          | Some sb \<Rightarrow> (Some sb, co)))))"

definition is_active :: "string \<Rightarrow> string \<Rightarrow> ('v, 'm, 'c) ModelCoordinator \<Rightarrow> bool" where
  "is_active model_id version co \<longleftrightarrow> make_qualified_id model_id version \<in> set (co_active co)"

definition get_active_models :: "('v, 'm, 'c) ModelCoordinator \<Rightarrow> string list" where
  "get_active_models co = co_active co"

text \<open>
  \<open>model_id, version = qualified_id.split(":", 1)\<close>; every identifier the coordinator stores has a
  colon.
\<close>

definition split_id :: "string \<Rightarrow> string \<times> string" where
  "split_id qid = (case py_split1 CHR '':'' qid of (i, Some v) \<Rightarrow> (i, v) | (i, None) \<Rightarrow> (i, []))"

datatype violation = MissingDescriptor string | WrongState string LoadState | MissingSandbox string
  | OrphanedSandbox string

definition active_violations :: "('v, 'm, 'c) ModelCoordinator \<Rightarrow> string \<Rightarrow> violation list" where
  "active_violations co qid =
     (let (model_id, version) = split_id qid
      in (case get_version (co_registry co) model_id version of
            None \<Rightarrow> [MissingDescriptor qid]
          | Some d \<Rightarrow> (if vd_state d \<noteq> READY then [WrongState qid (vd_state d)] else [])) @
         (if get_sandbox (co_sandboxes co) model_id version = None then [MissingSandbox qid] else []))"

definition orphans :: "('v, 'm, 'c) ModelCoordinator \<Rightarrow> string list" where
  "orphans co = filter (\<lambda>q. q \<notin> set (co_active co)) (dkeys (get_all_health (co_sandboxes co)))"

text \<open>The flag, the number of active models and the violations found.\<close>

definition verify_invariants :: "('v, 'm, 'c) ModelCoordinator \<Rightarrow> bool \<times> nat \<times> violation list" where
  "verify_invariants co =
     (let vs = concat (map (active_violations co) (co_active co)) @ map OrphanedSandbox (orphans co)
      in (vs = [], length (co_active co), vs))"

datatype repair = RemovedOrphanedActive string | RemovedOrphanedSandbox string | FailedToRemove string

definition repair_active ::
  "(nat \<Rightarrow> real) \<Rightarrow> string \<Rightarrow> repair list \<times> ('v, 'm, 'c) ModelCoordinator \<Rightarrow>
   repair list \<times> ('v, 'm, 'c) ModelCoordinator" where
  "repair_active utc qid acc =
     (let (log, co) = acc; (model_id, version) = split_id qid
      in if get_sandbox (co_sandboxes co) model_id version = None
         then (log @ [RemovedOrphanedActive qid],
               co\<lparr>co_active := removeAll qid (co_active co),
                  co_registry := snd (update_state utc model_id version FAILED
                    (Some ''Sandbox missing during invariant repair'') None (co_registry co))\<rparr>)
         else (log, co))"

definition repair_orphan ::
  "string \<Rightarrow> repair list \<times> ('v, 'm, 'c) ModelCoordinator \<Rightarrow> repair list \<times> ('v, 'm, 'c) ModelCoordinator" where
  "repair_orphan qid acc =
     (let (log, co) = acc
      in if qid \<notin> set (co_active co)
         then (let (model_id, version) = split_id qid;
                   (removed, sm) = remove_sandbox model_id version (co_sandboxes co)
               in (log @ [if removed then RemovedOrphanedSandbox qid else FailedToRemove qid],
                   co\<lparr>co_sandboxes := sm\<rparr>))
         else (log, co))"

definition repair_invariants ::
  "(nat \<Rightarrow> real) \<Rightarrow> ('v, 'm, 'c) ModelCoordinator \<Rightarrow> repair list \<times> ('v, 'm, 'c) ModelCoordinator" where
  "repair_invariants utc co =
     (let (log, co1) = fold (repair_active utc) (co_active co) ([], co)
      in fold repair_orphan (dkeys (get_all_health (co_sandboxes co1))) (log, co1))"

definition shutdown_one ::
  "(nat \<Rightarrow> real) \<Rightarrow> string \<Rightarrow> ('v, 'm, 'c) ModelCoordinator \<Rightarrow> ('v, 'm, 'c) ModelCoordinator" where
  "shutdown_one utc qid co =
     (let (model_id, version) = split_id qid
      in co\<lparr>co_sandboxes := snd (remove_sandbox model_id version (co_sandboxes co)),
            co_registry := snd (update_state utc model_id version UNLOADED None None (co_registry co))\<rparr>)"

definition co_shutdown ::
  "(nat \<Rightarrow> real) \<Rightarrow> ('v, 'm, 'c) ModelCoordinator \<Rightarrow> ('v, 'm, 'c) ModelCoordinator" where
  "co_shutdown utc co = (fold (shutdown_one utc) (co_active co) co)\<lparr>co_active := []\<rparr>"

text \<open>The lists \<open>repaired\<close> and \<open>failed\<close> of the answer and its \<open>success\<close> flag.\<close>

definition is_failed_repair :: "repair \<Rightarrow> bool" where
  "is_failed_repair r = (case r of FailedToRemove q \<Rightarrow> True | _ \<Rightarrow> False)"

definition repair_answer :: "repair list \<Rightarrow> repair list \<times> repair list \<times> bool" where
  "repair_answer entries =
     (filter (\<lambda>r. \<not> is_failed_repair r) entries, filter is_failed_repair entries,
      filter is_failed_repair entries = [])"

section \<open>The interface to registry and sandboxes\<close>

text \<open>
  The coordinator keeps three things in agreement: its own set of active identifiers, the states in
  the registry and the sandboxes.
\<close>

definition agree ::
  "('r \<Rightarrow> 'k \<Rightarrow> LoadState option) \<Rightarrow> ('s \<Rightarrow> 'k \<Rightarrow> bool) \<Rightarrow> 'k set \<Rightarrow> 'r \<Rightarrow> 's \<Rightarrow> bool" where
  "agree state has A r s \<longleftrightarrow> (\<forall>k. (k \<in> A \<longleftrightarrow> has s k) \<and> (k \<in> A \<longleftrightarrow> state r k = Some READY))"

locale paired_store = state_table state set_state
  for state :: "'r \<Rightarrow> 'k \<Rightarrow> LoadState option" and set_state :: "'x \<Rightarrow> 'k \<Rightarrow> LoadState \<Rightarrow> 'r \<Rightarrow> bool \<times> 'r" +
  fixes has :: "'s \<Rightarrow> 'k \<Rightarrow> bool" and put :: "'k \<Rightarrow> 'b \<Rightarrow> 's \<Rightarrow> 's" and drop :: "'k \<Rightarrow> 's \<Rightarrow> 's"
  assumes has_put: "has (put k b s) j \<longleftrightarrow> j = k \<or> has s j"
    and has_drop: "has (drop k s) j \<longleftrightarrow> j \<noteq> k \<and> has s j"
begin

lemma agree_activate:
  "agree state has A r s \<Longrightarrow> state r k \<noteq> None \<Longrightarrow>
     agree state has (insert k A) (snd (set_state x k READY r)) (put k b s)"
  by (auto simp: agree_def state_set has_put)

lemma agree_deactivate:
  "agree state has A r s \<Longrightarrow> t \<noteq> READY \<Longrightarrow>
     agree state has (A - {k}) (snd (set_state x k t r)) (drop k s)"
  by (auto simp: agree_def state_set has_drop)

lemma agree_other:
  "agree state has A r s \<Longrightarrow> k \<notin> A \<Longrightarrow> t \<noteq> READY \<Longrightarrow>
     agree state has A (snd (set_state x k t r)) s"
  by (auto simp: agree_def state_set)

end

text \<open>Registry states by qualified identifier.\<close>

definition state_at :: "ModelRegistry \<Rightarrow> string \<Rightarrow> LoadState option" where
  "state_at r q = (case py_split1 CHR '':'' q of (i, Some v) \<Rightarrow> state_of r (i, v) | (i, None) \<Rightarrow> None)"

definition set_state_at ::
  "(nat \<Rightarrow> real) \<times> string option \<times> string option \<Rightarrow> string \<Rightarrow> LoadState \<Rightarrow> ModelRegistry \<Rightarrow>
   bool \<times> ModelRegistry" where
  "set_state_at x q t r =
     (case py_split1 CHR '':'' q of (i, Some v) \<Rightarrow> set_state_of x (i, v) t r | (i, None) \<Rightarrow> (False, r))"

definition has_sandbox :: "('v, 'm, 'c) SandboxManager \<Rightarrow> string \<Rightarrow> bool" where
  "has_sandbox sm q \<longleftrightarrow> dget (sm_sandboxes sm) q \<noteq> None"

definition put_sandbox ::
  "string \<Rightarrow> ('v, 'm, 'c) ExecutionSandbox \<Rightarrow> ('v, 'm, 'c) SandboxManager \<Rightarrow> ('v, 'm, 'c) SandboxManager" where
  "put_sandbox q sb sm = sm\<lparr>sm_sandboxes := dput q sb (sm_sandboxes sm)\<rparr>"

definition drop_sandbox :: "string \<Rightarrow> ('v, 'm, 'c) SandboxManager \<Rightarrow> ('v, 'm, 'c) SandboxManager" where
  "drop_sandbox q sm = sm\<lparr>sm_sandboxes := ddel q (sm_sandboxes sm)\<rparr>"

lemma split_inj:
  assumes "py_split1 c q = (i, Some v)" and "py_split1 c p = (i, Some v)"
  shows "p = q"
  using py_split1_cases [of q c] py_split1_cases [of p c] assms by simp

interpretation coord: paired_store state_at set_state_at has_sandbox put_sandbox drop_sandbox
proof
  fix x q t r and p :: string
  show "fst (set_state_at x q t r) \<longleftrightarrow> state_at r q \<noteq> None"
    by (simp add: set_state_at_def state_at_def states.set_ok split: prod.split option.split)
  show "state_at (snd (set_state_at x q t r)) p =
      (if p = q then map_option (\<lambda>_. t) (state_at r q) else state_at r p)"
  proof (cases "py_split1 CHR '':'' q")
    case (Pair i w)
    show ?thesis
    proof (cases w)
      case None
      with Pair show ?thesis by (simp add: set_state_at_def state_at_def)
    next
      case (Some v)
      have "(j, u) \<noteq> (i, v)" if "p \<noteq> q" "py_split1 CHR '':'' p = (j, Some u)" for j u
        using split_inj [of "CHR '':''" q i v p] Pair Some that by auto
      with Pair Some show ?thesis
        by (auto simp: set_state_at_def state_at_def states.state_set split: prod.split option.split)
    qed
  qed
  show "state_at r q = None \<Longrightarrow> snd (set_state_at x q t r) = r"
    by (auto simp: set_state_at_def state_at_def states.set_unknown split: prod.splits option.splits)
next
  fix k b s and j :: string
  show "has_sandbox (put_sandbox k b s) j \<longleftrightarrow> j = k \<or> has_sandbox s j"
    "has_sandbox (drop_sandbox k s) j \<longleftrightarrow> j \<noteq> k \<and> has_sandbox s j"
    by (auto simp: has_sandbox_def put_sandbox_def drop_sandbox_def)
qed

text \<open>The calls of the coordinator in these terms, for model identifiers without a colon.\<close>

lemma state_at_qid: "CHR '':'' \<notin> set i \<Longrightarrow> state_at r (make_qualified_id i v) = state_of r (i, v)"
  by (simp add: state_at_def qualified_id_split)

lemma update_state_at:
  "CHR '':'' \<notin> set i \<Longrightarrow>
     update_state utc i v t e c r = set_state_at (utc, e, c) (make_qualified_id i v) t r"
  by (simp add: set_state_at_def qualified_id_split update_state_of)

lemma sandbox_calls:
  "get_sandbox sm i v = None \<longleftrightarrow> \<not> has_sandbox sm (make_qualified_id i v)"
  "snd (remove_sandbox i v sm) = drop_sandbox (make_qualified_id i v) sm"
  "fst (remove_sandbox i v sm) \<longleftrightarrow> has_sandbox sm (make_qualified_id i v)"
  by (simp_all add: get_sandbox_def has_sandbox_def remove_sandbox_def drop_sandbox_def Let_def)

lemma create_sandbox_put:
  "\<exists>sb. create_sandbox lm d sm =
     (sb, put_sandbox (make_qualified_id (lm_model_id lm) (lm_version lm)) sb sm)"
  by (simp add: create_sandbox_def put_sandbox_def Let_def)

text \<open>A stored identifier is the qualified identifier of its two parts.\<close>

lemma split_id_qid:
  assumes "CHR '':'' \<in> set q"
  shows "make_qualified_id (fst (split_id q)) (snd (split_id q)) = q"
    and "CHR '':'' \<notin> set (fst (split_id q))"
  using py_split1_cases [of q "CHR '':''"] assms
  by (auto simp: split_id_def make_qualified_id_def split: prod.splits option.splits)

lemma state_at_colon: "state_at r q \<noteq> None \<Longrightarrow> CHR '':'' \<in> set q"
  using py_split1_cases [of q "CHR '':''"]
  by (auto simp: state_at_def split: prod.splits option.splits)

section \<open>Calls on a coordinator\<close>

text \<open>
  Activations are made with the loaded model of the version; the rest of the runtime registers
  versions and changes states, but never touches an active version and leaves \<open>READY\<close> to the
  coordinator.
\<close>

inductive costep :: "('v, 'm, 'c) ModelCoordinator \<Rightarrow> ('v, 'm, 'c) ModelCoordinator \<Rightarrow> bool" where
  co_activate: "CHR '':'' \<notin> set i \<Longrightarrow> lm_model_id lm = i \<Longrightarrow> lm_version lm = v \<Longrightarrow>
    costep co (snd (activate_model utc acquired tt i v lm d co))"
| co_deactivate: "CHR '':'' \<notin> set i \<Longrightarrow> t \<noteq> READY \<Longrightarrow>
    costep co (snd (deactivate_model utc acquired tt i v t e c co))"
| co_get: "CHR '':'' \<notin> set i \<Longrightarrow> costep co (snd (get_ready_sandbox i v co))"
| co_repair: "costep co (snd (repair_invariants utc co))"
| co_stop: "costep co (co_shutdown utc co)"
| co_state: "CHR '':'' \<notin> set i \<Longrightarrow> t \<noteq> READY \<Longrightarrow> \<not> is_active i v co \<Longrightarrow>
    costep co (co\<lparr>co_registry := snd (update_state utc i v t e c (co_registry co))\<rparr>)"
| co_register: "CHR '':'' \<notin> set (vd_model_id d) \<Longrightarrow> vd_state d \<noteq> READY \<Longrightarrow>
    \<not> is_active (vd_model_id d) (vd_version d) co \<Longrightarrow>
    costep co (co\<lparr>co_registry := register_version utc d (co_registry co)\<rparr>)"

definition co_ok :: "('v, 'm, 'c) ModelCoordinator \<Rightarrow> bool" where
  "co_ok co \<longleftrightarrow> agree state_at has_sandbox (set (co_active co)) (co_registry co) (co_sandboxes co)"

definition co_start :: "('v, 'm, 'c) ModelCoordinator \<Rightarrow> bool" where
  "co_start co \<longleftrightarrow> co_registry co = new_registry \<and> co_active co = [] \<and> sm_sandboxes (co_sandboxes co) = []"

lemma co_ok_active: "co_ok co \<Longrightarrow> q \<in> set (co_active co) \<Longrightarrow>
    has_sandbox (co_sandboxes co) q \<and> state_at (co_registry co) q = Some READY \<and> CHR '':'' \<in> set q"
  using state_at_colon [of "co_registry co" q] by (auto simp: co_ok_def agree_def)

lemma co_ok_start: "co_start co \<Longrightarrow> co_ok co"
  by (auto simp: co_ok_def agree_def co_start_def has_sandbox_def state_at_def state_of_def
      get_version_def new_registry_def split: prod.split option.split)

lemma co_ok_activate:
  assumes ok: "co_ok co" and i: "CHR '':'' \<notin> set i" and lm: "lm_model_id lm = i" "lm_version lm = v"
  shows "co_ok (snd (activate_model utc acquired tt i v lm d co))"
proof (cases "acquired \<and> \<not> (make_qualified_id i v \<in> set (co_active co) \<and>
    get_sandbox (co_sandboxes co) i v \<noteq> None) \<and> get_version (co_registry co) i v \<noteq> None")
  case False
  then show ?thesis using ok by (auto simp: activate_model_def Let_def)
next
  case True
  let ?q = "make_qualified_id i v"
  obtain sb where sb: "create_sandbox lm d (co_sandboxes co) = (sb, put_sandbox ?q sb (co_sandboxes co))"
    using create_sandbox_put lm by metis
  obtain b reg where u: "update_state utc i v READY None None (co_registry co) = (b, reg)" by fastforce
  have b: "b" using u True update_state_success [of utc i v READY None None "co_registry co"] by simp
  have reg: "reg = snd (set_state_at (utc, None, None) ?q READY (co_registry co))"
    using u update_state_at [OF i] by simp
  have "state_at (co_registry co) ?q \<noteq> None"
    using True by (simp add: state_at_qid [OF i] state_of_def)
  then have "agree state_at has_sandbox (insert ?q (set (co_active co))) reg (put_sandbox ?q sb (co_sandboxes co))"
    unfolding reg using ok coord.agree_activate by (simp add: co_ok_def)
  then show ?thesis
    using True sb u b by (auto simp: activate_model_def Let_def co_ok_def)
qed

lemma co_ok_deactivate:
  assumes ok: "co_ok co" and i: "CHR '':'' \<notin> set i" and t: "t \<noteq> READY"
  shows "co_ok (snd (deactivate_model utc acquired tt i v t e c co))"
proof -
  let ?q = "make_qualified_id i v"
  have "agree state_at has_sandbox (set (co_active co) - {?q})
      (snd (set_state_at (utc, e, c) ?q t (co_registry co))) (drop_sandbox ?q (co_sandboxes co))"
    using ok t coord.agree_deactivate by (simp add: co_ok_def)
  then show ?thesis
    using ok by (simp add: deactivate_model_def Let_def split_beta co_ok_def sandbox_calls
        update_state_at [OF i])
qed

lemma co_ok_get:
  assumes ok: "co_ok co"
  shows "snd (get_ready_sandbox i v co) = co"
  using co_ok_active [OF ok, of "make_qualified_id i v"]
  by (auto simp: get_ready_sandbox_def Let_def get_sandbox_def has_sandbox_def split: option.split)

text \<open>The loops of repair and shutdown, step by step, for stored identifiers.\<close>

lemma repair_active_eq:
  assumes "CHR '':'' \<in> set q"
  shows "repair_active utc q (es, co) =
    (if has_sandbox (co_sandboxes co) q then (es, co)
     else (es @ [RemovedOrphanedActive q],
       co\<lparr>co_active := removeAll q (co_active co),
          co_registry := snd (set_state_at (utc, Some ''Sandbox missing during invariant repair'', None)
            q FAILED (co_registry co))\<rparr>))"
  using split_id_qid [OF assms] update_state_at [OF split_id_qid(2) [OF assms]]
    sandbox_calls(1) [of "co_sandboxes co" "fst (split_id q)" "snd (split_id q)"]
  by (simp add: repair_active_def split_beta)

lemma repair_orphan_eq:
  assumes "CHR '':'' \<in> set q"
  shows "repair_orphan q (es, co) =
    (if q \<in> set (co_active co) then (es, co)
     else (es @ [if has_sandbox (co_sandboxes co) q then RemovedOrphanedSandbox q else FailedToRemove q],
       co\<lparr>co_sandboxes := drop_sandbox q (co_sandboxes co)\<rparr>))"
  using split_id_qid [OF assms]
    sandbox_calls(2,3) [of "fst (split_id q)" "snd (split_id q)" "co_sandboxes co"]
  by (simp add: repair_orphan_def split_beta)

lemma shutdown_one_eq:
  assumes "CHR '':'' \<in> set q"
  shows "shutdown_one utc q co =
    co\<lparr>co_sandboxes := drop_sandbox q (co_sandboxes co),
       co_registry := snd (set_state_at (utc, None, None) q UNLOADED (co_registry co))\<rparr>"
  using split_id_qid [OF assms] update_state_at [OF split_id_qid(2) [OF assms]]
    sandbox_calls(2) [of "fst (split_id q)" "snd (split_id q)" "co_sandboxes co"]
  by (simp add: shutdown_one_def split_beta)

lemma fold_repair_active:
  assumes "\<forall>q\<in>set qs. CHR '':'' \<in> set q"
  shows "let (es', co') = fold (repair_active utc) qs (es, co); lost = (\<lambda>q. \<not> has_sandbox (co_sandboxes co) q) in
    es' = es @ map RemovedOrphanedActive (filter lost qs) \<and> co_sandboxes co' = co_sandboxes co \<and>
    set (co_active co') = {q \<in> set (co_active co). \<not> (q \<in> set qs \<and> lost q)} \<and>
    (\<forall>q. state_at (co_registry co') q = (if q \<in> set qs \<and> lost q
       then map_option (\<lambda>_. FAILED) (state_at (co_registry co) q) else state_at (co_registry co) q))"
  using assms
proof (induction qs arbitrary: es co)
  case Nil
  then show ?case by simp
next
  case (Cons p qs)
  then have p: "CHR '':'' \<in> set p" and qs: "\<forall>q\<in>set qs. CHR '':'' \<in> set q" by auto
  show ?case
  proof (cases "has_sandbox (co_sandboxes co) p")
    case True
    then show ?thesis using Cons.IH [OF qs, of es co] by (auto simp: repair_active_eq [OF p] Let_def split_beta)
  next
    case False
    let ?co = "co\<lparr>co_active := removeAll p (co_active co),
      co_registry := snd (set_state_at (utc, Some ''Sandbox missing during invariant repair'', None)
        p FAILED (co_registry co))\<rparr>"
    from Cons.IH [OF qs, of "es @ [RemovedOrphanedActive p]" ?co] False show ?thesis
      by (auto simp: repair_active_eq [OF p] Let_def split_beta coord.state_set option.map_comp o_def)
  qed
qed

lemma fold_repair_orphan:
  assumes "\<forall>q\<in>set qs. CHR '':'' \<in> set q \<and> has_sandbox (co_sandboxes co) q" and "distinct qs"
  shows "let (es', co') = fold repair_orphan qs (es, co) in
    es' = es @ map RemovedOrphanedSandbox (filter (\<lambda>q. q \<notin> set (co_active co)) qs) \<and>
    co_active co' = co_active co \<and> co_registry co' = co_registry co \<and>
    (\<forall>q. has_sandbox (co_sandboxes co') q \<longleftrightarrow>
       has_sandbox (co_sandboxes co) q \<and> (q \<in> set qs \<longrightarrow> q \<in> set (co_active co)))"
  using assms
proof (induction qs arbitrary: es co)
  case Nil
  then show ?case by simp
next
  case (Cons p qs)
  then have p: "CHR '':'' \<in> set p" by simp
  show ?case
  proof (cases "p \<in> set (co_active co)")
    case True
    then show ?thesis using Cons.IH [of co es] Cons.prems
      by (auto simp: repair_orphan_eq [OF p] Let_def split_beta)
  next
    case False
    let ?co = "co\<lparr>co_sandboxes := drop_sandbox p (co_sandboxes co)\<rparr>"
    have "\<forall>q\<in>set qs. CHR '':'' \<in> set q \<and> has_sandbox (co_sandboxes ?co) q"
      using Cons.prems by (auto simp: coord.has_drop)
    from Cons.IH [OF this, of "es @ [RemovedOrphanedSandbox p]"] False Cons.prems show ?thesis
      by (auto simp: repair_orphan_eq [OF p] Let_def split_beta coord.has_drop)
  qed
qed

lemma fold_shutdown:
  assumes "\<forall>q\<in>set qs. CHR '':'' \<in> set q"
  shows "let co' = fold (shutdown_one utc) qs co in co_active co' = co_active co \<and>
    (\<forall>q. has_sandbox (co_sandboxes co') q \<longleftrightarrow> has_sandbox (co_sandboxes co) q \<and> q \<notin> set qs) \<and>
    (\<forall>q. state_at (co_registry co') q = (if q \<in> set qs
       then map_option (\<lambda>_. UNLOADED) (state_at (co_registry co) q) else state_at (co_registry co) q))"
  using assms
proof (induction qs arbitrary: co)
  case Nil
  then show ?case by simp
next
  case (Cons p qs)
  then have p: "CHR '':'' \<in> set p" and qs: "\<forall>q\<in>set qs. CHR '':'' \<in> set q" by auto
  show ?case
    using Cons.IH [OF qs, of "shutdown_one utc p co"]
    by (auto simp: shutdown_one_eq [OF p] Let_def coord.has_drop coord.state_set option.map_comp o_def)
qed

lemma fold_no_op: "(\<And>x. x \<in> set xs \<Longrightarrow> f x a = a) \<Longrightarrow> fold f xs a = a"
  by (induction xs) simp_all

lemma health_keys: "map fst (get_all_health sm) = map fst (sm_sandboxes sm)"
  by (simp add: get_all_health_def o_def split_beta)

lemma sandbox_keys: "fst ` set (get_all_health sm) = {q. has_sandbox sm q}"
proof -
  have "fst ` set (get_all_health sm) = set (dkeys (sm_sandboxes sm))"
    by (simp flip: set_map add: health_keys)
  then show ?thesis unfolding set_dkeys has_sandbox_def .
qed

lemma co_ok_repair:
  assumes ok: "co_ok co"
  shows "repair_invariants utc co = ([], co)"
proof -
  have "fold (repair_active utc) (co_active co) ([], co) = ([], co)"
    using co_ok_active [OF ok] by (intro fold_no_op) (simp add: repair_active_eq)
  moreover have "fold repair_orphan (dkeys (get_all_health (co_sandboxes co))) ([], co) = ([], co)"
    using co_ok_active [OF ok] ok
    by (intro fold_no_op) (auto simp: sandbox_keys repair_orphan_eq co_ok_def agree_def)
  ultimately show ?thesis by (simp add: repair_invariants_def)
qed

lemma co_ok_shutdown:
  assumes ok: "co_ok co"
  shows "co_ok (co_shutdown utc co) \<and> co_active (co_shutdown utc co) = [] \<and>
    (\<forall>q. q \<in> set (co_active co) \<longrightarrow> state_at (co_registry (co_shutdown utc co)) q = Some UNLOADED)"
  using fold_shutdown [of "co_active co" utc co] co_ok_active [OF ok] ok
  by (auto simp: co_shutdown_def Let_def co_ok_def agree_def)

lemma register_state_at:
  "CHR '':'' \<notin> set (vd_model_id d) \<Longrightarrow> state_at (register_version utc d r) q =
     (if q = make_qualified_id (vd_model_id d) (vd_version d) then Some (vd_state d) else state_at r q)"
  using py_split1_cases [of q "CHR '':''"]
  by (auto simp: state_at_def state_of_def get_version_register_version qualified_id_split
      make_qualified_id_def py_split1_append split: prod.splits option.splits)

lemma co_ok_register:
  assumes "co_ok co" and "CHR '':'' \<notin> set (vd_model_id d)" and "vd_state d \<noteq> READY"
    and "\<not> is_active (vd_model_id d) (vd_version d) co"
  shows "co_ok (co\<lparr>co_registry := register_version utc d (co_registry co)\<rparr>)"
  using assms by (auto simp: co_ok_def agree_def is_active_def register_state_at)

lemma co_ok_state:
  assumes "co_ok co" and "CHR '':'' \<notin> set i" and "t \<noteq> READY" and "\<not> is_active i v co"
  shows "co_ok (co\<lparr>co_registry := snd (update_state utc i v t e c (co_registry co))\<rparr>)"
  using assms coord.agree_other
  by (simp add: co_ok_def is_active_def update_state_at)

lemma co_ok_step: "costep co co' \<Longrightarrow> co_ok co \<Longrightarrow> co_ok co'"
  by (induction rule: costep.induct)
    (simp_all add: co_ok_activate co_ok_deactivate co_ok_get co_ok_repair co_ok_shutdown co_ok_state
      co_ok_register)

interpretation coordinator: invariant_system co_start costep co_ok
  using co_ok_start co_ok_step by unfold_locales

text \<open>What \<open>verify_invariants\<close> reports.\<close>

lemma descriptor_at:
  assumes "CHR '':'' \<in> set q"
  shows "map_option vd_state (get_version r (fst (split_id q)) (snd (split_id q))) = state_at r q"
  using state_at_qid [OF split_id_qid(2) [OF assms], of r "snd (split_id q)"] split_id_qid(1) [OF assms]
  by (simp add: state_of_def)

lemma active_violations_iff:
  assumes "CHR '':'' \<in> set q"
  shows "active_violations co q = [] \<longleftrightarrow>
    state_at (co_registry co) q = Some READY \<and> has_sandbox (co_sandboxes co) q"
  using descriptor_at [OF assms, of "co_registry co"] split_id_qid(1) [OF assms]
    sandbox_calls(1) [of "co_sandboxes co" "fst (split_id q)" "snd (split_id q)"]
  by (auto simp: active_violations_def split_beta split: option.splits)

lemma verify_iff:
  assumes "\<forall>q\<in>set (co_active co). CHR '':'' \<in> set q"
  shows "fst (verify_invariants co) \<longleftrightarrow>
    (\<forall>q\<in>set (co_active co). state_at (co_registry co) q = Some READY) \<and>
    (\<forall>q. q \<in> set (co_active co) \<longleftrightarrow> has_sandbox (co_sandboxes co) q)"
  using assms
  by (auto simp: verify_invariants_def Let_def active_violations_iff orphans_def sandbox_keys
      filter_empty_conv)

text \<open>
  C20. In every state the coordinator reaches, the active versions, the versions in state \<open>READY\<close> and the
  sandboxes are the same; \<open>verify_invariants\<close> answers that they are valid, and \<open>repair_invariants\<close> finds
  nothing to repair.
\<close>

theorem coordinator_invariant:
  assumes "reach co_start costep co"
  shows "(q \<in> set (co_active co) \<longleftrightarrow> has_sandbox (co_sandboxes co) q) \<and>
    (q \<in> set (co_active co) \<longleftrightarrow> state_at (co_registry co) q = Some READY) \<and>
    fst (verify_invariants co) \<and> repair_invariants utc co = ([], co)"
proof -
  have ok: "co_ok co" using coordinator.reach_invar [OF assms] .
  have "fst (verify_invariants co)"
    using ok co_ok_active [OF ok] by (auto simp: verify_iff) (auto simp: co_ok_def agree_def)
  with ok co_ok_repair [OF ok, of utc] show ?thesis unfolding co_ok_def agree_def by blast
qed

text \<open>
  From any state, \<open>repair_invariants\<close> makes the active versions and the sandboxes the same set: it
  drops the active versions without a sandbox, marking them \<open>FAILED\<close>, and the sandboxes that are not
  active. It never fails. It does not look at the registry for the others, so the invariants hold
  afterwards exactly when every active version that kept its sandbox was \<open>READY\<close>.
\<close>

theorem repair_effect:
  assumes "\<forall>q\<in>set (co_active co). CHR '':'' \<in> set q"
    and "\<forall>q. has_sandbox (co_sandboxes co) q \<longrightarrow> CHR '':'' \<in> set q"
    and "dict_wf (sm_sandboxes (co_sandboxes co))"
  shows "let (es, co') = repair_invariants utc co in
    snd (snd (repair_answer es)) \<and>
    set (co_active co') = {q \<in> set (co_active co). has_sandbox (co_sandboxes co) q} \<and>
    (\<forall>q. has_sandbox (co_sandboxes co') q \<longleftrightarrow> q \<in> set (co_active co')) \<and>
    (\<forall>q. state_at (co_registry co') q =
       (if q \<in> set (co_active co) \<and> \<not> has_sandbox (co_sandboxes co) q
        then map_option (\<lambda>_. FAILED) (state_at (co_registry co) q) else state_at (co_registry co) q)) \<and>
    (fst (verify_invariants co') \<longleftrightarrow>
       (\<forall>q\<in>set (co_active co'). state_at (co_registry co) q = Some READY))"
proof -
  obtain es1 co1 where 1: "fold (repair_active utc) (co_active co) ([], co) = (es1, co1)" by fastforce
  note a = fold_repair_active [OF assms(1), of utc "[]" co, unfolded 1]
  let ?qs = "dkeys (get_all_health (co_sandboxes co1))"
  obtain es2 co2 where 2: "fold repair_orphan ?qs (es1, co1) = (es2, co2)" by fastforce
  have s: "co_sandboxes co1 = co_sandboxes co" using a by simp
  have d: "distinct ?qs"
    using assms(3) by (simp add: s health_keys dict_wf_def)
  have "\<forall>q\<in>set ?qs. CHR '':'' \<in> set q \<and> has_sandbox (co_sandboxes co1) q"
    using assms(2) by (auto simp: sandbox_keys s)
  note b = fold_repair_orphan [OF this d, of es1, unfolded 2]
  have has: "\<forall>q. has_sandbox (co_sandboxes co2) q \<longleftrightarrow> q \<in> set (co_active co2)"
    and act: "set (co_active co2) = {q \<in> set (co_active co). has_sandbox (co_sandboxes co) q}"
    using a b by (auto simp: sandbox_keys s)
  have v: "fst (verify_invariants co2) \<longleftrightarrow>
      (\<forall>q\<in>set (co_active co2). state_at (co_registry co) q = Some READY)"
    using verify_iff [of co2] has act assms(1) a b by auto
  have "snd (snd (repair_answer es2))"
    using a b by (auto simp: repair_answer_def is_failed_repair_def filter_empty_conv)
  moreover have "\<forall>q. state_at (co_registry co2) q =
      (if q \<in> set (co_active co) \<and> \<not> has_sandbox (co_sandboxes co) q
       then map_option (\<lambda>_. FAILED) (state_at (co_registry co) q) else state_at (co_registry co) q)"
    using a b by simp
  moreover have "repair_invariants utc co = (es2, co2)" by (simp add: repair_invariants_def 1 2)
  ultimately show ?thesis using has act v by simp
qed

definition demo_coordinator :: "(jval, unit, unit) ModelCoordinator" where
  "demo_coordinator = new_coordinator
     (register_version (\<lambda>_. 0) (new_descriptor 0 ''fall'' ''1.0.0'' []) new_registry)
     (new_sandbox_manager None None False THREAD 4) True False"

definition active_coordinator :: "(jval, unit, unit) ModelCoordinator" where
  "active_coordinator = snd (activate_model (\<lambda>_. 0) True ''30.0'' ''fall'' ''1.0.0'' demo_model
     (new_descriptor 0 ''fall'' ''1.0.0'' []) demo_coordinator)"

text \<open>
  An activation is all or nothing. It answers \<open>success\<close> exactly when the lock was acquired, the version
  is registered and it is not already active with a sandbox; then the version is active, \<open>READY\<close> and
  has the sandbox of the answer, and no other version has changed. Otherwise the coordinator is
  unchanged.
\<close>

theorem activation_atomic:
  assumes "CHR '':'' \<notin> set i" and "lm_model_id lm = i" and "lm_version lm = v"
  shows "let q = make_qualified_id i v; (cr, co') = activate_model utc acquired tt i v lm d co in
    (cr_success cr \<longleftrightarrow> acquired \<and> state_at (co_registry co) q \<noteq> None \<and>
       \<not> (q \<in> set (co_active co) \<and> has_sandbox (co_sandboxes co) q)) \<and>
    (if cr_success cr
     then cr_sandbox cr = get_sandbox (co_sandboxes co') i v \<and> cr_sandbox cr \<noteq> None \<and>
       set (co_active co') = insert q (set (co_active co)) \<and>
       state_at (co_registry co') q = Some READY \<and>
       (\<forall>p. p \<noteq> q \<longrightarrow> state_at (co_registry co') p = state_at (co_registry co) p \<and>
          has_sandbox (co_sandboxes co') p = has_sandbox (co_sandboxes co) p)
     else co' = co \<and> cr_code cr \<noteq> SUCCESS)"
proof -
  let ?q = "make_qualified_id i v"
  have st: "state_at (co_registry co) ?q = map_option vd_state (get_version (co_registry co) i v)"
    using state_at_qid [OF assms(1)] by (simp add: state_of_def)
  note sb = sandbox_calls(1) [of "co_sandboxes co" i v]
  show ?thesis
  proof (cases "acquired \<and> state_at (co_registry co) ?q \<noteq> None \<and>
      \<not> (?q \<in> set (co_active co) \<and> has_sandbox (co_sandboxes co) ?q)")
    case False
    then show ?thesis
      using st sb by (auto simp: activate_model_def lock_failure_def result_fail_def Let_def)
  next
    case True
    obtain x where x: "create_sandbox lm d (co_sandboxes co) = (x, put_sandbox ?q x (co_sandboxes co))"
      using create_sandbox_put assms by metis
    obtain b reg where u: "update_state utc i v READY None None (co_registry co) = (b, reg)" by fastforce
    have b: "b" using u True st update_state_success [of utc i v READY None None "co_registry co"] by auto
    have reg: "reg = snd (set_state_at (utc, None, None) ?q READY (co_registry co))"
      using u update_state_at [OF assms(1)] by simp
    have "state_at reg p = (if p = ?q then Some READY else state_at (co_registry co) p)" for p
      using True unfolding reg coord.state_set by auto
    moreover have "get_sandbox (put_sandbox ?q x (co_sandboxes co)) i v = Some x"
      by (simp add: get_sandbox_def put_sandbox_def)
    moreover have "get_version (co_registry co) i v \<noteq> None" using True st by auto
    ultimately show ?thesis
      using True sb x u b by (auto simp: activate_model_def result_ok_def Let_def coord.has_put)
  qed
qed

lemma demo_states:
  "state_at (co_registry demo_coordinator) ''fall:1.0.0'' = Some DISCOVERED"
  "co_start (new_coordinator new_registry (new_sandbox_manager None None False THREAD 4) True False)"
  "costep (new_coordinator new_registry (new_sandbox_manager None None False THREAD 4) True False)
     demo_coordinator"
  "costep demo_coordinator active_coordinator"
proof -
  show "state_at (co_registry demo_coordinator) ''fall:1.0.0'' = Some DISCOVERED" by code_simp
  show "co_start (new_coordinator new_registry (new_sandbox_manager None None False THREAD 4) True False)"
    by (simp add: co_start_def new_coordinator_def new_sandbox_manager_def)
  show "costep demo_coordinator active_coordinator"
    unfolding active_coordinator_def by (rule co_activate) (simp_all add: demo_model_def)
  show "costep (new_coordinator new_registry (new_sandbox_manager None None False THREAD 4) True False)
      demo_coordinator"
    using co_register [of "new_descriptor 0 ''fall'' ''1.0.0'' []"
        "new_coordinator new_registry (new_sandbox_manager None None False THREAD 4) True False" "\<lambda>_. 0"]
    by (simp add: demo_coordinator_def new_coordinator_def new_descriptor_def is_active_def)
qed

lemma active_sandboxes: "map fst (sm_sandboxes (co_sandboxes active_coordinator)) = [''fall:1.0.0'']"
  by code_simp

lemma demo_reached: "reach co_start costep active_coordinator"
  using demo_states by (blast intro: reach.intros)

theorem coordinator_invariant_witness:
  "fst (verify_invariants active_coordinator) \<and> repair_invariants (\<lambda>_. 1) active_coordinator = ([], active_coordinator)"
  using coordinator_invariant [OF demo_reached] by blast

theorem activation_atomic_witness:
  "cr_success (fst (activate_model (\<lambda>_. 0) True ''30.0'' ''fall'' ''1.0.0'' demo_model
     (new_descriptor 0 ''fall'' ''1.0.0'' []) demo_coordinator)) \<and>
   set (co_active active_coordinator) = {''fall:1.0.0''}"
  using activation_atomic [of "''fall''" demo_model "''1.0.0''" "\<lambda>_. 0" True "''30.0''"
      "new_descriptor 0 ''fall'' ''1.0.0'' []" demo_coordinator] demo_states(1)
  by (simp add: demo_model_def active_coordinator_def split_beta make_qualified_id_def
      demo_coordinator_def new_coordinator_def Let_def)

theorem repair_effect_witness:
  "set (co_active (snd (repair_invariants (\<lambda>_. 1) (active_coordinator\<lparr>co_active := [''ghost:1'']\<rparr>)))) = {}"
proof -
  let ?co = "active_coordinator\<lparr>co_active := [''ghost:1'']\<rparr>"
  obtain sb where "sm_sandboxes (co_sandboxes active_coordinator) = [(''fall:1.0.0'', sb)]"
    using active_sandboxes by auto
  then have "dict_wf (sm_sandboxes (co_sandboxes ?co))"
    and "has_sandbox (co_sandboxes ?co) q \<longleftrightarrow> q = ''fall:1.0.0''" for q
    by (simp_all add: dict_wf_def has_sandbox_def)
  then show ?thesis
    using repair_effect [of ?co "\<lambda>_. 1"] by (auto simp: split_beta)
qed

end
