(* ===== verification/Pipeline.thy ===== *)
theory Pipeline
  imports Versioning Sandbox ConcurrencyProofs
begin

text \<open>
  \<open>ai/runtime/pipeline.py\<close>: the public entry of the runtime. A request names a model and carries an
  opaque reference to frames; \<open>infer\<close> validates it, resolves the version, checks state, health and
  contract, acquires a concurrency slot, executes in the sandbox and builds a response. The
  components it composes are those of the other theories.
\<close>

section \<open>Frame references\<close>

record FrameReference =
  fr_ref_id :: string
  fr_camera_id :: string
  fr_timestamp :: string
  fr_metadata :: "(string, jval) dict"

definition frame_to_dict :: "FrameReference \<Rightarrow> (string, jval) dict" where
  "frame_to_dict f =
     [(''ref_id'', JStr (fr_ref_id f)), (''camera_id'', JStr (fr_camera_id f)),
      (''timestamp'', JStr (fr_timestamp f)), (''metadata'', JDict (fr_metadata f))]"

text \<open>
  \<open>data.get(key, "")\<close> and \<open>data.get(key, {})\<close>. A value of another type, which Python would store as
  it is, gives \<open>None\<close> here.
\<close>

definition get_str :: "(string, jval) dict \<Rightarrow> string \<Rightarrow> string option" where
  "get_str d k = (case dget d k of None \<Rightarrow> Some [] | Some (JStr s) \<Rightarrow> Some s | _ \<Rightarrow> None)"

definition get_dict :: "(string, jval) dict \<Rightarrow> string \<Rightarrow> (string, jval) dict option" where
  "get_dict d k = (case dget d k of None \<Rightarrow> Some [] | Some (JDict e) \<Rightarrow> Some e | _ \<Rightarrow> None)"

definition frame_from_dict :: "(string, jval) dict \<Rightarrow> FrameReference option" where
  "frame_from_dict d =
     (case (get_str d ''ref_id'', get_str d ''camera_id'', get_str d ''timestamp'', get_dict d ''metadata'') of
        (Some r, Some c, Some t, Some m) \<Rightarrow>
          Some \<lparr>fr_ref_id = r, fr_camera_id = c, fr_timestamp = t, fr_metadata = m\<rparr>
      | _ \<Rightarrow> None)"

record BatchFrameReference =
  bf_frames :: "FrameReference list"
  bf_batch_id :: string

text \<open>\<open>hex\<close> stands for \<open>uuid.uuid4().hex\<close>.\<close>

definition new_batch :: "string \<Rightarrow> FrameReference list \<Rightarrow> string \<Rightarrow> BatchFrameReference" where
  "new_batch hex frames batch_id =
     \<lparr>bf_frames = frames, bf_batch_id = (if batch_id = [] then ''batch-'' @ take 8 hex else batch_id)\<rparr>"

definition batch_size :: "BatchFrameReference \<Rightarrow> int" where
  "batch_size b = int (length (bf_frames b))"

definition batch_to_dict :: "BatchFrameReference \<Rightarrow> (string, jval) dict" where
  "batch_to_dict b =
     [(''batch_id'', JStr (bf_batch_id b)),
      (''frames'', JList (map (JDict \<circ> frame_to_dict) (bf_frames b))), (''size'', JInt (batch_size b))]"

record TemporalFrameReference =
  tf_frames :: "FrameReference list"
  tf_sequence_id :: string
  tf_fps :: "real option"

definition new_temporal ::
  "string \<Rightarrow> FrameReference list \<Rightarrow> string \<Rightarrow> real option \<Rightarrow> TemporalFrameReference" where
  "new_temporal hex frames sequence_id fps =
     \<lparr>tf_frames = frames, tf_sequence_id = (if sequence_id = [] then ''seq-'' @ take 8 hex else sequence_id),
      tf_fps = fps\<rparr>"

definition temporal_length :: "TemporalFrameReference \<Rightarrow> int" where
  "temporal_length t = int (length (tf_frames t))"

definition temporal_to_dict :: "TemporalFrameReference \<Rightarrow> (string, jval) dict" where
  "temporal_to_dict t =
     [(''sequence_id'', JStr (tf_sequence_id t)),
      (''frames'', JList (map (JDict \<circ> frame_to_dict) (tf_frames t))),
      (''length'', JInt (temporal_length t)), (''fps'', jopt JReal (tf_fps t))]"

text \<open>A reference of none of the three classes is \<open>OtherRef\<close> with the name of its type.\<close>

datatype AnyFrameReference = FrameRef FrameReference | BatchRef BatchFrameReference
  | TemporalRef TemporalFrameReference | OtherRef string

fun ref_to_dict :: "AnyFrameReference \<Rightarrow> py_error + (string, jval) dict" where
  "ref_to_dict (FrameRef f) = Inr (frame_to_dict f)"
| "ref_to_dict (BatchRef b) = Inr (batch_to_dict b)"
| "ref_to_dict (TemporalRef t) = Inr (temporal_to_dict t)"
| "ref_to_dict (OtherRef n) = Inl (AttributeError ''to_dict'')"

section \<open>Requests\<close>

record InferenceRequest =
  rq_model_id :: string
  rq_version :: "string option"
  rq_frame_ref :: "AnyFrameReference option"
  rq_request_id :: string
  rq_priority :: int
  rq_timeout_ms :: "int option"
  rq_caller_id :: "string option"
  rq_camera_id :: "string option"

definition post_init_request :: "string \<Rightarrow> InferenceRequest \<Rightarrow> InferenceRequest" where
  "post_init_request hex rq =
     (if rq_request_id rq = [] then rq\<lparr>rq_request_id := ''req-'' @ take 12 hex\<rparr> else rq)"

definition request_input_type :: "InferenceRequest \<Rightarrow> InputType" where
  "request_input_type rq =
     (case rq_frame_ref rq of Some (TemporalRef t) \<Rightarrow> TEMPORAL | Some (BatchRef b) \<Rightarrow> BATCH | _ \<Rightarrow> FRAME)"

definition request_to_dict :: "InferenceRequest \<Rightarrow> py_error + (string, jval) dict" where
  "request_to_dict rq =
     (let result =
        [(''request_id'', JStr (rq_request_id rq)), (''model_id'', JStr (rq_model_id rq)),
         (''version'', jopt JStr (rq_version rq)),
         (''input_type'', JStr (input_type_value (request_input_type rq))),
         (''priority'', JInt (rq_priority rq))];
          finish = (\<lambda>d. dput_if (truthy_str (rq_camera_id rq)) ''camera_id'' (jopt JStr (rq_camera_id rq))
            (dput_if (truthy_str (rq_caller_id rq)) ''caller_id'' (jopt JStr (rq_caller_id rq)) d))
      in case rq_frame_ref rq of
           None \<Rightarrow> Inr (finish result)
         | Some ref \<Rightarrow>
             (case ref_to_dict ref of
                Inl e \<Rightarrow> Inl e | Inr d \<Rightarrow> Inr (finish (dput ''frame_ref'' (JDict d) result))))"

section \<open>Responses\<close>

datatype ResponseStatus = ST_SUCCESS | ST_ERROR | ST_MODEL_NOT_FOUND | ST_MODEL_NOT_READY
  | ST_INVALID_REQUEST | ST_EXECUTION_FAILED | ST_TIMEOUT

fun status_value :: "ResponseStatus \<Rightarrow> string" where
  "status_value ST_SUCCESS = ''success''"
| "status_value ST_ERROR = ''error''"
| "status_value ST_MODEL_NOT_FOUND = ''model_not_found''"
| "status_value ST_MODEL_NOT_READY = ''model_not_ready''"
| "status_value ST_INVALID_REQUEST = ''invalid_request''"
| "status_value ST_EXECUTION_FAILED = ''execution_failed''"
| "status_value ST_TIMEOUT = ''timeout''"

record 'v InferenceResponse =
  rs_status :: ResponseStatus
  rs_success :: bool
  rs_request_id :: string
  rs_model_id :: string
  rs_version :: string
  rs_total_ms :: int
  rs_timestamp :: real
  rs_output :: "'v option"
  rs_error_code :: "string option"
  rs_error_message :: "string option"
  rs_preprocess_ms :: int
  rs_inference_ms :: int
  rs_postprocess_ms :: int

definition success_response ::
  "real \<Rightarrow> InferenceRequest \<Rightarrow> string \<Rightarrow> 'v option \<Rightarrow> 'v ExecutionResult \<Rightarrow> 'v InferenceResponse" where
  "success_response now rq version output er =
     \<lparr>rs_status = ST_SUCCESS, rs_success = True, rs_request_id = rq_request_id rq,
      rs_model_id = rq_model_id rq, rs_version = version, rs_total_ms = er_total_ms er,
      rs_timestamp = now, rs_output = output, rs_error_code = None, rs_error_message = None,
      rs_preprocess_ms = er_preprocess_ms er, rs_inference_ms = er_inference_ms er,
      rs_postprocess_ms = er_postprocess_ms er\<rparr>"

definition error_response ::
  "real \<Rightarrow> InferenceRequest \<Rightarrow> string \<Rightarrow> ResponseStatus \<Rightarrow> string \<Rightarrow> string \<Rightarrow> int \<Rightarrow> 'v InferenceResponse" where
  "error_response now rq version status code message total_ms =
     \<lparr>rs_status = status, rs_success = False, rs_request_id = rq_request_id rq,
      rs_model_id = rq_model_id rq, rs_version = (if version = [] then ''unknown'' else version),
      rs_total_ms = total_ms, rs_timestamp = now, rs_output = None, rs_error_code = Some code,
      rs_error_message = Some message, rs_preprocess_ms = 0, rs_inference_ms = 0,
      rs_postprocess_ms = 0\<rparr>"

text \<open>\<open>render\<close> turns the output into a value of the answer.\<close>

definition response_to_dict :: "('v \<Rightarrow> jval) \<Rightarrow> 'v InferenceResponse \<Rightarrow> (string, jval) dict" where
  "response_to_dict render rs =
     (let result =
        [(''status'', JStr (status_value (rs_status rs))), (''success'', JBool (rs_success rs)),
         (''request_id'', JStr (rs_request_id rs)), (''model_id'', JStr (rs_model_id rs)),
         (''version'', JStr (rs_version rs)), (''timestamp'', JTime (rs_timestamp rs)),
         (''timing'', JDict [(''total_ms'', JInt (rs_total_ms rs)),
            (''preprocess_ms'', JInt (rs_preprocess_ms rs)),
            (''inference_ms'', JInt (rs_inference_ms rs)),
            (''postprocess_ms'', JInt (rs_postprocess_ms rs))])]
      in if rs_success rs then dput ''output'' (jopt render (rs_output rs)) result
         else dput ''error'' (JDict [(''code'', jopt JStr (rs_error_code rs)),
                (''message'', jopt JStr (rs_error_message rs))]) result)"

section \<open>The request validator\<close>

definition frame_error :: "real \<Rightarrow> string \<Rightarrow> string \<Rightarrow> ModelError" where
  "frame_error now message request_id =
     pipeline_error now PIPE_INVALID_FRAME_REF message None None (Some request_id) []"

definition validate_single_frame :: "real \<Rightarrow> FrameReference \<Rightarrow> string \<Rightarrow> ModelError option" where
  "validate_single_frame now f request_id =
     (if fr_ref_id f = [] then Some (frame_error now ''Frame reference missing ref_id'' request_id)
      else if fr_camera_id f = [] then Some (frame_error now ''Frame reference missing camera_id'' request_id)
      else None)"

definition add_detail :: "string \<Rightarrow> jval \<Rightarrow> ModelError \<Rightarrow> ModelError" where
  "add_detail k v e =
     e\<lparr>err_context := (err_context e)\<lparr>ctx_details := dput k v (ctx_details (err_context e))\<rparr>\<rparr>"

text \<open>The loop over \<open>enumerate(frames)\<close>, from index \<open>i\<close>.\<close>

fun validate_frames :: "real \<Rightarrow> int \<Rightarrow> FrameReference list \<Rightarrow> string \<Rightarrow> ModelError option" where
  "validate_frames now i [] request_id = None"
| "validate_frames now i (f # fs) request_id =
     (case validate_single_frame now f request_id of
        Some e \<Rightarrow> Some (add_detail ''frame_index'' (JInt i) e)
      | None \<Rightarrow> validate_frames now (i + 1) fs request_id)"

definition validate_batch_frame :: "real \<Rightarrow> BatchFrameReference \<Rightarrow> string \<Rightarrow> ModelError option" where
  "validate_batch_frame now b request_id =
     (if bf_frames b = [] then Some (frame_error now ''Batch frame reference contains no frames'' request_id)
      else validate_frames now 0 (bf_frames b) request_id)"

definition validate_temporal_frame :: "real \<Rightarrow> TemporalFrameReference \<Rightarrow> string \<Rightarrow> ModelError option" where
  "validate_temporal_frame now t request_id =
     (if tf_frames t = [] then Some (frame_error now ''Temporal frame reference contains no frames'' request_id)
      else validate_frames now 0 (tf_frames t) request_id)"

definition validate_frame_reference ::
  "real \<Rightarrow> AnyFrameReference option \<Rightarrow> string \<Rightarrow> ModelError option" where
  "validate_frame_reference now ref request_id =
     (case ref of
        None \<Rightarrow> Some (frame_error now ''Frame reference is required'' request_id)
      | Some (FrameRef f) \<Rightarrow> validate_single_frame now f request_id
      | Some (BatchRef b) \<Rightarrow> validate_batch_frame now b request_id
      | Some (TemporalRef t) \<Rightarrow> validate_temporal_frame now t request_id
      | Some (OtherRef n) \<Rightarrow> Some (frame_error now (''Unknown frame reference type: '' @ n) request_id))"

definition request_error ::
  "real \<Rightarrow> ErrorCode \<Rightarrow> string \<Rightarrow> InferenceRequest \<Rightarrow> ModelVersionDescriptor \<Rightarrow> (string, jval) dict \<Rightarrow> ModelError" where
  "request_error now code message rq d details =
     pipeline_error now code message (Some (rq_model_id rq)) (Some (vd_version d))
       (Some (rq_request_id rq)) details"

definition validate_input_type ::
  "real \<Rightarrow> InferenceRequest \<Rightarrow> ModelVersionDescriptor \<Rightarrow> ModelError option" where
  "validate_input_type now rq d =
     (let model_input_type = is_type (vd_input_spec d); request_type = request_input_type rq
      in if model_input_type \<noteq> request_type
         then Some (request_error now PIPE_INPUT_TYPE_MISMATCH
                (''Model expects '' @ input_type_value model_input_type @ '' input, got '' @
                 input_type_value request_type) rq d
                [(''expected_type'', JStr (input_type_value model_input_type)),
                 (''actual_type'', JStr (input_type_value request_type))])
         else None)"

text \<open>\<open>if x and n < x\<close> for an optional integer: zero counts as absent.\<close>

definition truthy_int :: "int option \<Rightarrow> bool" where
  "truthy_int x \<longleftrightarrow> x \<noteq> None \<and> x \<noteq> Some 0"

definition validate_batch_size ::
  "real \<Rightarrow> InferenceRequest \<Rightarrow> ModelVersionDescriptor \<Rightarrow> ModelError option" where
  "validate_batch_size now rq d =
     (case rq_frame_ref rq of
        Some (BatchRef b) \<Rightarrow>
          (let n = batch_size b; lo = is_batch_min_size (vd_input_spec d); hi = is_batch_max_size (vd_input_spec d)
           in if truthy_int lo \<and> n < the lo
              then Some (request_error now PIPE_BATCH_SIZE_INVALID
                     (''Batch size '' @ show_int n @ '' below minimum '' @ show_int (the lo)) rq d
                     [(''batch_size'', JInt n), (''min_size'', JInt (the lo))])
              else if truthy_int hi \<and> the hi < n
              then Some (request_error now PIPE_BATCH_SIZE_INVALID
                     (''Batch size '' @ show_int n @ '' exceeds maximum '' @ show_int (the hi)) rq d
                     [(''batch_size'', JInt n), (''max_size'', JInt (the hi))])
              else None)
      | _ \<Rightarrow> None)"

definition validate_temporal_length ::
  "real \<Rightarrow> InferenceRequest \<Rightarrow> ModelVersionDescriptor \<Rightarrow> ModelError option" where
  "validate_temporal_length now rq d =
     (case rq_frame_ref rq of
        Some (TemporalRef t) \<Rightarrow>
          (let n = temporal_length t; lo = is_temporal_min_frames (vd_input_spec d);
               hi = is_temporal_max_frames (vd_input_spec d)
           in if truthy_int lo \<and> n < the lo
              then Some (request_error now PIPE_TEMPORAL_LENGTH_INVALID
                     (''Sequence length '' @ show_int n @ '' below minimum '' @ show_int (the lo)) rq d
                     [(''sequence_length'', JInt n), (''min_length'', JInt (the lo))])
              else if truthy_int hi \<and> the hi < n
              then Some (request_error now PIPE_TEMPORAL_LENGTH_INVALID
                     (''Sequence length '' @ show_int n @ '' exceeds maximum '' @ show_int (the hi)) rq d
                     [(''sequence_length'', JInt n), (''max_length'', JInt (the hi))])
              else None)
      | _ \<Rightarrow> None)"

section \<open>Sanitising a message\<close>

text \<open>
  \<open>/[^\s]+\.py\<close> after the slash: what is left behind the longest match, if there is one.
\<close>

definition path_end :: "string \<Rightarrow> string option" where
  "path_end s =
     (let run = takeWhile (\<lambda>c. \<not> is_space c) s;
          ends = filter (\<lambda>k. take 3 (drop k run) = ''.py'') [1..<length run]
      in if ends = [] then None else Some (drop (last ends + 3) s))"

lemma slash_not_space [simp]: "\<not> is_space CHR ''/''"
  by (simp add: is_space_def)

lemma path_end_shorter: "path_end s = Some t \<Longrightarrow> length t \<le> length s"
  by (auto simp: path_end_def Let_def split: if_splits)

function strip_paths :: "string \<Rightarrow> string" where
  "strip_paths [] = []"
| "strip_paths (c # s) =
     (if c = CHR ''/''
      then (case path_end s of Some t \<Rightarrow> ''[internal]'' @ strip_paths t | None \<Rightarrow> c # strip_paths s)
      else c # strip_paths s)"
  by pat_completeness auto
termination
  by (relation "measure length") (auto dest: path_end_shorter)

text \<open>\<open>re.sub(r"line \d+", "", message)\<close>\<close>

definition line_end :: "string \<Rightarrow> string option" where
  "line_end s =
     (if take 5 s = ''line '' \<and> drop 5 s \<noteq> [] \<and> is_digit (hd (drop 5 s))
      then Some (dropWhile is_digit (drop 5 s)) else None)"

lemma line_end_shorter: "line_end s = Some t \<Longrightarrow> length t < length s"
  using length_dropWhile_le [of is_digit "drop 5 s"]
  by (auto simp: line_end_def split: if_splits)

function strip_lines :: "string \<Rightarrow> string" where
  "strip_lines s =
     (case line_end s of
        Some t \<Rightarrow> strip_lines t
      | None \<Rightarrow> (case s of [] \<Rightarrow> [] | c # r \<Rightarrow> c # strip_lines r))"
  by pat_completeness auto
termination
  by (relation "measure length") (auto dest: line_end_shorter)

declare strip_lines.simps [simp del]

definition sanitize_error_message :: "ModelError \<Rightarrow> string" where
  "sanitize_error_message e =
     (let message = strip_lines (strip_paths (err_message e))
      in if 200 < length message then take 197 message @ ''...'' else message)"

section \<open>The inference pipeline\<close>

record ('v, 'm, 'c) InferencePipeline =
  pl_registry :: ModelRegistry
  pl_sandboxes :: "('v, 'm, 'c) SandboxManager"
  pl_admission :: "ConcurrencyManager option"
  pl_allow_degraded :: bool
  pl_eligibility :: EligibilityConfig
  pl_request_count :: int
  pl_success_count :: int
  pl_error_count :: int
  pl_rejected_count :: int

definition pipeline_eligibility :: "bool \<Rightarrow> bool \<Rightarrow> EligibilityConfig" where
  "pipeline_eligibility allow_degraded include_prerelease =
     \<lparr>el_required_state = READY,
      el_acceptable_health = (if allow_degraded then [HEALTHY, DEGRADED] else [HEALTHY]),
      el_include_prerelease = include_prerelease, el_min_version = None, el_max_version = None\<rparr>"

definition new_pipeline ::
  "ModelRegistry \<Rightarrow> ('v, 'm, 'c) SandboxManager \<Rightarrow> ConcurrencyManager option \<Rightarrow> bool \<Rightarrow> bool \<Rightarrow>
   ('v, 'm, 'c) InferencePipeline" where
  "new_pipeline registry sandbox_manager admission allow_degraded include_prerelease =
     \<lparr>pl_registry = registry, pl_sandboxes = sandbox_manager, pl_admission = admission,
      pl_allow_degraded = allow_degraded,
      pl_eligibility = pipeline_eligibility allow_degraded include_prerelease,
      pl_request_count = 0, pl_success_count = 0, pl_error_count = 0, pl_rejected_count = 0\<rparr>"

text \<open>
  What one call of \<open>infer\<close> observes: the order of sets, the wall clock for errors and response, the
  clocks and digits of the slot, the monotonic clock at start and end, the surroundings of the
  execution, and the frame reference as the model code sees it.
\<close>

record 'v infer_env =
  ie_order :: "string list \<Rightarrow> string list"
  ie_now :: real
  ie_slot_utc :: "nat \<Rightarrow> real"
  ie_slot_mt :: real
  ie_hex :: string
  ie_start :: real
  ie_end :: real
  ie_exec :: "'v exec_env"
  ie_frame :: "AnyFrameReference \<Rightarrow> 'v"

definition resolve_model_version ::
  "'v infer_env \<Rightarrow> InferenceRequest \<Rightarrow> ('v, 'm, 'c) InferencePipeline \<Rightarrow> ModelError + ModelVersionDescriptor" where
  "resolve_model_version env rq p =
     (let result = resolve (ie_order env) (ie_now env) (pl_registry p) (pl_eligibility p) (rq_model_id rq)
                     (rq_version rq) (Some (pl_eligibility p)) (Some (rq_request_id rq))
      in if rr_success result then Inr (the (rr_descriptor result)) else Inl (the (rr_error result)))"

definition check_model_state ::
  "real \<Rightarrow> bool \<Rightarrow> InferenceRequest \<Rightarrow> ModelVersionDescriptor \<Rightarrow> ModelError option" where
  "check_model_state now allow_degraded rq d =
     (if vd_state d \<noteq> READY
      then Some (request_error now PIPE_VERSION_NOT_READY
             (''Version '' @ qualified_id d @ '' is not ready (state: '' @ state_value (vd_state d) @ '')'') rq d
             [(''current_state'', JStr (state_value (vd_state d)))])
      else if vd_health d = UNHEALTHY
      then Some (request_error now PIPE_VERSION_UNHEALTHY
             (''Version '' @ qualified_id d @ '' is unhealthy'') rq d
             [(''health_status'', JStr (health_value (vd_health d)))])
      else if vd_health d = DEGRADED \<and> \<not> allow_degraded
      then Some (request_error now PIPE_VERSION_UNHEALTHY
             (''Version '' @ qualified_id d @ '' is degraded'') rq d
             [(''health_status'', JStr (health_value (vd_health d)))])
      else None)"

definition validate_against_contract ::
  "real \<Rightarrow> InferenceRequest \<Rightarrow> ModelVersionDescriptor \<Rightarrow> ModelError option" where
  "validate_against_contract now rq d =
     (case validate_input_type now rq d of Some e \<Rightarrow> Some e
      | None \<Rightarrow> (case validate_batch_size now rq d of Some e \<Rightarrow> Some e
                 | None \<Rightarrow> validate_temporal_length now rq d))"

definition map_error_to_status :: "ErrorCode \<Rightarrow> ResponseStatus" where
  "map_error_to_status code =
     (if code = PIPE_MODEL_NOT_FOUND then ST_MODEL_NOT_FOUND
      else if code = PIPE_VERSION_NOT_FOUND then ST_MODEL_NOT_FOUND
      else if code \<in> {PIPE_MODEL_NOT_READY, PIPE_MODEL_UNHEALTHY, PIPE_NO_SANDBOX} then ST_MODEL_NOT_READY
      else if code \<in> {PIPE_INVALID_FRAME_REF, PIPE_INPUT_TYPE_MISMATCH, PIPE_BATCH_SIZE_INVALID,
                       PIPE_TEMPORAL_LENGTH_INVALID, PIPE_REQUEST_INVALID} then ST_INVALID_REQUEST
      else if code \<in> {EXEC_PREPROCESS_TIMEOUT, EXEC_INFERENCE_TIMEOUT, EXEC_POSTPROCESS_TIMEOUT}
      then ST_TIMEOUT
      else if take 5 (error_value code) = ''EXEC_'' then ST_EXECUTION_FAILED
      else ST_ERROR)"

definition request_version :: "InferenceRequest \<Rightarrow> string" where
  "request_version rq = (if truthy_str (rq_version rq) then the (rq_version rq) else ''unknown'')"

definition error_from_pipeline_error ::
  "'v infer_env \<Rightarrow> InferenceRequest \<Rightarrow> ModelError \<Rightarrow> ('v, 'm, 'c) InferencePipeline \<Rightarrow>
   'v InferenceResponse \<times> ('v, 'm, 'c) InferencePipeline" where
  "error_from_pipeline_error env rq error p =
     (error_response (ie_now env) rq (request_version rq) (map_error_to_status (err_code error))
        (error_value (err_code error)) (err_message error) (py_trunc ((ie_end env - ie_start env) * 1000)),
      p\<lparr>pl_error_count := pl_error_count p + 1\<rparr>)"

definition error_from_execution_result ::
  "'v infer_env \<Rightarrow> InferenceRequest \<Rightarrow> string \<Rightarrow> 'v ExecutionResult \<Rightarrow> ('v, 'm, 'c) InferencePipeline \<Rightarrow>
   'v InferenceResponse \<times> ('v, 'm, 'c) InferencePipeline" where
  "error_from_execution_result env rq version result p =
     (let (error_code, error_message, status) =
        (case er_error result of
           Some e \<Rightarrow> (error_value (err_code e), sanitize_error_message e, map_error_to_status (err_code e))
         | None \<Rightarrow> (error_value EXEC_GENERIC_ERROR, ''Execution failed'', ST_EXECUTION_FAILED))
      in (error_response (ie_now env) rq version status error_code error_message (er_total_ms result),
          p\<lparr>pl_error_count := pl_error_count p + 1\<rparr>))"

text \<open>Steps 1 to 4.\<close>

definition admit_request ::
  "'v infer_env \<Rightarrow> InferenceRequest \<Rightarrow> ('v, 'm, 'c) InferencePipeline \<Rightarrow> ModelError + ModelVersionDescriptor" where
  "admit_request env rq p =
     (case validate_frame_reference (ie_now env) (rq_frame_ref rq) (rq_request_id rq) of
        Some e \<Rightarrow> Inl e
      | None \<Rightarrow>
          (case resolve_model_version env rq p of
             Inl e \<Rightarrow> Inl e
           | Inr d \<Rightarrow>
               (case check_model_state (ie_now env) (pl_allow_degraded p) rq d of
                  Some e \<Rightarrow> Inl e
                | None \<Rightarrow>
                    (case validate_against_contract (ie_now env) rq d of
                       Some e \<Rightarrow> Inl e | None \<Rightarrow> Inr d))))"

text \<open>Steps 6 to 8 with the slot, which is released whatever happens.\<close>

definition release_admission ::
  "ConcurrencySlot option \<Rightarrow> ('v, 'm, 'c) InferencePipeline \<Rightarrow> ('v, 'm, 'c) InferencePipeline" where
  "release_admission slot p =
     (case slot of None \<Rightarrow> p
      | Some sl \<Rightarrow> p\<lparr>pl_admission := map_option (\<lambda>m. snd (slot_release sl m)) (pl_admission p)\<rparr>)"

definition run_request ::
  "'v infer_env \<Rightarrow> InferenceRequest \<Rightarrow> string \<Rightarrow> ConcurrencySlot option \<Rightarrow> ('v, 'm, 'c) InferencePipeline \<Rightarrow>
   'v InferenceResponse \<times> health_call list \<times> ('v, 'm, 'c) InferencePipeline" where
  "run_request env rq version slot p =
     (case get_sandbox (pl_sandboxes p) (rq_model_id rq) version of
        None \<Rightarrow>
          (let (resp, p1) = error_from_pipeline_error env rq
                 (pipeline_error (ie_now env) PIPE_NO_SANDBOX
                    (''No sandbox available for '' @ make_qualified_id (rq_model_id rq) version)
                    (Some (rq_model_id rq)) (Some version) (Some (rq_request_id rq)) []) p
           in (resp, [], release_admission slot p1))
      | Some sb \<Rightarrow>
          (let (er, calls, sm) = execute_stored (ie_exec env) (rq_model_id rq) version
                 (ie_frame env (the (rq_frame_ref rq))) (Some (rq_request_id rq)) None sb (pl_sandboxes p);
               p1 = release_admission slot (p\<lparr>pl_sandboxes := sm\<rparr>)
           in if er_success er
              then (success_response (ie_now env) rq version (er_output er) er, calls,
                    p1\<lparr>pl_success_count := pl_success_count p1 + 1\<rparr>)
              else (let (resp, p2) = error_from_execution_result env rq version er p1
                    in (resp, calls, p2))))"

text \<open>
  Nothing that \<open>infer\<close> calls raises in the model, so its last \<open>except\<close> clause has no branch.
\<close>

definition infer ::
  "'v infer_env \<Rightarrow> InferenceRequest \<Rightarrow> ('v, 'm, 'c) InferencePipeline \<Rightarrow>
   'v InferenceResponse \<times> health_call list \<times> ('v, 'm, 'c) InferencePipeline" where
  "infer env rq p =
     (let p0 = p\<lparr>pl_request_count := pl_request_count p + 1\<rparr>
      in case admit_request env rq p0 of
           Inl e \<Rightarrow> (let (resp, p1) = error_from_pipeline_error env rq e p0 in (resp, [], p1))
         | Inr d \<Rightarrow>
             (case pl_admission p0 of
                None \<Rightarrow> run_request env rq (vd_version d) None p0
              | Some m \<Rightarrow>
                  (let (sl, m1) = try_acquire (ie_slot_utc env) (ie_slot_mt env) (ie_hex env)
                         (rq_model_id rq) (vd_version d) (rq_request_id rq) m;
                       p1 = p0\<lparr>pl_admission := Some m1\<rparr>
                   in if \<not> sl_acquired sl
                      then (let (resp, p2) = error_from_pipeline_error env rq (the (sl_rejection_error sl))
                                   (p1\<lparr>pl_rejected_count := pl_rejected_count p1 + 1\<rparr>)
                            in (resp, [], p2))
                      else run_request env rq (vd_version d) (Some sl) p1)))"

section \<open>Metrics and status\<close>

definition pipeline_metrics :: "('v, 'm, 'c) InferencePipeline \<Rightarrow> (string, jval) dict" where
  "pipeline_metrics p =
     (let metrics = [(''total_requests'', JInt (pl_request_count p)), (''successful'', JInt (pl_success_count p)),
                     (''errors'', JInt (pl_error_count p)), (''rejected'', JInt (pl_rejected_count p))]
      in case pl_admission p of
           None \<Rightarrow> metrics
         | Some m \<Rightarrow>
             (let gs = get_global_stats m
              in dput ''concurrency''
                   (JDict [(''active'', JInt (gs_global_active gs)), (''limit'', JInt (gs_global_limit gs)),
                           (''backpressure'', JStr (gs_backpressure gs))]) metrics))"

text \<open>\<open>max\<close> of a non-empty list of strings: the first of the greatest, by code points.\<close>

definition max_str :: "string \<Rightarrow> string list \<Rightarrow> string" where
  "max_str v vs = foldl (\<lambda>m x. if m < x then x else m) v vs"

definition get_available_models :: "('v, 'm, 'c) InferencePipeline \<Rightarrow> (string \<times> string list \<times> string) list" where
  "get_available_models p =
     concat (map (\<lambda>md. case ready_versions md of
                          [] \<Rightarrow> []
                        | v # vs \<Rightarrow> [(md_model_id md, v # vs, max_str v vs)])
       (get_all_models (pl_registry p)))"

text \<open>\<open>percent\<close> renders a rate as \<open>f"{rate:.1f}%"\<close>.\<close>

definition get_model_health ::
  "(real \<Rightarrow> string) \<Rightarrow> string \<Rightarrow> string option \<Rightarrow> ('v, 'm, 'c) InferencePipeline \<Rightarrow> (string, jval) dict option" where
  "get_model_health percent model_id version p =
     (case get_model (pl_registry p) model_id of
        None \<Rightarrow> None
      | Some md \<Rightarrow>
          (let descriptor =
             (if truthy_str version then md_get_version md (the version)
              else (case ready_versions md of [] \<Rightarrow> None | v # vs \<Rightarrow> md_get_version md (max_str v vs)))
           in case descriptor of
                None \<Rightarrow> None
              | Some d \<Rightarrow>
                  Some [(''model_id'', JStr model_id), (''version'', JStr (vd_version d)),
                        (''state'', JStr (state_value (vd_state d))),
                        (''health'', JStr (health_value (vd_health d))),
                        (''metrics'', JDict [(''inference_count'', JInt (vd_inference_count d)),
                                             (''error_count'', JInt (vd_error_count d))]),
                        (''sandbox_metrics'',
                          (case get_sandbox (pl_sandboxes p) model_id (vd_version d) of
                             None \<Rightarrow> JNone
                           | Some sb \<Rightarrow>
                               JDict [(''total_executions'', JInt (em_total (sb_metrics sb))),
                                      (''success_rate'', JStr (percent (success_rate (sb_metrics sb)))),
                                      (''consecutive_failures'', JInt (em_consecutive_failures (sb_metrics sb)))]))]))"

section \<open>What a request is meant to get\<close>

text \<open>
  The specification chains the checks on values: the code of the first that fails, or the version
  that answered and its output. It knows nothing of clocks, counters or error objects.
\<close>

definition frames_of :: "AnyFrameReference option \<Rightarrow> FrameReference list" where
  "frames_of ref =
     (case ref of Some (FrameRef f) \<Rightarrow> [f] | Some (BatchRef b) \<Rightarrow> bf_frames b
      | Some (TemporalRef t) \<Rightarrow> tf_frames t | _ \<Rightarrow> [])"

definition frames_valid :: "AnyFrameReference option \<Rightarrow> bool" where
  "frames_valid ref \<longleftrightarrow> frames_of ref \<noteq> [] \<and> (\<forall>f\<in>set (frames_of ref). fr_ref_id f \<noteq> [] \<and> fr_camera_id f \<noteq> [])"

definition in_limits :: "int option \<Rightarrow> int option \<Rightarrow> int \<Rightarrow> bool" where
  "in_limits lo hi n \<longleftrightarrow> (truthy_int lo \<longrightarrow> the lo \<le> n) \<and> (truthy_int hi \<longrightarrow> n \<le> the hi)"

definition contract_code :: "InferenceRequest \<Rightarrow> ModelVersionDescriptor \<Rightarrow> ErrorCode option" where
  "contract_code rq d =
     (let sp = vd_input_spec d
      in if is_type sp \<noteq> request_input_type rq then Some PIPE_INPUT_TYPE_MISMATCH
         else case rq_frame_ref rq of
                Some (BatchRef b) \<Rightarrow>
                  (if in_limits (is_batch_min_size sp) (is_batch_max_size sp) (batch_size b) then None
                   else Some PIPE_BATCH_SIZE_INVALID)
              | Some (TemporalRef t) \<Rightarrow>
                  (if in_limits (is_temporal_min_frames sp) (is_temporal_max_frames sp) (temporal_length t) then None
                   else Some PIPE_TEMPORAL_LENGTH_INVALID)
              | _ \<Rightarrow> None)"

definition chosen :: "'v infer_env \<Rightarrow> InferenceRequest \<Rightarrow> ('v, 'm, 'c) InferencePipeline \<Rightarrow> ModelVersionDescriptor" where
  "chosen env rq p =
     the (rr_descriptor (resolve (ie_order env) (ie_now env) (pl_registry p) (pl_eligibility p) (rq_model_id rq)
        (rq_version rq) (Some (pl_eligibility p)) (Some (rq_request_id rq))))"

definition check_spec ::
  "'v infer_env \<Rightarrow> InferenceRequest \<Rightarrow> ('v, 'm, 'c) InferencePipeline \<Rightarrow> ErrorCode option" where
  "check_spec env rq p =
     (if \<not> frames_valid (rq_frame_ref rq) then Some PIPE_INVALID_FRAME_REF
      else case expected_code (pl_eligibility p) (pl_registry p) (rq_model_id rq) (rq_version rq) of
             Some c \<Rightarrow> Some c
           | None \<Rightarrow> contract_code rq (chosen env rq p))"

definition refused ::
  "InferenceRequest \<Rightarrow> string \<Rightarrow> ('v, 'm, 'c) InferencePipeline \<Rightarrow> bool" where
  "refused rq version p \<longleftrightarrow>
     (case pl_admission p of None \<Rightarrow> False | Some m \<Rightarrow> verdict m (rq_model_id rq) version \<noteq> None)"

definition run_spec ::
  "'v infer_env \<Rightarrow> InferenceRequest \<Rightarrow> string \<Rightarrow> ('v, 'm, 'c) InferencePipeline \<Rightarrow> ErrorCode + string \<times> 'v" where
  "run_spec env rq version p =
     (case get_sandbox (pl_sandboxes p) (rq_model_id rq) version of
        None \<Rightarrow> Inl PIPE_NO_SANDBOX
      | Some sb \<Rightarrow> map_sum id (Pair version)
          (execute_spec (xe_kind (ie_exec env)) (sb_loaded_model sb) None None
             (ie_frame env (the (rq_frame_ref rq)))))"

definition request_spec ::
  "'v infer_env \<Rightarrow> InferenceRequest \<Rightarrow> ('v, 'm, 'c) InferencePipeline \<Rightarrow> ErrorCode + string \<times> 'v" where
  "request_spec env rq p =
     (case check_spec env rq p of
        Some c \<Rightarrow> Inl c
      | None \<Rightarrow>
          (let v = vd_version (chosen env rq p)
           in if refused rq v p then Inl PIPE_CONCURRENCY_REJECTED else run_spec env rq v p))"

text \<open>A response that agrees with the specification.\<close>

definition answers :: "InferenceRequest \<Rightarrow> ErrorCode + string \<times> 'v \<Rightarrow> 'v InferenceResponse \<Rightarrow> bool" where
  "answers rq spec rs \<longleftrightarrow>
     rs_request_id rs = rq_request_id rq \<and> rs_model_id rs = rq_model_id rq \<and>
     (case spec of
        Inl c \<Rightarrow> \<not> rs_success rs \<and> rs_output rs = None \<and> rs_error_code rs = Some (error_value c) \<and>
          rs_status rs = map_error_to_status c
      | Inr (v, x) \<Rightarrow> rs_success rs \<and> rs_output rs = Some x \<and> rs_error_code rs = None \<and>
          rs_status rs = ST_SUCCESS \<and> rs_version rs = v)"

section \<open>Lemmas\<close>

named_theorems response_simps \<open>fields of the responses and errors\<close>

lemma pipeline_error_code [response_simps]: "err_code (pipeline_error now c msg i v q d) = c"
  by (simp add: pipeline_error_def make_error_def)

lemma request_error_code [response_simps]: "err_code (request_error now c msg rq d x) = c"
  by (simp add: request_error_def response_simps)

lemma frame_error_code [response_simps]: "err_code (frame_error now msg q) = PIPE_INVALID_FRAME_REF"
  by (simp add: frame_error_def response_simps)

lemma add_detail_code [response_simps]: "err_code (add_detail k v e) = err_code e"
  by (simp add: add_detail_def)

text \<open>A validator that rejects with one code exactly what fails a predicate.\<close>

definition rejects :: "ErrorCode \<Rightarrow> bool \<Rightarrow> ModelError option \<Rightarrow> bool" where
  "rejects c ok res \<longleftrightarrow> (case res of None \<Rightarrow> ok | Some e \<Rightarrow> \<not> ok \<and> err_code e = c)"

lemma validate_single_rejects:
  "rejects PIPE_INVALID_FRAME_REF (fr_ref_id f \<noteq> [] \<and> fr_camera_id f \<noteq> []) (validate_single_frame now f q)"
  by (simp add: rejects_def validate_single_frame_def response_simps)

lemma validate_frames_rejects:
  "rejects PIPE_INVALID_FRAME_REF (\<forall>f\<in>set fs. fr_ref_id f \<noteq> [] \<and> fr_camera_id f \<noteq> [])
     (validate_frames now i fs q)"
proof (induction fs arbitrary: i)
  case Nil
  then show ?case by (simp add: rejects_def)
next
  case (Cons f fs)
  show ?case
    using validate_single_rejects [of f now q] Cons.IH [of "i + 1"]
    by (auto simp: rejects_def response_simps split: option.splits)
qed

lemma validate_frame_rejects:
  "rejects PIPE_INVALID_FRAME_REF (frames_valid ref) (validate_frame_reference now ref q)"
proof (cases ref)
  case None
  then show ?thesis
    by (simp add: rejects_def validate_frame_reference_def frames_valid_def frames_of_def response_simps)
next
  case (Some a)
  show ?thesis
  proof (cases a)
    case (FrameRef f)
    with Some validate_single_rejects [of f now q] show ?thesis
      by (simp add: validate_frame_reference_def frames_valid_def frames_of_def)
  next
    case (BatchRef b)
    with Some validate_frames_rejects [of "bf_frames b" now 0 q] show ?thesis
      by (auto simp: validate_frame_reference_def frames_valid_def frames_of_def rejects_def
          validate_batch_frame_def response_simps split: option.splits)
  next
    case (TemporalRef t)
    with Some validate_frames_rejects [of "tf_frames t" now 0 q] show ?thesis
      by (auto simp: validate_frame_reference_def frames_valid_def frames_of_def rejects_def
          validate_temporal_frame_def response_simps split: option.splits)
  next
    case (OtherRef n)
    with Some show ?thesis
      by (simp add: validate_frame_reference_def frames_valid_def frames_of_def rejects_def response_simps)
  qed
qed

lemma validate_contract_code:
  "map_option err_code (validate_against_contract now rq d) = contract_code rq d"
  by (auto simp: validate_against_contract_def validate_input_type_def validate_batch_size_def
      validate_temporal_length_def contract_code_def in_limits_def response_simps Let_def
      split: option.splits AnyFrameReference.splits)

lemma resolved_usable:
  assumes wf: "registry_wf r" and s: "rr_success (resolve order now r dflt i version (Some el) q)"
  shows "\<exists>d. rr_descriptor (resolve order now r dflt i version (Some el) q) = Some d \<and>
    vd_state d = el_required_state el \<and> vd_health d \<in> set (el_acceptable_health el)"
proof (cases "get_model r i")
  case None
  with s show ?thesis by (simp add: resolve_unfold)
next
  case (Some md)
  show ?thesis
  proof (cases "truthy_str version")
    case True
    with s Some show ?thesis
      by (auto simp: resolve_unfold resolve_explicit_def effective_def Let_def split: option.splits if_splits)
  next
    case False
    with s Some have "rr_success (resolve_automatic order now md el q)"
      by (simp add: resolve_unfold effective_def)
    then obtain d where d: "rr_descriptor (resolve_automatic order now md el q) = Some d"
      by (auto simp: resolve_automatic_def Let_def split: if_splits)
    with resolve_automatic_cases [OF wf Some, of el order now q] have "is_eligible el d"
      by (auto simp: selectable_iff)
    with d Some False show ?thesis
      by (auto simp: resolve_unfold effective_def is_eligible_def split: if_splits)
  qed
qed


lemma resolve_request:
  assumes wf: "registry_wf (pl_registry p)"
  shows "case expected_code (pl_eligibility p) (pl_registry p) (rq_model_id rq) (rq_version rq) of
      Some c \<Rightarrow> (\<exists>e. resolve_model_version env rq p = Inl e \<and> err_code e = c)
    | None \<Rightarrow> resolve_model_version env rq p = Inr (chosen env rq p) \<and>
        vd_state (chosen env rq p) = el_required_state (pl_eligibility p) \<and>
        vd_health (chosen env rq p) \<in> set (el_acceptable_health (pl_eligibility p))"
proof -
  let ?r = "resolve (ie_order env) (ie_now env) (pl_registry p) (pl_eligibility p) (rq_model_id rq)
      (rq_version rq) (Some (pl_eligibility p)) (Some (rq_request_id rq))"
  let ?c = "expected_code (pl_eligibility p) (pl_registry p) (rq_model_id rq) (rq_version rq)"
  have code: "map_option err_code (rr_error ?r) = ?c" and ok: "rr_success ?r \<longleftrightarrow> ?c = None"
    using resolve_code [OF wf, of "ie_order env" "ie_now env" "pl_eligibility p" "rq_model_id rq"
        "rq_version rq" "Some (pl_eligibility p)" "Some (rq_request_id rq)"]
    by (simp_all add: effective_def)
  show ?thesis
  proof (cases ?c)
    case None
    with ok have "rr_success ?r" by simp
    from resolved_usable [OF wf this] this None show ?thesis
      by (auto simp: resolve_model_version_def chosen_def Let_def)
  next
    case (Some c)
    with code ok show ?thesis by (auto simp: resolve_model_version_def Let_def)
  qed
qed

lemma check_state_passes:
  assumes "vd_state d = READY" and "vd_health d \<in> set (el_acceptable_health (pipeline_eligibility allow pre))"
  shows "check_model_state now allow rq d = None"
  using assms by (auto simp: check_model_state_def pipeline_eligibility_def split: if_splits)

text \<open>Pipelines as \<open>__init__\<close> configures them, over a registry in order.\<close>

definition pipeline_wf :: "('v, 'm, 'c) InferencePipeline \<Rightarrow> bool" where
  "pipeline_wf p \<longleftrightarrow> registry_wf (pl_registry p) \<and>
     pl_eligibility p = pipeline_eligibility (pl_allow_degraded p) (el_include_prerelease (pl_eligibility p))"

lemma admit_request_spec:
  assumes wf: "pipeline_wf p"
  shows "case check_spec env rq p of
      Some c \<Rightarrow> (\<exists>e. admit_request env rq p = Inl e \<and> err_code e = c)
    | None \<Rightarrow> admit_request env rq p = Inr (chosen env rq p)"
proof (cases "frames_valid (rq_frame_ref rq)")
  case False
  with validate_frame_rejects [of "rq_frame_ref rq" "ie_now env" "rq_request_id rq"] show ?thesis
    by (auto simp: rejects_def admit_request_def check_spec_def split: option.splits)
next
  case True
  with validate_frame_rejects [of "rq_frame_ref rq" "ie_now env" "rq_request_id rq"]
  have f: "validate_frame_reference (ie_now env) (rq_frame_ref rq) (rq_request_id rq) = None"
    by (auto simp: rejects_def split: option.splits)
  have r: "registry_wf (pl_registry p)" and
    el: "pl_eligibility p = pipeline_eligibility (pl_allow_degraded p) (el_include_prerelease (pl_eligibility p))"
    using wf by (simp_all add: pipeline_wf_def)
  note res = resolve_request [OF r, of env rq]
  show ?thesis
  proof (cases "expected_code (pl_eligibility p) (pl_registry p) (rq_model_id rq) (rq_version rq)")
    case (Some c)
    with res f True show ?thesis by (auto simp: admit_request_def check_spec_def)
  next
    case None
    let ?d = "chosen env rq p"
    from None res have ok: "resolve_model_version env rq p = Inr ?d"
      and "vd_state ?d = READY" "vd_health ?d \<in> set (el_acceptable_health (pl_eligibility p))"
      by (simp_all add: el [THEN arg_cong, of el_required_state] pipeline_eligibility_def)
    then have "check_model_state (ie_now env) (pl_allow_degraded p) rq ?d = None"
      using check_state_passes el by metis
    with ok f True None validate_contract_code [of "ie_now env" rq ?d] show ?thesis
      by (cases "validate_against_contract (ie_now env) rq ?d"; cases "contract_code rq ?d")
        (simp_all add: admit_request_def check_spec_def)
  qed
qed

lemma rejection_code:
  assumes "verdict m i v \<noteq> None"
  shows "err_code (the (sl_rejection_error (fst (try_acquire utc mt hex i v q m)))) = PIPE_CONCURRENCY_REJECTED"
proof -
  obtain reason where "verdict m i v = Some reason" using assms by auto
  from try_acquire_rejected [OF this, of utc mt hex q] show ?thesis
    by (auto simp: reject_def rejected_slot_def rejection_error_def response_simps split: if_splits)
qed

text \<open>The executors of the sandboxes a request may use are live.\<close>

definition executors_ok :: "('v, 'm, 'c) InferencePipeline \<Rightarrow> bool" where
  "executors_ok p \<longleftrightarrow> (\<forall>q sb. dget (sm_sandboxes (pl_sandboxes p)) q = Some sb \<longrightarrow>
     executor_ok (sm_executor_of (pl_sandboxes p) sb))"

lemma run_request_spec:
  assumes "executors_ok p"
  shows "answers rq (run_spec env rq v p) (fst (run_request env rq v slot p))"
proof (cases "get_sandbox (pl_sandboxes p) (rq_model_id rq) v")
  case None
  then show ?thesis
    by (simp add: answers_def run_spec_def run_request_def Let_def split_beta error_from_pipeline_error_def
        error_response_def response_simps)
next
  case (Some sb)
  let ?te = "sm_executor_of (pl_sandboxes p) sb"
  let ?x = "execute (ie_exec env) (ie_frame env (the (rq_frame_ref rq))) (Some (rq_request_id rq)) None None sb ?te"
  have "executor_ok ?te" using assms Some by (auto simp: executors_ok_def get_sandbox_def)
  note m = execute_meets [OF this, of sb "ie_exec env" None None
      "ie_frame env (the (rq_frame_ref rq))" "Some (rq_request_id rq)"]
  obtain er calls sb' te' where x: "?x = (er, calls, sb', te')" by (cases ?x) auto
  show ?thesis
  proof (cases "execute_spec (xe_kind (ie_exec env)) (sb_loaded_model sb) None None
      (ie_frame env (the (rq_frame_ref rq)))")
    case (Inl c)
    with m x obtain e where "\<not> er_success er" "er_error er = Some e" "err_code e = c"
      by (auto simp: meets_def)
    with Inl Some x show ?thesis
      by (simp add: answers_def run_spec_def run_request_def execute_stored_def Let_def split_beta
          error_from_execution_result_def error_response_def)
  next
    case (Inr y)
    with m x have "er_success er" "er_output er = Some y" by (simp_all add: meets_def)
    with Inr Some x show ?thesis
      by (simp add: answers_def run_spec_def run_request_def execute_stored_def Let_def split_beta
          success_response_def)
  qed
qed


definition counted :: "('v, 'm, 'c) InferencePipeline \<Rightarrow> ('v, 'm, 'c) InferencePipeline" where
  "counted p = p\<lparr>pl_request_count := pl_request_count p + 1\<rparr>"

lemma counted_simps [simp]:
  "pl_registry (counted p) = pl_registry p" "pl_sandboxes (counted p) = pl_sandboxes p"
  "pl_admission (counted p) = pl_admission p" "pl_eligibility (counted p) = pl_eligibility p"
  "pl_allow_degraded (counted p) = pl_allow_degraded p"
  "pl_request_count (counted p) = pl_request_count p + 1" "pl_error_count (counted p) = pl_error_count p"
  "pl_success_count (counted p) = pl_success_count p" "pl_rejected_count (counted p) = pl_rejected_count p"
  "admit_request env rq (counted p) = admit_request env rq p"
  by (simp_all add: counted_def admit_request_def resolve_model_version_def
      cong: option.case_cong sum.case_cong)

lemma error_answers:
  "err_code e = c \<Longrightarrow> answers rq (Inl c) (fst (error_from_pipeline_error env rq e p))"
  by (simp add: answers_def error_from_pipeline_error_def error_response_def)

lemma run_spec_cong [simp]:
  "run_spec env rq v (counted p) = run_spec env rq v p"
  "run_spec env rq v (p\<lparr>pl_admission := a\<rparr>) = run_spec env rq v p"
  by (simp_all add: run_spec_def)

lemma infer_spec_ok:
  assumes wf: "pipeline_wf p" and ex: "executors_ok p"
  shows "answers rq (request_spec env rq p) (fst (infer env rq p))"
proof (cases "check_spec env rq p")
  case (Some c)
  with admit_request_spec [OF wf, of env rq] obtain e
    where "admit_request env rq (counted p) = Inl e" "err_code e = c" by auto
  then show ?thesis
    using Some by (simp add: infer_def Let_def split_beta request_spec_def error_answers flip: counted_def)
next
  case None
  with admit_request_spec [OF wf, of env rq]
  have a: "admit_request env rq (counted p) = Inr (chosen env rq p)" by simp
  let ?v = "vd_version (chosen env rq p)"
  have ex': "executors_ok (counted p)" "executors_ok (counted p\<lparr>pl_admission := Some m\<rparr>)" for m
    using ex by (simp_all add: executors_ok_def)
  show ?thesis
  proof (cases "pl_admission p")
    case None
    then show ?thesis
      using \<open>check_spec env rq p = None\<close> a run_request_spec [OF ex'(1), of rq env ?v None]
      by (simp add: infer_def Let_def request_spec_def refused_def flip: counted_def)
  next
    case (Some m)
    obtain sl m1 where t: "try_acquire (ie_slot_utc env) (ie_slot_mt env) (ie_hex env) (rq_model_id rq)
        ?v (rq_request_id rq) m = (sl, m1)" by fastforce
    have acq: "sl_acquired sl \<longleftrightarrow> verdict m (rq_model_id rq) ?v = None"
      using try_acquire_verdict(2) [of "ie_slot_utc env" "ie_slot_mt env" "ie_hex env" "rq_model_id rq"
          ?v "rq_request_id rq" m] t by simp
    have rej: "verdict m (rq_model_id rq) ?v \<noteq> None \<Longrightarrow>
        err_code (the (sl_rejection_error sl)) = PIPE_CONCURRENCY_REJECTED"
      using rejection_code [of m "rq_model_id rq" ?v "ie_slot_utc env" "ie_slot_mt env" "ie_hex env"
          "rq_request_id rq"] t by simp
    show ?thesis
      using \<open>check_spec env rq p = None\<close> a Some t acq rej
        run_request_spec [OF ex'(2) [of m1], of rq env ?v "Some sl"]
      by (auto simp: infer_def Let_def split_beta request_spec_def refused_def error_answers
          simp flip: counted_def)
  qed
qed


section \<open>The version and the status of an answer\<close>

text \<open>
  The version a request is meant to get, said without the resolver: the one it names, when its state and health
  are acceptable; without a name an eligible one that no eligible version exceeds in the order of semantic versions.
\<close>

definition designated ::
  "EligibilityConfig \<Rightarrow> ModelRegistry \<Rightarrow> string \<Rightarrow> string option \<Rightarrow> ModelVersionDescriptor \<Rightarrow> bool" where
  "designated el r i version d \<longleftrightarrow>
     get_version r i (vd_version d) = Some d \<and>
     vd_state d = el_required_state el \<and> vd_health d \<in> set (el_acceptable_health el) \<and>
     (if truthy_str version then vd_version d = the version
      else is_eligible el d \<and>
        (\<forall>v e. get_version r i v = Some e \<and> is_eligible el e \<and> parse_semver v \<noteq> None \<longrightarrow>
           compare_versions (vd_version d) v \<in> {Inr 0, Inr 1}))"

definition fails_with :: "'v InferenceResponse \<Rightarrow> ErrorCode \<Rightarrow> ResponseStatus \<Rightarrow> bool" where
  "fails_with rs c st \<longleftrightarrow>
     \<not> rs_success rs \<and> rs_output rs = None \<and> rs_error_code rs = Some (error_value c) \<and> rs_status rs = st"

definition gives :: "'v InferenceResponse \<Rightarrow> string \<Rightarrow> 'v \<Rightarrow> bool" where
  "gives rs v x \<longleftrightarrow>
     rs_success rs \<and> rs_output rs = Some x \<and> rs_error_code rs = None \<and> rs_status rs = ST_SUCCESS \<and> rs_version rs = v"

definition execution_status :: "ErrorCode \<Rightarrow> ResponseStatus" where
  "execution_status c =
     (if c \<in> {EXEC_PREPROCESS_TIMEOUT, EXEC_INFERENCE_TIMEOUT, EXEC_POSTPROCESS_TIMEOUT} then ST_TIMEOUT
      else ST_EXECUTION_FAILED)"

text \<open>What a version that passed all checks answers.\<close>

definition version_answer ::
  "'v infer_env \<Rightarrow> InferenceRequest \<Rightarrow> ('v, 'm, 'c) InferencePipeline \<Rightarrow> string \<Rightarrow> 'v InferenceResponse \<Rightarrow> bool" where
  "version_answer env rq p v rs \<longleftrightarrow>
     (if refused rq v p then fails_with rs PIPE_CONCURRENCY_REJECTED ST_ERROR
      else case get_sandbox (pl_sandboxes p) (rq_model_id rq) v of
        None \<Rightarrow> fails_with rs PIPE_NO_SANDBOX ST_MODEL_NOT_READY
      | Some sb \<Rightarrow>
          (case execute_spec (xe_kind (ie_exec env)) (sb_loaded_model sb) None None
             (ie_frame env (the (rq_frame_ref rq))) of
             Inl c \<Rightarrow> fails_with rs c (execution_status c)
           | Inr x \<Rightarrow> gives rs v x))"

definition right_answer ::
  "'v infer_env \<Rightarrow> InferenceRequest \<Rightarrow> ('v, 'm, 'c) InferencePipeline \<Rightarrow> 'v InferenceResponse \<Rightarrow> bool" where
  "right_answer env rq p rs \<longleftrightarrow>
     rs_request_id rs = rq_request_id rq \<and> rs_model_id rs = rq_model_id rq \<and>
     (if \<not> frames_valid (rq_frame_ref rq) then fails_with rs PIPE_INVALID_FRAME_REF ST_INVALID_REQUEST
      else case expected_code (pl_eligibility p) (pl_registry p) (rq_model_id rq) (rq_version rq) of
        Some c \<Rightarrow> fails_with rs c
          (if c \<in> {PIPE_MODEL_NOT_FOUND, PIPE_VERSION_NOT_FOUND} then ST_MODEL_NOT_FOUND else ST_ERROR)
      | None \<Rightarrow>
          (\<exists>d. designated (pl_eligibility p) (pl_registry p) (rq_model_id rq) (rq_version rq) d \<and>
             (case contract_code rq d of
                Some c \<Rightarrow> fails_with rs c ST_INVALID_REQUEST
              | None \<Rightarrow> version_answer env rq p (vd_version d) rs)))"

lemma resolved_designated:
  assumes wf: "registry_wf r" and s: "rr_success (resolve order now r dflt i version (Some el) q)"
    and d: "rr_descriptor (resolve order now r dflt i version (Some el) q) = Some d"
  shows "designated el r i version d"
proof -
  from s obtain md where md: "get_model r i = Some md" by (auto simp: resolve_unfold split: option.splits)
  have u: "vd_state d = el_required_state el" "vd_health d \<in> set (el_acceptable_health el)"
    using resolved_usable [OF wf s] d by auto
  show ?thesis
  proof (cases "truthy_str version")
    case True
    with s d md have g: "get_version r i (the version) = Some d"
      by (auto simp: resolve_unfold resolve_explicit_def effective_def Let_def get_version_get_model
          split: option.splits if_splits)
    moreover have "vd_version d = the version" using wf g by (auto dest: registry_wf_get)
    ultimately show ?thesis using u True by (simp add: designated_def)
  next
    case False
    with s d md have a: "rr_descriptor (resolve_automatic order now md el q) = Some d"
      by (simp add: resolve_unfold effective_def)
    from resolve_automatic_cases [OF wf md, of el order now q] a
    have g: "get_version r i (vd_version d) = Some d" and sel: "selectable el r i (vd_version d)"
      and best: "\<And>v a b. selectable el r i v \<Longrightarrow> parse_semver v = Some a \<Longrightarrow>
        parse_semver (vd_version d) = Some b \<Longrightarrow> \<not> semver_lt b a"
      by simp_all
    from sel obtain b where b: "parse_semver (vd_version d) = Some b" and el: "is_eligible el d"
      using g by (auto simp: selectable_iff)
    have "compare_versions (vd_version d) v \<in> {Inr 0, Inr 1}"
      if "get_version r i v = Some x" "is_eligible el x" "parse_semver v = Some a" for v x a
      using best [of v a b] that b by (simp add: selectable_iff compare_versions_def)
    then show ?thesis using g el u False by (auto simp: designated_def)
  qed
qed

lemma chosen_designated:
  assumes wf: "registry_wf (pl_registry p)"
    and n: "expected_code (pl_eligibility p) (pl_registry p) (rq_model_id rq) (rq_version rq) = None"
  shows "designated (pl_eligibility p) (pl_registry p) (rq_model_id rq) (rq_version rq) (chosen env rq p)"
proof -
  let ?r = "resolve (ie_order env) (ie_now env) (pl_registry p) (pl_eligibility p) (rq_model_id rq)
      (rq_version rq) (Some (pl_eligibility p)) (Some (rq_request_id rq))"
  have s: "rr_success ?r" using n resolve_code [OF wf] by (simp add: effective_def)
  from resolved_usable [OF wf s] obtain d where d: "rr_descriptor ?r = Some d" by blast
  show ?thesis using resolved_designated [OF wf s d] d by (simp add: chosen_def)
qed

lemma execution_status_of:
  assumes "execute_spec kind lm inst config frame = Inl c"
  shows "map_error_to_status c = execution_status c"
proof -
  have stage: "stage_spec stage task = Inl c \<Longrightarrow> map_error_to_status c = execution_status c" for stage task
    by (cases stage; cases task)
      (auto simp: stage_spec_def exc_code_def map_error_to_status_def execution_status_def split: py_exc.splits)
  have "map_error_to_status EXEC_INVALID_OUTPUT = execution_status EXEC_INVALID_OUTPUT"
    by (simp add: map_error_to_status_def execution_status_def)
  then show ?thesis
    using assms
    by (auto simp: execute_spec_def infer_spec_def post_spec_def sum_bind_def stage split: option.splits sum.splits if_splits)
qed

lemma answers_cases:
  "answers rq (Inl c) rs \<Longrightarrow> fails_with rs c (map_error_to_status c)"
  "answers rq (Inr (v, x)) rs \<Longrightarrow> gives rs v x"
  by (simp_all add: answers_def fails_with_def gives_def)

lemma expected_status:
  "expected_code el r i v = Some c \<Longrightarrow>
   map_error_to_status c = (if c \<in> {PIPE_MODEL_NOT_FOUND, PIPE_VERSION_NOT_FOUND} then ST_MODEL_NOT_FOUND else ST_ERROR)"
  by (auto simp: expected_code_def map_error_to_status_def split: option.splits if_splits)

lemma contract_status: "contract_code rq d = Some c \<Longrightarrow> map_error_to_status c = ST_INVALID_REQUEST"
  by (auto simp: contract_code_def map_error_to_status_def Let_def split: option.splits AnyFrameReference.splits if_splits)

lemma version_answer_of:
  assumes "answers rq (if refused rq v p then Inl PIPE_CONCURRENCY_REJECTED else run_spec env rq v p) rs"
  shows "version_answer env rq p v rs"
proof (cases "refused rq v p")
  case True
  then show ?thesis using assms answers_cases(1) [of rq PIPE_CONCURRENCY_REJECTED rs]
    by (simp add: version_answer_def map_error_to_status_def)
next
  case False
  then show ?thesis
  proof (cases "get_sandbox (pl_sandboxes p) (rq_model_id rq) v")
    case None
    with False assms answers_cases(1) [of rq PIPE_NO_SANDBOX rs] show ?thesis
      by (simp add: version_answer_def run_spec_def map_error_to_status_def)
  next
    case (Some sb)
    show ?thesis
    proof (cases "execute_spec (xe_kind (ie_exec env)) (sb_loaded_model sb) None None (ie_frame env (the (rq_frame_ref rq)))")
      case (Inl c)
      with False Some assms answers_cases(1) [of rq c rs] execution_status_of [OF Inl] show ?thesis
        by (simp add: version_answer_def run_spec_def)
    next
      case (Inr x)
      with False Some assms answers_cases(2) [of rq v x rs] show ?thesis
        by (simp add: version_answer_def run_spec_def)
    qed
  qed
qed

lemma infer_right_answer:
  assumes wf: "pipeline_wf p" and ex: "executors_ok p"
  shows "right_answer env rq p (fst (infer env rq p))"
proof -
  let ?rs = "fst (infer env rq p)"
  note a = infer_spec_ok [OF wf ex, of rq env]
  have r: "registry_wf (pl_registry p)" using wf by (simp add: pipeline_wf_def)
  have ids: "rs_request_id ?rs = rq_request_id rq" "rs_model_id ?rs = rq_model_id rq"
    using a by (auto simp: answers_def)
  show ?thesis
  proof (cases "check_spec env rq p")
    case None
    then have f: "frames_valid (rq_frame_ref rq)"
      and e: "expected_code (pl_eligibility p) (pl_registry p) (rq_model_id rq) (rq_version rq) = None"
      and c: "contract_code rq (chosen env rq p) = None"
      by (auto simp: check_spec_def split: if_splits option.splits)
    have "version_answer env rq p (vd_version (chosen env rq p)) ?rs"
      by (rule version_answer_of) (use a None in \<open>simp add: request_spec_def Let_def\<close>)
    then show ?thesis using f e c ids chosen_designated [OF r e, of env] by (auto simp: right_answer_def)
  next
    case (Some c)
    then have "answers rq (Inl c) ?rs" using a by (simp add: request_spec_def)
    note w = answers_cases(1) [OF this]
    show ?thesis
    proof (cases "frames_valid (rq_frame_ref rq)")
      case False
      then have "c = PIPE_INVALID_FRAME_REF" using Some by (simp add: check_spec_def)
      then show ?thesis using False w ids by (simp add: right_answer_def map_error_to_status_def)
    next
      case True
      show ?thesis
      proof (cases "expected_code (pl_eligibility p) (pl_registry p) (rq_model_id rq) (rq_version rq)")
        case None
        then show ?thesis
          using True Some w ids chosen_designated [OF r None, of env] contract_status [of rq "chosen env rq p" c]
          by (auto simp: right_answer_def check_spec_def intro!: exI [of _ "chosen env rq p"])
      next
        case e: (Some c')
        then show ?thesis using True Some w ids expected_status [OF e]
          by (simp add: right_answer_def check_spec_def)
      qed
    qed
  qed
qed

section \<open>Properties\<close>

text \<open>
  C2. The response to a request is what it is meant to be: the checks are made in the order frame reference, model and
  version, contract, admission, sandbox, and the first that fails gives its code with the status written here;
  otherwise the stages of the model answer. The version that answers is the one named, or else an eligible one that
  no eligible version exceeds. Versions that are not ready, not healthy or not eligible are answered with the status
  of an unspecific error (\<open>not_ready_status\<close>).
\<close>

theorem infer_meets_spec:
  assumes "pipeline_wf p" and "executors_ok p"
  shows "right_answer env rq p (fst (infer env rq p))"
  by (rule infer_right_answer [OF assms])

definition demo_pipeline :: "(jval, unit, unit) InferencePipeline" where
  "demo_pipeline = new_pipeline (two_versions [''1.0.0''])
     (snd (create_sandbox demo_model (new_descriptor 0 ''fall'' ''1.0.0'' [])
        (new_sandbox_manager None None False THREAD 4)))
     (Some (create_concurrency_stack 10 2)) True False"

definition demo_request :: "string \<Rightarrow> InferenceRequest" where
  "demo_request i = \<lparr>rq_model_id = i, rq_version = None,
     rq_frame_ref = Some (FrameRef \<lparr>fr_ref_id = ''frame-1'', fr_camera_id = ''cam-1'', fr_timestamp = [], fr_metadata = []\<rparr>),
     rq_request_id = ''req-1'', rq_priority = 0, rq_timeout_ms = None, rq_caller_id = None, rq_camera_id = None\<rparr>"

definition demo_infer_env :: "jval infer_env" where
  "demo_infer_env = \<lparr>ie_order = id, ie_now = 2, ie_slot_utc = (\<lambda>_. 2), ie_slot_mt = 2, ie_hex = ''0123456789abcdef'',
     ie_start = 2, ie_end = 3, ie_exec = demo_env, ie_frame = (\<lambda>r. JInt 7)\<rparr>"

lemma demo_pipeline_ok: "pipeline_wf demo_pipeline" "executors_ok demo_pipeline"
  by (simp_all add: demo_pipeline_def new_pipeline_def pipeline_wf_def pipeline_eligibility_def two_versions_wf
      executors_ok_def Let_def create_sandbox_def new_sandbox_manager_def new_sandbox_def sm_executor_of_def
      new_executor_ok)

lemma demo_version:
  assumes "designated (pl_eligibility demo_pipeline) (pl_registry demo_pipeline) ''fall'' None d"
  shows "d = (new_descriptor 0 ''fall'' ''1.0.0'' [])\<lparr>vd_state := READY, vd_health := HEALTHY\<rparr>"
proof -
  have "get_version (two_versions [''1.0.0'']) ''fall'' (vd_version d) = Some d"
    using assms by (simp add: designated_def demo_pipeline_def new_pipeline_def Let_def)
  then show ?thesis
    by (simp add: two_versions_def get_version_register_version get_version_new new_descriptor_def split: if_splits)
qed

theorem infer_meets_spec_witness:
  "rs_success (fst (infer demo_infer_env (demo_request ''fall'') demo_pipeline)) \<and>
   rs_error_code (fst (infer demo_infer_env (demo_request ''gait'') demo_pipeline)) = Some ''PIPE_MODEL_NOT_FOUND''"
proof -
  let ?fall = "demo_request ''fall''" and ?gait = "demo_request ''gait''"
  have fall: "frames_valid (rq_frame_ref ?fall)"
    "expected_code (pl_eligibility demo_pipeline) (pl_registry demo_pipeline) (rq_model_id ?fall) (rq_version ?fall) = None"
    "rq_model_id ?fall = ''fall''" "rq_version ?fall = None"
    by code_simp+
  have gait: "frames_valid (rq_frame_ref ?gait)"
    "expected_code (pl_eligibility demo_pipeline) (pl_registry demo_pipeline) (rq_model_id ?gait) (rq_version ?gait)
       = Some PIPE_MODEL_NOT_FOUND"
    by code_simp+
  obtain d where d: "designated (pl_eligibility demo_pipeline) (pl_registry demo_pipeline) ''fall'' None d"
    and a: "case contract_code ?fall d of
        Some c \<Rightarrow> fails_with (fst (infer demo_infer_env ?fall demo_pipeline)) c ST_INVALID_REQUEST
      | None \<Rightarrow> version_answer demo_infer_env ?fall demo_pipeline (vd_version d) (fst (infer demo_infer_env ?fall demo_pipeline))"
    using infer_meets_spec [OF demo_pipeline_ok, of demo_infer_env ?fall] fall by (auto simp: right_answer_def)
  have answer: "contract_code ?fall d = None" "vd_version d = ''1.0.0''" "\<not> refused ?fall ''1.0.0'' demo_pipeline"
    unfolding demo_version [OF d] by code_simp+
  have "get_sandbox (pl_sandboxes demo_pipeline) ''fall'' ''1.0.0'' \<noteq> None"
    "execute_spec (xe_kind (ie_exec demo_infer_env)) (sb_loaded_model (the (get_sandbox (pl_sandboxes demo_pipeline) ''fall'' ''1.0.0'')))
       None None (ie_frame demo_infer_env (the (rq_frame_ref ?fall))) = Inr (JDict [(''frame'', JInt 7)])"
    by code_simp+
  with a answer fall show ?thesis
    using infer_meets_spec [OF demo_pipeline_ok, of demo_infer_env ?gait] gait
    by (auto simp: right_answer_def version_answer_def gives_def fails_with_def)
qed

subsection \<open>Counters and slots\<close>

text \<open>How a request moves the counters: one more request, and one more success or one more error.\<close>

definition tallied :: "bool \<Rightarrow> ('v, 'm, 'c) InferencePipeline \<Rightarrow> ('v, 'm, 'c) InferencePipeline \<Rightarrow> bool" where
  "tallied success p p' \<longleftrightarrow>
     pl_request_count p' = pl_request_count p + 1 \<and>
     pl_success_count p' = pl_success_count p + (if success then 1 else 0) \<and>
     pl_error_count p' = pl_error_count p + (if success then 0 else 1) \<and>
     (pl_rejected_count p' = pl_rejected_count p \<or>
      \<not> success \<and> pl_rejected_count p' = pl_rejected_count p + 1) \<and>
     pl_registry p' = pl_registry p \<and> pl_allow_degraded p' = pl_allow_degraded p \<and>
     pl_eligibility p' = pl_eligibility p"

lemma release_admission_simps [simp]:
  "pl_registry (release_admission sl p) = pl_registry p"
  "pl_sandboxes (release_admission sl p) = pl_sandboxes p"
  "pl_allow_degraded (release_admission sl p) = pl_allow_degraded p"
  "pl_eligibility (release_admission sl p) = pl_eligibility p"
  "pl_request_count (release_admission sl p) = pl_request_count p"
  "pl_success_count (release_admission sl p) = pl_success_count p"
  "pl_error_count (release_admission sl p) = pl_error_count p"
  "pl_rejected_count (release_admission sl p) = pl_rejected_count p"
  by (simp_all add: release_admission_def split: option.split)

lemma run_request_tallied:
  "case run_request env rq v sl (counted p\<lparr>pl_admission := a\<rparr>) of (rs, calls, p') \<Rightarrow> tallied (rs_success rs) p p'"
  by (auto simp: run_request_def Let_def tallied_def split_beta error_from_pipeline_error_def
      error_from_execution_result_def error_response_def success_response_def split: option.split)

lemma pl_admission_same: "p\<lparr>pl_admission := pl_admission p\<rparr> = p"
  by simp

lemma error_tallied:
  "case error_from_pipeline_error env rq e (counted p) of (rs, p') \<Rightarrow> tallied (rs_success rs) p p'"
  "case error_from_pipeline_error env rq e
      (counted p\<lparr>pl_admission := a, pl_rejected_count := pl_rejected_count p + 1\<rparr>) of
     (rs, p') \<Rightarrow> tallied (rs_success rs) p p'"
  by (simp_all add: error_from_pipeline_error_def error_response_def tallied_def)

lemma infer_tallied: "case infer env rq p of (rs, calls, p') \<Rightarrow> tallied (rs_success rs) p p'"
proof (cases "admit_request env rq p")
  case (Inl e)
  then show ?thesis
    using error_tallied(1) [of p env rq e] by (simp add: infer_def Let_def split_beta flip: counted_def)
next
  case (Inr d)
  show ?thesis
  proof (cases "pl_admission p")
    case None
    have "counted p\<lparr>pl_admission := None\<rparr> = counted p"
      using None pl_admission_same [of "counted p"] by simp
    with Inr None run_request_tallied [of p env rq "vd_version d" None None] show ?thesis
      by (simp add: infer_def Let_def flip: counted_def)
  next
    case (Some m)
    obtain sl m1 where t: "try_acquire (ie_slot_utc env) (ie_slot_mt env) (ie_hex env) (rq_model_id rq)
        (vd_version d) (rq_request_id rq) m = (sl, m1)" by fastforce
    show ?thesis
    proof (cases "sl_acquired sl")
      case True
      then show ?thesis
        using Inr Some t run_request_tallied [of p env rq "vd_version d" "Some sl" "Some m1"]
        by (simp add: infer_def Let_def flip: counted_def)
    next
      case False
      then show ?thesis
        using Inr Some t error_tallied(2) [of p env rq "the (sl_rejection_error sl)" "Some m1"]
        by (simp add: infer_def Let_def split_beta flip: counted_def)
    qed
  qed
qed

text \<open>
  A pipeline in use: requests, and changes that other parts of the runtime make to the registry, the
  sandboxes and the concurrency manager in between.
\<close>

inductive pstep :: "('v, 'm, 'c) InferencePipeline \<Rightarrow> ('v, 'm, 'c) InferencePipeline \<Rightarrow> bool" where
  p_infer: "pstep p (snd (snd (infer env rq p)))"
| p_other: "pstep p (p\<lparr>pl_registry := r, pl_sandboxes := sm, pl_admission := a\<rparr>)"

definition tally_ok :: "('v, 'm, 'c) InferencePipeline \<Rightarrow> bool" where
  "tally_ok p \<longleftrightarrow> pl_request_count p = pl_success_count p + pl_error_count p \<and>
     0 \<le> pl_success_count p \<and> 0 \<le> pl_rejected_count p \<and> pl_rejected_count p \<le> pl_error_count p"

definition pipeline_start :: "('v, 'm, 'c) InferencePipeline \<Rightarrow> bool" where
  "pipeline_start p \<longleftrightarrow> (\<exists>r sm a deg pre. p = new_pipeline r sm a deg pre)"

lemma tally_step: "pstep p q \<Longrightarrow> tally_ok p \<Longrightarrow> tally_ok q"
proof (induction rule: pstep.induct)
  case (p_infer p env rq)
  then show ?case
    using infer_tallied [of p env rq] by (auto simp: tally_ok_def tallied_def split_beta split: if_splits)
qed (simp add: tally_ok_def)

interpretation pipeline: invariant_system pipeline_start pstep tally_ok
proof
  show "tally_ok p" if "pipeline_start p" for p :: "('a, 'b, 'c) InferencePipeline"
    using that by (auto simp: pipeline_start_def new_pipeline_def tally_ok_def)
qed (rule tally_step)

text \<open>
  In every state of a pipeline in use the requests are the successes and the errors, and a request that
  admission control rejected is one of the errors, as \<open>metrics\<close> reports them.
\<close>

theorem request_counts:
  assumes "reach pipeline_start pstep p"
  shows "pl_request_count p = pl_success_count p + pl_error_count p \<and>
    0 \<le> pl_rejected_count p \<and> pl_rejected_count p \<le> pl_error_count p"
  using pipeline.reach_invar [OF assms] by (simp add: tally_ok_def)

theorem request_counts_witness:
  "pl_request_count (snd (snd (infer demo_infer_env (demo_request ''gait'') demo_pipeline))) =
     pl_success_count (snd (snd (infer demo_infer_env (demo_request ''gait'') demo_pipeline))) +
     pl_error_count (snd (snd (infer demo_infer_env (demo_request ''gait'') demo_pipeline)))"
proof -
  have "pipeline_start demo_pipeline" unfolding pipeline_start_def demo_pipeline_def by blast
  then have "reach pipeline_start pstep (snd (snd (infer demo_infer_env (demo_request ''gait'') demo_pipeline)))"
    by (blast intro: reach.intros p_infer)
  from request_counts [OF this] show ?thesis by blast
qed

lemma run_request_admission:
  "pl_admission (snd (snd (run_request env rq v (Some sl) p))) =
     map_option (\<lambda>m. snd (slot_release sl m)) (pl_admission p)"
  by (auto simp: run_request_def Let_def split_beta release_admission_def error_from_pipeline_error_def
      error_from_execution_result_def split: option.split)

text \<open>
  C3. A request gives back its slot whatever becomes of it: afterwards the counters of the manager again
  count exactly the slots that were held before.
\<close>

theorem infer_returns_slot:
  assumes inv: "csys_inv s" and adm: "pl_admission p = Some (cs_mgr s)"
    and fresh: "Some (''slot-'' @ take 12 (ie_hex env)) \<notin> sl_slot_id ` set (cs_held s)"
  shows "\<exists>m'. pl_admission (snd (snd (infer env rq p))) = Some m' \<and>
    csys_inv \<lparr>cs_mgr = m', cs_held = cs_held s\<rparr> \<and> cm_global_active m' = cm_global_active (cs_mgr s)"
proof (cases "admit_request env rq p")
  case (Inl e)
  then show ?thesis
    using inv adm by (cases s) (simp add: infer_def Let_def split_beta error_from_pipeline_error_def flip: counted_def)
next
  case (Inr d)
  obtain sl m1 where t: "try_acquire (ie_slot_utc env) (ie_slot_mt env) (ie_hex env) (rq_model_id rq)
      (vd_version d) (rq_request_id rq) (cs_mgr s) = (sl, m1)" by fastforce
  note bal = acquire_release_balanced [OF inv fresh t]
  have "pl_admission (snd (snd (infer env rq p))) = Some (snd (slot_release sl m1))"
  proof (cases "sl_acquired sl")
    case True
    with Inr adm t show ?thesis
      by (simp add: infer_def Let_def run_request_admission flip: counted_def)
  next
    case False
    with Inr adm t show ?thesis
      by (simp add: infer_def Let_def split_beta error_from_pipeline_error_def slot_release_def
          flip: counted_def)
  qed
  with bal inv show ?thesis by (simp add: csys_inv_def)
qed

theorem infer_returns_slot_witness:
  "\<exists>m. pl_admission (snd (snd (infer demo_infer_env (demo_request ''fall'') demo_pipeline))) = Some m \<and>
     cm_global_active m = 0"
proof -
  let ?s = "\<lparr>cs_mgr = create_concurrency_stack 10 2, cs_held = []\<rparr>"
  have "csys_inv ?s" by (intro csys_inv_init) (auto simp: csys_init_def)
  moreover have "pl_admission demo_pipeline = Some (cs_mgr ?s)"
    by (simp add: demo_pipeline_def new_pipeline_def)
  moreover have "cm_global_active (cs_mgr ?s) = 0"
    by (simp add: create_concurrency_stack_def new_manager_def)
  ultimately show ?thesis
    using infer_returns_slot [of ?s demo_pipeline demo_infer_env "demo_request ''fall''"] by auto
qed

subsection \<open>Messages and identifiers\<close>

text \<open>\<open>path_free s\<close>: no suffix of \<open>s\<close> starts with a path to a Python file.\<close>

fun path_free :: "string \<Rightarrow> bool" where
  "path_free [] \<longleftrightarrow> True"
| "path_free (c # s) \<longleftrightarrow> (c = CHR ''/'' \<longrightarrow> path_end s = None) \<and> path_free s"

lemma path_end_run:
  "takeWhile (\<lambda>c. \<not> is_space c) s = takeWhile (\<lambda>c. \<not> is_space c) t \<Longrightarrow>
     path_end s = None \<longleftrightarrow> path_end t = None"
  by (simp add: path_end_def Let_def)

lemma path_end_None:
  "path_end s = None \<longleftrightarrow>
     (\<forall>k. 1 \<le> k \<and> k < length (takeWhile (\<lambda>c. \<not> is_space c) s) \<longrightarrow>
        take 3 (drop k (takeWhile (\<lambda>c. \<not> is_space c) s)) \<noteq> ''.py'')"
  by (auto simp: path_end_def Let_def filter_empty_conv)

lemma path_end_tail: "\<not> is_space c \<Longrightarrow> path_end (c # s) = None \<Longrightarrow> path_end s = None"
  unfolding path_end_None by (metis (no_types, lifting) Suc_less_eq drop_Suc_Cons le_Suc_eq
      length_Cons less_Suc_eq_le not_less_eq_eq takeWhile.simps(2))

lemma strip_paths_run:
  "path_end s = None \<Longrightarrow>
     takeWhile (\<lambda>c. \<not> is_space c) (strip_paths s) = takeWhile (\<lambda>c. \<not> is_space c) s"
proof (induction s)
  case Nil
  then show ?case by simp
next
  case (Cons c s)
  show ?case
  proof (cases "is_space c")
    case True
    then have "c \<noteq> CHR ''/''" by (auto simp: is_space_def)
    with True show ?thesis by simp
  next
    case False
    from path_end_tail [OF this Cons.prems] have "path_end s = None" .
    with False Cons.IH show ?thesis by simp
  qed
qed

lemma path_free_append:
  "CHR ''/'' \<notin> set u \<Longrightarrow> path_free (u @ s) \<longleftrightarrow> path_free s"
  by (induction u) auto

lemma strip_paths_free: "path_free (strip_paths s)"
proof (induction s rule: strip_paths.induct)
  case 1
  then show ?case by simp
next
  case (2 c s)
  show ?case
  proof (cases "c = CHR ''/''")
    case True
    show ?thesis
    proof (cases "path_end s")
      case None
      with True 2 path_end_run [OF strip_paths_run [OF None]] show ?thesis by simp
    next
      case (Some t)
      with True 2 path_free_append [of "''[internal]''" "strip_paths t"] show ?thesis by simp
    qed
  next
    case False
    with 2 show ?thesis by simp
  qed
qed

text \<open>
  What a caller sees of a failed execution: after the first substitution no path to a Python file is
  left, and the message is never longer than 200 characters.
\<close>

theorem message_sanitised:
  "path_free (strip_paths (err_message e)) \<and> length (sanitize_error_message e) \<le> 200"
  by (simp add: strip_paths_free sanitize_error_message_def Let_def)

text \<open>The second substitution can join two parts into a path again.\<close>

lemma sanitised_path_reappears:
  "sanitize_error_message (e\<lparr>err_message := ''in /srv/modelline 5.py''\<rparr>) = ''in /srv/model.py''"
proof -
  have "strip_lines (strip_paths ''in /srv/modelline 5.py'') = ''in /srv/model.py''" by code_simp
  then show ?thesis by (simp add: sanitize_error_message_def del: strip_paths.simps)
qed

text \<open>
  A version that exists but is not ready is reported as an internal error, and the status for models
  that are not ready is never given for a version in the wrong state.
\<close>

lemma not_ready_status:
  "map_error_to_status PIPE_VERSION_NOT_READY = ST_ERROR"
  "map_error_to_status PIPE_VERSION_UNHEALTHY = ST_ERROR"
  "map_error_to_status PIPE_NO_ELIGIBLE_VERSION = ST_ERROR"
  "map_error_to_status PIPE_CONCURRENCY_REJECTED = ST_ERROR"
  by (simp_all add: map_error_to_status_def)

text \<open>\<open>get_available_models\<close> names the greatest string, the resolver the highest version.\<close>

lemma available_latest_disagrees:
  "get_available_models (demo_pipeline\<lparr>pl_registry := two_versions [''1.9.0'', ''1.10.0'']\<rparr>) =
     [(''fall'', [''1.9.0'', ''1.10.0''], ''1.9.0'')]"
  "map_option vd_version (rr_descriptor (resolve id 0 (two_versions [''1.9.0'', ''1.10.0''])
     DEFAULT_ELIGIBILITY ''fall'' None None None)) = Some ''1.10.0''"
  by code_simp+

text \<open>A frame reference survives the way over its dictionary.\<close>

lemma frame_roundtrip: "frame_from_dict (frame_to_dict f) = Some f"
  by (simp add: frame_from_dict_def frame_to_dict_def get_str_def get_dict_def)

end
