(* ===== verification/Validator.thy ===== *)
theory Validator
  imports RuntimeErrors RuntimeModels "HOL-Library.Monad_Syntax" "HOL-Library.Multiset"
begin

text \<open>
  \<open>ai/runtime/validator.py\<close>: \<open>ContractValidator\<close> reads the \<open>model.yaml\<close> of a version, collects errors and
  builds the descriptor. The parsed file and the file system are parameters. YAML values are \<open>jval\<close>s;
  a left result is a Python exception that leaves \<open>validate\<close>.
\<close>

section \<open>The file system and the contract\<close>

datatype yaml_file = NoContract | NotUtf8 string | BadYaml string | Contract jval

text \<open>What \<open>item.resolve()\<close> gives for a symbolic link: a target, an \<open>OSError\<close>, or \<open>RuntimeError\<close> for a loop.\<close>

datatype link = NotLink | LinkTo path | LinkError | LinkLoop

record tree_item =
  ti_path :: path
  ti_is_file :: bool
  ti_link :: link

text \<open>
  \<open>ve_order\<close> is the order in which a set is iterated, \<open>ve_str\<close> the rendering of a value in a message,
  \<open>ve_items\<close> what \<open>rglob("*")\<close> yields.
\<close>

record validator_env =
  ve_now :: real
  ve_order :: "string list \<Rightarrow> string list"
  ve_str :: "jval \<Rightarrow> string"
  ve_yaml :: "path \<Rightarrow> yaml_file"
  ve_exists :: "path \<Rightarrow> bool"
  ve_is_dir :: "path \<Rightarrow> bool"
  ve_items :: "path \<Rightarrow> tree_item list"

text \<open>
  \<open>vr_ill_typed\<close> says that the contract is valid but holds values of other types than the annotations of
  the descriptor; the descriptor that Python then builds is outside the record and is left out.
\<close>

record ValidationResult =
  vr_model_id :: string
  vr_version :: string
  vr_errors :: "ModelError list"
  vr_warnings :: "string list"
  vr_descriptor :: "ModelVersionDescriptor option"
  vr_ill_typed :: bool

definition new_result :: "string \<Rightarrow> string \<Rightarrow> ValidationResult" where
  "new_result model_id version =
     \<lparr>vr_model_id = model_id, vr_version = version, vr_errors = [], vr_warnings = [],
      vr_descriptor = None, vr_ill_typed = False\<rparr>"

definition vr_is_valid :: "ValidationResult \<Rightarrow> bool" where
  "vr_is_valid r \<longleftrightarrow> length (vr_errors r) = 0"

definition add_errors :: "ModelError list \<Rightarrow> ValidationResult \<Rightarrow> ValidationResult" where
  "add_errors es r = r\<lparr>vr_errors := vr_errors r @ es\<rparr>"

definition add_warnings :: "string list \<Rightarrow> ValidationResult \<Rightarrow> ValidationResult" where
  "add_warnings ws r = r\<lparr>vr_warnings := vr_warnings r @ ws\<rparr>"

definition result_str :: "ValidationResult \<Rightarrow> string" where
  "result_str r =
     (if vr_is_valid r then ''ValidationResult('' @ vr_model_id r @ '':'' @ vr_version r @ '') - VALID''
      else ''ValidationResult('' @ vr_model_id r @ '':'' @ vr_version r @ '') - INVALID ('' @
           show_nat (length (vr_errors r)) @ '' errors, '' @ show_nat (length (vr_warnings r)) @ '' warnings)'')"

section \<open>Constants\<close>

definition SUPPORTED_SCHEMA_VERSIONS :: "string list" where
  "SUPPORTED_SCHEMA_VERSIONS = [''1.0.0'']"

definition REQUIRED_FIELDS :: "string list" where
  "REQUIRED_FIELDS = [''model_id'', ''version'', ''display_name'', ''contract_schema_version'', ''input'',
     ''output'', ''hardware'', ''performance'']"

definition REQUIRED_INPUT_FIELDS :: "string list" where
  "REQUIRED_INPUT_FIELDS = [''type'', ''format'', ''min_width'', ''min_height'', ''channels'']"

definition REQUIRED_OUTPUT_FIELDS :: "string list" where
  "REQUIRED_OUTPUT_FIELDS = [''schema_version'', ''schema'']"

definition REQUIRED_HARDWARE_FIELDS :: "string list" where
  "REQUIRED_HARDWARE_FIELDS = [''supports_cpu'', ''supports_gpu'', ''supports_jetson'']"

definition REQUIRED_PERFORMANCE_FIELDS :: "string list" where
  "REQUIRED_PERFORMANCE_FIELDS = [''inference_time_hint_ms'', ''recommended_fps'']"

definition forbidden_extensions :: "string list" where
  "forbidden_extensions = [''.sh'', ''.bash'', ''.exe'', ''.dll'', ''.dylib'']"

section \<open>Reading values\<close>

text \<open>\<open>d.get(k, default)\<close>, and \<open>d.get(k, {})\<close> used as a mapping.\<close>

definition jget :: "(string, jval) dict \<Rightarrow> string \<Rightarrow> jval \<Rightarrow> jval" where
  "jget d k default_value = (case dget d k of None \<Rightarrow> default_value | Some v \<Rightarrow> v)"

definition as_mapping :: "string \<Rightarrow> jval \<Rightarrow> py_error + (string, jval) dict" where
  "as_mapping attr v = (case v of JDict d \<Rightarrow> Inr d | _ \<Rightarrow> Inl (AttributeError attr))"

definition submapping :: "(string, jval) dict \<Rightarrow> string \<Rightarrow> py_error + (string, jval) dict" where
  "submapping d k = as_mapping ''get'' (jget d k (JDict []))"

text \<open>Values of the annotated types; \<open>None\<close> when the value has another type. Booleans are integers.\<close>

definition j_int :: "jval \<Rightarrow> int option" where
  "j_int v = (case v of JInt n \<Rightarrow> Some n | JBool b \<Rightarrow> Some (if b then 1 else 0) | _ \<Rightarrow> None)"

definition j_real :: "jval \<Rightarrow> real option" where
  "j_real v = (case v of JReal x \<Rightarrow> Some x | _ \<Rightarrow> map_option of_int (j_int v))"

definition j_bool :: "jval \<Rightarrow> bool option" where
  "j_bool v = (case v of JBool b \<Rightarrow> Some b | _ \<Rightarrow> None)"

definition j_str :: "jval \<Rightarrow> string option" where
  "j_str v = (case v of JStr s \<Rightarrow> Some s | _ \<Rightarrow> None)"

definition j_opt :: "(jval \<Rightarrow> 'a option) \<Rightarrow> jval \<Rightarrow> 'a option option" where
  "j_opt f v = (case v of JNone \<Rightarrow> Some None | _ \<Rightarrow> map_option Some (f v))"

text \<open>\<open>tuple(v)\<close>\<close>

definition py_tuple :: "jval \<Rightarrow> py_error + jval list" where
  "py_tuple v = (case v of JList xs \<Rightarrow> Inr xs | JStrs ss \<Rightarrow> Inr (map JStr ss)
     | JStr s \<Rightarrow> Inr (map (\<lambda>c. JStr [c]) s) | JDict d \<Rightarrow> Inr (map JStr (dkeys d))
     | _ \<Rightarrow> Inl (TypeError ''not iterable''))"

definition j_strs :: "jval list \<Rightarrow> string list option" where
  "j_strs vs = those (map j_str vs)"

text \<open>A value in an f-string, and as the \<open>actual\<close> of an error context.\<close>

definition j_text :: "validator_env \<Rightarrow> jval \<Rightarrow> string" where
  "j_text env v = (case v of JStr s \<Rightarrow> s | _ \<Rightarrow> ve_str env v)"

definition actual_text :: "validator_env \<Rightarrow> jval \<Rightarrow> string option" where
  "actual_text env v = (case v of JNone \<Rightarrow> None | _ \<Rightarrow> Some (j_text env v))"

definition quoted :: "string \<Rightarrow> string" where
  "quoted s = [CHR 39] @ s @ [CHR 39]"

section \<open>The sections of a contract\<close>

type_synonym 'a parsed = "py_error + (ModelError list \<times> string list \<times> 'a)"

text \<open>One error for every required field of \<open>data\<close> that is missing.\<close>

definition missing_errors ::
  "validator_env \<Rightarrow> string \<Rightarrow> string list \<Rightarrow> (string, jval) dict \<Rightarrow> path \<Rightarrow> ValidationResult \<Rightarrow> ModelError list" where
  "missing_errors env prefix required data p r =
     map (\<lambda>f. validation_error (ve_now env) VAL_MISSING_REQUIRED_FIELD
                (''Required field '' @ quoted (prefix @ f) @ '' is missing'')
                (Some (vr_model_id r)) (Some (vr_version r)) (Some (path_str p)) (Some (prefix @ f)) None None [])
       (ve_order env (filter (\<lambda>f. dget data f = None) required))"

definition parse_input_type :: "jval \<Rightarrow> InputType option" where
  "parse_input_type v =
     (if v = JStr ''frame'' then Some FRAME else if v = JStr ''batch'' then Some BATCH
      else if v = JStr ''temporal'' then Some TEMPORAL else None)"

definition parse_input_format :: "jval \<Rightarrow> InputFormat option" where
  "parse_input_format v =
     (if v = JStr ''jpeg'' then Some JPEG else if v = JStr ''png'' then Some PNG
      else if v = JStr ''raw_rgb'' then Some RAW_RGB else if v = JStr ''raw_bgr'' then Some RAW_BGR
      else if v = JStr ''raw_grayscale'' then Some RAW_GRAYSCALE else None)"

definition build_input ::
  "InputType \<Rightarrow> InputFormat \<Rightarrow> (string, jval) dict \<Rightarrow> (string, jval) dict \<Rightarrow> (string, jval) dict \<Rightarrow>
   InputSpecification option" where
  "build_input t f data batch temporal = do {
     w \<leftarrow> j_int (jget data ''min_width'' (JInt 320));
     h \<leftarrow> j_int (jget data ''min_height'' (JInt 240));
     mw \<leftarrow> j_opt j_int (jget data ''max_width'' JNone);
     mh \<leftarrow> j_opt j_int (jget data ''max_height'' JNone);
     c \<leftarrow> j_int (jget data ''channels'' (JInt 3));
     b1 \<leftarrow> j_opt j_int (jget batch ''min_size'' JNone);
     b2 \<leftarrow> j_opt j_int (jget batch ''max_size'' JNone);
     b3 \<leftarrow> j_opt j_int (jget batch ''recommended_size'' JNone);
     t1 \<leftarrow> j_opt j_int (jget temporal ''min_frames'' JNone);
     t2 \<leftarrow> j_opt j_int (jget temporal ''max_frames'' JNone);
     t3 \<leftarrow> j_opt j_int (jget temporal ''recommended_frames'' JNone);
     t4 \<leftarrow> j_opt j_real (jget temporal ''fps_requirement'' JNone);
     Some \<lparr>is_type = t, is_format = f, is_min_width = w, is_min_height = h, is_max_width = mw,
       is_max_height = mh, is_channels = c, is_batch_min_size = b1, is_batch_max_size = b2,
       is_batch_recommended_size = b3, is_temporal_min_frames = t1, is_temporal_max_frames = t2,
       is_temporal_recommended_frames = t3, is_temporal_fps_requirement = t4\<rparr> }"

text \<open>The input type, which later stages read, and the specification if its values have their types.\<close>

definition parse_input_spec ::
  "validator_env \<Rightarrow> (string, jval) dict \<Rightarrow> path \<Rightarrow> ValidationResult \<Rightarrow> (InputType \<times> InputSpecification option) parsed" where
  "parse_input_spec env data p r =
     (let missing = missing_errors env ''input.'' REQUIRED_INPUT_FIELDS data p r;
          type_str = jget data ''type'' (JStr ''frame'');
          format_str = jget data ''format'' (JStr ''jpeg'');
          (input_type, type_errors) = (case parse_input_type type_str of
             Some t \<Rightarrow> (t, [])
           | None \<Rightarrow> (FRAME, [validation_error (ve_now env) VAL_INVALID_INPUT_TYPE
               (''Invalid input type: '' @ j_text env type_str) (Some (vr_model_id r)) (Some (vr_version r))
               (Some (path_str p)) (Some ''input.type'') (Some ''frame, batch, or temporal'')
               (actual_text env type_str) []]));
          (input_format, warnings) = (case parse_input_format format_str of
             Some f \<Rightarrow> (f, [])
           | None \<Rightarrow> (JPEG, [''Unknown input format '' @ quoted (j_text env format_str) @
               '', defaulting to jpeg'']))
      in sum_bind (submapping data ''batch'') (\<lambda>batch.
         sum_bind (submapping data ''temporal'') (\<lambda>temporal.
           Inr (missing @ type_errors, warnings,
                (input_type, build_input input_type input_format data batch temporal)))))"

definition build_output ::
  "(string, jval) dict \<Rightarrow> (string, jval) dict \<Rightarrow> jval list \<Rightarrow> jval list \<Rightarrow> OutputSpecification option" where
  "build_output data schema events keys = do {
     v \<leftarrow> j_str (jget data ''schema_version'' (JStr ''1.0''));
     es \<leftarrow> j_strs events;
     ks \<leftarrow> j_strs keys;
     Some \<lparr>os_schema_version = v, os_event_type_enum = es,
       os_provides_bounding_boxes = (dget schema ''bounding_boxes'' \<noteq> None),
       os_provides_metadata = (dget schema ''metadata'' \<noteq> None), os_metadata_allowed_keys = ks\<rparr> }"

definition parse_output_spec ::
  "validator_env \<Rightarrow> (string, jval) dict \<Rightarrow> path \<Rightarrow> ValidationResult \<Rightarrow> OutputSpecification option parsed" where
  "parse_output_spec env data p r =
     sum_bind (submapping data ''schema'') (\<lambda>schema.
     sum_bind (submapping schema ''event_type'') (\<lambda>event_type.
     sum_bind (submapping schema ''metadata'') (\<lambda>metadata.
     sum_bind (py_tuple (jget event_type ''enum'' (JStrs [''detected'', ''not_detected'']))) (\<lambda>events.
     sum_bind (py_tuple (jget metadata ''allowed_keys'' (JList []))) (\<lambda>keys.
       Inr (missing_errors env ''output.'' REQUIRED_OUTPUT_FIELDS data p r, [],
            build_output data schema events keys))))))"

definition build_hardware :: "(string, jval) dict \<Rightarrow> HardwareCompatibility option" where
  "build_hardware data = do {
     c \<leftarrow> j_bool (jget data ''supports_cpu'' (JBool True));
     g \<leftarrow> j_bool (jget data ''supports_gpu'' (JBool False));
     j \<leftarrow> j_bool (jget data ''supports_jetson'' (JBool False));
     m \<leftarrow> j_opt j_int (jget data ''min_gpu_memory_mb'' JNone);
     k \<leftarrow> j_opt j_int (jget data ''min_cpu_cores'' JNone);
     q \<leftarrow> j_opt j_int (jget data ''min_ram_mb'' JNone);
     Some \<lparr>hw_supports_cpu = c, hw_supports_gpu = g, hw_supports_jetson = j, hw_min_gpu_memory_mb = m,
       hw_min_cpu_cores = k, hw_min_ram_mb = q\<rparr> }"

definition parse_hardware ::
  "validator_env \<Rightarrow> (string, jval) dict \<Rightarrow> path \<Rightarrow> ValidationResult \<Rightarrow> HardwareCompatibility option parsed" where
  "parse_hardware env data p r =
     Inr (missing_errors env ''hardware.'' REQUIRED_HARDWARE_FIELDS data p r, [], build_hardware data)"

definition build_performance :: "(string, jval) dict \<Rightarrow> PerformanceHints option" where
  "build_performance data = do {
     t \<leftarrow> j_int (jget data ''inference_time_hint_ms'' (JInt 100));
     f \<leftarrow> j_int (jget data ''recommended_fps'' (JInt 10));
     m \<leftarrow> j_opt j_int (jget data ''max_fps'' JNone);
     b \<leftarrow> j_int (jget data ''recommended_batch_size'' (JInt 1));
     w \<leftarrow> j_int (jget data ''warmup_iterations'' (JInt 1));
     Some \<lparr>ph_inference_time_hint_ms = t, ph_recommended_fps = f, ph_max_fps = m,
       ph_recommended_batch_size = b, ph_warmup_iterations = w\<rparr> }"

definition parse_performance ::
  "validator_env \<Rightarrow> (string, jval) dict \<Rightarrow> path \<Rightarrow> ValidationResult \<Rightarrow> PerformanceHints option parsed" where
  "parse_performance env data p r =
     Inr (missing_errors env ''performance.'' REQUIRED_PERFORMANCE_FIELDS data p r, [], build_performance data)"

definition parse_limits :: "(string, jval) dict \<Rightarrow> ResourceLimits option" where
  "parse_limits data = do {
     m \<leftarrow> j_opt j_int (jget data ''max_memory_mb'' JNone);
     i \<leftarrow> j_int (jget data ''inference_timeout_ms'' (JInt 5000));
     p \<leftarrow> j_int (jget data ''preprocessing_timeout_ms'' (JInt 1000));
     q \<leftarrow> j_int (jget data ''postprocessing_timeout_ms'' (JInt 1000));
     c \<leftarrow> j_int (jget data ''max_concurrent_inferences'' (JInt 1));
     Some \<lparr>rl_max_memory_mb = m, rl_inference_timeout_ms = i, rl_preprocessing_timeout_ms = p,
       rl_postprocessing_timeout_ms = q, rl_max_concurrent_inferences = c\<rparr> }"

definition parse_capabilities :: "(string, jval) dict \<Rightarrow> ModelCapabilities option" where
  "parse_capabilities data = do {
     b \<leftarrow> j_bool (jget data ''supports_batching'' (JBool False));
     a \<leftarrow> j_bool (jget data ''supports_async'' (JBool False));
     t \<leftarrow> j_bool (jget data ''provides_tracking'' (JBool False));
     c \<leftarrow> j_bool (jget data ''confidence_calibrated'' (JBool False));
     x \<leftarrow> j_bool (jget data ''provides_bounding_boxes'' (JBool False));
     k \<leftarrow> j_bool (jget data ''provides_keypoints'' (JBool False));
     Some \<lparr>mc_supports_batching = b, mc_supports_async = a, mc_provides_tracking = t,
       mc_confidence_calibrated = c, mc_provides_bounding_boxes = x, mc_provides_keypoints = k\<rparr> }"

text \<open>The raw values: stage 7 uses them before any type is settled.\<close>

record raw_entry_points =
  re_inference :: jval
  re_preprocess :: jval
  re_postprocess :: jval
  re_loader :: jval

definition parse_entry_points :: "(string, jval) dict \<Rightarrow> raw_entry_points" where
  "parse_entry_points data =
     \<lparr>re_inference = jget data ''inference'' (JStr ''inference.py''), re_preprocess = jget data ''preprocess'' JNone,
      re_postprocess = jget data ''postprocess'' JNone, re_loader = jget data ''loader'' JNone\<rparr>"

definition build_entry_points :: "raw_entry_points \<Rightarrow> EntryPoints option" where
  "build_entry_points re = do {
     i \<leftarrow> j_str (re_inference re);
     p \<leftarrow> j_opt j_str (re_preprocess re);
     q \<leftarrow> j_opt j_str (re_postprocess re);
     l \<leftarrow> j_opt j_str (re_loader re);
     Some \<lparr>ep_inference = i, ep_preprocess = p, ep_postprocess = q, ep_loader = l\<rparr> }"

section \<open>The stages\<close>

text \<open>Stage 1: the mapping, or the error that ends the validation.\<close>

definition parse_yaml :: "validator_env \<Rightarrow> path \<Rightarrow> ValidationResult \<Rightarrow> py_error + (ModelError + (string, jval) dict)" where
  "parse_yaml env p r =
     (case ve_yaml env p of
        NoContract \<Rightarrow> Inr (Inl (validation_error (ve_now env) VAL_CONTRACT_NOT_FOUND
          (''model.yaml not found at '' @ path_str p) (Some (vr_model_id r)) (Some (vr_version r))
          (Some (path_str p)) None None None []))
      | NotUtf8 e \<Rightarrow> Inl (ValueError e)
      | BadYaml e \<Rightarrow> Inr (Inl (contract_error (ve_now env) VAL_INVALID_YAML
          (''Invalid YAML syntax: '' @ e) (Some (vr_model_id r)) (Some (vr_version r))
          (Some (path_str p)) None (Some e) []))
      | Contract (JDict d) \<Rightarrow> Inr (Inr d)
      | Contract _ \<Rightarrow> Inr (Inl (contract_error (ve_now env) CONTRACT_PARSE_ERROR
          ''model.yaml must contain a YAML mapping (dict)'' (Some (vr_model_id r)) (Some (vr_version r))
          (Some (path_str p)) None None [])))"

text \<open>Stage 2.\<close>

definition validate_required_fields ::
  "validator_env \<Rightarrow> (string, jval) dict \<Rightarrow> path \<Rightarrow> ValidationResult \<Rightarrow> ModelError list" where
  "validate_required_fields env data p r = missing_errors env [] REQUIRED_FIELDS data p r"

text \<open>Stage 3. The patterns are matched with \<open>re\<close>, which raises \<open>TypeError\<close> unless the value is a string.\<close>

definition identity_error ::
  "validator_env \<Rightarrow> ValidationResult \<Rightarrow> path \<Rightarrow> ErrorCode \<Rightarrow> string \<Rightarrow> string \<Rightarrow> string \<Rightarrow> jval \<Rightarrow> ModelError" where
  "identity_error env r p code message field expected actual =
     validation_error (ve_now env) code message (Some (vr_model_id r)) (Some (vr_version r)) (Some (path_str p))
       (Some field) (Some expected) (actual_text env actual) []"

definition matches :: "(string \<Rightarrow> bool) \<Rightarrow> jval \<Rightarrow> py_error + bool" where
  "matches pattern v = (case v of JStr s \<Rightarrow> Inr (pattern s)
     | _ \<Rightarrow> Inl (TypeError ''expected string or bytes-like object''))"

definition validate_consistency ::
  "validator_env \<Rightarrow> (string, jval) dict \<Rightarrow> string \<Rightarrow> string \<Rightarrow> path \<Rightarrow> ValidationResult \<Rightarrow> py_error + ModelError list" where
  "validate_consistency env data expected_model_id expected_version p r =
     (let i = jget data ''model_id'' (JStr []);
          v = jget data ''version'' (JStr []);
          id_errors = (if i = JStr expected_model_id then [] else
            [identity_error env r p VAL_MODEL_ID_MISMATCH ''model_id in contract does not match directory name''
               ''model_id'' expected_model_id i]);
          version_errors = (if v = JStr expected_version then [] else
            [identity_error env r p VAL_VERSION_MISMATCH ''version in contract does not match directory name''
               ''version'' expected_version v])
      in sum_bind (matches is_valid_model_id i) (\<lambda>id_ok.
         sum_bind (matches is_valid_version v) (\<lambda>version_ok.
           Inr (id_errors @ version_errors @
             (if id_ok then [] else
               [identity_error env r p DISC_INVALID_MODEL_ID
                  (''model_id '' @ quoted (j_text env i) @ '' does not match required pattern'')
                  ''model_id'' ''^[a-z][a-z0-9_]{2,63}$'' i]) @
             (if version_ok then [] else
               [identity_error env r p DISC_INVALID_VERSION
                  (''version '' @ quoted (j_text env v) @ '' does not match SemVer pattern'')
                  ''version'' ''X.Y.Z or X.Y.Z-prerelease'' v])))))"

text \<open>Stage 4. A list or a mapping is not hashable, so looking it up in a set raises \<open>TypeError\<close>.\<close>

definition validate_schema_version ::
  "validator_env \<Rightarrow> jval \<Rightarrow> path \<Rightarrow> ValidationResult \<Rightarrow> py_error + ModelError list" where
  "validate_schema_version env v p r =
     (case v of
        JList _ \<Rightarrow> Inl (TypeError ''unhashable type: list'')
      | JStrs _ \<Rightarrow> Inl (TypeError ''unhashable type: list'')
      | JDict _ \<Rightarrow> Inl (TypeError ''unhashable type: dict'')
      | _ \<Rightarrow> Inr (if v \<in> JStr ` set SUPPORTED_SCHEMA_VERSIONS then [] else
          [identity_error env r p VAL_UNSUPPORTED_SCHEMA_VERSION
             (''Unsupported contract schema version: '' @ j_text env v) ''contract_schema_version''
             (''{'' @ quoted ''1.0.0'' @ ''}'') v]))"

text \<open>Stage 6.\<close>

definition conditional_error ::
  "validator_env \<Rightarrow> string \<Rightarrow> (string, jval) dict \<Rightarrow> path \<Rightarrow> ValidationResult \<Rightarrow> ModelError list" where
  "conditional_error env kind input_data p r =
     (if dget input_data kind \<noteq> None then [] else
        [contract_error (ve_now env) CONTRACT_CONDITIONAL_ERROR
           (''input.'' @ kind @ '' is required when input.type is '' @ quoted kind) (Some (vr_model_id r))
           (Some (vr_version r)) (Some (path_str p)) (Some (''input.'' @ kind)) None []])"

definition validate_conditional_requirements ::
  "validator_env \<Rightarrow> (string, jval) dict \<Rightarrow> InputType \<Rightarrow> path \<Rightarrow> ValidationResult \<Rightarrow> ModelError list" where
  "validate_conditional_requirements env input_data t p r =
     (case t of FRAME \<Rightarrow> []
      | BATCH \<Rightarrow> conditional_error env ''batch'' input_data p r
      | TEMPORAL \<Rightarrow> conditional_error env ''temporal'' input_data p r)"

text \<open>Stage 7.\<close>

definition file_error :: "validator_env \<Rightarrow> string \<Rightarrow> path \<Rightarrow> ValidationResult \<Rightarrow> ModelError" where
  "file_error env message p r =
     validation_error (ve_now env) VAL_REQUIRED_FILE_MISSING message (Some (vr_model_id r)) (Some (vr_version r))
       (Some (path_str p)) None None None []"

definition jpath_div :: "path \<Rightarrow> jval \<Rightarrow> py_error + path" where
  "jpath_div p v = (case v of JStr s \<Rightarrow> Inr (path_div p s) | _ \<Rightarrow> Inl (TypeError ''unsupported operand type(s) for /''))"

fun jtruthy :: "jval \<Rightarrow> bool" where
  "jtruthy JNone = False"
| "jtruthy (JBool b) = b"
| "jtruthy (JInt n) = (n \<noteq> 0)"
| "jtruthy (JReal x) = (x \<noteq> 0)"
| "jtruthy (JStr s) = (s \<noteq> [])"
| "jtruthy (JStrs ss) = (ss \<noteq> [])"
| "jtruthy (JTime t) = True"
| "jtruthy (JDict d) = (d \<noteq> [])"
| "jtruthy (JList xs) = (xs \<noteq> [])"

definition validate_file ::
  "validator_env \<Rightarrow> string \<Rightarrow> path \<Rightarrow> jval \<Rightarrow> ValidationResult \<Rightarrow> py_error + ModelError list" where
  "validate_file env label version_path v r =
     sum_bind (jpath_div version_path v) (\<lambda>p.
       Inr (if ve_exists env p then [] else
         [file_error env (label @ '' file '' @ quoted (j_text env v) @ '' not found'') p r]))"

definition validate_optional_file ::
  "validator_env \<Rightarrow> string \<Rightarrow> path \<Rightarrow> jval \<Rightarrow> ValidationResult \<Rightarrow> py_error + ModelError list" where
  "validate_optional_file env label version_path v r =
     (if jtruthy v then validate_file env label version_path v r else Inr [])"

definition validate_required_files ::
  "validator_env \<Rightarrow> path \<Rightarrow> raw_entry_points \<Rightarrow> ValidationResult \<Rightarrow> py_error + ModelError list" where
  "validate_required_files env version_path entry_points r =
     (let w = path_div version_path ''weights'';
          weights_errors =
            (if \<not> ve_exists env w then [file_error env (''Required directory '' @ quoted ''weights/'' @ '' not found'') w r]
             else if \<not> ve_is_dir env w then [file_error env (quoted ''weights'' @ '' must be a directory'') w r]
             else [])
      in sum_bind (validate_file env ''Required'' version_path (re_inference entry_points) r) (\<lambda>e1.
         sum_bind (validate_optional_file env ''Declared preprocessing'' version_path (re_preprocess entry_points) r) (\<lambda>e2.
         sum_bind (validate_optional_file env ''Declared postprocessing'' version_path (re_postprocess entry_points) r) (\<lambda>e3.
           Inr (weights_errors @ e1 @ e2 @ e3)))))"

text \<open>Stage 8. \<open>path.suffix\<close>, and \<open>lower\<close> on ASCII letters.\<close>

definition lower_char :: "char \<Rightarrow> char" where
  "lower_char c = (if is_upper c then char_of ((of_char c :: nat) + 32) else c)"

definition path_name :: "path \<Rightarrow> string" where
  "path_name p = (if p = [] \<or> p = [''/''] then [] else last p)"

definition path_suffix :: "path \<Rightarrow> string" where
  "path_suffix p =
     (let name = path_name p;
          ext = rev (takeWhile (\<lambda>c. c \<noteq> CHR ''.'') (rev name))
      in if CHR ''.'' \<in> set name \<and> ext \<noteq> [] \<and> Suc (length ext) < length name then CHR ''.'' # ext else [])"

definition relative_to :: "path \<Rightarrow> path \<Rightarrow> bool" where
  "relative_to target base \<longleftrightarrow>
     take (length base) target = base \<and> (base = [] \<longrightarrow> target = [] \<or> hd target \<noteq> ''/'')"

definition check_file_type :: "validator_env \<Rightarrow> tree_item \<Rightarrow> ValidationResult \<Rightarrow> ModelError list" where
  "check_file_type env item r =
     (let suffix = map lower_char (path_suffix (ti_path item))
      in if ti_is_file item \<and> suffix \<in> set forbidden_extensions then
           [validation_error (ve_now env) VAL_FORBIDDEN_CONTENT
              (''Forbidden file type detected: '' @ path_name (ti_path item)) (Some (vr_model_id r))
              (Some (vr_version r)) (Some (path_str (ti_path item))) None None None [(''file_type'', JStr suffix)]]
         else [])"

definition check_link ::
  "validator_env \<Rightarrow> path \<Rightarrow> tree_item \<Rightarrow> ValidationResult \<Rightarrow> py_error + (ModelError list \<times> string list)" where
  "check_link env version_path item r =
     (case ti_link item of
        NotLink \<Rightarrow> Inr ([], [])
      | LinkError \<Rightarrow> Inr ([], [''Broken symlink detected: '' @ path_str (ti_path item)])
      | LinkLoop \<Rightarrow> Inl (RuntimeError ''Symlink loop'')
      | LinkTo target \<Rightarrow>
          if relative_to target version_path then Inr ([], [])
          else Inr ([validation_error (ve_now env) DISC_FORBIDDEN_SYMLINK
            (''Symlink points outside model directory: '' @ path_str (ti_path item) @ '' -> '' @ path_str target)
            (Some (vr_model_id r)) (Some (vr_version r)) (Some (path_str (ti_path item))) None None None
            [(''target'', JStr (path_str target))]], []))"

fun validate_no_forbidden_content ::
  "validator_env \<Rightarrow> path \<Rightarrow> tree_item list \<Rightarrow> ValidationResult \<Rightarrow> py_error + (ModelError list \<times> string list)" where
  "validate_no_forbidden_content env version_path [] r = Inr ([], [])"
| "validate_no_forbidden_content env version_path (item # rest) r =
     sum_bind (check_link env version_path item r) (\<lambda>(es, ws).
     sum_bind (validate_no_forbidden_content env version_path rest r) (\<lambda>(es', ws').
       Inr (check_file_type env item r @ es @ es', ws @ ws')))"

section \<open>The whole validation\<close>

definition build_descriptor ::
  "real \<Rightarrow> path \<Rightarrow> (string, jval) dict \<Rightarrow> jval \<Rightarrow> InputSpecification option \<Rightarrow> OutputSpecification option \<Rightarrow>
   HardwareCompatibility option \<Rightarrow> PerformanceHints option \<Rightarrow> ResourceLimits option \<Rightarrow>
   ModelCapabilities option \<Rightarrow> EntryPoints option \<Rightarrow> ModelVersionDescriptor option" where
  "build_descriptor now version_path data schema_version i ou h p l c ep = do {
     model_id \<leftarrow> j_str (jget data ''model_id'' JNone);
     version \<leftarrow> j_str (jget data ''version'' JNone);
     display_name \<leftarrow> j_str (jget data ''display_name'' JNone);
     description \<leftarrow> j_str (jget data ''description'' (JStr []));
     author \<leftarrow> j_str (jget data ''author'' (JStr ''unknown''));
     schema \<leftarrow> j_str schema_version;
     input_spec \<leftarrow> i;
     output_spec \<leftarrow> ou;
     hardware \<leftarrow> h;
     performance \<leftarrow> p;
     limits \<leftarrow> l;
     capabilities \<leftarrow> c;
     entry_points \<leftarrow> ep;
     Some ((new_descriptor now model_id version display_name)
       \<lparr>vd_description := description, vd_author := author, vd_contract_schema_version := schema,
        vd_directory_path := version_path, vd_input_spec := input_spec, vd_output_spec := output_spec,
        vd_hardware := hardware, vd_performance := performance, vd_limits := limits,
        vd_capabilities := capabilities, vd_entry_points := entry_points\<rparr>) }"

text \<open>Stages 3 to 8: the errors and warnings collected, and the descriptor if its values have their types.\<close>

definition contract_section :: "(string, jval) dict \<Rightarrow> string \<Rightarrow> py_error + (string, jval) dict" where
  "contract_section data k = as_mapping ''keys'' (jget data k (JDict []))"

definition validate_contract ::
  "validator_env \<Rightarrow> path \<Rightarrow> string \<Rightarrow> string \<Rightarrow> (string, jval) dict \<Rightarrow> path \<Rightarrow> ValidationResult \<Rightarrow>
   ModelVersionDescriptor option parsed" where
  "validate_contract env version_path expected_model_id expected_version data p r =
     (let schema_version = jget data ''contract_schema_version'' (JStr ''1.0.0'')
      in sum_bind (validate_consistency env data expected_model_id expected_version p r) (\<lambda>e3.
         sum_bind (validate_schema_version env schema_version p r) (\<lambda>e4.
         sum_bind (contract_section data ''input'') (\<lambda>input_data.
         sum_bind (parse_input_spec env input_data p r) (\<lambda>(ei, wi, input_type, input_spec).
         sum_bind (contract_section data ''output'') (\<lambda>output_data.
         sum_bind (parse_output_spec env output_data p r) (\<lambda>(eo, wo, output_spec).
         sum_bind (contract_section data ''hardware'') (\<lambda>hardware_data.
         sum_bind (parse_hardware env hardware_data p r) (\<lambda>(eh, wh, hardware).
         sum_bind (contract_section data ''performance'') (\<lambda>performance_data.
         sum_bind (parse_performance env performance_data p r) (\<lambda>(ep, wp, performance).
         sum_bind (submapping data ''limits'') (\<lambda>limits.
         sum_bind (submapping data ''capabilities'') (\<lambda>capabilities.
         sum_bind (submapping data ''entry_points'') (\<lambda>entry_data.
           (let entry_points = parse_entry_points entry_data;
                e6 = validate_conditional_requirements env input_data input_type p r
            in sum_bind (validate_required_files env version_path entry_points r) (\<lambda>e7.
               sum_bind (validate_no_forbidden_content env version_path (ve_items env version_path) r) (\<lambda>(e8, w8).
                 Inr (e3 @ e4 @ ei @ eo @ eh @ ep @ e6 @ e7 @ e8, wi @ wo @ wh @ wp @ w8,
                      build_descriptor (ve_now env) version_path data schema_version input_spec output_spec
                        hardware performance (parse_limits limits) (parse_capabilities capabilities)
                        (build_entry_points entry_points)))))))))))))))))))"

definition validate ::
  "validator_env \<Rightarrow> path \<Rightarrow> string \<Rightarrow> string \<Rightarrow> py_error + ValidationResult" where
  "validate env version_path expected_model_id expected_version =
     (let r = new_result expected_model_id expected_version;
          p = path_div version_path ''model.yaml''
      in sum_bind (parse_yaml env p r) (\<lambda>parsed.
           case parsed of
             Inl e \<Rightarrow> Inr (add_errors [e] r)
           | Inr data \<Rightarrow>
               (let missing = validate_required_fields env data p r
                in if missing \<noteq> [] then Inr (add_errors missing r)
                   else sum_bind (validate_contract env version_path expected_model_id expected_version data p r)
                     (\<lambda>(es, ws, d).
                       Inr ((add_warnings ws (add_errors es r))
                         \<lparr>vr_descriptor := (if es = [] then d else None),
                          vr_ill_typed := (es = [] \<and> d = None)\<rparr>)))))"

section \<open>What a successful validation shows\<close>

lemma add_simps [simp]:
  "vr_errors (add_errors es r) = vr_errors r @ es"
  "vr_warnings (add_errors es r) = vr_warnings r"
  "vr_errors (add_warnings ws r) = vr_errors r"
  "vr_warnings (add_warnings ws r) = vr_warnings r @ ws"
  "vr_descriptor (add_errors es r) = vr_descriptor r"
  "vr_ill_typed (add_errors es r) = vr_ill_typed r"
  "vr_model_id (add_errors es r) = vr_model_id r"
  "vr_version (add_errors es r) = vr_version r"
  by (simp_all add: add_errors_def add_warnings_def)

lemma new_result_simps [simp]:
  "vr_errors (new_result i v) = []" "vr_warnings (new_result i v) = []"
  "vr_descriptor (new_result i v) = None" "\<not> vr_ill_typed (new_result i v)"
  "vr_model_id (new_result i v) = i" "vr_version (new_result i v) = v"
  by (simp_all add: new_result_def)

text \<open>How a call that returns got there: it stopped at stage 1, at stage 2, or ran every stage.\<close>

lemma validate_cases:
  assumes "validate env vp i v = Inr r"
  obtains (no_contract) e where "parse_yaml env (path_div vp ''model.yaml'') (new_result i v) = Inr (Inl e)"
      "r = add_errors [e] (new_result i v)"
  | (missing) data where "parse_yaml env (path_div vp ''model.yaml'') (new_result i v) = Inr (Inr data)"
      "validate_required_fields env data (path_div vp ''model.yaml'') (new_result i v) \<noteq> []"
      "r = add_errors (validate_required_fields env data (path_div vp ''model.yaml'') (new_result i v)) (new_result i v)"
  | (full) data es ws d where "parse_yaml env (path_div vp ''model.yaml'') (new_result i v) = Inr (Inr data)"
      "validate_required_fields env data (path_div vp ''model.yaml'') (new_result i v) = []"
      "validate_contract env vp i v data (path_div vp ''model.yaml'') (new_result i v) = Inr (es, ws, d)"
      "vr_errors r = es" "vr_warnings r = ws" "vr_descriptor r = (if es = [] then d else None)"
      "vr_ill_typed r \<longleftrightarrow> es = [] \<and> d = None"
proof -
  let ?p = "path_div vp ''model.yaml''" and ?r = "new_result i v"
  from assms obtain parsed where y: "parse_yaml env ?p ?r = Inr parsed"
    unfolding validate_def Let_def sum_bind_Inr_iff by blast
  show thesis
  proof (cases parsed)
    case (Inl e)
    with assms y no_contract show ?thesis by (simp add: validate_def Let_def)
  next
    case (Inr data)
    show ?thesis
    proof (cases "validate_required_fields env data ?p ?r = []")
      case False
      with assms y Inr missing show ?thesis by (simp add: validate_def Let_def)
    next
      case True
      with assms y Inr obtain es ws d where c: "validate_contract env vp i v data ?p ?r = Inr (es, ws, d)"
        "r = (add_warnings ws (add_errors es ?r))
           \<lparr>vr_descriptor := (if es = [] then d else None), vr_ill_typed := (es = [] \<and> d = None)\<rparr>"
        by (auto simp: validate_def Let_def sum_bind_Inr_iff)
      show ?thesis
        by (rule full [OF y [unfolded Inr] True c(1)]) (simp_all add: c(2) add_errors_def add_warnings_def)
    qed
  qed
qed

text \<open>The pieces of a contract without errors.\<close>

lemma validate_contract_clean:
  assumes "validate_contract env vp i v data p r = Inr ([], ws, d)"
  obtains ed where
    "validate_consistency env data i v p r = Inr []"
    "validate_schema_version env (jget data ''contract_schema_version'' (JStr ''1.0.0'')) p r = Inr []"
    "validate_required_files env vp (parse_entry_points ed) r = Inr []"
    "fst (projr (validate_no_forbidden_content env vp (ve_items env vp) r)) = []"
    "isl (validate_no_forbidden_content env vp (ve_items env vp) r) = False"
    "\<exists>ins ous hw ph rl mc. d = build_descriptor (ve_now env) vp data
       (jget data ''contract_schema_version'' (JStr ''1.0.0'')) ins ous hw ph rl mc
       (build_entry_points (parse_entry_points ed))"
  using assms unfolding validate_contract_def Let_def
  by (auto simp: sum_bind_Inr_iff split: prod.splits) blast

lemma matches_Inr_iff: "matches f v = Inr b \<longleftrightarrow> (\<exists>s. v = JStr s \<and> b = f s)"
  by (auto simp: matches_def split: jval.splits)

lemma consistency_clean:
  assumes "validate_consistency env data i v p r = Inr []"
  shows "jget data ''model_id'' (JStr []) = JStr i" "jget data ''version'' (JStr []) = JStr v"
    "is_valid_model_id i" "is_valid_version v"
  using assms unfolding validate_consistency_def Let_def
  by (auto simp: sum_bind_Inr_iff matches_Inr_iff split: if_splits)

lemma schema_clean: "validate_schema_version env s p r = Inr [] \<Longrightarrow> s \<in> JStr ` set SUPPORTED_SCHEMA_VERSIONS"
  by (auto simp: validate_schema_version_def split: jval.splits if_splits)

lemma jget_default: "jget d k (JStr []) = JStr s \<Longrightarrow> s \<noteq> [] \<Longrightarrow> jget d k JNone = JStr s"
  by (auto simp: jget_def split: option.splits)

text \<open>The files: the weights directory and every declared file.\<close>

lemma file_clean: "validate_file env l vp v r = Inr [] \<Longrightarrow> j_str v = Some f \<Longrightarrow> ve_exists env (path_div vp f)"
  by (cases v) (auto simp: validate_file_def jpath_div_def j_str_def sum_bind_Inr_iff split: if_splits)

lemma optional_file_clean:
  "validate_optional_file env l vp v r = Inr [] \<Longrightarrow> j_opt j_str v = Some (Some f) \<Longrightarrow> f \<noteq> [] \<Longrightarrow>
     ve_exists env (path_div vp f)"
  by (rule file_clean [where l = l and v = v and r = r])
    (cases v; auto simp: validate_optional_file_def j_opt_def j_str_def)+

lemma build_entry_points_fields:
  "build_entry_points re = Some ep \<Longrightarrow>
     j_str (re_inference re) = Some (ep_inference ep) \<and> j_opt j_str (re_preprocess re) = Some (ep_preprocess ep) \<and>
     j_opt j_str (re_postprocess re) = Some (ep_postprocess ep) \<and> j_opt j_str (re_loader re) = Some (ep_loader ep)"
  by (auto simp: build_entry_points_def Option.bind_eq_Some_conv)

lemma files_clean:
  assumes "validate_required_files env vp re r = Inr []" "build_entry_points re = Some ep"
  shows "ve_is_dir env (path_div vp ''weights'')" "ve_exists env (path_div vp (ep_inference ep))"
    "\<And>f. ep_preprocess ep = Some f \<Longrightarrow> f \<noteq> [] \<Longrightarrow> ve_exists env (path_div vp f)"
    "\<And>f. ep_postprocess ep = Some f \<Longrightarrow> f \<noteq> [] \<Longrightarrow> ve_exists env (path_div vp f)"
proof -
  from assms(1) have w: "ve_is_dir env (path_div vp ''weights'')"
    and e: "validate_file env ''Required'' vp (re_inference re) r = Inr []"
      "validate_optional_file env ''Declared preprocessing'' vp (re_preprocess re) r = Inr []"
      "validate_optional_file env ''Declared postprocessing'' vp (re_postprocess re) r = Inr []"
    by (auto simp: validate_required_files_def sum_bind_Inr_iff Let_def split: if_splits)
  note b = build_entry_points_fields [OF assms(2)]
  show "ve_is_dir env (path_div vp ''weights'')" "ve_exists env (path_div vp (ep_inference ep))"
    "\<And>f. ep_preprocess ep = Some f \<Longrightarrow> f \<noteq> [] \<Longrightarrow> ve_exists env (path_div vp f)"
    "\<And>f. ep_postprocess ep = Some f \<Longrightarrow> f \<noteq> [] \<Longrightarrow> ve_exists env (path_div vp f)"
    using w e b by (auto intro: file_clean optional_file_clean)
qed

text \<open>The tree: no forbidden extension, and no link that leads outside.\<close>

definition item_allowed :: "path \<Rightarrow> tree_item \<Rightarrow> bool" where
  "item_allowed vp item \<longleftrightarrow>
     (ti_is_file item \<longrightarrow> map lower_char (path_suffix (ti_path item)) \<notin> set forbidden_extensions) \<and>
     (case ti_link item of LinkTo target \<Rightarrow> relative_to target vp | LinkLoop \<Rightarrow> False | _ \<Rightarrow> True)"

lemma tree_clean:
  "validate_no_forbidden_content env vp items r = Inr ([], ws) \<Longrightarrow> list_all (item_allowed vp) items"
proof (induction items arbitrary: ws)
  case Nil
  then show ?case by simp
next
  case (Cons item items)
  then have "item_allowed vp item"
    by (auto simp: sum_bind_Inr_iff check_file_type_def check_link_def item_allowed_def Let_def
        split: link.splits if_splits)
  with Cons show ?case by (auto simp: sum_bind_Inr_iff)
qed

text \<open>The identity of a descriptor that was built.\<close>

lemma build_descriptor_fields:
  assumes "build_descriptor now vp data s i ou h p l c ep = Some d"
  shows "Some (vd_model_id d) = j_str (jget data ''model_id'' JNone)"
    "Some (vd_version d) = j_str (jget data ''version'' JNone)"
    "Some (vd_contract_schema_version d) = j_str s"
    "ep = Some (vd_entry_points d)" "vd_directory_path d = vp" "vd_state d = DISCOVERED"
  using assms by (auto simp: build_descriptor_def new_descriptor_def Option.bind_eq_Some_conv)

lemma valid_nonempty: "is_valid_model_id i \<Longrightarrow> i \<noteq> []" "is_valid_version v \<Longrightarrow> v \<noteq> []"
  by (auto simp: is_valid_model_id_def is_valid_version_def chomp_def valid_core_def)

lemma descriptor_sound:
  assumes "validate env vp i v = Inr r" "vr_descriptor r = Some d"
  shows "vd_model_id d = i" "vd_version d = v" "is_valid_model_id i" "is_valid_version v"
    "vd_directory_path d = vp" "vd_state d = DISCOVERED"
    "vd_contract_schema_version d \<in> set SUPPORTED_SCHEMA_VERSIONS"
    "ve_is_dir env (weights_path d)" "ve_exists env (inference_path d)"
    "list_all (item_allowed vp) (ve_items env vp)"
    "\<forall>f. f \<noteq> [] \<longrightarrow> ep_preprocess (vd_entry_points d) = Some f \<or> ep_postprocess (vd_entry_points d) = Some f \<longrightarrow> ve_exists env (path_div vp f)"
proof -
  let ?p = "path_div vp ''model.yaml''" and ?r = "new_result i v"
  obtain data ws where c: "validate_contract env vp i v data ?p ?r = Inr ([], ws, Some d)"
    using assms(1) by (rule validate_cases) (use assms(2) in \<open>auto split: if_splits\<close>)
  then show "vd_model_id d = i" "vd_version d = v" "is_valid_model_id i" "is_valid_version v"
    "vd_directory_path d = vp" "vd_state d = DISCOVERED"
    "vd_contract_schema_version d \<in> set SUPPORTED_SCHEMA_VERSIONS"
    "ve_is_dir env (weights_path d)" "ve_exists env (inference_path d)"
    "list_all (item_allowed vp) (ve_items env vp)"
    "\<forall>f. f \<noteq> [] \<longrightarrow> ep_preprocess (vd_entry_points d) = Some f \<or> ep_postprocess (vd_entry_points d) = Some f \<longrightarrow> ve_exists env (path_div vp f)"
  proof (atomize (full), rule validate_contract_clean, goal_cases)
    case (1 ed)
    note b = build_descriptor_fields
    from 1 obtain s ins ous hw ph rl mc where d: "build_descriptor (ve_now env) vp data s ins ous hw ph rl mc
        (build_entry_points (parse_entry_points ed)) = Some d"
      and s: "s \<in> JStr ` set SUPPORTED_SCHEMA_VERSIONS"
      by (metis schema_clean)
    note f = files_clean [OF 1(3) b(4) [OF d]] and id = consistency_clean [OF 1(1)]
    have t: "list_all (item_allowed vp) (ve_items env vp)"
      using 1(4,5) tree_clean [of env vp "ve_items env vp"]
      by (cases "validate_no_forbidden_content env vp (ve_items env vp) ?r") auto
    show ?case
      using b [OF d] f id t s valid_nonempty
      by (auto simp: jget_default j_str_def weights_path_def inference_path_def)
  qed
qed

section \<open>A sample contract\<close>

definition sample_data :: "string \<Rightarrow> jval \<Rightarrow> (string, jval) dict" where
  "sample_data entry version =
     [(''model_id'', JStr ''fall''), (''version'', version), (''display_name'', JStr ''Fall''),
      (''contract_schema_version'', JStr ''1.0.0''),
      (''input'', JDict [(''type'', JStr ''frame''), (''format'', JStr ''jpeg''), (''min_width'', JInt 320),
         (''min_height'', JInt 240), (''channels'', JInt 3)]),
      (''output'', JDict [(''schema_version'', JStr ''1.0''), (''schema'', JDict [])]),
      (''hardware'', JDict [(''supports_cpu'', JBool True), (''supports_gpu'', JBool False),
         (''supports_jetson'', JBool False)]),
      (''performance'', JDict [(''inference_time_hint_ms'', JInt 100), (''recommended_fps'', JInt 10)]),
      (''entry_points'', JDict [(''inference'', JStr entry)])]"

definition sample_env :: "path list \<Rightarrow> (string, jval) dict \<Rightarrow> validator_env" where
  "sample_env files data =
     \<lparr>ve_now = 0, ve_order = id, ve_str = (\<lambda>v. []),
      ve_yaml = (\<lambda>p. if p = [''m'', ''model.yaml''] then Contract (JDict data) else NoContract),
      ve_exists = (\<lambda>p. p \<in> set files \<or> p = [''m'', ''weights'']),
      ve_is_dir = (\<lambda>p. p = [''m'', ''weights'']),
      ve_items = (\<lambda>p. map (\<lambda>f. \<lparr>ti_path = f, ti_is_file = True, ti_link = NotLink\<rparr>) files)\<rparr>"

definition accepted :: "py_error + ValidationResult \<Rightarrow> bool" where
  "accepted x = (case x of Inl e \<Rightarrow> False | Inr r \<Rightarrow> vr_is_valid r \<and> \<not> vr_ill_typed r)"

lemma sample_accepted:
  "accepted (validate (sample_env [[''m'', ''inference.py'']] (sample_data ''inference.py'' (JStr ''1.0.0'')))
     [''m''] ''fall'' ''1.0.0'')"
  by code_simp

text \<open>An entry point may lie outside the version directory: an absolute path replaces it, and \<open>..\<close> leaves it.\<close>

lemma entry_point_escapes:
  "accepted (validate (sample_env [[''/'', ''srv'', ''x.py'']] (sample_data ''/srv/x.py'' (JStr ''1.0.0'')))
     [''m''] ''fall'' ''1.0.0'')"
  "accepted (validate (sample_env [[''m'', ''..'', ''other'', ''x.py'']] (sample_data ''../other/x.py'' (JStr ''1.0.0'')))
     [''m''] ''fall'' ''1.0.0'')"
  by code_simp+

lemma acceptedE:
  assumes "accepted (validate env vp i v)"
  obtains r d where "validate env vp i v = Inr r" "vr_descriptor r = Some d"
proof -
  from assms obtain r where r: "validate env vp i v = Inr r" "vr_errors r = []" "\<not> vr_ill_typed r"
    by (auto simp: accepted_def vr_is_valid_def split: sum.splits)
  from r(1) obtain d where "vr_descriptor r = Some d"
    by (rule validate_cases) (use r in auto)
  with r(1) that show thesis by blast
qed

section \<open>Properties\<close>

text \<open>
  C39. A contract that gets a descriptor is the contract of its directory. The descriptor carries the identity
  the directory names spell, both well formed, its path, a supported schema version and the state
  \<open>DISCOVERED\<close>; the weights directory, the inference module and the declared preprocessing and postprocessing files
  exist (a declared loader is not looked for, and an absolute path or one with \<open>..\<close> leaves the directory); no file of the tree has one of the five extensions of scripts and
  programs, and no link of it leads to a place outside (one that cannot be resolved is only warned of). The directory
  standard also forbids shared objects outside the weights directory; the code admits them everywhere.
\<close>

theorem descriptor_matches_directory:
  assumes "validate env vp i v = Inr r" "vr_descriptor r = Some d"
  shows "vd_model_id d = i \<and> vd_version d = v \<and> is_valid_model_id i \<and> is_valid_version v \<and>
    vd_directory_path d = vp \<and> vd_state d = DISCOVERED \<and>
    vd_contract_schema_version d \<in> set SUPPORTED_SCHEMA_VERSIONS \<and>
    ve_is_dir env (path_div vp ''weights'') \<and> ve_exists env (path_div vp (ep_inference (vd_entry_points d))) \<and>
    (\<forall>f. f \<noteq> [] \<longrightarrow> ep_preprocess (vd_entry_points d) = Some f \<or> ep_postprocess (vd_entry_points d) = Some f \<longrightarrow>
       ve_exists env (path_div vp f)) \<and>
    (\<forall>x\<in>set (ve_items env vp).
       (ti_is_file x \<longrightarrow> map lower_char (path_suffix (ti_path x)) \<notin> {''.sh'', ''.bash'', ''.exe'', ''.dll'', ''.dylib''}) \<and>
       (\<forall>target. ti_link x = LinkTo target \<longrightarrow> relative_to target vp))"
proof -
  note sound = descriptor_sound [OF assms]
  have "ve_is_dir env (path_div vp ''weights'')" "ve_exists env (path_div vp (ep_inference (vd_entry_points d)))"
    using sound(5,8,9) by (simp_all add: weights_path_def inference_path_def)
  moreover have "\<forall>x\<in>set (ve_items env vp).
       (ti_is_file x \<longrightarrow> map lower_char (path_suffix (ti_path x)) \<notin> {''.sh'', ''.bash'', ''.exe'', ''.dll'', ''.dylib''}) \<and>
       (\<forall>target. ti_link x = LinkTo target \<longrightarrow> relative_to target vp)"
  proof (intro ballI conjI allI impI)
    fix x assume x: "x \<in> set (ve_items env vp)"
    then have a: "item_allowed vp x" using sound(10) by (simp add: list_all_iff)
    show "ti_is_file x \<Longrightarrow> map lower_char (path_suffix (ti_path x)) \<notin> {''.sh'', ''.bash'', ''.exe'', ''.dll'', ''.dylib''}"
      using a by (simp add: item_allowed_def forbidden_extensions_def)
    show "ti_link x = LinkTo target \<Longrightarrow> relative_to target vp" for target using a by (simp add: item_allowed_def)
  qed
  ultimately show ?thesis using sound(1-7,11) by blast
qed

theorem descriptor_matches_directory_witness:
  "\<exists>r d. validate (sample_env [[''m'', ''inference.py'']] (sample_data ''inference.py'' (JStr ''1.0.0''))) [''m''] ''fall'' ''1.0.0'' = Inr r
     \<and> vr_descriptor r = Some d \<and> vd_model_id d = ''fall'' \<and> vd_version d = ''1.0.0'' \<and> vd_directory_path d = [''m'']
     \<and> path_div [''m''] (ep_inference (vd_entry_points d)) \<in> {[''m'', ''inference.py''], [''m'', ''weights'']}"
proof -
  obtain r d where v: "validate (sample_env [[''m'', ''inference.py'']] (sample_data ''inference.py'' (JStr ''1.0.0'')))
      [''m''] ''fall'' ''1.0.0'' = Inr r" "vr_descriptor r = Some d"
    using sample_accepted by (rule acceptedE)
  note all = descriptor_matches_directory [OF v]
  then have "ve_exists (sample_env [[''m'', ''inference.py'']] (sample_data ''inference.py'' (JStr ''1.0.0'')))
      (path_div [''m''] (ep_inference (vd_entry_points d)))" by blast
  then have "path_div [''m''] (ep_inference (vd_entry_points d)) \<in> {[''m'', ''inference.py''], [''m'', ''weights'']}"
    by (simp add: sample_env_def)
  with all v show ?thesis by blast
qed

text \<open>
  When required top-level fields are missing, the result holds exactly one error for each of them and no
  descriptor, whatever the order in which the set of missing names is iterated.
\<close>

theorem missing_fields_reported:
  assumes "ve_yaml env (path_div vp ''model.yaml'') = Contract (JDict data)"
    "\<forall>xs. mset (ve_order env xs) = mset xs"
    "filter (\<lambda>f. dget data f = None) REQUIRED_FIELDS \<noteq> []"
  shows "\<exists>r. validate env vp i v = Inr r \<and> vr_descriptor r = None \<and>
    (\<forall>e\<in>set (vr_errors r). err_code e = VAL_MISSING_REQUIRED_FIELD) \<and>
    mset (map (\<lambda>e. ctx_field_name (err_context e)) (vr_errors r)) =
      mset (map Some (filter (\<lambda>f. dget data f = None) REQUIRED_FIELDS))"
proof -
  let ?p = "path_div vp ''model.yaml''" and ?r = "new_result i v"
  let ?e = "validate_required_fields env data ?p ?r"
  let ?m = "filter (\<lambda>f. dget data f = None) REQUIRED_FIELDS"
  have m: "mset (map (\<lambda>e. ctx_field_name (err_context e)) ?e) = mset (map Some ?m)"
    using assms(2) by (simp add: validate_required_fields_def missing_errors_def o_def)
  then have "?e \<noteq> []" using assms(3) by auto
  then have "validate env vp i v = Inr (add_errors ?e ?r)"
    using assms(1) by (simp add: validate_def parse_yaml_def Let_def)
  moreover have "\<forall>e\<in>set ?e. err_code e = VAL_MISSING_REQUIRED_FIELD"
    by (auto simp: validate_required_fields_def missing_errors_def)
  ultimately show ?thesis using m by auto
qed

theorem missing_fields_reported_witness:
  "\<exists>r. validate (sample_env [] [(''model_id'', JStr ''fall'')]) [''m''] ''fall'' ''1.0.0'' = Inr r \<and>
     vr_descriptor r = None"
  using missing_fields_reported [where env = "sample_env [] [(''model_id'', JStr ''fall'')]" and vp = "[''m'']"
      and data = "[(''model_id'', JStr ''fall'')]" and i = "''fall''" and v = "''1.0.0''"]
  by (auto simp: sample_env_def path_div_def REQUIRED_FIELDS_def)

text \<open>
  A \<open>model_id\<close> or a \<open>version\<close> that YAML does not read as a string (a version written \<open>1.0\<close> is a float)
  raises \<open>TypeError\<close> out of \<open>validate\<close>: no result is returned and nothing else is reported.
\<close>

theorem untyped_identity_raises:
  assumes "ve_yaml env (path_div vp ''model.yaml'') = Contract (JDict data)"
    "\<forall>xs. mset (ve_order env xs) = mset xs"
    "\<forall>f\<in>set REQUIRED_FIELDS. dget data f \<noteq> None"
    "(\<forall>s. dget data ''model_id'' \<noteq> Some (JStr s)) \<or> (\<forall>s. dget data ''version'' \<noteq> Some (JStr s))"
  shows "\<exists>m. validate env vp i v = Inl (TypeError m)"
proof -
  let ?p = "path_div vp ''model.yaml''" and ?r = "new_result i v"
  have none: "filter (\<lambda>f. dget data f = None) REQUIRED_FIELDS = []"
    using assms(3) by (auto simp: filter_empty_conv)
  have "mset (ve_order env []) = {#}" using assms(2) by simp
  then have "validate_required_fields env data ?p ?r = []"
    using none by (simp add: validate_required_fields_def missing_errors_def)
  moreover obtain a b where ab: "dget data ''model_id'' = Some a" "dget data ''version'' = Some b"
    using assms(3) by (auto simp: REQUIRED_FIELDS_def)
  have "\<exists>m. validate_consistency env data i v ?p ?r = Inl (TypeError m)"
    using assms(4) ab unfolding validate_consistency_def Let_def
    by (cases a; cases b) (simp_all add: jget_def matches_def)
  ultimately show ?thesis
    using assms(1) by (auto simp: validate_def parse_yaml_def validate_contract_def Let_def)
qed

theorem untyped_identity_raises_witness:
  "\<exists>m. validate (sample_env [] (sample_data ''inference.py'' (JReal 1))) [''m''] ''fall'' ''1.0'' = Inl (TypeError m)"
  by (rule untyped_identity_raises [where data = "sample_data ''inference.py'' (JReal 1)"])
    (simp_all add: sample_env_def path_div_def sample_data_def REQUIRED_FIELDS_def)

subsection \<open>The values inside a section are not looked at\<close>

text \<open>The errors and the warnings of a result, without the descriptor.\<close>

definition reports :: "py_error + ValidationResult \<Rightarrow> py_error + (ModelError list \<times> string list)" where
  "reports x = map_sum id (\<lambda>r. (vr_errors r, vr_warnings r)) x"

lemma map_sum_bind: "map_sum id h (sum_bind a f) = sum_bind a (\<lambda>y. map_sum id h (f y))"
  by (cases a) simp_all

lemma bind_map_sum: "sum_bind (map_sum id h a) f = sum_bind a (\<lambda>y. f (h y))"
  by (cases a) simp_all

lemma missing_errors_cong:
  "(\<And>f. (dget d' f = None) = (dget d f = None)) \<Longrightarrow> missing_errors env pre req d' p r = missing_errors env pre req d p r"
  by (simp add: missing_errors_def)

lemma input_value_unchecked:
  assumes "dget d k = Some y" "k \<notin> {''type'', ''format'', ''batch'', ''temporal''}"
  shows "\<exists>g. parse_input_spec env (dput k x d) p r =
     map_sum id (\<lambda>(es, ws, t, s). (es, ws, t, g)) (parse_input_spec env d p r)"
proof -
  have m: "missing_errors env ''input.'' REQUIRED_INPUT_FIELDS (dput k x d) p r =
      missing_errors env ''input.'' REQUIRED_INPUT_FIELDS d p r"
    using assms(1) by (intro missing_errors_cong) auto
  have g: "jget (dput k x d) f v = jget d f v" if "f \<in> {''type'', ''format'', ''batch'', ''temporal''}" for f v
    using that assms(2) by (auto simp: jget_def)
  show ?thesis
    unfolding parse_input_spec_def Let_def m
    by (simp add: g submapping_def map_sum_bind sum_bind_def split: sum.splits prod.splits option.splits)
qed

text \<open>\<open>env\<close> with another contract in the file.\<close>

definition with_contract :: "validator_env \<Rightarrow> path \<Rightarrow> (string, jval) dict \<Rightarrow> validator_env" where
  "with_contract env vp data =
     env\<lparr>ve_yaml := (ve_yaml env)(path_div vp ''model.yaml'' := Contract (JDict data))\<rparr>"

text \<open>Only stage 1 reads the file.\<close>

lemma with_yaml_fields:
  "ve_now (env\<lparr>ve_yaml := f\<rparr>) = ve_now env" "ve_order (env\<lparr>ve_yaml := f\<rparr>) = ve_order env"
  "ve_str (env\<lparr>ve_yaml := f\<rparr>) = ve_str env" "ve_exists (env\<lparr>ve_yaml := f\<rparr>) = ve_exists env"
  "ve_is_dir (env\<lparr>ve_yaml := f\<rparr>) = ve_is_dir env" "ve_items (env\<lparr>ve_yaml := f\<rparr>) = ve_items env"
  by simp_all

lemma yaml_irrelevant_text [simp]:
  "j_text (env\<lparr>ve_yaml := f\<rparr>) = j_text env" "actual_text (env\<lparr>ve_yaml := f\<rparr>) = actual_text env"
  "missing_errors (env\<lparr>ve_yaml := f\<rparr>) = missing_errors env"
  unfolding fun_eq_iff j_text_def actual_text_def missing_errors_def with_yaml_fields
  by simp_all

lemma yaml_irrelevant_parse [simp]:
  "parse_input_spec (env\<lparr>ve_yaml := f\<rparr>) = parse_input_spec env"
  "parse_output_spec (env\<lparr>ve_yaml := f\<rparr>) = parse_output_spec env"
  "parse_hardware (env\<lparr>ve_yaml := f\<rparr>) = parse_hardware env"
  "parse_performance (env\<lparr>ve_yaml := f\<rparr>) = parse_performance env"
  unfolding fun_eq_iff parse_input_spec_def parse_output_spec_def parse_hardware_def parse_performance_def
    with_yaml_fields yaml_irrelevant_text
  by simp_all

lemma yaml_irrelevant_identity [simp]: "identity_error (env\<lparr>ve_yaml := f\<rparr>) = identity_error env"
  unfolding fun_eq_iff identity_error_def with_yaml_fields yaml_irrelevant_text by simp

lemma yaml_irrelevant_stages [simp]:
  "validate_required_fields (env\<lparr>ve_yaml := f\<rparr>) = validate_required_fields env"
  "validate_consistency (env\<lparr>ve_yaml := f\<rparr>) = validate_consistency env"
  "validate_schema_version (env\<lparr>ve_yaml := f\<rparr>) = validate_schema_version env"
  "conditional_error (env\<lparr>ve_yaml := f\<rparr>) = conditional_error env"
  "validate_file (env\<lparr>ve_yaml := f\<rparr>) = validate_file env"
  "check_file_type (env\<lparr>ve_yaml := f\<rparr>) = check_file_type env"
  "check_link (env\<lparr>ve_yaml := f\<rparr>) = check_link env"
  unfolding fun_eq_iff validate_required_fields_def validate_consistency_def validate_schema_version_def
    conditional_error_def validate_file_def file_error_def check_file_type_def check_link_def
    with_yaml_fields yaml_irrelevant_text yaml_irrelevant_identity
  by simp_all

lemma yaml_irrelevant_files [simp]:
  "validate_conditional_requirements (env\<lparr>ve_yaml := f\<rparr>) = validate_conditional_requirements env"
  "validate_required_files (env\<lparr>ve_yaml := f\<rparr>) = validate_required_files env"
  unfolding fun_eq_iff validate_conditional_requirements_def validate_required_files_def
    validate_optional_file_def file_error_def with_yaml_fields yaml_irrelevant_text yaml_irrelevant_stages
  by simp_all

lemma yaml_irrelevant_tree [simp]:
  "validate_no_forbidden_content (env\<lparr>ve_yaml := f\<rparr>) vp items r = validate_no_forbidden_content env vp items r"
  by (induction items) simp_all

lemma yaml_irrelevant_contract [simp]:
  "validate_contract (env\<lparr>ve_yaml := f\<rparr>) = validate_contract env"
  by (simp add: fun_eq_iff validate_contract_def)

text \<open>What a contract reports, without the descriptor.\<close>

definition contract_reports :: "ModelVersionDescriptor option parsed \<Rightarrow> py_error + (ModelError list \<times> string list)" where
  "contract_reports x = map_sum id (\<lambda>(es, ws, d). (es, ws)) x"

lemma contract_value_unchecked:
  assumes "dget data ''input'' = Some (JDict ind)" "dget ind k = Some y"
    "k \<notin> {''type'', ''format'', ''batch'', ''temporal''}"
  shows "contract_reports (validate_contract env vp i v (dput ''input'' (JDict (dput k x ind)) data) p r) =
    contract_reports (validate_contract env vp i v data p r)"
proof -
  let ?data = "dput ''input'' (JDict (dput k x ind)) data" and ?ind = "dput k x ind"
  obtain g where g: "parse_input_spec env ?ind p r =
      map_sum id (\<lambda>(es, ws, t, s). (es, ws, t, g)) (parse_input_spec env ind p r)"
    using input_value_unchecked [OF assms(2,3)] by blast
  have j: "jget ?data f d = jget data f d" if "f \<noteq> ''input''" for f d
    using that by (simp add: jget_def)
  have c: "validate_consistency env ?data i v p r = validate_consistency env data i v p r"
    by (simp add: validate_consistency_def j)
  have q: "validate_conditional_requirements env ?ind t p r = validate_conditional_requirements env ind t p r" for t
    using assms(2) by (cases t) (auto simp: validate_conditional_requirements_def conditional_error_def)
  have i: "contract_section ?data ''input'' = Inr ?ind" "contract_section data ''input'' = Inr ind"
    using assms(1) by (simp_all add: contract_section_def jget_def as_mapping_def)
  have o: "contract_section ?data f = contract_section data f" "submapping ?data f = submapping data f"
    if "f \<noteq> ''input''" for f using that by (simp_all add: contract_section_def submapping_def j)
  show ?thesis
    unfolding contract_reports_def validate_contract_def Let_def
    by (simp add: c j i o g q map_sum_bind bind_map_sum case_prod_unfold)
qed

lemma reports_validate:
  assumes "\<And>f. (dget data' f = None) = (dget data f = None)"
    "\<And>p r. contract_reports (validate_contract env vp i v data' p r) = contract_reports (validate_contract env vp i v data p r)"
  shows "reports (validate (with_contract env vp data') vp i v) = reports (validate (with_contract env vp data) vp i v)"
proof -
  let ?p = "path_div vp ''model.yaml''" and ?r = "new_result i v"
  have m: "validate_required_fields env data' ?p ?r = validate_required_fields env data ?p ?r"
    unfolding validate_required_fields_def by (rule missing_errors_cong) (rule assms(1))
  have y: "validate (with_contract env vp d) vp i v =
      (if validate_required_fields env d ?p ?r \<noteq> [] then Inr (add_errors (validate_required_fields env d ?p ?r) ?r)
       else sum_bind (validate_contract env vp i v d ?p ?r) (\<lambda>(es, ws, c).
         Inr ((add_warnings ws (add_errors es ?r))
           \<lparr>vr_descriptor := (if es = [] then c else None), vr_ill_typed := (es = [] \<and> c = None)\<rparr>)))" for d
    by (simp add: validate_def with_contract_def parse_yaml_def Let_def)
  have f: "reports (sum_bind x (\<lambda>(es, ws, c). Inr ((add_warnings ws (add_errors es ?r))
       \<lparr>vr_descriptor := (if es = [] then c else None), vr_ill_typed := (es = [] \<and> c = None)\<rparr>))) = contract_reports x" for x
    by (cases x) (auto simp: reports_def contract_reports_def add_errors_def add_warnings_def split: prod.splits)
  show ?thesis by (simp add: y m f assms(2))
qed

text \<open>
  A value of the input section other than its type, format, batch and temporal settings is never looked
  at: whatever stands there, of any type and size, the validation raises, reports and warns the same.
\<close>

theorem input_values_unchecked:
  assumes "dget data ''input'' = Some (JDict ind)" "dget ind k = Some y"
    "k \<notin> {''type'', ''format'', ''batch'', ''temporal''}"
  shows "reports (validate (with_contract env vp (dput ''input'' (JDict (dput k x ind)) data)) vp i v) =
    reports (validate (with_contract env vp data) vp i v)"
  by (rule reports_validate) (use assms(1) contract_value_unchecked [OF assms] in auto)

theorem input_values_unchecked_witness:
  "reports (validate (with_contract (sample_env [] []) [''m'']
       (dput ''input'' (JDict [(''min_width'', JStr ''wide'')]) [(''input'', JDict [(''min_width'', JInt 320)])]))
     [''m''] ''fall'' ''1.0.0'') =
   reports (validate (with_contract (sample_env [] []) [''m''] [(''input'', JDict [(''min_width'', JInt 320)])])
     [''m''] ''fall'' ''1.0.0'')"
  using input_values_unchecked [where data = "[(''input'', JDict [(''min_width'', JInt 320)])]"
      and ind = "[(''min_width'', JInt 320)]" and k = "''min_width''" and y = "JInt 320" and x = "JStr ''wide''"
      and env = "sample_env [] []" and vp = "[''m'']" and i = "''fall''" and v = "''1.0.0''"]
  by simp

end
