(* ===== verification/Discovery.thy ===== *)
theory Discovery
  imports Validator Registry
begin

text \<open>
  \<open>ai/runtime/discovery.py\<close>: the scan of the models directory, its registration into the registry, and
  the polling watcher. Directory listings are parameters; the validator is an argument, used through
  the contract stated in the locale \<open>contract_validator\<close>. A left result is an exception that leaves
  the scan.
\<close>

section \<open>The directory tree\<close>

text \<open>What \<open>is_dir()\<close> says of an entry; \<open>Unreadable\<close> is its \<open>PermissionError\<close>.\<close>

datatype entry_kind = Directory | NotDirectory | Unreadable

record dir_entry =
  en_name :: string
  en_kind :: entry_kind
  en_link :: link

text \<open>
  \<open>sc_list p\<close> is the listing of a directory, \<open>None\<close> when permission is denied. \<open>sc_root_resolved\<close> and
  \<open>sc_allowed\<close> are the resolved root and allowed roots. \<open>sc_stamp p\<close> is the time at which the objects for
  \<open>p\<close> are created.
\<close>

record scanner =
  sc_root :: path
  sc_root_resolved :: path
  sc_root_exists :: bool
  sc_root_is_dir :: bool
  sc_list :: "path \<Rightarrow> dir_entry list option"
  sc_follow_symlinks :: bool
  sc_allowed :: "path list"
  sc_started :: real
  sc_completed :: real
  sc_stamp :: "path \<Rightarrow> real"

type_synonym validator = "path \<Rightarrow> string \<Rightarrow> string \<Rightarrow> py_error + ValidationResult"

record DiscoveryResult =
  dr_models_found :: int
  dr_versions_found :: int
  dr_versions_valid :: int
  dr_versions_invalid :: int
  dr_models :: "ModelDescriptor list"
  dr_versions :: "ModelVersionDescriptor list"
  dr_errors :: "ModelError list"
  dr_duration_ms :: int

definition new_discovery :: DiscoveryResult where
  "new_discovery = \<lparr>dr_models_found = 0, dr_versions_found = 0, dr_versions_valid = 0, dr_versions_invalid = 0,
     dr_models = [], dr_versions = [], dr_errors = [], dr_duration_ms = 0\<rparr>"

definition discovery_to_dict :: "DiscoveryResult \<Rightarrow> (string, jval) dict" where
  "discovery_to_dict r =
     [(''models_found'', JInt (dr_models_found r)), (''versions_found'', JInt (dr_versions_found r)),
      (''versions_valid'', JInt (dr_versions_valid r)), (''versions_invalid'', JInt (dr_versions_invalid r)),
      (''error_count'', JInt (int (length (dr_errors r)))), (''duration_ms'', JInt (dr_duration_ms r))]"

definition add_error :: "ModelError \<Rightarrow> DiscoveryResult \<Rightarrow> DiscoveryResult" where
  "add_error e r = r\<lparr>dr_errors := dr_errors r @ [e]\<rparr>"

text \<open>\<open>int(seconds * 1000)\<close> truncates towards zero.\<close>

definition finish_scan :: "scanner \<Rightarrow> DiscoveryResult \<Rightarrow> DiscoveryResult" where
  "finish_scan sc r =
     (let ms = (sc_completed sc - sc_started sc) * 1000
      in r\<lparr>dr_duration_ms := (if ms < 0 then \<lceil>ms\<rceil> else \<lfloor>ms\<rfloor>)\<rparr>)"

section \<open>The directories that are visited\<close>

definition is_valid_symlink :: "scanner \<Rightarrow> link \<Rightarrow> bool" where
  "is_valid_symlink sc l =
     (case l of
        LinkTo target \<Rightarrow>
          list_ex (relative_to target) (if sc_allowed sc = [] then [sc_root_resolved sc] else sc_allowed sc)
      | _ \<Rightarrow> False)"

definition model_skip :: "string list" where
  "model_skip = [''__pycache__'', ''node_modules'', ''.git'']"

definition version_skip :: "string list" where
  "version_skip = [''__pycache__'', ''common'', ''shared'']"

definition follows :: "scanner \<Rightarrow> dir_entry \<Rightarrow> bool" where
  "follows sc e = (en_link e = NotLink \<or> (sc_follow_symlinks sc \<and> is_valid_symlink sc (en_link e)))"

definition is_hidden :: "string \<Rightarrow> bool" where
  "is_hidden name \<longleftrightarrow> name \<noteq> [] \<and> hd name = CHR ''.''"

text \<open>The loop both iterators share; an unreadable entry ends it.\<close>

fun iter_entries :: "scanner \<Rightarrow> string list \<Rightarrow> dir_entry list \<Rightarrow> dir_entry list" where
  "iter_entries sc skip [] = []"
| "iter_entries sc skip (e # es) =
     (case en_kind e of
        Unreadable \<Rightarrow> []
      | NotDirectory \<Rightarrow> iter_entries sc skip es
      | Directory \<Rightarrow>
          if is_hidden (en_name e) then iter_entries sc skip es
          else if en_name e \<in> set skip then iter_entries sc skip es
          else if \<not> follows sc e then iter_entries sc skip es
          else e # iter_entries sc skip es)"

definition iter_dirs :: "scanner \<Rightarrow> string list \<Rightarrow> path \<Rightarrow> dir_entry list" where
  "iter_dirs sc skip p =
     (case sc_list sc p of None \<Rightarrow> [] | Some es \<Rightarrow> iter_entries sc skip (sort_key en_name es))"

definition iter_model_dirs :: "scanner \<Rightarrow> dir_entry list" where
  "iter_model_dirs sc = iter_dirs sc model_skip (sc_root sc)"

definition iter_version_dirs :: "scanner \<Rightarrow> path \<Rightarrow> dir_entry list" where
  "iter_version_dirs sc model_path = iter_dirs sc version_skip model_path"

definition validate_root :: "scanner \<Rightarrow> ModelError option" where
  "validate_root sc =
     (let p = path_str (sc_root sc); now = sc_started sc
      in if \<not> sc_root_exists sc then
           Some (discovery_error now DISC_ROOT_NOT_FOUND (''Models root directory not found: '' @ p) None None (Some p) None [])
         else if \<not> sc_root_is_dir sc then
           Some (discovery_error now DISC_ROOT_NOT_DIRECTORY (''Models root is not a directory: '' @ p) None None (Some p) None [])
         else if sc_list sc (sc_root sc) = None then
           Some (discovery_error now DISC_PERMISSION_DENIED (''Permission denied reading models root: '' @ p) None None (Some p)
             (Some ''PermissionError'') [])
         else None)"

section \<open>The scan\<close>

definition invalid_descriptor :: "real \<Rightarrow> string \<Rightarrow> string \<Rightarrow> path \<Rightarrow> ModelError list \<Rightarrow> ModelVersionDescriptor" where
  "invalid_descriptor now model_id version version_path errors =
     (new_descriptor now model_id version (model_id @ '' (invalid)''))
       \<lparr>vd_directory_path := version_path, vd_state := INVALID,
        vd_last_error := Some (py_join ''; '' (map err_message (take 3 errors))),
        vd_last_error_code := (case errors of [] \<Rightarrow> None | e # _ \<Rightarrow> Some (error_value (err_code e)))\<rparr>"

text \<open>One version directory; the flag says whether the model has had a version.\<close>

definition scan_version ::
  "validator \<Rightarrow> scanner \<Rightarrow> string \<Rightarrow> path \<Rightarrow> dir_entry \<Rightarrow> ModelDescriptor \<times> bool \<times> DiscoveryResult \<Rightarrow>
   py_error + (ModelDescriptor \<times> bool \<times> DiscoveryResult)" where
  "scan_version val sc model_id model_path entry st =
     (let (model, found, r) = st;
          version = en_name entry;
          version_path = model_path @ [version];
          now = sc_stamp sc version_path
      in if \<not> is_valid_version version then
           Inr (model, found, add_error (discovery_error now DISC_INVALID_VERSION (''Invalid version format: '' @ version)
             (Some model_id) (Some version) (Some (path_str version_path)) None []) r)
         else
           (let r1 = r\<lparr>dr_versions_found := dr_versions_found r + 1\<rparr>
            in sum_bind (val version_path model_id version) (\<lambda>validation.
                 if vr_is_valid validation then
                   (case vr_descriptor validation of
                      None \<Rightarrow> Inr (model, True, r1)
                    | Some d \<Rightarrow> Inr (add_version d model, True,
                        r1\<lparr>dr_versions := dr_versions r1 @ [d], dr_versions_valid := dr_versions_valid r1 + 1\<rparr>))
                 else
                   (let d = invalid_descriptor now model_id version version_path (vr_errors validation)
                    in Inr (add_version d model, True,
                         r1\<lparr>dr_versions := dr_versions r1 @ [d], dr_versions_invalid := dr_versions_invalid r1 + 1\<rparr>)))))"

fun scan_versions ::
  "validator \<Rightarrow> scanner \<Rightarrow> string \<Rightarrow> path \<Rightarrow> dir_entry list \<Rightarrow> ModelDescriptor \<times> bool \<times> DiscoveryResult \<Rightarrow>
   py_error + (ModelDescriptor \<times> bool \<times> DiscoveryResult)" where
  "scan_versions val sc model_id model_path [] st = Inr st"
| "scan_versions val sc model_id model_path (e # es) st =
     sum_bind (scan_version val sc model_id model_path e st) (scan_versions val sc model_id model_path es)"

definition new_model :: "real \<Rightarrow> string \<Rightarrow> path \<Rightarrow> ModelDescriptor" where
  "new_model now model_id p =
     \<lparr>md_model_id = model_id, md_directory_path = p, md_versions = [], md_discovered_at = now\<rparr>"

definition scan_model :: "validator \<Rightarrow> scanner \<Rightarrow> dir_entry \<Rightarrow> DiscoveryResult \<Rightarrow> py_error + DiscoveryResult" where
  "scan_model val sc entry r =
     (let model_id = en_name entry;
          model_path = sc_root sc @ [model_id];
          now = sc_stamp sc model_path
      in if \<not> is_valid_model_id model_id then
           Inr (add_error (discovery_error now DISC_INVALID_MODEL_ID (''Invalid model_id: '' @ model_id) (Some model_id) None
             (Some (path_str model_path)) None []) r)
         else
           sum_bind (scan_versions val sc model_id model_path (iter_version_dirs sc model_path)
               (new_model now model_id model_path, False, r\<lparr>dr_models_found := dr_models_found r + 1\<rparr>))
             (\<lambda>(model, found, r1).
               let r2 = (if found then r1 else
                     add_error (discovery_error now DISC_NO_VERSIONS
                       (''No valid version directories found for model: '' @ model_id) (Some model_id) None
                       (Some (path_str model_path)) None []) r1)
               in Inr (r2\<lparr>dr_models := dr_models r2 @ [model]\<rparr>)))"

fun scan_models :: "validator \<Rightarrow> scanner \<Rightarrow> dir_entry list \<Rightarrow> DiscoveryResult \<Rightarrow> py_error + DiscoveryResult" where
  "scan_models val sc [] r = Inr r"
| "scan_models val sc (e # es) r = sum_bind (scan_model val sc e r) (scan_models val sc es)"

definition scan :: "validator \<Rightarrow> scanner \<Rightarrow> py_error + DiscoveryResult" where
  "scan val sc =
     (case validate_root sc of
        Some e \<Rightarrow> Inr (finish_scan sc (add_error e new_discovery))
      | None \<Rightarrow> map_sum id (finish_scan sc) (scan_models val sc (iter_model_dirs sc) new_discovery))"

definition register_models :: "(path \<Rightarrow> real) \<Rightarrow> ModelDescriptor list \<Rightarrow> ModelRegistry \<Rightarrow> ModelRegistry" where
  "register_models utc ms rg = fold (\<lambda>m. reg_register_model (utc (md_directory_path m)) m) ms rg"

definition scan_into_registry ::
  "validator \<Rightarrow> scanner \<Rightarrow> (path \<Rightarrow> real) \<Rightarrow> ModelRegistry \<Rightarrow> py_error + (DiscoveryResult \<times> ModelRegistry)" where
  "scan_into_registry val sc utc rg =
     sum_bind (scan val sc) (\<lambda>r. Inr (r, register_models utc (dr_models r) rg))"

section \<open>The watcher\<close>

text \<open>
  \<open>_check_for_changes\<close>: the registry afterwards, and the exception of a removed version whose
  qualified id does not split into two parts.
\<close>

definition new_versions :: "DiscoveryResult \<Rightarrow> ModelRegistry \<Rightarrow> ModelVersionDescriptor list" where
  "new_versions r rg =
     filter (\<lambda>d. qualified_id d \<notin> qualified_id ` set (get_all_versions rg)) (dr_versions r)"

definition removed_versions :: "DiscoveryResult \<Rightarrow> ModelRegistry \<Rightarrow> string list" where
  "removed_versions r rg =
     filter (\<lambda>q. q \<notin> qualified_id ` set (dr_versions r)) (remdups (map qualified_id (get_all_versions rg)))"

definition check_for_changes ::
  "validator \<Rightarrow> scanner \<Rightarrow> (path \<Rightarrow> nat \<Rightarrow> real) \<Rightarrow> ModelRegistry \<Rightarrow> ModelRegistry \<times> py_error option" where
  "check_for_changes val sc utc rg =
     (case scan val sc of
        Inl e \<Rightarrow> (rg, Some e)
      | Inr r \<Rightarrow>
          (fold (\<lambda>d. register_version (utc (vd_directory_path d)) d) (new_versions r rg) rg,
           if list_all (\<lambda>q. length (py_split CHR '':'' q) = 2) (removed_versions r rg) then None
           else Some (ValueError ''unpack'')))"

text \<open>
  The watcher: its flag and the number of threads in \<open>_watch_loop\<close>, each asleep between two
  iterations. \<open>wake\<close> is what one thread does when its sleep ends; an exception is logged.
\<close>

record watcher =
  wt_running :: bool
  wt_threads :: nat

definition watch_start :: "watcher \<Rightarrow> watcher" where
  "watch_start w = (if wt_running w then w else w\<lparr>wt_running := True, wt_threads := Suc (wt_threads w)\<rparr>)"

definition watch_stop :: "watcher \<Rightarrow> watcher" where
  "watch_stop w = w\<lparr>wt_running := False\<rparr>"

definition watch_wake ::
  "validator \<Rightarrow> scanner \<Rightarrow> (path \<Rightarrow> nat \<Rightarrow> real) \<Rightarrow> watcher \<times> ModelRegistry \<Rightarrow> watcher \<times> ModelRegistry" where
  "watch_wake val sc utc s =
     (let (w, rg) = s
      in if wt_threads w = 0 then s
         else if wt_running w then (w, fst (check_for_changes val sc utc rg))
         else (w\<lparr>wt_threads := wt_threads w - 1\<rparr>, rg))"

section \<open>The directories that are visited\<close>

text \<open>An entry the scan enters: a directory, not hidden, and not a link unless links are followed and it stays inside.\<close>

definition entered :: "scanner \<Rightarrow> dir_entry \<Rightarrow> bool" where
  "entered sc e \<longleftrightarrow> en_kind e = Directory \<and> \<not> is_hidden (en_name e) \<and>
     (en_link e \<noteq> NotLink \<longrightarrow> sc_follow_symlinks sc \<and>
        (\<exists>target root. en_link e = LinkTo target \<and>
           root \<in> set (if sc_allowed sc = [] then [sc_root_resolved sc] else sc_allowed sc) \<and>
           relative_to target root))"

lemma iter_entries_entered: "e \<in> set (iter_entries sc skip es) \<Longrightarrow> entered sc e \<and> e \<in> set es"
proof (induction es)
  case Nil
  then show ?case by simp
next
  case (Cons x es)
  then show ?case
    by (auto simp: entered_def follows_def is_valid_symlink_def list_ex_iff
        split: entry_kind.splits link.splits if_splits)
qed

lemma iter_dirs_entered:
  "e \<in> set (iter_dirs sc skip p) \<Longrightarrow> entered sc e \<and> (\<exists>es. sc_list sc p = Some es \<and> e \<in> set es)"
  by (cases "sc_list sc p") (auto simp: iter_dirs_def dest!: iter_entries_entered)

section \<open>What the scan finds\<close>

text \<open>
  The contract of a validator: a descriptor is handed out only for a valid contract, and it has the
  identity that was asked for.
\<close>

locale contract_validator =
  fixes val :: "path \<Rightarrow> string \<Rightarrow> string \<Rightarrow> py_error + ValidationResult"
  assumes descriptor_identity:
      "val vp i v = Inr r \<Longrightarrow> vr_descriptor r = Some d \<Longrightarrow> vd_model_id d = i \<and> vd_version d = v"
    and descriptor_state: "val vp i v = Inr r \<Longrightarrow> vr_descriptor r = Some d \<Longrightarrow> vd_state d = DISCOVERED"

text \<open>The counts of a result and the identities of its descriptors.\<close>

definition version_wf :: "ModelVersionDescriptor \<Rightarrow> bool" where
  "version_wf d \<longleftrightarrow> is_valid_model_id (vd_model_id d) \<and> is_valid_version (vd_version d) \<and>
     vd_state d \<in> {DISCOVERED, INVALID}"

definition found_model :: "DiscoveryResult \<Rightarrow> ModelDescriptor \<Rightarrow> bool" where
  "found_model r m \<longleftrightarrow> model_wf m \<and> is_valid_model_id (md_model_id m) \<and>
     (\<forall>v d. dget (md_versions m) v = Some d \<longrightarrow> d \<in> set (dr_versions r))"

definition counts_wf :: "DiscoveryResult \<Rightarrow> bool" where
  "counts_wf r \<longleftrightarrow>
     int (length (filter (\<lambda>d. vd_state d = DISCOVERED) (dr_versions r))) = dr_versions_valid r \<and>
     int (length (filter (\<lambda>d. vd_state d = INVALID) (dr_versions r))) = dr_versions_invalid r \<and>
     dr_versions_valid r + dr_versions_invalid r \<le> dr_versions_found r \<and>
     list_all version_wf (dr_versions r)"

definition discovery_wf :: "DiscoveryResult \<Rightarrow> bool" where
  "discovery_wf r \<longleftrightarrow> counts_wf r \<and> dr_models_found r = int (length (dr_models r)) \<and>
     list_all (found_model r) (dr_models r)"

lemma found_model_mono: "found_model r m \<Longrightarrow> set (dr_versions r) \<subseteq> set (dr_versions r') \<Longrightarrow> found_model r' m"
  by (auto simp: found_model_def)

lemma invalid_descriptor_simps [simp]:
  "vd_model_id (invalid_descriptor now i v p es) = i" "vd_version (invalid_descriptor now i v p es) = v"
  "vd_state (invalid_descriptor now i v p es) = INVALID"
  by (simp_all add: invalid_descriptor_def new_descriptor_def)

lemma found_model_add:
  assumes "found_model r m" "vd_model_id d = md_model_id m"
  shows "found_model (r\<lparr>dr_versions := dr_versions r @ [d], dr_versions_valid := a, dr_versions_invalid := b\<rparr>)
    (add_version d m)"
  using assms by (auto simp: found_model_def model_wf_def add_version_def)

lemma add_error_simps [simp]:
  "dr_versions (add_error e r) = dr_versions r" "dr_models (add_error e r) = dr_models r"
  "dr_models_found (add_error e r) = dr_models_found r" "counts_wf (add_error e r) = counts_wf r"
  "found_model (add_error e r) m = found_model r m" "discovery_wf (add_error e r) = discovery_wf r"
  by (simp_all add: add_error_def counts_wf_def found_model_def discovery_wf_def list_all_iff)

lemma models_update_simps [simp]:
  "counts_wf (r\<lparr>dr_models := ms\<rparr>) = counts_wf r" "found_model (r\<lparr>dr_models := ms\<rparr>) m = found_model r m"
  by (simp_all add: counts_wf_def found_model_def)

lemma finish_scan_simps [simp]:
  "dr_versions (finish_scan sc r) = dr_versions r" "dr_models (finish_scan sc r) = dr_models r"
  "discovery_wf (finish_scan sc r) = discovery_wf r"
  by (simp_all add: finish_scan_def Let_def counts_wf_def found_model_def discovery_wf_def list_all_iff)

text \<open>What a scan of the versions of one model keeps, the models found before being \<open>ms\<close>.\<close>

definition scanning :: "string \<Rightarrow> ModelDescriptor list \<Rightarrow> int \<Rightarrow> ModelDescriptor \<times> bool \<times> DiscoveryResult \<Rightarrow> bool" where
  "scanning i ms n st \<longleftrightarrow>
     (case st of (m, found, r) \<Rightarrow> md_model_id m = i \<and> is_valid_model_id i \<and> found_model r m \<and> counts_wf r \<and>
        dr_models r = ms \<and> dr_models_found r = n \<and> list_all (found_model r) ms)"

context contract_validator
begin

lemma scan_version_inv:
  assumes "scanning i ms n st" "scan_version val sc i p e st = Inr st'"
  shows "scanning i ms n st'"
proof -
  obtain m fd r where st: "st = (m, fd, r)" by (cases st) auto
  show ?thesis
  proof (cases "is_valid_version (en_name e)")
    case False
    with assms st show ?thesis
      by (auto simp: scan_version_def scanning_def Let_def list_all_iff)
  next
    case True
    define r1 where "r1 = r\<lparr>dr_versions_found := dr_versions_found r + 1\<rparr>"
    have r1: "counts_wf r1" "\<And>m. found_model r1 m = found_model r m" "dr_versions r1 = dr_versions r"
      "dr_models r1 = dr_models r" "dr_models_found r1 = dr_models_found r"
      using assms(1) by (auto simp: r1_def st scanning_def counts_wf_def found_model_def)
    from assms(2) True obtain x where x: "val (p @ [en_name e]) i (en_name e) = Inr x"
      by (auto simp: st scan_version_def Let_def sum_bind_Inr_iff)
    define d where "d = (if vr_is_valid x then the (vr_descriptor x)
      else invalid_descriptor (sc_stamp sc (p @ [en_name e])) i (en_name e) (p @ [en_name e]) (vr_errors x))"
    show ?thesis
    proof (cases "vr_is_valid x \<and> vr_descriptor x = None")
      case True
      with assms x \<open>is_valid_version (en_name e)\<close> r1 show ?thesis
        by (auto simp: st scan_version_def scanning_def Let_def list_all_iff r1_def [symmetric])
    next
      case False
      have d: "vd_model_id d = i \<and> vd_version d = en_name e \<and>
          vd_state d = (if vr_is_valid x then DISCOVERED else INVALID)"
        using False descriptor_identity [OF x] descriptor_state [OF x] by (auto simp: d_def)
      have v: "version_wf d" using d True assms(1) by (simp add: version_wf_def scanning_def st)
      let ?r2 = "r1\<lparr>dr_versions := dr_versions r1 @ [d],
        dr_versions_valid := dr_versions_valid r1 + (if vr_is_valid x then 1 else 0),
        dr_versions_invalid := dr_versions_invalid r1 + (if vr_is_valid x then 0 else 1)\<rparr>"
      have st': "st' = (add_version d m, True, ?r2)"
        using assms(2) True False x
        by (auto simp: st scan_version_def Let_def d_def r1_def split: option.splits)
      have c: "counts_wf ?r2"
        using assms(1) v d by (auto simp: st scanning_def counts_wf_def r1_def)
      have f: "found_model ?r2 (add_version d m)"
        using found_model_add [of r1 m d] assms(1) d r1(2) by (simp add: st scanning_def)
      have sub: "set (dr_versions r) \<subseteq> set (dr_versions ?r2)" using r1(3) by auto
      have l: "list_all (found_model ?r2) ms"
        using assms(1) found_model_mono [OF _ sub] unfolding st scanning_def list_all_iff by blast
      show ?thesis using assms(1) c f l r1 by (simp add: st' st scanning_def)
    qed
  qed
qed

lemma scan_versions_inv:
  "scanning i ms n st \<Longrightarrow> scan_versions val sc i p es st = Inr st' \<Longrightarrow> scanning i ms n st'"
  by (induction es arbitrary: st) (auto simp: sum_bind_Inr_iff dest: scan_version_inv)

lemma scan_model_wf:
  assumes "discovery_wf r" "scan_model val sc e r = Inr r'"
  shows "discovery_wf r'"
proof (cases "is_valid_model_id (en_name e)")
  case False
  with assms show ?thesis by (auto simp: scan_model_def Let_def)
next
  case True
  let ?p = "sc_root sc @ [en_name e]" and ?r = "r\<lparr>dr_models_found := dr_models_found r + 1\<rparr>"
  from assms(2) True obtain m fd r1 where s: "scan_versions val sc (en_name e) ?p (iter_version_dirs sc ?p)
        (new_model (sc_stamp sc ?p) (en_name e) ?p, False, ?r) = Inr (m, fd, r1)"
    by (auto simp: scan_model_def Let_def sum_bind_Inr_iff)
  then have r': "\<exists>r2. (r2 = r1 \<or> (\<exists>x. r2 = add_error x r1)) \<and> r' = r2\<lparr>dr_models := dr_models r2 @ [m]\<rparr>"
    using assms(2) True by (cases fd) (auto simp: scan_model_def Let_def)
  have "scanning (en_name e) (dr_models r) (dr_models_found r + 1)
      (new_model (sc_stamp sc ?p) (en_name e) ?p, False, ?r)"
    using assms(1) True
    by (auto simp: scanning_def discovery_wf_def counts_wf_def found_model_def model_wf_def new_model_def list_all_iff)
  from scan_versions_inv [OF this s] r' assms(1) show ?thesis
    by (auto simp: scanning_def discovery_wf_def list_all_iff)
qed

lemma scan_models_wf: "discovery_wf r \<Longrightarrow> scan_models val sc es r = Inr r' \<Longrightarrow> discovery_wf r'"
  by (induction es arbitrary: r) (auto simp: sum_bind_Inr_iff dest: scan_model_wf)

lemma scan_wf:
  assumes "scan val sc = Inr r"
  shows "discovery_wf r"
proof -
  have n: "discovery_wf new_discovery"
    by (simp add: discovery_wf_def counts_wf_def new_discovery_def)
  show ?thesis
  proof (cases "validate_root sc")
    case None
    with assms obtain r0 where "scan_models val sc (iter_model_dirs sc) new_discovery = Inr r0" "r = finish_scan sc r0"
      by (cases "scan_models val sc (iter_model_dirs sc) new_discovery") (auto simp: scan_def)
    with scan_models_wf [OF n] show ?thesis by simp
  next
    case (Some e)
    with assms n show ?thesis by (auto simp: scan_def)
  qed
qed

end

text \<open>The validator of the runtime keeps the contract.\<close>

interpretation contract: contract_validator "validate env" for env
  by unfold_locales (simp_all add: descriptor_sound)

section \<open>When a scan raises\<close>

lemma isl_bind: "isl (sum_bind x f) \<longleftrightarrow> isl x \<or> (\<exists>y. x = Inr y \<and> isl (f y))"
  by (cases x) simp_all

lemma isl_scan_version:
  "isl (scan_version val sc i p e st) \<longleftrightarrow> is_valid_version (en_name e) \<and> isl (val (p @ [en_name e]) i (en_name e))"
  by (cases st) (auto simp: scan_version_def Let_def isl_bind split: option.splits)

lemma isl_scan_versions:
  "isl (scan_versions val sc i p es st) \<longleftrightarrow>
     (\<exists>e\<in>set es. is_valid_version (en_name e) \<and> isl (val (p @ [en_name e]) i (en_name e)))"
proof (induction es arbitrary: st)
  case Nil
  then show ?case by simp
next
  case (Cons e es)
  show ?case
  proof (cases "scan_version val sc i p e st")
    case (Inl x)
    then show ?thesis using isl_scan_version [of val sc i p e st] by simp
  next
    case (Inr y)
    then show ?thesis using isl_scan_version [of val sc i p e st] Cons.IH by auto
  qed
qed

definition raising_version :: "validator \<Rightarrow> scanner \<Rightarrow> dir_entry \<Rightarrow> bool" where
  "raising_version val sc m \<longleftrightarrow> is_valid_model_id (en_name m) \<and>
     list_ex (\<lambda>e. is_valid_version (en_name e) \<and> isl (val (sc_root sc @ [en_name m, en_name e]) (en_name m) (en_name e)))
       (iter_version_dirs sc (sc_root sc @ [en_name m]))"

lemma isl_scan_model: "isl (scan_model val sc m r) \<longleftrightarrow> raising_version val sc m"
  by (auto simp: scan_model_def raising_version_def Let_def isl_bind isl_scan_versions list_ex_iff)

lemma isl_scan_models: "isl (scan_models val sc es r) \<longleftrightarrow> list_ex (raising_version val sc) es"
proof (induction es arbitrary: r)
  case Nil
  then show ?case by simp
next
  case (Cons e es)
  show ?case
  proof (cases "scan_model val sc e r")
    case (Inl x)
    then show ?thesis using isl_scan_model [of val sc e r] by simp
  next
    case (Inr y)
    then show ?thesis using isl_scan_model [of val sc e r] Cons.IH by simp
  qed
qed

section \<open>Registering\<close>

lemma registry_wf_register_model: "model_wf m \<Longrightarrow> registry_wf rg \<Longrightarrow> registry_wf (reg_register_model now m rg)"
  by (rule registry_wf_step [OF r_model])

lemma get_register_model:
  "get_model (reg_register_model now m rg) i =
     (if i = md_model_id m \<and> get_model rg i = None then Some m else get_model rg i)"
  by (auto simp: reg_register_model_def get_model_def put_model_def)

lemma register_models_simps [simp]:
  "register_models utc [] rg = rg"
  "register_models utc (m # ms) rg = register_models utc ms (reg_register_model (utc (md_directory_path m)) m rg)"
  by (simp_all add: register_models_def)

lemma register_models_wf: "list_all model_wf ms \<Longrightarrow> registry_wf rg \<Longrightarrow> registry_wf (register_models utc ms rg)"
  by (induction ms arbitrary: rg) (simp_all add: registry_wf_register_model)

lemma register_models_keeps: "get_model rg i = Some m \<Longrightarrow> get_model (register_models utc ms rg) i = Some m"
  by (induction ms arbitrary: rg) (simp_all add: get_register_model)

lemma register_models_adds: "m \<in> set ms \<Longrightarrow> get_model (register_models utc ms rg) (md_model_id m) \<noteq> None"
proof (induction ms arbitrary: rg)
  case Nil
  then show ?case by simp
next
  case (Cons a ms)
  let ?rg = "reg_register_model (utc (md_directory_path a)) a rg"
  obtain x where "get_model ?rg (md_model_id a) = Some x"
    by (cases "get_model rg (md_model_id a)") (simp_all add: get_register_model)
  with Cons register_models_keeps [OF this] show ?case by auto
qed

text \<open>Registering a list of versions: what is looked up, and well-formedness.\<close>

lemma register_versions_effect:
  "registry_wf rg \<Longrightarrow> registry_wf (fold (\<lambda>d. register_version (utc d) d) ds rg)"
  "\<forall>d\<in>set ds. \<not> (vd_model_id d = i \<and> vd_version d = v) \<Longrightarrow>
     get_version (fold (\<lambda>d. register_version (utc d) d) ds rg) i v = get_version rg i v"
  "d \<in> set ds \<or> get_version rg (vd_model_id d) (vd_version d) \<noteq> None \<Longrightarrow>
     get_version (fold (\<lambda>d. register_version (utc d) d) ds rg) (vd_model_id d) (vd_version d) \<noteq> None"
  by (induction ds arbitrary: rg) (auto simp: registry_wf_register_version get_version_register_version)

lemma registered_in_all: "registry_wf rg \<Longrightarrow> get_version rg i v = Some d \<Longrightarrow> d \<in> set (get_all_versions rg)"
  by (auto simp: get_version_def md_get_version_def get_all_versions_def split: option.splits dest!: map_of_SomeD)
    force

lemma all_registered: "registry_wf rg \<Longrightarrow> d \<in> set (get_all_versions rg) \<Longrightarrow> get_version rg (vd_model_id d) (vd_version d) = Some d"
  by (fastforce simp: get_version_def md_get_version_def get_all_versions_def registry_wf_def dget_Some_iff [symmetric])

section \<open>Properties\<close>

definition sample_scanner :: scanner where
  "sample_scanner =
     \<lparr>sc_root = [''r''], sc_root_resolved = [''/'', ''r''], sc_root_exists = True, sc_root_is_dir = True,
      sc_list = (\<lambda>p. if p = [''r''] then Some [\<lparr>en_name = ''fall'', en_kind = Directory, en_link = NotLink\<rparr>]
        else if p = [''r'', ''fall''] then Some [\<lparr>en_name = ''1.0.0'', en_kind = Directory, en_link = NotLink\<rparr>]
        else None),
      sc_follow_symlinks = False, sc_allowed = [], sc_started = 0, sc_completed = 1, sc_stamp = (\<lambda>p. 0)\<rparr>"

definition sample_validator :: validator where
  "sample_validator = validate (sample_env [] [])"

lemma sample_scan:
  "iter_model_dirs sample_scanner = [\<lparr>en_name = ''fall'', en_kind = Directory, en_link = NotLink\<rparr>]"
  "iter_version_dirs sample_scanner [''r'', ''fall''] = [\<lparr>en_name = ''1.0.0'', en_kind = Directory, en_link = NotLink\<rparr>]"
  "validate_root sample_scanner = None" "is_valid_model_id ''fall''" "is_valid_version ''1.0.0''"
  by (simp_all add: iter_model_dirs_def iter_version_dirs_def iter_dirs_def sample_scanner_def is_hidden_def
      follows_def model_skip_def version_skip_def validate_root_def) code_simp+

lemma sample_scan_returns: "\<exists>r. scan sample_validator sample_scanner = Inr r"
proof -
  have "\<not> isl (sample_validator [''r'', ''fall'', ''1.0.0''] ''fall'' ''1.0.0'')"
    by (simp add: sample_validator_def validate_def parse_yaml_def sample_env_def path_div_def Let_def)
  then have "\<not> isl (scan sample_validator sample_scanner)"
    by (cases "scan_models sample_validator sample_scanner (iter_model_dirs sample_scanner) new_discovery")
      (use isl_scan_models [of sample_validator sample_scanner "iter_model_dirs sample_scanner" new_discovery] in
        \<open>auto simp: scan_def sample_scan raising_version_def sample_scanner_def [THEN arg_cong [where f = sc_root]]\<close>)
  then show ?thesis by (cases "scan sample_validator sample_scanner") auto
qed

text \<open>
  A scan that returns reports consistent numbers: as many models as \<open>models_found\<close>, as many valid and
  invalid versions as counted, no more of them than versions found. Every descriptor has well-formed
  identifiers and is \<open>DISCOVERED\<close> or \<open>INVALID\<close>, and every model holds its versions under their own names.
\<close>

theorem scan_result_consistent:
  assumes "scan (validate env) sc = Inr r"
  shows "dr_models_found r = int (length (dr_models r)) \<and>
    dr_versions_valid r = int (length (filter (\<lambda>d. vd_state d = DISCOVERED) (dr_versions r))) \<and>
    dr_versions_invalid r = int (length (filter (\<lambda>d. vd_state d = INVALID) (dr_versions r))) \<and>
    dr_versions_valid r + dr_versions_invalid r \<le> dr_versions_found r \<and>
    (\<forall>d\<in>set (dr_versions r). is_valid_model_id (vd_model_id d) \<and> is_valid_version (vd_version d) \<and>
       vd_state d \<in> {DISCOVERED, INVALID}) \<and>
    (\<forall>m\<in>set (dr_models r). model_wf m \<and>
       (\<forall>v d. md_get_version m v = Some d \<longrightarrow> d \<in> set (dr_versions r)))"
  using contract.scan_wf [OF assms]
  by (simp add: discovery_wf_def counts_wf_def found_model_def version_wf_def list_all_iff md_get_version_def)

theorem scan_result_consistent_witness:
  "\<exists>r. scan sample_validator sample_scanner = Inr r \<and> dr_models_found r = int (length (dr_models r))"
  using sample_scan_returns scan_result_consistent [of "sample_env [] []" sample_scanner]
  by (auto simp: sample_validator_def)

text \<open>
  A scan raises exactly when the validation of one version directory does: one such contract loses the
  models before and after it.
\<close>

theorem one_contract_stops_the_scan:
  "isl (scan val sc) \<longleftrightarrow> validate_root sc = None \<and>
     (\<exists>m e. m \<in> set (iter_model_dirs sc) \<and> is_valid_model_id (en_name m) \<and>
        e \<in> set (iter_version_dirs sc (sc_root sc @ [en_name m])) \<and> is_valid_version (en_name e) \<and>
        isl (val (sc_root sc @ [en_name m, en_name e]) (en_name m) (en_name e)))"
proof (cases "validate_root sc")
  case None
  then have "isl (scan val sc) \<longleftrightarrow> isl (scan_models val sc (iter_model_dirs sc) new_discovery)"
    by (cases "scan_models val sc (iter_model_dirs sc) new_discovery") (simp_all add: scan_def)
  then show ?thesis
    using None by (auto simp: isl_scan_models raising_version_def list_ex_iff)
next
  case (Some e)
  then show ?thesis by (simp add: scan_def)
qed

text \<open>
  Every directory the scan enters was listed as a directory, is not hidden and, when it is a symbolic
  link, is followed only if links are allowed and its target lies within an allowed root.
\<close>

theorem scan_stays_inside:
  assumes "e \<in> set (iter_model_dirs sc) \<or> e \<in> set (iter_version_dirs sc p)"
  shows "en_kind e = Directory \<and> \<not> is_hidden (en_name e) \<and>
    (en_link e \<noteq> NotLink \<longrightarrow> sc_follow_symlinks sc \<and>
       (\<exists>target. en_link e = LinkTo target \<and>
          (if sc_allowed sc = [] then relative_to target (sc_root_resolved sc)
           else \<exists>root\<in>set (sc_allowed sc). relative_to target root)))"
proof -
  from assms have "entered sc e"
    by (auto simp: iter_model_dirs_def iter_version_dirs_def dest: iter_dirs_entered)
  then show ?thesis by (cases "sc_allowed sc = []") (auto simp: entered_def)
qed

theorem scan_stays_inside_witness: "\<not> is_hidden ''fall''"
  using scan_stays_inside [of "\<lparr>en_name = ''fall'', en_kind = Directory, en_link = NotLink\<rparr>" sample_scanner "[]"]
  by (simp add: sample_scan)

text \<open>
  \<open>scan_into_registry\<close> keeps a registry well formed, leaves every model that was registered as it was and
  has every model of the result registered.
\<close>

theorem scan_fills_registry:
  assumes "registry_wf rg" "scan_into_registry (validate env) sc utc rg = Inr (r, rg')"
  shows "registry_wf rg' \<and> (\<forall>m\<in>set (dr_models r). get_model rg' (md_model_id m) \<noteq> None) \<and>
    (\<forall>i m. get_model rg i = Some m \<longrightarrow> get_model rg' i = Some m)"
proof -
  have s: "scan (validate env) sc = Inr r" and rg': "rg' = register_models utc (dr_models r) rg"
    using assms(2) by (auto simp: scan_into_registry_def sum_bind_Inr_iff)
  have "list_all model_wf (dr_models r)"
    using contract.scan_wf [OF s] by (simp add: discovery_wf_def found_model_def list_all_iff)
  then show ?thesis
    using assms(1) by (simp add: rg' register_models_wf register_models_keeps register_models_adds)
qed

theorem scan_fills_registry_witness:
  "\<exists>r rg'. scan_into_registry sample_validator sample_scanner (\<lambda>p. 0) new_registry = Inr (r, rg') \<and> registry_wf rg'"
proof -
  obtain r where "scan sample_validator sample_scanner = Inr r" using sample_scan_returns by blast
  then have "scan_into_registry sample_validator sample_scanner (\<lambda>p. 0) new_registry =
      Inr (r, register_models (\<lambda>p. 0) (dr_models r) new_registry)"
    by (simp add: scan_into_registry_def)
  with scan_fills_registry [OF registry_wf_new this [unfolded sample_validator_def]] show ?thesis by blast
qed

text \<open>
  A poll of the watcher registers every discovered version that the registry does not have and changes
  none that it has: a contract edited on disk, or repaired after it was \<open>INVALID\<close>, is not picked up.
\<close>

theorem watcher_adds_only:
  assumes "registry_wf rg" "\<forall>d\<in>set (get_all_versions rg). is_valid_model_id (vd_model_id d)"
    "scan (validate env) sc = Inr r"
  shows "registry_wf (fst (check_for_changes (validate env) sc utc rg)) \<and>
    (\<forall>i v d. get_version rg i v = Some d \<longrightarrow>
       get_version (fst (check_for_changes (validate env) sc utc rg)) i v = Some d) \<and>
    (\<forall>d\<in>set (dr_versions r).
       get_version (fst (check_for_changes (validate env) sc utc rg)) (vd_model_id d) (vd_version d) \<noteq> None)"
proof (intro conjI allI impI ballI)
  let ?utc = "\<lambda>d. utc (vd_directory_path d)"
  have c: "fst (check_for_changes (validate env) sc utc rg) =
      fold (\<lambda>d. register_version (?utc d) d) (new_versions r rg) rg"
    using assms(3) by (simp add: check_for_changes_def)
  note eff = register_versions_effect [where utc = ?utc and rg = rg and ds = "new_versions r rg"]
  show "registry_wf (fst (check_for_changes (validate env) sc utc rg))"
    unfolding c by (rule eff(1) [OF assms(1)])
  show "get_version (fst (check_for_changes (validate env) sc utc rg)) i v = Some d"
    if g: "get_version rg i v = Some d" for i v d
  proof -
    have "qualified_id d \<in> qualified_id ` set (get_all_versions rg)" "qualified_id d = make_qualified_id i v"
      using imageI [OF registered_in_all [OF assms(1) g], of qualified_id] registry_wf_get [OF assms(1) g]
      by (auto simp: qualified_id_def)
    then have "\<forall>x\<in>set (new_versions r rg). \<not> (vd_model_id x = i \<and> vd_version x = v)"
      by (auto simp: new_versions_def qualified_id_def)
    then show ?thesis unfolding c by (simp add: eff(2) g)
  qed
  show "get_version (fst (check_for_changes (validate env) sc utc rg)) (vd_model_id d) (vd_version d) \<noteq> None"
    if d: "d \<in> set (dr_versions r)" for d
    unfolding c
  proof (rule eff(3), cases "d \<in> set (new_versions r rg)")
    case False
    then obtain x where x: "x \<in> set (get_all_versions rg)" "qualified_id x = qualified_id d"
      using d by (auto simp: new_versions_def)
    have "is_valid_model_id (vd_model_id d)"
      using contract.scan_wf [OF assms(3)] d by (simp add: discovery_wf_def counts_wf_def version_wf_def list_all_iff)
    then have "vd_model_id x = vd_model_id d \<and> vd_version x = vd_version d"
      using assms(2) x qualified_id_inj [OF valid_model_id_no_colon valid_model_id_no_colon]
      by (simp add: qualified_id_def)
    then show "d \<in> set (new_versions r rg) \<or> get_version rg (vd_model_id d) (vd_version d) \<noteq> None"
      using all_registered [OF assms(1) x(1)] by auto
  qed simp
qed

theorem watcher_adds_only_witness:
  "\<exists>r. scan sample_validator sample_scanner = Inr r \<and> (\<forall>d\<in>set (dr_versions r).
     get_version (fst (check_for_changes sample_validator sample_scanner (\<lambda>p n. 0) new_registry))
       (vd_model_id d) (vd_version d) \<noteq> None)"
proof -
  obtain r where r: "scan (validate (sample_env [] [])) sample_scanner = Inr r"
    using sample_scan_returns by (auto simp: sample_validator_def)
  have "\<forall>d\<in>set (get_all_versions new_registry). is_valid_model_id (vd_model_id d)"
    by (simp add: get_all_versions_def new_registry_def)
  from watcher_adds_only [OF registry_wf_new this r, of "\<lambda>p n. 0"] r show ?thesis
    by (auto simp: sample_validator_def)
qed

text \<open>A watcher stopped and started again within one poll interval has two polling threads.\<close>

lemma restart_leaks_thread:
  assumes "\<not> wt_running w"
  shows "wt_threads (watch_start (watch_stop (watch_start w))) = wt_threads w + 2"
    "watch_wake val sc utc (watch_start (watch_stop (watch_start w)), rg) =
      (watch_start (watch_stop (watch_start w)), fst (check_for_changes val sc utc rg))"
  using assms by (simp_all add: watch_start_def watch_stop_def watch_wake_def)

end
