(* ===== verification/GpuManager.thy ===== *)
theory GpuManager
  imports RuntimeModels
begin

text \<open>
  \<open>ai/runtime/gpu_manager.py\<close>: GPU devices, the reservations of models on them, and the fallback to the
  CPU. Memory sizes are reals (the code's floats, whose rounding is not modelled). What \<open>torch\<close> and
  \<open>pynvml\<close> answer are parameters.
\<close>

section \<open>Devices and allocations\<close>

datatype GPUStatus = GPU_AVAILABLE | GPU_UNAVAILABLE | GPU_ERROR

fun gpu_status_value :: "GPUStatus \<Rightarrow> string" where
  "gpu_status_value GPU_AVAILABLE = ''available''"
| "gpu_status_value GPU_UNAVAILABLE = ''unavailable''"
| "gpu_status_value GPU_ERROR = ''error''"

record GPUDevice =
  gd_device_id :: int
  gd_name :: string
  gd_total_memory_mb :: real
  gd_used_memory_mb :: real
  gd_reserved_memory_mb :: real
  gd_utilization_percent :: real
  gd_temperature_c :: "real option"

definition new_device :: "int \<Rightarrow> string \<Rightarrow> real \<Rightarrow> GPUDevice" where
  "new_device i name total_mb =
     \<lparr>gd_device_id = i, gd_name = name, gd_total_memory_mb = total_mb, gd_used_memory_mb = 0,
      gd_reserved_memory_mb = 0, gd_utilization_percent = 0, gd_temperature_c = None\<rparr>"

definition available_memory_mb :: "GPUDevice \<Rightarrow> real" where
  "available_memory_mb d = gd_total_memory_mb d - gd_used_memory_mb d"

definition free_memory_mb :: "GPUDevice \<Rightarrow> real" where
  "free_memory_mb d = gd_total_memory_mb d - gd_used_memory_mb d - gd_reserved_memory_mb d"

record ModelAllocation =
  ma_model_id :: string
  ma_version :: string
  ma_device_id :: int
  ma_allocated_mb :: real
  ma_allocated_at :: real

record GPUManager =
  gm_enable_gpu :: bool
  gm_memory_reserve_mb :: real
  gm_fallback_to_cpu :: bool
  gm_devices :: "(int, GPUDevice) dict"
  gm_allocations :: "(string, ModelAllocation) dict"
  gm_torch_available :: bool
  gm_cuda_available :: bool
  gm_status :: GPUStatus

text \<open>
  What detection meets: \<open>import torch\<close> fails or raises, the question for CUDA raises, there is no CUDA,
  or devices are listed with name and bytes, the flag saying whether the listing then raised.
\<close>

datatype probe = ImportFails | ImportRaises | AvailableRaises | NoCuda
  | CudaDevices "(string \<times> real) list" bool

text \<open>The loop over \<open>range(device_count)\<close>, from index \<open>i\<close>.\<close>

fun add_devices :: "int \<Rightarrow> (string \<times> real) list \<Rightarrow> (int, GPUDevice) dict \<Rightarrow> (int, GPUDevice) dict" where
  "add_devices i [] ds = ds"
| "add_devices i ((name, bytes) # ps) ds =
     add_devices (i + 1) ps (dput i (new_device i name (bytes / (1024 * 1024))) ds)"

definition detect_gpus :: "probe \<Rightarrow> GPUManager \<Rightarrow> GPUManager" where
  "detect_gpus pr g =
     (if \<not> gm_enable_gpu g then g\<lparr>gm_status := GPU_UNAVAILABLE\<rparr>
      else case pr of
             ImportFails \<Rightarrow> g\<lparr>gm_status := GPU_UNAVAILABLE\<rparr>
           | ImportRaises \<Rightarrow> g\<lparr>gm_status := GPU_ERROR\<rparr>
           | AvailableRaises \<Rightarrow> g\<lparr>gm_torch_available := True, gm_status := GPU_ERROR\<rparr>
           | NoCuda \<Rightarrow> g\<lparr>gm_torch_available := True, gm_status := GPU_UNAVAILABLE\<rparr>
           | CudaDevices ps raised \<Rightarrow>
               g\<lparr>gm_torch_available := True, gm_cuda_available := True,
                 gm_devices := add_devices 0 ps (gm_devices g),
                 gm_status := (if raised then GPU_ERROR else GPU_AVAILABLE)\<rparr>)"

definition new_gpu_manager :: "probe \<Rightarrow> bool \<Rightarrow> real \<Rightarrow> bool \<Rightarrow> GPUManager" where
  "new_gpu_manager pr enable_gpu memory_reserve_mb fallback_to_cpu =
     detect_gpus pr
       \<lparr>gm_enable_gpu = enable_gpu, gm_memory_reserve_mb = memory_reserve_mb,
        gm_fallback_to_cpu = fallback_to_cpu, gm_devices = [], gm_allocations = [],
        gm_torch_available = False, gm_cuda_available = False, gm_status = GPU_UNAVAILABLE\<rparr>"

section \<open>Operations\<close>

definition gpu_is_available :: "GPUManager \<Rightarrow> bool" where
  "gpu_is_available g \<longleftrightarrow> gm_status g = GPU_AVAILABLE \<and> gm_devices g \<noteq> []"

definition device_count :: "GPUManager \<Rightarrow> nat" where
  "device_count g = length (gm_devices g)"

definition get_devices :: "GPUManager \<Rightarrow> GPUDevice list" where
  "get_devices g = dvals (gm_devices g)"

definition get_device :: "GPUManager \<Rightarrow> int \<Rightarrow> GPUDevice option" where
  "get_device g i = dget (gm_devices g) i"

text \<open>
  \<open>bytes i\<close> is \<open>torch.cuda.memory_allocated(i)\<close> or \<open>None\<close> when it raises, which ends the loop;
  \<open>nvml i\<close> is the utilisation and then the temperature, each \<open>None\<close> when \<open>pynvml\<close> failed before it.
\<close>

fun update_devices ::
  "(int \<Rightarrow> real option) \<Rightarrow> (int \<Rightarrow> (real \<times> real option) option) \<Rightarrow> (int, GPUDevice) dict \<Rightarrow>
   (int, GPUDevice) dict" where
  "update_devices bytes nvml [] = []"
| "update_devices bytes nvml ((i, d) # ds) =
     (case bytes i of
        None \<Rightarrow> (i, d) # ds
      | Some b \<Rightarrow>
          (let d1 = d\<lparr>gd_used_memory_mb := b / (1024 * 1024)\<rparr>;
               d2 = (case nvml i of None \<Rightarrow> d1
                     | Some (u, None) \<Rightarrow> d1\<lparr>gd_utilization_percent := u\<rparr>
                     | Some (u, Some t) \<Rightarrow> d1\<lparr>gd_utilization_percent := u, gd_temperature_c := Some t\<rparr>)
           in (i, d2) # update_devices bytes nvml ds))"

definition update_device_stats ::
  "(int \<Rightarrow> real option) \<Rightarrow> (int \<Rightarrow> (real \<times> real option) option) \<Rightarrow> GPUManager \<Rightarrow> GPUManager" where
  "update_device_stats bytes nvml g =
     (if \<not> gpu_is_available g \<or> \<not> gm_torch_available g then g
      else g\<lparr>gm_devices := update_devices bytes nvml (gm_devices g)\<rparr>)"

definition can_allocate :: "GPUManager \<Rightarrow> string \<Rightarrow> real \<Rightarrow> int option \<Rightarrow> bool" where
  "can_allocate g model_id required_mb device_id =
     (if \<not> gpu_is_available g then False
      else case device_id of
             Some i \<Rightarrow>
               (case dget (gm_devices g) i of
                  None \<Rightarrow> False
                | Some d \<Rightarrow> required_mb \<le> free_memory_mb d - gm_memory_reserve_mb g)
           | None \<Rightarrow> (\<exists>d\<in>set (dvals (gm_devices g)). required_mb \<le> free_memory_mb d - gm_memory_reserve_mb g))"

text \<open>The loop that selects the device with the most free memory.\<close>

fun pick_device :: "real \<Rightarrow> real \<Rightarrow> GPUDevice option \<Rightarrow> GPUDevice list \<Rightarrow> GPUDevice option" where
  "pick_device reserve required target [] = target"
| "pick_device reserve required target (d # ds) =
     pick_device reserve required
       (if required \<le> free_memory_mb d - reserve \<and>
           (case target of None \<Rightarrow> True | Some t \<Rightarrow> free_memory_mb t < free_memory_mb d)
        then Some d else target) ds"

definition target_device :: "GPUManager \<Rightarrow> real \<Rightarrow> int option \<Rightarrow> GPUDevice option" where
  "target_device g required_mb device_id =
     (case device_id of
        Some i \<Rightarrow>
          (case dget (gm_devices g) i of
             None \<Rightarrow> None
           | Some d \<Rightarrow> if required_mb \<le> free_memory_mb d - gm_memory_reserve_mb g then Some d else None)
      | None \<Rightarrow> pick_device (gm_memory_reserve_mb g) required_mb None (dvals (gm_devices g)))"

text \<open>
  \<open>allocate\<close> takes the lock twice: first to look for an allocation, then to make one. The two
  sections are separate steps.
\<close>

definition find_allocation :: "GPUManager \<Rightarrow> string \<Rightarrow> string \<Rightarrow> string option" where
  "find_allocation g model_id version =
     (case dget (gm_allocations g) (make_qualified_id model_id version) of
        None \<Rightarrow> None | Some a \<Rightarrow> Some (''cuda:'' @ show_int (ma_device_id a)))"

definition make_allocation ::
  "real \<Rightarrow> (real \<Rightarrow> string) \<Rightarrow> string \<Rightarrow> string \<Rightarrow> real \<Rightarrow> int option \<Rightarrow> GPUManager \<Rightarrow>
   (py_error + string) \<times> GPUManager" where
  "make_allocation now mb model_id version required_mb device_id g =
     (let qid = make_qualified_id model_id version
      in case (if gpu_is_available g then target_device g required_mb device_id else None) of
           Some d \<Rightarrow>
             (Inr (''cuda:'' @ show_int (gd_device_id d)),
              g\<lparr>gm_allocations := dput qid
                   \<lparr>ma_model_id = model_id, ma_version = version, ma_device_id = gd_device_id d,
                    ma_allocated_mb = required_mb, ma_allocated_at = now\<rparr> (gm_allocations g),
                gm_devices := dput (gd_device_id d)
                   (d\<lparr>gd_reserved_memory_mb := gd_reserved_memory_mb d + required_mb\<rparr>) (gm_devices g)\<rparr>)
         | None \<Rightarrow>
             (if gm_fallback_to_cpu g then Inr ''cpu''
              else Inl (RuntimeError (''GPU memory allocation failed for '' @ qid @ '' (required: '' @
                     mb required_mb @ ''MB)'')), g))"

definition gpu_allocate ::
  "real \<Rightarrow> (real \<Rightarrow> string) \<Rightarrow> string \<Rightarrow> string \<Rightarrow> real \<Rightarrow> int option \<Rightarrow> GPUManager \<Rightarrow>
   (py_error + string) \<times> GPUManager" where
  "gpu_allocate now mb model_id version required_mb device_id g =
     (case find_allocation g model_id version of
        Some dev \<Rightarrow> (Inr dev, g)
      | None \<Rightarrow> make_allocation now mb model_id version required_mb device_id g)"

definition unreserve :: "ModelAllocation \<Rightarrow> (int, GPUDevice) dict \<Rightarrow> (int, GPUDevice) dict" where
  "unreserve a ds =
     (case dget ds (ma_device_id a) of
        None \<Rightarrow> ds
      | Some d \<Rightarrow> dput (ma_device_id a)
          (d\<lparr>gd_reserved_memory_mb := gd_reserved_memory_mb d - ma_allocated_mb a\<rparr>) ds)"

definition gpu_release :: "string \<Rightarrow> string \<Rightarrow> GPUManager \<Rightarrow> bool \<times> GPUManager" where
  "gpu_release model_id version g =
     (let qid = make_qualified_id model_id version
      in case dget (gm_allocations g) qid of
           None \<Rightarrow> (False, g)
         | Some a \<Rightarrow> (True, g\<lparr>gm_allocations := ddel qid (gm_allocations g),
                               gm_devices := unreserve a (gm_devices g)\<rparr>))"

definition get_allocation :: "GPUManager \<Rightarrow> string \<Rightarrow> string \<Rightarrow> ModelAllocation option" where
  "get_allocation g model_id version = dget (gm_allocations g) (make_qualified_id model_id version)"

definition gpu_release_all :: "GPUManager \<Rightarrow> nat \<times> GPUManager" where
  "gpu_release_all g =
     (length (gm_allocations g),
      g\<lparr>gm_devices := fold unreserve (dvals (gm_allocations g)) (gm_devices g), gm_allocations := []\<rparr>)"

definition get_all_allocations :: "GPUManager \<Rightarrow> ModelAllocation list" where
  "get_all_allocations g = dvals (gm_allocations g)"

definition device_stats :: "GPUDevice \<Rightarrow> (string, jval) dict" where
  "device_stats d =
     [(''device_id'', JInt (gd_device_id d)), (''name'', JStr (gd_name d)),
      (''total_memory_mb'', JReal (gd_total_memory_mb d)), (''used_memory_mb'', JReal (gd_used_memory_mb d)),
      (''reserved_memory_mb'', JReal (gd_reserved_memory_mb d)),
      (''available_memory_mb'', JReal (available_memory_mb d)),
      (''utilization_percent'', JReal (gd_utilization_percent d)),
      (''temperature_c'', jopt JReal (gd_temperature_c d))]"

definition allocation_stats :: "ModelAllocation \<Rightarrow> (string, jval) dict" where
  "allocation_stats a =
     [(''model_id'', JStr (ma_model_id a)), (''version'', JStr (ma_version a)),
      (''device_id'', JInt (ma_device_id a)), (''allocated_mb'', JReal (ma_allocated_mb a)),
      (''allocated_at'', JTime (ma_allocated_at a))]"

definition gpu_get_stats ::
  "(int \<Rightarrow> real option) \<Rightarrow> (int \<Rightarrow> (real \<times> real option) option) \<Rightarrow> GPUManager \<Rightarrow>
   (string, jval) dict \<times> GPUManager" where
  "gpu_get_stats bytes nvml g0 =
     (let g = update_device_stats bytes nvml g0
      in ([(''status'', JStr (gpu_status_value (gm_status g))),
           (''torch_available'', JBool (gm_torch_available g)), (''cuda_available'', JBool (gm_cuda_available g)),
           (''device_count'', JInt (int (length (gm_devices g)))),
           (''devices'', JList (map (JDict \<circ> device_stats) (dvals (gm_devices g)))),
           (''allocations'', JList (map (JDict \<circ> allocation_stats) (dvals (gm_allocations g)))),
           (''total_allocated_mb'', JReal (sum_list (map ma_allocated_mb (dvals (gm_allocations g)))))], g))"

section \<open>Reservations\<close>

text \<open>What the allocations have on a device.\<close>

definition allocated_on :: "int \<Rightarrow> (string, ModelAllocation) dict \<Rightarrow> real" where
  "allocated_on i as = dsum (\<lambda>a. if ma_device_id a = i then ma_allocated_mb a else 0) as"

text \<open>
  The books of the devices and of the allocations. On each device there may be a leak: memory that stays reserved though
  no allocation has it any more.
\<close>

definition books_ok :: "(int \<Rightarrow> real) \<Rightarrow> (int, GPUDevice) dict \<Rightarrow> (string, ModelAllocation) dict \<Rightarrow> bool" where
  "books_ok lk ds as \<longleftrightarrow> dict_wf ds \<and> dict_wf as \<and>
     (\<forall>i d. dget ds i = Some d \<longrightarrow> gd_device_id d = i \<and> gd_reserved_memory_mb d = allocated_on i as + lk i \<and>
        0 \<le> gd_used_memory_mb d) \<and>
     (\<forall>q a. dget as q = Some a \<longrightarrow> dget ds (ma_device_id a) \<noteq> None \<and> 0 \<le> ma_allocated_mb a)"

text \<open>No device has more reserved than it has memory less the part kept for the framework.\<close>

definition fits :: "real \<Rightarrow> (int, GPUDevice) dict \<Rightarrow> bool" where
  "fits reserve ds \<longleftrightarrow> (\<forall>i d. dget ds i = Some d \<longrightarrow>
     gd_reserved_memory_mb d \<le> max 0 (gd_total_memory_mb d - reserve))"

definition gpu_books :: "(int \<Rightarrow> real) \<Rightarrow> GPUManager \<Rightarrow> bool" where
  "gpu_books lk g \<longleftrightarrow> (\<forall>i. 0 \<le> lk i) \<and> books_ok lk (gm_devices g) (gm_allocations g) \<and>
     fits (gm_memory_reserve_mb g) (gm_devices g)"

definition gpu_ok :: "GPUManager \<Rightarrow> bool" where
  "gpu_ok g \<longleftrightarrow> gpu_books (\<lambda>_. 0) g"

lemma books_wf: "books_ok lk ds as \<Longrightarrow> dict_wf ds" "books_ok lk ds as \<Longrightarrow> dict_wf as"
  by (simp_all add: books_ok_def)

lemma books_device:
  "books_ok lk ds as \<Longrightarrow> dget ds i = Some d \<Longrightarrow>
     gd_device_id d = i \<and> gd_reserved_memory_mb d = allocated_on i as + lk i \<and> 0 \<le> gd_used_memory_mb d"
  by (simp add: books_ok_def)

lemma books_allocation:
  "books_ok lk ds as \<Longrightarrow> dget as q = Some a \<Longrightarrow> dget ds (ma_device_id a) \<noteq> None \<and> 0 \<le> ma_allocated_mb a"
  unfolding books_ok_def by blast

lemma books_okI:
  assumes "dict_wf ds" "dict_wf as"
    and "\<And>i d. dget ds i = Some d \<Longrightarrow>
      gd_device_id d = i \<and> gd_reserved_memory_mb d = allocated_on i as + lk i \<and> 0 \<le> gd_used_memory_mb d"
    and "\<And>q a. dget as q = Some a \<Longrightarrow> dget ds (ma_device_id a) \<noteq> None \<and> 0 \<le> ma_allocated_mb a"
  shows "books_ok lk ds as"
  using assms unfolding books_ok_def by blast

lemma allocated_on_new:
  "dget as q = None \<Longrightarrow> allocated_on i (dput q a as) =
     allocated_on i as + (if ma_device_id a = i then ma_allocated_mb a else 0)"
  by (simp add: allocated_on_def dsum_dput_new)

lemma allocated_on_again:
  "dget as q = Some b \<Longrightarrow> allocated_on i (dput q a as) = allocated_on i as
     + (if ma_device_id a = i then ma_allocated_mb a else 0) - (if ma_device_id b = i then ma_allocated_mb b else 0)"
  by (simp add: allocated_on_def dsum_dput_old)

lemma allocated_on_drop:
  "dict_wf as \<Longrightarrow> dget as q = Some a \<Longrightarrow> allocated_on i (ddel q as) =
     allocated_on i as - (if ma_device_id a = i then ma_allocated_mb a else 0)"
  by (simp add: allocated_on_def dsum_ddel)

lemma allocated_on_nonneg: "books_ok lk ds as \<Longrightarrow> 0 \<le> allocated_on i as"
  unfolding allocated_on_def
  by (rule dsum_nonneg) (auto simp: books_ok_def dget_Some_iff)

lemma pick_device_some:
  assumes "pick_device reserve required t ds = Some d"
    and "\<forall>x. t = Some x \<longrightarrow> required \<le> free_memory_mb x - reserve"
  shows "(d \<in> set ds \<or> t = Some d) \<and> required \<le> free_memory_mb d - reserve"
  using assms
proof (induction ds arbitrary: t)
  case Nil
  then show ?case by simp
next
  case (Cons x ds)
  from Cons.prems(1) have p: "pick_device reserve required
      (if required \<le> free_memory_mb x - reserve \<and>
          (case t of None \<Rightarrow> True | Some y \<Rightarrow> free_memory_mb y < free_memory_mb x)
       then Some x else t) ds = Some d" by simp
  have t: "\<forall>y. (if required \<le> free_memory_mb x - reserve \<and>
          (case t of None \<Rightarrow> True | Some y \<Rightarrow> free_memory_mb y < free_memory_mb x)
       then Some x else t) = Some y \<longrightarrow> required \<le> free_memory_mb y - reserve"
    using Cons.prems(2) by (simp split: if_split)
  from Cons.IH [OF p t] show ?case by (auto split: if_split_asm)
qed

lemma pick_device_best:
  assumes "x \<in> set ds \<or> t = Some x" and "required \<le> free_memory_mb x - reserve"
    and "\<forall>y. t = Some y \<longrightarrow> required \<le> free_memory_mb y - reserve"
  shows "\<exists>d. pick_device reserve required t ds = Some d \<and> free_memory_mb x \<le> free_memory_mb d"
  using assms
proof (induction ds arbitrary: t x)
  case Nil
  then show ?case by simp
next
  case (Cons z ds)
  let ?t = "if required \<le> free_memory_mb z - reserve \<and>
      (case t of None \<Rightarrow> True | Some y \<Rightarrow> free_memory_mb y < free_memory_mb z) then Some z else t"
  have t: "\<forall>y. ?t = Some y \<longrightarrow> required \<le> free_memory_mb y - reserve"
    using Cons.prems(3) by auto
  have "\<exists>y. (y \<in> set ds \<or> ?t = Some y) \<and> required \<le> free_memory_mb y - reserve \<and>
      free_memory_mb x \<le> free_memory_mb y"
  proof (cases "x \<in> set ds")
    case True
    with Cons.prems(2) show ?thesis by blast
  next
    case False
    show ?thesis
    proof (cases t)
      case None
      with False Cons.prems(1,2) show ?thesis by (intro exI [of _ z]) simp
    next
      case (Some y)
      with False Cons.prems have "x = z \<or> y = x" "required \<le> free_memory_mb y - reserve" by simp_all
      with Some Cons.prems(2) show ?thesis by (cases "free_memory_mb y < free_memory_mb z") auto
    qed
  qed
  then obtain y where y: "y \<in> set ds \<or> ?t = Some y" "required \<le> free_memory_mb y - reserve"
    and le: "free_memory_mb x \<le> free_memory_mb y" by blast
  from Cons.IH [OF y t] le show ?case by auto
qed

definition devices_known :: "(int, GPUDevice) dict \<Rightarrow> bool" where
  "devices_known ds \<longleftrightarrow> dict_wf ds \<and> (\<forall>i d. dget ds i = Some d \<longrightarrow> gd_device_id d = i)"

lemma books_known: "books_ok lk ds as \<Longrightarrow> devices_known ds"
  by (simp add: books_ok_def devices_known_def)

lemma target_device_some:
  assumes ok: "devices_known (gm_devices g)" and t: "target_device g required i = Some d"
  shows "dget (gm_devices g) (gd_device_id d) = Some d \<and>
    required \<le> free_memory_mb d - gm_memory_reserve_mb g"
proof (cases i)
  case None
  with t pick_device_some [of "gm_memory_reserve_mb g" required None "dvals (gm_devices g)" d]
  have "d \<in> set (dvals (gm_devices g))" and r: "required \<le> free_memory_mb d - gm_memory_reserve_mb g"
    by (simp_all add: target_device_def)
  then obtain k where "(k, d) \<in> set (gm_devices g)" by auto
  with ok have "dget (gm_devices g) k = Some d" by (simp add: devices_known_def dget_Some_iff)
  with ok r show ?thesis by (auto simp: devices_known_def)
next
  case (Some k)
  with t ok show ?thesis by (auto simp: target_device_def devices_known_def split: option.splits if_splits)
qed

lemma make_allocation_cases:
  "make_allocation now mb i v required dev g =
     (case (if gpu_is_available g then target_device g required dev else None) of
        Some d \<Rightarrow> (Inr (''cuda:'' @ show_int (gd_device_id d)),
          g\<lparr>gm_allocations := dput (make_qualified_id i v)
              \<lparr>ma_model_id = i, ma_version = v, ma_device_id = gd_device_id d, ma_allocated_mb = required,
               ma_allocated_at = now\<rparr> (gm_allocations g),
            gm_devices := dput (gd_device_id d)
              (d\<lparr>gd_reserved_memory_mb := gd_reserved_memory_mb d + required\<rparr>) (gm_devices g)\<rparr>)
      | None \<Rightarrow> (if gm_fallback_to_cpu g then Inr ''cpu''
          else Inl (RuntimeError (''GPU memory allocation failed for '' @ make_qualified_id i v @
                 '' (required: '' @ mb required @ ''MB)'')), g))"
  by (simp add: make_allocation_def Let_def split: option.split)

text \<open>
  Reserving for a model that holds nothing keeps the books. For one that has an allocation meanwhile the old amount
  leaks. The leak is what the new allocation replaces.
\<close>

definition replaced :: "GPUManager \<Rightarrow> string \<Rightarrow> int \<Rightarrow> real" where
  "replaced g q j = (case dget (gm_allocations g) q of None \<Rightarrow> 0 | Some a \<Rightarrow> if ma_device_id a = j then ma_allocated_mb a else 0)"

lemma allocated_on_replaced:
  "allocated_on j (dput q a (gm_allocations g)) + replaced g q j =
     allocated_on j (gm_allocations g) + (if ma_device_id a = j then ma_allocated_mb a else 0)"
  by (cases "dget (gm_allocations g) q") (simp_all add: replaced_def allocated_on_new allocated_on_again)

lemma replaced_nonneg: "books_ok lk ds (gm_allocations g) \<Longrightarrow> 0 \<le> replaced g q j"
  using books_allocation [of lk ds "gm_allocations g" q] by (auto simp: replaced_def split: option.split)

lemma gpu_books_make:
  assumes ok: "gpu_books lk g" and r: "0 \<le> required" and m: "g' = snd (make_allocation now mb i v required dev g)"
  shows "gpu_books lk g' \<or> gpu_books (\<lambda>j. lk j + replaced g (make_qualified_id i v) j) g'"
proof (cases "if gpu_is_available g then target_device g required dev else None")
  case None
  with ok show ?thesis by (simp add: m make_allocation_cases)
next
  case (Some d)
  let ?k = "gd_device_id d" and ?lk = "\<lambda>j. lk j + replaced g (make_qualified_id i v) j"
  have b: "books_ok lk (gm_devices g) (gm_allocations g)" using ok by (simp add: gpu_books_def)
  from Some have "target_device g required dev = Some d" by (simp split: if_splits)
  from target_device_some [OF books_known [OF b] this]
  have d: "dget (gm_devices g) ?k = Some d" and le: "required \<le> free_memory_mb d - gm_memory_reserve_mb g"
    by simp_all
  note dev = books_device [OF b]
  have "gd_reserved_memory_mb d + required \<le> gd_total_memory_mb d - gm_memory_reserve_mb g"
    using le dev [OF d] by (simp add: free_memory_mb_def)
  with ok have "fits (gm_memory_reserve_mb g) (dput ?k
      (d\<lparr>gd_reserved_memory_mb := gd_reserved_memory_mb d + required\<rparr>) (gm_devices g))"
    by (auto simp: gpu_books_def fits_def)
  moreover have "books_ok ?lk (dput ?k (d\<lparr>gd_reserved_memory_mb := gd_reserved_memory_mb d + required\<rparr>) (gm_devices g))
      (dput (make_qualified_id i v) \<lparr>ma_model_id = i, ma_version = v, ma_device_id = ?k,
         ma_allocated_mb = required, ma_allocated_at = now\<rparr> (gm_allocations g))"
    (is "books_ok _ ?ds (dput ?q ?a _)")
  proof (rule books_okI)
    show "dict_wf ?ds" "dict_wf (dput ?q ?a (gm_allocations g))" using books_wf [OF b] by simp_all
    show "gd_device_id e = j \<and> gd_reserved_memory_mb e = allocated_on j (dput ?q ?a (gm_allocations g)) + ?lk j \<and> 0 \<le> gd_used_memory_mb e"
      if "dget ?ds j = Some e" for j e
      using that dev [OF d] dev [of j e] allocated_on_replaced [of j ?q ?a g] by (cases "j = ?k") auto
    show "dget ?ds (ma_device_id a) \<noteq> None \<and> 0 \<le> ma_allocated_mb a" if "dget (dput ?q ?a (gm_allocations g)) p = Some a" for p a
      using that books_allocation [OF b, of p a] r by (auto split: if_splits)
  qed
  moreover have "0 \<le> ?lk j" for j using ok replaced_nonneg [OF b] by (simp add: gpu_books_def add_nonneg_nonneg)
  ultimately show ?thesis by (simp add: m Some make_allocation_cases gpu_books_def)
qed

lemma gpu_ok_make:
  assumes "gpu_ok g" "dget (gm_allocations g) (make_qualified_id i v) = None" "0 \<le> required"
  shows "gpu_ok (snd (make_allocation now mb i v required dev g))"
  using gpu_books_make [OF _ assms(3) refl, of "\<lambda>_. 0" g now mb i v dev] assms(1,2)
  by (simp add: gpu_ok_def replaced_def del: not_None_eq)

lemma books_ok_unreserve:
  assumes ok: "books_ok lk ds as" and a: "dget as q = Some a"
  shows "books_ok lk (unreserve a ds) (ddel q as)"
proof -
  obtain d where d: "dget ds (ma_device_id a) = Some d"
    using books_allocation [OF ok a] by blast
  note wf = books_wf [OF ok]
  show ?thesis
  proof (rule books_okI)
    show "dict_wf (unreserve a ds)" "dict_wf (ddel q as)"
      using wf by (simp_all add: unreserve_def d)
    show "gd_device_id e = j \<and> gd_reserved_memory_mb e = allocated_on j (ddel q as) + lk j \<and> 0 \<le> gd_used_memory_mb e"
      if "dget (unreserve a ds) j = Some e" for j e
    proof (cases "j = ma_device_id a")
      case True
      with that have "e = d\<lparr>gd_reserved_memory_mb := gd_reserved_memory_mb d - ma_allocated_mb a\<rparr>"
        by (simp add: unreserve_def d)
      with True books_device [OF ok d] show ?thesis by (simp add: allocated_on_drop [OF wf(2) a])
    next
      case False
      with that have "dget ds j = Some e" by (simp add: unreserve_def d)
      from books_device [OF ok this] False show ?thesis by (simp add: allocated_on_drop [OF wf(2) a])
    qed
    show "dget (unreserve a ds) (ma_device_id x) \<noteq> None \<and> 0 \<le> ma_allocated_mb x"
      if "dget (ddel q as) p = Some x" for p x
      using that books_allocation [OF ok, of p x] by (auto simp: unreserve_def d split: if_splits)
  qed
qed

lemma fits_unreserve:
  assumes "books_ok lk ds as" and "dget as q = Some a" and "fits r ds"
  shows "fits r (unreserve a ds)"
proof -
  obtain d where d: "dget ds (ma_device_id a) = Some d" and n: "0 \<le> ma_allocated_mb a"
    using books_allocation [OF assms(1,2)] by blast
  from assms(3) d have "gd_reserved_memory_mb d \<le> max 0 (gd_total_memory_mb d - r)" by (simp add: fits_def)
  with n have "gd_reserved_memory_mb d - ma_allocated_mb a \<le> max 0 (gd_total_memory_mb d - r)" by linarith
  with assms(3) show ?thesis by (simp add: fits_def unreserve_def d)
qed

lemma gpu_books_release: "gpu_books lk g \<Longrightarrow> gpu_books lk (snd (gpu_release i v g))"
  using books_ok_unreserve fits_unreserve
  by (auto simp: gpu_release_def gpu_books_def Let_def split: option.split)

lemma fold_unreserve:
  "books_ok lk ds as \<Longrightarrow> fits r ds \<Longrightarrow>
     books_ok lk (fold unreserve (dvals as) ds) [] \<and> fits r (fold unreserve (dvals as) ds)"
proof (induction as arbitrary: ds)
  case Nil
  then show ?case by simp
next
  case (Cons p as)
  obtain q a where p: "p = (q, a)" by (cases p)
  have wf: "dict_wf (p # as)" using books_wf [OF Cons.prems(1)] by simp
  then have "dget as q = None" by (simp add: p dict_wf_def dget_None_iff)
  then have d: "ddel q (p # as) = as" by (simp add: p ddel_absent)
  have a: "dget (p # as) q = Some a" by (simp add: p)
  from Cons.IH [OF books_ok_unreserve [OF Cons.prems(1) a, unfolded d]
      fits_unreserve [OF Cons.prems(1) a Cons.prems(2)]]
  show ?case by (simp add: p)
qed

lemma gpu_books_release_all: "gpu_books lk g \<Longrightarrow> gpu_books lk (snd (gpu_release_all g))"
  using fold_unreserve [of lk "gm_devices g" "gm_allocations g" "gm_memory_reserve_mb g"]
  by (simp add: gpu_books_def gpu_release_all_def)

lemma update_devices_get:
  "dget (update_devices bytes nvml ds) i = Some d \<Longrightarrow>
     \<exists>e. dget ds i = Some e \<and> gd_device_id d = gd_device_id e \<and>
       gd_reserved_memory_mb d = gd_reserved_memory_mb e \<and> gd_total_memory_mb d = gd_total_memory_mb e \<and>
       (gd_used_memory_mb d = gd_used_memory_mb e \<or>
        (\<exists>b. bytes i = Some b \<and> gd_used_memory_mb d = b / (1024 * 1024)))"
  by (induction bytes nvml ds rule: update_devices.induct)
    (auto simp: Let_def split: option.splits if_splits)

lemma update_devices_keys: "map fst (update_devices bytes nvml ds) = map fst ds"
  by (induction bytes nvml ds rule: update_devices.induct) (auto simp: Let_def split: option.split)

lemma gpu_books_update:
  assumes ok: "gpu_books lk g" and b: "\<And>i x. bytes i = Some x \<Longrightarrow> 0 \<le> x"
  shows "gpu_books lk (update_device_stats bytes nvml g)"
proof -
  let ?ds = "update_devices bytes nvml (gm_devices g)"
  have bk: "books_ok lk (gm_devices g) (gm_allocations g)" using ok by (simp add: gpu_books_def)
  have k: "dget ?ds j \<noteq> None \<longleftrightarrow> dget (gm_devices g) j \<noteq> None" for j
    by (simp add: dget_None_iff update_devices_keys del: not_None_eq)
  have "books_ok lk ?ds (gm_allocations g)"
  proof (rule books_okI)
    show "dict_wf ?ds" "dict_wf (gm_allocations g)"
      using books_wf [OF bk] by (simp_all add: dict_wf_def update_devices_keys)
    show "gd_device_id d = i \<and> gd_reserved_memory_mb d = allocated_on i (gm_allocations g) + lk i \<and> 0 \<le> gd_used_memory_mb d"
      if d: "dget ?ds i = Some d" for i d
    proof -
      obtain e where e: "dget (gm_devices g) i = Some e" "gd_device_id d = gd_device_id e"
        "gd_reserved_memory_mb d = gd_reserved_memory_mb e"
        "gd_used_memory_mb d = gd_used_memory_mb e \<or> (\<exists>x. bytes i = Some x \<and> gd_used_memory_mb d = x / (1024 * 1024))"
        using update_devices_get [OF d] by blast
      have "0 \<le> gd_used_memory_mb d" using books_device [OF bk e(1)] e(4) b by fastforce
      with books_device [OF bk e(1)] e show ?thesis by simp
    qed
    show "dget ?ds (ma_device_id a) \<noteq> None \<and> 0 \<le> ma_allocated_mb a"
      if "dget (gm_allocations g) q = Some a" for q a
      using books_allocation [OF bk that] k by blast
  qed
  moreover have "fits (gm_memory_reserve_mb g) ?ds"
    unfolding fits_def
  proof (intro allI impI)
    fix i d assume "dget ?ds i = Some d"
    from update_devices_get [OF this] ok
    show "gd_reserved_memory_mb d \<le> max 0 (gd_total_memory_mb d - gm_memory_reserve_mb g)"
      unfolding gpu_books_def fits_def by fastforce
  qed
  ultimately show ?thesis using ok by (simp add: update_device_stats_def gpu_books_def)
qed

text \<open>
  Calls on the manager. A model asks for a non-negative amount, and the framework reports a non-negative
  use. One caller at a time is inside \<open>allocate\<close>.
\<close>

inductive gstep :: "GPUManager \<Rightarrow> GPUManager \<Rightarrow> bool" where
  g_allocate: "0 \<le> required \<Longrightarrow> gstep g (snd (gpu_allocate now mb i v required dev g))"
| g_release: "gstep g (snd (gpu_release i v g))"
| g_release_all: "gstep g (snd (gpu_release_all g))"
| g_stats: "(\<And>i x. bytes i = Some x \<Longrightarrow> 0 \<le> x) \<Longrightarrow> gstep g (update_device_stats bytes nvml g)"

definition gpu_start :: "GPUManager \<Rightarrow> bool" where
  "gpu_start g \<longleftrightarrow> (\<exists>pr e r f. g = new_gpu_manager pr e r f)"

lemma gpu_ok_release: "gpu_ok g \<Longrightarrow> gpu_ok (snd (gpu_release i v g))"
  by (simp add: gpu_ok_def gpu_books_release)

lemma gpu_ok_known: "gpu_ok g \<Longrightarrow> devices_known (gm_devices g)"
  using books_known by (auto simp: gpu_ok_def gpu_books_def)

lemma gpu_ok_step: "gstep g h \<Longrightarrow> gpu_ok g \<Longrightarrow> gpu_ok h"
proof (induction rule: gstep.induct)
  case (g_allocate required g now mb i v dev)
  then show ?case
    by (cases "dget (gm_allocations g) (make_qualified_id i v)")
      (simp_all add: gpu_allocate_def find_allocation_def gpu_ok_make)
qed (simp_all add: gpu_ok_def gpu_books_release gpu_books_release_all gpu_books_update)

lemma add_devices_get:
  assumes "dget (add_devices i ps ds) j = Some d"
  shows "dget ds j = Some d \<or> (\<exists>n t. d = new_device j n t)"
  using assms by (induction i ps ds rule: add_devices.induct) (auto split: if_splits)

lemma add_devices_wf: "dict_wf ds \<Longrightarrow> dict_wf (add_devices i ps ds)"
  by (induction i ps ds rule: add_devices.induct) simp_all

lemma fresh_devices_ok:
  "books_ok (\<lambda>_. 0) (add_devices 0 ps []) [] \<and> fits r (add_devices 0 ps [])"
proof (intro conjI books_okI)
  fix i d assume "dget (add_devices 0 ps []) i = Some d"
  from add_devices_get [OF this] obtain n t where "d = new_device i n t" by auto
  then show "gd_device_id d = i" "gd_reserved_memory_mb d = allocated_on i [] + 0" "0 \<le> gd_used_memory_mb d"
    by (simp_all add: new_device_def allocated_on_def)
next
  show "fits r (add_devices 0 ps [])"
    unfolding fits_def by (auto dest!: add_devices_get simp: new_device_def)
qed (simp_all add: add_devices_wf)

lemma gpu_ok_start: "gpu_start g \<Longrightarrow> gpu_ok g"
proof -
  have "gpu_ok (new_gpu_manager pr e r f)" for pr e r f
    using fresh_devices_ok [of "[]" r] fresh_devices_ok [of _ r]
    by (cases pr) (simp_all add: new_gpu_manager_def detect_gpus_def gpu_ok_def gpu_books_def)
  then show "gpu_start g \<Longrightarrow> gpu_ok g" by (auto simp: gpu_start_def)
qed

interpretation gpu: invariant_system gpu_start gstep gpu_ok
  using gpu_ok_start gpu_ok_step by unfold_locales

section \<open>Callers between the two sections\<close>

text \<open>
  \<open>allocate\<close> gives its lock up between the look-up and the reservation. A caller that found no allocation waits with
  what it asked for. Other callers may come in between; \<open>race\<close> says whether one may ask for a version
  while another caller for the same version is between its sections. The calls of \<open>gstep\<close> are those with nobody in between.
\<close>

type_synonym caller = "string \<times> string \<times> real \<times> int option"

definition wants :: "caller \<Rightarrow> string" where
  "wants c = make_qualified_id (fst c) (fst (snd c))"

inductive gistep :: "bool \<Rightarrow> GPUManager \<times> caller list \<Rightarrow> GPUManager \<times> caller list \<Rightarrow> bool" for race where
  looks: "0 \<le> required \<Longrightarrow> race \<or> make_qualified_id i v \<notin> wants ` set cs \<Longrightarrow>
    gistep race (g, cs) (g, if find_allocation g i v = None then cs @ [(i, v, required, dev)] else cs)"
| reserves: "0 \<le> required \<Longrightarrow> gistep race (g, xs @ (i, v, required, dev) # ys) (snd (make_allocation now mb i v required dev g), xs @ ys)"
| releases: "gistep race (g, cs) (snd (gpu_release i v g), cs)"
| releases_all: "gistep race (g, cs) (snd (gpu_release_all g), cs)"
| measures: "(\<And>i x. bytes i = Some x \<Longrightarrow> 0 \<le> x) \<Longrightarrow> gistep race (g, cs) (update_device_stats bytes nvml g, cs)"

text \<open>Without a race nothing leaks, and a caller that waits is the only one for its version, which has no allocation.\<close>

definition gpu_world_ok :: "bool \<Rightarrow> GPUManager \<times> caller list \<Rightarrow> bool" where
  "gpu_world_ok race w \<longleftrightarrow> (\<exists>lk. gpu_books lk (fst w)) \<and>
     (\<not> race \<longrightarrow> gpu_ok (fst w) \<and> distinct (map wants (snd w)) \<and> (\<forall>c\<in>set (snd w). dget (gm_allocations (fst w)) (wants c) = None))"

lemma make_allocation_other:
  "q \<noteq> make_qualified_id i v \<Longrightarrow> dget (gm_allocations (snd (make_allocation now mb i v required dev g))) q = dget (gm_allocations g) q"
  by (auto simp: make_allocation_cases split: option.splits)

lemma release_no_more: "dget (gm_allocations g) q = None \<Longrightarrow> dget (gm_allocations (snd (gpu_release i v g))) q = None"
  by (auto simp: gpu_release_def Let_def split: option.splits)

lemma update_allocations [simp]: "gm_allocations (update_device_stats bytes nvml g) = gm_allocations g"
  by (simp add: update_device_stats_def)

lemma gpu_world_ok_step: "gistep race w w' \<Longrightarrow> gpu_world_ok race w \<Longrightarrow> gpu_world_ok race w'"
proof (induction rule: gistep.induct)
  case (looks required i v cs g dev)
  then show ?case by (auto simp: gpu_world_ok_def wants_def find_allocation_def split: option.splits)
next
  case (reserves required g xs i v dev ys now mb)
  let ?g = "snd (make_allocation now mb i v required dev g)"
  obtain lk where lk: "gpu_books lk g" using reserves by (auto simp: gpu_world_ok_def)
  from gpu_books_make [OF lk reserves(1) refl, of now mb i v dev] have "\<exists>lk. gpu_books lk ?g" by blast
  moreover have "gpu_ok ?g \<and> distinct (map wants (xs @ ys)) \<and> (\<forall>c\<in>set (xs @ ys). dget (gm_allocations ?g) (wants c) = None)" if "\<not> race"
  proof -
    have q: "wants (i, v, required, dev) = make_qualified_id i v" by (simp add: wants_def)
    have o: "gpu_ok g" "dget (gm_allocations g) (make_qualified_id i v) = None" "distinct (map wants (xs @ ys))"
      "\<forall>c\<in>set (xs @ ys). wants c \<noteq> make_qualified_id i v \<and> dget (gm_allocations g) (wants c) = None"
      using reserves that by (auto simp: gpu_world_ok_def q image_iff)
    show ?thesis using gpu_ok_make [OF o(1,2) reserves(1)] o(3,4) by (simp add: make_allocation_other)
  qed
  ultimately show ?case by (simp add: gpu_world_ok_def)
next
  case (releases g cs i v)
  then show ?case using gpu_books_release gpu_ok_release release_no_more by (fastforce simp: gpu_world_ok_def)
next
  case (releases_all g cs)
  then show ?case using gpu_books_release_all gpu_ok_step [OF g_release_all]
    by (fastforce simp: gpu_world_ok_def gpu_release_all_def)
next
  case (measures bytes g cs nvml)
  then show ?case using gpu_books_update [OF _ measures(1)] gpu_ok_step [OF g_stats, OF measures(1)]
    by (fastforce simp: gpu_world_ok_def)
qed

definition gpu_alone :: "GPUManager \<times> caller list \<Rightarrow> bool" where
  "gpu_alone w \<longleftrightarrow> gpu_start (fst w) \<and> snd w = []"

interpretation gpu_callers: invariant_system gpu_alone "gistep race" "gpu_world_ok race" for race
proof unfold_locales
  fix w assume "gpu_alone w"
  then have "gpu_ok (fst w)" "snd w = []" using gpu_ok_start by (simp_all add: gpu_alone_def)
  then show "gpu_world_ok race w" unfolding gpu_world_ok_def gpu_ok_def by auto
qed (rule gpu_world_ok_step)

text \<open>A whole call of \<open>allocate\<close> is one section after the other.\<close>

lemma allocate_in_two_steps:
  assumes "0 \<le> required"
  shows "(gistep race)\<^sup>*\<^sup>* (g, []) (snd (gpu_allocate now mb i v required dev g), [])"
proof -
  have l: "gistep race (g, []) (g, if find_allocation g i v = None then [] @ [(i, v, required, dev)] else [])"
    using assms by (intro gistep.looks) auto
  show ?thesis
  proof (cases "find_allocation g i v")
    case None
    have "gistep race (g, [] @ (i, v, required, dev) # []) (snd (make_allocation now mb i v required dev g), [] @ [])"
      using assms by (rule gistep.reserves)
    with l None show ?thesis by (auto simp: gpu_allocate_def intro: rtranclp.rtrancl_into_rtrancl)
  qed (use l in \<open>auto simp: gpu_allocate_def\<close>)
qed

section \<open>Properties\<close>

text \<open>
  C29. No sequence of allocations, releases and measurements overbooks a device, however the calls overlap. Any number of
  callers may be between the look-up and the reservation of \<open>allocate\<close>. In every state the memory reserved on a
  device covers what its allocations have, and it does not exceed the memory of the device less the part kept
  for the framework. As long as no caller asks for a version while another one for the same version is between its two
  sections, it is exactly what the allocations have; after such a race it can stay above it (\<open>gpu_race_leaks\<close>).
  Requests are taken not to be negative, which the code does not check (\<open>negative_request_overbooks\<close>).
\<close>

theorem gpu_never_overbooked:
  assumes "reach gpu_alone (gistep race) (g, callers)" and "dget (gm_devices g) i = Some d"
  shows "allocated_on i (gm_allocations g) \<le> gd_reserved_memory_mb d \<and>
    gd_reserved_memory_mb d \<le> max 0 (gd_total_memory_mb d - gm_memory_reserve_mb g) \<and>
    (\<not> race \<longrightarrow> gd_reserved_memory_mb d = allocated_on i (gm_allocations g))"
proof -
  from gpu_callers.reach_invar [OF assms(1)] obtain lk where lk: "gpu_books lk g" and n: "\<not> race \<longrightarrow> gpu_books (\<lambda>_. 0) g"
    by (auto simp: gpu_world_ok_def gpu_ok_def)
  have "gd_reserved_memory_mb d = allocated_on i (gm_allocations g) + k i" if "gpu_books k g" for k
    using that books_device [OF _ assms(2)] by (auto simp: gpu_books_def)
  then show ?thesis using lk n assms(2) by (fastforce simp: gpu_books_def fits_def)
qed

definition demo_gpu :: GPUManager where
  "demo_gpu = new_gpu_manager (CudaDevices [(''A'', 8 * 1024 * 1024 * 1024)] False) True 512 True"

lemma demo_gpu_devices: "gm_devices demo_gpu = [(0, new_device 0 ''A'' 8192)]"
  "gm_allocations demo_gpu = []" "gpu_is_available demo_gpu" "gm_memory_reserve_mb demo_gpu = 512"
  by (simp_all add: demo_gpu_def new_gpu_manager_def detect_gpus_def gpu_is_available_def)

lemma demo_gpu_start: "gpu_start demo_gpu"
  unfolding gpu_start_def demo_gpu_def by blast

text \<open>Two callers ask for the same version before either has reserved. Both reservations fit.\<close>

theorem gpu_never_overbooked_witness:
  "\<exists>g1 g2 d. make_allocation 0 (\<lambda>_. []) ''fall'' ''1'' 2048 None demo_gpu = (Inr ''cuda:0'', g1)
     \<and> make_allocation 0 (\<lambda>_. []) ''fall'' ''1'' 2048 None g1 = (Inr ''cuda:0'', g2)
     \<and> dget (gm_devices g2) 0 = Some d \<and> gd_reserved_memory_mb d = 4096
     \<and> allocated_on 0 (gm_allocations g2) \<le> gd_reserved_memory_mb d \<and> gd_reserved_memory_mb d \<le> 7680"
proof -
  let ?c = "(''fall'', ''1'', 2048, None) :: caller"
  define g1 where "g1 = snd (make_allocation 0 (\<lambda>_. []) ''fall'' ''1'' 2048 None demo_gpu)"
  define g2 where "g2 = snd (make_allocation 0 (\<lambda>_. []) ''fall'' ''1'' 2048 None g1)"
  have z: "''cuda:'' @ show_int 0 = ''cuda:0''" by code_simp
  note run = make_allocation_cases target_device_def free_memory_mb_def new_device_def gpu_is_available_def
  have 1: "make_allocation 0 (\<lambda>_. []) ''fall'' ''1'' 2048 None demo_gpu = (Inr ''cuda:0'', g1)"
    "gm_devices g1 = [(0, (new_device 0 ''A'' 8192)\<lparr>gd_reserved_memory_mb := 2048\<rparr>)]" "gm_status g1 = GPU_AVAILABLE"
    "gm_memory_reserve_mb g1 = 512"
    using demo_gpu_devices z by (simp_all add: g1_def run)
  have 2: "make_allocation 0 (\<lambda>_. []) ''fall'' ''1'' 2048 None g1 = (Inr ''cuda:0'', g2)"
    "gm_devices g2 = [(0, (new_device 0 ''A'' 8192)\<lparr>gd_reserved_memory_mb := 4096\<rparr>)]" "gm_memory_reserve_mb g2 = 512"
    using 1(2-4) z by (simp_all add: g2_def run)
  have free: "find_allocation demo_gpu ''fall'' ''1'' = None" by (simp add: find_allocation_def demo_gpu_devices)
  have r: "reach gpu_alone (gistep True) (demo_gpu, [])" by (rule reach_init) (simp add: gpu_alone_def demo_gpu_start)
  note run2 = reach_step [where ini = gpu_alone and step = "gistep True"]
  have l: "gistep True (demo_gpu, cs) (demo_gpu, cs @ [?c])" for cs
    using gistep.looks [of 2048 True "''fall''" "''1''" cs demo_gpu None] free by simp
  have "gistep True (demo_gpu, [] @ ?c # [?c]) (g1, [] @ [?c])" "gistep True (g1, [] @ ?c # []) (g2, [] @ [])"
    unfolding g1_def g2_def by (rule gistep.reserves, simp)+
  then have m: "gistep True (demo_gpu, [?c] @ [?c]) (g1, [?c])" "gistep True (g1, [?c]) (g2, [])" by simp_all
  from l [of "[]"] have l1: "gistep True (demo_gpu, []) (demo_gpu, [?c])" by simp
  have "reach gpu_alone (gistep True) (g2, [])"
    using run2 [OF run2 [OF run2 [OF run2 [OF r l1] l] m(1)] m(2)] .
  note facts = gpu_never_overbooked [OF this, of 0]
  define d where "d = (new_device 0 ''A'' 8192)\<lparr>gd_reserved_memory_mb := 4096\<rparr>"
  have d: "dget (gm_devices g2) 0 = Some d" "gd_reserved_memory_mb d = 4096" "gd_total_memory_mb d = 8192"
    unfolding 2(2) by (simp_all add: d_def new_device_def)
  have "allocated_on 0 (gm_allocations g2) \<le> gd_reserved_memory_mb d" "gd_reserved_memory_mb d \<le> 7680"
    using facts [OF d(1)] unfolding d(3) 2(3) by simp_all
  then show ?thesis using 1(1) 2(1) d(1,2) by blast
qed

text \<open>
  A negative amount is taken: it lowers what is reserved, and then more is given out than the device has.
\<close>

lemma negative_request_overbooks:
  "\<exists>g1 g2 a. gpu_allocate 0 (\<lambda>_. []) ''fall'' ''1'' (- 4096) None demo_gpu = (Inr ''cuda:0'', g1)
     \<and> gpu_allocate 0 (\<lambda>_. []) ''ppe'' ''1'' 11000 None g1 = (Inr ''cuda:0'', g2)
     \<and> dget (gm_allocations g2) ''ppe:1'' = Some a \<and> ma_allocated_mb a = 11000 \<and> 8192 < ma_allocated_mb a"
proof -
  define g1 where "g1 = snd (gpu_allocate 0 (\<lambda>_. []) ''fall'' ''1'' (- 4096) None demo_gpu)"
  have z: "''cuda:'' @ show_int 0 = ''cuda:0''" by code_simp
  note run = gpu_allocate_def find_allocation_def make_allocation_cases target_device_def free_memory_mb_def new_device_def
    gpu_is_available_def make_qualified_id_def
  have 1: "gpu_allocate 0 (\<lambda>_. []) ''fall'' ''1'' (- 4096) None demo_gpu = (Inr ''cuda:0'', g1)"
    "gm_devices g1 = [(0, (new_device 0 ''A'' 8192)\<lparr>gd_reserved_memory_mb := - 4096\<rparr>)]" "gm_status g1 = GPU_AVAILABLE"
    "gm_memory_reserve_mb g1 = 512" "dget (gm_allocations g1) ''ppe:1'' = None"
    using demo_gpu_devices z by (simp_all add: g1_def run)
  then show ?thesis using z by (simp add: run)
qed

text \<open>
  An allocation goes to a device with the most free memory, and it falls back to the CPU (or raises
  when that is forbidden) only when no device has room; a model that holds an allocation gets its
  device again without reserving anything.
\<close>

theorem gpu_allocate_choice:
  assumes "gpu_ok g" and "gpu_is_available g"
    and "dget (gm_allocations g) (make_qualified_id i v) = None"
  shows "case gpu_allocate now mb i v required None g of
      (Inr dev, g') \<Rightarrow>
        (\<exists>d. dget (gm_devices g) (gd_device_id d) = Some d \<and> dev = ''cuda:'' @ show_int (gd_device_id d) \<and>
           find_allocation g' i v = Some dev \<and> required \<le> free_memory_mb d - gm_memory_reserve_mb g \<and>
           (\<forall>e\<in>set (dvals (gm_devices g)). required \<le> free_memory_mb e - gm_memory_reserve_mb g \<longrightarrow>
              free_memory_mb e \<le> free_memory_mb d)) \<or>
        (dev = ''cpu'' \<and> gm_fallback_to_cpu g \<and> g' = g \<and> \<not> can_allocate g i required None)
    | (Inl e, g') \<Rightarrow> \<not> gm_fallback_to_cpu g \<and> g' = g \<and> \<not> can_allocate g i required None"
proof (cases "target_device g required None")
  case None
  then have "\<not> can_allocate g i required None"
    using pick_device_best [of _ "dvals (gm_devices g)" None required "gm_memory_reserve_mb g"]
    by (auto simp: target_device_def can_allocate_def)
  with None assms show ?thesis
    by (simp add: gpu_allocate_def find_allocation_def make_allocation_cases)
next
  case (Some d)
  note t = target_device_some [OF gpu_ok_known [OF assms(1)] Some]
  have "\<forall>e\<in>set (dvals (gm_devices g)). required \<le> free_memory_mb e - gm_memory_reserve_mb g \<longrightarrow>
      free_memory_mb e \<le> free_memory_mb d"
    using Some pick_device_best [of _ "dvals (gm_devices g)" None required "gm_memory_reserve_mb g"]
    by (auto simp: target_device_def)
  with Some assms t show ?thesis
    by (auto simp: gpu_allocate_def find_allocation_def make_allocation_cases)
qed

theorem gpu_allocate_choice_witness:
  "\<exists>g. gpu_allocate 0 (\<lambda>_. []) ''fall'' ''1'' 2048 None demo_gpu = (Inr ''cuda:0'', g)"
proof -
  note b = gpu_ok_start [OF demo_gpu_start]
  have n: "dget (gm_allocations demo_gpu) (make_qualified_id ''fall'' ''1'') = None"
    by (simp add: demo_gpu_devices)
  have c: "can_allocate demo_gpu ''fall'' 2048 None"
    by (simp add: can_allocate_def demo_gpu_devices free_memory_mb_def new_device_def)
  obtain x g where x: "gpu_allocate 0 (\<lambda>_. []) ''fall'' ''1'' 2048 None demo_gpu = (x, g)" by fastforce
  have z: "''cuda:'' @ show_int 0 = ''cuda:0''" by code_simp
  from gpu_allocate_choice [OF b demo_gpu_devices(3) n, where now = 0 and mb = "\<lambda>_. []" and required = 2048] x c z show ?thesis
    by (auto simp: demo_gpu_devices split: sum.splits if_splits)
qed

text \<open>What the devices have reserved together.\<close>

definition total_reserved :: "GPUManager \<Rightarrow> real" where
  "total_reserved g = dsum gd_reserved_memory_mb (gm_devices g)"

text \<open>A reservation that succeeded on a device.\<close>

lemma make_allocation_on_device:
  assumes k: "devices_known (gm_devices g)"
    and m: "make_allocation now mb i v required dev g = (Inr x, g')" and x: "x \<noteq> ''cpu''"
  shows "devices_known (gm_devices g') \<and> total_reserved g' = total_reserved g + required \<and>
    (\<exists>a. dget (gm_allocations g') (make_qualified_id i v) = Some a \<and> ma_allocated_mb a = required \<and>
       dget (gm_devices g') (ma_device_id a) \<noteq> None)"
proof -
  obtain d where d: "(if gpu_is_available g then target_device g required dev else None) = Some d"
    using m x by (cases "if gpu_is_available g then target_device g required dev else None")
      (auto simp: make_allocation_cases split: if_splits)
  then have "target_device g required dev = Some d" by (simp split: if_splits)
  from target_device_some [OF k this] have o: "dget (gm_devices g) (gd_device_id d) = Some d" by simp
  let ?e = "d\<lparr>gd_reserved_memory_mb := gd_reserved_memory_mb d + required\<rparr>"
  have "g' = snd (make_allocation now mb i v required dev g)" using m by simp
  then have ds: "gm_devices g' = dput (gd_device_id d) ?e (gm_devices g)"
    and as: "gm_allocations g' = dput (make_qualified_id i v)
      \<lparr>ma_model_id = i, ma_version = v, ma_device_id = gd_device_id d, ma_allocated_mb = required,
       ma_allocated_at = now\<rparr> (gm_allocations g)"
    by (simp_all add: make_allocation_cases d)
  have "devices_known (gm_devices g')"
    using k unfolding ds devices_known_def by simp
  then show ?thesis by (simp add: total_reserved_def ds as dsum_dput_old [OF o])
qed

lemma total_reserved_release:
  assumes "dget (gm_allocations g) (make_qualified_id i v) = Some a"
    and "dget (gm_devices g) (ma_device_id a) \<noteq> None"
  shows "total_reserved (snd (gpu_release i v g)) = total_reserved g - ma_allocated_mb a \<and>
    find_allocation (snd (gpu_release i v g)) i v = None"
  using assms by (auto simp: gpu_release_def Let_def total_reserved_def unreserve_def dsum_dput_old
      find_allocation_def)

text \<open>
  Between its two locked sections \<open>allocate\<close> can be overtaken: when two callers have both found that the
  model has no allocation and both then reserve, the second allocation replaces the first in the
  table, and releasing the model leaves the first amount reserved for ever.
\<close>

theorem gpu_race_leaks:
  assumes ok: "gpu_ok g" and none: "find_allocation g i v = None"
    and first: "make_allocation n1 mb i v required dev g = (Inr d1, g1)" "d1 \<noteq> ''cpu''"
    and second: "make_allocation n2 mb i v required dev g1 = (Inr d2, g2)" "d2 \<noteq> ''cpu''"
  shows "total_reserved (snd (gpu_release i v g2)) = total_reserved g + required \<and>
    find_allocation (snd (gpu_release i v g2)) i v = None"
proof -
  have "devices_known (gm_devices g)" by (rule gpu_ok_known [OF ok])
  from make_allocation_on_device [OF this first]
  have k: "devices_known (gm_devices g1)" and 1: "total_reserved g1 = total_reserved g + required" by simp_all
  from make_allocation_on_device [OF k second] 1 total_reserved_release [of g2 i v] show ?thesis by auto
qed

theorem gpu_race_leaks_witness:
  "\<exists>g. find_allocation g ''fall'' ''1'' = None \<and> total_reserved g = 2048"
proof -
  obtain x g1 where 1: "make_allocation 0 (\<lambda>_. []) ''fall'' ''1'' 2048 None demo_gpu = (x, g1)" by fastforce
  obtain y g2 where 2: "make_allocation 0 (\<lambda>_. []) ''fall'' ''1'' 2048 None g1 = (y, g2)" by fastforce
  have x: "x = Inr (''cuda:'' @ show_int 0)"
    and g1: "gm_devices g1 = [(0, (new_device 0 ''A'' 8192)\<lparr>gd_reserved_memory_mb := 2048\<rparr>)]"
      "gm_status g1 = gm_status demo_gpu" "gm_memory_reserve_mb g1 = 512"
    using 1 by (auto simp: make_allocation_cases demo_gpu_devices target_device_def free_memory_mb_def
        new_device_def)
  then have "gpu_is_available g1" using demo_gpu_devices(3) by (simp add: gpu_is_available_def)
  with 2 g1 have "y = Inr (''cuda:'' @ show_int 0)"
    by (auto simp: make_allocation_cases target_device_def free_memory_mb_def new_device_def)
  moreover have "find_allocation demo_gpu ''fall'' ''1'' = None" "total_reserved demo_gpu = 0"
    by (simp_all add: find_allocation_def demo_gpu_devices total_reserved_def new_device_def)
  ultimately show ?thesis
    using gpu_race_leaks [OF gpu_ok_start [OF demo_gpu_start], of "''fall''" "''1''" 0 "\<lambda>_. []" 2048 None _ g1 0 _ g2] 1 2 x
    by fastforce
qed

lemma release_restores:
  assumes ok: "gpu_ok g" and none: "find_allocation g i v = None"
    and a: "gpu_allocate now mb i v required dev g = (res, g')"
  shows "map_option free_memory_mb (dget (gm_devices (snd (gpu_release i v g'))) k) =
    map_option free_memory_mb (dget (gm_devices g) k)"
proof -
  have "dget (gm_allocations g) (make_qualified_id i v) = None"
    using none by (simp add: find_allocation_def split: option.splits)
  moreover have "devices_known (gm_devices g)" by (rule gpu_ok_known [OF ok])
  ultimately show ?thesis
    using a target_device_some [of g required dev]
    by (auto simp: gpu_allocate_def none make_allocation_cases gpu_release_def Let_def unreserve_def
        free_memory_mb_def split: option.splits if_splits)
qed

text \<open>Releasing what was just allocated gives the memory of every device back.\<close>

theorem allocate_release_roundtrip:
  assumes "gpu_ok g" and "find_allocation g i v = None"
    and "gpu_allocate now mb i v required dev g = (res, g')"
  shows "map_option free_memory_mb (dget (gm_devices (snd (gpu_release i v g'))) k) =
    map_option free_memory_mb (dget (gm_devices g) k)"
  by (rule release_restores [OF assms])

theorem allocate_release_roundtrip_witness:
  "map_option free_memory_mb (dget (gm_devices (snd (gpu_release ''fall'' ''1''
     (snd (gpu_allocate 0 (\<lambda>_. []) ''fall'' ''1'' 2048 None demo_gpu))))) 0) = Some 8192"
proof -
  have "find_allocation demo_gpu ''fall'' ''1'' = None"
    by (simp add: find_allocation_def demo_gpu_devices)
  from allocate_release_roundtrip [OF gpu_ok_start [OF demo_gpu_start] this, of 0 "\<lambda>_. []" 2048 None _ _ 0]
  show ?thesis by (simp add: prod_eq_iff demo_gpu_devices new_device_def free_memory_mb_def)
qed

end
