(* ===== verification/Loader.thy ===== *)
theory Loader
  imports GpuManager RuntimeErrors
begin

text \<open>
  \<open>ai/runtime/loader.py\<close>: importing a model's modules, running its custom loader, the warmup, the GPU
  memory held for it, and unloading. What a plugin file does when it is executed and what its functions
  answer are parameters, and so is which modules a plugin file imports itself from its directory, which the loader
  puts on \<open>sys.path\<close> for that time. \<open>sys.modules\<close> is kept as the list of the names that came into it this way;
  \<open>sys.path\<close> is the same before and after every import.
\<close>

section \<open>Plugin code\<close>

text \<open>Values of frames and outputs are \<open>'v\<close>, model instances \<open>'i\<close>. A function gets the index of its call.\<close>

type_synonym 'v transform = "nat \<Rightarrow> 'v \<Rightarrow> string + 'v"
type_synonym ('v, 'i) inference = "nat \<Rightarrow> 'v \<Rightarrow> 'i option \<Rightarrow> string + 'v"

datatype 'i load_outcome = Instance "'i option" | OutOfMemory string | LoadRaises string

text \<open>\<open>inspect.signature\<close> of the loader function: with a \<open>device\<close> parameter, without, or raising.\<close>

datatype signature = DeviceAware | Legacy | NoSignature string

record ('v, 'i) plugin_module =
  mo_infer :: "('v, 'i) inference option"
  mo_infer_callable :: bool
  mo_preprocess :: "'v transform option"
  mo_postprocess :: "'v transform option"
  mo_load :: "(signature \<times> (string option \<Rightarrow> 'i load_outcome)) option"

datatype ('v, 'i) import_outcome =
    NoSpec string
  | Executed "('v, 'i) plugin_module"
  | SyntaxErr string "int option" "int option"
  | ImportErr string
  | OtherErr string

record ('v, 'i) loader_env =
  le_exists :: "path \<Rightarrow> bool"
  le_import :: "string \<Rightarrow> path \<Rightarrow> ('v, 'i) import_outcome"
  le_side_imports :: "string \<Rightarrow> path \<Rightarrow> string list"
  le_zeros :: "int \<Rightarrow> int \<Rightarrow> int \<Rightarrow> string + 'v"
  le_mb :: "real \<Rightarrow> string"
  le_traceback :: string
  le_now :: real
  le_start :: real
  le_loaded :: real
  le_end :: real

section \<open>The loader\<close>

record ('v, 'i) LoadedModel =
  lm_model_id :: string
  lm_version :: string
  lm_infer :: "('v, 'i) inference"
  lm_preprocess :: "'v transform option"
  lm_postprocess :: "'v transform option"
  lm_model_instance :: "'i option"
  lm_load_time_ms :: int
  lm_device :: string

record ('v, 'i) LoadResult =
  lr_success :: bool
  lr_loaded_model :: "('v, 'i) LoadedModel option"
  lr_error :: "ModelError option"
  lr_load_time_ms :: int

definition load_ok :: "('v, 'i) LoadedModel \<Rightarrow> int \<Rightarrow> ('v, 'i) LoadResult" where
  "load_ok m ms = \<lparr>lr_success = True, lr_loaded_model = Some m, lr_error = None, lr_load_time_ms = ms\<rparr>"

definition load_fail :: "ModelError \<Rightarrow> ('v, 'i) LoadResult" where
  "load_fail e = \<lparr>lr_success = False, lr_loaded_model = None, lr_error = Some e, lr_load_time_ms = 0\<rparr>"

definition loaded_repr :: "('v, 'i) LoadedModel \<Rightarrow> string" where
  "loaded_repr m = ''LoadedModel('' @ lm_model_id m @ '':'' @ lm_version m @ '', device='' @ lm_device m @ '')''"

record ModelLoader =
  ld_load_timeout_ms :: int
  ld_warmup_enabled :: bool
  ld_warmup_timeout_ms :: int
  ld_gpu_manager :: "GPUManager option"
  ld_default_memory_estimate_mb :: real
  ld_loaded_modules :: "(string, string list) dict"
  ld_gpu_allocations :: "(string, string) dict"
  ld_sys_modules :: "string list"

definition new_loader :: "bool \<Rightarrow> GPUManager option \<Rightarrow> ModelLoader" where
  "new_loader warmup_enabled gpu_manager =
     \<lparr>ld_load_timeout_ms = 60000, ld_warmup_enabled = warmup_enabled, ld_warmup_timeout_ms = 30000,
      ld_gpu_manager = gpu_manager, ld_default_memory_estimate_mb = 2048, ld_loaded_modules = [],
      ld_gpu_allocations = [], ld_sys_modules = []\<rparr>"

subsection \<open>Importing\<close>

definition plugin_error ::
  "('v, 'i) loader_env \<Rightarrow> ModelVersionDescriptor \<Rightarrow> ErrorCode \<Rightarrow> string \<Rightarrow> path \<Rightarrow> string option \<Rightarrow> (string, jval) dict \<Rightarrow> ModelError" where
  "plugin_error env d code message p cause details =
     load_error (le_now env) code message (Some (vd_model_id d)) (Some (vd_version d)) (Some (path_str p)) cause details"

definition import_module ::
  "('v, 'i) loader_env \<Rightarrow> ModelVersionDescriptor \<Rightarrow> path \<Rightarrow> string \<Rightarrow> ModelLoader \<Rightarrow> ('v, 'i) import_outcome \<times> ModelLoader" where
  "import_module env d p module_type s =
     (let qid = qualified_id d;
          module_name = ''ruth_model_'' @ vd_model_id d @ ''_'' @ vd_version d @ ''_'' @ module_type;
          s1 = s\<lparr>ld_loaded_modules := dput qid (dget_or (ld_loaded_modules s) qid [] @ [module_name]) (ld_loaded_modules s)\<rparr>
      in case le_import env module_name p of
           NoSpec m \<Rightarrow> (ImportErr m, s1)
         | r \<Rightarrow> (r, s1\<lparr>ld_sys_modules :=
               fold List.insert (le_side_imports env module_name p) (List.insert module_name (ld_sys_modules s1))\<rparr>))"

text \<open>The message of an exception of \<open>import_module\<close>; \<open>None\<close> when it returned.\<close>

fun import_exception :: "('v, 'i) import_outcome \<Rightarrow> string option" where
  "import_exception (Executed m) = None"
| "import_exception (NoSpec m) = Some m"
| "import_exception (SyntaxErr m l c) = Some m"
| "import_exception (ImportErr m) = Some m"
| "import_exception (OtherErr m) = Some m"

definition import_inference ::
  "('v, 'i) loader_env \<Rightarrow> ModelVersionDescriptor \<Rightarrow> ModelLoader \<Rightarrow> (ModelError + ('v, 'i) inference) \<times> ModelLoader" where
  "import_inference env d s =
     (let p = inference_path d
      in if \<not> le_exists env p then
           (Inl (plugin_error env d LOAD_IMPORT_FAILED (''Inference module not found: '' @ path_str p) p None []), s)
         else
           (case import_module env d p ''inference'' s of
              (Executed m, s1) \<Rightarrow>
                (case mo_infer m of
                   None \<Rightarrow> (Inl (plugin_error env d LOAD_INFER_NOT_FOUND
                     ''infer() function not found in inference module'' p None []), s1)
                 | Some f \<Rightarrow>
                     (if mo_infer_callable m then Inr f
                      else Inl (plugin_error env d LOAD_INFER_NOT_FOUND ''infer attribute exists but is not callable'' p None []), s1))
            | (SyntaxErr m line offset, s1) \<Rightarrow>
                (Inl (plugin_error env d LOAD_SYNTAX_ERROR (''Syntax error in inference module: '' @ m) p (Some m)
                   [(''line'', jopt JInt line), (''offset'', jopt JInt offset)]), s1)
            | (ImportErr m, s1) \<Rightarrow>
                (Inl (plugin_error env d LOAD_MISSING_DEPENDENCY (''Missing dependency in inference module: '' @ m) p (Some m) []), s1)
            | (NoSpec m, s1) \<Rightarrow>
                (Inl (plugin_error env d LOAD_MISSING_DEPENDENCY (''Missing dependency in inference module: '' @ m) p (Some m) []), s1)
            | (OtherErr m, s1) \<Rightarrow>
                (Inl (plugin_error env d LOAD_IMPORT_FAILED (''Failed to import inference module: '' @ m) p (Some m) []), s1)))"

text \<open>\<open>_import_preprocess\<close> and \<open>_import_postprocess\<close> differ in the names only.\<close>

definition import_optional ::
  "('v, 'i) loader_env \<Rightarrow> ModelVersionDescriptor \<Rightarrow> string option \<Rightarrow> string \<Rightarrow> ErrorCode \<Rightarrow>
   (('v, 'i) plugin_module \<Rightarrow> 'v transform option) \<Rightarrow> ModelLoader \<Rightarrow> (ModelError + 'v transform option) \<times> ModelLoader" where
  "import_optional env d entry name missing attr s =
     (if \<not> truthy_str entry then (Inr None, s)
      else
        (let p = path_div (vd_directory_path d) (the entry)
         in if \<not> le_exists env p then (Inr None, s)
            else
              (case import_module env d p name s of
                 (Executed m, s1) \<Rightarrow>
                   (case attr m of
                      None \<Rightarrow> (Inl (plugin_error env d missing (name @ ''() function not found in '' @ name @ ''ing module'') p None []), s1)
                    | Some f \<Rightarrow> (Inr (Some f), s1))
               | (r, s1) \<Rightarrow>
                   (Inl (plugin_error env d LOAD_IMPORT_FAILED
                      (''Failed to import '' @ name @ ''ing module: '' @ the (import_exception r)) p (import_exception r) []), s1))))"

definition import_preprocess ::
  "('v, 'i) loader_env \<Rightarrow> ModelVersionDescriptor \<Rightarrow> ModelLoader \<Rightarrow> (ModelError + 'v transform option) \<times> ModelLoader" where
  "import_preprocess env d s =
     import_optional env d (ep_preprocess (vd_entry_points d)) ''preprocess'' LOAD_PREPROCESS_NOT_FOUND mo_preprocess s"

definition import_postprocess ::
  "('v, 'i) loader_env \<Rightarrow> ModelVersionDescriptor \<Rightarrow> ModelLoader \<Rightarrow> (ModelError + 'v transform option) \<times> ModelLoader" where
  "import_postprocess env d s =
     import_optional env d (ep_postprocess (vd_entry_points d)) ''postprocess'' LOAD_POSTPROCESS_NOT_FOUND mo_postprocess s"

definition call_loader ::
  "('v, 'i) loader_env \<Rightarrow> ModelVersionDescriptor \<Rightarrow> string \<Rightarrow> signature \<times> (string option \<Rightarrow> 'i load_outcome) \<Rightarrow> ModelError + 'i option" where
  "call_loader env d device l =
     (let w = weights_path d;
          outcome = (case fst l of DeviceAware \<Rightarrow> snd l (Some device) | Legacy \<Rightarrow> snd l None | NoSignature m \<Rightarrow> LoadRaises m)
      in case outcome of
           Instance i \<Rightarrow> Inr i
         | OutOfMemory m \<Rightarrow> Inl (plugin_error env d LOAD_OUT_OF_MEMORY ''Out of memory while loading model weights'' w (Some m) [])
         | LoadRaises m \<Rightarrow> Inl (plugin_error env d LOAD_WEIGHTS_FAILED (''Failed to load model weights: '' @ m) w (Some m) []))"

definition load_model_instance ::
  "('v, 'i) loader_env \<Rightarrow> ModelVersionDescriptor \<Rightarrow> string \<Rightarrow> ModelLoader \<Rightarrow> (ModelError + 'i option) \<times> ModelLoader" where
  "load_model_instance env d device s =
     (let entry = ep_loader (vd_entry_points d)
      in if \<not> truthy_str entry then (Inr None, s)
         else
           (let p = path_div (vd_directory_path d) (the entry)
            in if \<not> le_exists env p then (Inr None, s)
               else
                 (case import_module env d p ''loader'' s of
                    (Executed m, s1) \<Rightarrow>
                      (case mo_load m of None \<Rightarrow> (Inr None, s1) | Some l \<Rightarrow> (call_loader env d device l, s1))
                  | (r, s1) \<Rightarrow>
                      (Inl (plugin_error env d LOAD_WEIGHTS_FAILED
                         (''Failed to import loader module: '' @ the (import_exception r)) p (import_exception r) []), s1))))"

subsection \<open>Warmup\<close>

text \<open>Iteration \<open>k\<close>: the text of the exception it raises, if any.\<close>

definition warmup_iteration :: "('v, 'i) LoadedModel \<Rightarrow> 'v \<Rightarrow> nat \<Rightarrow> string option" where
  "warmup_iteration lm dummy k =
     (case (case lm_preprocess lm of None \<Rightarrow> Inr dummy | Some f \<Rightarrow> f k dummy) of
        Inl e \<Rightarrow> Some e
      | Inr processed \<Rightarrow>
          (case lm_infer lm k processed (lm_model_instance lm) of
             Inl e \<Rightarrow> Some e
           | Inr result \<Rightarrow>
               (case lm_postprocess lm of
                  None \<Rightarrow> None
                | Some f \<Rightarrow> (case f k result of Inl e \<Rightarrow> Some e | Inr _ \<Rightarrow> None))))"

fun warmup_loop :: "('v, 'i) LoadedModel \<Rightarrow> 'v \<Rightarrow> nat \<Rightarrow> nat \<Rightarrow> string option" where
  "warmup_loop lm dummy k 0 = None"
| "warmup_loop lm dummy k (Suc n) =
     (case warmup_iteration lm dummy k of Some e \<Rightarrow> Some e | None \<Rightarrow> warmup_loop lm dummy (Suc k) n)"

text \<open>A left result is the exception of \<open>np.zeros\<close>, which stands outside the \<open>try\<close>.\<close>

definition run_warmup :: "('v, 'i) loader_env \<Rightarrow> ('v, 'i) LoadedModel \<Rightarrow> ModelVersionDescriptor \<Rightarrow> string + ModelError option" where
  "run_warmup env lm d =
     (let n = ph_warmup_iterations (vd_performance d); i = vd_input_spec d
      in if n \<le> 0 then Inr None
         else case le_zeros env (is_min_height i) (is_min_width i) (is_channels i) of
                Inl e \<Rightarrow> Inl e
              | Inr dummy \<Rightarrow>
                  Inr (map_option (\<lambda>e. load_error (le_now env) LOAD_WARMUP_FAILED (''Warmup inference failed: '' @ e)
                     (Some (lm_model_id lm)) (Some (lm_version lm)) None (Some e) [(''traceback'', JStr (le_traceback env))])
                   (warmup_loop lm dummy 0 (nat n))))"

subsection \<open>GPU memory\<close>

definition required_memory :: "ModelLoader \<Rightarrow> ModelVersionDescriptor \<Rightarrow> real" where
  "required_memory s d =
     (case rl_max_memory_mb (vd_limits d) of
        Some m \<Rightarrow> if m \<noteq> 0 then of_int m else ld_default_memory_estimate_mb s
      | None \<Rightarrow> ld_default_memory_estimate_mb s)"

definition allocate_device ::
  "('v, 'i) loader_env \<Rightarrow> ModelVersionDescriptor \<Rightarrow> ModelLoader \<Rightarrow> string \<times> ModelLoader" where
  "allocate_device env d s =
     (case ld_gpu_manager s of
        None \<Rightarrow> (''cpu'', s)
      | Some g \<Rightarrow>
          (let mb = required_memory s d
           in if \<not> can_allocate g (vd_model_id d) mb None then (''cpu'', s)
              else case gpu_allocate (le_now env) (le_mb env) (vd_model_id d) (vd_version d) mb None g of
                     (Inr device, g1) \<Rightarrow>
                       (device, s\<lparr>ld_gpu_manager := Some g1,
                          ld_gpu_allocations := dput (qualified_id d) device (ld_gpu_allocations s)\<rparr>)
                   | (Inl e, g1) \<Rightarrow> (''cpu'', s\<lparr>ld_gpu_manager := Some g1\<rparr>)))"

definition is_cuda :: "string \<Rightarrow> bool" where
  "is_cuda device \<longleftrightarrow> take 4 device = ''cuda''"

definition release_device :: "string \<Rightarrow> string \<Rightarrow> ModelLoader \<Rightarrow> ModelLoader" where
  "release_device model_id version s =
     (let qid = make_qualified_id model_id version
      in case dget (ld_gpu_allocations s) qid of
           None \<Rightarrow> s
         | Some device \<Rightarrow>
             (let s1 = s\<lparr>ld_gpu_allocations := ddel qid (ld_gpu_allocations s)\<rparr>
              in case ld_gpu_manager s1 of
                   None \<Rightarrow> s1
                 | Some g \<Rightarrow>
                     if is_cuda device then s1\<lparr>ld_gpu_manager := Some (snd (gpu_release model_id version g))\<rparr> else s1))"

subsection \<open>Load and unload\<close>

datatype load_failure = LoadErrorRaised ModelError | OtherRaised string

text \<open>Python's \<open>int\<close> of a non-negative number of milliseconds.\<close>

definition elapsed_ms :: "real \<Rightarrow> real \<Rightarrow> int" where
  "elapsed_ms from until = (let ms = (until - from) * 1000 in if ms < 0 then \<lceil>ms\<rceil> else \<lfloor>ms\<rfloor>)"

text \<open>Steps 1 to 5, inside the \<open>try\<close>; a warmup error is returned, not raised.\<close>

definition load_steps ::
  "('v, 'i) loader_env \<Rightarrow> ModelVersionDescriptor \<Rightarrow> string \<Rightarrow> ModelLoader \<Rightarrow> (load_failure + ('v, 'i) LoadedModel) \<times> ModelLoader" where
  "load_steps env d device s =
     (case import_inference env d s of
        (Inl e, s1) \<Rightarrow> (Inl (LoadErrorRaised e), s1)
      | (Inr infer, s1) \<Rightarrow>
     (case import_preprocess env d s1 of
        (Inl e, s2) \<Rightarrow> (Inl (LoadErrorRaised e), s2)
      | (Inr pre, s2) \<Rightarrow>
     (case import_postprocess env d s2 of
        (Inl e, s3) \<Rightarrow> (Inl (LoadErrorRaised e), s3)
      | (Inr post, s3) \<Rightarrow>
     (case load_model_instance env d device s3 of
        (Inl e, s4) \<Rightarrow> (Inl (LoadErrorRaised e), s4)
      | (Inr inst, s4) \<Rightarrow>
          (let lm = \<lparr>lm_model_id = vd_model_id d, lm_version = vd_version d, lm_infer = infer, lm_preprocess = pre,
                     lm_postprocess = post, lm_model_instance = inst,
                     lm_load_time_ms = elapsed_ms (le_start env) (le_loaded env), lm_device = device\<rparr>
           in if ld_warmup_enabled s4 then
                (case run_warmup env lm d of
                   Inl e \<Rightarrow> (Inl (OtherRaised e), s4)
                 | Inr (Some e) \<Rightarrow> (Inl (LoadErrorRaised e), s4)
                 | Inr None \<Rightarrow> (Inr lm, s4))
              else (Inr lm, s4))))))"

definition failure_error :: "('v, 'i) loader_env \<Rightarrow> ModelVersionDescriptor \<Rightarrow> load_failure \<Rightarrow> ModelError" where
  "failure_error env d f =
     (case f of
        LoadErrorRaised e \<Rightarrow> e
      | OtherRaised m \<Rightarrow> plugin_error env d LOAD_GENERIC_ERROR (''Unexpected error during load: '' @ m)
          (vd_directory_path d) (Some m) [(''traceback'', JStr (le_traceback env))])"

definition load :: "('v, 'i) loader_env \<Rightarrow> ModelVersionDescriptor \<Rightarrow> ModelLoader \<Rightarrow> ('v, 'i) LoadResult \<times> ModelLoader" where
  "load env d s =
     (let (device, s1) = allocate_device env d s
      in case load_steps env d device s1 of
           (Inr lm, s2) \<Rightarrow> (load_ok lm (elapsed_ms (le_start env) (le_end env)), s2)
         | (Inl f, s2) \<Rightarrow> (load_fail (failure_error env d f), release_device (vd_model_id d) (vd_version d) s2))"

definition unload :: "string \<Rightarrow> string \<Rightarrow> ModelLoader \<Rightarrow> bool \<times> ModelLoader" where
  "unload model_id version s =
     (let qid = make_qualified_id model_id version
      in case dget (ld_loaded_modules s) qid of
           None \<Rightarrow> (False, s)
         | Some names \<Rightarrow>
             (True, release_device model_id version
                (s\<lparr>ld_loaded_modules := ddel qid (ld_loaded_modules s),
                   ld_sys_modules := filter (\<lambda>n. n \<notin> set names) (ld_sys_modules s)\<rparr>)))"

section \<open>What the steps leave alone\<close>

text \<open>The part of the loader that concerns the GPU.\<close>

definition gpu_part :: "ModelLoader \<Rightarrow> GPUManager option \<times> (string, string) dict" where
  "gpu_part s = (ld_gpu_manager s, ld_gpu_allocations s)"

text \<open>
  The names under which something stands in \<open>sys.modules\<close> are tracked, except those in \<open>S\<close>, and what is tracked belongs
  to a version of a model.
\<close>

definition modules_tracked :: "string set \<Rightarrow> ModelLoader \<Rightarrow> bool" where
  "modules_tracked S s \<longleftrightarrow> dict_wf (ld_loaded_modules s) \<and>
     (\<forall>q. dget (ld_loaded_modules s) q \<noteq> None \<longrightarrow> (\<exists>i v. q = make_qualified_id i v)) \<and>
     (\<forall>n\<in>set (ld_sys_modules s) - S. \<exists>q ns. dget (ld_loaded_modules s) q = Some ns \<and> n \<in> set ns)"

lemma modules_trackedD:
  assumes "modules_tracked S s"
  shows "dict_wf (ld_loaded_modules s)" "dget (ld_loaded_modules s) q = Some ns \<Longrightarrow> \<exists>i v. q = make_qualified_id i v"
    "n \<in> set (ld_sys_modules s) \<Longrightarrow> n \<notin> S \<Longrightarrow> \<exists>q ns. dget (ld_loaded_modules s) q = Some ns \<and> n \<in> set ns"
  using assms by (simp_all add: modules_tracked_def)

lemma modules_trackedI:
  assumes "dict_wf (ld_loaded_modules s)" "\<And>q ns. dget (ld_loaded_modules s) q = Some ns \<Longrightarrow> \<exists>i v. q = make_qualified_id i v"
    "\<And>n. n \<in> set (ld_sys_modules s) \<Longrightarrow> n \<notin> S \<Longrightarrow> \<exists>q ns. dget (ld_loaded_modules s) q = Some ns \<and> n \<in> set ns"
  shows "modules_tracked S s"
  using assms by (auto simp: modules_tracked_def)

lemma modules_tracked_more: "modules_tracked S s \<Longrightarrow> S \<subseteq> T \<Longrightarrow> modules_tracked T s"
  by (rule modules_trackedI) (auto dest: modules_trackedD(1,2) intro: modules_trackedD(3))

text \<open>The names plugins may import themselves.\<close>

definition side_modules :: "('v, 'i) loader_env \<Rightarrow> string set" where
  "side_modules env = {n. \<exists>m p. n \<in> set (le_side_imports env m p)}"

text \<open>What every import keeps: the GPU part, the tracking, and every name tracked before.\<close>

definition imported :: "string set \<Rightarrow> ModelLoader \<Rightarrow> ModelLoader \<Rightarrow> bool" where
  "imported S s t \<longleftrightarrow> gpu_part t = gpu_part s \<and> (modules_tracked S s \<longrightarrow> modules_tracked S t) \<and>
     (\<forall>q. dget (ld_loaded_modules s) q \<noteq> None \<longrightarrow> dget (ld_loaded_modules t) q \<noteq> None)"

lemma imported_refl [simp]: "imported S s s"
  by (simp add: imported_def)

lemma imported_trans: "imported S s t \<Longrightarrow> imported S t u \<Longrightarrow> imported S s u"
  by (auto simp: imported_def)

lemma set_fold_insert: "set (fold List.insert xs ys) = set xs \<union> set ys"
  by (induction xs arbitrary: ys) auto

lemma imported_import_module: "side_modules env \<subseteq> S \<Longrightarrow> imported S s (snd (import_module env d p t s))"
proof -
  assume S: "side_modules env \<subseteq> S"
  let ?q = "qualified_id d" and ?n = "''ruth_model_'' @ vd_model_id d @ ''_'' @ vd_version d @ ''_'' @ t"
  let ?m = "dput ?q (dget_or (ld_loaded_modules s) ?q [] @ [?n]) (ld_loaded_modules s)"
  have track: "\<exists>q ns. dget ?m q = Some ns \<and> n \<in> set ns"
    if tr: "modules_tracked S s" and n: "n \<in> set (ld_sys_modules s) - S \<or> n = ?n" for n
  proof (cases "n = ?n")
    case True
    then show ?thesis by (intro exI [of _ ?q]) simp
  next
    case False
    with tr n obtain q ns where "dget (ld_loaded_modules s) q = Some ns" "n \<in> set ns"
      unfolding modules_tracked_def by blast
    then show ?thesis
      by (cases "q = ?q") (auto simp: dget_or_def intro: exI [of _ q])
  qed
  have keys: "\<exists>i v. q = make_qualified_id i v" if "modules_tracked S s" "dget ?m q \<noteq> None" for q
    using that by (cases "q = ?q") (auto simp: modules_tracked_def qualified_id_def)
  have side: "set (le_side_imports env ?n p) \<subseteq> S" using S by (auto simp: side_modules_def)
  have m: "imported S s (s\<lparr>ld_loaded_modules := ?m\<rparr>)"
    using track keys by (simp add: imported_def gpu_part_def modules_tracked_def)
  have "modules_tracked S (s\<lparr>ld_loaded_modules := ?m,
      ld_sys_modules := fold List.insert (le_side_imports env ?n p) (List.insert ?n (ld_sys_modules s))\<rparr>)" if "modules_tracked S s"
    unfolding modules_tracked_def
  proof (intro conjI ballI allI impI)
    fix n assume "n \<in> set (ld_sys_modules (s\<lparr>ld_loaded_modules := ?m,
      ld_sys_modules := fold List.insert (le_side_imports env ?n p) (List.insert ?n (ld_sys_modules s))\<rparr>)) - S"
    then have "n \<in> set (ld_sys_modules s) - S \<or> n = ?n" using side by (auto simp: set_fold_insert)
    from track [OF that this] show "\<exists>q ns. dget (ld_loaded_modules (s\<lparr>ld_loaded_modules := ?m,
      ld_sys_modules := fold List.insert (le_side_imports env ?n p) (List.insert ?n (ld_sys_modules s))\<rparr>)) q = Some ns \<and> n \<in> set ns"
      by simp
  qed (use keys that in \<open>auto simp: modules_tracked_def\<close>)
  then have "imported S s (s\<lparr>ld_loaded_modules := ?m,
      ld_sys_modules := fold List.insert (le_side_imports env ?n p) (List.insert ?n (ld_sys_modules s))\<rparr>)"
    by (simp add: imported_def gpu_part_def)
  with m show ?thesis
    by (auto simp: import_module_def Let_def split: import_outcome.split)
qed

lemma imported_import_inference:
  assumes S: "side_modules env \<subseteq> S"
  shows "imported S s (snd (import_inference env d s))"
proof -
  obtain r s1 where m: "import_module env d (inference_path d) ''inference'' s = (r, s1)" by fastforce
  have "imported S s s1"
    using imported_import_module [OF S, of s d "inference_path d" "''inference''"] by (simp add: m)
  then show ?thesis
    by (cases r) (auto simp: import_inference_def Let_def m split: option.split)
qed

lemma imported_import_optional:
  assumes S: "side_modules env \<subseteq> S"
  shows "imported S s (snd (import_optional env d entry name missing attr s))"
proof -
  let ?p = "path_div (vd_directory_path d) (the entry)"
  obtain r s1 where m: "import_module env d ?p name s = (r, s1)" by fastforce
  have "imported S s s1"
    using imported_import_module [OF S, of s d ?p name] by (simp add: m)
  then show ?thesis
    by (cases r) (auto simp: import_optional_def Let_def m split: option.split)
qed

lemma imported_load_model_instance:
  assumes S: "side_modules env \<subseteq> S"
  shows "imported S s (snd (load_model_instance env d device s))"
proof -
  let ?p = "path_div (vd_directory_path d) (the (ep_loader (vd_entry_points d)))"
  obtain r s1 where m: "import_module env d ?p ''loader'' s = (r, s1)" by fastforce
  have "imported S s s1"
    using imported_import_module [OF S, of s d ?p "''loader''"] by (simp add: m)
  then show ?thesis
    by (cases r) (auto simp: load_model_instance_def Let_def m split: option.split)
qed

lemma imported_load_steps:
  assumes S: "side_modules env \<subseteq> S"
  shows "imported S s (snd (load_steps env d device s))"
proof -
  obtain a s1 where 1: "import_inference env d s = (a, s1)" by fastforce
  obtain b s2 where 2: "import_preprocess env d s1 = (b, s2)" by fastforce
  obtain c s3 where 3: "import_postprocess env d s2 = (c, s3)" by fastforce
  obtain e s4 where 4: "load_model_instance env d device s3 = (e, s4)" by fastforce
  have i1: "imported S s s1" using imported_import_inference [OF S, of s d] 1 by simp
  have i2: "imported S s s2"
    using imported_trans [OF i1] imported_import_optional [OF S, of s1 d] 2 unfolding import_preprocess_def
    by (metis snd_conv)
  have i3: "imported S s s3"
    using imported_trans [OF i2] imported_import_optional [OF S, of s2 d] 3 unfolding import_postprocess_def
    by (metis snd_conv)
  have i4: "imported S s s4"
    using imported_trans [OF i3] imported_load_model_instance [OF S, of s3 d device] 4 by simp
  show ?thesis
    using i1 i2 i3 i4
    by (auto simp: load_steps_def Let_def 1 2 3 4 split: sum.split option.split)
qed

section \<open>The loader and the GPU manager agree\<close>

text \<open>
  Both well formed, and the manager holds an allocation under a qualified id exactly when the loader
  has it down for a CUDA device.
\<close>

definition loader_ok :: "string set \<Rightarrow> ModelLoader \<Rightarrow> bool" where
  "loader_ok S s \<longleftrightarrow> modules_tracked S s \<and>
     (case ld_gpu_manager s of
        None \<Rightarrow> ld_gpu_allocations s = []
      | Some g \<Rightarrow> gpu_ok g \<and>
          (\<forall>q. dget (gm_allocations g) q \<noteq> None \<longleftrightarrow>
             (\<exists>device. dget (ld_gpu_allocations s) q = Some device \<and> is_cuda device)))"

lemma loader_ok_allocations:
  "loader_ok S s \<Longrightarrow> ld_gpu_manager s = Some g \<Longrightarrow>
     dget (gm_allocations g) q \<noteq> None \<longleftrightarrow> (\<exists>device. dget (ld_gpu_allocations s) q = Some device \<and> is_cuda device)"
  unfolding loader_ok_def by simp

lemma loader_ok_same: "loader_ok S s \<Longrightarrow> modules_tracked S t \<Longrightarrow> gpu_part t = gpu_part s \<Longrightarrow> loader_ok S t"
  by (cases "ld_gpu_manager s") (simp_all add: loader_ok_def gpu_part_def)

lemma loader_ok_more: "loader_ok S s \<Longrightarrow> S \<subseteq> T \<Longrightarrow> loader_ok T s"
  using modules_tracked_more [of S s T] by (simp add: loader_ok_def)

lemma loader_ok_imported: "imported S s t \<Longrightarrow> loader_ok S s \<Longrightarrow> loader_ok S t"
  by (rule loader_ok_same) (simp_all add: imported_def loader_ok_def)

lemma cuda_device [simp]: "is_cuda (CHR ''c'' # CHR ''u'' # CHR ''d'' # CHR ''a'' # x)" "\<not> is_cuda ''cpu''"
  by (simp_all add: is_cuda_def)

lemma find_allocation_cuda: "find_allocation g i v = Some dev \<Longrightarrow> is_cuda dev"
  by (auto simp: find_allocation_def split: option.splits)

lemma find_allocation_None: "find_allocation g i v = None \<longleftrightarrow> dget (gm_allocations g) (make_qualified_id i v) = None"
  by (simp add: find_allocation_def split: option.splits)

text \<open>What an allocation does to the table of allocations.\<close>

lemma gpu_allocate_allocations:
  assumes "gpu_allocate now mb i v required dev g = (Inr device, g1)"
  shows "dget (gm_allocations g1) q \<noteq> None \<longleftrightarrow>
    dget (gm_allocations g) q \<noteq> None \<or> (q = make_qualified_id i v \<and> is_cuda device)"
proof (cases "find_allocation g i v")
  case None
  with assms show ?thesis
    by (auto simp: gpu_allocate_def make_allocation_cases split: option.splits if_splits)
next
  case (Some x)
  with assms have "g1 = g" "dget (gm_allocations g) (make_qualified_id i v) \<noteq> None"
    by (auto simp: gpu_allocate_def find_allocation_None [symmetric] split: option.splits)
  then show ?thesis by auto
qed

lemma gpu_allocate_cpu:
  assumes "gpu_allocate now mb i v required dev g = (Inr device, g1)" "\<not> is_cuda device"
  shows "dget (gm_allocations g) (make_qualified_id i v) = None"
  using assms find_allocation_cuda [of g i v]
  by (auto simp: gpu_allocate_def find_allocation_None [symmetric] split: option.splits)

lemma gpu_allocate_error: "gpu_allocate now mb i v required dev g = (Inl e, g1) \<Longrightarrow> g1 = g"
  by (auto simp: gpu_allocate_def make_allocation_cases split: option.splits if_splits)

lemma gpu_ok_allocate: "gpu_ok g \<Longrightarrow> 0 \<le> required \<Longrightarrow> gpu_ok (snd (gpu_allocate now mb i v required dev g))"
  by (rule gpu_ok_step [OF g_allocate])

lemma loader_ok_allocate:
  assumes "loader_ok S s" "0 \<le> required_memory s d"
  shows "loader_ok S (snd (allocate_device env d s))"
proof (cases "ld_gpu_manager s")
  case None
  with assms show ?thesis by (simp add: allocate_device_def)
next
  case (Some g)
  let ?a = "gpu_allocate (le_now env) (le_mb env) (vd_model_id d) (vd_version d) (required_memory s d) None g"
  have g: "gpu_ok g" "\<And>q. dget (gm_allocations g) q \<noteq> None \<longleftrightarrow>
      (\<exists>device. dget (ld_gpu_allocations s) q = Some device \<and> is_cuda device)" "modules_tracked S s"
    using assms(1) Some by (simp_all add: loader_ok_def)
  obtain r g1 where a: "?a = (r, g1)" by fastforce
  have ok: "gpu_ok g1" using gpu_ok_allocate [OF g(1) assms(2), of "le_now env" "le_mb env"] a by (metis snd_conv)
  show ?thesis
  proof (cases "can_allocate g (vd_model_id d) (required_memory s d) None")
    case False
    with assms Some show ?thesis by (simp add: allocate_device_def Let_def)
  next
    case True
    show ?thesis
    proof (cases r)
      case (Inl e)
      with a have "g1 = g" using gpu_allocate_error by blast
      with True Some a Inl assms(1) show ?thesis
        by (simp add: allocate_device_def Let_def loader_ok_def modules_tracked_def)
    next
      case (Inr device)
      note al = gpu_allocate_allocations [OF a [unfolded Inr]] and cp = gpu_allocate_cpu [OF a [unfolded Inr]]
      have "(dget (gm_allocations g1) q \<noteq> None) =
          (\<exists>x. dget (dput (qualified_id d) device (ld_gpu_allocations s)) q = Some x \<and> is_cuda x)" for q
        using al [of q] cp g(2) [of q] by (cases "is_cuda device") (auto simp: qualified_id_def)
      with True Some a Inr ok g(3) show ?thesis
        by (simp add: allocate_device_def Let_def loader_ok_def modules_tracked_def)
    qed
  qed
qed

lemma gpu_release_allocations:
  "dget (gm_allocations (snd (gpu_release i v g))) q =
     (if q = make_qualified_id i v then None else dget (gm_allocations g) q)"
  by (simp add: gpu_release_def Let_def split: option.split)

lemma loader_ok_release:
  assumes "loader_ok S s"
  shows "loader_ok S (release_device i v s)"
proof (cases "ld_gpu_manager s")
  case None
  with assms show ?thesis by (simp add: release_device_def loader_ok_def)
next
  case (Some g)
  then have g: "gpu_ok g" "\<And>q. dget (gm_allocations g) q \<noteq> None \<longleftrightarrow>
      (\<exists>device. dget (ld_gpu_allocations s) q = Some device \<and> is_cuda device)" "modules_tracked S s"
    using assms by (simp_all add: loader_ok_def)
  show ?thesis
  proof (cases "dget (ld_gpu_allocations s) (make_qualified_id i v)")
    case None
    with assms show ?thesis by (simp add: release_device_def)
  next
    case (Some device)
    note q = g(2) [of "make_qualified_id i v"]
    show ?thesis
      using \<open>ld_gpu_manager s = Some g\<close> Some g q gpu_ok_release [OF g(1), of i v]
      by (auto simp: release_device_def loader_ok_def modules_tracked_def gpu_release_allocations Let_def)
  qed
qed

lemma load_split:
  assumes "allocate_device env d s = (device, s1)" "load_steps env d device s1 = (r, s2)"
  shows "load env d s =
    (case r of Inr lm \<Rightarrow> (load_ok lm (elapsed_ms (le_start env) (le_end env)), s2)
     | Inl f \<Rightarrow> (load_fail (failure_error env d f), release_device (vd_model_id d) (vd_version d) s2))"
  using assms by (cases r) (simp_all add: load_def)

lemma loader_ok_load:
  assumes "loader_ok S s" "0 \<le> required_memory s d" "side_modules env \<subseteq> S"
  shows "loader_ok S (snd (load env d s))"
proof -
  obtain device s1 where 1: "allocate_device env d s = (device, s1)" by fastforce
  obtain r s2 where 2: "load_steps env d device s1 = (r, s2)" by fastforce
  have "loader_ok S s2"
    using loader_ok_imported [OF imported_load_steps [OF assms(3), of s1 d device]] loader_ok_allocate [OF assms(1,2), of env]
    by (simp add: 1 2)
  then show ?thesis
    by (cases r) (simp_all add: load_split [OF 1 2] loader_ok_release)
qed

lemma loader_ok_unload:
  assumes "loader_ok S s"
  shows "loader_ok S (snd (unload i v s))"
proof (cases "dget (ld_loaded_modules s) (make_qualified_id i v)")
  case None
  with assms show ?thesis by (simp add: unload_def)
next
  case (Some names)
  let ?q = "make_qualified_id i v"
  let ?s = "s\<lparr>ld_loaded_modules := ddel ?q (ld_loaded_modules s),
      ld_sys_modules := filter (\<lambda>n. n \<notin> set names) (ld_sys_modules s)\<rparr>"
  have tr: "modules_tracked S s" using assms by (simp add: loader_ok_def)
  have "modules_tracked S ?s"
  proof (rule modules_trackedI)
    show "dict_wf (ld_loaded_modules ?s)" using modules_trackedD(1) [OF tr] by simp
    show "\<exists>i v. q = make_qualified_id i v" if "dget (ld_loaded_modules ?s) q = Some ns" for q ns
      using that modules_trackedD(2) [OF tr] by (simp split: if_splits)
    fix n assume "n \<in> set (ld_sys_modules ?s)" "n \<notin> S"
    then have n: "n \<in> set (ld_sys_modules s)" "n \<notin> set names" "n \<notin> S" by simp_all
    from modules_trackedD(3) [OF tr n(1,3)]
    obtain q ns where q: "dget (ld_loaded_modules s) q = Some ns" "n \<in> set ns" by blast
    with n Some have "q \<noteq> ?q" by auto
    with q show "\<exists>q ns. dget (ld_loaded_modules ?s) q = Some ns \<and> n \<in> set ns"
      by (intro exI [of _ q] exI [of _ ns]) simp
  qed
  then have "loader_ok S ?s" by (rule loader_ok_same [OF assms]) (simp add: gpu_part_def)
  with Some show ?thesis by (simp add: unload_def Let_def loader_ok_release)
qed

section \<open>Properties\<close>

text \<open>
  Calls on a loader. The memory a descriptor asks for is not negative (\<open>max_memory_mb\<close> of the contract
  and the default estimate), and only the loader uses its GPU manager. \<open>envs\<close> are the environments the calls
  may meet.
\<close>

inductive lstep :: "('v, 'i) loader_env set \<Rightarrow> ModelLoader \<Rightarrow> ModelLoader \<Rightarrow> bool" for envs where
  l_load: "env \<in> envs \<Longrightarrow> 0 \<le> required_memory s d \<Longrightarrow> lstep envs s (snd (load env d s))"
| l_unload: "lstep envs s (snd (unload i v s))"

definition loader_start :: "ModelLoader \<Rightarrow> bool" where
  "loader_start s \<longleftrightarrow> (\<exists>w. s = new_loader w None) \<or>
     (\<exists>w g. s = new_loader w (Some g) \<and> gpu_start g \<and> gm_allocations g = [])"

lemma loader_ok_start: "loader_start s \<Longrightarrow> loader_ok S s"
  by (auto simp: loader_start_def new_loader_def loader_ok_def modules_tracked_def gpu_ok_start)

lemma lstep_ok: "lstep envs s t \<Longrightarrow> loader_ok (\<Union> (side_modules ` envs)) s \<Longrightarrow> loader_ok (\<Union> (side_modules ` envs)) t"
  by (induction rule: lstep.induct) (auto intro!: loader_ok_load loader_ok_unload)

interpretation loader: invariant_system loader_start "lstep envs" "loader_ok (\<Union> (side_modules ` envs))" for envs
  by unfold_locales (rule loader_ok_start, assumption, rule lstep_ok)

lemma release_sys_modules [simp]: "ld_sys_modules (release_device i v t) = ld_sys_modules t"
  by (simp add: release_device_def Let_def split: option.split)

text \<open>
  C30. The loader loses neither GPU memory nor a module it imported. After any sequence of loads, failed loads and unloads of
  versions that ask for no negative memory, by a loader that alone uses its GPU manager:
  the manager holds an allocation for a version exactly when the loader will release it; every name in
  \<open>sys.modules\<close> that no plugin put there itself is on the list of a version; and unloading a version takes exactly
  the names on its list out. What a plugin imports itself from its directory is on no list and stays
  (\<open>side_module_stays\<close>).
\<close>

theorem gpu_memory_is_tracked:
  assumes "reach loader_start (lstep envs) s" "ld_gpu_manager s = Some g"
  shows "(find_allocation g i v \<noteq> None \<longleftrightarrow>
      (\<exists>device. dget (ld_gpu_allocations s) (make_qualified_id i v) = Some device \<and> is_cuda device)) \<and>
    (\<forall>n\<in>set (ld_sys_modules s). (\<forall>env\<in>envs. n \<notin> side_modules env) \<longrightarrow>
       (\<exists>i v ns. dget (ld_loaded_modules s) (make_qualified_id i v) = Some ns \<and> n \<in> set ns)) \<and>
    (\<forall>ns. dget (ld_loaded_modules s) (make_qualified_id i v) = Some ns \<longrightarrow>
       set (ld_sys_modules (snd (unload i v s))) = set (ld_sys_modules s) - set ns)"
proof (intro conjI ballI allI impI)
  have ok: "loader_ok (\<Union> (side_modules ` envs)) s" using assms(1) by (rule loader.reach_invar)
  then show "find_allocation g i v \<noteq> None \<longleftrightarrow>
      (\<exists>device. dget (ld_gpu_allocations s) (make_qualified_id i v) = Some device \<and> is_cuda device)"
    using assms(2) by (simp add: loader_ok_def find_allocation_None del: not_None_eq)
  show "\<exists>i v ns. dget (ld_loaded_modules s) (make_qualified_id i v) = Some ns \<and> n \<in> set ns"
    if "n \<in> set (ld_sys_modules s)" "\<forall>env\<in>envs. n \<notin> side_modules env" for n
  proof -
    have tr: "modules_tracked (\<Union> (side_modules ` envs)) s" using ok by (simp add: loader_ok_def)
    from that have n: "n \<notin> \<Union> (side_modules ` envs)" by blast
    from modules_trackedD(3) [OF tr that(1) n] obtain q ns where q: "dget (ld_loaded_modules s) q = Some ns" "n \<in> set ns" by blast
    from modules_trackedD(2) [OF tr q(1)] q show ?thesis by blast
  qed
  show "set (ld_sys_modules (snd (unload i v s))) = set (ld_sys_modules s) - set ns"
    if "dget (ld_loaded_modules s) (make_qualified_id i v) = Some ns" for ns
    using that by (simp add: unload_def Let_def set_diff_eq)
qed

definition demo_loader :: ModelLoader where
  "demo_loader = new_loader True (Some demo_gpu)"

lemma demo_loader_start: "loader_start demo_loader"
  using demo_gpu_start demo_gpu_devices(2) by (auto simp: loader_start_def demo_loader_def)

text \<open>A name on no list of the version stays when it is unloaded.\<close>

lemma side_module_stays:
  assumes "n \<in> set (ld_sys_modules s)" "\<forall>ns. dget (ld_loaded_modules s) (make_qualified_id i v) = Some ns \<longrightarrow> n \<notin> set ns"
  shows "n \<in> set (ld_sys_modules (snd (unload i v s)))"
  using assms by (auto simp: unload_def Let_def split: option.split)

text \<open>A plugin that loads: its module is \<open>inference.py\<close>, which answers every frame and imports \<open>fill_engine\<close>
  from its directory.\<close>

definition demo_env :: "(nat, nat) loader_env" where
  "demo_env =
     \<lparr>le_exists = (\<lambda>p. True),
      le_import = (\<lambda>n p. Executed \<lparr>mo_infer = Some (\<lambda>k x i. Inr x), mo_infer_callable = True, mo_preprocess = None,
        mo_postprocess = None, mo_load = None\<rparr>),
      le_side_imports = (\<lambda>n p. [''fill_engine'']),
      le_zeros = (\<lambda>h w c. Inr 0), le_mb = (\<lambda>x. []), le_traceback = [], le_now = 0, le_start = 0, le_loaded = 1,
      le_end = 2\<rparr>"

definition demo_descriptor :: ModelVersionDescriptor where
  "demo_descriptor = new_descriptor 0 ''fall'' ''1.0.0'' ''Fall''"

lemma demo_identity: "vd_model_id demo_descriptor = ''fall''" "vd_version demo_descriptor = ''1.0.0''"
  by (simp_all add: demo_descriptor_def new_descriptor_def)

lemma demo_required: "required_memory demo_loader demo_descriptor = 2048"
  by (simp add: required_memory_def demo_descriptor_def new_descriptor_def default_limits_def demo_loader_def new_loader_def)

lemma demo_load_steps:
  "\<exists>lm. load_steps demo_env demo_descriptor device s =
     (Inr lm, snd (import_module demo_env demo_descriptor (inference_path demo_descriptor) ''inference'' s))"
proof -
  obtain x t where m: "import_module demo_env demo_descriptor (inference_path demo_descriptor) ''inference'' s = (x, t)"
    by fastforce
  then have x: "x = Executed \<lparr>mo_infer = Some (\<lambda>k x i. Inr x), mo_infer_callable = True, mo_preprocess = None,
        mo_postprocess = None, mo_load = None\<rparr>"
    by (auto simp: import_module_def demo_env_def Let_def)
  have e: "vd_entry_points demo_descriptor = default_entry_points"
    "ph_warmup_iterations (vd_performance demo_descriptor) = 1"
    by (simp_all add: demo_descriptor_def new_descriptor_def default_performance_def)
  have z: "le_exists demo_env p" "le_zeros demo_env h w c = Inr 0" for p h w c by (simp_all add: demo_env_def)
  show ?thesis
    by (simp add: load_steps_def import_inference_def import_preprocess_def import_postprocess_def
        import_optional_def load_model_instance_def e default_entry_points_def truthy_str_def m x z Let_def
        run_warmup_def warmup_iteration_def)
qed

lemma demo_load: "lr_success (fst (load demo_env demo_descriptor s))"
proof -
  obtain device s1 where 1: "allocate_device demo_env demo_descriptor s = (device, s1)" by fastforce
  from demo_load_steps [of device s1] obtain lm t where "load_steps demo_env demo_descriptor device s1 = (Inr lm, t)" by blast
  from load_split [OF 1 this] show ?thesis by (simp add: load_ok_def)
qed

lemma demo_loaded:
  "\<exists>g. ld_gpu_manager (snd (load demo_env demo_descriptor demo_loader)) = Some g \<and> find_allocation g ''fall'' ''1.0.0'' = Some ''cuda:0''
     \<and> set (ld_sys_modules (snd (load demo_env demo_descriptor demo_loader))) = {''fill_engine'', ''ruth_model_fall_1.0.0_inference''}
     \<and> dget (ld_loaded_modules (snd (load demo_env demo_descriptor demo_loader))) ''fall:1.0.0'' = Some [''ruth_model_fall_1.0.0_inference'']"
proof -
  have z: "''cuda:'' @ show_int 0 = ''cuda:0''" by code_simp
  have c: "can_allocate demo_gpu ''fall'' 2048 None"
    by (simp add: can_allocate_def demo_gpu_devices free_memory_mb_def new_device_def)
  obtain device s1 where 1: "allocate_device demo_env demo_descriptor demo_loader = (device, s1)" by fastforce
  have s1: "\<exists>g. ld_gpu_manager s1 = Some g \<and> find_allocation g ''fall'' ''1.0.0'' = Some ''cuda:0''"
    "ld_loaded_modules s1 = []" "ld_sys_modules s1 = []"
    using 1 c z demo_required demo_gpu_devices
    by (auto simp: allocate_device_def demo_loader_def new_loader_def demo_identity gpu_allocate_def find_allocation_def
        make_allocation_cases target_device_def free_memory_mb_def new_device_def)
  obtain lm where "load_steps demo_env demo_descriptor device s1 =
      (Inr lm, snd (import_module demo_env demo_descriptor (inference_path demo_descriptor) ''inference'' s1))"
    using demo_load_steps by blast
  note l = load_split [OF 1 this]
  have q: "qualified_id demo_descriptor = ''fall:1.0.0''" by (simp add: qualified_id_def make_qualified_id_def demo_identity)
  show ?thesis
    unfolding l using s1 by (simp add: import_module_def Let_def q demo_identity demo_env_def dget_or_def)
qed

text \<open>The version is loaded, with its memory on the first device, and unloaded again.\<close>

theorem gpu_memory_is_tracked_witness:
  "\<exists>device. dget (ld_gpu_allocations (snd (load demo_env demo_descriptor demo_loader))) ''fall:1.0.0'' = Some device \<and> is_cuda device
     \<and> set (ld_sys_modules (snd (unload ''fall'' ''1.0.0'' (snd (load demo_env demo_descriptor demo_loader))))) = {''fill_engine''}"
proof -
  let ?s = "snd (load demo_env demo_descriptor demo_loader)"
  obtain g where g: "ld_gpu_manager ?s = Some g" "find_allocation g ''fall'' ''1.0.0'' = Some ''cuda:0''"
    "set (ld_sys_modules ?s) = {''fill_engine'', ''ruth_model_fall_1.0.0_inference''}"
    "dget (ld_loaded_modules ?s) ''fall:1.0.0'' = Some [''ruth_model_fall_1.0.0_inference'']" using demo_loaded by blast
  have q: "make_qualified_id ''fall'' ''1.0.0'' = ''fall:1.0.0''" by (simp add: make_qualified_id_def)
  have "lstep {demo_env} demo_loader ?s" by (rule l_load) (simp_all add: demo_required)
  from reach_init [where ini = loader_start and step = "lstep {demo_env}", OF demo_loader_start] this
  have "reach loader_start (lstep {demo_env}) ?s" by (rule reach_step)
  note all = gpu_memory_is_tracked [OF this g(1), of "''fall''" "''1.0.0''", unfolded q]
  have "set (ld_sys_modules (snd (unload ''fall'' ''1.0.0'' ?s))) = {''fill_engine''}"
    using conjunct2 [OF conjunct2 [OF all], rule_format, OF g(4)] g(3) by auto
  moreover have "\<exists>device. dget (ld_gpu_allocations ?s) ''fall:1.0.0'' = Some device \<and> is_cuda device"
    using conjunct1 [OF all] g(2) by simp
  ultimately show ?thesis by blast
qed

lemma release_forgets: "dget (ld_gpu_allocations (release_device i v s)) (make_qualified_id i v) = None"
  by (simp add: release_device_def Let_def split: option.split)

lemma release_frees:
  assumes "loader_ok S s" "ld_gpu_manager (release_device i v s) = Some g"
  shows "find_allocation g i v = None"
  using loader_ok_allocations [OF loader_ok_release [OF assms(1)] assms(2), of "make_qualified_id i v"]
  by (simp add: release_forgets find_allocation_None)

lemma load_steps_model:
  "load_steps env d device s = (Inr lm, t) \<Longrightarrow>
     lm_model_id lm = vd_model_id d \<and> lm_version lm = vd_version d \<and> lm_device lm = device"
  by (auto simp: load_steps_def Let_def split: prod.splits sum.splits option.splits if_splits)

text \<open>
  \<open>load\<close> always returns: a success carries a model with the identity of the descriptor and no error, a
  failure carries an error and no model, and a version whose load fails holds no GPU memory afterwards.
\<close>

theorem load_outcome_consistent:
  assumes "loader_ok UNIV s" "0 \<le> required_memory s d" "load env d s = (r, s')"
  shows "if lr_success r
    then lr_error r = None \<and> (\<exists>lm. lr_loaded_model r = Some lm \<and> lm_model_id lm = vd_model_id d \<and>
           lm_version lm = vd_version d \<and> lm_device lm = fst (allocate_device env d s))
    else lr_loaded_model r = None \<and> lr_error r \<noteq> None \<and>
           (\<forall>g. ld_gpu_manager s' = Some g \<longrightarrow> find_allocation g (vd_model_id d) (vd_version d) = None)"
proof -
  obtain device s1 where 1: "allocate_device env d s = (device, s1)" by fastforce
  obtain x s2 where 2: "load_steps env d device s1 = (x, s2)" by fastforce
  have ok: "loader_ok UNIV s2"
    using loader_ok_imported [OF imported_load_steps [of env UNIV s1 d device]] loader_ok_allocate [OF assms(1,2), of env]
    by (simp add: 1 2)
  show ?thesis
  proof (cases x)
    case (Inl f)
    with assms(3) have "r = load_fail (failure_error env d f)" "s' = release_device (vd_model_id d) (vd_version d) s2"
      by (simp_all add: load_split [OF 1 2])
    then show ?thesis using release_frees [OF ok] by (simp add: load_fail_def)
  next
    case (Inr lm)
    with assms(3) have "r = load_ok lm (elapsed_ms (le_start env) (le_end env))"
      by (simp add: load_split [OF 1 2])
    with load_steps_model [OF 2 [unfolded Inr]] 1 show ?thesis by (simp add: load_ok_def)
  qed
qed


theorem load_outcome_consistent_witness:
  "\<exists>lm. lr_loaded_model (fst (load demo_env demo_descriptor demo_loader)) = Some lm \<and> lm_model_id lm = ''fall''"
proof -
  obtain r s' where r: "load demo_env demo_descriptor demo_loader = (r, s')" by fastforce
  have "0 \<le> required_memory demo_loader demo_descriptor" by (simp add: demo_required)
  from load_outcome_consistent [OF loader_ok_start [OF demo_loader_start] this r]
  show ?thesis using demo_load [of demo_loader] by (auto simp: r demo_identity)
qed

subsection \<open>Memory comes back\<close>

lemma gpu_allocate_not_cuda:
  assumes "gpu_allocate now mb i v required dev g = (Inr device, g1)" "\<not> is_cuda device"
  shows "g1 = g"
  using assms find_allocation_cuda [of g i v]
  by (auto simp: gpu_allocate_def make_allocation_cases split: option.splits if_splits)

text \<open>A version that held nothing: what \<open>allocate_device\<close> took, \<open>release_device\<close> gives back.\<close>

lemma device_roundtrip:
  assumes ok: "loader_ok S s" "ld_gpu_manager s = Some g"
    and none: "find_allocation g (vd_model_id d) (vd_version d) = None"
    and a: "allocate_device env d s = (device, s1)" and t: "gpu_part t = gpu_part s1"
  shows "\<exists>g'. ld_gpu_manager (release_device (vd_model_id d) (vd_version d) t) = Some g' \<and>
    (\<forall>k. map_option free_memory_mb (dget (gm_devices g') k) = map_option free_memory_mb (dget (gm_devices g) k))"
proof -
  let ?q = "make_qualified_id (vd_model_id d) (vd_version d)"
  let ?al = "gpu_allocate (le_now env) (le_mb env) (vd_model_id d) (vd_version d) (required_memory s d) None g"
  have nc: "\<not> is_cuda x" if "dget (ld_gpu_allocations s) ?q = Some x" for x
    using loader_ok_allocations [OF ok, of ?q] none that by (auto simp: find_allocation_None)
  have g: "gpu_ok g" using ok by (simp add: loader_ok_def)
  show ?thesis
  proof (cases "can_allocate g (vd_model_id d) (required_memory s d) None")
    case False
    then have "s1 = s" using a ok(2) by (simp add: allocate_device_def Let_def)
    with t ok(2) nc show ?thesis
      by (auto simp: gpu_part_def release_device_def Let_def split: option.split)
  next
    case True
    obtain r g1 where al: "?al = (r, g1)" by fastforce
    show ?thesis
    proof (cases r)
      case (Inl e)
      with al have "g1 = g" using gpu_allocate_error by blast
      with True a ok(2) al Inl t nc show ?thesis
        by (auto simp: allocate_device_def Let_def gpu_part_def release_device_def split: option.split)
    next
      case (Inr x)
      have s1: "ld_gpu_manager t = Some g1" "dget (ld_gpu_allocations t) ?q = Some x"
        using True a ok(2) al Inr t by (auto simp: allocate_device_def Let_def gpu_part_def qualified_id_def)
      have "map_option free_memory_mb (dget (gm_devices (if is_cuda x then snd (gpu_release (vd_model_id d) (vd_version d) g1) else g1)) k) =
          map_option free_memory_mb (dget (gm_devices g) k)" for k
        using release_restores [OF g none al] gpu_allocate_not_cuda [OF al [unfolded Inr]] by auto
      then show ?thesis using s1 by (auto simp: release_device_def Let_def)
    qed
  qed
qed

lemma load_steps_tracks:
  assumes "load_steps env d device s = (Inr lm, t)"
  shows "dget (ld_loaded_modules t) (qualified_id d) \<noteq> None"
proof -
  obtain f s1 where i: "import_inference env d s = (Inr f, s1)"
    using assms by (cases "import_inference env d s"; cases "fst (import_inference env d s)")
      (auto simp: load_steps_def)
  have "dget (ld_loaded_modules s1) (qualified_id d) \<noteq> None"
    using i by (auto simp: import_inference_def import_module_def Let_def split: if_splits import_outcome.splits option.splits)
  moreover have "imported UNIV s1 t"
  proof -
    obtain b s2 where 2: "import_preprocess env d s1 = (b, s2)" by fastforce
    obtain c s3 where 3: "import_postprocess env d s2 = (c, s3)" by fastforce
    obtain e s4 where 4: "load_model_instance env d device s3 = (e, s4)" by fastforce
    note any = subset_UNIV [of "side_modules env"]
    have "imported UNIV s1 s2" using imported_import_optional [OF any, of s1 d] 2 unfolding import_preprocess_def by (metis snd_conv)
    moreover have "imported UNIV s2 s3" using imported_import_optional [OF any, of s2 d] 3 unfolding import_postprocess_def by (metis snd_conv)
    moreover have "imported UNIV s3 s4" using imported_load_model_instance [OF any, of s3 d device] 4 by simp
    ultimately have "imported UNIV s1 s4" using imported_trans [of UNIV] by metis
    moreover have "t = s4"
      using assms by (auto simp: load_steps_def Let_def i 2 3 4 split: sum.splits if_splits option.splits)
    ultimately show ?thesis by simp
  qed
  ultimately show ?thesis by (simp add: imported_def)
qed

text \<open>
  C40. Loading and unloading gives the memory back. When a version that holds no GPU memory is loaded, in any state a loader
  can come to, then unloading it, or already the end of the load when it fails, leaves every GPU device with the free memory it had.
  For a version that holds memory from an earlier load this is not so: a second load that fails gives that memory back
  although the first is still in use.
\<close>

theorem load_unload_gives_memory_back:
  assumes "reach loader_start (lstep envs) s" "ld_gpu_manager s = Some g"
    "find_allocation g (vd_model_id d) (vd_version d) = None" "load env d s = (r, s')"
  shows "\<exists>g'. ld_gpu_manager (if lr_success r then snd (unload (vd_model_id d) (vd_version d) s') else s') = Some g' \<and>
    (\<forall>k. map_option free_memory_mb (dget (gm_devices g') k) = map_option free_memory_mb (dget (gm_devices g) k))"
proof -
  have ok: "loader_ok (\<Union> (side_modules ` envs)) s" using assms(1) by (rule loader.reach_invar)
  obtain device s1 where 1: "allocate_device env d s = (device, s1)" by fastforce
  obtain x s2 where 2: "load_steps env d device s1 = (x, s2)" by fastforce
  have p: "gpu_part s2 = gpu_part s1"
    using imported_load_steps [of env UNIV s1 d device] 2 by (simp add: imported_def)
  note round = device_roundtrip [OF ok assms(2,3) 1]
  show ?thesis
  proof (cases x)
    case (Inl f)
    with assms(4) load_split [OF 1 2] round [OF p] show ?thesis by (auto simp: load_fail_def)
  next
    case (Inr lm)
    with assms(4) load_split [OF 1 2] have r: "lr_success r" "s' = s2" by (auto simp: load_ok_def)
    obtain ns where ns: "dget (ld_loaded_modules s2) (make_qualified_id (vd_model_id d) (vd_version d)) = Some ns"
      using load_steps_tracks [OF 2 [unfolded Inr]] by (auto simp: qualified_id_def)
    let ?t = "s2\<lparr>ld_loaded_modules := ddel (make_qualified_id (vd_model_id d) (vd_version d)) (ld_loaded_modules s2),
        ld_sys_modules := filter (\<lambda>n. n \<notin> set ns) (ld_sys_modules s2)\<rparr>"
    have "gpu_part ?t = gpu_part s1" using p by (simp add: gpu_part_def)
    from round [OF this] ns r show ?thesis by (simp add: unload_def Let_def)
  qed
qed

theorem load_unload_gives_memory_back_witness:
  "\<exists>g'. ld_gpu_manager (snd (unload ''fall'' ''1.0.0'' (snd (load demo_env demo_descriptor demo_loader)))) = Some g' \<and>
     map_option free_memory_mb (dget (gm_devices g') 0) = Some 8192"
proof -
  obtain r s' where r: "load demo_env demo_descriptor demo_loader = (r, s')" by fastforce
  have n: "find_allocation demo_gpu (vd_model_id demo_descriptor) (vd_version demo_descriptor) = None"
    by (simp add: find_allocation_def demo_gpu_devices)
  have g: "ld_gpu_manager demo_loader = Some demo_gpu" by (simp add: demo_loader_def new_loader_def)
  have i: "vd_model_id demo_descriptor = ''fall''" "vd_version demo_descriptor = ''1.0.0''" "lr_success r"
    using demo_load [of demo_loader] r by (simp_all add: demo_identity)
  from load_unload_gives_memory_back [OF reach_init [where ini = loader_start and step = "lstep {demo_env}", OF demo_loader_start] g n r] i
  show ?thesis by (auto simp: r demo_gpu_devices new_device_def free_memory_mb_def dest: spec [of _ 0])
qed

text \<open>A module whose execution failed stays in \<open>sys.modules\<close>: a failed load does not take it out.\<close>

lemma failed_import_stays:
  assumes "le_exists env (inference_path d)"
    "le_import env (''ruth_model_'' @ vd_model_id d @ ''_'' @ vd_version d @ ''_inference'') (inference_path d) = OtherErr m"
  shows "''ruth_model_'' @ vd_model_id d @ ''_'' @ vd_version d @ ''_inference'' \<in> set (ld_sys_modules (snd (load env d s))) \<and>
    \<not> lr_success (fst (load env d s))"
proof -
  obtain device s1 where 1: "allocate_device env d s = (device, s1)" by fastforce
  show ?thesis
    using assms by (simp add: load_def 1 load_steps_def import_inference_def import_module_def Let_def load_fail_def set_fold_insert)
qed

end
