(* ===== verification/Reporting.thy ===== *)
theory Reporting
  imports Registry Concurrency
begin

text \<open>
  \<open>ai/runtime/reporting.py\<close>: capability payloads, the derivation of a model's health from its versions,
  the capacity tracker, and the publisher that pushes reports to the backend. What the backend answers
  is a parameter. A concurrency manager given to the tracker is kept inside it.
\<close>

section \<open>Payloads\<close>

datatype ModelStatus = MS_ACTIVE | MS_IDLE | MS_STARTING | MS_STOPPING | MS_ERROR

fun model_status_value :: "ModelStatus \<Rightarrow> string" where
  "model_status_value MS_ACTIVE = ''active''"
| "model_status_value MS_IDLE = ''idle''"
| "model_status_value MS_STARTING = ''starting''"
| "model_status_value MS_STOPPING = ''stopping''"
| "model_status_value MS_ERROR = ''error''"

fun input_format_value :: "InputFormat \<Rightarrow> string" where
  "input_format_value JPEG = ''jpeg''"
| "input_format_value PNG = ''png''"
| "input_format_value RAW_RGB = ''raw_rgb''"
| "input_format_value RAW_BGR = ''raw_bgr''"
| "input_format_value RAW_GRAYSCALE = ''raw_grayscale''"

record VersionCapability =
  vc_model_id :: string
  vc_version :: string
  vc_display_name :: string
  vc_description :: string
  vc_input_types :: "string list"
  vc_input_format :: string
  vc_output_event_types :: "string list"
  vc_provides_bounding_boxes :: bool
  vc_provides_metadata :: bool
  vc_hardware :: HardwareCompatibility
  vc_inference_time_hint_ms :: int
  vc_recommended_fps :: int
  vc_max_fps :: "int option"
  vc_recommended_batch_size :: int
  vc_max_concurrent :: int
  vc_status :: ModelStatus
  vc_health :: HealthStatus
  vc_degraded_reason :: "string option"
  vc_inference_count :: int
  vc_error_count :: int
  vc_last_inference_at :: "real option"
  vc_registered_at :: real
  vc_last_health_change :: "real option"

definition capability_to_dict :: "VersionCapability \<Rightarrow> (string, jval) dict" where
  "capability_to_dict c =
     (let result =
        [(''model_id'', JStr (vc_model_id c)), (''version'', JStr (vc_version c)),
         (''display_name'', JStr (vc_display_name c)), (''description'', JStr (vc_description c)),
         (''input_types'', JStrs (vc_input_types c)), (''input_format'', JStr (vc_input_format c)),
         (''output_event_types'', JStrs (vc_output_event_types c)),
         (''provides_bounding_boxes'', JBool (vc_provides_bounding_boxes c)),
         (''provides_metadata'', JBool (vc_provides_metadata c)),
         (''hardware'', JDict [(''supports_cpu'', JBool (hw_supports_cpu (vc_hardware c))),
            (''supports_gpu'', JBool (hw_supports_gpu (vc_hardware c))),
            (''supports_jetson'', JBool (hw_supports_jetson (vc_hardware c)))]),
         (''performance'', JDict [(''inference_time_hint_ms'', JInt (vc_inference_time_hint_ms c)),
            (''recommended_fps'', JInt (vc_recommended_fps c)), (''max_fps'', jopt JInt (vc_max_fps c)),
            (''recommended_batch_size'', JInt (vc_recommended_batch_size c)),
            (''max_concurrent'', JInt (vc_max_concurrent c))]),
         (''status'', JStr (model_status_value (vc_status c))), (''health'', JStr (health_value (vc_health c))),
         (''metrics'', JDict [(''inference_count'', JInt (vc_inference_count c)),
            (''error_count'', JInt (vc_error_count c))]),
         (''registered_at'', JTime (vc_registered_at c))];
          r1 = dput_if (truthy_str (vc_degraded_reason c)) ''degraded_reason'' (jopt JStr (vc_degraded_reason c)) result;
          r2 = dput_if (vc_last_inference_at c \<noteq> None) ''last_inference_at'' (jopt JTime (vc_last_inference_at c)) r1
      in dput_if (vc_last_health_change c \<noteq> None) ''last_health_change'' (jopt JTime (vc_last_health_change c)) r2)"

definition from_descriptor ::
  "real \<Rightarrow> ModelVersionDescriptor \<Rightarrow> ModelStatus \<Rightarrow> string option \<Rightarrow> VersionCapability" where
  "from_descriptor now d status degraded_reason =
     (let own = input_type_value (is_type (vd_input_spec d));
          input_types = (if mc_supports_batching (vd_capabilities d) \<and> own \<noteq> ''batch'' then [own, ''batch''] else [own])
      in \<lparr>vc_model_id = vd_model_id d, vc_version = vd_version d, vc_display_name = vd_display_name d,
          vc_description = vd_description d, vc_input_types = input_types,
          vc_input_format = input_format_value (is_format (vd_input_spec d)),
          vc_output_event_types = os_event_type_enum (vd_output_spec d),
          vc_provides_bounding_boxes = os_provides_bounding_boxes (vd_output_spec d),
          vc_provides_metadata = os_provides_metadata (vd_output_spec d), vc_hardware = vd_hardware d,
          vc_inference_time_hint_ms = ph_inference_time_hint_ms (vd_performance d),
          vc_recommended_fps = ph_recommended_fps (vd_performance d), vc_max_fps = ph_max_fps (vd_performance d),
          vc_recommended_batch_size = ph_recommended_batch_size (vd_performance d),
          vc_max_concurrent = rl_max_concurrent_inferences (vd_limits d), vc_status = status,
          vc_health = vd_health d, vc_degraded_reason = degraded_reason,
          vc_inference_count = vd_inference_count d, vc_error_count = vd_error_count d,
          vc_last_inference_at = None, vc_registered_at = now,
          vc_last_health_change = Some (vd_last_state_change d)\<rparr>)"

record ModelCapabilityReport =
  mr_model_id :: string
  mr_health :: HealthStatus
  mr_versions :: "VersionCapability list"
  mr_total_versions :: int
  mr_healthy_versions :: int
  mr_degraded_versions :: int

definition model_report_to_dict :: "ModelCapabilityReport \<Rightarrow> (string, jval) dict" where
  "model_report_to_dict r =
     [(''model_id'', JStr (mr_model_id r)), (''health'', JStr (health_value (mr_health r))),
      (''total_versions'', JInt (mr_total_versions r)), (''healthy_versions'', JInt (mr_healthy_versions r)),
      (''degraded_versions'', JInt (mr_degraded_versions r)),
      (''versions'', JList (map (JDict \<circ> capability_to_dict) (mr_versions r)))]"

record RuntimeCapacityReport =
  rc_max_concurrent_inferences :: int
  rc_active_inferences :: int
  rc_available_slots :: int
  rc_per_model_limits :: "(string, int) dict"
  rc_backpressure_level :: string
  rc_queue_depth :: int
  rc_queue_capacity :: int
  rc_memory_used_mb :: "int option"
  rc_memory_available_mb :: "int option"
  rc_gpu_memory_used_mb :: "int option"
  rc_gpu_memory_available_mb :: "int option"

definition capacity_to_dict :: "RuntimeCapacityReport \<Rightarrow> (string, jval) dict" where
  "capacity_to_dict r =
     (let result =
        [(''concurrency'', JDict [(''max_concurrent'', JInt (rc_max_concurrent_inferences r)),
            (''active'', JInt (rc_active_inferences r)), (''available'', JInt (rc_available_slots r))]),
         (''per_model_limits'', JDict (map (\<lambda>(k, n). (k, JInt n)) (rc_per_model_limits r))),
         (''backpressure'', JDict [(''level'', JStr (rc_backpressure_level r)), (''queue_depth'', JInt (rc_queue_depth r)),
            (''queue_capacity'', JInt (rc_queue_capacity r))])];
          r1 = dput_if (rc_memory_used_mb r \<noteq> None) ''memory''
                 (JDict [(''used_mb'', jopt JInt (rc_memory_used_mb r)), (''available_mb'', jopt JInt (rc_memory_available_mb r))]) result
      in dput_if (rc_gpu_memory_used_mb r \<noteq> None) ''gpu_memory''
           (JDict [(''used_mb'', jopt JInt (rc_gpu_memory_used_mb r)),
              (''available_mb'', jopt JInt (rc_gpu_memory_available_mb r))]) r1)"

record FullCapabilityReport =
  fc_runtime_id :: string
  fc_timestamp :: real
  fc_models :: "ModelCapabilityReport list"
  fc_capacity :: RuntimeCapacityReport
  fc_runtime_health :: HealthStatus
  fc_total_models :: int
  fc_healthy_models :: int
  fc_total_versions :: int
  fc_ready_versions :: int

definition full_report_to_dict :: "FullCapabilityReport \<Rightarrow> (string, jval) dict" where
  "full_report_to_dict r =
     [(''runtime_id'', JStr (fc_runtime_id r)), (''timestamp'', JTime (fc_timestamp r)),
      (''runtime_health'', JStr (health_value (fc_runtime_health r))),
      (''summary'', JDict [(''total_models'', JInt (fc_total_models r)), (''healthy_models'', JInt (fc_healthy_models r)),
         (''total_versions'', JInt (fc_total_versions r)), (''ready_versions'', JInt (fc_ready_versions r))]),
      (''models'', JList (map (JDict \<circ> model_report_to_dict) (fc_models r))),
      (''capacity'', JDict (capacity_to_dict (fc_capacity r)))]"

section \<open>Health derived from versions\<close>

definition get_version_health :: "ModelRegistry \<Rightarrow> string \<Rightarrow> string \<Rightarrow> HealthStatus option" where
  "get_version_health r model_id version =
     (case get_version r model_id version of
        None \<Rightarrow> None
      | Some d \<Rightarrow> if vd_state d \<noteq> READY then None else Some (vd_health d))"

text \<open>The loop over the versions: healthy, degraded and ready so far.\<close>

fun count_healths :: "ModelVersionDescriptor list \<Rightarrow> nat \<times> nat \<times> nat \<Rightarrow> nat \<times> nat \<times> nat" where
  "count_healths [] c = c"
| "count_healths (d # ds) (h, g, n) =
     (if vd_state d \<noteq> READY then count_healths ds (h, g, n)
      else if vd_health d = HEALTHY then count_healths ds (h + 1, g, n + 1)
      else if vd_health d = DEGRADED then count_healths ds (h, g + 1, n + 1)
      else count_healths ds (h, g, n + 1))"

definition derive_model_health :: "ModelRegistry \<Rightarrow> string \<Rightarrow> HealthStatus" where
  "derive_model_health r model_id =
     (case get_model r model_id of
        None \<Rightarrow> UNHEALTHY
      | Some md \<Rightarrow>
          (let (h, g, n) = count_healths (dvals (md_versions md)) (0, 0, 0)
           in if 0 < h then HEALTHY else if 0 < g then DEGRADED else if n = 0 then UNKNOWN else UNHEALTHY))"

definition get_advertisable_versions :: "ModelRegistry \<Rightarrow> string \<Rightarrow> ModelVersionDescriptor list" where
  "get_advertisable_versions r model_id =
     (case get_model r model_id of
        None \<Rightarrow> []
      | Some md \<Rightarrow> filter (\<lambda>d. vd_state d = READY \<and> vd_health d \<in> {HEALTHY, DEGRADED}) (dvals (md_versions md)))"

definition get_all_advertisable_versions :: "ModelRegistry \<Rightarrow> ModelVersionDescriptor list" where
  "get_all_advertisable_versions r =
     concat (map (\<lambda>md. get_advertisable_versions r (md_model_id md)) (get_all_models r))"

definition capability_of :: "(string \<Rightarrow> real) \<Rightarrow> ModelVersionDescriptor \<Rightarrow> VersionCapability" where
  "capability_of utc d =
     from_descriptor (utc (qualified_id d)) d (if 0 < vd_inference_count d then MS_ACTIVE else MS_IDLE)
       (if vd_health d = DEGRADED then vd_last_error d else None)"

definition build_model_report :: "(string \<Rightarrow> real) \<Rightarrow> ModelRegistry \<Rightarrow> string \<Rightarrow> ModelCapabilityReport option" where
  "build_model_report utc r model_id =
     (case get_model r model_id of
        None \<Rightarrow> None
      | Some md \<Rightarrow>
          (let advertisable = get_advertisable_versions r model_id
           in if advertisable = [] then None
              else Some \<lparr>mr_model_id = model_id, mr_health = derive_model_health r model_id,
                mr_versions = map (capability_of utc) advertisable,
                mr_total_versions = int (length (md_versions md)),
                mr_healthy_versions = int (length (filter (\<lambda>d. vd_health d = HEALTHY) advertisable)),
                mr_degraded_versions = int (length (filter (\<lambda>d. vd_health d = DEGRADED) advertisable))\<rparr>))"

section \<open>Capacity\<close>

record CapacityTracker =
  ct_manager :: "ConcurrencyManager option"
  ct_max_concurrent :: int
  ct_queue_capacity :: int
  ct_active_count :: int
  ct_queue_depth :: int
  ct_per_model_limits :: "(string, int) dict"
  ct_per_model_active :: "(string, int) dict"

definition new_tracker :: "int \<Rightarrow> int \<Rightarrow> ConcurrencyManager option \<Rightarrow> CapacityTracker" where
  "new_tracker max_concurrent queue_capacity manager =
     \<lparr>ct_manager = manager,
      ct_max_concurrent = (case manager of None \<Rightarrow> max_concurrent | Some m \<Rightarrow> cm_global_limit m),
      ct_queue_capacity = queue_capacity, ct_active_count = 0, ct_queue_depth = 0,
      ct_per_model_limits = [], ct_per_model_active = []\<rparr>"

definition set_model_limit :: "string \<Rightarrow> int \<Rightarrow> CapacityTracker \<Rightarrow> CapacityTracker" where
  "set_model_limit model_id max_concurrent t =
     (case ct_manager t of
        Some m \<Rightarrow> t\<lparr>ct_manager := Some (register_model model_id ''*'' (Some max_concurrent) m)\<rparr>
      | None \<Rightarrow> t\<lparr>ct_per_model_limits := dput model_id max_concurrent (ct_per_model_limits t),
                 ct_per_model_active := (if dget (ct_per_model_active t) model_id = None
                   then dput model_id 0 (ct_per_model_active t) else ct_per_model_active t)\<rparr>)"

definition remove_model :: "string \<Rightarrow> CapacityTracker \<Rightarrow> CapacityTracker" where
  "remove_model model_id t =
     (case ct_manager t of
        Some m \<Rightarrow> t\<lparr>ct_manager := Some (unregister_model model_id m)\<rparr>
      | None \<Rightarrow> t\<lparr>ct_per_model_limits := ddel model_id (ct_per_model_limits t),
                 ct_per_model_active := ddel model_id (ct_per_model_active t)\<rparr>)"

text \<open>The slot of the manager is dropped: only its \<open>acquired\<close> is returned.\<close>

definition tracker_acquire ::
  "(nat \<Rightarrow> real) \<Rightarrow> real \<Rightarrow> string \<Rightarrow> string \<Rightarrow> CapacityTracker \<Rightarrow> bool \<times> CapacityTracker" where
  "tracker_acquire utc mt hex model_id t =
     (case ct_manager t of
        Some m \<Rightarrow>
          (let (slot, m') = try_acquire utc mt hex model_id ''*'' (''capacity-'' @ model_id) m
           in (sl_acquired slot, t\<lparr>ct_manager := Some m'\<rparr>))
      | None \<Rightarrow>
          (let model_limit = dget_or (ct_per_model_limits t) model_id (ct_max_concurrent t);
               model_active = dget_or (ct_per_model_active t) model_id 0
           in if ct_max_concurrent t \<le> ct_active_count t then (False, t)
              else if model_limit \<le> model_active then (False, t)
              else (True, t\<lparr>ct_active_count := ct_active_count t + 1,
                            ct_per_model_active := dput model_id (model_active + 1) (ct_per_model_active t)\<rparr>)))"

definition tracker_release :: "string \<Rightarrow> CapacityTracker \<Rightarrow> CapacityTracker" where
  "tracker_release model_id t =
     (case ct_manager t of
        Some m \<Rightarrow> t
      | None \<Rightarrow> t\<lparr>ct_active_count := max 0 (ct_active_count t - 1),
                 ct_per_model_active :=
                   (case dget (ct_per_model_active t) model_id of
                      None \<Rightarrow> ct_per_model_active t
                    | Some n \<Rightarrow> dput model_id (max 0 (n - 1)) (ct_per_model_active t))\<rparr>)"

definition update_queue_depth :: "int \<Rightarrow> CapacityTracker \<Rightarrow> CapacityTracker" where
  "update_queue_depth depth t = t\<lparr>ct_queue_depth := depth\<rparr>"

text \<open>\<open>held\<close> says whether the caller holds the tracker's own lock.\<close>

definition tracker_backpressure :: "bool \<Rightarrow> CapacityTracker \<Rightarrow> string run" where
  "tracker_backpressure held t =
     (case ct_manager t of
        Some m \<Rightarrow> Returns (bp_value (get_backpressure_level m))
      | None \<Rightarrow>
          with_lock held
            (if ct_queue_capacity t = 0 then Returns ''none''
             else (let u = of_int (ct_queue_depth t) / of_int (ct_queue_capacity t) :: real
                   in Returns (if 8 / 10 \<le> u then ''hard'' else if 6 / 10 \<le> u then ''soft'' else ''none''))))"

definition capacity_report :: "int \<Rightarrow> int \<Rightarrow> int \<Rightarrow> (string, int) dict \<Rightarrow> string \<Rightarrow> CapacityTracker \<Rightarrow> RuntimeCapacityReport" where
  "capacity_report limit active available limits level t =
     \<lparr>rc_max_concurrent_inferences = limit, rc_active_inferences = active, rc_available_slots = available,
      rc_per_model_limits = limits, rc_backpressure_level = level, rc_queue_depth = ct_queue_depth t,
      rc_queue_capacity = ct_queue_capacity t, rc_memory_used_mb = None, rc_memory_available_mb = None,
      rc_gpu_memory_used_mb = None, rc_gpu_memory_available_mb = None\<rparr>"

text \<open>Without a manager, \<open>get_backpressure_level\<close> is called with the lock held.\<close>

definition get_capacity_report :: "CapacityTracker \<Rightarrow> RuntimeCapacityReport run" where
  "get_capacity_report t =
     (case ct_manager t of
        Some m \<Rightarrow>
          (let gs = get_global_stats m
           in Returns (capacity_report (gs_global_limit gs) (gs_global_active gs) (gs_available_slots gs)
                (map (\<lambda>(i, st). (i, mc_max_concurrent st)) (cm_models m)) (gs_backpressure gs) t))
      | None \<Rightarrow>
          with_lock False
            (run_bind (tracker_backpressure True t) (\<lambda>level.
               Returns (capacity_report (ct_max_concurrent t) (ct_active_count t)
                 (max 0 (ct_max_concurrent t - ct_active_count t)) (ct_per_model_limits t) level t))))"

definition tracker_active_count :: "CapacityTracker \<Rightarrow> int" where
  "tracker_active_count t = (case ct_manager t of Some m \<Rightarrow> gs_global_active (get_global_stats m) | None \<Rightarrow> ct_active_count t)"

definition tracker_available_slots :: "CapacityTracker \<Rightarrow> int" where
  "tracker_available_slots t =
     (case ct_manager t of Some m \<Rightarrow> gs_available_slots (get_global_stats m)
      | None \<Rightarrow> max 0 (ct_max_concurrent t - ct_active_count t))"

section \<open>The publisher\<close>

datatype PublishTrigger = TR_STARTUP | TR_MODEL_LOADED | TR_MODEL_UNLOADED | TR_HEALTH_CHANGED | TR_PERIODIC | TR_MANUAL

record PublishRequest =
  pr_trigger :: PublishTrigger
  pr_model_id :: "string option"
  pr_version :: "string option"
  pr_correlation_id :: string

text \<open>
  The queue holds requests and the shutdown signal \<open>None\<close>. \<open>pb_timers\<close> are the retries scheduled and not
  yet due, with their delay. \<open>pb_listener\<close> is the publisher's handle among the listeners of the registry.
\<close>

record Publisher =
  pb_runtime_id :: string
  pb_listener :: nat
  pb_running :: bool
  pb_queue :: "PublishRequest option list"
  pb_failures :: nat
  pb_retry_delay :: real
  pb_timers :: "(real \<times> string) list"
  pb_last_report :: "FullCapabilityReport option"
  pb_last_time :: "real option"

definition INITIAL_RETRY_DELAY_S :: real where "INITIAL_RETRY_DELAY_S = 1"
definition MAX_RETRY_DELAY_S :: real where "MAX_RETRY_DELAY_S = 60"
definition RETRY_MULTIPLIER :: real where "RETRY_MULTIPLIER = 2"

definition new_publisher :: "string \<Rightarrow> string option \<Rightarrow> nat \<Rightarrow> Publisher" where
  "new_publisher uuid runtime_id listener =
     \<lparr>pb_runtime_id = (if truthy_str runtime_id then the runtime_id else uuid), pb_listener = listener, pb_running = False, pb_queue = [], pb_failures = 0,
      pb_retry_delay = INITIAL_RETRY_DELAY_S, pb_timers = [], pb_last_report = None, pb_last_time = None\<rparr>"

definition enqueue :: "PublishRequest \<Rightarrow> Publisher \<Rightarrow> Publisher" where
  "enqueue q p = p\<lparr>pb_queue := pb_queue p @ [Some q]\<rparr>"

definition mk_request :: "string \<Rightarrow> PublishTrigger \<Rightarrow> string option \<Rightarrow> string option \<Rightarrow> PublishRequest" where
  "mk_request uuid t model_id version =
     \<lparr>pr_trigger = t, pr_model_id = model_id, pr_version = version, pr_correlation_id = uuid\<rparr>"

definition pb_start :: "string \<Rightarrow> Publisher \<Rightarrow> ModelRegistry \<Rightarrow> Publisher \<times> ModelRegistry" where
  "pb_start uuid p r =
     (if pb_running p then (p, r)
      else (enqueue (mk_request uuid TR_STARTUP None None) (p\<lparr>pb_running := True\<rparr>), add_listener (pb_listener p) r))"

definition pb_stop :: "Publisher \<Rightarrow> ModelRegistry \<Rightarrow> Publisher \<times> ModelRegistry" where
  "pb_stop p r =
     (if \<not> pb_running p then (p, r)
      else (p\<lparr>pb_running := False, pb_queue := pb_queue p @ [None]\<rparr>, snd (remove_listener (pb_listener p) r)))"

definition on_registry_event :: "string \<Rightarrow> RegistryEvent \<Rightarrow> Publisher \<Rightarrow> Publisher" where
  "on_registry_event uuid e p =
     (let request = (\<lambda>t. enqueue (mk_request uuid t (Some (ev_model_id e)) (ev_version e)) p)
      in case ev_type e of
           STATE_CHANGED \<Rightarrow>
             (if ev_new_state e = Some READY then request TR_MODEL_LOADED
              else if ev_new_state e \<in> Some ` {UNLOADED, FAILED, ERROR, DISABLED} then request TR_MODEL_UNLOADED
              else p)
         | HEALTH_CHANGED \<Rightarrow> request TR_HEALTH_CHANGED
         | VERSION_REMOVED \<Rightarrow> request TR_MODEL_UNLOADED
         | _ \<Rightarrow> p)"

text \<open>The loop of \<open>_build_report\<close>: reports, healthy models, ready versions and all versions so far.\<close>

fun collect_reports ::
  "(string \<Rightarrow> real) \<Rightarrow> ModelRegistry \<Rightarrow> ModelDescriptor list \<Rightarrow> ModelCapabilityReport list \<times> int \<times> int \<times> int \<Rightarrow>
   ModelCapabilityReport list \<times> int \<times> int \<times> int" where
  "collect_reports utc r [] acc = acc"
| "collect_reports utc r (md # mds) (reports, healthy, ready, versions) =
     collect_reports utc r mds
       (case build_model_report utc r (md_model_id md) of
          None \<Rightarrow> (reports, healthy, ready, versions + int (length (md_versions md)))
        | Some mr \<Rightarrow> (reports @ [mr], healthy + (if mr_health mr = HEALTHY then 1 else 0),
            ready + int (length (mr_versions mr)), versions + int (length (md_versions md))))"

definition build_report ::
  "(string \<Rightarrow> real) \<Rightarrow> real \<Rightarrow> Publisher \<Rightarrow> ModelRegistry \<Rightarrow> CapacityTracker \<Rightarrow> FullCapabilityReport run" where
  "build_report utc now p r t =
     (let (reports, healthy, ready, versions) = collect_reports utc r (get_all_models r) ([], 0, 0, 0)
      in run_bind (get_capacity_report t) (\<lambda>cap.
           Returns \<lparr>fc_runtime_id = pb_runtime_id p, fc_timestamp = now, fc_models = reports, fc_capacity = cap,
             fc_runtime_health = (if 0 < healthy then HEALTHY else if reports \<noteq> [] then DEGRADED else UNKNOWN),
             fc_total_models = int (length reports), fc_healthy_models = healthy, fc_total_versions = versions,
             fc_ready_versions = ready\<rparr>))"

definition on_publish_success :: "real \<Rightarrow> FullCapabilityReport \<Rightarrow> Publisher \<Rightarrow> Publisher" where
  "on_publish_success now report p =
     p\<lparr>pb_failures := 0, pb_retry_delay := INITIAL_RETRY_DELAY_S, pb_last_report := Some report, pb_last_time := Some now\<rparr>"

definition on_publish_failure :: "string \<Rightarrow> Publisher \<Rightarrow> Publisher" where
  "on_publish_failure correlation_id p =
     (let failures = Suc (pb_failures p);
          delay = min (pb_retry_delay p * RETRY_MULTIPLIER) MAX_RETRY_DELAY_S;
          p1 = p\<lparr>pb_failures := failures, pb_retry_delay := delay\<rparr>
      in if pb_running p1 \<and> failures < 10 then p1\<lparr>pb_timers := pb_timers p1 @ [(delay, correlation_id)]\<rparr> else p1)"

text \<open>\<open>backend report id\<close> is the answer of \<open>register_capabilities\<close>, \<open>None\<close> when it raises.\<close>

definition do_publish ::
  "(string \<Rightarrow> real) \<Rightarrow> real \<Rightarrow> (FullCapabilityReport \<Rightarrow> string \<Rightarrow> bool option) \<Rightarrow> ModelRegistry \<Rightarrow> CapacityTracker \<Rightarrow>
   PublishRequest \<Rightarrow> Publisher \<Rightarrow> (bool \<times> Publisher) run" where
  "do_publish utc now backend r t q p =
     (case build_report utc now p r t of
        SelfDeadlock \<Rightarrow> SelfDeadlock
      | Raises e \<Rightarrow> Returns (False, on_publish_failure (pr_correlation_id q) p)
      | Returns report \<Rightarrow>
          Returns (if backend report (pr_correlation_id q) = Some True then (True, on_publish_success now report p)
                   else (False, on_publish_failure (pr_correlation_id q) p)))"

definition publish_now ::
  "string \<Rightarrow> (string \<Rightarrow> real) \<Rightarrow> real \<Rightarrow> (FullCapabilityReport \<Rightarrow> string \<Rightarrow> bool option) \<Rightarrow> ModelRegistry \<Rightarrow>
   CapacityTracker \<Rightarrow> Publisher \<Rightarrow> (bool \<times> Publisher) run" where
  "publish_now uuid utc now backend r t p = do_publish utc now backend r t (mk_request uuid TR_MANUAL None None) p"

text \<open>
  One turn of the worker and whether it goes on: it ends at the shutdown signal or when the publisher has
  stopped; an empty queue makes it look again.
\<close>

definition worker_turn ::
  "(string \<Rightarrow> real) \<Rightarrow> real \<Rightarrow> (FullCapabilityReport \<Rightarrow> string \<Rightarrow> bool option) \<Rightarrow> ModelRegistry \<Rightarrow> CapacityTracker \<Rightarrow>
   Publisher \<Rightarrow> (bool \<times> Publisher) run" where
  "worker_turn utc now backend r t p =
     (if \<not> pb_running p then Returns (False, p)
      else case pb_queue p of
             [] \<Rightarrow> Returns (True, p)
           | None # rest \<Rightarrow> Returns (False, p\<lparr>pb_queue := rest\<rparr>)
           | Some q # rest \<Rightarrow>
               run_bind (do_publish utc now backend r t q (p\<lparr>pb_queue := rest\<rparr>)) (\<lambda>(ok, p'). Returns (True, p')))"

text \<open>The client used when none is given.\<close>

definition noop_register :: "FullCapabilityReport \<Rightarrow> string \<Rightarrow> bool option" where
  "noop_register report correlation_id = Some True"

definition noop_deregister :: "string \<Rightarrow> string \<Rightarrow> string \<Rightarrow> bool option" where
  "noop_deregister model_id version correlation_id = Some True"

text \<open>The periodic thread after a full wait, and the \<open>n\<close>-th of the retry timers when it is due.\<close>

definition periodic_tick :: "string \<Rightarrow> Publisher \<Rightarrow> Publisher" where
  "periodic_tick uuid p = (if pb_running p then enqueue (mk_request uuid TR_PERIODIC None None) p else p)"

definition timer_due :: "nat \<Rightarrow> Publisher \<Rightarrow> Publisher" where
  "timer_due n p =
     (if n < length (pb_timers p)
      then enqueue (mk_request (snd (pb_timers p ! n)) TR_MANUAL None None)
             (p\<lparr>pb_timers := take n (pb_timers p) @ drop (Suc n) (pb_timers p)\<rparr>)
      else p)"

section \<open>Health reporter\<close>

definition set_last_error :: "string \<Rightarrow> string \<Rightarrow> string option \<Rightarrow> bool \<Rightarrow> ModelRegistry \<Rightarrow> ModelRegistry" where
  "set_last_error model_id version reason success r =
     (if success \<and> truthy_str reason
      then (case get_version r model_id version of
              None \<Rightarrow> r | Some d \<Rightarrow> put_version model_id version (d\<lparr>vd_last_error := reason\<rparr>) r)
      else r)"

definition report_healthy :: "real \<Rightarrow> string \<Rightarrow> string \<Rightarrow> ModelRegistry \<Rightarrow> bool \<times> ModelRegistry" where
  "report_healthy now model_id version r = update_health now model_id version HEALTHY r"

definition report_degraded :: "real \<Rightarrow> string \<Rightarrow> string \<Rightarrow> string option \<Rightarrow> ModelRegistry \<Rightarrow> bool \<times> ModelRegistry" where
  "report_degraded now model_id version reason r =
     (let (success, r1) = update_health now model_id version DEGRADED r
      in (success, set_last_error model_id version reason success r1))"

definition report_unhealthy :: "real \<Rightarrow> string \<Rightarrow> string \<Rightarrow> string option \<Rightarrow> ModelRegistry \<Rightarrow> bool \<times> ModelRegistry" where
  "report_unhealthy now model_id version reason r =
     (let (success, r1) = update_health now model_id version UNHEALTHY r
      in (success, set_last_error model_id version reason success r1))"

text \<open>\<open>create_reporting_stack\<close>: the tracker and the publisher; aggregator and reporter hold only the registry.\<close>

definition create_reporting_stack ::
  "string \<Rightarrow> string option \<Rightarrow> nat \<Rightarrow> int \<Rightarrow> int \<Rightarrow> ConcurrencyManager option \<Rightarrow> Publisher \<times> CapacityTracker" where
  "create_reporting_stack uuid runtime_id listener max_concurrent queue_capacity manager =
     (new_publisher uuid runtime_id listener, new_tracker max_concurrent queue_capacity manager)"

section \<open>What is advertised\<close>

lemma run_bind_Returns_iff: "run_bind x f = Returns y \<longleftrightarrow> (\<exists>a. x = Returns a \<and> f a = Returns y)"
  by (cases x) simp_all

lemma count_healths_eq:
  "count_healths ds (h, g, n) =
     (h + length (filter (\<lambda>d. vd_state d = READY \<and> vd_health d = HEALTHY) ds),
      g + length (filter (\<lambda>d. vd_state d = READY \<and> vd_health d = DEGRADED) ds),
      n + length (filter (\<lambda>d. vd_state d = READY) ds))"
  by (induction ds arbitrary: h g n) auto

lemma derive_model_health_advertised:
  assumes "get_model r i = Some md" "get_advertisable_versions r i \<noteq> []"
  shows "derive_model_health r i =
    (if \<exists>d\<in>set (get_advertisable_versions r i). vd_health d = HEALTHY then HEALTHY else DEGRADED)"
proof -
  let ?vs = "dvals (md_versions md)"
  have a: "get_advertisable_versions r i = filter (\<lambda>d. vd_state d = READY \<and> vd_health d \<in> {HEALTHY, DEGRADED}) ?vs"
    by (simp add: get_advertisable_versions_def assms(1))
  have h: "0 < length (filter (\<lambda>d. vd_state d = READY \<and> vd_health d = HEALTHY) ?vs) \<longleftrightarrow>
      (\<exists>d\<in>set (get_advertisable_versions r i). vd_health d = HEALTHY)"
    by (auto simp: a filter_empty_conv)
  have "0 < length (filter (\<lambda>d. vd_state d = READY \<and> vd_health d = DEGRADED) ?vs)"
    if "\<not> (\<exists>d\<in>set (get_advertisable_versions r i). vd_health d = HEALTHY)"
    using that assms(2) by (auto simp: a filter_empty_conv)
  then show ?thesis
    using h by (simp add: derive_model_health_def assms(1) count_healths_eq)
qed

lemma build_model_report_cases:
  "build_model_report utc r i = Some mr \<longleftrightarrow>
     (\<exists>md. get_model r i = Some md \<and> get_advertisable_versions r i \<noteq> [] \<and>
       mr = \<lparr>mr_model_id = i, mr_health = derive_model_health r i,
         mr_versions = map (capability_of utc) (get_advertisable_versions r i),
         mr_total_versions = int (length (md_versions md)),
         mr_healthy_versions = int (length (filter (\<lambda>d. vd_health d = HEALTHY) (get_advertisable_versions r i))),
         mr_degraded_versions = int (length (filter (\<lambda>d. vd_health d = DEGRADED) (get_advertisable_versions r i)))\<rparr>)"
  by (auto simp: build_model_report_def Let_def split: option.splits)

lemma advertisable_iff:
  assumes "registry_wf r"
  shows "d \<in> set (get_advertisable_versions r i) \<longleftrightarrow>
    get_version r i (vd_version d) = Some d \<and> vd_state d = READY \<and> vd_health d \<in> {HEALTHY, DEGRADED}"
proof (cases "get_model r i")
  case None
  then show ?thesis by (simp add: get_advertisable_versions_def get_version_def get_model_def)
next
  case (Some md)
  then have wf: "dict_wf (md_versions md)" "\<And>v d. dget (md_versions md) v = Some d \<Longrightarrow> vd_version d = v"
    using assms by (auto simp: registry_wf_def get_model_def)
  have "d \<in> set (dvals (md_versions md)) \<longleftrightarrow> dget (md_versions md) (vd_version d) = Some d"
    using wf by (force simp: dget_Some_iff)
  then show ?thesis
    using Some by (auto simp: get_advertisable_versions_def get_version_def get_model_def md_get_version_def)
qed

lemma advertisable_split:
  "length (filter (\<lambda>d. vd_health d = HEALTHY) (get_advertisable_versions r i)) +
   length (filter (\<lambda>d. vd_health d = DEGRADED) (get_advertisable_versions r i)) =
   length (get_advertisable_versions r i)"
proof -
  have "\<forall>d\<in>set (get_advertisable_versions r i). vd_health d = DEGRADED \<longleftrightarrow> vd_health d \<noteq> HEALTHY"
    by (auto simp: get_advertisable_versions_def split: option.splits)
  then have "filter (\<lambda>d. vd_health d = DEGRADED) (get_advertisable_versions r i) =
      filter (\<lambda>d. vd_health d \<noteq> HEALTHY) (get_advertisable_versions r i)"
    by (intro filter_cong) auto
  then show ?thesis by (simp add: sum_length_filter_compl)
qed

lemma capability_of_simps [simp]:
  "vc_model_id (capability_of utc d) = vd_model_id d" "vc_version (capability_of utc d) = vd_version d"
  "vc_health (capability_of utc d) = vd_health d"
  by (simp_all add: capability_of_def from_descriptor_def Let_def)

lemma reported_iff:
  "(\<exists>mr. build_model_report utc r i = Some mr \<and> (\<exists>c\<in>set (mr_versions mr). vc_version c = v \<and> vc_health c = h)) \<longleftrightarrow>
   (\<exists>d\<in>set (get_advertisable_versions r i). vd_version d = v \<and> vd_health d = h)"
proof (cases "get_advertisable_versions r i = []")
  case True
  then show ?thesis by (simp add: build_model_report_cases)
next
  case False
  then have "get_model r i \<noteq> None" by (cases "get_model r i") (simp_all add: get_advertisable_versions_def)
  then obtain md where "get_model r i = Some md" by blast
  with False show ?thesis by (simp add: build_model_report_cases)
qed

text \<open>
  The report of a model lists exactly its versions that are \<open>READY\<close> and healthy or degraded, each under
  its name and health; there is no report when there is none. The counts add up, and the model is
  healthy exactly when one of the listed versions is, else degraded.
\<close>

theorem report_advertises_exactly:
  assumes "registry_wf r"
  shows "((\<exists>mr. build_model_report utc r i = Some mr \<and>
        (\<exists>c\<in>set (mr_versions mr). vc_version c = v \<and> vc_health c = h)) \<longleftrightarrow>
      (\<exists>d. get_version r i v = Some d \<and> vd_state d = READY \<and> vd_health d = h \<and> h \<in> {HEALTHY, DEGRADED})) \<and>
    (\<forall>mr. build_model_report utc r i = Some mr \<longrightarrow>
      mr_versions mr \<noteq> [] \<and> mr_healthy_versions mr + mr_degraded_versions mr = int (length (mr_versions mr)) \<and>
      mr_health mr = (if \<exists>c\<in>set (mr_versions mr). vc_health c = HEALTHY then HEALTHY else DEGRADED))"
proof (intro conjI allI impI)
  let ?a = "get_advertisable_versions r i"
  have "(\<exists>mr. build_model_report utc r i = Some mr \<and> (\<exists>c\<in>set (mr_versions mr). vc_version c = v \<and> vc_health c = h)) \<longleftrightarrow>
      (\<exists>d\<in>set ?a. vd_version d = v \<and> vd_health d = h)"
    by (rule reported_iff)
  also have "\<dots> \<longleftrightarrow> (\<exists>d. get_version r i v = Some d \<and> vd_state d = READY \<and> vd_health d = h \<and> h \<in> {HEALTHY, DEGRADED})"
    using advertisable_iff [OF assms] registry_wf_get [OF assms] by blast
  finally show "(\<exists>mr. build_model_report utc r i = Some mr \<and>
      (\<exists>c\<in>set (mr_versions mr). vc_version c = v \<and> vc_health c = h)) \<longleftrightarrow>
    (\<exists>d. get_version r i v = Some d \<and> vd_state d = READY \<and> vd_health d = h \<and> h \<in> {HEALTHY, DEGRADED})" .
  fix mr assume "build_model_report utc r i = Some mr"
  then obtain md where m: "get_model r i = Some md" "?a \<noteq> []" "mr_versions mr = map (capability_of utc) ?a"
    "mr_health mr = derive_model_health r i"
    "mr_healthy_versions mr = int (length (filter (\<lambda>d. vd_health d = HEALTHY) ?a))"
    "mr_degraded_versions mr = int (length (filter (\<lambda>d. vd_health d = DEGRADED) ?a))"
    unfolding build_model_report_cases by auto
  then show "mr_versions mr \<noteq> []" by simp
  show "mr_healthy_versions mr + mr_degraded_versions mr = int (length (mr_versions mr))"
    using advertisable_split [of r i] by (simp add: m(3,5,6) flip: of_nat_add)
  show "mr_health mr = (if \<exists>c\<in>set (mr_versions mr). vc_health c = HEALTHY then HEALTHY else DEGRADED)"
    by (simp add: m(3,4) derive_model_health_advertised [OF m(1,2)])
qed

definition served_registry :: ModelRegistry where
  "served_registry =
     register_version (\<lambda>_. 1) (new_descriptor 0 ''fall'' ''1.0.0'' ''Fall''\<lparr>vd_state := READY, vd_health := HEALTHY\<rparr>) new_registry"

lemma served_registry_reach: "reach (\<lambda>r. r = new_registry) rstep served_registry"
  unfolding served_registry_def by (rule reach_step [OF reach_init]) (simp, rule r_version)

theorem report_advertises_exactly_witness:
  "\<exists>mr. build_model_report (\<lambda>_. 0) served_registry ''fall'' = Some mr \<and>
     (\<exists>c\<in>set (mr_versions mr). vc_version c = ''1.0.0'' \<and> vc_health c = HEALTHY)"
  using report_advertises_exactly [OF registry.reach_invar [OF served_registry_reach], of "\<lambda>_. 0" "''fall''" "''1.0.0''" HEALTHY]
  by (simp add: served_registry_def get_version_register_version new_descriptor_def)

section \<open>The whole report\<close>

lemma collect_reports_eq:
  "collect_reports utc r mds (reports, healthy, ready, versions) =
     (let new = List.map_filter (\<lambda>md. build_model_report utc r (md_model_id md)) mds
      in (reports @ new, healthy + int (length (filter (\<lambda>m. mr_health m = HEALTHY) new)),
          ready + int (sum_list (map (\<lambda>m. length (mr_versions m)) new)),
          versions + int (sum_list (map version_count mds))))"
  by (induction mds arbitrary: reports healthy ready versions)
    (auto simp: map_filter_simps Let_def version_count_def split: option.split)

lemma sum_reported:
  assumes "\<And>md. md \<in> set mds \<Longrightarrow> get_model r (md_model_id md) \<noteq> None"
  shows "sum_list (map (\<lambda>m. length (mr_versions m))
      (List.map_filter (\<lambda>md. build_model_report utc r (md_model_id md)) mds)) =
    length (concat (map (\<lambda>md. get_advertisable_versions r (md_model_id md)) mds))"
  using assms
proof (induction mds)
  case Nil
  then show ?case by (simp add: map_filter_simps)
next
  case (Cons md mds)
  then obtain x where "get_model r (md_model_id md) = Some x" by auto
  with Cons show ?case by (auto simp: map_filter_simps build_model_report_def Let_def)
qed

text \<open>
  A report that is built counts what it holds: its models, the healthy ones among them, the versions
  they advertise, which are all advertisable versions of the registry, and all registered versions. The
  runtime is healthy when a model is, degraded when models are advertised and none is healthy, and
  unknown otherwise.
\<close>

theorem report_counts:
  assumes "registry_wf r" "build_report utc now p r t = Returns f"
  shows "fc_total_models f = int (length (fc_models f)) \<and>
    fc_healthy_models f = int (length (filter (\<lambda>m. mr_health m = HEALTHY) (fc_models f))) \<and>
    fc_ready_versions f = int (length (get_all_advertisable_versions r)) \<and>
    fc_ready_versions f = int (sum_list (map (\<lambda>m. length (mr_versions m)) (fc_models f))) \<and>
    fc_total_versions f = int (rg_version_count r) \<and>
    fc_runtime_health f = (if \<exists>m\<in>set (fc_models f). mr_health m = HEALTHY then HEALTHY
      else if fc_models f \<noteq> [] then DEGRADED else UNKNOWN)"
proof -
  let ?ms = "get_all_models r"
  let ?new = "List.map_filter (\<lambda>md. build_model_report utc r (md_model_id md)) ?ms"
  obtain cap where f: "f = \<lparr>fc_runtime_id = pb_runtime_id p, fc_timestamp = now, fc_models = ?new, fc_capacity = cap,
      fc_runtime_health = (if 0 < length (filter (\<lambda>m. mr_health m = HEALTHY) ?new) then HEALTHY
        else if ?new \<noteq> [] then DEGRADED else UNKNOWN),
      fc_total_models = int (length ?new),
      fc_healthy_models = int (length (filter (\<lambda>m. mr_health m = HEALTHY) ?new)),
      fc_total_versions = int (sum_list (map version_count ?ms)),
      fc_ready_versions = int (sum_list (map (\<lambda>m. length (mr_versions m)) ?new))\<rparr>"
    using assms(2) by (cases "get_capacity_report t") (auto simp: build_report_def collect_reports_eq Let_def)
  have "get_model r (md_model_id md) \<noteq> None" if "md \<in> set ?ms" for md
    using that assms(1) by (force simp: get_all_models_def registry_wf_def get_model_def dget_Some_iff)
  from sum_reported [OF this, of ?ms utc] show ?thesis
    by (simp add: f get_all_advertisable_versions_def rg_version_count_def get_all_models_def filter_empty_conv)
qed

theorem report_counts_witness:
  "\<exists>f. build_report utc 0 (new_publisher ''ab'' None 0) served_registry (new_tracker 1 1 (Some (new_manager 10 2))) = Returns f \<and>
     fc_total_models f = int (length (fc_models f))"
proof -
  obtain f where f: "build_report utc 0 (new_publisher ''ab'' None 0) served_registry (new_tracker 1 1 (Some (new_manager 10 2))) = Returns f"
    by (simp add: build_report_def collect_reports_eq get_capacity_report_def new_tracker_def Let_def)
  from report_counts [OF registry.reach_invar [OF served_registry_reach] f] f show ?thesis by blast
qed

section \<open>Publishing\<close>

text \<open>Without a manager the report waits for the lock its caller holds.\<close>

lemma report_blocks: "ct_manager t = None \<Longrightarrow> get_capacity_report t = SelfDeadlock"
  by (simp add: get_capacity_report_def tracker_backpressure_def)

text \<open>
  With a tracker that has no concurrency manager, which is what \<open>create_reporting_stack\<close> makes by default,
  no publication ever returns: the thread that reports waits for a lock it holds itself. This holds
  whatever limits, slots and queue depth the tracker has.
\<close>

theorem default_stack_never_publishes:
  assumes "ct_manager t = None"
  shows "do_publish utc now backend r t q p = SelfDeadlock \<and> publish_now uuid utc now backend r t p = SelfDeadlock \<and>
    (pb_running p \<and> pb_queue p = Some q # rest \<longrightarrow> worker_turn utc now backend r t p = SelfDeadlock)"
  by (simp add: publish_now_def do_publish_def build_report_def report_blocks [OF assms] worker_turn_def Let_def
      split: prod.split)

theorem default_stack_never_publishes_witness:
  "publish_now ''cd'' (\<lambda>_. 0) 0 (\<lambda>_ _. Some True) served_registry
     (snd (create_reporting_stack ''ab'' None 0 10 100 None)) (new_publisher ''ab'' None 0) = SelfDeadlock"
  using default_stack_never_publishes [of "snd (create_reporting_stack ''ab'' None 0 10 100 None)"]
  by (simp add: create_reporting_stack_def new_tracker_def)

text \<open>
  Steps of a publisher: started and stopped, told of events, ticks and due timers, and publishing by the
  worker or directly.
\<close>

inductive pbstep :: "Publisher \<Rightarrow> Publisher \<Rightarrow> bool" where
  b_start: "pbstep p (fst (pb_start uuid p r))"
| b_stop: "pbstep p (fst (pb_stop p r))"
| b_event: "pbstep p (on_registry_event uuid e p)"
| b_tick: "pbstep p (periodic_tick uuid p)"
| b_timer: "pbstep p (timer_due n p)"
| b_worker: "worker_turn utc now backend r t p = Returns (alive, p') \<Longrightarrow> pbstep p p'"
| b_now: "publish_now uuid utc now backend r t p = Returns (ok, p') \<Longrightarrow> pbstep p p'"

definition retry_ok :: "Publisher \<Rightarrow> bool" where
  "retry_ok p \<longleftrightarrow> pb_retry_delay p = min (2 ^ pb_failures p) 60 \<and>
     list_all (\<lambda>(d, c). 2 \<le> d \<and> d \<le> 60) (pb_timers p)"

lemma retry_ok_new: "retry_ok (new_publisher u i l)"
  by (simp add: retry_ok_def new_publisher_def INITIAL_RETRY_DELAY_S_def)

lemma retry_ok_queue: "retry_ok p \<Longrightarrow> retry_ok (p\<lparr>pb_queue := q\<rparr>)" "retry_ok p \<Longrightarrow> retry_ok (p\<lparr>pb_running := b\<rparr>)"
  "retry_ok p \<Longrightarrow> retry_ok (enqueue x p)"
  by (simp_all add: retry_ok_def enqueue_def)

lemma retry_ok_success: "retry_ok p \<Longrightarrow> retry_ok (on_publish_success now f p)"
  by (simp add: retry_ok_def on_publish_success_def INITIAL_RETRY_DELAY_S_def)

lemma next_delay: "min (min (2 ^ n) 60 * 2) 60 = min (2 ^ Suc n) (60::real)"
  by simp

lemma retry_ok_failure:
  assumes "retry_ok p"
  shows "retry_ok (on_publish_failure c p)"
proof -
  have d: "min (pb_retry_delay p * RETRY_MULTIPLIER) MAX_RETRY_DELAY_S = min (2 ^ Suc (pb_failures p)) 60"
    using assms next_delay [of "pb_failures p"] by (simp add: retry_ok_def RETRY_MULTIPLIER_def MAX_RETRY_DELAY_S_def)
  have "(2::real) \<le> 2 ^ Suc (pb_failures p)" by simp
  with assms show ?thesis
    unfolding on_publish_failure_def Let_def d by (simp add: retry_ok_def del: power_Suc)
qed

lemma retry_ok_publish: "retry_ok p \<Longrightarrow> do_publish utc now backend r t q p = Returns (ok, p') \<Longrightarrow> retry_ok p'"
  by (auto simp: do_publish_def retry_ok_success retry_ok_failure split: run.splits if_splits)

lemma retry_ok_step: "pbstep p p' \<Longrightarrow> retry_ok p \<Longrightarrow> retry_ok p'"
proof (induction rule: pbstep.induct)
  case (b_event p uuid e)
  then show ?case
    by (simp add: on_registry_event_def retry_ok_queue Let_def split: RegistryEventType.split)
next
  case (b_timer p n)
  have "list_all P (take n xs @ drop (Suc n) xs)" if "list_all P xs" for P and xs :: "(real \<times> string) list"
    using that by (auto simp: list_all_iff dest: in_set_takeD in_set_dropD)
  with b_timer show ?case by (simp add: timer_due_def retry_ok_def enqueue_def)
next
  case (b_worker utc now backend r t p alive p')
  consider "p' = p" | q where "p' = p\<lparr>pb_queue := q\<rparr>"
    | q rest ok where "do_publish utc now backend r t q (p\<lparr>pb_queue := rest\<rparr>) = Returns (ok, p')"
    using b_worker(1) by (auto simp: worker_turn_def run_bind_Returns_iff split: if_splits list.splits option.splits)
  then show ?case
    using b_worker(2) by cases (auto simp: retry_ok_queue dest: retry_ok_publish [OF retry_ok_queue(1)])
next
  case (b_now uuid utc now backend r t p ok p')
  then show ?case by (simp add: publish_now_def retry_ok_publish)
qed (simp_all add: pb_start_def pb_stop_def periodic_tick_def retry_ok_queue)

interpretation publisher: invariant_system "\<lambda>p. \<exists>u i l. p = new_publisher u i l" pbstep retry_ok
  by unfold_locales (auto simp: retry_ok_new retry_ok_step)

text \<open>
  The back-off: after \<open>n\<close> failures in a row the delay is \<open>2 ^ n\<close> seconds, at most a minute, and every retry
  that is scheduled waits between two seconds and a minute.
\<close>

theorem backoff_bounded:
  assumes "reach (\<lambda>p. \<exists>u i l. p = new_publisher u i l) pbstep p"
  shows "pb_retry_delay p = min (2 ^ pb_failures p) 60 \<and> (\<forall>(d, c)\<in>set (pb_timers p). 2 \<le> d \<and> d \<le> 60)"
  using publisher.reach_invar [OF assms] by (simp add: retry_ok_def list_all_iff)

theorem backoff_bounded_witness: "pb_retry_delay (new_publisher ''ab'' (Some ''rt'') 0) = min (2 ^ pb_failures (new_publisher ''ab'' (Some ''rt'') 0)) 60"
proof -
  have "reach (\<lambda>p. \<exists>u i l. p = new_publisher u i l) pbstep (new_publisher ''ab'' (Some ''rt'') 0)"
    by (rule reach_init) blast
  from backoff_bounded [OF this] show ?thesis by blast
qed

text \<open>
  A worker that is publishing when \<open>stop\<close> is called ends without taking the shutdown signal from the queue;
  the worker of the next \<open>start\<close> finds it first and ends at once.
\<close>

lemma restarted_worker_ends:
  assumes "pb_running p" "pb_queue p = []"
  shows "pb_running (fst (pb_start uuid (fst (pb_stop p r)) r'))"
    "worker_turn utc now backend r t (fst (pb_start uuid (fst (pb_stop p r)) r')) = Returns (False, p') \<Longrightarrow> pb_queue p' \<noteq> []"
    "\<exists>p'. worker_turn utc now backend r t (fst (pb_start uuid (fst (pb_stop p r)) r')) = Returns (False, p')"
  using assms by (auto simp: pb_start_def pb_stop_def enqueue_def worker_turn_def)

section \<open>The tracker with a manager\<close>

lemma acquired_counts:
  assumes "try_acquire utc mt hex i v q m = (slot, m')" "sl_acquired slot"
  shows "cm_global_active m' = cm_global_active m + 1"
proof -
  have a: "cm_global_active (auto_register i m) = cm_global_active m"
    by (simp add: auto_register_def put_state_def split: option.split)
  show ?thesis
    using assms
    by (auto simp: try_acquire_def Let_def reject_def rejected_slot_def grant_def put_state_def a
        split: if_splits prod.splits bool.splits option.splits RejectionReason.splits)
qed

text \<open>
  Over a concurrency manager \<open>acquire\<close> drops the slot it gets and \<open>release\<close> does nothing, so every pair of
  them uses up one place for good.
\<close>

theorem tracker_leaks_slots:
  assumes "ct_manager t = Some m" "tracker_acquire utc mt hex i t = (True, t')"
  shows "tracker_active_count (tracker_release i t') = tracker_active_count t + 1"
proof -
  obtain slot m' where a: "try_acquire utc mt hex i ''*'' (''capacity-'' @ i) m = (slot, m')" by fastforce
  with assms have "sl_acquired slot" "t' = t\<lparr>ct_manager := Some m'\<rparr>"
    by (simp_all add: tracker_acquire_def)
  with acquired_counts [OF a] assms(1) show ?thesis
    by (simp add: tracker_active_count_def tracker_release_def get_global_stats_def)
qed

theorem tracker_leaks_slots_witness:
  "tracker_active_count (tracker_release ''fall'' (snd (tracker_acquire (\<lambda>_. 0) 0 ''ab'' ''fall''
     (new_tracker 10 100 (Some (new_manager 10 2)))))) = 1"
proof -
  let ?t = "new_tracker 10 100 (Some (new_manager 10 2))"
  have a: "fst (tracker_acquire (\<lambda>_. 0) 0 ''ab'' ''fall'' ?t)"
    by (simp add: tracker_acquire_def new_tracker_def try_acquire_def new_manager_def auto_register_def put_state_def
        is_hard_backpressure_def HARD_THRESHOLD_def can_acquire_def new_state_def get_version_limit_def Let_def
        grant_def acquired_slot_def)
  then obtain t' where t: "tracker_acquire (\<lambda>_. 0) 0 ''ab'' ''fall'' ?t = (True, t')"
    by (cases "tracker_acquire (\<lambda>_. 0) 0 ''ab'' ''fall'' ?t") auto
  have m: "ct_manager ?t = Some (new_manager 10 2)" and n: "tracker_active_count ?t = 0"
    by (simp_all add: new_tracker_def tracker_active_count_def get_global_stats_def new_manager_def)
  from tracker_leaks_slots [OF m t] show ?thesis by (simp only: t n snd_conv)
qed

end
