(* ===== verification/BackendClient.thy ===== *)
theory BackendClient
  imports Reporting
begin

text \<open>
  \<open>ai/runtime/backend_client.py\<close>: the synchronous and the asynchronous HTTP client that push reports to
  the backend, their retry loops, and the publisher over the synchronous client. The answer to the
  \<open>k\<close>-th post of a call is a parameter; posts and sleeps are recorded in order.
\<close>

section \<open>Configuration and clients\<close>

record BackendClientConfig =
  bc_backend_url :: string
  bc_connect_timeout :: real
  bc_read_timeout :: real
  bc_write_timeout :: real
  bc_max_retries :: int
  bc_retry_delay_base :: real
  bc_retry_delay_max :: real
  bc_api_key :: "string option"
  bc_service_token :: "string option"
  bc_extra_headers :: "(string, string) dict"

definition default_config :: BackendClientConfig where
  "default_config =
     \<lparr>bc_backend_url = ''http://localhost:8080'', bc_connect_timeout = 5, bc_read_timeout = 10, bc_write_timeout = 10,
      bc_max_retries = 3, bc_retry_delay_base = 1, bc_retry_delay_max = 10, bc_api_key = None,
      bc_service_token = None, bc_extra_headers = []\<rparr>"

record ClientTimeout =
  to_connect :: real
  to_read :: real
  to_write :: real
  to_pool :: real

record HTTPBackendClient =
  hb_config :: BackendClientConfig
  hb_runtime_id :: string
  hb_timeout :: ClientTimeout
  hb_headers :: "(string, string) dict"
  hb_registered :: bool
  hb_last_registration :: "real option"
  hb_last_health_push :: "real option"

definition REGISTER_ENDPOINT :: string where "REGISTER_ENDPOINT = ''/internal/v1/ai-runtime/register''"
definition HEALTH_ENDPOINT :: string where "HEALTH_ENDPOINT = ''/internal/v1/ai-runtime/health''"
definition DEREGISTER_ENDPOINT :: string where "DEREGISTER_ENDPOINT = ''/internal/v1/ai-runtime/deregister''"

definition client_timeout :: "BackendClientConfig \<Rightarrow> ClientTimeout" where
  "client_timeout cfg =
     \<lparr>to_connect = bc_connect_timeout cfg, to_read = bc_read_timeout cfg, to_write = bc_write_timeout cfg,
      to_pool = bc_connect_timeout cfg\<rparr>"

definition build_headers :: "BackendClientConfig \<Rightarrow> string \<Rightarrow> (string, string) dict" where
  "build_headers cfg runtime_id =
     (let headers = [(''Content-Type'', ''application/json''), (''X-Runtime-ID'', runtime_id),
                     (''User-Agent'', ''ruth-ai-runtime/'' @ runtime_id)];
          h1 = (if truthy_str (bc_api_key cfg) then dput ''X-API-Key'' (the (bc_api_key cfg)) headers else headers);
          h2 = (if truthy_str (bc_service_token cfg)
                then dput ''Authorization'' (''Bearer '' @ the (bc_service_token cfg)) h1 else h1)
      in dict_update h2 (bc_extra_headers cfg))"

definition new_client :: "BackendClientConfig option \<Rightarrow> string option \<Rightarrow> HTTPBackendClient" where
  "new_client config runtime_id =
     (let cfg = (case config of None \<Rightarrow> default_config | Some c \<Rightarrow> c);
          rid = (if truthy_str runtime_id then the runtime_id else ''unknown'')
      in \<lparr>hb_config = cfg, hb_runtime_id = rid, hb_timeout = client_timeout cfg, hb_headers = build_headers cfg rid,
          hb_registered = False, hb_last_registration = None, hb_last_health_push = None\<rparr>)"

section \<open>Posting with retries\<close>

datatype Outcome = Status int | ConnectError | TimeoutException | OtherError

datatype Action = Post string "(string, jval) dict" "(string, string) dict" | Sleep real

definition accepted_status :: "Outcome \<Rightarrow> bool" where
  "accepted_status a \<longleftrightarrow> a \<in> Status ` {200, 201, 202, 204}"

definition client_error_status :: "Outcome \<Rightarrow> bool" where
  "client_error_status a \<longleftrightarrow> (case a of Status c \<Rightarrow> 400 \<le> c \<and> c < 500 | _ \<Rightarrow> False)"

text \<open>
  The loop with \<open>n\<close> attempts left, of which this is number \<open>k\<close>: whether it succeeded, or the exception
  that \<open>time.sleep\<close> raises for a negative delay outside the \<open>try\<close>, and what it did.
\<close>

fun post_loop :: "(nat \<Rightarrow> Outcome) \<Rightarrow> real \<Rightarrow> Action \<Rightarrow> nat \<Rightarrow> nat \<Rightarrow> real \<Rightarrow> (py_error + bool) \<times> Action list" where
  "post_loop net cap post 0 k delay = (Inr False, [])"
| "post_loop net cap post (Suc n) k delay =
     (if accepted_status (net k) then (Inr True, [post])
      else if client_error_status (net k) then (Inr False, [post])
      else if n = 0 then (Inr False, [post])
      else if delay < 0 then (Inl (ValueError ''sleep length must be non-negative''), [post])
      else (let (res, acts) = post_loop net cap post n (Suc k) (min (delay * 2) cap)
            in (res, post # Sleep delay # acts)))"

definition post_with_retry ::
  "(nat \<Rightarrow> real) \<Rightarrow> (nat \<Rightarrow> Outcome) \<Rightarrow> string \<Rightarrow> (string, jval) dict \<Rightarrow> string \<Rightarrow> string \<Rightarrow> int option \<Rightarrow>
   HTTPBackendClient \<Rightarrow> (py_error + bool) \<times> Action list \<times> HTTPBackendClient" where
  "post_with_retry utc net endpoint payload correlation_id operation max_retries c =
     (let retries = (case max_retries of None \<Rightarrow> bc_max_retries (hb_config c) | Some n \<Rightarrow> n);
          (res, acts) = post_loop net (bc_retry_delay_max (hb_config c))
            (Post endpoint payload [(''X-Correlation-ID'', correlation_id)])
            (nat (retries + 1)) 0 (bc_retry_delay_base (hb_config c))
      in (res, acts,
          if res = Inr True \<and> operation = ''register_capabilities''
          then c\<lparr>hb_registered := True, hb_last_registration := Some (utc 1)\<rparr> else c))"

section \<open>Operations\<close>

definition registration_payload :: "FullCapabilityReport \<Rightarrow> (string, jval) dict" where
  "registration_payload r =
     [(''runtime_id'', JStr (fc_runtime_id r)), (''timestamp'', JTime (fc_timestamp r)),
      (''runtime_health'', JStr (health_value (fc_runtime_health r))),
      (''summary'', JDict [(''total_models'', JInt (fc_total_models r)), (''healthy_models'', JInt (fc_healthy_models r)),
         (''total_versions'', JInt (fc_total_versions r)), (''ready_versions'', JInt (fc_ready_versions r))]),
      (''models'', JList (map (JDict \<circ> model_report_to_dict) (fc_models r))),
      (''capacity'', JDict (capacity_to_dict (fc_capacity r)))]"

definition register_capabilities ::
  "(nat \<Rightarrow> real) \<Rightarrow> (nat \<Rightarrow> Outcome) \<Rightarrow> FullCapabilityReport \<Rightarrow> string \<Rightarrow>
   HTTPBackendClient \<Rightarrow> (py_error + bool) \<times> Action list \<times> HTTPBackendClient" where
  "register_capabilities utc net report correlation_id c =
     post_with_retry utc net REGISTER_ENDPOINT (registration_payload report) correlation_id ''register_capabilities'' None c"

definition version_payload :: "real \<Rightarrow> string \<Rightarrow> string \<Rightarrow> string \<Rightarrow> (string, jval) dict" where
  "version_payload now runtime_id model_id version =
     [(''runtime_id'', JStr runtime_id), (''model_id'', JStr model_id), (''version'', JStr version),
      (''timestamp'', JTime now), (''reason'', JStr ''version_unloaded'')]"

definition deregister_version ::
  "(nat \<Rightarrow> real) \<Rightarrow> (nat \<Rightarrow> Outcome) \<Rightarrow> string \<Rightarrow> string \<Rightarrow> string \<Rightarrow>
   HTTPBackendClient \<Rightarrow> (py_error + bool) \<times> Action list \<times> HTTPBackendClient" where
  "deregister_version utc net model_id version correlation_id c =
     post_with_retry utc net (DEREGISTER_ENDPOINT @ ''/version'')
       (version_payload (utc 0) (hb_runtime_id c) model_id version) correlation_id ''deregister_version'' None c"

definition health_payload :: "real \<Rightarrow> string \<Rightarrow> HealthStatus \<Rightarrow> (string, HealthStatus) dict \<Rightarrow> (string, jval) dict" where
  "health_payload now runtime_id runtime_health model_healths =
     [(''runtime_id'', JStr runtime_id), (''timestamp'', JTime now), (''runtime_health'', JStr (health_value runtime_health)),
      (''models'', JDict (map (\<lambda>(i, h). (i, JStr (health_value h))) model_healths))]"

definition push_health ::
  "(nat \<Rightarrow> real) \<Rightarrow> (nat \<Rightarrow> Outcome) \<Rightarrow> HealthStatus \<Rightarrow> (string, HealthStatus) dict \<Rightarrow> string \<Rightarrow>
   HTTPBackendClient \<Rightarrow> (py_error + bool) \<times> Action list \<times> HTTPBackendClient" where
  "push_health utc net runtime_health model_healths correlation_id c =
     (let (success, acts, c') = post_with_retry utc net HEALTH_ENDPOINT
            (health_payload (utc 0) (hb_runtime_id c) runtime_health model_healths) correlation_id ''push_health'' None c
      in (success, acts, if success = Inr True then c'\<lparr>hb_last_health_push := Some (utc 2)\<rparr> else c'))"

definition shutdown_payload :: "real \<Rightarrow> string \<Rightarrow> (string, jval) dict" where
  "shutdown_payload now runtime_id =
     [(''runtime_id'', JStr runtime_id), (''timestamp'', JTime now), (''reason'', JStr ''graceful_shutdown'')]"

definition deregister ::
  "(nat \<Rightarrow> real) \<Rightarrow> (nat \<Rightarrow> Outcome) \<Rightarrow> string \<Rightarrow>
   HTTPBackendClient \<Rightarrow> (py_error + bool) \<times> Action list \<times> HTTPBackendClient" where
  "deregister utc net correlation_id c =
     (let (success, acts, c') = post_with_retry utc net DEREGISTER_ENDPOINT
            (shutdown_payload (utc 0) (hb_runtime_id c)) correlation_id ''deregister'' (Some 1) c
      in (success, acts, if success = Inr True then c'\<lparr>hb_registered := False\<rparr> else c'))"

definition is_registered :: "HTTPBackendClient \<Rightarrow> bool" where
  "is_registered c = hb_registered c"

section \<open>The asynchronous client\<close>

record AsyncHTTPBackendClient =
  ab_config :: BackendClientConfig
  ab_runtime_id :: string
  ab_timeout :: ClientTimeout
  ab_headers :: "(string, string) dict"
  ab_registered :: bool
  ab_last_registration :: "real option"

definition async_new_client :: "BackendClientConfig option \<Rightarrow> string option \<Rightarrow> AsyncHTTPBackendClient" where
  "async_new_client config runtime_id =
     (let cfg = (case config of None \<Rightarrow> default_config | Some c \<Rightarrow> c);
          rid = (if truthy_str runtime_id then the runtime_id else ''unknown'')
      in \<lparr>ab_config = cfg, ab_runtime_id = rid, ab_timeout = client_timeout cfg, ab_headers = build_headers cfg rid,
          ab_registered = False, ab_last_registration = None\<rparr>)"

text \<open>\<open>asyncio.sleep\<close> returns at once for a negative delay.\<close>

fun async_post_loop :: "(nat \<Rightarrow> Outcome) \<Rightarrow> real \<Rightarrow> Action \<Rightarrow> nat \<Rightarrow> nat \<Rightarrow> real \<Rightarrow> bool \<times> Action list" where
  "async_post_loop net cap post 0 k delay = (False, [])"
| "async_post_loop net cap post (Suc n) k delay =
     (if accepted_status (net k) then (True, [post])
      else if client_error_status (net k) then (False, [post])
      else if n = 0 then (False, [post])
      else (let (res, acts) = async_post_loop net cap post n (Suc k) (min (delay * 2) cap)
            in (res, post # Sleep delay # acts)))"

definition async_post_with_retry ::
  "(nat \<Rightarrow> real) \<Rightarrow> (nat \<Rightarrow> Outcome) \<Rightarrow> string \<Rightarrow> (string, jval) dict \<Rightarrow> string \<Rightarrow> string \<Rightarrow> int option \<Rightarrow>
   AsyncHTTPBackendClient \<Rightarrow> bool \<times> Action list \<times> AsyncHTTPBackendClient" where
  "async_post_with_retry utc net endpoint payload correlation_id operation max_retries c =
     (let retries = (case max_retries of None \<Rightarrow> bc_max_retries (ab_config c) | Some n \<Rightarrow> n);
          (res, acts) = async_post_loop net (bc_retry_delay_max (ab_config c))
            (Post endpoint payload [(''X-Correlation-ID'', correlation_id)])
            (nat (retries + 1)) 0 (bc_retry_delay_base (ab_config c))
      in (res, acts,
          if res \<and> operation = ''register_capabilities''
          then c\<lparr>ab_registered := True, ab_last_registration := Some (utc 1)\<rparr> else c))"

definition async_register_capabilities ::
  "(nat \<Rightarrow> real) \<Rightarrow> (nat \<Rightarrow> Outcome) \<Rightarrow> FullCapabilityReport \<Rightarrow> string \<Rightarrow>
   AsyncHTTPBackendClient \<Rightarrow> bool \<times> Action list \<times> AsyncHTTPBackendClient" where
  "async_register_capabilities utc net report correlation_id c =
     async_post_with_retry utc net REGISTER_ENDPOINT (registration_payload report) correlation_id
       ''register_capabilities'' None c"

definition async_deregister_version ::
  "(nat \<Rightarrow> real) \<Rightarrow> (nat \<Rightarrow> Outcome) \<Rightarrow> string \<Rightarrow> string \<Rightarrow> string \<Rightarrow>
   AsyncHTTPBackendClient \<Rightarrow> bool \<times> Action list \<times> AsyncHTTPBackendClient" where
  "async_deregister_version utc net model_id version correlation_id c =
     async_post_with_retry utc net (DEREGISTER_ENDPOINT @ ''/version'')
       (version_payload (utc 0) (ab_runtime_id c) model_id version) correlation_id ''deregister_version'' None c"

definition async_push_health ::
  "(nat \<Rightarrow> real) \<Rightarrow> (nat \<Rightarrow> Outcome) \<Rightarrow> HealthStatus \<Rightarrow> (string, HealthStatus) dict \<Rightarrow> string \<Rightarrow>
   AsyncHTTPBackendClient \<Rightarrow> bool \<times> Action list \<times> AsyncHTTPBackendClient" where
  "async_push_health utc net runtime_health model_healths correlation_id c =
     async_post_with_retry utc net HEALTH_ENDPOINT
       (health_payload (utc 0) (ab_runtime_id c) runtime_health model_healths) correlation_id ''push_health'' None c"

definition async_deregister ::
  "(nat \<Rightarrow> real) \<Rightarrow> (nat \<Rightarrow> Outcome) \<Rightarrow> string \<Rightarrow>
   AsyncHTTPBackendClient \<Rightarrow> bool \<times> Action list \<times> AsyncHTTPBackendClient" where
  "async_deregister utc net correlation_id c =
     (let (success, acts, c') = async_post_with_retry utc net DEREGISTER_ENDPOINT
            (shutdown_payload (utc 0) (ab_runtime_id c)) correlation_id ''deregister'' (Some 1) c
      in (success, acts, if success then c'\<lparr>ab_registered := False\<rparr> else c'))"

definition create_backend_client ::
  "string \<Rightarrow> string \<Rightarrow> string option \<Rightarrow> string option \<Rightarrow> bool \<Rightarrow> HTTPBackendClient + AsyncHTTPBackendClient" where
  "create_backend_client backend_url runtime_id api_key service_token async_client =
     (let config = default_config\<lparr>bc_backend_url := backend_url, bc_api_key := api_key, bc_service_token := service_token\<rparr>
      in if async_client then Inr (async_new_client (Some config) (Some runtime_id))
         else Inl (new_client (Some config) (Some runtime_id)))"

section \<open>Calls of a client\<close>

datatype Call = Register FullCapabilityReport | DeregisterVersion string string
  | PushHealth HealthStatus "(string, HealthStatus) dict" | Deregister

fun perform :: "(nat \<Rightarrow> real) \<Rightarrow> (nat \<Rightarrow> Outcome) \<Rightarrow> string \<Rightarrow> Call \<Rightarrow>
    HTTPBackendClient \<Rightarrow> (py_error + bool) \<times> Action list \<times> HTTPBackendClient" where
  "perform utc net cid (Register report) c = register_capabilities utc net report cid c"
| "perform utc net cid (DeregisterVersion i v) c = deregister_version utc net i v cid c"
| "perform utc net cid (PushHealth h hs) c = push_health utc net h hs cid c"
| "perform utc net cid Deregister c = deregister utc net cid c"

fun async_perform :: "(nat \<Rightarrow> real) \<Rightarrow> (nat \<Rightarrow> Outcome) \<Rightarrow> string \<Rightarrow> Call \<Rightarrow>
    AsyncHTTPBackendClient \<Rightarrow> bool \<times> Action list \<times> AsyncHTTPBackendClient" where
  "async_perform utc net cid (Register report) c = async_register_capabilities utc net report cid c"
| "async_perform utc net cid (DeregisterVersion i v) c = async_deregister_version utc net i v cid c"
| "async_perform utc net cid (PushHealth h hs) c = async_push_health utc net h hs cid c"
| "async_perform utc net cid Deregister c = async_deregister utc net cid c"

text \<open>A call with the clock and the network it meets; calls in sequence, with their answers.\<close>

type_synonym timed_call = "(nat \<Rightarrow> real) \<times> (nat \<Rightarrow> Outcome) \<times> string \<times> Call"

fun perform_all :: "timed_call list \<Rightarrow> HTTPBackendClient \<Rightarrow> ((py_error + bool) \<times> Action list) list \<times> HTTPBackendClient" where
  "perform_all [] c = ([], c)"
| "perform_all ((utc, net, cid, call) # calls) c =
     (let (res, acts, c1) = perform utc net cid call c; (rest, c2) = perform_all calls c1
      in ((res, acts) # rest, c2))"

fun async_perform_all :: "timed_call list \<Rightarrow> AsyncHTTPBackendClient \<Rightarrow> (bool \<times> Action list) list \<times> AsyncHTTPBackendClient" where
  "async_perform_all [] c = ([], c)"
| "async_perform_all ((utc, net, cid, call) # calls) c =
     (let (res, acts, c1) = async_perform utc net cid call c; (rest, c2) = async_perform_all calls c1
      in ((res, acts) # rest, c2))"

text \<open>The backend as the publisher sees it through the client.\<close>

definition http_backend ::
  "(nat \<Rightarrow> real) \<Rightarrow> (nat \<Rightarrow> Outcome) \<Rightarrow> HTTPBackendClient \<Rightarrow> FullCapabilityReport \<Rightarrow> string \<Rightarrow> bool option" where
  "http_backend utc net c report correlation_id =
     (case fst (register_capabilities utc net report correlation_id c) of Inl e \<Rightarrow> None | Inr ok \<Rightarrow> Some ok)"

section \<open>The retry loop\<close>

fun posts :: "Action list \<Rightarrow> nat" where
  "posts [] = 0"
| "posts (Post e p h # acts) = Suc (posts acts)"
| "posts (Sleep d # acts) = posts acts"

fun slept :: "Action list \<Rightarrow> real" where
  "slept [] = 0"
| "slept (Post e p h # acts) = slept acts"
| "slept (Sleep d # acts) = d + slept acts"

text \<open>One of the first \<open>n\<close> answers from the \<open>k\<close>-th on is accepted and no client error comes before it.\<close>

definition accepted_from :: "(nat \<Rightarrow> Outcome) \<Rightarrow> nat \<Rightarrow> nat \<Rightarrow> bool" where
  "accepted_from net k n \<longleftrightarrow>
     (\<exists>j\<in>{k..<k + n}. accepted_status (net j) \<and> (\<forall>i\<in>{k..<j}. \<not> client_error_status (net i)))"

lemma accepted_no_client_error: "accepted_status a \<Longrightarrow> \<not> client_error_status a"
  by (auto simp: accepted_status_def client_error_status_def)

lemma accepted_from_0 [simp]: "\<not> accepted_from net k 0"
  by (simp add: accepted_from_def)

lemma accepted_from_Suc:
  "accepted_from net k (Suc n) \<longleftrightarrow>
     accepted_status (net k) \<or> \<not> client_error_status (net k) \<and> accepted_from net (Suc k) n"
proof -
  have i: "{k..<k + Suc n} = insert k {Suc k..<Suc k + n}" by auto
  have "{k..<j} = insert k {Suc k..<j}" if "j \<in> {Suc k..<Suc k + n}" for j using that by auto
  then show ?thesis unfolding accepted_from_def i by auto
qed

lemma post_loop_result:
  assumes "0 \<le> d" "0 \<le> cap"
  shows "fst (post_loop net cap post n k d) = Inr (accepted_from net k n)"
  using assms by (induction n arbitrary: k d)
    (auto simp: accepted_from_Suc accepted_no_client_error Let_def split_beta)

lemma post_loop_bounds:
  assumes "0 \<le> d" "0 \<le> cap"
  shows "posts (snd (post_loop net cap (Post e p h) n k d)) \<le> n \<and>
    (0 < n \<longrightarrow> 1 \<le> posts (snd (post_loop net cap (Post e p h) n k d)) \<and>
      slept (snd (post_loop net cap (Post e p h) n k d)) \<le>
        max d cap * (real (posts (snd (post_loop net cap (Post e p h) n k d))) - 1))"
  using assms
proof (induction n arbitrary: k d)
  case 0
  then show ?case by simp
next
  case (Suc n)
  let ?rest = "snd (post_loop net cap (Post e p h) n (Suc k) (min (d * 2) cap))"
  show ?case
  proof (cases "accepted_status (net k) \<or> client_error_status (net k) \<or> n = 0")
    case True
    then show ?thesis by auto
  next
    case False
    then have eq: "snd (post_loop net cap (Post e p h) (Suc n) k d) = Post e p h # Sleep d # ?rest"
      using Suc.prems by (simp add: split_beta)
    have "max (min (d * 2) cap) cap = cap" by simp
    with Suc.IH [of "min (d * 2) cap" "Suc k"] Suc.prems False
    have ih: "posts ?rest \<le> n" "1 \<le> posts ?rest" "slept ?rest \<le> cap * (real (posts ?rest) - 1)" by auto
    moreover have "cap * (real (posts ?rest) - 1) \<le> max d cap * (real (posts ?rest) - 1)"
      using ih(2) by (intro mult_right_mono) auto
    ultimately have "slept ?rest \<le> max d cap * (real (posts ?rest) - 1)" by linarith
    moreover have "d \<le> max d cap" by simp
    ultimately have "d + slept ?rest \<le> max d cap * real (posts ?rest)" by (simp add: right_diff_distrib)
    with ih(1) show ?thesis unfolding eq by simp
  qed
qed

definition valid_config :: "BackendClientConfig \<Rightarrow> bool" where
  "valid_config cfg \<longleftrightarrow> 0 \<le> bc_retry_delay_base cfg \<and> 0 \<le> bc_retry_delay_max cfg"

definition attempts :: "BackendClientConfig \<Rightarrow> int option \<Rightarrow> nat" where
  "attempts cfg max_retries = nat (case max_retries of None \<Rightarrow> bc_max_retries cfg + 1 | Some n \<Rightarrow> n + 1)"

lemma post_with_retry_eq:
  assumes "valid_config (hb_config c)"
  shows "post_with_retry utc net endpoint payload cid op mr c =
    (Inr (accepted_from net 0 (attempts (hb_config c) mr)),
     snd (post_loop net (bc_retry_delay_max (hb_config c)) (Post endpoint payload [(''X-Correlation-ID'', cid)])
       (attempts (hb_config c) mr) 0 (bc_retry_delay_base (hb_config c))),
     if accepted_from net 0 (attempts (hb_config c) mr) \<and> op = ''register_capabilities''
     then c\<lparr>hb_registered := True, hb_last_registration := Some (utc 1)\<rparr> else c)"
proof -
  have n: "nat ((case mr of None \<Rightarrow> bc_max_retries (hb_config c) | Some n \<Rightarrow> n) + 1) = attempts (hb_config c) mr"
    by (simp add: attempts_def split: option.split)
  from assms show ?thesis
    unfolding post_with_retry_def Let_def n
    by (simp add: valid_config_def split_beta post_loop_result)
qed

text \<open>
  A call of the client returns: it posts at most once more than there are retries, at least once when
  retries are not negative, and between two posts it waits at most the larger of the first and the
  largest delay.
\<close>

theorem post_returns_bounded:
  assumes "valid_config (hb_config c)"
  shows "\<exists>ok acts c'. post_with_retry utc net endpoint payload cid op mr c = (Inr ok, acts, c') \<and>
    posts acts \<le> attempts (hb_config c) mr \<and>
    (0 < attempts (hb_config c) mr \<longrightarrow> 1 \<le> posts acts \<and>
      slept acts \<le> max (bc_retry_delay_base (hb_config c)) (bc_retry_delay_max (hb_config c)) * (real (posts acts) - 1))"
proof -
  have "0 \<le> bc_retry_delay_base (hb_config c)" "0 \<le> bc_retry_delay_max (hb_config c)"
    using assms by (simp_all add: valid_config_def)
  then show ?thesis
    unfolding post_with_retry_eq [OF assms]
    by - (rule exI, rule exI, rule exI, rule conjI, rule refl, rule post_loop_bounds)
qed

theorem post_returns_bounded_witness:
  "\<exists>ok acts c'. post_with_retry (\<lambda>_. 0) (\<lambda>_. ConnectError) ''/x'' [] ''id'' ''register_capabilities'' None
       (new_client None None) = (Inr ok, acts, c') \<and> posts acts \<le> 4 \<and> slept acts \<le> 10 * (real (posts acts) - 1)"
proof -
  have "valid_config (hb_config (new_client None None))" "attempts (hb_config (new_client None None)) None = 4"
    "max (bc_retry_delay_base (hb_config (new_client None None))) (bc_retry_delay_max (hb_config (new_client None None))) = 10"
    by (simp_all add: valid_config_def new_client_def default_config_def attempts_def Let_def)
  from post_returns_bounded [OF this(1), of "\<lambda>_. 0" "\<lambda>_. ConnectError" "''/x''" "[]" "''id''" "''register_capabilities''" None,
      unfolded this(2,3)]
  show ?thesis by (elim ex_forward conj_forward) simp_all
qed

text \<open>A negative delay: the exception of \<open>time.sleep\<close> leaves the call after the first failed post.\<close>

lemma negative_delay_raises:
  assumes "bc_retry_delay_base (hb_config c) < 0" "0 < bc_max_retries (hb_config c)"
    "\<not> accepted_status (net 0)" "\<not> client_error_status (net 0)"
  shows "\<exists>e. fst (post_with_retry utc net endpoint payload cid op None c) = Inl e"
proof -
  have "nat (bc_max_retries (hb_config c) + 1) = Suc (Suc (nat (bc_max_retries (hb_config c) - 1)))"
    using assms(2) by arith
  with assms show ?thesis by (simp add: post_with_retry_def Let_def)
qed

section \<open>Registration state\<close>

definition budget :: "BackendClientConfig \<Rightarrow> Call \<Rightarrow> nat" where
  "budget cfg call = attempts cfg (if call = Deregister then Some 1 else None)"

definition call_accepted :: "BackendClientConfig \<Rightarrow> timed_call \<Rightarrow> bool" where
  "call_accepted cfg t = (case t of (utc, net, cid, call) \<Rightarrow> accepted_from net 0 (budget cfg call))"

fun changes_registration :: "Call \<Rightarrow> bool option" where
  "changes_registration (Register f) = Some True"
| "changes_registration Deregister = Some False"
| "changes_registration _ = None"

lemmas client_calls = register_capabilities_def deregister_version_def push_health_def deregister_def
lemmas async_client_calls = async_register_capabilities_def async_deregister_version_def async_push_health_def
  async_deregister_def

lemma perform_effect:
  assumes "valid_config (hb_config c)"
  shows "fst (perform utc net cid call c) = Inr (call_accepted (hb_config c) (utc, net, cid, call)) \<and>
    hb_config (snd (snd (perform utc net cid call c))) = hb_config c \<and>
    hb_registered (snd (snd (perform utc net cid call c))) =
      (if call_accepted (hb_config c) (utc, net, cid, call)
       then (case changes_registration call of None \<Rightarrow> hb_registered c | Some b \<Rightarrow> b) else hb_registered c)"
  by (cases call) (auto simp: client_calls post_with_retry_eq [OF assms] call_accepted_def budget_def)

lemma perform_all_snoc:
  "snd (perform_all (calls @ [(utc, net, cid, call)]) c) = snd (snd (perform utc net cid call (snd (perform_all calls c))))"
  by (induction calls arbitrary: c) (auto simp: Let_def split_beta)

lemma perform_all_config:
  "valid_config (hb_config c) \<Longrightarrow> hb_config (snd (perform_all calls c)) = hb_config c"
proof (induction calls rule: rev_induct)
  case Nil
  then show ?case by simp
next
  case (snoc t calls)
  then show ?case by (cases t) (simp add: perform_all_snoc perform_effect)
qed

text \<open>
  After any calls of a fresh client it counts as registered exactly when the last of the registrations
  and deregistrations that the backend accepted, in time, was a registration.
\<close>

theorem registered_after_calls:
  assumes "valid_config (hb_config c)" "\<not> is_registered c"
  shows "is_registered (snd (perform_all calls c)) \<longleftrightarrow>
    (let ts = filter (\<lambda>t. call_accepted (hb_config c) t \<and> changes_registration (snd (snd (snd t))) \<noteq> None) calls
     in ts \<noteq> [] \<and> changes_registration (snd (snd (snd (last ts)))) = Some True)"
proof (induction calls rule: rev_induct)
  case Nil
  with assms show ?case by simp
next
  case (snoc t calls)
  then show ?case
    using perform_all_config [OF assms(1), of calls] assms(1)
    by (cases t) (auto simp: perform_all_snoc perform_effect is_registered_def Let_def split: option.split)
qed

theorem registered_after_calls_witness:
  "\<forall>f. is_registered (snd (perform_all
     [(\<lambda>_. 0, \<lambda>k. if k = 0 then ConnectError else Status 201, ''a'', Register f), (\<lambda>_. 0, \<lambda>_. Status 500, ''b'', Deregister)]
     (new_client None None)))"
proof -
  have v: "valid_config (hb_config (new_client None None))" "\<not> is_registered (new_client None None)"
    by (simp_all add: valid_config_def new_client_def default_config_def is_registered_def Let_def)
  have a: "attempts (hb_config (new_client None None)) None = Suc (Suc (Suc (Suc 0)))"
    "attempts (hb_config (new_client None None)) (Some 1) = Suc (Suc 0)"
    by (simp_all add: new_client_def default_config_def attempts_def Let_def)
  show ?thesis
    unfolding registered_after_calls [OF v]
    by (auto simp: call_accepted_def budget_def a accepted_from_Suc accepted_status_def client_error_status_def)
qed

section \<open>The asynchronous client\<close>

lemma async_loop_eq:
  assumes "0 \<le> d" "0 \<le> cap"
  shows "async_post_loop net cap post n k d =
    (accepted_from net k n, snd (post_loop net cap post n k d))"
  using assms by (induction n arbitrary: k d)
    (auto simp: accepted_from_Suc accepted_no_client_error Let_def split_beta)

definition async_of :: "HTTPBackendClient \<Rightarrow> AsyncHTTPBackendClient" where
  "async_of c = \<lparr>ab_config = hb_config c, ab_runtime_id = hb_runtime_id c, ab_timeout = hb_timeout c,
     ab_headers = hb_headers c, ab_registered = hb_registered c, ab_last_registration = hb_last_registration c\<rparr>"

lemma async_of_new: "async_of (new_client config runtime_id) = async_new_client config runtime_id"
  by (simp add: async_of_def new_client_def async_new_client_def Let_def)

lemma async_of_updates:
  "async_of (c\<lparr>hb_registered := b\<rparr>) = async_of c\<lparr>ab_registered := b\<rparr>"
  "async_of (c\<lparr>hb_last_health_push := x\<rparr>) = async_of c"
  by (simp_all add: async_of_def)

lemma async_post_with_retry_eq:
  assumes "valid_config (hb_config c)"
  shows "async_post_with_retry utc net endpoint payload cid op mr (async_of c) =
    (case post_with_retry utc net endpoint payload cid op mr c of (r, acts, c') \<Rightarrow> (r = Inr True, acts, async_of c'))"
proof -
  have n: "nat ((case mr of None \<Rightarrow> bc_max_retries (hb_config c) | Some n \<Rightarrow> n) + 1) = attempts (hb_config c) mr"
    by (simp add: attempts_def split: option.split)
  have a: "ab_config (async_of c) = hb_config c" by (simp add: async_of_def)
  from assms show ?thesis
    unfolding async_post_with_retry_def Let_def post_with_retry_eq [OF assms] a n
    by (simp add: async_of_def valid_config_def async_loop_eq)
qed

lemma async_perform_eq:
  assumes "valid_config (hb_config c)"
  shows "async_perform utc net cid call (async_of c) =
    (case perform utc net cid call c of (r, acts, c') \<Rightarrow> (r = Inr True, acts, async_of c'))"
proof -
  have i: "ab_runtime_id (async_of c) = hb_runtime_id c" by (simp add: async_of_def)
  show ?thesis
    by (cases call)
      (auto simp: client_calls async_client_calls async_post_with_retry_eq [OF assms] i async_of_updates split: prod.splits)
qed

text \<open>
  The two clients are the same: whatever is called, in whatever order, and whatever the backend answers,
  both post the same requests, wait as long, give the same answers and end registered alike.
\<close>

theorem clients_equivalent:
  assumes "valid_config (hb_config c)"
  shows "async_perform_all calls (async_of c) =
    (map (\<lambda>(r, acts). (r = Inr True, acts)) (fst (perform_all calls c)), async_of (snd (perform_all calls c)))"
  using assms
proof (induction calls arbitrary: c)
  case Nil
  then show ?case by simp
next
  case (Cons t calls)
  obtain utc net cid call where t: "t = (utc, net, cid, call)" by (cases t)
  obtain r acts c1 where p: "perform utc net cid call c = (r, acts, c1)" by (cases "perform utc net cid call c")
  with perform_effect [OF Cons.prems, of utc net cid call] Cons.prems have "valid_config (hb_config c1)" by simp
  from Cons.IH [OF this] show ?case
    by (simp add: t p async_perform_eq [OF Cons.prems] Let_def split_beta)
qed

theorem clients_equivalent_witness:
  "snd (async_perform_all [(\<lambda>_. 0, \<lambda>_. Status 200, ''a'', PushHealth HEALTHY [])] (async_new_client None None)) =
   async_of (snd (perform_all [(\<lambda>_. 0, \<lambda>_. Status 200, ''a'', PushHealth HEALTHY [])] (new_client None None)))"
  using clients_equivalent [of "new_client None None" "[(\<lambda>_. 0, \<lambda>_. Status 200, ''a'', PushHealth HEALTHY [])]"]
  by (simp add: async_of_new) (simp add: valid_config_def new_client_def default_config_def Let_def)

section \<open>The publisher over the client\<close>

lemma registration_payload_eq: "registration_payload f = full_report_to_dict f"
  by (simp add: registration_payload_def full_report_to_dict_def)

lemma http_backend_eq:
  "valid_config (hb_config c) \<Longrightarrow>
   http_backend utc net c f cid = Some (accepted_from net 0 (attempts (hb_config c) None))"
  by (simp add: http_backend_def register_capabilities_def post_with_retry_eq)

text \<open>
  Publishing over the client: the publisher counts a success and keeps the report exactly when one of the
  client's posts is accepted before a client error, and that is when the client is registered; else it
  counts one more failure and keeps the report it had.
\<close>

theorem publish_over_http:
  assumes "ct_manager t = Some m" "valid_config (hb_config c)"
  shows "\<exists>f ok p'. build_report utc now p r t = Returns f \<and>
    do_publish utc now (http_backend u net c) r t q p = Returns (ok, p') \<and>
    ok = accepted_from net 0 (attempts (hb_config c) None) \<and>
    (is_registered (snd (snd (register_capabilities u net f (pr_correlation_id q) c))) \<longleftrightarrow> ok \<or> is_registered c) \<and>
    pb_failures p' = (if ok then 0 else Suc (pb_failures p)) \<and>
    pb_last_report p' = (if ok then Some f else pb_last_report p)"
proof -
  obtain f where f: "build_report utc now p r t = Returns f"
    using assms(1) by (cases "collect_reports utc r (get_all_models r) ([], 0, 0, 0)")
      (simp add: build_report_def get_capacity_report_def Let_def)
  have "pb_last_report (on_publish_failure cid p) = pb_last_report p" "pb_failures (on_publish_failure cid p) = Suc (pb_failures p)" for cid
    by (simp_all add: on_publish_failure_def Let_def)
  with f show ?thesis
    by (auto simp: do_publish_def http_backend_eq [OF assms(2)] on_publish_success_def is_registered_def
        register_capabilities_def post_with_retry_eq [OF assms(2)])
qed

theorem publish_over_http_witness:
  "\<exists>p'. do_publish (\<lambda>_. 0) 0 (http_backend (\<lambda>_. 0) (\<lambda>_. Status 503) (new_client None None)) served_registry
      (new_tracker 1 1 (Some (new_manager 10 2))) (mk_request ''ab'' TR_MANUAL None None) (new_publisher ''ab'' None 0) =
     Returns (False, p') \<and> pb_failures p' = 1"
proof -
  let ?t = "new_tracker 1 1 (Some (new_manager 10 2))"
  have m: "ct_manager ?t = Some (new_manager 10 2)" by (simp add: new_tracker_def)
  have v: "valid_config (hb_config (new_client None None))"
    by (simp add: valid_config_def new_client_def default_config_def Let_def)
  have "\<not> accepted_from (\<lambda>_. Status 503) 0 n" for n
    by (simp add: accepted_from_def accepted_status_def)
  with publish_over_http [OF m v, of "\<lambda>_. 0" 0 "new_publisher ''ab'' None 0" served_registry "\<lambda>_. 0" "\<lambda>_. Status 503"
      "mk_request ''ab'' TR_MANUAL None None"]
  show ?thesis by (auto simp: new_publisher_def)
qed

end
