(* ===== verification/BackendModels.thy ===== *)
theory BackendModels
  imports RuntimeModels "HOL-Library.Multiset"
begin

text \<open>
  The tables of the backend, \<open>ruth-ai-backend/app/models\<close>: the enumerations with their transition
  vocabulary, the rows as records, and what the services use of a query. Identifiers are numbers and
  columns that only creation writes keep their type.
\<close>

section \<open>Enumerations\<close>

datatype StreamState = S_LIVE | S_STOPPED | S_STARTING | S_STOPPING | S_ERROR

fun stream_state_value :: "StreamState \<Rightarrow> string" where
  "stream_state_value S_LIVE = ''live''"
| "stream_state_value S_STOPPED = ''stopped''"
| "stream_state_value S_STARTING = ''starting''"
| "stream_state_value S_STOPPING = ''stopping''"
| "stream_state_value S_ERROR = ''error''"

datatype EventType = E_FALL_DETECTED | E_NO_FALL | E_PERSON_DETECTED | E_PPE_VIOLATION | E_PPE_COMPLIANT | E_UNKNOWN

datatype ViolationType = V_FALL_DETECTED | V_PPE_VIOLATION | V_ZONE_INTRUSION | V_ZONE_EXIT

fun violation_type_value :: "ViolationType \<Rightarrow> string" where
  "violation_type_value V_FALL_DETECTED = ''fall_detected''"
| "violation_type_value V_PPE_VIOLATION = ''ppe_violation''"
| "violation_type_value V_ZONE_INTRUSION = ''zone_intrusion''"
| "violation_type_value V_ZONE_EXIT = ''zone_exit''"

definition VIOLATION_TYPE_MAP :: "(string, ViolationType) dict" where
  "VIOLATION_TYPE_MAP =
     [(''ppe_violation'', V_PPE_VIOLATION), (''missing_hardhat'', V_PPE_VIOLATION), (''missing_vest'', V_PPE_VIOLATION),
      (''missing_goggles'', V_PPE_VIOLATION), (''missing_mask'', V_PPE_VIOLATION),
      (''fall_detected'', V_FALL_DETECTED), (''possible_fall'', V_FALL_DETECTED),
      (''zone_intrusion'', V_ZONE_INTRUSION), (''zone_exit'', V_ZONE_EXIT),
      (''tank_overflow_warning'', V_ZONE_INTRUSION), (''tank_critical_high'', V_ZONE_INTRUSION),
      (''tank_critical_low'', V_ZONE_INTRUSION)]"

definition UNKNOWN_VIOLATION_TYPE :: ViolationType where "UNKNOWN_VIOLATION_TYPE = V_PPE_VIOLATION"

text \<open>\<open>s.lower()\<close> on ASCII text.\<close>

definition lower_ascii :: "char \<Rightarrow> char" where
  "lower_ascii c = (if is_upper c then char_of (of_char c + 32 :: nat) else c)"

definition py_lower :: "string \<Rightarrow> string" where
  "py_lower s = map lower_ascii s"

definition resolve_violation_type :: "string option \<Rightarrow> ViolationType \<times> string option" where
  "resolve_violation_type raw_type =
     (if \<not> truthy_str raw_type then (UNKNOWN_VIOLATION_TYPE, None)
      else (let normalized = py_lower (py_strip (the raw_type))
            in case dget VIOLATION_TYPE_MAP normalized of
                 None \<Rightarrow> (UNKNOWN_VIOLATION_TYPE, Some (take 64 normalized))
               | Some v \<Rightarrow> (v, if normalized = violation_type_value v then None else Some (take 64 normalized))))"

definition is_known_violation_type :: "string option \<Rightarrow> bool" where
  "is_known_violation_type raw_type \<longleftrightarrow>
     truthy_str raw_type \<and> dget VIOLATION_TYPE_MAP (py_lower (py_strip (the raw_type))) \<noteq> None"

datatype ViolationStatus = VS_OPEN | VS_REVIEWED | VS_DISMISSED | VS_RESOLVED

fun violation_status_value :: "ViolationStatus \<Rightarrow> string" where
  "violation_status_value VS_OPEN = ''open''"
| "violation_status_value VS_REVIEWED = ''reviewed''"
| "violation_status_value VS_DISMISSED = ''dismissed''"
| "violation_status_value VS_RESOLVED = ''resolved''"

datatype EvidenceType = EV_SNAPSHOT | EV_BOOKMARK

datatype EvidenceStatus = ES_PENDING | ES_PROCESSING | ES_READY | ES_FAILED

section \<open>Rows\<close>

type_synonym uuid = nat

record Device =
  dv_id :: uuid
  dv_vas_device_id :: string
  dv_name :: string
  dv_description :: "string option"
  dv_location :: "string option"
  dv_manway :: "string option"
  dv_in_out :: "string option"
  dv_display_name :: "string option"
  dv_is_active :: bool
  dv_last_synced_at :: "real option"

record StreamSession =
  ss_id :: uuid
  ss_device_id :: uuid
  ss_vas_stream_id :: "string option"
  ss_model_id :: string
  ss_model_version :: "string option"
  ss_inference_fps :: int
  ss_confidence_threshold :: real
  ss_model_config :: "jval option"
  ss_state :: StreamState
  ss_started_at :: "real option"
  ss_stopped_at :: "real option"
  ss_error_message :: "string option"
  ss_frames_processed :: int
  ss_events_count :: int
  ss_violations_count :: int
  ss_updated_at :: real

record Event =
  ee_id :: uuid
  ee_device_id :: uuid
  ee_stream_session_id :: "uuid option"
  ee_violation_id :: "uuid option"
  ee_event_type :: EventType
  ee_confidence :: real
  ee_timestamp :: real
  ee_model_id :: string
  ee_model_version :: string
  ee_bounding_boxes :: "jval option"
  ee_frame_id :: "string option"
  ee_inference_time_ms :: "int option"

record Violation =
  vi_id :: uuid
  vi_device_id :: uuid
  vi_stream_session_id :: "uuid option"
  vi_type :: ViolationType
  vi_type_detail :: "string option"
  vi_status :: ViolationStatus
  vi_confidence :: real
  vi_timestamp :: real
  vi_camera_name :: string
  vi_model_id :: string
  vi_model_version :: string
  vi_bounding_boxes :: "jval option"
  vi_reviewed_by :: "string option"
  vi_reviewed_at :: "real option"
  vi_resolution_notes :: "string option"

record Evidence =
  ev_id :: uuid
  ev_violation_id :: uuid
  ev_evidence_type :: EvidenceType
  ev_status :: EvidenceStatus
  ev_vas_snapshot_id :: "string option"
  ev_vas_bookmark_id :: "string option"
  ev_bookmark_duration_seconds :: "int option"
  ev_requested_at :: real
  ev_ready_at :: "real option"
  ev_error_message :: "string option"
  ev_retry_count :: int
  ev_last_retry_at :: "real option"

text \<open>The exceptions of the VAS client, by class.\<close>

datatype vas_error = VASNotFoundError string | VASRTSPError string | VASStreamNotLiveError string
  | VASConnectionError string | VASOtherError string

fun vas_message :: "vas_error \<Rightarrow> string" where
  "vas_message (VASNotFoundError m) = m"
| "vas_message (VASRTSPError m) = m"
| "vas_message (VASStreamNotLiveError m) = m"
| "vas_message (VASConnectionError m) = m"
| "vas_message (VASOtherError m) = m"

definition snapshot_url :: "(uuid \<Rightarrow> string) \<Rightarrow> Evidence \<Rightarrow> string option" where
  "snapshot_url show_id e =
     (if ev_evidence_type e \<noteq> EV_SNAPSHOT \<or> \<not> truthy_str (ev_vas_snapshot_id e) then None
      else Some (''/api/v1/violations/'' @ show_id (ev_violation_id e) @ ''/snapshot/image''))"

definition bookmark_url :: "(uuid \<Rightarrow> string) \<Rightarrow> Evidence \<Rightarrow> string option" where
  "bookmark_url show_id e =
     (if ev_evidence_type e \<noteq> EV_BOOKMARK \<or> \<not> truthy_str (ev_vas_bookmark_id e) then None
      else Some (''/api/v1/violations/'' @ show_id (ev_violation_id e) @ ''/video''))"

section \<open>Queries\<close>

text \<open>
  A table is a dictionary from identifiers to rows and the condition of a query a filter on its rows. How
  the database orders rows with \<open>ORDER BY key DESC\<close> is a parameter: any permutation in descending order.
\<close>

type_synonym 'r table = "(uuid, 'r) dict"
type_synonym 'r ordering = "('r \<Rightarrow> real) \<Rightarrow> 'r list \<Rightarrow> 'r list"

definition orders_desc :: "'r ordering \<Rightarrow> bool" where
  "orders_desc ord \<longleftrightarrow>
     (\<forall>key rows. mset (ord key rows) = mset rows \<and> sorted_wrt (\<lambda>a b. key b \<le> key a) (ord key rows))"

definition select_where :: "('r \<Rightarrow> bool) \<Rightarrow> 'r table \<Rightarrow> 'r list" where
  "select_where p t = filter p (dvals t)"

record Backend =
  bk_devices :: "Device table"
  bk_sessions :: "StreamSession table"
  bk_events :: "Event table"
  bk_violations :: "Violation table"
  bk_evidence :: "Evidence table"

text \<open>A table holds every row under its own identifier.\<close>

definition table_wf :: "('r \<Rightarrow> uuid) \<Rightarrow> 'r table \<Rightarrow> bool" where
  "table_wf ident t \<longleftrightarrow> dict_wf t \<and> (\<forall>k r. dget t k = Some r \<longrightarrow> ident r = k)"

lemma table_wf_dput [intro]: "table_wf ident t \<Longrightarrow> ident r = k \<Longrightarrow> table_wf ident (dput k r t)"
  by (auto simp: table_wf_def)

lemma table_wf_Nil [simp]: "table_wf ident []"
  by (simp add: table_wf_def)

lemma table_wfD: "table_wf ident t \<Longrightarrow> dict_wf t" "table_wf ident t \<Longrightarrow> dget t k = Some r \<Longrightarrow> ident r = k"
  by (auto simp: table_wf_def)

text \<open>\<open>.order_by(key.desc()).limit(1)\<close> and \<open>scalar_one_or_none\<close>.\<close>

definition select_latest :: "'r ordering \<Rightarrow> ('r \<Rightarrow> real) \<Rightarrow> ('r \<Rightarrow> bool) \<Rightarrow> 'r table \<Rightarrow> 'r option" where
  "select_latest ord key p t = (case ord key (select_where p t) of [] \<Rightarrow> None | r # _ \<Rightarrow> Some r)"

text \<open>\<open>scalar_one_or_none\<close> without a limit raises when there are several rows.\<close>

definition scalar_one_or_none :: "'r list \<Rightarrow> py_error + 'r option" where
  "scalar_one_or_none rows =
     (case rows of [] \<Rightarrow> Inr None | [r] \<Rightarrow> Inr (Some r) | _ \<Rightarrow> Inl (RuntimeError ''MultipleResultsFound''))"

text \<open>\<open>.limit(n)\<close>; a negative limit is an error of the database.\<close>

definition sql_limit :: "int \<Rightarrow> 'r list \<Rightarrow> py_error + 'r list" where
  "sql_limit n rows = (if n < 0 then Inl (RuntimeError ''LIMIT must not be negative'') else Inr (take (nat n) rows))"

definition stable_desc :: "'r ordering" where
  "stable_desc key rows = sort_key (\<lambda>r. - key r) rows"

lemma stable_desc_orders [simp]: "orders_desc (stable_desc :: 'r ordering)"
proof -
  have "sorted_wrt (\<lambda>a b. key b \<le> key a) (sort_key (\<lambda>r. - key r) rows)" for key :: "'r \<Rightarrow> real" and rows
    using sorted_sort_key [of "\<lambda>r. - key r" rows] by (simp add: sorted_map)
  then show ?thesis by (simp add: orders_desc_def stable_desc_def)
qed

lemma set_dvals: "dict_wf t \<Longrightarrow> set (dvals t) = {r. \<exists>k. dget t k = Some r}"
  by (force simp: dget_Some_iff)

lemma map_ident_dvals:
  assumes "table_wf ident t"
  shows "map ident (dvals t) = dkeys t"
proof -
  have "ident r = k" if "(k, r) \<in> set t" for k r
    using assms that by (simp add: table_wf_def dget_Some_iff)
  then show ?thesis by auto
qed

lemma distinct_rows: "table_wf ident t \<Longrightarrow> distinct (select_where p t)"
proof -
  assume "table_wf ident t"
  then have "distinct (map ident (dvals t))" by (simp add: map_ident_dvals table_wf_def dict_wf_def del: map_map)
  then show ?thesis by (simp add: select_where_def distinct_map del: map_map)
qed

lemma set_select_where [simp]: "dict_wf t \<Longrightarrow> set (select_where p t) = {r. p r \<and> (\<exists>k. dget t k = Some r)}"
  by (force simp: select_where_def dget_Some_iff)

lemma set_ordered: "orders_desc ord \<Longrightarrow> set (ord key rows) = set rows"
  by (metis orders_desc_def set_mset_mset)

lemma select_latest_None:
  "orders_desc ord \<Longrightarrow> dict_wf t \<Longrightarrow> select_latest ord key p t = None \<longleftrightarrow> (\<forall>k r. dget t k = Some r \<longrightarrow> \<not> p r)"
proof -
  assume "orders_desc ord" "dict_wf t"
  then have s: "set (ord key (select_where p t)) = {r. p r \<and> (\<exists>k. dget t k = Some r)}"
    by (simp add: set_ordered)
  show ?thesis
  proof (cases "ord key (select_where p t)")
    case Nil
    with s show ?thesis by (auto simp: select_latest_def)
  next
    case (Cons a rs)
    with s have "p a \<and> (\<exists>k. dget t k = Some a)" by auto
    with Cons show ?thesis by (auto simp: select_latest_def)
  qed
qed

lemma select_latest_Some:
  assumes "orders_desc ord" "dict_wf t" "select_latest ord key p t = Some r"
  shows "p r" "\<exists>k. dget t k = Some r" "\<And>k r'. dget t k = Some r' \<Longrightarrow> p r' \<Longrightarrow> key r' \<le> key r"
proof -
  obtain rs where o: "ord key (select_where p t) = r # rs"
    using assms(3) by (cases "ord key (select_where p t)") (auto simp: select_latest_def)
  have s: "set (ord key (select_where p t)) = {r. p r \<and> (\<exists>k. dget t k = Some r)}"
    using set_ordered [OF assms(1)] assms(2) by simp
  show "p r" "\<exists>k. dget t k = Some r" using s o by auto
  fix k r' assume "dget t k = Some r'" "p r'"
  then have "r' \<in> set (r # rs)" using s o by auto
  moreover have "sorted_wrt (\<lambda>a b. key b \<le> key a) (r # rs)"
    using assms(1) o unfolding orders_desc_def by metis
  ultimately show "key r' \<le> key r" by auto
qed

section \<open>Violation types\<close>

text \<open>Every string of a model comes to a type; the table maps the values of the types to themselves.\<close>

lemma resolve_violation_type_known:
  "is_known_violation_type raw \<longleftrightarrow>
   (\<exists>v. truthy_str raw \<and> dget VIOLATION_TYPE_MAP (py_lower (py_strip (the raw))) = Some v \<and>
     fst (resolve_violation_type raw) = v)"
  by (auto simp: is_known_violation_type_def resolve_violation_type_def Let_def split: option.splits)

lemma resolve_violation_type_value:
  "resolve_violation_type (Some (violation_type_value v)) = (v, None)"
  by (cases v) (simp_all add: resolve_violation_type_def truthy_str_def py_lower_def py_strip_def is_space_def
      lower_ascii_def is_upper_def VIOLATION_TYPE_MAP_def Let_def)

lemma resolve_violation_type_detail:
  "snd (resolve_violation_type raw) = Some d \<Longrightarrow> length d \<le> 64"
  by (auto simp: resolve_violation_type_def Let_def split: if_splits option.splits)

end
