(* ===== verification/ShiftSchedule.thy ===== *)
theory ShiftSchedule
  imports BackendModels
begin

text \<open>
  \<open>ruth-ai-backend/app/services/shift_schedule.py\<close> and \<open>shift_service.py\<close>: the shifts of a site as arcs on
  the circle of 1440 minutes, the check that they cover the day without overlap, the window of the shift
  an instant lies in, and the count of open violations in it. Instants are seconds; \<open>to_local tz\<close> reads an
  instant as seconds of the wall clock of a time zone, which is a parameter. The site has no daylight
  saving, so wall-clock times of one zone compare like instants.
\<close>

section \<open>Times of day\<close>

definition MINUTES_PER_DAY :: int where "MINUTES_PER_DAY = 1440"
definition DEFAULT_TIMEZONE :: string where "DEFAULT_TIMEZONE = ''Asia/Kolkata''"
definition CONTINUOUS_SHIFT_NAME :: string where "CONTINUOUS_SHIFT_NAME = ''Continuous''"

text \<open>The messages leave out the representation of the value.\<close>

definition parse_hhmm :: "string \<Rightarrow> py_error + int" where
  "parse_hhmm value =
     (case py_split CHR '':'' value of
        [h, m] \<Rightarrow>
          (case (py_int h, py_int m) of
             (Some hours, Some minutes) \<Rightarrow>
               if 0 \<le> hours \<and> hours \<le> 23 \<and> 0 \<le> minutes \<and> minutes \<le> 59 then Inr (hours * 60 + minutes)
               else Inl (ValueError ''Not a valid time of day'')
           | _ \<Rightarrow> Inl (ValueError ''invalid literal for int()''))
      | _ \<Rightarrow> Inl (ValueError ''Expected HH:MM''))"

definition pad2 :: "int \<Rightarrow> string" where
  "pad2 n = (if n < 10 then ''0'' @ show_int n else show_int n)"

definition format_hhmm :: "int \<Rightarrow> string" where
  "format_hhmm minutes =
     (let m = minutes mod MINUTES_PER_DAY in pad2 (m div 60) @ '':'' @ pad2 (m mod 60))"

section \<open>Schedules\<close>

record ShiftDefinition =
  sd_name :: string
  sd_start :: string
  sd_end :: string

definition start_minute :: "ShiftDefinition \<Rightarrow> py_error + int" where
  "start_minute sh = parse_hhmm (sd_start sh)"

definition duration_minutes :: "ShiftDefinition \<Rightarrow> py_error + int" where
  "duration_minutes sh =
     sum_bind (parse_hhmm (sd_end sh)) (\<lambda>e.
     sum_bind (start_minute sh) (\<lambda>s.
       let span = (e - s) mod MINUTES_PER_DAY in Inr (if span \<noteq> 0 then span else MINUTES_PER_DAY)))"

record ShiftSchedule =
  sc_mode :: string
  sc_timezone :: string
  sc_shifts :: "ShiftDefinition list"

text \<open>What the validators of the two models accept; \<open>zone_known\<close> says which names \<open>ZoneInfo\<close> knows.\<close>

definition shift_ok :: "ShiftDefinition \<Rightarrow> bool" where
  "shift_ok sh \<longleftrightarrow> 1 \<le> length (sd_name sh) \<and> length (sd_name sh) \<le> 64 \<and>
     \<not> isl (parse_hhmm (sd_start sh)) \<and> \<not> isl (parse_hhmm (sd_end sh))"

definition schedule_ok :: "(string \<Rightarrow> bool) \<Rightarrow> ShiftSchedule \<Rightarrow> bool" where
  "schedule_ok zone_known s \<longleftrightarrow> (sc_mode s = ''continuous'' \<or> sc_mode s = ''shifts'') \<and>
     zone_known (sc_timezone s) \<and> list_all shift_ok (sc_shifts s)"

definition default_schedule :: ShiftSchedule where
  "default_schedule = \<lparr>sc_mode = ''continuous'', sc_timezone = DEFAULT_TIMEZONE, sc_shifts = []\<rparr>"

datatype shift_error = ShiftScheduleError string "string list" | OtherError py_error

section \<open>Validation\<close>

text \<open>\<open>set(c.split('' / ''))\<close>, sorted.\<close>

fun split_slash :: "string \<Rightarrow> string list" where
  "split_slash (a # b # c # s) =
     (if [a, b, c] = '' / '' then [] # split_slash s
      else (case split_slash (b # c # s) of [] \<Rightarrow> [[a]] | w # ws \<Rightarrow> (a # w) # ws))"
| "split_slash s = [s]"

definition sorted_set :: "string list \<Rightarrow> string list" where
  "sorted_set ws = sort (remdups ws)"

text \<open>The minutes of one shift are painted onto the day; a minute that has an owner is a conflict.\<close>

fun paint_slots :: "string \<Rightarrow> nat list \<Rightarrow> string option list \<times> string list \<Rightarrow> string option list \<times> string list" where
  "paint_slots name [] (owner, conflicts) = (owner, conflicts)"
| "paint_slots name (slot # slots) (owner, conflicts) =
     (case owner ! slot of
        Some existing \<Rightarrow>
          (let pair = sorted_set [existing, name]
           in paint_slots name slots
                (owner, if pair \<in> set (map (sorted_set \<circ> split_slash) conflicts) then conflicts
                        else conflicts @ [py_join '' / '' pair]))
      | None \<Rightarrow> paint_slots name slots (owner[slot := Some name], conflicts))"

definition shift_slots :: "int \<Rightarrow> int \<Rightarrow> nat list" where
  "shift_slots start duration = map (\<lambda>step. nat ((start + int step) mod MINUTES_PER_DAY)) [0..<nat duration]"

fun paint_shifts :: "ShiftDefinition list \<Rightarrow> string option list \<times> string list \<Rightarrow> py_error + string option list \<times> string list" where
  "paint_shifts [] acc = Inr acc"
| "paint_shifts (sh # shs) acc =
     sum_bind (start_minute sh) (\<lambda>start.
     sum_bind (duration_minutes sh) (\<lambda>duration.
       paint_shifts shs (paint_slots (sd_name sh) (shift_slots start duration) acc)))"

text \<open>The loop of \<open>_describe_gaps\<close> with the start and the last minute of the current run.\<close>

fun gap_runs :: "int \<Rightarrow> int \<Rightarrow> int list \<Rightarrow> string list" where
  "gap_runs run_start previous [] = [format_hhmm run_start @ ''-'' @ format_hhmm (previous + 1)]"
| "gap_runs run_start previous (minute # ms) =
     (if minute \<noteq> previous + 1
      then (format_hhmm run_start @ ''-'' @ format_hhmm (previous + 1)) # gap_runs minute minute ms
      else gap_runs run_start minute ms)"

definition describe_gaps :: "int list \<Rightarrow> string list" where
  "describe_gaps uncovered =
     (let gaps = gap_runs (hd uncovered) (hd uncovered) (tl uncovered)
      in if 1 < length gaps \<and> hd uncovered = 0 \<and> last uncovered = MINUTES_PER_DAY - 1
         then butlast (tl gaps) @ [py_split CHR ''-'' (last gaps) ! 0 @ ''-'' @ py_split CHR ''-'' (hd gaps) ! 1]
         else gaps)"

definition validate_schedule :: "ShiftSchedule \<Rightarrow> shift_error + unit" where
  "validate_schedule s =
     (if sc_mode s = ''continuous'' then Inr ()
      else if sc_shifts s = [] then Inl (ShiftScheduleError ''Shift mode requires at least one shift.'' [])
      else case paint_shifts (sc_shifts s) (replicate (nat MINUTES_PER_DAY) None, []) of
             Inl e \<Rightarrow> Inl (OtherError e)
           | Inr (owner, conflicts) \<Rightarrow>
               if conflicts \<noteq> []
               then Inl (ShiftScheduleError (''Shifts overlap: '' @ py_join ''; '' conflicts) conflicts)
               else (let uncovered = map int (filter (\<lambda>i. owner ! i = None) [0..<length owner])
                     in if uncovered \<noteq> []
                        then Inl (ShiftScheduleError
                               (''Shifts must cover the full 24 hours. Uncovered: '' @ py_join '', '' (describe_gaps uncovered))
                               (describe_gaps uncovered))
                        else Inr ()))"

section \<open>The current window\<close>

record ShiftWindow =
  sw_name :: string
  sw_start :: real
  sw_end :: real
  sw_mode :: string
  sw_timezone :: string

definition wall_minute :: "real \<Rightarrow> int" where "wall_minute t = \<lfloor>t / 60\<rfloor> mod MINUTES_PER_DAY"
definition wall_midnight :: "real \<Rightarrow> real" where "wall_midnight t = of_int \<lfloor>t / 86400\<rfloor> * 86400"

fun find_shift :: "ShiftSchedule \<Rightarrow> real \<Rightarrow> ShiftDefinition list \<Rightarrow> shift_error + ShiftWindow" where
  "find_shift s local_now [] = Inl (ShiftScheduleError ''No shift covers the instant.'' [])"
| "find_shift s local_now (sh # shs) =
     (case (start_minute sh, duration_minutes sh) of
        (Inr start, Inr duration) \<Rightarrow>
          (let offset = (wall_minute local_now - start) mod MINUTES_PER_DAY
           in if offset < duration
              then (let local_start = wall_midnight local_now + of_int (wall_minute local_now - offset) * 60
                    in Inr \<lparr>sw_name = sd_name sh, sw_start = local_start,
                         sw_end = local_start + of_int duration * 60, sw_mode = sc_mode s, sw_timezone = sc_timezone s\<rparr>)
              else find_shift s local_now shs)
      | (Inl e, _) \<Rightarrow> Inl (OtherError e)
      | (_, Inl e) \<Rightarrow> Inl (OtherError e))"

definition resolve_current_shift :: "(string \<Rightarrow> real \<Rightarrow> real) \<Rightarrow> ShiftSchedule \<Rightarrow> real \<Rightarrow> shift_error + ShiftWindow" where
  "resolve_current_shift to_local s now =
     (let local_now = to_local (sc_timezone s) now
      in if sc_mode s = ''continuous''
         then (let local_start = wall_midnight local_now
               in Inr \<lparr>sw_name = CONTINUOUS_SHIFT_NAME, sw_start = local_start, sw_end = local_start + 86400,
                    sw_mode = sc_mode s, sw_timezone = sc_timezone s\<rparr>)
         else find_shift s local_now (sc_shifts s))"

section \<open>The service\<close>

record AppSetting =
  as_value :: jval
  as_updated_by :: "string option"

definition get_schedule :: "(jval \<Rightarrow> ShiftSchedule option) \<Rightarrow> AppSetting option \<Rightarrow> ShiftSchedule" where
  "get_schedule model_validate row =
     (case row of None \<Rightarrow> default_schedule
      | Some r \<Rightarrow> (case model_validate (as_value r) of None \<Rightarrow> default_schedule | Some s \<Rightarrow> s))"

definition set_schedule ::
  "(ShiftSchedule \<Rightarrow> jval) \<Rightarrow> ShiftSchedule \<Rightarrow> string option \<Rightarrow> AppSetting option \<Rightarrow>
   (shift_error + ShiftSchedule) \<times> AppSetting option" where
  "set_schedule model_dump schedule updated_by row =
     (case validate_schedule schedule of
        Inl e \<Rightarrow> (Inl e, row)
      | Inr _ \<Rightarrow>
          (Inr schedule,
           Some (case row of
                   None \<Rightarrow> \<lparr>as_value = model_dump schedule, as_updated_by = updated_by\<rparr>
                 | Some r \<Rightarrow> r\<lparr>as_value := model_dump schedule, as_updated_by := updated_by\<rparr>)))"

definition get_current_window ::
  "(jval \<Rightarrow> ShiftSchedule option) \<Rightarrow> (string \<Rightarrow> real \<Rightarrow> real) \<Rightarrow> AppSetting option \<Rightarrow> real \<Rightarrow> shift_error + ShiftWindow" where
  "get_current_window model_validate to_local row now =
     resolve_current_shift to_local (get_schedule model_validate row) now"

definition count_unreviewed_by_camera ::
  "(string \<Rightarrow> real \<Rightarrow> real) \<Rightarrow> ShiftWindow \<Rightarrow> uuid list option \<Rightarrow> Violation table \<Rightarrow> (uuid, nat) dict" where
  "count_unreviewed_by_camera to_local w camera_ids violations =
     foldl (\<lambda>counts v. dput (vi_device_id v) (dget_or counts (vi_device_id v) 0 + 1) counts) []
       (select_where (\<lambda>v. vi_status v = VS_OPEN \<and>
            sw_start w \<le> to_local (sw_timezone w) (vi_timestamp v) \<and> to_local (sw_timezone w) (vi_timestamp v) < sw_end w \<and>
            (case camera_ids of None \<Rightarrow> True | Some ids \<Rightarrow> ids = [] \<or> vi_device_id v \<in> set ids)) violations)"

section \<open>Arcs\<close>

definition start_of :: "ShiftDefinition \<Rightarrow> int" where "start_of sh = projr (start_minute sh)"
definition duration_of :: "ShiftDefinition \<Rightarrow> int" where "duration_of sh = projr (duration_minutes sh)"

definition covers :: "int \<Rightarrow> ShiftDefinition \<Rightarrow> bool" where
  "covers m sh \<longleftrightarrow> (m - start_of sh) mod 1440 < duration_of sh"

lemma parse_hhmm_range: "parse_hhmm v = Inr m \<Longrightarrow> 0 \<le> m \<and> m < 1440"
  by (auto simp: parse_hhmm_def split: list.splits option.splits if_splits)

lemma shift_ok_minutes:
  assumes "shift_ok sh"
  shows "start_minute sh = Inr (start_of sh)" "duration_minutes sh = Inr (duration_of sh)"
    "0 < duration_of sh" "duration_of sh \<le> 1440"
proof -
  obtain a b where p: "parse_hhmm (sd_start sh) = Inr a" "parse_hhmm (sd_end sh) = Inr b"
    using assms unfolding shift_ok_def by (metis isl_def sum.exhaust_sel sum.collapse(2))
  then show "start_minute sh = Inr (start_of sh)" by (simp add: start_minute_def start_of_def)
  have d: "duration_minutes sh = Inr (if (b - a) mod 1440 \<noteq> 0 then (b - a) mod 1440 else 1440)"
    using p by (simp add: duration_minutes_def start_minute_def MINUTES_PER_DAY_def Let_def)
  then show "duration_minutes sh = Inr (duration_of sh)" by (simp add: duration_of_def)
  have "0 \<le> (b - a) mod 1440" "(b - a) mod 1440 < 1440" by simp_all
  with d show "0 < duration_of sh" "duration_of sh \<le> 1440"
    unfolding duration_of_def by (auto simp: le_less)
qed

lemma shift_slots_arc:
  assumes "0 < d" "d \<le> 1440"
  shows "distinct (shift_slots s d)" "set (shift_slots s d) = {n. n < 1440 \<and> (int n - s) mod 1440 < d}"
proof -
  have inj: "k = l" if "(s + int k) mod 1440 = (s + int l) mod 1440" "k < nat d" "l < nat d" for k l
  proof -
    have "int k mod 1440 = int l mod 1440" using that(1) by (metis mod_diff_cong add_diff_cancel_left')
    with that(2,3) assms(2) show ?thesis by auto
  qed
  then show "distinct (shift_slots s d)"
    by (auto simp: shift_slots_def MINUTES_PER_DAY_def distinct_map inj_on_def)
  have "n \<in> set (shift_slots s d)" if "n < 1440" "(int n - s) mod 1440 < d" for n
  proof -
    have "(s + int (nat ((int n - s) mod 1440))) mod 1440 = int n"
      using that(1) by (simp add: mod_add_right_eq)
    then have "n = nat ((s + int (nat ((int n - s) mod 1440))) mod 1440)" by simp
    moreover have "nat ((int n - s) mod 1440) \<in> set [0..<nat d]" using that(2) assms(1) by (simp add: nat_less_eq_zless)
    ultimately show ?thesis unfolding shift_slots_def MINUTES_PER_DAY_def set_map by (rule image_eqI)
  qed
  moreover have "n < 1440 \<and> (int n - s) mod 1440 < d" if n: "n \<in> set (shift_slots s d)" for n
  proof -
    obtain k where k: "k < nat d" "n = nat ((s + int k) mod 1440)"
      using n by (auto simp: shift_slots_def MINUTES_PER_DAY_def)
    then have i: "int n = (s + int k) mod 1440" by simp
    then have "(int n - s) mod 1440 = int k mod 1440" by (simp add: mod_diff_left_eq)
    also have "\<dots> \<le> int k" by (rule zmod_le_nonneg_dividend) simp
    finally have "(int n - s) mod 1440 < d" using k(1) by linarith
    moreover have "int n < 1440" unfolding i by simp
    ultimately show ?thesis by simp
  qed
  ultimately show "set (shift_slots s d) = {n. n < 1440 \<and> (int n - s) mod 1440 < d}" by auto
qed

lemma length_filter_one: "length (filter p xs) = 1 \<longleftrightarrow> (\<exists>!i. i < length xs \<and> p (xs ! i))"
proof -
  have "length (filter p xs) = 1 \<longleftrightarrow> card {i. i < length xs \<and> p (xs ! i)} = 1"
    by (simp add: length_filter_conv_card)
  also have "\<dots> \<longleftrightarrow> (\<exists>i. {i. i < length xs \<and> p (xs ! i)} = {i})" by (simp add: card_1_singleton_iff)
  also have "\<dots> \<longleftrightarrow> (\<exists>!i. i < length xs \<and> p (xs ! i))"
    unfolding Ex1_def set_eq_iff mem_Collect_eq singleton_iff by blast
  finally show ?thesis .
qed

section \<open>Painting\<close>

lemma paint_slots_conflicts: "conflicts \<noteq> [] \<Longrightarrow> snd (paint_slots name slots (owner, conflicts)) \<noteq> []"
  by (induction slots arbitrary: owner conflicts) (auto simp: Let_def split: option.split)

lemma paint_slots_effect:
  assumes "distinct slots" "\<forall>s\<in>set slots. s < length owner"
  shows "length (fst (paint_slots name slots (owner, conflicts))) = length owner \<and>
    (snd (paint_slots name slots (owner, conflicts)) = [] \<longleftrightarrow>
       conflicts = [] \<and> (\<forall>s\<in>set slots. owner ! s = None)) \<and>
    (\<forall>m<length owner. fst (paint_slots name slots (owner, conflicts)) ! m = None \<longleftrightarrow> owner ! m = None \<and> m \<notin> set slots)"
  using assms
proof (induction slots arbitrary: owner conflicts)
  case Nil
  then show ?case by simp
next
  case (Cons slot slots)
  show ?case
  proof (cases "owner ! slot")
    case None
    have "owner[slot := Some name] ! s = owner ! s" if "s \<in> set slots" for s
      using Cons.prems(1) that by (intro nth_list_update_neq) auto
    with Cons.IH [of "owner[slot := Some name]" conflicts] Cons.prems None show ?thesis
      by (auto simp: nth_list_update)
  next
    case (Some existing)
    let ?pair = "sorted_set [existing, name]"
    define c where "c = (if ?pair \<in> set (map (sorted_set \<circ> split_slash) conflicts) then conflicts
      else conflicts @ [py_join '' / '' ?pair])"
    have c: "c \<noteq> []" "paint_slots name (slot # slots) (owner, conflicts) = paint_slots name slots (owner, c)"
      using Some by (auto simp: c_def Let_def)
    with Cons.IH [of owner c] Cons.prems paint_slots_conflicts [OF c(1), of name slots owner] Some show ?thesis
      by (simp only: c(2)) auto
  qed
qed

definition load :: "ShiftDefinition list \<Rightarrow> int \<Rightarrow> nat" where
  "load shs m = length (filter (covers m) shs)"

lemma load_simps [simp]: "load [] m = 0" "load (sh # shs) m = (if covers m sh then 1 else 0) + load shs m"
  by (simp_all add: load_def)

lemma paint_shifts_effect:
  assumes "list_all shift_ok shs" "length owner = 1440"
  shows "\<exists>owner' conflicts'. paint_shifts shs (owner, conflicts) = Inr (owner', conflicts') \<and> length owner' = 1440 \<and>
    (conflicts' = [] \<longleftrightarrow> conflicts = [] \<and> (\<forall>m<1440. (if owner ! m = None then 0 else 1) + load shs (int m) \<le> 1)) \<and>
    (\<forall>m<1440. owner' ! m = None \<longleftrightarrow> owner ! m = None \<and> load shs (int m) = 0)"
  using assms
proof (induction shs arbitrary: owner conflicts)
  case Nil
  then show ?case by simp
next
  case (Cons sh shs)
  then have ok: "shift_ok sh" by simp
  let ?p = "paint_slots (sd_name sh) (shift_slots (start_of sh) (duration_of sh)) (owner, conflicts)"
  note m = shift_ok_minutes [OF ok]
  have slots: "n \<in> set (shift_slots (start_of sh) (duration_of sh)) \<longleftrightarrow> n < 1440 \<and> covers (int n) sh" for n
    by (simp add: shift_slots_arc [OF m(3,4)] covers_def)
  have e: "length (fst ?p) = 1440"
    "snd ?p = [] \<longleftrightarrow> conflicts = [] \<and> (\<forall>n<1440. covers (int n) sh \<longrightarrow> owner ! n = None)"
    "\<forall>n<1440. fst ?p ! n = None \<longleftrightarrow> owner ! n = None \<and> \<not> covers (int n) sh"
    using paint_slots_effect [OF shift_slots_arc(1) [OF m(3,4)], of "start_of sh" owner "sd_name sh" conflicts] Cons.prems
    by (auto simp: slots)
  obtain o1 c1 where p: "?p = (o1, c1)" by (cases ?p)
  from Cons.IH [of o1 c1] Cons.prems e p obtain o2 c2 where
    q: "paint_shifts shs (o1, c1) = Inr (o2, c2)" "length o2 = 1440"
      "c2 = [] \<longleftrightarrow> c1 = [] \<and> (\<forall>n<1440. (if o1 ! n = None then 0 else 1) + load shs (int n) \<le> 1)"
      "\<forall>n<1440. o2 ! n = None \<longleftrightarrow> o1 ! n = None \<and> load shs (int n) = 0"
    by auto
  have run: "paint_shifts (sh # shs) (owner, conflicts) = Inr (o2, c2)"
    using q(1) by (simp add: m(1,2) p)
  have "c2 = [] \<longleftrightarrow> conflicts = [] \<and> (\<forall>n<1440. (if owner ! n = None then 0 else 1) + load (sh # shs) (int n) \<le> 1)"
  proof -
    have "(covers (int n) sh \<longrightarrow> owner ! n = None) \<and> (if o1 ! n = None then 0 else 1) + load shs (int n) \<le> 1 \<longleftrightarrow>
        (if owner ! n = None then 0 else 1) + load (sh # shs) (int n) \<le> 1" if "n < 1440" for n
      using e(3) p that by auto
    moreover have "c1 = [] \<longleftrightarrow> conflicts = [] \<and> (\<forall>n<1440. covers (int n) sh \<longrightarrow> owner ! n = None)" using e(2) p by simp
    ultimately show ?thesis using q(3) by blast
  qed
  moreover have "\<forall>n<1440. o2 ! n = None \<longleftrightarrow> owner ! n = None \<and> load (sh # shs) (int n) = 0"
    using e(3) q(4) p by auto
  ultimately show ?case using run q(2) by blast
qed

text \<open>
  A schedule is accepted exactly when it is continuous or its shifts partition the day: every minute lies
  in the arc of exactly one shift, arcs that cross midnight included.
\<close>

lemma validate_iff:
  assumes "schedule_ok zk s"
  shows "validate_schedule s = Inr () \<longleftrightarrow>
    sc_mode s = ''continuous'' \<or> (\<forall>m. 0 \<le> m \<and> m < 1440 \<longrightarrow> load (sc_shifts s) m = 1)"
proof (cases "sc_mode s = ''continuous''")
  case True
  then show ?thesis by (simp add: validate_schedule_def)
next
  case False
  have nat_all: "(\<forall>m. 0 \<le> m \<and> m < 1440 \<longrightarrow> P m) \<longleftrightarrow> (\<forall>n<1440. P (int n))" for P
    by (metis of_nat_0_le_iff of_nat_less_iff of_nat_numeral zero_le_imp_eq_int)
  show ?thesis
  proof (cases "sc_shifts s = []")
    case True
    then show ?thesis using False by (auto simp: validate_schedule_def intro!: exI [of _ 0])
  next
    case nonempty: False
    have "list_all shift_ok (sc_shifts s)" using assms by (simp add: schedule_ok_def)
    from paint_shifts_effect [OF this, of "replicate 1440 None" "[]"]
    obtain o1 c1 where p: "paint_shifts (sc_shifts s) (replicate 1440 None, []) = Inr (o1, c1)" "length o1 = 1440"
      "c1 = [] \<longleftrightarrow> (\<forall>n<1440. load (sc_shifts s) (int n) \<le> 1)"
      "\<forall>n<1440. o1 ! n = None \<longleftrightarrow> load (sc_shifts s) (int n) = 0"
      by auto
    have "filter (\<lambda>i. o1 ! i = None) [0..<1440] = [] \<longleftrightarrow> (\<forall>n<1440. load (sc_shifts s) (int n) \<noteq> 0)"
      using p(4) by (auto simp: filter_empty_conv)
    then have "validate_schedule s = Inr () \<longleftrightarrow> c1 = [] \<and> (\<forall>n<1440. load (sc_shifts s) (int n) \<noteq> 0)"
      using False nonempty p(1,2) by (simp add: validate_schedule_def MINUTES_PER_DAY_def Let_def del: upt_Suc)
    also have "\<dots> \<longleftrightarrow> (\<forall>n<1440. load (sc_shifts s) (int n) = 1)"
    proof -
      have "k \<le> 1 \<and> k \<noteq> 0 \<longleftrightarrow> k = 1" for k :: nat by auto
      then show ?thesis using p(3) by metis
    qed
    finally show ?thesis using False by (simp add: nat_all)
  qed
qed

text \<open>
  C16. A schedule is accepted exactly when it is continuous or its shifts partition the day: every minute lies
  in the arc of exactly one shift, arcs that cross midnight included.
\<close>

theorem schedule_accepted_iff_partition:
  assumes "schedule_ok zk s"
  shows "validate_schedule s = Inr () \<longleftrightarrow>
    sc_mode s = ''continuous'' \<or> (\<forall>m. 0 \<le> m \<and> m < 1440 \<longrightarrow> (\<exists>!i. i < length (sc_shifts s) \<and> covers m (sc_shifts s ! i)))"
proof -
  have "load shs m = 1 \<longleftrightarrow> (\<exists>!i. i < length shs \<and> covers m (shs ! i))" for shs m
    unfolding load_def by (rule length_filter_one)
  then show ?thesis by (simp add: validate_iff [OF assms])
qed

section \<open>Windows\<close>

lemma covers_mod: "covers (m mod 1440) = covers m"
  by (simp add: fun_eq_iff covers_def mod_diff_left_eq)

lemma minute_bounds:
  "of_int (a * 60) \<le> (x :: real) \<longleftrightarrow> a \<le> \<lfloor>x / 60\<rfloor>" "x < of_int (b * 60) \<longleftrightarrow> \<lfloor>x / 60\<rfloor> < b"
  by (simp_all add: le_floor_iff floor_less_iff field_simps)

lemma floor_day: "\<lfloor>t / 86400\<rfloor> = \<lfloor>t / 60 :: real\<rfloor> div 1440"
  using floor_divide_real_eq_div [of 1440 "t / 60"] by simp

definition window_of :: "ShiftSchedule \<Rightarrow> int \<Rightarrow> ShiftDefinition \<Rightarrow> ShiftWindow" where
  "window_of s m sh =
     (let first = m - (m - start_of sh) mod 1440
      in \<lparr>sw_name = sd_name sh, sw_start = of_int (first * 60), sw_end = of_int ((first + duration_of sh) * 60),
          sw_mode = sc_mode s, sw_timezone = sc_timezone s\<rparr>)"

lemma wall_start:
  "wall_midnight t + of_int (wall_minute t - off) * 60 = of_int ((\<lfloor>t / 60\<rfloor> - off) * 60)"
proof -
  have "\<lfloor>t / 86400\<rfloor> * 86400 + (\<lfloor>t / 60\<rfloor> mod 1440 - off) * 60 = (\<lfloor>t / 60\<rfloor> - off) * 60"
  proof -
    have "q * 86400 + (r - off) * 60 = (m - off) * 60" if "q * 1440 + r = m" for q r m :: int
      unfolding that [symmetric] by (simp add: algebra_simps)
    then show ?thesis unfolding floor_day using div_mult_mod_eq by blast
  qed
  then show ?thesis
    unfolding wall_midnight_def wall_minute_def MINUTES_PER_DAY_def
    by (metis of_int_add of_int_mult of_int_numeral)
qed

lemma find_shift_eq:
  "list_all shift_ok shs \<Longrightarrow> find_shift s t shs =
     (case filter (covers \<lfloor>t / 60\<rfloor>) shs of [] \<Rightarrow> Inl (ShiftScheduleError ''No shift covers the instant.'' [])
      | sh # _ \<Rightarrow> Inr (window_of s \<lfloor>t / 60\<rfloor> sh))"
proof (induction shs)
  case Nil
  then show ?case by simp
next
  case (Cons sh shs)
  have off: "(wall_minute t - start_of sh) mod 1440 = (\<lfloor>t / 60\<rfloor> - start_of sh) mod 1440"
    by (simp add: wall_minute_def MINUTES_PER_DAY_def mod_diff_left_eq)
  from Cons.prems have "shift_ok sh" by simp
  note m = shift_ok_minutes(1,2) [OF this]
  have "find_shift s t (sh # shs) =
      (if covers \<lfloor>t / 60\<rfloor> sh then Inr (window_of s \<lfloor>t / 60\<rfloor> sh) else find_shift s t shs)"
    unfolding find_shift.simps m prod.case sum.case Let_def MINUTES_PER_DAY_def wall_start off covers_def window_of_def
    by (simp add: algebra_simps)
  with Cons show ?case by simp
qed

text \<open>A minute \<open>n\<close> of the window of \<open>m\<close> lies in the same arc, at the same first minute.\<close>

lemma same_arc:
  assumes "covers m sh" "duration_of sh \<le> 1440"
    "m - (m - start_of sh) mod 1440 \<le> n" "n < m - (m - start_of sh) mod 1440 + duration_of sh"
  shows "covers n sh \<and> n - (n - start_of sh) mod 1440 = m - (m - start_of sh) mod 1440"
proof -
  let ?a = "m - (m - start_of sh) mod 1440"
  have "(?a - start_of sh) mod 1440 = ((m - start_of sh) - (m - start_of sh) mod 1440) mod 1440"
    by (simp add: algebra_simps)
  also have "\<dots> = 0" by simp
  finally have "(n - start_of sh) mod 1440 = (n - ?a) mod 1440"
    by (metis (no_types, lifting) add_0 diff_add_cancel diff_add_eq mod_add_left_eq)
  also have "\<dots> = n - ?a" using assms(2-4) by (intro mod_pos_pos_trivial) auto
  finally have "(n - start_of sh) mod 1440 = n - ?a" .
  with assms(4) show ?thesis by (simp add: covers_def)
qed

lemma unique_shift:
  assumes "schedule_ok zk s" "validate_schedule s = Inr ()" "sc_mode s \<noteq> ''continuous''"
  shows "\<exists>sh. filter (covers m) (sc_shifts s) = [sh]"
proof -
  have "load (sc_shifts s) (m mod 1440) = 1"
    using assms by (simp add: validate_iff)
  then have "length (filter (covers m) (sc_shifts s)) = 1" by (simp add: load_def covers_mod)
  then show ?thesis by (auto simp: length_Suc_conv)
qed

lemma continuous_window:
  assumes "sc_mode s = ''continuous''" "resolve_current_shift L s now = Inr w"
  shows "(sw_start w \<le> L (sc_timezone s) t \<and> L (sc_timezone s) t < sw_end w \<longleftrightarrow> resolve_current_shift L s t = Inr w) \<and>
    sw_timezone w = sc_timezone s"
proof -
  let ?d = "\<lambda>u. \<lfloor>L (sc_timezone s) u / 86400\<rfloor>"
  have w: "w = \<lparr>sw_name = CONTINUOUS_SHIFT_NAME, sw_start = of_int (?d now) * 86400, sw_end = of_int (?d now) * 86400 + 86400,
      sw_mode = sc_mode s, sw_timezone = sc_timezone s\<rparr>"
    using assms by (simp add: resolve_current_shift_def wall_midnight_def Let_def)
  have "sw_start w \<le> L (sc_timezone s) t \<and> L (sc_timezone s) t < sw_end w \<longleftrightarrow>
      of_int (?d now) \<le> L (sc_timezone s) t / 86400 \<and> L (sc_timezone s) t / 86400 < of_int (?d now) + 1"
    by (simp add: w field_simps)
  also have "\<dots> \<longleftrightarrow> ?d t = ?d now" by (auto simp: floor_eq_iff)
  also have "\<dots> \<longleftrightarrow> resolve_current_shift L s t = Inr w"
    using assms(1) by (auto simp: w resolve_current_shift_def wall_midnight_def Let_def)
  finally show ?thesis by (simp add: w)
qed

lemma shift_window:
  assumes "schedule_ok zk s" "validate_schedule s = Inr ()" "sc_mode s \<noteq> ''continuous''"
    "resolve_current_shift L s now = Inr w"
  shows "(sw_start w \<le> L (sc_timezone s) t \<and> L (sc_timezone s) t < sw_end w \<longleftrightarrow> resolve_current_shift L s t = Inr w) \<and>
    sw_timezone w = sc_timezone s"
proof -
  let ?m = "\<lfloor>L (sc_timezone s) now / 60\<rfloor>" and ?n = "\<lfloor>L (sc_timezone s) t / 60\<rfloor>"
  have ok: "list_all shift_ok (sc_shifts s)" using assms(1) by (simp add: schedule_ok_def)
  obtain sh where sh: "filter (covers ?m) (sc_shifts s) = [sh]" using unique_shift [OF assms(1-3)] by blast
  obtain sh' where sh': "filter (covers ?n) (sc_shifts s) = [sh']" using unique_shift [OF assms(1-3)] by blast
  have w: "w = window_of s ?m sh" and r: "resolve_current_shift L s t = Inr (window_of s ?n sh')"
    using assms(3,4) sh sh' by (simp_all add: resolve_current_shift_def find_shift_eq [OF ok])
  have mem: "sh \<in> set (sc_shifts s)" "covers ?m sh" "sh' \<in> set (sc_shifts s)" "covers ?n sh'"
    using arg_cong [OF sh, of set] arg_cong [OF sh', of set] by auto
  then have d: "0 < duration_of sh" "duration_of sh \<le> 1440" using ok shift_ok_minutes by (auto simp: list_all_iff)
  have inside: "sw_start (window_of s k z) \<le> x \<and> x < sw_end (window_of s k z) \<longleftrightarrow>
      k - (k - start_of z) mod 1440 \<le> \<lfloor>x / 60\<rfloor> \<and> \<lfloor>x / 60\<rfloor> < k - (k - start_of z) mod 1440 + duration_of z" for k z x
    by (simp only: window_of_def Let_def ShiftWindow.simps minute_bounds)
  show ?thesis
  proof (intro conjI iffI)
    assume "sw_start w \<le> L (sc_timezone s) t \<and> L (sc_timezone s) t < sw_end w"
    then have "?m - (?m - start_of sh) mod 1440 \<le> ?n" "?n < ?m - (?m - start_of sh) mod 1440 + duration_of sh"
      unfolding w inside by auto
    from same_arc [OF mem(2) d(2) this] have s: "covers ?n sh"
      "?n - (?n - start_of sh) mod 1440 = ?m - (?m - start_of sh) mod 1440" by auto
    then have "sh \<in> set (filter (covers ?n) (sc_shifts s))" using mem(1) by simp
    then have "sh' = sh" using sh' by simp
    with s(2) show "resolve_current_shift L s t = Inr w" by (simp add: r w window_of_def)
  next
    assume "resolve_current_shift L s t = Inr w"
    then have "w = window_of s ?n sh'" using r by simp
    then show "sw_start w \<le> L (sc_timezone s) t" "L (sc_timezone s) t < sw_end w"
      using inside [of ?n sh' "L (sc_timezone s) t"] mem(4) by (auto simp: covers_def)
  qed (simp add: w window_of_def Let_def)
qed

lemma window_iff:
  assumes "schedule_ok zk s" "validate_schedule s = Inr ()" "resolve_current_shift L s now = Inr w"
  shows "(sw_start w \<le> L (sc_timezone s) t \<and> L (sc_timezone s) t < sw_end w \<longleftrightarrow> resolve_current_shift L s t = Inr w) \<and>
    sw_timezone w = sc_timezone s"
  using continuous_window [OF _ assms(3)] shift_window [OF assms(1,2) _ assms(3)] by blast

lemma window_exists:
  assumes "schedule_ok zk s" "validate_schedule s = Inr ()"
  shows "\<exists>w. resolve_current_shift L s now = Inr w"
proof (cases "sc_mode s = ''continuous''")
  case True
  then show ?thesis by (simp add: resolve_current_shift_def Let_def)
next
  case False
  have "list_all shift_ok (sc_shifts s)" using assms(1) by (simp add: schedule_ok_def)
  with unique_shift [OF assms False, of "\<lfloor>L (sc_timezone s) now / 60\<rfloor>"] False show ?thesis
    by (auto simp: resolve_current_shift_def find_shift_eq)
qed

text \<open>Two shifts of twelve hours, the second over midnight.\<close>

definition two_shifts :: ShiftSchedule where
  "two_shifts = \<lparr>sc_mode = ''shifts'', sc_timezone = DEFAULT_TIMEZONE, sc_shifts =
     [\<lparr>sd_name = ''Day'', sd_start = ''07:00'', sd_end = ''19:00''\<rparr>,
      \<lparr>sd_name = ''Night'', sd_start = ''19:00'', sd_end = ''07:00''\<rparr>]\<rparr>"

lemma parse_two_shifts: "parse_hhmm ''07:00'' = Inr 420" "parse_hhmm ''19:00'' = Inr 1140"
  by code_simp+

lemma two_shifts_ok: "schedule_ok (\<lambda>_. True) two_shifts"
  by (simp add: schedule_ok_def two_shifts_def shift_ok_def parse_two_shifts)

lemma two_shifts_valid: "validate_schedule two_shifts = Inr ()"
proof -
  have arcs: "start_of \<lparr>sd_name = ''Day'', sd_start = ''07:00'', sd_end = ''19:00''\<rparr> = 420"
    "duration_of \<lparr>sd_name = ''Day'', sd_start = ''07:00'', sd_end = ''19:00''\<rparr> = 720"
    "start_of \<lparr>sd_name = ''Night'', sd_start = ''19:00'', sd_end = ''07:00''\<rparr> = 1140"
    "duration_of \<lparr>sd_name = ''Night'', sd_start = ''19:00'', sd_end = ''07:00''\<rparr> = 720"
    by (simp_all add: start_of_def duration_of_def start_minute_def duration_minutes_def MINUTES_PER_DAY_def
        parse_two_shifts Let_def)
  have "((m - 420) mod 1440 < 720) \<noteq> ((m - 1140) mod 1440 < 720)" for m :: int
  proof -
    let ?r = "(m - 420) mod 1440"
    have r: "0 \<le> ?r" "?r < 1440" by simp_all
    have "(m - 1140) mod 1440 = (?r - 720) mod 1440" by (simp add: mod_diff_left_eq)
    also have "\<dots> = (if ?r < 720 then ?r + 720 else ?r - 720)"
    proof (cases "?r < 720")
      case True
      have "(?r - 720) mod 1440 = (?r - 720 + 1440) mod 1440" by (rule mod_add_self2 [symmetric])
      with True r show ?thesis by (simp add: mod_pos_pos_trivial)
    next
      case False
      with r show ?thesis by (simp add: mod_pos_pos_trivial)
    qed
    finally show ?thesis using r by auto
  qed
  then have "load (sc_shifts two_shifts) m = 1" for m
    by (auto simp: two_shifts_def covers_def arcs)
  then show ?thesis by (simp add: validate_iff [OF two_shifts_ok])
qed

theorem schedule_accepted_iff_partition_witness:
  "\<exists>!i. i < length (sc_shifts two_shifts) \<and> covers 120 (sc_shifts two_shifts ! i)"
proof -
  have "\<forall>m. 0 \<le> m \<and> m < 1440 \<longrightarrow> (\<exists>!i. i < length (sc_shifts two_shifts) \<and> covers m (sc_shifts two_shifts ! i))"
    using schedule_accepted_iff_partition [OF two_shifts_ok] two_shifts_valid by (simp add: two_shifts_def)
  then show ?thesis by simp
qed

text \<open>
  C37. Under an accepted schedule every instant has a window that contains it, and exactly the instants of a window
  have that window: the windows partition the wall-clock time of the zone of the schedule, also over midnight. The
  conversion of an instant to that time is a parameter; the code takes it that the site has no daylight saving.
\<close>

theorem windows_partition_time:
  assumes "schedule_ok zk s" "validate_schedule s = Inr ()"
  shows "\<exists>w. resolve_current_shift to_local s now = Inr w \<and>
    sw_start w \<le> to_local (sc_timezone s) now \<and> to_local (sc_timezone s) now < sw_end w \<and>
    (\<forall>t. sw_start w \<le> to_local (sc_timezone s) t \<and> to_local (sc_timezone s) t < sw_end w \<longleftrightarrow>
       resolve_current_shift to_local s t = Inr w)"
proof -
  obtain w where w: "resolve_current_shift to_local s now = Inr w" using window_exists [OF assms] by blast
  note iff = window_iff [OF assms w, THEN conjunct1]
  from iff [of now] w show ?thesis by (intro exI [of _ w]) (auto simp: iff)
qed

theorem windows_partition_time_witness:
  "\<exists>w. resolve_current_shift (\<lambda>_ t. t) two_shifts 7200 = Inr w \<and> sw_start w \<le> 7200 \<and> 7200 < sw_end w"
  using windows_partition_time [OF two_shifts_ok two_shifts_valid, of "\<lambda>_ t. t" 7200] by auto

section \<open>Counts\<close>

lemma foldl_counts:
  "dget_or (foldl (\<lambda>counts v. dput (f v) (dget_or counts (f v) 0 + 1) counts) counts vs) k (0::nat) =
   dget_or counts k 0 + length (filter (\<lambda>v. f v = k) vs)"
  by (induction vs arbitrary: counts) auto

text \<open>
  After a schedule has been stored the service finds a window for every instant, and the count of a camera
  in it is the number of its open violations whose own instant has that window: no open violation is
  counted in two shifts and none is left out.
\<close>

theorem shift_counts_exact:
  assumes "schedule_ok zk s" "model_validate (model_dump s) = Some s"
    "set_schedule model_dump s updated_by row = (Inr s', row')"
  shows "\<exists>w. get_current_window model_validate to_local row' now = Inr w \<and>
    dget_or (count_unreviewed_by_camera to_local w None violations) cam 0 =
      length (filter (\<lambda>v. vi_device_id v = cam \<and> vi_status v = VS_OPEN \<and>
        get_current_window model_validate to_local row' (vi_timestamp v) = Inr w) (dvals violations))"
proof -
  have v: "validate_schedule s = Inr ()" and r: "get_schedule model_validate row' = s"
    using assms(2,3) by (auto simp: set_schedule_def get_schedule_def split: sum.splits option.splits)
  obtain w where w: "resolve_current_shift to_local s now = Inr w" using window_exists [OF assms(1) v] by blast
  have "filter (\<lambda>v. vi_device_id v = cam)
        (select_where (\<lambda>v. vi_status v = VS_OPEN \<and> sw_start w \<le> to_local (sw_timezone w) (vi_timestamp v) \<and>
          to_local (sw_timezone w) (vi_timestamp v) < sw_end w) violations) =
      filter (\<lambda>v. vi_device_id v = cam \<and> vi_status v = VS_OPEN \<and>
        resolve_current_shift to_local s (vi_timestamp v) = Inr w) (dvals violations)"
    using window_iff [OF assms(1) v w] by (auto simp: select_where_def intro!: filter_cong)
  then have "dget_or (count_unreviewed_by_camera to_local w None violations) cam 0 =
      length (filter (\<lambda>v. vi_device_id v = cam \<and> vi_status v = VS_OPEN \<and>
        resolve_current_shift to_local s (vi_timestamp v) = Inr w) (dvals violations))"
    unfolding count_unreviewed_by_camera_def foldl_counts by simp
  then show ?thesis using w unfolding get_current_window_def r by blast
qed

theorem shift_counts_exact_witness:
  "\<exists>w. get_current_window (\<lambda>_. Some two_shifts) (\<lambda>_ t. t)
      (snd (set_schedule (\<lambda>_. JNone) two_shifts None None)) 7200 = Inr w \<and>
    dget_or (count_unreviewed_by_camera (\<lambda>_ t. t) w None []) 1 0 = 0"
proof -
  obtain row' where "set_schedule (\<lambda>_. JNone) two_shifts None None = (Inr two_shifts, row')"
    using two_shifts_valid by (simp add: set_schedule_def)
  from shift_counts_exact [OF two_shifts_ok _ this, of "\<lambda>_. Some two_shifts" "\<lambda>_ t. t" 7200 "[]" 1] this
  show ?thesis by simp
qed

section \<open>Reading and writing times\<close>

lemma show_nat_two: "n < 10 \<Longrightarrow> show_nat n = [digit_char n]"
  "10 \<le> n \<Longrightarrow> n < 100 \<Longrightarrow> show_nat n = [digit_char (n div 10), digit_char (n mod 10)]"
proof -
  show one: "k < 10 \<Longrightarrow> show_nat k = [digit_char k]" for k by (subst show_nat.simps) simp
  assume "10 \<le> n" "n < 100"
  then have "n div 10 < 10" by auto
  then show "show_nat n = [digit_char (n div 10), digit_char (n mod 10)]"
    using \<open>10 \<le> n\<close> by (subst show_nat.simps) (simp add: one)
qed

lemma pad2_digits:
  assumes "0 \<le> n" "n < 100"
  shows "pad2 n = [digit_char (nat n div 10), digit_char (nat n mod 10)]"
proof (cases "n < 10")
  case True
  have "''0'' = [digit_char 0]" by code_simp
  with True assms show ?thesis by (simp add: pad2_def show_int_def show_nat_two(1))
next
  case False
  with assms have "10 \<le> nat n" "nat n < 100" by auto
  with False assms show ?thesis by (simp add: pad2_def show_int_def show_nat_two(2))
qed

lemma digit_not_special:
  assumes "is_digit c"
  shows "\<not> is_space c" "c \<noteq> CHR ''_''" "c \<noteq> CHR ''-''" "c \<noteq> CHR ''+''" "c \<noteq> CHR '':''"
  using assms by (auto simp: is_digit_def is_space_def)

lemma py_int_digits:
  assumes "is_digit a" "is_digit b"
  shows "py_int [a, b] = Some (int (10 * digit_val a + digit_val b))"
  using assms digit_not_special [OF assms(1)] digit_not_special [OF assms(2)]
  by (simp add: py_int_def py_strip_def read_nat_def Let_def)

lemma py_int_pad2:
  assumes "0 \<le> n" "n < 100"
  shows "py_int (pad2 n) = Some n"
proof -
  have "nat n div 10 < 10" "nat n mod 10 < 10" using assms by auto
  then have "py_int (pad2 n) = Some (int (10 * (nat n div 10) + nat n mod 10))"
    by (simp only: pad2_digits [OF assms] py_int_digits is_digit_digit_char digit_val_digit_char)
  also have "10 * (nat n div 10) + nat n mod 10 = nat n" by simp
  finally show ?thesis using assms(1) by simp
qed

text \<open>Reading what was written gives the time of day.\<close>

theorem parse_format_hhmm: "parse_hhmm (format_hhmm m) = Inr (m mod 1440)"
proof -
  let ?h = "m mod 1440 div 60" and ?n = "m mod 1440 mod 60"
  have b: "0 \<le> ?h" "?h \<le> 23" "0 \<le> ?n" "?n \<le> 59" by (auto intro: order.trans)
  have nocolon: "CHR '':'' \<notin> set (pad2 k)" if "0 \<le> k" "k < 100" for k
  proof -
    have "nat k div 10 < 10" "nat k mod 10 < 10" using that by auto
    then have "\<forall>c\<in>set (pad2 k). is_digit c" by (simp add: pad2_digits [OF that])
    then show ?thesis using digit_not_special(5) by blast
  qed
  have "py_split CHR '':'' (format_hhmm m) = [pad2 ?h, pad2 ?n]"
    using b nocolon by (simp add: format_hhmm_def MINUTES_PER_DAY_def Let_def py_split_append py_split_absent)
  moreover have "?h * 60 + ?n = m mod 1440" by simp
  ultimately show ?thesis using b by (simp add: parse_hhmm_def py_int_pad2)
qed

text \<open>Signs, blanks and single digits are accepted too.\<close>

lemma parse_hhmm_lenient: "parse_hhmm '' +7:5'' = Inr 425"
  by code_simp

end
