(* ===== verification/DeviceService.thy ===== *)
theory DeviceService
  imports BackendModels
begin

text \<open>
  \<open>ruth-ai-backend/app/services/device_service.py\<close>: the local table of cameras as a cache of the devices
  that VAS reports. What VAS answers is a parameter; \<open>new_id\<close> are the identifiers of new rows.
\<close>

record VASDevice =
  va_id :: string
  va_name :: string
  va_description :: "string option"
  va_location :: "string option"
  va_manway :: "string option"
  va_in_out :: "string option"
  va_display_name :: "string option"
  va_is_active :: bool

datatype device_error = DeviceNotFoundError string | DeviceInactiveError uuid | DeviceSyncError string
  | DeviceRaises py_error

section \<open>Synchronisation\<close>

definition mirror :: "real \<Rightarrow> VASDevice \<Rightarrow> Device \<Rightarrow> Device" where
  "mirror now v d =
     d\<lparr>dv_name := va_name v, dv_description := va_description v, dv_location := va_location v,
       dv_manway := va_manway v, dv_in_out := va_in_out v, dv_display_name := va_display_name v,
       dv_is_active := va_is_active v, dv_last_synced_at := Some now\<rparr>"

definition create_device :: "real \<Rightarrow> uuid \<Rightarrow> VASDevice \<Rightarrow> Device" where
  "create_device now i v =
     \<lparr>dv_id = i, dv_vas_device_id = va_id v, dv_name = va_name v, dv_description = va_description v,
      dv_location = va_location v, dv_manway = va_manway v, dv_in_out = va_in_out v,
      dv_display_name = va_display_name v, dv_is_active = va_is_active v, dv_last_synced_at = Some now\<rparr>"

definition by_vas_id :: "string \<Rightarrow> Device table \<Rightarrow> py_error + Device option" where
  "by_vas_id x t = scalar_one_or_none (select_where (\<lambda>d. dv_vas_device_id d = x) t)"

definition sync_single_device :: "real \<Rightarrow> uuid \<Rightarrow> VASDevice \<Rightarrow> Device table \<Rightarrow> (device_error + Device) \<times> Device table" where
  "sync_single_device now new_id v t =
     (case by_vas_id (va_id v) t of
        Inl e \<Rightarrow> (Inl (DeviceRaises e), t)
      | Inr found \<Rightarrow>
          (let d = (case found of None \<Rightarrow> create_device now new_id v | Some d \<Rightarrow> mirror now v d)
           in (Inr d, dput (dv_id d) d t)))"

fun sync_each :: "(nat \<Rightarrow> real) \<Rightarrow> (nat \<Rightarrow> uuid) \<Rightarrow> nat \<Rightarrow> VASDevice list \<Rightarrow> Device table \<Rightarrow>
    (device_error + Device list) \<times> Device table" where
  "sync_each utc new_id n [] t = (Inr [], t)"
| "sync_each utc new_id n (v # vs) t =
     (case sync_single_device (utc n) (new_id n) v t of
        (Inl e, t1) \<Rightarrow> (Inl e, t1)
      | (Inr d, t1) \<Rightarrow>
          (case sync_each utc new_id (Suc n) vs t1 of
             (Inl e, t2) \<Rightarrow> (Inl e, t2)
           | (Inr ds, t2) \<Rightarrow> (Inr (d # ds), t2)))"

definition mark_missing_devices_inactive :: "string set \<Rightarrow> Device table \<Rightarrow> Device table" where
  "mark_missing_devices_inactive active_vas_ids t =
     map (\<lambda>(k, d). (k, if dv_is_active d \<and> dv_vas_device_id d \<notin> active_vas_ids then d\<lparr>dv_is_active := False\<rparr> else d)) t"

text \<open>The rows of a session are shared objects: what a caller holds is the row as it is at the end.\<close>

definition row_now :: "Device table \<Rightarrow> Device \<Rightarrow> Device" where
  "row_now t d = (case dget t (dv_id d) of None \<Rightarrow> d | Some d' \<Rightarrow> d')"

definition sync_devices_from_vas ::
  "(nat \<Rightarrow> real) \<Rightarrow> (nat \<Rightarrow> uuid) \<Rightarrow> vas_error + VASDevice list \<Rightarrow> Device table \<Rightarrow>
   (device_error + Device list) \<times> Device table" where
  "sync_devices_from_vas utc new_id vas_devices t =
     (case vas_devices of
        Inl (VASConnectionError _) \<Rightarrow> (Inl (DeviceSyncError ''Cannot connect to VAS''), t)
      | Inl e \<Rightarrow> (Inl (DeviceSyncError (''VAS error during device sync: '' @ vas_message e)), t)
      | Inr vs \<Rightarrow>
          (case sync_each utc new_id 0 vs t of
             (Inl e, t1) \<Rightarrow> (Inl e, t1)
           | (Inr ds, t1) \<Rightarrow>
               (let t2 = mark_missing_devices_inactive (set (map va_id vs)) t1
                in (Inr (map (row_now t2) ds), t2))))"

section \<open>Retrieval\<close>

definition require :: "bool \<Rightarrow> Device \<Rightarrow> device_error + Device" where
  "require require_active d =
     (if require_active \<and> \<not> dv_is_active d then Inl (DeviceInactiveError (dv_id d)) else Inr d)"

definition get_device_by_id :: "(uuid \<Rightarrow> string) \<Rightarrow> uuid \<Rightarrow> bool \<Rightarrow> Device table \<Rightarrow> device_error + Device" where
  "get_device_by_id show_id device_id require_active t =
     (case dget t device_id of None \<Rightarrow> Inl (DeviceNotFoundError (show_id device_id)) | Some d \<Rightarrow> require require_active d)"

definition get_device_by_vas_id :: "string \<Rightarrow> bool \<Rightarrow> Device table \<Rightarrow> device_error + Device" where
  "get_device_by_vas_id x require_active t =
     (case by_vas_id x t of
        Inl e \<Rightarrow> Inl (DeviceRaises e)
      | Inr None \<Rightarrow> Inl (DeviceNotFoundError x)
      | Inr (Some d) \<Rightarrow> require require_active d)"

definition apply_naming_from_vas ::
  "(uuid \<Rightarrow> string) \<Rightarrow> uuid \<Rightarrow> string option \<Rightarrow> string option \<Rightarrow> string \<Rightarrow> Device table \<Rightarrow>
   (device_error + Device) \<times> Device table" where
  "apply_naming_from_vas show_id device_id manway in_out display_name t =
     (case get_device_by_id show_id device_id False t of
        Inl e \<Rightarrow> (Inl e, t)
      | Inr d \<Rightarrow>
          (let d' = d\<lparr>dv_manway := manway, dv_in_out := in_out, dv_display_name := Some display_name\<rparr>
           in (Inr d', dput device_id d' t)))"

text \<open>Only the absence of the device makes the service ask VAS.\<close>

definition ensure_device_exists ::
  "real \<Rightarrow> uuid \<Rightarrow> (string \<Rightarrow> vas_error + VASDevice) \<Rightarrow> string \<Rightarrow> Device table \<Rightarrow> (device_error + Device) \<times> Device table" where
  "ensure_device_exists now new_id vas_get x t =
     (case get_device_by_vas_id x False t of
        Inr d \<Rightarrow> (Inr d, t)
      | Inl (DeviceNotFoundError _) \<Rightarrow>
          (case vas_get x of
             Inl (VASNotFoundError m) \<Rightarrow> (Inl (DeviceNotFoundError x), t)
           | Inl e \<Rightarrow> (Inl (DeviceSyncError (''Failed to fetch device from VAS: '' @ x)), t)
           | Inr v \<Rightarrow> sync_single_device now new_id v t)
      | Inl e \<Rightarrow> (Inl e, t))"

text \<open>\<open>by_name\<close> is the order of the database for \<open>ORDER BY name\<close>.\<close>

definition list_devices :: "(Device list \<Rightarrow> Device list) \<Rightarrow> bool \<Rightarrow> nat \<Rightarrow> nat \<Rightarrow> Device table \<Rightarrow> Device list" where
  "list_devices by_name active_only skip limit t =
     take limit (drop skip (by_name (select_where (\<lambda>d. active_only \<longrightarrow> dv_is_active d) t)))"

definition count_devices :: "bool \<Rightarrow> Device table \<Rightarrow> nat" where
  "count_devices active_only t = length (select_where (\<lambda>d. active_only \<longrightarrow> dv_is_active d) t)"

definition refresh_device_status ::
  "(uuid \<Rightarrow> string) \<Rightarrow> real \<Rightarrow> (string \<Rightarrow> vas_error + VASDevice) \<Rightarrow> uuid \<Rightarrow> Device table \<Rightarrow>
   (device_error + Device) \<times> Device table" where
  "refresh_device_status show_id now vas_get device_id t =
     (case get_device_by_id show_id device_id False t of
        Inl e \<Rightarrow> (Inl e, t)
      | Inr d \<Rightarrow>
          (case vas_get (dv_vas_device_id d) of
             Inl (VASNotFoundError m) \<Rightarrow>
               (let d' = d\<lparr>dv_is_active := False\<rparr> in (Inr d', dput device_id d' t))
           | Inl e \<Rightarrow> (Inl (DeviceSyncError (''Failed to refresh device '' @ show_id device_id)), t)
           | Inr v \<Rightarrow>
               (let d' = d\<lparr>dv_name := va_name v, dv_description := va_description v, dv_location := va_location v,
                           dv_is_active := va_is_active v, dv_last_synced_at := Some now\<rparr>
                in (Inr d', dput device_id d' t))))"

section \<open>The table as a cache of VAS\<close>

text \<open>Rows under their identifiers, and no two of them for one device of VAS.\<close>

definition cache_wf :: "Device table \<Rightarrow> bool" where
  "cache_wf t \<longleftrightarrow> table_wf dv_id t \<and>
     (\<forall>k l d e. dget t k = Some d \<longrightarrow> dget t l = Some e \<longrightarrow> dv_vas_device_id d = dv_vas_device_id e \<longrightarrow> k = l)"

definition cached :: "Device table \<Rightarrow> string \<Rightarrow> Device option" where
  "cached t x = (case select_where (\<lambda>d. dv_vas_device_id d = x) t of [] \<Rightarrow> None | d # _ \<Rightarrow> Some d)"

lemma option_eqI: "(\<And>e. a = Some e \<longleftrightarrow> b = Some e) \<Longrightarrow> a = b"
  by (cases a; cases b) auto

lemma cache_wfD:
  assumes "cache_wf t"
  shows "table_wf dv_id t" "dict_wf t"
    "dget t k = Some d \<Longrightarrow> dget t l = Some e \<Longrightarrow> dv_vas_device_id d = dv_vas_device_id e \<Longrightarrow> d = e \<and> k = l"
  using assms unfolding cache_wf_def table_wf_def by (simp_all, metis option.inject)

lemma by_vas_id_rows:
  assumes "cache_wf t"
  shows "select_where (\<lambda>d. dv_vas_device_id d = x) t = (case cached t x of None \<Rightarrow> [] | Some d \<Rightarrow> [d])"
proof (cases "select_where (\<lambda>d. dv_vas_device_id d = x) t")
  case Nil
  then show ?thesis by (simp add: cached_def)
next
  case (Cons d ds)
  have m: "e \<in> set (d # ds) \<Longrightarrow> dv_vas_device_id e = x \<and> (\<exists>k. dget t k = Some e)" for e
    using cache_wfD(2) [OF assms] unfolding Cons [symmetric] by simp
  have "e = d" if "e \<in> set (d # ds)" for e
    using m [OF that] m [of d] cache_wfD(3) [OF assms] by (metis list.set_intros(1))
  moreover have "distinct (d # ds)" using distinct_rows [OF cache_wfD(1) [OF assms]] unfolding Cons [symmetric] .
  ultimately have "ds = []" by (cases ds) auto
  with Cons show ?thesis by (simp add: cached_def)
qed

lemma by_vas_id_cached: "cache_wf t \<Longrightarrow> by_vas_id x t = Inr (cached t x)"
  by (simp add: by_vas_id_def scalar_one_or_none_def by_vas_id_rows split: option.split)

lemma cached_Some:
  assumes "cache_wf t"
  shows "cached t x = Some d \<longleftrightarrow> (\<exists>k. dget t k = Some d) \<and> dv_vas_device_id d = x"
proof -
  have "d \<in> set (select_where (\<lambda>d. dv_vas_device_id d = x) t) \<longleftrightarrow> cached t x = Some d"
    by (simp add: by_vas_id_rows [OF assms] del: set_select_where split: option.split) auto
  then show ?thesis using cache_wfD(2) [OF assms] by auto
qed

lemma cached_key: "cache_wf t \<Longrightarrow> cached t x = Some d \<Longrightarrow> dget t (dv_id d) = Some d"
  using cached_Some cache_wfD(1) by (metis table_wfD(2))

lemma cached_dput:
  assumes "cache_wf t" "dget t (dv_id d) = None \<Longrightarrow> cached t (dv_vas_device_id d) = None"
    "\<And>e. dget t (dv_id d) = Some e \<Longrightarrow> dv_vas_device_id e = dv_vas_device_id d"
  shows "cache_wf (dput (dv_id d) d t)"
    "cached (dput (dv_id d) d t) x = (if x = dv_vas_device_id d then Some d else cached t x)"
proof -
  let ?t = "dput (dv_id d) d t"
  have other: "dv_vas_device_id e \<noteq> dv_vas_device_id d" if "dget t k = Some e" "k \<noteq> dv_id d" for k e
  proof
    assume same: "dv_vas_device_id e = dv_vas_device_id d"
    then have "cached t (dv_vas_device_id d) = Some e" using that(1) cached_Some [OF assms(1)] by blast
    then obtain e' where "dget t (dv_id d) = Some e'" using assms(2) by fastforce
    with assms(3) same cache_wfD(3) [OF assms(1) that(1)] that(2) show False by metis
  qed
  show wf: "cache_wf ?t"
    using cache_wfD [OF assms(1)] other unfolding cache_wf_def by (auto dest: other [symmetric])
  have "cached ?t x = Some e \<longleftrightarrow> (if x = dv_vas_device_id d then e = d else cached t x = Some e)" for e
  proof -
    have "(\<exists>k. dget ?t k = Some e) \<and> dv_vas_device_id e = x \<longleftrightarrow>
        (if x = dv_vas_device_id d then e = d else (\<exists>k. dget t k = Some e) \<and> dv_vas_device_id e = x)"
    proof (cases "x = dv_vas_device_id d")
      case True
      then show ?thesis using other by (auto split: if_splits)
    next
      case False
      then have "dget ?t k = Some e \<and> dv_vas_device_id e = x \<longleftrightarrow> dget t k = Some e \<and> dv_vas_device_id e = x" for k
        using assms(3) by (cases "k = dv_id d") auto
      then have "(\<exists>k. dget ?t k = Some e \<and> dv_vas_device_id e = x) \<longleftrightarrow> (\<exists>k. dget t k = Some e \<and> dv_vas_device_id e = x)"
        by (simp only:)
      then show ?thesis using False by simp
    qed
    then show ?thesis by (simp add: cached_Some [OF wf] cached_Some [OF assms(1)])
  qed
  then show "cached ?t x = (if x = dv_vas_device_id d then Some d else cached t x)"
    by (intro option_eqI) auto
qed

lemma sync_single_effect:
  assumes "cache_wf t" "dget t i = None"
  shows "\<exists>d t'. sync_single_device now i v t = (Inr d, t') \<and> cache_wf t' \<and>
    (\<forall>x. cached t' x = (if x = va_id v then Some d else cached t x)) \<and>
    d = (case cached t (va_id v) of None \<Rightarrow> create_device now i v | Some e \<Rightarrow> mirror now v e) \<and>
    dkeys t' = (if cached t (va_id v) = None then dkeys t @ [i] else dkeys t)"
proof (cases "cached t (va_id v)")
  case None
  let ?d = "create_device now i v"
  have k: "dv_id ?d = i" "dv_vas_device_id ?d = va_id v" by (simp_all add: create_device_def)
  have "cache_wf (dput (dv_id ?d) ?d t)" "cached (dput (dv_id ?d) ?d t) x = (if x = va_id v then Some ?d else cached t x)" for x
    using cached_dput [OF assms(1), of ?d] assms(2) None k by simp_all
  moreover have "sync_single_device now i v t = (Inr ?d, dput (dv_id ?d) ?d t)"
    using None assms(1) by (simp add: sync_single_device_def by_vas_id_cached Let_def)
  moreover have "dkeys (dput (dv_id ?d) ?d t) = dkeys t @ [i]"
    using assms(2) k(1) by (simp add: dput_new)
  ultimately show ?thesis using None by (intro exI [of _ ?d] exI [of _ "dput (dv_id ?d) ?d t"]) simp
next
  case (Some e)
  let ?d = "mirror now v e"
  have k: "dv_id ?d = dv_id e" "dv_vas_device_id ?d = va_id v"
    using cached_Some [OF assms(1)] Some by (simp_all add: mirror_def)
  have g: "dget t (dv_id e) = Some e" by (rule cached_key [OF assms(1) Some])
  have "dv_vas_device_id e = va_id v" using cached_Some [OF assms(1)] Some by simp
  then have "cache_wf (dput (dv_id ?d) ?d t)" "cached (dput (dv_id ?d) ?d t) x = (if x = va_id v then Some ?d else cached t x)" for x
    using cached_dput [OF assms(1), of ?d] g k by simp_all
  moreover have "dkeys (dput (dv_id ?d) ?d t) = dkeys t"
    using g k(1) dget_None_iff [of t "dv_id e"] by (simp add: update_keys)
  moreover have "sync_single_device now i v t = (Inr ?d, dput (dv_id ?d) ?d t)"
    using Some assms(1) by (simp add: sync_single_device_def by_vas_id_cached Let_def)
  ultimately show ?thesis using Some by (intro exI [of _ ?d] exI [of _ "dput (dv_id ?d) ?d t"]) simp
qed

text \<open>What the listing says of an identifier: its last entry. A row reflects an entry when all its metadata agree.\<close>

fun listed :: "VASDevice list \<Rightarrow> string \<Rightarrow> VASDevice option" where
  "listed [] x = None"
| "listed (v # vs) x = (case listed vs x of None \<Rightarrow> if va_id v = x then Some v else None | Some w \<Rightarrow> Some w)"

definition reflects :: "VASDevice \<Rightarrow> Device \<Rightarrow> bool" where
  "reflects v d \<longleftrightarrow> dv_vas_device_id d = va_id v \<and> dv_name d = va_name v \<and> dv_description d = va_description v \<and>
     dv_location d = va_location v \<and> dv_manway d = va_manway v \<and> dv_in_out d = va_in_out v \<and>
     dv_display_name d = va_display_name v \<and> dv_is_active d = va_is_active v"

text \<open>From the row before to the row after: the listed entry under the old identifier, or no change.\<close>

definition mirrored :: "VASDevice option \<Rightarrow> Device option \<Rightarrow> Device option \<Rightarrow> bool" where
  "mirrored entry before after =
     (case entry of
        None \<Rightarrow> after = before
      | Some v \<Rightarrow> (\<exists>d. after = Some d \<and> reflects v d \<and> (\<forall>e. before = Some e \<longrightarrow> dv_id d = dv_id e)))"

lemma listed_None: "listed vs x = None \<longleftrightarrow> x \<notin> va_id ` set vs"
  by (induction vs) (auto split: option.splits)

lemma mirrored_Cons:
  assumes "mirrored (listed vs x) (if x = va_id v then Some d else b) c" "reflects v d"
    "\<And>e. x = va_id v \<Longrightarrow> b = Some e \<Longrightarrow> dv_id d = dv_id e"
  shows "mirrored (listed (v # vs) x) b c"
  using assms by (cases "listed vs x") (auto simp: mirrored_def split: if_splits)

lemma reflects_row: "dv_vas_device_id e = va_id v \<Longrightarrow> reflects v (mirror now v e)" "reflects v (create_device now i v)"
  by (simp_all add: reflects_def mirror_def create_device_def)

lemma sync_each_effect:
  assumes "cache_wf t" "inj new_id" "\<forall>m\<ge>n. new_id m \<notin> set (dkeys t)"
  shows "\<exists>ds t'. sync_each utc new_id n vs t = (Inr ds, t') \<and> cache_wf t' \<and> map dv_vas_device_id ds = map va_id vs \<and>
    set (dkeys t) \<subseteq> set (dkeys t') \<and> ((\<forall>v\<in>set vs. cached t (va_id v) \<noteq> None) \<longrightarrow> dkeys t' = dkeys t) \<and>
    (\<forall>d\<in>set ds. map_option dv_id (cached t' (dv_vas_device_id d)) = Some (dv_id d)) \<and>
    (\<forall>x. mirrored (listed vs x) (cached t x) (cached t' x))"
  using assms
proof (induction vs arbitrary: n t)
  case Nil
  then show ?case by (simp add: mirrored_def)
next
  case (Cons v vs)
  have "dget t (new_id n) = None" using Cons.prems(3) by (simp add: dget_None_iff)
  from sync_single_effect [OF Cons.prems(1) this] obtain d t1
    where s: "sync_single_device (utc n) (new_id n) v t = (Inr d, t1)" and wf: "cache_wf t1"
      and c: "\<And>x. cached t1 x = (if x = va_id v then Some d else cached t x)"
      and d: "d = (case cached t (va_id v) of None \<Rightarrow> create_device (utc n) (new_id n) v | Some e \<Rightarrow> mirror (utc n) v e)"
      and k: "dkeys t1 = (if cached t (va_id v) = None then dkeys t @ [new_id n] else dkeys t)"
    by blast
  have "\<forall>m\<ge>Suc n. new_id m \<notin> set (dkeys t1)"
  proof (intro allI impI)
    fix m assume "Suc n \<le> m"
    then have "new_id m \<noteq> new_id n" "new_id m \<notin> set (dkeys t)" using Cons.prems(2,3) by (auto dest: injD)
    then show "new_id m \<notin> set (dkeys t1)" by (simp add: k)
  qed
  from Cons.IH [OF wf Cons.prems(2) this] obtain ds t2
    where r: "sync_each utc new_id (Suc n) vs t1 = (Inr ds, t2)" "cache_wf t2" "map dv_vas_device_id ds = map va_id vs"
      "set (dkeys t1) \<subseteq> set (dkeys t2)" "(\<forall>v\<in>set vs. cached t1 (va_id v) \<noteq> None) \<longrightarrow> dkeys t2 = dkeys t1"
      and i: "\<forall>d\<in>set ds. map_option dv_id (cached t2 (dv_vas_device_id d)) = Some (dv_id d)"
      and m: "\<And>x. mirrored (listed vs x) (cached t1 x) (cached t2 x)"
    by blast
  have old: "dv_vas_device_id e = va_id v" if "cached t (va_id v) = Some e" for e
    using that cached_Some [OF Cons.prems(1)] by simp
  have rf: "reflects v d" using old by (auto simp: d reflects_row split: option.split)
  have "dv_id d = dv_id e" if "cached t (va_id v) = Some e" for e using that by (simp add: d mirror_def)
  then have "mirrored (listed (v # vs) x) (cached t x) (cached t2 x)" for x
    using m [of x] rf unfolding c by (intro mirrored_Cons [where d = d]) auto
  moreover have "sync_each utc new_id n (v # vs) t = (Inr (d # ds), t2)" by (simp add: s r(1))
  moreover have "dv_vas_device_id d = va_id v" using rf by (simp add: reflects_def)
  moreover have "set (dkeys t) \<subseteq> set (dkeys t2)" using r(4) unfolding k by (auto split: if_splits)
  moreover have "dkeys t2 = dkeys t" if "\<forall>w\<in>set (v # vs). cached t (va_id w) \<noteq> None"
    using that r(5) unfolding c by (simp add: k)
  moreover have "map_option dv_id (cached t2 (va_id v)) = Some (dv_id d)"
    using m [of "va_id v"] by (auto simp: c mirrored_def split: option.splits)
  ultimately show ?case using r(2,3) i
    by (intro exI [of _ "d # ds"] exI [of _ t2] conjI allI impI) simp_all
qed

section \<open>A full synchronisation\<close>

definition deactivate :: "Device \<Rightarrow> Device" where
  "deactivate d = (if dv_is_active d then d\<lparr>dv_is_active := False\<rparr> else d)"

lemma mark_missing_get:
  "dget (mark_missing_devices_inactive ids t) k =
   map_option (\<lambda>d. if dv_vas_device_id d \<notin> ids then deactivate d else d) (dget t k)"
proof -
  have f: "(if dv_is_active d \<and> dv_vas_device_id d \<notin> ids then d\<lparr>dv_is_active := False\<rparr> else d) =
      (if dv_vas_device_id d \<notin> ids then deactivate d else d)" for d
    by (simp add: deactivate_def)
  show ?thesis by (simp only: mark_missing_devices_inactive_def f map_of_map comp_apply)
qed

lemma mark_missing_keys [simp]: "dkeys (mark_missing_devices_inactive ids t) = dkeys t"
  by (induction t) (auto simp: mark_missing_devices_inactive_def)

lemma deactivate_fields [simp]:
  "dv_id (deactivate d) = dv_id d" "dv_vas_device_id (deactivate d) = dv_vas_device_id d" "\<not> dv_is_active (deactivate d)"
  by (simp_all add: deactivate_def)

lemma mark_missing_wf:
  assumes "cache_wf t"
  shows "cache_wf (mark_missing_devices_inactive ids t)"
    "cached (mark_missing_devices_inactive ids t) x = map_option (\<lambda>d. if x \<notin> ids then deactivate d else d) (cached t x)"
proof -
  let ?t = "mark_missing_devices_inactive ids t"
  have g: "dget ?t k = Some d \<longleftrightarrow> (\<exists>e. dget t k = Some e \<and> (if dv_vas_device_id e \<notin> ids then deactivate e else e) = d)" for k d
    by (simp add: mark_missing_get)
  show wf: "cache_wf ?t"
    using cache_wfD [OF assms] unfolding cache_wf_def table_wf_def dict_wf_def
    by (auto simp: g dict_wf_def split: if_splits)
  show "cached ?t x = map_option (\<lambda>d. if x \<notin> ids then deactivate d else d) (cached t x)"
    by (rule option_eqI) (auto simp: cached_Some [OF wf] cached_Some [OF assms] g split: if_splits)
qed

lemma row_now_cached:
  assumes "cache_wf t" "map_option dv_id (cached t (dv_vas_device_id d)) = Some (dv_id d)"
  shows "cached t (dv_vas_device_id d) = Some (row_now t d)" "dv_vas_device_id (row_now t d) = dv_vas_device_id d"
proof -
  obtain d' where c: "cached t (dv_vas_device_id d) = Some d'" and i: "dv_id d' = dv_id d" using assms(2) by auto
  then have "row_now t d = d'" using cached_key [OF assms(1) c] by (simp add: row_now_def)
  then show "cached t (dv_vas_device_id d) = Some (row_now t d)" "dv_vas_device_id (row_now t d) = dv_vas_device_id d"
    using c cached_Some [OF assms(1)] by auto
qed

lemma sync_devices_effect:
  assumes "cache_wf t" "inj new_id" "range new_id \<inter> set (dkeys t) = {}"
  shows "\<exists>ds t'. sync_devices_from_vas utc new_id (Inr vs) t = (Inr ds, t') \<and> cache_wf t' \<and>
    set (dkeys t) \<subseteq> set (dkeys t') \<and> ((\<forall>v\<in>set vs. cached t (va_id v) \<noteq> None) \<longrightarrow> dkeys t' = dkeys t) \<and>
    map dv_vas_device_id ds = map va_id vs \<and> (\<forall>d\<in>set ds. cached t' (dv_vas_device_id d) = Some d) \<and>
    (\<forall>x. case listed vs x of
       None \<Rightarrow> cached t' x = map_option deactivate (cached t x)
     | Some v \<Rightarrow> \<exists>d. cached t' x = Some d \<and> reflects v d \<and> (\<forall>e. cached t x = Some e \<longrightarrow> dv_id d = dv_id e))"
proof -
  have "\<forall>m\<ge>0. new_id m \<notin> set (dkeys t)" using assms(3) by auto
  from sync_each_effect [OF assms(1,2) this] obtain ds t1
    where r: "sync_each utc new_id 0 vs t = (Inr ds, t1)" "cache_wf t1" "map dv_vas_device_id ds = map va_id vs"
      "set (dkeys t) \<subseteq> set (dkeys t1)" "(\<forall>v\<in>set vs. cached t (va_id v) \<noteq> None) \<longrightarrow> dkeys t1 = dkeys t"
      and i: "\<And>d. d \<in> set ds \<Longrightarrow> map_option dv_id (cached t1 (dv_vas_device_id d)) = Some (dv_id d)"
      and m: "\<And>x. mirrored (listed vs x) (cached t x) (cached t1 x)"
    by blast
  let ?t = "mark_missing_devices_inactive (va_id ` set vs) t1"
  have e: "sync_devices_from_vas utc new_id (Inr vs) t = (Inr (map (row_now ?t) ds), ?t)"
    by (simp add: sync_devices_from_vas_def r(1) Let_def)
  note wf = mark_missing_wf [OF r(2), of "va_id ` set vs"]
  have i': "map_option dv_id (cached ?t (dv_vas_device_id d)) = Some (dv_id d)" if "d \<in> set ds" for d
    using i [OF that] by (cases "cached t1 (dv_vas_device_id d)") (auto simp: wf(2))
  note now = row_now_cached [OF wf(1) i']
  have l: "listed vs x = None \<longleftrightarrow> x \<notin> va_id ` set vs" for x by (simp add: listed_None)
  have c: "case listed vs x of
       None \<Rightarrow> cached ?t x = map_option deactivate (cached t x)
     | Some v \<Rightarrow> \<exists>d. cached ?t x = Some d \<and> reflects v d \<and> (\<forall>e. cached t x = Some e \<longrightarrow> dv_id d = dv_id e)" for x
    using m [of x] l [of x] by (cases "listed vs x") (auto simp: mirrored_def wf(2))
  have v: "map dv_vas_device_id (map (row_now ?t) ds) = map va_id vs"
    unfolding r(3) [symmetric] using now(2) by simp
  have "\<forall>d\<in>set (map (row_now ?t) ds). cached ?t (dv_vas_device_id d) = Some d" using now by simp
  with e wf(1) r(4,5) v c show ?thesis
    by (intro exI [of _ "map (row_now ?t) ds"] exI [of _ ?t] conjI) simp_all
qed

section \<open>Properties\<close>

text \<open>
  C38. A full synchronisation makes the table a copy of what VAS lists, and never deletes. For a table with at
  most one row for each device of VAS it succeeds and keeps that; every row survives, and no row is added when all
  listed devices are known; the rows returned are the rows of the table for the listed devices, in the order
  of the listing; a listed device has the metadata of its last entry, under its old identifier when it had
  one; a device that is not listed keeps its data and is inactive. When VAS fails the table is unchanged.
\<close>

theorem sync_mirrors_vas:
  assumes "cache_wf t" "inj new_id" "range new_id \<inter> set (dkeys t) = {}"
  shows "(\<exists>ds t'. sync_devices_from_vas utc new_id (Inr vs) t = (Inr ds, t') \<and> cache_wf t' \<and>
    set (dkeys t) \<subseteq> set (dkeys t') \<and> ((\<forall>v\<in>set vs. cached t (va_id v) \<noteq> None) \<longrightarrow> dkeys t' = dkeys t) \<and>
    map dv_vas_device_id ds = map va_id vs \<and> (\<forall>d\<in>set ds. cached t' (dv_vas_device_id d) = Some d) \<and>
    (\<forall>x. case listed vs x of
       None \<Rightarrow> cached t' x = map_option deactivate (cached t x)
     | Some v \<Rightarrow> \<exists>d. cached t' x = Some d \<and> reflects v d \<and> (\<forall>e. cached t x = Some e \<longrightarrow> dv_id d = dv_id e))) \<and>
    snd (sync_devices_from_vas utc new_id (Inl err) t) = t"
  using sync_devices_effect [OF assms, of utc vs]
  by (simp add: sync_devices_from_vas_def split: vas_error.split)

definition demo_camera :: "string \<Rightarrow> bool \<Rightarrow> VASDevice" where
  "demo_camera x active =
     \<lparr>va_id = x, va_name = ''Cam '' @ x, va_description = None, va_location = Some ''North'', va_manway = None,
      va_in_out = Some ''IN'', va_display_name = None, va_is_active = active\<rparr>"

definition demo_table :: "Device table" where
  "demo_table = [(1, create_device 0 1 (demo_camera ''a'' True)), (2, create_device 0 2 (demo_camera ''b'' True))]"

lemma demo_table_wf: "cache_wf demo_table" "inj (\<lambda>n. n + 10 :: nat)" "range (\<lambda>n. n + 10 :: nat) \<inter> set (dkeys demo_table) = {}"
  by (auto simp: demo_table_def cache_wf_def table_wf_def dict_wf_def create_device_def demo_camera_def inj_def split: if_splits)

text \<open>One device renamed, one gone, one new.\<close>

theorem sync_mirrors_vas_witness:
  "cache_wf demo_table \<and>
   (\<exists>ds t'. sync_devices_from_vas (\<lambda>_. 5) (\<lambda>n. n + 10) (Inr [demo_camera ''a'' False, demo_camera ''c'' True]) demo_table = (Inr ds, t') \<and>
     set (dkeys demo_table) \<subseteq> set (dkeys t') \<and> cached t' ''b'' = map_option deactivate (cached demo_table ''b'') \<and>
     cached demo_table ''b'' \<noteq> None \<and> cached t' ''c'' \<noteq> None)"
proof -
  from sync_mirrors_vas [OF demo_table_wf, of "\<lambda>_. 5" "[demo_camera ''a'' False, demo_camera ''c'' True]" "VASConnectionError []"]
  obtain ds t' where "sync_devices_from_vas (\<lambda>_. 5) (\<lambda>n. n + 10) (Inr [demo_camera ''a'' False, demo_camera ''c'' True]) demo_table = (Inr ds, t')"
    and k: "set (dkeys demo_table) \<subseteq> set (dkeys t')"
    and c: "\<And>x. case listed [demo_camera ''a'' False, demo_camera ''c'' True] x of
       None \<Rightarrow> cached t' x = map_option deactivate (cached demo_table x)
     | Some v \<Rightarrow> \<exists>d. cached t' x = Some d \<and> reflects v d \<and> (\<forall>e. cached demo_table x = Some e \<longrightarrow> dv_id d = dv_id e)"
    by blast
  moreover have "cached demo_table ''b'' \<noteq> None"
    by (simp add: cached_def select_where_def demo_table_def create_device_def demo_camera_def)
  ultimately show ?thesis
    using c [of "''b''"] c [of "''c''"] demo_table_wf(1) by (auto simp: demo_camera_def)
qed

end
