(* ===== verification/ViolationService.thy ===== *)
theory ViolationService
  imports BackendModels
begin

text \<open>
  \<open>ruth-ai-backend/app/services/violation_service.py\<close>: events become violations, events of one camera,
  session and type are attached to the open violation, and operators move violations through their states.
  Parameters are the order of the database (\<open>ord\<close>), the loading of \<open>event.device\<close>, the outcome of the
  flush that inserts the row, its identifier, and the snapshot of the evidence service, if there is one.
  An event is a shared object: the row is in the table and an operation writes it there.
\<close>

section \<open>The state machine\<close>

definition VALID_STATUS_TRANSITIONS :: "(ViolationStatus, ViolationStatus list) dict" where
  "VALID_STATUS_TRANSITIONS =
     [(VS_OPEN, [VS_REVIEWED, VS_DISMISSED]), (VS_REVIEWED, [VS_DISMISSED, VS_RESOLVED]),
      (VS_DISMISSED, [VS_OPEN]), (VS_RESOLVED, [])]"

definition TERMINAL_STATES :: "ViolationStatus list" where "TERMINAL_STATES = [VS_RESOLVED]"

definition OPEN_STATES :: "ViolationStatus list" where "OPEN_STATES = [VS_OPEN, VS_REVIEWED]"

definition EVENT_TYPE_TO_VIOLATION_TYPE :: "(EventType, ViolationType) dict" where
  "EVENT_TYPE_TO_VIOLATION_TYPE = [(E_FALL_DETECTED, V_FALL_DETECTED)]"

datatype violation_error = ViolationNotFoundError uuid | ViolationTerminalStateError uuid string
  | ViolationStateError uuid string string | ViolationCreationError uuid uuid py_error | ViolationRaises py_error

section \<open>Retrieval\<close>

definition get_violation_by_id :: "uuid \<Rightarrow> Backend \<Rightarrow> violation_error + Violation" where
  "get_violation_by_id violation_id b =
     (case dget (bk_violations b) violation_id of None \<Rightarrow> Inl (ViolationNotFoundError violation_id) | Some v \<Rightarrow> Inr v)"

definition open_match :: "uuid \<Rightarrow> uuid option \<Rightarrow> ViolationType \<Rightarrow> Violation \<Rightarrow> bool" where
  "open_match device session vtype v \<longleftrightarrow>
     vi_device_id v = device \<and> vi_type v = vtype \<and> vi_status v \<in> set OPEN_STATES \<and> vi_stream_session_id v = session"

definition get_open_violation ::
  "Violation ordering \<Rightarrow> uuid \<Rightarrow> uuid option \<Rightarrow> ViolationType \<Rightarrow> Backend \<Rightarrow> Violation option" where
  "get_open_violation ord device session vtype b =
     select_latest ord vi_timestamp (open_match device session vtype) (bk_violations b)"

definition get_violations_for_device ::
  "Violation ordering \<Rightarrow> uuid \<Rightarrow> ViolationStatus option \<Rightarrow> real option \<Rightarrow> int \<Rightarrow> Backend \<Rightarrow> violation_error + Violation list" where
  "get_violations_for_device ord device status since limit b =
     (case sql_limit limit (ord vi_timestamp (select_where
             (\<lambda>v. vi_device_id v = device \<and> (case status of None \<Rightarrow> True | Some s \<Rightarrow> vi_status v = s) \<and>
                  (case since of None \<Rightarrow> True | Some x \<Rightarrow> x \<le> vi_timestamp v)) (bk_violations b))) of
        Inl e \<Rightarrow> Inl (ViolationRaises e) | Inr vs \<Rightarrow> Inr vs)"

definition get_open_violations :: "Violation ordering \<Rightarrow> uuid option \<Rightarrow> int \<Rightarrow> Backend \<Rightarrow> violation_error + Violation list" where
  "get_open_violations ord device limit b =
     (case sql_limit limit (ord vi_timestamp (select_where
             (\<lambda>v. vi_status v \<in> set OPEN_STATES \<and> (case device of None \<Rightarrow> True | Some d \<Rightarrow> vi_device_id v = d))
             (bk_violations b))) of
        Inl e \<Rightarrow> Inl (ViolationRaises e) | Inr vs \<Rightarrow> Inr vs)"

definition attached :: "Backend \<Rightarrow> uuid \<Rightarrow> Event list" where
  "attached b violation_id = select_where (\<lambda>e. ee_violation_id e = Some violation_id) (bk_events b)"

definition get_events_for_violation :: "Event ordering \<Rightarrow> uuid \<Rightarrow> int \<Rightarrow> Backend \<Rightarrow> violation_error + Event list" where
  "get_events_for_violation ord violation_id limit b =
     (case get_violation_by_id violation_id b of
        Inl e \<Rightarrow> Inl e
      | Inr _ \<Rightarrow>
          (case sql_limit limit (ord (\<lambda>e. - ee_timestamp e) (attached b violation_id)) of
             Inl e \<Rightarrow> Inl (ViolationRaises e) | Inr es \<Rightarrow> Inr es))"

definition count_events_for_violation :: "uuid \<Rightarrow> Backend \<Rightarrow> violation_error + nat" where
  "count_events_for_violation violation_id b =
     (case get_violation_by_id violation_id b of
        Inl e \<Rightarrow> Inl e | Inr _ \<Rightarrow> Inr (length (attached b violation_id)))"

section \<open>Events\<close>

abbreviation put_violation :: "Violation \<Rightarrow> Backend \<Rightarrow> Backend" where
  "put_violation v b \<equiv> b\<lparr>bk_violations := dput (vi_id v) v (bk_violations b)\<rparr>"

abbreviation put_event :: "Event \<Rightarrow> Backend \<Rightarrow> Backend" where
  "put_event e b \<equiv> b\<lparr>bk_events := dput (ee_id e) e (bk_events b)\<rparr>"

abbreviation link_event :: "Event \<Rightarrow> uuid \<Rightarrow> Backend \<Rightarrow> Backend" where
  "link_event e violation_id b \<equiv> put_event (e\<lparr>ee_violation_id := Some violation_id\<rparr>) b"

definition map_event_to_violation_type :: "EventType \<Rightarrow> ViolationType option" where
  "map_event_to_violation_type t = dget EVENT_TYPE_TO_VIOLATION_TYPE t"

type_synonym snapshot_call = "Violation \<Rightarrow> Evidence table \<Rightarrow> (py_error + Evidence) \<times> Evidence table"

definition trigger_evidence_capture :: "snapshot_call option \<Rightarrow> Violation \<Rightarrow> Backend \<Rightarrow> Backend" where
  "trigger_evidence_capture evidence_service v b =
     (case evidence_service of
        None \<Rightarrow> b
      | Some create_snapshot \<Rightarrow>
          (case create_snapshot v (bk_evidence b) of
             (Inl e, ev) \<Rightarrow> b\<lparr>bk_evidence := ev\<rparr>
           | (Inr evidence, ev) \<Rightarrow> b\<lparr>bk_evidence := ev\<rparr>))"

definition violation_of_event :: "uuid \<Rightarrow> Device option \<Rightarrow> Event \<Rightarrow> ViolationType \<Rightarrow> Violation" where
  "violation_of_event new_id device e vtype =
     \<lparr>vi_id = new_id, vi_device_id = ee_device_id e, vi_stream_session_id = ee_stream_session_id e, vi_type = vtype,
      vi_type_detail = None, vi_status = VS_OPEN, vi_confidence = ee_confidence e, vi_timestamp = ee_timestamp e,
      vi_camera_name = (case device of None \<Rightarrow> ''Unknown Camera'' | Some d \<Rightarrow> dv_name d),
      vi_model_id = ee_model_id e, vi_model_version = ee_model_version e, vi_bounding_boxes = ee_bounding_boxes e,
      vi_reviewed_by = None, vi_reviewed_at = None, vi_resolution_notes = None\<rparr>"

definition create_violation_from_event ::
  "(py_error + Device option) \<Rightarrow> py_error option \<Rightarrow> snapshot_call option \<Rightarrow> uuid \<Rightarrow> Event \<Rightarrow> ViolationType \<Rightarrow> Backend \<Rightarrow>
   (violation_error + Violation) \<times> Backend" where
  "create_violation_from_event load_device flush evidence_service new_id e vtype b =
     (case load_device of
        Inl x \<Rightarrow> (Inl (ViolationCreationError (ee_id e) (ee_device_id e) x), b)
      | Inr device \<Rightarrow>
          (let v = violation_of_event new_id device e vtype
           in case flush of
                Some x \<Rightarrow> (Inl (ViolationCreationError (ee_id e) (ee_device_id e) x), b)
              | None \<Rightarrow>
                  (Inr v, trigger_evidence_capture evidence_service v (link_event e new_id (put_violation v b)))))"

definition raise_confidence :: "Event \<Rightarrow> Violation \<Rightarrow> Violation" where
  "raise_confidence e v =
     (if vi_confidence v < ee_confidence e
      then v\<lparr>vi_confidence := ee_confidence e, vi_bounding_boxes := ee_bounding_boxes e\<rparr> else v)"

definition attach_event_to_violation :: "Event \<Rightarrow> Violation \<Rightarrow> Backend \<Rightarrow> Violation \<times> Backend" where
  "attach_event_to_violation e v b =
     (let b1 = link_event e (vi_id v) b;
          v' = raise_confidence e v
      in (v', put_violation v' b1))"

definition process_event ::
  "Violation ordering \<Rightarrow> (py_error + Device option) \<Rightarrow> py_error option \<Rightarrow> snapshot_call option \<Rightarrow> uuid \<Rightarrow> Event \<Rightarrow> Backend \<Rightarrow>
   (violation_error + Violation option) \<times> Backend" where
  "process_event ord load_device flush evidence_service new_id e b =
     (if ee_violation_id e \<noteq> None then (Inr None, b)
      else case map_event_to_violation_type (ee_event_type e) of
        None \<Rightarrow> (Inr None, b)
      | Some vtype \<Rightarrow>
          (case get_open_violation ord (ee_device_id e) (ee_stream_session_id e) vtype b of
             Some v \<Rightarrow> (case attach_event_to_violation e v b of (v', b') \<Rightarrow> (Inr (Some v'), b'))
           | None \<Rightarrow>
               (case create_violation_from_event load_device flush evidence_service new_id e vtype b of
                  (Inl x, b') \<Rightarrow> (Inl x, b')
                | (Inr v, b') \<Rightarrow> (Inr (Some v), b'))))"

section \<open>Transitions\<close>

definition is_valid_transition :: "ViolationStatus \<Rightarrow> ViolationStatus \<Rightarrow> bool" where
  "is_valid_transition current target \<longleftrightarrow>
     (if current \<in> set TERMINAL_STATES then False
      else target \<in> set (dget_or VALID_STATUS_TRANSITIONS current []))"

definition apply_transition ::
  "real \<Rightarrow> ViolationStatus \<Rightarrow> string option \<Rightarrow> string option \<Rightarrow> Violation \<Rightarrow> Violation" where
  "apply_transition now new_status reviewed_by resolution_notes v =
     (let v1 = v\<lparr>vi_status := new_status\<rparr>;
          v2 = (if new_status \<in> {VS_REVIEWED, VS_RESOLVED}
                then (if truthy_str reviewed_by then v1\<lparr>vi_reviewed_by := reviewed_by\<rparr> else v1)\<lparr>vi_reviewed_at := Some now\<rparr>
                else v1)
      in if new_status = VS_RESOLVED \<and> truthy_str resolution_notes
         then v2\<lparr>vi_resolution_notes := map_option (take 2000) resolution_notes\<rparr> else v2)"

definition transition_status ::
  "real \<Rightarrow> uuid \<Rightarrow> ViolationStatus \<Rightarrow> string option \<Rightarrow> string option \<Rightarrow> Backend \<Rightarrow>
   (violation_error + Violation) \<times> Backend" where
  "transition_status now violation_id new_status reviewed_by resolution_notes b =
     (case get_violation_by_id violation_id b of
        Inl e \<Rightarrow> (Inl e, b)
      | Inr v \<Rightarrow>
          if vi_status v \<in> set TERMINAL_STATES
          then (Inl (ViolationTerminalStateError violation_id (violation_status_value (vi_status v))), b)
          else if new_status \<notin> set (dget_or VALID_STATUS_TRANSITIONS (vi_status v) [])
          then (Inl (ViolationStateError violation_id (violation_status_value (vi_status v))
                       (violation_status_value new_status)), b)
          else
            (let v3 = apply_transition now new_status reviewed_by resolution_notes v
             in (Inr v3, b\<lparr>bk_violations := dput violation_id v3 (bk_violations b)\<rparr>)))"

definition mark_reviewed :: "real \<Rightarrow> uuid \<Rightarrow> string \<Rightarrow> Backend \<Rightarrow> (violation_error + Violation) \<times> Backend" where
  "mark_reviewed now violation_id reviewed_by = transition_status now violation_id VS_REVIEWED (Some reviewed_by) None"

definition dismiss :: "real \<Rightarrow> uuid \<Rightarrow> string \<Rightarrow> string option \<Rightarrow> Backend \<Rightarrow> (violation_error + Violation) \<times> Backend" where
  "dismiss now violation_id reviewed_by notes = transition_status now violation_id VS_DISMISSED (Some reviewed_by) notes"

definition resolve :: "real \<Rightarrow> uuid \<Rightarrow> string \<Rightarrow> string \<Rightarrow> Backend \<Rightarrow> (violation_error + Violation) \<times> Backend" where
  "resolve now violation_id reviewed_by notes =
     transition_status now violation_id VS_RESOLVED (Some reviewed_by) (Some notes)"

definition reopen :: "real \<Rightarrow> uuid \<Rightarrow> Backend \<Rightarrow> (violation_error + Violation) \<times> Backend" where
  "reopen now violation_id = transition_status now violation_id VS_OPEN None None"

section \<open>Runs\<close>

text \<open>
  What happens to the two tables: events arrive unattached, an event of the table is processed, an operator
  asks for a transition. A step may be refused; it then changes nothing.
\<close>

datatype vop = IngestEvent Event | ProcessEvent uuid | Transition uuid ViolationStatus

inductive vstep :: "Violation ordering \<Rightarrow> Backend \<Rightarrow> vop \<Rightarrow> Backend \<Rightarrow> bool" for ord where
  ingest: "dget (bk_events b) (ee_id e) = None \<Longrightarrow> ee_violation_id e = None \<Longrightarrow> vstep ord b (IngestEvent e) (put_event e b)"
| process: "dget (bk_events b) i = Some e \<Longrightarrow> dget (bk_violations b) new_id = None \<Longrightarrow>
    process_event ord load_device flush svc new_id e b = (r, b') \<Longrightarrow> vstep ord b (ProcessEvent i) b'"
| transit: "transition_status now i s reviewed_by notes b = (r, b') \<Longrightarrow> vstep ord b (Transition i s) b'"

inductive vrun :: "Violation ordering \<Rightarrow> Backend \<Rightarrow> vop list \<Rightarrow> Backend \<Rightarrow> bool" for ord where
  vrun_Nil: "vrun ord b [] b"
| vrun_snoc: "vrun ord b ops c \<Longrightarrow> vstep ord c op d \<Longrightarrow> vrun ord b (ops @ [op]) d"

inductive_cases vstepE: "vstep ord b op b'"

definition vs_wf :: "Backend \<Rightarrow> bool" where
  "vs_wf b \<longleftrightarrow> table_wf vi_id (bk_violations b) \<and> table_wf ee_id (bk_events b)"

text \<open>An attached event fits its violation and is no stronger; each violation has its strongest event.\<close>

definition fits :: "Event \<Rightarrow> Violation \<Rightarrow> bool" where
  "fits e v \<longleftrightarrow> ee_device_id e = vi_device_id v \<and> ee_stream_session_id e = vi_stream_session_id v \<and>
     map_event_to_violation_type (ee_event_type e) = Some (vi_type v) \<and> ee_confidence e \<le> vi_confidence v"

definition strongest :: "Event \<Rightarrow> Violation \<Rightarrow> bool" where
  "strongest e v \<longleftrightarrow> ee_violation_id e = Some (vi_id v) \<and> ee_confidence e = vi_confidence v \<and> ee_bounding_boxes e = vi_bounding_boxes v"

definition vs_inv :: "Backend \<Rightarrow> bool" where
  "vs_inv b \<longleftrightarrow> vs_wf b \<and>
     (\<forall>i e k. dget (bk_events b) i = Some e \<longrightarrow> ee_violation_id e = Some k \<longrightarrow>
        (\<exists>v. dget (bk_violations b) k = Some v \<and> fits e v)) \<and>
     (\<forall>k v. dget (bk_violations b) k = Some v \<longrightarrow> (\<exists>i e. dget (bk_events b) i = Some e \<and> strongest e v))"

definition same_incident :: "Violation \<Rightarrow> Violation \<Rightarrow> bool" where
  "same_incident v w \<longleftrightarrow> vi_device_id v = vi_device_id w \<and> vi_stream_session_id v = vi_stream_session_id w \<and> vi_type v = vi_type w"

definition one_open :: "Backend \<Rightarrow> bool" where
  "one_open b \<longleftrightarrow>
     (\<forall>k l v w. dget (bk_violations b) k = Some v \<longrightarrow> dget (bk_violations b) l = Some w \<longrightarrow>
        vi_status v \<in> set OPEN_STATES \<longrightarrow> vi_status w \<in> set OPEN_STATES \<longrightarrow> same_incident v w \<longrightarrow> k = l)"

lemma raise_confidence_fields [simp]:
  "vi_id (raise_confidence e v) = vi_id v" "vi_device_id (raise_confidence e v) = vi_device_id v"
  "vi_stream_session_id (raise_confidence e v) = vi_stream_session_id v" "vi_type (raise_confidence e v) = vi_type v"
  "vi_status (raise_confidence e v) = vi_status v"
  "vi_confidence (raise_confidence e v) = max (vi_confidence v) (ee_confidence e)"
  by (auto simp: raise_confidence_def)

lemma violation_of_event_fields [simp]:
  "vi_id (violation_of_event n d e t) = n" "vi_device_id (violation_of_event n d e t) = ee_device_id e"
  "vi_stream_session_id (violation_of_event n d e t) = ee_stream_session_id e" "vi_type (violation_of_event n d e t) = t"
  "vi_status (violation_of_event n d e t) = VS_OPEN" "vi_confidence (violation_of_event n d e t) = ee_confidence e"
  "vi_bounding_boxes (violation_of_event n d e t) = ee_bounding_boxes e"
  by (simp_all add: violation_of_event_def)

lemma capture_tables [simp]:
  "bk_violations (trigger_evidence_capture svc v b) = bk_violations b" "bk_events (trigger_evidence_capture svc v b) = bk_events b"
  by (auto simp: trigger_evidence_capture_def split: option.split prod.split sum.split)

text \<open>The three things that processing an event can do to the tables.\<close>

lemma process_cases:
  assumes "process_event ord load_device flush svc n e b = (r, b')" "orders_desc ord" "vs_wf b"
  obtains (same) "b' = b" "\<And>v. r \<noteq> Inr (Some v)"
  | (attach) v t where "ee_violation_id e = None" "map_event_to_violation_type (ee_event_type e) = Some t"
      "dget (bk_violations b) (vi_id v) = Some v" "open_match (ee_device_id e) (ee_stream_session_id e) t v"
      "bk_events b' = dput (ee_id e) (e\<lparr>ee_violation_id := Some (vi_id v)\<rparr>) (bk_events b)"
      "bk_violations b' = dput (vi_id v) (raise_confidence e v) (bk_violations b)"
      "r = Inr (Some (raise_confidence e v))"
  | (create) d t where "ee_violation_id e = None" "map_event_to_violation_type (ee_event_type e) = Some t"
      "\<And>k v. dget (bk_violations b) k = Some v \<Longrightarrow> \<not> open_match (ee_device_id e) (ee_stream_session_id e) t v"
      "bk_events b' = dput (ee_id e) (e\<lparr>ee_violation_id := Some n\<rparr>) (bk_events b)"
      "bk_violations b' = dput n (violation_of_event n d e t) (bk_violations b)"
      "r = Inr (Some (violation_of_event n d e t))"
proof (cases "ee_violation_id e = None \<and> map_event_to_violation_type (ee_event_type e) \<noteq> None")
  case False
  then have "b' = b" "r = Inr None" using assms(1) by (auto simp: process_event_def split: option.splits if_splits)
  then show thesis using same by simp
next
  case True
  then obtain t where t: "map_event_to_violation_type (ee_event_type e) = Some t" and none: "ee_violation_id e = None" by auto
  have wf: "table_wf vi_id (bk_violations b)" "dict_wf (bk_violations b)"
    using assms(3) by (auto simp: vs_wf_def table_wf_def)
  show thesis
  proof (cases "get_open_violation ord (ee_device_id e) (ee_stream_session_id e) t b")
    case (Some v)
    note o = select_latest_Some [OF assms(2) wf(2) Some [unfolded get_open_violation_def]]
    then have "dget (bk_violations b) (vi_id v) = Some v" using table_wfD(2) [OF wf(1)] by blast
    moreover have "r = Inr (Some (raise_confidence e v))"
      "b' = put_violation (raise_confidence e v) (link_event e (vi_id v) b)"
      using assms(1) none t Some by (simp_all add: process_event_def attach_event_to_violation_def Let_def)
    ultimately show thesis using attach [OF none t _ o(1)] by simp
  next
    case None
    note o = None [unfolded get_open_violation_def select_latest_None [OF assms(2) wf(2)]]
    show thesis
    proof (cases "\<exists>d. load_device = Inr d \<and> flush = None")
      case True
      then obtain d where d: "load_device = Inr d" "flush = None" by blast
      with assms(1) none t None have "r = Inr (Some (violation_of_event n d e t))"
        "b' = trigger_evidence_capture svc (violation_of_event n d e t) (link_event e n (put_violation (violation_of_event n d e t) b))"
        by (simp_all add: process_event_def create_violation_from_event_def Let_def)
      then show thesis using create [OF none t _, of d] o by simp
    next
      case False
      then have "b' = b \<and> (\<exists>x. r = Inl x)" using assms(1) none t None
        by (auto simp: process_event_def create_violation_from_event_def Let_def split: sum.splits option.splits)
      then show thesis using same by auto
    qed
  qed
qed

text \<open>What a violation records of the incident; nothing after its creation changes it.\<close>

definition frozen :: "Violation \<Rightarrow> uuid \<times> uuid \<times> uuid option \<times> ViolationType \<times> string option \<times> real \<times> string \<times> string \<times> string" where
  "frozen v = (vi_id v, vi_device_id v, vi_stream_session_id v, vi_type v, vi_type_detail v, vi_timestamp v,
     vi_camera_name v, vi_model_id v, vi_model_version v)"

lemma raise_same_boxes [simp]: "vi_confidence (raise_confidence e v) = vi_confidence v \<Longrightarrow> vi_bounding_boxes (raise_confidence e v) = vi_bounding_boxes v"
  "max (vi_confidence v) (ee_confidence e) = vi_confidence v \<Longrightarrow> vi_bounding_boxes (raise_confidence e v) = vi_bounding_boxes v"
  by (auto simp: raise_confidence_def split: if_splits)

lemma frozen_raise [simp]: "frozen (raise_confidence e v) = frozen v"
  by (simp add: frozen_def raise_confidence_def)

lemma frozenD:
  assumes "frozen v = frozen w"
  shows "vi_id v = vi_id w" "same_incident v w"
  using assms by (simp_all add: frozen_def same_incident_def)

lemma valid_transition_iff:
  "is_valid_transition s t \<longleftrightarrow> (s, t) \<in> {(VS_OPEN, VS_REVIEWED), (VS_OPEN, VS_DISMISSED), (VS_REVIEWED, VS_DISMISSED),
     (VS_REVIEWED, VS_RESOLVED), (VS_DISMISSED, VS_OPEN)}"
  by (cases s; cases t) (simp_all add: is_valid_transition_def TERMINAL_STATES_def VALID_STATUS_TRANSITIONS_def dget_or_def)

lemma transition_cases:
  assumes "transition_status now i s rb notes b = (r, b')"
  obtains (same) e where "b' = b" "r = Inl e"
  | (moved) v v' where "dget (bk_violations b) i = Some v" "is_valid_transition (vi_status v) s"
      "bk_violations b' = dput i v' (bk_violations b)" "bk_events b' = bk_events b" "frozen v' = frozen v"
      "vi_confidence v' = vi_confidence v" "vi_bounding_boxes v' = vi_bounding_boxes v" "vi_status v' = s" "r = Inr v'"
proof (cases "\<exists>v. dget (bk_violations b) i = Some v \<and> is_valid_transition (vi_status v) s")
  case False
  then have "b' = b \<and> (\<exists>e. r = Inl e)"
    using assms by (auto simp: transition_status_def get_violation_by_id_def is_valid_transition_def Let_def split: option.splits if_splits)
  then show thesis using same by blast
next
  case True
  then obtain v where v: "dget (bk_violations b) i = Some v" "is_valid_transition (vi_status v) s" by blast
  then have nt: "vi_status v \<notin> set TERMINAL_STATES" "s \<in> set (dget_or VALID_STATUS_TRANSITIONS (vi_status v) [])"
    by (auto simp: is_valid_transition_def split: if_splits)
  define v3 where "v3 = apply_transition now s rb notes v"
  have e: "r = Inr v3" "b' = b\<lparr>bk_violations := dput i v3 (bk_violations b)\<rparr>"
    using assms nt v(1) by (simp_all add: transition_status_def get_violation_by_id_def Let_def v3_def)
  have "frozen v3 = frozen v" "vi_confidence v3 = vi_confidence v" "vi_bounding_boxes v3 = vi_bounding_boxes v" "vi_status v3 = s"
    unfolding v3_def by (simp_all add: apply_transition_def Let_def frozen_def)
  then show thesis using moved [OF v, of v3] e by simp
qed

section \<open>Invariants\<close>

lemma vs_invD:
  assumes "vs_inv b"
  shows "vs_wf b" "dget (bk_events b) i = Some e \<Longrightarrow> ee_violation_id e = Some k \<Longrightarrow> \<exists>v. dget (bk_violations b) k = Some v \<and> fits e v"
    "dget (bk_violations b) k = Some v \<Longrightarrow> \<exists>i e. dget (bk_events b) i = Some e \<and> strongest e v"
  using assms unfolding vs_inv_def by blast+

lemma vs_wfD:
  assumes "vs_wf b"
  shows "dget (bk_violations b) k = Some v \<Longrightarrow> vi_id v = k" "dget (bk_events b) i = Some e \<Longrightarrow> ee_id e = i"
  using assms by (auto simp: vs_wf_def table_wf_def)

lemma vs_inv_ingest:
  assumes "vs_inv b" "dget (bk_events b) (ee_id e) = None" "ee_violation_id e = None"
  shows "vs_inv (put_event e b)"
  unfolding vs_inv_def
proof (intro conjI allI impI)
  show "vs_wf (put_event e b)" using vs_invD(1) [OF assms(1)] by (auto simp: vs_wf_def)
next
  fix i x k assume "dget (bk_events (put_event e b)) i = Some x" "ee_violation_id x = Some k"
  then show "\<exists>v. dget (bk_violations (put_event e b)) k = Some v \<and> fits x v"
    using vs_invD(2) [OF assms(1)] assms(3) by (auto split: if_splits)
next
  fix k v assume "dget (bk_violations (put_event e b)) k = Some v"
  then obtain i x where "dget (bk_events b) i = Some x" "strongest x v"
    using vs_invD(3) [OF assms(1), of k v] by auto
  then show "\<exists>i x. dget (bk_events (put_event e b)) i = Some x \<and> strongest x v"
    using assms(2) by (intro exI [of _ i] exI [of _ x]) auto
qed

lemma vs_inv_update:
  assumes "vs_inv b" "dget (bk_violations b) k = Some v" "vi_id v' = vi_id v" "same_incident v' v"
    "vi_confidence v' = vi_confidence v" "vi_bounding_boxes v' = vi_bounding_boxes v"
    "bk_violations b' = dput k v' (bk_violations b)" "bk_events b' = bk_events b"
  shows "vs_inv b'"
  unfolding vs_inv_def
proof (intro conjI allI impI)
  show "vs_wf b'" using vs_invD(1) [OF assms(1)] vs_wfD(1) [OF vs_invD(1) [OF assms(1)] assms(2)] assms(3,7,8)
    by (auto simp: vs_wf_def)
next
  fix i e l assume e: "dget (bk_events b') i = Some e" "ee_violation_id e = Some l"
  then obtain w where w: "dget (bk_violations b) l = Some w" "fits e w"
    using vs_invD(2) [OF assms(1), of i e l] assms(8) by auto
  show "\<exists>w. dget (bk_violations b') l = Some w \<and> fits e w"
  proof (cases "l = k")
    case True
    with w assms(2) have "fits e v" by simp
    then have "fits e v'" using assms(4,5) by (simp add: fits_def same_incident_def)
    with True assms(7) show ?thesis by simp
  qed (use w assms(7) in simp)
next
  fix l w assume "dget (bk_violations b') l = Some w"
  then have "w = v' \<or> dget (bk_violations b) l = Some w" unfolding assms(7) by (cases "l = k") simp_all
  then consider "w = v'" | "dget (bk_violations b) l = Some w" by blast
  then show "\<exists>i e. dget (bk_events b') i = Some e \<and> strongest e w"
  proof cases
    case 1
    then show ?thesis using vs_invD(3) [OF assms(1,2)] assms(3,5,6,8) by (simp add: strongest_def)
  next
    case 2
    then show ?thesis using vs_invD(3) [OF assms(1) 2] assms(8) by simp
  qed
qed

lemma vs_inv_attach:
  assumes "vs_inv b" "dget (bk_events b) i = Some e" "ee_violation_id e = None"
    "map_event_to_violation_type (ee_event_type e) = Some t" "dget (bk_violations b) (vi_id v) = Some v"
    "open_match (ee_device_id e) (ee_stream_session_id e) t v"
    "bk_events b' = dput (ee_id e) (e\<lparr>ee_violation_id := Some (vi_id v)\<rparr>) (bk_events b)"
    "bk_violations b' = dput (vi_id v) (raise_confidence e v) (bk_violations b)"
  shows "vs_inv b'"
  unfolding vs_inv_def
proof (intro conjI allI impI)
  let ?e = "e\<lparr>ee_violation_id := Some (vi_id v)\<rparr>"
  have eid: "ee_id e = i" by (rule vs_wfD(2) [OF vs_invD(1) [OF assms(1)] assms(2)])
  show "vs_wf b'" using vs_invD(1) [OF assms(1)] assms(7,8) by (auto simp: vs_wf_def)
  {
    fix j x k assume x: "dget (bk_events b') j = Some x" "ee_violation_id x = Some k"
    show "\<exists>w. dget (bk_violations b') k = Some w \<and> fits x w"
    proof (cases "j = i")
      case True
      then have "x = ?e" "k = vi_id v" using x assms(7) eid by auto
      then show ?thesis using assms(4,6,8) by (auto simp: fits_def open_match_def)
    next
      case False
      then have "dget (bk_events b) j = Some x" using x(1) assms(7) eid by simp
      from vs_invD(2) [OF assms(1) this x(2)] obtain w where "dget (bk_violations b) k = Some w" "fits x w" by blast
      then show ?thesis using assms(5,8) by (cases "k = vi_id v") (auto simp: fits_def)
    qed
  }
  fix k w assume w: "dget (bk_violations b') k = Some w"
  show "\<exists>j x. dget (bk_events b') j = Some x \<and> strongest x w"
  proof (cases "w = raise_confidence e v \<and> vi_confidence v < ee_confidence e")
    case True
    then have "strongest ?e w" by (simp add: strongest_def raise_confidence_def)
    then show ?thesis using assms(7) by (intro exI [of _ i] exI [of _ ?e]) (simp add: eid)
  next
    case False
    then have "dget (bk_violations b) k = Some w" using w assms(5,8) by (auto simp: raise_confidence_def split: if_splits)
    from vs_invD(3) [OF assms(1) this] obtain j x where x: "dget (bk_events b) j = Some x" "strongest x w" by blast
    then have "j \<noteq> i" using assms(2,3) by (auto simp: strongest_def)
    with x assms(7) show ?thesis by (intro exI [of _ j] exI [of _ x]) (simp add: eid)
  qed
qed

lemma vs_inv_create:
  assumes "vs_inv b" "dget (bk_events b) i = Some e" "ee_violation_id e = None"
    "map_event_to_violation_type (ee_event_type e) = Some t" "dget (bk_violations b) n = None"
    "bk_events b' = dput (ee_id e) (e\<lparr>ee_violation_id := Some n\<rparr>) (bk_events b)"
    "bk_violations b' = dput n (violation_of_event n d e t) (bk_violations b)"
  shows "vs_inv b'"
  unfolding vs_inv_def
proof (intro conjI allI impI)
  let ?e = "e\<lparr>ee_violation_id := Some n\<rparr>"
  have eid: "ee_id e = i" by (rule vs_wfD(2) [OF vs_invD(1) [OF assms(1)] assms(2)])
  show "vs_wf b'" using vs_invD(1) [OF assms(1)] assms(6,7) by (auto simp: vs_wf_def)
  {
    fix j x k assume x: "dget (bk_events b') j = Some x" "ee_violation_id x = Some k"
    show "\<exists>w. dget (bk_violations b') k = Some w \<and> fits x w"
    proof (cases "j = i")
      case True
      then have "x = ?e" "k = n" using x assms(6) eid by auto
      then show ?thesis using assms(4,7) by (auto simp: fits_def)
    next
      case False
      then have "dget (bk_events b) j = Some x" using x(1) assms(6) eid by simp
      from vs_invD(2) [OF assms(1) this x(2)] obtain w where "dget (bk_violations b) k = Some w" "fits x w" by blast
      then show ?thesis using assms(5,7) by (cases "k = n") auto
    qed
  }
  fix k w assume w: "dget (bk_violations b') k = Some w"
  show "\<exists>j x. dget (bk_events b') j = Some x \<and> strongest x w"
  proof (cases "k = n")
    case True
    then have "strongest ?e w" using w assms(7) by (auto simp: strongest_def)
    then show ?thesis using assms(6) by (intro exI [of _ i] exI [of _ ?e]) (simp add: eid)
  next
    case False
    then have "dget (bk_violations b) k = Some w" using w assms(7) by simp
    from vs_invD(3) [OF assms(1) this] obtain j x where x: "dget (bk_events b) j = Some x" "strongest x w" by blast
    then have "j \<noteq> i" using assms(2,3) by (auto simp: strongest_def)
    with x assms(6) show ?thesis by (intro exI [of _ j] exI [of _ x]) (simp add: eid)
  qed
qed

lemma vstep_inv:
  assumes "vstep ord b op b'" "orders_desc ord" "vs_inv b"
  shows "vs_inv b'"
  using assms(1)
proof cases
  case (ingest e)
  then show ?thesis using vs_inv_ingest [OF assms(3)] by simp
next
  case (process i e new_id load_device flush svc r)
  from process_cases [OF process(4) assms(2) vs_invD(1) [OF assms(3)]] show ?thesis
    by cases (use assms(3) vs_inv_attach [OF assms(3) process(2)] vs_inv_create [OF assms(3) process(2) _ _ process(3)] in blast)+
next
  case (transit now i s rb nts r)
  show ?thesis using transit(2)
  proof (cases rule: transition_cases)
    case same
    then show ?thesis using assms(3) by simp
  next
    case (moved v v')
    then show ?thesis using vs_inv_update [OF assms(3) moved(1) frozenD [OF moved(5)] moved(6,7,3,4)] by simp
  qed
qed

lemma one_open_step:
  assumes "vstep ord b op b'" "orders_desc ord" "vs_inv b" "one_open b" "\<And>i. op \<noteq> Transition i VS_OPEN"
  shows "one_open b'"
  using assms(1)
proof cases
  case (ingest e)
  then show ?thesis using assms(4) by (simp add: one_open_def)
next
  case (process i e new_id load_device flush svc r)
  show ?thesis using process(4) assms(2) vs_invD(1) [OF assms(3)]
  proof (cases rule: process_cases)
    case same
    then show ?thesis using assms(4) by simp
  next
    case (attach v t)
    then show ?thesis using assms(4) unfolding one_open_def by (simp add: same_incident_def) metis
  next
    case (create d t)
    then have "\<not> same_incident w (violation_of_event new_id d e t)"
      if "dget (bk_violations b) k = Some w" "vi_status w \<in> set OPEN_STATES" for k w
      using that create(3) [OF that(1)] by (auto simp: open_match_def same_incident_def)
    then show ?thesis using assms(4) create(5) unfolding one_open_def by (simp add: same_incident_def) metis
  qed
next
  case (transit now i s rb nts r)
  show ?thesis using transit(2)
  proof (cases rule: transition_cases)
    case same
    then show ?thesis using assms(4) by simp
  next
    case (moved v v')
    have "s \<noteq> VS_OPEN" using assms(5) [of i] transit(1) by auto
    then have o: "vi_status v' \<in> set OPEN_STATES \<Longrightarrow> vi_status v \<in> set OPEN_STATES"
      using moved(2,8) by (auto simp: valid_transition_iff OPEN_STATES_def)
    show ?thesis using assms(4) moved(1,3) o frozenD(2) [OF moved(5)] unfolding one_open_def
      by (simp add: same_incident_def) metis
  qed
qed

lemma vrun_inv: "vrun ord b ops b' \<Longrightarrow> orders_desc ord \<Longrightarrow> vs_inv b \<Longrightarrow> vs_inv b'"
  by (induction rule: vrun.induct) (auto dest: vstep_inv)

lemma vrun_one_open:
  "vrun ord b ops b' \<Longrightarrow> orders_desc ord \<Longrightarrow> vs_inv b \<Longrightarrow> one_open b \<Longrightarrow> (\<And>i. Transition i VS_OPEN \<notin> set ops) \<Longrightarrow> one_open b'"
proof (induction rule: vrun.induct)
  case (vrun_snoc b ops c op d)
  then have "one_open c" by auto
  moreover have "vs_inv c" using vrun_inv vrun_snoc.hyps(1) vrun_snoc.prems(1,2) by blast
  moreover have "op \<noteq> Transition i VS_OPEN" for i using vrun_snoc.prems(4) [of i] by auto
  ultimately show ?case using one_open_step vrun_snoc.hyps(2) vrun_snoc.prems(1) by blast
qed simp

lemma vs_inv_attached:
  assumes "vs_inv b"
  shows "e \<in> set (attached b k) \<longleftrightarrow> ee_violation_id e = Some k \<and> (\<exists>i. dget (bk_events b) i = Some e)"
  using vs_invD(1) [OF assms] by (simp add: attached_def vs_wf_def table_wf_def)

lemma vs_inv_confidence:
  assumes "vs_inv b" "dget (bk_violations b) k = Some v"
  shows "vi_confidence v = Max (ee_confidence ` set (attached b k))"
    "\<exists>e\<in>set (attached b k). ee_confidence e = vi_confidence v \<and> ee_bounding_boxes e = vi_bounding_boxes v"
    "\<forall>e\<in>set (attached b k). fits e v"
proof -
  show f: "\<forall>e\<in>set (attached b k). fits e v"
    using vs_invD(2) [OF assms(1)] assms(2) by (fastforce simp: vs_inv_attached [OF assms(1)])
  obtain i e where e: "dget (bk_events b) i = Some e" "strongest e v" using vs_invD(3) [OF assms] by blast
  then have "e \<in> set (attached b k)"
    using vs_wfD(1) [OF vs_invD(1) [OF assms(1)] assms(2)] vs_inv_attached [OF assms(1)] by (auto simp: strongest_def)
  then show "\<exists>e\<in>set (attached b k). ee_confidence e = vi_confidence v \<and> ee_bounding_boxes e = vi_bounding_boxes v"
    "vi_confidence v = Max (ee_confidence ` set (attached b k))"
    using e(2) f by (auto simp: strongest_def fits_def intro!: Max_eqI [symmetric] bexI [of _ e] image_eqI [of _ _ e])
qed

section \<open>The history of a violation\<close>

definition evolves :: "Violation \<Rightarrow> Violation \<Rightarrow> bool" where
  "evolves v w \<longleftrightarrow> frozen w = frozen v \<and> vi_confidence v \<le> vi_confidence w \<and>
     (vi_confidence w = vi_confidence v \<longrightarrow> vi_bounding_boxes w = vi_bounding_boxes v) \<and>
     (vi_status v, vi_status w) \<in> {(s, t). is_valid_transition s t}\<^sup>* \<and> (vi_status v = VS_RESOLVED \<longrightarrow> w = v)"

lemma evolves_refl: "evolves v v"
  by (simp add: evolves_def)

lemma evolves_trans: "evolves u v \<Longrightarrow> evolves v w \<Longrightarrow> evolves u w"
  by (auto simp: evolves_def)

lemma vstep_evolves:
  assumes "vstep ord b op b'" "orders_desc ord" "vs_inv b" "dget (bk_violations b) k = Some v"
  shows "\<exists>w. dget (bk_violations b') k = Some w \<and> evolves v w"
  using assms(1)
proof cases
  case (ingest e)
  then show ?thesis using assms(4) evolves_refl by auto
next
  case (process i e new_id load_device flush svc r)
  show ?thesis using process(4) assms(2) vs_invD(1) [OF assms(3)]
  proof (cases rule: process_cases)
    case same
    then show ?thesis using assms(4) evolves_refl by auto
  next
    case (attach u t)
    then have "evolves u (raise_confidence e u)" by (auto simp: evolves_def open_match_def OPEN_STATES_def)
    then show ?thesis using attach assms(4) evolves_refl by auto
  next
    case (create d t)
    then show ?thesis using assms(4) process(3) evolves_refl by auto
  qed
next
  case (transit now i s rb nts r)
  show ?thesis using transit(2)
  proof (cases rule: transition_cases)
    case same
    then show ?thesis using assms(4) evolves_refl by auto
  next
    case (moved u u')
    then have "evolves u u'" by (auto simp: evolves_def valid_transition_iff)
    then show ?thesis using moved assms(4) evolves_refl by auto
  qed
qed

lemma vrun_evolves:
  "vrun ord b ops b' \<Longrightarrow> orders_desc ord \<Longrightarrow> vs_inv b \<Longrightarrow> dget (bk_violations b) k = Some v \<Longrightarrow>
   \<exists>w. dget (bk_violations b') k = Some w \<and> evolves v w"
proof (induction rule: vrun.induct)
  case (vrun_snoc b ops c op d)
  then obtain w where "dget (bk_violations c) k = Some w" "evolves v w" by auto
  moreover have "vs_inv c" using vrun_inv vrun_snoc.hyps(1) vrun_snoc.prems(1,2) by blast
  ultimately show ?case using vstep_evolves [OF vrun_snoc.hyps(2) vrun_snoc.prems(1)] evolves_trans by blast
qed (auto intro: evolves_refl)

section \<open>An event is processed once\<close>

lemma process_twice:
  assumes "process_event ord load_device flush svc n e b = (Inr (Some v), b')" "orders_desc ord" "vs_wf b"
  shows "\<exists>e'. dget (bk_events b') (ee_id e) = Some e' \<and> ee_violation_id e' = Some (vi_id v) \<and>
    process_event ord2 load_device2 flush2 svc2 n2 e' b' = (Inr None, b')"
  using assms
proof (cases rule: process_cases)
  case same
  then show ?thesis by blast
qed (auto simp: process_event_def)

section \<open>Observations\<close>

text \<open>A dismissal records neither the operator nor the notes it is given.\<close>

lemma dismiss_drops_notes:
  "dget (bk_violations b) i = Some v \<Longrightarrow> vi_status v \<in> {VS_OPEN, VS_REVIEWED} \<Longrightarrow>
   fst (dismiss now i reviewed_by notes b) = Inr (v\<lparr>vi_status := VS_DISMISSED\<rparr>)"
  by (auto simp: dismiss_def transition_status_def get_violation_by_id_def apply_transition_def Let_def
      TERMINAL_STATES_def VALID_STATUS_TRANSITIONS_def dget_or_def)

definition demo_event :: "uuid \<Rightarrow> real \<Rightarrow> Event" where
  "demo_event i c =
     \<lparr>ee_id = i, ee_device_id = 7, ee_stream_session_id = Some 3, ee_violation_id = None, ee_event_type = E_FALL_DETECTED,
      ee_confidence = c, ee_timestamp = real i, ee_model_id = ''fall'', ee_model_version = ''1'',
      ee_bounding_boxes = None, ee_frame_id = None, ee_inference_time_ms = None\<rparr>"

definition empty_backend :: Backend where
  "empty_backend = \<lparr>bk_devices = [], bk_sessions = [], bk_events = [], bk_violations = [], bk_evidence = []\<rparr>"

definition linked :: "Event \<Rightarrow> uuid \<Rightarrow> Event" where "linked e k = e\<lparr>ee_violation_id := Some k\<rparr>"

definition demo_violation :: "uuid \<Rightarrow> Event \<Rightarrow> ViolationStatus \<Rightarrow> Violation" where
  "demo_violation k e s = (violation_of_event k None e V_FALL_DETECTED)\<lparr>vi_status := s\<rparr>"

definition demo_state :: "(uuid \<times> Violation) list \<Rightarrow> (uuid \<times> Event) list \<Rightarrow> Backend" where
  "demo_state V E = empty_backend\<lparr>bk_violations := V, bk_events := E\<rparr>"

lemmas demo_defs = demo_event_def demo_violation_def demo_state_def empty_backend_def linked_def
  process_event_def map_event_to_violation_type_def EVENT_TYPE_TO_VIOLATION_TYPE_def get_open_violation_def
  select_latest_def select_where_def open_match_def OPEN_STATES_def stable_desc_def attach_event_to_violation_def
  create_violation_from_event_def trigger_evidence_capture_def violation_of_event_def raise_confidence_def Let_def
  transition_status_def apply_transition_def get_violation_by_id_def TERMINAL_STATES_def VALID_STATUS_TRANSITIONS_def
  dget_or_def

abbreviation "fall1 \<equiv> demo_event 1 (1 / 2)"
abbreviation "fall2 \<equiv> demo_event 2 (3 / 4)"

lemma demo_process:
  "process_event stable_desc (Inr None) None None 11 fall1 (demo_state [] [(1, fall1)]) =
     (Inr (Some (demo_violation 11 fall1 VS_OPEN)), demo_state [(11, demo_violation 11 fall1 VS_OPEN)] [(1, linked fall1 11)])"
  "process_event stable_desc (Inr None) None None 12 fall2
     (demo_state [(11, demo_violation 11 fall1 VS_DISMISSED)] [(1, linked fall1 11), (2, fall2)]) =
     (Inr (Some (demo_violation 12 fall2 VS_OPEN)),
      demo_state [(11, demo_violation 11 fall1 VS_DISMISSED), (12, demo_violation 12 fall2 VS_OPEN)] [(1, linked fall1 11), (2, linked fall2 12)])"
  by (simp_all add: demo_defs)

lemma demo_transition:
  "transition_status 0 11 VS_DISMISSED None None (demo_state [(11, demo_violation 11 fall1 VS_OPEN)] E) =
     (Inr (demo_violation 11 fall1 VS_DISMISSED), demo_state [(11, demo_violation 11 fall1 VS_DISMISSED)] E)"
  "transition_status 0 11 VS_OPEN None None
     (demo_state [(11, demo_violation 11 fall1 VS_DISMISSED), (12, demo_violation 12 fall2 VS_OPEN)] E) =
     (Inr (demo_violation 11 fall1 VS_OPEN),
      demo_state [(11, demo_violation 11 fall1 VS_OPEN), (12, demo_violation 12 fall2 VS_OPEN)] E)"
  by (simp_all add: demo_defs)

abbreviation "demo_ops \<equiv> [IngestEvent fall1, ProcessEvent 1, Transition 11 VS_DISMISSED, IngestEvent fall2, ProcessEvent 2]"

lemma demo_run:
  "vrun stable_desc empty_backend demo_ops
     (demo_state [(11, demo_violation 11 fall1 VS_DISMISSED), (12, demo_violation 12 fall2 VS_OPEN)] [(1, linked fall1 11), (2, linked fall2 12)])"
proof -
  let ?run = "vrun stable_desc empty_backend"
  have "?run ([] @ [IngestEvent fall1]) (demo_state [] [(1, fall1)])"
    using vstep.ingest [of empty_backend fall1 stable_desc]
    by (intro vrun_snoc [OF vrun_Nil]) (simp add: demo_state_def empty_backend_def demo_event_def)
  then have "?run [IngestEvent fall1] (demo_state [] [(1, fall1)])" by simp
  from vrun_snoc [OF this vstep.process [OF _ _ demo_process(1)]]
  have "?run [IngestEvent fall1, ProcessEvent 1] (demo_state [(11, demo_violation 11 fall1 VS_OPEN)] [(1, linked fall1 11)])"
    by (simp add: demo_state_def)
  from vrun_snoc [OF this vstep.transit [OF demo_transition(1)]]
  have r3: "?run [IngestEvent fall1, ProcessEvent 1, Transition 11 VS_DISMISSED]
      (demo_state [(11, demo_violation 11 fall1 VS_DISMISSED)] [(1, linked fall1 11)])"
    by simp
  have "vstep stable_desc (demo_state [(11, demo_violation 11 fall1 VS_DISMISSED)] [(1, linked fall1 11)]) (IngestEvent fall2)
      (demo_state [(11, demo_violation 11 fall1 VS_DISMISSED)] [(1, linked fall1 11), (2, fall2)])"
    using vstep.ingest [of "demo_state [(11, demo_violation 11 fall1 VS_DISMISSED)] [(1, linked fall1 11)]" fall2 stable_desc]
    by (simp add: demo_state_def demo_event_def)
  from vrun_snoc [OF r3 this]
  have "?run [IngestEvent fall1, ProcessEvent 1, Transition 11 VS_DISMISSED, IngestEvent fall2]
      (demo_state [(11, demo_violation 11 fall1 VS_DISMISSED)] [(1, linked fall1 11), (2, fall2)])" by simp
  from vrun_snoc [OF this vstep.process [OF _ _ demo_process(2)]] show ?thesis by (simp add: demo_state_def)
qed

text \<open>Reopening a dismissed violation can leave two open violations of one camera, session and type.\<close>

lemma reopen_duplicates: "\<exists>b'. vrun stable_desc empty_backend (demo_ops @ [Transition 11 VS_OPEN]) b' \<and> \<not> one_open b'"
proof -
  let ?b = "demo_state [(11, demo_violation 11 fall1 VS_OPEN), (12, demo_violation 12 fall2 VS_OPEN)] [(1, linked fall1 11), (2, linked fall2 12)]"
  have "vrun stable_desc empty_backend (demo_ops @ [Transition 11 VS_OPEN]) ?b"
    using vrun_snoc [OF demo_run vstep.transit [OF demo_transition(2)]] by simp
  moreover have "\<not> one_open ?b"
  proof
    assume "one_open ?b"
    then have "(11 :: nat) = 12"
      unfolding one_open_def by (elim allE [of _ 11] allE [of _ 12] allE [of _ "demo_violation 11 fall1 VS_OPEN"]
        allE [of _ "demo_violation 12 fall2 VS_OPEN"]) (simp add: demo_state_def demo_violation_def same_incident_def demo_event_def OPEN_STATES_def)
    then show False by simp
  qed
  ultimately show ?thesis by blast
qed

lemma empty_backend_inv: "vs_inv empty_backend" "one_open empty_backend"
  by (simp_all add: vs_inv_def vs_wf_def one_open_def empty_backend_def)

section \<open>Properties\<close>

text \<open>
  C7. Aggregation. Whatever events arrive and are processed and whatever operators do, from empty tables: the
  confidence of a violation is the highest of the events attached to it and its boxes are those of an event
  with that confidence; each attached event has the camera, session and type of its violation; and as long
  as nobody reopens a violation there is at most one open or reviewed violation for a camera, session and type.
\<close>

theorem violations_aggregate:
  assumes "orders_desc ord" "vrun ord empty_backend ops b"
  shows "(\<forall>k v. dget (bk_violations b) k = Some v \<longrightarrow>
      vi_confidence v = Max (ee_confidence ` set (attached b k)) \<and>
      (\<exists>e\<in>set (attached b k). ee_confidence e = vi_confidence v \<and> ee_bounding_boxes e = vi_bounding_boxes v) \<and>
      (\<forall>e\<in>set (attached b k). ee_device_id e = vi_device_id v \<and> ee_stream_session_id e = vi_stream_session_id v \<and>
         map_event_to_violation_type (ee_event_type e) = Some (vi_type v))) \<and>
    ((\<forall>i. Transition i VS_OPEN \<notin> set ops) \<longrightarrow> one_open b)"
proof -
  have i: "vs_inv b" by (rule vrun_inv [OF assms(2,1) empty_backend_inv(1)])
  have "one_open b" if "\<forall>i. Transition i VS_OPEN \<notin> set ops"
    using vrun_one_open [OF assms(2,1) empty_backend_inv] that by blast
  moreover have "\<forall>e\<in>set (attached b k). ee_device_id e = vi_device_id v \<and> ee_stream_session_id e = vi_stream_session_id v \<and>
         map_event_to_violation_type (ee_event_type e) = Some (vi_type v)" if "dget (bk_violations b) k = Some v" for k v
    using vs_inv_confidence(3) [OF i that] by (simp add: fits_def)
  ultimately show ?thesis using vs_inv_confidence(1,2) [OF i] by blast
qed

theorem violations_aggregate_witness:
  "\<exists>b. vrun stable_desc empty_backend demo_ops b \<and> dkeys (bk_violations b) = [11, 12] \<and> one_open b"
proof -
  let ?b = "demo_state [(11, demo_violation 11 fall1 VS_DISMISSED), (12, demo_violation 12 fall2 VS_OPEN)] [(1, linked fall1 11), (2, linked fall2 12)]"
  have "\<forall>i. Transition i VS_OPEN \<notin> set demo_ops" by simp
  then have "one_open ?b" by (rule mp [OF conjunct2 [OF violations_aggregate [OF stable_desc_orders demo_run]]])
  moreover have "dkeys (bk_violations ?b) = [11, 12]" by (simp add: demo_state_def)
  ultimately show ?thesis by (intro exI [of _ ?b] conjI demo_run)
qed

text \<open>
  C36. The history of a violation. From any consistent state and along any run of the service no violation is deleted. Its
  identifier, camera, session, type and detail, time, camera name, model and model version never change; its confidence never falls,
  and its bounding boxes are replaced only when the confidence rises, by a stronger event that is attached; its status only
  moves along five transitions, and a resolved violation does not change at all.
\<close>

theorem violation_history:
  assumes "orders_desc ord" "vs_inv b" "vrun ord b ops b'" "dget (bk_violations b) k = Some v"
  shows "\<exists>w. dget (bk_violations b') k = Some w \<and>
    (vi_id w = vi_id v \<and> vi_device_id w = vi_device_id v \<and> vi_stream_session_id w = vi_stream_session_id v \<and>
     vi_type w = vi_type v \<and> vi_type_detail w = vi_type_detail v \<and> vi_timestamp w = vi_timestamp v \<and>
     vi_camera_name w = vi_camera_name v \<and> vi_model_id w = vi_model_id v \<and> vi_model_version w = vi_model_version v) \<and>
    vi_confidence v \<le> vi_confidence w \<and> (vi_confidence w = vi_confidence v \<longrightarrow> vi_bounding_boxes w = vi_bounding_boxes v) \<and>
    (vi_status v, vi_status w) \<in> {(VS_OPEN, VS_REVIEWED), (VS_OPEN, VS_DISMISSED), (VS_REVIEWED, VS_DISMISSED),
       (VS_REVIEWED, VS_RESOLVED), (VS_DISMISSED, VS_OPEN)}\<^sup>* \<and> (vi_status v = VS_RESOLVED \<longrightarrow> w = v)"
proof -
  have t: "{(s, t). is_valid_transition s t} = {(VS_OPEN, VS_REVIEWED), (VS_OPEN, VS_DISMISSED), (VS_REVIEWED, VS_DISMISSED),
       (VS_REVIEWED, VS_RESOLVED), (VS_DISMISSED, VS_OPEN)}" by (rule set_eqI) (simp only: split_paired_all mem_Collect_eq case_prod_conv valid_transition_iff)
  from vrun_evolves [OF assms(3,1,2,4)] show ?thesis unfolding evolves_def t frozen_def by simp
qed

theorem violation_history_witness:
  "\<exists>b b'. vrun stable_desc b [Transition 11 VS_OPEN] b' \<and>
     (\<exists>w. dget (bk_violations b') 11 = Some w \<and> vi_camera_name w = vi_camera_name (demo_violation 11 fall1 VS_DISMISSED))"
proof -
  let ?b = "demo_state [(11, demo_violation 11 fall1 VS_DISMISSED), (12, demo_violation 12 fall2 VS_OPEN)] [(1, linked fall1 11), (2, linked fall2 12)]"
  have i: "vs_inv ?b" by (rule vrun_inv [OF demo_run stable_desc_orders empty_backend_inv(1)])
  have d: "dget (bk_violations ?b) 11 = Some (demo_violation 11 fall1 VS_DISMISSED)" by (simp add: demo_state_def)
  from vrun_snoc [OF vrun_Nil vstep.transit [OF demo_transition(2)]]
  obtain b' where r: "vrun stable_desc ?b [Transition 11 VS_OPEN] b'" by force
  show ?thesis using r violation_history [OF stable_desc_orders i r d] by blast
qed

text \<open>
  An event is processed once. After an event came to a violation, the row of the event names that violation,
  and processing the row again, whatever the database, the device, the flush and the capture do, returns
  nothing and changes nothing.
\<close>

theorem event_processed_once:
  assumes "process_event ord load_device flush svc n e b = (Inr (Some v), b')" "orders_desc ord" "vs_wf b"
  shows "\<exists>e'. dget (bk_events b') (ee_id e) = Some e' \<and> ee_violation_id e' = Some (vi_id v) \<and>
    process_event ord2 load_device2 flush2 svc2 n2 e' b' = (Inr None, b')"
  by (rule process_twice [OF assms])

theorem event_processed_once_witness:
  "\<exists>e' b'. process_event stable_desc (Inr None) None None 11 fall1 (demo_state [] [(1, fall1)]) = (Inr (Some (demo_violation 11 fall1 VS_OPEN)), b') \<and>
     ee_violation_id e' = Some 11 \<and> process_event stable_desc (Inr None) None None 12 e' b' = (Inr None, b')"
proof -
  have "vs_wf (demo_state [] [(1, fall1)])"
    by (auto simp: vs_wf_def table_wf_def dict_wf_def demo_state_def empty_backend_def demo_event_def split: if_splits)
  from event_processed_once [OF demo_process(1) stable_desc_orders this, of stable_desc "Inr None" None None 12]
  show ?thesis using demo_process(1) by (auto simp: demo_violation_def)
qed

end
