(* ===== verification/StreamService.thy ===== *)
theory StreamService
  imports BackendModels
begin

text \<open>
  \<open>ruth-ai-backend/app/services/stream_service.py\<close>: inference sessions of the cameras, with the routes
  \<open>start_inference\<close> and \<open>stop_inference\<close> of \<open>api/v1/devices.py\<close> and the transaction of
  \<open>core/database.py\<close> around a route. What VAS answers, the order of the database, the identifiers of new
  rows and the clock are parameters. Every session the service writes has a start time.
\<close>

section \<open>States\<close>

definition VALID_TRANSITIONS :: "(StreamState, StreamState list) dict" where
  "VALID_TRANSITIONS =
     [(S_STARTING, [S_LIVE, S_ERROR, S_STOPPED]), (S_LIVE, [S_STOPPING, S_ERROR]),
      (S_STOPPING, [S_STOPPED, S_ERROR]), (S_STOPPED, [S_STARTING]), (S_ERROR, [S_STARTING, S_STOPPED])]"

definition ACTIVE_STATES :: "StreamState list" where "ACTIVE_STATES = [S_STARTING, S_LIVE, S_STOPPING]"

datatype stream_error = StreamDeviceNotFoundError uuid | StreamAlreadyActiveError uuid uuid | StreamNotActiveError uuid
  | StreamStateTransitionError uuid string string | StreamStartError uuid string | StreamStopError uuid string
  | StreamSessionNotFoundError uuid

section \<open>Retrieval\<close>

definition started_key :: "StreamSession \<Rightarrow> real" where
  "started_key s = (case ss_started_at s of None \<Rightarrow> 0 | Some t \<Rightarrow> t)"

definition get_device :: "uuid \<Rightarrow> Backend \<Rightarrow> stream_error + Device" where
  "get_device device_id b =
     (case dget (bk_devices b) device_id of None \<Rightarrow> Inl (StreamDeviceNotFoundError device_id) | Some d \<Rightarrow> Inr d)"

definition active_on :: "uuid \<Rightarrow> StreamSession \<Rightarrow> bool" where
  "active_on device_id s \<longleftrightarrow> ss_device_id s = device_id \<and> ss_state s \<in> set ACTIVE_STATES"

definition get_active_session :: "StreamSession ordering \<Rightarrow> uuid \<Rightarrow> Backend \<Rightarrow> StreamSession option" where
  "get_active_session ord device_id b = select_latest ord started_key (active_on device_id) (bk_sessions b)"

definition get_stream_session :: "uuid \<Rightarrow> Backend \<Rightarrow> stream_error + StreamSession" where
  "get_stream_session session_id b =
     (case dget (bk_sessions b) session_id of None \<Rightarrow> Inl (StreamSessionNotFoundError session_id) | Some s \<Rightarrow> Inr s)"

definition get_active_streams :: "Backend \<Rightarrow> StreamSession list" where
  "get_active_streams b = select_where (\<lambda>s. ss_state s \<in> set ACTIVE_STATES) (bk_sessions b)"

definition get_live_streams :: "Backend \<Rightarrow> StreamSession list" where
  "get_live_streams b = select_where (\<lambda>s. ss_state s = S_LIVE) (bk_sessions b)"

definition get_sessions_for_device :: "StreamSession ordering \<Rightarrow> uuid \<Rightarrow> int \<Rightarrow> Backend \<Rightarrow> py_error + StreamSession list" where
  "get_sessions_for_device ord device_id limit b =
     sql_limit limit (ord started_key (select_where (\<lambda>s. ss_device_id s = device_id) (bk_sessions b)))"

definition is_stream_active :: "StreamSession ordering \<Rightarrow> uuid \<Rightarrow> Backend \<Rightarrow> bool" where
  "is_stream_active ord device_id b \<longleftrightarrow> get_active_session ord device_id b \<noteq> None"

section \<open>Life cycle\<close>

text \<open>Writing a row; \<open>updated_at\<close> moves when a column changes.\<close>

definition save :: "real \<Rightarrow> StreamSession \<Rightarrow> Backend \<Rightarrow> Backend" where
  "save now s b =
     (if dget (bk_sessions b) (ss_id s) = Some s then b
      else b\<lparr>bk_sessions := dput (ss_id s) (s\<lparr>ss_updated_at := now\<rparr>) (bk_sessions b)\<rparr>)"

definition transition_state :: "StreamSession \<Rightarrow> StreamState \<Rightarrow> stream_error + StreamSession" where
  "transition_state s new_state =
     (if new_state \<notin> set (dget_or VALID_TRANSITIONS (ss_state s) [])
      then Inl (StreamStateTransitionError (ss_id s) (stream_state_value (ss_state s)) (stream_state_value new_state))
      else Inr (s\<lparr>ss_state := new_state\<rparr>))"

definition mark_session_error :: "StreamSession \<Rightarrow> string \<Rightarrow> StreamSession" where
  "mark_session_error s reason = s\<lparr>ss_state := S_ERROR, ss_error_message := Some (take 1000 reason)\<rparr>"

record start_options =
  so_model_id :: string
  so_model_version :: "string option"
  so_inference_fps :: int
  so_confidence_threshold :: real
  so_model_config :: "jval option"

definition new_session :: "real \<Rightarrow> uuid \<Rightarrow> uuid \<Rightarrow> start_options \<Rightarrow> StreamSession" where
  "new_session now new_id device_id opts =
     \<lparr>ss_id = new_id, ss_device_id = device_id, ss_vas_stream_id = None, ss_model_id = so_model_id opts,
      ss_model_version = so_model_version opts, ss_inference_fps = so_inference_fps opts,
      ss_confidence_threshold = so_confidence_threshold opts, ss_model_config = so_model_config opts,
      ss_state = S_STARTING, ss_started_at = Some now, ss_stopped_at = None, ss_error_message = None,
      ss_frames_processed = 0, ss_events_count = 0, ss_violations_count = 0, ss_updated_at = now\<rparr>"

text \<open>\<open>start_stream\<close> in two parts: the checks, and what follows when they pass.\<close>

definition start_checks :: "StreamSession ordering \<Rightarrow> uuid \<Rightarrow> Backend \<Rightarrow> stream_error + Device" where
  "start_checks ord device_id b =
     (case get_device device_id b of
        Inl e \<Rightarrow> Inl e
      | Inr d \<Rightarrow>
          (case get_active_session ord device_id b of
             Some s \<Rightarrow> Inl (StreamAlreadyActiveError device_id (ss_id s))
           | None \<Rightarrow> Inr d))"

definition start_session ::
  "real \<Rightarrow> uuid \<Rightarrow> (string \<Rightarrow> vas_error + string option) \<Rightarrow> uuid \<Rightarrow> start_options \<Rightarrow> Device \<Rightarrow> Backend \<Rightarrow>
   (stream_error + StreamSession) \<times> Backend" where
  "start_session now new_id vas_start device_id opts d b =
     (let s = new_session now new_id device_id opts;
          b1 = save now s b
      in case vas_start (dv_vas_device_id d) of
           Inr v2_stream_id \<Rightarrow>
             (case transition_state (s\<lparr>ss_vas_stream_id := v2_stream_id\<rparr>) S_LIVE of
                Inl e \<Rightarrow> (Inl e, save now (s\<lparr>ss_vas_stream_id := v2_stream_id\<rparr>) b1)
              | Inr s' \<Rightarrow> (Inr s', save now s' b1))
         | Inl (VASRTSPError m) \<Rightarrow>
             (Inl (StreamStartError device_id ''RTSP connection failed''), save now (mark_session_error s (''RTSP error: '' @ m)) b1)
         | Inl e \<Rightarrow>
             (Inl (StreamStartError device_id (vas_message e)), save now (mark_session_error s (''VAS error: '' @ vas_message e)) b1))"

definition start_stream ::
  "StreamSession ordering \<Rightarrow> real \<Rightarrow> uuid \<Rightarrow> (string \<Rightarrow> vas_error + string option) \<Rightarrow> uuid \<Rightarrow> start_options \<Rightarrow> Backend \<Rightarrow>
   (stream_error + StreamSession) \<times> Backend" where
  "start_stream ord now new_id vas_start device_id opts b =
     (case start_checks ord device_id b of
        Inl e \<Rightarrow> (Inl e, b) | Inr d \<Rightarrow> start_session now new_id vas_start device_id opts d b)"

definition stopped :: "real \<Rightarrow> StreamSession \<Rightarrow> StreamSession" where
  "stopped now s = s\<lparr>ss_state := S_STOPPED, ss_stopped_at := Some now\<rparr>"

definition stop_inference :: "StreamSession ordering \<Rightarrow> real \<Rightarrow> uuid \<Rightarrow> Backend \<Rightarrow> (stream_error + StreamSession) \<times> Backend" where
  "stop_inference ord now device_id b =
     (case get_active_session ord device_id b of
        None \<Rightarrow> (Inl (StreamNotActiveError device_id), b)
      | Some s \<Rightarrow> (Inr (stopped now s), save now (stopped now s) b))"

definition stop_stream ::
  "StreamSession ordering \<Rightarrow> real \<Rightarrow> (string \<Rightarrow> vas_error option) \<Rightarrow> uuid \<Rightarrow> bool \<Rightarrow> Backend \<Rightarrow> (stream_error + StreamSession) \<times> Backend" where
  "stop_stream ord now vas_stop device_id force b =
     (case get_active_session ord device_id b of
        None \<Rightarrow> (Inl (StreamNotActiveError device_id), b)
      | Some s \<Rightarrow>
          (case get_device device_id b of
             Inl e \<Rightarrow> (Inl e, b)
           | Inr d \<Rightarrow>
               (case (if force then Inr s else transition_state s S_STOPPING) of
                  Inl e \<Rightarrow> (Inl e, b)
                | Inr s1 \<Rightarrow>
                    (case vas_stop (dv_vas_device_id d) of
                       Some (VASNotFoundError m) \<Rightarrow> (Inr (stopped now s1), save now (stopped now s1) b)
                     | Some e \<Rightarrow>
                         if force then (Inr (stopped now s1), save now (stopped now s1) b)
                         else (Inl (StreamStopError device_id (vas_message e)),
                               save now (mark_session_error s1 (''VAS stop error: '' @ vas_message e)) b)
                     | None \<Rightarrow> (Inr (stopped now s1), save now (stopped now s1) b)))))"

definition mark_stream_error :: "StreamSession ordering \<Rightarrow> real \<Rightarrow> uuid \<Rightarrow> string \<Rightarrow> Backend \<Rightarrow> (stream_error + StreamSession) \<times> Backend" where
  "mark_stream_error ord now device_id reason b =
     (case get_active_session ord device_id b of
        None \<Rightarrow> (Inl (StreamNotActiveError device_id), b)
      | Some s \<Rightarrow> (Inr (mark_session_error s reason), save now (mark_session_error s reason) b))"

definition update_model_config :: "StreamSession ordering \<Rightarrow> real \<Rightarrow> uuid \<Rightarrow> jval \<Rightarrow> Backend \<Rightarrow> (stream_error + StreamSession) \<times> Backend" where
  "update_model_config ord now device_id config b =
     (case get_active_session ord device_id b of
        None \<Rightarrow> (Inl (StreamNotActiveError device_id), b)
      | Some s \<Rightarrow> (let s' = s\<lparr>ss_model_config := Some config\<rparr> in (Inr s', save now s' b)))"

definition stuck :: "real \<Rightarrow> StreamSession \<Rightarrow> bool" where
  "stuck now s \<longleftrightarrow> ss_state s \<in> {S_STARTING, S_STOPPING} \<and> ss_updated_at s < now - 300"

definition recover_stuck_sessions :: "real \<Rightarrow> Backend \<Rightarrow> StreamSession list \<times> Backend" where
  "recover_stuck_sessions now b =
     (let recovered = map (\<lambda>s. mark_session_error s (''Session stuck in '' @ stream_state_value (ss_state s) @ '' state''))
                        (select_where (stuck now) (bk_sessions b))
      in (recovered, fold (save now) recovered b))"

section \<open>Combined status\<close>

text \<open>A stream as VAS lists it, and the answer to \<open>GET /v2/streams\<close> for a camera filter and a limit.\<close>

record VASStream =
  vs_id :: string
  vs_camera_id :: "string option"
  vs_state :: string

type_synonym vas_listing = "string option \<Rightarrow> nat \<Rightarrow> vas_error + VASStream list"

record StreamStatus =
  st_video_live :: bool
  st_stream_id :: "string option"
  st_active :: bool
  st_session_id :: "uuid option"
  st_state :: "string option"
  st_model_id :: "string option"
  st_model_config :: "jval option"

definition build_status :: "StreamSession option \<Rightarrow> bool \<Rightarrow> string option \<Rightarrow> StreamStatus" where
  "build_status session video_live vas_stream_id =
     (case session of
        None \<Rightarrow> \<lparr>st_video_live = video_live, st_stream_id = vas_stream_id, st_active = False, st_session_id = None,
                st_state = None, st_model_id = None, st_model_config = None\<rparr>
      | Some s \<Rightarrow> \<lparr>st_video_live = video_live,
                  st_stream_id = (if truthy_str vas_stream_id then vas_stream_id else ss_vas_stream_id s),
                  st_active = True, st_session_id = Some (ss_id s), st_state = Some (stream_state_value (ss_state s)),
                  st_model_id = Some (ss_model_id s), st_model_config = ss_model_config s\<rparr>)"

definition get_combined_status :: "StreamSession ordering \<Rightarrow> vas_listing \<Rightarrow> uuid \<Rightarrow> string \<Rightarrow> Backend \<Rightarrow> StreamStatus" where
  "get_combined_status ord vas_get_streams device_id vas_device_id b =
     (let session = get_active_session ord device_id b
      in case vas_get_streams (Some vas_device_id) 1 of
           Inl e \<Rightarrow> build_status session False None
         | Inr [] \<Rightarrow> build_status session False None
         | Inr (v # _) \<Rightarrow> build_status session (vs_state v = ''live'') (Some (vs_id v)))"

text \<open>\<open>str(stream.camera_id)\<close>; a later stream of a camera replaces an earlier one.\<close>

definition camera_text :: "VASStream \<Rightarrow> string" where
  "camera_text v = (case vs_camera_id v of None \<Rightarrow> ''None'' | Some c \<Rightarrow> c)"

definition stream_by_camera :: "VASStream list \<Rightarrow> (string, VASStream) dict" where
  "stream_by_camera vs = fold (\<lambda>v m. dput (camera_text v) v m) vs []"

definition session_by_device :: "StreamSession list \<Rightarrow> (uuid, StreamSession) dict" where
  "session_by_device ss = fold (\<lambda>s m. if dget m (ss_device_id s) = None then dput (ss_device_id s) s m else m) ss []"

definition get_combined_status_bulk ::
  "StreamSession ordering \<Rightarrow> vas_listing \<Rightarrow> Device list \<Rightarrow> Backend \<Rightarrow> (uuid, StreamStatus) dict" where
  "get_combined_status_bulk ord vas_get_streams devices b =
     (if devices = [] then []
      else
        (let by_camera = (case vas_get_streams None 100 of Inl e \<Rightarrow> [] | Inr vs \<Rightarrow> stream_by_camera vs);
             by_device = session_by_device (ord started_key (select_where
               (\<lambda>s. ss_device_id s \<in> set (map dv_id devices) \<and> ss_state s \<in> set ACTIVE_STATES) (bk_sessions b)))
         in fold (\<lambda>d out.
              let v = dget by_camera (dv_vas_device_id d)
              in dput (dv_id d)
                   (build_status (dget by_device (dv_id d)) (case v of None \<Rightarrow> False | Some x \<Rightarrow> vs_state x = ''live'')
                      (map_option vs_id v)) out) devices []))"

section \<open>Routes\<close>

text \<open>\<open>get_db_session\<close>: a route that raises is rolled back.\<close>

definition db_request :: "(Backend \<Rightarrow> ('e + 'a) \<times> Backend) \<Rightarrow> Backend \<Rightarrow> ('e + 'a) \<times> Backend" where
  "db_request route b = (case route b of (Inl e, _) \<Rightarrow> (Inl e, b) | (Inr x, b') \<Rightarrow> (Inr x, b'))"

text \<open>The fields of the response schemas that are required; a missing one is a validation error of pydantic.\<close>

record InferenceStartResponse =
  sr_session_id :: uuid
  sr_device_id :: uuid
  sr_state :: string
  sr_model_id :: string
  sr_started_at :: real

record InferenceStopResponse =
  sp_session_id :: uuid
  sp_device_id :: uuid
  sp_state :: string
  sp_stopped_at :: "real option"

type_synonym http_error = "nat \<times> string"

definition start_response :: "StreamSession \<Rightarrow> http_error + InferenceStartResponse" where
  "start_response s =
     (case ss_started_at s of
        None \<Rightarrow> Inl (500, ''ValidationError'')
      | Some t \<Rightarrow> Inr \<lparr>sr_session_id = ss_id s, sr_device_id = ss_device_id s, sr_state = stream_state_value (ss_state s),
                      sr_model_id = ss_model_id s, sr_started_at = t\<rparr>)"

definition stop_response :: "uuid option \<Rightarrow> uuid \<Rightarrow> string \<Rightarrow> real option \<Rightarrow> http_error + InferenceStopResponse" where
  "stop_response session_id device_id state stopped_at =
     (case session_id of
        None \<Rightarrow> Inl (500, ''ValidationError'')
      | Some i \<Rightarrow> Inr \<lparr>sp_session_id = i, sp_device_id = device_id, sp_state = state, sp_stopped_at = stopped_at\<rparr>)"

text \<open>The status code and the kind of an error response; other exceptions reach the server (500).\<close>

fun start_error_response :: "stream_error \<Rightarrow> http_error" where
  "start_error_response (StreamDeviceNotFoundError _) = (404, ''device_not_found'')"
| "start_error_response (StreamAlreadyActiveError _ _) = (409, ''stream_already_active'')"
| "start_error_response (StreamStartError _ _) = (502, ''stream_start_failed'')"
| "start_error_response _ = (500, ''internal_error'')"

definition start_inference_route ::
  "StreamSession ordering \<Rightarrow> real \<Rightarrow> uuid \<Rightarrow> (string \<Rightarrow> vas_error + string option) \<Rightarrow> uuid \<Rightarrow> start_options \<Rightarrow> Backend \<Rightarrow>
   (http_error + InferenceStartResponse) \<times> Backend" where
  "start_inference_route ord now new_id vas_start device_id opts b =
     (case get_active_session ord device_id b of
        Some s \<Rightarrow> (start_response s, b)
      | None \<Rightarrow>
          (case start_stream ord now new_id vas_start device_id opts b of
             (Inl e, b') \<Rightarrow> (Inl (start_error_response e), b')
           | (Inr s, b') \<Rightarrow> (start_response s, b')))"

definition stop_inference_route ::
  "StreamSession ordering \<Rightarrow> real \<Rightarrow> uuid \<Rightarrow> Backend \<Rightarrow> (http_error + InferenceStopResponse) \<times> Backend" where
  "stop_inference_route ord now device_id b =
     (case get_active_session ord device_id b of
        None \<Rightarrow> (stop_response None device_id ''stopped'' None, b)
      | Some existing \<Rightarrow>
          (case stop_inference ord now device_id b of
             (Inl (StreamNotActiveError _), b') \<Rightarrow>
               (stop_response (Some (ss_id existing)) device_id ''stopped'' (ss_stopped_at existing), b')
           | (Inl e, b') \<Rightarrow> (Inl (500, ''internal_error''), b')
           | (Inr s, b') \<Rightarrow> (stop_response (Some (ss_id s)) (ss_device_id s) (stream_state_value (ss_state s)) (ss_stopped_at s), b')))"

section \<open>Sessions as a system of operations\<close>

text \<open>At most one active session for a camera.\<close>

definition one_active :: "Backend \<Rightarrow> bool" where
  "one_active b \<longleftrightarrow>
     (\<forall>k l s t. dget (bk_sessions b) k = Some s \<longrightarrow> dget (bk_sessions b) l = Some t \<longrightarrow>
        ss_state s \<in> set ACTIVE_STATES \<longrightarrow> ss_state t \<in> set ACTIVE_STATES \<longrightarrow> ss_device_id s = ss_device_id t \<longrightarrow> k = l)"

definition sessions_ok :: "Backend \<Rightarrow> bool" where
  "sessions_ok b \<longleftrightarrow> table_wf ss_id (bk_sessions b) \<and> one_active b \<and>
     (\<forall>k s. dget (bk_sessions b) k = Some s \<longrightarrow> ss_started_at s \<noteq> None \<and>
        (ss_state s = S_STOPPED \<longrightarrow> ss_stopped_at s \<noteq> None) \<and> (ss_state s = S_ERROR \<longrightarrow> ss_error_message s \<noteq> None))"

lemma sessions_okD:
  assumes "sessions_ok b"
  shows "table_wf ss_id (bk_sessions b)" "dict_wf (bk_sessions b)" "one_active b"
    "dget (bk_sessions b) k = Some s \<Longrightarrow> ss_id s = k" "dget (bk_sessions b) k = Some s \<Longrightarrow> ss_started_at s \<noteq> None"
  using assms by (auto simp: sessions_ok_def table_wf_def)

text \<open>A row is written that is active only if the row it replaces was, and for the same camera.\<close>

definition continues :: "StreamSession option \<Rightarrow> StreamSession \<Rightarrow> bool" where
  "continues old s \<longleftrightarrow> ss_started_at s \<noteq> None \<and> (ss_state s = S_STOPPED \<longrightarrow> ss_stopped_at s \<noteq> None) \<and>
     (ss_state s = S_ERROR \<longrightarrow> ss_error_message s \<noteq> None) \<and>
     (ss_state s \<in> set ACTIVE_STATES \<longrightarrow> (\<exists>r. old = Some r \<and> ss_state r \<in> set ACTIVE_STATES \<and> ss_device_id r = ss_device_id s))"

lemma save_get: "dget (bk_sessions (save now s b)) k =
    (if dget (bk_sessions b) (ss_id s) = Some s then dget (bk_sessions b) k
     else if k = ss_id s then Some (s\<lparr>ss_updated_at := now\<rparr>) else dget (bk_sessions b) k)"
  by (simp add: save_def)

lemma save_frame [simp]:
  "bk_devices (save now s b) = bk_devices b" "bk_events (save now s b) = bk_events b"
  "bk_violations (save now s b) = bk_violations b" "bk_evidence (save now s b) = bk_evidence b"
  by (simp_all add: save_def)

lemma save_wf: "table_wf ss_id (bk_sessions b) \<Longrightarrow> table_wf ss_id (bk_sessions (save now s b))"
  by (auto simp: save_def)

lemma save_ok:
  assumes "sessions_ok b" "continues (dget (bk_sessions b) (ss_id s)) s"
  shows "sessions_ok (save now s b)"
proof (cases "dget (bk_sessions b) (ss_id s) = Some s")
  case True
  then show ?thesis using assms(1) by (simp add: save_def)
next
  case False
  have "one_active (save now s b)"
    using sessions_okD(3) [OF assms(1)] assms(2) unfolding one_active_def continues_def
    by (simp add: save_get False) metis
  then show ?thesis using save_wf [OF sessions_okD(1) [OF assms(1)]] assms unfolding sessions_ok_def
    by (simp add: save_get False continues_def)
qed

lemma save_new_ok:
  assumes "sessions_ok b" "dget (bk_sessions b) (ss_id s) = None" "ss_started_at s \<noteq> None" "ss_state s = S_STARTING"
    "\<And>k r. dget (bk_sessions b) k = Some r \<Longrightarrow> \<not> active_on (ss_device_id s) r"
  shows "sessions_ok (save now s b)"
proof -
  have "one_active (save now s b)"
    using sessions_okD(3) [OF assms(1)] assms(2,5) unfolding one_active_def active_on_def
    by (simp add: save_get) metis
  then show ?thesis using save_wf [OF sessions_okD(1) [OF assms(1)]] assms(1-4) unfolding sessions_ok_def
    by (simp add: save_get)
qed

lemma get_active_session_Some:
  assumes "orders_desc ord" "sessions_ok b" "get_active_session ord device_id b = Some s"
  shows "active_on device_id s" "dget (bk_sessions b) (ss_id s) = Some s"
proof -
  note l = select_latest_Some [OF assms(1) sessions_okD(2) [OF assms(2)] assms(3) [unfolded get_active_session_def]]
  show "active_on device_id s" by (rule l(1))
  show "dget (bk_sessions b) (ss_id s) = Some s" using l(2) sessions_okD(4) [OF assms(2)] by blast
qed

lemma get_active_session_None:
  "orders_desc ord \<Longrightarrow> sessions_ok b \<Longrightarrow> get_active_session ord device_id b = None \<longleftrightarrow>
   (\<forall>k s. dget (bk_sessions b) k = Some s \<longrightarrow> \<not> active_on device_id s)"
  unfolding get_active_session_def by (rule select_latest_None [OF _ sessions_okD(2)])

inductive sstep :: "StreamSession ordering \<Rightarrow> Backend \<Rightarrow> Backend \<Rightarrow> bool" for ord where
  start: "dget (bk_sessions b) new_id = None \<Longrightarrow> start_stream ord now new_id vas_start device_id opts b = (r, b') \<Longrightarrow> sstep ord b b'"
| stop_ai: "stop_inference ord now device_id b = (r, b') \<Longrightarrow> sstep ord b b'"
| stop: "stop_stream ord now vas_stop device_id force b = (r, b') \<Longrightarrow> sstep ord b b'"
| failed: "mark_stream_error ord now device_id reason b = (r, b') \<Longrightarrow> sstep ord b b'"
| configure: "update_model_config ord now device_id config b = (r, b') \<Longrightarrow> sstep ord b b'"
| recover: "recover_stuck_sessions now b = (rs, b') \<Longrightarrow> sstep ord b b'"

lemma start_checks_Inr:
  assumes "start_checks ord device_id b = Inr d" "orders_desc ord" "sessions_ok b"
  shows "dget (bk_devices b) device_id = Some d" "\<And>k s. dget (bk_sessions b) k = Some s \<Longrightarrow> \<not> active_on device_id s"
  using assms(1) get_active_session_None [OF assms(2,3)]
  by (auto simp: start_checks_def get_device_def split: option.splits)

lemma new_session_fields [simp]:
  "ss_id (new_session now n dev opts) = n" "ss_device_id (new_session now n dev opts) = dev"
  "ss_state (new_session now n dev opts) = S_STARTING" "ss_started_at (new_session now n dev opts) = Some now"
  "ss_updated_at (new_session now n dev opts) = now" "ss_vas_stream_id (new_session now n dev opts) = None"
  by (simp_all add: new_session_def)

lemma mark_session_error_fields [simp]:
  "ss_id (mark_session_error s x) = ss_id s" "ss_state (mark_session_error s x) = S_ERROR"
  "ss_device_id (mark_session_error s x) = ss_device_id s" "ss_started_at (mark_session_error s x) = ss_started_at s"
  "ss_error_message (mark_session_error s x) = Some (take 1000 x)"
  by (simp_all add: mark_session_error_def)

lemma stopped_fields [simp]:
  "ss_id (stopped now s) = ss_id s" "ss_state (stopped now s) = S_STOPPED" "ss_device_id (stopped now s) = ss_device_id s"
  "ss_started_at (stopped now s) = ss_started_at s" "ss_stopped_at (stopped now s) = Some now"
  by (simp_all add: stopped_def)

lemma new_session_touch [simp]: "new_session now n dev opts\<lparr>ss_updated_at := now\<rparr> = new_session now n dev opts"
  by (simp add: new_session_def)

text \<open>What follows the checks of a start, by the answer of VAS.\<close>

definition live_session :: "StreamSession \<Rightarrow> string option \<Rightarrow> StreamSession" where
  "live_session s i = s\<lparr>ss_vas_stream_id := i, ss_state := S_LIVE\<rparr>"

lemma live_session_fields [simp]:
  "ss_id (live_session s i) = ss_id s" "ss_state (live_session s i) = S_LIVE"
  "ss_device_id (live_session s i) = ss_device_id s" "ss_started_at (live_session s i) = ss_started_at s"
  by (simp_all add: live_session_def)

lemma start_session_cases:
  assumes "start_session now n vas_start device_id opts d b = (r, b')"
  obtains (live) i where "vas_start (dv_vas_device_id d) = Inr i" "r = Inr (live_session (new_session now n device_id opts) i)"
      "b' = save now (live_session (new_session now n device_id opts) i) (save now (new_session now n device_id opts) b)"
  | (error) e x m where "vas_start (dv_vas_device_id d) = Inl e" "r = Inl (StreamStartError device_id m)"
      "b' = save now (mark_session_error (new_session now n device_id opts) x) (save now (new_session now n device_id opts) b)"
proof (cases "vas_start (dv_vas_device_id d)")
  case (Inr i)
  then show thesis using live [OF Inr] assms
    by (simp add: start_session_def Let_def transition_state_def VALID_TRANSITIONS_def dget_or_def live_session_def)
next
  case (Inl e)
  then show thesis using error [OF Inl] assms by (cases e) (auto simp: start_session_def Let_def)
qed

lemma start_session_ok:
  assumes "start_session now n vas_start device_id opts d b = (r, b')" "sessions_ok b" "dget (bk_sessions b) n = None"
    "\<And>k s. dget (bk_sessions b) k = Some s \<Longrightarrow> \<not> active_on device_id s"
  shows "sessions_ok b'"
proof -
  let ?s = "new_session now n device_id opts"
  have ok: "sessions_ok (save now ?s b)" using save_new_ok [OF assms(2), of ?s] assms(3,4) by simp
  have g: "dget (bk_sessions (save now ?s b)) n = Some ?s" using assms(3) by (simp add: save_get)
  from assms(1) show ?thesis
  proof (cases rule: start_session_cases)
    case (live i)
    have "continues (Some ?s) (live_session ?s i)" by (simp add: continues_def ACTIVE_STATES_def)
    then show ?thesis using save_ok [OF ok] g live(3) by simp
  next
    case (error e x m)
    have "continues (Some ?s) (mark_session_error ?s x)" by (simp add: continues_def ACTIVE_STATES_def)
    then show ?thesis using save_ok [OF ok] g error(3) by simp
  qed
qed

lemma save_ended_ok:
  assumes "sessions_ok b" "ss_started_at s \<noteq> None"
    "ss_state s = S_STOPPED \<and> ss_stopped_at s \<noteq> None \<or> ss_state s = S_ERROR \<and> ss_error_message s \<noteq> None"
  shows "sessions_ok (save now s b)"
  by (rule save_ok [OF assms(1)]) (use assms(2,3) in \<open>auto simp: continues_def ACTIVE_STATES_def\<close>)

lemma transition_state_fields:
  "transition_state s t = Inr s' \<Longrightarrow> s' = s\<lparr>ss_state := t\<rparr> \<and> t \<in> set (dget_or VALID_TRANSITIONS (ss_state s) [])"
  by (simp add: transition_state_def split: if_splits)

lemma stop_stream_ok:
  assumes "stop_stream ord now vas_stop device_id force b = (r, b')" "orders_desc ord" "sessions_ok b"
  shows "sessions_ok b'"
proof (cases "b' = b")
  case False
  then obtain s d s1 where a: "get_active_session ord device_id b = Some s"
    and t: "(if force then Inr s else transition_state s S_STOPPING) = Inr s1" and d: "get_device device_id b = Inr d"
    using assms(1) by (auto simp: stop_stream_def split: option.splits sum.splits if_splits)
  have "ss_started_at s1 \<noteq> None"
    using t sessions_okD(5) [OF assms(3) get_active_session_Some(2) [OF assms(2,3) a]]
    by (auto split: if_splits dest: transition_state_fields)
  then have "sessions_ok (save now (stopped now s1) b)" "sessions_ok (save now (mark_session_error s1 x) b)" for x
    using save_ended_ok [OF assms(3)] by simp_all
  then show ?thesis using assms(1) a t d
    by (auto simp: stop_stream_def split: option.splits vas_error.splits if_splits)
qed (use assms(3) in simp)

lemma fold_save_ok:
  "sessions_ok b \<Longrightarrow> (\<And>s. s \<in> set rows \<Longrightarrow> ss_started_at s \<noteq> None \<and> ss_state s = S_ERROR \<and> ss_error_message s \<noteq> None) \<Longrightarrow>
   sessions_ok (fold (save now) rows b)"
proof (induction rows arbitrary: b)
  case (Cons s rows)
  have "sessions_ok (save now s b)" using Cons.prems(2) [of s] by (intro save_ended_ok [OF Cons.prems(1)]) simp_all
  then show ?case using Cons.IH Cons.prems(2) by simp
qed simp

lemma sstep_ok:
  assumes "sstep ord b b'" "orders_desc ord" "sessions_ok b"
  shows "sessions_ok b'"
  using assms(1)
proof cases
  case (start n now vas_start device_id opts r)
  then show ?thesis
    using assms(3) start_session_ok [OF _ assms(3) start(1)] start_checks_Inr(2) [OF _ assms(2,3)]
    by (auto simp: start_stream_def split: sum.splits)
next
  case (stop_ai now device_id r)
  show ?thesis
  proof (cases "get_active_session ord device_id b")
    case (Some s)
    have "sessions_ok (save now (stopped now s) b)"
      using sessions_okD(5) [OF assms(3) get_active_session_Some(2) [OF assms(2,3) Some]] save_ended_ok [OF assms(3)] by simp
    then show ?thesis using stop_ai Some by (simp add: stop_inference_def)
  qed (use stop_ai assms(3) in \<open>simp add: stop_inference_def\<close>)
next
  case (stop now vas_stop device_id force r)
  then show ?thesis using stop_stream_ok assms(2,3) by blast
next
  case (failed now device_id reason r)
  show ?thesis
  proof (cases "get_active_session ord device_id b")
    case (Some s)
    have "sessions_ok (save now (mark_session_error s reason) b)"
      using sessions_okD(5) [OF assms(3) get_active_session_Some(2) [OF assms(2,3) Some]] save_ended_ok [OF assms(3)] by simp
    then show ?thesis using failed Some by (simp add: mark_stream_error_def)
  qed (use failed assms(3) in \<open>simp add: mark_stream_error_def\<close>)
next
  case (configure now device_id config r)
  show ?thesis
  proof (cases "get_active_session ord device_id b")
    case (Some s)
    note a = get_active_session_Some [OF assms(2,3) Some]
    have "continues (Some s) (s\<lparr>ss_model_config := Some config\<rparr>)"
      using a(1) sessions_okD(5) [OF assms(3) a(2)] by (auto simp: continues_def active_on_def ACTIVE_STATES_def)
    then show ?thesis using save_ok [OF assms(3), of "s\<lparr>ss_model_config := Some config\<rparr>"] a(2) configure Some
      by (auto simp: update_model_config_def Let_def)
  qed (use configure assms(3) in \<open>simp add: update_model_config_def\<close>)
next
  case (recover now rs)
  have "ss_started_at s \<noteq> None" if "s \<in> set (select_where (stuck now) (bk_sessions b))" for s
    using that sessions_okD(2,5) [OF assms(3)] by auto
  moreover have rs: "rs = map (\<lambda>s. mark_session_error s (''Session stuck in '' @ stream_state_value (ss_state s) @ '' state''))
      (select_where (stuck now) (bk_sessions b))" and b': "b' = fold (save now) rs b"
    using recover by (auto simp: recover_stuck_sessions_def Let_def)
  ultimately have "ss_started_at s \<noteq> None \<and> ss_state s = S_ERROR \<and> ss_error_message s \<noteq> None" if "s \<in> set rs" for s
    using that unfolding rs set_map image_iff by (elim bexE) simp
  then show ?thesis unfolding b' by (rule fold_save_ok [OF assms(3)])
qed

lemma sstep_star_ok: "(sstep ord)\<^sup>*\<^sup>* b b' \<Longrightarrow> orders_desc ord \<Longrightarrow> sessions_ok b \<Longrightarrow> sessions_ok b'"
  by (induction rule: rtranclp_induct) (auto intro: sstep_ok)

section \<open>Stopping\<close>

lemma get_active_session_unique:
  assumes "orders_desc ord" "sessions_ok b" "dget (bk_sessions b) k = Some s" "active_on device_id s"
  shows "get_active_session ord device_id b = Some s"
proof -
  obtain t where t: "get_active_session ord device_id b = Some t"
    using get_active_session_None [OF assms(1,2), of device_id] assms(3,4) by fastforce
  note a = get_active_session_Some [OF assms(1,2) t]
  have "ss_id t = k"
    using sessions_okD(3) [OF assms(2)] assms(3,4) a unfolding one_active_def active_on_def by blast
  then show ?thesis using t a(2) assms(3) by simp
qed

text \<open>What a stop does to an active session, by its state, the answer of VAS and \<open>force\<close>.\<close>

definition stop_outcome :: "real \<Rightarrow> uuid \<Rightarrow> bool \<Rightarrow> vas_error option \<Rightarrow> StreamSession \<Rightarrow> (stream_error + StreamSession) \<times> StreamSession option" where
  "stop_outcome now device_id force answer s =
     (if \<not> force \<and> ss_state s \<noteq> S_LIVE
      then (Inl (StreamStateTransitionError (ss_id s) (stream_state_value (ss_state s)) ''stopping''), None)
      else case answer of
        None \<Rightarrow> (Inr (stopped now s), Some (stopped now s))
      | Some e \<Rightarrow>
          if force \<or> (\<exists>m. e = VASNotFoundError m) then (Inr (stopped now s), Some (stopped now s))
          else (Inl (StreamStopError device_id (vas_message e)), Some (mark_session_error s (''VAS stop error: '' @ vas_message e))))"

lemma stopping_absorbed [simp]:
  "stopped now (s\<lparr>ss_state := t\<rparr>) = stopped now s" "mark_session_error (s\<lparr>ss_state := t\<rparr>) x = mark_session_error s x"
  by (simp_all add: stopped_def mark_session_error_def)

lemma to_stopping: "ss_state s \<in> set ACTIVE_STATES \<Longrightarrow> transition_state s S_STOPPING =
    (if ss_state s = S_LIVE then Inr (s\<lparr>ss_state := S_STOPPING\<rparr>)
     else Inl (StreamStateTransitionError (ss_id s) (stream_state_value (ss_state s)) ''stopping''))"
  by (auto simp: transition_state_def VALID_TRANSITIONS_def ACTIVE_STATES_def dget_or_def)

lemma stop_stream_eq:
  assumes "get_active_session ord device_id b = Some s" "dget (bk_devices b) device_id = Some d" "ss_state s \<in> set ACTIVE_STATES"
  shows "stop_stream ord now vas_stop device_id force b =
    (case stop_outcome now device_id force (vas_stop (dv_vas_device_id d)) s of
       (r, None) \<Rightarrow> (r, b) | (r, Some s') \<Rightarrow> (r, save now s' b))"
proof (cases "\<not> force \<and> ss_state s \<noteq> S_LIVE")
  case True
  then show ?thesis using assms by (simp add: stop_stream_def stop_outcome_def get_device_def to_stopping)
next
  case False
  then have "\<exists>t. (if force then Inr s else transition_state s S_STOPPING) = Inr (s\<lparr>ss_state := t\<rparr>)"
    using assms(3) by (auto simp: to_stopping intro: exI [of _ "ss_state s"])
  then obtain t where t: "(if force then Inr s else transition_state s S_STOPPING) = Inr (s\<lparr>ss_state := t\<rparr>)" by blast
  show ?thesis
    unfolding stop_stream_def assms(1) get_device_def assms(2) option.case sum.case t
    using False by (auto simp: stop_outcome_def split: option.split vas_error.split)
qed

section \<open>Bulk status\<close>

text \<open>
  What VAS documents of its listing: it filters by camera and cuts at the limit, or it fails. The bulk
  query sees every stream when there are at most 100, and a camera has at most one.
\<close>

definition vas_consistent :: "vas_listing \<Rightarrow> bool" where
  "vas_consistent vas_get_streams \<longleftrightarrow>
     (\<forall>c l. \<exists>e. vas_get_streams c l = Inl e) \<or>
     (\<exists>vs. (\<forall>c l. vas_get_streams c l = Inr (take l (case c of None \<Rightarrow> vs | Some x \<Rightarrow> filter (\<lambda>v. vs_camera_id v = Some x) vs))) \<and>
        length vs \<le> 100 \<and> distinct (map vs_camera_id vs) \<and> None \<notin> vs_camera_id ` set vs)"

lemma stream_by_camera_get:
  "dget (fold (\<lambda>v m. dput (camera_text v) v m) vs m) x =
   (case filter (\<lambda>v. camera_text v = x) vs of [] \<Rightarrow> dget m x | v # rest \<Rightarrow> Some (last (v # rest)))"
proof (induction vs arbitrary: m)
  case (Cons v vs)
  show ?case
    by (cases "filter (\<lambda>v. camera_text v = x) vs"; cases "camera_text v = x") (simp_all add: Cons.IH)
qed simp

lemma filter_distinct_single:
  assumes "distinct (map f vs)" "v \<in> set vs" "f v = x"
  shows "filter (\<lambda>w. f w = x) vs = [v]"
  using assms
proof (induction vs)
  case (Cons w ws)
  show ?case
  proof (cases "w = v")
    case True
    then have "f u \<noteq> x" if "u \<in> set ws" for u using Cons.prems(1,3) that by (force simp: image_iff)
    then have "filter (\<lambda>u. f u = x) ws = []" by (simp add: filter_empty_conv)
    then show ?thesis using True Cons.prems(3) by simp
  next
    case False
    then have "v \<in> set ws" "f w \<noteq> x" using Cons.prems by auto
    then show ?thesis using Cons.IH Cons.prems by simp
  qed
qed simp

lemma camera_filter:
  assumes "None \<notin> vs_camera_id ` set vs"
  shows "filter (\<lambda>v. camera_text v = x) vs = filter (\<lambda>v. vs_camera_id v = Some x) vs"
proof (rule filter_cong [OF refl])
  fix v assume "v \<in> set vs"
  then have "vs_camera_id v \<noteq> None" using assms by (metis image_eqI)
  then show "camera_text v = x \<longleftrightarrow> vs_camera_id v = Some x" by (auto simp: camera_text_def)
qed

text \<open>What both ways of asking learn about the stream of a camera.\<close>

definition camera_stream :: "vas_listing \<Rightarrow> string \<Rightarrow> VASStream option" where
  "camera_stream vas x = (case vas (Some x) 1 of Inr (v # _) \<Rightarrow> Some v | _ \<Rightarrow> None)"

lemma bulk_camera:
  assumes "vas_consistent vas"
  shows "dget (case vas None 100 of Inl e \<Rightarrow> [] | Inr vs \<Rightarrow> stream_by_camera vs) x = camera_stream vas x"
proof -
  consider "\<forall>c l. \<exists>e. vas c l = Inl e"
    | vs where "\<And>c l. vas c l = Inr (take l (case c of None \<Rightarrow> vs | Some x \<Rightarrow> filter (\<lambda>v. vs_camera_id v = Some x) vs))"
      "length vs \<le> 100" "distinct (map vs_camera_id vs)" "None \<notin> vs_camera_id ` set vs"
    using assms unfolding vas_consistent_def by blast
  then show ?thesis
  proof cases
    case 1
    then obtain e e' where "vas None 100 = Inl e" "vas (Some x) 1 = Inl e'" by blast
    then show ?thesis by (simp add: camera_stream_def)
  next
    case (2 vs)
    have l: "vas None 100 = Inr vs" using 2(1,2) by simp
    have f: "filter (\<lambda>v. vs_camera_id v = Some x) vs = [] \<or> (\<exists>v. filter (\<lambda>v. vs_camera_id v = Some x) vs = [v])"
      using filter_distinct_single [OF 2(3), of _ "Some x"] by (cases "\<exists>v\<in>set vs. vs_camera_id v = Some x") (auto simp: filter_empty_conv)
    then show ?thesis unfolding l stream_by_camera_def stream_by_camera_get camera_filter [OF 2(4)] sum.case
      by (auto simp: camera_stream_def 2(1))
  qed
qed

lemma session_by_device_get:
  "dget (fold (\<lambda>s m. if dget m (ss_device_id s) = None then dput (ss_device_id s) s m else m) ss m) x =
   (case dget m x of Some s \<Rightarrow> Some s | None \<Rightarrow> (case filter (\<lambda>s. ss_device_id s = x) ss of [] \<Rightarrow> None | s # _ \<Rightarrow> Some s))"
  by (induction ss arbitrary: m) (auto split: option.split)

lemma bulk_session:
  assumes "orders_desc ord" "sessions_ok b" "device_id \<in> set ids"
  shows "dget (session_by_device (ord started_key (select_where
           (\<lambda>s. ss_device_id s \<in> set ids \<and> ss_state s \<in> set ACTIVE_STATES) (bk_sessions b)))) device_id =
    get_active_session ord device_id b"
proof -
  let ?rows = "ord started_key (select_where (\<lambda>s. ss_device_id s \<in> set ids \<and> ss_state s \<in> set ACTIVE_STATES) (bk_sessions b))"
  have rows: "set ?rows = {s. (ss_device_id s \<in> set ids \<and> ss_state s \<in> set ACTIVE_STATES) \<and> (\<exists>k. dget (bk_sessions b) k = Some s)}"
    using set_ordered [OF assms(1)] sessions_okD(2) [OF assms(2)] by simp
  show ?thesis
  proof (cases "filter (\<lambda>s. ss_device_id s = device_id) ?rows")
    case Nil
    then have "get_active_session ord device_id b = None"
      using rows assms(3) get_active_session_None [OF assms(1,2)] by (force simp: filter_empty_conv active_on_def)
    then show ?thesis using Nil by (simp add: session_by_device_def session_by_device_get)
  next
    case (Cons s rest)
    then have "s \<in> set ?rows" "ss_device_id s = device_id" by (auto simp: filter_eq_Cons_iff)
    then have "get_active_session ord device_id b = Some s"
      using rows get_active_session_unique [OF assms(1,2)] by (auto simp: active_on_def)
    then show ?thesis using Cons by (simp add: session_by_device_def session_by_device_get)
  qed
qed

lemma bulk_fold_get:
  assumes "distinct (map dv_id devices)" "d \<in> set devices"
  shows "dget (fold (\<lambda>d out. dput (dv_id d) (f d) out) devices out) (dv_id d) = Some (f d)"
  using assms
proof (induction devices arbitrary: out)
  case (Cons x xs)
  have "dget (fold (\<lambda>d out. dput (dv_id d) (f d) out) xs m) k = dget m k" if "k \<notin> dv_id ` set xs" for m k
    using that by (induction xs arbitrary: m) simp_all
  then show ?case using Cons by (cases "d = x") auto
qed simp

lemma combined_status_eq:
  "get_combined_status ord vas device_id x b =
   build_status (get_active_session ord device_id b)
     (case camera_stream vas x of None \<Rightarrow> False | Some v \<Rightarrow> vs_state v = ''live'') (map_option vs_id (camera_stream vas x))"
  by (simp add: get_combined_status_def camera_stream_def Let_def split: sum.split list.split)

lemma bulk_eq:
  assumes "orders_desc ord" "sessions_ok b" "vas_consistent vas" "distinct (map dv_id devices)" "d \<in> set devices"
  shows "dget (get_combined_status_bulk ord vas devices b) (dv_id d) =
    Some (get_combined_status ord vas (dv_id d) (dv_vas_device_id d) b)"
proof -
  have ne: "devices \<noteq> []" and i: "dv_id d \<in> set (map dv_id devices)" using assms(5) by auto
  show ?thesis
    unfolding get_combined_status_bulk_def Let_def bulk_camera [OF assms(3)] combined_status_eq
    using ne bulk_session [OF assms(1,2) i] by (simp only: bulk_fold_get [OF assms(4,5)] if_False)
qed

section \<open>Starting\<close>

lemma start_route_effect:
  assumes "db_request (start_inference_route ord now n vas_start device_id opts) b = (r, b')"
    "orders_desc ord" "sessions_ok b" "dget (bk_sessions b) n = None"
  shows "(case r of
      Inl e \<Rightarrow> b' = b
    | Inr resp \<Rightarrow> \<exists>s. dget (bk_sessions b') (sr_session_id resp) = Some s \<and> active_on device_id s \<and>
        (b' = b \<or> sr_session_id resp = n \<and> ss_state s = S_LIVE \<and>
          (\<forall>k. k \<noteq> n \<longrightarrow> dget (bk_sessions b') k = dget (bk_sessions b) k)))"
proof (cases "get_active_session ord device_id b")
  case (Some s)
  note a = get_active_session_Some [OF assms(2,3) Some]
  obtain t where t: "ss_started_at s = Some t" using sessions_okD(5) [OF assms(3) a(2)] by blast
  then have e: "start_response s = Inr \<lparr>sr_session_id = ss_id s, sr_device_id = ss_device_id s, sr_state = stream_state_value (ss_state s),
                      sr_model_id = ss_model_id s, sr_started_at = t\<rparr>" by (simp add: start_response_def)
  show ?thesis using assms(1) Some a by (auto simp: db_request_def start_inference_route_def e)
next
  case None
  show ?thesis
  proof (cases "start_stream ord now n vas_start device_id opts b")
    case (Pair r0 b0)
    show ?thesis
    proof (cases r0)
      case (Inl e)
      then show ?thesis using assms(1) None Pair by (auto simp: db_request_def start_inference_route_def)
    next
      case (Inr s)
      then obtain d where d: "start_session now n vas_start device_id opts d b = (Inr s, b0)"
        using Pair by (auto simp: start_stream_def split: sum.splits)
      then obtain i where s: "s = live_session (new_session now n device_id opts) i"
        and b0: "b0 = save now s (save now (new_session now n device_id opts) b)"
        by (cases rule: start_session_cases) auto
      have "ss_updated_at s = now" "ss_id s = n" by (simp_all add: s live_session_def)
      then have g: "dget (bk_sessions b0) n = Some s" "\<forall>k. k \<noteq> n \<longrightarrow> dget (bk_sessions b0) k = dget (bk_sessions b) k"
        using assms(4) unfolding b0 save_get by auto
      have e: "start_response s = Inr \<lparr>sr_session_id = n, sr_device_id = device_id, sr_state = stream_state_value S_LIVE,
                      sr_model_id = ss_model_id s, sr_started_at = now\<rparr>" by (simp add: start_response_def s)
      have "active_on device_id s" "ss_state s = S_LIVE" by (simp_all add: s active_on_def ACTIVE_STATES_def)
      then show ?thesis using assms(1) None Pair Inr g by (auto simp: db_request_def start_inference_route_def e)
    qed
  qed
qed

text \<open>The checks of two requests can both pass before either inserts its row.\<close>

lemma start_race:
  assumes "start_checks ord device_id b = Inr d" "dget (bk_sessions b) m = None" "dget (bk_sessions b) n = None" "m \<noteq> n"
    "vas_start (dv_vas_device_id d) = Inr i"
  shows "\<not> one_active (snd (start_session now n vas_start device_id opts d (snd (start_session now m vas_start device_id opts d b))))"
proof -
  let ?s = "\<lambda>k. live_session (new_session now k device_id opts) i"
  let ?b1 = "snd (start_session now m vas_start device_id opts d b)"
  have st: "snd (start_session now k vas_start device_id opts d c) = save now (?s k) (save now (new_session now k device_id opts) c)" for k c
    using assms(5) by (simp add: start_session_def Let_def transition_state_def VALID_TRANSITIONS_def dget_or_def live_session_def)
  have u: "?s k\<lparr>ss_updated_at := now\<rparr> = ?s k" for k by (simp add: live_session_def)
  have g: "dget (bk_sessions (snd (start_session now k vas_start device_id opts d c))) l = (if l = k then Some (?s k) else dget (bk_sessions c) l)" for k c l
    unfolding st save_get using u by simp
  show ?thesis
    unfolding one_active_def
  proof (intro notI)
    assume "\<forall>k l s t. dget (bk_sessions (snd (start_session now n vas_start device_id opts d ?b1))) k = Some s \<longrightarrow>
      dget (bk_sessions (snd (start_session now n vas_start device_id opts d ?b1))) l = Some t \<longrightarrow>
      ss_state s \<in> set ACTIVE_STATES \<longrightarrow> ss_state t \<in> set ACTIVE_STATES \<longrightarrow> ss_device_id s = ss_device_id t \<longrightarrow> k = l"
    from this [rule_format, of m "?s m" n "?s n"] assms(4) show False by (simp add: g ACTIVE_STATES_def)
  qed
qed

text \<open>The route documented as idempotent fails when there is nothing to stop.\<close>

lemma stop_route_without_session:
  "get_active_session ord device_id b = None \<Longrightarrow> stop_inference_route ord now device_id b = (Inl (500, ''ValidationError''), b)"
  by (simp add: stop_inference_route_def stop_response_def)

section \<open>Properties\<close>

definition demo_camera_row :: "uuid \<Rightarrow> string \<Rightarrow> Device" where
  "demo_camera_row i x =
     \<lparr>dv_id = i, dv_vas_device_id = x, dv_name = x, dv_description = None, dv_location = None, dv_manway = None,
      dv_in_out = None, dv_display_name = None, dv_is_active = True, dv_last_synced_at = None\<rparr>"

definition demo_options :: start_options where
  "demo_options = \<lparr>so_model_id = ''fall_detection'', so_model_version = None, so_inference_fps = 10,
     so_confidence_threshold = 7 / 10, so_model_config = None\<rparr>"

definition demo_live :: StreamSession where "demo_live = live_session (new_session 5 40 1 demo_options) (Some ''v2'')"

definition demo_idle :: Backend where
  "demo_idle = \<lparr>bk_devices = [(1, demo_camera_row 1 ''a''), (2, demo_camera_row 2 ''b'')], bk_sessions = [], bk_events = [],
     bk_violations = [], bk_evidence = []\<rparr>"

definition demo_running :: Backend where "demo_running = demo_idle\<lparr>bk_sessions := [(40, demo_live)]\<rparr>"

lemma demo_ok: "sessions_ok demo_idle" "sessions_ok demo_running"
  by (auto simp: sessions_ok_def one_active_def demo_idle_def demo_running_def demo_live_def table_wf_def dict_wf_def split: if_splits)

lemma demo_start: "start_stream stable_desc 5 40 (\<lambda>_. Inr (Some ''v2'')) 1 demo_options demo_idle = (Inr demo_live, demo_running)"
  by (simp add: start_stream_def start_checks_def start_session_def get_device_def get_active_session_def select_latest_def
      select_where_def stable_desc_def demo_idle_def demo_running_def demo_live_def save_def transition_state_def
      VALID_TRANSITIONS_def dget_or_def live_session_def new_session_def Let_def)

lemma demo_active_session: "get_active_session stable_desc 1 demo_running = Some demo_live"
  by (simp add: get_active_session_def select_latest_def select_where_def stable_desc_def demo_running_def active_on_def
      demo_live_def ACTIVE_STATES_def)

text \<open>
  C9. Sessions stay in order. Whatever sequence of starts, stops, reported failures, configuration changes and
  recoveries runs, one request after the other, from a table in order: no camera has two active sessions, every
  session has a start time, a stopped session has a stop time and a failed one a message.
\<close>

theorem sessions_stay_ok:
  assumes "orders_desc ord" "sessions_ok b" "(sstep ord)\<^sup>*\<^sup>* b b'"
  shows "one_active b' \<and>
    (\<forall>k s. dget (bk_sessions b') k = Some s \<longrightarrow> ss_id s = k \<and> ss_started_at s \<noteq> None \<and>
       (ss_state s = S_STOPPED \<longrightarrow> ss_stopped_at s \<noteq> None) \<and> (ss_state s = S_ERROR \<longrightarrow> ss_error_message s \<noteq> None))"
proof -
  have ok: "sessions_ok b'" by (rule sstep_star_ok [OF assms(3,1,2)])
  then show ?thesis using sessions_okD(4) [OF ok] by (simp add: sessions_ok_def)
qed

theorem sessions_stay_ok_witness:
  "(sstep stable_desc)\<^sup>*\<^sup>* demo_idle demo_running \<and> bk_sessions demo_running = [(40, demo_live)] \<and> one_active demo_running"
proof -
  have "sstep stable_desc demo_idle demo_running"
    by (rule sstep.start [OF _ demo_start]) (simp add: demo_idle_def)
  then have r: "(sstep stable_desc)\<^sup>*\<^sup>* demo_idle demo_running" by (rule r_into_rtranclp)
  show ?thesis using sessions_stay_ok [OF stable_desc_orders demo_ok(1) r] r by (simp add: demo_running_def)
qed

text \<open>
  Stopping a stream, case by case. For an active session of a known camera the stop does what
  \<open>stop_outcome\<close> says: without force only a live session can be stopped, one that is starting or already
  stopping is refused and nothing changes; VAS not knowing the stream counts as stopped; another failure of
  VAS marks the session failed and is reported; with force the session ends stopped whatever VAS answers.
\<close>

theorem stop_stream_outcome:
  assumes "orders_desc ord" "sessions_ok b" "dget (bk_devices b) device_id = Some d"
    "dget (bk_sessions b) k = Some s" "active_on device_id s"
  shows "stop_stream ord now vas_stop device_id force b =
    (case stop_outcome now device_id force (vas_stop (dv_vas_device_id d)) s of
       (r, None) \<Rightarrow> (r, b) | (r, Some s') \<Rightarrow> (r, save now s' b))"
  using get_active_session_unique [OF assms(1,2,4,5)] assms(3,5) unfolding active_on_def
  by (intro stop_stream_eq) simp_all

theorem stop_stream_outcome_witness:
  "fst (stop_stream stable_desc 9 (\<lambda>_. Some (VASConnectionError ''down'')) 1 True demo_running) = Inr (stopped 9 demo_live) \<and>
   fst (stop_stream stable_desc 9 (\<lambda>_. Some (VASConnectionError ''down'')) 1 False demo_running) = Inl (StreamStopError 1 ''down'')"
proof -
  have a: "dget (bk_devices demo_running) 1 = Some (demo_camera_row 1 ''a'')" "dget (bk_sessions demo_running) 40 = Some demo_live"
    "active_on 1 demo_live"
    by (simp_all add: demo_running_def demo_idle_def active_on_def demo_live_def ACTIVE_STATES_def)
  show ?thesis
    using stop_stream_outcome [OF stable_desc_orders demo_ok(2) a, of 9 "\<lambda>_. Some (VASConnectionError ''down'')"]
    by (simp add: stop_outcome_def demo_live_def)
qed

text \<open>
  The bulk status is the status of each device. When VAS answers as documented, lists at most 100 streams
  and at most one for a camera, or is not reachable at all, the entry of the bulk query for each
  device is what the query for that device alone returns.
\<close>

theorem bulk_status_agrees:
  assumes "orders_desc ord" "sessions_ok b" "vas_consistent vas" "distinct (map dv_id devices)" "d \<in> set devices"
  shows "dget (get_combined_status_bulk ord vas devices b) (dv_id d) =
    Some (get_combined_status ord vas (dv_id d) (dv_vas_device_id d) b)"
  by (rule bulk_eq [OF assms])

definition demo_vas :: vas_listing where
  "demo_vas c l = Inr (take l (case c of None \<Rightarrow> [\<lparr>vs_id = ''v2'', vs_camera_id = Some ''a'', vs_state = ''live''\<rparr>]
     | Some x \<Rightarrow> filter (\<lambda>v. vs_camera_id v = Some x) [\<lparr>vs_id = ''v2'', vs_camera_id = Some ''a'', vs_state = ''live''\<rparr>]))"

theorem bulk_status_agrees_witness:
  "map_option st_stream_id (dget (get_combined_status_bulk stable_desc demo_vas [demo_camera_row 1 ''a'', demo_camera_row 2 ''b''] demo_running) 1) =
     Some (Some ''v2'')"
proof -
  have v: "vas_consistent demo_vas"
    unfolding vas_consistent_def demo_vas_def
    by (intro disjI2 exI [of _ "[\<lparr>vs_id = ''v2'', vs_camera_id = Some ''a'', vs_state = ''live''\<rparr>]"]) simp
  have d: "distinct (map dv_id [demo_camera_row 1 ''a'', demo_camera_row 2 ''b''])"
    "demo_camera_row 1 ''a'' \<in> set [demo_camera_row 1 ''a'', demo_camera_row 2 ''b'']"
    by (simp_all add: demo_camera_row_def)
  have e: "dv_id (demo_camera_row 1 ''a'') = 1" "dv_vas_device_id (demo_camera_row 1 ''a'') = ''a''" by (simp_all add: demo_camera_row_def)
  have "st_stream_id (get_combined_status stable_desc demo_vas 1 ''a'' demo_running) = Some ''v2''"
    by (simp add: get_combined_status_def demo_vas_def demo_active_session build_status_def truthy_str_def del: One_nat_def)
  then show ?thesis using bulk_status_agrees [OF stable_desc_orders demo_ok(2) v d] unfolding e by simp
qed

text \<open>
  A start request is all or nothing. Under the transaction of the request, when the response is an error the
  tables are as before, so the session that the service marks failed is not kept; otherwise
  the response names an active session of the camera, which was there before and nothing changed, or is the
  one new row, live, and no other session changed.
\<close>

theorem start_request_atomic:
  assumes "db_request (start_inference_route ord now n vas_start device_id opts) b = (r, b')"
    "orders_desc ord" "sessions_ok b" "dget (bk_sessions b) n = None"
  shows "(case r of
      Inl e \<Rightarrow> b' = b
    | Inr resp \<Rightarrow> \<exists>s. dget (bk_sessions b') (sr_session_id resp) = Some s \<and> active_on device_id s \<and>
        (b' = b \<or> sr_session_id resp = n \<and> ss_state s = S_LIVE \<and>
          (\<forall>k. k \<noteq> n \<longrightarrow> dget (bk_sessions b') k = dget (bk_sessions b) k)))"
  by (rule start_route_effect [OF assms])

theorem start_request_atomic_witness:
  "\<exists>r b'. db_request (start_inference_route stable_desc 5 40 (\<lambda>_. Inl (VASRTSPError ''no route'')) 1 demo_options) demo_idle = (r, b') \<and>
     r = Inl (502, ''stream_start_failed'') \<and> b' = demo_idle"
proof -
  let ?q = "db_request (start_inference_route stable_desc 5 40 (\<lambda>_. Inl (VASRTSPError ''no route'')) 1 demo_options) demo_idle"
  have f: "fst ?q = Inl (502, ''stream_start_failed'')"
    by (simp add: db_request_def start_inference_route_def start_stream_def start_checks_def start_session_def get_device_def
        get_active_session_def select_latest_def select_where_def stable_desc_def demo_idle_def Let_def)
  have "dget (bk_sessions demo_idle) 40 = None" by (simp add: demo_idle_def)
  from start_request_atomic [OF surjective_pairing stable_desc_orders demo_ok(1) this, of 5 "\<lambda>_. Inl (VASRTSPError ''no route'')" 1 demo_options]
  have "snd ?q = demo_idle" using f by simp
  with f show ?thesis by (intro exI [of _ "fst ?q"] exI [of _ "snd ?q"]) (simp add: prod_eq_iff)
qed

end
