(* ===== verification/EventIngestion.thy ===== *)
theory EventIngestion
  imports DeviceService ViolationService StreamService
begin

text \<open>
  \<open>ruth-ai-backend/app/services/event_ingestion_service.py\<close> with the result types of
  \<open>schemas/inference.py\<close>: the result of an inference becomes events of the table, one for each detection, and
  the actionable ones are handed to the violation service. The services it uses are those of
  \<open>DeviceService\<close>, \<open>StreamService\<close> and \<open>ViolationService\<close>; the identifiers of new rows and the outcome of
  the flush are parameters.
\<close>

section \<open>Inference results\<close>

datatype InferenceStatus = IS_COMPLETED | IS_FAILED | IS_TIMEOUT

record IngestBox =
  bb_x :: real
  bb_y :: real
  bb_width :: real
  bb_height :: real
  bb_confidence :: real

record IngestDetection =
  dt_detection_id :: string
  dt_class_name :: string
  dt_confidence :: real
  dt_bounding_box :: "IngestBox option"

record IngestResponse =
  in_request_id :: uuid
  in_stream_id :: uuid
  in_device_id :: "uuid option"
  in_status :: InferenceStatus
  in_timestamp :: real
  in_model_id :: string
  in_model_version :: "string option"
  in_detections :: "IngestDetection list"
  in_inference_time_ms :: "real option"
  in_error :: "string option"

definition has_detections :: "IngestResponse \<Rightarrow> bool" where
  "has_detections r \<longleftrightarrow> length (in_detections r) > 0"

definition max_confidence :: "IngestResponse \<Rightarrow> real" where
  "max_confidence r = (if in_detections r = [] then 0 else Max (set (map dt_confidence (in_detections r))))"

definition DETECTION_CLASS_TO_EVENT_TYPE :: "(string, EventType) dict" where
  "DETECTION_CLASS_TO_EVENT_TYPE =
     [(''fall_detected'', E_FALL_DETECTED), (''fall'', E_FALL_DETECTED), (''no_fall'', E_NO_FALL),
      (''person_detected'', E_PERSON_DETECTED), (''person'', E_PERSON_DETECTED)]"

definition ACTIONABLE_EVENT_TYPES :: "EventType list" where
  "ACTIONABLE_EVENT_TYPES = [E_FALL_DETECTED, E_PPE_VIOLATION]"

datatype event_error = InferenceFailedError uuid string | EventDeviceMissingError uuid | EventSessionMissingError uuid uuid
  | EventRaises py_error

section \<open>Events of a result\<close>

definition map_detection_to_event_type :: "string \<Rightarrow> EventType" where
  "map_detection_to_event_type class_name =
     dget_or DETECTION_CLASS_TO_EVENT_TYPE (py_strip (py_lower class_name)) E_UNKNOWN"

text \<open>\<open>int(x) if x else None\<close>\<close>

definition whole_ms :: "real option \<Rightarrow> int option" where
  "whole_ms t = (case t of None \<Rightarrow> None | Some x \<Rightarrow> if x = 0 then None else Some (if 0 \<le> x then \<lfloor>x\<rfloor> else \<lceil>x\<rceil>))"

definition boxes_of :: "IngestDetection \<Rightarrow> jval option" where
  "boxes_of d =
     (case dt_bounding_box d of
        None \<Rightarrow> None
      | Some bb \<Rightarrow> Some (JList [JDict [(''x'', JReal (bb_x bb)), (''y'', JReal (bb_y bb)), (''width'', JReal (bb_width bb)),
            (''height'', JReal (bb_height bb)), (''label'', JStr (dt_class_name d)), (''confidence'', JReal (dt_confidence d))]]))"

definition version_or_unknown :: "string option \<Rightarrow> string" where
  "version_or_unknown v = (if truthy_str v then the v else ''unknown'')"

definition event_from_detection :: "(uuid \<Rightarrow> string) \<Rightarrow> uuid \<Rightarrow> IngestDetection \<Rightarrow> IngestResponse \<Rightarrow> uuid \<Rightarrow> uuid option \<Rightarrow> Event" where
  "event_from_detection show_id new_id d inference device_id session_id =
     \<lparr>ee_id = new_id, ee_device_id = device_id, ee_stream_session_id = session_id, ee_violation_id = None,
      ee_event_type = map_detection_to_event_type (dt_class_name d), ee_confidence = dt_confidence d,
      ee_timestamp = in_timestamp inference, ee_model_id = in_model_id inference, ee_model_version = version_or_unknown (in_model_version inference),
      ee_bounding_boxes = boxes_of d, ee_frame_id = Some (show_id (in_request_id inference)),
      ee_inference_time_ms = whole_ms (in_inference_time_ms inference)\<rparr>"

definition no_detection_event :: "(uuid \<Rightarrow> string) \<Rightarrow> uuid \<Rightarrow> IngestResponse \<Rightarrow> uuid \<Rightarrow> uuid option \<Rightarrow> Event" where
  "no_detection_event show_id new_id inference device_id session_id =
     \<lparr>ee_id = new_id, ee_device_id = device_id, ee_stream_session_id = session_id, ee_violation_id = None,
      ee_event_type = E_NO_FALL, ee_confidence = 1 - max_confidence inference,
      ee_timestamp = in_timestamp inference, ee_model_id = in_model_id inference, ee_model_version = version_or_unknown (in_model_version inference),
      ee_bounding_boxes = None, ee_frame_id = Some (show_id (in_request_id inference)),
      ee_inference_time_ms = whole_ms (in_inference_time_ms inference)\<rparr>"

section \<open>Resolution\<close>

definition resolve_device :: "(uuid \<Rightarrow> string) \<Rightarrow> StreamSession ordering \<Rightarrow> IngestResponse \<Rightarrow> Backend \<Rightarrow> event_error + uuid" where
  "resolve_device show_id sord inference b =
     (case in_device_id inference of
        Some i \<Rightarrow>
          (case get_device_by_id show_id i False (bk_devices b) of
             Inl e \<Rightarrow> Inl (EventDeviceMissingError i) | Inr d \<Rightarrow> Inr (dv_id d))
      | None \<Rightarrow>
          (case get_active_session sord (in_stream_id inference) b of
             Some s \<Rightarrow> Inr (ss_device_id s) | None \<Rightarrow> Inl (EventDeviceMissingError (in_stream_id inference))))"

definition resolve_session ::
  "StreamSession ordering \<Rightarrow> bool \<Rightarrow> uuid \<Rightarrow> IngestResponse \<Rightarrow> Backend \<Rightarrow> event_error + StreamSession option" where
  "resolve_session sord require_active_session device_id inference b =
     (case get_active_session sord device_id b of
        None \<Rightarrow> if require_active_session then Inl (EventSessionMissingError device_id (in_stream_id inference)) else Inr None
      | Some s \<Rightarrow> Inr (Some s))"

section \<open>Threshold and delegation\<close>

definition should_trigger_violation :: "real \<Rightarrow> Event \<Rightarrow> bool" where
  "should_trigger_violation confidence_threshold e \<longleftrightarrow>
     (if ee_event_type e \<notin> set ACTIONABLE_EVENT_TYPES then False else confidence_threshold \<le> ee_confidence e)"

definition is_above_threshold :: "real \<Rightarrow> real \<Rightarrow> bool" where
  "is_above_threshold confidence_threshold c \<longleftrightarrow> confidence_threshold \<le> c"

text \<open>The violation service, for the \<open>n\<close>-th event it is given. Its failures are logged.\<close>

type_synonym violation_call = "nat \<Rightarrow> Event \<Rightarrow> Backend \<Rightarrow> (violation_error + Violation option) \<times> Backend"

fun delegate_each :: "violation_call \<Rightarrow> real \<Rightarrow> nat \<Rightarrow> Event list \<Rightarrow> Backend \<Rightarrow> Backend" where
  "delegate_each create_violation threshold n [] b = b"
| "delegate_each create_violation threshold n (e # es) b =
     (if should_trigger_violation threshold e
      then (case create_violation n e b of
              (Inl x, b1) \<Rightarrow> delegate_each create_violation threshold (Suc n) es b1
            | (Inr v, b1) \<Rightarrow> delegate_each create_violation threshold (Suc n) es b1)
      else delegate_each create_violation threshold (Suc n) es b)"

definition delegate_violations :: "violation_call option \<Rightarrow> real \<Rightarrow> Event list \<Rightarrow> Backend \<Rightarrow> Backend" where
  "delegate_violations violation_service threshold es b =
     (case violation_service of None \<Rightarrow> b | Some create_violation \<Rightarrow> delegate_each create_violation threshold 0 es b)"

section \<open>Ingestion\<close>

definition add_event :: "Event \<Rightarrow> Backend \<Rightarrow> Backend" where
  "add_event e b = put_event e b"

definition event_now :: "Backend \<Rightarrow> Event \<Rightarrow> Event" where
  "event_now b e = (case dget (bk_events b) (ee_id e) of None \<Rightarrow> e | Some e' \<Rightarrow> e')"

definition events_of :: "(uuid \<Rightarrow> string) \<Rightarrow> (nat \<Rightarrow> uuid) \<Rightarrow> IngestResponse \<Rightarrow> uuid \<Rightarrow> uuid option \<Rightarrow> Event list" where
  "events_of show_id new_id inference device_id session_id =
     (if has_detections inference
      then map (\<lambda>(n, d). event_from_detection show_id (new_id n) d inference device_id session_id) (List.enumerate 0 (in_detections inference))
      else [no_detection_event show_id (new_id 0) inference device_id session_id])"

definition ingest_inference_result ::
  "(uuid \<Rightarrow> string) \<Rightarrow> StreamSession ordering \<Rightarrow> (nat \<Rightarrow> uuid) \<Rightarrow> py_error option \<Rightarrow> violation_call option \<Rightarrow> real \<Rightarrow> bool \<Rightarrow>
   IngestResponse \<Rightarrow> Backend \<Rightarrow> (event_error + Event list) \<times> Backend" where
  "ingest_inference_result show_id sord new_id flush violation_service threshold require_active_session inference b =
     (if in_status inference = IS_FAILED
      then (Inl (InferenceFailedError (in_request_id inference)
                  (if truthy_str (in_error inference) then the (in_error inference) else ''Unknown error'')), b)
      else if in_status inference = IS_TIMEOUT then (Inl (InferenceFailedError (in_request_id inference) ''Inference timed out''), b)
      else case resolve_device show_id sord inference b of
        Inl e \<Rightarrow> (Inl e, b)
      | Inr device_id \<Rightarrow>
          (case resolve_session sord require_active_session device_id inference b of
             Inl e \<Rightarrow> (Inl e, b)
           | Inr session \<Rightarrow>
               (let es = events_of show_id new_id inference device_id (map_option ss_id session)
                in case flush of
                     Some x \<Rightarrow> (Inl (EventRaises x), b)
                   | None \<Rightarrow>
                       (let b2 = delegate_violations violation_service threshold es (fold add_event es b)
                        in (Inr (map (event_now b2) es), b2)))))"

definition manual_event ::
  "uuid \<Rightarrow> uuid \<Rightarrow> EventType \<Rightarrow> real \<Rightarrow> real \<Rightarrow> uuid option \<Rightarrow> string \<Rightarrow> string \<Rightarrow> jval option \<Rightarrow> string option \<Rightarrow> Event" where
  "manual_event new_id device_id event_type confidence timestamp session_id model_id model_version boxes frame_id =
     \<lparr>ee_id = new_id, ee_device_id = device_id, ee_stream_session_id = session_id, ee_violation_id = None,
      ee_event_type = event_type, ee_confidence = confidence, ee_timestamp = timestamp, ee_model_id = model_id,
      ee_model_version = model_version, ee_bounding_boxes = boxes, ee_frame_id = frame_id, ee_inference_time_ms = None\<rparr>"

definition persist_event ::
  "(uuid \<Rightarrow> string) \<Rightarrow> py_error option \<Rightarrow> violation_call option \<Rightarrow> real \<Rightarrow> Event \<Rightarrow> Backend \<Rightarrow> (event_error + Event) \<times> Backend" where
  "persist_event show_id flush violation_service threshold e b =
     (case get_device_by_id show_id (ee_device_id e) False (bk_devices b) of
        Inl x \<Rightarrow> (Inl (EventDeviceMissingError (ee_device_id e)), b)
      | Inr _ \<Rightarrow>
          (case flush of
             Some x \<Rightarrow> (Inl (EventRaises x), b)
           | None \<Rightarrow>
               (let b1 = add_event e b;
                    b2 = delegate_violations violation_service threshold [e] b1
                in (Inr (event_now b2 e), b2))))"

section \<open>Queries\<close>

definition get_event_by_id :: "uuid \<Rightarrow> Backend \<Rightarrow> Event option" where
  "get_event_by_id event_id b = dget (bk_events b) event_id"

definition get_events_for_device :: "Event ordering \<Rightarrow> uuid \<Rightarrow> real option \<Rightarrow> int \<Rightarrow> Backend \<Rightarrow> py_error + Event list" where
  "get_events_for_device eord device_id since limit b =
     sql_limit limit (eord ee_timestamp (select_where
       (\<lambda>e. ee_device_id e = device_id \<and> (case since of None \<Rightarrow> True | Some t \<Rightarrow> t \<le> ee_timestamp e)) (bk_events b)))"

definition get_actionable_events_for_device ::
  "Event ordering \<Rightarrow> real \<Rightarrow> uuid \<Rightarrow> real option \<Rightarrow> int \<Rightarrow> Backend \<Rightarrow> py_error + Event list" where
  "get_actionable_events_for_device eord threshold device_id since limit b =
     sql_limit limit (eord ee_timestamp (select_where
       (\<lambda>e. ee_device_id e = device_id \<and> ee_event_type e \<in> set ACTIONABLE_EVENT_TYPES \<and> threshold \<le> ee_confidence e \<and>
            (case since of None \<Rightarrow> True | Some t \<Rightarrow> t \<le> ee_timestamp e)) (bk_events b)))"

section \<open>Delegation to the violation service\<close>

definition violation_call_of ::
  "Violation ordering \<Rightarrow> (Event \<Rightarrow> Backend \<Rightarrow> py_error + Device option) \<Rightarrow> (nat \<Rightarrow> py_error option) \<Rightarrow> snapshot_call option \<Rightarrow>
   (nat \<Rightarrow> uuid) \<Rightarrow> violation_call" where
  "violation_call_of vord load_device flush evidence_service vid n e b =
     process_event vord (load_device e b) (flush n) evidence_service (vid n) e b"

text \<open>Events that come to a violation.\<close>

definition reaches :: "real \<Rightarrow> Event \<Rightarrow> bool" where
  "reaches threshold e \<longleftrightarrow> ee_event_type e = E_FALL_DETECTED \<and> threshold \<le> ee_confidence e"

lemma reaches_iff:
  "reaches threshold e \<longleftrightarrow> should_trigger_violation threshold e \<and> map_event_to_violation_type (ee_event_type e) \<noteq> None"
  by (cases "ee_event_type e") (auto simp: reaches_def should_trigger_violation_def ACTIONABLE_EVENT_TYPES_def
      map_event_to_violation_type_def EVENT_TYPE_TO_VIOLATION_TYPE_def)

lemma process_event_some:
  assumes "ee_violation_id e = None" "map_event_to_violation_type (ee_event_type e) \<noteq> None"
  shows "\<exists>v b'. process_event vord (Inr d) None svc n e b = (Inr (Some v), b')"
  using assms by (auto simp: process_event_def attach_event_to_violation_def create_violation_from_event_def Let_def split: option.split)

text \<open>One event handed to the service: its row, the other rows, the keys of the violations.\<close>

lemma process_one:
  assumes "process_event vord (Inr d) None svc n e b = (r, b')" "orders_desc vord" "vs_inv b"
    "dget (bk_events b) (ee_id e) = Some e" "ee_violation_id e = None" "dget (bk_violations b) n = None"
  shows "vs_inv b'" "\<And>i. i \<noteq> ee_id e \<Longrightarrow> dget (bk_events b') i = dget (bk_events b) i"
    "\<And>k. k \<noteq> n \<Longrightarrow> dget (bk_violations b) k = None \<Longrightarrow> dget (bk_violations b') k = None"
    "if map_event_to_violation_type (ee_event_type e) = None then b' = b
     else \<exists>k. dget (bk_events b') (ee_id e) = Some (e\<lparr>ee_violation_id := Some k\<rparr>)"
proof -
  show "vs_inv b'" by (rule vstep_inv [OF vstep.process [OF assms(4,6,1)] assms(2,3)])
  have "(\<forall>i. i \<noteq> ee_id e \<longrightarrow> dget (bk_events b') i = dget (bk_events b) i) \<and>
    (\<forall>k. k \<noteq> n \<longrightarrow> dget (bk_violations b) k = None \<longrightarrow> dget (bk_violations b') k = None) \<and>
    (if map_event_to_violation_type (ee_event_type e) = None then b' = b
     else \<exists>k. dget (bk_events b') (ee_id e) = Some (e\<lparr>ee_violation_id := Some k\<rparr>))"
    using assms(1,2) vs_invD(1) [OF assms(3)]
  proof (cases rule: process_cases)
    case same
    have "map_event_to_violation_type (ee_event_type e) = None"
    proof (rule ccontr)
      assume "map_event_to_violation_type (ee_event_type e) \<noteq> None"
      from process_event_some [OF assms(5) this, of vord d svc n b] obtain v b0
        where "process_event vord (Inr d) None svc n e b = (Inr (Some v), b0)" by blast
      with assms(1) same(2) show False by auto
    qed
    with same(1) show ?thesis by simp
  qed auto
  then show "\<And>i. i \<noteq> ee_id e \<Longrightarrow> dget (bk_events b') i = dget (bk_events b) i"
    "\<And>k. k \<noteq> n \<Longrightarrow> dget (bk_violations b) k = None \<Longrightarrow> dget (bk_violations b') k = None"
    "if map_event_to_violation_type (ee_event_type e) = None then b' = b
     else \<exists>k. dget (bk_events b') (ee_id e) = Some (e\<lparr>ee_violation_id := Some k\<rparr>)"
    by blast+
qed

lemma delegate_each_effect:
  assumes "orders_desc vord" "inj vid" "\<And>e b. \<exists>d. load_device e b = Inr d"
    "vs_inv b" "\<And>m. n \<le> m \<Longrightarrow> dget (bk_violations b) (vid m) = None" "distinct (map ee_id es)"
    "\<And>e. e \<in> set es \<Longrightarrow> dget (bk_events b) (ee_id e) = Some e \<and> ee_violation_id e = None"
  shows "vs_inv (delegate_each (violation_call_of vord load_device (\<lambda>_. None) svc vid) threshold n es b) \<and>
    (\<forall>e\<in>set es. \<exists>k. dget (bk_events (delegate_each (violation_call_of vord load_device (\<lambda>_. None) svc vid) threshold n es b)) (ee_id e) =
       Some (if reaches threshold e then e\<lparr>ee_violation_id := Some k\<rparr> else e)) \<and>
    (\<forall>i. i \<notin> ee_id ` set es \<longrightarrow>
       dget (bk_events (delegate_each (violation_call_of vord load_device (\<lambda>_. None) svc vid) threshold n es b)) i = dget (bk_events b) i)"
  using assms(4-7)
proof (induction es arbitrary: n b)
  case (Cons e es)
  let ?f = "violation_call_of vord load_device (\<lambda>_. None) svc vid"
  have e: "dget (bk_events b) (ee_id e) = Some e" "ee_violation_id e = None" using Cons.prems(4) [of e] by simp_all
  obtain b1 where step: "delegate_each ?f threshold n (e # es) b = delegate_each ?f threshold (Suc n) es b1"
    and b1: "vs_inv b1" "\<And>i. i \<noteq> ee_id e \<Longrightarrow> dget (bk_events b1) i = dget (bk_events b) i"
      "\<And>m. Suc n \<le> m \<Longrightarrow> dget (bk_violations b1) (vid m) = None"
      "\<exists>k. dget (bk_events b1) (ee_id e) = Some (if reaches threshold e then e\<lparr>ee_violation_id := Some k\<rparr> else e)"
  proof (cases "should_trigger_violation threshold e")
    case False
    then show thesis using that [of b] Cons.prems(1,2) e(1) by (simp add: reaches_iff)
  next
    case True
    obtain d where d: "load_device e b = Inr d" using assms(3) by blast
    obtain r b1 where p: "process_event vord (Inr d) None svc (vid n) e b = (r, b1)" by fastforce
    note o = process_one [OF p assms(1) Cons.prems(1) e Cons.prems(2) [OF order_refl]]
    have "dget (bk_violations b1) (vid m) = None" if "Suc n \<le> m" for m
      using that o(3) Cons.prems(2) [of m] assms(2) by (auto simp: inj_eq)
    moreover have "\<exists>k. dget (bk_events b1) (ee_id e) = Some (if reaches threshold e then e\<lparr>ee_violation_id := Some k\<rparr> else e)"
      using o(4) True e(1) by (auto simp: reaches_iff split: if_splits)
    ultimately show thesis using that [of b1] o(1,2) True p d by (simp add: violation_call_of_def split: sum.split)
  qed
  have ne: "ee_id x \<noteq> ee_id e" if "x \<in> set es" for x using that Cons.prems(3) by (auto simp: image_iff)
  have "dget (bk_events b1) (ee_id x) = Some x \<and> ee_violation_id x = None" if "x \<in> set es" for x
    using that ne [OF that] b1(2) Cons.prems(4) [of x] by simp
  from Cons.IH [OF b1(1,3) _ this] Cons.prems(3) have ih: "vs_inv (delegate_each ?f threshold (Suc n) es b1) \<and>
    (\<forall>x\<in>set es. \<exists>k. dget (bk_events (delegate_each ?f threshold (Suc n) es b1)) (ee_id x) =
       Some (if reaches threshold x then x\<lparr>ee_violation_id := Some k\<rparr> else x)) \<and>
    (\<forall>i. i \<notin> ee_id ` set es \<longrightarrow> dget (bk_events (delegate_each ?f threshold (Suc n) es b1)) i = dget (bk_events b1) i)"
    by simp
  moreover have "ee_id e \<notin> ee_id ` set es" using Cons.prems(3) by simp
  ultimately show ?case unfolding step using b1(2,4) by simp
qed simp

section \<open>What ingestion does\<close>

definition event_kinds :: "IngestResponse \<Rightarrow> (EventType \<times> real) list" where
  "event_kinds inference =
     (if in_detections inference = [] then [(E_NO_FALL, 1)]
      else map (\<lambda>d. (map_detection_to_event_type (dt_class_name d), dt_confidence d)) (in_detections inference))"

lemma map_enumerate:
  "map (\<lambda>p. f (snd p)) (List.enumerate k ds) = map f ds" "map (\<lambda>p. g (fst p)) (List.enumerate k ds) = map g [k..<k + length ds]"
  using arg_cong [OF map_snd_enumerate [of k ds], of "map f"] arg_cong [OF map_fst_enumerate [of k ds], of "map g"]
  unfolding map_map comp_def by blast+

lemma events_of_kinds:
  "map (\<lambda>e. (ee_event_type e, ee_confidence e)) (events_of show_id new_id inference dev sess) = event_kinds inference"
  using map_enumerate(1) [of "\<lambda>d. (map_detection_to_event_type (dt_class_name d), dt_confidence d)" 0 "in_detections inference"]
  by (simp add: events_of_def event_kinds_def has_detections_def comp_def case_prod_unfold no_detection_event_def max_confidence_def
      event_from_detection_def)

lemma events_of_ids:
  "map ee_id (events_of show_id new_id inference dev sess) = map new_id [0..<max 1 (length (in_detections inference))]"
proof (cases "in_detections inference")
  case (Cons d ds)
  then have "max 1 (length (in_detections inference)) = 0 + length (in_detections inference)" by simp
  then show ?thesis using Cons map_enumerate(2) [of new_id 0 "in_detections inference"]
    by (simp add: events_of_def has_detections_def comp_def case_prod_unfold event_from_detection_def)
qed (simp add: events_of_def has_detections_def no_detection_event_def)

lemma events_of_fields:
  "e \<in> set (events_of show_id new_id inference dev sess) \<Longrightarrow>
   ee_violation_id e = None \<and> ee_device_id e = dev \<and> ee_stream_session_id e = sess \<and> ee_frame_id e = Some (show_id (in_request_id inference)) \<and>
   ee_timestamp e = in_timestamp inference"
  by (auto simp: events_of_def no_detection_event_def event_from_detection_def split: if_splits)

lemma filter_absent: "x \<notin> f ` set es \<Longrightarrow> filter (\<lambda>y. f y = x) es = []"
  by (auto simp: filter_empty_conv)

lemma fold_add_get:
  "distinct (map ee_id es) \<Longrightarrow>
   dget (bk_events (fold add_event es b)) i = (case filter (\<lambda>e. ee_id e = i) es of [] \<Rightarrow> dget (bk_events b) i | e # _ \<Rightarrow> Some e)"
proof (induction es arbitrary: b)
  case (Cons e es)
  then have "filter (\<lambda>x. ee_id x = ee_id e) es = []" by (intro filter_absent) simp
  with Cons show ?case by (auto simp: add_event_def split: list.split)
qed simp

lemma fold_add_inv:
  "vs_inv b \<Longrightarrow> distinct (map ee_id es) \<Longrightarrow> (\<And>e. e \<in> set es \<Longrightarrow> dget (bk_events b) (ee_id e) = None \<and> ee_violation_id e = None) \<Longrightarrow>
   vs_inv (fold add_event es b) \<and> bk_violations (fold add_event es b) = bk_violations b"
proof (induction es arbitrary: b)
  case (Cons e es)
  have "vs_inv (add_event e b)" using vs_inv_ingest [OF Cons.prems(1)] Cons.prems(3) [of e] by (simp add: add_event_def)
  moreover have "dget (bk_events (add_event e b)) (ee_id x) = None \<and> ee_violation_id x = None" if "x \<in> set es" for x
  proof -
    have "ee_id x \<noteq> ee_id e" using that Cons.prems(2) by (force simp: image_iff)
    then show ?thesis using that Cons.prems(3) [of x] by (simp add: add_event_def)
  qed
  ultimately show ?case using Cons.IH [of "add_event e b"] Cons.prems(2) by (simp add: add_event_def)
qed simp

lemma fold_add_member:
  assumes "distinct (map ee_id es)" "e \<in> set es"
  shows "dget (bk_events (fold add_event es b)) (ee_id e) = Some e"
proof -
  have "filter (\<lambda>x. ee_id x = ee_id e) es = [e]" by (rule filter_distinct_single [OF assms refl])
  then show ?thesis using fold_add_get [OF assms(1)] by simp
qed

text \<open>What is established of an event once a result is ingested.\<close>

definition settled :: "real \<Rightarrow> Backend \<Rightarrow> Event \<Rightarrow> bool" where
  "settled threshold b e \<longleftrightarrow> dget (bk_events b) (ee_id e) = Some e \<and>
     (if reaches threshold e
      then \<exists>k v. ee_violation_id e = Some k \<and> dget (bk_violations b) k = Some v \<and> fits e v
      else ee_violation_id e = None)"

lemma settled_now:
  assumes "vs_inv b" "dget (bk_events b) (ee_id e) = Some (if reaches threshold e then e\<lparr>ee_violation_id := Some k\<rparr> else e)"
    "ee_violation_id e = None"
  shows "settled threshold b (event_now b e)" "ee_id (event_now b e) = ee_id e" "ee_event_type (event_now b e) = ee_event_type e"
    "ee_confidence (event_now b e) = ee_confidence e"
proof -
  have n: "event_now b e = (if reaches threshold e then e\<lparr>ee_violation_id := Some k\<rparr> else e)" using assms(2) by (simp add: event_now_def)
  then show s: "ee_id (event_now b e) = ee_id e" "ee_event_type (event_now b e) = ee_event_type e" "ee_confidence (event_now b e) = ee_confidence e"
    by simp_all
  have r: "reaches threshold (event_now b e) = reaches threshold e" using s by (simp add: reaches_def)
  have g: "dget (bk_events b) (ee_id (event_now b e)) = Some (event_now b e)" using assms(2) n s(1) by simp
  show "settled threshold b (event_now b e)"
  proof (cases "reaches threshold e")
    case True
    then have "ee_violation_id (event_now b e) = Some k" by (simp add: n)
    then show ?thesis using vs_invD(2) [OF assms(1) g] g True r by (simp add: settled_def)
  qed (use g r n assms(3) in \<open>simp add: settled_def\<close>)
qed

lemma ingest_effect:
  assumes "orders_desc vord" "inj vid" "\<And>e b. \<exists>d. load_device e b = Inr d" "inj new_id" "vs_inv b"
    "\<And>n. dget (bk_violations b) (vid n) = None" "\<And>n. dget (bk_events b) (new_id n) = None"
    "in_status inference = IS_COMPLETED" "resolve_device show_id sord inference b = Inr dev"
    "resolve_session sord require_active dev inference b = Inr sess"
  shows "\<exists>es b'. ingest_inference_result show_id sord new_id None
      (Some (violation_call_of vord load_device (\<lambda>_. None) svc vid)) threshold require_active inference b = (Inr es, b') \<and>
    vs_inv b' \<and> map (\<lambda>e. (ee_event_type e, ee_confidence e)) es = event_kinds inference \<and>
    (\<forall>e\<in>set es. settled threshold b' e) \<and>
    (\<forall>i. i \<notin> range new_id \<longrightarrow> dget (bk_events b') i = dget (bk_events b) i)"
proof -
  let ?es = "events_of show_id new_id inference dev (map_option ss_id sess)"
  let ?call = "violation_call_of vord load_device (\<lambda>_. None) svc vid"
  let ?b1 = "fold add_event ?es b"
  let ?b2 = "delegate_each ?call threshold 0 ?es ?b1"
  have d: "distinct (map ee_id ?es)"
    unfolding events_of_ids distinct_map using inj_on_subset [OF assms(4) subset_UNIV] distinct_upt by blast
  have ids: "ee_id e \<in> range new_id" if "e \<in> set ?es" for e
    using arg_cong [OF events_of_ids, of set show_id new_id inference dev "map_option ss_id sess"] that by auto
  have fresh: "dget (bk_events b) (ee_id e) = None \<and> ee_violation_id e = None" if "e \<in> set ?es" for e
    using ids [OF that] assms(7) events_of_fields [OF that] by auto
  note add = fold_add_inv [OF assms(5) d fresh]
  have vf: "dget (bk_violations ?b1) (vid m) = None" for m using add assms(6) by simp
  have row: "dget (bk_events ?b1) (ee_id e) = Some e \<and> ee_violation_id e = None" if "e \<in> set ?es" for e
    using fold_add_member [OF d that] fresh [OF that] by simp
  note del = delegate_each_effect [where load_device = load_device and n = 0 and svc = svc and threshold = threshold,
      OF assms(1-3) conjunct1 [OF add] vf d row]
  have run: "ingest_inference_result show_id sord new_id None (Some ?call) threshold require_active inference b =
      (Inr (map (event_now ?b2) ?es), ?b2)"
    using assms(8-10) by (simp add: ingest_inference_result_def Let_def delegate_violations_def)
  have now: "settled threshold ?b2 (event_now ?b2 e) \<and> ee_event_type (event_now ?b2 e) = ee_event_type e \<and>
      ee_confidence (event_now ?b2 e) = ee_confidence e" if m: "e \<in> set ?es" for e
  proof -
    obtain k where "dget (bk_events ?b2) (ee_id e) = Some (if reaches threshold e then e\<lparr>ee_violation_id := Some k\<rparr> else e)"
      using del m by blast
    then show ?thesis using settled_now [OF conjunct1 [OF del]] fresh [OF m] by blast
  qed
  then have "map (\<lambda>e. (ee_event_type e, ee_confidence e)) (map (event_now ?b2) ?es) = event_kinds inference"
    unfolding events_of_kinds [of show_id new_id inference dev "map_option ss_id sess", symmetric] by simp
  moreover have "dget (bk_events ?b2) i = dget (bk_events b) i" if "i \<notin> range new_id" for i
  proof -
    have n: "i \<notin> ee_id ` set ?es" using ids that by blast
    then have "filter (\<lambda>e. ee_id e = i) ?es = []" by (auto simp: filter_empty_conv)
    then show ?thesis using del n fold_add_get [OF d, of b i] by simp
  qed
  moreover have "\<forall>e\<in>set (map (event_now ?b2) ?es). settled threshold ?b2 e" unfolding set_map using now by blast
  ultimately show ?thesis using run conjunct1 [OF del]
    by (intro exI [of _ "map (event_now ?b2) ?es"] exI [of _ ?b2] conjI allI impI)
qed

section \<open>Properties\<close>

text \<open>
  C6. From detections to violations. When an inference completed and its camera and session are found, ingestion
  returns one event for each detection, with its type and confidence in order (one event that nothing
  happened when there is none); all are rows of the table and no other event changed; an event of a fall at or
  above the threshold is attached to a violation of its camera, session and type with at least its
  confidence, every other event to none; and the tables of events and violations stay consistent.
\<close>

theorem ingestion_reaches_violations:
  assumes "orders_desc vord" "inj vid" "\<And>e b. \<exists>d. load_device e b = Inr d" "inj new_id" "vs_inv b"
    "\<And>n. dget (bk_violations b) (vid n) = None" "\<And>n. dget (bk_events b) (new_id n) = None"
    "in_status inference = IS_COMPLETED" "resolve_device show_id sord inference b = Inr dev"
    "resolve_session sord require_active dev inference b = Inr sess"
  shows "\<exists>es b'. ingest_inference_result show_id sord new_id None
      (Some (violation_call_of vord load_device (\<lambda>_. None) svc vid)) threshold require_active inference b = (Inr es, b') \<and>
    vs_inv b' \<and> map (\<lambda>e. (ee_event_type e, ee_confidence e)) es = event_kinds inference \<and>
    (\<forall>e\<in>set es. settled threshold b' e) \<and>
    (\<forall>i. i \<notin> range new_id \<longrightarrow> dget (bk_events b') i = dget (bk_events b) i)"
  by (rule ingest_effect [OF assms])

definition demo_result :: IngestResponse where
  "demo_result = \<lparr>in_request_id = 100, in_stream_id = 1, in_device_id = Some 1, in_status = IS_COMPLETED, in_timestamp = 6,
     in_model_id = ''fall_detection'', in_model_version = Some ''1.0.0'',
     in_detections = [\<lparr>dt_detection_id = [], dt_class_name = ''fall'', dt_confidence = 9 / 10, dt_bounding_box = None\<rparr>,
       \<lparr>dt_detection_id = [], dt_class_name = ''person'', dt_confidence = 8 / 10, dt_bounding_box = None\<rparr>],
     in_inference_time_ms = None, in_error = None\<rparr>"

theorem ingestion_reaches_violations_witness:
  "\<exists>es b'. ingest_inference_result (\<lambda>_. []) stable_desc (\<lambda>n. n + 70) None
      (Some (violation_call_of stable_desc (\<lambda>_ _. Inr None) (\<lambda>_. None) None (\<lambda>n. n + 90))) (7 / 10) True demo_result demo_running = (Inr es, b') \<and>
    map (\<lambda>e. (ee_event_type e, ee_confidence e)) es = [(E_FALL_DETECTED, 9 / 10), (E_PERSON_DETECTED, 8 / 10)] \<and>
    (\<forall>e\<in>set es. settled (7 / 10) b' e)"
proof -
  have b: "vs_inv demo_running" "\<And>n. dget (bk_violations demo_running) (n + 90) = None" "\<And>n. dget (bk_events demo_running) (n + 70) = None"
    by (simp_all add: vs_inv_def vs_wf_def demo_running_def demo_idle_def)
  have i: "inj (\<lambda>n. n + 90 :: nat)" "inj (\<lambda>n. n + 70 :: nat)" by (simp_all add: inj_def)
  have d: "resolve_device (\<lambda>_. []) stable_desc demo_result demo_running = Inr 1"
    by (simp add: resolve_device_def demo_result_def get_device_by_id_def require_def demo_running_def demo_idle_def demo_camera_row_def)
  have s: "resolve_session stable_desc True 1 demo_result demo_running = Inr (Some demo_live)"
    by (simp add: resolve_session_def demo_active_session del: One_nat_def)
  have c: "in_status demo_result = IS_COMPLETED" by (simp add: demo_result_def)
  have k: "event_kinds demo_result = [(E_FALL_DETECTED, 9 / 10), (E_PERSON_DETECTED, 8 / 10)]"
    by (simp add: event_kinds_def demo_result_def map_detection_to_event_type_def dget_or_def DETECTION_CLASS_TO_EVENT_TYPE_def
        py_lower_def lower_ascii_def is_upper_def py_strip_def is_space_def)
  have l: "\<exists>d. (\<lambda>(_ :: Event) (_ :: Backend). Inr None) e b = (Inr d :: py_error + Device option)" for e b by simp
  from ingestion_reaches_violations [where load_device = "\<lambda>_ _. Inr None" and svc = None and threshold = "7 / 10",
      OF stable_desc_orders i(1) l i(2) b c d s]
  obtain es b' where r: "ingest_inference_result (\<lambda>_. []) stable_desc (\<lambda>n. n + 70) None
      (Some (violation_call_of stable_desc (\<lambda>_ _. Inr None) (\<lambda>_. None) None (\<lambda>n. n + 90))) (7 / 10) True demo_result demo_running = (Inr es, b')"
    "map (\<lambda>e. (ee_event_type e, ee_confidence e)) es = event_kinds demo_result" "\<forall>e\<in>set es. settled (7 / 10) b' e"
    by (elim exE conjE)
  show ?thesis by (intro exI [of _ es] exI [of _ b'] conjI r(1,3)) (simp only: r(2) k)
qed

text \<open>
  A result that cannot be ingested leaves no trace. When the inference failed or timed out, the camera is
  unknown, a required session is missing or the flush fails, the error is reported and no table changes;
  failures of the violation service are never reported.
\<close>

theorem rejected_result_changes_nothing:
  assumes "ingest_inference_result show_id sord new_id flush violation_service threshold require_active inference b = (Inl e, b')"
  shows "b' = b \<and> (in_status inference \<noteq> IS_COMPLETED \<and> (\<exists>m. e = InferenceFailedError (in_request_id inference) m) \<or>
    (\<exists>d. e = EventDeviceMissingError d) \<or> require_active \<and> (\<exists>d. e = EventSessionMissingError d (in_stream_id inference)) \<or>
    (\<exists>x. flush = Some x \<and> e = EventRaises x))"
  using assms by (cases "in_status inference")
    (auto simp: ingest_inference_result_def resolve_device_def resolve_session_def Let_def split: option.splits sum.splits if_splits)

theorem rejected_result_changes_nothing_witness:
  "\<exists>e. ingest_inference_result (\<lambda>_. []) stable_desc (\<lambda>n. n) None None 0 True demo_result demo_idle = (Inl e, demo_idle)"
proof -
  obtain e b' where r: "ingest_inference_result (\<lambda>_. []) stable_desc (\<lambda>n. n) None None 0 True demo_result demo_idle = (Inl e, b')"
    by (simp add: ingest_inference_result_def demo_result_def resolve_device_def get_device_by_id_def require_def demo_idle_def
        demo_camera_row_def resolve_session_def get_active_session_def select_latest_def select_where_def stable_desc_def)
  with rejected_result_changes_nothing [OF r] show ?thesis by auto
qed

section \<open>Observations\<close>

text \<open>The classes of the protective equipment model come to events of an unknown type, which never act.\<close>

lemma equipment_is_unknown:
  "map_detection_to_event_type ''missing_vest'' = E_UNKNOWN" "map_detection_to_event_type ''ppe_violation'' = E_UNKNOWN"
  by (simp_all add: map_detection_to_event_type_def dget_or_def DETECTION_CLASS_TO_EVENT_TYPE_def
        py_lower_def lower_ascii_def is_upper_def py_strip_def is_space_def)

text \<open>An event of a violation of protective equipment would be handed over and ignored.\<close>

lemma equipment_event_ignored:
  "ee_event_type e = E_PPE_VIOLATION \<Longrightarrow> threshold \<le> ee_confidence e \<Longrightarrow>
   should_trigger_violation threshold e \<and> process_event vord load_device flush svc n e b = (Inr None, b)"
  by (auto simp: should_trigger_violation_def ACTIONABLE_EVENT_TYPES_def process_event_def map_event_to_violation_type_def
      EVENT_TYPE_TO_VIOLATION_TYPE_def)

end
