(* ===== verification/EvidenceService.thy ===== *)
theory EvidenceService
  imports StreamService ViolationService
begin

text \<open>
  \<open>ruth-ai-backend/app/services/evidence_service.py\<close>: snapshots and clips for violations. The database
  session does not flush by itself (\<open>autoflush=False\<close>), and this service depends on it, so a session is kept
  as the flushed rows and the objects in memory: a query selects on the rows and returns the objects,
  \<open>refresh\<close> overwrites an object by its row. Parameters are the answers of VAS, the clock, identifiers of new
  rows, and what other sessions commit while this one polls.
\<close>

section \<open>States and errors\<close>

definition EV_VALID_TRANSITIONS :: "(EvidenceStatus, EvidenceStatus list) dict" where
  "EV_VALID_TRANSITIONS =
     [(ES_PENDING, [ES_PROCESSING, ES_FAILED]), (ES_PROCESSING, [ES_READY, ES_FAILED]), (ES_READY, []), (ES_FAILED, [])]"

definition EV_TERMINAL_STATES :: "EvidenceStatus list" where "EV_TERMINAL_STATES = [ES_READY, ES_FAILED]"

definition DEFAULT_SNAPSHOT_TIMEOUT :: real where "DEFAULT_SNAPSHOT_TIMEOUT = 30"
definition DEFAULT_BOOKMARK_TIMEOUT :: real where "DEFAULT_BOOKMARK_TIMEOUT = 60"

datatype evidence_error = EvidenceNotFoundError uuid | EvidenceAlreadyExistsError uuid EvidenceType uuid
  | NoActiveStreamError uuid uuid | EvidenceVASError uuid string | EvidenceTerminalStateError uuid EvidenceStatus
  | EvidenceStateError uuid EvidenceStatus EvidenceStatus | EvidencePollingTimeoutError uuid real
  | EvidenceCreationError string | EvidenceViolationNotFoundError uuid | EvidenceRaises py_error

definition ev_terminal :: "Evidence \<Rightarrow> bool" where
  "ev_terminal e \<longleftrightarrow> ev_status e \<in> set EV_TERMINAL_STATES"

definition ev_is_valid_transition :: "EvidenceStatus \<Rightarrow> EvidenceStatus \<Rightarrow> bool" where
  "ev_is_valid_transition current target \<longleftrightarrow>
     (if current \<in> set EV_TERMINAL_STATES then False else target \<in> set (dget_or EV_VALID_TRANSITIONS current []))"

definition mark_evidence_failed :: "Evidence \<Rightarrow> string \<Rightarrow> Evidence" where
  "mark_evidence_failed e message = e\<lparr>ev_status := ES_FAILED, ev_error_message := Some (take 1000 message)\<rparr>"

section \<open>A session of the database\<close>

record EvSession =
  es_rows :: "Evidence table"
  es_objs :: "Evidence table"

definition put_obj :: "Evidence \<Rightarrow> EvSession \<Rightarrow> EvSession" where
  "put_obj e s = s\<lparr>es_objs := dput (ev_id e) e (es_objs s)\<rparr>"

definition ev_flush :: "EvSession \<Rightarrow> EvSession" where
  "ev_flush s = s\<lparr>es_rows := dict_update (es_rows s) (es_objs s)\<rparr>"

text \<open>The object for a row of a query result: the one in memory, or a new one.\<close>

definition object_of :: "Evidence \<Rightarrow> EvSession \<Rightarrow> Evidence \<times> EvSession" where
  "object_of r s = (case dget (es_objs s) (ev_id r) of Some o' \<Rightarrow> (o', s) | None \<Rightarrow> (r, put_obj r s))"

section \<open>Creation\<close>

text \<open>\<open>resolve_vas_stream_id\<close>; the second query has no limit.\<close>

definition resolve_vas_stream_id :: "StreamSession table \<Rightarrow> Violation \<Rightarrow> evidence_error + string" where
  "resolve_vas_stream_id sessions v =
     (let own = (case vi_stream_session_id v of None \<Rightarrow> None
                 | Some i \<Rightarrow> (case dget sessions i of None \<Rightarrow> None | Some s \<Rightarrow> ss_vas_stream_id s))
      in if truthy_str own then Inr (the own)
         else case scalar_one_or_none (select_where
                (\<lambda>s. ss_device_id s = vi_device_id v \<and> ss_state s \<in> {S_LIVE, S_STARTING}) sessions) of
           Inl e \<Rightarrow> Inl (EvidenceRaises e)
         | Inr None \<Rightarrow> Inl (NoActiveStreamError (vi_id v) (vi_device_id v))
         | Inr (Some s) \<Rightarrow>
             if truthy_str (ss_vas_stream_id s) then Inr (the (ss_vas_stream_id s))
             else Inl (NoActiveStreamError (vi_id v) (vi_device_id v)))"

definition get_existing_evidence :: "uuid \<Rightarrow> EvidenceType \<Rightarrow> EvSession \<Rightarrow> py_error + Evidence option" where
  "get_existing_evidence violation_id kind s =
     scalar_one_or_none (select_where (\<lambda>e. ev_violation_id e = violation_id \<and> ev_evidence_type e = kind) (es_rows s))"

definition new_evidence :: "real \<Rightarrow> uuid \<Rightarrow> EvidenceType \<Rightarrow> int \<Rightarrow> Violation \<Rightarrow> Evidence" where
  "new_evidence now new_id kind duration v =
     \<lparr>ev_id = new_id, ev_violation_id = vi_id v, ev_evidence_type = kind, ev_status = ES_PENDING,
      ev_vas_snapshot_id = None, ev_vas_bookmark_id = None, ev_bookmark_duration_seconds = Some duration,
      ev_requested_at = now, ev_ready_at = None, ev_error_message = None, ev_retry_count = 0, ev_last_retry_at = None\<rparr>"

definition processing :: "string \<Rightarrow> Evidence \<Rightarrow> Evidence" where
  "processing vas_id e =
     (if ev_evidence_type e = EV_SNAPSHOT then e\<lparr>ev_vas_snapshot_id := Some vas_id, ev_status := ES_PROCESSING\<rparr>
      else e\<lparr>ev_vas_bookmark_id := Some vas_id, ev_status := ES_PROCESSING\<rparr>)"

text \<open>The common body of the two operations; \<open>duration\<close> is the value the column gets.\<close>

definition create_evidence ::
  "EvidenceType \<Rightarrow> int \<Rightarrow> real \<Rightarrow> uuid \<Rightarrow> (string \<Rightarrow> vas_error + string) \<Rightarrow> bool \<Rightarrow> StreamSession table \<Rightarrow> Violation \<Rightarrow> EvSession \<Rightarrow>
   (evidence_error + Evidence) \<times> EvSession" where
  "create_evidence kind duration now new_id vas_create allow_existing sessions v s =
     (case get_existing_evidence (vi_id v) kind s of
        Inl e \<Rightarrow> (Inl (EvidenceRaises e), s)
      | Inr (Some r) \<Rightarrow>
          (case object_of r s of
             (e, s1) \<Rightarrow> (if allow_existing then Inr e else Inl (EvidenceAlreadyExistsError (vi_id v) kind (ev_id e)), s1))
      | Inr None \<Rightarrow>
          (case resolve_vas_stream_id sessions v of
             Inl e \<Rightarrow> (Inl e, s)
           | Inr vas_stream_id \<Rightarrow>
               (let e = new_evidence now new_id kind duration v;
                    s1 = ev_flush (put_obj e s)
                in case vas_create vas_stream_id of
                     Inr vas_id \<Rightarrow> (Inr (processing vas_id e), put_obj (processing vas_id e) s1)
                   | Inl (VASStreamNotLiveError m) \<Rightarrow>
                       (Inl (NoActiveStreamError (vi_id v) (vi_device_id v)),
                        put_obj (mark_evidence_failed e (''Stream not live: '' @ m)) s1)
                   | Inl err \<Rightarrow>
                       (Inl (EvidenceVASError (ev_id e) (vas_message err)),
                        put_obj (mark_evidence_failed e (''VAS error: '' @ vas_message err)) s1))))"

definition create_snapshot ::
  "real \<Rightarrow> uuid \<Rightarrow> (string \<Rightarrow> vas_error + string) \<Rightarrow> bool \<Rightarrow> StreamSession table \<Rightarrow> Violation \<Rightarrow> EvSession \<Rightarrow>
   (evidence_error + Evidence) \<times> EvSession" where
  "create_snapshot = create_evidence EV_SNAPSHOT 15"

definition create_bookmark ::
  "int \<Rightarrow> int \<Rightarrow> real \<Rightarrow> uuid \<Rightarrow> (string \<Rightarrow> vas_error + string) \<Rightarrow> bool \<Rightarrow> StreamSession table \<Rightarrow> Violation \<Rightarrow> EvSession \<Rightarrow>
   (evidence_error + Evidence) \<times> EvSession" where
  "create_bookmark before_seconds after_seconds = create_evidence EV_BOOKMARK (before_seconds + after_seconds)"

section \<open>Reading back from VAS\<close>

record VASMedia =
  vm_status :: "string option"
  vm_error :: "string option"

definition sync_evidence_from_vas :: "real \<Rightarrow> (string \<Rightarrow> vas_error + VASMedia) \<Rightarrow> Evidence \<Rightarrow> vas_error + Evidence" where
  "sync_evidence_from_vas now vas_get e =
     (let i = (if ev_evidence_type e = EV_SNAPSHOT then ev_vas_snapshot_id e else ev_vas_bookmark_id e)
      in if \<not> truthy_str i then Inr e
         else case vas_get (the i) of
           Inl x \<Rightarrow> Inl x
         | Inr m \<Rightarrow>
             Inr (if vm_status m = Some ''ready'' then e\<lparr>ev_status := ES_READY, ev_ready_at := Some now\<rparr>
                  else if vm_status m = Some ''failed''
                  then e\<lparr>ev_status := ES_FAILED,
                         ev_error_message := Some (if truthy_str (vm_error m) then the (vm_error m) else ''VAS processing failed'')\<rparr>
                  else e))"

definition sync_evidence_status :: "real \<Rightarrow> (string \<Rightarrow> vas_error + VASMedia) \<Rightarrow> Evidence \<Rightarrow> EvSession \<Rightarrow> (vas_error + unit) \<times> EvSession" where
  "sync_evidence_status now vas_get e s =
     (case sync_evidence_from_vas now vas_get e of Inl x \<Rightarrow> (Inl x, s) | Inr e' \<Rightarrow> (Inr (), put_obj e' s))"

definition get_evidence_by_id :: "uuid \<Rightarrow> EvSession \<Rightarrow> (evidence_error + Evidence) \<times> EvSession" where
  "get_evidence_by_id evidence_id s =
     (case dget (es_rows s) evidence_id of
        None \<Rightarrow> (Inl (EvidenceNotFoundError evidence_id), s)
      | Some r \<Rightarrow> (case object_of r s of (e, s1) \<Rightarrow> (Inr e, s1)))"

text \<open>
  The surroundings of the poll: the \<open>n\<close>-th reading of the clock of the loop, the calendar, the answers of VAS in the
  \<open>n\<close>-th round, and the rows as other sessions leave them before it.
\<close>

record poll_env =
  pe_clock :: "nat \<Rightarrow> real"
  pe_utc :: "nat \<Rightarrow> real"
  pe_vas :: "nat \<Rightarrow> string \<Rightarrow> vas_error + VASMedia"
  pe_others :: "nat \<Rightarrow> Evidence table \<Rightarrow> Evidence table"
  pe_show :: "real \<Rightarrow> string"

partial_function (option) poll_loop ::
  "poll_env \<Rightarrow> real \<Rightarrow> real \<Rightarrow> Evidence \<Rightarrow> nat \<Rightarrow> EvSession \<Rightarrow> ((evidence_error + Evidence) \<times> EvSession) option" where
  "poll_loop env start timeout e n s =
     (if pe_clock env n - start < timeout
      then (let s0 = s\<lparr>es_rows := pe_others env n (es_rows s)\<rparr>
            in case dget (es_rows s0) (ev_id e) of
                 None \<Rightarrow> Some (Inl (EvidenceRaises (RuntimeError ''Could not refresh instance'')), s0)
               | Some e1 \<Rightarrow>
                   if ev_terminal e1 then Some (Inr e1, put_obj e1 s0)
                   else (case sync_evidence_from_vas (pe_utc env n) (pe_vas env n) e1 of
                           Inl (VASNotFoundError _) \<Rightarrow>
                             Some (Inr (mark_evidence_failed e1 ''VAS resource not found''),
                                   put_obj (mark_evidence_failed e1 ''VAS resource not found'') s0)
                         | Inl _ \<Rightarrow> poll_loop env start timeout e1 (Suc n) (put_obj e1 s0)
                         | Inr e2 \<Rightarrow>
                             if ev_terminal e2 then Some (Inr e2, put_obj e2 s0)
                             else poll_loop env start timeout e2 (Suc n) (put_obj e2 s0)))
      else Some (Inl (EvidencePollingTimeoutError (ev_id e) timeout),
                 put_obj (mark_evidence_failed e (''Polling timeout after '' @ pe_show env timeout @ ''s'')) s))"

definition poll_evidence ::
  "poll_env \<Rightarrow> real \<Rightarrow> uuid \<Rightarrow> real option \<Rightarrow> EvSession \<Rightarrow> ((evidence_error + Evidence) \<times> EvSession) option" where
  "poll_evidence env start evidence_id timeout s =
     (case get_evidence_by_id evidence_id s of
        (Inl e, s1) \<Rightarrow> Some (Inl e, s1)
      | (Inr e, s1) \<Rightarrow>
          if ev_terminal e then Some (Inr e, s1)
          else poll_loop env start
                 (case timeout of Some t \<Rightarrow> t
                  | None \<Rightarrow> if ev_evidence_type e = EV_BOOKMARK then DEFAULT_BOOKMARK_TIMEOUT else DEFAULT_SNAPSHOT_TIMEOUT)
                 e 0 s1)"

section \<open>Queries, transitions and retries\<close>

definition get_evidence_for_violation ::
  "Evidence ordering \<Rightarrow> uuid \<Rightarrow> EvidenceType option \<Rightarrow> EvidenceStatus option \<Rightarrow> EvSession \<Rightarrow> Evidence list" where
  "get_evidence_for_violation ord violation_id kind status s =
     map (\<lambda>r. fst (object_of r s)) (ord ev_requested_at (select_where
       (\<lambda>e. ev_violation_id e = violation_id \<and> (case kind of None \<Rightarrow> True | Some k \<Rightarrow> ev_evidence_type e = k) \<and>
            (case status of None \<Rightarrow> True | Some x \<Rightarrow> ev_status e = x)) (es_rows s)))"

definition get_ready_evidence_for_violation :: "Evidence ordering \<Rightarrow> uuid \<Rightarrow> EvSession \<Rightarrow> Evidence list" where
  "get_ready_evidence_for_violation ord violation_id s = get_evidence_for_violation ord violation_id None (Some ES_READY) s"

definition get_pending_evidence :: "Evidence ordering \<Rightarrow> int \<Rightarrow> EvSession \<Rightarrow> py_error + Evidence list" where
  "get_pending_evidence ord limit s =
     (case sql_limit limit (ord (\<lambda>e. - ev_requested_at e) (select_where (\<lambda>e. ev_status e \<in> {ES_PENDING, ES_PROCESSING}) (es_rows s))) of
        Inl x \<Rightarrow> Inl x | Inr rs \<Rightarrow> Inr (map (\<lambda>r. fst (object_of r s)) rs))"

definition ev_transition_status ::
  "real \<Rightarrow> uuid \<Rightarrow> EvidenceStatus \<Rightarrow> string option \<Rightarrow> EvSession \<Rightarrow> (evidence_error + Evidence) \<times> EvSession" where
  "ev_transition_status now evidence_id new_status error_message s =
     (case get_evidence_by_id evidence_id s of
        (Inl x, s1) \<Rightarrow> (Inl x, s1)
      | (Inr e, s1) \<Rightarrow>
          if ev_status e \<in> set EV_TERMINAL_STATES then (Inl (EvidenceTerminalStateError evidence_id (ev_status e)), s1)
          else if new_status \<notin> set (dget_or EV_VALID_TRANSITIONS (ev_status e) [])
          then (Inl (EvidenceStateError evidence_id (ev_status e) new_status), s1)
          else
            (let e1 = e\<lparr>ev_status := new_status\<rparr>;
                 e2 = (if new_status = ES_READY then e1\<lparr>ev_ready_at := Some now\<rparr> else e1);
                 e3 = (if new_status = ES_FAILED \<and> truthy_str error_message
                       then e2\<lparr>ev_error_message := map_option (take 1000) error_message\<rparr> else e2)
             in (Inr e3, put_obj e3 s1)))"

definition retry_failed_evidence ::
  "real \<Rightarrow> (EvidenceType \<Rightarrow> string \<Rightarrow> vas_error + string) \<Rightarrow> uuid \<Rightarrow> int \<Rightarrow> Violation table \<Rightarrow> StreamSession table \<Rightarrow> EvSession \<Rightarrow>
   (evidence_error + Evidence) \<times> EvSession" where
  "retry_failed_evidence now vas_create evidence_id max_retries violations sessions s =
     (case get_evidence_by_id evidence_id s of
        (Inl x, s1) \<Rightarrow> (Inl x, s1)
      | (Inr e, s1) \<Rightarrow>
          if ev_status e \<noteq> ES_FAILED then (Inl (EvidenceCreationError ''Only failed evidence can be retried''), s1)
          else if max_retries \<le> ev_retry_count e
          then (Inl (EvidenceCreationError (''Max retries ('' @ show_int max_retries @ '') exceeded'')), s1)
          else case dget violations (ev_violation_id e) of
            None \<Rightarrow> (Inl (EvidenceViolationNotFoundError (ev_violation_id e)), s1)
          | Some v \<Rightarrow>
              (let e1 = e\<lparr>ev_retry_count := ev_retry_count e + 1, ev_last_retry_at := Some now, ev_error_message := None\<rparr>;
                   s2 = put_obj e1 s1
               in case resolve_vas_stream_id sessions v of
                    Inl x \<Rightarrow> (Inl x, s2)
                  | Inr vas_stream_id \<Rightarrow>
                      (case vas_create (ev_evidence_type e1) vas_stream_id of
                         Inr vas_id \<Rightarrow> (Inr (processing vas_id e1), put_obj (processing vas_id e1) s2)
                       | Inl err \<Rightarrow>
                           (Inl (EvidenceVASError (ev_id e1) (vas_message err)),
                            put_obj (mark_evidence_failed e1 (''Retry failed: '' @ vas_message err)) s2))))"

section \<open>The end of a poll\<close>

text \<open>
  The loop ends when the clock passes the deadline, whatever VAS answers and other sessions do. A returned
  evidence is in a terminal state; a timeout leaves the object failed.
\<close>

definition poll_done :: "uuid \<Rightarrow> real \<Rightarrow> (evidence_error + Evidence) \<times> EvSession \<Rightarrow> bool" where
  "poll_done i timeout res =
     (case res of
        (Inr e, s) \<Rightarrow> ev_terminal e \<and> dget (es_objs s) (ev_id e) = Some e
      | (Inl x, s) \<Rightarrow>
          x = EvidencePollingTimeoutError i timeout \<and> (\<exists>e. dget (es_objs s) i = Some e \<and> ev_status e = ES_FAILED) \<or>
          (\<exists>p. x = EvidenceRaises p))"

lemma put_obj_simps [simp]:
  "es_rows (put_obj e s) = es_rows s" "dget (es_objs (put_obj e s)) i = (if i = ev_id e then Some e else dget (es_objs s) i)"
  by (simp_all add: put_obj_def)

lemma mark_evidence_failed_simps [simp]:
  "ev_id (mark_evidence_failed e m) = ev_id e" "ev_status (mark_evidence_failed e m) = ES_FAILED"
  "ev_violation_id (mark_evidence_failed e m) = ev_violation_id e" "ev_evidence_type (mark_evidence_failed e m) = ev_evidence_type e"
  "ev_terminal (mark_evidence_failed e m)"
  by (simp_all add: mark_evidence_failed_def ev_terminal_def EV_TERMINAL_STATES_def)

lemma processing_simps [simp]:
  "ev_id (processing i e) = ev_id e" "ev_status (processing i e) = ES_PROCESSING"
  "ev_violation_id (processing i e) = ev_violation_id e" "ev_evidence_type (processing i e) = ev_evidence_type e"
  by (simp_all add: processing_def)

lemma new_evidence_simps [simp]:
  "ev_id (new_evidence now i k d v) = i" "ev_status (new_evidence now i k d v) = ES_PENDING"
  "ev_violation_id (new_evidence now i k d v) = vi_id v" "ev_evidence_type (new_evidence now i k d v) = k"
  "ev_vas_snapshot_id (new_evidence now i k d v) = None" "ev_vas_bookmark_id (new_evidence now i k d v) = None"
  "\<not> ev_terminal (new_evidence now i k d v)"
  by (simp_all add: new_evidence_def ev_terminal_def EV_TERMINAL_STATES_def)

lemma sync_keeps_id: "sync_evidence_from_vas now vas_get e = Inr e' \<Longrightarrow> ev_id e' = ev_id e"
  by (auto simp: sync_evidence_from_vas_def Let_def split: if_splits sum.splits)

text \<open>What other sessions commit keeps rows under their identifiers.\<close>

definition others_ok :: "poll_env \<Rightarrow> bool" where
  "others_ok env \<longleftrightarrow> (\<forall>n t. table_wf ev_id t \<longrightarrow> table_wf ev_id (pe_others env n t))"

lemma poll_loop_ends:
  assumes "start + timeout \<le> pe_clock env m" "n \<le> m" "others_ok env" "table_wf ev_id (es_rows s)" "ev_id e = i"
  shows "\<exists>res. poll_loop env start timeout e n s = Some res \<and> poll_done i timeout res"
  using assms
proof (induction "m - n" arbitrary: n e s rule: less_induct)
  case less
  show ?case
  proof (cases "pe_clock env n - start < timeout")
    case False
    then show ?thesis using less.prems(5) by (subst poll_loop.simps) (simp add: poll_done_def)
  next
    case True
    then have "n \<noteq> m" using less.prems(1) by auto
    then have m: "m - Suc n < m - n" "Suc n \<le> m" using less.prems(2) by auto
    define s0 where "s0 = s\<lparr>es_rows := pe_others env n (es_rows s)\<rparr>"
    have wf: "table_wf ev_id (es_rows s0)" using less.prems(3,4) by (simp add: s0_def others_ok_def)
    have go: "\<exists>res. poll_loop env start timeout e' (Suc n) (put_obj e' s0) = Some res \<and> poll_done i timeout res"
      if "ev_id e' = i" for e'
      using less.hyps [OF m(1) less.prems(1) m(2) less.prems(3), of "put_obj e' s0" e'] wf that by simp
    show ?thesis
    proof (cases "dget (es_rows s0) (ev_id e)")
      case None
      then show ?thesis using True by (subst poll_loop.simps) (simp add: poll_done_def s0_def)
    next
      case (Some e1)
      then have i1: "ev_id e1 = i" using table_wfD(2) [OF wf] less.prems(5) by simp
      have body: "poll_loop env start timeout e n s =
          (if ev_terminal e1 then Some (Inr e1, put_obj e1 s0)
           else (case sync_evidence_from_vas (pe_utc env n) (pe_vas env n) e1 of
                   Inl (VASNotFoundError _) \<Rightarrow>
                     Some (Inr (mark_evidence_failed e1 ''VAS resource not found''),
                           put_obj (mark_evidence_failed e1 ''VAS resource not found'') s0)
                 | Inl _ \<Rightarrow> poll_loop env start timeout e1 (Suc n) (put_obj e1 s0)
                 | Inr e2 \<Rightarrow>
                     if ev_terminal e2 then Some (Inr e2, put_obj e2 s0)
                     else poll_loop env start timeout e2 (Suc n) (put_obj e2 s0)))"
        using True Some unfolding s0_def by (subst poll_loop.simps) (simp add: Let_def)
      show ?thesis
      proof (cases "sync_evidence_from_vas (pe_utc env n) (pe_vas env n) e1")
        case (Inl x)
        then show ?thesis using body go [OF i1] by (cases x) (auto simp: poll_done_def)
      next
        case (Inr e2)
        then show ?thesis using body go [of e2] i1 sync_keeps_id [OF Inr] by (auto simp: poll_done_def)
      qed
    qed
  qed
qed

section \<open>Evidence is created once\<close>

definition ev_unique :: "Evidence table \<Rightarrow> bool" where
  "ev_unique t \<longleftrightarrow> table_wf ev_id t \<and>
     (\<forall>k l d e. dget t k = Some d \<longrightarrow> dget t l = Some e \<longrightarrow> ev_violation_id d = ev_violation_id e \<longrightarrow>
        ev_evidence_type d = ev_evidence_type e \<longrightarrow> k = l)"

text \<open>Objects in memory belong to rows and agree with them on what never changes.\<close>

definition session_ok :: "EvSession \<Rightarrow> bool" where
  "session_ok s \<longleftrightarrow> ev_unique (es_rows s) \<and> dict_wf (es_objs s) \<and>
     (\<forall>i o'. dget (es_objs s) i = Some o' \<longrightarrow> ev_id o' = i \<and>
        (\<exists>r. dget (es_rows s) i = Some r \<and> ev_violation_id r = ev_violation_id o' \<and> ev_evidence_type r = ev_evidence_type o'))"

lemma ev_uniqueD:
  assumes "ev_unique t"
  shows "table_wf ev_id t" "dict_wf t" "dget t k = Some e \<Longrightarrow> ev_id e = k"
    "dget t k = Some d \<Longrightarrow> dget t l = Some e \<Longrightarrow> ev_violation_id d = ev_violation_id e \<Longrightarrow>
       ev_evidence_type d = ev_evidence_type e \<Longrightarrow> d = e \<and> k = l"
  using assms unfolding ev_unique_def table_wf_def by (simp_all, metis option.inject)

lemma existing_eq:
  assumes "ev_unique (es_rows s)"
  shows "get_existing_evidence i kind s = Inr None \<longleftrightarrow>
      (\<forall>k e. dget (es_rows s) k = Some e \<longrightarrow> \<not> (ev_violation_id e = i \<and> ev_evidence_type e = kind))"
    "get_existing_evidence i kind s = Inr (Some r) \<longleftrightarrow>
      ev_violation_id r = i \<and> ev_evidence_type r = kind \<and> dget (es_rows s) (ev_id r) = Some r"
    "\<exists>o'. get_existing_evidence i kind s = Inr o'"
proof -
  let ?p = "\<lambda>e. ev_violation_id e = i \<and> ev_evidence_type e = kind"
  let ?q = "select_where ?p (es_rows s)"
  note wf = ev_uniqueD [OF assms]
  have m: "e \<in> set ?q \<longleftrightarrow> ?p e \<and> dget (es_rows s) (ev_id e) = Some e" for e
    using wf(2,3) by (auto dest: wf(3))
  have same: "d = e" if "d \<in> set ?q" "e \<in> set ?q" for d e
    using that m wf(4) by metis
  have c: "?q = [] \<or> (\<exists>e. ?q = [e])"
  proof (cases ?q)
    case (Cons a rest)
    have "e = a" if "e \<in> set rest" for e using same [of e a] that unfolding Cons by simp
    moreover have "a \<notin> set rest" using distinct_rows [OF wf(1), of ?p] unfolding Cons by simp
    ultimately have "rest = []" by (cases rest) auto
    then show ?thesis using Cons by simp
  qed simp
  then show "\<exists>o'. get_existing_evidence i kind s = Inr o'"
    by (auto simp: get_existing_evidence_def scalar_one_or_none_def)
  show "get_existing_evidence i kind s = Inr None \<longleftrightarrow> (\<forall>k e. dget (es_rows s) k = Some e \<longrightarrow> \<not> ?p e)"
    using c m wf(3) by (auto simp: get_existing_evidence_def scalar_one_or_none_def) (metis list.set_intros(1))+
  show "get_existing_evidence i kind s = Inr (Some r) \<longleftrightarrow>
      ev_violation_id r = i \<and> ev_evidence_type r = kind \<and> dget (es_rows s) (ev_id r) = Some r"
    using c m [of r] by (auto simp: get_existing_evidence_def scalar_one_or_none_def)
qed

lemma dget_dict_update:
  "dict_wf e \<Longrightarrow> dget (dict_update d e) k = (case dget e k of Some v \<Rightarrow> Some v | None \<Rightarrow> dget d k)"
proof (induction e arbitrary: d)
  case (Cons p e)
  obtain k1 v where p: "p = (k1, v)" by fastforce
  have "dict_wf e" "dget e k1 = None" using Cons.prems by (auto simp: dict_wf_def p dget_None_iff)
  then show ?case using Cons.IH [of "dput k1 v d"] by (auto simp: p split: option.split)
qed simp

lemma dict_wf_update: "dict_wf d \<Longrightarrow> dict_wf (dict_update d e)"
proof (induction e arbitrary: d)
  case (Cons p e)
  then show ?case by (cases p) simp
qed simp

lemma session_okD:
  assumes "session_ok s"
  shows "ev_unique (es_rows s)" "dict_wf (es_objs s)"
    "dget (es_objs s) i = Some o' \<Longrightarrow> ev_id o' = i"
    "dget (es_objs s) i = Some o' \<Longrightarrow> \<exists>r. dget (es_rows s) i = Some r \<and> ev_violation_id r = ev_violation_id o' \<and> ev_evidence_type r = ev_evidence_type o'"
  using assms unfolding session_ok_def by blast+

lemma put_obj_ok:
  assumes "session_ok s" "dget (es_rows s) (ev_id e) = Some r" "ev_violation_id r = ev_violation_id e" "ev_evidence_type r = ev_evidence_type e"
  shows "session_ok (put_obj e s)"
  using assms unfolding session_ok_def by (auto simp: put_obj_def)

text \<open>Inserting a new object and flushing.\<close>

lemma insert_flush:
  assumes "session_ok s" "dget (es_rows s) (ev_id e) = None"
    "\<And>k r. dget (es_rows s) k = Some r \<Longrightarrow> \<not> (ev_violation_id r = ev_violation_id e \<and> ev_evidence_type r = ev_evidence_type e)"
  shows "session_ok (ev_flush (put_obj e s))" "dget (es_rows (ev_flush (put_obj e s))) (ev_id e) = Some e"
    "dget (es_objs (ev_flush (put_obj e s))) (ev_id e) = Some e"
proof -
  let ?objs = "dput (ev_id e) e (es_objs s)" and ?s = "ev_flush (put_obj e s)"
  note ok = session_okD [OF assms(1)]
  have r: "dget (es_rows ?s) k = (case dget ?objs k of Some v \<Rightarrow> Some v | None \<Rightarrow> dget (es_rows s) k)" for k
    using dget_dict_update [of ?objs "es_rows s" k] ok(2) by (simp add: ev_flush_def put_obj_def)
  have ob: "es_objs ?s = ?objs" by (simp add: ev_flush_def put_obj_def)
  then show "dget (es_objs ?s) (ev_id e) = Some e" by simp
  show re: "dget (es_rows ?s) (ev_id e) = Some e" by (simp add: r)
  have orig: "k = ev_id e \<and> x = e \<or> (\<exists>y. dget (es_rows s) k = Some y \<and> ev_violation_id y = ev_violation_id x \<and>
      ev_evidence_type y = ev_evidence_type x \<and> ev_id x = k)" if "dget (es_rows ?s) k = Some x" for k x
  proof (cases "k = ev_id e")
    case True
    then show ?thesis using that re by simp
  next
    case False
    show ?thesis
    proof (cases "dget (es_objs s) k")
      case None
      then show ?thesis using that False ev_uniqueD(3) [OF ok(1)] by (simp add: r)
    next
      case (Some x')
      then have "x' = x" using that False by (simp add: r)
      then show ?thesis using ok(3) [OF Some] ok(4) [OF Some] by blast
    qed
  qed
  have u: "ev_unique (es_rows ?s)"
    unfolding ev_unique_def table_wf_def
  proof (intro conjI allI impI)
    show "dict_wf (es_rows ?s)" using ev_uniqueD(2) [OF ok(1)] by (simp add: ev_flush_def put_obj_def dict_wf_update)
    show "ev_id x = k" if "dget (es_rows ?s) k = Some x" for k x using orig [OF that] by blast
    show "k = l" if a: "dget (es_rows ?s) k = Some x" "dget (es_rows ?s) l = Some y" "ev_violation_id x = ev_violation_id y"
      "ev_evidence_type x = ev_evidence_type y" for k l x y
      using orig [OF a(1)] orig [OF a(2)] a(3,4) assms(3) ev_uniqueD(4) [OF ok(1)] by metis
  qed
  show "session_ok ?s"
    unfolding session_ok_def ob
  proof (intro conjI allI impI u)
    show "dict_wf ?objs" using ok(2) by simp
  next
    fix i o' assume a: "dget ?objs i = Some o'"
    show "ev_id o' = i" using a ok(3) by (auto split: if_splits)
    have "dget (es_rows ?s) i = Some o'" using a by (simp add: r)
    then show "\<exists>r. dget (es_rows ?s) i = Some r \<and> ev_violation_id r = ev_violation_id o' \<and> ev_evidence_type r = ev_evidence_type o'"
      by blast
  qed
qed

lemma create_existing:
  assumes "session_ok s" "dget (es_objs s) i = Some e" "ev_violation_id e = vi_id v" "ev_evidence_type e = kind"
  shows "create_evidence kind d now n vas True sessions v s = (Inr e, s)"
proof -
  note ok = session_okD [OF assms(1)]
  from ok(4) [OF assms(2)] obtain r where r: "dget (es_rows s) i = Some r" "ev_violation_id r = ev_violation_id e"
    "ev_evidence_type r = ev_evidence_type e" by blast
  have id: "ev_id r = i" by (rule ev_uniqueD(3) [OF ok(1) r(1)])
  then have "get_existing_evidence (vi_id v) kind s = Inr (Some r)"
    using existing_eq(2) [OF ok(1)] r assms(3,4) by simp
  then show ?thesis using assms(2) id by (simp add: create_evidence_def object_of_def)
qed

text \<open>The four outcomes of a creation.\<close>

lemma create_cases:
  assumes "create_evidence kind d now n vas True sessions v s = (r, s')" "session_ok s" "dget (es_rows s) n = None"
  obtains (existing) e where "r = Inr e" "dget (es_objs s') (ev_id e) = Some e" "ev_violation_id e = vi_id v" "ev_evidence_type e = kind"
      "session_ok s'" "es_rows s' = es_rows s"
  | (unresolved) x where "r = Inl x" "resolve_vas_stream_id sessions v = Inl x" "s' = s"
  | (made) i where "r = Inr (processing i (new_evidence now n kind d v))" "session_ok s'"
      "dget (es_objs s') n = Some (processing i (new_evidence now n kind d v))" "dget (es_rows s') n = Some (new_evidence now n kind d v)"
  | (refused) x m where "r = Inl x" "session_ok s'" "dget (es_objs s') n = Some (mark_evidence_failed (new_evidence now n kind d v) m)"
      "dget (es_rows s') n = Some (new_evidence now n kind d v)"
proof -
  note ok = session_okD [OF assms(2)]
  obtain f where f: "get_existing_evidence (vi_id v) kind s = Inr f" using existing_eq(3) [OF ok(1)] by blast
  show thesis
  proof (cases f)
    case (Some r0)
    with f have r0: "ev_violation_id r0 = vi_id v" "ev_evidence_type r0 = kind" "dget (es_rows s) (ev_id r0) = Some r0"
      using existing_eq(2) [OF ok(1)] by auto
    show thesis
    proof (cases "dget (es_objs s) (ev_id r0)")
      case None
      then show thesis using existing [of r0] assms(1) f Some r0 put_obj_ok [OF assms(2) r0(3) refl refl]
        by (auto simp: create_evidence_def object_of_def)
    next
      case (Some e)
      then have e: "r = Inr e" "s' = s" using assms(1) f \<open>f = Some r0\<close> by (simp_all add: create_evidence_def object_of_def)
      have "ev_violation_id e = vi_id v" "ev_evidence_type e = kind" "ev_id e = ev_id r0"
        using ok(3,4) [OF Some] r0 by auto
      then show thesis using existing [of e] e Some assms(2) by simp
    qed
  next
    case None
    note none = f [unfolded None existing_eq(1) [OF ok(1)]]
    show thesis
    proof (cases "resolve_vas_stream_id sessions v")
      case (Inl x)
      then show thesis using unresolved [of x] assms(1) f None by (simp add: create_evidence_def)
    next
      case (Inr stream)
      let ?e = "new_evidence now n kind d v"
      note ins = insert_flush [OF assms(2), of ?e, simplified, OF assms(3)]
      have ok1: "session_ok (ev_flush (put_obj ?e s))" and row: "dget (es_rows (ev_flush (put_obj ?e s))) n = Some ?e"
        using ins none by auto
      have put: "session_ok (put_obj e (ev_flush (put_obj ?e s)))"
        if "ev_id e = n" "ev_violation_id e = vi_id v" "ev_evidence_type e = kind" for e
        by (rule put_obj_ok [OF ok1, of e ?e]) (use that row in simp_all)
      show thesis
      proof (cases "vas stream")
        case (Inl x)
        then show thesis
          using assms(1) f None Inr refused put row by (cases x) (auto simp: create_evidence_def Let_def)
      next
        case (Inr i)
        then show thesis
          using assms(1) f None \<open>resolve_vas_stream_id sessions v = Inr stream\<close> made [of i] put row by (auto simp: create_evidence_def Let_def)
      qed
    qed
  qed
qed

lemma create_again:
  assumes "create_evidence kind d now n vas True sessions v s = (r, s')" "session_ok s" "dget (es_rows s) n = None"
  shows "session_ok s' \<and>
    ((\<exists>e. (r = Inr e \<or> (\<exists>x. r = Inl x) \<and> ev_status e = ES_FAILED) \<and> ev_violation_id e = vi_id v \<and> ev_evidence_type e = kind \<and>
       (\<forall>d2 now2 n2 vas2 sessions2. create_evidence kind d2 now2 n2 vas2 True sessions2 v s' = (Inr e, s'))) \<or>
     (\<exists>y. r = Inl y \<and> resolve_vas_stream_id sessions v = Inl y \<and> s' = s))"
  using assms
proof (cases rule: create_cases)
  case (existing e)
  then show ?thesis using create_existing [OF existing(5,2-4)] by simp
next
  case (unresolved x)
  then show ?thesis using assms(2) by simp
next
  case (made i)
  then show ?thesis using create_existing [OF made(2,3)] by simp
next
  case (refused x m)
  let ?e = "mark_evidence_failed (new_evidence now n kind d v) m"
  have "create_evidence kind d2 now2 n2 vas2 True sessions2 v s' = (Inr ?e, s')" for d2 now2 n2 vas2 sessions2
    by (rule create_existing [OF refused(2,3)]) simp_all
  then show ?thesis by (intro conjI [OF refused(2) disjI1] exI [of _ ?e]) (simp add: refused(1))
qed

text \<open>\<open>poll_evidence\<close> on a row that was flushed before VAS was asked: the refresh loses what VAS answered.\<close>

lemma poll_loop_pending:
  assumes "start + timeout \<le> pe_clock env m" "n \<le> m" "pe_others env = (\<lambda>_ t. t)" "dget (es_rows s) i = Some p" "ev_id p = i" "ev_id e = i"
    "\<not> ev_terminal p" "ev_vas_snapshot_id p = None" "ev_vas_bookmark_id p = None"
  shows "\<exists>s' f. poll_loop env start timeout e n s = Some (Inl (EvidencePollingTimeoutError i timeout), s') \<and>
    dget (es_objs s') i = Some f \<and> ev_status f = ES_FAILED"
  using assms
proof (induction "m - n" arbitrary: n e s rule: less_induct)
  case less
  show ?case
  proof (cases "pe_clock env n - start < timeout")
    case False
    then show ?thesis using less.prems(6) by (subst poll_loop.simps) simp
  next
    case True
    then have "n \<noteq> m" using less.prems(1) by auto
    then have m: "m - Suc n < m - n" "Suc n \<le> m" using less.prems(2) by auto
    have "sync_evidence_from_vas (pe_utc env n) (pe_vas env n) p = Inr p"
      using less.prems(8,9) by (simp add: sync_evidence_from_vas_def truthy_str_def)
    then have "poll_loop env start timeout e n s = poll_loop env start timeout p (Suc n) (put_obj p s)"
      using True less.prems(3,4,6,7) by (subst poll_loop.simps) simp
    then show ?thesis
      using less.hyps [OF m(1) less.prems(1) m(2) less.prems(3), of "put_obj p s" p] less.prems(4-9) by simp
  qed
qed

lemma poll_pending:
  assumes "create_evidence kind d now n vas True sessions v s = (Inr e, s')" "session_ok s" "dget (es_rows s) n = None"
    "ev_id e = n" "pe_others env = (\<lambda>_ t. t)" "start + timeout \<le> pe_clock env m"
  shows "\<exists>s'' f. poll_evidence env start n (Some timeout) s' = Some (Inl (EvidencePollingTimeoutError n timeout), s'') \<and>
    dget (es_objs s'') n = Some f \<and> ev_status f = ES_FAILED"
  using assms(1-3)
proof (cases rule: create_cases)
  case (existing e')
  then have "\<exists>r. dget (es_rows s) n = Some r"
    using session_okD(4) [OF existing(5) existing(2)] existing(6) assms(4) by auto
  with assms(3) show ?thesis by simp
next
  case (made i)
  have g: "get_evidence_by_id n s' = (Inr (processing i (new_evidence now n kind d v)), s')"
    using made(3,4) by (simp add: get_evidence_by_id_def object_of_def)
  have t: "\<not> ev_terminal (processing i (new_evidence now n kind d v))" by (simp add: ev_terminal_def EV_TERMINAL_STATES_def)
  show ?thesis unfolding poll_evidence_def g
    using t poll_loop_pending [OF assms(6) le0 assms(5) made(4), of "processing i (new_evidence now n kind d v)"] by simp
qed simp_all

section \<open>Capture for a new violation\<close>

text \<open>The call of the violation service, in a session that commits at the end of the request.\<close>

definition auto_snapshot :: "real \<Rightarrow> uuid \<Rightarrow> (string \<Rightarrow> vas_error + string) \<Rightarrow> StreamSession table \<Rightarrow> snapshot_call" where
  "auto_snapshot now new_id vas sessions v t =
     (case create_snapshot now new_id vas True sessions v \<lparr>es_rows = t, es_objs = []\<rparr> of
        (Inl x, s) \<Rightarrow> (Inl (RuntimeError ''snapshot failed''), es_rows (ev_flush s))
      | (Inr e, s) \<Rightarrow> (Inr e, es_rows (ev_flush s)))"

lemma flush_get:
  "session_ok s \<Longrightarrow> dget (es_objs s) i = Some e \<Longrightarrow> dget (es_rows (ev_flush s)) i = Some e"
  using session_okD(2) by (simp add: ev_flush_def dget_dict_update)

lemma auto_snapshot_row:
  assumes "ev_unique t" "dget t m = None" "\<And>k r. dget t k = Some r \<Longrightarrow> ev_violation_id r \<noteq> vi_id v"
    "resolve_vas_stream_id sessions v = Inr stream"
  shows "\<exists>e. dget (snd (auto_snapshot now m vas sessions v t)) m = Some e \<and> ev_violation_id e = vi_id v \<and>
    ev_evidence_type e = EV_SNAPSHOT \<and> ev_status e = (case vas stream of Inl x \<Rightarrow> ES_FAILED | Inr i \<Rightarrow> ES_PROCESSING)"
proof -
  let ?s = "\<lparr>es_rows = t, es_objs = []\<rparr>"
  let ?e = "new_evidence now m EV_SNAPSHOT 15 v"
  have ok: "session_ok ?s" using assms(1) by (simp add: session_ok_def)
  have none: "get_existing_evidence (vi_id v) EV_SNAPSHOT ?s = Inr None" using existing_eq(1) [of ?s] assms(1,3) by simp
  note ins = insert_flush [OF ok, of ?e]
  have put: "session_ok (put_obj e (ev_flush (put_obj ?e ?s)))"
    if "ev_id e = m" "ev_violation_id e = vi_id v" "ev_evidence_type e = EV_SNAPSHOT" for e
    by (rule put_obj_ok [OF ins(1), of e ?e]) (use that ins(2) assms(2,3) in simp_all)
  have row: "dget (es_rows (ev_flush (put_obj e (ev_flush (put_obj ?e ?s))))) m = Some e"
    if "ev_id e = m" "ev_violation_id e = vi_id v" "ev_evidence_type e = EV_SNAPSHOT" for e
    by (rule flush_get [OF put [OF that]]) (simp add: that(1))
  show ?thesis
  proof (cases "vas stream")
    case (Inl x)
    then show ?thesis using none assms(4) row
      by (cases x) (simp_all add: auto_snapshot_def create_snapshot_def create_evidence_def Let_def)
  next
    case (Inr i)
    then show ?thesis using none assms(4) row by (simp add: auto_snapshot_def create_snapshot_def create_evidence_def Let_def)
  qed
qed

text \<open>With at most one active session for a camera the second query for the stream is never ambiguous.\<close>

lemma resolve_never_ambiguous:
  assumes "sessions_ok b"
  shows "resolve_vas_stream_id (bk_sessions b) v \<noteq> Inl (EvidenceRaises x)"
proof -
  let ?q = "select_where (\<lambda>s. ss_device_id s = vi_device_id v \<and> ss_state s \<in> {S_LIVE, S_STARTING}) (bk_sessions b)"
  have same: "s = t" if st: "s \<in> set ?q" "t \<in> set ?q" for s t
  proof -
    obtain k l where k: "dget (bk_sessions b) k = Some s" "dget (bk_sessions b) l = Some t"
      using st sessions_okD(2) [OF assms] by auto
    have "ss_state s \<in> set ACTIVE_STATES" "ss_state t \<in> set ACTIVE_STATES" "ss_device_id s = ss_device_id t"
      using st by (auto simp: select_where_def ACTIVE_STATES_def)
    then have "k = l" using sessions_okD(3) [OF assms] k unfolding one_active_def by blast
    then show ?thesis using k by simp
  qed
  have "?q = [] \<or> (\<exists>s. ?q = [s])"
  proof (cases ?q)
    case (Cons a rest)
    have "e = a" if "e \<in> set rest" for e using same [of e a] that unfolding Cons by simp
    moreover have "a \<notin> set rest" using distinct_rows [OF sessions_okD(1) [OF assms]] Cons by (metis distinct.simps(2))
    ultimately have "rest = []" by (cases rest) auto
    then show ?thesis using Cons by simp
  qed simp
  then have "\<exists>o'. scalar_one_or_none ?q = Inr o'" by (auto simp: scalar_one_or_none_def)
  then show ?thesis by (auto simp: resolve_vas_stream_id_def Let_def split: option.splits if_splits)
qed

text \<open>A failed evidence, documented as immutable, can become \<open>PROCESSING\<close> again.\<close>

lemma retry_leaves_terminal:
  assumes "get_evidence_by_id i s = (Inr e, s1)" "ev_status e = ES_FAILED" "ev_retry_count e < max_retries"
    "dget violations (ev_violation_id e) = Some v" "resolve_vas_stream_id sessions v = Inr stream"
    "vas_create (ev_evidence_type e) stream = Inr vas_id"
  shows "\<exists>e'. fst (retry_failed_evidence now vas_create i max_retries violations sessions s) = Inr e' \<and> ev_status e' = ES_PROCESSING \<and>
    \<not> ev_is_valid_transition (ev_status e) (ev_status e')"
  using assms by (simp add: retry_failed_evidence_def Let_def ev_is_valid_transition_def EV_TERMINAL_STATES_def)

section \<open>Properties\<close>

text \<open>
  Evidence is created once. A creation (snapshot or clip) in a consistent session with an unused identifier keeps the
  session consistent, with at most one row for a violation and kind; unless no stream was found, and then nothing
  changed, every later creation of the same kind for the violation returns the same object, asks
  VAS nothing and changes nothing; after a refusal of VAS that object is the failed one.
\<close>

theorem evidence_created_once:
  assumes "create_evidence kind d now n vas True sessions v s = (r, s')" "session_ok s" "dget (es_rows s) n = None"
  shows "session_ok s' \<and>
    ((\<exists>e. (r = Inr e \<or> (\<exists>x. r = Inl x) \<and> ev_status e = ES_FAILED) \<and> ev_violation_id e = vi_id v \<and> ev_evidence_type e = kind \<and>
       (\<forall>d2 now2 n2 vas2 sessions2. create_evidence kind d2 now2 n2 vas2 True sessions2 v s' = (Inr e, s'))) \<or>
     (\<exists>y. r = Inl y \<and> resolve_vas_stream_id sessions v = Inl y \<and> s' = s))"
  by (rule create_again [OF assms])

definition demo_incident :: Violation where
  "demo_incident = violation_of_event 11 None (demo_event 1 (1 / 2)) V_FALL_DETECTED"

definition demo_sessions :: "StreamSession table" where
  "demo_sessions = [(3, live_session (new_session 5 3 7 demo_options) (Some ''v2''))]"

abbreviation "demo_session \<equiv> \<lparr>es_rows = [], es_objs = []\<rparr>"

lemma demo_session_ok: "session_ok demo_session" "dget (es_rows demo_session) 21 = None"
  by (simp_all add: session_ok_def ev_unique_def)

lemma demo_resolve: "resolve_vas_stream_id demo_sessions demo_incident = Inr ''v2''"
  by (simp add: resolve_vas_stream_id_def demo_incident_def demo_sessions_def demo_event_def violation_of_event_def live_session_def
      truthy_str_def)

lemma demo_create:
  "create_evidence EV_SNAPSHOT 15 0 21 (\<lambda>_. Inr ''s1'') True demo_sessions demo_incident demo_session =
   (Inr (processing ''s1'' (new_evidence 0 21 EV_SNAPSHOT 15 demo_incident)),
    \<lparr>es_rows = [(21, new_evidence 0 21 EV_SNAPSHOT 15 demo_incident)],
     es_objs = [(21, processing ''s1'' (new_evidence 0 21 EV_SNAPSHOT 15 demo_incident))]\<rparr>)"
  by (simp add: create_evidence_def get_existing_evidence_def select_where_def scalar_one_or_none_def demo_resolve Let_def
      ev_flush_def put_obj_def)

theorem evidence_created_once_witness:
  "\<exists>e s'. create_evidence EV_SNAPSHOT 15 0 21 (\<lambda>_. Inr ''s1'') True demo_sessions demo_incident demo_session = (Inr e, s') \<and> session_ok s' \<and>
    create_evidence EV_SNAPSHOT 15 9 22 (\<lambda>_. Inl (VASConnectionError [])) True [] demo_incident s' = (Inr e, s')"
  using evidence_created_once [OF demo_create demo_session_ok] demo_create demo_resolve by auto

text \<open>
  Polling ends. When the clock of the loop reaches the deadline at some reading, polling an evidence
  returns, whatever VAS answers in each round and whatever other sessions commit: an evidence in a terminal state,
  the timeout with the evidence marked failed, that the evidence does not exist, or that its row is gone.
\<close>

theorem polling_ends:
  assumes "session_ok s" "others_ok env" "start + timeout \<le> pe_clock env m"
  shows "\<exists>res. poll_evidence env start i (Some timeout) s = Some res \<and>
    (poll_done i timeout res \<or> fst res = Inl (EvidenceNotFoundError i))"
proof (cases "dget (es_rows s) i")
  case None
  then show ?thesis by (simp add: poll_evidence_def get_evidence_by_id_def)
next
  case (Some r)
  note ok = session_okD [OF assms(1)]
  have ri: "ev_id r = i" by (rule ev_uniqueD(3) [OF ok(1) Some])
  obtain e s1 where o1: "object_of r s = (e, s1)" by fastforce
  have e: "ev_id e = i" "es_rows s1 = es_rows s" "dget (es_objs s1) i = Some e"
    using o1 ri ok(3) by (auto simp: object_of_def split: option.splits)
  show ?thesis
  proof (cases "ev_terminal e")
    case True
    then show ?thesis using Some o1 e by (simp add: poll_evidence_def get_evidence_by_id_def poll_done_def)
  next
    case False
    have "table_wf ev_id (es_rows s1)" using ev_uniqueD(1) [OF ok(1)] e(2) by simp
    from poll_loop_ends [OF assms(3) le0 assms(2) this e(1)] show ?thesis
      using Some o1 False by (auto simp: poll_evidence_def get_evidence_by_id_def)
  qed
qed

definition demo_env :: poll_env where
  "demo_env = \<lparr>pe_clock = real, pe_utc = real, pe_vas = (\<lambda>_ _. Inr \<lparr>vm_status = Some ''ready'', vm_error = None\<rparr>),
     pe_others = (\<lambda>_ t. t), pe_show = (\<lambda>_. ''30.0'')\<rparr>"

lemma demo_env_ok: "others_ok demo_env" "0 + 30 \<le> pe_clock demo_env 30" "pe_others demo_env = (\<lambda>_ t. t)"
  by (simp_all add: others_ok_def demo_env_def)

theorem polling_ends_witness:
  "\<exists>res. poll_evidence demo_env 0 21 (Some 30) demo_session = Some res \<and>
     (poll_done 21 30 res \<or> fst res = Inl (EvidenceNotFoundError 21))"
  by (rule polling_ends [OF demo_session_ok(1) demo_env_ok(1,2)])

text \<open>
  Polling in the session that created the evidence always times out. The identifier VAS gave and the state
  \<open>PROCESSING\<close> are not flushed, and the first refresh of the loop discards them; the loop then
  never asks VAS, and the poll ends with the timeout and a failed evidence even when VAS has the picture ready.
\<close>

theorem poll_without_commit_times_out:
  assumes "create_evidence kind d now n vas True sessions v s = (Inr e, s')" "session_ok s" "dget (es_rows s) n = None"
    "ev_id e = n" "pe_others env = (\<lambda>_ t. t)" "start + timeout \<le> pe_clock env m"
  shows "\<exists>s'' f. poll_evidence env start n (Some timeout) s' = Some (Inl (EvidencePollingTimeoutError n timeout), s'') \<and>
    dget (es_objs s'') n = Some f \<and> ev_status f = ES_FAILED"
  by (rule poll_pending [OF assms])

theorem poll_without_commit_times_out_witness:
  "\<exists>e s'. create_evidence EV_SNAPSHOT 15 0 21 (\<lambda>_. Inr ''s1'') True demo_sessions demo_incident demo_session = (Inr e, s') \<and>
     (\<exists>s''. poll_evidence demo_env 0 21 (Some 30) s' = Some (Inl (EvidencePollingTimeoutError 21 30), s''))"
proof -
  have "ev_id (processing ''s1'' (new_evidence 0 21 EV_SNAPSHOT 15 demo_incident)) = 21" by simp
  from poll_without_commit_times_out [OF demo_create demo_session_ok this demo_env_ok(3,2)] demo_create show ?thesis by blast
qed

text \<open>
  A new violation has its snapshot. When an event creates a violation and its camera has a stream, the
  snapshot of the evidence service leaves exactly the row of that violation: processing when VAS took the
  request, failed otherwise, and the violation is created in both cases.
\<close>

theorem new_violation_has_snapshot:
  assumes "process_event ord (Inr d) None (Some (auto_snapshot now m vas (bk_sessions b))) n e b = (r, b')"
    "get_open_violation ord (ee_device_id e) (ee_stream_session_id e) V_FALL_DETECTED b = None"
    "ee_violation_id e = None" "ee_event_type e = E_FALL_DETECTED"
    "ev_unique (bk_evidence b)" "dget (bk_evidence b) m = None" "\<And>k x. dget (bk_evidence b) k = Some x \<Longrightarrow> ev_violation_id x \<noteq> n"
    "resolve_vas_stream_id (bk_sessions b) (violation_of_event n d e V_FALL_DETECTED) = Inr stream"
  shows "r = Inr (Some (violation_of_event n d e V_FALL_DETECTED)) \<and> dget (bk_violations b') n = Some (violation_of_event n d e V_FALL_DETECTED) \<and>
    (\<exists>x. dget (bk_evidence b') m = Some x \<and> ev_violation_id x = n \<and> ev_evidence_type x = EV_SNAPSHOT \<and>
       ev_status x = (case vas stream of Inl _ \<Rightarrow> ES_FAILED | Inr _ \<Rightarrow> ES_PROCESSING))"
proof -
  let ?v = "violation_of_event n d e V_FALL_DETECTED"
  have b': "r = Inr (Some ?v)"
    "b' = trigger_evidence_capture (Some (auto_snapshot now m vas (bk_sessions b))) ?v (link_event e n (put_violation ?v b))"
    using assms(1-4) by (simp_all add: process_event_def map_event_to_violation_type_def EVENT_TYPE_TO_VIOLATION_TYPE_def
        create_violation_from_event_def Let_def)
  then have "bk_evidence b' = snd (auto_snapshot now m vas (bk_sessions b) ?v (bk_evidence b))" "dget (bk_violations b') n = Some ?v"
    by (simp_all add: trigger_evidence_capture_def split: prod.split sum.split)
  then show ?thesis using auto_snapshot_row [OF assms(5,6) _ assms(8), of now vas] assms(7) b'(1) by simp
qed

theorem new_violation_has_snapshot_witness:
  "\<exists>b'. process_event stable_desc (Inr None) None (Some (auto_snapshot 0 21 (\<lambda>_. Inl (VASConnectionError [])) demo_sessions)) 11 (demo_event 1 (1 / 2))
       (empty_backend\<lparr>bk_sessions := demo_sessions\<rparr>) = (Inr (Some demo_incident), b') \<and>
     (\<exists>x. dget (bk_evidence b') 21 = Some x \<and> ev_status x = ES_FAILED)"
proof -
  let ?b = "empty_backend\<lparr>bk_sessions := demo_sessions\<rparr>"
  have s: "bk_sessions ?b = demo_sessions" "bk_evidence ?b = []" by (simp_all add: empty_backend_def)
  have o1: "get_open_violation stable_desc (ee_device_id (demo_event 1 (1 / 2))) (ee_stream_session_id (demo_event 1 (1 / 2))) V_FALL_DETECTED ?b = None"
    by (simp add: get_open_violation_def select_latest_def select_where_def stable_desc_def empty_backend_def)
  have f: "ee_violation_id (demo_event 1 (1 / 2)) = None" "ee_event_type (demo_event 1 (1 / 2)) = E_FALL_DETECTED"
    by (simp_all add: demo_event_def)
  have u: "ev_unique (bk_evidence ?b)" "dget (bk_evidence ?b) 21 = None" "\<And>k x. dget (bk_evidence ?b) k = Some x \<Longrightarrow> ev_violation_id x \<noteq> 11"
    by (simp_all add: s ev_unique_def)
  have rs: "resolve_vas_stream_id (bk_sessions ?b) (violation_of_event 11 None (demo_event 1 (1 / 2)) V_FALL_DETECTED) = Inr ''v2''"
    using demo_resolve by (simp add: s demo_incident_def)
  obtain r b' where p: "process_event stable_desc (Inr None) None (Some (auto_snapshot 0 21 (\<lambda>_. Inl (VASConnectionError [])) (bk_sessions ?b))) 11
      (demo_event 1 (1 / 2)) ?b = (r, b')" by fastforce
  have "(\<And>k x. dget (bk_evidence ?b) k = Some x \<Longrightarrow> ev_violation_id x \<noteq> 11) \<Longrightarrow> r = Inr (Some demo_incident) \<and>
      (\<exists>x. dget (bk_evidence b') 21 = Some x \<and> ev_status x = ES_FAILED)"
    using new_violation_has_snapshot [OF p o1 f u(1,2) _ rs] unfolding demo_incident_def by (auto simp del: One_nat_def)
  then have "r = Inr (Some demo_incident)" "\<exists>x. dget (bk_evidence b') 21 = Some x \<and> ev_status x = ES_FAILED" using u(3) by blast+
  then show ?thesis using p unfolding s by blast
qed

end
