(* ===== verification/InferenceLoop.thy ===== *)
theory InferenceLoop
  imports ViolationService StreamService
begin

text \<open>
  \<open>ruth-ai-backend/app/services/inference_loop.py\<close>: the background loop that runs a model on every live
  session. The pace comes from a budget of GPU time, violations are written when a session enters the state
  of violation or a new zone, and a task that fails ten times in a row ends and is revived. Parameters are the
  settings read from the environment, the answers of the runtime and of the database, the clocks, and the
  number \<open>float\<close> reads from a string. Results of models have the types the loop expects.
\<close>

section \<open>Boxes\<close>

text \<open>\<open>round(x)\<close>: to the nearest integer, halves to the even one.\<close>

definition round_half_even :: "real \<Rightarrow> int" where
  "round_half_even x =
     (let n = \<lfloor>x\<rfloor>; r = x - of_int n
      in if r < 1 / 2 then n else if 1 / 2 < r then n + 1 else if even n then n else n + 1)"

definition py_float :: "(string \<Rightarrow> real option) \<Rightarrow> jval \<Rightarrow> real option" where
  "py_float parse_float v =
     (case v of JInt i \<Rightarrow> Some (of_int i) | JReal r \<Rightarrow> Some r | JBool x \<Rightarrow> Some (if x then 1 else 0)
      | JStr s \<Rightarrow> parse_float s | _ \<Rightarrow> None)"

record Box =
  bx_x :: int
  bx_y :: int
  bx_width :: int
  bx_height :: int

text \<open>A box of corners. Mappings that already have the four keys are read by \<open>int\<close>, a parameter.\<close>

fun normalize_corners :: "real \<Rightarrow> real \<Rightarrow> real \<Rightarrow> real \<Rightarrow> Box" where
  "normalize_corners x1 y1 x2 y2 =
     \<lparr>bx_x = round_half_even (min x1 x2), bx_y = round_half_even (min y1 y2),
      bx_width = round_half_even (max x1 x2 - min x1 x2), bx_height = round_half_even (max y1 y2 - min y1 y2)\<rparr>"

definition normalize_bbox :: "(string \<Rightarrow> real option) \<Rightarrow> (jval \<Rightarrow> int) \<Rightarrow> jval \<Rightarrow> Box option" where
  "normalize_bbox parse_float py_int_of bbox =
     (case bbox of
        JDict m \<Rightarrow>
          (case (dget m ''x'', dget m ''y'', dget m ''width'', dget m ''height'') of
             (Some x, Some y, Some w, Some h) \<Rightarrow>
               Some \<lparr>bx_x = py_int_of x, bx_y = py_int_of y, bx_width = py_int_of w, bx_height = py_int_of h\<rparr>
           | _ \<Rightarrow> None)
      | JList [a, b, c, d] \<Rightarrow>
          (case (py_float parse_float a, py_float parse_float b, py_float parse_float c, py_float parse_float d) of
             (Some x1, Some y1, Some x2, Some y2) \<Rightarrow> Some (normalize_corners x1 y1 x2 y2)
           | _ \<Rightarrow> None)
      | JStrs [a, b, c, d] \<Rightarrow>
          (case (parse_float a, parse_float b, parse_float c, parse_float d) of
             (Some x1, Some y1, Some x2, Some y2) \<Rightarrow> Some (normalize_corners x1 y1 x2 y2)
           | _ \<Rightarrow> None)
      | _ \<Rightarrow> None)"

section \<open>The budget\<close>

record LoopSettings =
  lc_target_fps :: real
  lc_min_fps :: real
  lc_max_gpu_utilization :: real

definition default_settings :: LoopSettings where
  "default_settings = \<lparr>lc_target_fps = 2, lc_min_fps = 1 / 5, lc_max_gpu_utilization = 23 / 10\<rparr>"

definition DEFAULT_LATENCY_S :: real where "DEFAULT_LATENCY_S = 3 / 10"
definition LATENCY_EWMA_ALPHA :: real where "LATENCY_EWMA_ALPHA = 3 / 10"

record InferenceBudget =
  ib_active :: "uuid list"
  ib_latency_s :: "(string, real) dict"

definition new_budget :: InferenceBudget where
  "new_budget = \<lparr>ib_active = [], ib_latency_s = []\<rparr>"

definition bg_register :: "uuid \<Rightarrow> InferenceBudget \<Rightarrow> InferenceBudget" where
  "bg_register i g = g\<lparr>ib_active := List.insert i (ib_active g)\<rparr>"

definition bg_unregister :: "uuid \<Rightarrow> InferenceBudget \<Rightarrow> InferenceBudget" where
  "bg_unregister i g = g\<lparr>ib_active := removeAll i (ib_active g)\<rparr>"

definition active_count :: "InferenceBudget \<Rightarrow> nat" where
  "active_count g = length (ib_active g)"

definition record_latency :: "string \<Rightarrow> real \<Rightarrow> InferenceBudget \<Rightarrow> InferenceBudget" where
  "record_latency model_id seconds g =
     g\<lparr>ib_latency_s := dput model_id
         (case dget (ib_latency_s g) model_id of
            None \<Rightarrow> seconds
          | Some previous \<Rightarrow> LATENCY_EWMA_ALPHA * seconds + (1 - LATENCY_EWMA_ALPHA) * previous) (ib_latency_s g)\<rparr>"

definition latency_for :: "string \<Rightarrow> InferenceBudget \<Rightarrow> real" where
  "latency_for model_id g = dget_or (ib_latency_s g) model_id DEFAULT_LATENCY_S"

definition fps_for :: "LoopSettings \<Rightarrow> string \<Rightarrow> InferenceBudget \<Rightarrow> real" where
  "fps_for c model_id g =
     (let n = max 1 (active_count g); latency = latency_for model_id g
      in if latency \<le> 0 then lc_target_fps c
         else let fair_share_fps = lc_max_gpu_utilization c / (real n * latency)
              in max (lc_min_fps c) (min (lc_target_fps c) fair_share_fps))"

definition interval_for :: "LoopSettings \<Rightarrow> string \<Rightarrow> InferenceBudget \<Rightarrow> real" where
  "interval_for c model_id g = 1 / fps_for c model_id g"

section \<open>When a violation is written\<close>

text \<open>The zone identifiers are as models give them; \<open>None\<close> is an element like others.\<close>

record ViolationState =
  vst_was_in_violation :: bool
  vst_last_violation_time :: "real option"
  vst_active_zones :: "string option list"

definition new_violation_state :: ViolationState where
  "new_violation_state = \<lparr>vst_was_in_violation = False, vst_last_violation_time = None, vst_active_zones = []\<rparr>"

definition COOLDOWN_SECONDS :: real where "COOLDOWN_SECONDS = 30"

record ModelDetection =
  md_zone_id :: "string option"
  md_in_zone :: bool
  md_bbox :: "jval option"
  md_confidence :: real

record ModelResult =
  mr_violation_detected :: bool
  mr_confidence :: real
  mr_violation_type :: "string option"
  mr_detections :: "ModelDetection list"

definition zones_of :: "ModelResult \<Rightarrow> string option list" where
  "zones_of r = remdups (map md_zone_id (filter md_in_zone (mr_detections r)))"

definition should_create :: "real \<Rightarrow> string option list \<Rightarrow> ViolationState \<Rightarrow> bool" where
  "should_create now current_zones st =
     (let new_zones = filter (\<lambda>z. z \<notin> set (vst_active_zones st)) current_zones
      in if \<not> vst_was_in_violation st then True
         else if new_zones \<noteq> [] then True
         else (case vst_last_violation_time st of
                 None \<Rightarrow> False
               | Some t \<Rightarrow> if COOLDOWN_SECONDS \<le> now - t then False else False))"

text \<open>The decision for one result and the state after it.\<close>

definition debounce :: "real \<Rightarrow> real \<Rightarrow> ModelResult \<Rightarrow> ViolationState \<Rightarrow> bool \<times> ViolationState" where
  "debounce now confidence_threshold r st =
     (if mr_violation_detected r \<and> confidence_threshold \<le> mr_confidence r
      then (let create = should_create now (zones_of r) st;
                st1 = (if create then st\<lparr>vst_last_violation_time := Some now\<rparr> else st)
            in (create, st1\<lparr>vst_was_in_violation := True, vst_active_zones := zones_of r\<rparr>))
      else (False, st\<lparr>vst_was_in_violation := False, vst_active_zones := []\<rparr>))"

section \<open>Writing a violation\<close>

definition box_entry :: "Box \<Rightarrow> real \<Rightarrow> string \<Rightarrow> (int \<times> int) option \<Rightarrow> jval" where
  "box_entry box confidence label frame =
     JDict ([(''x'', JInt (bx_x box)), (''y'', JInt (bx_y box)), (''width'', JInt (bx_width box)), (''height'', JInt (bx_height box)),
             (''confidence'', JReal confidence), (''label'', JStr label)] @
            (case frame of
               Some (w, h) \<Rightarrow> if w \<noteq> 0 \<and> h \<noteq> 0 then [(''frame_width'', JInt w), (''frame_height'', JInt h)] else []
             | None \<Rightarrow> []))"

definition result_boxes ::
  "(string \<Rightarrow> real option) \<Rightarrow> (jval \<Rightarrow> int) \<Rightarrow> string \<Rightarrow> (int \<times> int) option \<Rightarrow> ModelDetection list \<Rightarrow> jval list" where
  "result_boxes parse_float py_int_of violation_type frame detections =
     List.map_filter (\<lambda>d.
       if md_in_zone d \<or> (case md_bbox d of None \<Rightarrow> False | Some v \<Rightarrow> v \<notin> {JNone, JList [], JStrs [], JDict []})
       then (case md_bbox d of
               None \<Rightarrow> None
             | Some v \<Rightarrow>
                 (case normalize_bbox parse_float py_int_of v of
                    None \<Rightarrow> None
                  | Some box \<Rightarrow> Some (box_entry box (md_confidence d)
                      (if truthy_str (md_zone_id d) then the (md_zone_id d) else violation_type) frame)))
       else None) detections"

definition loop_violation ::
  "(string \<Rightarrow> real option) \<Rightarrow> (jval \<Rightarrow> int) \<Rightarrow> real \<Rightarrow> uuid \<Rightarrow> uuid \<Rightarrow> Device option \<Rightarrow> uuid \<Rightarrow> string \<Rightarrow> string \<Rightarrow> (int \<times> int) option \<Rightarrow>
   ModelResult \<Rightarrow> Violation" where
  "loop_violation parse_float py_int_of now new_id device_id device session_id model_id model_version frame r =
     (let raw = (if truthy_str (mr_violation_type r) then the (mr_violation_type r) else model_id);
          resolved = resolve_violation_type (Some raw)
      in \<lparr>vi_id = new_id, vi_device_id = device_id, vi_stream_session_id = Some session_id, vi_type = fst resolved,
          vi_type_detail = snd resolved, vi_status = VS_OPEN, vi_confidence = mr_confidence r, vi_timestamp = now,
          vi_camera_name = (case device of None \<Rightarrow> ''Unknown'' | Some d \<Rightarrow> dv_name d), vi_model_id = model_id,
          vi_model_version = model_version,
          vi_bounding_boxes = Some (JList (result_boxes parse_float py_int_of raw frame (mr_detections r))),
          vi_reviewed_by = None, vi_reviewed_at = None, vi_resolution_notes = None\<rparr>)"

definition loop_evidence :: "real \<Rightarrow> uuid \<Rightarrow> uuid \<Rightarrow> string \<Rightarrow> Evidence" where
  "loop_evidence now new_id violation_id snapshot_id =
     \<lparr>ev_id = new_id, ev_violation_id = violation_id, ev_evidence_type = EV_SNAPSHOT, ev_status = ES_READY,
      ev_vas_snapshot_id = Some snapshot_id, ev_vas_bookmark_id = None, ev_bookmark_duration_seconds = Some 15,
      ev_requested_at = now, ev_ready_at = Some now, ev_error_message = None, ev_retry_count = 0, ev_last_retry_at = None\<rparr>"

text \<open>The counters of a session, and the row of a violation; a failure of the database is logged and swallowed.\<close>

datatype session_counter = Frames_processed | Events_count | Violations_count

definition increment_session_counter :: "py_error option \<Rightarrow> uuid \<Rightarrow> session_counter \<Rightarrow> Backend \<Rightarrow> Backend" where
  "increment_session_counter db_fails session_id column b =
     (case db_fails of
        Some e \<Rightarrow> b
      | None \<Rightarrow>
          (case dget (bk_sessions b) session_id of
             None \<Rightarrow> b
           | Some s \<Rightarrow>
               (let s' = (case column of
                       Frames_processed \<Rightarrow> s\<lparr>ss_frames_processed := ss_frames_processed s + 1\<rparr>
                     | Events_count \<Rightarrow> s\<lparr>ss_events_count := ss_events_count s + 1\<rparr>
                     | Violations_count \<Rightarrow> s\<lparr>ss_violations_count := ss_violations_count s + 1\<rparr>)
                in b\<lparr>bk_sessions := dput session_id s' (bk_sessions b)\<rparr>)))"

section \<open>The service\<close>

record RuntimeResult =
  rr_status :: string
  rr_result :: "ModelResult option"
  rr_model_version :: "string option"
  rr_frame :: "(int \<times> int) option"

record LatestDetection =
  lt_model_id :: string
  lt_model_version :: "string option"
  lt_result :: ModelResult
  lt_frame :: "(int \<times> int) option"
  lt_captured_at :: real

text \<open>A task with the variables of its coroutine; it runs its first lines when it is first scheduled.\<close>

record SessionTask =
  tk_session_id :: uuid
  tk_device_id :: uuid
  tk_vas_stream_id :: "string option"
  tk_model_id :: string
  tk_confidence_threshold :: real
  tk_consecutive_errors :: nat
  tk_interval :: real

record LoopState =
  lp_running :: bool
  lp_session_tasks :: "(uuid, SessionTask) dict"
  lp_violation_state :: "(uuid, ViolationState) dict"
  lp_budget :: InferenceBudget
  lp_session_devices :: "(uuid, uuid) dict"
  lp_latest_detections :: "(uuid, LatestDetection) dict"
  lp_vas_stream_state :: "(string, string) dict"

definition new_loop :: LoopState where
  "new_loop = \<lparr>lp_running = False, lp_session_tasks = [], lp_violation_state = [], lp_budget = new_budget,
     lp_session_devices = [], lp_latest_detections = [], lp_vas_stream_state = []\<rparr>"

definition activate :: "string \<Rightarrow> LoopState \<Rightarrow> LoopState" where
  "activate stream_id st = st\<lparr>lp_vas_stream_state := dput stream_id ''active'' (lp_vas_stream_state st)\<rparr>"

definition pause :: "string \<Rightarrow> LoopState \<Rightarrow> LoopState" where
  "pause stream_id st = st\<lparr>lp_vas_stream_state := dput stream_id ''paused'' (lp_vas_stream_state st)\<rparr>"

definition vas_stream_is_paused :: "string \<Rightarrow> LoopState \<Rightarrow> bool" where
  "vas_stream_is_paused stream_id st \<longleftrightarrow> dget (lp_vas_stream_state st) stream_id = Some ''paused''"

definition loop_start :: "LoopState \<Rightarrow> LoopState" where
  "loop_start st = (if lp_running st then st else st\<lparr>lp_running := True\<rparr>)"

definition session_task :: "StreamSession \<Rightarrow> SessionTask" where
  "session_task s =
     \<lparr>tk_session_id = ss_id s, tk_device_id = ss_device_id s, tk_vas_stream_id = ss_vas_stream_id s, tk_model_id = ss_model_id s,
      tk_confidence_threshold = (if ss_confidence_threshold s = 0 then 7 / 10 else ss_confidence_threshold s),
      tk_consecutive_errors = 0, tk_interval = 0\<rparr>"

definition start_session_task :: "StreamSession \<Rightarrow> LoopState \<Rightarrow> LoopState" where
  "start_session_task s st =
     st\<lparr>lp_session_tasks := dput (ss_id s) (session_task s) (lp_session_tasks st),
         lp_session_devices := dput (ss_id s) (ss_device_id s) (lp_session_devices st)\<rparr>"

lemma session_task_fields [simp]: "tk_session_id (session_task s) = ss_id s" "tk_device_id (session_task s) = ss_device_id s"
  by (simp_all add: session_task_def)

definition stop_session_task :: "uuid \<Rightarrow> LoopState \<Rightarrow> LoopState" where
  "stop_session_task session_id st =
     (if dget (lp_session_tasks st) session_id = None then st
      else st\<lparr>lp_session_tasks := ddel session_id (lp_session_tasks st), lp_budget := bg_unregister session_id (lp_budget st),
              lp_session_devices := ddel session_id (lp_session_devices st),
              lp_latest_detections := (case dget (lp_session_devices st) session_id of
                 None \<Rightarrow> lp_latest_detections st | Some d \<Rightarrow> ddel d (lp_latest_detections st))\<rparr>)"

text \<open>One pass of the main loop with the live sessions, or with a failure of the database.\<close>

definition main_pass :: "py_error + StreamSession list \<Rightarrow> LoopState \<Rightarrow> LoopState" where
  "main_pass live st =
     (case live of
        Inl e \<Rightarrow> st
      | Inr sessions \<Rightarrow>
          (let st1 = fold (\<lambda>s st. if dget (lp_session_tasks st) (ss_id s) = None then start_session_task s st else st) sessions st
           in fold (\<lambda>i st. if i \<notin> set (map ss_id sessions) then stop_session_task i st else st) (dkeys (lp_session_tasks st1)) st1))"

definition task_begin :: "LoopSettings \<Rightarrow> uuid \<Rightarrow> LoopState \<Rightarrow> LoopState" where
  "task_begin c session_id st =
     (case dget (lp_session_tasks st) session_id of
        None \<Rightarrow> st
      | Some t \<Rightarrow>
          (let g = bg_register session_id (lp_budget st)
           in st\<lparr>lp_budget := g,
                 lp_session_tasks := dput session_id (t\<lparr>tk_interval := interval_for c (tk_model_id t) g\<rparr>) (lp_session_tasks st)\<rparr>))"

text \<open>The end of the coroutine, reached by the loop condition, the tenth error and by a cancelled wait.\<close>

definition task_exit :: "uuid \<Rightarrow> uuid \<Rightarrow> LoopState \<Rightarrow> LoopState" where
  "task_exit session_id device_id st =
     st\<lparr>lp_budget := bg_unregister session_id (lp_budget st), lp_session_tasks := ddel session_id (lp_session_tasks st),
        lp_session_devices := ddel session_id (lp_session_devices st),
        lp_latest_detections := ddel device_id (lp_latest_detections st)\<rparr>"

definition MAX_CONSECUTIVE_ERRORS :: nat where "MAX_CONSECUTIVE_ERRORS = 10"

definition backoff :: "real \<Rightarrow> nat \<Rightarrow> real" where
  "backoff interval consecutive_errors = min (max 1 (interval * 2 ^ consecutive_errors)) 15"

text \<open>What one turn of the loop meets.\<close>

record TurnEnv =
  te_answer :: "py_error + RuntimeResult"
  te_latency :: real
  te_elapsed :: real
  te_utc :: real
  te_clock :: real
  te_new_id :: uuid
  te_db_fails :: "nat \<Rightarrow> py_error option"
  te_parse_float :: "string \<Rightarrow> real option"
  te_int_of :: "jval \<Rightarrow> int"

definition loop_create_violation ::
  "TurnEnv \<Rightarrow> SessionTask \<Rightarrow> RuntimeResult \<Rightarrow> ModelResult \<Rightarrow> Backend \<Rightarrow> Backend" where
  "loop_create_violation env t res r b =
     (case te_db_fails env 1 of
        Some e \<Rightarrow> b
      | None \<Rightarrow>
          (let v = loop_violation (te_parse_float env) (te_int_of env) (te_utc env) (te_new_id env) (tk_device_id t)
                     (dget (bk_devices b) (tk_device_id t)) (tk_session_id t) (tk_model_id t)
                     (case rr_model_version res of None \<Rightarrow> ''1.0.0'' | Some x \<Rightarrow> x) (rr_frame res) r
           in increment_session_counter (te_db_fails env 2) (tk_session_id t) Violations_count (put_violation v b)))"

definition handle_result :: "TurnEnv \<Rightarrow> SessionTask \<Rightarrow> RuntimeResult \<Rightarrow> LoopState \<Rightarrow> Backend \<Rightarrow> LoopState \<times> Backend" where
  "handle_result env t res st b =
     (case rr_result res of
        None \<Rightarrow> (st, b)
      | Some r \<Rightarrow>
          if rr_status res \<noteq> ''success'' then (st, b)
          else
            (let b1 = increment_session_counter (te_db_fails env 0) (tk_session_id t) Frames_processed b;
                 st1 = st\<lparr>lp_latest_detections := dput (tk_device_id t)
                         \<lparr>lt_model_id = tk_model_id t, lt_model_version = rr_model_version res, lt_result = r,
                          lt_frame = rr_frame res, lt_captured_at = te_clock env\<rparr> (lp_latest_detections st)\<rparr>;
                 vst = (case dget (lp_violation_state st1) (tk_session_id t) of None \<Rightarrow> new_violation_state | Some x \<Rightarrow> x);
                 decision = debounce (te_utc env) (tk_confidence_threshold t) r vst
             in (st1\<lparr>lp_violation_state := dput (tk_session_id t) (snd decision) (lp_violation_state st1)\<rparr>,
                 if fst decision then loop_create_violation env t res r b1 else b1)))"

text \<open>One turn: the seconds it sleeps, or nothing when the task ends.\<close>

definition task_turn :: "LoopSettings \<Rightarrow> (uuid \<Rightarrow> string) \<Rightarrow> TurnEnv \<Rightarrow> uuid \<Rightarrow> LoopState \<Rightarrow> Backend \<Rightarrow> real option \<times> LoopState \<times> Backend" where
  "task_turn c show_id env session_id st b =
     (case dget (lp_session_tasks st) session_id of
        None \<Rightarrow> (None, st, b)
      | Some t \<Rightarrow>
          if \<not> lp_running st then (None, task_exit session_id (tk_device_id t) st, b)
          else if vas_stream_is_paused (show_id (tk_device_id t)) st then (Some (tk_interval t), st, b)
          else if \<not> truthy_str (tk_vas_stream_id t) then (Some (tk_interval t), st, b)
          else case te_answer env of
            Inl e \<Rightarrow>
              (let k = Suc (tk_consecutive_errors t)
               in if MAX_CONSECUTIVE_ERRORS \<le> k then (None, task_exit session_id (tk_device_id t) st, b)
                  else (Some (backoff (tk_interval t) k),
                        st\<lparr>lp_session_tasks := dput session_id (t\<lparr>tk_consecutive_errors := k\<rparr>) (lp_session_tasks st)\<rparr>, b))
          | Inr res \<Rightarrow>
              (let st1 = st\<lparr>lp_budget := record_latency (tk_model_id t) (te_latency env) (lp_budget st)\<rparr>
               in case handle_result env t res st1 b of
                    (st2, b2) \<Rightarrow>
                      (let interval = interval_for c (tk_model_id t) (lp_budget st2)
                       in (Some (max 0 (interval - te_elapsed env)),
                           st2\<lparr>lp_session_tasks := dput session_id
                                 (t\<lparr>tk_consecutive_errors := 0, tk_interval := interval\<rparr>) (lp_session_tasks st2)\<rparr>, b2))))"

text \<open>The evidence of a violation, in a task of its own.\<close>

definition capture_violation_evidence ::
  "py_error + string option \<Rightarrow> py_error option \<Rightarrow> real \<Rightarrow> uuid \<Rightarrow> uuid \<Rightarrow> Backend \<Rightarrow> Backend" where
  "capture_violation_evidence snapshot db_fails now new_id violation_id b =
     (case snapshot of
        Inr (Some snapshot_id) \<Rightarrow>
          (case db_fails of
             None \<Rightarrow> b\<lparr>bk_evidence := dput new_id (loop_evidence now new_id violation_id snapshot_id) (bk_evidence b)\<rparr>
           | Some e \<Rightarrow> b)
      | _ \<Rightarrow> b)"

definition get_latest_detection :: "real \<Rightarrow> uuid \<Rightarrow> LoopState \<Rightarrow> (LatestDetection \<times> int) option" where
  "get_latest_detection clock device_id st =
     map_option (\<lambda>d. (d, let x = (clock - lt_captured_at d) * 1000 in if 0 \<le> x then \<lfloor>x\<rfloor> else \<lceil>x\<rceil>)) (dget (lp_latest_detections st) device_id)"

text \<open>
  \<open>stop\<close> walks over the dictionary of tasks and waits for each cancelled one. A task that was cancelled while it
  waited inside its loop (\<open>in_wait\<close>) removes itself from that dictionary, and the next step of the walk raises.
\<close>

fun stop_walk :: "(uuid \<Rightarrow> bool) \<Rightarrow> (uuid \<times> SessionTask) list \<Rightarrow> LoopState \<Rightarrow> (py_error + unit) \<times> LoopState" where
  "stop_walk in_wait [] st = (Inr (), st\<lparr>lp_session_tasks := []\<rparr>)"
| "stop_walk in_wait ((i, t) # rest) st =
     (if in_wait i then (Inl (RuntimeError ''dictionary changed size during iteration''), task_exit i (tk_device_id t) st)
      else stop_walk in_wait rest st)"

definition loop_stop :: "(uuid \<Rightarrow> bool) \<Rightarrow> LoopState \<Rightarrow> (py_error + unit) \<times> LoopState" where
  "loop_stop in_wait st = stop_walk in_wait (lp_session_tasks st) (st\<lparr>lp_running := False\<rparr>)"

section \<open>The budget keeps to its bounds\<close>

definition settings_ok :: "LoopSettings \<Rightarrow> bool" where
  "settings_ok c \<longleftrightarrow> 0 < lc_min_fps c \<and> lc_min_fps c \<le> lc_target_fps c \<and> 0 < lc_max_gpu_utilization c"

lemma default_settings_ok: "settings_ok default_settings"
  by (simp add: settings_ok_def default_settings_def)

lemma fps_for_bounds:
  assumes "settings_ok c"
  shows "lc_min_fps c \<le> fps_for c m g" "fps_for c m g \<le> lc_target_fps c" "0 < fps_for c m g"
  using assms by (auto simp: settings_ok_def fps_for_def Let_def)

lemma interval_for_bounds:
  assumes "settings_ok c"
  shows "1 / lc_target_fps c \<le> interval_for c m g" "interval_for c m g \<le> 1 / lc_min_fps c"
  using fps_for_bounds [OF assms, of m g] assms by (simp_all add: interval_for_def settings_ok_def frac_le)

text \<open>The share of the GPU one session takes, when the lowest rate does not lift it.\<close>

definition within_share :: "LoopSettings \<Rightarrow> InferenceBudget \<Rightarrow> string \<Rightarrow> bool" where
  "within_share c g m \<longleftrightarrow> lc_min_fps c * (real (active_count g) * latency_for m g) \<le> lc_max_gpu_utilization c"

lemma share_le:
  assumes "settings_ok c" "within_share c g m" "0 < active_count g"
  shows "fps_for c m g * latency_for m g \<le> lc_max_gpu_utilization c / real (active_count g)"
proof (cases "0 < latency_for m g")
  case True
  have m: "max 1 (active_count g) = active_count g" using assms(3) by simp
  have nl: "0 < real (active_count g) * latency_for m g" using True assms(3) by simp
  let ?share = "lc_max_gpu_utilization c / (real (active_count g) * latency_for m g)"
  have "lc_min_fps c \<le> ?share" using assms(2) nl by (simp add: within_share_def field_simps)
  then have "fps_for c m g \<le> ?share" using True unfolding fps_for_def Let_def m by simp
  then have "fps_for c m g * latency_for m g \<le> ?share * latency_for m g" using True by (intro mult_right_mono) simp_all
  also have "\<dots> = lc_max_gpu_utilization c / real (active_count g)" using True by simp
  finally show ?thesis .
next
  case False
  then have "fps_for c m g * latency_for m g \<le> 0"
    using fps_for_bounds(3) [OF assms(1), of m g] by (simp add: mult_nonneg_nonpos)
  also have "0 \<le> lc_max_gpu_utilization c / real (active_count g)" using assms(1) by (simp add: settings_ok_def)
  finally show ?thesis .
qed

lemma sum_list_le_const:
  fixes f :: "'a \<Rightarrow> real"
  shows "(\<And>x. x \<in> set xs \<Longrightarrow> f x \<le> k) \<Longrightarrow> (\<Sum>x\<leftarrow>xs. f x) \<le> real (length xs) * k"
proof (induction xs)
  case (Cons x xs)
  have "f x \<le> k" "(\<Sum>x\<leftarrow>xs. f x) \<le> real (length xs) * k" using Cons by simp_all
  then show ?case by (simp add: algebra_simps)
qed simp

lemma demand_le_utilization:
  assumes "settings_ok c" "\<And>i. i \<in> set (ib_active g) \<Longrightarrow> within_share c g (model i)"
  shows "(\<Sum>i\<leftarrow>ib_active g. fps_for c (model i) g * latency_for (model i) g) \<le> lc_max_gpu_utilization c"
proof (cases "ib_active g = []")
  case True
  then show ?thesis using assms(1) by (simp add: settings_ok_def)
next
  case False
  then have n: "0 < active_count g" by (simp add: active_count_def)
  have "(\<Sum>i\<leftarrow>ib_active g. fps_for c (model i) g * latency_for (model i) g)
        \<le> real (active_count g) * (lc_max_gpu_utilization c / real (active_count g))"
    unfolding active_count_def by (intro sum_list_le_const share_le [unfolded active_count_def] assms(1))
      (use assms(2) n in \<open>simp_all add: active_count_def\<close>)
  then show ?thesis using n by simp
qed

lemma latency_of_record:
  "latency_for m (record_latency k x g) =
     (if m = k then (if dget (ib_latency_s g) k = None then x else 3 / 10 * x + 7 / 10 * latency_for k g) else latency_for m g)"
  by (auto simp: latency_for_def record_latency_def dget_or_def LATENCY_EWMA_ALPHA_def split: option.splits)

lemma latencies_bounded:
  assumes "\<And>m x. (m, x) \<in> set obs \<Longrightarrow> lo \<le> x \<and> x \<le> hi" "\<And>m. lo \<le> latency_for m g \<and> latency_for m g \<le> hi"
  shows "lo \<le> latency_for k (fold (\<lambda>(m, x). record_latency m x) obs g) \<and>
         latency_for k (fold (\<lambda>(m, x). record_latency m x) obs g) \<le> hi"
  using assms
proof (induction obs arbitrary: g)
  case (Cons p obs)
  obtain m x where p: "p = (m, x)" by (cases p)
  have x: "lo \<le> x" "x \<le> hi" using Cons.prems(1) p by auto
  have "lo \<le> latency_for k (record_latency m x g) \<and> latency_for k (record_latency m x g) \<le> hi" for k
    using x Cons.prems(2) [of k] Cons.prems(2) [of m] by (auto simp: latency_of_record)
  then show ?case using Cons.IH [of "record_latency m x g"] Cons.prems(1) p by auto
qed simp

section \<open>Which violations are written\<close>

text \<open>
  The specification: a detection at or above the threshold is a new violation unless the last usable result was one
  too and had all its zones. The clock and the cooldown play no part.
\<close>

definition usable_result :: "RuntimeResult \<Rightarrow> ModelResult option" where
  "usable_result res = (if rr_status res = ''success'' then rr_result res else None)"

definition detected :: "real \<Rightarrow> ModelResult \<Rightarrow> bool" where
  "detected threshold r \<longleftrightarrow> mr_violation_detected r \<and> threshold \<le> mr_confidence r"

definition newly_detected :: "real \<Rightarrow> ModelResult option \<Rightarrow> ModelResult \<Rightarrow> bool" where
  "newly_detected threshold last_result r \<longleftrightarrow> detected threshold r \<and>
     (case last_result of None \<Rightarrow> True
      | Some p \<Rightarrow> \<not> detected threshold p \<or> \<not> set (zones_of r) \<subseteq> set (zones_of p))"

definition violation_row :: "Device table \<Rightarrow> SessionTask \<Rightarrow> TurnEnv \<Rightarrow> RuntimeResult \<Rightarrow> ModelResult \<Rightarrow> Violation" where
  "violation_row devices t env res r =
     loop_violation (te_parse_float env) (te_int_of env) (te_utc env) (te_new_id env) (tk_device_id t)
       (dget devices (tk_device_id t)) (tk_session_id t) (tk_model_id t)
       (case rr_model_version res of None \<Rightarrow> ''1.0.0'' | Some x \<Rightarrow> x) (rr_frame res) r"

fun written :: "Device table \<Rightarrow> SessionTask \<Rightarrow> ModelResult option \<Rightarrow> (TurnEnv \<times> RuntimeResult) list \<Rightarrow> Violation list" where
  "written devices t last_result [] = []"
| "written devices t last_result ((env, res) # xs) =
     (case usable_result res of
        None \<Rightarrow> written devices t last_result xs
      | Some r \<Rightarrow> (if newly_detected (tk_confidence_threshold t) last_result r then [violation_row devices t env res r] else []) @
                  written devices t (Some r) xs)"

fun handle_all :: "SessionTask \<Rightarrow> (TurnEnv \<times> RuntimeResult) list \<Rightarrow> LoopState \<times> Backend \<Rightarrow> LoopState \<times> Backend" where
  "handle_all t [] w = w"
| "handle_all t ((env, res) # xs) (st, b) = handle_all t xs (handle_result env t res st b)"

definition session_state :: "uuid \<Rightarrow> LoopState \<Rightarrow> ViolationState" where
  "session_state session_id st = (case dget (lp_violation_state st) session_id of None \<Rightarrow> new_violation_state | Some x \<Rightarrow> x)"

definition reflects :: "real \<Rightarrow> ModelResult option \<Rightarrow> ViolationState \<Rightarrow> bool" where
  "reflects threshold last_result v \<longleftrightarrow>
     vst_was_in_violation v = (\<exists>p. last_result = Some p \<and> detected threshold p) \<and>
     vst_active_zones v = (case last_result of None \<Rightarrow> [] | Some p \<Rightarrow> if detected threshold p then zones_of p else [])"

lemma reflects_new [simp]: "reflects threshold None new_violation_state"
  by (simp add: reflects_def new_violation_state_def)

lemma debounce_spec:
  assumes "reflects threshold last_result v"
  shows "fst (debounce now threshold r v) = newly_detected threshold last_result r"
    "reflects threshold (Some r) (snd (debounce now threshold r v))"
  using assms
  by (auto simp: debounce_def should_create_def newly_detected_def detected_def reflects_def Let_def filter_empty_conv
      split: option.splits)

lemma violation_row_id [simp]: "vi_id (violation_row D t env res r) = te_new_id env"
  by (simp add: violation_row_def loop_violation_def Let_def)

lemma increment_ok:
  assumes "dget (bk_sessions b) i = Some s"
  shows "increment_session_counter None i Frames_processed b =
      b\<lparr>bk_sessions := dput i (s\<lparr>ss_frames_processed := ss_frames_processed s + 1\<rparr>) (bk_sessions b)\<rparr>"
    "increment_session_counter None i Violations_count b =
      b\<lparr>bk_sessions := dput i (s\<lparr>ss_violations_count := ss_violations_count s + 1\<rparr>) (bk_sessions b)\<rparr>"
  using assms by (simp_all add: increment_session_counter_def)

lemma handle_unusable: "usable_result res = None \<Longrightarrow> handle_result env t res st b = (st, b)"
  by (auto simp: handle_result_def usable_result_def split: if_splits option.splits)

lemma handle_usable:
  assumes "usable_result res = Some r" "te_db_fails env = (\<lambda>_. None)" "dget (bk_sessions b) (tk_session_id t) = Some s"
    "dget (bk_violations b) (te_new_id env) = None"
    "reflects (tk_confidence_threshold t) last_result (session_state (tk_session_id t) st)"
    "handle_result env t res st b = (st', b')"
  defines "new \<equiv> newly_detected (tk_confidence_threshold t) last_result r"
  shows "reflects (tk_confidence_threshold t) (Some r) (session_state (tk_session_id t) st')"
    "bk_violations b' = bk_violations b @ (if new then [(te_new_id env, violation_row (bk_devices b) t env res r)] else [])"
    "bk_devices b' = bk_devices b"
    "dget (bk_sessions b') (tk_session_id t) = Some (s\<lparr>ss_frames_processed := ss_frames_processed s + 1,
       ss_violations_count := ss_violations_count s + (if new then 1 else 0)\<rparr>)"
proof -
  have ok: "rr_result res = Some r" "rr_status res = ''success''" using assms(1) by (auto simp: usable_result_def split: if_splits)
  note d = debounce_spec [OF assms(5), where now = "te_utc env" and r = r, folded new_def]
  let ?b1 = "increment_session_counter None (tk_session_id t) Frames_processed b"
  have s1: "dget (bk_sessions ?b1) (tk_session_id t) = Some (s\<lparr>ss_frames_processed := ss_frames_processed s + 1\<rparr>)"
    by (simp add: increment_ok [OF assms(3)])
  have b1: "bk_violations ?b1 = bk_violations b" "bk_devices ?b1 = bk_devices b" by (simp_all add: increment_ok [OF assms(3)])
  have b': "b' = (if new then loop_create_violation env t res r ?b1 else ?b1)"
    and st': "session_state (tk_session_id t) st' =
      snd (debounce (te_utc env) (tk_confidence_threshold t) r (session_state (tk_session_id t) st))"
    using assms(6) d(1) by (auto simp: handle_result_def ok assms(2) session_state_def Let_def)
  show "reflects (tk_confidence_threshold t) (Some r) (session_state (tk_session_id t) st')" using d(2) st' by simp
  let ?v = "violation_row (bk_devices b) t env res r"
  have c: "loop_create_violation env t res r ?b1 =
      increment_session_counter None (tk_session_id t) Violations_count (put_violation ?v ?b1)"
    by (simp add: loop_create_violation_def assms(2) violation_row_def b1 loop_violation_def Let_def)
  have s2: "dget (bk_sessions (put_violation ?v ?b1)) (tk_session_id t) = Some (s\<lparr>ss_frames_processed := ss_frames_processed s + 1\<rparr>)"
    using s1 by simp
  note c2 = trans [OF c increment_ok(2) [OF s2]]
  show "bk_violations b' = bk_violations b @ (if new then [(te_new_id env, ?v)] else [])"
    by (simp add: b' c2 b1 dput_new [OF assms(4)])
  show "bk_devices b' = bk_devices b" by (simp add: b' c2 b1)
  show "dget (bk_sessions b') (tk_session_id t) = Some (s\<lparr>ss_frames_processed := ss_frames_processed s + 1,
       ss_violations_count := ss_violations_count s + (if new then 1 else 0)\<rparr>)"
    by (simp add: b' c2 s1)
qed

lemma distinct_new_id:
  "distinct (map (te_new_id \<circ> fst) ((env, res) # xs)) \<Longrightarrow> (e, x) \<in> set xs \<Longrightarrow> te_new_id e \<noteq> te_new_id env"
  by (force simp: comp_def)

lemma handle_all_written:
  assumes "\<And>env res. (env, res) \<in> set xs \<Longrightarrow> te_db_fails env = (\<lambda>_. None)" "distinct (map (te_new_id \<circ> fst) xs)"
    "\<And>env res. (env, res) \<in> set xs \<Longrightarrow> dget (bk_violations b) (te_new_id env) = None"
    "dget (bk_sessions b) (tk_session_id t) = Some s"
    "reflects (tk_confidence_threshold t) last_result (session_state (tk_session_id t) st)"
    "handle_all t xs (st, b) = (st', b')"
  defines "rows \<equiv> written (bk_devices b) t last_result xs"
  shows "bk_violations b' = bk_violations b @ map (\<lambda>v. (vi_id v, v)) rows \<and>
    dget (bk_sessions b') (tk_session_id t) =
      Some (s\<lparr>ss_frames_processed := ss_frames_processed s + int (length (List.map_filter (usable_result \<circ> snd) xs)),
              ss_violations_count := ss_violations_count s + int (length rows)\<rparr>)"
  using assms(1-6) unfolding rows_def
proof (induction xs arbitrary: st b s last_result)
  case (Cons p xs)
  obtain env res where p: "p = (env, res)" by (cases p)
  obtain st1 b1 where h: "handle_result env t res st b = (st1, b1)" by (cases "handle_result env t res st b")
  have rest: "handle_all t xs (st1, b1) = (st', b')" using Cons.prems(6) h p by simp
  have ids: "te_new_id e \<noteq> te_new_id env" if "(e, x) \<in> set xs" for e x by (rule distinct_new_id [OF Cons.prems(2) [unfolded p] that])
  have xs: "\<And>e x. (e, x) \<in> set xs \<Longrightarrow> te_db_fails e = (\<lambda>_. None)" "distinct (map (te_new_id \<circ> fst) xs)"
    using Cons.prems(1,2) by (auto simp: comp_def)
  show ?case
  proof (cases "usable_result res")
    case None
    then have w: "st1 = st" "b1 = b" using h handle_unusable by auto
    have fresh: "dget (bk_violations b) (te_new_id e) = None" if "(e, x) \<in> set xs" for e x using Cons.prems(3) [of e x] that by simp
    show ?thesis using Cons.IH [OF xs fresh Cons.prems(4,5) rest [unfolded w]] p None by (simp add: map_filter_simps)
  next
    case (Some r)
    have e: "te_db_fails env = (\<lambda>_. None)" "dget (bk_violations b) (te_new_id env) = None" using Cons.prems(1,3) p by auto
    note one = handle_usable [OF Some e(1) Cons.prems(4) e(2) Cons.prems(5) h]
    have fresh: "dget (bk_violations b1) (te_new_id e) = None" if "(e, x) \<in> set xs" for e x
      using Cons.prems(3) [of e x] ids [OF that] that unfolding one(2) by (simp add: map_add_def)
    show ?thesis using Cons.IH [OF xs fresh one(4,1) rest] unfolding one(2,3) using p Some by (simp add: map_filter_simps)
  qed
qed (simp add: map_filter_simps)

section \<open>Runs of the service\<close>

text \<open>
  One step of the event loop: a notification of VAS, a start, a pass of the main loop over whatever sessions the query
  gives, the beginning of a task, a turn, the end of a task that was stopped before, or a call of \<open>stop\<close> when there
  is no task or one that waits in its loop. A call of \<open>stop\<close> while tasks run and none waits is left out:
  it clears their entries without ending them properly (\<open>stop_leaves_entries\<close>).
\<close>

inductive ilstep :: "LoopSettings \<Rightarrow> (uuid \<Rightarrow> string) \<Rightarrow> LoopState \<times> Backend \<Rightarrow> LoopState \<times> Backend \<Rightarrow> bool" for c show_id where
  activated: "ilstep c show_id (st, b) (activate stream_id st, b)"
| paused: "ilstep c show_id (st, b) (pause stream_id st, b)"
| started: "ilstep c show_id (st, b) (loop_start st, b)"
| passed: "ilstep c show_id (st, b) (main_pass live st, b)"
| begun: "ilstep c show_id (st, b) (task_begin c i st, b)"
| turned: "task_turn c show_id env i st b = (sleep, st', b') \<Longrightarrow> ilstep c show_id (st, b) (st', b')"
| cancelled: "dget (lp_session_tasks st) i = None \<Longrightarrow> ilstep c show_id (st, b) (task_exit i d st, b)"
| stopped: "lp_session_tasks st = [] \<or> (\<exists>i. in_wait i \<and> dget (lp_session_tasks st) i \<noteq> None) \<Longrightarrow>
    ilstep c show_id (st, b) (snd (loop_stop in_wait st), b)"

definition tasks_agree :: "LoopState \<Rightarrow> bool" where
  "tasks_agree st \<longleftrightarrow> (\<forall>i t. dget (lp_session_tasks st) i = Some t \<longrightarrow> tk_session_id t = i) \<and>
     (\<forall>i. dget (lp_session_devices st) i = map_option tk_device_id (dget (lp_session_tasks st) i))"

definition overlays_live :: "LoopState \<Rightarrow> bool" where
  "overlays_live st \<longleftrightarrow> (\<forall>d. dget (lp_latest_detections st) d \<noteq> None \<longrightarrow>
     (\<exists>i t. dget (lp_session_tasks st) i = Some t \<and> tk_device_id t = d))"

definition budget_live :: "LoopState \<Rightarrow> bool" where
  "budget_live st \<longleftrightarrow> distinct (ib_active (lp_budget st)) \<and> (\<forall>i\<in>set (ib_active (lp_budget st)). dget (lp_session_tasks st) i \<noteq> None)"

definition loop_ok :: "LoopState \<Rightarrow> bool" where
  "loop_ok st \<longleftrightarrow> tasks_agree st \<and> overlays_live st \<and> budget_live st"

lemma loop_ok_new [simp]: "loop_ok new_loop"
  by (simp add: loop_ok_def tasks_agree_def overlays_live_def budget_live_def new_loop_def new_budget_def)

lemma loop_ok_cong:
  assumes "lp_session_tasks st' = lp_session_tasks st" "lp_session_devices st' = lp_session_devices st"
    "lp_latest_detections st' = lp_latest_detections st" "ib_active (lp_budget st') = ib_active (lp_budget st)"
  shows "loop_ok st' = loop_ok st"
  unfolding loop_ok_def tasks_agree_def overlays_live_def budget_live_def assms ..

lemma tasks_agreeD:
  assumes "tasks_agree st" "dget (lp_session_tasks st) i = Some t"
  shows "tk_session_id t = i" "dget (lp_session_devices st) i = Some (tk_device_id t)"
  using assms by (simp_all add: tasks_agree_def)

lemma bg_register_active [simp]: "ib_active (bg_register i g) = List.insert i (ib_active g)"
  by (simp add: bg_register_def)

lemma bg_unregister_active [simp]: "ib_active (bg_unregister i g) = removeAll i (ib_active g)"
  by (simp add: bg_unregister_def)

lemma loop_ok_exit:
  assumes "loop_ok st" "\<And>t. dget (lp_session_tasks st) i = Some t \<Longrightarrow> tk_device_id t = d"
  shows "loop_ok (task_exit i d st)"
proof -
  have "tasks_agree (task_exit i d st)"
    using assms(1) by (auto simp: loop_ok_def tasks_agree_def task_exit_def)
  moreover have "overlays_live (task_exit i d st)"
    unfolding overlays_live_def
  proof (intro allI impI)
    fix e assume "dget (lp_latest_detections (task_exit i d st)) e \<noteq> None"
    then have e: "e \<noteq> d" "dget (lp_latest_detections st) e \<noteq> None" by (auto simp: task_exit_def split: if_splits)
    then obtain k t where k: "dget (lp_session_tasks st) k = Some t" "tk_device_id t = e"
      using assms(1) by (auto simp: loop_ok_def overlays_live_def)
    then have "k \<noteq> i" using assms(2) e(1) by auto
    then show "\<exists>k t. dget (lp_session_tasks (task_exit i d st)) k = Some t \<and> tk_device_id t = e"
      using k by (auto simp: task_exit_def)
  qed
  moreover have "budget_live (task_exit i d st)"
    using assms(1) by (auto simp: loop_ok_def budget_live_def task_exit_def distinct_removeAll)
  ultimately show ?thesis by (simp add: loop_ok_def)
qed

lemma stop_session_task_exit:
  assumes "tasks_agree st" "dget (lp_session_tasks st) i = Some t"
  shows "stop_session_task i st = task_exit i (tk_device_id t) st"
  using assms(2) tasks_agreeD(2) [OF assms] by (simp add: stop_session_task_def task_exit_def)

lemma loop_ok_stop: "loop_ok st \<Longrightarrow> loop_ok (stop_session_task i st)"
proof (cases "dget (lp_session_tasks st) i")
  case (Some t)
  assume ok: "loop_ok st"
  then have "stop_session_task i st = task_exit i (tk_device_id t) st"
    by (intro stop_session_task_exit Some) (simp add: loop_ok_def)
  with loop_ok_exit [OF ok, of i "tk_device_id t"] Some show ?thesis by simp
qed (simp add: stop_session_task_def)

lemma loop_ok_put_task:
  assumes "loop_ok st" "dget (lp_session_tasks st) i = Some t" "tk_session_id t' = tk_session_id t" "tk_device_id t' = tk_device_id t"
  shows "loop_ok (st\<lparr>lp_session_tasks := dput i t' (lp_session_tasks st)\<rparr>)"
proof -
  have "tasks_agree (st\<lparr>lp_session_tasks := dput i t' (lp_session_tasks st)\<rparr>)"
    using assms by (auto simp: loop_ok_def tasks_agree_def)
  moreover have "overlays_live (st\<lparr>lp_session_tasks := dput i t' (lp_session_tasks st)\<rparr>)"
    unfolding overlays_live_def
  proof (intro allI impI)
    fix d assume "dget (lp_latest_detections (st\<lparr>lp_session_tasks := dput i t' (lp_session_tasks st)\<rparr>)) d \<noteq> None"
    then obtain k u where k: "dget (lp_session_tasks st) k = Some u" "tk_device_id u = d"
      using assms(1) by (auto simp: loop_ok_def overlays_live_def)
    show "\<exists>k u. dget (lp_session_tasks (st\<lparr>lp_session_tasks := dput i t' (lp_session_tasks st)\<rparr>)) k = Some u \<and> tk_device_id u = d"
      using k assms(2,4) by (intro exI [of _ k] exI [of _ "if k = i then t' else u"]) auto
  qed
  moreover have "budget_live (st\<lparr>lp_session_tasks := dput i t' (lp_session_tasks st)\<rparr>)"
    using assms(1) by (auto simp: loop_ok_def budget_live_def)
  ultimately show ?thesis by (simp add: loop_ok_def)
qed

lemma loop_ok_start_task:
  assumes "loop_ok st" "dget (lp_session_tasks st) (ss_id s) = None"
  shows "loop_ok (start_session_task s st)"
proof -
  have "tasks_agree (start_session_task s st)"
    using assms(1) by (auto simp: loop_ok_def tasks_agree_def start_session_task_def)
  moreover have "overlays_live (start_session_task s st)"
    unfolding overlays_live_def
  proof (intro allI impI)
    fix d assume "dget (lp_latest_detections (start_session_task s st)) d \<noteq> None"
    then obtain k t where k: "dget (lp_session_tasks st) k = Some t" "tk_device_id t = d"
      using assms(1) by (auto simp: loop_ok_def overlays_live_def start_session_task_def)
    then show "\<exists>k t. dget (lp_session_tasks (start_session_task s st)) k = Some t \<and> tk_device_id t = d"
      using assms(2) by (intro exI [of _ k] exI [of _ t]) (auto simp: start_session_task_def)
  qed
  moreover have "budget_live (start_session_task s st)"
    using assms(1) by (auto simp: loop_ok_def budget_live_def start_session_task_def)
  ultimately show ?thesis by (simp add: loop_ok_def)
qed


lemma loop_ok_begin: "loop_ok st \<Longrightarrow> loop_ok (task_begin c i st)"
proof (cases "dget (lp_session_tasks st) i")
  case (Some t)
  assume ok: "loop_ok st"
  let ?g = "bg_register i (lp_budget st)"
  have "loop_ok (st\<lparr>lp_budget := ?g\<rparr>)"
    using ok Some by (auto simp: loop_ok_def tasks_agree_def overlays_live_def budget_live_def)
  from loop_ok_put_task [OF this, of i t "t\<lparr>tk_interval := interval_for c (tk_model_id t) ?g\<rparr>"]
  show ?thesis using Some by (simp add: task_begin_def Let_def)
qed (simp add: task_begin_def)

lemma fold_keeps: "P a \<Longrightarrow> (\<And>x a. P a \<Longrightarrow> P (f x a)) \<Longrightarrow> P (fold f xs a)"
  by (induction xs arbitrary: a) simp_all

lemma loop_ok_pass: "loop_ok st \<Longrightarrow> loop_ok (main_pass live st)"
proof (cases live)
  case (Inr sessions)
  assume ok: "loop_ok st"
  let ?st1 = "fold (\<lambda>s st. if dget (lp_session_tasks st) (ss_id s) = None then start_session_task s st else st) sessions st"
  have "loop_ok ?st1" using ok by (rule fold_keeps) (simp add: loop_ok_start_task)
  then have "loop_ok (fold (\<lambda>i st. if i \<notin> set (map ss_id sessions) then stop_session_task i st else st) (dkeys (lp_session_tasks ?st1)) ?st1)"
    by (rule fold_keeps) (simp add: loop_ok_stop)
  then show ?thesis by (simp only: main_pass_def Inr sum.case Let_def)
qed (simp add: main_pass_def)

lemma handle_result_loop:
  assumes "handle_result env t res st b = (st', b')"
  shows "lp_session_tasks st' = lp_session_tasks st" "lp_session_devices st' = lp_session_devices st"
    "lp_budget st' = lp_budget st" "dget (lp_latest_detections st') d \<noteq> None \<Longrightarrow> d = tk_device_id t \<or> dget (lp_latest_detections st) d \<noteq> None"
  using assms by (auto simp: handle_result_def Let_def split: option.splits if_splits)

lemma loop_ok_handle:
  assumes "loop_ok st" "dget (lp_session_tasks st) i = Some t" "handle_result env t res st b = (st', b')"
  shows "loop_ok st'"
  using assms(1,2) handle_result_loop(4) [OF assms(3)]
  unfolding loop_ok_def tasks_agree_def overlays_live_def budget_live_def handle_result_loop(1-3) [OF assms(3)] by blast

lemma loop_ok_turn:
  assumes "loop_ok st" "task_turn c show_id env i st b = (sleep, st', b')"
  shows "loop_ok st'"
proof (cases "dget (lp_session_tasks st) i")
  case (Some t)
  show ?thesis
  proof (cases "lp_running st \<and> \<not> vas_stream_is_paused (show_id (tk_device_id t)) st \<and> truthy_str (tk_vas_stream_id t)")
    case False
    then show ?thesis using assms loop_ok_exit [OF assms(1), of i "tk_device_id t"] Some by (auto simp: task_turn_def split: if_splits)
  next
    case go: True
    show ?thesis
    proof (cases "te_answer env")
      case (Inl e)
      then show ?thesis
        using assms(2) go Some loop_ok_exit [OF assms(1), of i "tk_device_id t"]
          loop_ok_put_task [OF assms(1) Some, of "t\<lparr>tk_consecutive_errors := Suc (tk_consecutive_errors t)\<rparr>"]
        by (auto simp: task_turn_def Let_def split: if_splits)
    next
      case (Inr res)
      let ?st1 = "st\<lparr>lp_budget := record_latency (tk_model_id t) (te_latency env) (lp_budget st)\<rparr>"
      obtain st2 b2 where h: "handle_result env t res ?st1 b = (st2, b2)" by (cases "handle_result env t res ?st1 b")
      have "loop_ok ?st1" using assms(1) by (simp add: loop_ok_def tasks_agree_def overlays_live_def budget_live_def record_latency_def)
      then have ok2: "loop_ok st2" by (rule loop_ok_handle [OF _ _ h, where i = i]) (simp add: Some)
      have t2: "dget (lp_session_tasks st2) i = Some t" using handle_result_loop(1) [OF h] Some by simp
      show ?thesis using assms(2) go Some Inr h
          loop_ok_put_task [OF ok2 t2, of "t\<lparr>tk_consecutive_errors := 0, tk_interval := interval_for c (tk_model_id t) (lp_budget st2)\<rparr>"]
        by (auto simp: task_turn_def Let_def)
    qed
  qed
qed (use assms in \<open>simp add: task_turn_def\<close>)

lemma stop_walk_waits:
  "in_wait i \<Longrightarrow> dget xs i \<noteq> None \<Longrightarrow>
   \<exists>j t e. in_wait j \<and> dget xs j = Some t \<and> stop_walk in_wait xs st = (Inl e, task_exit j (tk_device_id t) st)"
proof (induction xs)
  case (Cons x xs)
  obtain k t where x: "x = (k, t)" by fastforce
  show ?case
  proof (cases "in_wait k")
    case True
    then show ?thesis using x by auto
  next
    case False
    then have "dget xs i \<noteq> None" using Cons.prems x by (auto split: if_splits)
    with Cons obtain j t' e where "dget xs j = Some t'" "stop_walk in_wait xs st = (Inl e, task_exit j (tk_device_id t') st)"
      "in_wait j"
      by blast
    then show ?thesis using False x by (intro exI [of _ j] exI [of _ t'] exI [of _ e]) auto
  qed
qed simp

lemma loop_ok_stopped:
  assumes ok: "loop_ok st" and w: "lp_session_tasks st = [] \<or> (\<exists>i. in_wait i \<and> dget (lp_session_tasks st) i \<noteq> None)"
  shows "loop_ok (snd (loop_stop in_wait st))"
proof -
  let ?st = "st\<lparr>lp_running := False\<rparr>"
  have ok': "loop_ok ?st" using ok loop_ok_cong [of ?st st] by simp
  show ?thesis
  proof (cases "lp_session_tasks st = []")
    case True
    then show ?thesis using ok' loop_ok_cong [of "?st\<lparr>lp_session_tasks := []\<rparr>" ?st] by (simp add: loop_stop_def)
  next
    case False
    then obtain i where i: "in_wait i" "dget (lp_session_tasks st) i \<noteq> None" using w by blast
    from stop_walk_waits [where in_wait = in_wait and xs = "lp_session_tasks st" and i = i and st = ?st, OF i]
    obtain j t where
      "dget (lp_session_tasks st) j = Some t" "snd (loop_stop in_wait st) = task_exit j (tk_device_id t) ?st"
      by (auto simp: loop_stop_def)
    then show ?thesis using loop_ok_exit [OF ok', of j "tk_device_id t"] by simp
  qed
qed

lemma ilstep_ok: "ilstep c show_id w w' \<Longrightarrow> loop_ok (fst w) \<Longrightarrow> loop_ok (fst w')"
proof (induction rule: ilstep.induct)
  case (activated st b stream_id)
  then show ?case using loop_ok_cong [of "activate stream_id st" st] by (simp add: activate_def)
next
  case (paused st b stream_id)
  then show ?case using loop_ok_cong [of "pause stream_id st" st] by (simp add: pause_def)
next
  case (started st b)
  then show ?case using loop_ok_cong [of "loop_start st" st] by (simp add: loop_start_def)
qed (auto intro: loop_ok_pass loop_ok_begin loop_ok_turn loop_ok_exit loop_ok_stopped)

interpretation inference_loop: invariant_system "\<lambda>w. fst w = new_loop" "ilstep c show_id" "\<lambda>w. loop_ok (fst w)" for c show_id
  by unfold_locales (auto dest: ilstep_ok)

lemma distinct_le_dict: "distinct xs \<Longrightarrow> (\<forall>i\<in>set xs. dget m i \<noteq> None) \<Longrightarrow> length xs \<le> length m"
proof -
  assume "distinct xs" "\<forall>i\<in>set xs. dget m i \<noteq> None"
  then have "card (set xs) \<le> card (set (dkeys m))" unfolding set_dkeys by (intro card_mono) (use finite_set [of "dkeys m", unfolded set_dkeys] in \<open>auto\<close>)
  also have "\<dots> \<le> length (dkeys m)" by (rule card_length)
  finally show "length xs \<le> length m" using \<open>distinct xs\<close> by (simp add: distinct_card)
qed

section \<open>Passes of the main loop and tasks that fail\<close>

lemma start_session_task_tasks [simp]:
  "lp_session_tasks (start_session_task s st) = dput (ss_id s) (session_task s) (lp_session_tasks st)"
  by (simp add: start_session_task_def)

lemma stop_session_task_tasks [simp]:
  "dget (lp_session_tasks (stop_session_task i st)) k = (if k = i then None else dget (lp_session_tasks st) k)"
  by (simp add: stop_session_task_def)

lemma start_all_tasks:
  "dget (lp_session_tasks (fold (\<lambda>s st. if dget (lp_session_tasks st) (ss_id s) = None then start_session_task s st else st) sessions st)) i =
     (case dget (lp_session_tasks st) i of
        Some t \<Rightarrow> Some t
      | None \<Rightarrow> map_option session_task (List.find (\<lambda>s. ss_id s = i) sessions))"
  by (induction sessions arbitrary: st) (auto split: option.splits)

lemma stop_all_tasks:
  "dget (lp_session_tasks (fold (\<lambda>i st. if i \<notin> live then stop_session_task i st else st) keys st)) i =
     (if i \<in> set keys \<and> i \<notin> live then None else dget (lp_session_tasks st) i)"
  by (induction keys arbitrary: st) auto

lemma in_dkeys: "k \<in> fst ` set m \<longleftrightarrow> dget m k \<noteq> None"
  using set_dkeys [of m] by auto

lemma main_pass_tasks:
  "dget (lp_session_tasks (main_pass (Inr sessions) st)) i =
     (if i \<notin> ss_id ` set sessions then None
      else case dget (lp_session_tasks st) i of
        Some t \<Rightarrow> Some t
      | None \<Rightarrow> map_option session_task (List.find (\<lambda>s. ss_id s = i) sessions))"
  unfolding main_pass_def sum.case Let_def stop_all_tasks start_all_tasks
  by (auto simp: in_dkeys start_all_tasks find_None_iff split: option.splits)

fun turns :: "LoopSettings \<Rightarrow> (uuid \<Rightarrow> string) \<Rightarrow> uuid \<Rightarrow> TurnEnv list \<Rightarrow> LoopState \<Rightarrow> Backend \<Rightarrow> real list \<times> LoopState \<times> Backend" where
  "turns c show_id i [] st b = ([], st, b)"
| "turns c show_id i (env # envs) st b =
     (case task_turn c show_id env i st b of
        (None, w) \<Rightarrow> ([], w)
      | (Some x, st1, b1) \<Rightarrow> (case turns c show_id i envs st1 b1 of (xs, w) \<Rightarrow> (x # xs, w)))"

definition failing :: "TurnEnv \<Rightarrow> bool" where
  "failing env \<longleftrightarrow> isl (te_answer env)"

definition ready_task :: "(uuid \<Rightarrow> string) \<Rightarrow> LoopState \<Rightarrow> SessionTask \<Rightarrow> bool" where
  "ready_task show_id st t \<longleftrightarrow>
     lp_running st \<and> \<not> vas_stream_is_paused (show_id (tk_device_id t)) st \<and> truthy_str (tk_vas_stream_id t)"

lemma failing_turn:
  assumes "dget (lp_session_tasks st) i = Some t" "ready_task show_id st t" "failing env"
  shows "task_turn c show_id env i st b =
    (if MAX_CONSECUTIVE_ERRORS \<le> Suc (tk_consecutive_errors t) then (None, task_exit i (tk_device_id t) st, b)
     else (Some (backoff (tk_interval t) (Suc (tk_consecutive_errors t))),
           st\<lparr>lp_session_tasks := dput i (t\<lparr>tk_consecutive_errors := Suc (tk_consecutive_errors t)\<rparr>) (lp_session_tasks st)\<rparr>, b))"
  using assms by (auto simp: task_turn_def ready_task_def failing_def isl_def Let_def)

lemma task_exit_put: "task_exit i d (st\<lparr>lp_session_tasks := dput i t (lp_session_tasks st)\<rparr>) = task_exit i d st"
  by (simp add: task_exit_def delete_update_same)

lemma failing_turns:
  assumes "dget (lp_session_tasks st) i = Some t" "ready_task show_id st t" "\<forall>env\<in>set envs. failing env"
    "length envs + tk_consecutive_errors t = MAX_CONSECUTIVE_ERRORS" "envs \<noteq> []"
  shows "turns c show_id i envs st b =
    (map (backoff (tk_interval t)) [Suc (tk_consecutive_errors t)..<MAX_CONSECUTIVE_ERRORS], task_exit i (tk_device_id t) st, b)"
  using assms
proof (induction envs arbitrary: st t)
  case (Cons env envs)
  let ?k = "Suc (tk_consecutive_errors t)"
  note turn = failing_turn [OF Cons.prems(1,2), of env c b]
  show ?case
  proof (cases "envs = []")
    case True
    then show ?thesis using turn Cons.prems(3,4) by simp
  next
    case False
    then have k: "?k < MAX_CONSECUTIVE_ERRORS" using Cons.prems(4) by (cases envs) auto
    let ?t = "t\<lparr>tk_consecutive_errors := ?k\<rparr>"
    let ?st = "st\<lparr>lp_session_tasks := dput i ?t (lp_session_tasks st)\<rparr>"
    have "ready_task show_id ?st ?t" using Cons.prems(2) by (simp add: ready_task_def vas_stream_is_paused_def)
    then have "turns c show_id i envs ?st b = (map (backoff (tk_interval t)) [Suc ?k..<MAX_CONSECUTIVE_ERRORS], task_exit i (tk_device_id t) st, b)"
      using Cons.IH [of ?st ?t] Cons.prems(3,4) False by (simp add: task_exit_put)
    then show ?thesis using turn Cons.prems(3) k by (simp add: upt_conv_Cons)
  qed
qed simp

lemma backoff_bounds: "1 \<le> backoff interval k" "backoff interval k \<le> 15"
  by (simp_all add: backoff_def)

text \<open>\<open>stop\<close> raises as soon as a task it cancels was waiting in its loop, and the main loop is then not cancelled.\<close>

lemma stop_raises:
  assumes "in_wait i" "dget (lp_session_tasks st) i = Some t"
  shows "\<exists>msg. fst (loop_stop in_wait st) = Inl (RuntimeError msg)"
proof -
  have "\<exists>msg. fst (stop_walk in_wait xs s) = Inl (RuntimeError msg)" if "(i, u) \<in> set xs" for xs s u
    using that by (induction xs arbitrary: s) (auto simp: assms(1))
  then show ?thesis using map_of_SomeD [OF assms(2)] unfolding loop_stop_def by blast
qed

text \<open>
  Tasks that \<open>stop\<close> cancels while they wait outside of their loop leave their devices, their last detections and their
  shares of the budget behind.
\<close>

lemma stop_leaves_entries:
  assumes "\<And>i. dget (lp_session_tasks st) i \<noteq> None \<Longrightarrow> \<not> in_wait i"
  shows "loop_stop in_wait st = (Inr (), st\<lparr>lp_running := False, lp_session_tasks := []\<rparr>)"
proof -
  have "stop_walk in_wait xs s = (Inr (), s\<lparr>lp_session_tasks := []\<rparr>)" if "\<And>i. dget xs i \<noteq> None \<Longrightarrow> \<not> in_wait i" for xs s
    using that
  proof (induction xs)
    case (Cons x xs)
    have "\<not> in_wait (fst x)" using Cons.prems [of "fst x"] by (cases x) simp
    moreover have "dget xs i \<noteq> None \<Longrightarrow> \<not> in_wait i" for i using Cons.prems [of i] by (cases x) (auto split: if_splits)
    ultimately show ?case using Cons.IH by (cases x) simp
  qed simp
  then show ?thesis using assms unfolding loop_stop_def by simp
qed

text \<open>The state of violation of a session stays when its task ends, and a new task takes it up.\<close>

lemma violation_state_kept:
  "lp_violation_state (main_pass live st) = lp_violation_state st"
  "lp_violation_state (task_exit i d st) = lp_violation_state st"
proof -
  let ?P = "\<lambda>s. lp_violation_state s = lp_violation_state st"
  have a: "?P s \<Longrightarrow> ?P (start_session_task x s)" "?P s \<Longrightarrow> ?P (stop_session_task i s)" for x i s
    by (simp_all add: start_session_task_def stop_session_task_def)
  show "?P (main_pass live st)"
  proof (cases live)
    case (Inr sessions)
    show ?thesis unfolding main_pass_def Inr sum.case Let_def
      by (intro fold_keeps [where P = ?P]) (simp_all add: a)
  qed (simp add: main_pass_def)
  show "?P (task_exit i d st)" by (simp add: task_exit_def)
qed

section \<open>The properties\<close>

definition demo_loop :: LoopState where
  "demo_loop = main_pass (Inr [demo_live]) (loop_start new_loop)"

definition demo_task :: SessionTask where "demo_task = session_task demo_live"

definition demo_env :: "uuid \<Rightarrow> TurnEnv" where
  "demo_env i = \<lparr>te_answer = Inl (RuntimeError ''no frame''), te_latency = 1 / 4, te_elapsed = 0, te_utc = of_nat i, te_clock = of_nat i,
     te_new_id = i, te_db_fails = (\<lambda>_. None), te_parse_float = (\<lambda>_. None), te_int_of = (\<lambda>_. 0)\<rparr>"

definition demo_result :: "string list \<Rightarrow> RuntimeResult" where
  "demo_result zones = \<lparr>rr_status = ''success'', rr_result = Some
     \<lparr>mr_violation_detected = zones \<noteq> [], mr_confidence = 9 / 10, mr_violation_type = Some ''zone_intrusion'',
      mr_detections = map (\<lambda>z. \<lparr>md_zone_id = Some z, md_in_zone = True, md_bbox = None, md_confidence = 9 / 10\<rparr>) zones\<rparr>,
     rr_model_version = None, rr_frame = None\<rparr>"

lemma demo_loop_eq: "demo_loop = new_loop\<lparr>lp_running := True, lp_session_tasks := [(40, demo_task)], lp_session_devices := [(40, 1)]\<rparr>"
  by (simp add: demo_loop_def main_pass_def start_session_task_def demo_task_def loop_start_def new_loop_def demo_live_def)

lemma demo_task_fields:
  "tk_session_id demo_task = 40" "tk_device_id demo_task = 1" "tk_confidence_threshold demo_task = 7 / 10"
  "tk_consecutive_errors demo_task = 0" "tk_vas_stream_id demo_task = Some ''v2''" "tk_interval demo_task = 0"
  by (simp_all add: demo_task_def session_task_def demo_live_def demo_options_def live_session_def new_session_def)

text \<open>The usable results that begin a violation, and what the row of one of them says.\<close>

fun begun :: "SessionTask \<Rightarrow> ModelResult option \<Rightarrow> (TurnEnv \<times> RuntimeResult) list \<Rightarrow> (TurnEnv \<times> RuntimeResult \<times> ModelResult) list" where
  "begun t last_result [] = []"
| "begun t last_result ((env, res) # xs) =
     (case usable_result res of
        None \<Rightarrow> begun t last_result xs
      | Some r \<Rightarrow> (if newly_detected (tk_confidence_threshold t) last_result r then [(env, res, r)] else []) @ begun t (Some r) xs)"

definition records_result :: "Device table \<Rightarrow> SessionTask \<Rightarrow> TurnEnv \<times> RuntimeResult \<times> ModelResult \<Rightarrow> Violation \<Rightarrow> bool" where
  "records_result devices t x v \<longleftrightarrow>
     (case x of (env, res, r) \<Rightarrow>
        vi_id v = te_new_id env \<and> vi_timestamp v = te_utc env \<and> vi_status v = VS_OPEN \<and>
        vi_device_id v = tk_device_id t \<and> vi_stream_session_id v = Some (tk_session_id t) \<and>
        vi_camera_name v = (case dget devices (tk_device_id t) of None \<Rightarrow> ''Unknown'' | Some d \<Rightarrow> dv_name d) \<and>
        vi_model_id v = tk_model_id t \<and> vi_model_version v = (case rr_model_version res of None \<Rightarrow> ''1.0.0'' | Some x \<Rightarrow> x) \<and>
        vi_confidence v = mr_confidence r \<and>
        (vi_type v, vi_type_detail v) = resolve_violation_type
          (Some (if truthy_str (mr_violation_type r) then the (mr_violation_type r) else tk_model_id t)) \<and>
        vi_reviewed_by v = None \<and> vi_reviewed_at v = None \<and> vi_resolution_notes v = None)"

lemma written_begun:
  "written devices t p xs = map (\<lambda>(env, res, r). violation_row devices t env res r) (begun t p xs)"
  by (induction xs arbitrary: p) (auto split: option.splits)

lemma written_records: "list_all2 (records_result devices t) (begun t p xs) (written devices t p xs)"
  by (auto simp: written_begun list_all2_conv_all_nth records_result_def violation_row_def loop_violation_def Let_def
      split: prod.splits)

text \<open>
  C10. The loop writes a violation when one begins. Over any sequence of answers for a session whose results are handled
  from the start, with the database available and new identifiers unused: the rows added are, in order, one for each
  usable result that is a detection at or above the threshold where the result before was none or lacked one of
  its zones, with its time, camera, session, model, type and confidence; the counters of the session grow by the usable
  results and by the violations. The time since the last violation plays no part, although a comment calls
  \<open>_violation_cooldown_seconds\<close> the minimum between violations of a zone.
\<close>

theorem loop_writes_new_violations:
  assumes "\<forall>x\<in>set xs. te_db_fails (fst x) = (\<lambda>_. None) \<and> dget (bk_violations b) (te_new_id (fst x)) = None"
    "distinct (map (te_new_id \<circ> fst) xs)"
    "dget (bk_sessions b) (tk_session_id t) = Some s" "dget (lp_violation_state st) (tk_session_id t) = None"
    "handle_all t xs (st, b) = (st', b')"
  shows "\<exists>rows. bk_violations b' = bk_violations b @ map (\<lambda>v. (vi_id v, v)) rows \<and>
    list_all2 (records_result (bk_devices b) t) (begun t None xs) rows \<and>
    dget (bk_sessions b') (tk_session_id t) =
      Some (s\<lparr>ss_frames_processed := ss_frames_processed s + int (length (List.map_filter (usable_result \<circ> snd) xs)),
              ss_violations_count := ss_violations_count s + int (length rows)\<rparr>)"
proof (intro exI conjI)
  have r: "reflects (tk_confidence_threshold t) None (session_state (tk_session_id t) st)" by (simp add: session_state_def assms(4))
  note all = handle_all_written [OF _ assms(2) _ assms(3) r assms(5)]
  show "bk_violations b' = bk_violations b @ map (\<lambda>v. (vi_id v, v)) (written (bk_devices b) t None xs)"
    by (rule all [THEN conjunct1]) (use assms(1) in auto)
  show "list_all2 (records_result (bk_devices b) t) (begun t None xs) (written (bk_devices b) t None xs)"
    by (rule written_records)
  show "dget (bk_sessions b') (tk_session_id t) =
      Some (s\<lparr>ss_frames_processed := ss_frames_processed s + int (length (List.map_filter (usable_result \<circ> snd) xs)),
              ss_violations_count := ss_violations_count s + int (length (written (bk_devices b) t None xs))\<rparr>)"
    by (rule all [THEN conjunct2]) (use assms(1) in auto)
qed

definition demo_answers :: "(TurnEnv \<times> RuntimeResult) list" where
  "demo_answers = [(demo_env 1, demo_result [''gate'']), (demo_env 2, demo_result [''gate'']), (demo_env 3, demo_result []),
     (demo_env 4, demo_result [''gate''])]"

lemma demo_written:
  "written D demo_task None demo_answers =
     [violation_row D demo_task (demo_env 1) (demo_result [''gate'']) (the (rr_result (demo_result [''gate'']))),
      violation_row D demo_task (demo_env 4) (demo_result [''gate'']) (the (rr_result (demo_result [''gate''])))]"
  by (simp add: demo_answers_def usable_result_def newly_detected_def detected_def demo_result_def demo_task_fields zones_of_def)

lemma demo_answers_ok:
  "\<forall>x\<in>set demo_answers. te_db_fails (fst x) = (\<lambda>_. None) \<and> dget (bk_violations demo_running) (te_new_id (fst x)) = None"
  "distinct (map (te_new_id \<circ> fst) demo_answers)"
  "dget (bk_sessions demo_running) (tk_session_id demo_task) = Some demo_live"
  "dget (lp_violation_state demo_loop) (tk_session_id demo_task) = None"
  by (simp_all add: demo_answers_def demo_env_def demo_running_def demo_idle_def demo_task_fields demo_loop_eq new_loop_def)

theorem loop_writes_new_violations_witness:
  "map vi_timestamp (map snd (bk_violations (snd (handle_all demo_task demo_answers (demo_loop, demo_running))))) = [1, 4]"
proof -
  from loop_writes_new_violations [OF demo_answers_ok surjective_pairing] obtain rows where
    v: "bk_violations (snd (handle_all demo_task demo_answers (demo_loop, demo_running)))
      = bk_violations demo_running @ map (\<lambda>v. (vi_id v, v)) rows"
    and r: "list_all2 (records_result (bk_devices demo_running) demo_task) (begun demo_task None demo_answers) rows" by blast
  have "begun demo_task None demo_answers =
     [(demo_env 1, demo_result [''gate''], the (rr_result (demo_result [''gate'']))),
      (demo_env 4, demo_result [''gate''], the (rr_result (demo_result [''gate''])))]"
    by (simp add: demo_answers_def usable_result_def newly_detected_def detected_def demo_result_def demo_task_fields zones_of_def)
  with r have "map vi_timestamp rows = [1, 4]"
    by (auto simp: list_all2_Cons1 records_result_def demo_env_def)
  then show ?thesis unfolding v by (simp add: demo_running_def demo_idle_def comp_def)
qed

text \<open>
  C31. The tables of the loop stay in step. After any sequence of steps from a new service, calls of \<open>stop\<close> included
  unless they meet tasks none of which waits in its loop: a device is noted for exactly the sessions that have a task,
  a detection can be read only for a device that has a task, and the GPU budget counts no session twice and none
  without a task.
\<close>

theorem loop_tables_in_step:
  assumes "reach (\<lambda>w. fst w = new_loop) (ilstep c show_id) (st, b)"
  shows "(\<forall>i. dget (lp_session_devices st) i = map_option tk_device_id (dget (lp_session_tasks st) i)) \<and>
    (get_latest_detection clock d st \<noteq> None \<longrightarrow> (\<exists>i t. dget (lp_session_tasks st) i = Some t \<and> tk_device_id t = d)) \<and>
    active_count (lp_budget st) \<le> length (lp_session_tasks st)"
proof -
  have ok: "loop_ok st" using inference_loop.reach_invar [OF assms] by simp
  have "active_count (lp_budget st) \<le> length (lp_session_tasks st)"
    unfolding active_count_def by (rule distinct_le_dict) (use ok in \<open>simp_all add: loop_ok_def budget_live_def\<close>)
  with ok show ?thesis by (auto simp: loop_ok_def tasks_agree_def overlays_live_def get_latest_detection_def)
qed

lemma demo_loop_reached: "reach (\<lambda>w. fst w = new_loop) (ilstep c show_id) (demo_loop, b)"
proof -
  have a: "reach (\<lambda>w. fst w = new_loop) (ilstep c show_id) (new_loop, b)" by (rule reach.intros(1)) simp
  have "reach (\<lambda>w. fst w = new_loop) (ilstep c show_id) (loop_start new_loop, b)" by (rule reach.intros(2) [OF a ilstep.started])
  from reach.intros(2) [OF this ilstep.passed] show ?thesis unfolding demo_loop_def .
qed

theorem loop_tables_in_step_witness:
  "dget (lp_session_devices demo_loop) 40 = Some 1 \<and> active_count (lp_budget demo_loop) \<le> 1"
  using loop_tables_in_step [OF demo_loop_reached] by (simp add: demo_loop_eq demo_task_fields)

text \<open>
  The budget shares the GPU. Every session gets a rate between the minimum and the target; when the minimum lifts
  none, the occupancy that the active sessions ask for together, rate times latency, is at most the
  utilisation aimed at; and the latency kept for a model stays within the bounds of what was measured.
\<close>

theorem gpu_demand_bounded:
  assumes "settings_ok c" "\<And>i. i \<in> set (ib_active g) \<Longrightarrow> within_share c g (model i)"
    "\<And>m x. (m, x) \<in> set obs \<Longrightarrow> lo \<le> x \<and> x \<le> hi" "\<And>m. lo \<le> latency_for m g \<and> latency_for m g \<le> hi"
  shows "lc_min_fps c \<le> fps_for c m g \<and> fps_for c m g \<le> lc_target_fps c \<and>
    1 / lc_target_fps c \<le> interval_for c m g \<and> interval_for c m g \<le> 1 / lc_min_fps c \<and>
    (\<Sum>i\<leftarrow>ib_active g. fps_for c (model i) g * latency_for (model i) g) \<le> lc_max_gpu_utilization c \<and>
    latency_for m (fold (\<lambda>(m, x). record_latency m x) obs g) \<in> {lo..hi}"
  using fps_for_bounds [OF assms(1)] interval_for_bounds [OF assms(1)] demand_le_utilization [OF assms(1,2)]
    latencies_bounded [OF assms(3,4)] by simp

definition demo_budget :: InferenceBudget where
  "demo_budget = \<lparr>ib_active = [1, 2, 3, 4, 5, 6, 7], ib_latency_s = [(''fall'', 2 / 5)]\<rparr>"

theorem gpu_demand_bounded_witness:
  "(\<Sum>i\<leftarrow>ib_active demo_budget. fps_for default_settings ''fall'' demo_budget * latency_for ''fall'' demo_budget) \<le> 23 / 10 \<and>
   latency_for ''fall'' (record_latency ''fall'' (1 / 2) demo_budget) \<in> {3 / 10..1 / 2}"
proof -
  have w: "within_share default_settings demo_budget ''fall''"
    by (simp add: within_share_def default_settings_def demo_budget_def active_count_def latency_for_def dget_or_def)
  have l: "3 / 10 \<le> latency_for m demo_budget \<and> latency_for m demo_budget \<le> 1 / 2" for m
    by (simp add: demo_budget_def latency_for_def dget_or_def DEFAULT_LATENCY_S_def)
  show ?thesis
    using gpu_demand_bounded [OF default_settings_ok, of demo_budget "\<lambda>_. ''fall''" "[(''fall'', 1 / 2)]" "3 / 10" "1 / 2" "''fall''"] w l
    by (simp add: default_settings_def)
qed

text \<open>
  C35. A failing camera is retried for ever, never in a hot loop. When a task can run and each of its next ten turns
  fails, it waits nine times, each time between one and fifteen seconds, and then ends, and the next pass of
  the main loop starts it anew without errors, if its session is still live.
\<close>

theorem failing_task_revived:
  assumes "dget (lp_session_tasks st) i = Some t" "ready_task show_id st t" "tk_consecutive_errors t = 0"
    "\<forall>env\<in>set envs. failing env" "length envs = MAX_CONSECUTIVE_ERRORS" "s \<in> set sessions" "ss_id s = i" "distinct (map ss_id sessions)"
    "turns c show_id i envs st b = (sleeps, st', b')"
  shows "length sleeps = 9 \<and> (\<forall>x\<in>set sleeps. 1 \<le> x \<and> x \<le> 15) \<and> dget (lp_session_tasks st') i = None \<and> b' = b \<and>
    dget (lp_session_tasks (main_pass (Inr sessions) st')) i = Some (session_task s)"
proof -
  have "envs \<noteq> []" using assms(5) by (auto simp: MAX_CONSECUTIVE_ERRORS_def)
  then have r: "sleeps = map (backoff (tk_interval t)) [1..<10]" "st' = task_exit i (tk_device_id t) st" "b' = b"
    using failing_turns [OF assms(1,2,4), of c b] assms(3,5,9) by (simp_all add: MAX_CONSECUTIVE_ERRORS_def)
  have "List.find (\<lambda>x. ss_id x = i) sessions = Some s"
    using assms(6-8) by (induction sessions) auto
  with r assms(6,7) show ?thesis by (auto simp: main_pass_tasks task_exit_def backoff_bounds)
qed

theorem failing_task_revived_witness:
  "dget (lp_session_tasks (main_pass (Inr [demo_live])
     (fst (snd (turns default_settings (\<lambda>_. ''a'') 40 (map demo_env [1..<11]) demo_loop demo_running))))) 40 = Some demo_task"
proof -
  let ?w = "turns default_settings (\<lambda>_. ''a'') 40 (map demo_env [1..<11]) demo_loop demo_running"
  have t: "dget (lp_session_tasks demo_loop) 40 = Some demo_task" by (simp add: demo_loop_eq)
  have r: "ready_task (\<lambda>_. ''a'') demo_loop demo_task"
    by (simp add: ready_task_def vas_stream_is_paused_def demo_loop_eq new_loop_def demo_task_fields truthy_str_def)
  have f: "\<forall>env\<in>set (map demo_env [1..<11]). failing env" "length (map demo_env [1..<11]) = MAX_CONSECUTIVE_ERRORS"
    by (simp_all add: failing_def demo_env_def MAX_CONSECUTIVE_ERRORS_def)
  have w: "?w = (fst ?w, fst (snd ?w), snd (snd ?w))" by simp
  have s: "demo_live \<in> set [demo_live]" "ss_id demo_live = 40" "distinct (map ss_id [demo_live])" by (simp_all add: demo_live_def)
  from failing_task_revived [OF t r demo_task_fields(4) f s w] show ?thesis by (simp add: demo_task_def)
qed

text \<open>A person who leaves a zone and comes back opens a second violation beside the first.\<close>

lemma reentry_opens_second:
  "\<not> one_open (snd (handle_all demo_task demo_answers (demo_loop, demo_running)))"
proof -
  let ?b = "snd (handle_all demo_task demo_answers (demo_loop, demo_running))"
  have r: "reflects (tk_confidence_threshold demo_task) None (session_state (tk_session_id demo_task) demo_loop)"
    by (simp add: session_state_def demo_answers_ok(4))
  have e: "te_db_fails env = (\<lambda>_. None)" "dget (bk_violations demo_running) (te_new_id env) = None"
    if "(env, res) \<in> set demo_answers" for env res using demo_answers_ok(1) that by auto
  let ?v = "\<lambda>i. violation_row (bk_devices demo_running) demo_task (demo_env i) (demo_result [''gate'']) (the (rr_result (demo_result [''gate''])))"
  have v: "bk_violations ?b = [(1, ?v 1), (4, ?v 4)]"
    using handle_all_written [OF e(1) demo_answers_ok(2) e(2) demo_answers_ok(3) r surjective_pairing, THEN conjunct1]
    unfolding demo_written by (simp add: demo_running_def demo_idle_def demo_env_def)
  show ?thesis
  proof
    assume "one_open ?b"
    moreover have "dget (bk_violations ?b) 1 = Some (?v 1)" "dget (bk_violations ?b) 4 = Some (?v 4)" unfolding v by simp_all
    moreover have "vi_status (?v i) \<in> set OPEN_STATES" "same_incident (?v 1) (?v 4)" for i
      by (simp_all add: violation_row_def loop_violation_def OPEN_STATES_def same_incident_def Let_def)
    ultimately have "(1::uuid) = 4" unfolding one_open_def by blast
    then show False by simp
  qed
qed

end
