(* ===== verification/VASClient.thy ===== *)
theory VASClient
  imports BackendModels
begin

text \<open>
  \<open>ruth-ai-backend/app/integrations/vas/client.py\<close>: the client of VAS, the server of the video streams. It keeps an
  access token, sends requests with retries, maps error answers to exceptions, and waits for streams, snapshots and
  clips. Parameters are the network, the clock, what pydantic makes of a body, and the text of an exception;
  the state records what was sent and how long the client slept. A method runs without another one in between.
\<close>

section \<open>Exceptions\<close>

text \<open>The class of an exception; \<open>VASServerError\<close> and \<open>VASConflictError\<close> have one subclass each.\<close>

datatype vas_class = VC_Error | VC_Connection | VC_Timeout | VC_Authentication | VC_RefreshToken | VC_Forbidden | VC_NotFound
  | VC_Conflict | VC_StreamNotLive | VC_Validation | VC_Server | VC_MediaSoup | VC_RTSP

record VASException =
  vx_class :: vas_class
  vx_message :: string
  vx_status_code :: "int option"
  vx_error_code :: "string option"
  vx_details :: "(string, jval) dict"
  vx_request_id :: "string option"

definition vas_exception ::
  "vas_class \<Rightarrow> string \<Rightarrow> int option \<Rightarrow> string option \<Rightarrow> (string, jval) dict option \<Rightarrow> string option \<Rightarrow> VASException" where
  "vas_exception c message status error_code details request_id =
     \<lparr>vx_class = c, vx_message = message, vx_status_code = status, vx_error_code = error_code,
      vx_details = (case details of None \<Rightarrow> [] | Some d \<Rightarrow> d), vx_request_id = request_id\<rparr>"

definition str_or :: "string option \<Rightarrow> string \<Rightarrow> string option" where
  "str_or x d = (if truthy_str x then x else Some d)"

definition connection_error :: "string \<Rightarrow> VASException" where
  "connection_error m = vas_exception VC_Connection m None None None None"

definition timeout_error :: "string \<Rightarrow> VASException" where
  "timeout_error m = vas_exception VC_Timeout m None None None None"

definition authentication_error :: "string \<Rightarrow> string option \<Rightarrow> string option \<Rightarrow> VASException" where
  "authentication_error m code rid = vas_exception VC_Authentication m (Some 401) code None rid"

definition refresh_token_error :: VASException where
  "refresh_token_error = vas_exception VC_RefreshToken ''Refresh token is invalid or expired'' (Some 401) (Some ''INVALID_REFRESH_TOKEN'') None None"

definition forbidden_error :: "string \<Rightarrow> string option \<Rightarrow> string option \<Rightarrow> VASException" where
  "forbidden_error m code rid = vas_exception VC_Forbidden m (Some 403) (str_or code ''INSUFFICIENT_SCOPE'') None rid"

definition not_found_error :: "string \<Rightarrow> string option \<Rightarrow> string option \<Rightarrow> VASException" where
  "not_found_error resource_type resource_id rid =
     vas_exception VC_NotFound
       (if truthy_str resource_id then resource_type @ '' not found: '' @ the resource_id else resource_type @ '' not found'')
       (Some 404) (Some ''RESOURCE_NOT_FOUND'') None rid"

definition conflict_error :: "string \<Rightarrow> string option \<Rightarrow> (string, jval) dict option \<Rightarrow> string option \<Rightarrow> VASException" where
  "conflict_error m code details rid = vas_exception VC_Conflict m (Some 409) code details rid"

definition stream_not_live_error :: "string option \<Rightarrow> string option \<Rightarrow> string option \<Rightarrow> VASException" where
  "stream_not_live_error stream_id current_state rid =
     vas_exception VC_StreamNotLive
       (if truthy_str current_state then ''Stream is not LIVE (current: '' @ the current_state @ '')'' else ''Stream is not LIVE'')
       (Some 409) (Some ''STREAM_NOT_LIVE'')
       (Some ((if truthy_str stream_id then [(''stream_id'', JStr (the stream_id))] else []) @
              (if truthy_str current_state
               then [(''current_state'', JStr (the current_state)), (''required_state'', JStr ''LIVE'')] else [])))
       rid"

definition validation_error :: "string \<Rightarrow> (string, jval) dict option \<Rightarrow> string option \<Rightarrow> VASException" where
  "validation_error m details rid = vas_exception VC_Validation m (Some 400) (Some ''VALIDATION_ERROR'') details rid"

definition server_error :: "string \<Rightarrow> int \<Rightarrow> string option \<Rightarrow> (string, jval) dict option \<Rightarrow> string option \<Rightarrow> VASException" where
  "server_error m status code details rid = vas_exception VC_Server m (Some status) code details rid"

definition mediasoup_error :: "string \<Rightarrow> string option \<Rightarrow> VASException" where
  "mediasoup_error m rid = vas_exception VC_MediaSoup m (Some 503) (Some ''MEDIASOUP_UNAVAILABLE'') None rid"

definition rtsp_error :: "string \<Rightarrow> int \<Rightarrow> string option \<Rightarrow> (string, jval) dict option \<Rightarrow> string option \<Rightarrow> VASException" where
  "rtsp_error m status code details rid =
     vas_exception VC_RTSP m (Some status) (str_or code ''RTSP_CONNECTION_FAILED'') details rid"

definition exception_text :: "VASException \<Rightarrow> string" where
  "exception_text e =
     py_join '' '' ([vx_message e] @
       (if truthy_str (vx_error_code e) then [''['' @ the (vx_error_code e) @ '']''] else []) @
       (case vx_status_code e of None \<Rightarrow> [] | Some n \<Rightarrow> if n \<noteq> 0 then [''(HTTP '' @ show_int n @ '')''] else []))"

section \<open>The network\<close>

text \<open>What a request of the HTTP library comes to. A connection time-out is a time-out that counts as a failed connection.\<close>

datatype http_error = ConnectError string | ConnectTimeout string | TimeoutException string | OtherHttpError string

record Response =
  rp_status :: int
  rp_json :: "jval option"
  rp_text :: string
  rp_content :: "nat list"
  rp_headers :: "(string, string) dict"

datatype http_method = M_GET | M_POST | M_PUT | M_DELETE

record Request =
  rq_method :: http_method
  rq_path :: string
  rq_json :: "(string, jval) dict option"
  rq_params :: "(string, jval) dict option"
  rq_bearer :: "string option"
  rq_timeout :: real

text \<open>What leaves a method as an exception: one of VAS, one of the HTTP library, or a body that cannot be read.\<close>

datatype client_error = VASRaises VASException | HttpRaises http_error | BadBody

record VASErrorResponse =
  er_error :: string
  er_error_description :: string
  er_details :: "(string, jval) dict option"
  er_request_id :: "string option"

record TokenResponse =
  to_access_token :: string
  to_expires_in :: int
  to_refresh_token :: "string option"

record Wire =
  wi_net :: "nat \<Rightarrow> Request \<Rightarrow> http_error + Response"
  wi_clock :: "nat \<Rightarrow> real"
  wi_token :: "jval \<Rightarrow> TokenResponse option"
  wi_error :: "jval \<Rightarrow> VASErrorResponse option"
  wi_str :: "jval \<Rightarrow> string option"

record VASClient =
  va_client_id :: string
  va_client_secret :: string
  va_timeout :: real
  va_connected :: bool
  va_access_token :: "string option"
  va_refresh_token :: "string option"
  va_token_expires_at :: real
  va_sent :: "(Request \<times> (http_error + Response)) list"
  va_slept :: "real list"
  va_reads :: nat

definition TOKEN_REFRESH_THRESHOLD :: real where "TOKEN_REFRESH_THRESHOLD = 8 / 10"
definition DEFAULT_TIMEOUT :: real where "DEFAULT_TIMEOUT = 30"
definition STREAM_START_TIMEOUT :: real where "STREAM_START_TIMEOUT = 45"
definition MAX_RETRIES :: nat where "MAX_RETRIES = 3"
definition RETRY_BACKOFF_BASE :: real where "RETRY_BACKOFF_BASE = 2"
definition RETRY_BACKOFF_MAX :: real where "RETRY_BACKOFF_MAX = 30"

definition new_vas_client :: "string \<Rightarrow> string \<Rightarrow> real \<Rightarrow> VASClient" where
  "new_vas_client client_id client_secret timeout =
     \<lparr>va_client_id = client_id, va_client_secret = client_secret, va_timeout = timeout, va_connected = False,
      va_access_token = None, va_refresh_token = None, va_token_expires_at = 0, va_sent = [], va_slept = [], va_reads = 0\<rparr>"

definition send :: "Wire \<Rightarrow> Request \<Rightarrow> VASClient \<Rightarrow> (http_error + Response) \<times> VASClient" where
  "send w q s = (let a = wi_net w (length (va_sent s)) q in (a, s\<lparr>va_sent := va_sent s @ [(q, a)]\<rparr>))"

definition read_clock :: "Wire \<Rightarrow> VASClient \<Rightarrow> real \<times> VASClient" where
  "read_clock w s = (wi_clock w (va_reads s), s\<lparr>va_reads := Suc (va_reads s)\<rparr>)"

definition vas_sleep :: "real \<Rightarrow> VASClient \<Rightarrow> VASClient" where
  "vas_sleep x s = s\<lparr>va_slept := va_slept s @ [x]\<rparr>"

definition is_success :: "Response \<Rightarrow> bool" where
  "is_success r \<longleftrightarrow> 200 \<le> rp_status r \<and> rp_status r < 300"

definition connect_failed :: "http_error \<Rightarrow> bool" where
  "connect_failed e \<longleftrightarrow> (case e of ConnectError _ \<Rightarrow> True | ConnectTimeout _ \<Rightarrow> True | _ \<Rightarrow> False)"

definition timed_out :: "http_error \<Rightarrow> bool" where
  "timed_out e \<longleftrightarrow> (case e of ConnectTimeout _ \<Rightarrow> True | TimeoutException _ \<Rightarrow> True | _ \<Rightarrow> False)"

fun http_text :: "http_error \<Rightarrow> string" where
  "http_text (ConnectError m) = m" | "http_text (ConnectTimeout m) = m" | "http_text (TimeoutException m) = m"
| "http_text (OtherHttpError m) = m"

section \<open>Tokens\<close>

definition post_request :: "string \<Rightarrow> (string, jval) dict \<Rightarrow> VASClient \<Rightarrow> Request" where
  "post_request path body s =
     \<lparr>rq_method = M_POST, rq_path = path, rq_json = Some body, rq_params = None, rq_bearer = None, rq_timeout = va_timeout s\<rparr>"

text \<open>What a token endpoint answered; \<open>raise_for_status\<close> of the HTTP library raises for every status but success.\<close>

definition token_of :: "Wire \<Rightarrow> Response \<Rightarrow> client_error + TokenResponse" where
  "token_of w r =
     (if \<not> is_success r then Inl (HttpRaises (OtherHttpError (''HTTP '' @ show_int (rp_status r))))
      else case rp_json r of
        None \<Rightarrow> Inl BadBody
      | Some j \<Rightarrow> (case wi_token w j of None \<Rightarrow> Inl BadBody | Some t \<Rightarrow> Inr t))"

definition authenticate :: "Wire \<Rightarrow> VASClient \<Rightarrow> (client_error + unit) \<times> VASClient" where
  "authenticate w s =
     (if \<not> va_connected s then (Inl (VASRaises (connection_error ''Client not connected'')), s)
      else case send w (post_request ''/v2/auth/token''
             [(''client_id'', JStr (va_client_id s)), (''client_secret'', JStr (va_client_secret s))] s) s of
        (Inl (ConnectError m), s1) \<Rightarrow> (Inl (VASRaises (connection_error (''Failed to connect to VAS: '' @ m))), s1)
      | (Inl e, s1) \<Rightarrow>
          (if timed_out e then Inl (VASRaises (timeout_error ''Authentication request timed out'')) else Inl (HttpRaises e), s1)
      | (Inr r, s1) \<Rightarrow>
          if rp_status r = 401
          then (Inl (VASRaises (authentication_error ''Invalid client credentials'' (Some ''INVALID_CREDENTIALS'') None)), s1)
          else case token_of w r of
            Inl e \<Rightarrow> (Inl e, s1)
          | Inr t \<Rightarrow>
              (let (now, s2) = read_clock w s1
               in (Inr (), s2\<lparr>va_access_token := Some (to_access_token t), va_refresh_token := to_refresh_token t,
                              va_token_expires_at := now + of_int (to_expires_in t)\<rparr>)))"

definition connect :: "Wire \<Rightarrow> VASClient \<Rightarrow> (client_error + unit) \<times> VASClient" where
  "connect w s = (if va_connected s then (Inr (), s) else authenticate w (s\<lparr>va_connected := True\<rparr>))"

definition close :: "VASClient \<Rightarrow> VASClient" where
  "close s = (if va_connected s then s\<lparr>va_connected := False, va_access_token := None, va_refresh_token := None\<rparr> else s)"

definition refresh_access_token :: "Wire \<Rightarrow> VASClient \<Rightarrow> (client_error + unit) \<times> VASClient" where
  "refresh_access_token w s =
     (if \<not> va_connected s \<or> \<not> truthy_str (va_refresh_token s) then authenticate w s
      else case send w (post_request ''/v2/auth/token/refresh'' [(''refresh_token'', JStr (the (va_refresh_token s)))] s) s of
        (Inl (ConnectError m), s1) \<Rightarrow> (Inl (VASRaises (connection_error (''Failed to connect to VAS: '' @ m))), s1)
      | (Inl e, s1) \<Rightarrow> (Inl (HttpRaises e), s1)
      | (Inr r, s1) \<Rightarrow>
          if rp_status r = 401 then authenticate w s1
          else case token_of w r of
            Inl e \<Rightarrow> (Inl e, s1)
          | Inr t \<Rightarrow>
              (let (now, s2) = read_clock w s1
               in (Inr (), s2\<lparr>va_access_token := Some (to_access_token t), va_token_expires_at := now + of_int (to_expires_in t)\<rparr>)))"

definition ensure_valid_token :: "Wire \<Rightarrow> VASClient \<Rightarrow> (client_error + string) \<times> VASClient" where
  "ensure_valid_token w s =
     (let (now, s1) = read_clock w s;
          time_until_expiry = va_token_expires_at s1 - now;
          token_lifetime = va_token_expires_at s1 - (va_token_expires_at s1 - 3600);
          threshold = token_lifetime * TOKEN_REFRESH_THRESHOLD
      in if time_until_expiry < threshold \<or> \<not> truthy_str (va_access_token s1)
         then (case refresh_access_token w s1 of
                 (Inl e, s2) \<Rightarrow> (Inl e, s2)
               | (Inr _, s2) \<Rightarrow>
                   if truthy_str (va_access_token s2) then (Inr (the (va_access_token s2)), s2)
                   else (Inl (VASRaises (authentication_error ''Failed to obtain access token'' None None)), s2))
         else (Inr (the (va_access_token s1)), s1))"

section \<open>The meaning of a status\<close>

definition str_detail :: "Wire \<Rightarrow> (string, jval) dict option \<Rightarrow> string \<Rightarrow> string option" where
  "str_detail w details k =
     (case details of None \<Rightarrow> None | Some d \<Rightarrow> if d = [] then None else (case dget d k of None \<Rightarrow> None | Some v \<Rightarrow> wi_str w v))"

definition raise_for_status :: "Wire \<Rightarrow> Response \<Rightarrow> VASException option" where
  "raise_for_status w r =
     (if is_success r then None
      else
        (let parsed = (case rp_json r of None \<Rightarrow> None | Some j \<Rightarrow> wi_error w j);
             code = map_option er_error parsed;
             m = (case parsed of Some e \<Rightarrow> er_error_description e
                  | None \<Rightarrow> if rp_text r \<noteq> [] then rp_text r else ''HTTP '' @ show_int (rp_status r));
             details = (case parsed of None \<Rightarrow> None | Some e \<Rightarrow> er_details e);
             rid = (case parsed of None \<Rightarrow> None | Some e \<Rightarrow> er_request_id e);
             status = rp_status r
         in Some
           (if status = 400 then validation_error m details rid
            else if status = 401 then authentication_error m code rid
            else if status = 403 then forbidden_error m code rid
            else if status = 404 then not_found_error ''Resource'' None rid
            else if status = 409
            then (if code = Some ''STREAM_NOT_LIVE''
                  then stream_not_live_error (str_detail w details ''stream_id'') (str_detail w details ''current_state'') rid
                  else conflict_error m code details rid)
            else if status = 502
            then (if code = Some ''RTSP_CONNECTION_FAILED'' \<or> code = Some ''SSRC_CAPTURE_FAILED''
                  then rtsp_error m status code details rid
                  else server_error m status code details rid)
            else if status = 503
            then (if code = Some ''MEDIASOUP_UNAVAILABLE'' then mediasoup_error m rid else server_error m status code None rid)
            else if status = 504 then rtsp_error (if m \<noteq> [] then m else ''RTSP timeout'') status (str_or code ''RTSP_TIMEOUT'') None rid
            else if 500 \<le> status then server_error m status code details rid
            else vas_exception VC_Error m (Some status) code details rid)))"

section \<open>Requests with retries\<close>

text \<open>One round of the loop: a final response, a new token after a first 401, or an exception.\<close>

definition attempt_once ::
  "Wire \<Rightarrow> bool \<Rightarrow> nat \<Rightarrow> Request \<Rightarrow> VASClient \<Rightarrow> (client_error + (Response + string)) \<times> VASClient" where
  "attempt_once w authenticated attempt q s =
     (case send w q s of
        (Inl e, s1) \<Rightarrow> (Inl (HttpRaises e), s1)
      | (Inr r, s1) \<Rightarrow>
          if rp_status r = 401 \<and> authenticated \<and> attempt = 0
          then (case refresh_access_token w s1 of
                  (Inl e, s2) \<Rightarrow> (Inl e, s2)
                | (Inr _, s2) \<Rightarrow>
                    (case ensure_valid_token w s2 of
                       (Inl e, s3) \<Rightarrow> (Inl e, s3)
                     | (Inr token, s3) \<Rightarrow> (Inr (Inr token), s3)))
          else (case raise_for_status w r of
                  None \<Rightarrow> (Inr (Inl r), s1)
                | Some e \<Rightarrow> (Inl (VASRaises e), s1)))"

text \<open>The exceptions the loop catches, with what it raises in their place when the retries are used up.\<close>

definition gives_up_with :: "nat \<Rightarrow> client_error \<Rightarrow> VASException option" where
  "gives_up_with retries e =
     (case e of
        HttpRaises h \<Rightarrow>
          if connect_failed h
          then Some (connection_error (''Failed to connect after '' @ show_nat retries @ '' retries: '' @ http_text h))
          else if timed_out h then Some (timeout_error (''Request timed out after '' @ show_nat retries @ '' retries'')) else None
      | VASRaises x \<Rightarrow> if vx_class x = VC_Server \<or> vx_class x = VC_MediaSoup then Some x else None
      | BadBody \<Rightarrow> None)"

definition retry_delay :: "nat \<Rightarrow> real" where
  "retry_delay attempt = min (RETRY_BACKOFF_BASE ^ attempt) RETRY_BACKOFF_MAX"

lemma attempt_again: "attempt_once w a n q s = (Inr (Inr token), s1) \<Longrightarrow> n = 0"
  by (auto simp: attempt_once_def split: prod.splits sum.splits if_splits option.splits)

function request_loop :: "Wire \<Rightarrow> bool \<Rightarrow> nat \<Rightarrow> nat \<Rightarrow> Request \<Rightarrow> VASClient \<Rightarrow> (client_error + Response) \<times> VASClient" where
  "request_loop w authenticated retries attempt q s =
     (case attempt_once w authenticated attempt q s of
        (Inr (Inl r), s1) \<Rightarrow> (Inr r, s1)
      | (Inr (Inr token), s1) \<Rightarrow> request_loop w authenticated retries (Suc attempt) (q\<lparr>rq_bearer := Some token\<rparr>) s1
      | (Inl e, s1) \<Rightarrow>
          (case gives_up_with retries e of
             None \<Rightarrow> (Inl e, s1)
           | Some x \<Rightarrow>
               if attempt < retries
               then request_loop w authenticated retries (Suc attempt) q (vas_sleep (retry_delay attempt) s1)
               else (Inl (VASRaises x), s1)))"
  by pat_completeness auto
termination
  by (relation "measure (\<lambda>(w, a, retries, attempt, q, s). Suc retries - attempt)") (auto dest: sym [THEN attempt_again])

declare request_loop.simps [simp del]

definition request ::
  "Wire \<Rightarrow> http_method \<Rightarrow> string \<Rightarrow> (string, jval) dict option \<Rightarrow> (string, jval) dict option \<Rightarrow> bool \<Rightarrow> real option \<Rightarrow> nat \<Rightarrow>
   VASClient \<Rightarrow> (client_error + Response) \<times> VASClient" where
  "request w m path body params authenticated timeout retries s =
     (if \<not> va_connected s then (Inl (VASRaises (connection_error ''Client not connected'')), s)
      else
        (let limit = (case timeout of None \<Rightarrow> va_timeout s | Some t \<Rightarrow> if t = 0 then va_timeout s else t);
             q = \<lparr>rq_method = m, rq_path = path, rq_json = body, rq_params = params, rq_bearer = None, rq_timeout = limit\<rparr>
         in if authenticated
            then (case ensure_valid_token w s of
                    (Inl e, s1) \<Rightarrow> (Inl e, s1)
                  | (Inr token, s1) \<Rightarrow> request_loop w True retries 0 (q\<lparr>rq_bearer := Some token\<rparr>) s1)
            else request_loop w False retries 0 q s))"

section \<open>Operations\<close>

text \<open>A response is read by a model of pydantic, the parameter \<open>p\<close>.\<close>

definition read_body :: "(jval \<Rightarrow> 'a option) \<Rightarrow> (client_error + Response) \<times> VASClient \<Rightarrow> (client_error + 'a) \<times> VASClient" where
  "read_body p res =
     (case res of
        (Inl e, s) \<Rightarrow> (Inl e, s)
      | (Inr r, s) \<Rightarrow>
          ((case rp_json r of None \<Rightarrow> Inl BadBody | Some j \<Rightarrow> (case p j of None \<Rightarrow> Inl BadBody | Some x \<Rightarrow> Inr x)), s))"

definition ignore_body :: "(client_error + Response) \<times> VASClient \<Rightarrow> (client_error + unit) \<times> VASClient" where
  "ignore_body res = (case res of (Inl e, s) \<Rightarrow> (Inl e, s) | (Inr r, s) \<Rightarrow> (Inr (), s))"

abbreviation vas_get :: "Wire \<Rightarrow> string \<Rightarrow> (string, jval) dict option \<Rightarrow> bool \<Rightarrow> VASClient \<Rightarrow> (client_error + Response) \<times> VASClient" where
  "vas_get w path params authenticated s \<equiv> request w M_GET path None params authenticated None MAX_RETRIES s"

definition vas_get_health :: "Wire \<Rightarrow> VASClient \<Rightarrow> (client_error + jval) \<times> VASClient" where
  "vas_get_health w s = read_body Some (vas_get w ''/health'' None False s)"

definition vas_get_devices :: "Wire \<Rightarrow> (jval \<Rightarrow> 'd list option) \<Rightarrow> int \<Rightarrow> int \<Rightarrow> VASClient \<Rightarrow> (client_error + 'd list) \<times> VASClient" where
  "vas_get_devices w p skip limit s =
     read_body p (vas_get w ''/api/v1/devices'' (Some [(''skip'', JInt skip), (''limit'', JInt limit)]) False s)"

definition vas_get_device :: "Wire \<Rightarrow> (jval \<Rightarrow> 'd option) \<Rightarrow> string \<Rightarrow> VASClient \<Rightarrow> (client_error + 'd) \<times> VASClient" where
  "vas_get_device w p device_id s = read_body p (vas_get w (''/api/v1/devices/'' @ device_id) None False s)"

definition vas_update_device ::
  "Wire \<Rightarrow> (jval \<Rightarrow> 'd option) \<Rightarrow> string \<Rightarrow> (string, jval) dict \<Rightarrow> VASClient \<Rightarrow> (client_error + 'd) \<times> VASClient" where
  "vas_update_device w p device_id changes s =
     read_body p (request w M_PUT (''/api/v1/devices/'' @ device_id) (Some changes) None False None MAX_RETRIES s)"

definition vas_get_manways :: "Wire \<Rightarrow> (jval \<Rightarrow> string list option) \<Rightarrow> VASClient \<Rightarrow> (client_error + string list) \<times> VASClient" where
  "vas_get_manways w p s = read_body p (vas_get w ''/api/v1/devices/manways'' None False s)"

definition vas_get_device_status :: "Wire \<Rightarrow> (jval \<Rightarrow> 'd option) \<Rightarrow> string \<Rightarrow> VASClient \<Rightarrow> (client_error + 'd) \<times> VASClient" where
  "vas_get_device_status w p device_id s = read_body p (vas_get w (''/api/v1/devices/'' @ device_id @ ''/status'') None False s)"

definition vas_start_stream :: "Wire \<Rightarrow> (jval \<Rightarrow> 'd option) \<Rightarrow> string \<Rightarrow> VASClient \<Rightarrow> (client_error + 'd) \<times> VASClient" where
  "vas_start_stream w p device_id s =
     read_body p (request w M_POST (''/api/v1/devices/'' @ device_id @ ''/start-stream'') None None False
       (Some STREAM_START_TIMEOUT) MAX_RETRIES s)"

definition vas_stop_stream :: "Wire \<Rightarrow> (jval \<Rightarrow> 'd option) \<Rightarrow> string \<Rightarrow> VASClient \<Rightarrow> (client_error + 'd) \<times> VASClient" where
  "vas_stop_stream w p device_id s =
     read_body p (request w M_POST (''/api/v1/devices/'' @ device_id @ ''/stop-stream'') None None False None MAX_RETRIES s)"

definition str_param :: "string \<Rightarrow> string option \<Rightarrow> (string, jval) dict" where
  "str_param k v = (if truthy_str v then [(k, JStr (the v))] else [])"

definition page :: "int \<Rightarrow> int \<Rightarrow> (string, jval) dict" where
  "page limit offset = [(''limit'', JInt limit), (''offset'', JInt offset)]"

definition vas_get_streams ::
  "Wire \<Rightarrow> (jval \<Rightarrow> 'l option) \<Rightarrow> string option \<Rightarrow> string option \<Rightarrow> int \<Rightarrow> int \<Rightarrow> VASClient \<Rightarrow> (client_error + 'l) \<times> VASClient" where
  "vas_get_streams w p state camera_id limit offset s =
     read_body p (vas_get w ''/v2/streams''
       (Some (page limit offset @ str_param ''state'' state @ str_param ''camera_id'' camera_id)) True s)"

definition vas_get_stream :: "Wire \<Rightarrow> (jval \<Rightarrow> 'd option) \<Rightarrow> string \<Rightarrow> VASClient \<Rightarrow> (client_error + 'd) \<times> VASClient" where
  "vas_get_stream w p stream_id s = read_body p (vas_get w (''/v2/streams/'' @ stream_id) None True s)"

definition vas_get_stream_health :: "Wire \<Rightarrow> (jval \<Rightarrow> 'd option) \<Rightarrow> string \<Rightarrow> VASClient \<Rightarrow> (client_error + 'd) \<times> VASClient" where
  "vas_get_stream_health w p stream_id s = read_body p (vas_get w (''/v2/streams/'' @ stream_id @ ''/health'') None True s)"

definition vas_delete :: "Wire \<Rightarrow> string \<Rightarrow> VASClient \<Rightarrow> (client_error + unit) \<times> VASClient" where
  "vas_delete w path s = ignore_body (request w M_DELETE path None None True None MAX_RETRIES s)"

definition vas_delete_stream :: "Wire \<Rightarrow> string \<Rightarrow> VASClient \<Rightarrow> (client_error + unit) \<times> VASClient" where
  "vas_delete_stream w stream_id s = vas_delete w (''/v2/streams/'' @ stream_id) s"

text \<open>\<open>model_dump(exclude_none=True)\<close>.\<close>

definition without_none :: "(string, jval) dict \<Rightarrow> (string, jval) dict" where
  "without_none d = filter (\<lambda>(k, v). v \<noteq> JNone) d"

definition vas_create_snapshot ::
  "Wire \<Rightarrow> (jval \<Rightarrow> 'd option) \<Rightarrow> string \<Rightarrow> (string, jval) dict \<Rightarrow> VASClient \<Rightarrow> (client_error + 'd) \<times> VASClient" where
  "vas_create_snapshot w p stream_id q s =
     read_body p (request w M_POST (''/v2/streams/'' @ stream_id @ ''/snapshots'') (Some (without_none q)) None True None MAX_RETRIES s)"

definition vas_get_snapshot :: "Wire \<Rightarrow> (jval \<Rightarrow> 'd option) \<Rightarrow> string \<Rightarrow> VASClient \<Rightarrow> (client_error + 'd) \<times> VASClient" where
  "vas_get_snapshot w p snapshot_id s = read_body p (vas_get w (''/v2/snapshots/'' @ snapshot_id) None True s)"

definition vas_get_snapshots ::
  "Wire \<Rightarrow> (jval \<Rightarrow> 'l option) \<Rightarrow> string option \<Rightarrow> string option \<Rightarrow> int \<Rightarrow> int \<Rightarrow> VASClient \<Rightarrow> (client_error + 'l) \<times> VASClient" where
  "vas_get_snapshots w p stream_id created_by limit offset s =
     read_body p (vas_get w ''/v2/snapshots''
       (Some (page limit offset @ str_param ''stream_id'' stream_id @ str_param ''created_by'' created_by)) True s)"

definition vas_delete_snapshot :: "Wire \<Rightarrow> string \<Rightarrow> VASClient \<Rightarrow> (client_error + unit) \<times> VASClient" where
  "vas_delete_snapshot w snapshot_id s = vas_delete w (''/v2/snapshots/'' @ snapshot_id) s"

definition vas_create_bookmark ::
  "Wire \<Rightarrow> (jval \<Rightarrow> 'd option) \<Rightarrow> string \<Rightarrow> (string, jval) dict \<Rightarrow> VASClient \<Rightarrow> (client_error + 'd) \<times> VASClient" where
  "vas_create_bookmark w p stream_id q s =
     read_body p (request w M_POST (''/v2/streams/'' @ stream_id @ ''/bookmarks'') (Some (without_none q)) None True None MAX_RETRIES s)"

definition vas_get_bookmark :: "Wire \<Rightarrow> (jval \<Rightarrow> 'd option) \<Rightarrow> string \<Rightarrow> VASClient \<Rightarrow> (client_error + 'd) \<times> VASClient" where
  "vas_get_bookmark w p bookmark_id s = read_body p (vas_get w (''/v2/bookmarks/'' @ bookmark_id) None True s)"

definition vas_get_bookmarks ::
  "Wire \<Rightarrow> (jval \<Rightarrow> 'l option) \<Rightarrow> string option \<Rightarrow> string option \<Rightarrow> string option \<Rightarrow> int \<Rightarrow> int \<Rightarrow> VASClient \<Rightarrow> (client_error + 'l) \<times> VASClient" where
  "vas_get_bookmarks w p stream_id event_type created_by limit offset s =
     read_body p (vas_get w ''/v2/bookmarks''
       (Some (page limit offset @ str_param ''stream_id'' stream_id @ str_param ''event_type'' event_type @
              str_param ''created_by'' created_by)) True s)"

definition vas_delete_bookmark :: "Wire \<Rightarrow> string \<Rightarrow> VASClient \<Rightarrow> (client_error + unit) \<times> VASClient" where
  "vas_delete_bookmark w bookmark_id s = vas_delete w (''/v2/bookmarks/'' @ bookmark_id) s"

section \<open>Downloads\<close>

text \<open>A single request with a token and without retries.\<close>

definition direct_get ::
  "Wire \<Rightarrow> string \<Rightarrow> (string, jval) dict option \<Rightarrow> VASClient \<Rightarrow> (client_error + Response) \<times> VASClient" where
  "direct_get w path params s =
     (if \<not> va_connected s then (Inl (VASRaises (connection_error ''Client not connected'')), s)
      else case ensure_valid_token w s of
        (Inl e, s1) \<Rightarrow> (Inl e, s1)
      | (Inr token, s1) \<Rightarrow>
          (case send w \<lparr>rq_method = M_GET, rq_path = path, rq_json = None, rq_params = params, rq_bearer = Some token,
                          rq_timeout = va_timeout s1\<rparr> s1 of
             (Inl e, s2) \<Rightarrow> (Inl (HttpRaises e), s2)
           | (Inr r, s2) \<Rightarrow> (Inr r, s2)))"

definition error_message :: "Wire \<Rightarrow> Response \<Rightarrow> string" where
  "error_message w r =
     (case rp_json r of None \<Rightarrow> rp_text r | Some j \<Rightarrow> (case wi_error w j of None \<Rightarrow> rp_text r | Some e \<Rightarrow> er_error_description e))"

definition download_snapshot_image :: "Wire \<Rightarrow> string \<Rightarrow> VASClient \<Rightarrow> (client_error + Response) \<times> VASClient" where
  "download_snapshot_image w snapshot_id s =
     (case direct_get w (''/v2/snapshots/'' @ snapshot_id @ ''/image'') None s of
        (Inl e, s1) \<Rightarrow> (Inl e, s1)
      | (Inr r, s1) \<Rightarrow>
          if is_success r then (Inr r, s1)
          else if rp_status r = 404 then (Inl (VASRaises (not_found_error (error_message w r) None None)), s1)
          else (Inl (VASRaises (vas_exception VC_Error (error_message w r) None None None None)), s1))"

definition get_snapshot_image :: "Wire \<Rightarrow> string \<Rightarrow> VASClient \<Rightarrow> (client_error + nat list) \<times> VASClient" where
  "get_snapshot_image w snapshot_id s =
     (case download_snapshot_image w snapshot_id s of (Inl e, s1) \<Rightarrow> (Inl e, s1) | (Inr r, s1) \<Rightarrow> (Inr (rp_content r), s1))"

definition checked_get :: "Wire \<Rightarrow> string \<Rightarrow> VASClient \<Rightarrow> (client_error + Response) \<times> VASClient" where
  "checked_get w path s =
     (case direct_get w path None s of
        (Inl e, s1) \<Rightarrow> (Inl e, s1)
      | (Inr r, s1) \<Rightarrow> (case raise_for_status w r of None \<Rightarrow> (Inr r, s1) | Some e \<Rightarrow> (Inl (VASRaises e), s1)))"

definition download_bookmark_video :: "Wire \<Rightarrow> string \<Rightarrow> VASClient \<Rightarrow> (client_error + Response) \<times> VASClient" where
  "download_bookmark_video w bookmark_id s = checked_get w (''/v2/bookmarks/'' @ bookmark_id @ ''/video'') s"

definition download_bookmark_thumbnail :: "Wire \<Rightarrow> string \<Rightarrow> VASClient \<Rightarrow> (client_error + nat list) \<times> VASClient" where
  "download_bookmark_thumbnail w bookmark_id s =
     (case checked_get w (''/v2/bookmarks/'' @ bookmark_id @ ''/thumbnail'') s of
        (Inl e, s1) \<Rightarrow> (Inl e, s1) | (Inr r, s1) \<Rightarrow> (Inr (rp_content r), s1))"

definition download_bookmark_video_bytes :: "Wire \<Rightarrow> string \<Rightarrow> VASClient \<Rightarrow> (client_error + nat list \<times> string) \<times> VASClient" where
  "download_bookmark_video_bytes w bookmark_id s =
     (case checked_get w (''/v2/bookmarks/'' @ bookmark_id @ ''/video'') s of
        (Inl e, s1) \<Rightarrow> (Inl e, s1)
      | (Inr r, s1) \<Rightarrow> (Inr (rp_content r, dget_or (rp_headers r) ''content-type'' ''video/mp4''), s1))"

definition header_int :: "(string \<Rightarrow> int option) \<Rightarrow> Response \<Rightarrow> string \<Rightarrow> int option" where
  "header_int parse_int r name = (case dget (rp_headers r) name of None \<Rightarrow> None | Some raw \<Rightarrow> parse_int raw)"

definition get_latest_frame ::
  "Wire \<Rightarrow> (string \<Rightarrow> int option) \<Rightarrow> string \<Rightarrow> int option \<Rightarrow> VASClient \<Rightarrow> (client_error + nat list \<times> int option \<times> int option) \<times> VASClient" where
  "get_latest_frame w parse_int stream_id max_age_ms s =
     (case direct_get w (''/v2/streams/'' @ stream_id @ ''/frame/latest'')
             (Some (case max_age_ms of None \<Rightarrow> [] | Some x \<Rightarrow> [(''max_age_ms'', JInt x)])) s of
        (Inl e, s1) \<Rightarrow> (Inl e, s1)
      | (Inr r, s1) \<Rightarrow>
          if is_success r
          then (Inr (rp_content r, header_int parse_int r ''X-Frame-Width'', header_int parse_int r ''X-Frame-Height''), s1)
          else (Inl (VASRaises (vas_exception VC_Error
                  (''Failed to fetch latest frame for stream '' @ stream_id @ '': '' @ error_message w r) None None None None)), s1))"

section \<open>Waiting\<close>

datatype progress = Finished | Failed VASException | Pending

text \<open>The loop the three waits share: \<open>fetch\<close> asks for the object, \<open>judge\<close> says how it stands.\<close>

partial_function (option) wait_loop ::
  "Wire \<Rightarrow> (VASClient \<Rightarrow> (client_error + 'a) \<times> VASClient) \<Rightarrow> ('a \<Rightarrow> progress) \<Rightarrow> real \<Rightarrow> real \<Rightarrow> real \<Rightarrow> string \<Rightarrow> VASClient \<Rightarrow>
   ((client_error + 'a) \<times> VASClient) option" where
  "wait_loop w fetch judge start timeout poll_interval m s =
     (case read_clock w s of
        (now, s1) \<Rightarrow>
          if now - start < timeout
          then (case fetch s1 of
                  (Inl e, s2) \<Rightarrow> Some (Inl e, s2)
                | (Inr x, s2) \<Rightarrow>
                    (case judge x of
                       Finished \<Rightarrow> Some (Inr x, s2)
                     | Failed e \<Rightarrow> Some (Inl (VASRaises e), s2)
                     | Pending \<Rightarrow> wait_loop w fetch judge start timeout poll_interval m (vas_sleep poll_interval s2)))
          else Some (Inl (VASRaises (timeout_error m)), s1))"

definition wait_until ::
  "Wire \<Rightarrow> (VASClient \<Rightarrow> (client_error + 'a) \<times> VASClient) \<Rightarrow> ('a \<Rightarrow> progress) \<Rightarrow> real \<Rightarrow> real \<Rightarrow> string \<Rightarrow> VASClient \<Rightarrow>
   ((client_error + 'a) \<times> VASClient) option" where
  "wait_until w fetch judge timeout poll_interval m s =
     (case read_clock w s of (start, s1) \<Rightarrow> wait_loop w fetch judge start timeout poll_interval m s1)"

definition ascii_upper :: "string \<Rightarrow> string" where
  "ascii_upper t = map (\<lambda>c. if CHR ''a'' \<le> c \<and> c \<le> CHR ''z'' then char_of (of_char c - 32 :: nat) else c) t"

record VASStream =
  vm_id :: string
  vm_state :: string

definition judge_stream :: "VASStream \<Rightarrow> progress" where
  "judge_stream x =
     (if vm_state x = ''live'' then Finished
      else if vm_state x = ''error'' \<or> vm_state x = ''closed''
      then Failed (vas_exception VC_Error (''Stream entered '' @ vm_state x @ '' state'') None
             (Some (''STREAM_'' @ ascii_upper (vm_state x))) None None)
      else Pending)"

definition wait_for_stream_live ::
  "Wire \<Rightarrow> (jval \<Rightarrow> VASStream option) \<Rightarrow> string \<Rightarrow> real \<Rightarrow> real \<Rightarrow> VASClient \<Rightarrow> ((client_error + VASStream) \<times> VASClient) option" where
  "wait_for_stream_live w p stream_id timeout poll_interval s =
     wait_until w (vas_get_stream w p stream_id) judge_stream timeout poll_interval
       (''Timeout waiting for stream '' @ stream_id @ '' to become LIVE'') s"

record VASMedia =
  vd_id :: string
  vd_status :: "string option"
  vd_error :: "string option"

definition judge_media :: "string \<Rightarrow> string \<Rightarrow> VASMedia \<Rightarrow> progress" where
  "judge_media kind code x =
     (if vd_status x = Some ''ready'' then Finished
      else if vd_status x = Some ''failed''
      then Failed (vas_exception VC_Error
             (kind @ '' processing failed: '' @ (case vd_error x of None \<Rightarrow> ''None'' | Some m \<Rightarrow> m)) None (Some code) None None)
      else Pending)"

definition wait_for_snapshot_ready ::
  "Wire \<Rightarrow> (jval \<Rightarrow> VASMedia option) \<Rightarrow> string \<Rightarrow> real \<Rightarrow> real \<Rightarrow> VASClient \<Rightarrow> ((client_error + VASMedia) \<times> VASClient) option" where
  "wait_for_snapshot_ready w p snapshot_id timeout poll_interval s =
     wait_until w (vas_get_snapshot w p snapshot_id) (judge_media ''Snapshot'' ''SNAPSHOT_PROCESSING_FAILED'') timeout poll_interval
       (''Timeout waiting for snapshot '' @ snapshot_id @ '' to be ready'') s"

definition wait_for_bookmark_ready ::
  "Wire \<Rightarrow> (jval \<Rightarrow> VASMedia option) \<Rightarrow> string \<Rightarrow> real \<Rightarrow> real \<Rightarrow> VASClient \<Rightarrow> ((client_error + VASMedia) \<times> VASClient) option" where
  "wait_for_bookmark_ready w p bookmark_id timeout poll_interval s =
     wait_until w (vas_get_bookmark w p bookmark_id) (judge_media ''Bookmark'' ''BOOKMARK_PROCESSING_FAILED'') timeout poll_interval
       (''Timeout waiting for bookmark '' @ bookmark_id @ '' to be ready'') s"

section \<open>What every call does to the record of the client\<close>

definition grows :: "nat \<Rightarrow> VASClient \<Rightarrow> VASClient \<Rightarrow> bool" where
  "grows n s s' \<longleftrightarrow> va_reads s \<le> va_reads s' \<and> va_slept s' = va_slept s \<and> (\<exists>xs. va_sent s' = va_sent s @ xs \<and> length xs \<le> n)"

lemma grows_refl [simp, intro]: "grows n s s"
  by (simp add: grows_def)

lemma grows_trans: "grows m s s1 \<Longrightarrow> grows n s1 s2 \<Longrightarrow> grows (m + n) s s2"
  by (force simp: grows_def)

lemma grows_mono: "grows m s s1 \<Longrightarrow> m \<le> n \<Longrightarrow> grows n s s1"
  by (auto simp: grows_def)

lemma send_grows: "send w q s = (a, s1) \<Longrightarrow> grows (Suc 0) s s1"
  by (auto simp: send_def grows_def Let_def)

lemma read_clock_grows: "read_clock w s = (x, s1) \<Longrightarrow> grows 0 s s1"
  by (auto simp: read_clock_def grows_def)

lemma token_update_grows [simp]:
  "grows n s (s1\<lparr>va_access_token := a, va_refresh_token := r, va_token_expires_at := t\<rparr>) = grows n s s1"
  "grows n s (s1\<lparr>va_access_token := a, va_token_expires_at := t\<rparr>) = grows n s s1"
  by (simp_all add: grows_def)

lemma authenticate_grows: "authenticate w s = (res, s') \<Longrightarrow> grows 1 s s'"
  using grows_trans [OF send_grows read_clock_grows]
  by (fastforce simp: authenticate_def Let_def dest: send_grows split: if_splits prod.splits sum.splits http_error.splits)

lemma refresh_grows: "refresh_access_token w s = (res, s') \<Longrightarrow> grows 2 s s'"
proof -
  assume r: "refresh_access_token w s = (res, s')"
  show ?thesis
  proof (cases "\<not> va_connected s \<or> \<not> truthy_str (va_refresh_token s)")
    case True
    then show ?thesis using r authenticate_grows [of w s res s'] by (auto simp: refresh_access_token_def intro: grows_mono)
  next
    case False
    let ?q = "post_request ''/v2/auth/token/refresh'' [(''refresh_token'', JStr (the (va_refresh_token s)))] s"
    obtain a s1 where a: "send w ?q s = (a, s1)" by (cases "send w ?q s")
    note g = send_grows [OF a]
    have one: "grows 2 s s1" using g by (rule grows_mono) simp
    have auth: "grows 2 s s2" if "authenticate w s1 = (x, s2)" for x s2 using grows_trans [OF g authenticate_grows [OF that]] by (rule grows_mono) simp
    have clock: "grows 2 s s2" if "read_clock w s1 = (x, s2)" for x s2
      using grows_trans [OF g read_clock_grows [OF that]] by (rule grows_mono) simp
    show ?thesis
      using r False a one by (auto simp: refresh_access_token_def Let_def dest: auth clock split: if_splits prod.splits sum.splits http_error.splits)
  qed
qed

lemma ensure_grows: "ensure_valid_token w s = (res, s') \<Longrightarrow> grows 2 s s'"
proof -
  assume e: "ensure_valid_token w s = (res, s')"
  obtain now s1 where c: "read_clock w s = (now, s1)" by (cases "read_clock w s")
  note g = read_clock_grows [OF c]
  have "grows 2 s s2" if "refresh_access_token w s1 = (x, s2)" for x s2 using grows_trans [OF g refresh_grows [OF that]] by (rule grows_mono) simp
  moreover have "grows 2 s s1" using g by (rule grows_mono) simp
  ultimately show ?thesis using e c by (auto simp: ensure_valid_token_def Let_def split: if_splits prod.splits sum.splits)
qed

lemma attempt_grows:
  assumes "attempt_once w a n q s = (res, s')"
  shows "grows (if n = 0 then 5 else 1) s s'"
proof -
  obtain x s1 where x: "send w q s = (x, s1)" by (cases "send w q s")
  note g = send_grows [OF x]
  have one: "grows (if n = 0 then 5 else 1) s s1" using g by (rule grows_mono) simp
  have two: "grows 5 s s2" if "refresh_access_token w s1 = (y, s2)" for y s2
    using grows_trans [OF g refresh_grows [OF that]] by (rule grows_mono) simp
  have three: "grows 5 s s3" if "refresh_access_token w s1 = (y, s2)" "ensure_valid_token w s2 = (z, s3)" for y s2 z s3
    using grows_trans [OF grows_trans [OF g refresh_grows [OF that(1)]] ensure_grows [OF that(2)]] by (rule grows_mono) simp
  show ?thesis
  proof (cases "\<exists>r. x = Inr r \<and> rp_status r = 401 \<and> a \<and> n = 0")
    case True
    then show ?thesis using assms x by (auto simp: attempt_once_def dest: two three split: prod.splits sum.splits)
  next
    case False
    then have "s' = s1" using assms x by (auto simp: attempt_once_def split: sum.splits if_splits option.splits)
    with one show ?thesis by simp
  qed
qed

lemma direct_get_grows: "direct_get w path params s = (res, s') \<Longrightarrow> grows 3 s s'"
  using grows_trans [OF ensure_grows send_grows]
  by (fastforce simp: direct_get_def dest: ensure_grows [THEN grows_mono, of _ _ _ _ 3] split: if_splits prod.splits sum.splits)

section \<open>Retries are bounded\<close>

definition slept_total :: "VASClient \<Rightarrow> real" where "slept_total s = sum_list (va_slept s)"

definition sent_count :: "VASClient \<Rightarrow> nat" where "sent_count s = length (va_sent s)"

lemma grows_counts: "grows n s s' \<Longrightarrow> sent_count s' \<le> sent_count s + n \<and> slept_total s' = slept_total s \<and> va_reads s \<le> va_reads s'"
  by (auto simp: grows_def sent_count_def slept_total_def)

lemma sleep_counts [simp]:
  "sent_count (vas_sleep x s) = sent_count s" "slept_total (vas_sleep x s) = slept_total s + x" "va_reads (vas_sleep x s) = va_reads s"
  by (simp_all add: vas_sleep_def sent_count_def slept_total_def)

definition rounds :: "nat \<Rightarrow> nat \<Rightarrow> nat" where
  "rounds retries n = (if n = 0 then 4 + max 2 (Suc retries) else max 1 (Suc retries - n))"

lemma retry_delay_nonneg: "0 \<le> retry_delay n"
  by (simp add: retry_delay_def RETRY_BACKOFF_BASE_def RETRY_BACKOFF_MAX_def)

lemma delays_from: "n < retries \<Longrightarrow> (\<Sum>k\<leftarrow>[n..<retries]. retry_delay k) = retry_delay n + (\<Sum>k\<leftarrow>[Suc n..<retries]. retry_delay k)"
  by (simp add: upt_conv_Cons)

lemma delays_Suc_le: "(\<Sum>k\<leftarrow>[Suc n..<retries]. retry_delay k) \<le> (\<Sum>k\<leftarrow>[n..<retries]. retry_delay k)"
  by (cases "n < retries") (simp_all add: delays_from retry_delay_nonneg)

lemma request_loop_bounded:
  assumes "request_loop w a retries n q s = (res, s')"
  shows "sent_count s' \<le> sent_count s + rounds retries n \<and>
    slept_total s' \<le> slept_total s + (\<Sum>k\<leftarrow>[n..<retries]. retry_delay k) \<and> va_reads s \<le> va_reads s'"
  using assms
proof (induction w a retries n q s arbitrary: res s' rule: request_loop.induct)
  case (1 w a retries n q s)
  obtain o1 s1 where at: "attempt_once w a n q s = (o1, s1)" by (cases "attempt_once w a n q s")
  note g = grows_counts [OF attempt_grows [OF at]]
  have d: "0 \<le> (\<Sum>k\<leftarrow>[n..<retries]. retry_delay k)" by (intro sum_list_nonneg) (auto simp: retry_delay_nonneg)
  have stop: ?case if "s' = s1" using g d that by (auto simp: rounds_def split: if_splits)
  show ?case
  proof (cases o1)
    case (Inl e)
    show ?thesis
    proof (cases "\<exists>x. gives_up_with retries e = Some x \<and> n < retries")
      case True
      then obtain x where x: "gives_up_with retries e = Some x" "n < retries" by auto
      have r: "request_loop w a retries (Suc n) q (vas_sleep (retry_delay n) s1) = (res, s')"
        using "1.prems" at Inl x by (simp add: request_loop.simps [of w a retries n])
      from "1.IH"(1) [OF at [symmetric] Inl x r]
      have "sent_count s' \<le> sent_count s1 + rounds retries (Suc n)"
        "slept_total s' \<le> slept_total s1 + retry_delay n + (\<Sum>k\<leftarrow>[Suc n..<retries]. retry_delay k)" "va_reads s1 \<le> va_reads s'" by auto
      then show ?thesis using g x(2) delays_from [OF x(2)] by (auto simp: rounds_def split: if_splits)
    next
      case False
      then have "s' = s1" using "1.prems" at Inl by (auto simp: request_loop.simps [of w a retries n] split: option.splits)
      then show ?thesis by (rule stop)
    qed
  next
    case (Inr y)
    show ?thesis
    proof (cases y)
      case (Inl r)
      then have "s' = s1" using "1.prems" at Inr by (simp add: request_loop.simps [of w a retries n])
      then show ?thesis by (rule stop)
    next
      case (Inr token)
      with \<open>o1 = Inr y\<close> have at': "attempt_once w a n q s = (Inr (Inr token), s1)" using at by simp
      then have n: "n = 0" by (rule attempt_again)
      have r: "request_loop w a retries (Suc n) (q\<lparr>rq_bearer := Some token\<rparr>) s1 = (res, s')"
        using "1.prems" at' by (simp add: request_loop.simps [of w a retries n])
      from "1.IH"(2) [OF at' [symmetric] refl refl r]
      show ?thesis using g n delays_Suc_le [of n retries] by (auto simp: rounds_def split: if_splits)
    qed
  qed
qed

lemma request_bounded:
  assumes "request w m path body params authenticated timeout retries s = (res, s')"
  shows "sent_count s' \<le> sent_count s + (6 + max 2 (Suc retries)) \<and>
    slept_total s' \<le> slept_total s + (\<Sum>k\<leftarrow>[0..<retries]. retry_delay k) \<and> va_reads s \<le> va_reads s'"
proof -
  have d: "0 \<le> (\<Sum>k\<leftarrow>[0..<retries]. retry_delay k)" by (intro sum_list_nonneg) (auto simp: retry_delay_nonneg)
  have loop: "sent_count s2 \<le> sent_count s1 + (4 + max 2 (Suc retries)) \<and>
      slept_total s2 \<le> slept_total s1 + (\<Sum>k\<leftarrow>[0..<retries]. retry_delay k) \<and> va_reads s1 \<le> va_reads s2"
    if "request_loop w a retries 0 q s1 = (r, s2)" for a q s1 r s2
    using request_loop_bounded [OF that] by (simp add: rounds_def)
  show ?thesis
  proof (cases "va_connected s \<and> authenticated")
    case True
    obtain t s1 where e: "ensure_valid_token w s = (t, s1)" by (cases "ensure_valid_token w s")
    note g = grows_counts [OF ensure_grows [OF e]]
    show ?thesis
    proof (cases t)
      case (Inl x)
      then show ?thesis using assms True e g d by (auto simp: request_def Let_def)
    next
      case (Inr token)
      then have "\<exists>q. request_loop w True retries 0 q s1 = (res, s')" using assms True e by (auto simp: request_def Let_def)
      then obtain q where "request_loop w True retries 0 q s1 = (res, s')" by blast
      from loop [OF this] show ?thesis using g by linarith
    qed
  next
    case False
    show ?thesis
    proof (cases "va_connected s")
      case True
      then have "\<exists>q. request_loop w False retries 0 q s = (res, s')" using assms False by (auto simp: request_def Let_def)
      then obtain q where "request_loop w False retries 0 q s = (res, s')" by blast
      from loop [OF this] show ?thesis by linarith
    next
      case False
      then show ?thesis using assms d by (auto simp: request_def)
    qed
  qed
qed

section \<open>Where tokens come from\<close>

definition token_endpoint :: "string \<Rightarrow> bool" where
  "token_endpoint path \<longleftrightarrow> path = ''/v2/auth/token'' \<or> path = ''/v2/auth/token/refresh''"

definition grants :: "Wire \<Rightarrow> Request \<times> (http_error + Response) \<Rightarrow> string \<Rightarrow> bool" where
  "grants w x token \<longleftrightarrow> token_endpoint (rq_path (fst x)) \<and>
     (\<exists>r j t. snd x = Inr r \<and> is_success r \<and> rp_json r = Some j \<and> wi_token w j = Some t \<and> to_access_token t = token)"

definition granted :: "Wire \<Rightarrow> (Request \<times> (http_error + Response)) list \<Rightarrow> string \<Rightarrow> bool" where
  "granted w xs token \<longleftrightarrow> (\<exists>x\<in>set xs. grants w x token)"

inductive bearers_granted :: "Wire \<Rightarrow> (Request \<times> (http_error + Response)) list \<Rightarrow> bool" for w where
  none_sent: "bearers_granted w []"
| one_more: "bearers_granted w xs \<Longrightarrow> (\<And>token. rq_bearer q = Some token \<Longrightarrow> granted w xs token) \<Longrightarrow> bearers_granted w (xs @ [(q, a)])"

definition tokens_ok :: "Wire \<Rightarrow> VASClient \<Rightarrow> bool" where
  "tokens_ok w s \<longleftrightarrow> bearers_granted w (va_sent s) \<and> (\<forall>token. va_access_token s = Some token \<longrightarrow> granted w (va_sent s) token)"

lemma granted_append [intro]: "granted w xs token \<Longrightarrow> granted w (xs @ ys) token"
  by (auto simp: granted_def)

lemma tokens_ok_cong:
  "va_sent s' = va_sent s \<Longrightarrow> va_access_token s' = va_access_token s \<Longrightarrow> tokens_ok w s' = tokens_ok w s"
  by (simp add: tokens_ok_def)

lemma tokens_ok_read [simp]: "tokens_ok w (s\<lparr>va_reads := n\<rparr>) = tokens_ok w s"
  by (simp add: tokens_ok_def)

lemma tokens_ok_sleep [simp]: "tokens_ok w (vas_sleep x s) = tokens_ok w s"
  by (simp add: tokens_ok_def vas_sleep_def)

lemma send_tokens:
  assumes "send w q s = (a, s1)" "tokens_ok w s" "\<And>token. rq_bearer q = Some token \<Longrightarrow> granted w (va_sent s) token"
  shows "tokens_ok w s1" "va_sent s1 = va_sent s @ [(q, a)]"
proof -
  show sent: "va_sent s1 = va_sent s @ [(q, a)]" using assms(1) by (auto simp: send_def Let_def)
  have "bearers_granted w (va_sent s)" using assms(2) by (simp add: tokens_ok_def)
  then have "bearers_granted w (va_sent s1)" unfolding sent by (rule bearers_granted.one_more) (rule assms(3))
  moreover have "va_access_token s1 = va_access_token s" using assms(1) by (auto simp: send_def Let_def)
  ultimately show "tokens_ok w s1" using assms(2) by (auto simp: tokens_ok_def sent)
qed

text \<open>A token taken from the answer just received.\<close>

lemma token_stored:
  assumes "send w (post_request path body s) s = (Inr r, s1)" "tokens_ok w s" "token_endpoint path" "token_of w r = Inr t"
    "va_sent s2 = va_sent s1" "va_access_token s2 = Some (to_access_token t)"
  shows "tokens_ok w s2"
proof -
  note sent = send_tokens [OF assms(1,2)]
  have "grants w (post_request path body s, Inr r) (to_access_token t)"
    using assms(3,4) by (auto simp: grants_def token_of_def post_request_def split: if_splits option.splits)
  then have "granted w (va_sent s1) (to_access_token t)"
    using sent(2) by (auto simp: granted_def post_request_def)
  then show ?thesis using sent(1) assms(5,6) by (simp add: tokens_ok_def post_request_def)
qed

lemma authenticate_tokens:
  assumes "authenticate w s = (res, s')" "tokens_ok w s"
  shows "tokens_ok w s'"
proof -
  let ?q = "post_request ''/v2/auth/token'' [(''client_id'', JStr (va_client_id s)), (''client_secret'', JStr (va_client_secret s))] s"
  obtain a s1 where a: "send w ?q s = (a, s1)" by (cases "send w ?q s")
  have s1: "tokens_ok w s1" using send_tokens(1) [OF a assms(2)] by (simp add: post_request_def)
  show ?thesis
  proof (cases a)
    case (Inl e)
    then show ?thesis using assms a s1 by (cases e) (auto simp: authenticate_def split: if_splits)
  next
    case (Inr r)
    note stored = token_stored [OF a [unfolded Inr] assms(2)]
    show ?thesis using assms a s1 unfolding Inr
      by (auto simp: authenticate_def read_clock_def Let_def token_endpoint_def intro: stored split: if_splits sum.splits)
  qed
qed

lemma refresh_tokens:
  assumes "refresh_access_token w s = (res, s')" "tokens_ok w s"
  shows "tokens_ok w s'"
proof (cases "\<not> va_connected s \<or> \<not> truthy_str (va_refresh_token s)")
  case True
  then show ?thesis using assms authenticate_tokens [of w s res s'] by (auto simp: refresh_access_token_def)
next
  case False
  let ?q = "post_request ''/v2/auth/token/refresh'' [(''refresh_token'', JStr (the (va_refresh_token s)))] s"
  obtain a s1 where a: "send w ?q s = (a, s1)" by (cases "send w ?q s")
  have s1: "tokens_ok w s1" using send_tokens(1) [OF a assms(2)] by (simp add: post_request_def)
  show ?thesis
  proof (cases a)
    case (Inl e)
    then show ?thesis using assms a s1 False by (cases e) (auto simp: refresh_access_token_def)
  next
    case (Inr r)
    note stored = token_stored [OF a [unfolded Inr] assms(2)]
    show ?thesis using assms a s1 False unfolding Inr
      by (auto simp: refresh_access_token_def read_clock_def Let_def token_endpoint_def
          intro: stored authenticate_tokens split: if_splits sum.splits)
  qed
qed

lemma ensure_tokens:
  assumes "ensure_valid_token w s = (res, s')" "tokens_ok w s"
  shows "tokens_ok w s'" "res = Inr token \<Longrightarrow> granted w (va_sent s') token"
proof -
  obtain now s1 where c: "read_clock w s = (now, s1)" by (cases "read_clock w s")
  have s1: "tokens_ok w s1" using assms(2) c by (auto simp: read_clock_def)
  have r: "tokens_ok w s2" if "refresh_access_token w s1 = (x, s2)" for x s2 using refresh_tokens [OF that s1] .
  show "tokens_ok w s'" using assms(1) c s1 r by (auto simp: ensure_valid_token_def Let_def split: if_splits prod.splits sum.splits)
  moreover have "va_access_token s' = Some token" if "res = Inr token"
    using assms(1) c that by (auto simp: ensure_valid_token_def Let_def truthy_str_def split: if_splits prod.splits sum.splits)
  ultimately show "res = Inr token \<Longrightarrow> granted w (va_sent s') token" by (simp add: tokens_ok_def)
qed

lemma attempt_tokens:
  assumes "attempt_once w a n q s = (res, s')" "tokens_ok w s" "\<And>token. rq_bearer q = Some token \<Longrightarrow> granted w (va_sent s) token"
  shows "tokens_ok w s'" "res = Inr (Inr token) \<Longrightarrow> granted w (va_sent s') token" "\<exists>xs. va_sent s' = va_sent s @ xs"
proof -
  obtain x s1 where x: "send w q s = (x, s1)" by (cases "send w q s")
  have s1: "tokens_ok w s1" by (rule send_tokens(1) [OF x assms(2,3)])
  have s2: "tokens_ok w s2" if "refresh_access_token w s1 = (y, s2)" for y s2 using refresh_tokens [OF that s1] .
  have s3: "tokens_ok w s3" "z = Inr u \<Longrightarrow> granted w (va_sent s3) u"
    if "refresh_access_token w s1 = (y, s2)" "ensure_valid_token w s2 = (z, s3)" for y s2 z s3 u
    using ensure_tokens [OF that(2) s2 [OF that(1)]] by auto
  have "tokens_ok w s' \<and> (\<forall>token. res = Inr (Inr token) \<longrightarrow> granted w (va_sent s') token)"
  proof (cases "\<exists>r. x = Inr r \<and> rp_status r = 401 \<and> a \<and> n = 0")
    case True
    then show ?thesis using assms(1) x by (auto simp: attempt_once_def dest: s2 s3 split: prod.splits sum.splits)
  next
    case False
    then have "s' = s1 \<and> (\<forall>token. res \<noteq> Inr (Inr token))"
      using assms(1) x by (auto simp: attempt_once_def split: sum.splits if_splits option.splits)
    with s1 show ?thesis by auto
  qed
  then show "tokens_ok w s'" "res = Inr (Inr token) \<Longrightarrow> granted w (va_sent s') token" by auto
  show "\<exists>xs. va_sent s' = va_sent s @ xs" using attempt_grows [OF assms(1)] by (auto simp: grows_def)
qed

lemma request_loop_tokens:
  assumes "request_loop w a retries n q s = (res, s')" "tokens_ok w s" "\<And>token. rq_bearer q = Some token \<Longrightarrow> granted w (va_sent s) token"
  shows "tokens_ok w s'"
  using assms
proof (induction w a retries n q s arbitrary: res s' rule: request_loop.induct)
  case (1 w a retries n q s)
  obtain o1 s1 where at: "attempt_once w a n q s = (o1, s1)" by (cases "attempt_once w a n q s")
  note ok = attempt_tokens [OF at "1.prems"(2,3)]
  show ?case
  proof (cases o1)
    case (Inl e)
    show ?thesis
    proof (cases "\<exists>x. gives_up_with retries e = Some x \<and> n < retries")
      case True
      then obtain x where x: "gives_up_with retries e = Some x" "n < retries" by auto
      have r: "request_loop w a retries (Suc n) q (vas_sleep (retry_delay n) s1) = (res, s')"
        using "1.prems"(1) at Inl x by (simp add: request_loop.simps [of w a retries n])
      have "granted w (va_sent (vas_sleep (retry_delay n) s1)) token" if "rq_bearer q = Some token" for token
        using ok(3) "1.prems"(3) [OF that] by (auto simp: vas_sleep_def)
      from "1.IH"(1) [OF at [symmetric] Inl x r _ this] show ?thesis using ok(1) by simp
    next
      case False
      then have "s' = s1" using "1.prems"(1) at Inl by (auto simp: request_loop.simps [of w a retries n] split: option.splits)
      then show ?thesis using ok(1) by simp
    qed
  next
    case (Inr y)
    show ?thesis
    proof (cases y)
      case (Inl r)
      then have "s' = s1" using "1.prems"(1) at Inr by (simp add: request_loop.simps [of w a retries n])
      then show ?thesis using ok(1) by simp
    next
      case (Inr token)
      with \<open>o1 = Inr y\<close> have at': "attempt_once w a n q s = (Inr (Inr token), s1)" using at by simp
      have r: "request_loop w a retries (Suc n) (q\<lparr>rq_bearer := Some token\<rparr>) s1 = (res, s')"
        using "1.prems"(1) at' by (simp add: request_loop.simps [of w a retries n])
      show ?thesis using "1.IH"(2) [OF at' [symmetric] refl refl r ok(1)] ok(2) \<open>o1 = Inr y\<close> Inr by simp
    qed
  qed
qed

lemma request_tokens:
  assumes "request w m path body params authenticated timeout retries s = (res, s')" "tokens_ok w s"
  shows "tokens_ok w s'"
proof (cases "va_connected s \<and> authenticated")
  case True
  obtain t s1 where e: "ensure_valid_token w s = (t, s1)" by (cases "ensure_valid_token w s")
  note ok = ensure_tokens [OF e assms(2)]
  show ?thesis
  proof (cases t)
    case (Inr token)
    then show ?thesis using assms(1) True e ok(2) [OF Inr]
      by (auto simp: request_def Let_def intro: request_loop_tokens [OF _ ok(1)])
  qed (use assms(1) True e ok(1) in \<open>auto simp: request_def Let_def\<close>)
next
  case False
  then show ?thesis using assms
    by (auto simp: request_def Let_def intro: request_loop_tokens [OF _ assms(2)] split: if_splits)
qed

lemma direct_get_tokens:
  assumes "direct_get w path params s = (res, s')" "tokens_ok w s"
  shows "tokens_ok w s'"
proof (cases "va_connected s")
  case True
  obtain t s1 where e: "ensure_valid_token w s = (t, s1)" by (cases "ensure_valid_token w s")
  note ok = ensure_tokens [OF e assms(2)]
  show ?thesis
  proof (cases t)
    case (Inr token)
    then show ?thesis using assms(1) True e ok(2) [OF Inr]
      by (auto simp: direct_get_def intro: send_tokens(1) [OF _ ok(1)] split: prod.splits sum.splits)
  qed (use assms(1) True e ok(1) in \<open>auto simp: direct_get_def\<close>)
qed (use assms in \<open>auto simp: direct_get_def\<close>)

text \<open>The steps of a client: every method is made of these.\<close>

inductive vcstep :: "Wire \<Rightarrow> VASClient \<Rightarrow> VASClient \<Rightarrow> bool" for w where
  connected: "connect w s = (res, s') \<Longrightarrow> vcstep w s s'"
| closed: "vcstep w s (close s)"
| requested: "request w m path body params authenticated timeout retries s = (res, s') \<Longrightarrow> vcstep w s s'"
| downloaded: "direct_get w path params s = (res, s') \<Longrightarrow> vcstep w s s'"
| clock_read: "read_clock w s = (now, s') \<Longrightarrow> vcstep w s s'"
| waited: "vcstep w s (vas_sleep x s)"

lemma vcstep_tokens: "vcstep w s s' \<Longrightarrow> tokens_ok w s \<Longrightarrow> tokens_ok w s'"
proof (induction rule: vcstep.induct)
  case (connected s res s')
  have "tokens_ok w (s\<lparr>va_connected := True\<rparr>)" using connected.prems by (simp add: tokens_ok_def)
  then show ?case using connected authenticate_tokens by (fastforce simp: connect_def split: if_splits)
next
  case (closed s)
  then show ?case by (simp add: close_def tokens_ok_def)
next
  case (clock_read s now s')
  then show ?case by (auto simp: read_clock_def)
qed (auto intro: request_tokens direct_get_tokens)

interpretation vas_client: invariant_system "\<lambda>s. \<exists>i k t. s = new_vas_client i k t" "vcstep w" "tokens_ok w" for w
proof unfold_locales
  show "tokens_ok w s" if "\<exists>i k t. s = new_vas_client i k t" for s
    using that by (auto simp: new_vas_client_def tokens_ok_def intro: bearers_granted.none_sent)
qed (rule vcstep_tokens)

section \<open>What a status means, and which answers are tried again\<close>

definition error_code_of :: "Wire \<Rightarrow> Response \<Rightarrow> string option" where
  "error_code_of w r = (case rp_json r of None \<Rightarrow> None | Some j \<Rightarrow> map_option er_error (wi_error w j))"

text \<open>The class a response is turned into, by its status and the code in its body.\<close>

definition class_of :: "int \<Rightarrow> string option \<Rightarrow> vas_class option" where
  "class_of status code =
     (if 200 \<le> status \<and> status < 300 then None
      else Some
       (if status = 400 then VC_Validation else if status = 401 then VC_Authentication else if status = 403 then VC_Forbidden
        else if status = 404 then VC_NotFound
        else if status = 409 then (if code = Some ''STREAM_NOT_LIVE'' then VC_StreamNotLive else VC_Conflict)
        else if status = 504 \<or> status = 502 \<and> code \<in> {Some ''RTSP_CONNECTION_FAILED'', Some ''SSRC_CAPTURE_FAILED''} then VC_RTSP
        else if status = 503 \<and> code = Some ''MEDIASOUP_UNAVAILABLE'' then VC_MediaSoup
        else if 500 \<le> status then VC_Server else VC_Error))"

lemmas exception_makers = vas_exception_def authentication_error_def forbidden_error_def not_found_error_def conflict_error_def
  stream_not_live_error_def validation_error_def server_error_def mediasoup_error_def rtsp_error_def

lemma maker_class [simp]:
  "vx_class (vas_exception c m st code d rid) = c" "vx_class (authentication_error m code rid) = VC_Authentication"
  "vx_class (forbidden_error m code rid) = VC_Forbidden" "vx_class (not_found_error t i rid) = VC_NotFound"
  "vx_class (conflict_error m code d rid) = VC_Conflict" "vx_class (stream_not_live_error i c' rid) = VC_StreamNotLive"
  "vx_class (validation_error m d rid) = VC_Validation" "vx_class (server_error m n code d rid) = VC_Server"
  "vx_class (mediasoup_error m rid) = VC_MediaSoup" "vx_class (rtsp_error m n code d rid) = VC_RTSP"
  by (simp_all add: exception_makers)

lemma parsed_code: "map_option er_error (case rp_json r of None \<Rightarrow> None | Some j \<Rightarrow> wi_error w j) = error_code_of w r"
  by (simp add: error_code_of_def split: option.split)

lemma raise_class: "map_option vx_class (raise_for_status w r) = class_of (rp_status r) (error_code_of w r)"
proof (cases "is_success r")
  case True
  then show ?thesis by (simp add: raise_for_status_def class_of_def is_success_def)
next
  case False
  then have "\<not> (200 \<le> rp_status r \<and> rp_status r < 300)" by (simp add: is_success_def)
  note raised = raise_for_status_def [of w r, unfolded Let_def parsed_code if_not_P [OF False]]
    and cls = class_of_def [of "rp_status r", unfolded if_not_P [OF this]]
  consider "rp_status r \<in> {400, 401, 403, 404}" | "rp_status r = 409" | "rp_status r = 502" | "rp_status r = 503" | "rp_status r = 504"
    | "rp_status r \<notin> {400, 401, 403, 404, 409, 502, 503, 504}" by blast
  then show ?thesis unfolding raised cls by cases auto
qed

definition transient :: "client_error \<Rightarrow> bool" where
  "transient e \<longleftrightarrow> gives_up_with 0 e \<noteq> None"

lemma transient_iff: "gives_up_with n e = None \<longleftrightarrow> \<not> transient e"
  by (cases e) (auto simp: transient_def gives_up_with_def)

definition verdict :: "Wire \<Rightarrow> http_error + Response \<Rightarrow> client_error + Response" where
  "verdict w a = (case a of Inl e \<Rightarrow> Inl (HttpRaises e)
     | Inr r \<Rightarrow> (case raise_for_status w r of None \<Rightarrow> Inr r | Some x \<Rightarrow> Inl (VASRaises x)))"

text \<open>The answers after which a request is tried again: failed connections, time-outs and server errors.\<close>

definition retryable :: "Wire \<Rightarrow> http_error + Response \<Rightarrow> bool" where
  "retryable w a \<longleftrightarrow> (case a of Inl e \<Rightarrow> connect_failed e \<or> timed_out e
     | Inr r \<Rightarrow> class_of (rp_status r) (error_code_of w r) \<in> {Some VC_Server, Some VC_MediaSoup})"

lemma retryable_verdict: "retryable w a \<longleftrightarrow> (case verdict w a of Inl e \<Rightarrow> transient e | Inr r \<Rightarrow> False)"
proof (cases a)
  case (Inr r)
  show ?thesis unfolding retryable_def Inr sum.case raise_class [symmetric]
    by (auto simp: verdict_def transient_def gives_up_with_def split: option.splits if_splits)
qed (simp add: retryable_def verdict_def transient_def gives_up_with_def)

definition final_verdict :: "nat \<Rightarrow> client_error + Response \<Rightarrow> client_error + Response" where
  "final_verdict retries v =
     (case v of Inr r \<Rightarrow> Inr r | Inl e \<Rightarrow> (case gives_up_with retries e of None \<Rightarrow> Inl e | Some x \<Rightarrow> Inl (VASRaises x)))"

lemma retryable_response:
  "retryable w (Inr r) \<longleftrightarrow> 500 \<le> rp_status r \<and> rp_status r \<noteq> 504 \<and>
     \<not> (rp_status r = 502 \<and> error_code_of w r \<in> {Some ''RTSP_CONNECTION_FAILED'', Some ''SSRC_CAPTURE_FAILED''})"
  by (auto simp: retryable_def class_of_def)

lemma retryable_failure: "retryable w (Inl e) \<longleftrightarrow> connect_failed e \<or> timed_out e"
  by (simp add: retryable_def)

text \<open>A request without a token: the same request until an answer is final or the retries are used up.\<close>

lemma plain_attempt: "attempt_once w False n q s = (map_sum id Inl (verdict w (fst (send w q s))), snd (send w q s))"
  by (auto simp: attempt_once_def verdict_def send_def Let_def split: sum.splits option.splits)

definition after_tries :: "Wire \<Rightarrow> nat \<Rightarrow> nat \<Rightarrow> Request \<Rightarrow> VASClient \<Rightarrow> VASClient" where
  "after_tries w n k q s = s\<lparr>va_sent := va_sent s @ map (\<lambda>i. (q, wi_net w (sent_count s + i) q)) [0..<Suc k],
     va_slept := va_slept s @ map retry_delay [n..<n + k]\<rparr>"

lemma after_tries_0: "snd (send w q s) = after_tries w n 0 q s"
  by (simp add: send_def after_tries_def sent_count_def Let_def)

lemma after_tries_Suc:
  "after_tries w (Suc n) k q (vas_sleep (retry_delay n) (snd (send w q s))) = after_tries w n (Suc k) q s"
proof -
  have u: "[0..<Suc (Suc k)] = 0 # map Suc [0..<Suc k]" using map_Suc_upt [of 0 "Suc k"] by (simp add: upt_conv_Cons del: upt_Suc)
  have d: "[n..<n + Suc k] = n # [Suc n..<Suc n + k]" by (simp add: upt_conv_Cons del: upt_Suc)
  show ?thesis
    unfolding after_tries_def u d by (simp add: send_def sent_count_def vas_sleep_def Let_def comp_def del: upt_Suc)
qed

lemma plain_loop:
  assumes "n \<le> retries"
  shows "\<exists>k. n + k \<le> retries \<and> (\<forall>i<k. retryable w (wi_net w (sent_count s + i) q)) \<and>
    (n + k < retries \<longrightarrow> \<not> retryable w (wi_net w (sent_count s + k) q)) \<and>
    request_loop w False retries n q s = (final_verdict retries (verdict w (wi_net w (sent_count s + k) q)), after_tries w n k q s)"
  using assms
proof (induction "retries - n" arbitrary: n s rule: less_induct)
  case less
  let ?a = "wi_net w (sent_count s) q" and ?s1 = "snd (send w q s)"
  have a: "fst (send w q s) = ?a" by (simp add: send_def sent_count_def Let_def)
  show ?case
  proof (cases "retryable w ?a \<and> n < retries")
    case False
    have "request_loop w False retries n q s = (final_verdict retries (verdict w ?a), ?s1)"
    proof (cases "verdict w ?a")
      case (Inl e)
      show ?thesis
      proof (cases "gives_up_with retries e")
        case (Some x)
        then have "retryable w ?a" using Inl transient_iff [of retries e] by (simp add: retryable_verdict)
        with False less.prems have "\<not> n < retries" by simp
        then show ?thesis using Inl Some by (subst request_loop.simps) (simp add: plain_attempt a final_verdict_def)
      qed (use Inl in \<open>subst request_loop.simps, simp add: plain_attempt a final_verdict_def\<close>)
    qed (subst request_loop.simps, simp add: plain_attempt a final_verdict_def)
    then show ?thesis using False less.prems by (intro exI [of _ 0]) (auto simp: after_tries_0 [symmetric])
  next
    case True
    then obtain e where e: "verdict w ?a = Inl e" "transient e" by (auto simp: retryable_verdict split: sum.splits)
    then obtain x where x: "gives_up_with retries e = Some x" using transient_iff [of retries e] by auto
    let ?s2 = "vas_sleep (retry_delay n) ?s1"
    have step: "request_loop w False retries n q s = request_loop w False retries (Suc n) q ?s2"
      using True e(1) x by (subst request_loop.simps) (simp add: plain_attempt a)
    have c: "sent_count ?s2 = Suc (sent_count s)" by (simp add: send_def sent_count_def vas_sleep_def Let_def)
    from True have "retries - Suc n < retries - n" "Suc n \<le> retries" by auto
    from less.hyps [OF this, of ?s2] obtain k where k: "Suc n + k \<le> retries"
      "\<forall>i<k. retryable w (wi_net w (Suc (sent_count s) + i) q)"
      "Suc n + k < retries \<longrightarrow> \<not> retryable w (wi_net w (Suc (sent_count s) + k) q)"
      "request_loop w False retries (Suc n) q ?s2 =
        (final_verdict retries (verdict w (wi_net w (Suc (sent_count s) + k) q)), after_tries w (Suc n) k q ?s2)"
      unfolding c by blast
    have "\<forall>i<Suc k. retryable w (wi_net w (sent_count s + i) q)"
    proof (intro allI impI)
      fix i assume "i < Suc k" then show "retryable w (wi_net w (sent_count s + i) q)" using k(2) True by (cases i) auto
    qed
    then show ?thesis using k(1,3,4) step by (intro exI [of _ "Suc k"]) (simp add: after_tries_Suc)
  qed
qed

section \<open>Waiting ends\<close>

lemma wait_loop_ends:
  assumes "\<And>s. va_reads s \<le> va_reads (snd (fetch s))" "\<And>k. m \<le> k \<Longrightarrow> start + timeout \<le> wi_clock w k"
  shows "\<exists>res. wait_loop w fetch judge start timeout poll_interval msg s = Some res \<and> (\<forall>x. fst res = Inr x \<longrightarrow> judge x = Finished)"
proof (induction "m - va_reads s" arbitrary: s rule: less_induct)
  case less
  obtain s1 where s1: "read_clock w s = (wi_clock w (va_reads s), s1)" "va_reads s1 = Suc (va_reads s)"
    by (simp add: read_clock_def)
  show ?case
  proof (cases "wi_clock w (va_reads s) - start < timeout")
    case False
    then show ?thesis using s1 by (subst wait_loop.simps) simp
  next
    case True
    then have m: "va_reads s < m" using assms(2) [of "va_reads s"] by (cases "m \<le> va_reads s") auto
    obtain x s2 where x: "fetch s1 = (x, s2)" by (cases "fetch s1")
    have r: "m - va_reads (vas_sleep poll_interval s2) < m - va_reads s" using assms(1) [of s1] x s1(2) m by simp
    show ?thesis using s1 x True less [OF r]
      by (subst wait_loop.simps) (cases x; simp split: progress.split)
  qed
qed

lemma wait_until_ends:
  assumes "\<And>s. va_reads s \<le> va_reads (snd (fetch s))" "\<And>k. m \<le> k \<Longrightarrow> wi_clock w (va_reads s) + timeout \<le> wi_clock w k"
  shows "\<exists>res. wait_until w fetch judge timeout poll_interval msg s = Some res \<and> (\<forall>x. fst res = Inr x \<longrightarrow> judge x = Finished)"
proof -
  show ?thesis unfolding wait_until_def read_clock_def prod.case by (rule wait_loop_ends [OF assms])
qed

lemma read_body_reads: "va_reads (snd (read_body p (res, s))) = va_reads s"
  by (auto simp: read_body_def split: sum.splits)

lemma fetch_reads: "va_reads s \<le> va_reads (snd (read_body p (request w m path body params a timeout retries s)))"
proof -
  obtain res s' where r: "request w m path body params a timeout retries s = (res, s')"
    by (cases "request w m path body params a timeout retries s")
  show ?thesis using request_bounded [OF r] by (simp add: r read_body_reads)
qed

section \<open>Tokens are refreshed too early, and not after a retry\<close>

text \<open>The lifetime is taken to be an hour whatever the server granted: a token is refreshed when less than 48 minutes are left.\<close>

lemma refresh_decision:
  "ensure_valid_token w s =
     (let s1 = s\<lparr>va_reads := Suc (va_reads s)\<rparr>
      in if va_token_expires_at s - wi_clock w (va_reads s) < 2880 \<or> \<not> truthy_str (va_access_token s)
         then (case refresh_access_token w s1 of
                 (Inl e, s2) \<Rightarrow> (Inl e, s2)
               | (Inr _, s2) \<Rightarrow>
                   if truthy_str (va_access_token s2) then (Inr (the (va_access_token s2)), s2)
                   else (Inl (VASRaises (authentication_error ''Failed to obtain access token'' None None)), s2))
         else (Inr (the (va_access_token s)), s1))"
  by (simp add: ensure_valid_token_def read_clock_def TOKEN_REFRESH_THRESHOLD_def Let_def)

text \<open>A token granted for less than 48 minutes is never used without asking for another one first.\<close>

lemma short_tokens_refreshed:
  assumes "va_connected s" "va_token_expires_at s \<le> granted_at + 2879" "granted_at \<le> wi_clock w (va_reads s)"
  shows "sent_count s < sent_count (snd (ensure_valid_token w s))"
proof -
  have auth: "sent_count s1 < sent_count (snd (authenticate w s1))" if "va_connected s1" for s1
    using that by (auto simp: authenticate_def send_def sent_count_def read_clock_def Let_def split: sum.splits http_error.splits)
  have "sent_count s1 < sent_count (snd (refresh_access_token w s1))" if c: "va_connected s1" for s1
  proof (cases "truthy_str (va_refresh_token s1)")
    case True
    let ?q = "post_request ''/v2/auth/token/refresh'' [(''refresh_token'', JStr (the (va_refresh_token s1)))] s1"
    obtain a s2 where a: "send w ?q s1 = (a, s2)" by (cases "send w ?q s1")
    then have s2: "sent_count s2 = Suc (sent_count s1)" "va_connected s2" using c by (auto simp: send_def sent_count_def Let_def)
    have "sent_count s1 < sent_count (snd (authenticate w s2))" using auth [OF s2(2)] s2(1) by simp
    then show ?thesis using c True a s2(1)
      by (auto simp: refresh_access_token_def read_clock_def sent_count_def Let_def split: sum.splits http_error.splits)
  qed (use auth [OF c] c in \<open>simp add: refresh_access_token_def\<close>)
  from this [of "s\<lparr>va_reads := Suc (va_reads s)\<rparr>"] assms
  show ?thesis by (auto simp: refresh_decision sent_count_def Let_def split: prod.splits sum.splits)
qed

lemma late_401_raises:
  assumes "0 < n" "fst (send w q s) = Inr r" "rp_status r = 401"
  shows "\<exists>x. fst (attempt_once w True n q s) = Inl (VASRaises x) \<and> vx_class x = VC_Authentication"
  using assms by (cases "send w q s") (auto simp: attempt_once_def raise_for_status_def is_success_def exception_makers Let_def)

text \<open>A refresh that times out leaves the client as an exception of the HTTP library, not of VAS.\<close>

lemma refresh_timeout_leaks:
  assumes "va_connected s" "truthy_str (va_refresh_token s)" "wi_net w (length (va_sent s)) (post_request ''/v2/auth/token/refresh''
    [(''refresh_token'', JStr (the (va_refresh_token s)))] s) = Inl (TimeoutException m)"
  shows "fst (refresh_access_token w s) = Inl (HttpRaises (TimeoutException m))"
  using assms by (simp add: refresh_access_token_def send_def Let_def)

section \<open>The properties\<close>

lemma bearers_grantedD:
  "bearers_granted w sent \<Longrightarrow> sent = xs @ (q, a) # ys \<Longrightarrow> rq_bearer q = Some token \<Longrightarrow> granted w xs token"
proof (induction arbitrary: ys rule: bearers_granted.induct)
  case (one_more zs p b)
  show ?case
  proof (cases ys rule: rev_cases)
    case (snoc us u)
    then show ?thesis using one_more.IH [of us] one_more.prems by auto
  qed (use one_more in auto)
qed simp

definition demo_net :: "nat \<Rightarrow> Request \<Rightarrow> http_error + Response" where
  "demo_net n q =
     (if token_endpoint (rq_path q)
      then Inr \<lparr>rp_status = 200, rp_json = Some (JStr ''t''), rp_text = [], rp_content = [], rp_headers = []\<rparr>
      else if n < 2 then Inr \<lparr>rp_status = 500, rp_json = None, rp_text = [], rp_content = [], rp_headers = []\<rparr>
      else Inr \<lparr>rp_status = 200, rp_json = Some (JStr ''live''), rp_text = [], rp_content = [], rp_headers = []\<rparr>)"

definition demo_wire :: Wire where
  "demo_wire = \<lparr>wi_net = demo_net, wi_clock = real,
     wi_token = (\<lambda>j. case j of JStr t \<Rightarrow> Some \<lparr>to_access_token = t, to_expires_in = 3600, to_refresh_token = None\<rparr> | _ \<Rightarrow> None),
     wi_error = (\<lambda>_. None), wi_str = (\<lambda>_. None)\<rparr>"

definition demo_client :: VASClient where
  "demo_client = (new_vas_client ''ruth'' ''secret'' 30)\<lparr>va_connected := True\<rparr>"

text \<open>
  C12. A token is used only after VAS granted it. Along any run of a new client, of connecting, requests with their
  retries and refreshes, downloads, waiting and closing, every request that carries a bearer token comes after a
  successful answer of a token endpoint that granted exactly this token.
\<close>

theorem bearer_was_granted:
  assumes "reach (\<lambda>s. \<exists>i k t. s = new_vas_client i k t) (vcstep w) s" "va_sent s = xs @ (q, a) # ys" "rq_bearer q = Some token"
  shows "\<exists>p r j t. (p, Inr r) \<in> set xs \<and> token_endpoint (rq_path p) \<and> is_success r \<and> rp_json r = Some j \<and> wi_token w j = Some t \<and>
    to_access_token t = token"
proof -
  have "bearers_granted w (va_sent s)" using vas_client.reach_invar [OF assms(1)] by (simp add: tokens_ok_def)
  from bearers_grantedD [OF this assms(2,3)] obtain p b where "(p, b) \<in> set xs" "grants w (p, b) token" by (auto simp: granted_def)
  then show ?thesis unfolding grants_def fst_conv snd_conv by blast
qed

definition demo_session :: VASClient where
  "demo_session = snd (direct_get demo_wire ''/v2/x'' None (snd (connect demo_wire (new_vas_client ''ruth'' ''secret'' 30))))"

lemma demo_session_sent: "map (rq_bearer \<circ> fst) (va_sent demo_session) = [None, Some ''t'']"
  by (simp add: demo_session_def connect_def new_vas_client_def authenticate_def send_def post_request_def demo_wire_def demo_net_def
      token_endpoint_def token_of_def is_success_def read_clock_def direct_get_def refresh_decision truthy_str_def Let_def)

lemma demo_session_reached: "reach (\<lambda>s. \<exists>i k t. s = new_vas_client i k t) (vcstep demo_wire) demo_session"
proof -
  let ?s0 = "new_vas_client ''ruth'' ''secret'' 30" and ?s1 = "snd (connect demo_wire (new_vas_client ''ruth'' ''secret'' 30))"
  have "reach (\<lambda>s. \<exists>i k t. s = new_vas_client i k t) (vcstep demo_wire) ?s0" by (rule reach.intros(1)) blast
  then have "reach (\<lambda>s. \<exists>i k t. s = new_vas_client i k t) (vcstep demo_wire) ?s1"
    by (rule reach.intros(2)) (rule vcstep.connected [OF surjective_pairing])
  then show ?thesis unfolding demo_session_def by (rule reach.intros(2)) (rule vcstep.downloaded [OF surjective_pairing])
qed

theorem bearer_was_granted_witness:
  "\<exists>x y p r. va_sent demo_session = [x, y] \<and> rq_bearer (fst y) = Some ''t'' \<and> x = (p, Inr r) \<and> token_endpoint (rq_path p)"
proof -
  obtain x q a where s: "va_sent demo_session = [x] @ (q, a) # []" "rq_bearer q = Some ''t''"
    using demo_session_sent by (cases "va_sent demo_session"; cases "tl (va_sent demo_session)") auto
  from bearer_was_granted [OF demo_session_reached s] show ?thesis using s by auto
qed

text \<open>
  C34. One request ends soon. Whatever the network answers, one call of the request method with the usual three
  retries sends at most ten requests, those for tokens included, and sleeps at most seven seconds. (Waiting for a stream or
  an object makes many such calls; the integration guide prescribes longer pauses, of up to a minute.)
\<close>

theorem vas_request_bounded:
  assumes "request w m path body params authenticated timeout MAX_RETRIES s = (res, s')"
  shows "sent_count s' \<le> sent_count s + 10 \<and> slept_total s' \<le> slept_total s + 7"
proof -
  have "(\<Sum>k\<leftarrow>[0..<MAX_RETRIES]. retry_delay k) = 7"
    by (simp add: MAX_RETRIES_def retry_delay_def RETRY_BACKOFF_BASE_def RETRY_BACKOFF_MAX_def upt_conv_Cons)
  then show ?thesis using request_bounded [OF assms] by (simp add: MAX_RETRIES_def)
qed

theorem vas_request_bounded_witness:
  "sent_count (snd (request demo_wire M_GET ''/health'' None None False None MAX_RETRIES demo_client)) \<le> 10"
proof -
  have "sent_count demo_client = 0" by (simp add: demo_client_def new_vas_client_def sent_count_def)
  then show ?thesis using vas_request_bounded [OF surjective_pairing, of demo_wire M_GET "''/health''" None None False None demo_client] by simp
qed

text \<open>
  What a request comes to by its last answer, written down without the code that raises the exceptions. A lost connection,
  a time-out and a status outside 200 to 299 become exceptions, by the table of statuses and codes \<open>class_of\<close>; other
  errors of the network are handed on.
\<close>

definition comes_to :: "Wire \<Rightarrow> http_error + Response \<Rightarrow> client_error + Response \<Rightarrow> bool" where
  "comes_to w a res \<longleftrightarrow>
     (case a of
        Inl e \<Rightarrow> if connect_failed e then \<exists>x. res = Inl (VASRaises x) \<and> vx_class x = VC_Connection
          else if timed_out e then \<exists>x. res = Inl (VASRaises x) \<and> vx_class x = VC_Timeout else res = Inl (HttpRaises e)
      | Inr r \<Rightarrow> (case class_of (rp_status r) (error_code_of w r) of
            None \<Rightarrow> res = Inr r
          | Some c \<Rightarrow> \<exists>x. res = Inl (VASRaises x) \<and> vx_class x = c))"

definition may_pass :: "Wire \<Rightarrow> http_error + Response \<Rightarrow> bool" where
  "may_pass w a \<longleftrightarrow>
     (case a of
        Inl e \<Rightarrow> connect_failed e \<or> timed_out e
      | Inr r \<Rightarrow> 500 \<le> rp_status r \<and> rp_status r \<noteq> 504 \<and>
          \<not> (rp_status r = 502 \<and> error_code_of w r \<in> {Some ''RTSP_CONNECTION_FAILED'', Some ''SSRC_CAPTURE_FAILED''}))"

lemma retryable_may_pass: "retryable w a = may_pass w a"
  by (cases a) (simp_all add: may_pass_def retryable_response retryable_failure)

lemma final_comes_to: "comes_to w a (final_verdict n (verdict w a))"
proof (cases a)
  case (Inl e)
  then show ?thesis
    by (simp add: comes_to_def final_verdict_def verdict_def gives_up_with_def connection_error_def timeout_error_def)
next
  case (Inr r)
  show ?thesis
  proof (cases "raise_for_status w r")
    case None
    then have "class_of (rp_status r) (error_code_of w r) = None" using raise_class [of w r] by simp
    with None Inr show ?thesis by (simp add: comes_to_def final_verdict_def verdict_def)
  next
    case (Some x)
    then have "class_of (rp_status r) (error_code_of w r) = Some (vx_class x)" using raise_class [of w r] by simp
    with Some Inr show ?thesis by (simp add: comes_to_def final_verdict_def verdict_def gives_up_with_def split: option.split)
  qed
qed

text \<open>
  C33. A request without a token, exactly. A connected client sends the same request until an answer is not to be tried
  again or the retries are used up, and comes to what the last answer says by the table of statuses; nothing else of
  the client changes. Tried again are lost connections, time-outs and statuses from 500 on, but not 504, and not 502 when the
  code says that the camera failed; the pauses between are one second, two, four and so on, at most thirty. The integration guide of
  VAS has 504 and every 502 retried too, and at most two retries for 500 and 504, after longer pauses.
\<close>

theorem plain_request_outcome:
  assumes "va_connected s"
    "q = \<lparr>rq_method = m, rq_path = path, rq_json = body, rq_params = params, rq_bearer = None,
       rq_timeout = (case timeout of None \<Rightarrow> va_timeout s | Some t \<Rightarrow> if t = 0 then va_timeout s else t)\<rparr>"
    "ans = (\<lambda>i. wi_net w (sent_count s + i) q)"
  shows "\<exists>k\<le>retries. (\<forall>i<k. may_pass w (ans i)) \<and> (k = retries \<or> \<not> may_pass w (ans k)) \<and>
    comes_to w (ans k) (fst (request w m path body params False timeout retries s)) \<and>
    snd (request w m path body params False timeout retries s) =
       s\<lparr>va_sent := va_sent s @ map (\<lambda>i. (q, ans i)) [0..<Suc k], va_slept := va_slept s @ map (\<lambda>i. min (2 ^ i) 30) [0..<k]\<rparr>"
proof -
  have d: "retry_delay = (\<lambda>i. min (2 ^ i) 30)"
    by (rule ext) (simp add: retry_delay_def RETRY_BACKOFF_BASE_def RETRY_BACKOFF_MAX_def)
  have run: "request w m path body params False timeout retries s = request_loop w False retries 0 q s"
    unfolding request_def assms(2) Let_def using assms(1) by simp
  from plain_loop [of 0 retries w s q] obtain k where k: "k \<le> retries" "\<forall>i<k. may_pass w (ans i)" "k = retries \<or> \<not> may_pass w (ans k)"
    "request w m path body params False timeout retries s = (final_verdict retries (verdict w (ans k)), after_tries w 0 k q s)"
    unfolding run retryable_may_pass assms(3) by fastforce
  then show ?thesis using final_comes_to [of w "ans k" retries]
    by (intro exI [of _ k]) (simp add: after_tries_def d assms(3) del: upt_Suc)
qed

text \<open>Two server errors and then a success.\<close>

theorem plain_request_outcome_witness:
  "\<exists>r. fst (request demo_wire M_GET ''/health'' None None False None MAX_RETRIES demo_client) = Inr r \<and> rp_status r = 200 \<and>
     va_slept (snd (request demo_wire M_GET ''/health'' None None False None MAX_RETRIES demo_client)) = [1, 2]"
proof -
  let ?r = "request demo_wire M_GET ''/health'' None None False None MAX_RETRIES demo_client"
  have c: "va_connected demo_client" "sent_count demo_client = 0" "va_slept demo_client = []"
    by (simp_all add: demo_client_def new_vas_client_def sent_count_def)
  define q where "q = \<lparr>rq_method = M_GET, rq_path = ''/health'', rq_json = None, rq_params = None, rq_bearer = None,
     rq_timeout = (case None of None \<Rightarrow> va_timeout demo_client | Some t \<Rightarrow> if t = 0 then va_timeout demo_client else t)\<rparr>"
  have t: "\<not> token_endpoint (rq_path q)" by (simp add: q_def token_endpoint_def)
  have n: "wi_net demo_wire (sent_count demo_client + i) q = demo_net i q" for i by (simp add: c(2) demo_wire_def)
  from plain_request_outcome [OF c(1) q_def refl, of MAX_RETRIES demo_wire, unfolded n] obtain k where
    k0: "k \<le> MAX_RETRIES" "\<forall>i<k. may_pass demo_wire (demo_net i q)" "k = MAX_RETRIES \<or> \<not> may_pass demo_wire (demo_net k q)"
    "comes_to demo_wire (demo_net k q) (fst ?r)"
    "snd ?r = demo_client\<lparr>va_sent := va_sent demo_client @ map (\<lambda>i. (q, demo_net i q)) [0..<Suc k],
       va_slept := va_slept demo_client @ map (\<lambda>i. min (2 ^ i) 30) [0..<k]\<rparr>" by blast
  have "va_slept (snd ?r) = map (\<lambda>i. min (2 ^ i) 30) [0..<k]" unfolding k0(5) by (simp add: c(3))
  with k0 have
    k: "k \<le> 3" "\<forall>i<k. may_pass demo_wire (demo_net i q)" "k = 3 \<or> \<not> may_pass demo_wire (demo_net k q)"
    "comes_to demo_wire (demo_net k q) (fst ?r)" "va_slept (snd ?r) = map (\<lambda>i. min (2 ^ i) 30) [0..<k]"
    by (simp_all add: MAX_RETRIES_def)
  have p: "may_pass demo_wire (demo_net i q) \<longleftrightarrow> i < 2" for i by (simp add: demo_net_def t may_pass_def)
  have "k = 2" using k(1,3) k(2) [rule_format, of 2] unfolding p by linarith
  then show ?thesis using k(4,5) by (auto simp: comes_to_def demo_net_def t class_of_def upt_conv_Cons)
qed

text \<open>
  The status of an answer decides. An answer raises exactly when it is no success, with the class that the table of
  statuses and error codes gives; and the retry loop tries again exactly after failed connections, time-outs and
  server errors other than the camera errors among them.
\<close>

theorem status_decides:
  "map_option vx_class (raise_for_status w r) = class_of (rp_status r) (error_code_of w r) \<and>
   (retryable w (Inr r) \<longleftrightarrow> 500 \<le> rp_status r \<and> class_of (rp_status r) (error_code_of w r) \<noteq> Some VC_RTSP) \<and>
   (retryable w (Inl e) \<longleftrightarrow> connect_failed e \<or> timed_out e)"
  unfolding retryable_response retryable_failure raise_class by (auto simp: class_of_def)

lemma fetched_ends:
  assumes "\<forall>k\<ge>m. wi_clock w (va_reads s) + timeout \<le> wi_clock w k" "\<And>x. judge x = Finished \<Longrightarrow> P x"
  shows "\<exists>res. wait_until w (\<lambda>s. read_body p (request w me path body params a t0 retries s)) judge timeout poll msg s = Some res \<and>
    (\<forall>x. fst res = Inr x \<longrightarrow> P x)"
proof -
  let ?fetch = "\<lambda>s. read_body p (request w me path body params a t0 retries s)"
  have reads: "va_reads s \<le> va_reads (snd (?fetch s))" for s by (rule fetch_reads)
  have late: "wi_clock w (va_reads s) + timeout \<le> wi_clock w k" if "m \<le> k" for k using assms(1) that by blast
  from wait_until_ends [where fetch = ?fetch and judge = judge, OF reads late] assms(2) show ?thesis by blast
qed

text \<open>
  Waiting ends. When the readings of the clock reach the start plus the timeout and stay there, waiting for a stream,
  a snapshot or a clip returns, whatever VAS answers; an object is returned only live or ready.
\<close>

theorem waits_end:
  assumes "\<forall>k\<ge>m. wi_clock w (va_reads s) + timeout \<le> wi_clock w k"
  shows "(\<exists>res. wait_for_stream_live w p i timeout poll s = Some res \<and> (\<forall>x. fst res = Inr x \<longrightarrow> vm_state x = ''live'')) \<and>
    (\<exists>res. wait_for_snapshot_ready w p' i timeout poll s = Some res \<and> (\<forall>x. fst res = Inr x \<longrightarrow> vd_status x = Some ''ready'')) \<and>
    (\<exists>res. wait_for_bookmark_ready w p' i timeout poll s = Some res \<and> (\<forall>x. fst res = Inr x \<longrightarrow> vd_status x = Some ''ready''))"
proof -
  note ends = fetched_ends [OF assms]
  show ?thesis unfolding wait_for_stream_live_def wait_for_snapshot_ready_def wait_for_bookmark_ready_def
      vas_get_stream_def vas_get_snapshot_def vas_get_bookmark_def
    by (intro conjI ends) (simp_all add: judge_stream_def judge_media_def split: if_splits)
qed

theorem waits_end_witness: "\<exists>res. wait_for_stream_live demo_wire (\<lambda>j. None) ''s1'' 5 1 demo_client = Some res"
proof -
  have "\<forall>k\<ge>5. wi_clock demo_wire (va_reads demo_client) + 5 \<le> wi_clock demo_wire k"
    by (simp add: demo_wire_def demo_client_def new_vas_client_def)
  from conjunct1 [OF waits_end [OF this]] show ?thesis by blast
qed

end
