(* ===== verification/SqlValidator.thy ===== *)
theory SqlValidator
  imports BackendModels
begin

text \<open>
  \<open>ruth-ai-nlp-chat/app/core/sql_validator.py\<close>: the check every generated query passes before it is executed. Texts
  are ASCII, where ignoring case means comparing lower-case letters. The regular expressions are written as
  predicates on a position: the character before it and the text from there on.
\<close>

section \<open>Texts and positions\<close>

definition py_upper :: "string \<Rightarrow> string" where
  "py_upper t = map (\<lambda>c. if CHR ''a'' \<le> c \<and> c \<le> CHR ''z'' then char_of (of_char c - 32 :: nat) else c) t"

definition word_char :: "char \<Rightarrow> bool" where
  "word_char c \<longleftrightarrow> (CHR ''a'' \<le> c \<and> c \<le> CHR ''z'') \<or> (CHR ''A'' \<le> c \<and> c \<le> CHR ''Z'') \<or> is_digit c \<or> c = CHR ''_''"

definition name_start :: "char \<Rightarrow> bool" where
  "name_start c \<longleftrightarrow> word_char c \<and> \<not> is_digit c"

text \<open>The text begins with \<open>w\<close> if case is ignored.\<close>

definition starts_ci :: "string \<Rightarrow> string \<Rightarrow> bool" where
  "starts_ci w t \<longleftrightarrow> length w \<le> length t \<and> py_lower (take (length w) t) = py_lower w"

text \<open>A word boundary before a word character: nothing, or no word character, comes before it.\<close>

definition boundary :: "char option \<Rightarrow> bool" where
  "boundary prev \<longleftrightarrow> (case prev of None \<Rightarrow> True | Some c \<Rightarrow> \<not> word_char c)"

definition next_char :: "string \<Rightarrow> char option" where
  "next_char t = (case t of [] \<Rightarrow> None | c # _ \<Rightarrow> Some c)"

text \<open>\<open>re.search\<close>: some position of the text satisfies \<open>p\<close>.\<close>

fun search :: "(char option \<Rightarrow> string \<Rightarrow> bool) \<Rightarrow> char option \<Rightarrow> string \<Rightarrow> bool" where
  "search p prev [] = p prev []"
| "search p prev (c # t) = (p prev (c # t) \<or> search p (Some c) t)"

section \<open>The patterns\<close>

datatype pattern = Whole_word string | Word_prefix string | Literal string | After_semicolon string | Word_then_name string

text \<open>\<open>.*\<close> stops at the end of a line.\<close>

fun later_on_line :: "string \<Rightarrow> string \<Rightarrow> bool" where
  "later_on_line w [] = starts_ci w []"
| "later_on_line w (c # t) = (starts_ci w (c # t) \<or> c \<noteq> CHR 0x0A \<and> later_on_line w t)"

fun matches_at :: "pattern \<Rightarrow> char option \<Rightarrow> string \<Rightarrow> bool" where
  "matches_at (Whole_word w) prev t \<longleftrightarrow> boundary prev \<and> starts_ci w t \<and> boundary (next_char (drop (length w) t))"
| "matches_at (Word_prefix w) prev t \<longleftrightarrow> boundary prev \<and> starts_ci w t"
| "matches_at (Literal w) prev t \<longleftrightarrow> starts_ci w t"
| "matches_at (After_semicolon w) prev t \<longleftrightarrow> next_char t = Some (CHR '';'') \<and> later_on_line w (tl t)"
| "matches_at (Word_then_name w) prev t \<longleftrightarrow> boundary prev \<and> starts_ci w t \<and>
     (let r = drop (length w) t; n = dropWhile is_space r
      in length n < length r \<and> (case n of [] \<Rightarrow> False | c # _ \<Rightarrow> word_char c))"

definition DANGEROUS_PATTERNS :: "pattern list" where
  "DANGEROUS_PATTERNS =
     map Whole_word [''DROP'', ''DELETE'', ''INSERT'', ''UPDATE'', ''ALTER'', ''CREATE'', ''TRUNCATE'', ''GRANT'', ''REVOKE'', ''EXEC'',
       ''EXECUTE'', ''CALL''] @
     [Literal ''--'', Literal ''/*'', After_semicolon ''SELECT'', Word_then_name ''INTO'', Whole_word ''LOAD'', Whole_word ''COPY'',
      Word_prefix ''PG_'', Whole_word ''INFORMATION_SCHEMA'']"

definition pattern_found :: "pattern \<Rightarrow> string \<Rightarrow> bool" where
  "pattern_found p t \<longleftrightarrow> search (matches_at p) None t"

section \<open>The validator\<close>

text \<open>Of several tables that are not allowed the code names any one, in the order of a set; here it is the first.\<close>

record ValidationResult =
  vr_is_valid :: bool
  vr_error :: "string option"
  vr_sanitized_sql :: "string option"

definition rejected :: "string \<Rightarrow> ValidationResult" where
  "rejected m = \<lparr>vr_is_valid = False, vr_error = Some m, vr_sanitized_sql = None\<rparr>"

record SQLValidator =
  sv_allowed_tables :: "string list"
  sv_max_result_rows :: int

definition new_validator :: "string list \<Rightarrow> int \<Rightarrow> SQLValidator" where
  "new_validator allowed_tables max_result_rows =
     \<lparr>sv_allowed_tables = map py_lower allowed_tables, sv_max_result_rows = max_result_rows\<rparr>"

definition rstrip_semicolons :: "string \<Rightarrow> string" where
  "rstrip_semicolons t = rev (dropWhile (\<lambda>c. c = CHR '';'') (rev t))"

text \<open>The matches of \<open>\bKEYWORD\s+(name)\<close> from left to right; a match is skipped before the next is sought.\<close>

definition name_after :: "string \<Rightarrow> char option \<Rightarrow> string \<Rightarrow> (string \<times> string) option" where
  "name_after keyword prev t =
     (let r = drop (length keyword) t; n = dropWhile is_space r
      in if boundary prev \<and> starts_ci keyword t \<and> length n < length r \<and> (case n of [] \<Rightarrow> False | c # _ \<Rightarrow> name_start c)
         then Some (takeWhile word_char n, dropWhile word_char n) else None)"

lemma name_after_shorter: "name_after keyword prev t = Some (n, rest) \<Longrightarrow> length rest < length t"
proof -
  assume n: "name_after keyword prev t = Some (n, rest)"
  let ?r = "drop (length keyword) t"
  have "length (dropWhile is_space ?r) < length ?r" "rest = dropWhile word_char (dropWhile is_space ?r)"
    using n by (auto simp: name_after_def Let_def split: if_splits)
  moreover have "length (dropWhile word_char (dropWhile is_space ?r)) \<le> length (dropWhile is_space ?r)" by (rule length_dropWhile_le)
  moreover have "length ?r \<le> length t" by simp
  ultimately show ?thesis using le_less_trans less_le_trans by metis
qed

function names_after :: "string \<Rightarrow> char option \<Rightarrow> string \<Rightarrow> string list" where
  "names_after keyword prev t =
     (case name_after keyword prev t of
        Some (n, rest) \<Rightarrow> n # names_after keyword (Some (last n)) rest
      | None \<Rightarrow> (case t of [] \<Rightarrow> [] | c # u \<Rightarrow> names_after keyword (Some c) u))"
  by pat_completeness auto
termination
  by (relation "measure (\<lambda>(keyword, prev, t). length t)") (auto dest: name_after_shorter)

declare names_after.simps [simp del]

definition extract_table_names :: "string \<Rightarrow> string list" where
  "extract_table_names sql = names_after ''FROM'' None sql @ names_after ''JOIN'' None sql"

definition contains :: "string \<Rightarrow> string \<Rightarrow> bool" where
  "contains w t \<longleftrightarrow> search (\<lambda>_ u. take (length w) u = w) None t"

definition add_limit_if_missing :: "SQLValidator \<Rightarrow> string \<Rightarrow> string" where
  "add_limit_if_missing v sql =
     (if \<not> contains ''LIMIT'' (py_upper sql)
      then rstrip_semicolons sql @ '' LIMIT '' @ show_int (sv_max_result_rows v) else sql)"

definition validate_sql :: "SQLValidator \<Rightarrow> string \<Rightarrow> ValidationResult" where
  "validate_sql v sql =
     (if py_strip sql = [] then rejected ''Empty query''
      else
        (let sql_clean = py_strip sql
         in if take 6 (py_upper sql_clean) \<noteq> ''SELECT'' then rejected ''Only SELECT statements are allowed''
            else if list_ex (\<lambda>p. pattern_found p sql_clean) DANGEROUS_PATTERNS then rejected ''Query contains prohibited SQL patterns''
            else if CHR '';'' \<in> set (rstrip_semicolons sql_clean) then rejected ''Multiple statements not allowed''
            else case filter (\<lambda>table. py_lower table \<notin> set (sv_allowed_tables v)) (extract_table_names sql_clean) of
                   table # _ \<Rightarrow> rejected (''Table '' @ [CHR 0x27] @ table @ [CHR 0x27] @ '' is not accessible'')
                 | [] \<Rightarrow> \<lparr>vr_is_valid = True, vr_error = None, vr_sanitized_sql = Some (add_limit_if_missing v sql_clean)\<rparr>))"

section \<open>What a search finds\<close>

definition char_before :: "char option \<Rightarrow> string \<Rightarrow> char option" where
  "char_before prev pre = (if pre = [] then prev else Some (last pre))"

lemma char_before_Nil [simp]: "char_before prev [] = prev"
  by (simp add: char_before_def)

lemma char_before_Cons [simp]: "char_before prev (c # pre) = char_before (Some c) pre"
  by (simp add: char_before_def)

lemma char_before_append: "char_before prev (xs @ ys) = char_before (char_before prev xs) ys"
  by (simp add: char_before_def)

lemma search_iff: "search p prev t \<longleftrightarrow> (\<exists>pre post. t = pre @ post \<and> p (char_before prev pre) post)"
proof (induction t arbitrary: prev)
  case IH: (Cons c t)
  show ?case
  proof
    assume "search p prev (c # t)"
    then consider "p prev (c # t)" | pre post where "t = pre @ post" "p (char_before (Some c) pre) post" using IH.IH by auto
    then show "\<exists>pre post. c # t = pre @ post \<and> p (char_before prev pre) post"
    proof cases
      case 1
      then show ?thesis by (rule_tac x = "[]" in exI) simp
    next
      case (2 pre post)
      then show ?thesis by (intro exI [of _ "c # pre"] exI [of _ post]) simp
    qed
  next
    assume "\<exists>pre post. c # t = pre @ post \<and> p (char_before prev pre) post"
    then obtain pre post where t: "c # t = pre @ post" "p (char_before prev pre) post" by blast
    then show "search p prev (c # t)"
    proof (cases pre)
      case (Cons d pre')
      then have "t = pre' @ post" "p (char_before (Some c) pre') post" using t by auto
      then have "search p (Some c) t" unfolding IH.IH by blast
      then show ?thesis by simp
    next
      case Nil
      with t have "p prev (c # t)" by simp
      then show ?thesis by simp
    qed
  qed
qed simp

lemma not_found_at: "\<not> pattern_found p t \<Longrightarrow> t = pre @ post \<Longrightarrow> \<not> matches_at p (char_before None pre) post"
  by (auto simp: pattern_found_def search_iff)

lemma boundary_before: "boundary (char_before None pre) \<longleftrightarrow> pre = [] \<or> \<not> word_char (last pre)"
  by (simp add: boundary_def char_before_def)

lemma boundary_next: "boundary (next_char t) \<longleftrightarrow> t = [] \<or> \<not> word_char (hd t)"
  by (cases t) (simp_all add: boundary_def next_char_def)

lemma starts_ci_append: "py_lower mid = py_lower w \<Longrightarrow> starts_ci w (mid @ post) \<and> drop (length w) (mid @ post) = post"
proof -
  assume m: "py_lower mid = py_lower w"
  then have "length mid = length w" by (metis length_map py_lower_def)
  with m show ?thesis by (simp add: starts_ci_def)
qed

lemma starts_ci_refl: "starts_ci w (w @ post)"
  using starts_ci_append [of w w post] by simp

lemma whole_word_absent:
  assumes "\<not> pattern_found (Whole_word w) t" "t = pre @ mid @ post" "py_lower mid = py_lower w"
  shows "pre \<noteq> [] \<and> word_char (last pre) \<or> post \<noteq> [] \<and> word_char (hd post)"
  using not_found_at [OF assms(1,2)] starts_ci_append [OF assms(3), of post] by (auto simp: boundary_before boundary_next)

lemma literal_absent: "\<not> pattern_found (Literal w) t \<Longrightarrow> t \<noteq> pre @ w @ post"
  using not_found_at [of "Literal w" t pre "w @ post"] starts_ci_refl by auto

lemma rstrip_semicolons_eq: "\<exists>n. t = rstrip_semicolons t @ replicate n (CHR '';'')"
proof -
  let ?p = "\<lambda>c. c = CHR '';''"
  have "rev t = takeWhile ?p (rev t) @ dropWhile ?p (rev t)" by simp
  then have "t = rstrip_semicolons t @ rev (takeWhile ?p (rev t))"
    unfolding rstrip_semicolons_def by (metis rev_append rev_rev_ident)
  moreover have "takeWhile ?p (rev t) = replicate (length (takeWhile ?p (rev t))) (CHR '';'')"
    by (rule replicate_length_same [symmetric]) (auto dest: set_takeWhileD)
  ultimately show ?thesis by (metis rev_replicate)
qed

lemma contains_iff: "contains w t \<longleftrightarrow> (\<exists>pre post. t = pre @ w @ post)"
proof -
  have "take (length w) u = w \<longleftrightarrow> (\<exists>post. u = w @ post)" for u by (metis append_eq_conv_conj append_take_drop_id)
  then show ?thesis by (auto simp: contains_def search_iff)
qed

lemma py_upper_append: "py_upper (s @ t) = py_upper s @ py_upper t"
  by (simp add: py_upper_def)

lemma limit_present: "contains ''LIMIT'' (py_upper (add_limit_if_missing v t))"
proof (cases "contains ''LIMIT'' (py_upper t)")
  case False
  have "py_upper '' LIMIT '' = '' '' @ ''LIMIT'' @ '' ''" by code_simp
  then have "py_upper (add_limit_if_missing v t) =
      (py_upper (rstrip_semicolons t) @ '' '') @ ''LIMIT'' @ ('' '' @ py_upper (show_int (sv_max_result_rows v)))"
    unfolding add_limit_if_missing_def if_P [OF False] py_upper_append by simp
  then show ?thesis unfolding contains_iff by blast
qed (simp add: add_limit_if_missing_def)

text \<open>Every name the expression can see is found, unless an earlier match runs into it.\<close>

lemma name_after_parts:
  assumes "name_after keyword prev t = Some (n, rest)"
  shows "\<exists>pre. t = pre @ n @ rest \<and> n \<noteq> []" "n \<noteq> []"
proof -
  let ?r = "drop (length keyword) t" and ?n = "dropWhile is_space (drop (length keyword) t)"
  have c: "case ?n of [] \<Rightarrow> False | c # _ \<Rightarrow> name_start c" and n: "n = takeWhile word_char ?n" "rest = dropWhile word_char ?n"
    using assms unfolding name_after_def Let_def by (simp_all only: option.inject prod.inject split: if_splits) auto
  from c have "?n \<noteq> [] \<and> word_char (hd ?n)" by (cases ?n) (simp_all add: name_start_def)
  note n = n this
  show "n \<noteq> []" using n by (cases ?n) auto
  have "t = take (length keyword) t @ takeWhile is_space ?r @ ?n" by simp
  moreover have "?n = n @ rest" using n(1,2) by simp
  ultimately have "t = (take (length keyword) t @ takeWhile is_space ?r) @ n @ rest" by simp
  with \<open>n \<noteq> []\<close> show "\<exists>pre. t = pre @ n @ rest \<and> n \<noteq> []" by blast
qed

lemma names_after_complete:
  assumes "t = pre @ post" "name_after keyword (char_before prev pre) post = Some (n, rest)"
  shows "n \<in> set (names_after keyword prev t) \<or>
    (\<exists>p q n' rest'. pre = p @ q \<and> q \<noteq> [] \<and> name_after keyword (char_before prev p) (q @ post) = Some (n', rest') \<and> length rest' < length post)"
  using assms
proof (induction keyword prev t arbitrary: pre rule: names_after.induct)
  case (1 keyword prev t)
  show ?case
  proof (cases "name_after keyword prev t")
    case None
    with "1.prems" obtain c pre' where pre: "pre = c # pre'" by (cases pre) auto
    then have t: "t = c # pre' @ post" using "1.prems"(1) by simp
    have eq: "names_after keyword prev t = names_after keyword (Some c) (pre' @ post)"
      using None t by (subst names_after.simps) simp
    from "1.IH"(1) [OF None t refl] "1.prems"(2) pre
    consider "n \<in> set (names_after keyword (Some c) (pre' @ post))"
      | p q n' rest' where "pre' = p @ q" "q \<noteq> []" "name_after keyword (char_before (Some c) p) (q @ post) = Some (n', rest')" "length rest' < length post"
      by auto
    then show ?thesis
    proof cases
      case (2 p q n' rest')
      then show ?thesis using pre by (intro disjI2 exI [of _ "c # p"] exI [of _ q] exI [of _ n'] exI [of _ rest']) simp
    qed (simp add: eq)
  next
    case (Some m)
    obtain n0 rest0 where m: "m = (n0, rest0)" by (cases m)
    have eq: "names_after keyword prev t = n0 # names_after keyword (Some (last n0)) rest0"
      using Some m by (subst names_after.simps) simp
    show ?thesis
    proof (cases "pre = [] \<or> length rest0 < length post")
      case True
      then show ?thesis
      proof
        assume shorter: "length rest0 < length post"
        show ?thesis
        proof (cases "pre = []")
          case False
          with shorter show ?thesis using Some m "1.prems"(1)
            by (intro disjI2 exI [of _ "[]"] exI [of _ pre] exI [of _ n0] exI [of _ rest0]) simp
        qed (use Some m "1.prems" eq in auto)
      qed (use Some m "1.prems" eq in auto)
    next
      case False
      from name_after_parts [OF Some [unfolded m]] obtain p0 where p0: "t = p0 @ n0 @ rest0" "n0 \<noteq> []" by blast
      have "(p0 @ n0) @ rest0 = pre @ post" using p0 "1.prems"(1) by simp
      then obtain pre' where pre': "pre = (p0 @ n0) @ pre'" "rest0 = pre' @ post"
        using False by (auto simp: append_eq_append_conv2)
      have b: "char_before prev pre = char_before (Some (last n0)) pre'"
        using p0(2) by (simp add: pre'(1) char_before_append char_before_def)
      from "1.IH"(2) [OF Some m [symmetric] pre'(2)] "1.prems"(2) b
      consider "n \<in> set (names_after keyword (Some (last n0)) rest0)"
        | p q n' rest' where "pre' = p @ q" "q \<noteq> []" "name_after keyword (char_before (Some (last n0)) p) (q @ post) = Some (n', rest')"
            "length rest' < length post"
        by auto
      then show ?thesis
      proof cases
        case (2 p q n' rest')
        have "char_before prev ((p0 @ n0) @ p) = char_before (Some (last n0)) p" using p0(2) by (simp add: char_before_append char_before_def)
        then show ?thesis using 2 pre'(1) by (intro disjI2 exI [of _ "(p0 @ n0) @ p"] exI [of _ q] exI [of _ n'] exI [of _ rest']) simp
      qed (simp add: eq)
    qed
  qed
qed

text \<open>For evaluation: on a text in lower case the comparison is exact and stops at the first difference.\<close>

fun begins :: "string \<Rightarrow> string \<Rightarrow> bool" where
  "begins [] t = True"
| "begins (x # w) [] = False"
| "begins (x # w) (c # t) = (if c = x then begins w t else False)"

lemma starts_ci_begins: "starts_ci w t = begins (py_lower w) (py_lower t)"
proof (induction w arbitrary: t)
  case (Cons x w)
  show ?case using Cons [of "tl t"] by (cases t) (auto simp: starts_ci_def py_lower_def)
qed (simp add: starts_ci_def py_lower_def)

fun low_match :: "pattern \<Rightarrow> char option \<Rightarrow> string \<Rightarrow> bool" where
  "low_match (Whole_word w) prev t = (if begins w t then if boundary prev then boundary (next_char (drop (length w) t)) else False else False)"
| "low_match (Word_prefix w) prev t = (if begins w t then boundary prev else False)"
| "low_match (Literal w) prev t = begins w t"
| "low_match (After_semicolon w) prev t = (if begins '';'' t then matches_at (After_semicolon w) prev t else False)"
| "low_match (Word_then_name w) prev t = (if begins w t then matches_at (Word_then_name w) prev t else False)"

fun low_pattern :: "pattern \<Rightarrow> pattern" where
  "low_pattern (Whole_word w) = Whole_word (py_lower w)"
| "low_pattern (Word_prefix w) = Word_prefix (py_lower w)"
| "low_pattern (Literal w) = Literal (py_lower w)"
| "low_pattern (After_semicolon w) = After_semicolon (py_lower w)"
| "low_pattern (Word_then_name w) = Word_then_name (py_lower w)"

lemma py_lower_idem [simp]: "py_lower (py_lower t) = py_lower t"
proof -
  have "lower_ascii (lower_ascii c) = lower_ascii c" for c
  proof (cases "is_upper c")
    case True
    then have "\<not> is_upper (lower_ascii c)" by (auto simp: lower_ascii_def is_upper_def)
    then show ?thesis by (simp add: lower_ascii_def)
  qed (simp add: lower_ascii_def)
  then show ?thesis by (simp add: py_lower_def)
qed

lemma begins_semicolon: "begins '';'' t \<longleftrightarrow> next_char t = Some (CHR '';'')"
  by (cases t) (simp_all add: next_char_def)

lemma py_lower_drop: "py_lower (drop n t) = drop n (py_lower t)"
  by (simp add: py_lower_def drop_map)

lemma later_on_line_low: "later_on_line (py_lower w) t = later_on_line w t"
  by (induction t) (simp_all add: starts_ci_begins)

lemma matches_at_low:
  assumes "py_lower t = t"
  shows "matches_at p prev t = low_match (low_pattern p) prev t"
proof -
  have l: "length (py_lower w) = length w" for w by (simp add: py_lower_def)
  show ?thesis using assms by (cases p) (auto simp: starts_ci_begins begins_semicolon later_on_line_low l Let_def)
qed

lemma pattern_found_low: "py_lower t = t \<Longrightarrow> pattern_found p t = search (low_match (low_pattern p)) None t"
proof -
  have "py_lower t = t \<Longrightarrow> search (matches_at p) prev t = search (low_match (low_pattern p)) prev t" for prev
  proof (induction t arbitrary: prev)
    case (Cons c t)
    then have "py_lower t = t" by (simp add: py_lower_def)
    with Cons matches_at_low [of "c # t" p prev] show ?case by simp
  qed (simp add: matches_at_low)
  then show "py_lower t = t \<Longrightarrow> pattern_found p t = search (low_match (low_pattern p)) None t" by (simp add: pattern_found_def)
qed

definition LOW_PATTERNS :: "pattern list" where
  "LOW_PATTERNS =
     map Whole_word [''drop'', ''delete'', ''insert'', ''update'', ''alter'', ''create'', ''truncate'', ''grant'', ''revoke'', ''exec'',
       ''execute'', ''call''] @
     [Literal ''--'', Literal ''/*'', After_semicolon ''select'', Word_then_name ''into'', Whole_word ''load'', Whole_word ''copy'',
      Word_prefix ''pg_'', Whole_word ''information_schema'']"

lemma low_patterns: "map low_pattern DANGEROUS_PATTERNS = LOW_PATTERNS"
  by code_simp

lemma dangerous_low:
  "py_lower t = t \<Longrightarrow> list_ex (\<lambda>p. pattern_found p t) DANGEROUS_PATTERNS = list_ex (\<lambda>p. search (low_match p) None t) LOW_PATTERNS"
  unfolding low_patterns [symmetric] by (simp add: pattern_found_low list_ex_iff)



section \<open>What an accepted query looks like\<close>

definition FORBIDDEN_WORDS :: "string list" where
  "FORBIDDEN_WORDS = [''DROP'', ''DELETE'', ''INSERT'', ''UPDATE'', ''ALTER'', ''CREATE'', ''TRUNCATE'', ''GRANT'', ''REVOKE'', ''EXEC'',
     ''EXECUTE'', ''CALL'', ''LOAD'', ''COPY'', ''INFORMATION_SCHEMA'']"

definition has_word :: "string \<Rightarrow> string \<Rightarrow> bool" where
  "has_word w t \<longleftrightarrow> (\<exists>pre mid post. t = pre @ mid @ post \<and> py_lower mid = py_lower w \<and>
     (pre = [] \<or> \<not> word_char (last pre)) \<and> (post = [] \<or> \<not> word_char (hd post)))"

lemma has_word_found: "has_word w t \<Longrightarrow> pattern_found (Whole_word w) t"
  using whole_word_absent unfolding has_word_def by blast

lemma forbidden_is_dangerous: "w \<in> set FORBIDDEN_WORDS \<Longrightarrow> Whole_word w \<in> set DANGEROUS_PATTERNS"
  by (auto simp: FORBIDDEN_WORDS_def DANGEROUS_PATTERNS_def)

lemma accepted_facts:
  assumes "vr_is_valid (validate_sql v sql)"
  shows "take 6 (py_upper (py_strip sql)) = ''SELECT''" "p \<in> set DANGEROUS_PATTERNS \<Longrightarrow> \<not> pattern_found p (py_strip sql)"
    "CHR '';'' \<notin> set (rstrip_semicolons (py_strip sql))"
    "n \<in> set (extract_table_names (py_strip sql)) \<Longrightarrow> py_lower n \<in> set (sv_allowed_tables v)"
    "vr_sanitized_sql (validate_sql v sql) = Some (add_limit_if_missing v (py_strip sql))" "py_strip sql \<noteq> []"
  using assms by (auto simp: validate_sql_def rejected_def Let_def list_ex_iff filter_empty_conv split: if_splits list.splits)

text \<open>Words of a statement that changes data do not occur, and comments do not.\<close>

definition read_only_text :: "string \<Rightarrow> bool" where
  "read_only_text t \<longleftrightarrow> take 6 (py_upper t) = ''SELECT'' \<and> (\<forall>w\<in>set FORBIDDEN_WORDS. \<not> has_word w t) \<and>
     \<not> contains ''--'' t \<and> \<not> contains ''/*'' t \<and> (\<exists>u n. t = u @ replicate n (CHR '';'') \<and> CHR '';'' \<notin> set u)"

lemma accepted_read_only:
  assumes "vr_is_valid (validate_sql v sql)"
  shows "read_only_text (py_strip sql)"
proof -
  note facts = accepted_facts [OF assms]
  have w: "\<not> has_word w (py_strip sql)" if "w \<in> set FORBIDDEN_WORDS" for w
    using facts(2) [OF forbidden_is_dangerous [OF that]] has_word_found by blast
  have "Literal ''--'' \<in> set DANGEROUS_PATTERNS" "Literal ''/*'' \<in> set DANGEROUS_PATTERNS" by (simp_all add: DANGEROUS_PATTERNS_def)
  then have "\<not> contains ''--'' (py_strip sql)" "\<not> contains ''/*'' (py_strip sql)"
    unfolding contains_iff using facts(2) literal_absent by blast+
  with w facts(1,3) rstrip_semicolons_eq show ?thesis unfolding read_only_text_def by blast
qed

text \<open>
  A name stands after a keyword when the keyword is a word of its own, in any case, then comes white space and then
  the whole name. This is said with the parts of the text alone; the search of the code finds every such place unless
  an earlier match runs into it, and then the keyword itself has been taken for a name.
\<close>

definition name_stands_after :: "string \<Rightarrow> string \<Rightarrow> string \<Rightarrow> bool" where
  "name_stands_after k n t \<longleftrightarrow> (\<exists>pre kw ws post. t = pre @ kw @ ws @ n @ post \<and> (pre = [] \<or> \<not> word_char (last pre)) \<and>
     py_lower kw = py_lower k \<and> ws \<noteq> [] \<and> list_all is_space ws \<and> n \<noteq> [] \<and> name_start (hd n) \<and> list_all word_char n \<and>
     (post = [] \<or> \<not> word_char (hd post)))"

lemma space_no_word: "is_space c \<Longrightarrow> \<not> word_char c"
  by (auto simp: is_space_def word_char_def is_digit_def less_eq_char_def)

lemma keyword_length: "py_lower kw = py_lower k \<Longrightarrow> length kw = length k"
  by (metis length_map py_lower_def)

lemma name_after_here:
  assumes "pre = [] \<or> \<not> word_char (last pre)" "py_lower kw = py_lower k" "ws \<noteq> []" "list_all is_space ws" "n \<noteq> []"
    "name_start (hd n)" "list_all word_char n" "post = [] \<or> \<not> word_char (hd post)"
  shows "name_after k (char_before None pre) (kw @ ws @ n @ post) = Some (n, post)"
proof -
  have k: "length kw = length k" using assms(2) by (rule keyword_length)
  have c: "starts_ci k (kw @ ws @ n @ post)" "drop (length k) (kw @ ws @ n @ post) = ws @ n @ post"
    using starts_ci_append [OF assms(2), of "ws @ n @ post"] by simp_all
  obtain x m where n: "n = x # m" using assms(5) by (cases n) auto
  have x: "\<not> is_space x" "word_char x" using assms(6,7) space_no_word n by (auto simp: name_start_def)
  have d: "dropWhile is_space (ws @ n @ post) = n @ post"
    using assms(4) x(1) n by (simp add: dropWhile_append2 list_all_iff)
  have w: "takeWhile word_char (n @ post) = n" "dropWhile word_char (n @ post) = post"
    using assms(7,8) by (cases post; simp add: list_all_iff)+
  have "length (n @ post) < length (ws @ n @ post)" using assms(3) by simp
  moreover have "case n @ post of [] \<Rightarrow> False | c # _ \<Rightarrow> name_start c" using assms(6) n by simp
  ultimately show ?thesis using assms(1) unfolding name_after_def Let_def c(2) d w boundary_before by (simp only: c(1) simp_thms if_True)
qed

lemma name_after_form:
  assumes "name_after k prev t = Some (n, rest)"
  shows "\<exists>kw ws. t = kw @ ws @ n @ rest \<and> py_lower kw = py_lower k \<and> ws \<noteq> [] \<and> list_all is_space ws \<and> list_all word_char n \<and>
    (rest = [] \<or> \<not> word_char (hd rest)) \<and> boundary prev"
proof -
  let ?kw = "take (length k) t" and ?r = "drop (length k) t"
  let ?ws = "takeWhile is_space ?r" and ?m = "dropWhile is_space ?r"
  have a: "boundary prev \<and> starts_ci k t \<and> length ?m < length ?r" and n: "n = takeWhile word_char ?m" "rest = dropWhile word_char ?m"
    using assms by (auto simp: name_after_def Let_def split: if_splits)
  have e: "?r = ?ws @ ?m" by simp
  have "t = ?kw @ ?ws @ n @ rest" using n by simp
  moreover have "?ws \<noteq> []" using a e by (metis append_Nil less_irrefl)
  moreover have "list_all is_space ?ws" "list_all word_char n" using n(1) by (auto simp: list_all_iff dest: set_takeWhileD)
  moreover have "rest = [] \<or> \<not> word_char (hd rest)" using n(2) hd_dropWhile by blast
  moreover have "py_lower ?kw = py_lower k" using a by (simp add: starts_ci_def)
  ultimately show ?thesis using a by blast
qed

lemma underscore_code: "of_char (CHR ''_'') = (95::nat)"
  by simp

lemma word_char_lower: "word_char (lower_ascii c) = word_char c"
proof -
  define n where "n = (of_char c :: nat)"
  have w: "word_char d \<longleftrightarrow> 97 \<le> m \<and> m \<le> 122 \<or> 65 \<le> m \<and> m \<le> 90 \<or> 48 \<le> m \<and> m \<le> 57 \<or> m = 95"
    if "m = (of_char d :: nat)" for d m
  proof -
    have "d = CHR ''_'' \<longleftrightarrow> m = 95" unfolding that
      by (metis underscore_code char_of_char)
    then show ?thesis by (simp add: word_char_def is_digit_def less_eq_char_def that)
  qed
  show ?thesis
  proof (cases "is_upper c")
    case True
    then have u: "65 \<le> n" "n \<le> 90" by (simp_all add: is_upper_def n_def less_eq_char_def)
    have "n + 32 = of_char (lower_ascii c)" using True u by (simp add: lower_ascii_def n_def)
    from w [OF this] w [OF n_def] u show ?thesis by simp
  qed (simp add: lower_ascii_def)
qed

lemma keyword_word: "py_lower kw = py_lower k \<Longrightarrow> list_all word_char k \<Longrightarrow> list_all word_char kw"
  by (metis (no_types, lifting) list_all_iff list.set_map imageE imageI py_lower_def word_char_lower)

lemma word_prefix: "list_all word_char n \<Longrightarrow> rest = [] \<or> \<not> word_char (hd rest) \<Longrightarrow> takeWhile word_char (n @ rest) = n"
  by (cases rest) (simp_all add: list_all_iff)

lemma name_after_inside:
  assumes m: "name_after k (char_before None (p @ q)) post = Some (n, rest)" "q \<noteq> []"
    and e: "name_after k (char_before None p) (q @ post) = Some (n', rest')" "length rest' < length post"
    and k: "list_all word_char k" "k \<noteq> []"
  shows "py_lower n' = py_lower k"
proof -
  from name_after_form [OF m(1)] obtain kw ws where o: "post = kw @ ws @ n @ rest" "py_lower kw = py_lower k" "ws \<noteq> []"
    "list_all is_space ws" "boundary (char_before None (p @ q))" by blast
  from name_after_form [OF e(1)] obtain kw' ws' where o': "q @ post = (kw' @ ws') @ n' @ rest'" "py_lower kw' = py_lower k"
    "list_all is_space ws'" "list_all word_char n'" "rest' = [] \<or> \<not> word_char (hd rest')" by auto
  have w: "list_all word_char kw" "list_all word_char kw'" "kw \<noteq> []"
    using keyword_word o(2) o'(2) k keyword_length [OF o(2)] by auto
  have lq: "\<not> word_char (last q)" using o(5) m(2) by (simp add: boundary_before)
  have hp: "post \<noteq> [] \<and> word_char (hd post)" using o(1) w(1,3) by (cases kw) auto
  from o'(1) obtain us where "q @ us = kw' @ ws' \<and> post = us @ n' @ rest' \<or> q = (kw' @ ws') @ us \<and> us @ post = n' @ rest'"
    unfolding append_eq_append_conv2 [of q] by metis
  then consider "q @ us = kw' @ ws'" "post = us @ n' @ rest'" | "q = (kw' @ ws') @ us" "us @ post = n' @ rest'" by blast
  then have "post = n' @ rest'"
  proof cases
    case 1
    show ?thesis
    proof (cases us)
      case (Cons x xs)
      then have x: "word_char x" using hp 1(2) by simp
      from 1(1) consider vs where "kw' = q @ vs" | vs where "us = vs" "q = kw' @ drop (length kw') q" "set vs \<subseteq> set ws'"
        by (auto simp: append_eq_append_conv2)
      then show ?thesis
      proof cases
        case (1 vs)
        then show ?thesis using w(2) m(2) lq by (auto simp: list_all_iff)
      next
        case (2 vs)
        then show ?thesis using x o'(3) space_no_word Cons by (auto simp: list_all_iff)
      qed
    qed (use 1 in simp)
  next
    case 2
    show ?thesis
    proof (cases "us = []")
      case False
      have "length us < length n'" using 2(2) e(2) by (metis add_less_cancel_left length_append nat_add_left_cancel_less add.commute)
      then have "set us \<subseteq> set n'" using 2(2) by (auto simp: append_eq_append_conv2)
      moreover have "last us \<in> set us" "last us = last q" using False 2(1) by simp_all
      ultimately show ?thesis using lq o'(4) by (metis list_all_iff subsetD)
    qed (use 2 in simp)
  qed
  then have "n' = takeWhile word_char post" using word_prefix [OF o'(4,5)] by simp
  also have "\<dots> = kw" using word_prefix [OF w(1), of "ws @ n @ rest"] o(1,3,4) space_no_word by (cases ws) auto
  finally show ?thesis using o(2) by simp
qed

lemma every_name_allowed:
  assumes k: "list_all word_char k" "k \<noteq> []" and free: "py_lower k \<notin> A" and names: "\<forall>n\<in>set (names_after k None t). py_lower n \<in> A"
    and n: "t = pre @ post" "name_after k (char_before None pre) post = Some (n, rest)"
  shows "py_lower n \<in> A"
  using n
proof (induction "length pre" arbitrary: pre post n rest rule: less_induct)
  case less
  from names_after_complete [of t pre post k None n rest, OF less.prems] show ?case
  proof
    assume "\<exists>p q n' rest'. pre = p @ q \<and> q \<noteq> [] \<and> name_after k (char_before None p) (q @ post) = Some (n', rest') \<and> length rest' < length post"
    then obtain p q n' rest' where e: "pre = p @ q" "q \<noteq> []" "name_after k (char_before None p) (q @ post) = Some (n', rest')"
      "length rest' < length post" by blast
    have "py_lower n' \<in> A" using less.hyps [of p "q @ post" n' rest'] e less.prems by simp
    moreover have "py_lower n' = py_lower k"
      using less.prems(2) unfolding e(1) by (rule name_after_inside [OF _ e(2,3,4) k])
    ultimately show ?thesis using free by simp
  qed (use names in blast)
qed

lemma keywords_low: "py_lower ''FROM'' = ''from''" "py_lower ''JOIN'' = ''join''"
  by code_simp+

text \<open>
  C11. An accepted query only reads, and where a name stands after FROM or JOIN it is that of an allowed table. The text of an
  accepted query begins with SELECT, has no word of a statement that changes data and no comment, and semicolons only at
  its end; what is handed on is the text itself when the letters LIMIT occur anywhere in it, and otherwise the text with
  the configured limit added. The allowed tables must not be called \<open>from\<close> or \<open>join\<close>. Tables named after a comma, in
  quotation marks or after a bracket do not stand after a keyword in this sense, and the code does not look at them
  (\<open>comma_table_accepted\<close>).
\<close>

theorem accepted_query_reads_allowed:
  assumes "vr_is_valid (validate_sql v sql)" "''from'' \<notin> set (sv_allowed_tables v)" "''join'' \<notin> set (sv_allowed_tables v)"
  defines "t \<equiv> py_strip sql"
  shows "vr_sanitized_sql (validate_sql v sql) = Some
      (if contains ''LIMIT'' (py_upper t) then t else rstrip_semicolons t @ '' LIMIT '' @ show_int (sv_max_result_rows v))
    \<and> read_only_text t
    \<and> (\<forall>n. name_stands_after ''FROM'' n t \<or> name_stands_after ''JOIN'' n t \<longrightarrow> py_lower n \<in> set (sv_allowed_tables v))"
proof (intro conjI allI impI)
  note facts = accepted_facts [OF assms(1), folded t_def]
  show "vr_sanitized_sql (validate_sql v sql) = Some
      (if contains ''LIMIT'' (py_upper t) then t else rstrip_semicolons t @ '' LIMIT '' @ show_int (sv_max_result_rows v))"
    using facts(5) by (simp add: add_limit_if_missing_def)
  show "read_only_text t" unfolding t_def by (rule accepted_read_only [OF assms(1)])
  fix n assume "name_stands_after ''FROM'' n t \<or> name_stands_after ''JOIN'' n t"
  then obtain k where k: "k \<in> {''FROM'', ''JOIN''}" and "name_stands_after k n t" by blast
  then obtain pre kw ws post where t: "t = pre @ kw @ ws @ n @ post" "name_after k (char_before None pre) (kw @ ws @ n @ post) = Some (n, post)"
    unfolding name_stands_after_def using name_after_here by metis
  have free: "py_lower k \<notin> set (sv_allowed_tables v)" using k assms(2,3) by (auto simp: keywords_low)
  have kw: "list_all word_char k" "k \<noteq> []" using k by (auto simp: word_char_def)
  have "\<forall>n\<in>set (names_after k None t). py_lower n \<in> set (sv_allowed_tables v)"
    using facts(4) k by (auto simp: extract_table_names_def)
  from every_name_allowed [OF kw free this t] show "py_lower n \<in> set (sv_allowed_tables v)" .
qed

definition demo_validator :: SQLValidator where
  "demo_validator = new_validator [''violations'', ''devices'', ''events''] 100"

lemma validate_low:
  assumes "py_strip sql = t" "py_lower t = t" "take 6 (py_upper t) = ''SELECT''" "list_ex (\<lambda>p. search (low_match p) None t) LOW_PATTERNS = False"
    "CHR '';'' \<notin> set t"
  shows "validate_sql v sql =
    (case filter (\<lambda>table. py_lower table \<notin> set (sv_allowed_tables v)) (extract_table_names t) of
       table # _ \<Rightarrow> rejected (''Table '' @ [CHR 0x27] @ table @ [CHR 0x27] @ '' is not accessible'')
     | [] \<Rightarrow> \<lparr>vr_is_valid = True, vr_error = None, vr_sanitized_sql = Some (add_limit_if_missing v t)\<rparr>)"
proof -
  have "dropWhile (\<lambda>c. c = CHR '';'') (rev t) = rev t" using assms(5) by (intro dropWhile_eq_self_iff [THEN iffD2]) (auto simp: hd_rev dest: last_in_set)
  then have "rstrip_semicolons t = t" by (simp add: rstrip_semicolons_def)
  moreover have "t \<noteq> []" using assms(3) by (auto simp: py_upper_def)
  ultimately show ?thesis using assms by (simp add: validate_sql_def dangerous_low)
qed

lemma demo_plain:
  "validate_sql demo_validator ''select * from violations'' =
     \<lparr>vr_is_valid = True, vr_error = None, vr_sanitized_sql = Some ''select * from violations LIMIT 100''\<rparr>"
proof -
  have n: "extract_table_names ''select * from violations'' = [''violations'']" by code_simp
  have l: "py_lower ''violations'' \<in> set (sv_allowed_tables demo_validator)" by code_simp
  have a: "add_limit_if_missing demo_validator ''select * from violations'' = ''select * from violations LIMIT 100''" by code_simp
  show ?thesis by (subst validate_low, code_simp, code_simp, code_simp, code_simp, simp) (simp add: n l a)
qed

theorem accepted_query_reads_allowed_witness:
  "name_stands_after ''FROM'' ''violations'' ''select * from violations'' \<and> ''violations'' \<in> set (sv_allowed_tables demo_validator) \<and>
   vr_sanitized_sql (validate_sql demo_validator ''select * from violations'') = Some ''select * from violations LIMIT 100'' \<and>
   read_only_text ''select * from violations''"
proof -
  let ?q = "''select * from violations''"
  have s: "py_strip ?q = ?q" by code_simp
  have l: "(if contains ''LIMIT'' (py_upper ?q) then ?q else rstrip_semicolons ?q @ '' LIMIT '' @ show_int (sv_max_result_rows demo_validator))
    = ''select * from violations LIMIT 100''" by code_simp
  have p: "?q = ''select * '' @ ''from'' @ '' '' @ ''violations'' @ []" by simp
  have n: "py_lower ''from'' = py_lower ''FROM''" "\<not> word_char (last ''select * '')" "list_all is_space '' ''" "name_start (hd ''violations'')"
    "list_all word_char ''violations''" "py_lower ''violations'' = ''violations''" by code_simp+
  have st: "name_stands_after ''FROM'' ''violations'' ?q"
    unfolding name_stands_after_def by (rule exI, rule exI, rule exI, rule exI, rule conjI [OF p]) (use n in simp)
  have f: "''from'' \<notin> set (sv_allowed_tables demo_validator)" "''join'' \<notin> set (sv_allowed_tables demo_validator)" by code_simp+
  have "vr_is_valid (validate_sql demo_validator ?q)" by (simp add: demo_plain)
  from accepted_query_reads_allowed [OF this f, unfolded s l] st n(6) show ?thesis by metis
qed

text \<open>
  A second table after a comma is not looked at; a column whose name contains the letters of LIMIT keeps the limit of
  the service away; and the FROM of an expression is taken for one that names a table.
\<close>

lemma comma_table_accepted:
  "vr_sanitized_sql (validate_sql demo_validator ''select * from violations, users'') = Some ''select * from violations, users LIMIT 100''"
proof -
  have n: "extract_table_names ''select * from violations, users'' = [''violations'']" by code_simp
  have l: "py_lower ''violations'' \<in> set (sv_allowed_tables demo_validator)" by code_simp
  have a: "add_limit_if_missing demo_validator ''select * from violations, users'' = ''select * from violations, users LIMIT 100''" by code_simp
  show ?thesis by (subst validate_low, code_simp, code_simp, code_simp, code_simp, simp) (simp add: n l a)
qed

lemma limit_by_name: "vr_sanitized_sql (validate_sql demo_validator ''select rate_limit from events'') = Some ''select rate_limit from events''"
proof -
  have n: "extract_table_names ''select rate_limit from events'' = [''events'']" by code_simp
  have l: "py_lower ''events'' \<in> set (sv_allowed_tables demo_validator)" by code_simp
  have a: "add_limit_if_missing demo_validator ''select rate_limit from events'' = ''select rate_limit from events''" by code_simp
  show ?thesis by (subst validate_low, code_simp, code_simp, code_simp, code_simp, simp) (simp add: n l a)
qed

lemma extract_rejected: "\<not> vr_is_valid (validate_sql demo_validator ''select extract(hour from ts) from events'')"
proof -
  have n: "extract_table_names ''select extract(hour from ts) from events'' = [''ts'', ''events'']" by code_simp
  have l: "py_lower ''ts'' \<notin> set (sv_allowed_tables demo_validator)" by code_simp
  show ?thesis by (subst validate_low, code_simp, code_simp, code_simp, code_simp, simp) (simp add: n l rejected_def)
qed


end
