(* ===== verification/ChatService.thy ===== *)
theory ChatService
  imports SqlValidator
begin

text \<open>
  \<open>ruth-ai-nlp-chat/app/services/chat_service.py\<close>: a question becomes a query, by a template or by a language model, the
  query is validated and executed, and the rows become an answer. The answers of the two model calls and of the database
  are parameters; the hint about dates that the code derives from a question is not modelled, because the prompt does
  not contain it and nothing else reads it.
\<close>

section \<open>Templates\<close>

text \<open>
  A pattern is a text followed by one of several words, at once (\<open>Phrase\<close>) or later on the same line (\<open>Gap\<close>). They
  are tried in order.
\<close>

datatype template = Phrase string "string list" | Gap string "string list"

fun word_on_line :: "string list \<Rightarrow> string \<Rightarrow> bool" where
  "word_on_line ws [] = list_ex (\<lambda>w. begins w []) ws"
| "word_on_line ws (c # t) = (list_ex (\<lambda>w. begins w (c # t)) ws \<or> (if c = CHR 0x0A then False else word_on_line ws t))"

fun template_at :: "template \<Rightarrow> string \<Rightarrow> bool" where
  "template_at (Phrase p ws) t = (if begins p t then list_ex (\<lambda>w. begins w (drop (length p) t)) ws else False)"
| "template_at (Gap p ws) t = (if begins p t then word_on_line ws (drop (length p) t) else False)"

definition template_found :: "template \<Rightarrow> string \<Rightarrow> bool" where
  "template_found p t \<longleftrightarrow> search (\<lambda>_ u. template_at p u) None t"

definition OPEN_QUERY :: string where
  "OPEN_QUERY = ''SELECT * FROM violations WHERE status = '' @ [CHR 0x27] @ ''open'' @ [CHR 0x27]"

definition TEMPLATES :: "(template \<times> string) list" where
  "TEMPLATES =
     [(Phrase ''how many violations'' [''''], ''SELECT COUNT(*) FROM violations''),
      (Phrase ''count violations'' [''''], ''SELECT COUNT(*) FROM violations''),
      (Gap ''show'' [''open violations''], OPEN_QUERY),
      (Gap ''list'' [''open violations''], OPEN_QUERY),
      (Phrase ''open violations'' [''''], OPEN_QUERY),
      (Gap ''show'' [''violations''], ''SELECT * FROM violations''),
      (Gap ''list'' [''violations''], ''SELECT * FROM violations''),
      (Phrase ''how many '' [''devices'', ''cameras''], ''SELECT COUNT(*) FROM devices''),
      (Phrase ''count '' [''devices'', ''cameras''], ''SELECT COUNT(*) FROM devices''),
      (Gap ''show'' [''devices'', ''cameras''], ''SELECT * FROM devices''),
      (Gap ''list'' [''devices'', ''cameras''], ''SELECT * FROM devices''),
      (Phrase ''how many events'' [''''], ''SELECT COUNT(*) FROM events''),
      (Phrase ''count events'' [''''], ''SELECT COUNT(*) FROM events''),
      (Gap ''show'' [''events''], ''SELECT * FROM events''),
      (Gap ''list'' [''events''], ''SELECT * FROM events'')]"

definition try_template_match :: "string \<Rightarrow> string option" where
  "try_template_match question =
     (let q_lower = py_strip (py_lower question)
      in map_option snd (List.find (\<lambda>(p, sql). template_found p q_lower) TEMPLATES))"

section \<open>The query of a language model\<close>

text \<open>\<open>text.split(sep)\<close> for a non-empty separator.\<close>

function split_on :: "string \<Rightarrow> string \<Rightarrow> string \<Rightarrow> string list" where
  "split_on sep acc t =
     (if sep \<noteq> [] \<and> begins sep t then rev acc # split_on sep [] (drop (length sep) t)
      else case t of [] \<Rightarrow> [rev acc] | c # u \<Rightarrow> split_on sep (c # acc) u)"
  by pat_completeness auto
termination
proof (relation "measure (\<lambda>(sep, acc, t). length t)", goal_cases)
  case (2 sep acc t)
  then show ?case by (cases t; cases sep) auto
qed auto

declare split_on.simps [simp del]

definition FENCE :: string where "FENCE = ''```''"

text \<open>The part of a fenced answer that is taken, and how it is taken.\<close>

fun pick_part :: "string list \<Rightarrow> string option" where
  "pick_part [] = None"
| "pick_part (part # parts) =
     (let part_stripped = py_strip part
      in if take 6 (py_upper part_stripped) = ''SELECT'' then Some part_stripped
         else if take 3 (py_lower part_stripped) = ''sql'' then Some (py_strip (drop 3 part_stripped))
         else pick_part parts)"

definition clean_response :: "string \<Rightarrow> string" where
  "clean_response response =
     (let sql = py_strip response;
          sql1 = (if contains FENCE sql then (case pick_part (split_on FENCE [] sql) of None \<Rightarrow> sql | Some s \<Rightarrow> s) else sql)
      in rstrip_semicolons sql1)"

section \<open>Answers\<close>

type_synonym row = "(string, jval) dict"

definition is_simple_query :: "string \<Rightarrow> row list \<Rightarrow> bool" where
  "is_simple_query sql results \<longleftrightarrow>
     (let sql_upper = py_upper sql
      in contains ''COUNT(*)'' sql_upper \<or> contains ''COUNT(1)'' sql_upper \<or>
         take 8 sql_upper = ''SELECT *'' \<and> length results \<le> 10 \<or>
         length results = 1 \<and> length (hd results) = 1)"

definition fallback_answer :: "(jval \<Rightarrow> string) \<Rightarrow> row list \<Rightarrow> string" where
  "fallback_answer show_value results =
     (case results of
        [] \<Rightarrow> ''No results found.''
      | [r] \<Rightarrow> ''Found 1 record: '' @ py_join '', '' (map (\<lambda>(k, v). k @ '': '' @ show_value v) r)
      | _ \<Rightarrow> ''Found '' @ show_nat (length results) @ '' records.'')"

definition OPEN_CONDITION :: string where "OPEN_CONDITION = ''status = '' @ [CHR 0x27] @ ''open'' @ [CHR 0x27]"

text \<open>Every row of a result has at least one column.\<close>

definition direct_answer :: "(jval \<Rightarrow> string) \<Rightarrow> string \<Rightarrow> row list \<Rightarrow> string" where
  "direct_answer show_value sql results =
     (if results = [] then ''No results found.''
      else
        (let sql_upper = py_upper sql; sql_lower = py_lower sql
         in if contains ''COUNT(*)'' sql_upper \<or> contains ''COUNT(1)'' sql_upper
            then (let count_value = show_value (snd (hd (hd results)))
                  in if contains ''violations'' sql_lower
                     then (if contains OPEN_CONDITION sql_lower then ''There are '' @ count_value @ '' open violations.''
                           else ''There are '' @ count_value @ '' violations.'')
                     else if contains ''devices'' sql_lower then ''There are '' @ count_value @ '' devices.''
                     else if contains ''events'' sql_lower then ''There are '' @ count_value @ '' events.''
                     else ''Count: '' @ count_value)
            else if take 8 sql_upper = ''SELECT *''
            then (let n = show_nat (length results)
                  in if contains ''violations'' sql_lower
                     then (if contains OPEN_CONDITION sql_lower then ''There are '' @ n @ '' open violations.''
                           else ''Found '' @ n @ '' violations.'')
                     else if contains ''devices'' sql_lower then ''Found '' @ n @ '' devices.''
                     else ''Found '' @ n @ '' records.'')
            else fallback_answer show_value results))"

text \<open>\<open>nlg\<close> is the answer of the second model call.\<close>

definition generate_answer :: "string + string \<Rightarrow> row list \<Rightarrow> string + string" where
  "generate_answer nlg results =
     (if results = [] then Inr ''I couldn't find any records matching your query.''
      else case nlg of Inl e \<Rightarrow> Inl e | Inr t \<Rightarrow> Inr (py_strip t))"

section \<open>A question\<close>

datatype chat_error = ChatLLMError string | ChatSQLValidationError string string | ChatSQLExecutionError string string

record ChatAnswer =
  ca_answer :: string
  ca_question :: string
  ca_generated_sql :: string
  ca_raw_data :: "row list option"
  ca_row_count :: nat

record ChatEnv =
  ce_sql_model :: "string \<Rightarrow> string + string"
  ce_nlg_model :: "string \<Rightarrow> row list \<Rightarrow> string + string"
  ce_execute :: "string \<Rightarrow> string + row list"
  ce_show :: "jval \<Rightarrow> string"

definition choose_sql :: "ChatEnv \<Rightarrow> string \<Rightarrow> chat_error + string" where
  "choose_sql env question =
     (case try_template_match question of
        Some sql \<Rightarrow> Inr sql
      | None \<Rightarrow> (case ce_sql_model env question of
                   Inl e \<Rightarrow> Inl (ChatLLMError (''Failed to generate SQL: '' @ e))
                 | Inr response \<Rightarrow> Inr (clean_response response)))"

text \<open>\<open>ask\<close>, with the statements it sends to the database.\<close>

definition ask :: "ChatEnv \<Rightarrow> SQLValidator \<Rightarrow> string \<Rightarrow> bool \<Rightarrow> (chat_error + ChatAnswer) \<times> string list" where
  "ask env v question include_raw_data =
     (case choose_sql env question of
        Inl e \<Rightarrow> (Inl e, [])
      | Inr sql \<Rightarrow>
          (let validation = validate_sql v sql
           in if \<not> vr_is_valid validation
              then (Inl (ChatSQLValidationError (''Invalid SQL: '' @ (case vr_error validation of None \<Rightarrow> ''None'' | Some m \<Rightarrow> m)) sql), [])
              else
                (let safe_sql = (if truthy_str (vr_sanitized_sql validation) then the (vr_sanitized_sql validation) else sql)
                 in case ce_execute env safe_sql of
                      Inl e \<Rightarrow> (Inl (ChatSQLExecutionError (''Query execution failed: '' @ e) safe_sql), [safe_sql])
                    | Inr results \<Rightarrow>
                        (let answer = (if is_simple_query safe_sql results then direct_answer (ce_show env) safe_sql results
                               else (case generate_answer (ce_nlg_model env question results) results of
                                       Inl e \<Rightarrow> fallback_answer (ce_show env) results
                                     | Inr a \<Rightarrow> a))
                         in (Inr \<lparr>ca_answer = answer, ca_question = question, ca_generated_sql = safe_sql,
                                  ca_raw_data = (if include_raw_data then Some results else None),
                                  ca_row_count = length results\<rparr>, [safe_sql])))))"

section \<open>What is executed\<close>

lemma ask_cases:
  obtains (no_query) e where "choose_sql env question = Inl e" "ask env v question raw = (Inl e, [])"
  | (refused) sql m where "choose_sql env question = Inr sql" "\<not> vr_is_valid (validate_sql v sql)"
      "ask env v question raw = (Inl (ChatSQLValidationError m sql), [])"
  | (executed) sql q r where "choose_sql env question = Inr sql" "vr_is_valid (validate_sql v sql)"
      "vr_sanitized_sql (validate_sql v sql) = Some q" "ask env v question raw = (r, [q])"
proof (cases "choose_sql env question")
  case (Inl e)
  then show ?thesis by (intro no_query) (simp_all add: ask_def)
next
  case (Inr sql)
  show ?thesis
  proof (cases "vr_is_valid (validate_sql v sql)")
    case False
    then show ?thesis by (intro refused [OF Inr False]) (simp add: ask_def Inr Let_def)
  next
    case True
    note facts = accepted_facts(5) [OF True]
    have "add_limit_if_missing v (py_strip sql) \<noteq> []"
      using limit_present [of v "py_strip sql"] by (auto simp: contains_iff py_upper_def)
    then have "\<exists>r. ask env v question raw = (r, [add_limit_if_missing v (py_strip sql)])"
      using True facts by (auto simp: ask_def Inr truthy_str_def Let_def split: sum.split)
    then show ?thesis using executed [OF Inr True facts] by blast
  qed
qed

text \<open>
  C32. Only accepted queries reach the database. Answering a question executes at most one statement; when it executes one,
  this is what the validator made of an accepted query, which only reads; a query that the validator refuses, and a
  failing language model, are reported and nothing is executed.
\<close>

theorem ask_executes_accepted:
  "(\<forall>q\<in>set (snd (ask env v question raw)). \<exists>sql. choose_sql env question = Inr sql \<and> vr_is_valid (validate_sql v sql) \<and>
      (q = py_strip sql \<or> q = rstrip_semicolons (py_strip sql) @ '' LIMIT '' @ show_int (sv_max_result_rows v)) \<and>
      read_only_text (py_strip sql)) \<and>
   length (snd (ask env v question raw)) \<le> 1 \<and>
   (snd (ask env v question raw) = [] \<longleftrightarrow> (case choose_sql env question of Inl e \<Rightarrow> True | Inr sql \<Rightarrow> \<not> vr_is_valid (validate_sql v sql))) \<and>
   (snd (ask env v question raw) = [] \<longrightarrow> isl (fst (ask env v question raw)))"
proof (cases rule: ask_cases [of env question v raw])
  case (executed sql q r)
  have "q = add_limit_if_missing v (py_strip sql)" using accepted_facts(5) [OF executed(2)] executed(3) by simp
  then show ?thesis using executed accepted_read_only [OF executed(2)] by (auto simp: add_limit_if_missing_def)
qed simp_all

theorem ask_executes_accepted_witness:
  "snd (ask \<lparr>ce_sql_model = (\<lambda>_. Inr ''select * from violations''), ce_nlg_model = (\<lambda>_ _. Inl []), ce_execute = (\<lambda>_. Inr []), ce_show = (\<lambda>_. [])\<rparr>
     demo_validator ''who fell'' False) \<noteq> []"
proof -
  let ?env = "\<lparr>ce_sql_model = (\<lambda>_. Inr ''select * from violations''), ce_nlg_model = (\<lambda>_ _. Inl []), ce_execute = (\<lambda>_. Inr []), ce_show = (\<lambda>_. [])\<rparr>"
  have "try_template_match ''who fell'' = None" by code_simp
  moreover have "clean_response ''select * from violations'' = ''select * from violations''" by code_simp
  ultimately have c: "choose_sql ?env ''who fell'' = Inr ''select * from violations''" by (simp add: choose_sql_def)
  have "vr_is_valid (validate_sql demo_validator ''select * from violations'')" by (simp add: demo_plain)
  with c ask_executes_accepted [where env = ?env and question = "''who fell''" and v = demo_validator and raw = False] show ?thesis by simp
qed

text \<open>The templates look at a part of the question only, and the answer at the first column only.\<close>

lemma template_ignores_date: "try_template_match ''How many violations today?'' = Some ''SELECT COUNT(*) FROM violations''"
  by code_simp

lemma grouped_count_misread:
  "direct_answer (\<lambda>v. case v of JStr t \<Rightarrow> t | JInt n \<Rightarrow> show_int n | _ \<Rightarrow> []) ''select name, count(*) from violations group by name''
     [[(''name'', JStr ''gate''), (''count'', JInt 7)], [(''name'', JStr ''dock''), (''count'', JInt 2)]] = ''There are gate violations.''"
  by code_simp


end
