(* ===== verification/EventConsumer.thy ===== *)
theory EventConsumer
  imports InferenceLoop "HOL-Library.Sublist"
begin

text \<open>
  \<open>ruth-ai-backend/app/services/vas_event_consumer.py\<close>: the task that reads the life-cycle events of VAS
  from a Redis stream, hands them to the inference loop, and stores the identifier of the last one. The two
  Redis servers are parameters: what \<open>XREAD\<close> answers, whether the connection, the load and each sv
  succeed. Logs are left out.
\<close>

section \<open>State\<close>

text \<open>The fields of an entry the code reads; \<open>None\<close> is a missing field.\<close>

record Entry =
  en_id :: string
  en_event :: "string option"
  en_stream_id :: "string option"

text \<open>
  The consumer: its flag, the identifier stored under \<open>vas:last_event_id\<close>, the inference loop when there
  is one, the entries handed over and the pauses made so far.
\<close>

record Consumer =
  co_running :: bool
  co_saved :: "string option"
  co_loop :: "LoopState option"
  co_handled :: "Entry list"
  co_waits :: "real list"

definition ACTIVATE_EVENTS :: "string set" where
  "ACTIVATE_EVENTS = {''stream.started'', ''stream.restarted''}"

definition PAUSE_EVENTS :: "string set" where
  "PAUSE_EVENTS = {''stream.stopped'', ''stream.crashed'', ''stream.failed''}"

section \<open>Events\<close>

definition field :: "string option \<Rightarrow> string" where
  "field x = (case x of None \<Rightarrow> [] | Some v \<Rightarrow> v)"

definition apply_event :: "Entry \<Rightarrow> LoopState \<Rightarrow> LoopState" where
  "apply_event e loop =
     (if field (en_event e) \<in> ACTIVATE_EVENTS then activate (field (en_stream_id e)) loop
      else if field (en_event e) \<in> PAUSE_EVENTS then pause (field (en_stream_id e)) loop else loop)"

definition handle_event :: "Entry \<Rightarrow> Consumer \<Rightarrow> Consumer" where
  "handle_event e c =
     c\<lparr>co_loop := map_option (apply_event e) (co_loop c), co_handled := co_handled c @ [e]\<rparr>"

text \<open>
  What the Redis of Ruth AI does with a command: there is no client, it works, it raises \<open>RedisError\<close>, which
  is logged, or it raises something else, which leaves the method.
\<close>

datatype command = NoClient | Works | RedisFails | OtherError

definition load_last_id :: "command \<Rightarrow> Consumer \<Rightarrow> string option" where
  "load_last_id cmd c =
     (case cmd of NoClient \<Rightarrow> Some ''$'' | RedisFails \<Rightarrow> Some ''$'' | OtherError \<Rightarrow> None
      | Works \<Rightarrow> Some (if truthy_str (co_saved c) then the (co_saved c) else ''$''))"

definition save_last_id :: "command \<Rightarrow> string \<Rightarrow> Consumer \<Rightarrow> Consumer option" where
  "save_last_id cmd entry_id c =
     (case cmd of NoClient \<Rightarrow> Some c | RedisFails \<Rightarrow> Some c | OtherError \<Rightarrow> None
      | Works \<Rightarrow> Some (c\<lparr>co_saved := Some entry_id\<rparr>))"

text \<open>The loop over the entries of an answer; a raise is \<open>None\<close>.\<close>

fun entries_loop :: "(Entry \<Rightarrow> command) \<Rightarrow> Entry list \<Rightarrow> string \<Rightarrow> Consumer \<Rightarrow> string option \<times> Consumer" where
  "entries_loop sv [] last_id c = (Some last_id, c)"
| "entries_loop sv (e # es) last_id c =
     (let c1 = handle_event e c
      in case save_last_id (sv e) (en_id e) c1 of
           None \<Rightarrow> (None, c1) | Some c2 \<Rightarrow> entries_loop sv es (en_id e) c2)"

section \<open>Connections\<close>

text \<open>
  What happens at a turn of the reading loop: somebody calls \<open>stop\<close>, the task is cancelled, or \<open>XREAD\<close>
  answers, at a time that selects what the parameter \<open>xread\<close> gives, with nothing, with entries, or with a raise.
\<close>

datatype turn = StopCalled | TaskCancelled | Read nat "Entry \<Rightarrow> command"

datatype answer = ReadRaises | Entries "Entry list"

type_synonym xread = "nat \<Rightarrow> string \<Rightarrow> answer"

datatype ending = Stopped | Cancelled | Failed

text \<open>\<open>None\<close>: the loop still waits when the given turns are over.\<close>

fun read_loop :: "xread \<Rightarrow> turn list \<Rightarrow> string \<Rightarrow> Consumer \<Rightarrow> ending option \<times> Consumer" where
  "read_loop xread ts last_id c =
     (if \<not> co_running c then (Some Stopped, c)
      else case ts of
        [] \<Rightarrow> (None, c)
      | StopCalled # ts \<Rightarrow> read_loop xread ts last_id (c\<lparr>co_running := False\<rparr>)
      | TaskCancelled # ts \<Rightarrow> (Some Cancelled, c)
      | Read t sv # ts \<Rightarrow>
          (case xread t last_id of
             ReadRaises \<Rightarrow> (Some Failed, c)
           | Entries es \<Rightarrow>
               (case entries_loop sv es last_id c of
                  (None, c1) \<Rightarrow> (Some Failed, c1)
                | (Some last_id', c1) \<Rightarrow> read_loop xread ts last_id' c1)))"

text \<open>One connection: the outcome of \<open>ping\<close>, of the load, the turns, and the sleep after a failure.\<close>

record Connection =
  cn_ping :: bool
  cn_load :: command
  cn_turns :: "turn list"
  cn_sleep_cancelled :: bool
  cn_stopped_meanwhile :: bool

definition run_once :: "xread \<Rightarrow> Connection \<Rightarrow> Consumer \<Rightarrow> ending option \<times> Consumer" where
  "run_once xread k c =
     (if \<not> cn_ping k then (Some Failed, c)
      else case load_last_id (cn_load k) c of
        None \<Rightarrow> (Some Failed, c)
      | Some last_id \<Rightarrow> read_loop xread (cn_turns k) last_id c)"

fun consume :: "xread \<Rightarrow> Connection list \<Rightarrow> real \<Rightarrow> Consumer \<Rightarrow> Consumer" where
  "consume xread [] wait c = c"
| "consume xread (k # ks) wait c =
     (if \<not> co_running c then c
      else case run_once xread k c of
        (Some Failed, c1) \<Rightarrow>
          (let c2 = c1\<lparr>co_waits := co_waits c1 @ [wait]\<rparr>
           in if cn_sleep_cancelled k then c2
              else consume xread ks (min (wait * 2) 30)
                     (if cn_stopped_meanwhile k then c2\<lparr>co_running := False\<rparr> else c2))
      | (_, c1) \<Rightarrow> c1)"

text \<open>\<open>start\<close> with the stripped address of the Redis of VAS.\<close>

definition start :: "xread \<Rightarrow> string \<Rightarrow> Connection list \<Rightarrow> Consumer \<Rightarrow> Consumer" where
  "start xread vas_url ks c =
     (if co_running c then c
      else if vas_url = [] then c\<lparr>co_running := False\<rparr>
      else consume xread ks 1 (c\<lparr>co_running := True\<rparr>))"

section \<open>Lemmas\<close>

declare read_loop.simps [simp del]

lemma read_loop_induct [case_names step]:
  assumes "\<And>ts last_id c.
     (\<And>ts' last_id' c'. length ts' < length ts \<Longrightarrow> P ts' last_id' c') \<Longrightarrow> P ts last_id c"
  shows "P ts last_id c"
  by (induction ts arbitrary: last_id c rule: length_induct) (blast intro: assms)

text \<open>A property of consumers that handing over, saving and stopping keep is kept by the whole run.\<close>

locale consumer_invariant =
  fixes I :: "Consumer \<Rightarrow> bool"
  assumes handled: "I c \<Longrightarrow> I (handle_event e c)"
    and saved: "I c \<Longrightarrow> I (c\<lparr>co_saved := v\<rparr>)"
    and flag: "I c \<Longrightarrow> I (c\<lparr>co_running := b\<rparr>)"
    and waited: "I c \<Longrightarrow> I (c\<lparr>co_waits := ws\<rparr>)"
begin

lemma entries: "I c \<Longrightarrow> I (snd (entries_loop sv es last_id c))"
proof (induction es arbitrary: last_id c)
  case (Cons e es)
  then show ?case
    by (auto simp: Let_def save_last_id_def handled saved split: command.splits)
qed simp

lemma reads: "I c \<Longrightarrow> I (snd (read_loop xread ts last_id c))"
proof (induction ts last_id c rule: read_loop_induct)
  case (step ts last_id c)
  show ?case
  proof (cases ts)
    case Nil
    then show ?thesis using step.prems by (simp add: read_loop.simps)
  next
    case (Cons t ts')
    have IH: "I c' \<Longrightarrow> I (snd (read_loop xread ts' l c'))" for l c' using step.IH Cons by simp
    have en: "entries_loop sv es last_id c = (r, c1) \<Longrightarrow> I c1" for sv es r c1
      using entries [OF step.prems, of sv es last_id] by simp
    show ?thesis using step.prems
      by (subst read_loop.simps) (auto simp: Cons intro: IH flag en split: turn.splits answer.splits option.splits prod.splits)
  qed
qed

lemma once: "I c \<Longrightarrow> I (snd (run_once xread k c))"
  by (auto simp: run_once_def reads split: option.splits)

lemma consumes: "I c \<Longrightarrow> I (consume xread ks b c)"
proof (induction ks arbitrary: b c)
  case (Cons k ks)
  obtain r c1 where r: "run_once xread k c = (r, c1)" by fastforce
  then have "I c1" using once [OF Cons.prems, of xread k] by simp
  then show ?case using Cons
    by (auto simp: r Let_def intro: flag waited split: option.splits ending.splits)
qed simp

lemma starts: "I c \<Longrightarrow> I (start xread url ks c)"
  by (simp add: start_def consumes flag)

end

text \<open>The loop is what the entries handed over make of it.\<close>

definition follows :: "LoopState \<Rightarrow> Entry list \<Rightarrow> Consumer \<Rightarrow> bool" where
  "follows loop0 h0 c \<longleftrightarrow>
     (\<exists>es. co_handled c = h0 @ es \<and> co_loop c = Some (fold apply_event es loop0))"

interpretation following: consumer_invariant "follows loop0 h0" for loop0 h0
proof unfold_locales
  fix c e
  assume "follows loop0 h0 c"
  then obtain es where "co_handled c = h0 @ es" "co_loop c = Some (fold apply_event es loop0)"
    by (auto simp: follows_def)
  then show "follows loop0 h0 (handle_event e c)"
    by (auto simp: follows_def handle_event_def intro!: exI [of _ "es @ [e]"])
qed (auto simp: follows_def)

definition concerns :: "string \<Rightarrow> Entry \<Rightarrow> bool" where
  "concerns s e \<longleftrightarrow> field (en_stream_id e) = s \<and> field (en_event e) \<in> ACTIVATE_EVENTS \<union> PAUSE_EVENTS"

lemma paused_apply:
  "vas_stream_is_paused s (apply_event e loop) \<longleftrightarrow>
     (if concerns s e then field (en_event e) \<in> PAUSE_EVENTS else vas_stream_is_paused s loop)"
  by (auto simp: apply_event_def concerns_def vas_stream_is_paused_def activate_def pause_def
      ACTIVATE_EVENTS_def PAUSE_EVENTS_def)

lemma paused_fold:
  "vas_stream_is_paused s (fold apply_event es loop) \<longleftrightarrow>
     (if filter (concerns s) es = [] then vas_stream_is_paused s loop
      else field (en_event (last (filter (concerns s) es))) \<in> PAUSE_EVENTS)"
  by (induction es rule: rev_induct) (auto simp: paused_apply)

section \<open>Lemmas: one position in the stream\<close>

text \<open>The entries of a stream after the one with an identifier.\<close>

fun entries_after :: "Entry list \<Rightarrow> string \<Rightarrow> Entry list" where
  "entries_after [] i = []"
| "entries_after (e # es) i = (if en_id e = i then es else entries_after es i)"

lemma entries_after_at:
  "distinct (map en_id (pre @ e # rest)) \<Longrightarrow> entries_after (pre @ e # rest) (en_id e) = rest"
  by (induction pre) auto

lemma entries_after_last:
  assumes "distinct (map en_id (pre @ e0 # es @ r))"
  shows "entries_after (pre @ e0 # es @ r) (en_id (last (e0 # es))) = r"
proof (cases es rule: rev_cases)
  case Nil
  then show ?thesis using entries_after_at [of pre e0 r] assms by simp
next
  case (snoc es' e)
  then show ?thesis using entries_after_at [of "pre @ e0 # es'" e r] assms by simp
qed

text \<open>
  The documented answer of \<open>XREAD\<close> for an identifier of the stream \<open>stream\<close>: entries that follow it, in order
  and without a gap, none when the time is over.
\<close>

definition reads_in_order :: "Entry list \<Rightarrow> xread \<Rightarrow> bool" where
  "reads_in_order stream xread \<longleftrightarrow>
     (\<forall>e\<in>set stream. \<forall>t es. xread t (en_id e) = Entries es \<longrightarrow> prefix es (entries_after stream (en_id e)))"

definition all_saved :: "turn list \<Rightarrow> bool" where
  "all_saved ts \<longleftrightarrow> (\<forall>t sv. Read t sv \<in> set ts \<longrightarrow> (\<forall>e. sv e = Works))"

definition at_position :: "Entry list \<Rightarrow> Entry \<Rightarrow> Entry list \<Rightarrow> Consumer \<Rightarrow> bool" where
  "at_position h0 e0 rest c \<longleftrightarrow>
     (\<exists>es. co_handled c = h0 @ es \<and> prefix es rest \<and> co_saved c = Some (en_id (last (e0 # es))))"

lemma entries_loop_saved:
  assumes "\<forall>e. sv e = Works" "co_saved c = Some i"
  shows "\<exists>c'. entries_loop sv es i c = (Some (if es = [] then i else en_id (last es)), c')
     \<and> co_handled c' = co_handled c @ es \<and> co_running c' = co_running c
     \<and> co_saved c' = Some (if es = [] then i else en_id (last es))"
  using assms(2)
proof (induction es arbitrary: c i)
  case (Cons e es)
  show ?case
    using Cons.IH [of "handle_event e c\<lparr>co_saved := Some (en_id e)\<rparr>" "en_id e"] assms(1)
    by (auto simp: Let_def save_last_id_def handle_event_def)
qed simp

lemma at_position_entries:
  assumes "at_position h0 e0 rest c" "co_saved c = Some i" "reads_in_order (pre @ e0 # rest) xread"
    and "distinct (map en_id (pre @ e0 # rest))" "xread t i = Entries es" "\<forall>e. sv e = Works"
  shows "\<exists>i' c'. entries_loop sv es i c = (Some i', c') \<and> at_position h0 e0 rest c' \<and> co_saved c' = Some i'
     \<and> co_running c' = co_running c \<and> co_handled c' = co_handled c @ es"
proof -
  obtain es0 where es0: "co_handled c = h0 @ es0" "prefix es0 rest" "i = en_id (last (e0 # es0))"
    using assms(1,2) by (auto simp: at_position_def)
  then obtain r where r: "rest = es0 @ r" by (auto simp: prefix_def)
  have "last (e0 # es0) \<in> set (pre @ e0 # rest)" by (auto simp: r)
  then have "prefix es (entries_after (pre @ e0 # rest) i)"
    using assms(3,5) es0(3) by (auto simp: reads_in_order_def)
  then have es: "prefix es r" using entries_after_last [of pre e0 es0 r] assms(4) es0(3) by (simp add: r)
  obtain c' where c': "entries_loop sv es i c = (Some (if es = [] then i else en_id (last es)), c')"
    "co_handled c' = co_handled c @ es" "co_running c' = co_running c"
    "co_saved c' = Some (if es = [] then i else en_id (last es))"
    using entries_loop_saved [OF assms(6,2), where es = es] by blast
  have "at_position h0 e0 rest c'"
    unfolding at_position_def using c' es0 es by (intro exI [of _ "es0 @ es"]) (auto simp: r)
  then show ?thesis using c' by blast
qed

lemma at_position_reads:
  assumes "reads_in_order (pre @ e0 # rest) xread" "distinct (map en_id (pre @ e0 # rest))"
    and "at_position h0 e0 rest c" "co_saved c = Some i" "all_saved ts"
  shows "at_position h0 e0 rest (snd (read_loop xread ts i c))"
  using assms(3-)
proof (induction ts i c rule: read_loop_induct)
  case (step ts i c)
  show ?case
  proof (cases ts)
    case Nil
    then show ?thesis using step.prems by (simp add: read_loop.simps)
  next
    case (Cons t ts')
    have ts': "all_saved ts'" using step.prems(3) Cons by (auto simp: all_saved_def)
    have IH: "at_position h0 e0 rest c' \<Longrightarrow> co_saved c' = Some l \<Longrightarrow> at_position h0 e0 rest (snd (read_loop xread ts' l c'))"
      for l c' using step.IH Cons ts' by simp
    show ?thesis
    proof (cases t)
      case (Read n sv)
      have sv: "\<forall>e. sv e = Works" using step.prems(3) Cons Read by (auto simp: all_saved_def)
      show ?thesis
      proof (cases "xread n i")
        case (Entries es)
        from at_position_entries [OF step.prems(1,2) assms(1,2) Entries sv] obtain i' c'
          where "entries_loop sv es i c = (Some i', c')" "at_position h0 e0 rest c'" "co_saved c' = Some i'" by blast
        then show ?thesis using step.prems IH by (subst read_loop.simps) (simp add: Cons Read Entries)
      next
        case ReadRaises
        then show ?thesis using step.prems by (subst read_loop.simps) (simp add: Cons Read)
      qed
    next
      case StopCalled
      have "at_position h0 e0 rest (c\<lparr>co_running := False\<rparr>)" using step.prems(1) by (simp add: at_position_def)
      then show ?thesis using step.prems IH by (subst read_loop.simps) (simp add: Cons StopCalled)
    next
      case TaskCancelled
      then show ?thesis using step.prems by (subst read_loop.simps) (simp add: Cons)
    qed
  qed
qed

definition clean :: "Connection \<Rightarrow> bool" where
  "clean k \<longleftrightarrow> cn_load k = Works \<and> all_saved (cn_turns k)"

lemma at_position_once:
  assumes "reads_in_order (pre @ e0 # rest) xread" "distinct (map en_id (pre @ e0 # rest))"
    and "\<forall>e\<in>set (e0 # rest). en_id e \<noteq> []" "clean k" "at_position h0 e0 rest c"
  shows "at_position h0 e0 rest (snd (run_once xread k c))"
proof -
  obtain es where es: "prefix es rest" "co_saved c = Some (en_id (last (e0 # es)))"
    using assms(5) by (auto simp: at_position_def)
  then have "last (e0 # es) \<in> set (e0 # rest)" by (auto simp: prefix_def)
  then have "load_last_id (cn_load k) c = Some (en_id (last (e0 # es)))"
    using assms(3,4) es(2) by (auto simp: load_last_id_def clean_def truthy_str_def)
  then show ?thesis
    using at_position_reads [OF assms(1,2,5) es(2)] assms(4,5) by (simp add: run_once_def clean_def)
qed

lemma at_position_consume:
  assumes "reads_in_order (pre @ e0 # rest) xread" "distinct (map en_id (pre @ e0 # rest))"
    and "\<forall>e\<in>set (e0 # rest). en_id e \<noteq> []" "\<forall>k\<in>set ks. clean k" "at_position h0 e0 rest c"
  shows "at_position h0 e0 rest (consume xread ks w c)"
  using assms(4,5)
proof (induction ks arbitrary: w c)
  case (Cons k ks)
  obtain r c1 where r: "run_once xread k c = (r, c1)" by fastforce
  have "at_position h0 e0 rest c1"
    using at_position_once [OF assms(1-3), of k] Cons.prems r by (metis list.set_intros(1) snd_conv)
  moreover have "at_position h0 e0 rest (c1\<lparr>co_waits := ws\<rparr>)" "at_position h0 e0 rest (c1\<lparr>co_waits := ws, co_running := b\<rparr>)"
    for ws b using calculation by (simp_all add: at_position_def)
  ultimately show ?case using Cons by (auto simp: r Let_def split: option.splits ending.splits)
qed simp

section \<open>Lemmas: progress and pauses\<close>

lemma reads_progress:
  assumes "reads_in_order (pre @ e0 # rest) xread" "distinct (map en_id (pre @ e0 # rest))"
    and "\<And>t e. e \<in> set (pre @ e0 # rest) \<Longrightarrow> entries_after (pre @ e0 # rest) (en_id e) \<noteq> [] \<Longrightarrow>
           \<exists>es. es \<noteq> [] \<and> xread t (en_id e) = Entries es"
    and "\<And>t e. e \<in> set (pre @ e0 # rest) \<Longrightarrow> xread t (en_id e) \<noteq> ReadRaises"
    and "at_position h0 e0 rest c" "co_saved c = Some i" "all_saved ts" "\<forall>t\<in>set ts. \<exists>n sv. t = Read n sv" "co_running c"
  shows "length h0 + min (length (co_handled c) - length h0 + length ts) (length rest)
     \<le> length (co_handled (snd (read_loop xread ts i c)))"
  using assms(5-)
proof (induction ts i c rule: read_loop_induct)
  case (step ts i c)
  obtain es0 where es0: "co_handled c = h0 @ es0" "prefix es0 rest" "i = en_id (last (e0 # es0))"
    using step.prems(1,2) by (auto simp: at_position_def)
  show ?case
  proof (cases ts)
    case Nil
    then show ?thesis using step.prems es0 by (simp add: read_loop.simps)
  next
    case (Cons t ts')
    then obtain n sv where t: "t = Read n sv" using step.prems(4) by auto
    have sv: "\<forall>e. sv e = Works" using step.prems(3) Cons t by (auto simp: all_saved_def)
    obtain r where r: "rest = es0 @ r" using es0(2) by (auto simp: prefix_def)
    have i: "last (e0 # es0) \<in> set (pre @ e0 # rest)" by (auto simp: r)
    obtain es where es: "xread n i = Entries es" using assms(4) [OF i, of n] es0(3) by (cases "xread n i") auto
    have grow: "es \<noteq> [] \<or> r = []"
      using assms(3) [OF i, of n] entries_after_last [of pre e0 es0 r] assms(2) es es0(3) by (auto simp: r)
    from at_position_entries [OF step.prems(1,2) assms(1,2) es sv] obtain i' c'
      where c': "entries_loop sv es i c = (Some i', c')" "at_position h0 e0 rest c'" "co_saved c' = Some i'"
        "co_running c' = co_running c" "co_handled c' = co_handled c @ es" by blast
    have "length h0 + min (length (co_handled c') - length h0 + length ts') (length rest)
        \<le> length (co_handled (snd (read_loop xread ts' i' c')))"
      using step.IH [of ts' c' i'] c' Cons step.prems by (auto simp: all_saved_def)
    moreover have "read_loop xread ts i c = read_loop xread ts' i' c'"
      using step.prems(5) c' by (subst read_loop.simps) (simp add: Cons t es)
    moreover have "es \<noteq> [] \<Longrightarrow> 1 \<le> length es" by (cases es) auto
    ultimately show ?thesis using grow c'(5) es0(1) Cons r by auto
  qed
qed

lemma entries_loop_waits: "co_waits (snd (entries_loop sv es i c)) = co_waits c"
proof (induction es arbitrary: i c)
  case (Cons e es)
  then show ?case by (auto simp: Let_def save_last_id_def handle_event_def split: command.splits)
qed simp

lemma read_loop_waits: "co_waits (snd (read_loop xread ts i c)) = co_waits c"
proof (induction ts i c rule: read_loop_induct)
  case (step ts i c)
  show ?case
  proof (cases ts)
    case (Cons t ts')
    then show ?thesis
      using step.IH [of ts'] entries_loop_waits
      by (subst read_loop.simps) (auto split: turn.splits answer.splits option.splits prod.splits; metis snd_conv)
  qed (simp add: read_loop.simps)
qed

lemma run_once_waits: "co_waits (snd (run_once xread k c)) = co_waits c"
  by (simp add: run_once_def read_loop_waits split: option.splits)

lemma consume_waits:
  "w = min (2 ^ j) 30 \<Longrightarrow>
     \<exists>n. co_waits (consume xread ks w c) = co_waits c @ map (\<lambda>i. min (2 ^ i) 30) [j..<j + n]"
proof (induction ks arbitrary: w j c)
  case (Cons k ks)
  obtain r c1 where r: "run_once xread k c = (r, c1)" by fastforce
  have w1: "co_waits c1 = co_waits c" using run_once_waits [of xread k c] r by simp
  have next_wait: "min (w * 2) 30 = min (2 ^ Suc j) 30" using Cons.prems by (auto simp: min_def)
  show ?case
  proof (cases "co_running c \<and> r = Some Failed \<and> \<not> cn_sleep_cancelled k")
    case True
    let ?c = "(let c2 = c1\<lparr>co_waits := co_waits c1 @ [w]\<rparr> in if cn_stopped_meanwhile k then c2\<lparr>co_running := False\<rparr> else c2)"
    have cons: "consume xread (k # ks) w c = consume xread ks (min (w * 2) 30) ?c" using True by (simp add: r Let_def)
    obtain n where "co_waits (consume xread ks (min (w * 2) 30) ?c)
        = co_waits ?c @ map (\<lambda>i. min (2 ^ i) 30) [Suc j..<Suc j + n]"
      using Cons.IH [OF next_wait, of ?c] by blast
    moreover have "co_waits ?c = co_waits c @ [w]" using w1 by (simp add: Let_def)
    moreover have "[j..<j + Suc n] = j # [Suc j..<Suc j + n]" by (simp add: upt_conv_Cons del: upt_Suc)
    ultimately show ?thesis using Cons.prems cons
      by (intro exI [of _ "Suc n"]) (simp del: upt_Suc)
  next
    case False
    then have "co_waits (consume xread (k # ks) w c) = co_waits c
        \<or> co_waits (consume xread (k # ks) w c) = co_waits c @ [w]"
      using w1 by (auto simp: r Let_def split: option.splits ending.splits)
    then show ?thesis
      using Cons.prems by (elim disjE) (auto intro: exI [of _ 0] exI [of _ "Suc 0"])
  qed
qed (auto intro: exI [of _ 0])

section \<open>Properties\<close>

text \<open>
  C14. Whatever the two Redis servers do, repeated or missing reads included, a stream of VAS is paused in the
  inference loop exactly when the last event handed over that starts or stops it stops it; without such an event
  it is what it was.
\<close>

theorem paused_by_last_event:
  assumes "co_loop c = Some loop"
  shows "\<exists>es loop'. co_handled (start xread url ks c) = co_handled c @ es \<and> co_loop (start xread url ks c) = Some loop'
     \<and> (vas_stream_is_paused s loop' \<longleftrightarrow>
          (if filter (concerns s) es = [] then vas_stream_is_paused s loop
           else field (en_event (last (filter (concerns s) es))) \<in> PAUSE_EVENTS))"
proof -
  have "follows loop (co_handled c) c" using assms by (simp add: follows_def)
  then have "follows loop (co_handled c) (start xread url ks c)" by (rule following.starts)
  then show ?thesis by (auto simp: follows_def paused_fold)
qed

definition demo_entry :: "string \<Rightarrow> string \<Rightarrow> Entry" where
  "demo_entry i ev = \<lparr>en_id = i, en_event = Some ev, en_stream_id = Some ''s''\<rparr>"

definition demo_consumer :: Consumer where
  "demo_consumer = \<lparr>co_running = False, co_saved = Some ''1'', co_loop = Some new_loop, co_handled = [], co_waits = []\<rparr>"

definition demo_stream :: "Entry list" where
  "demo_stream = [demo_entry ''1'' ''stream.started'', demo_entry ''2'' ''stream.crashed'']"

definition demo_xread :: xread where
  "demo_xread t i = Entries (entries_after demo_stream i)"

definition demo_connection :: Connection where
  "demo_connection = \<lparr>cn_ping = True, cn_load = Works, cn_turns = [Read 0 (\<lambda>_. Works), StopCalled],
     cn_sleep_cancelled = False, cn_stopped_meanwhile = False\<rparr>"

lemma demo_consumer_run:
  "co_handled (start demo_xread ''u'' [demo_connection] demo_consumer) = [demo_entry ''2'' ''stream.crashed'']"
  by (simp add: start_def demo_consumer_def demo_connection_def run_once_def load_last_id_def truthy_str_def
      read_loop.simps demo_xread_def demo_stream_def demo_entry_def save_last_id_def handle_event_def Let_def)

theorem paused_by_last_event_witness:
  "\<exists>loop. co_loop (start demo_xread ''u'' [demo_connection] demo_consumer) = Some loop \<and> vas_stream_is_paused ''s'' loop"
  using paused_by_last_event [of demo_consumer new_loop demo_xread "''u''" "[demo_connection]" "''s''"] demo_consumer_run
  by (simp add: demo_consumer_def concerns_def demo_entry_def field_def PAUSE_EVENTS_def)

text \<open>
  C13. When a position is stored, every load and save of positions works, and Redis answers as documented, the entries
  handed over are a gapless part of the stream that begins right after the position, each exactly once, over any
  number of failed connections, and the stored position is that of the last one.
\<close>

theorem events_handed_over_once:
  assumes "reads_in_order (pre @ e0 # rest) xread" "distinct (map en_id (pre @ e0 # rest))"
    and "\<forall>e\<in>set (e0 # rest). en_id e \<noteq> []" "\<forall>k\<in>set ks. clean k" "co_saved c = Some (en_id e0)"
  shows "\<exists>es. co_handled (start xread url ks c) = co_handled c @ es \<and> prefix es rest
     \<and> co_saved (start xread url ks c) = Some (en_id (last (e0 # es)))"
proof -
  have "at_position (co_handled c) e0 rest c" "at_position (co_handled c) e0 rest (c\<lparr>co_running := b\<rparr>)" for b
    using assms(5) by (auto simp: at_position_def)
  then have "at_position (co_handled c) e0 rest (start xread url ks c)"
    using at_position_consume [OF assms(1-4)] by (simp add: start_def)
  then show ?thesis by (simp add: at_position_def)
qed

lemma demo_reads: "reads_in_order demo_stream demo_xread" "distinct (map en_id demo_stream)"
  by (simp_all add: reads_in_order_def demo_xread_def demo_stream_def demo_entry_def)

theorem events_handed_over_once_witness:
  "co_saved (start demo_xread ''u'' [demo_connection] demo_consumer) = Some ''2''"
proof -
  have "\<exists>es. co_handled (start demo_xread ''u'' [demo_connection] demo_consumer) = co_handled demo_consumer @ es
     \<and> prefix es [demo_entry ''2'' ''stream.crashed'']
     \<and> co_saved (start demo_xread ''u'' [demo_connection] demo_consumer)
         = Some (en_id (last (demo_entry ''1'' ''stream.started'' # es)))"
    using demo_reads by (intro events_handed_over_once [where pre = "[]"])
      (simp_all add: demo_stream_def demo_consumer_def demo_connection_def clean_def all_saved_def demo_entry_def)
  then show ?thesis unfolding demo_consumer_run by (auto simp: demo_consumer_def demo_entry_def)
qed

text \<open>
  A connection that stays up makes progress: when Redis gives what there is, each read hands over at least one
  more entry until the end of the stream is reached.
\<close>

theorem reading_makes_progress:
  assumes "reads_in_order (pre @ e0 # rest) xread" "distinct (map en_id (pre @ e0 # rest))"
    and "\<And>t e. e \<in> set (pre @ e0 # rest) \<Longrightarrow> entries_after (pre @ e0 # rest) (en_id e) \<noteq> [] \<Longrightarrow>
           \<exists>es. es \<noteq> [] \<and> xread t (en_id e) = Entries es"
    and "\<And>t e. e \<in> set (pre @ e0 # rest) \<Longrightarrow> xread t (en_id e) \<noteq> ReadRaises"
    and "co_saved c = Some (en_id e0)" "en_id e0 \<noteq> []" "co_running c"
    and "cn_ping k" "clean k" "\<forall>t\<in>set (cn_turns k). \<exists>n sv. t = Read n sv"
  shows "min (length (cn_turns k)) (length rest) \<le> length (co_handled (snd (run_once xread k c))) - length (co_handled c)"
proof -
  have "at_position (co_handled c) e0 rest c" using assms(5) by (simp add: at_position_def)
  moreover have "run_once xread k c = read_loop xread (cn_turns k) (en_id e0) c"
    using assms(5,6,8,9) by (simp add: run_once_def load_last_id_def clean_def truthy_str_def)
  ultimately show ?thesis
    using reads_progress [OF assms(1-4), where ?h0.0 = "co_handled c" and c = c and i = "en_id e0" and ts = "cn_turns k"] assms(5,7,9,10)
    by (simp add: clean_def)
qed

theorem reading_makes_progress_witness:
  "1 \<le> length (co_handled (snd (run_once demo_xread (demo_connection\<lparr>cn_turns := [Read 0 (\<lambda>_. Works)]\<rparr>)
     (demo_consumer\<lparr>co_running := True\<rparr>))))"
proof -
  let ?k = "demo_connection\<lparr>cn_turns := [Read 0 (\<lambda>_. Works)]\<rparr>" and ?c = "demo_consumer\<lparr>co_running := True\<rparr>"
  have "min (length (cn_turns ?k)) (length [demo_entry ''2'' ''stream.crashed''])
      \<le> length (co_handled (snd (run_once demo_xread ?k ?c))) - length (co_handled ?c)"
    using demo_reads
    by (intro reading_makes_progress [where pre = "[]" and ?e0.0 = "demo_entry ''1'' ''stream.started''"])
      (simp_all add: demo_stream_def demo_consumer_def demo_connection_def clean_def all_saved_def demo_entry_def demo_xread_def)
  then show ?thesis by simp
qed

text \<open>
  The pauses between connections double from one second to thirty, over the whole life of the task: a connection
  that was made does not set them back.
\<close>

theorem pauses_double:
  "\<exists>n. co_waits (start xread url ks c) = co_waits c @ map (\<lambda>i. min (2 ^ i) 30) [0..<n]"
proof -
  obtain n where "co_waits (consume xread ks 1 (c\<lparr>co_running := True\<rparr>))
      = co_waits (c\<lparr>co_running := True\<rparr>) @ map (\<lambda>i. min (2 ^ i) 30) [0..<0 + n]"
    using consume_waits [of 1 0] by fastforce
  then show ?thesis by (auto simp: start_def intro: exI [of _ 0] exI [of _ n])
qed

section \<open>Where events are lost or repeated\<close>

text \<open>
  Without a stored position the consumer asks for entries newer than the call (\<open>$\<close>), and asks so again after
  each read that brought nothing: an entry that arrives between two such reads is in neither answer.
\<close>

lemma dollar_asks_again:
  "co_running c \<Longrightarrow> xread t ''$'' = Entries [] \<Longrightarrow>
     read_loop xread (Read t sv # ts) ''$'' c = read_loop xread ts ''$'' c"
  by (subst read_loop.simps) simp

text \<open>
  When saving fails while the entries are read, the next connection begins at the old position and hands the
  same entries over again.
\<close>

lemma unsaved_events_repeat:
  "co_handled (start (\<lambda>t i. if t = 1 then ReadRaises else demo_xread t i) ''u''
      [demo_connection\<lparr>cn_turns := [Read 0 (\<lambda>_. RedisFails), Read 1 (\<lambda>_. Works)]\<rparr>, demo_connection] demo_consumer)
    = [demo_entry ''2'' ''stream.crashed'', demo_entry ''2'' ''stream.crashed'']"
  by (simp add: start_def demo_consumer_def demo_connection_def run_once_def load_last_id_def truthy_str_def
      read_loop.simps demo_xread_def demo_stream_def demo_entry_def save_last_id_def handle_event_def Let_def)

text \<open>An event without a stream is handed over all the same, for the stream with the empty name.\<close>

lemma nameless_stream_activated:
  "dget (lp_vas_stream_state (apply_event \<lparr>en_id = ''1'', en_event = Some ''stream.started'', en_stream_id = None\<rparr> loop)) [] = Some ''active''"
  by (simp add: apply_event_def field_def ACTIVATE_EVENTS_def activate_def)

end
