(* ===== verification/BookmarkAnalysis.thy ===== *)
theory BookmarkAnalysis
  imports VASClient "HOL-Library.Sublist"
begin

text \<open>
  Analyses of recorded bookmarks in \<open>ruth-ai-backend/app\<close>: the client of the AI runtime
  (\<open>integrations/unified_runtime/client.py\<close>), the cached check that a model exists
  (\<open>services/model_availability.py\<close>), rows and their life cycle
  (\<open>services/bookmark_analysis_service.py\<close>, \<open>services/bookmark_analysis_worker.py\<close>), the checks of
  a request (\<open>schemas/bookmark_analysis.py\<close>) and the routes (\<open>api/v1/bookmark_analyses.py\<close>). Parameters
  are the answers of the runtime and of VAS, the frames OpenCV decodes, the clock and fresh identifiers; times
  within a video are real numbers.
\<close>

section \<open>Client of the runtime\<close>

text \<open>
  The exceptions that leave the client: those of \<open>UnifiedRuntimeError\<close> and its subclasses, and anything else.
\<close>

datatype runtime_error = RuntimeBase string | RuntimeConnection string | RuntimeTimeout string
  | RuntimeModelNotFound string | RuntimeInference string | RuntimeRaw string

definition is_runtime_error :: "runtime_error \<Rightarrow> bool" where
  "is_runtime_error e = (case e of RuntimeRaw _ \<Rightarrow> False | _ \<Rightarrow> True)"

fun runtime_text :: "runtime_error \<Rightarrow> string" where
  "runtime_text (RuntimeBase m) = m"
| "runtime_text (RuntimeConnection m) = m"
| "runtime_text (RuntimeTimeout m) = m"
| "runtime_text (RuntimeModelNotFound m) = m"
| "runtime_text (RuntimeInference m) = m"
| "runtime_text (RuntimeRaw m) = m"

text \<open>
  What a request comes to: a failure of httpx, or a status with a body, which is no JSON, JSON of another shape, or
  what the code expects. \<open>raise_for_status\<close> raises outside of 200 to 299.
\<close>

datatype 'b body = NotJson string | OtherShape string | Parsed 'b

datatype 'b reply = NetError http_error | Reply nat "'b body"

fun error_detail :: "http_error \<Rightarrow> string" where
  "error_detail (ConnectError m) = m"
| "error_detail (ConnectTimeout m) = m"
| "error_detail (TimeoutException m) = m"
| "error_detail (OtherHttpError m) = m"

definition net_error :: "string \<Rightarrow> http_error \<Rightarrow> runtime_error" where
  "net_error what x =
     (case x of ConnectError m \<Rightarrow> RuntimeConnection (''Failed to connect: '' @ m)
      | ConnectTimeout m \<Rightarrow> RuntimeTimeout (what @ '' timed out: '' @ m)
      | TimeoutException m \<Rightarrow> RuntimeTimeout (what @ '' timed out: '' @ m)
      | OtherHttpError m \<Rightarrow> RuntimeRaw m)"

definition success_status :: "nat \<Rightarrow> bool" where
  "success_status n \<longleftrightarrow> 200 \<le> n \<and> n < 300"

definition status_text :: "nat \<Rightarrow> string" where
  "status_text n = ''HTTP status '' @ show_nat n"

definition check_health :: "'b reply \<Rightarrow> runtime_error + 'b" where
  "check_health r =
     (case r of NetError x \<Rightarrow> Inl (net_error ''Health check'' x)
      | Reply n b \<Rightarrow>
          if \<not> success_status n then Inl (RuntimeBase (''Health check failed: '' @ status_text n))
          else (case b of Parsed v \<Rightarrow> Inr v | NotJson m \<Rightarrow> Inl (RuntimeRaw m) | OtherShape m \<Rightarrow> Inl (RuntimeRaw m)))"

text \<open>A status of failure is not among the exceptions \<open>get_capabilities\<close> maps.\<close>

definition get_capabilities :: "'b reply \<Rightarrow> runtime_error + 'b" where
  "get_capabilities r =
     (case r of NetError x \<Rightarrow> Inl (net_error ''Capabilities request'' x)
      | Reply n b \<Rightarrow>
          if \<not> success_status n then Inl (RuntimeRaw (status_text n))
          else (case b of Parsed v \<Rightarrow> Inr v | NotJson m \<Rightarrow> Inl (RuntimeRaw m) | OtherShape m \<Rightarrow> Inl (RuntimeRaw m)))"

record UnifiedInferenceResponse =
  ur_status :: string
  ur_result :: "(string, jval) dict option"
  ur_error :: "string option"

definition submit_inference ::
    "string \<Rightarrow> string option \<Rightarrow> UnifiedInferenceResponse reply \<Rightarrow> runtime_error + UnifiedInferenceResponse" where
  "submit_inference model_id model_version r =
     (case r of NetError x \<Rightarrow> Inl (net_error ''Inference'' x)
      | Reply n b \<Rightarrow>
          if n = 404 then Inl (RuntimeModelNotFound (''Model not found: '' @ model_id @ '':'' @
            (if truthy_str model_version then the model_version else ''latest'')))
          else if n = 503 then Inl (RuntimeBase ''Unified runtime service unavailable'')
          else if \<not> success_status n then Inl (RuntimeInference (''Inference failed: '' @ status_text n))
          else (case b of Parsed v \<Rightarrow> Inr v
                | OtherShape m \<Rightarrow> Inl (RuntimeInference (''Invalid response: '' @ m))
                | NotJson m \<Rightarrow> Inl (RuntimeRaw m)))"

section \<open>Available models\<close>

type_synonym catalog = "(string, jval) dict list"

record ModelCache =
  mc_models :: "catalog option"
  mc_expires_at :: real

definition CACHE_TTL_SECONDS :: real where "CACHE_TTL_SECONDS = 30"

text \<open>\<open>capabilities.get("models", []) or []\<close>; the answer is given by its entry \<open>models\<close>.\<close>

definition refresh_catalog :: "catalog option reply \<Rightarrow> runtime_error + catalog" where
  "refresh_catalog r =
     (case get_capabilities r of Inl e \<Rightarrow> Inl e
      | Inr m \<Rightarrow> Inr (case m of None \<Rightarrow> [] | Some xs \<Rightarrow> xs))"

text \<open>The flag says whether the runtime was asked.\<close>

definition get_catalog :: "real \<Rightarrow> catalog option reply \<Rightarrow> ModelCache \<Rightarrow> (runtime_error + catalog) \<times> bool \<times> ModelCache" where
  "get_catalog now r c =
     (case mc_models c of
        Some models \<Rightarrow>
          if mc_expires_at c > now then (Inr models, False, c)
          else (case refresh_catalog r of Inl e \<Rightarrow> (Inl e, True, c)
                | Inr ms \<Rightarrow> (Inr ms, True, \<lparr>mc_models = Some ms, mc_expires_at = now + CACHE_TTL_SECONDS\<rparr>))
      | None \<Rightarrow>
          (case refresh_catalog r of Inl e \<Rightarrow> (Inl e, True, c)
           | Inr ms \<Rightarrow> (Inr ms, True, \<lparr>mc_models = Some ms, mc_expires_at = now + CACHE_TTL_SECONDS\<rparr>)))"

datatype availability = Available "(string, jval) dict" | NotAvailable | CheckFailed runtime_error

definition assert_model_available :: "real \<Rightarrow> catalog option reply \<Rightarrow> string \<Rightarrow> ModelCache \<Rightarrow> availability \<times> bool \<times> ModelCache" where
  "assert_model_available now r model_id c =
     (case get_catalog now r c of
        (Inl e, asked, c') \<Rightarrow> (CheckFailed e, asked, c')
      | (Inr models, asked, c') \<Rightarrow>
          ((case find (\<lambda>m. dget m ''model_id'' = Some (JStr model_id)) models of
              None \<Rightarrow> NotAvailable | Some m \<Rightarrow> Available m), asked, c'))"

section \<open>Requests\<close>

definition is_number :: "jval \<Rightarrow> bool" where
  "is_number v = (case v of JInt _ \<Rightarrow> True | JReal _ \<Rightarrow> True | JBool _ \<Rightarrow> True | _ \<Rightarrow> False)"

definition number_of :: "jval \<Rightarrow> real" where
  "number_of v = (case v of JInt i \<Rightarrow> of_int i | JReal r \<Rightarrow> r | JBool b \<Rightarrow> of_bool b | _ \<Rightarrow> 0)"

text \<open>The validators; \<open>False\<close> is the \<open>ValueError\<close>, and a missing entry is \<open>None\<close>.\<close>

definition valid_tank_corners :: "jval option \<Rightarrow> bool" where
  "valid_tank_corners v =
     (case v of Some (JList pts) \<Rightarrow>
        length pts = 4
        \<and> list_all (\<lambda>p. case p of JList cs \<Rightarrow> length cs = 2 \<and> list_all is_number cs | _ \<Rightarrow> False) pts
      | _ \<Rightarrow> False)"

definition sampling_fps_of :: "(string, jval) dict \<Rightarrow> jval" where
  "sampling_fps_of params = dget_or params ''sampling_fps'' (JReal 1)"

record SubmitRequest =
  sr_vas_bookmark_id :: string
  sr_model_id :: string
  sr_model_version :: "string option"
  sr_parameters :: "(string, jval) dict option"

definition request_params :: "SubmitRequest \<Rightarrow> (string, jval) dict" where
  "request_params q = (case sr_parameters q of None \<Rightarrow> [] | Some p \<Rightarrow> p)"

definition valid_request :: "SubmitRequest \<Rightarrow> bool" where
  "valid_request q \<longleftrightarrow>
     1 \<le> length (sr_vas_bookmark_id q) \<and> length (sr_vas_bookmark_id q) \<le> 255
     \<and> 1 \<le> length (sr_model_id q) \<and> length (sr_model_id q) \<le> 100
     \<and> (case sr_model_version q of None \<Rightarrow> True | Some v \<Rightarrow> length v \<le> 50)
     \<and> is_number (sampling_fps_of (request_params q))
     \<and> 1 / 10 \<le> number_of (sampling_fps_of (request_params q))
     \<and> number_of (sampling_fps_of (request_params q)) \<le> 10
     \<and> (sr_model_id q = ''tank_overflow_monitoring'' \<longrightarrow>
          valid_tank_corners (dget (request_params q) ''tank_corners''))"

section \<open>Frames\<close>

text \<open>
  The loop over the decoded frames: each is an encoded image, or \<open>None\<close> when the encoding fails. A frame is
  sampled when its index has reached the next sampling point.
\<close>

fun sample_frames :: "real \<Rightarrow> real \<Rightarrow> nat \<Rightarrow> real \<Rightarrow> 'j option list \<Rightarrow> (real \<times> 'j) list" where
  "sample_frames source_fps frame_interval idx next_at [] = []"
| "sample_frames source_fps frame_interval idx next_at (f # fs) =
     (if real idx \<ge> next_at then
        (case f of None \<Rightarrow> [] | Some j \<Rightarrow> [(real idx / source_fps, j)])
        @ sample_frames source_fps frame_interval (idx + 1) (next_at + frame_interval) fs
      else sample_frames source_fps frame_interval (idx + 1) next_at fs)"

text \<open>A video OpenCV opened: the rate it reports and the frames; \<open>None\<close> when it cannot open it.\<close>

type_synonym 'j video = "(real \<times> 'j option list) option"

definition extract_frames :: "real \<Rightarrow> 'j video \<Rightarrow> (real \<times> 'j) list option" where
  "extract_frames fps v =
     (case v of None \<Rightarrow> None
      | Some (reported, fs) \<Rightarrow>
          let source_fps = (if reported \<le> 0 then 30 else reported)
          in Some (sample_frames source_fps (source_fps / fps) 0 0 fs))"

section \<open>Summaries\<close>

record Sample =
  sm_timestamp_seconds :: real
  sm_fill_percentage :: real

definition extract_fill_percentage :: "string \<Rightarrow> (string, jval) dict \<Rightarrow> real option" where
  "extract_fill_percentage model_id r =
     (let raw = (if model_id = ''tank_overflow_monitoring'' then dget r ''level_percent''
                 else (case dget r ''fill_percentage'' of Some v \<Rightarrow> Some v | None \<Rightarrow> dget r ''level_percent''))
      in case raw of None \<Rightarrow> None | Some v \<Rightarrow> if is_number v then Some (number_of v) else None)"

definition TANK_THRESHOLDS :: "nat list" where "TANK_THRESHOLDS = [80, 90]"

text \<open>The thresholds one sample crosses, among those not yet crossed, and the events so far.\<close>

type_synonym crossing = "real \<times> nat"

fun cross_sample :: "Sample \<Rightarrow> nat list \<Rightarrow> nat list \<times> crossing list \<Rightarrow> nat list \<times> crossing list" where
  "cross_sample s [] st = st"
| "cross_sample s (t # ts) (crossed, events) =
     (if t \<notin> set crossed \<and> sm_fill_percentage s \<ge> real t
      then cross_sample s ts (t # crossed, events @ [(sm_timestamp_seconds s, t)])
      else cross_sample s ts (crossed, events))"

definition detect_threshold_crossings :: "Sample list \<Rightarrow> nat list \<Rightarrow> crossing list" where
  "detect_threshold_crossings timeline ts = snd (fold (\<lambda>s. cross_sample s ts) timeline ([], []))"

definition first_at :: "nat \<Rightarrow> Sample list \<Rightarrow> real option" where
  "first_at t timeline = map_option sm_timestamp_seconds (find (\<lambda>s. sm_fill_percentage s \<ge> real t) timeline)"

record Stats =
  st_peak :: real
  st_final :: real
  st_time_to_80 :: "real option"
  st_time_to_90 :: "real option"
  st_duration :: real
  st_frames_analyzed :: nat
  st_frames_skipped :: nat

definition compute_stats :: "Sample list \<Rightarrow> nat \<Rightarrow> Stats" where
  "compute_stats timeline skipped =
     \<lparr>st_peak = (if timeline = [] then 0 else foldl max (sm_fill_percentage (hd timeline)) (map sm_fill_percentage (tl timeline))),
      st_final = (if timeline = [] then 0 else sm_fill_percentage (last timeline)),
      st_time_to_80 = first_at 80 timeline, st_time_to_90 = first_at 90 timeline,
      st_duration = (if timeline = [] then 0 else sm_timestamp_seconds (last timeline)),
      st_frames_analyzed = length timeline, st_frames_skipped = skipped\<rparr>"

record Summary =
  su_timeline :: "Sample list"
  su_threshold_events :: "crossing list"
  su_stats :: Stats
  su_model_id :: string
  su_model_version :: "string option"
  su_sampling_fps :: real
  su_parameters :: "(string, jval) dict"

section \<open>The pipeline\<close>

text \<open>
  Frame by frame: \<open>ask k f\<close> is the reply of the runtime to the k-th frame \<open>f\<close>. An error is the text of the
  exception.
\<close>

fun infer_frames ::
    "string \<Rightarrow> string option \<Rightarrow> (nat \<Rightarrow> real \<times> 'j \<Rightarrow> UnifiedInferenceResponse reply) \<Rightarrow> nat \<Rightarrow> (real \<times> 'j) list
       \<Rightarrow> Sample list \<Rightarrow> nat \<Rightarrow> string + Sample list \<times> nat" where
  "infer_frames model_id version ask k [] timeline skipped = Inr (timeline, skipped)"
| "infer_frames model_id version ask k (f # fs) timeline skipped =
     (case submit_inference model_id version (ask k f) of
        Inl e \<Rightarrow> Inl (if is_runtime_error e then ''AI runtime unreachable: '' @ runtime_text e else runtime_text e)
      | Inr r \<Rightarrow>
          if ur_status r \<noteq> ''success'' \<or> ur_result r = None
          then infer_frames model_id version ask (k + 1) fs timeline (skipped + 1)
          else (case extract_fill_percentage model_id (the (ur_result r)) of
                  None \<Rightarrow> infer_frames model_id version ask (k + 1) fs timeline (skipped + 1)
                | Some fill \<Rightarrow> infer_frames model_id version ask (k + 1) fs
                    (timeline @ [\<lparr>sm_timestamp_seconds = fst f, sm_fill_percentage = fill\<rparr>]) skipped))"

text \<open>What a run meets: whether there is a client of VAS, the download, which ends with the size of the file, the video.\<close>

record 'j PipelineEnv =
  pe_vas_available :: bool
  pe_download :: "client_error + nat"
  pe_video :: "'j video"
  pe_ask :: "nat \<Rightarrow> real \<times> 'j \<Rightarrow> UnifiedInferenceResponse reply"

fun download_error :: "client_error \<Rightarrow> string" where
  "download_error (VASRaises x) = ''VAS bookmark download failed: '' @ exception_text x"
| "download_error (HttpRaises x) = error_detail x"
| "download_error BadBody = []"

definition run_pipeline ::
    "'j PipelineEnv \<Rightarrow> string \<Rightarrow> string option \<Rightarrow> (string, jval) dict \<Rightarrow> string + Summary" where
  "run_pipeline env model_id version params =
     (if \<not> pe_vas_available env then Inl ''VAS client not available - cannot download bookmark''
      else case pe_download env of
        Inl e \<Rightarrow> Inl (download_error e)
      | Inr nbytes \<Rightarrow>
          if nbytes = 0 then Inl ''Downloaded bookmark video is empty (0 bytes)''
          else
            (let sampling_fps = number_of (sampling_fps_of params)
             in case extract_frames sampling_fps (pe_video env) of
                  None \<Rightarrow> Inl ''OpenCV cannot open video''
                | Some frames \<Rightarrow>
                    if sampling_fps = 0 then Inl ''float division by zero''
                    else if frames = [] then Inl ''No frames extracted from bookmark video''
                    else (case infer_frames model_id version (pe_ask env) 0 frames [] 0 of
                            Inl m \<Rightarrow> Inl m
                          | Inr (timeline, skipped) \<Rightarrow>
                              if timeline = []
                              then Inl (''All '' @ show_nat (length frames) @ '' frames failed inference'')
                              else Inr \<lparr>su_timeline = timeline,
                                su_threshold_events = detect_threshold_crossings timeline TANK_THRESHOLDS,
                                su_stats = compute_stats timeline skipped, su_model_id = model_id,
                                su_model_version = version, su_sampling_fps = sampling_fps,
                                su_parameters = params\<rparr>)))"

section \<open>Rows and workers\<close>

datatype analysis_state = ANALYSIS_PENDING | ANALYSIS_RUNNING | ANALYSIS_COMPLETED | ANALYSIS_FAILED

record BookmarkRow =
  br_vas_bookmark_id :: string
  br_model_id :: string
  br_model_version :: "string option"
  br_parameters :: "(string, jval) dict option"
  br_state :: analysis_state
  br_summary :: "Summary option"
  br_error_message :: "string option"
  br_created_at :: real
  br_started_at :: "real option"
  br_completed_at :: "real option"

text \<open>
  The table, the background tasks that wait to be started, and the workers under way with what they captured of
  their row.
\<close>

record Worker =
  wk_id :: uuid
  wk_model_id :: string
  wk_model_version :: "string option"
  wk_parameters :: "(string, jval) dict"

record Analyses =
  an_rows :: "(uuid, BookmarkRow) dict"
  an_scheduled :: "uuid list"
  an_workers :: "Worker list"

definition no_analyses :: Analyses where
  "no_analyses = \<lparr>an_rows = [], an_scheduled = [], an_workers = []\<rparr>"

definition new_row :: "real \<Rightarrow> SubmitRequest \<Rightarrow> BookmarkRow" where
  "new_row now q = \<lparr>br_vas_bookmark_id = sr_vas_bookmark_id q, br_model_id = sr_model_id q,
     br_model_version = sr_model_version q, br_parameters = sr_parameters q, br_state = ANALYSIS_PENDING,
     br_summary = None, br_error_message = None, br_created_at = now, br_started_at = None, br_completed_at = None\<rparr>"

definition submit :: "real \<Rightarrow> uuid \<Rightarrow> SubmitRequest \<Rightarrow> Analyses \<Rightarrow> Analyses" where
  "submit now new_id q a = a\<lparr>an_rows := dput new_id (new_row now q) (an_rows a)\<rparr>"

text \<open>The route: 400 for an unknown model, 503 when the runtime fails as the client says, 500 for other exceptions.\<close>

definition submit_analysis ::
    "real \<Rightarrow> real \<Rightarrow> uuid \<Rightarrow> catalog option reply \<Rightarrow> SubmitRequest \<Rightarrow> ModelCache \<times> Analyses
       \<Rightarrow> (nat + BookmarkRow) \<times> ModelCache \<times> Analyses" where
  "submit_analysis clock now new_id r q s =
     (case assert_model_available clock r (sr_model_id q) (fst s) of
        (NotAvailable, _, c) \<Rightarrow> (Inl 400, c, snd s)
      | (CheckFailed e, _, c) \<Rightarrow> (Inl (if is_runtime_error e then 503 else 500), c, snd s)
      | (Available _, _, c) \<Rightarrow>
          (let a = submit now new_id q (snd s)
           in (Inr (new_row now q), c, a\<lparr>an_scheduled := an_scheduled a @ [new_id]\<rparr>)))"

text \<open>The first session of \<open>run_analysis\<close>.\<close>

definition begin_analysis :: "real \<Rightarrow> uuid \<Rightarrow> Analyses \<Rightarrow> Analyses" where
  "begin_analysis now i a =
     (let a1 = a\<lparr>an_scheduled := remove1 i (an_scheduled a)\<rparr>
      in case dget (an_rows a) i of
           None \<Rightarrow> a1
         | Some row \<Rightarrow>
             if br_state row \<noteq> ANALYSIS_PENDING then a1
             else a1\<lparr>an_rows := dput i (row\<lparr>br_state := ANALYSIS_RUNNING, br_started_at := Some now\<rparr>) (an_rows a),
                  an_workers := an_workers a @ [\<lparr>wk_id = i, wk_model_id = br_model_id row,
                    wk_model_version = br_model_version row,
                    wk_parameters = (case br_parameters row of None \<Rightarrow> [] | Some p \<Rightarrow> p)\<rparr>]\<rparr>)"

definition finalize_completed :: "real \<Rightarrow> uuid \<Rightarrow> Summary \<Rightarrow> (uuid, BookmarkRow) dict \<Rightarrow> (uuid, BookmarkRow) dict" where
  "finalize_completed now i summary rows =
     (case dget rows i of None \<Rightarrow> rows
      | Some row \<Rightarrow> dput i (row\<lparr>br_state := ANALYSIS_COMPLETED, br_completed_at := Some now, br_summary := Some summary\<rparr>) rows)"

definition finalize_failed :: "real \<Rightarrow> uuid \<Rightarrow> string \<Rightarrow> (uuid, BookmarkRow) dict \<Rightarrow> (uuid, BookmarkRow) dict" where
  "finalize_failed now i message rows =
     (case dget rows i of None \<Rightarrow> rows
      | Some row \<Rightarrow> dput i (row\<lparr>br_state := ANALYSIS_FAILED, br_completed_at := Some now,
            br_error_message := Some (take 2000 message)\<rparr>) rows)"

text \<open>The pipeline of a worker and the session that stores its outcome.\<close>

definition finish_analysis :: "real \<Rightarrow> 'j PipelineEnv \<Rightarrow> Worker \<Rightarrow> Analyses \<Rightarrow> Analyses" where
  "finish_analysis now env w a =
     a\<lparr>an_workers := remove1 w (an_workers a),
       an_rows := (case run_pipeline env (wk_model_id w) (wk_model_version w) (wk_parameters w) of
          Inl m \<Rightarrow> finalize_failed now (wk_id w) m (an_rows a)
        | Inr s \<Rightarrow> finalize_completed now (wk_id w) s (an_rows a))\<rparr>"

section \<open>Reading\<close>

definition get_analysis :: "uuid \<Rightarrow> Analyses \<Rightarrow> nat + BookmarkRow" where
  "get_analysis i a = (case dget (an_rows a) i of None \<Rightarrow> Inl 404 | Some row \<Rightarrow> Inr row)"

definition list_for_bookmark :: "BookmarkRow ordering \<Rightarrow> string \<Rightarrow> Analyses \<Rightarrow> BookmarkRow list" where
  "list_for_bookmark order i a = order br_created_at (filter (\<lambda>r. br_vas_bookmark_id r = i) (dvals (an_rows a)))"

definition list_recent :: "BookmarkRow ordering \<Rightarrow> nat \<Rightarrow> Analyses \<Rightarrow> BookmarkRow list" where
  "list_recent order n a = take n (order br_created_at (dvals (an_rows a)))"

section \<open>Byte ranges\<close>

text \<open>\<open>s.startswith(p)\<close> and what follows it.\<close>

fun after_prefix :: "string \<Rightarrow> string \<Rightarrow> string option" where
  "after_prefix [] s = Some s"
| "after_prefix (x # p) s = (case s of [] \<Rightarrow> None | y # t \<Rightarrow> if x = y then after_prefix p t else None)"

text \<open>The numbers of a range; \<open>None\<close> is an early return or the \<open>ValueError\<close>.\<close>

definition range_bounds :: "string \<Rightarrow> string \<Rightarrow> int \<Rightarrow> (int \<times> int) option" where
  "range_bounds start_str end_str nlen =
     (if start_str = [] then
        if end_str = [] then None
        else (case py_int end_str of None \<Rightarrow> None
              | Some n \<Rightarrow> if n \<le> 0 then None else Some (max 0 (nlen - n), nlen - 1))
      else (case py_int start_str of None \<Rightarrow> None
            | Some a \<Rightarrow> if end_str = [] then Some (a, nlen - 1)
                        else (case py_int end_str of None \<Rightarrow> None | Some b \<Rightarrow> Some (a, b))))"

definition parse_range :: "string option \<Rightarrow> int \<Rightarrow> (int \<times> int) option" where
  "parse_range header nlen =
     (if \<not> truthy_str header then None
      else case after_prefix ''bytes='' (the header) of
        None \<Rightarrow> None
      | Some spec \<Rightarrow>
          if CHR '','' \<in> set spec then None
          else (case py_split1 CHR ''-'' spec of
                  (_, None) \<Rightarrow> None
                | (start_str, Some end_str) \<Rightarrow>
                    (case range_bounds start_str end_str nlen of
                       None \<Rightarrow> None
                     | Some (a, b) \<Rightarrow>
                         if a < 0 \<or> nlen \<le> a then None
                         else if min b (nlen - 1) < a then None else Some (a, min b (nlen - 1)))))"

record VideoResponse =
  vr_status :: nat
  vr_content :: "nat list"
  vr_media_type :: string
  vr_content_range :: "(int \<times> int \<times> int) option"
  vr_content_length :: int

text \<open>
  The answer of the route when there is a client of VAS: 404 and 502 for its exceptions, and whatever else the client
  raises leaves the route.
\<close>

definition video_response :: "string option \<Rightarrow> nat list \<times> string \<Rightarrow> VideoResponse" where
  "video_response header v =
     (let nlen = int (length (fst v))
      in case parse_range header nlen of
           None \<Rightarrow> \<lparr>vr_status = 200, vr_content = fst v, vr_media_type = snd v, vr_content_range = None,
             vr_content_length = nlen\<rparr>
         | Some (a, b) \<Rightarrow> \<lparr>vr_status = 206, vr_content = take (nat (b + 1 - a)) (drop (nat a) (fst v)),
             vr_media_type = snd v, vr_content_range = Some (a, b, nlen), vr_content_length = b - a + 1\<rparr>)"

datatype route_error = Http nat | Uncaught client_error

definition vas_route_error :: "client_error \<Rightarrow> route_error" where
  "vas_route_error e =
     (case e of VASRaises x \<Rightarrow> Http (if vx_class x = VC_NotFound then 404 else 502) | _ \<Rightarrow> Uncaught e)"

definition get_bookmark_video ::
    "Wire \<Rightarrow> string \<Rightarrow> string option \<Rightarrow> VASClient option \<Rightarrow> (route_error + VideoResponse) \<times> VASClient option" where
  "get_bookmark_video w bookmark_id header vas =
     (case vas of None \<Rightarrow> (Inl (Http 503), None)
      | Some s \<Rightarrow>
          (case download_bookmark_video_bytes w bookmark_id s of
             (Inl e, s') \<Rightarrow> (Inl (vas_route_error e), Some s')
           | (Inr v, s') \<Rightarrow> (Inr (video_response header v), Some s')))"

definition get_bookmark_preview_frame ::
    "Wire \<Rightarrow> string \<Rightarrow> VASClient option \<Rightarrow> (route_error + nat list) \<times> VASClient option" where
  "get_bookmark_preview_frame w bookmark_id vas =
     (case vas of None \<Rightarrow> (Inl (Http 503), None)
      | Some s \<Rightarrow>
          (case download_bookmark_thumbnail w bookmark_id s of
             (Inl e, s') \<Rightarrow> (Inl (vas_route_error e), Some s')
           | (Inr v, s') \<Rightarrow> (Inr v, Some s')))"

section \<open>Lemmas: thresholds\<close>

lemma first_at_Nil [simp]: "first_at t [] = None"
  by (simp add: first_at_def)

lemma first_at_snoc:
  "first_at t (line @ [s]) = (case first_at t line of Some u \<Rightarrow> Some u
     | None \<Rightarrow> if sm_fill_percentage s \<ge> real t then Some (sm_timestamp_seconds s) else None)"
  by (induction line) (auto simp: first_at_def)

lemma cross_sample_sets:
  assumes "set (map snd ev) = set cr" "distinct (map snd ev)" "cross_sample s ts (cr, ev) = (cr', ev')"
  shows "set cr' = set cr \<union> {t \<in> set ts. sm_fill_percentage s \<ge> real t}"
    "set ev' = set ev \<union> {(sm_timestamp_seconds s, t) |t. t \<in> set ts - set cr \<and> sm_fill_percentage s \<ge> real t}"
    "set (map snd ev') = set cr'" "distinct (map snd ev')"
proof -
  have "set cr' = set cr \<union> {t \<in> set ts. sm_fill_percentage s \<ge> real t}
    \<and> set ev' = set ev \<union> {(sm_timestamp_seconds s, t) |t. t \<in> set ts - set cr \<and> sm_fill_percentage s \<ge> real t}
    \<and> set (map snd ev') = set cr' \<and> distinct (map snd ev')"
    using assms
  proof (induction ts arbitrary: cr ev)
    case Nil
    then show ?case by auto
  next
    case (Cons t ts)
    show ?case
    proof (cases "t \<notin> set cr \<and> sm_fill_percentage s \<ge> real t")
      case True
      have "cross_sample s ts (t # cr, ev @ [(sm_timestamp_seconds s, t)]) = (cr', ev')"
        using Cons.prems(3) True by simp
      moreover have "set (map snd (ev @ [(sm_timestamp_seconds s, t)])) = set (t # cr)"
        "distinct (map snd (ev @ [(sm_timestamp_seconds s, t)]))"
        using Cons.prems(1,2) True by auto
      ultimately show ?thesis using Cons.IH [of "ev @ [(sm_timestamp_seconds s, t)]" "t # cr"] True by auto
    next
      case False
      have "cross_sample s ts (cr, ev) = (cr', ev')" using Cons.prems(3) False by auto
      then show ?thesis using Cons.IH [OF Cons.prems(1,2)] False by auto
    qed
  qed
  then show "set cr' = set cr \<union> {t \<in> set ts. sm_fill_percentage s \<ge> real t}"
    "set ev' = set ev \<union> {(sm_timestamp_seconds s, t) |t. t \<in> set ts - set cr \<and> sm_fill_percentage s \<ge> real t}"
    "set (map snd ev') = set cr'" "distinct (map snd ev')" by blast+
qed

lemma crossings_fold:
  "fold (\<lambda>s. cross_sample s ts) line ([], []) = (cr, ev) \<Longrightarrow>
     set cr = {t \<in> set ts. first_at t line \<noteq> None}
     \<and> set ev = {(u, t). t \<in> set ts \<and> first_at t line = Some u}
     \<and> set (map snd ev) = set cr \<and> distinct (map snd ev)"
proof (induction line arbitrary: cr ev rule: rev_induct)
  case Nil
  then show ?case by auto
next
  case (snoc s line)
  obtain cr0 ev0 where f: "fold (\<lambda>s. cross_sample s ts) line ([], []) = (cr0, ev0)" by fastforce
  then have c: "cross_sample s ts (cr0, ev0) = (cr, ev)" using snoc.prems by simp
  note IH = snoc.IH [OF f]
  note n = cross_sample_sets [OF _ _ c]
  have "set (map snd ev0) = set cr0" "distinct (map snd ev0)" using IH by blast+
  note n = n [OF this]
  have "set cr = {t \<in> set ts. first_at t (line @ [s]) \<noteq> None}"
    using IH n(1) by (auto simp: first_at_snoc split: option.splits)
  moreover have "set ev = {(u, t). t \<in> set ts \<and> first_at t (line @ [s]) = Some u}"
    using IH n(2) by (auto simp: first_at_snoc split: option.splits if_splits)
  ultimately show ?case using n(3,4) by blast
qed

lemma crossings_set:
  "set (detect_threshold_crossings line ts) = {(u, t). t \<in> set ts \<and> first_at t line = Some u}
   \<and> distinct (map snd (detect_threshold_crossings line ts))"
proof -
  obtain cr ev where f: "fold (\<lambda>s. cross_sample s ts) line ([], []) = (cr, ev)" by fastforce
  from crossings_fold [OF f] show ?thesis by (simp add: detect_threshold_crossings_def f)
qed

section \<open>Lemmas: sampling\<close>

lemma ceiling_step:
  assumes "1 \<le> (j :: real)" "k < k'"
  shows "nat \<lceil>real k * j\<rceil> < nat \<lceil>real k' * j\<rceil>"
proof -
  have "real k + 1 \<le> real k'" using assms(2) by linarith
  then have "(real k + 1) * j \<le> real k' * j" using assms(1) by (intro mult_right_mono) auto
  then have "real k * j + 1 \<le> real k' * j" using assms(1) by (simp add: algebra_simps)
  then have "\<lceil>real k * j + 1\<rceil> \<le> \<lceil>real k' * j\<rceil>" by (rule ceiling_mono)
  moreover have "0 \<le> real k * j" using assms(1) by simp
  then have "0 \<le> \<lceil>real k * j\<rceil>" by linarith
  ultimately show ?thesis by linarith
qed

definition sampling_point :: "real \<Rightarrow> nat \<Rightarrow> nat" where
  "sampling_point i k = nat \<lceil>real k * max 1 i\<rceil>"

lemma sampling_point_mono: "k < k' \<Longrightarrow> sampling_point i k < sampling_point i k'"
  unfolding sampling_point_def by (rule ceiling_step) simp_all

lemma sampling_point_unique:
  assumes "m \<le> sampling_point i k" "k = 0 \<or> sampling_point i (k - 1) < m"
  shows "(\<exists>k'. m = sampling_point i k') \<longleftrightarrow> m = sampling_point i k"
proof
  assume "\<exists>k'. m = sampling_point i k'"
  then obtain k' where k': "m = sampling_point i k'" ..
  have "\<not> k < k'" using assms(1) k' sampling_point_mono [of k k' i] by auto
  moreover have "\<not> k' < k"
  proof
    assume "k' < k"
    then have "k' = k - 1 \<or> k' < k - 1" "k \<noteq> 0" by auto
    then show False using assms(2) k' sampling_point_mono [of k' "k - 1" i] by auto
  qed
  ultimately show "m = sampling_point i k" using k' by (cases k k' rule: linorder_cases) auto
qed blast

lemma sample_frames_from:
  assumes "0 < i" "m \<le> sampling_point i k" "k = 0 \<or> sampling_point i (k - 1) < m" "i < 1 \<Longrightarrow> k = m"
  shows "sample_frames sf i m (real k * i) fs =
     map (\<lambda>n. (real (m + n) / sf, the (fs ! n)))
       (filter (\<lambda>n. fs ! n \<noteq> None \<and> (\<exists>k. m + n = sampling_point i k)) [0..<length fs])"
  using assms(2-)
proof (induction fs arbitrary: m k)
  case Nil
  then show ?case by simp
next
  case (Cons f fs)
  have due: "real k * i \<le> real m \<longleftrightarrow> m = sampling_point i k"
  proof (cases "i < 1")
    case True
    then show ?thesis using Cons.prems(3) assms(1) by (auto simp: sampling_point_def mult_left_le)
  next
    case False
    then have "sampling_point i k = nat \<lceil>real k * i\<rceil>" by (simp add: sampling_point_def max_def)
    moreover have "real k * i \<le> real m \<longleftrightarrow> nat \<lceil>real k * i\<rceil> \<le> m" by linarith
    ultimately show ?thesis using Cons.prems(1) by linarith
  qed
  have hit: "(\<exists>k'. m = sampling_point i k') \<longleftrightarrow> m = sampling_point i k"
    using sampling_point_unique [OF Cons.prems(1,2)] .
  have rest: "[0..<length (f # fs)] = 0 # map Suc [0..<length fs]" by (simp add: map_Suc_upt upt_conv_Cons del: upt_Suc)
  define tail where "tail = map (\<lambda>n. (real (Suc m + n) / sf, the (fs ! n)))
       (filter (\<lambda>n. fs ! n \<noteq> None \<and> (\<exists>k. Suc m + n = sampling_point i k)) [0..<length fs])"
  have goal: "map (\<lambda>n. (real (m + n) / sf, the ((f # fs) ! n)))
       (filter (\<lambda>n. (f # fs) ! n \<noteq> None \<and> (\<exists>k. m + n = sampling_point i k)) [0..<length (f # fs)])
     = (if f \<noteq> None \<and> m = sampling_point i k then [(real m / sf, the f)] else []) @ tail"
    unfolding rest tail_def by (simp add: hit filter_map o_def)
  show ?case unfolding goal
  proof (cases "m = sampling_point i k")
    case True
    have 1: "Suc m \<le> sampling_point i (Suc k)" using sampling_point_mono [of k "Suc k" i] True by simp
    have 2: "sampling_point i (Suc k - 1) < Suc m" using True by simp
    have 3: "i < 1 \<Longrightarrow> Suc k = Suc m" using Cons.prems(3) by simp
    have "sample_frames sf i (Suc m) (real (Suc k) * i) fs = tail"
      unfolding tail_def by (rule Cons.IH [OF 1 disjI2 [OF 2] 3])
    moreover have "real (Suc k) * i = real k * i + i" by (simp add: algebra_simps)
    ultimately have "sample_frames sf i (m + 1) (real k * i + i) fs = tail" by simp
    then show "sample_frames sf i m (real k * i) (f # fs)
        = (if f \<noteq> None \<and> m = sampling_point i k then [(real m / sf, the f)] else []) @ tail"
      using due True by (cases f) (simp_all del: of_nat_Suc)
  next
    case False
    have 0: "\<not> i < 1" using False Cons.prems(3) by (auto simp: sampling_point_def)
    have 1: "Suc m \<le> sampling_point i k" using Cons.prems(1) False by simp
    have 2: "k = 0 \<or> sampling_point i (k - 1) < Suc m" using Cons.prems(2) by linarith
    have "sample_frames sf i (Suc m) (real k * i) fs = tail"
      unfolding tail_def by (rule Cons.IH [OF 1 2]) (use 0 in simp)
    then show "sample_frames sf i m (real k * i) (f # fs)
        = (if f \<noteq> None \<and> m = sampling_point i k then [(real m / sf, the f)] else []) @ tail"
      using due False by simp
  qed
qed

section \<open>Lemmas: ranges\<close>

lemma digit_plain:
  assumes "is_digit c"
  shows "\<not> is_space c" "c \<noteq> CHR ''_''" "c \<noteq> CHR ''-''" "c \<noteq> CHR ''+''" "c \<noteq> CHR '',''"
  using assms by (auto simp: is_digit_def is_space_def)

lemma py_strip_plain:
  assumes "s \<noteq> []" "\<And>c. c \<in> set s \<Longrightarrow> \<not> is_space c"
  shows "py_strip s = s"
proof -
  have "dropWhile is_space s = s" "dropWhile is_space (rev s) = rev s"
    using assms by (auto simp: dropWhile_eq_self_iff hd_rev)
  then show ?thesis by (simp add: py_strip_def)
qed

lemma py_int_show_nat: "py_int (show_nat n) = Some (int n)"
proof -
  have d: "\<And>c. c \<in> set (show_nat n) \<Longrightarrow> is_digit c" by (rule show_nat_digits)
  have "py_strip (show_nat n) = show_nat n" using d digit_plain(1) by (intro py_strip_plain) auto
  moreover have "hd (show_nat n) \<noteq> CHR ''-''" "hd (show_nat n) \<noteq> CHR ''+''"
    using d [OF hd_in_set [OF show_nat_nonempty]] digit_plain by blast+
  moreover have "py_split CHR ''_'' (show_nat n) = [show_nat n]"
    using d digit_plain(2) by (intro py_split_absent) blast
  ultimately show ?thesis using d by (simp add: py_int_def Let_def list_all_iff)
qed

lemma parse_range_first_last:
  "parse_range (Some (''bytes='' @ show_nat a @ ''-'' @ show_nat (a + d))) n =
     (if int a < n then Some (int a, min (int (a + d)) (n - 1)) else None)"
proof -
  have "CHR ''-'' \<notin> set (show_nat a)" "CHR '','' \<notin> set (show_nat k)" for k
    using show_nat_digits digit_plain by blast+
  then show ?thesis
    by (auto simp: parse_range_def truthy_str_def py_split1_append range_bounds_def py_int_show_nat)
qed

lemma parse_range_suffix:
  "parse_range (Some (''bytes=-'' @ show_nat (Suc k))) n =
     (if 0 < n then Some (max 0 (n - int (Suc k)), n - 1) else None)"
proof -
  have "CHR '','' \<notin> set (show_nat (Suc k))"
    using show_nat_digits digit_plain by blast
  then show ?thesis
    by (auto simp: parse_range_def truthy_str_def range_bounds_def py_int_show_nat max_def)
qed

lemma parse_range_bounds: "parse_range h n = Some (a, b) \<Longrightarrow> 0 \<le> a \<and> a \<le> b \<and> b < n"
  by (auto simp: parse_range_def split: if_splits option.splits prod.splits)

lemma slice_eq:
  assumes "0 \<le> a" "a \<le> b" "b < int (length xs)"
  shows "take (nat (b + 1 - a)) (drop (nat a) xs) = map (\<lambda>i. xs ! nat i) [a..b]"
proof (rule nth_equalityI)
  show "length (take (nat (b + 1 - a)) (drop (nat a) xs)) = length (map (\<lambda>i. xs ! nat i) [a..b])"
    using assms by (simp add: nat_diff_distrib min_def) linarith
  show "take (nat (b + 1 - a)) (drop (nat a) xs) ! k = map (\<lambda>i. xs ! nat i) [a..b] ! k"
    if "k < length (take (nat (b + 1 - a)) (drop (nat a) xs))" for k
  proof -
    have k: "int k \<le> b - a" "[a..b] ! k = a + int k" using that assms by (auto intro: nth_upto)
    have "nat (a + int k) = nat a + k" using assms(1) by (simp add: nat_add_distrib)
    moreover have "k < length [a..b]" using that assms k(1) by simp
    ultimately show ?thesis using that assms k by simp
  qed
qed

section \<open>Lemmas: the life of a row\<close>

text \<open>
  The steps of the service: a submission under a fresh identifier, the start of a scheduled task, the end of a
  worker, and a restart of the process, which forgets tasks and workers.
\<close>

inductive banstep :: "Analyses \<Rightarrow> Analyses \<Rightarrow> bool" where
  submitted: "dget (an_rows a) i = None \<Longrightarrow> i \<notin> set (an_scheduled a) \<Longrightarrow>
     snd (snd (submit_analysis clock now i r q (c, a))) = b \<Longrightarrow> banstep a b"
| started: "i \<in> set (an_scheduled a) \<Longrightarrow> banstep a (begin_analysis now i a)"
| finished: "w \<in> set (an_workers a) \<Longrightarrow>
     banstep a (finish_analysis now (env :: nat PipelineEnv) w a)"
| restarted: "banstep a (a\<lparr>an_scheduled := [], an_workers := []\<rparr>)"

inductive_cases banstepE: "banstep a b"

definition row_ok :: "BookmarkRow \<Rightarrow> bool" where
  "row_ok r \<longleftrightarrow>
     (br_started_at r = None \<longleftrightarrow> br_state r = ANALYSIS_PENDING)
     \<and> (br_completed_at r = None \<longleftrightarrow> br_state r \<in> {ANALYSIS_PENDING, ANALYSIS_RUNNING})
     \<and> (br_summary r \<noteq> None \<longleftrightarrow> br_state r = ANALYSIS_COMPLETED)
     \<and> (br_error_message r \<noteq> None \<longleftrightarrow> br_state r = ANALYSIS_FAILED)
     \<and> (\<forall>m. br_error_message r = Some m \<longrightarrow> length m \<le> 2000)"

definition in_state :: "analysis_state \<Rightarrow> Analyses \<Rightarrow> uuid \<Rightarrow> bool" where
  "in_state st a i \<longleftrightarrow> (\<exists>r. dget (an_rows a) i = Some r \<and> br_state r = st)"

definition analyses_ok :: "Analyses \<Rightarrow> bool" where
  "analyses_ok a \<longleftrightarrow>
     (\<forall>i r. dget (an_rows a) i = Some r \<longrightarrow> row_ok r)
     \<and> (\<forall>i\<in>set (an_scheduled a). in_state ANALYSIS_PENDING a i) \<and> distinct (an_scheduled a)
     \<and> (\<forall>w\<in>set (an_workers a). in_state ANALYSIS_RUNNING a (wk_id w)) \<and> distinct (map wk_id (an_workers a))"

text \<open>What one step may do to a row.\<close>

definition row_moves :: "BookmarkRow \<Rightarrow> BookmarkRow \<Rightarrow> bool" where
  "row_moves r r' \<longleftrightarrow>
     r' = r
     \<or> br_state r = ANALYSIS_PENDING \<and> br_state r' = ANALYSIS_RUNNING
     \<or> br_state r = ANALYSIS_RUNNING \<and> br_state r' \<in> {ANALYSIS_COMPLETED, ANALYSIS_FAILED}"

definition moves :: "Analyses \<Rightarrow> Analyses \<Rightarrow> bool" where
  "moves a b \<longleftrightarrow> (\<forall>i r. dget (an_rows a) i = Some r \<longrightarrow> (\<exists>r'. dget (an_rows b) i = Some r' \<and> row_moves r r'))"

lemma submit_cases:
  assumes "snd (snd (submit_analysis clock now i r q (c, a))) = b"
  obtains "b = a" | "b = a\<lparr>an_rows := dput i (new_row now q) (an_rows a), an_scheduled := an_scheduled a @ [i]\<rparr>"
  using assms by (auto simp: submit_analysis_def submit_def Let_def split: prod.splits availability.splits)

lemma submit_ok:
  assumes "snd (snd (submit_analysis clock now i r q (c, a))) = b" "dget (an_rows a) i = None" "analyses_ok a"
    "i \<notin> set (an_scheduled a)"
  shows "analyses_ok b \<and> moves a b"
  using assms(1)
proof (rule submit_cases)
  assume "b = a"
  then show ?thesis using assms(3) by (simp add: moves_def row_moves_def)
next
  assume b: "b = a\<lparr>an_rows := dput i (new_row now q) (an_rows a), an_scheduled := an_scheduled a @ [i]\<rparr>"
  have w: "wk_id w \<noteq> i" if "w \<in> set (an_workers a)" for w
    using that assms(2,3) by (auto simp: analyses_ok_def in_state_def)
  show ?thesis using assms(2-4) w
    by (auto simp: b analyses_ok_def in_state_def row_ok_def new_row_def moves_def row_moves_def)
qed

lemma begin_ok:
  assumes "i \<in> set (an_scheduled a)" "analyses_ok a"
  shows "analyses_ok (begin_analysis now i a) \<and> moves a (begin_analysis now i a)"
proof -
  obtain row where row: "dget (an_rows a) i = Some row" "br_state row = ANALYSIS_PENDING" "row_ok row"
    using assms by (auto simp: analyses_ok_def in_state_def)
  have w: "wk_id w \<noteq> i" if "w \<in> set (an_workers a)" for w
    using that assms(2) row by (auto simp: analyses_ok_def in_state_def)
  have "in_state ANALYSIS_PENDING (begin_analysis now i a) j" if "j \<in> set (an_scheduled a)" "j \<noteq> i" for j
    using that assms(2) row by (auto simp: analyses_ok_def in_state_def begin_analysis_def Let_def)
  then have s: "\<forall>j\<in>set (remove1 i (an_scheduled a)). in_state ANALYSIS_PENDING (begin_analysis now i a) j"
    using assms(2) by (auto simp: analyses_ok_def)
  have r: "in_state ANALYSIS_RUNNING (begin_analysis now i a) (wk_id v)" if "v \<in> set (an_workers a)" for v
    using that assms(2) row w [OF that] by (auto simp: analyses_ok_def in_state_def begin_analysis_def Let_def)
  have "moves a (begin_analysis now i a)"
    using row by (auto simp: moves_def row_moves_def begin_analysis_def Let_def)
  moreover have "\<forall>j r. dget (an_rows (begin_analysis now i a)) j = Some r \<longrightarrow> row_ok r"
    using assms(2) row by (auto simp: analyses_ok_def begin_analysis_def row_ok_def Let_def split: if_splits)
  moreover have "\<forall>v\<in>set (an_workers (begin_analysis now i a)). in_state ANALYSIS_RUNNING (begin_analysis now i a) (wk_id v)"
    using r row by (auto simp: begin_analysis_def in_state_def Let_def)
  moreover have "distinct (map wk_id (an_workers (begin_analysis now i a)))"
    using assms(2) row w by (auto simp: analyses_ok_def begin_analysis_def Let_def)
  moreover have "an_scheduled (begin_analysis now i a) = remove1 i (an_scheduled a)"
    using row by (simp add: begin_analysis_def Let_def)
  ultimately show ?thesis using s assms(2) by (auto simp: analyses_ok_def)
qed

lemma finish_ok:
  assumes "w \<in> set (an_workers a)" "analyses_ok a"
  shows "analyses_ok (finish_analysis now env w a) \<and> moves a (finish_analysis now env w a)"
proof -
  obtain row where row: "dget (an_rows a) (wk_id w) = Some row" "br_state row = ANALYSIS_RUNNING" "row_ok row"
    using assms by (auto simp: analyses_ok_def in_state_def)
  define row' where "row' = (case run_pipeline env (wk_model_id w) (wk_model_version w) (wk_parameters w) of
      Inl m \<Rightarrow> row\<lparr>br_state := ANALYSIS_FAILED, br_completed_at := Some now, br_error_message := Some (take 2000 m)\<rparr>
    | Inr u \<Rightarrow> row\<lparr>br_state := ANALYSIS_COMPLETED, br_completed_at := Some now, br_summary := Some u\<rparr>)"
  have row': "an_rows (finish_analysis now env w a) = dput (wk_id w) row' (an_rows a)"
    "br_state row' \<in> {ANALYSIS_COMPLETED, ANALYSIS_FAILED}" "row_ok row'"
    using row by (auto simp: finish_analysis_def finalize_completed_def finalize_failed_def row_ok_def row'_def split: sum.splits)
  have d: "distinct (map wk_id (an_workers a))" using assms(2) by (simp add: analyses_ok_def)
  then have other: "wk_id v \<noteq> wk_id w" if "v \<in> set (remove1 w (an_workers a))" for v
    using that assms(1) by (auto simp: distinct_map inj_on_def)
  have sched: "i \<noteq> wk_id w" if "i \<in> set (an_scheduled a)" for i
    using that assms(2) row by (auto simp: analyses_ok_def in_state_def)
  have work: "an_workers (finish_analysis now env w a) = remove1 w (an_workers a)"
    "an_scheduled (finish_analysis now env w a) = an_scheduled a" by (simp_all add: finish_analysis_def)
  have "distinct (map wk_id (remove1 w (an_workers a)))"
    using d by (auto simp: distinct_map intro: inj_on_subset dest: set_remove1_subset [THEN subsetD])
  moreover have "in_state ANALYSIS_RUNNING (finish_analysis now env w a) (wk_id v)" if "v \<in> set (remove1 w (an_workers a))" for v
    using that other [OF that] assms(2) set_remove1_subset [of w "an_workers a"]
    by (auto simp: analyses_ok_def in_state_def row')
  moreover have "in_state ANALYSIS_PENDING (finish_analysis now env w a) i" if "i \<in> set (an_scheduled a)" for i
    using that sched [OF that] assms(2) by (auto simp: analyses_ok_def in_state_def row')
  moreover have "moves a (finish_analysis now env w a)"
    using row row' by (auto simp: moves_def row_moves_def)
  moreover have "\<forall>j r. dget (an_rows (finish_analysis now env w a)) j = Some r \<longrightarrow> row_ok r"
    using assms(2) row' by (auto simp: analyses_ok_def)
  ultimately show ?thesis using assms(2) by (simp add: analyses_ok_def work)
qed

lemma banstep_ok: "banstep a b \<Longrightarrow> analyses_ok a \<Longrightarrow> analyses_ok b \<and> moves a b"
proof (elim banstepE)
  show "analyses_ok b \<and> moves a b" if "analyses_ok a" "b = a\<lparr>an_scheduled := [], an_workers := []\<rparr>"
    using that by (simp add: analyses_ok_def moves_def row_moves_def)
qed (use submit_ok begin_ok finish_ok in blast)+

interpretation analyses: invariant_system "\<lambda>a. a = no_analyses" banstep analyses_ok
  by unfold_locales (auto simp: analyses_ok_def no_analyses_def dest: banstep_ok)

text \<open>Only a scheduled task or a worker moves a row.\<close>

lemma forgotten_row_stays:
  assumes "banstep a b" "analyses_ok a" "dget (an_rows a) i = Some r" "i \<notin> set (an_scheduled a)"
    "i \<notin> wk_id ` set (an_workers a)"
  shows "dget (an_rows b) i = Some r \<and> i \<notin> set (an_scheduled b) \<and> i \<notin> wk_id ` set (an_workers b)"
  using assms(1)
proof (elim banstepE)
  fix clock now j rep q c
  assume j: "dget (an_rows a) j = None" and b: "snd (snd (submit_analysis clock now j rep q (c, a))) = b"
  from b show ?thesis by (rule submit_cases) (use j assms(3-) in auto)
next
  fix j now
  assume "b = begin_analysis now j a" "j \<in> set (an_scheduled a)"
  then show ?thesis using assms(3-)
    by (auto simp: begin_analysis_def Let_def dest: set_remove1_subset [THEN subsetD] split: option.splits)
next
  fix w now and env :: "nat PipelineEnv"
  assume "w \<in> set (an_workers a)" "b = finish_analysis now env w a"
  then show ?thesis using assms(3-) set_remove1_subset [of w "an_workers a"]
    by (auto simp: finish_analysis_def finalize_completed_def finalize_failed_def split: sum.splits option.splits)
qed (use assms(3-) in auto)

section \<open>Lemmas: counting frames\<close>

lemma infer_frames_count:
  "infer_frames model_id version ask k fs timeline skipped = Inr (timeline', skipped') \<Longrightarrow>
     length timeline' + skipped' = length timeline + skipped + length fs
     \<and> (\<exists>ts. map sm_timestamp_seconds timeline' = map sm_timestamp_seconds timeline @ ts \<and> subseq ts (map fst fs))"
proof (induction fs arbitrary: k timeline skipped)
  case Nil
  then show ?case by auto
next
  case (Cons f fs)
  obtain r where r: "submit_inference model_id version (ask k f) = Inr r"
    using Cons.prems by (auto split: sum.splits)
  consider (skip) "infer_frames model_id version ask (k + 1) fs timeline (skipped + 1) = Inr (timeline', skipped')"
    | (keep) fill where "infer_frames model_id version ask (k + 1) fs
        (timeline @ [\<lparr>sm_timestamp_seconds = fst f, sm_fill_percentage = fill\<rparr>]) skipped = Inr (timeline', skipped')"
    using Cons.prems r by (auto split: if_splits option.splits)
  then show ?case
  proof cases
    case skip
    from Cons.IH [OF this] show ?thesis by (auto intro: list_emb_Cons)
  next
    case keep
    from Cons.IH [OF this] obtain ts where
      "length timeline' + skipped' = length timeline + skipped + length (f # fs)"
      "map sm_timestamp_seconds timeline' = map sm_timestamp_seconds timeline @ fst f # ts" "subseq ts (map fst fs)"
      by auto
    then show ?thesis by (intro conjI exI [of _ "fst f # ts"]) auto
  qed
qed

lemma foldl_max:
  fixes x :: real
  shows "foldl max x ys \<in> set (x # ys) \<and> (\<forall>y\<in>set (x # ys). y \<le> foldl max x ys)"
proof (induction ys arbitrary: x)
  case Nil
  then show ?case by simp
next
  case (Cons y ys)
  from Cons.IH [of "max x y"] show ?case by (auto simp: max_def split: if_splits)
qed

lemma stats_correct:
  assumes "line \<noteq> []"
  shows "st_peak (compute_stats line n) \<in> set (map sm_fill_percentage line)
    \<and> (\<forall>f\<in>set (map sm_fill_percentage line). f \<le> st_peak (compute_stats line n))"
proof (cases line)
  case (Cons s r)
  show ?thesis
    using foldl_max [of "sm_fill_percentage s" "map sm_fill_percentage r"] by (simp add: compute_stats_def Cons)
qed (use assms in simp)

section \<open>Properties\<close>

text \<open>
  The frames sampled from a video, whatever its rate and the requested one: with the interval of source frames, at
  least one, the k-th sample is the first frame at or after k intervals. No frame is sampled twice, and a requested
  rate above the rate of the video gives every frame.
\<close>

theorem frames_sampled_evenly:
  assumes "0 < fps"
  shows "extract_frames fps (Some (reported, fs)) =
     (let source_fps = (if reported \<le> 0 then 30 else reported)
      in Some (map (\<lambda>n. (real n / source_fps, the (fs ! n)))
           (filter (\<lambda>n. fs ! n \<noteq> None \<and> (\<exists>k. n = nat \<lceil>real k * max 1 (source_fps / fps)\<rceil>)) [0..<length fs])))"
proof -
  define source_fps where "source_fps = (if reported \<le> 0 then 30 else reported)"
  have "0 < source_fps / fps" using assms by (simp add: source_fps_def)
  then show ?thesis
    using sample_frames_from [of "source_fps / fps" 0 0 source_fps fs]
    by (simp add: extract_frames_def Let_def sampling_point_def flip: source_fps_def)
qed

theorem frames_sampled_evenly_witness:
  "extract_frames 10 (Some (4, [Some ''a'', None])) =
     Some (map (\<lambda>n. (real n / 4, the ([Some ''a'', None] ! n)))
       (filter (\<lambda>n. [Some ''a'', None] ! n \<noteq> None \<and> (\<exists>k. n = nat \<lceil>real k * max 1 (4 / 10)\<rceil>)) [0..<2]))"
  using frames_sampled_evenly [of 10 4 "[Some ''a'', None]"] by (simp add: Let_def upt_rec)

text \<open>
  C27. The events of the thresholds and the times of the statistics agree: for every timeline there is exactly one event
  for each threshold some sample reaches, at the time of the first such sample, and the statistics name the same
  times. A first sample at or above a threshold counts, although the documentation of the events asks for a sample below the
  threshold before (\<open>first_sample_crosses\<close>).
\<close>

theorem crossings_agree_with_stats:
  "set (detect_threshold_crossings timeline ts) = {(u, t). t \<in> set ts \<and> first_at t timeline = Some u}
   \<and> distinct (map snd (detect_threshold_crossings timeline ts))
   \<and> (st_time_to_80 (compute_stats timeline n) = Some u \<longleftrightarrow> (u, 80) \<in> set (detect_threshold_crossings timeline TANK_THRESHOLDS))
   \<and> (st_time_to_90 (compute_stats timeline n) = Some u \<longleftrightarrow> (u, 90) \<in> set (detect_threshold_crossings timeline TANK_THRESHOLDS))"
  by (auto simp: crossings_set compute_stats_def TANK_THRESHOLDS_def)

text \<open>
  A run that succeeds accounts for every frame: analysed and skipped ones add up to the frames sampled, the times
  are those of the sampled frames in their order, at least one frame was analysed, and the peak is the largest value.
\<close>

theorem summary_accounts_for_frames:
  assumes "run_pipeline env model_id version params = Inr s"
  shows "\<exists>frames. extract_frames (number_of (sampling_fps_of params)) (pe_video env) = Some frames
     \<and> st_frames_analyzed (su_stats s) + st_frames_skipped (su_stats s) = length frames
     \<and> subseq (map sm_timestamp_seconds (su_timeline s)) (map fst frames) \<and> su_timeline s \<noteq> []
     \<and> st_peak (su_stats s) \<in> set (map sm_fill_percentage (su_timeline s))
     \<and> (\<forall>f\<in>set (map sm_fill_percentage (su_timeline s)). f \<le> st_peak (su_stats s))"
proof -
  obtain frames timeline skipped where f: "extract_frames (number_of (sampling_fps_of params)) (pe_video env) = Some frames"
    and i: "infer_frames model_id version (pe_ask env) 0 frames [] 0 = Inr (timeline, skipped)"
    and n: "timeline \<noteq> []" and s: "su_timeline s = timeline" "su_stats s = compute_stats timeline skipped"
    using assms by (auto simp: run_pipeline_def Let_def split: if_splits sum.splits option.splits prod.splits)
  have "length timeline + skipped = length frames \<and> subseq (map sm_timestamp_seconds timeline) (map fst frames)"
    using infer_frames_count [OF i] by auto
  moreover have "st_frames_analyzed (su_stats s) = length timeline" "st_frames_skipped (su_stats s) = skipped"
    by (simp_all add: s(2) compute_stats_def)
  ultimately show ?thesis using f n s stats_correct [OF n, of skipped] by simp
qed

definition demo_env :: "nat PipelineEnv" where
  "demo_env = \<lparr>pe_vas_available = True, pe_download = Inr 1, pe_video = Some (1, [Some 0, Some 1]),
     pe_ask = (\<lambda>k _. Reply 200 (Parsed \<lparr>ur_status = (if k = 0 then ''success'' else ''failed''),
        ur_result = Some [(''level_percent'', JInt 85)], ur_error = None\<rparr>))\<rparr>"

theorem summary_accounts_for_frames_witness:
  "\<exists>s. run_pipeline demo_env ''m'' None [] = Inr s
     \<and> st_frames_analyzed (su_stats s) + st_frames_skipped (su_stats s) = 2"
proof -
  obtain s where s: "run_pipeline demo_env ''m'' None [] = Inr s"
    by (simp add: run_pipeline_def demo_env_def extract_frames_def sampling_fps_of_def dget_or_def number_of_def
        submit_inference_def success_status_def extract_fill_percentage_def is_number_def Let_def)
  have "extract_frames 1 (pe_video demo_env) = Some [(0, 0), (1, 1)]"
    by (simp add: demo_env_def extract_frames_def)
  then show ?thesis
    using s summary_accounts_for_frames [OF s] by (auto simp: sampling_fps_of_def dget_or_def number_of_def)
qed

text \<open>
  C8. The life of an analysis: whatever is submitted, started, finished and however often the process restarts, a row
  moves only from pending to running and from there to completed or failed, a finished row never changes again, the
  summary is set exactly for completed rows and the message, of at most 2000 characters, exactly for failed ones.
\<close>

theorem analysis_life_cycle:
  assumes "reach (\<lambda>a. a = no_analyses) banstep a" "banstep a b" "dget (an_rows a) i = Some r"
  shows "\<exists>r'. dget (an_rows b) i = Some r'
     \<and> (r' = r \<or> br_state r = ANALYSIS_PENDING \<and> br_state r' = ANALYSIS_RUNNING
        \<or> br_state r = ANALYSIS_RUNNING \<and> br_state r' \<in> {ANALYSIS_COMPLETED, ANALYSIS_FAILED})
     \<and> (br_summary r' \<noteq> None \<longleftrightarrow> br_state r' = ANALYSIS_COMPLETED)
     \<and> (br_error_message r' \<noteq> None \<longleftrightarrow> br_state r' = ANALYSIS_FAILED)
     \<and> (\<forall>m. br_error_message r' = Some m \<longrightarrow> length m \<le> 2000)"
proof -
  have "analyses_ok a" using assms(1) by (rule analyses.reach_invar)
  with banstep_ok [OF assms(2)] assms(3) obtain r' where
    "analyses_ok b" "dget (an_rows b) i = Some r'" "row_moves r r'" by (auto simp: moves_def)
  moreover then have "row_ok r'" by (auto simp: analyses_ok_def)
  ultimately show ?thesis unfolding row_ok_def row_moves_def by blast
qed

definition demo_request :: SubmitRequest where
  "demo_request = \<lparr>sr_vas_bookmark_id = ''b'', sr_model_id = ''m'', sr_model_version = None, sr_parameters = None\<rparr>"

lemma demo_submit:
  "snd (snd (submit_analysis 0 0 i (Reply 200 (Parsed (Some [[(''model_id'', JStr ''m'')]]))) demo_request
     (\<lparr>mc_models = None, mc_expires_at = 0\<rparr>, a)))
   = a\<lparr>an_rows := dput i (new_row 0 demo_request) (an_rows a), an_scheduled := an_scheduled a @ [i]\<rparr>"
  by (simp add: submit_analysis_def assert_model_available_def get_catalog_def refresh_catalog_def get_capabilities_def
      success_status_def demo_request_def submit_def Let_def)

definition demo_analyses :: Analyses where
  "demo_analyses = \<lparr>an_rows = [(1, new_row 0 demo_request)], an_scheduled = [1], an_workers = []\<rparr>"

lemma demo_analyses_reached: "reach (\<lambda>a. a = no_analyses) banstep demo_analyses"
proof -
  have "banstep no_analyses demo_analyses"
    using banstep.submitted [OF _ _ demo_submit [of 1 no_analyses]]
    by (simp add: no_analyses_def demo_analyses_def)
  then show ?thesis by (auto intro: reach_step reach_init)
qed

theorem analysis_life_cycle_witness:
  "\<exists>r. dget (an_rows (begin_analysis 5 1 demo_analyses)) 1 = Some r \<and> br_error_message r = None"
proof -
  have s: "banstep demo_analyses (begin_analysis 5 1 demo_analyses)"
    by (rule banstep.started) (simp add: demo_analyses_def)
  have r: "dget (an_rows demo_analyses) 1 = Some (new_row 0 demo_request)" by (simp add: demo_analyses_def)
  obtain r' where "dget (an_rows (begin_analysis 5 1 demo_analyses)) 1 = Some r'"
    "br_error_message r' \<noteq> None \<longleftrightarrow> br_state r' = ANALYSIS_FAILED" "br_state r' \<noteq> ANALYSIS_FAILED"
    using analysis_life_cycle [OF demo_analyses_reached s r] by (auto simp: new_row_def)
  then show ?thesis by auto
qed

text \<open>
  C26. The answer to a request for a video: without a range it understands it sends the whole file, and otherwise the
  bytes from the first to the last, which lie in the file; the length it states is the length it sends. A range from
  one byte to another is read as it is written, and so is the suffix form that asks for the last bytes, although the
  documentation of the function lists suffix forms among those that are not supported and give the whole file.
\<close>

theorem video_range_correct:
  "vr_content_length (video_response h v) = int (length (vr_content (video_response h v)))
   \<and> (case vr_content_range (video_response h v) of
        None \<Rightarrow> vr_status (video_response h v) = 200 \<and> vr_content (video_response h v) = fst v
      | Some (a, b, n) \<Rightarrow> vr_status (video_response h v) = 206 \<and> n = int (length (fst v))
          \<and> 0 \<le> a \<and> a \<le> b \<and> b < n \<and> vr_content (video_response h v) = map (\<lambda>i. fst v ! nat i) [a..b])
   \<and> parse_range (Some (''bytes='' @ show_nat p @ ''-'' @ show_nat (p + d))) m =
       (if int p < m then Some (int p, min (int (p + d)) (m - 1)) else None)
   \<and> parse_range (Some (''bytes=-'' @ show_nat (Suc d))) m =
       (if 0 < m then Some (max 0 (m - int (Suc d)), m - 1) else None)"
proof (intro conjI)
  show "vr_content_length (video_response h v) = int (length (vr_content (video_response h v)))"
    "case vr_content_range (video_response h v) of
        None \<Rightarrow> vr_status (video_response h v) = 200 \<and> vr_content (video_response h v) = fst v
      | Some (a, b, n) \<Rightarrow> vr_status (video_response h v) = 206 \<and> n = int (length (fst v))
          \<and> 0 \<le> a \<and> a \<le> b \<and> b < n \<and> vr_content (video_response h v) = map (\<lambda>i. fst v ! nat i) [a..b]"
    using parse_range_bounds [of h "int (length (fst v))"]
    by (auto simp: video_response_def slice_eq Let_def split: option.splits prod.splits)
qed (rule parse_range_first_last parse_range_suffix)+

section \<open>What the documents say and the code does\<close>

text \<open>
  A frame the runtime answers with a status of failure ends the whole analysis: the exception is one of the client's
  own, which the worker takes for a lost connection.
\<close>

lemma failed_frame_is_fatal:
  "run_pipeline (demo_env\<lparr>pe_ask := \<lambda>k f. if k = 1 then Reply 500 (NotJson []) else pe_ask demo_env k f\<rparr>) ''m'' None []
     = Inl (''AI runtime unreachable: Inference failed: HTTP status 500'')"
proof -
  have "show_nat 500 = ''500''" by code_simp
  then show ?thesis
    by (simp add: run_pipeline_def demo_env_def extract_frames_def sampling_fps_of_def dget_or_def number_of_def
        submit_inference_def success_status_def extract_fill_percentage_def is_number_def is_runtime_error_def
        status_text_def Let_def)
qed

text \<open>A timeline that begins above a threshold counts as a crossing, although it never was below.\<close>

lemma first_sample_crosses:
  "detect_threshold_crossings [\<lparr>sm_timestamp_seconds = 0, sm_fill_percentage = 95\<rparr>] TANK_THRESHOLDS = [(0, 80), (0, 90)]"
  by (simp add: detect_threshold_crossings_def TANK_THRESHOLDS_def)

text \<open>A status of failure from \<open>/capabilities\<close> is not one of the client's exceptions: the route ends with 500, not 503.\<close>

lemma failing_capabilities_uncaught:
  "fst (submit_analysis x now i (Reply 502 b) q (\<lparr>mc_models = None, mc_expires_at = 0\<rparr>, a)) = Inl 500"
  by (simp add: submit_analysis_def assert_model_available_def get_catalog_def refresh_catalog_def get_capabilities_def
      success_status_def is_runtime_error_def)

text \<open>Nothing resumes the rows whose task a restart has forgotten: they stay pending or running for ever.\<close>

lemma restart_strands_rows:
  assumes "analyses_ok a" "dget (an_rows a) i = Some r"
    and "reach (\<lambda>b. b = a\<lparr>an_scheduled := [], an_workers := []\<rparr>) banstep b"
  shows "dget (an_rows b) i = Some r"
proof -
  have "analyses_ok b \<and> dget (an_rows b) i = Some r \<and> i \<notin> set (an_scheduled b) \<and> i \<notin> wk_id ` set (an_workers b)"
    using assms(3)
  proof induction
    case (reach_init s)
    then show ?case using assms by (auto simp: analyses_ok_def)
  next
    case (reach_step s t)
    then show ?case using forgotten_row_stays [of s t i r] banstep_ok [of s t] by blast
  qed
  then show ?thesis by blast
qed

end
