(* ===== verification/RuntimeDirectory.thy ===== *)
theory RuntimeDirectory
  imports BackendClient
begin

text \<open>
  \<open>ruth-ai-backend/app/api/internal/ai_runtime.py\<close>: the directory of AI runtimes the backend keeps, as runtimes
  register, push their health and deregister themselves or single versions, and the queries on it. It is the other end
  of the client in \<open>BackendClient\<close>. The validation of a body by pydantic is modelled for values of exactly the declared
  types; its conversions between types are not, and ISO texts of times count as strings.
\<close>

section \<open>Bodies\<close>

definition is_str :: "jval \<Rightarrow> bool" where
  "is_str v = (case v of JStr _ \<Rightarrow> True | JTime _ \<Rightarrow> True | _ \<Rightarrow> False)"

definition is_int :: "jval \<Rightarrow> bool" where
  "is_int v = (case v of JInt _ \<Rightarrow> True | _ \<Rightarrow> False)"

definition is_bool :: "jval \<Rightarrow> bool" where
  "is_bool v = (case v of JBool _ \<Rightarrow> True | _ \<Rightarrow> False)"

definition is_strs :: "jval \<Rightarrow> bool" where
  "is_strs v = (case v of JStrs _ \<Rightarrow> True | _ \<Rightarrow> False)"

text \<open>A required field, an optional one that may be null or missing, one with a default that may be missing but not null, and the fields of a nested object.\<close>

definition required :: "(string, jval) dict \<Rightarrow> string \<Rightarrow> (jval \<Rightarrow> bool) \<Rightarrow> bool" where
  "required d k p = (case dget d k of None \<Rightarrow> False | Some v \<Rightarrow> p v)"

definition optional :: "(string, jval) dict \<Rightarrow> string \<Rightarrow> (jval \<Rightarrow> bool) \<Rightarrow> bool" where
  "optional d k p = (case dget d k of None \<Rightarrow> True | Some JNone \<Rightarrow> True | Some v \<Rightarrow> p v)"

definition defaulted :: "(string, jval) dict \<Rightarrow> string \<Rightarrow> (jval \<Rightarrow> bool) \<Rightarrow> bool" where
  "defaulted d k p = (case dget d k of None \<Rightarrow> True | Some v \<Rightarrow> p v)"

definition object :: "((string, jval) dict \<Rightarrow> bool) \<Rightarrow> jval \<Rightarrow> bool" where
  "object p v = (case v of JDict d \<Rightarrow> p d | _ \<Rightarrow> False)"

definition str_field :: "(string, jval) dict \<Rightarrow> string \<Rightarrow> string" where
  "str_field d k = (case dget d k of Some (JStr s) \<Rightarrow> s | _ \<Rightarrow> [])"

definition int_field :: "(string, jval) dict \<Rightarrow> string \<Rightarrow> int" where
  "int_field d k = (case dget d k of Some (JInt i) \<Rightarrow> i | _ \<Rightarrow> 0)"

definition is_text :: "jval \<Rightarrow> bool" where
  "is_text v = (case v of JStr _ \<Rightarrow> True | _ \<Rightarrow> False)"

definition valid_hardware :: "(string, jval) dict \<Rightarrow> bool" where
  "valid_hardware d \<longleftrightarrow> required d ''supports_cpu'' is_bool \<and> required d ''supports_gpu'' is_bool \<and> required d ''supports_jetson'' is_bool"

definition valid_performance :: "(string, jval) dict \<Rightarrow> bool" where
  "valid_performance d \<longleftrightarrow> required d ''inference_time_hint_ms'' is_int \<and> required d ''recommended_fps'' is_int
     \<and> optional d ''max_fps'' is_int \<and> required d ''recommended_batch_size'' is_int \<and> required d ''max_concurrent'' is_int"

definition valid_metrics :: "(string, jval) dict \<Rightarrow> bool" where
  "valid_metrics d \<longleftrightarrow> defaulted d ''inference_count'' is_int \<and> defaulted d ''error_count'' is_int"

definition valid_version :: "(string, jval) dict \<Rightarrow> bool" where
  "valid_version d \<longleftrightarrow>
     required d ''model_id'' is_text \<and> required d ''version'' is_text \<and> required d ''display_name'' is_str
     \<and> required d ''description'' is_str \<and> required d ''input_types'' is_strs \<and> required d ''input_format'' is_str
     \<and> required d ''output_event_types'' is_strs \<and> required d ''provides_bounding_boxes'' is_bool
     \<and> required d ''provides_metadata'' is_bool \<and> required d ''hardware'' (object valid_hardware)
     \<and> required d ''performance'' (object valid_performance) \<and> required d ''status'' is_text \<and> required d ''health'' is_text
     \<and> defaulted d ''metrics'' (object valid_metrics) \<and> optional d ''degraded_reason'' is_str
     \<and> required d ''registered_at'' is_str \<and> optional d ''last_inference_at'' is_str \<and> optional d ''last_health_change'' is_str"

definition valid_capacity :: "(string, jval) dict \<Rightarrow> bool" where
  "valid_capacity d \<longleftrightarrow>
     required d ''concurrency'' (object (\<lambda>c. required c ''max_concurrent'' is_int \<and> required c ''active'' is_int \<and> required c ''available'' is_int))
     \<and> defaulted d ''per_model_limits'' (object (\<lambda>l. list_all is_int (dvals l)))
     \<and> required d ''backpressure'' (object (\<lambda>b. required b ''level'' is_str \<and> required b ''queue_depth'' is_int \<and> required b ''queue_capacity'' is_int))"

section \<open>Registrations\<close>

text \<open>A version as it is stored: the fields that are read or written later, and the body as it came. In it and in the
  capacity pydantic drops the fields that are not declared and adds the defaults of missing ones; nothing reads them.\<close>

record DirVersion =
  dr_version :: string
  dr_health :: string
  dr_status :: string
  dr_fields :: "(string, jval) dict"

record DirModel =
  dm_model_id :: string
  dm_health :: string
  dm_total_versions :: int
  dm_healthy_versions :: int
  dm_degraded_versions :: int
  dm_versions :: "DirVersion list"

record DirSummary =
  ds_total_models :: int
  ds_healthy_models :: int
  ds_total_versions :: int
  ds_ready_versions :: int

record RegisterRequest =
  rq_runtime_id :: string
  rq_runtime_health :: string
  rq_summary :: DirSummary
  rq_models :: "DirModel list"
  rq_capacity :: "(string, jval) dict"

definition parse_version :: "jval \<Rightarrow> DirVersion option" where
  "parse_version v =
     (case v of JDict d \<Rightarrow>
        if valid_version d
        then Some \<lparr>dr_version = str_field d ''version'', dr_health = str_field d ''health'',
               dr_status = str_field d ''status'', dr_fields = d\<rparr>
        else None
      | _ \<Rightarrow> None)"

fun parse_all :: "(jval \<Rightarrow> 'a option) \<Rightarrow> jval list \<Rightarrow> 'a list option" where
  "parse_all p [] = Some []"
| "parse_all p (v # vs) =
     (case p v of None \<Rightarrow> None | Some x \<Rightarrow> (case parse_all p vs of None \<Rightarrow> None | Some xs \<Rightarrow> Some (x # xs)))"

definition parse_list :: "(jval \<Rightarrow> 'a option) \<Rightarrow> (string, jval) dict \<Rightarrow> string \<Rightarrow> 'a list option" where
  "parse_list p d k = (case dget d k of Some (JList vs) \<Rightarrow> parse_all p vs | _ \<Rightarrow> None)"

definition parse_model :: "jval \<Rightarrow> DirModel option" where
  "parse_model v =
     (case v of JDict d \<Rightarrow>
        if required d ''model_id'' is_text \<and> required d ''health'' is_text \<and> required d ''total_versions'' is_int
           \<and> required d ''healthy_versions'' is_int \<and> required d ''degraded_versions'' is_int
        then map_option (\<lambda>vs. \<lparr>dm_model_id = str_field d ''model_id'', dm_health = str_field d ''health'',
               dm_total_versions = int_field d ''total_versions'', dm_healthy_versions = int_field d ''healthy_versions'',
               dm_degraded_versions = int_field d ''degraded_versions'', dm_versions = vs\<rparr>)
               (parse_list parse_version d ''versions'')
        else None
      | _ \<Rightarrow> None)"

definition parse_summary :: "(string, jval) dict \<Rightarrow> DirSummary option" where
  "parse_summary d =
     (case dget d ''summary'' of Some (JDict s) \<Rightarrow>
        if required s ''total_models'' is_int \<and> required s ''healthy_models'' is_int
           \<and> required s ''total_versions'' is_int \<and> required s ''ready_versions'' is_int
        then Some \<lparr>ds_total_models = int_field s ''total_models'', ds_healthy_models = int_field s ''healthy_models'',
               ds_total_versions = int_field s ''total_versions'', ds_ready_versions = int_field s ''ready_versions''\<rparr>
        else None
      | _ \<Rightarrow> None)"

text \<open>\<open>RuntimeRegisterRequest\<close>; \<open>None\<close> is the answer 422.\<close>

definition parse_register :: "(string, jval) dict \<Rightarrow> RegisterRequest option" where
  "parse_register d =
     (if required d ''runtime_id'' is_text \<and> required d ''timestamp'' is_str \<and> required d ''runtime_health'' is_text
         \<and> required d ''capacity'' (object valid_capacity)
      then (case (parse_summary d, parse_list parse_model d ''models'') of
              (Some s, Some ms) \<Rightarrow> Some \<lparr>rq_runtime_id = str_field d ''runtime_id'',
                 rq_runtime_health = str_field d ''runtime_health'', rq_summary = s, rq_models = ms,
                 rq_capacity = (case dget d ''capacity'' of Some (JDict c) \<Rightarrow> c | _ \<Rightarrow> [])\<rparr>
            | _ \<Rightarrow> None)
      else None)"

record RuntimeRegistration =
  rr_runtime_id :: string
  rr_runtime_health :: string
  rr_models :: "DirModel list"
  rr_capacity :: "(string, jval) dict"
  rr_summary :: DirSummary
  rr_registered_at :: real
  rr_last_health_update :: real
  rr_last_registration_update :: real

type_synonym directory = "(string, RuntimeRegistration) dict"

definition register_runtime :: "real \<Rightarrow> RegisterRequest \<Rightarrow> directory \<Rightarrow> directory" where
  "register_runtime now q d =
     dput (rq_runtime_id q) \<lparr>rr_runtime_id = rq_runtime_id q, rr_runtime_health = rq_runtime_health q,
       rr_models = rq_models q, rr_capacity = rq_capacity q, rr_summary = rq_summary q, rr_registered_at = now,
       rr_last_health_update = now, rr_last_registration_update = now\<rparr> d"

definition versions_registered :: "RegisterRequest \<Rightarrow> nat" where
  "versions_registered q = sum_list (map (\<lambda>m. length (dm_versions m)) (rq_models q))"

section \<open>Health and deregistration\<close>

text \<open>The new health of a model is written into all of its versions; the counts stay.\<close>

definition set_model_health :: "(string, string) dict \<Rightarrow> DirModel \<Rightarrow> DirModel" where
  "set_model_health healths m =
     (case dget healths (dm_model_id m) of
        Some h \<Rightarrow> if dm_model_id m = [] then m
                  else m\<lparr>dm_health := h, dm_versions := map (\<lambda>v. v\<lparr>dr_health := h\<rparr>) (dm_versions m)\<rparr>
      | None \<Rightarrow> m)"

definition dir_push_health :: "real \<Rightarrow> string \<Rightarrow> string \<Rightarrow> (string, string) dict \<Rightarrow> directory \<Rightarrow> directory" where
  "dir_push_health now runtime_id health healths d =
     (case dget d runtime_id of None \<Rightarrow> d
      | Some r \<Rightarrow> dput runtime_id (r\<lparr>rr_runtime_health := health, rr_last_health_update := now,
            rr_models := map (set_model_health healths) (rr_models r)\<rparr>) d)"

definition deregister_runtime :: "string \<Rightarrow> directory \<Rightarrow> directory" where
  "deregister_runtime runtime_id d = (if dget d runtime_id = None then d else ddel runtime_id d)"

definition without_version :: "string \<Rightarrow> DirModel \<Rightarrow> DirModel" where
  "without_version version m =
     (let vs = filter (\<lambda>v. dr_version v \<noteq> version) (dm_versions m);
          healthy = length (filter (\<lambda>v. dr_health v = ''healthy'') vs);
          degraded = length (filter (\<lambda>v. dr_health v = ''degraded'') vs)
      in m\<lparr>dm_versions := vs, dm_total_versions := int (length vs), dm_healthy_versions := int healthy,
           dm_degraded_versions := int degraded,
           dm_health := (if healthy > 0 then ''healthy'' else if degraded > 0 then ''degraded''
                         else if vs \<noteq> [] then ''unhealthy'' else ''unavailable'')\<rparr>)"

text \<open>The loop ends at the first model with the identifier.\<close>

fun drop_version :: "string \<Rightarrow> string \<Rightarrow> DirModel list \<Rightarrow> DirModel list" where
  "drop_version model_id version [] = []"
| "drop_version model_id version (m # ms) =
     (if dm_model_id m = model_id then without_version version m # ms else m # drop_version model_id version ms)"

definition dir_deregister_version :: "real \<Rightarrow> string \<Rightarrow> string \<Rightarrow> string \<Rightarrow> directory \<Rightarrow> directory" where
  "dir_deregister_version now runtime_id model_id version d =
     (case dget d runtime_id of None \<Rightarrow> d
      | Some r \<Rightarrow>
          (let ms = drop_version model_id version (rr_models r)
           in dput runtime_id (r\<lparr>rr_models := ms,
                rr_summary := (rr_summary r)\<lparr>ds_ready_versions := int (sum_list (map (\<lambda>m. length (dm_versions m)) ms))\<rparr>,
                rr_last_registration_update := now\<rparr>) d))"

section \<open>Queries\<close>

record DirStatus =
  dx_total_runtimes :: nat
  dx_healthy_runtimes :: nat
  dx_total_models :: int
  dx_total_versions :: int

definition get_runtime_status :: "directory \<Rightarrow> DirStatus" where
  "get_runtime_status d =
     \<lparr>dx_total_runtimes = length d, dx_healthy_runtimes = length (filter (\<lambda>r. rr_runtime_health r = ''healthy'') (dvals d)),
      dx_total_models = sum_list (map (\<lambda>r. ds_total_models (rr_summary r)) (dvals d)),
      dx_total_versions = sum_list (map (\<lambda>r. ds_ready_versions (rr_summary r)) (dvals d))\<rparr>"

definition get_runtime_details :: "string \<Rightarrow> directory \<Rightarrow> nat + RuntimeRegistration" where
  "get_runtime_details runtime_id d = (case dget d runtime_id of None \<Rightarrow> Inl 404 | Some r \<Rightarrow> Inr r)"

record AvailableModel =
  av_health :: string
  av_versions :: "(string \<times> string \<times> string \<times> string) list"
  av_runtimes :: "(string \<times> string) list"

text \<open>One model of a runtime: version, health, status and runtime of each version are appended.\<close>

definition offer :: "RuntimeRegistration \<Rightarrow> DirModel \<Rightarrow> (string, AvailableModel) dict \<Rightarrow> (string, AvailableModel) dict" where
  "offer r m acc =
     (if dm_model_id m = [] then acc
      else
        (let a = dget_or acc (dm_model_id m) \<lparr>av_health = dm_health m, av_versions = [], av_runtimes = []\<rparr>
         in dput (dm_model_id m) (a\<lparr>av_runtimes := av_runtimes a @ [(rr_runtime_id r, rr_runtime_health r)],
              av_versions := av_versions a
                @ map (\<lambda>v. (dr_version v, dr_health v, dr_status v, rr_runtime_id r)) (dm_versions m)\<rparr>) acc))"

definition serving :: "RuntimeRegistration \<Rightarrow> bool" where
  "serving r \<longleftrightarrow> rr_runtime_health r \<in> {''healthy'', ''degraded''}"

definition get_available_models :: "directory \<Rightarrow> (string, AvailableModel) dict" where
  "get_available_models d = fold (\<lambda>r acc. fold (offer r) (rr_models r) acc) (filter serving (dvals d)) []"

section \<open>Lemmas: what the client sends is understood\<close>

definition dir_version_of :: "VersionCapability \<Rightarrow> DirVersion" where
  "dir_version_of c = \<lparr>dr_version = vc_version c, dr_health = health_value (vc_health c),
     dr_status = model_status_value (vc_status c), dr_fields = capability_to_dict c\<rparr>"

definition dir_model_of :: "ModelCapabilityReport \<Rightarrow> DirModel" where
  "dir_model_of m = \<lparr>dm_model_id = mr_model_id m, dm_health = health_value (mr_health m),
     dm_total_versions = mr_total_versions m, dm_healthy_versions = mr_healthy_versions m,
     dm_degraded_versions = mr_degraded_versions m, dm_versions = map dir_version_of (mr_versions m)\<rparr>"

definition request_of :: "FullCapabilityReport \<Rightarrow> RegisterRequest" where
  "request_of r = \<lparr>rq_runtime_id = fc_runtime_id r, rq_runtime_health = health_value (fc_runtime_health r),
     rq_summary = \<lparr>ds_total_models = fc_total_models r, ds_healthy_models = fc_healthy_models r,
       ds_total_versions = fc_total_versions r, ds_ready_versions = fc_ready_versions r\<rparr>,
     rq_models = map dir_model_of (fc_models r), rq_capacity = capacity_to_dict (fc_capacity r)\<rparr>"

lemmas body_defs = required_def optional_def defaulted_def object_def is_str_def is_int_def is_bool_def is_strs_def is_text_def
  str_field_def int_field_def jopt_def

lemma valid_version_capability: "valid_version (capability_to_dict c)"
  unfolding valid_version_def capability_to_dict_def Let_def
  by (intro conjI)
    (simp_all add: body_defs valid_hardware_def valid_performance_def valid_metrics_def split: option.splits)

lemma parse_capability: "parse_version (JDict (capability_to_dict c)) = Some (dir_version_of c)"
proof -
  have "dget (capability_to_dict c) ''version'' = Some (JStr (vc_version c))"
    "dget (capability_to_dict c) ''health'' = Some (JStr (health_value (vc_health c)))"
    "dget (capability_to_dict c) ''status'' = Some (JStr (model_status_value (vc_status c)))"
    by (simp_all add: capability_to_dict_def Let_def)
  then show ?thesis by (simp add: parse_version_def valid_version_capability dir_version_of_def str_field_def)
qed

lemma parse_all_map: "(\<And>x. p (f x) = Some (g x)) \<Longrightarrow> parse_all p (map f xs) = Some (map g xs)"
  by (induction xs) auto

lemma parse_model_report: "parse_model (JDict (model_report_to_dict m)) = Some (dir_model_of m)"
proof -
  have "parse_all parse_version (map (JDict \<circ> capability_to_dict) (mr_versions m)) = Some (map dir_version_of (mr_versions m))"
    by (rule parse_all_map) (simp add: parse_capability)
  then show ?thesis
    by (simp add: parse_model_def model_report_to_dict_def parse_list_def dir_model_of_def body_defs)
qed

lemma valid_capacity_report: "valid_capacity (capacity_to_dict c)"
proof -
  have "list_all is_int (dvals (map (\<lambda>(k, n). (k, JInt n)) (rc_per_model_limits c)))"
    by (auto simp: list_all_iff is_int_def)
  then show ?thesis
    unfolding valid_capacity_def capacity_to_dict_def Let_def
    by (intro conjI) (simp_all add: body_defs)
qed

lemma parse_registration: "parse_register (registration_payload r) = Some (request_of r)"
proof -
  have "parse_all parse_model (map (JDict \<circ> model_report_to_dict) (fc_models r)) = Some (map dir_model_of (fc_models r))"
    by (rule parse_all_map) (simp add: parse_model_report)
  then show ?thesis
    by (simp add: parse_register_def registration_payload_def parse_summary_def parse_list_def request_of_def
        valid_capacity_report body_defs)
qed

section \<open>Lemmas: what is offered\<close>

text \<open>The versions the query names: model, version, health, status, runtime.\<close>

definition offered_at :: "(string, AvailableModel) dict \<Rightarrow> string \<Rightarrow> (string \<times> string \<times> string \<times> string) list" where
  "offered_at acc i = (case dget acc i of None \<Rightarrow> [] | Some a \<Rightarrow> av_versions a)"

definition offered :: "(string, AvailableModel) dict \<Rightarrow> (string \<times> string \<times> string \<times> string \<times> string) set" where
  "offered acc = {(i, x) |i x. x \<in> set (offered_at acc i)}"

definition contributes :: "RuntimeRegistration \<Rightarrow> (string \<times> string \<times> string \<times> string \<times> string) set" where
  "contributes r = {(dm_model_id m, dr_version v, dr_health v, dr_status v, rr_runtime_id r) |m v.
     serving r \<and> m \<in> set (rr_models r) \<and> dm_model_id m \<noteq> [] \<and> v \<in> set (dm_versions m)}"

lemma offered_at_offer:
  "offered_at (offer r m acc) i = offered_at acc i
     @ (if i = dm_model_id m \<and> i \<noteq> [] then map (\<lambda>v. (dr_version v, dr_health v, dr_status v, rr_runtime_id r)) (dm_versions m) else [])"
  by (auto simp: offer_def offered_at_def Let_def dget_or_def split: option.splits)

lemma offered_offer:
  "offered (offer r m acc) = offered acc \<union>
     {(dm_model_id m, dr_version v, dr_health v, dr_status v, rr_runtime_id r) |v. dm_model_id m \<noteq> [] \<and> v \<in> set (dm_versions m)}"
  by (auto simp: offered_def offered_at_offer)

lemma offered_models:
  "offered (fold (offer r) ms acc) = offered acc \<union>
     {(dm_model_id m, dr_version v, dr_health v, dr_status v, rr_runtime_id r) |m v.
        m \<in> set ms \<and> dm_model_id m \<noteq> [] \<and> v \<in> set (dm_versions m)}"
  by (induction ms arbitrary: acc) (auto simp: offered_offer)

lemma offered_runtimes:
  "offered (fold (\<lambda>r acc. fold (offer r) (rr_models r) acc) (filter serving rs) acc) = offered acc \<union> \<Union> (contributes ` set rs)"
  by (induction rs arbitrary: acc) (auto simp: offered_models contributes_def)

lemma offered_available: "offered (get_available_models d) = \<Union> (contributes ` set (dvals d))"
  using offered_runtimes [of "dvals d" "[]"] by (simp add: get_available_models_def offered_def offered_at_def)

lemma dvals_union:
  "dict_wf d \<Longrightarrow> \<Union> (f ` set (dvals d)) = \<Union> {f r |k r. dget d k = Some r}"
proof -
  assume "dict_wf d"
  note get = dget_Some_iff [OF this]
  have "r \<in> set (dvals d) \<longleftrightarrow> (\<exists>k. (k, r) \<in> set d)" for r
    unfolding set_map image_iff by (metis prod.exhaust_sel snd_conv)
  then have "set (dvals d) = {r. \<exists>k. dget d k = Some r}"
    unfolding get by (rule Collect_eqI [of "\<lambda>r. r \<in> set (dvals d)", unfolded Collect_mem_eq])
  moreover have "f ` {r. \<exists>k. dget d k = Some r} = {f r |k r. dget d k = Some r}" by fast
  ultimately show "\<Union> (f ` set (dvals d)) = \<Union> {f r |k r. dget d k = Some r}" by (simp only:)
qed

definition directory_ok :: "directory \<Rightarrow> bool" where
  "directory_ok d \<longleftrightarrow> dict_wf d \<and> (\<forall>k r. dget d k = Some r \<longrightarrow> rr_runtime_id r = k)"

inductive dirstep :: "directory \<Rightarrow> directory \<Rightarrow> bool" where
  register: "dirstep d (register_runtime now q d)"
| push: "dirstep d (dir_push_health now i h hs d)"
| deregister: "dirstep d (deregister_runtime i d)"
| deregister_version: "dirstep d (dir_deregister_version now i m v d)"

lemma dirstep_ok: "dirstep d d' \<Longrightarrow> directory_ok d \<Longrightarrow> directory_ok d'"
  by (induction rule: dirstep.induct)
    (auto simp: directory_ok_def register_runtime_def dir_push_health_def deregister_runtime_def
      dir_deregister_version_def Let_def split: option.splits if_splits)

interpretation runtime_directory: invariant_system "\<lambda>d. d = []" dirstep directory_ok
  by unfold_locales (auto simp: directory_ok_def dest: dirstep_ok)

text \<open>A store of registrations under their identifiers.\<close>

interpretation directory_store: keyed_store "dget :: directory \<Rightarrow> string \<Rightarrow> RuntimeRegistration option" dput ddel directory_ok
  "\<lambda>k r. rr_runtime_id r = k"
  by unfold_locales (auto simp: directory_ok_def)

lemma contributes_runtime: "(i, v, h, s, k) \<in> contributes r \<Longrightarrow> k = rr_runtime_id r"
  by (auto simp: contributes_def)

lemma offered_split:
  assumes "directory_ok d"
  shows "offered (get_available_models d) = {x \<in> offered (get_available_models d). snd (snd (snd (snd x))) \<noteq> k}
     \<union> (case dget d k of None \<Rightarrow> {} | Some r \<Rightarrow> contributes r)"
    "{x \<in> offered (get_available_models d). snd (snd (snd (snd x))) = k} = (case dget d k of None \<Rightarrow> {} | Some r \<Rightarrow> contributes r)"
proof -
  have d: "dict_wf d" "\<And>k r. dget d k = Some r \<Longrightarrow> rr_runtime_id r = k" using assms by (auto simp: directory_ok_def)
  have o: "offered (get_available_models d) = \<Union> {contributes r |k r. dget d k = Some r}"
    unfolding offered_available by (rule dvals_union [OF d(1)])
  show 2: "{x \<in> offered (get_available_models d). snd (snd (snd (snd x))) = k} = (case dget d k of None \<Rightarrow> {} | Some r \<Rightarrow> contributes r)"
    unfolding o using d(2) contributes_runtime by (auto split: option.splits; fastforce)
  show "offered (get_available_models d) = {x \<in> offered (get_available_models d). snd (snd (snd (snd x))) \<noteq> k}
     \<union> (case dget d k of None \<Rightarrow> {} | Some r \<Rightarrow> contributes r)"
    unfolding 2 [symmetric] by blast
qed

lemma offered_others:
  assumes "directory_ok d" "directory_ok d'" "\<forall>j. j \<noteq> k \<longrightarrow> dget d' j = dget d j"
  shows "{x \<in> offered (get_available_models d'). snd (snd (snd (snd x))) \<noteq> k}
     = {x \<in> offered (get_available_models d). snd (snd (snd (snd x))) \<noteq> k}"
proof -
  have at: "x \<in> offered (get_available_models e) \<longleftrightarrow>
      x \<in> (case dget e (snd (snd (snd (snd x)))) of None \<Rightarrow> {} | Some r \<Rightarrow> contributes r)" if "directory_ok e" for x e
    using offered_split(2) [OF that, of "snd (snd (snd (snd x)))"] by auto
  have "x \<in> offered (get_available_models d') \<longleftrightarrow> x \<in> offered (get_available_models d)" if "snd (snd (snd (snd x))) \<noteq> k" for x
    unfolding at [OF assms(1)] at [OF assms(2)] assms(3) [rule_format, OF that] ..
  then show ?thesis by blast
qed

text \<open>The versions of a list of models.\<close>

fun pairs :: "DirModel list \<Rightarrow> (string \<times> DirVersion) set" where
  "pairs [] = {}"
| "pairs (m # ms) = Pair (dm_model_id m) ` set (dm_versions m) \<union> pairs ms"

lemma in_pairs: "(i, v) \<in> pairs ms \<longleftrightarrow> (\<exists>m\<in>set ms. dm_model_id m = i \<and> v \<in> set (dm_versions m))"
  by (induction ms) auto

lemma contributes_pairs:
  "(i, a, b, c, k) \<in> contributes r \<longleftrightarrow> serving r \<and> i \<noteq> [] \<and> k = rr_runtime_id r
     \<and> (\<exists>v. (i, v) \<in> pairs (rr_models r) \<and> a = dr_version v \<and> b = dr_health v \<and> c = dr_status v)"
  unfolding contributes_def in_pairs by auto

lemma registered_directory:
  assumes "directory_ok d"
  shows "offered (get_available_models (register_runtime now (request_of rep) d))
     = {x \<in> offered (get_available_models d). snd (snd (snd (snd x))) \<noteq> fc_runtime_id rep}
       \<union> (if fc_runtime_health rep \<in> {HEALTHY, DEGRADED}
          then {(mr_model_id m, vc_version v, health_value (vc_health v), model_status_value (vc_status v), fc_runtime_id rep) |m v.
                  m \<in> set (fc_models rep) \<and> mr_model_id m \<noteq> [] \<and> v \<in> set (mr_versions m)}
          else {})"
proof -
  let ?e = "register_runtime now (request_of rep) d" and ?k = "fc_runtime_id rep"
  have e: "directory_ok ?e" by (rule dirstep_ok [OF dirstep.register assms])
  have others: "\<forall>j. j \<noteq> ?k \<longrightarrow> dget ?e j = dget d j" by (simp add: register_runtime_def request_of_def)
  obtain r where r: "dget ?e ?k = Some r" "rr_runtime_id r = ?k" "rr_models r = map dir_model_of (fc_models rep)"
    "rr_runtime_health r = health_value (fc_runtime_health rep)"
    by (simp add: register_runtime_def request_of_def)
  have serves: "serving r \<longleftrightarrow> fc_runtime_health rep \<in> {HEALTHY, DEGRADED}"
    by (cases "fc_runtime_health rep") (simp_all add: serving_def r)
  have sent: "(i, v) \<in> pairs (rr_models r) \<longleftrightarrow>
      (\<exists>m\<in>set (fc_models rep). mr_model_id m = i \<and> (\<exists>c\<in>set (mr_versions m). v = dir_version_of c))" for i v
    unfolding r in_pairs by (simp add: dir_model_of_def image_iff)
  have "(i, a, b, c, k) \<in> contributes r \<longleftrightarrow> (i, a, b, c, k) \<in>
         (if fc_runtime_health rep \<in> {HEALTHY, DEGRADED}
          then {(mr_model_id m, vc_version v, health_value (vc_health v), model_status_value (vc_status v), ?k) |m v.
                  m \<in> set (fc_models rep) \<and> mr_model_id m \<noteq> [] \<and> v \<in> set (mr_versions m)}
          else {})" for i a b c k
  proof -
    have "(\<exists>v. (i, v) \<in> pairs (rr_models r) \<and> a = dr_version v \<and> b = dr_health v \<and> c = dr_status v)
      \<longleftrightarrow> (\<exists>m\<in>set (fc_models rep). mr_model_id m = i \<and> (\<exists>v\<in>set (mr_versions m).
             a = vc_version v \<and> b = health_value (vc_health v) \<and> c = model_status_value (vc_status v)))"
      unfolding sent by (simp add: dir_version_of_def Bex_def) (metis DirVersion.select_convs(1-3))
    then show ?thesis unfolding contributes_pairs serves r(2) by auto
  qed
  then have "contributes r =
         (if fc_runtime_health rep \<in> {HEALTHY, DEGRADED}
          then {(mr_model_id m, vc_version v, health_value (vc_health v), model_status_value (vc_status v), ?k) |m v.
                  m \<in> set (fc_models rep) \<and> mr_model_id m \<noteq> [] \<and> v \<in> set (mr_versions m)}
          else {})" by (intro set_eqI) (simp only: split_paired_all)
  then show ?thesis
    using offered_split(1) [OF e, of ?k] offered_others [OF assms e others] by (simp only: r option.case)
qed

lemma deregistered_directory:
  assumes "directory_ok d"
  shows "offered (get_available_models (deregister_runtime k d))
     = {x \<in> offered (get_available_models d). snd (snd (snd (snd x))) \<noteq> k}"
proof -
  let ?e = "deregister_runtime k d"
  have e: "directory_ok ?e" by (rule dirstep_ok [OF dirstep.deregister assms])
  have others: "\<forall>j. j \<noteq> k \<longrightarrow> dget ?e j = dget d j" by (simp add: deregister_runtime_def)
  have gone: "dget ?e k = None" by (simp add: deregister_runtime_def)
  show ?thesis using offered_split(1) [OF e, of k] offered_others [OF assms e others] by (simp add: gone)
qed

lemma pushed_directory:
  assumes ok: "directory_ok d" and r: "dget d k = Some r"
  shows "offered (get_available_models (dir_push_health now k h hs d))
     = {x \<in> offered (get_available_models d). snd (snd (snd (snd x))) \<noteq> k}
       \<union> (if h \<in> {''healthy'', ''degraded''}
          then {(dm_model_id m, dr_version v, (case dget hs (dm_model_id m) of Some x \<Rightarrow> x | None \<Rightarrow> dr_health v), dr_status v, k) |m v.
                  m \<in> set (rr_models r) \<and> dm_model_id m \<noteq> [] \<and> v \<in> set (dm_versions m)}
          else {})"
proof -
  let ?e = "dir_push_health now k h hs d"
  have e: "directory_ok ?e" by (rule dirstep_ok [OF dirstep.push ok])
  have others: "\<forall>j. j \<noteq> k \<longrightarrow> dget ?e j = dget d j" by (simp add: dir_push_health_def r)
  obtain r' where r': "dget ?e k = Some r'" "rr_models r' = map (set_model_health hs) (rr_models r)" "rr_runtime_id r' = k"
    "serving r' \<longleftrightarrow> h \<in> {''healthy'', ''degraded''}"
    using ok r by (simp add: dir_push_health_def serving_def directory_ok_def)
  have m: "dm_model_id (set_model_health hs m) = dm_model_id m"
    "dm_model_id m \<noteq> [] \<Longrightarrow> dm_versions (set_model_health hs m)
       = map (\<lambda>v. v\<lparr>dr_health := (case dget hs (dm_model_id m) of Some x \<Rightarrow> x | None \<Rightarrow> dr_health v)\<rparr>) (dm_versions m)" for m
    by (auto simp: set_model_health_def split: option.splits)
  have sent: "(\<exists>w. (i, w) \<in> pairs (rr_models r') \<and> P w) \<longleftrightarrow>
      (\<exists>m\<in>set (rr_models r). dm_model_id m = i \<and> (\<exists>v\<in>set (dm_versions m).
          P (v\<lparr>dr_health := (case dget hs i of Some x \<Rightarrow> x | None \<Rightarrow> dr_health v)\<rparr>)))" if "i \<noteq> []" for i P
  proof -
    have "(i, w) \<in> pairs (rr_models r') \<longleftrightarrow> (\<exists>m\<in>set (rr_models r). dm_model_id m = i \<and>
        w \<in> (\<lambda>v. v\<lparr>dr_health := (case dget hs i of Some x \<Rightarrow> x | None \<Rightarrow> dr_health v)\<rparr>) ` set (dm_versions m))" for w
      unfolding r'(2) in_pairs using m that by (simp cong: conj_cong)
    note at = this
    show ?thesis unfolding at by blast
  qed
  have "(i, a, b, c, l) \<in> contributes r' \<longleftrightarrow> (i, a, b, c, l) \<in> (if h \<in> {''healthy'', ''degraded''}
          then {(dm_model_id m, dr_version v, (case dget hs (dm_model_id m) of Some x \<Rightarrow> x | None \<Rightarrow> dr_health v), dr_status v, k) |m v.
                  m \<in> set (rr_models r) \<and> dm_model_id m \<noteq> [] \<and> v \<in> set (dm_versions m)}
          else {})" for i a b c l
  proof (cases "i = []")
    case False
    show ?thesis unfolding contributes_pairs r'(3,4) sent [OF False] using False by auto
  qed (auto simp: contributes_pairs)
  then have "contributes r' = (if h \<in> {''healthy'', ''degraded''}
          then {(dm_model_id m, dr_version v, (case dget hs (dm_model_id m) of Some x \<Rightarrow> x | None \<Rightarrow> dr_health v), dr_status v, k) |m v.
                  m \<in> set (rr_models r) \<and> dm_model_id m \<noteq> [] \<and> v \<in> set (dm_versions m)}
          else {})" by (intro set_eqI) (simp only: split_paired_all)
  then show ?thesis
    using offered_split(1) [OF e, of k] offered_others [OF ok e others] by (simp only: r'(1) option.case)
qed

text \<open>A version that is withdrawn.\<close>

lemma pairs_other: "i \<notin> set (map dm_model_id ms) \<Longrightarrow> pairs ms = {(j, v) \<in> pairs ms. \<not> (j = i \<and> dr_version v = ver)}"
  by (induction ms) auto

lemma pairs_drop:
  "distinct (map dm_model_id ms) \<Longrightarrow>
   pairs (drop_version i ver ms) = {(j, v) \<in> pairs ms. \<not> (j = i \<and> dr_version v = ver)}"
proof (induction ms)
  case (Cons m ms)
  have w: "dm_model_id (without_version ver m) = dm_model_id m"
    "set (dm_versions (without_version ver m)) = {v \<in> set (dm_versions m). dr_version v \<noteq> ver}"
    by (auto simp: without_version_def Let_def)
  show ?case
  proof (cases "dm_model_id m = i")
    case True
    with Cons.prems have "pairs ms = {(j, v) \<in> pairs ms. \<not> (j = i \<and> dr_version v = ver)}" by (intro pairs_other) auto
    then show ?thesis using True w by auto
  next
    case False
    then show ?thesis using Cons by auto
  qed
qed simp

lemma withdrawn_directory:
  assumes "directory_ok d" and "\<forall>r. dget d k = Some r \<longrightarrow> distinct (map dm_model_id (rr_models r))"
  shows "offered (get_available_models (dir_deregister_version now k i ver d))
     = {(j, v, h, s, l) \<in> offered (get_available_models d). \<not> (l = k \<and> j = i \<and> v = ver)}"
proof (cases "dget d k")
  case None
  have "dir_deregister_version now k i ver d = d" by (simp add: dir_deregister_version_def None)
  have none: "{x \<in> offered (get_available_models d). snd (snd (snd (snd x))) = k} = {}"
    using offered_split(2) [OF assms(1), of k] by (simp add: None)
  have "{(j, v, h, s, l) \<in> S. \<not> (l = k \<and> j = i \<and> v = ver)} = S"
    if "{x \<in> S. snd (snd (snd (snd x))) = k} = {}" for S :: "(string \<times> string \<times> string \<times> string \<times> string) set"
    using that by force
  from this [OF none] show ?thesis unfolding \<open>dir_deregister_version now k i ver d = d\<close> ..
next
  case (Some r)
  let ?e = "dir_deregister_version now k i ver d"
  have e: "directory_ok ?e" by (rule dirstep_ok [OF dirstep.deregister_version assms(1)])
  have others: "\<forall>j. j \<noteq> k \<longrightarrow> dget ?e j = dget d j" by (simp add: dir_deregister_version_def Some Let_def)
  obtain r' where r': "dget ?e k = Some r'" "rr_models r' = drop_version i ver (rr_models r)"
    "rr_runtime_id r' = rr_runtime_id r" "serving r' = serving r"
    by (simp add: dir_deregister_version_def Some Let_def serving_def)
  have id: "rr_runtime_id r = k" using assms(1) Some by (auto simp: directory_ok_def)
  have dist: "distinct (map dm_model_id (rr_models r))" using assms(2) Some by simp
  have "(j, v, h, s, l) \<in> contributes r' \<longleftrightarrow> (j, v, h, s, l) \<in> contributes r \<and> \<not> (l = k \<and> j = i \<and> v = ver)" for j v h s l
    unfolding contributes_pairs r' pairs_drop [OF dist] id by auto
  then have left: "contributes r' = {(j, v, h, s, l) \<in> contributes r. \<not> (l = k \<and> j = i \<and> v = ver)}"
    by (intro set_eqI) (simp only: split_paired_all mem_Collect_eq case_prod_conv)
  have "{x \<in> offered (get_available_models d). snd (snd (snd (snd x))) = k} = contributes r"
    using offered_split(2) [OF assms(1), of k] by (simp add: Some)
  with left show ?thesis
    using offered_split(1) [OF e, of k] offered_others [OF assms(1) e others] unfolding r'(1) option.case by auto
qed

section \<open>Properties\<close>

text \<open>
  C25. What the backend offers follows the registrations, health pushes and deregistrations of the runtimes. The payload the
  client builds from any capability report is accepted by the directory. In any directory that can arise:
  storing the report leaves the offers of the other runtimes as they were and makes those of this runtime exactly the
  versions of the report under the models with a name, if the runtime said it was healthy or degraded, and none otherwise;
  a health push replaces the health of the runtime, and that of all versions of the models it names, in the same
  way; and a deregistration leaves the offers of the other runtimes. The documentation of the query speaks of
  healthy runtimes only; degraded ones are offered too.
\<close>

theorem registration_reaches_directory:
  assumes "reach (\<lambda>d. d = []) dirstep d"
  defines "others \<equiv> \<lambda>k. {x \<in> offered (get_available_models d). snd (snd (snd (snd x))) \<noteq> k}"
  shows "(\<exists>q. parse_register (registration_payload rep) = Some q
     \<and> offered (get_available_models (register_runtime now q d))
        = others (fc_runtime_id rep)
          \<union> (if fc_runtime_health rep \<in> {HEALTHY, DEGRADED}
             then {(mr_model_id m, vc_version v, health_value (vc_health v), model_status_value (vc_status v), fc_runtime_id rep) |m v.
                     m \<in> set (fc_models rep) \<and> mr_model_id m \<noteq> [] \<and> v \<in> set (mr_versions m)}
             else {}))
     \<and> (\<forall>k r h hs. dget d k = Some r \<longrightarrow> offered (get_available_models (dir_push_health now k h hs d))
        = others k
          \<union> (if h \<in> {''healthy'', ''degraded''}
             then {(dm_model_id m, dr_version v, (case dget hs (dm_model_id m) of Some x \<Rightarrow> x | None \<Rightarrow> dr_health v), dr_status v, k) |m v.
                     m \<in> set (rr_models r) \<and> dm_model_id m \<noteq> [] \<and> v \<in> set (dm_versions m)}
             else {}))
     \<and> (\<forall>k. offered (get_available_models (deregister_runtime k d)) = others k)"
proof (intro conjI allI impI)
  have ok: "directory_ok d" using assms by (simp add: runtime_directory.reach_invar)
  show "\<exists>q. parse_register (registration_payload rep) = Some q
     \<and> offered (get_available_models (register_runtime now q d))
        = others (fc_runtime_id rep)
          \<union> (if fc_runtime_health rep \<in> {HEALTHY, DEGRADED}
             then {(mr_model_id m, vc_version v, health_value (vc_health v), model_status_value (vc_status v), fc_runtime_id rep) |m v.
                     m \<in> set (fc_models rep) \<and> mr_model_id m \<noteq> [] \<and> v \<in> set (mr_versions m)}
             else {})"
    unfolding others_def using parse_registration registered_directory [OF ok, of now rep] by blast
  show "offered (get_available_models (deregister_runtime k d)) = others k" for k
    unfolding others_def using ok by (rule deregistered_directory)
  show "offered (get_available_models (dir_push_health now k h hs d))
        = others k
          \<union> (if h \<in> {''healthy'', ''degraded''}
             then {(dm_model_id m, dr_version v, (case dget hs (dm_model_id m) of Some x \<Rightarrow> x | None \<Rightarrow> dr_health v), dr_status v, k) |m v.
                     m \<in> set (rr_models r) \<and> dm_model_id m \<noteq> [] \<and> v \<in> set (dm_versions m)}
             else {})"
    if "dget d k = Some r" for k r h hs unfolding others_def using ok that by (rule pushed_directory)
qed

definition demo_capability :: VersionCapability where
  "demo_capability = \<lparr>vc_model_id = ''fall'', vc_version = ''2.0.0'', vc_display_name = ''Fall'', vc_description = [],
     vc_input_types = [''image''], vc_input_format = ''jpeg'', vc_output_event_types = [''fall''], vc_provides_bounding_boxes = True,
     vc_provides_metadata = False,
     vc_hardware = \<lparr>hw_supports_cpu = True, hw_supports_gpu = True, hw_supports_jetson = False, hw_min_gpu_memory_mb = Some 512,
       hw_min_cpu_cores = None, hw_min_ram_mb = None\<rparr>,
     vc_inference_time_hint_ms = 50, vc_recommended_fps = 5, vc_max_fps = None, vc_recommended_batch_size = 1,
     vc_max_concurrent = 2, vc_status = MS_ACTIVE, vc_health = DEGRADED, vc_degraded_reason = Some ''slow'',
     vc_inference_count = 10, vc_error_count = 1, vc_last_inference_at = None, vc_registered_at = 0, vc_last_health_change = None\<rparr>"

definition demo_report :: FullCapabilityReport where
  "demo_report = \<lparr>fc_runtime_id = ''rt'', fc_timestamp = 0,
     fc_models = [\<lparr>mr_model_id = ''fall'', mr_health = DEGRADED, mr_versions = [demo_capability], mr_total_versions = 1,
       mr_healthy_versions = 0, mr_degraded_versions = 1\<rparr>],
     fc_capacity = \<lparr>rc_max_concurrent_inferences = 1, rc_active_inferences = 0, rc_available_slots = 1, rc_per_model_limits = [],
        rc_backpressure_level = ''none'', rc_queue_depth = 0, rc_queue_capacity = 0,
        rc_memory_used_mb = None, rc_memory_available_mb = None, rc_gpu_memory_used_mb = None,
        rc_gpu_memory_available_mb = None\<rparr>,
     fc_runtime_health = HEALTHY, fc_total_models = 1, fc_healthy_models = 0, fc_total_versions = 1, fc_ready_versions = 1\<rparr>"

definition demo_register :: RegisterRequest where
  "demo_register = \<lparr>rq_runtime_id = ''rt'', rq_runtime_health = ''healthy'',
     rq_summary = \<lparr>ds_total_models = 1, ds_healthy_models = 1, ds_total_versions = 1, ds_ready_versions = 1\<rparr>,
     rq_models = [\<lparr>dm_model_id = ''m'', dm_health = ''healthy'', dm_total_versions = 1, dm_healthy_versions = 1,
       dm_degraded_versions = 0,
       dm_versions = [\<lparr>dr_version = ''1.0.0'', dr_health = ''healthy'', dr_status = ''ready'', dr_fields = []\<rparr>]\<rparr>],
     rq_capacity = []\<rparr>"

lemma demo_registered: "reach (\<lambda>d. d = []) dirstep (register_runtime 1 demo_register [])"
  by (rule reach_step [where s = "[]"], rule reach_init) (auto intro: dirstep.register)

text \<open>The runtime rt offers m in version 1.0.0; it registers again with the version 2.0.0 of fall, and is pushed down and removed.\<close>

theorem registration_reaches_directory_witness:
  "offered (get_available_models (register_runtime 1 demo_register [])) = {(''m'', ''1.0.0'', ''healthy'', ''ready'', ''rt'')}
   \<and> (\<exists>q. parse_register (registration_payload demo_report) = Some q
     \<and> offered (get_available_models (register_runtime 2 q (register_runtime 1 demo_register [])))
         = {(''fall'', ''2.0.0'', ''degraded'', ''active'', ''rt'')})
   \<and> offered (get_available_models (dir_push_health 2 ''rt'' ''degraded'' [(''m'', ''unhealthy'')] (register_runtime 1 demo_register [])))
       = {(''m'', ''1.0.0'', ''unhealthy'', ''ready'', ''rt'')}
   \<and> offered (get_available_models (deregister_runtime ''rt'' (register_runtime 1 demo_register []))) = {}"
proof -
  let ?d = "register_runtime 1 demo_register []"
  have one: "offered (get_available_models ?d) = {(''m'', ''1.0.0'', ''healthy'', ''ready'', ''rt'')}"
    by (auto simp: register_runtime_def demo_register_def get_available_models_def offered_def offered_at_def serving_def
        offer_def dget_or_def)
  obtain r where r: "dget ?d ''rt'' = Some r" "rr_models r = rq_models demo_register"
    by (simp add: register_runtime_def demo_register_def)
  note all = registration_reaches_directory [OF demo_registered, unfolded one]
  note reg = conjunct1 [OF all [of demo_report 2]] and push = conjunct1 [OF conjunct2 [OF all [of _ 2]]]
    and gone = conjunct2 [OF conjunct2 [OF all]]
  have "\<exists>q. parse_register (registration_payload demo_report) = Some q
     \<and> offered (get_available_models (register_runtime 2 q ?d)) = {(''fall'', ''2.0.0'', ''degraded'', ''active'', ''rt'')}"
  proof -
    have "{(mr_model_id m, vc_version v, health_value (vc_health v), model_status_value (vc_status v), fc_runtime_id demo_report) |m v.
        m \<in> set (fc_models demo_report) \<and> mr_model_id m \<noteq> [] \<and> v \<in> set (mr_versions m)} = {(''fall'', ''2.0.0'', ''degraded'', ''active'', ''rt'')}"
      by (auto simp: demo_report_def demo_capability_def)
    moreover have "fc_runtime_health demo_report \<in> {HEALTHY, DEGRADED}" "fc_runtime_id demo_report = ''rt''"
      by (simp_all add: demo_report_def)
    ultimately show ?thesis using reg by auto
  qed
  moreover have "offered (get_available_models (dir_push_health 2 ''rt'' ''degraded'' [(''m'', ''unhealthy'')] ?d))
       = {(''m'', ''1.0.0'', ''unhealthy'', ''ready'', ''rt'')}"
  proof -
    have "{x \<in> {(''m'', ''1.0.0'', ''healthy'', ''ready'', ''rt'')}. snd (snd (snd (snd x))) \<noteq> ''rt''} = {}" by auto
    moreover have "{(dm_model_id m, dr_version v, (case dget [(''m'', ''unhealthy'')] (dm_model_id m) of Some x \<Rightarrow> x | None \<Rightarrow> dr_health v),
        dr_status v, ''rt'') |m v. m \<in> set (rr_models r) \<and> dm_model_id m \<noteq> [] \<and> v \<in> set (dm_versions m)}
      = {(''m'', ''1.0.0'', ''unhealthy'', ''ready'', ''rt'')}" unfolding r(2) by (auto simp: demo_register_def)
    ultimately show ?thesis
      using push [rule_format, OF r(1), of "''degraded''" "[(''m'', ''unhealthy'')]"] by (simp only: Un_empty_left) simp
  qed
  moreover have "offered (get_available_models (deregister_runtime ''rt'' ?d)) = {}" using gone by auto
  ultimately show ?thesis using one by blast
qed

text \<open>
  Withdrawing a version of a runtime whose models have distinct identifiers takes exactly that version of that model and
  runtime out of what is offered.
\<close>

theorem version_withdrawn:
  assumes "reach (\<lambda>d. d = []) dirstep d" and "\<forall>r. dget d k = Some r \<longrightarrow> distinct (map dm_model_id (rr_models r))"
  shows "offered (get_available_models (dir_deregister_version now k i ver d))
     = {(j, v, h, s, l) \<in> offered (get_available_models d). \<not> (l = k \<and> j = i \<and> v = ver)}"
  using runtime_directory.reach_invar [OF assms(1)] assms(2) by (rule withdrawn_directory)

theorem version_withdrawn_witness:
  "offered (get_available_models (dir_deregister_version 2 ''rt'' ''m'' ''1.0.0'' (register_runtime 1 demo_register []))) = {}"
proof -
  have "\<forall>r. dget (register_runtime 1 demo_register []) ''rt'' = Some r \<longrightarrow> distinct (map dm_model_id (rr_models r))"
    by (simp add: register_runtime_def demo_register_def)
  from version_withdrawn [OF demo_registered this, of 2 "''m''" "''1.0.0''"] show ?thesis
    by (auto simp: register_runtime_def demo_register_def get_available_models_def offered_def offered_at_def serving_def
        offer_def dget_or_def split: if_splits)
qed

section \<open>What the directory does not keep in step\<close>

text \<open>A pushed health is written into a model and its versions; the number of healthy versions stays.\<close>

lemma pushed_health_keeps_counts:
  "\<exists>r m. dget (dir_push_health 2 ''rt'' ''unhealthy'' [(''m'', ''unhealthy'')] (register_runtime 1 demo_register [])) ''rt'' = Some r
     \<and> rr_models r = [m] \<and> dm_health m = ''unhealthy'' \<and> map dr_health (dm_versions m) = [''unhealthy''] \<and> dm_healthy_versions m = 1"
  by (simp add: dir_push_health_def register_runtime_def demo_register_def set_model_health_def)

text \<open>A model whose only version was withdrawn stays listed, and is still counted in the status.\<close>

lemma empty_model_listed:
  "get_available_models (dir_deregister_version 2 ''rt'' ''m'' ''1.0.0'' (register_runtime 1 demo_register []))
     = [(''m'', \<lparr>av_health = ''unavailable'', av_versions = [], av_runtimes = [(''rt'', ''healthy'')]\<rparr>)]
   \<and> dx_total_models (get_runtime_status (dir_deregister_version 2 ''rt'' ''m'' ''1.0.0'' (register_runtime 1 demo_register []))) = 1"
  by (simp add: dir_deregister_version_def register_runtime_def demo_register_def without_version_def
      get_available_models_def serving_def offer_def dget_or_def get_runtime_status_def Let_def)

text \<open>The health of a model is that of the first serving runtime that has it, whatever later ones say.\<close>

lemma first_runtime_decides_health:
  "dm_model_id m \<noteq> [] \<Longrightarrow> dget acc (dm_model_id m) = Some a \<Longrightarrow>
   map_option av_health (dget (offer r m acc) (dm_model_id m)) = Some (av_health a)"
  by (simp add: offer_def dget_or_def Let_def)

end
