(* ===== verification/GeoFencing.thy ===== *)
theory GeoFencing
  imports RuntimePrelude
begin

text \<open>
  \<open>ai/models/geo_fencing/1.0.0/inference.py\<close>: persons found in a frame are tested against polygons
  (ray casting), restricted zones are violated from inside and allowed zones from outside, and the number of
  violating persons and their confidence decide the severity. Parameters are the loading of the weights and
  the detections of the YOLO model; coordinates and confidences are real numbers, the logs and the debug
  images are left out, and the time of a call is not in its result.
\<close>

section \<open>Points in polygons\<close>

type_synonym point = "real \<times> real"

text \<open>
  The body of the loop over the edges. \<open>xinters\<close> keeps its value from one round to the next and
  is unbound at first; reading it unbound raises, which is \<open>None\<close>.
\<close>

fun edge_step :: "point \<Rightarrow> point \<Rightarrow> point \<Rightarrow> real option \<times> bool \<Rightarrow> (real option \<times> bool) option" where
  "edge_step (x, y) (p1x, p1y) (p2x, p2y) (xinters, inside) =
     (if y > min p1y p2y then
        if y \<le> max p1y p2y then
          if x \<le> max p1x p2x then
            let xi = (if p1y \<noteq> p2y then Some ((y - p1y) * (p2x - p1x) / (p2y - p1y) + p1x) else xinters)
            in if p1x = p2x then Some (xi, \<not> inside)
               else (case xi of None \<Rightarrow> None
                     | Some v \<Rightarrow> if x \<le> v then Some (xi, \<not> inside) else Some (xi, inside))
          else Some (xinters, inside)
        else Some (xinters, inside)
      else Some (xinters, inside))"

fun edge_loop :: "point \<Rightarrow> point \<Rightarrow> point list \<Rightarrow> real option \<times> bool \<Rightarrow> bool option" where
  "edge_loop p p1 [] s = Some (snd s)"
| "edge_loop p p1 (p2 # ps) s =
     (case edge_step p p1 p2 s of None \<Rightarrow> None | Some s' \<Rightarrow> edge_loop p p2 ps s')"

text \<open>The loop visits \<open>polygon[1], \<dots>, polygon[n - 1], polygon[0]\<close>; an empty polygon raises.\<close>

fun point_in_polygon :: "point \<Rightarrow> point list \<Rightarrow> bool option" where
  "point_in_polygon p [] = None"
| "point_in_polygon p (q # qs) = edge_loop p q (qs @ [q]) (None, False)"

section \<open>Zones\<close>

record Zone =
  zn_id :: "string option"
  zn_points :: "point list option"
  zn_type :: "string option"

text \<open>What the caller configures; \<open>None\<close> is a missing key.\<close>

record GeoConfig =
  gc_zones :: "Zone list option"
  gc_tank_corners :: "point list option"
  gc_geofence_points :: "point list option"
  gc_conf_threshold :: "real option"
  gc_iou_threshold :: "real option"

definition DEFAULT_CONFIG :: GeoConfig where
  "DEFAULT_CONFIG = \<lparr>gc_zones = Some [], gc_tank_corners = None, gc_geofence_points = None,
     gc_conf_threshold = Some (3 / 10), gc_iou_threshold = Some (1 / 2)\<rparr>"

definition over :: "'a option \<Rightarrow> 'a option \<Rightarrow> 'a option" where
  "over new old = (case new of None \<Rightarrow> old | Some v \<Rightarrow> Some v)"

definition merged_config :: "GeoConfig option \<Rightarrow> GeoConfig" where
  "merged_config c =
     (case c of None \<Rightarrow> DEFAULT_CONFIG
      | Some c \<Rightarrow> \<lparr>gc_zones = over (gc_zones c) (gc_zones DEFAULT_CONFIG),
          gc_tank_corners = over (gc_tank_corners c) (gc_tank_corners DEFAULT_CONFIG),
          gc_geofence_points = over (gc_geofence_points c) (gc_geofence_points DEFAULT_CONFIG),
          gc_conf_threshold = over (gc_conf_threshold c) (gc_conf_threshold DEFAULT_CONFIG),
          gc_iou_threshold = over (gc_iou_threshold c) (gc_iou_threshold DEFAULT_CONFIG)\<rparr>)"

definition or_empty :: "'a list option \<Rightarrow> 'a list" where
  "or_empty x = (case x of None \<Rightarrow> [] | Some v \<Rightarrow> v)"

definition normalize_zones_config :: "GeoConfig \<Rightarrow> Zone list" where
  "normalize_zones_config c =
     (let zones = or_empty (gc_zones c);
          legacy_points = (if or_empty (gc_tank_corners c) \<noteq> [] then or_empty (gc_tank_corners c)
                           else or_empty (gc_geofence_points c))
      in if zones \<noteq> [] then zones
         else if legacy_points \<noteq> []
         then [\<lparr>zn_id = Some ''zone_1'', zn_points = Some legacy_points, zn_type = Some ''restricted''\<rparr>]
         else [])"

section \<open>One frame\<close>

type_synonym box = "real \<times> real \<times> real \<times> real"

fun get_box_center :: "box \<Rightarrow> point" where
  "get_box_center (x1, y1, x2, y2) = ((x1 + x2) / 2, (y1 + y2) / 2)"

definition zone_type :: "Zone \<Rightarrow> string" where
  "zone_type z = (case zn_type z of None \<Rightarrow> ''restricted'' | Some t \<Rightarrow> t)"

definition zone_name :: "Zone \<Rightarrow> string" where
  "zone_name z = (case zn_id z of None \<Rightarrow> ''unknown'' | Some i \<Rightarrow> i)"

text \<open>Whether a person at \<open>p\<close> violates a zone; \<open>None\<close> is a raise.\<close>

definition violates :: "point \<Rightarrow> Zone \<Rightarrow> bool option" where
  "violates p z =
     (let zone_points = or_empty (zn_points z)
      in if length zone_points \<ge> 3 then
           (case point_in_polygon p zone_points of None \<Rightarrow> None
            | Some is_inside \<Rightarrow> Some (zone_type z = ''restricted'' \<and> is_inside
                                  \<or> zone_type z = ''allowed'' \<and> \<not> is_inside))
         else Some False)"

fun first_violated :: "point \<Rightarrow> Zone list \<Rightarrow> Zone option option" where
  "first_violated p [] = Some None"
| "first_violated p (z # zs) =
     (case violates p z of None \<Rightarrow> None
      | Some v \<Rightarrow> if v then Some (Some z) else first_violated p zs)"

record Detection =
  dn_bbox :: box
  dn_confidence :: real
  dn_in_zone :: bool
  dn_zone_id :: "string option"

text \<open>The variables of the loop over the boxes.\<close>

record Tally =
  tl_detections :: "Detection list"
  tl_persons_in_zone :: nat
  tl_max_confidence :: real
  tl_violation_detected :: bool
  tl_zone_id :: "string option"

definition tally_start :: Tally where
  "tally_start = \<lparr>tl_detections = [], tl_persons_in_zone = 0, tl_max_confidence = 0,
     tl_violation_detected = False, tl_zone_id = None\<rparr>"

fun tally_box :: "Zone list \<Rightarrow> box \<times> real \<Rightarrow> Tally \<Rightarrow> Tally option" where
  "tally_box zones (b, conf) t =
     (case first_violated (get_box_center b) zones of
        None \<Rightarrow> None
      | Some None \<Rightarrow> Some (t\<lparr>tl_detections := tl_detections t @
            [\<lparr>dn_bbox = b, dn_confidence = conf, dn_in_zone = False, dn_zone_id = None\<rparr>]\<rparr>)
      | Some (Some z) \<Rightarrow> Some (t\<lparr>tl_detections := tl_detections t @
            [\<lparr>dn_bbox = b, dn_confidence = conf, dn_in_zone = True, dn_zone_id = Some (zone_name z)\<rparr>],
          tl_persons_in_zone := tl_persons_in_zone t + 1,
          tl_max_confidence := (if conf > tl_max_confidence t then conf else tl_max_confidence t),
          tl_violation_detected := True, tl_zone_id := Some (zone_name z)\<rparr>))"

fun tally_boxes :: "Zone list \<Rightarrow> (box \<times> real) list \<Rightarrow> Tally \<Rightarrow> Tally option" where
  "tally_boxes zones [] t = Some t"
| "tally_boxes zones (b # bs) t =
     (case tally_box zones b t of None \<Rightarrow> None | Some t' \<Rightarrow> tally_boxes zones bs t')"

text \<open>The first zone whose \<open>id\<close> is the one of the violation; \<open>get\<close> has no default here.\<close>

definition violation_type :: "Zone list \<Rightarrow> string option \<Rightarrow> string option" where
  "violation_type zones zone_id =
     (case filter (\<lambda>z. zn_id z = zone_id) zones of [] \<Rightarrow> None
      | z # _ \<Rightarrow> Some (if zn_type z = Some ''restricted'' then ''zone_intrusion'' else ''zone_exit''))"

definition severity :: "nat \<Rightarrow> real \<Rightarrow> string" where
  "severity persons conf =
     (if persons \<ge> 3 \<or> conf > 85 / 100 then ''critical''
      else if persons \<ge> 2 \<or> conf > 7 / 10 then ''high'' else ''medium'')"

record GeoResult =
  gr_violation_detected :: bool
  gr_violation_type :: "string option"
  gr_severity :: string
  gr_confidence :: real
  gr_detections :: "Detection list"
  gr_mode :: string
  gr_persons_detected :: nat
  gr_persons_in_zone :: nat

text \<open>What YOLO answers: no results, a result without boxes, or boxes with confidences; or it raises.\<close>

type_synonym ('m, 'f) yolo = "'m \<Rightarrow> 'f \<Rightarrow> real \<Rightarrow> real \<Rightarrow> (box \<times> real) list option"

definition or_half :: "real option \<Rightarrow> real" where
  "or_half x = (case x of None \<Rightarrow> 1 / 2 | Some v \<Rightarrow> v)"

definition run_inference_with_model ::
    "('m, 'f) yolo \<Rightarrow> 'f \<Rightarrow> 'm \<Rightarrow> Zone list \<Rightarrow> GeoConfig \<Rightarrow> GeoResult option" where
  "run_inference_with_model yolo frame model zones c =
     (case yolo model frame (or_half (gc_conf_threshold c)) (or_half (gc_iou_threshold c)) of
        None \<Rightarrow> None
      | Some boxes \<Rightarrow>
          (case tally_boxes zones boxes tally_start of
             None \<Rightarrow> None
           | Some t \<Rightarrow> Some
               \<lparr>gr_violation_detected = tl_violation_detected t,
                gr_violation_type = (if tl_violation_detected t then violation_type zones (tl_zone_id t) else None),
                gr_severity = (if tl_violation_detected t
                               then severity (tl_persons_in_zone t) (tl_max_confidence t) else ''low''),
                gr_confidence = (if tl_violation_detected t then tl_max_confidence t else 0),
                gr_detections = tl_detections t, gr_mode = ''inference'',
                gr_persons_detected = length (tl_detections t),
                gr_persons_in_zone = tl_persons_in_zone t\<rparr>))"

definition stub_response :: GeoResult where
  "stub_response = \<lparr>gr_violation_detected = False, gr_violation_type = None, gr_severity = ''low'',
     gr_confidence = 0, gr_detections = [], gr_mode = ''stub'', gr_persons_detected = 0, gr_persons_in_zone = 0\<rparr>"

section \<open>Calls\<close>

text \<open>
  The two globals of the module: the model, when it has been loaded, and the flag. Loading, which is
  \<open>_lazy_load_model\<close> over the files and the library, is a parameter: \<open>None\<close> is any exception.
\<close>

record 'm GeoModule =
  gm_loaded_model :: "'m option"
  gm_weights_available :: bool

definition geo_module :: "'m GeoModule" where
  "geo_module = \<lparr>gm_loaded_model = None, gm_weights_available = False\<rparr>"

definition ensure_model :: "'m option \<Rightarrow> 'm GeoModule \<Rightarrow> 'm GeoModule" where
  "ensure_model load m =
     (if gm_loaded_model m = None \<and> \<not> gm_weights_available m then
        (case load of Some w \<Rightarrow> \<lparr>gm_loaded_model = Some w, gm_weights_available = True\<rparr>
         | None \<Rightarrow> m\<lparr>gm_weights_available := False\<rparr>)
      else m)"

text \<open>The weights \<open>_lazy_load_model\<close> reads, by the files that exist; \<open>None\<close> is \<open>FileNotFoundError\<close>.\<close>

definition weights_path :: "(string \<Rightarrow> bool) \<Rightarrow> string \<Rightarrow> string option" where
  "weights_path file_exists model_dir =
     (let first = model_dir @ ''/weights/yolov8n.pt''; second = model_dir @ ''/weights/person.pt'';
          path = (if file_exists first then first else second)
      in if file_exists path then Some path else None)"

definition lazy_load_model :: "(string \<Rightarrow> bool) \<Rightarrow> (string \<Rightarrow> 'm option) \<Rightarrow> string \<Rightarrow> 'm option" where
  "lazy_load_model file_exists YOLO model_dir = Option.bind (weights_path file_exists model_dir) YOLO"

datatype 'f frame_arg = NoFrame | NotAnArray | Frame 'f

definition geo_infer ::
    "'m option \<Rightarrow> ('m, 'f) yolo \<Rightarrow> 'f frame_arg \<Rightarrow> GeoConfig option \<Rightarrow> 'm GeoModule
       \<Rightarrow> (py_error + GeoResult) \<times> 'm GeoModule" where
  "geo_infer load yolo frame config m =
     (case frame of
        NoFrame \<Rightarrow> (Inl (ValueError ''Frame is None''), m)
      | NotAnArray \<Rightarrow> (Inl (ValueError ''Frame must be numpy array''), m)
      | Frame f \<Rightarrow>
          (let m' = ensure_model load m; c = merged_config config; zones = normalize_zones_config c
           in (Inr (case gm_loaded_model m' of
                      Some w \<Rightarrow>
                        if gm_weights_available m'
                        then (case run_inference_with_model yolo f w zones c of
                                Some r \<Rightarrow> r | None \<Rightarrow> stub_response)
                        else stub_response
                    | None \<Rightarrow> stub_response), m')))"


section \<open>Lemmas: ray casting\<close>

text \<open>The reference: an edge from \<open>a\<close> to \<open>b\<close> is crossed by the ray from \<open>p\<close> to the right.\<close>

definition crosses :: "point \<Rightarrow> point \<Rightarrow> point \<Rightarrow> bool" where
  "crosses p a b \<longleftrightarrow>
     min (snd a) (snd b) < snd p \<and> snd p \<le> max (snd a) (snd b) \<and> fst p \<le> max (fst a) (fst b)
     \<and> (fst a = fst b \<or> fst p \<le> (snd p - snd a) * (fst b - fst a) / (snd b - snd a) + fst a)"

fun crossings :: "point \<Rightarrow> point list \<Rightarrow> nat" where
  "crossings p (a # b # r) = (if crosses p a b then 1 else 0) + crossings p (b # r)"
| "crossings p r = 0"

lemma edge_step_eq: "\<exists>xi'. edge_step p a b (xi, i) = Some (xi', i \<noteq> crosses p a b)"
  by (cases p; cases a; cases b) (auto simp: crosses_def Let_def split: option.splits)

lemma edge_loop_eq: "edge_loop p a ps (xi, i) = Some (i \<noteq> odd (crossings p (a # ps)))"
proof (induction ps arbitrary: a xi i)
  case Nil
  then show ?case by simp
next
  case (Cons b ps)
  obtain xi' where "edge_step p a b (xi, i) = Some (xi', i \<noteq> crosses p a b)"
    using edge_step_eq by blast
  then show ?case using Cons.IH by auto
qed

lemma point_in_polygon_eq: "point_in_polygon p (q # qs) = Some (odd (crossings p (q # qs @ [q])))"
  by (simp add: edge_loop_eq)

declare point_in_polygon.simps(2) [simp del]

lemma crossings_append: "crossings p (xs @ a # ys) = crossings p (xs @ [a]) + crossings p (a # ys)"
  by (induction p xs rule: crossings.induct) (cases ys; auto)+

lemma xinters_sym:
  "(y::real) = ay \<or> ay \<noteq> b2 \<Longrightarrow> ay \<noteq> b2 \<Longrightarrow>
     (y - ay) * (bx - ax) / (b2 - ay) + ax = (y - b2) * (ax - bx) / (ay - b2) + bx"
  by (simp add: field_simps)

lemma crosses_sym: "crosses p a b = crosses p b a"
proof (cases "snd a = snd b")
  case True
  then show ?thesis by (auto simp: crosses_def)
next
  case False
  then have "(snd p - snd a) * (fst b - fst a) / (snd b - snd a) + fst a
      = (snd p - snd b) * (fst a - fst b) / (snd a - snd b) + fst b"
    by (intro xinters_sym) auto
  then show ?thesis by (auto simp: crosses_def min.commute max.commute)
qed

lemma crossings_rev: "crossings p (rev xs) = crossings p xs"
proof (induction p xs rule: crossings.induct)
  case (1 p a b r)
  have "crossings p (rev (a # b # r)) = crossings p (rev (b # r)) + crossings p [b, a]"
    using crossings_append [of p "rev r" b "[a]"] by simp
  then show ?case using "1.IH" crosses_sym [of p a b] by simp
qed simp_all

lemma xinters_between:
  assumes "(ay::real) \<noteq> b2" "min ay b2 \<le> y" "y \<le> max ay b2" "x \<le> ax" "x \<le> bx"
  shows "x \<le> (y - ay) * (bx - ax) / (b2 - ay) + ax"
proof -
  define t where "t = (y - ay) / (b2 - ay)"
  have t: "0 \<le> t" "t \<le> 1"
    using assms(1-3) by (auto simp: t_def min_def max_def field_simps zero_le_divide_iff divide_le_eq_1 split: if_splits)
  have "x = t * x + (1 - t) * x" by (simp add: algebra_simps)
  also have "\<dots> \<le> t * bx + (1 - t) * ax"
    using t assms(4,5) by (intro add_mono mult_left_mono) auto
  also have "\<dots> = t * (bx - ax) + ax" by (simp add: algebra_simps)
  finally show ?thesis by (simp add: t_def)
qed

lemma crosses_left:
  assumes "fst p \<le> fst a" "fst p \<le> fst b"
  shows "crosses p a b \<longleftrightarrow> (snd a < snd p) \<noteq> (snd b < snd p)"
proof (cases "snd a = snd b")
  case True
  then show ?thesis by (auto simp: crosses_def)
next
  case False
  have "fst p \<le> (snd p - snd a) * (fst b - fst a) / (snd b - snd a) + fst a"
    if "min (snd a) (snd b) < snd p" "snd p \<le> max (snd a) (snd b)"
    using that assms False by (intro xinters_between) auto
  then show ?thesis using assms by (auto simp: crosses_def)
qed

lemma odd_crossings_left:
  "\<forall>q \<in> set (a # r). fst p \<le> fst q \<Longrightarrow>
     odd (crossings p (a # r)) \<longleftrightarrow> (snd a < snd p) \<noteq> (snd (last (a # r)) < snd p)"
proof (induction r arbitrary: a)
  case Nil
  then show ?case by simp
next
  case (Cons b r)
  have "crosses p a b \<longleftrightarrow> (snd a < snd p) \<noteq> (snd b < snd p)"
    using Cons.prems by (intro crosses_left) auto
  then show ?case using Cons by auto
qed

lemma crossings_zero: "(\<And>a b. a \<in> set r \<Longrightarrow> b \<in> set r \<Longrightarrow> \<not> crosses p a b) \<Longrightarrow> crossings p r = 0"
  by (induction p r rule: crossings.induct) auto

lemma inside_in_bounding_box:
  assumes "point_in_polygon p poly = Some True"
  shows "\<exists>a \<in> set poly. \<exists>b \<in> set poly. \<exists>c \<in> set poly. \<exists>d \<in> set poly.
           fst a < fst p \<and> fst p \<le> fst b \<and> snd c < snd p \<and> snd p \<le> snd d"
proof -
  obtain q qs where poly: "poly = q # qs" using assms by (cases poly) auto
  have o: "odd (crossings p (q # qs @ [q]))" using assms poly point_in_polygon_eq by auto
  have set: "set (q # qs @ [q]) = set poly" by (auto simp: poly)
  have left: "\<exists>a \<in> set poly. fst a < fst p"
  proof (rule ccontr)
    assume "\<not> ?thesis"
    then have "\<forall>a \<in> set (q # qs @ [q]). fst p \<le> fst a" unfolding set by (auto simp: not_less)
    from odd_crossings_left [OF this] o show False by simp
  qed
  obtain c d where cd: "c \<in> set poly" "d \<in> set poly" "crosses p c d"
    using o crossings_zero [of "q # qs @ [q]" p] unfolding set by fastforce
  then have "(snd c < snd p \<or> snd d < snd p) \<and> (snd p \<le> snd c \<or> snd p \<le> snd d) \<and> (fst p \<le> fst c \<or> fst p \<le> fst d)"
    by (auto simp: crosses_def)
  then show ?thesis using cd left by blast
qed

section \<open>Lemmas: polygons\<close>

lemma polygon_rotate1: "point_in_polygon p (rotate1 poly) = point_in_polygon p poly"
proof (cases poly)
  case (Cons q qs)
  show ?thesis
  proof (cases qs)
    case (Cons r rs)
    have "crossings p (r # rs @ [q, r]) = crossings p (r # rs @ [q]) + crossings p [q, r]"
      using crossings_append [of p "r # rs" q "[r]"] by simp
    then have "crossings p (r # (rs @ [q]) @ [r]) = crossings p (q # (r # rs) @ [q])" by simp
    then show ?thesis using \<open>poly = q # qs\<close> Cons
      by (simp only: rotate1.simps append_Cons point_in_polygon_eq)
  qed (simp add: \<open>poly = q # qs\<close>)
qed simp

lemma polygon_rotate: "point_in_polygon p (rotate k poly) = point_in_polygon p poly"
  by (induction k) (simp_all add: rotate_Suc polygon_rotate1)

lemma polygon_rev: "point_in_polygon p (rev poly) = point_in_polygon p poly"
proof (cases poly)
  case (Cons q qs)
  have "point_in_polygon p (rev poly) = point_in_polygon p (rotate1 (q # rev qs))" by (simp add: Cons)
  also have "\<dots> = Some (odd (crossings p (q # rev qs @ [q])))"
    by (simp only: polygon_rotate1 point_in_polygon_eq)
  also have "q # rev qs @ [q] = rev (q # qs @ [q])" by simp
  finally show ?thesis unfolding Cons by (simp only: point_in_polygon_eq crossings_rev)
qed simp

lemma polygon_cut:
  "\<exists>i j. point_in_polygon p (a # xs @ [b]) = Some i \<and> point_in_polygon p (b # ys @ [a]) = Some j
     \<and> point_in_polygon p (a # xs @ b # ys) = Some (i \<noteq> j)"
proof -
  have "crossings p (a # xs @ b # ys @ [a]) = crossings p (a # xs @ [b]) + crossings p (b # ys @ [a])"
    using crossings_append [of p "a # xs" b "ys @ [a]"] by simp
  moreover have "crossings p (a # xs @ [b, a]) = crossings p (a # xs @ [b]) + crossings p [b, a]"
    using crossings_append [of p "a # xs" b "[a]"] by simp
  moreover have "crossings p (b # ys @ [a, b]) = crossings p (b # ys @ [a]) + crossings p [a, b]"
    using crossings_append [of p "b # ys" a "[b]"] by simp
  moreover have "crossings p [a, b] = crossings p [b, a]" using crosses_sym [of p a b] by simp
  ultimately have "odd (crossings p (a # xs @ b # ys @ [a]))
      \<longleftrightarrow> odd (crossings p (a # xs @ [b, a])) \<noteq> odd (crossings p (b # ys @ [a, b]))"
    by (cases "crosses p b a") auto
  then show ?thesis
    by (auto simp: point_in_polygon_eq simp del: crossings.simps)
qed

lemma polygon_rectangle:
  "point_in_polygon p [(l, d), (l + \<bar>w\<bar>, d), (l + \<bar>w\<bar>, d + \<bar>h\<bar>), (l, d + \<bar>h\<bar>)]
     = Some (l < fst p \<and> fst p \<le> l + \<bar>w\<bar> \<and> d < snd p \<and> snd p \<le> d + \<bar>h\<bar>)"
proof -
  have "odd (crossings p [(l, d), (l + \<bar>w\<bar>, d), (l + \<bar>w\<bar>, d + \<bar>h\<bar>), (l, d + \<bar>h\<bar>), (l, d)])
      \<longleftrightarrow> l < fst p \<and> fst p \<le> l + \<bar>w\<bar> \<and> d < snd p \<and> snd p \<le> d + \<bar>h\<bar>"
    by (auto simp: crosses_def)
  then show ?thesis by (simp add: point_in_polygon_eq del: crossings.simps)
qed

section \<open>Lemmas: tallies\<close>

text \<open>What it means to offend, written without the loop.\<close>

definition offends :: "box \<Rightarrow> Zone \<Rightarrow> bool" where
  "offends b z \<longleftrightarrow>
     length (or_empty (zn_points z)) \<ge> 3
     \<and> (let i = odd (crossings (get_box_center b) (or_empty (zn_points z) @ [hd (or_empty (zn_points z))]))
        in zone_type z = ''restricted'' \<and> i \<or> zone_type z = ''allowed'' \<and> \<not> i)"

lemma violates_eq: "violates (get_box_center b) z = Some (offends b z)"
proof (cases "or_empty (zn_points z)")
  case Nil
  then show ?thesis by (simp add: violates_def offends_def)
next
  case (Cons q qs)
  have "point_in_polygon (get_box_center b) (or_empty (zn_points z))
      = Some (odd (crossings (get_box_center b) (or_empty (zn_points z) @ [hd (or_empty (zn_points z))])))"
    unfolding Cons by (simp only: point_in_polygon_eq list.sel append_Cons)
  then show ?thesis by (simp add: violates_def offends_def Let_def)
qed

lemma first_violated_eq: "first_violated (get_box_center b) zs = Some (find (offends b) zs)"
  by (induction zs) (auto simp: violates_eq)

definition offender :: "Zone list \<Rightarrow> box \<Rightarrow> bool" where
  "offender zones b \<longleftrightarrow> (\<exists>z\<in>set zones. offends b z)"

definition seen :: "Zone list \<Rightarrow> box \<times> real \<Rightarrow> Detection" where
  "seen zones bc = \<lparr>dn_bbox = fst bc, dn_confidence = snd bc, dn_in_zone = offender zones (fst bc),
     dn_zone_id = map_option zone_name (find (offends (fst bc)) zones)\<rparr>"

definition offenders :: "Zone list \<Rightarrow> (box \<times> real) list \<Rightarrow> (box \<times> real) list" where
  "offenders zones bs = filter (\<lambda>bc. offender zones (fst bc)) bs"

lemma find_None: "find (offends b) zones = None \<longleftrightarrow> \<not> offender zones b"
  by (auto simp: find_None_iff offender_def)

lemma tally_box_eq:
  "\<exists>i. tally_box zones bc t = Some (t\<lparr>tl_detections := tl_detections t @ [seen zones bc],
     tl_persons_in_zone := tl_persons_in_zone t + (if offender zones (fst bc) then 1 else 0),
     tl_max_confidence := (if offender zones (fst bc) then max (tl_max_confidence t) (snd bc)
                           else tl_max_confidence t),
     tl_violation_detected := (tl_violation_detected t \<or> offender zones (fst bc)), tl_zone_id := i\<rparr>)
     \<and> i = (if offender zones (fst bc) then dn_zone_id (seen zones bc) else tl_zone_id t)"
proof (cases "find (offends (fst bc)) zones")
  case None
  then have "\<not> offender zones (fst bc)" by (simp add: find_None)
  with None show ?thesis by (cases bc) (simp add: first_violated_eq seen_def)
next
  case (Some z)
  then have "offender zones (fst bc)" using find_None [of "fst bc" zones] by auto
  with Some show ?thesis
    by (cases bc) (auto simp: first_violated_eq seen_def max_def)
qed

lemma tally_boxes_eq:
  "\<exists>t'. tally_boxes zones bs t = Some t'
     \<and> tl_detections t' = tl_detections t @ map (seen zones) bs
     \<and> tl_persons_in_zone t' = tl_persons_in_zone t + length (offenders zones bs)
     \<and> tl_max_confidence t' = fold max (map snd (offenders zones bs)) (tl_max_confidence t)
     \<and> (tl_violation_detected t' \<longleftrightarrow> tl_violation_detected t \<or> offenders zones bs \<noteq> [])
     \<and> tl_zone_id t' = (if offenders zones bs = [] then tl_zone_id t
                        else dn_zone_id (seen zones (last (offenders zones bs))))"
proof (induction bs arbitrary: t)
  case Nil
  then show ?case by (simp add: offenders_def)
next
  case (Cons bc bs)
  obtain i where i: "tally_box zones bc t = Some (t\<lparr>tl_detections := tl_detections t @ [seen zones bc],
     tl_persons_in_zone := tl_persons_in_zone t + (if offender zones (fst bc) then 1 else 0),
     tl_max_confidence := (if offender zones (fst bc) then max (tl_max_confidence t) (snd bc)
                           else tl_max_confidence t),
     tl_violation_detected := (tl_violation_detected t \<or> offender zones (fst bc)), tl_zone_id := i\<rparr>)"
    (is "_ = Some ?t1") "i = (if offender zones (fst bc) then dn_zone_id (seen zones bc) else tl_zone_id t)"
    using tally_box_eq by blast
  show ?case
  proof (cases "offender zones (fst bc)")
    case True
    then show ?thesis using Cons.IH [of ?t1] i by (auto simp: offenders_def max.commute)
  next
    case False
    then show ?thesis using Cons.IH [of ?t1] i by (auto simp: offenders_def)
  qed
qed

text \<open>The whole result of one frame, written without the loop.\<close>

definition geo_spec :: "Zone list \<Rightarrow> (box \<times> real) list \<Rightarrow> GeoResult" where
  "geo_spec zones bs =
     (let os = offenders zones bs; conf = fold max (map snd os) 0
      in \<lparr>gr_violation_detected = (os \<noteq> []),
          gr_violation_type = (if os = [] then None
                               else violation_type zones (dn_zone_id (seen zones (last os)))),
          gr_severity = (if os = [] then ''low'' else severity (length os) conf),
          gr_confidence = conf, gr_detections = map (seen zones) bs, gr_mode = ''inference'',
          gr_persons_detected = length bs, gr_persons_in_zone = length os\<rparr>)"

lemma run_inference_eq:
  "run_inference_with_model yolo f m zones c =
     map_option (geo_spec zones) (yolo m f (or_half (gc_conf_threshold c)) (or_half (gc_iou_threshold c)))"
proof (cases "yolo m f (or_half (gc_conf_threshold c)) (or_half (gc_iou_threshold c))")
  case None
  then show ?thesis by (simp add: run_inference_with_model_def)
next
  case (Some bs)
  obtain t where "tally_boxes zones bs tally_start = Some t"
     "tl_detections t = map (seen zones) bs"
     "tl_persons_in_zone t = length (offenders zones bs)"
     "tl_max_confidence t = fold max (map snd (offenders zones bs)) 0"
     "tl_violation_detected t \<longleftrightarrow> offenders zones bs \<noteq> []"
     "tl_zone_id t = (if offenders zones bs = [] then None else dn_zone_id (seen zones (last (offenders zones bs))))"
    using tally_boxes_eq [of zones bs tally_start] by (auto simp: tally_start_def)
  with Some show ?thesis by (simp add: run_inference_with_model_def geo_spec_def Let_def)
qed

text \<open>The module over its calls.\<close>

inductive gmstep :: "('m, 'f) yolo \<Rightarrow> 'm GeoModule \<Rightarrow> 'm GeoModule \<Rightarrow> bool" for yolo where
  infer_call: "gmstep yolo m (snd (geo_infer load yolo frame config m))"

inductive_cases gmstepE: "gmstep yolo m m'"

definition geo_ok :: "'m GeoModule \<Rightarrow> bool" where
  "geo_ok m \<longleftrightarrow> (gm_weights_available m \<longleftrightarrow> gm_loaded_model m \<noteq> None)"

lemma ensure_model_ok: "geo_ok m \<Longrightarrow> geo_ok (ensure_model load m)"
  by (auto simp: geo_ok_def ensure_model_def split: option.splits)

lemma gmstep_ok: "gmstep yolo m m' \<Longrightarrow> geo_ok m \<Longrightarrow> geo_ok m'"
  by (elim gmstepE) (auto simp: geo_infer_def Let_def ensure_model_ok split: frame_arg.splits)

interpretation geo_fencing: invariant_system "\<lambda>m. m = geo_module" "gmstep yolo" geo_ok for yolo
  by unfold_locales (auto simp: geo_ok_def geo_module_def dest: gmstep_ok)

section \<open>Properties\<close>

text \<open>
  C23. The test of a point does not depend on the corner a polygon starts with or on its direction, and it adds
  up along a cut: of the two parts of a polygon cut between two corners, a point is inside exactly one if it
  is inside the whole, and inside none or both otherwise. The test of an axis-parallel rectangle is exact,
  with the left and lower sides excluded.
\<close>

theorem polygon_tests_add_up:
  "point_in_polygon p (rotate k poly) = point_in_polygon p poly
   \<and> point_in_polygon p (rev poly) = point_in_polygon p poly
   \<and> (\<exists>i j. point_in_polygon p (a # xs @ [b]) = Some i \<and> point_in_polygon p (b # ys @ [a]) = Some j
        \<and> point_in_polygon p (a # xs @ b # ys) = Some (i \<noteq> j))
   \<and> point_in_polygon p [(l, d), (l + \<bar>w\<bar>, d), (l + \<bar>w\<bar>, d + \<bar>h\<bar>), (l, d + \<bar>h\<bar>)]
       = Some (l < fst p \<and> fst p \<le> l + \<bar>w\<bar> \<and> d < snd p \<and> snd p \<le> d + \<bar>h\<bar>)"
proof (intro conjI)
  show "point_in_polygon p (rotate k poly) = point_in_polygon p poly" by (rule polygon_rotate)
  show "point_in_polygon p (rev poly) = point_in_polygon p poly" by (rule polygon_rev)
  show "\<exists>i j. point_in_polygon p (a # xs @ [b]) = Some i \<and> point_in_polygon p (b # ys @ [a]) = Some j
        \<and> point_in_polygon p (a # xs @ b # ys) = Some (i \<noteq> j)"
    by (rule polygon_cut)
qed (rule polygon_rectangle)

text \<open>
  A person is inside a polygon only within the rectangle around its corners.
\<close>

theorem polygon_inside_box:
  assumes "point_in_polygon p poly = Some True"
  shows "\<exists>a \<in> set poly. \<exists>b \<in> set poly. \<exists>c \<in> set poly. \<exists>d \<in> set poly.
           fst a < fst p \<and> fst p \<le> fst b \<and> snd c < snd p \<and> snd p \<le> snd d"
  using assms by (rule inside_in_bounding_box)

theorem polygon_inside_box_witness:
  "\<exists>a \<in> set [(0, 0), (4, 0), (0, 4)]. \<exists>b \<in> set [(0, 0), (4 :: real, 0 :: real), (0, 4)].
     \<exists>c \<in> set [(0, 0), (4, 0), (0, 4)]. \<exists>d \<in> set [(0, 0), (4, 0), (0, 4 :: real)].
     fst a < (1 :: real) \<and> 1 \<le> fst b \<and> snd c < (1 :: real) \<and> 1 \<le> snd d"
  using polygon_inside_box [of "(1, 1)" "[(0, 0), (4, 0), (0, 4)]"] by (simp add: point_in_polygon_eq crosses_def)

text \<open>
  C22. A frame that is an array is always answered, and from any state the module can reach: with the result of
  the specification for the merged configuration when the model is loaded, or loads now, and does not raise,
  and with the stub otherwise. The result of the specification reports a violation exactly when some
  person offends some zone, counts the offenders, takes the largest of their confidences and derives the
  severity from both.
\<close>

theorem geo_answers:
  assumes "reach (\<lambda>m. m = geo_module) (gmstep yolo) m"
  shows "geo_infer load yolo (Frame f) config m =
     (let model = (if gm_loaded_model m = None then load else gm_loaded_model m); c = merged_config config;
          answer = Option.bind model (\<lambda>w. yolo w f (or_half (gc_conf_threshold c)) (or_half (gc_iou_threshold c)))
      in (Inr (case answer of None \<Rightarrow> stub_response
                | Some bs \<Rightarrow> geo_spec (normalize_zones_config c) bs),
          \<lparr>gm_loaded_model = model, gm_weights_available = (model \<noteq> None)\<rparr>))"
proof -
  have ok: "geo_ok m" using assms by (rule geo_fencing.reach_invar)
  have m: "ensure_model load m =
      (let model = (if gm_loaded_model m = None then load else gm_loaded_model m)
       in \<lparr>gm_loaded_model = model, gm_weights_available = (model \<noteq> None)\<rparr>)"
    using ok by (cases m) (auto simp: geo_ok_def ensure_model_def split: option.splits)
  show ?thesis
    by (auto simp: geo_infer_def m run_inference_eq Let_def split: option.splits)
qed

theorem geo_answers_witness:
  "gr_severity (case fst (geo_infer (Some ()) (\<lambda>_ _ _ _. Some [((0, 0, 2, 2), 9 / 10)]) (Frame ())
     (Some \<lparr>gc_zones = None, gc_tank_corners = Some [(0, 0), (4, 0), (4, 4), (0, 4)],
        gc_geofence_points = None, gc_conf_threshold = None, gc_iou_threshold = None\<rparr>) geo_module)
     of Inr r \<Rightarrow> r) = ''critical''"
  unfolding geo_answers [OF reach_init [of "\<lambda>m. m = geo_module", OF refl]]
  by (simp add: geo_module_def Let_def merged_config_def over_def DEFAULT_CONFIG_def normalize_zones_config_def
      or_empty_def geo_spec_def offenders_def offender_def offends_def zone_type_def crosses_def severity_def)

section \<open>Zones without a key\<close>

text \<open>
  The type defaults to restricted when a zone is tested, and to nothing when the violation is named: somebody
  inside a zone without a type is reported to have left it.
\<close>

lemma untyped_zone_exit:
  "(let z = \<lparr>zn_id = Some ''a'', zn_points = Some [(0, 0), (4, 0), (4, 4), (0, 4)], zn_type = None\<rparr>
    in offends (1, 1, 3, 3) z \<and> gr_violation_type (geo_spec [z] [((1, 1, 3, 3), 1)]) = Some ''zone_exit'')"
  by (simp add: offends_def or_empty_def zone_type_def crosses_def geo_spec_def offenders_def offender_def
      seen_def zone_name_def violation_type_def Let_def)

text \<open>The name defaults to \<open>unknown\<close> when a person is found, and the zone is then looked up by it in vain.\<close>

lemma unnamed_zone_untyped:
  "(let z = \<lparr>zn_id = None, zn_points = Some [(0, 0), (4, 0), (4, 4), (0, 4)], zn_type = Some ''restricted''\<rparr>;
        r = geo_spec [z] [((1, 1, 3, 3), 1)]
    in gr_violation_detected r \<and> gr_violation_type r = None)"
  by (simp add: offends_def or_empty_def zone_type_def crosses_def geo_spec_def offenders_def offender_def
      seen_def zone_name_def violation_type_def Let_def)

text \<open>The type is that of the zone of the person found last.\<close>

lemma last_offender_decides:
  "(let z1 = \<lparr>zn_id = Some ''in'', zn_points = Some [(0, 0), (4, 0), (4, 4), (0, 4)], zn_type = Some ''restricted''\<rparr>;
        z2 = \<lparr>zn_id = Some ''out'', zn_points = Some [(0, 0), (9, 0), (9, 9), (0, 9)], zn_type = Some ''allowed''\<rparr>
    in gr_violation_type (geo_spec [z1, z2] [((1, 1, 3, 3), 1), ((20, 20, 22, 22), 1 / 2)]) = Some ''zone_exit'')"
  by (simp add: offends_def or_empty_def zone_type_def crosses_def geo_spec_def offenders_def offender_def
      seen_def zone_name_def violation_type_def Let_def)

end
