(* ===== verification/TankMonitor.thy ===== *)
theory TankMonitor
  imports RuntimePrelude
begin

text \<open>
  \<open>ai/models/chane_tank_monitor/1.0.0\<close>: the fill of a tank from the share of bright pixels in a circle,
  with a smoothing window, fixed or derived calibration, a displayed value that moves slowly, and sessions
  that are rebuilt when their region or parameters change or frames stop coming. Parameters are the pixels
  \<open>cv2.circle\<close> fills, the unit vectors of the rays, the clock and whether the log file opens. Values are
  real numbers; a smoothing window of 0, whose mean is not a number, and values of other types in the
  configuration are not modelled.
\<close>

section \<open>Frames and regions\<close>

text \<open>A frame after the conversion to grey: its size and the grey value at a row and a column.\<close>

record GreyFrame =
  fm_width :: int
  fm_height :: int
  fm_grey :: "int \<Rightarrow> int \<Rightarrow> int"

text \<open>
  \<open>_extract_box\<close>: the corners of the region cut from the frame, which is empty unless \<open>x0 < x1\<close>
  and \<open>y0 < y1\<close>. The centre is inside the frame and the radius positive, so no corner is negative.
\<close>

definition extract_box :: "GreyFrame \<Rightarrow> int \<Rightarrow> int \<Rightarrow> int \<Rightarrow> int \<times> int \<times> int \<times> int" where
  "extract_box f cx cy r =
     (max 0 (cx - r), max 0 (cy - r), min (fm_width f) (cx + r), min (fm_height f) (cy + r))"

text \<open>
  \<open>cv2.circle(mask, centre, radius, 255, -1)\<close> on a zero mask of \<open>h\<close> rows and \<open>w\<close> columns: whether it
  fills the pixel of a row and a column.
\<close>

type_synonym disc = "int \<Rightarrow> int \<Rightarrow> int \<Rightarrow> int \<Rightarrow> int \<Rightarrow> int \<Rightarrow> int \<Rightarrow> bool"

definition circle_mask :: "disc \<Rightarrow> int \<Rightarrow> int \<Rightarrow> int \<Rightarrow> int \<Rightarrow> bool" where
  "circle_mask disc h w = disc h w (w div 2) (h div 2) (max 1 (min h w div 2 - 2))"

definition positions :: "int \<Rightarrow> int \<Rightarrow> (int \<times> int) list" where
  "positions h w = List.product [0..h - 1] [0..w - 1]"

definition inside :: "disc \<Rightarrow> int \<Rightarrow> int \<Rightarrow> (int \<times> int) list" where
  "inside disc h w = filter (\<lambda>(i, j). circle_mask disc h w i j) (positions h w)"

definition box_grey :: "GreyFrame \<Rightarrow> int \<times> int \<times> int \<times> int \<Rightarrow> int \<times> int \<Rightarrow> int" where
  "box_grey f b q = (case b of (x0, y0, x1, y1) \<Rightarrow> fm_grey f (y0 + fst q) (x0 + snd q))"

definition box_empty :: "int \<times> int \<times> int \<times> int \<Rightarrow> bool" where
  "box_empty b = (case b of (x0, y0, x1, y1) \<Rightarrow> x1 \<le> x0 \<or> y1 \<le> y0)"

text \<open>The grey values of the circle, \<open>None\<close> when the region is empty.\<close>

definition roi_values :: "disc \<Rightarrow> GreyFrame \<Rightarrow> int \<Rightarrow> int \<Rightarrow> int \<Rightarrow> int list option" where
  "roi_values disc f cx cy r =
     (case extract_box f cx cy r of (x0, y0, x1, y1) \<Rightarrow>
        if box_empty (x0, y0, x1, y1) then None
        else Some (map (box_grey f (x0, y0, x1, y1)) (inside disc (y1 - y0) (x1 - x0))))"

definition mean :: "real list \<Rightarrow> real" where
  "mean xs = sum_list xs / real (length xs)"

definition fraction_above :: "real \<Rightarrow> int list \<Rightarrow> real" where
  "fraction_above t vals = real (length (filter (\<lambda>v. real_of_int v > t) vals)) / real (length vals)"

section \<open>Radius of a tank\<close>

definition RAY_EDGE_JUMP :: real where "RAY_EDGE_JUMP = 25"
definition RAY_DIRECTIONS :: int where "RAY_DIRECTIONS = 72"
definition RAY_MAX_LEN_FRAC :: real where "RAY_MAX_LEN_FRAC = 48 / 100"
definition RAY_MIN_VALID_FRAC :: real where "RAY_MIN_VALID_FRAC = 40 / 100"

text \<open>\<open>int\<close> of a number, towards zero, and \<open>round\<close>, ties to the even neighbour.\<close>

definition py_trunc :: "real \<Rightarrow> int" where
  "py_trunc x = (if x < 0 then - \<lfloor>- x\<rfloor> else \<lfloor>x\<rfloor>)"

definition nearest :: "real \<Rightarrow> int" where
  "nearest x = \<lfloor>py_round 0 x\<rfloor>"

text \<open>One ray: the first distance at which the grey value jumps, unless the ray leaves the frame before.\<close>

fun cast_ray :: "GreyFrame \<Rightarrow> real \<Rightarrow> int \<Rightarrow> int \<Rightarrow> real \<times> real \<Rightarrow> int list \<Rightarrow> int option" where
  "cast_ray f interior_mean cx cy dir [] = None"
| "cast_ray f interior_mean cx cy dir (d # ds) =
     (let px = nearest (of_int cx + fst dir * of_int d); py = nearest (of_int cy + snd dir * of_int d)
      in if \<not> (0 \<le> px \<and> px < fm_width f \<and> 0 \<le> py \<and> py < fm_height f) then None
         else if real_of_int (fm_grey f py px) - interior_mean > RAY_EDGE_JUMP then Some d
         else cast_ray f interior_mean cx cy dir ds)"

text \<open>\<open>int(np.median(radii))\<close>.\<close>

definition int_median :: "int list \<Rightarrow> int" where
  "int_median xs =
     (let s = sort xs; n = length s
      in if odd n then s ! (n div 2) else py_trunc (real_of_int (s ! (n div 2 - 1) + s ! (n div 2)) / 2))"

text \<open>The rays, \<open>(cos a, sin a)\<close> of the angles, are an argument.\<close>

definition detect_radius_from_center :: "(real \<times> real) list \<Rightarrow> GreyFrame \<Rightarrow> int \<Rightarrow> int \<Rightarrow> int" where
  "detect_radius_from_center rays f cx cy =
     (let small = min (fm_height f) (fm_width f);
          max_len = py_trunc (of_int small * RAY_MAX_LEN_FRAC);
          interior_r = max 5 (max_len div 10);
          ys = [max 0 (cy - interior_r)..min (fm_height f) (cy + interior_r) - 1];
          xs = [max 0 (cx - interior_r)..min (fm_width f) (cx + interior_r) - 1];
          fallback = py_trunc (of_int small * (15 / 100))
      in if ys = [] \<or> xs = [] then fallback
         else
           (let interior_mean = mean (map (\<lambda>(y, x). real_of_int (fm_grey f y x)) (List.product ys xs));
                radii = List.map_filter
                          (\<lambda>dir. cast_ray f interior_mean cx cy dir [interior_r + 2..max_len - 1]) rays;
                min_valid = py_trunc (of_int RAY_DIRECTIONS * RAY_MIN_VALID_FRAC)
            in if int (length radii) \<ge> min_valid then int_median radii else fallback))"

section \<open>The detector\<close>

record Detector =
  dt_brightness_threshold :: real
  dt_smoothing_window :: int
  dt_fill_calib_min :: real
  dt_fill_calib_max :: real
  dt_history :: "real list"
  dt_auto_calibrate :: bool
  dt_auto_warmup_frames :: int
  dt_auto_prior_span :: real
  dt_auto_min_span :: real
  dt_auto_max_grow_rate :: real
  dt_warmup_samples :: "real list"
  dt_empty_anchor :: "real option"
  dt_auto_max :: real
  dt_frames_seen :: int

text \<open>\<open>deque(maxlen=n)\<close> raises for a negative \<open>n\<close>; \<open>append\<close> drops from the left.\<close>

definition deque_append :: "int \<Rightarrow> 'a \<Rightarrow> 'a list \<Rightarrow> 'a list" where
  "deque_append n x xs = (let ys = xs @ [x] in drop (length ys - nat n) ys)"

text \<open>
  \<open>_auto_max\<close> is \<open>None\<close> exactly as long as \<open>_empty_anchor\<close> is; the model keeps 0 meanwhile.
\<close>

definition BrightnessFillDetector ::
    "real \<Rightarrow> int \<Rightarrow> real \<Rightarrow> real \<Rightarrow> bool \<Rightarrow> int \<Rightarrow> real \<Rightarrow> real \<Rightarrow> real \<Rightarrow> Detector option" where
  "BrightnessFillDetector thr window lo hi auto warmup prior min_span grow =
     (if window < 0 then None
      else Some \<lparr>dt_brightness_threshold = thr, dt_smoothing_window = window,
        dt_fill_calib_min = lo, dt_fill_calib_max = hi, dt_history = [], dt_auto_calibrate = auto,
        dt_auto_warmup_frames = warmup, dt_auto_prior_span = prior, dt_auto_min_span = min_span,
        dt_auto_max_grow_rate = grow, dt_warmup_samples = [], dt_empty_anchor = None,
        dt_auto_max = 0, dt_frames_seen = 0\<rparr>)"

text \<open>The two halves of \<open>_update_auto_calibration\<close>: the anchor, and the growth of the maximum.\<close>

definition update_anchor :: "real \<Rightarrow> Detector \<Rightarrow> Detector" where
  "update_anchor smoothed d =
     (case dt_empty_anchor d of
        Some _ \<Rightarrow> d
      | None \<Rightarrow>
          (let samples = dt_warmup_samples d @ [smoothed]; d' = d\<lparr>dt_warmup_samples := samples\<rparr>
           in if dt_frames_seen d < dt_auto_warmup_frames d then d'
              else (let anchor = sort samples ! (length samples div 2)
                    in d'\<lparr>dt_empty_anchor := Some anchor, dt_auto_max := anchor + dt_auto_prior_span d\<rparr>)))"

definition grow_max :: "real \<Rightarrow> Detector \<Rightarrow> Detector" where
  "grow_max smoothed d =
     (if smoothed > dt_auto_max d
      then d\<lparr>dt_auto_max := min smoothed (dt_auto_max d + dt_auto_max_grow_rate d)\<rparr> else d)"

definition update_auto_calibration :: "real \<Rightarrow> Detector \<Rightarrow> Detector" where
  "update_auto_calibration smoothed d =
     (let d1 = update_anchor smoothed (d\<lparr>dt_frames_seen := dt_frames_seen d + 1\<rparr>)
      in if dt_empty_anchor d1 = None then d1 else grow_max smoothed d1)"

definition active_calibration :: "Detector \<Rightarrow> real \<times> real \<times> string" where
  "active_calibration d =
     (case (dt_auto_calibrate d, dt_empty_anchor d) of
        (True, Some lo) \<Rightarrow> (lo, max (dt_auto_max d) (lo + dt_auto_min_span d), ''auto'')
      | (True, None) \<Rightarrow> (dt_fill_calib_min d, dt_fill_calib_max d, ''auto_warmup'')
      | (False, _) \<Rightarrow> (dt_fill_calib_min d, dt_fill_calib_max d, ''fixed''))"

definition map_to_percent :: "real \<Rightarrow> real \<Rightarrow> real \<Rightarrow> real" where
  "map_to_percent smoothed lo hi =
     (if hi \<le> lo then 0 else max 0 (min 100 ((smoothed - lo) / (hi - lo) * 100)))"

record Signals =
  sg_bright_fraction :: real
  sg_smoothed :: real
  sg_mean_brightness :: real
  sg_fill_raw :: real
  sg_calib_min_active :: real
  sg_calib_max_active :: real
  sg_calib_source :: string

definition no_signals :: "Detector \<Rightarrow> Signals" where
  "no_signals d = (case active_calibration d of (lo, hi, source) \<Rightarrow>
     \<lparr>sg_bright_fraction = 0, sg_smoothed = 0, sg_mean_brightness = 0, sg_fill_raw = 0,
      sg_calib_min_active = lo, sg_calib_max_active = hi, sg_calib_source = source\<rparr>)"

text \<open>The part of \<open>measure\<close> after the fraction of bright pixels is known.\<close>

definition observe :: "real \<Rightarrow> Detector \<Rightarrow> Detector" where
  "observe fraction d =
     (let history = deque_append (dt_smoothing_window d) fraction (dt_history d);
          d1 = d\<lparr>dt_history := history\<rparr>
      in if dt_auto_calibrate d then update_auto_calibration (mean history) d1 else d1)"

definition measure_frame :: "disc \<Rightarrow> GreyFrame \<Rightarrow> int \<Rightarrow> int \<Rightarrow> int \<Rightarrow> Detector \<Rightarrow> Signals \<times> Detector" where
  "measure_frame disc f cx cy r d =
     (case roi_values disc f cx cy r of
        None \<Rightarrow> (no_signals d, d)
      | Some [] \<Rightarrow> (no_signals d, d)
      | Some vals \<Rightarrow>
          (let fraction = fraction_above (dt_brightness_threshold d) vals;
               d' = observe fraction d; smoothed = mean (dt_history d')
           in ((case active_calibration d' of (lo, hi, source) \<Rightarrow>
                \<lparr>sg_bright_fraction = fraction, sg_smoothed = smoothed,
                 sg_mean_brightness = mean (map real_of_int vals),
                 sg_fill_raw = map_to_percent smoothed lo hi,
                 sg_calib_min_active = lo, sg_calib_max_active = hi, sg_calib_source = source\<rparr>), d')))"

text \<open>\<open>sweep\<close>; the percentiles, which only the log of a new session shows, are left out.\<close>

definition sweep :: "disc \<Rightarrow> GreyFrame \<Rightarrow> int \<Rightarrow> int \<Rightarrow> int \<Rightarrow> int list \<Rightarrow> (int, real) dict" where
  "sweep disc f cx cy r thresholds =
     (case roi_values disc f cx cy r of
        None \<Rightarrow> dict_update [] (map (\<lambda>t. (t, 0)) thresholds)
      | Some [] \<Rightarrow> dict_update [] (map (\<lambda>t. (t, 0)) thresholds)
      | Some vals \<Rightarrow> dict_update [] (map (\<lambda>t. (t, fraction_above (of_int t) vals)) thresholds))"

text \<open>\<open>MotionBlendProbe\<close>: the previous region, by its height, width and grey values.\<close>

type_synonym grey_box = "int \<times> int \<times> (int \<times> int \<Rightarrow> int)"

definition motion_update ::
    "disc \<Rightarrow> GreyFrame \<Rightarrow> int \<Rightarrow> int \<Rightarrow> int \<Rightarrow> grey_box option \<Rightarrow> real \<times> grey_box option" where
  "motion_update disc f cx cy r prev =
     (case extract_box f cx cy r of (x0, y0, x1, y1) \<Rightarrow>
        if box_empty (x0, y0, x1, y1) then (0, prev)
        else
          (let h = y1 - y0; w = x1 - x0; grey = box_grey f (x0, y0, x1, y1);
               blend = (case prev of None \<Rightarrow> 0
                 | Some (h', w', grey') \<Rightarrow>
                     if (h', w') = (h, w) then
                       (let vals = map (\<lambda>q. real_of_int \<bar>grey q - grey' q\<bar>) (inside disc h w)
                        in if vals = [] then 0 else mean vals / 255)
                     else 0)
           in (blend, Some (h, w, grey))))"


section \<open>Sessions\<close>

text \<open>
  The configuration of a call; \<open>None\<close> is a missing key. \<open>roi_circle\<close> is \<open>None\<close> too when it is not a
  dictionary with the three keys.
\<close>

record TankConfig =
  tc_stream_id :: "string option"
  tc_roi_circle :: "(int \<times> int \<times> int) option"
  tc_brightness_threshold :: "real option"
  tc_smoothing_window :: "int option"
  tc_fill_calib_min :: "real option"
  tc_fill_calib_max :: "real option"
  tc_auto_calibrate :: "bool option"
  tc_auto_warmup_frames :: "int option"
  tc_auto_prior_span :: "real option"
  tc_auto_min_span :: "real option"
  tc_auto_max_grow_rate :: "real option"
  tc_session_idle_reset_s :: "real option"
  tc_sweep_thresholds :: "int list option"
  tc_display_slew_pct :: "real option"
  tc_display_monotonic :: "bool option"
  tc_fill_time_based :: "bool option"
  tc_fill_time_start_s :: "real option"
  tc_fill_time_end_s :: "real option"
  tc_clip_time_s :: "real option"
  tc_csv_path :: "string option"
  tc_csv_dir :: "string option"

definition or_default :: "'a option \<Rightarrow> 'a \<Rightarrow> 'a" where
  "or_default x d = (case x of None \<Rightarrow> d | Some v \<Rightarrow> v)"

lemma or_default_simps [simp]: "or_default None d = d" "or_default (Some v) d = v"
  by (simp_all add: or_default_def)

definition session_key :: "TankConfig \<Rightarrow> string" where
  "session_key c = or_default (tc_stream_id c) ''default''"

text \<open>\<open>max(lo, min(v, hi))\<close>.\<close>

definition clamp :: "int \<Rightarrow> int \<Rightarrow> int \<Rightarrow> int" where
  "clamp lo hi v = max lo (min v hi)"

definition clamp_circle :: "int \<Rightarrow> int \<Rightarrow> int \<times> int \<times> int \<Rightarrow> int \<times> int \<times> int" where
  "clamp_circle w h q =
     (case q of (cx, cy, r) \<Rightarrow> (clamp 0 (w - 1) cx, clamp 0 (h - 1) cy, clamp 5 (min w h div 2) r))"

definition DEFAULT_DEMO_ROI :: "int \<times> int \<times> int" where "DEFAULT_DEMO_ROI = (800, 546, 503)"
definition DEFAULT_DEMO_ROI_FRAME :: "int \<times> int" where "DEFAULT_DEMO_ROI_FRAME = (1920, 1080)"

type_synonym roi = "(int \<times> int \<times> int) \<times> string"

definition resolve_roi :: "int \<Rightarrow> int \<Rightarrow> TankConfig \<Rightarrow> roi" where
  "resolve_roi w h c =
     (case tc_roi_circle c of
        Some q \<Rightarrow> (clamp_circle w h q, ''config'')
      | None \<Rightarrow>
          if (w, h) = DEFAULT_DEMO_ROI_FRAME then (clamp_circle w h DEFAULT_DEMO_ROI, ''demo_default'')
          else ((w div 2, h div 2, py_trunc (of_int (min h w) * (30 / 100))), ''fallback''))"

text \<open>The log: \<open>csv_path\<close>, the columns, and the rows written while it could be opened.\<close>

definition path_join :: "string \<Rightarrow> string \<Rightarrow> string" where
  "path_join a b = (if a = [] \<or> last a = CHR ''/'' then a @ b else a @ ''/'' @ b)"

definition csv_path_of :: "TankConfig \<Rightarrow> string \<Rightarrow> string" where
  "csv_path_of c key =
     (if truthy_str (tc_csv_path c) then the (tc_csv_path c)
      else path_join (or_default (tc_csv_dir c) ''/tmp/chane_tank_monitor'')
             (map (\<lambda>x. if x = CHR ''/'' then CHR ''_'' else x) key @ ''.csv''))"

definition csv_columns :: "int list \<Rightarrow> string list" where
  "csv_columns thresholds =
     [''frame_n'', ''elapsed_seconds'', ''mean_brightness'', ''motion_blend'']
     @ map (\<lambda>t. ''bright_frac_'' @ show_int t) thresholds @ [''roi_cx'', ''roi_cy'', ''roi_r'', ''roi_source'']"

record CsvRow =
  cr_frame_n :: int
  cr_elapsed_seconds :: real
  cr_mean_brightness :: real
  cr_motion_blend :: real
  cr_bright_fracs :: "real list"
  cr_roi :: roi

record Session =
  ss_detector :: Detector
  ss_motion :: "grey_box option"
  ss_roi :: roi
  ss_frame_n :: int
  ss_start_time :: real
  ss_fill_running_max :: real
  ss_fill_display :: "real option"
  ss_last_frame_time :: real
  ss_csv :: "(string list \<times> CsvRow list) option"
  ss_csv_path :: string
  ss_sweep_thresholds :: "int list"

definition roi_changed :: "TankConfig \<Rightarrow> Session \<Rightarrow> bool" where
  "roi_changed c s =
     (case tc_roi_circle c of None \<Rightarrow> False
      | Some want \<Rightarrow> want \<noteq> fst (ss_roi s) \<or> snd (ss_roi s) \<noteq> ''config'')"

definition differs :: "'a option \<Rightarrow> 'a \<Rightarrow> bool" where
  "differs x v \<longleftrightarrow> or_default x v \<noteq> v"

definition tunables_changed :: "TankConfig \<Rightarrow> Detector \<Rightarrow> bool" where
  "tunables_changed c d \<longleftrightarrow>
     differs (tc_brightness_threshold c) (dt_brightness_threshold d)
     \<or> differs (tc_smoothing_window c) (dt_smoothing_window d)
     \<or> differs (tc_fill_calib_min c) (dt_fill_calib_min d)
     \<or> differs (tc_fill_calib_max c) (dt_fill_calib_max d)
     \<or> differs (tc_auto_calibrate c) (dt_auto_calibrate d)
     \<or> differs (tc_auto_warmup_frames c) (dt_auto_warmup_frames d)
     \<or> differs (tc_auto_prior_span c) (dt_auto_prior_span d)
     \<or> differs (tc_auto_min_span c) (dt_auto_min_span d)
     \<or> differs (tc_auto_max_grow_rate c) (dt_auto_max_grow_rate d)"

definition idle_expired :: "TankConfig \<Rightarrow> real \<Rightarrow> Session \<Rightarrow> bool" where
  "idle_expired c now s \<longleftrightarrow>
     (let idle_reset_s = or_default (tc_session_idle_reset_s c) 5
      in idle_reset_s > 0 \<and> now - ss_last_frame_time s > idle_reset_s)"

definition new_detector :: "TankConfig \<Rightarrow> Detector option" where
  "new_detector c = BrightnessFillDetector
     (or_default (tc_brightness_threshold c) 40) (or_default (tc_smoothing_window c) 51)
     (or_default (tc_fill_calib_min c) (2052 / 10000)) (or_default (tc_fill_calib_max c) (66 / 100))
     (or_default (tc_auto_calibrate c) False) (or_default (tc_auto_warmup_frames c) 30)
     (or_default (tc_auto_prior_span c) (5 / 100)) (or_default (tc_auto_min_span c) (2 / 100))
     (or_default (tc_auto_max_grow_rate c) (2 / 100))"

type_synonym sessions = "(string, Session) dict"

text \<open>
  The readings of the clock of one call, in the order they are made, and whether the log file can be opened.
\<close>

record TankEnv =
  te_clock :: "nat \<Rightarrow> real"
  te_csv_opens :: bool

definition new_session :: "TankEnv \<Rightarrow> GreyFrame \<Rightarrow> TankConfig \<Rightarrow> Session option" where
  "new_session e f c =
     (case new_detector c of None \<Rightarrow> None
      | Some d \<Rightarrow>
          (let thresholds = or_default (tc_sweep_thresholds c) [40, 60, 80, 100, 120, 140, 160, 180]
           in Some \<lparr>ss_detector = d, ss_motion = None, ss_roi = resolve_roi (fm_width f) (fm_height f) c,
                ss_frame_n = 0, ss_start_time = te_clock e 2, ss_fill_running_max = 0, ss_fill_display = None,
                ss_last_frame_time = te_clock e 3,
                ss_csv = (if te_csv_opens e then Some (csv_columns thresholds, []) else None),
                ss_csv_path = csv_path_of c (session_key c), ss_sweep_thresholds = thresholds\<rparr>))"

text \<open>\<open>_get_session\<close>: the session to use and the table; a raise keeps the removal already made.\<close>

definition get_session :: "TankEnv \<Rightarrow> GreyFrame \<Rightarrow> TankConfig \<Rightarrow> sessions \<Rightarrow> Session option \<times> sessions" where
  "get_session e f c m =
     (let key = session_key c;
          stale = (case dget m key of None \<Rightarrow> False
            | Some s \<Rightarrow> roi_changed c s \<or> tunables_changed c (ss_detector s) \<or> idle_expired c (te_clock e 1) s);
          m1 = (if stale then ddel key m else m)
      in case dget m1 key of
           Some s \<Rightarrow> (Some s, m1)
         | None \<Rightarrow> (case new_session e f c of None \<Rightarrow> (None, m1) | Some s \<Rightarrow> (Some s, dput key s m1)))"

section \<open>Inference\<close>

definition time_ramp :: "TankConfig \<Rightarrow> real \<Rightarrow> real" where
  "time_ramp c elapsed =
     (let t0 = or_default (tc_fill_time_start_s c) 110; t1 = or_default (tc_fill_time_end_s c) 928;
          ramp_t = or_default (tc_clip_time_s c) elapsed
      in max 0 (min 100 (if t1 > t0 then (ramp_t - t0) / (t1 - t0) * 100 else 0)))"

definition step_display :: "real \<Rightarrow> real option \<Rightarrow> real \<Rightarrow> real" where
  "step_display slew prev target =
     (case prev of None \<Rightarrow> target
      | Some p \<Rightarrow> if slew \<le> 0 then target else p + max (- slew) (min slew (target - p)))"

definition monotonic :: "TankConfig \<Rightarrow> bool" where
  "monotonic c = or_default (tc_display_monotonic c) False"

definition time_based :: "TankConfig \<Rightarrow> bool" where
  "time_based c = or_default (tc_fill_time_based c) False"

definition slew :: "TankConfig \<Rightarrow> real" where
  "slew c = or_default (tc_display_slew_pct c) (5 / 10)"

record TankResult =
  tr_fill_percentage :: real
  tr_fill_raw :: real
  tr_bright_fraction :: real
  tr_bright_fraction_smoothed :: real
  tr_mean_brightness :: real
  tr_motion_blend :: real
  tr_confidence :: real
  tr_roi :: roi
  tr_frame_n :: int
  tr_fill_source :: string
  tr_calib_source :: string

definition stub_response :: TankResult where
  "stub_response = \<lparr>tr_fill_percentage = 0, tr_fill_raw = 0, tr_bright_fraction = 0,
     tr_bright_fraction_smoothed = 0, tr_mean_brightness = 0, tr_motion_blend = 0, tr_confidence = 0,
     tr_roi = ((0, 0, 0), ''fallback''), tr_frame_n = 0, tr_fill_source = [], tr_calib_source = []\<rparr>"

text \<open>
  One frame in a session, without rounding: the raw and the displayed percentage, the signals, the motion
  and the session after it.
\<close>

definition frame_step ::
    "disc \<Rightarrow> TankEnv \<Rightarrow> GreyFrame \<Rightarrow> TankConfig \<Rightarrow> Session \<Rightarrow> (real \<times> real \<times> Signals \<times> real) \<times> Session" where
  "frame_step disc e f c s =
     (case fst (ss_roi s) of (cx, cy, r) \<Rightarrow>
        let elapsed = te_clock e 5 - ss_start_time s;
            (signals, d) = measure_frame disc f cx cy r (ss_detector s);
            (motion_blend, prev) = motion_update disc f cx cy r (ss_motion s);
            fracs = sweep disc f cx cy r (ss_sweep_thresholds s);
            running_max = max (ss_fill_running_max s) (sg_fill_raw signals);
            fill_raw = (if time_based c then time_ramp c elapsed else sg_fill_raw signals);
            fill = (if time_based c then fill_raw
                    else step_display (slew c) (ss_fill_display s)
                           (if monotonic c then running_max else sg_fill_raw signals));
            row = \<lparr>cr_frame_n = ss_frame_n s + 1, cr_elapsed_seconds = py_round 3 elapsed,
                   cr_mean_brightness = py_round 2 (sg_mean_brightness signals),
                   cr_motion_blend = py_round 5 motion_blend,
                   cr_bright_fracs = map (\<lambda>t. py_round 5 (the (dget fracs t))) (ss_sweep_thresholds s),
                   cr_roi = ss_roi s\<rparr>
        in ((fill, fill_raw, signals, motion_blend),
            s\<lparr>ss_detector := d, ss_motion := prev, ss_frame_n := ss_frame_n s + 1,
              ss_last_frame_time := te_clock e 4, ss_fill_running_max := running_max,
              ss_fill_display := Some fill,
              ss_csv := map_option (\<lambda>(h, rows). (h, rows @ [row])) (ss_csv s)\<rparr>))"

text \<open>
  \<open>infer\<close> on a frame that is an array; any other argument raises \<open>ValueError\<close>. The session object in the
  table is the one that is updated.
\<close>

definition tank_infer ::
    "disc \<Rightarrow> TankEnv \<Rightarrow> GreyFrame option \<Rightarrow> TankConfig \<Rightarrow> sessions \<Rightarrow> (py_error + TankResult) \<times> sessions" where
  "tank_infer disc e frame c m =
     (case frame of
        None \<Rightarrow> (Inl (ValueError ''Frame must be a numpy array''), m)
      | Some f \<Rightarrow>
          (case get_session e f c m of
             (None, m1) \<Rightarrow> (Inr stub_response, m1)
           | (Some s, m1) \<Rightarrow>
               (case frame_step disc e f c s of ((fill, fill_raw, sg, motion_blend), s') \<Rightarrow>
                  (Inr \<lparr>tr_fill_percentage = py_round 2 fill, tr_fill_raw = py_round 2 fill_raw,
                        tr_bright_fraction = py_round 5 (sg_bright_fraction sg),
                        tr_bright_fraction_smoothed = py_round 5 (sg_smoothed sg),
                        tr_mean_brightness = py_round 2 (sg_mean_brightness sg),
                        tr_motion_blend = py_round 5 motion_blend, tr_confidence = 8 / 10,
                        tr_roi = ss_roi s', tr_frame_n = ss_frame_n s',
                        tr_fill_source = (if time_based c then ''time_ramp'' else ''brightness''),
                        tr_calib_source = sg_calib_source sg\<rparr>,
                   dput (session_key c) s' m1))))"

section \<open>Lemmas: percentages\<close>

lemma py_round_range:
  assumes "0 \<le> x" "x \<le> of_nat n"
  shows "0 \<le> py_round d x" "py_round d x \<le> of_nat n"
proof -
  define y where "y = x * 10 ^ d"
  define k where "k = (let f = \<lfloor>y\<rfloor>; r = y - of_int f
      in if r < 1 / 2 then f else if 1 / 2 < r then f + 1 else if even f then f else f + 1)"
  have r: "py_round d x = of_int k / 10 ^ d" by (simp add: py_round_def k_def y_def Let_def)
  have y: "0 \<le> y" "y \<le> of_int (int n * 10 ^ d)" using assms by (simp_all add: y_def)
  have f: "0 \<le> \<lfloor>y\<rfloor>" "\<lfloor>y\<rfloor> \<le> int n * 10 ^ d" using y by (simp_all add: floor_le_iff)
  have "k = \<lfloor>y\<rfloor> \<or> k = \<lfloor>y\<rfloor> + 1 \<and> of_int \<lfloor>y\<rfloor> \<noteq> y" by (auto simp: k_def Let_def)
  moreover have "\<lfloor>y\<rfloor> \<noteq> int n * 10 ^ d" if "of_int \<lfloor>y\<rfloor> \<noteq> y"
  proof
    assume "\<lfloor>y\<rfloor> = int n * 10 ^ d"
    then have "real_of_int \<lfloor>y\<rfloor> = of_int (int n * 10 ^ d)" by (rule arg_cong)
    with y(2) of_int_floor_le [of y] that show False by linarith
  qed
  ultimately have "0 \<le> k \<and> k \<le> int n * 10 ^ d" using f by auto
  then have "(0 :: real) \<le> of_int k \<and> of_int k \<le> (of_int (int n * 10 ^ d) :: real)"
    by (simp only: of_int_le_iff of_int_0_le_iff)
  then show "0 \<le> py_round d x" "py_round d x \<le> of_nat n" by (simp_all add: r field_simps)
qed

definition percent :: "real \<Rightarrow> bool" where
  "percent x \<longleftrightarrow> 0 \<le> x \<and> x \<le> 100"

lemma percent_0 [simp]: "percent 0" by (simp add: percent_def)

lemma percent_map [simp]: "percent (map_to_percent v lo hi)"
  by (auto simp: map_to_percent_def percent_def)

lemma percent_ramp [simp]: "percent (time_ramp c e)"
  by (auto simp: time_ramp_def percent_def Let_def)

lemma percent_max: "percent x \<Longrightarrow> percent y \<Longrightarrow> percent (max x y)"
  by (auto simp: percent_def max_def)

lemma percent_round: "percent x \<Longrightarrow> percent (py_round 2 x)"
  using py_round_range [of x 100 2] by (simp add: percent_def)

lemma step_display_between: "min p t \<le> step_display v (Some p) t \<and> step_display v (Some p) t \<le> max p t"
  by (auto simp: step_display_def min_def max_def)

lemma percent_step:
  assumes "\<And>p. prev = Some p \<Longrightarrow> percent p" "percent t"
  shows "percent (step_display v prev t)"
proof (cases prev)
  case None
  with assms show ?thesis by (simp add: step_display_def)
next
  case (Some p)
  then show ?thesis using assms step_display_between [of p t v] by (auto simp: percent_def)
qed

lemma percent_measure: "percent (sg_fill_raw (fst (measure_frame disc f cx cy r d)))"
  by (auto simp: measure_frame_def no_signals_def Let_def split: option.splits list.splits prod.splits)

section \<open>Lemmas: steps of the sessions\<close>

definition session_ok :: "Session \<Rightarrow> bool" where
  "session_ok s \<longleftrightarrow> percent (ss_fill_running_max s) \<and> (\<forall>v. ss_fill_display s = Some v \<longrightarrow> percent v)
     \<and> 0 \<le> ss_frame_n s"

definition sessions_ok :: "sessions \<Rightarrow> bool" where
  "sessions_ok m \<longleftrightarrow> (\<forall>k s. dget m k = Some s \<longrightarrow> session_ok s)"

lemma frame_step_facts:
  assumes "frame_step disc e f c s = ((fill, raw, sg, blend), s')"
  shows "ss_fill_display s' = Some fill" "ss_frame_n s' = ss_frame_n s + 1" "ss_roi s' = ss_roi s"
    "ss_fill_running_max s' = max (ss_fill_running_max s) (sg_fill_raw sg)"
    "percent (sg_fill_raw sg)" "raw = (if time_based c then time_ramp c (te_clock e 5 - ss_start_time s) else sg_fill_raw sg)"
    "fill = (if time_based c then raw else step_display (slew c) (ss_fill_display s)
               (if monotonic c then ss_fill_running_max s' else raw))"
    "ss_last_frame_time s' = te_clock e 4"
    "ss_detector s' = snd (case fst (ss_roi s) of (cx, cy, r) \<Rightarrow> measure_frame disc f cx cy r (ss_detector s))"
proof -
  obtain cx cy r where q: "fst (ss_roi s) = (cx, cy, r)" by (metis prod_cases3)
  obtain d where d: "measure_frame disc f cx cy r (ss_detector s) = (sg, d)"
    using assms by (auto simp: frame_step_def q Let_def split: prod.splits)
  show "ss_fill_display s' = Some fill" "ss_frame_n s' = ss_frame_n s + 1" "ss_roi s' = ss_roi s"
    "ss_fill_running_max s' = max (ss_fill_running_max s) (sg_fill_raw sg)"
    "raw = (if time_based c then time_ramp c (te_clock e 5 - ss_start_time s) else sg_fill_raw sg)"
    "fill = (if time_based c then raw else step_display (slew c) (ss_fill_display s)
               (if monotonic c then ss_fill_running_max s' else raw))"
    "ss_last_frame_time s' = te_clock e 4"
    "ss_detector s' = snd (case fst (ss_roi s) of (cx, cy, r) \<Rightarrow> measure_frame disc f cx cy r (ss_detector s))"
    using assms by (auto simp: frame_step_def q d Let_def split: prod.splits)
  show "percent (sg_fill_raw sg)" using percent_measure [of disc f cx cy r "ss_detector s"] d by simp
qed

lemma new_session_facts:
  assumes "new_session e f c = Some s"
  shows "ss_fill_display s = None" "ss_frame_n s = 0" "ss_fill_running_max s = 0"
    "ss_roi s = resolve_roi (fm_width f) (fm_height f) c" "new_detector c = Some (ss_detector s)"
  using assms by (auto simp: new_session_def Let_def split: option.splits)

lemma frame_step_ok:
  assumes "frame_step disc e f c s = ((fill, raw, sg, blend), s')" "session_ok s"
  shows "session_ok s' \<and> percent fill \<and> percent raw"
proof -
  note fs = frame_step_facts [OF assms(1)]
  have "percent (ss_fill_running_max s')" using assms(2) fs(4,5) by (auto simp: session_ok_def intro: percent_max)
  moreover have "percent raw" using fs(5,6) by auto
  moreover have "percent fill"
    unfolding fs(7) using calculation assms(2) by (auto simp: session_ok_def intro!: percent_step)
  ultimately show ?thesis using fs(1,2) assms(2) by (auto simp: session_ok_def)
qed

lemma get_session_ok:
  assumes "get_session e f c m = (r, m1)" "sessions_ok m"
  shows "sessions_ok m1" "r = Some s \<Longrightarrow> session_ok s"
proof -
  have new: "new_session e f c = Some s \<Longrightarrow> session_ok s" for s
    using new_session_facts [of e f c s] by (auto simp: session_ok_def)
  then have new': "Some s = new_session e f c \<Longrightarrow> session_ok s" for s by metis
  show "sessions_ok m1" "r = Some s \<Longrightarrow> session_ok s"
    using assms
    by (auto intro: new new' simp: get_session_def sessions_ok_def Let_def split: option.splits if_splits)
qed

lemma tank_infer_ok:
  assumes "tank_infer disc e frame c m = (r, m')" "sessions_ok m"
  shows "sessions_ok m' \<and> (\<forall>t. r = Inr t \<longrightarrow> percent (tr_fill_percentage t) \<and> percent (tr_fill_raw t))"
proof (cases frame)
  case None
  then show ?thesis using assms by (auto simp: tank_infer_def)
next
  case (Some f)
  obtain rs m1 where g: "get_session e f c m = (rs, m1)" by fastforce
  show ?thesis
  proof (cases rs)
    case None
    then show ?thesis using assms Some g get_session_ok [OF g assms(2)]
      by (auto simp: tank_infer_def stub_response_def)
  next
    case rs: (Some s)
    obtain fill raw sg blend s' where fs: "frame_step disc e f c s = ((fill, raw, sg, blend), s')"
      by (metis prod.collapse)
    then show ?thesis
      using assms Some g rs frame_step_ok [OF fs] get_session_ok [OF g assms(2)]
      by (auto simp: tank_infer_def sessions_ok_def intro: percent_round split: if_splits)
  qed
qed

inductive tmstep :: "disc \<Rightarrow> sessions \<Rightarrow> sessions \<Rightarrow> bool" for disc where
  infer_call: "tmstep disc m (snd (tank_infer disc e frame c m))"

inductive_cases tmstepE: "tmstep disc m m'"

interpretation tank_monitor: invariant_system "\<lambda>m. m = []" "tmstep disc" sessions_ok for disc
proof unfold_locales
  show "sessions_ok m'" if "tmstep disc m m'" "sessions_ok m" for m m'
    using that by (elim tmstepE) (metis prod.collapse tank_infer_ok)
qed (simp add: sessions_ok_def)

section \<open>Lemmas: smoothing and calibration\<close>

text \<open>The means a detector with a window of \<open>w\<close> frames sees, one for each fraction.\<close>

definition window_mean :: "nat \<Rightarrow> real list \<Rightarrow> real" where
  "window_mean w fs = mean (drop (length fs - w) fs)"

definition smoothed :: "nat \<Rightarrow> real list \<Rightarrow> real list" where
  "smoothed w fs = map (\<lambda>i. window_mean w (take (Suc i) fs)) [0..<length fs]"

lemma length_smoothed [simp]: "length (smoothed w fs) = length fs"
  by (simp add: smoothed_def)

lemma smoothed_snoc: "smoothed w (fs @ [x]) = smoothed w fs @ [window_mean w (fs @ [x])]"
  by (simp add: smoothed_def)

lemma deque_append_last:
  "deque_append n x (drop (length fs - nat n) fs) = drop (length (fs @ [x]) - nat n) (fs @ [x])"
proof (cases "length fs \<le> nat n")
  case True
  then show ?thesis by (simp add: deque_append_def)
next
  case False
  then have "length (drop (length fs - nat n) fs @ [x]) - nat n = (1 :: nat)" by simp
  then show ?thesis using False by (cases "nat n") (auto simp: deque_append_def Suc_diff_le Suc_diff_Suc)
qed

text \<open>What is true of a detector that has seen the fractions \<open>fs\<close>.\<close>

definition warmup_length :: "int \<Rightarrow> nat" where
  "warmup_length n = nat (max 1 n)"

definition seen_by :: "Detector \<Rightarrow> real list \<Rightarrow> Detector \<Rightarrow> bool" where
  "seen_by d0 fs d \<longleftrightarrow>
     (let w = nat (dt_smoothing_window d0); k = warmup_length (dt_auto_warmup_frames d0)
      in dt_history d = drop (length fs - w) fs
         \<and> dt_frames_seen d = int (length fs)
         \<and> dt_warmup_samples d = take k (smoothed w fs)
         \<and> dt_empty_anchor d = (if length fs < k then None
                                else Some (sort (take k (smoothed w fs)) ! (k div 2)))
         \<and> (k \<le> length fs \<longrightarrow>
              (let anchor = sort (take k (smoothed w fs)) ! (k div 2)
               in anchor + dt_auto_prior_span d0 \<le> dt_auto_max d
                  \<and> dt_auto_max d \<le> anchor + dt_auto_prior_span d0
                       + real (length fs + 1 - k) * dt_auto_max_grow_rate d0)))"

definition same_tunables :: "Detector \<Rightarrow> Detector \<Rightarrow> bool" where
  "same_tunables d0 d \<longleftrightarrow>
     dt_brightness_threshold d = dt_brightness_threshold d0
     \<and> dt_smoothing_window d = dt_smoothing_window d0 \<and> dt_fill_calib_min d = dt_fill_calib_min d0
     \<and> dt_fill_calib_max d = dt_fill_calib_max d0 \<and> dt_auto_calibrate d = dt_auto_calibrate d0
     \<and> dt_auto_warmup_frames d = dt_auto_warmup_frames d0 \<and> dt_auto_prior_span d = dt_auto_prior_span d0
     \<and> dt_auto_min_span d = dt_auto_min_span d0 \<and> dt_auto_max_grow_rate d = dt_auto_max_grow_rate d0"

lemma same_tunables_observe: "same_tunables d (observe x d)"
  by (auto simp: same_tunables_def observe_def update_auto_calibration_def update_anchor_def grow_max_def Let_def
      split: option.splits)

lemma same_tunables_trans: "same_tunables a b \<Longrightarrow> same_tunables b c \<Longrightarrow> same_tunables a c"
  by (simp add: same_tunables_def)

lemma same_tunables_measure: "same_tunables d (snd (measure_frame disc f cx cy r d))"
  using same_tunables_observe
  by (auto simp: measure_frame_def Let_def same_tunables_def split: option.splits list.splits)

lemma grow_max_bounds:
  assumes "0 \<le> dt_auto_max_grow_rate d"
  shows "dt_auto_max d \<le> dt_auto_max (grow_max v d)"
    "dt_auto_max (grow_max v d) \<le> dt_auto_max d + dt_auto_max_grow_rate d"
  using assms by (auto simp: grow_max_def)

lemma grow_max_keeps [simp]:
  "dt_history (grow_max v d) = dt_history d" "dt_frames_seen (grow_max v d) = dt_frames_seen d"
  "dt_warmup_samples (grow_max v d) = dt_warmup_samples d" "dt_empty_anchor (grow_max v d) = dt_empty_anchor d"
  by (simp_all add: grow_max_def)

lemma seen_by_step:
  assumes s: "seen_by d0 fs d" "same_tunables d0 d" and auto: "dt_auto_calibrate d0"
    and grow: "0 \<le> dt_auto_max_grow_rate d0"
  shows "seen_by d0 (fs @ [x]) (observe x d)"
proof -
  define w where "w = nat (dt_smoothing_window d0)"
  define k where "k = warmup_length (dt_auto_warmup_frames d0)"
  define v where "v = window_mean w (fs @ [x])"
  define h where "h = drop (length (fs @ [x]) - w) (fs @ [x])"
  define d1 where "d1 = d\<lparr>dt_history := h, dt_frames_seen := dt_frames_seen d + 1\<rparr>"
  have k: "0 < k" "dt_auto_warmup_frames d0 \<le> int k" "\<And>n. int n < dt_auto_warmup_frames d0 \<or> n = 0 \<longleftrightarrow> n < k"
    by (auto simp: k_def warmup_length_def)
  note sd = s(1) [unfolded seen_by_def Let_def, folded w_def k_def]
  have hist: "deque_append (dt_smoothing_window d) x (dt_history d) = h"
    using sd s(2) deque_append_last [of "dt_smoothing_window d0" x fs]
    by (simp add: same_tunables_def h_def w_def)
  have obs: "observe x d = update_auto_calibration v (d\<lparr>dt_history := h\<rparr>)"
  proof -
    have "mean h = v" "dt_auto_calibrate d"
      using s(2) auto by (simp_all add: v_def window_mean_def h_def same_tunables_def)
    then show ?thesis by (simp add: observe_def hist Let_def)
  qed
  have rates: "dt_auto_max_grow_rate d = dt_auto_max_grow_rate d0" "dt_auto_prior_span d = dt_auto_prior_span d0"
    "dt_auto_warmup_frames d = dt_auto_warmup_frames d0"
    using s(2) by (simp_all add: same_tunables_def)
  consider (warm) "length (fs @ [x]) < k" | (now) "length (fs @ [x]) = k" | (after) "k \<le> length fs" by fastforce
  then show ?thesis
  proof cases
    case warm
    then have "int (length (fs @ [x])) < dt_auto_warmup_frames d0" using k(3) [of "length (fs @ [x])"] by auto
    then show ?thesis
      using sd warm rates
      by (simp add: seen_by_def Let_def flip: w_def k_def)
        (simp add: obs update_auto_calibration_def update_anchor_def Let_def smoothed_snoc v_def h_def)
  next
    case now
    then have n: "\<not> int (length fs) + 1 < dt_auto_warmup_frames d0" using k(2) by simp
    define anchor where "anchor = sort (smoothed w (fs @ [x])) ! (k div 2)"
    have t: "take k (smoothed w (fs @ [x])) = smoothed w (fs @ [x])" using now by simp
    define d2 where "d2 = d1\<lparr>dt_warmup_samples := smoothed w (fs @ [x]), dt_empty_anchor := Some anchor,
      dt_auto_max := anchor + dt_auto_prior_span d0\<rparr>"
    have "update_anchor v d1 = d2"
      using sd now n rates
      by (simp add: update_anchor_def d1_def d2_def anchor_def Let_def smoothed_snoc v_def)
    then have o: "observe x d = grow_max v d2"
      by (simp add: obs update_auto_calibration_def Let_def d1_def d2_def)
    have g: "dt_auto_max d2 \<le> dt_auto_max (grow_max v d2)"
      "dt_auto_max (grow_max v d2) \<le> dt_auto_max d2 + dt_auto_max_grow_rate d0"
      using grow_max_bounds [of d2 v] grow rates by (simp_all add: d2_def d1_def)
    show ?thesis
      unfolding seen_by_def Let_def w_def [symmetric] k_def [symmetric] t o
      using g sd now by (auto simp: d2_def d1_def h_def anchor_def)
  next
    case after
    have t: "take k (smoothed w (fs @ [x])) = take k (smoothed w fs)" using after by (simp add: smoothed_snoc)
    define anchor where "anchor = sort (take k (smoothed w fs)) ! (k div 2)"
    have o: "observe x d = grow_max v d1"
      using sd after by (simp add: obs update_auto_calibration_def update_anchor_def Let_def d1_def)
    have g: "dt_auto_max d \<le> dt_auto_max (grow_max v d1)"
      "dt_auto_max (grow_max v d1) \<le> dt_auto_max d + dt_auto_max_grow_rate d0"
      using grow_max_bounds [of d1 v] grow rates by (simp_all add: d1_def)
    have l: "real (length (fs @ [x]) + 1 - k) * dt_auto_max_grow_rate d0
        = real (length fs + 1 - k) * dt_auto_max_grow_rate d0 + dt_auto_max_grow_rate d0"
      using after by (simp add: of_nat_diff algebra_simps)
    show ?thesis
      unfolding seen_by_def Let_def w_def [symmetric] k_def [symmetric] t o l
      using g sd after by (auto simp: d1_def h_def)
  qed
qed

lemma seen_by_fold:
  assumes "dt_auto_calibrate d0" "0 \<le> dt_auto_max_grow_rate d0" "seen_by d0 [] d0"
  shows "seen_by d0 fs (fold observe fs d0) \<and> same_tunables d0 (fold observe fs d0)"
proof (induction fs rule: rev_induct)
  case Nil
  with assms show ?case by (simp add: same_tunables_def)
next
  case (snoc x fs)
  then show ?case
    using seen_by_step [of d0 fs _ x] assms same_tunables_observe same_tunables_trans by (fastforce simp: fold_append)
qed

lemma seen_by_start: "BrightnessFillDetector thr win lo hi auto warmup prior msp grow = Some d \<Longrightarrow> seen_by d [] d"
  by (auto simp: BrightnessFillDetector_def seen_by_def warmup_length_def smoothed_def split: if_splits)

section \<open>Lemmas: the life of a session\<close>

text \<open>The session a call continues, if it does.\<close>

definition continues :: "TankEnv \<Rightarrow> TankConfig \<Rightarrow> Session \<Rightarrow> bool" where
  "continues e c s \<longleftrightarrow> \<not> roi_changed c s \<and> \<not> tunables_changed c (ss_detector s) \<and> \<not> idle_expired c (te_clock e 1) s"

lemma get_session_continues:
  "dget m (session_key c) = Some s \<Longrightarrow> continues e c s \<Longrightarrow> get_session e f c m = (Some s, m)"
  by (simp add: get_session_def continues_def)

lemma get_session_new:
  assumes "case dget m (session_key c) of None \<Rightarrow> True | Some s \<Rightarrow> \<not> continues e c s"
    "get_session e f c m = (Some s', m')"
  shows "new_session e f c = Some s'"
  using assms by (auto simp: get_session_def continues_def Let_def split: option.splits if_splits)

lemma tank_infer_continues:
  assumes "dget m (session_key c) = Some s" "continues e c s"
  shows "\<exists>fill raw sg blend s'. frame_step disc e f c s = ((fill, raw, sg, blend), s')
     \<and> dget (snd (tank_infer disc e (Some f) c m)) (session_key c) = Some s'
     \<and> (\<exists>t. fst (tank_infer disc e (Some f) c m) = Inr t \<and> tr_frame_n t = ss_frame_n s')"
proof -
  obtain fill raw sg blend s' where "frame_step disc e f c s = ((fill, raw, sg, blend), s')"
    by (metis prod.collapse)
  then show ?thesis by (simp add: tank_infer_def get_session_continues [OF assms])
qed

lemma differs_or_default [simp]: "differs x (or_default x v) = False"
  by (cases x) (simp_all add: differs_def)

lemma new_detector_unchanged: "new_detector c = Some d \<Longrightarrow> same_tunables d d' \<Longrightarrow> \<not> tunables_changed c d'"
  unfolding new_detector_def BrightnessFillDetector_def
  by (clarsimp simp: same_tunables_def tunables_changed_def split: if_splits)

lemma new_detector_some: "0 \<le> or_default (tc_smoothing_window c) 51 \<longleftrightarrow> new_detector c \<noteq> None"
  by (simp add: new_detector_def BrightnessFillDetector_def)

text \<open>The region of a new session is the requested one exactly when it lies in the frame.\<close>

lemma roi_changed_new:
  "roi_changed c s \<longleftrightarrow>
     (case tc_roi_circle c of None \<Rightarrow> False | Some q \<Rightarrow> clamp_circle w h q \<noteq> q)"
  if "ss_roi s = resolve_roi w h c"
  using that by (auto simp: roi_changed_def resolve_roi_def split: option.splits)

text \<open>A call that has to make a session leaves one that answers the same configuration.\<close>

lemma tank_infer_fresh:
  assumes "dget m (session_key c) = None" "new_detector c \<noteq> None"
  obtains s where "dget (snd (tank_infer disc e (Some f) c m)) (session_key c) = Some s"
    "ss_frame_n s = 1" "ss_roi s = resolve_roi (fm_width f) (fm_height f) c"
    "\<not> tunables_changed c (ss_detector s)" "ss_last_frame_time s = te_clock e 4"
    "\<exists>t. fst (tank_infer disc e (Some f) c m) = Inr t \<and> tr_frame_n t = 1"
proof -
  obtain s0 where s0: "new_session e f c = Some s0"
    using assms(2) by (auto simp: new_session_def Let_def)
  obtain fill raw sg blend s where fs: "frame_step disc e f c s0 = ((fill, raw, sg, blend), s)"
    by (metis prod.collapse)
  have g: "get_session e f c m = (Some s0, dput (session_key c) s0 m)"
    using assms(1) s0 by (simp add: get_session_def)
  note n = new_session_facts [OF s0]
  note facts = frame_step_facts [OF fs]
  have "same_tunables (ss_detector s0) (ss_detector s)"
    unfolding facts(9) using same_tunables_measure by (auto split: prod.splits)
  then have "\<not> tunables_changed c (ss_detector s)" using n(5) new_detector_unchanged by blast
  then show thesis
    using that [of s] fs g n facts by (simp add: tank_infer_def)
qed

lemma same_frame_number:
  assumes "dget m (session_key c) = Some s" "\<not> continues e c s" "new_detector c \<noteq> None"
  shows "\<exists>t. fst (tank_infer disc e (Some f) c m) = Inr t \<and> tr_frame_n t = 1"
proof -
  have "get_session e f c m = get_session e f c (ddel (session_key c) m)"
    using assms(1,2) by (auto simp: get_session_def continues_def Let_def)
  then have "tank_infer disc e (Some f) c m = tank_infer disc e (Some f) c (ddel (session_key c) m)"
    by (simp add: tank_infer_def)
  then show ?thesis
    using tank_infer_fresh [of "ddel (session_key c) m" c disc e f] assms(3) by (metis dget_ddel)
qed

lemma second_frame_number:
  assumes m: "dget m (session_key c) = None" and w: "0 \<le> or_default (tc_smoothing_window c) 51"
  shows "\<exists>t. fst (tank_infer disc e2 (Some f2) c (snd (tank_infer disc e1 (Some f1) c m))) = Inr t
     \<and> tr_frame_n t =
        (if (case tc_roi_circle c of None \<Rightarrow> True | Some q \<Rightarrow> clamp_circle (fm_width f1) (fm_height f1) q = q)
            \<and> (let idle = or_default (tc_session_idle_reset_s c) 5
               in 0 < idle \<longrightarrow> te_clock e2 1 - te_clock e1 4 \<le> idle)
         then 2 else 1)"
proof -
  let ?m = "snd (tank_infer disc e1 (Some f1) c m)"
  have d: "new_detector c \<noteq> None" using w new_detector_some by blast
  obtain s where s: "dget ?m (session_key c) = Some s" "ss_frame_n s = 1"
    "ss_roi s = resolve_roi (fm_width f1) (fm_height f1) c"
    "\<not> tunables_changed c (ss_detector s)" "ss_last_frame_time s = te_clock e1 4"
    by (rule tank_infer_fresh [OF m d, of disc e1 f1])
  have c: "continues e2 c s \<longleftrightarrow>
      (case tc_roi_circle c of None \<Rightarrow> True | Some q \<Rightarrow> clamp_circle (fm_width f1) (fm_height f1) q = q)
      \<and> (let idle = or_default (tc_session_idle_reset_s c) 5
         in 0 < idle \<longrightarrow> te_clock e2 1 - te_clock e1 4 \<le> idle)"
    using s(4,5) by (auto simp: continues_def roi_changed_new [OF s(3)] idle_expired_def Let_def split: option.splits)
  show ?thesis
  proof (cases "continues e2 c s")
    case True
    obtain fill raw sg blend s' where "frame_step disc e2 f2 c s = ((fill, raw, sg, blend), s')"
       "\<exists>t. fst (tank_infer disc e2 (Some f2) c ?m) = Inr t \<and> tr_frame_n t = ss_frame_n s'"
      using tank_infer_continues [OF s(1) True, of disc f2] by blast
    then show ?thesis using True s(2) frame_step_facts(2) unfolding c [symmetric] by fastforce
  next
    case False
    then show ?thesis using same_frame_number [OF s(1) False d, of disc f2] unfolding c [symmetric] by auto
  qed
qed

section \<open>Lemmas: rays\<close>

lemma cast_ray_in: "cast_ray f v cx cy dir ds = Some d \<Longrightarrow> d \<in> set ds"
  by (induction ds) (auto simp: Let_def split: if_splits)

lemma int_median_range:
  assumes "xs \<noteq> []" "\<And>x. x \<in> set xs \<Longrightarrow> 0 \<le> lo \<and> lo \<le> x \<and> x \<le> hi"
  shows "lo \<le> int_median xs \<and> int_median xs \<le> hi"
proof -
  define s where "s = sort xs"
  have l: "length s = length xs" "0 < length s" using assms(1) by (auto simp: s_def)
  have s: "lo \<le> s ! i \<and> s ! i \<le> hi \<and> 0 \<le> lo" if "i < length s" for i
    using assms(2) nth_mem [OF that] by (auto simp: s_def)
  show ?thesis
  proof (cases "odd (length s)")
    case True
    then show ?thesis using s [of "length s div 2"] l by (simp add: int_median_def Let_def flip: s_def)
  next
    case False
    have "length s div 2 < length s" using l(2) by simp
    moreover from this have "length s div 2 - 1 < length s" by linarith
    ultimately have "length s div 2 - 1 < length s" "length s div 2 < length s" by blast+
    note a = s [OF this(1)] and b = s [OF this(2)]
    define v where "v = real_of_int (s ! (length s div 2 - 1) + s ! (length s div 2)) / 2"
    have "2 * lo \<le> s ! (length s div 2 - 1) + s ! (length s div 2)"
      "s ! (length s div 2 - 1) + s ! (length s div 2) \<le> 2 * hi" using a b by auto
    then have "real_of_int (2 * lo) \<le> 2 * v" "2 * v \<le> real_of_int (2 * hi)"
      unfolding v_def by (simp_all only: of_int_le_iff mult_2 field_sum_of_halves)
    then have v: "real_of_int lo \<le> v" "v \<le> real_of_int hi" by simp_all
    then have "py_trunc v = \<lfloor>v\<rfloor>" "lo \<le> \<lfloor>v\<rfloor>" "\<lfloor>v\<rfloor> \<le> hi"
      using a by (auto simp: py_trunc_def le_floor_iff floor_le_iff)
    then show ?thesis using False by (simp add: int_median_def Let_def v_def flip: s_def)
  qed
qed

lemma detect_radius_range:
  "detect_radius_from_center rays f cx cy = py_trunc (of_int (min (fm_height f) (fm_width f)) * (15 / 100))
   \<or> 7 \<le> detect_radius_from_center rays f cx cy
     \<and> detect_radius_from_center rays f cx cy < py_trunc (of_int (min (fm_height f) (fm_width f)) * RAY_MAX_LEN_FRAC)"
proof -
  define max_len where "max_len = py_trunc (of_int (min (fm_height f) (fm_width f)) * RAY_MAX_LEN_FRAC)"
  define interior_r where "interior_r = max 5 (max_len div 10)"
  define radii where "radii v = List.map_filter
      (\<lambda>dir. cast_ray f v cx cy dir [interior_r + 2..max_len - 1]) rays" for v
  have n: "py_trunc (of_int RAY_DIRECTIONS * RAY_MIN_VALID_FRAC) = 28"
    by (simp add: py_trunc_def RAY_DIRECTIONS_def RAY_MIN_VALID_FRAC_def)
  have r: "7 \<le> int_median (radii v) \<and> int_median (radii v) < max_len" if "28 \<le> int (length (radii v))" for v
  proof -
    have "0 \<le> (7 :: int) \<and> 7 \<le> x \<and> x \<le> max_len - 1" if "x \<in> set (radii v)" for x
      using that cast_ray_in [of f v cx cy _ "[interior_r + 2..max_len - 1]" x]
      by (fastforce simp: radii_def map_filter_def interior_r_def)
    moreover have "radii v \<noteq> []" using \<open>28 \<le> _\<close> by auto
    ultimately show ?thesis using int_median_range [of "radii v" 7 "max_len - 1"] by auto
  qed
  show ?thesis
    unfolding detect_radius_from_center_def Let_def n max_len_def [symmetric] interior_r_def [symmetric]
      radii_def [symmetric]
    using r by auto
qed

section \<open>Properties\<close>

text \<open>
  Whatever frames, configurations and readings of the clock the calls of a stream meet, the displayed and
  the raw percentage of every answer lie between 0 and 100.
\<close>

theorem fill_in_range:
  assumes "reach (\<lambda>m. m = []) (tmstep disc) m"
    and "fst (tank_infer disc e frame c m) = Inr t"
  shows "0 \<le> tr_fill_percentage t \<and> tr_fill_percentage t \<le> 100 \<and> 0 \<le> tr_fill_raw t \<and> tr_fill_raw t \<le> 100"
  using tank_monitor.reach_invar [OF assms(1)] assms(2) tank_infer_ok [of disc e frame c m]
  by (metis percent_def prod.collapse)

text \<open>A call without any key in its configuration, on a dark frame of 20 by 20.\<close>

definition no_config :: TankConfig where
  "no_config = \<lparr>tc_stream_id = None, tc_roi_circle = None, tc_brightness_threshold = None,
     tc_smoothing_window = None, tc_fill_calib_min = None, tc_fill_calib_max = None, tc_auto_calibrate = None,
     tc_auto_warmup_frames = None, tc_auto_prior_span = None, tc_auto_min_span = None,
     tc_auto_max_grow_rate = None, tc_session_idle_reset_s = None, tc_sweep_thresholds = None,
     tc_display_slew_pct = None, tc_display_monotonic = None, tc_fill_time_based = None,
     tc_fill_time_start_s = None, tc_fill_time_end_s = None, tc_clip_time_s = None, tc_csv_path = None,
     tc_csv_dir = None\<rparr>"

definition clock_at :: "real \<Rightarrow> TankEnv" where
  "clock_at t = \<lparr>te_clock = (\<lambda>_. t), te_csv_opens = False\<rparr>"

definition dark :: GreyFrame where
  "dark = \<lparr>fm_width = 20, fm_height = 20, fm_grey = (\<lambda>_ _. 0)\<rparr>"

definition no_disc :: disc where
  "no_disc _ _ _ _ _ _ _ = False"

lemma no_disc_values: "roi_values no_disc f cx cy r = (if box_empty (extract_box f cx cy r) then None else Some [])"
  by (auto simp: roi_values_def inside_def circle_mask_def no_disc_def extract_box_def)

lemma first_call:
  assumes "tc_smoothing_window c = None" "dget m (session_key c) = None"
  shows "\<exists>t. fst (tank_infer no_disc (clock_at x) (Some dark) c m) = Inr t"
  using tank_infer_fresh [of m c no_disc "clock_at x" dark] assms new_detector_some [of c] by fastforce

theorem fill_in_range_witness:
  "\<exists>t. fst (tank_infer no_disc (clock_at 0) (Some dark) no_config []) = Inr t
     \<and> 0 \<le> tr_fill_percentage t \<and> tr_fill_percentage t \<le> 100"
proof -
  obtain t where "fst (tank_infer no_disc (clock_at 0) (Some dark) no_config []) = Inr t"
    using first_call [of no_config "[]"] by (auto simp: no_config_def)
  with fill_in_range [OF reach_init [of "\<lambda>m. m = []", OF refl] this] show ?thesis by blast
qed

text \<open>
  C21. While a session continues, a step is configured that is more than zero and the display is not a ramp of time, the value
  displayed (as the session keeps it, before it is rounded for the answer) moves by at most the configured step from one
  frame to the next. In the monotonic mode it moreover does not fall and does not pass the highest reading, provided
  it was not above the highest reading before; after a switch from a ramp of time it can be, and then it falls
  (\<open>ramp_then_falls\<close>).
\<close>

theorem display_moves_slowly:
  assumes "dget m (session_key c) = Some s" "continues e c s" "ss_fill_display s = Some p"
    and "0 < slew c" "\<not> time_based c"
  shows "\<exists>s' v. dget (snd (tank_infer disc e (Some f) c m)) (session_key c) = Some s'
     \<and> ss_fill_display s' = Some v \<and> \<bar>v - p\<bar> \<le> slew c
     \<and> (monotonic c \<and> p \<le> ss_fill_running_max s \<longrightarrow> p \<le> v \<and> v \<le> ss_fill_running_max s')"
proof -
  obtain fill raw sg blend s' where fs: "frame_step disc e f c s = ((fill, raw, sg, blend), s')"
    and s': "dget (snd (tank_infer disc e (Some f) c m)) (session_key c) = Some s'"
    using tank_infer_continues [OF assms(1,2), of disc f] by blast
  note facts = frame_step_facts [OF fs]
  have fill: "fill = step_display (slew c) (Some p) (if monotonic c then ss_fill_running_max s' else raw)"
    using facts(7) assms(3,5) by simp
  have "\<bar>fill - p\<bar> \<le> slew c" using assms(4) by (auto simp: fill step_display_def)
  moreover have "p \<le> fill \<and> fill \<le> ss_fill_running_max s'" if "monotonic c" "p \<le> ss_fill_running_max s"
    using step_display_between [of p "ss_fill_running_max s'" "slew c"] that facts(4) by (simp add: fill)
  ultimately show ?thesis using s' facts(1) by blast
qed

text \<open>
  Two calls with one configuration, the first of which makes the session: the second continues it exactly
  when the requested circle lies in the frame, or none is requested, and the second comes within the idle time.
\<close>

theorem session_kept_exactly:
  assumes "dget m (session_key c) = None" and "0 \<le> or_default (tc_smoothing_window c) 51"
  shows "\<exists>t. fst (tank_infer disc e2 (Some f2) c (snd (tank_infer disc e1 (Some f1) c m))) = Inr t
     \<and> tr_frame_n t =
        (if (case tc_roi_circle c of None \<Rightarrow> True | Some q \<Rightarrow> clamp_circle (fm_width f1) (fm_height f1) q = q)
            \<and> (let idle = or_default (tc_session_idle_reset_s c) 5
               in 0 < idle \<longrightarrow> te_clock e2 1 - te_clock e1 4 \<le> idle)
         then 2 else 1)"
  using assms by (rule second_frame_number)

theorem session_kept_exactly_witness:
  "\<exists>t. fst (tank_infer no_disc (clock_at 3) (Some dark) no_config
        (snd (tank_infer no_disc (clock_at 1) (Some dark) no_config []))) = Inr t \<and> tr_frame_n t = 2"
  using session_kept_exactly [of "[]" no_config no_disc "clock_at 3" dark "clock_at 1" dark]
  by (simp add: no_config_def clock_at_def)

theorem display_moves_slowly_witness:
  "\<exists>s' v. dget (snd (tank_infer no_disc (clock_at 3) (Some dark) no_config
        (snd (tank_infer no_disc (clock_at 1) (Some dark) no_config [])))) ''default'' = Some s'
     \<and> ss_fill_display s' = Some v \<and> \<bar>v\<bar> \<le> 1 / 2"
proof -
  let ?m = "snd (tank_infer no_disc (clock_at 1) (Some dark) no_config [])"
  have k: "session_key no_config = ''default''" by (simp add: session_key_def no_config_def)
  have m: "\<exists>s. dget ?m ''default'' = Some s \<and> continues (clock_at 3) no_config s \<and> ss_fill_display s = Some 0"
    by (simp add: tank_infer_def get_session_def new_session_def new_detector_def BrightnessFillDetector_def
        no_config_def clock_at_def dark_def frame_step_def resolve_roi_def DEFAULT_DEMO_ROI_FRAME_def measure_frame_def
        no_disc_values no_signals_def active_calibration_def motion_update_def sweep_def step_display_def
        time_based_def monotonic_def session_key_def continues_def roi_changed_def tunables_changed_def
        differs_def idle_expired_def Let_def split: option.splits prod.splits)
  then obtain s where s: "dget ?m ''default'' = Some s" "continues (clock_at 3) no_config s" "ss_fill_display s = Some 0"
    by blast
  have "0 < slew no_config" "\<not> time_based no_config" "slew no_config = 1 / 2"
    by (simp_all add: slew_def time_based_def no_config_def)
  then show ?thesis
    using display_moves_slowly [of ?m no_config s "clock_at 3" 0 no_disc dark] s k by auto
qed

text \<open>
  C15. Automatic calibration after at least the frames of the warm-up: the empty anchor is the upper median of the
  first smoothed values and stays it whatever comes later, and the full mark starts at the prior span above it,
  never falls below that or the minimal span, and rises by at most the growth rate for each frame since.
\<close>

theorem auto_calibration_correct:
  assumes "BrightnessFillDetector thr window lo hi True warmup prior min_span grow = Some d0"
    and "0 \<le> grow" and "warmup_length warmup \<le> length fs"
  shows "\<exists>anchor top. active_calibration (fold observe fs d0) = (anchor, top, ''auto'')
     \<and> (let k = warmup_length warmup
        in anchor = sort (take k (smoothed (nat window) fs)) ! (k div 2)
           \<and> anchor + max prior min_span \<le> top
           \<and> top \<le> anchor + max (prior + real (length fs + 1 - k) * grow) min_span)
     \<and> mean (dt_history (fold observe fs d0)) = window_mean (nat window) fs"
proof -
  let ?d = "fold observe fs d0"
  have d0: "dt_auto_calibrate d0" "dt_auto_max_grow_rate d0 = grow" "dt_auto_warmup_frames d0 = warmup"
    "dt_smoothing_window d0 = window" "dt_auto_prior_span d0 = prior" "dt_auto_min_span d0 = min_span"
    using assms(1) by (auto simp: BrightnessFillDetector_def split: if_splits)
  have "0 \<le> dt_auto_max_grow_rate d0" using assms(2) d0 by simp
  from seen_by_fold [OF d0(1) this seen_by_start [OF assms(1)], of fs]
  have s: "seen_by d0 fs ?d" and t: "same_tunables d0 ?d" by auto
  note sd = s [unfolded seen_by_def Let_def d0]
  define anchor where "anchor = sort (take (warmup_length warmup) (smoothed (nat window) fs)) ! (warmup_length warmup div 2)"
  have "dt_empty_anchor ?d = Some anchor" "dt_auto_calibrate ?d" "dt_auto_min_span ?d = min_span"
    using sd assms(3) t d0 by (simp_all add: anchor_def same_tunables_def)
  then have "active_calibration ?d = (anchor, max (dt_auto_max ?d) (anchor + min_span), ''auto'')"
    by (simp add: active_calibration_def)
  moreover define g where "g = real (length fs + 1 - warmup_length warmup) * grow"
  moreover have "anchor + prior \<le> dt_auto_max ?d" "dt_auto_max ?d \<le> anchor + prior + g"
    using sd assms(3) by (simp_all add: anchor_def g_def)
  moreover have "mean (dt_history ?d) = window_mean (nat window) fs" using sd by (simp add: window_mean_def)
  ultimately show ?thesis
    unfolding Let_def anchor_def [symmetric] g_def [symmetric] by (auto simp: max_def)
qed

theorem auto_calibration_correct_witness:
  "\<exists>anchor top. active_calibration (fold observe [1 / 10, 3 / 10, 2 / 10]
      (the (BrightnessFillDetector 40 1 0 1 True 3 (1 / 10) 0 0))) = (anchor, top, ''auto'')
     \<and> anchor = 2 / 10 \<and> top = 3 / 10"
proof -
  let ?d0 = "the (BrightnessFillDetector 40 1 0 1 True 3 (1 / 10) 0 0)"
  let ?fs = "[1 / 10, 3 / 10, 2 / 10] :: real list"
  have d: "BrightnessFillDetector 40 1 0 1 True 3 (1 / 10) 0 0 = Some ?d0"
    by (simp add: BrightnessFillDetector_def)
  have k: "warmup_length 3 = 3" by (simp add: warmup_length_def)
  have sm: "smoothed (nat 1) ?fs = ?fs"
    by (simp add: smoothed_def window_mean_def mean_def upt_rec)
  have st: "sort ?fs ! (3 div 2) = 2 / 10" by simp
  obtain anchor top where "active_calibration (fold observe ?fs ?d0) = (anchor, top, ''auto'')"
    "anchor = sort (take 3 (smoothed (nat 1) ?fs)) ! (3 div 2)"
    "anchor + max (1 / 10) 0 \<le> top" "top \<le> anchor + max (1 / 10 + real (length ?fs + 1 - 3) * 0) 0"
    using auto_calibration_correct [OF d, of ?fs] unfolding k Let_def by auto
  then show ?thesis using sm st by auto
qed

text \<open>
  The radius found from a centre is the fixed share of the frame or a distance at which a ray can have met an
  edge, whatever the pixels are.
\<close>

theorem radius_bounded:
  "detect_radius_from_center rays f cx cy = py_trunc (of_int (min (fm_height f) (fm_width f)) * (15 / 100))
   \<or> 7 \<le> detect_radius_from_center rays f cx cy
     \<and> detect_radius_from_center rays f cx cy < py_trunc (of_int (min (fm_height f) (fm_width f)) * RAY_MAX_LEN_FRAC)"
  by (rule detect_radius_range)

section \<open>Regions outside the frame\<close>

text \<open>
  A requested circle is clamped to the frame when it is locked, and the next call compares the request with
  the clamped circle: a circle that does not fit resets the session on every frame.
\<close>

lemma clamped_circle_resets:
  "\<exists>t. fst (tank_infer no_disc (clock_at 3) (Some dark) (no_config\<lparr>tc_roi_circle := Some (10, 10, 11)\<rparr>)
        (snd (tank_infer no_disc (clock_at 1) (Some dark) (no_config\<lparr>tc_roi_circle := Some (10, 10, 11)\<rparr>) []))) = Inr t
     \<and> tr_frame_n t = 1"
  using second_frame_number [of "[]" "no_config\<lparr>tc_roi_circle := Some (10, 10, 11)\<rparr>" no_disc "clock_at 3" dark "clock_at 1" dark]
  by (simp add: no_config_def clock_at_def dark_def clamp_circle_def clamp_def)

text \<open>After a ramp of time the meter of the monotonic mode falls: the ramp sets it above the highest reading.\<close>

lemma ramp_then_falls:
  assumes "frame_step disc e f c s = ((fill, raw, sg, blend), s')" "monotonic c" "\<not> time_based c"
    "ss_fill_display s = Some p" "ss_fill_running_max s' < p"
  shows "fill < p"
  using frame_step_facts(7) [OF assms(1)] assms by (auto simp: step_display_def)

end
