(* ===== verification/PpeDetection.thy ===== *)
theory PpeDetection
  imports RuntimePrelude
begin

text \<open>
  \<open>ai/models/ppe_detection/1.0.0\<close>: a group of YOLO models for equipment that is worn and a group for equipment that
  is missing, run one after the other on a frame; the items found decide violation, type and severity. Parameters are
  the listing of the weights, the loading of a model and the boxes it finds; texts of logs, times and the device of
  the models are left out.
\<close>

section \<open>Models\<close>

datatype category = Presence | Violation

record PPEModelConfig =
  pm_name :: string
  pm_category :: category
  pm_ppe_item :: string
  pm_confidence_threshold :: real
  pm_enabled :: bool

record 'm PPEDetector =
  pd_global_confidence_threshold :: real
  pd_enabled_models :: "string set option"
  pd_thresholds :: "(string, real) dict"
  pd_presence_models :: "(string, 'm) dict"
  pd_violation_models :: "(string, 'm) dict"
  pd_model_configs :: "(string, PPEModelConfig) dict"

definition DEFAULT_THRESHOLDS :: "(string, real) dict" where
  "DEFAULT_THRESHOLDS =
     [(''hardhat'', 5 / 10), (''vest'', 5 / 10), (''goggles'', 45 / 100), (''gloves'', 4 / 10), (''boots'', 45 / 100),
      (''mask'', 45 / 100), (''person'', 5 / 10), (''no_hardhat'', 5 / 10), (''no_vest'', 5 / 10),
      (''no_goggles'', 45 / 100), (''no_gloves'', 4 / 10), (''no_boots'', 45 / 100), (''no_mask'', 45 / 100)]"

definition VIOLATION_TO_ITEM :: "(string, string) dict" where
  "VIOLATION_TO_ITEM =
     [(''no_hardhat'', ''hardhat''), (''no_vest'', ''vest''), (''no_goggles'', ''goggles''),
      (''no_gloves'', ''gloves''), (''no_boots'', ''boots''), (''no_mask'', ''mask'')]"

text \<open>\<open>s.replace("no_", "")\<close>.\<close>

fun remove_no :: "string \<Rightarrow> string" where
  "remove_no (x # y # z # s) =
     (if x = CHR ''n'' \<and> y = CHR ''o'' \<and> z = CHR ''_'' then remove_no s else x # remove_no (y # z # s))"
| "remove_no s = s"

definition item_of :: "category \<Rightarrow> string \<Rightarrow> string" where
  "item_of cat model_name =
     (case cat of Presence \<Rightarrow> model_name | Violation \<Rightarrow> dget_or VIOLATION_TO_ITEM model_name (remove_no model_name))"

text \<open>
  One weight file of a directory: skipped when not enabled; a model that does not load is logged. The files are given
  by their stems, in the order of \<open>glob\<close>.
\<close>

definition load_model :: "category \<Rightarrow> (string \<Rightarrow> 'm option) \<Rightarrow> string \<Rightarrow> 'm PPEDetector \<Rightarrow> 'm PPEDetector" where
  "load_model cat YOLO model_name d =
     (if (case pd_enabled_models d of None \<Rightarrow> False | Some names \<Rightarrow> model_name \<notin> names) then d
      else case YOLO model_name of None \<Rightarrow> d
      | Some m \<Rightarrow>
          (let c = \<lparr>pm_name = model_name, pm_category = cat, pm_ppe_item = item_of cat model_name,
                    pm_confidence_threshold = dget_or (pd_thresholds d) model_name (pd_global_confidence_threshold d),
                    pm_enabled = True\<rparr>;
               d1 = (case cat of
                  Presence \<Rightarrow> d\<lparr>pd_presence_models := dput model_name m (pd_presence_models d)\<rparr>
                | Violation \<Rightarrow> d\<lparr>pd_violation_models := dput model_name m (pd_violation_models d)\<rparr>)
           in d1\<lparr>pd_model_configs := dput model_name c (pd_model_configs d1)\<rparr>))"

definition new_detector :: "real \<Rightarrow> string set option \<Rightarrow> (string, real) dict \<Rightarrow> 'm PPEDetector" where
  "new_detector global_threshold enabled custom =
     \<lparr>pd_global_confidence_threshold = global_threshold, pd_enabled_models = enabled,
      pd_thresholds = dict_update DEFAULT_THRESHOLDS custom, pd_presence_models = [], pd_violation_models = [],
      pd_model_configs = []\<rparr>"

text \<open>\<open>PPEDetector(\<dots>)\<close> over the stems in \<open>both_classes\<close> and \<open>no_classes\<close>.\<close>

definition discover_and_load_models ::
    "(category \<Rightarrow> string \<Rightarrow> 'm option) \<Rightarrow> string list \<Rightarrow> string list \<Rightarrow> 'm PPEDetector \<Rightarrow> 'm PPEDetector" where
  "discover_and_load_models YOLO both_classes no_classes d =
     fold (load_model Violation (YOLO Violation)) no_classes (fold (load_model Presence (YOLO Presence)) both_classes d)"

definition set_config :: "string \<Rightarrow> (PPEModelConfig \<Rightarrow> PPEModelConfig) \<Rightarrow> 'm PPEDetector \<Rightarrow> 'm PPEDetector" where
  "set_config model_name f d =
     (case dget (pd_model_configs d) model_name of None \<Rightarrow> d
      | Some c \<Rightarrow> d\<lparr>pd_model_configs := dput model_name (f c) (pd_model_configs d)\<rparr>)"

definition update_threshold :: "string \<Rightarrow> real \<Rightarrow> 'm PPEDetector \<Rightarrow> 'm PPEDetector" where
  "update_threshold model_name t = set_config model_name (\<lambda>c. c\<lparr>pm_confidence_threshold := t\<rparr>)"

definition enable_model :: "string \<Rightarrow> 'm PPEDetector \<Rightarrow> 'm PPEDetector" where
  "enable_model model_name = set_config model_name (\<lambda>c. c\<lparr>pm_enabled := True\<rparr>)"

definition disable_model :: "string \<Rightarrow> 'm PPEDetector \<Rightarrow> 'm PPEDetector" where
  "disable_model model_name = set_config model_name (\<lambda>c. c\<lparr>pm_enabled := False\<rparr>)"

section \<open>Detection\<close>

text \<open>A box a model finds: corners, confidence, class and the name of the class, if the model has one.\<close>

record RawBox =
  rb_bbox :: "real list"
  rb_confidence :: real
  rb_class_id :: int
  rb_class_name :: "string option"

record PPEDetection =
  pn_item :: string
  pn_status :: string
  pn_confidence :: real
  pn_bbox :: "real list"
  pn_class_id :: int
  pn_class_name :: string
  pn_model_source :: string

text \<open>
  A model at a threshold gives the boxes that are processed before it raises, if it does: an exception is logged and the
  next model follows.
\<close>

type_synonym ('m, 'f) ppe_yolo = "'m \<Rightarrow> 'f \<Rightarrow> real \<Rightarrow> RawBox list"

record Group =
  gp_detections :: "PPEDetection list"
  gp_items_found :: "string list"
  gp_persons :: nat

definition no_group :: Group where
  "no_group = \<lparr>gp_detections = [], gp_items_found = [], gp_persons = 0\<rparr>"

definition to_lower :: "string \<Rightarrow> string" where
  "to_lower s = map (\<lambda>c. let n = (of_char c :: nat) in if 65 \<le> n \<and> n \<le> 90 then char_of (n + 32) else c) s"

definition class_name_of :: "RawBox \<Rightarrow> string" where
  "class_name_of b = (case rb_class_name b of None \<Rightarrow> show_int (rb_class_id b) | Some n \<Rightarrow> n)"

definition add_box :: "category \<Rightarrow> string \<Rightarrow> PPEModelConfig \<Rightarrow> RawBox \<Rightarrow> Group \<Rightarrow> Group" where
  "add_box cat model_name c b g =
     (let item = pm_ppe_item c;
          person = (to_lower (class_name_of b) = ''person'' \<or> model_name = ''person'');
          found = (item \<notin> set (gp_items_found g) \<and> (cat = Presence \<longrightarrow> item \<noteq> ''person''))
      in \<lparr>gp_detections = gp_detections g @ [\<lparr>pn_item = item,
            pn_status = (case cat of Presence \<Rightarrow> ''present'' | Violation \<Rightarrow> ''missing''),
            pn_confidence = py_round 4 (rb_confidence b), pn_bbox = map (py_round 2) (rb_bbox b),
            pn_class_id = rb_class_id b, pn_class_name = class_name_of b, pn_model_source = model_name\<rparr>],
          gp_items_found = (if found then gp_items_found g @ [item] else gp_items_found g),
          gp_persons = gp_persons g + (if person then 1 else 0)\<rparr>)"

text \<open>\<open>confidence_override or config.confidence_threshold\<close>.\<close>

definition threshold_for :: "real option \<Rightarrow> PPEModelConfig \<Rightarrow> real" where
  "threshold_for override c =
     (case override of Some t \<Rightarrow> if t \<noteq> 0 then t else pm_confidence_threshold c | None \<Rightarrow> pm_confidence_threshold c)"

fun run_models ::
    "('m, 'f) ppe_yolo \<Rightarrow> category \<Rightarrow> (string, PPEModelConfig) dict \<Rightarrow> 'f \<Rightarrow> string set option \<Rightarrow> real option
       \<Rightarrow> (string \<times> 'm) list \<Rightarrow> Group \<Rightarrow> Group option" where
  "run_models yolo cat configs img only override [] g = Some g"
| "run_models yolo cat configs img only override ((model_name, m) # ms) g =
     (if (case only of None \<Rightarrow> False | Some names \<Rightarrow> model_name \<notin> names)
      then run_models yolo cat configs img only override ms g
      else (case dget configs model_name of
              None \<Rightarrow> None
            | Some c \<Rightarrow> run_models yolo cat configs img only override ms
                 (fold (add_box cat model_name c) (yolo m img (threshold_for override c)) g)))"

definition run_model_group ::
    "('m, 'f) ppe_yolo \<Rightarrow> 'm PPEDetector \<Rightarrow> 'f \<Rightarrow> (string, 'm) dict \<Rightarrow> category \<Rightarrow> string set option \<Rightarrow> real option
       \<Rightarrow> Group option" where
  "run_model_group yolo d img models cat only override =
     run_models yolo cat (pd_model_configs d) img only override models no_group"

definition calculate_severity :: "string list \<Rightarrow> string" where
  "calculate_severity violations =
     (let critical_count = length (filter (\<lambda>v. v \<in> {''hardhat'', ''vest''}) violations)
      in if violations = [] then ''low''
         else if critical_count \<ge> 2 then ''critical''
         else if critical_count = 1 then ''high''
         else if length violations \<ge> 3 then ''high'' else ''medium'')"

definition calculate_overall_confidence :: "PPEDetection list \<Rightarrow> real" where
  "calculate_overall_confidence ds =
     (if ds = [] then 0 else py_round 4 (sum_list (map pn_confidence ds) / real (length ds)))"

record PPEResult =
  pr_violation_detected :: bool
  pr_violation_type :: "string option"
  pr_severity :: string
  pr_confidence :: real
  pr_detections :: "PPEDetection list"
  pr_persons_detected :: nat
  pr_violations :: "string list"
  pr_ppe_present :: "string list"
  pr_mode :: string

text \<open>\<open>detect\<close>; a mode is compared as a string, and a missing configuration raises \<open>KeyError\<close>, which is \<open>None\<close>.\<close>

definition detect ::
    "('m, 'f) ppe_yolo \<Rightarrow> 'm PPEDetector \<Rightarrow> 'f \<Rightarrow> string \<Rightarrow> string set option \<Rightarrow> real option \<Rightarrow> PPEResult option" where
  "detect yolo d img mode only override =
     (case (if mode \<in> {''presence'', ''full''}
            then run_model_group yolo d img (pd_presence_models d) Presence only override else Some no_group) of
        None \<Rightarrow> None
      | Some p \<Rightarrow>
          (case (if mode \<in> {''violation'', ''full''}
                 then run_model_group yolo d img (pd_violation_models d) Violation only override else Some no_group) of
             None \<Rightarrow> None
           | Some v \<Rightarrow> Some
               (let ds = gp_detections p @ gp_detections v; violations = gp_items_found v
                in \<lparr>pr_violation_detected = (violations \<noteq> []),
                    pr_violation_type = (if violations \<noteq> [] then Some ''ppe_violation'' else None),
                    pr_severity = calculate_severity violations, pr_confidence = calculate_overall_confidence ds,
                    pr_detections = ds, pr_persons_detected = max 0 (gp_persons p), pr_violations = violations,
                    pr_ppe_present = gp_items_found p, pr_mode = mode\<rparr>)))"

definition detect_batch ::
    "('m, 'f) ppe_yolo \<Rightarrow> 'm PPEDetector \<Rightarrow> 'f list \<Rightarrow> string \<Rightarrow> string set option \<Rightarrow> real option \<Rightarrow> PPEResult option list" where
  "detect_batch yolo d images mode only override = map (\<lambda>i. detect yolo d i mode only override) images"

section \<open>Inference\<close>

text \<open>Type and severity of the answer, from the violations and what the detector said.\<close>

definition judge :: "string list \<Rightarrow> string option \<times> string \<Rightarrow> string option \<times> string" where
  "judge violations said =
     (if violations = [] then said
      else if ''hardhat'' \<in> set violations \<or> ''vest'' \<in> set violations then
        (Some (if ''hardhat'' \<in> set violations then ''missing_hardhat'' else ''missing_vest''), ''critical'')
      else if ''goggles'' \<in> set violations \<or> ''mask'' \<in> set violations then
        (Some (if ''goggles'' \<in> set violations then ''missing_goggles'' else ''missing_mask''), ''high'')
      else (if truthy_str (fst said) then fst said else Some ''ppe_violation'', ''medium''))"

definition ppe_stub :: PPEResult where
  "ppe_stub = \<lparr>pr_violation_detected = False, pr_violation_type = None, pr_severity = ''low'', pr_confidence = 0,
     pr_detections = [], pr_persons_detected = 0, pr_violations = [], pr_ppe_present = [], pr_mode = ''stub''\<rparr>"

record 'm PPEModule =
  pq_model :: "'m PPEDetector option"
  pq_initialized :: bool
  pq_load_failed :: bool

definition ppe_module :: "'m PPEModule" where
  "ppe_module = \<lparr>pq_model = None, pq_initialized = False, pq_load_failed = False\<rparr>"

text \<open>The lazy load; \<open>None\<close> is any exception of it. A failed load is never tried again.\<close>

definition lazy_load :: "'m PPEDetector option \<Rightarrow> 'm PPEModule \<Rightarrow> 'm PPEModule" where
  "lazy_load load s =
     (if \<not> pq_initialized s \<and> \<not> pq_load_failed s then
        (case load of Some d \<Rightarrow> s\<lparr>pq_model := Some d, pq_initialized := True\<rparr> | None \<Rightarrow> s\<lparr>pq_load_failed := True\<rparr>)
      else s)"

definition cleanup :: "'m PPEModule \<Rightarrow> 'm PPEModule" where
  "cleanup s = s\<lparr>pq_model := None, pq_initialized := False\<rparr>"

text \<open>\<open>infer\<close> on a frame that is an array, with the mode of the configuration.\<close>

definition ppe_infer ::
    "'m PPEDetector option \<Rightarrow> ('m, 'f) ppe_yolo \<Rightarrow> 'f option \<Rightarrow> string option \<Rightarrow> 'm PPEModule
       \<Rightarrow> (py_error + PPEResult) \<times> 'm PPEModule" where
  "ppe_infer load yolo frame mode s =
     (case frame of None \<Rightarrow> (Inl (ValueError ''Frame must be numpy array''), s)
      | Some f \<Rightarrow>
          (let s' = lazy_load load s
           in (Inr (case pq_model s' of
                 None \<Rightarrow> ppe_stub
               | Some d \<Rightarrow>
                   if pq_load_failed s' then ppe_stub
                   else (case detect yolo d f (case mode of None \<Rightarrow> ''full'' | Some m \<Rightarrow> m) None None of
                           None \<Rightarrow> ppe_stub
                         | Some r \<Rightarrow>
                             (case judge (pr_violations r) (pr_violation_type r, pr_severity r) of (ty, sev) \<Rightarrow>
                                r\<lparr>pr_violation_detected := (pr_violations r \<noteq> []), pr_violation_type := ty,
                                  pr_severity := sev, pr_confidence := py_round 3 (pr_confidence r)\<rparr>))), s')))"

section \<open>Lemmas: groups\<close>

lemma fold_add_box:
  "gp_detections (fold (add_box cat n c) bs g) = gp_detections g @ map (\<lambda>b. hd (gp_detections (add_box cat n c b no_group))) bs
   \<and> (set (gp_items_found (fold (add_box cat n c) bs g)) =
        set (gp_items_found g) \<union> (if bs \<noteq> [] \<and> (cat = Presence \<longrightarrow> pm_ppe_item c \<noteq> ''person'') then {pm_ppe_item c} else {}))
   \<and> (distinct (gp_items_found g) \<longrightarrow> distinct (gp_items_found (fold (add_box cat n c) bs g)))"
proof (induction bs arbitrary: g)
  case Nil
  then show ?case by simp
next
  case (Cons b bs)
  have "gp_detections (add_box cat n c b g) = gp_detections g @ [hd (gp_detections (add_box cat n c b no_group))]"
    by (simp add: add_box_def no_group_def Let_def)
  moreover have "set (gp_items_found (add_box cat n c b g)) =
      set (gp_items_found g) \<union> (if cat = Presence \<longrightarrow> pm_ppe_item c \<noteq> ''person'' then {pm_ppe_item c} else {})"
    "distinct (gp_items_found g) \<longrightarrow> distinct (gp_items_found (add_box cat n c b g))"
    by (auto simp: add_box_def Let_def)
  ultimately show ?case using Cons.IH [of "add_box cat n c b g"] by auto
qed

text \<open>The models of a group that run, with their configuration and what they find.\<close>

definition runs ::
    "('m, 'f) ppe_yolo \<Rightarrow> (string, PPEModelConfig) dict \<Rightarrow> 'f \<Rightarrow> string set option \<Rightarrow> real option
       \<Rightarrow> (string \<times> 'm) list \<Rightarrow> (string \<times> PPEModelConfig \<times> RawBox list) list" where
  "runs yolo configs img only override ms =
     map (\<lambda>(n, m). let c = the (dget configs n) in (n, c, yolo m img (threshold_for override c)))
       (filter (\<lambda>(n, m). case only of None \<Rightarrow> True | Some names \<Rightarrow> n \<in> names) ms)"

definition boxes_of :: "category \<Rightarrow> string \<times> PPEModelConfig \<times> RawBox list \<Rightarrow> PPEDetection list" where
  "boxes_of cat r = (case r of (n, c, bs) \<Rightarrow> map (\<lambda>b. hd (gp_detections (add_box cat n c b no_group))) bs)"

definition items_of :: "category \<Rightarrow> string \<times> PPEModelConfig \<times> RawBox list \<Rightarrow> string set" where
  "items_of cat r = (case r of (n, c, bs) \<Rightarrow>
     if bs \<noteq> [] \<and> (cat = Presence \<longrightarrow> pm_ppe_item c \<noteq> ''person'') then {pm_ppe_item c} else {})"

lemma boxes_items [simp]:
  "boxes_of cat (n, c, bs) = map (\<lambda>b. hd (gp_detections (add_box cat n c b no_group))) bs"
  "items_of cat (n, c, bs) = (if bs \<noteq> [] \<and> (cat = Presence \<longrightarrow> pm_ppe_item c \<noteq> ''person'') then {pm_ppe_item c} else {})"
  by (simp_all add: boxes_of_def items_of_def)

lemma run_models_eq:
  assumes "\<forall>(n, m) \<in> set ms. dget configs n \<noteq> None"
  shows "\<exists>g'. run_models yolo cat configs img only override ms g = Some g'
    \<and> gp_detections g' = gp_detections g @ concat (map (boxes_of cat) (runs yolo configs img only override ms))
    \<and> set (gp_items_found g') = set (gp_items_found g) \<union> \<Union> (items_of cat ` set (runs yolo configs img only override ms))
    \<and> (distinct (gp_items_found g) \<longrightarrow> distinct (gp_items_found g'))"
  using assms
proof (induction ms arbitrary: g)
  case Nil
  then show ?case by (simp add: runs_def)
next
  case (Cons nm ms)
  obtain n m where nm: "nm = (n, m)" by fastforce
  obtain c where c: "dget configs n = Some c" using Cons.prems nm by auto
  have ms: "\<forall>(n, m) \<in> set ms. dget configs n \<noteq> None" using Cons.prems by simp
  show ?case
  proof (cases "case only of None \<Rightarrow> True | Some names \<Rightarrow> n \<in> names")
    case True
    let ?bs = "yolo m img (threshold_for override c)"
    let ?g = "fold (add_box cat n c) ?bs g"
    have r: "runs yolo configs img only override (nm # ms) = (n, c, ?bs) # runs yolo configs img only override ms"
      using True by (simp add: runs_def nm c Let_def)
    have "run_models yolo cat configs img only override (nm # ms) g = run_models yolo cat configs img only override ms ?g"
      using True by (auto simp: nm c split: option.splits)
    moreover obtain g' where "run_models yolo cat configs img only override ms ?g = Some g'"
      "gp_detections g' = gp_detections ?g @ concat (map (boxes_of cat) (runs yolo configs img only override ms))"
      "set (gp_items_found g') = set (gp_items_found ?g) \<union> \<Union> (items_of cat ` set (runs yolo configs img only override ms))"
      "distinct (gp_items_found ?g) \<longrightarrow> distinct (gp_items_found g')"
      using Cons.IH [OF ms, of ?g] by blast
    ultimately show ?thesis using fold_add_box [of cat n c ?bs g] unfolding r
      by (intro exI [of _ g']) (simp add: Un_assoc)
  next
    case False
    then have "runs yolo configs img only override (nm # ms) = runs yolo configs img only override ms"
      "run_models yolo cat configs img only override (nm # ms) g = run_models yolo cat configs img only override ms g"
      by (auto simp: runs_def nm split: option.splits)
    then show ?thesis using Cons.IH [OF ms, of g] by simp
  qed
qed

text \<open>Every model has a configuration, whatever is loaded and set.\<close>

definition detector_ok :: "'m PPEDetector \<Rightarrow> bool" where
  "detector_ok d \<longleftrightarrow>
     (\<forall>n m. (n, m) \<in> set (pd_presence_models d) \<union> set (pd_violation_models d) \<longrightarrow> dget (pd_model_configs d) n \<noteq> None)"

lemma set_dput: "(n, v) \<in> set (dput k w m) \<Longrightarrow> (n, v) \<in> set m \<or> n = k \<and> v = w"
  by (induction m) (auto split: if_splits)

lemma load_model_ok: "detector_ok d \<Longrightarrow> detector_ok (load_model cat YOLO n d)"
  by (auto simp: detector_ok_def load_model_def Let_def dest!: set_dput split: option.splits category.splits)

lemma fold_load_ok: "detector_ok d \<Longrightarrow> detector_ok (fold (load_model cat YOLO) ns d)"
  by (induction ns arbitrary: d) (simp_all add: load_model_ok)

inductive ppstep :: "'m PPEDetector \<Rightarrow> 'm PPEDetector \<Rightarrow> bool" where
  threshold: "ppstep d (update_threshold n t d)"
| enable: "ppstep d (enable_model n d)"
| disable: "ppstep d (disable_model n d)"

lemma set_config_ok: "detector_ok d \<Longrightarrow> detector_ok (set_config n f d)"
  by (auto simp: detector_ok_def set_config_def split: option.splits)

interpretation ppe_detector: invariant_system
  "\<lambda>d. \<exists>YOLO ps vs g en cu. d = discover_and_load_models YOLO ps vs (new_detector g en cu)" ppstep detector_ok
proof unfold_locales
  show "detector_ok d"
    if "\<exists>YOLO ps vs g en cu. d = discover_and_load_models YOLO ps vs (new_detector g en cu)" for d :: "'m PPEDetector"
    using that by (auto simp: discover_and_load_models_def intro!: fold_load_ok) (simp add: detector_ok_def new_detector_def)
  show "detector_ok d'" if "ppstep d d'" "detector_ok d" for d d' :: "'m PPEDetector"
    using that by cases (simp_all add: update_threshold_def enable_model_def disable_model_def set_config_ok)
qed

lemma run_models_disabled:
  "run_models yolo cat (pd_model_configs (set_config n (pm_enabled_update f) d)) img only override ms g
     = run_models yolo cat (pd_model_configs d) img only override ms g"
proof (induction ms arbitrary: g)
  case Nil
  then show ?case by simp
next
  case (Cons nm ms)
  obtain k m where nm: "nm = (k, m)" by fastforce
  have "add_box cat k (pm_enabled_update f c) = add_box cat k c" for c
    by (simp add: fun_eq_iff add_box_def Let_def)
  moreover have "threshold_for override (pm_enabled_update f c) = threshold_for override c" for c
    by (simp add: threshold_for_def split: option.splits)
  ultimately show ?case using Cons.IH
    by (auto simp: nm set_config_def split: option.splits)
qed

section \<open>Properties\<close>

text \<open>
  C24. The full mode, on every detector that loading and setting can make: the missing items are those of the models for
  missing equipment that run and find a box, each once; a violation is reported exactly when there is one; the items
  worn are those of the other group, persons apart; and the detections are the boxes of both groups in their order.
\<close>

theorem violations_exact:
  assumes "reach (\<lambda>d. \<exists>YOLO ps vs g en cu. d = discover_and_load_models YOLO ps vs (new_detector g en cu)) ppstep d"
  shows "\<exists>r. detect yolo d img ''full'' only override = Some r
    \<and> (let missing = runs yolo (pd_model_configs d) img only override (pd_violation_models d);
           worn = runs yolo (pd_model_configs d) img only override (pd_presence_models d)
       in set (pr_violations r) = {pm_ppe_item c |n c bs. (n, c, bs) \<in> set missing \<and> bs \<noteq> []}
          \<and> distinct (pr_violations r)
          \<and> (pr_violation_detected r \<longleftrightarrow> (\<exists>n c bs. (n, c, bs) \<in> set missing \<and> bs \<noteq> []))
          \<and> set (pr_ppe_present r) = {pm_ppe_item c |n c bs. (n, c, bs) \<in> set worn \<and> bs \<noteq> []} - {''person''}
          \<and> pr_detections r = concat (map (boxes_of Presence) worn) @ concat (map (boxes_of Violation) missing))"
proof -
  have ok: "detector_ok d" using assms by (rule ppe_detector.reach_invar)
  let ?c = "pd_model_configs d"
  let ?worn = "runs yolo ?c img only override (pd_presence_models d)"
  let ?missing = "runs yolo ?c img only override (pd_violation_models d)"
  have "\<forall>(n, m) \<in> set (pd_presence_models d). dget ?c n \<noteq> None" "\<forall>(n, m) \<in> set (pd_violation_models d). dget ?c n \<noteq> None"
    using ok by (auto simp: detector_ok_def)
  note eqs = this [THEN run_models_eq, of yolo _ img only override no_group]
  obtain p where p: "run_model_group yolo d img (pd_presence_models d) Presence only override = Some p"
    "gp_detections p = concat (map (boxes_of Presence) ?worn)"
    "set (gp_items_found p) = \<Union> (items_of Presence ` set ?worn)"
    using eqs(1) [of Presence] by (auto simp: run_model_group_def no_group_def)
  obtain v where v: "run_model_group yolo d img (pd_violation_models d) Violation only override = Some v"
    "gp_detections v = concat (map (boxes_of Violation) ?missing)"
    "set (gp_items_found v) = \<Union> (items_of Violation ` set ?missing)" "distinct (gp_items_found v)"
    using eqs(2) [of Violation] by (auto simp: run_model_group_def no_group_def)
  have iv: "\<Union> (items_of Violation ` set ?missing) = {pm_ppe_item c |n c bs. (n, c, bs) \<in> set ?missing \<and> bs \<noteq> []}"
    by (fastforce split: if_splits)
  have ip: "\<Union> (items_of Presence ` set ?worn) = {pm_ppe_item c |n c bs. (n, c, bs) \<in> set ?worn \<and> bs \<noteq> []} - {''person''}"
    by (fastforce split: if_splits)
  have e: "{pm_ppe_item c |n c bs. (n, c, bs) \<in> set ?missing \<and> bs \<noteq> []} = {}
      \<longleftrightarrow> \<not> (\<exists>n c bs. (n, c, bs) \<in> set ?missing \<and> bs \<noteq> [])" by blast
  have "gp_items_found v = [] \<longleftrightarrow> set (gp_items_found v) = {}" by simp
  then have "gp_items_found v \<noteq> [] \<longleftrightarrow> (\<exists>n c bs. (n, c, bs) \<in> set ?missing \<and> bs \<noteq> [])"
    unfolding v(3) iv e by simp
  then show ?thesis
    using p v by (simp add: detect_def Let_def iv ip)
qed

definition demo_detector :: "unit PPEDetector" where
  "demo_detector = discover_and_load_models (\<lambda>_ _. Some ()) [] [''no_vest''] (new_detector (1 / 2) None [])"

definition demo_box :: RawBox where
  "demo_box = \<lparr>rb_bbox = [0, 0, 1, 1], rb_confidence = 1, rb_class_id = 0, rb_class_name = None\<rparr>"

theorem violations_exact_witness:
  "\<exists>r. detect (\<lambda>_ _ _. [demo_box]) demo_detector () ''full'' None None = Some r \<and> set (pr_violations r) = {''vest''}"
proof -
  have d: "reach (\<lambda>d. \<exists>YOLO ps vs g en cu. d = discover_and_load_models YOLO ps vs (new_detector g en cu)) ppstep demo_detector"
    by (rule reach_init) (use demo_detector_def in blast)
  have m: "pd_violation_models demo_detector = [(''no_vest'', ())]"
    "map_option pm_ppe_item (dget (pd_model_configs demo_detector) ''no_vest'') = Some ''vest''"
    by (simp_all add: demo_detector_def discover_and_load_models_def load_model_def new_detector_def item_of_def
        VIOLATION_TO_ITEM_def dget_or_def Let_def)
  show ?thesis
    using violations_exact [OF d, of "\<lambda>_ _ _. [demo_box]" "()" None None] m
    by (auto simp: runs_def Let_def)
qed

text \<open>
  The answer of the model, in every state of the module: the severity is critical exactly when a helmet or a vest is
  missing, high when it is not and goggles or a mask are, medium for other items and low when nothing is, and a type is
  named exactly when something is missing.
\<close>

theorem severity_by_items:
  assumes "fst (ppe_infer load yolo frame mode s) = Inr r"
  shows "(pr_severity r = ''critical'' \<longleftrightarrow> {''hardhat'', ''vest''} \<inter> set (pr_violations r) \<noteq> {})
    \<and> (pr_severity r = ''high'' \<longleftrightarrow> {''hardhat'', ''vest''} \<inter> set (pr_violations r) = {}
         \<and> {''goggles'', ''mask''} \<inter> set (pr_violations r) \<noteq> {})
    \<and> (pr_severity r = ''low'' \<longleftrightarrow> pr_violations r = [])
    \<and> (pr_violation_type r = None \<longleftrightarrow> pr_violations r = [])
    \<and> (pr_violation_detected r \<longleftrightarrow> pr_violations r \<noteq> [])"
proof -
  have d: "detect yolo d f m None None = Some x \<Longrightarrow> pr_violations x = [] \<Longrightarrow>
      pr_violation_type x = None \<and> pr_severity x = ''low''" for d f m x
    by (auto simp: detect_def calculate_severity_def Let_def split: option.splits)
  show ?thesis using assms
    by (auto simp: ppe_infer_def ppe_stub_def judge_def Let_def truthy_str_def dest: d split: option.splits if_splits)
qed

theorem severity_by_items_witness:
  "\<exists>r. fst (ppe_infer (Some demo_detector) (\<lambda>_ _ _. [demo_box]) (Some ()) None ppe_module) = Inr r
     \<and> (pr_violation_detected r \<longleftrightarrow> pr_violations r \<noteq> [])"
proof -
  obtain r where "fst (ppe_infer (Some demo_detector) (\<lambda>_ _ _. [demo_box]) (Some ()) None ppe_module) = Inr r"
    by (simp add: ppe_infer_def Let_def)
  with severity_by_items [OF this] show ?thesis by blast
qed

section \<open>Settings without effect\<close>

text \<open>Nothing reads the flag \<open>enabled\<close>: a disabled model runs as before.\<close>

lemma disabled_model_runs:
  "detect yolo (disable_model n d) img mode only override = detect yolo d img mode only override"
proof -
  have 1: "run_model_group yolo (set_config n (pm_enabled_update f) d) img ms cat only override
      = run_model_group yolo d img ms cat only override" for f ms cat
    by (simp add: run_model_group_def run_models_disabled)
  have 2: "pd_presence_models (set_config n f d) = pd_presence_models d"
    "pd_violation_models (set_config n f d) = pd_violation_models d" for f
    by (simp_all add: set_config_def split: option.splits)
  show ?thesis unfolding detect_def disable_model_def 1 2 ..
qed

text \<open>A mode that is none of the three runs no model, and reports that nothing is missing.\<close>

lemma unknown_mode_reports_nothing:
  "map_option pr_violation_detected (detect yolo d img ''violations'' only override) = Some False"
  by (simp add: detect_def no_group_def)

text \<open>A load that fails once is never tried again, even after \<open>cleanup\<close>.\<close>

lemma failed_load_stays:
  "pq_load_failed s \<Longrightarrow> fst (ppe_infer (Some d) yolo (Some f) mode (cleanup s)) = Inr ppe_stub"
  by (simp add: ppe_infer_def lazy_load_def cleanup_def Let_def)

end
