(* ===== verification/Spec2Isabelle.thy ===== *)
theory Spec2Isabelle
  imports ConcurrencyProofs Recovery RWLock Coordinator Pipeline Discovery Loader BackendClient
    ShiftSchedule EventIngestion EvidenceService InferenceLoop
    VASClient ChatService EventConsumer BookmarkAnalysis RuntimeDirectory
    GeoFencing TankMonitor PpeDetection
begin

text \<open>
  A model of Ruth AI, a video analytics system. Its runtime (\<open>ai/runtime\<close>) hosts AI models: it keeps a
  registry of model versions, decides which version answers a request, admits requests under
  concurrency limits, executes model code in sandboxes with time-outs, and takes versions that keep
  failing out of service. Its backend (\<open>ruth-ai-backend/app\<close>) keeps cameras, inference sessions, events,
  violations and their evidence in a database and talks to VAS, the server of the video streams.
  Its chat service answers questions with queries. Everything here is a definition translated from one file of
  the source, and theorems about these definitions.

  \<^bold>\<open>Parts.\<close>
  \<^item> \<open>RuntimePrelude\<close>: Python dictionaries as association lists with insertion order (\<open>dget\<close>, \<open>dput\<close>,
    \<open>ddel\<close>), JSON values, string helpers, reachability and the interface locales.
  \<^item> \<open>RuntimeErrors\<close>: \<open>errors.py\<close>, the error codes, their categories and the error objects.
  \<^item> \<open>RuntimeModels\<close>: \<open>models.py\<close>, identifiers, life-cycle states, health, contract specifications and
    version descriptors.
  \<^item> \<open>Registry\<close> and \<open>RWLock\<close>: \<open>registry.py\<close>, the store of models and versions with its listeners, and
    its readers-writer lock as a state machine of counted threads.
  \<^item> \<open>SemVer\<close> and \<open>Versioning\<close>: \<open>versioning.py\<close>, semantic versions and their order, eligibility, the
    resolver and the life-cycle manager.
  \<^item> \<open>Concurrency\<close> and \<open>ConcurrencyProofs\<close>: \<open>concurrency.py\<close>, slots, per-model and global limits,
    backpressure, admission and the fair scheduler, and the theorems on them.
  \<^item> \<open>CircuitBreaker\<close> and \<open>Recovery\<close>: \<open>recovery.py\<close>, the failure policy, circuits and their state file;
    disabling and re-enabling versions, and the wired stack of breaker, manager and registry.
  \<^item> \<open>Sandbox\<close>: \<open>sandbox.py\<close>, the time-out executor, the three stages of an execution, metrics and
    health.
  \<^item> \<open>Coordinator\<close>: \<open>coordinator.py\<close>, which keeps registry and sandboxes in step.
  \<^item> \<open>Pipeline\<close>: \<open>pipeline.py\<close>, the public entry: a request is validated, resolved, checked, admitted,
    executed and answered, over the components above.
  \<^item> \<open>GpuManager\<close> and \<open>Loader\<close>: \<open>gpu_manager.py\<close>, reservations of GPU memory, and \<open>loader.py\<close>, which imports
    a model's code, warms it up and holds the memory for it.
  \<^item> \<open>Validator\<close> and \<open>Discovery\<close>: \<open>validator.py\<close>, the check of a \<open>model.yaml\<close>, and \<open>discovery.py\<close>, the scan of
    the models directory into the registry and the polling watcher.
  \<^item> \<open>Reporting\<close> and \<open>BackendClient\<close>: \<open>reporting.py\<close>, model health derived from versions, capability reports,
    the capacity tracker and the publisher with its back-off; \<open>backend_client.py\<close>, the two HTTP clients
    that carry reports to the backend, with their retry loops, and the publisher over them.
  \<^item> \<open>BackendModels\<close>: \<open>app/models\<close>, the tables of the backend as dictionaries of records, and queries.
  \<^item> \<open>DeviceService\<close>: \<open>device_service.py\<close>, the table of cameras as a copy of what VAS lists.
  \<^item> \<open>StreamService\<close>: \<open>stream_service.py\<close>, inference sessions and their states, and the routes that start and
    stop inference under the transaction of a request.
  \<^item> \<open>ViolationService\<close>: \<open>violation_service.py\<close>, events become violations, and the states of a violation.
  \<^item> \<open>EventIngestion\<close>: \<open>event_ingestion_service.py\<close>, results of an inference become events and reach the
    violation service.
  \<^item> \<open>EvidenceService\<close>: \<open>evidence_service.py\<close>, snapshots and clips of violations, and the loop that polls VAS.
  \<^item> \<open>InferenceLoop\<close>: \<open>inference_loop.py\<close>, the background loop: the budget that sets the pace, the decision that
    a result is a new violation, and the tasks of the live sessions. A turn of a task is one step.
  \<^item> \<open>VASClient\<close>: \<open>integrations/vas\<close>, the client of VAS: tokens, retries, the meaning of error answers, all calls, and
    the waits. The record of the client holds what was sent and how long it slept.
  \<^item> \<open>SqlValidator\<close> and \<open>ChatService\<close>: \<open>ruth-ai-nlp-chat/app\<close>, the check of a generated query, and a question from its
    template or language model to the answer.
  \<^item> \<open>EventConsumer\<close>: \<open>vas_event_consumer.py\<close>, the events of VAS that pause and resume streams, read from a stored
    position over failing connections.
  \<^item> \<open>BookmarkAnalysis\<close>: \<open>bookmark_analysis_*.py\<close> with the client of the runtime and its routes: a submitted analysis
    and its worker, the sampled frames, the summary, and the video with byte ranges.
  \<^item> \<open>RuntimeDirectory\<close>: \<open>api/internal/ai_runtime.py\<close>, the runtimes registered at the backend; it receives what
    \<open>BackendClient\<close> sends.
  \<^item> \<open>GeoFencing\<close>, \<open>TankMonitor\<close> and \<open>PpeDetection\<close>: three packages under \<open>ai/models\<close>, the code around a
    network: points in polygons and persons in zones, the fill level with its calibration and sessions, and the
    models of protective equipment.
  \<^item> \<open>ShiftSchedule\<close>: \<open>shift_schedule.py\<close> and \<open>shift_service.py\<close>, the shifts of a site, the window an instant lies
    in, and the counts of open violations.

  \<^bold>\<open>How they are modelled.\<close> A class is a record, an enumeration a datatype with the names of its
  members, a method a function from the object to its answer and the changed object. A raised
  exception is the left side of a sum or an option. A method that runs under a lock is one atomic step;
  where the lock itself is the question (\<open>RWLock\<close>, the deadlocks of \<open>Recovery\<close> and \<open>Concurrency\<close>) its
  acquisition is written out, and where a method gives the lock up in between (\<open>allocate\<close> of \<open>GpuManager\<close>) each of its
  sections is a step. The clocks are parameters: \<open>utc 0\<close>, \<open>utc 1\<close>, ... are the successive
  readings in one call. Model code is a parameter as well: submitting a function comes to an answer, an
  exception or no answer in time. Python integers are unbounded, durations are reals. All operations
  are total functions, so no fuel is used; the loops that end only when a clock advances, the poll of
  \<open>EvidenceService\<close> and the waits of \<open>VASClient\<close>, are partial functions that are proved to return. A table is a dictionary from identifiers to
  rows and a query a filter, with the order of the database as a parameter; a session is the table it
  works on, except in \<open>EvidenceService\<close>, where flushed rows and objects in memory are kept apart. File systems, parsed YAML and GPU drivers are parameters too:
  functions from paths or devices to what they answer.

  \<^bold>\<open>Interfaces.\<close> \<open>keyed_store\<close> (lookup after insertion and deletion) is interpreted on the registry;
  \<open>keyed_order\<close> and \<open>keyed_total_order\<close> on semantic versions; \<open>state_table\<close> (one version's state is set,
  the others keep theirs) on the life-cycle calls; \<open>paired_store\<close> extends it by a set of sandboxes and is
  interpreted on registry and sandbox manager; \<open>contract_validator\<close> (a descriptor has the identity that was
  asked for) is what \<open>Discovery\<close> uses of a validator and is interpreted on \<open>Validator\<close>; \<open>invariant_system\<close> is interpreted on every component that
  has a step relation.

  \<^bold>\<open>Conditions.\<close> Where a property holds only under a condition the code does not check, its text says so and a lemma
  beside it shows what happens otherwise: unregistering a model whose slots are held (\<open>unregister_breaks_global_limit\<close>),
  negative requests for GPU memory (\<open>negative_request_overbooks\<close>), modules a plugin imports itself
  (\<open>side_module_stays\<close>), a stop that meets no waiting task (\<open>stop_leaves_entries\<close>), tables after a comma
  (\<open>comma_table_accepted\<close>), a ramp before the monotonic display (\<open>ramp_then_falls\<close>).

  \<^bold>\<open>Not modelled.\<close> Log calls, thread and process pools behind the outcome of a submission, the text of
  tracebacks and generated identifiers (parameters). Of the backend, the services that render files or read the
  system, and routes that only pass values between a framework and a service; outside it, the HTTP server of the
  runtime, the networks of the model packages and those packages that are image processing throughout, the
  prototypes, the older chatbot and the user interface. The manifest lists them.
\<close>

end
